(* ===== verification/Js_Prelude.thy ===== *)
theory Js_Prelude
  imports Main
begin

text \<open>
  Shared vocabulary of the development: the part of JavaScript's strings, arrays and JSON values
  that the modelled modules of \<open>apps/api/src\<close> use, the named collections of simplification rules,
  and the generic locale of state machines whose invariants are proved step by step.

  A JavaScript string is a HOL \<^typ>\<open>string\<close>: a list of UTF-16 code units that are all below 256.
  Every function here is exact on those strings; code units from 256 upwards are not represented.
\<close>

named_theorems js_string \<open>facts on the string operations of the source language\<close>
named_theorems step_inv \<open>one-step preservation lemmas\<close>

section \<open>Lists\<close>

text \<open>\<open>xs.slice(-n)\<close> for a positive \<open>n\<close>.\<close>

definition lastn :: "nat \<Rightarrow> 'a list \<Rightarrow> 'a list" where
  "lastn n xs = drop (length xs - n) xs"

lemma length_lastn [simp]: "length (lastn n xs) = min n (length xs)"
  by (simp add: lastn_def)

lemma lastn_all [simp]: "length xs \<le> n \<Longrightarrow> lastn n xs = xs"
  by (simp add: lastn_def)

lemma lastn_append: "lastn n (xs @ ys) =
    (if n \<le> length ys then lastn n ys else lastn (n - length ys) xs @ ys)"
  by (auto simp: lastn_def)

lemma lastn_lastn: "m \<le> n \<Longrightarrow> lastn m (lastn n xs) = lastn m xs"
  by (cases "n \<le> length xs") (auto simp: lastn_def)

lemma lastn_lastn_snoc: "0 < n \<Longrightarrow> lastn n (lastn n xs @ [x]) = lastn n (xs @ [x])"
  by (simp add: lastn_append lastn_lastn)

lemma set_lastn_subset: "set (lastn n xs) \<subseteq> set xs"
  by (simp add: lastn_def set_drop_subset)

lemma count_list_append [simp]: "count_list (xs @ ys) x = count_list xs x + count_list ys x"
  by (induction xs) auto

lemma count_list_lastn: "count_list (lastn n xs) x \<le> count_list xs x"
proof -
  have "count_list xs x = count_list (take (length xs - n) xs @ lastn n xs) x"
    by (simp only: lastn_def append_take_drop_id)
  then show ?thesis by simp
qed

lemma length_filter_eq_count: "length (filter (\<lambda>y. y = x) xs) = count_list xs x"
  by (induction xs) auto

lemma count_list_distinct: "distinct xs \<Longrightarrow> x \<in> set xs \<Longrightarrow> count_list xs x = 1"
  by (induction xs) auto

text \<open>\<open>xs.join(sep)\<close>.\<close>

fun js_join :: "string \<Rightarrow> string list \<Rightarrow> string" where
  "js_join sep [] = []"
| "js_join sep [x] = x"
| "js_join sep (x # y # xs) = x @ sep @ js_join sep (y # xs)"

section \<open>Characters and strings\<close>

abbreviation char_nat :: "char \<Rightarrow> nat" where
  "char_nat c \<equiv> of_char c"

text \<open>The class \<open>\s\<close>, which is also what \<open>trim\<close> removes.\<close>

definition is_ws :: "char \<Rightarrow> bool" where
  "is_ws c = (let n = char_nat c in (9 \<le> n \<and> n \<le> 13) \<or> n = 32 \<or> n = 160)"

definition is_digit :: "char \<Rightarrow> bool" where
  "is_digit c = (let n = char_nat c in 48 \<le> n \<and> n \<le> 57)"

definition is_upper :: "char \<Rightarrow> bool" where
  "is_upper c = (let n = char_nat c in 65 \<le> n \<and> n \<le> 90)"

definition is_lower :: "char \<Rightarrow> bool" where
  "is_lower c = (let n = char_nat c in 97 \<le> n \<and> n \<le> 122)"

definition is_word :: "char \<Rightarrow> bool" where
  "is_word c = (is_digit c \<or> is_upper c \<or> is_lower c \<or> c = CHR ''_'')"

text \<open>\<open>toLowerCase\<close> on the Latin-1 range.\<close>

definition lower_char :: "char \<Rightarrow> char" where
  "lower_char c = (let n = char_nat c in
     if (65 \<le> n \<and> n \<le> 90) \<or> (192 \<le> n \<and> n \<le> 222 \<and> n \<noteq> 215)
     then char_of (n + 32) else c)"

definition to_lower :: "string \<Rightarrow> string" where
  "to_lower s = map lower_char s"

definition trim_start :: "string \<Rightarrow> string" where
  "trim_start s = dropWhile is_ws s"

definition trim_end :: "string \<Rightarrow> string" where
  "trim_end s = rev (dropWhile is_ws (rev s))"

definition js_trim :: "string \<Rightarrow> string" where
  "js_trim s = trim_end (trim_start s)"

fun starts_with :: "string \<Rightarrow> string \<Rightarrow> bool" where
  "starts_with s [] = True"
| "starts_with [] (p # ps) = False"
| "starts_with (c # s) (p # ps) = (c = p \<and> starts_with s ps)"

definition ends_with :: "string \<Rightarrow> string \<Rightarrow> bool" where
  "ends_with s p = starts_with (rev s) (rev p)"

fun includes_str :: "string \<Rightarrow> string \<Rightarrow> bool" where
  "includes_str [] p = (p = [])"
| "includes_str (c # s) p = (starts_with (c # s) p \<or> includes_str s p)"

text \<open>The non-empty pieces of \<open>s.split(/\s+/)\<close>.\<close>

fun ws_words_acc :: "string \<Rightarrow> string \<Rightarrow> string list" where
  "ws_words_acc acc [] = (if acc = [] then [] else [rev acc])"
| "ws_words_acc acc (c # s) =
     (if is_ws c then (if acc = [] then ws_words_acc [] s else rev acc # ws_words_acc [] s)
      else ws_words_acc (c # acc) s)"

definition ws_words :: "string \<Rightarrow> string list" where
  "ws_words s = ws_words_acc [] s"

text \<open>\<open>s.split(c)\<close> for a single character.\<close>

fun split_at_char :: "char \<Rightarrow> string \<Rightarrow> string \<Rightarrow> string list" where
  "split_at_char sep acc [] = [rev acc]"
| "split_at_char sep acc (c # cs) =
     (if c = sep then rev acc # split_at_char sep [] cs else split_at_char sep (c # acc) cs)"

definition js_split :: "char \<Rightarrow> string \<Rightarrow> string list" where
  "js_split sep s = split_at_char sep [] s"

lemma split_at_char_append: "sep \<notin> set u \<Longrightarrow>
    split_at_char sep acc (u @ sep # s) = (rev acc @ u) # split_at_char sep [] s"
  by (induction u arbitrary: acc) auto

lemma split_at_char_no_sep: "sep \<notin> set u \<Longrightarrow> split_at_char sep acc u = [rev acc @ u]"
  by (induction u arbitrary: acc) auto

lemma js_split_append [js_string]: "sep \<notin> set u \<Longrightarrow> js_split sep (u @ sep # s) = u # js_split sep s"
  by (simp add: js_split_def split_at_char_append)

lemma js_split_terminated: "\<forall>e\<in>set es. sep \<notin> set e \<Longrightarrow>
    js_split sep (concat (map (\<lambda>e. e @ [sep]) es)) = es @ [[]]"
  by (induction es) (auto simp: js_split_def split_at_char_append)

text \<open>Decimal rendering of a number inside a template literal.\<close>

fun show_nat :: "nat \<Rightarrow> string" where
  "show_nat n = (if n < 10 then [char_of (48 + n)]
                 else show_nat (n div 10) @ [char_of (48 + n mod 10)])"

declare show_nat.simps [simp del]

definition show_int :: "int \<Rightarrow> string" where
  "show_int i = (if i < 0 then ''-'' @ show_nat (nat (- i)) else show_nat (nat i))"

lemma starts_with_append [js_string, simp]: "starts_with (p @ s) p"
  by (induction p) auto

lemma starts_with_iff [js_string]: "starts_with s p \<longleftrightarrow> (\<exists>t. s = p @ t)"
  by (induction s p rule: starts_with.induct) auto

lemma ends_with_iff [js_string]: "ends_with s p \<longleftrightarrow> (\<exists>t. s = t @ p)"
proof
  assume "ends_with s p"
  then obtain t where "rev s = rev p @ t"
    by (auto simp: ends_with_def starts_with_iff)
  then have "s = rev t @ p"
    by (metis rev_append rev_rev_ident)
  then show "\<exists>t. s = t @ p" ..
next
  assume "\<exists>t. s = t @ p"
  then show "ends_with s p"
    by (auto simp: ends_with_def starts_with_iff)
qed

lemma includes_str_iff [js_string]: "includes_str s p \<longleftrightarrow> (\<exists>u v. s = u @ p @ v)"
proof (induction s)
  case Nil
  then show ?case by auto
next
  case (Cons c s)
  show ?case
  proof
    assume "includes_str (c # s) p"
    then show "\<exists>u v. c # s = u @ p @ v"
    proof (simp, elim disjE)
      assume "starts_with (c # s) p"
      then obtain t where "c # s = [] @ p @ t" by (auto simp: starts_with_iff)
      then show ?thesis by blast
    next
      assume "includes_str s p"
      then obtain u v where "s = u @ p @ v" using Cons by blast
      then have "c # s = (c # u) @ p @ v" by simp
      then show ?thesis by blast
    qed
  next
    assume "\<exists>u v. c # s = u @ p @ v"
    then obtain u v where eq: "c # s = u @ p @ v" by blast
    show "includes_str (c # s) p"
    proof (cases u)
      case Nil
      then have "starts_with (c # s) p" using eq by (auto simp: starts_with_iff)
      then show ?thesis by simp
    next
      case (Cons d u')
      then have "s = u' @ p @ v" using eq by simp
      then show ?thesis using Cons.IH by auto
    qed
  qed
qed

lemma js_trim_id:
  assumes "s \<noteq> []" and "\<not> is_ws (hd s)" and "\<not> is_ws (last s)"
  shows "js_trim s = s"
proof -
  have "trim_start s = s"
    using assms(1,2) by (cases s) (auto simp: trim_start_def)
  moreover have "trim_end s = s"
    using assms(1,3) by (cases s rule: rev_cases) (auto simp: trim_end_def)
  ultimately show ?thesis by (simp add: js_trim_def)
qed

lemma trim_end_infix: "\<exists>w. s = trim_end s @ w"
proof -
  have "rev s = takeWhile is_ws (rev s) @ dropWhile is_ws (rev s)" by simp
  then have "s = rev (dropWhile is_ws (rev s)) @ rev (takeWhile is_ws (rev s))"
    by (metis rev_append rev_rev_ident)
  then show ?thesis by (auto simp: trim_end_def)
qed

lemma trim_start_infix: "\<exists>w. s = w @ trim_start s"
  unfolding trim_start_def by (metis takeWhile_dropWhile_id)

lemma js_trim_infix: "\<exists>u v. s = u @ js_trim s @ v"
proof -
  obtain u where u: "s = u @ trim_start s" using trim_start_infix by blast
  obtain v where v: "trim_start s = js_trim s @ v"
    using trim_end_infix [of "trim_start s"] by (auto simp: js_trim_def)
  from u v show ?thesis by metis
qed

lemma set_js_trim: "set (js_trim s) \<subseteq> set s"
proof -
  obtain u v where "s = u @ js_trim s @ v" using js_trim_infix by blast
  then have "set s = set u \<union> set (js_trim s) \<union> set v" by (metis set_append Un_assoc)
  then show ?thesis by auto
qed

lemma ws_words_acc_nonempty: "w \<in> set (ws_words_acc acc s) \<Longrightarrow> w \<noteq> []"
  by (induction acc s rule: ws_words_acc.induct) (auto split: if_splits)

lemma ws_words_nonempty: "w \<in> set (ws_words s) \<Longrightarrow> w \<noteq> []"
  by (simp add: ws_words_def ws_words_acc_nonempty)

lemma ws_words_acc_ws: "list_all is_ws w \<Longrightarrow> ws_words_acc acc w = (if acc = [] then [] else [rev acc])"
  by (induction w arbitrary: acc) auto

lemma ws_words_acc_append_ws:
  "list_all is_ws w \<Longrightarrow> ws_words_acc acc (s @ w) = ws_words_acc acc s"
  by (induction acc s rule: ws_words_acc.induct) (auto simp: ws_words_acc_ws)

lemma ws_words_acc_dropWhile: "ws_words_acc [] (dropWhile is_ws s) = ws_words_acc [] s"
  by (induction s) auto

lemma list_all_takeWhile_rev: "list_all f (rev (takeWhile f s))"
  by (auto simp: list_all_iff dest: set_takeWhileD)

lemma ws_words_js_trim [simp]: "ws_words (js_trim s) = ws_words s"
proof -
  let ?t = "trim_start s"
  have "rev ?t = takeWhile is_ws (rev ?t) @ dropWhile is_ws (rev ?t)" by simp
  then have "?t = trim_end ?t @ rev (takeWhile is_ws (rev ?t))"
    unfolding trim_end_def by (metis rev_append rev_rev_ident)
  then have "ws_words_acc [] ?t = ws_words_acc [] (trim_end ?t)"
    by (metis ws_words_acc_append_ws list_all_takeWhile_rev)
  then show ?thesis
    by (simp add: ws_words_def js_trim_def trim_start_def ws_words_acc_dropWhile)
qed

lemma ws_words_Nil [simp]: "ws_words [] = []"
  by (simp add: ws_words_def)

section \<open>JSON values\<close>

text \<open>
  What \<open>JSON.parse\<close> returns. Numbers are the integers: the modelled code only asks whether a field
  is a number and, for the fields it reads, handles integers.
\<close>

datatype json =
    JNull
  | JBool bool
  | JNum int
  | JStr string
  | JArr "json list"
  | JObj "(string \<times> json) list"

text \<open>
  A text column that the code reads with \<open>JSON.parse\<close> is modelled by what the parse makes of it:
  \<open>None\<close> is text on which \<open>JSON.parse\<close> throws.
\<close>

type_synonym json_text = "json option"

definition hex_digit :: "nat \<Rightarrow> char" where
  "hex_digit n = (if n < 10 then char_of (48 + n) else char_of (87 + n))"

definition json_escape_char :: "char \<Rightarrow> string" where
  "json_escape_char c = (let n = char_nat c in
     if n = 34 then [CHR 0x5C, CHR 0x22]
     else if n = 92 then [CHR 0x5C, CHR 0x5C]
     else if n = 8 then [CHR 0x5C, CHR ''b'']
     else if n = 12 then [CHR 0x5C, CHR ''f'']
     else if n = 10 then [CHR 0x5C, CHR ''n'']
     else if n = 13 then [CHR 0x5C, CHR ''r'']
     else if n = 9 then [CHR 0x5C, CHR ''t'']
     else if n < 32 then CHR 0x5C # ''u00'' @ [hex_digit (n div 16), hex_digit (n mod 16)]
     else [c])"

definition json_quote :: "string \<Rightarrow> string" where
  "json_quote s = CHR 0x22 # concat (map json_escape_char s) @ [CHR 0x22]"

fun json_stringify :: "json \<Rightarrow> string"
  and json_items :: "json list \<Rightarrow> string list"
  and json_fields :: "(string \<times> json) list \<Rightarrow> string list" where
  "json_stringify JNull = ''null''"
| "json_stringify (JBool b) = (if b then ''true'' else ''false'')"
| "json_stringify (JNum i) = show_int i"
| "json_stringify (JStr s) = json_quote s"
| "json_stringify (JArr xs) = ''['' @ js_join '','' (json_items xs) @ '']''"
| "json_stringify (JObj fs) = ''{'' @ js_join '','' (json_fields fs) @ ''}''"
| "json_items [] = []"
| "json_items (x # xs) = json_stringify x # json_items xs"
| "json_fields [] = []"
| "json_fields ((k, v) # fs) = (json_quote k @ '':'' @ json_stringify v) # json_fields fs"

text \<open>Reading a property: the last of two equal keys wins in \<open>JSON.parse\<close>.\<close>

definition obj_get :: "(string \<times> json) list \<Rightarrow> string \<Rightarrow> json option" where
  "obj_get fs k = map_of (rev fs) k"

fun json_as_str :: "json \<Rightarrow> string option" where
  "json_as_str (JStr s) = Some s"
| "json_as_str _ = None"

text \<open>A string that JavaScript treats as true: present and not empty.\<close>

fun truthy_str :: "string option \<Rightarrow> bool" where
  "truthy_str None = False"
| "truthy_str (Some s) = (s \<noteq> [])"

section \<open>Time stamps\<close>

text \<open>An ISO time stamp by the milliseconds it denotes; \<open>BadIso\<close> is text on which \<open>Date.parse\<close> yields NaN.\<close>

datatype iso_time = IsoMs int | BadIso

section \<open>State machines\<close>

text \<open>The states reachable from an initial state by a step relation.\<close>

inductive reach :: "('s \<Rightarrow> bool) \<Rightarrow> ('s \<Rightarrow> 's \<Rightarrow> bool) \<Rightarrow> 's \<Rightarrow> bool"
  for init step where
  reach_init: "init s \<Longrightarrow> reach init step s"
| reach_step: "reach init step s \<Longrightarrow> step s t \<Longrightarrow> reach init step t"

text \<open>
  The contract of a state machine with an invariant. The components provide the machine and discharge
  the two laws; what holds of every reachable state, and of every state reachable from a reachable
  one, is proved once here.
\<close>

locale invariant_system =
  fixes init :: "'s \<Rightarrow> bool"
    and step :: "'s \<Rightarrow> 's \<Rightarrow> bool"
    and inv :: "'s \<Rightarrow> bool"
  assumes init_inv: "init s \<Longrightarrow> inv s"
    and step_keeps: "inv s \<Longrightarrow> step s t \<Longrightarrow> inv t"
begin

lemma reach_inv: "reach init step s \<Longrightarrow> inv s"
  by (induction rule: reach.induct) (auto intro: init_inv step_keeps)

lemma steps_inv: "step\<^sup>*\<^sup>* s t \<Longrightarrow> inv s \<Longrightarrow> inv t"
  by (induction rule: rtranclp_induct) (auto intro: step_keeps)

end

text \<open>A machine that moreover only moves upwards in a preorder: what is settled stays settled.\<close>

locale monotone_system = invariant_system +
  fixes le :: "'s \<Rightarrow> 's \<Rightarrow> bool"
  assumes le_refl: "le s s"
    and le_trans: "le s t \<Longrightarrow> le t u \<Longrightarrow> le s u"
    and step_le: "inv s \<Longrightarrow> step s t \<Longrightarrow> le s t"
begin

lemma steps_le: "step\<^sup>*\<^sup>* s t \<Longrightarrow> inv s \<Longrightarrow> le s t"
proof (induction rule: rtranclp_induct)
  case base
  then show ?case by (simp add: le_refl)
next
  case (step t u)
  then have "inv t" by (blast intro: steps_inv)
  with step show ?case by (blast intro: le_trans step_le)
qed

lemma reach_steps_le: "reach init step s \<Longrightarrow> step\<^sup>*\<^sup>* s t \<Longrightarrow> le s t"
  by (blast intro: steps_le reach_inv)

end

end
