(* ===== verification/Js_Path.thy ===== *)
theory Js_Path
  imports Js_Prelude
begin

text \<open>
  The part of the \<open>path\<close> module of the runtime, for POSIX, that the modelled modules use:
  \<open>resolve\<close>, \<open>join\<close>, \<open>normalize\<close>, \<open>dirname\<close>, \<open>basename\<close>, \<open>relative\<close> and \<open>isAbsolute\<close>, on strings that hold no
  trailing separators where the callers promise none. A path is \<open>canonical\<close> when it is what \<open>resolve\<close>
  returns: absolute, without empty, dot and dot-dot segments.
\<close>

abbreviation slash :: char where "slash \<equiv> CHR ''/''"

definition isAbsolute :: "string \<Rightarrow> bool" where
  "isAbsolute p = starts_with p ''/''"

text \<open>
  The segments of \<open>normalizeString\<close>: the stack \<open>st\<close> is reversed. A dot-dot removes a segment; with nothing to
  remove it is kept when the path is relative and dropped when it is absolute.
\<close>

fun norm_segs :: "bool \<Rightarrow> string list \<Rightarrow> string list \<Rightarrow> string list" where
  "norm_segs up st [] = rev st"
| "norm_segs up st (x # xs) =
     (if x = [] \<or> x = ''.'' then norm_segs up st xs
      else if x = ''..'' then
        (case st of
           [] \<Rightarrow> norm_segs up (if up then [''..''] else []) xs
         | y # ys \<Rightarrow> if y = ''..'' then norm_segs up (if up then ''..'' # st else st) xs
                     else norm_segs up ys xs)
      else norm_segs up (x # st) xs)"

definition path_normalize :: "string \<Rightarrow> string" where
  "path_normalize p =
     (if p = [] then ''.''
      else let body = js_join ''/'' (norm_segs (\<not> isAbsolute p) [] (js_split slash p));
               trailing = ends_with p ''/''
           in if body = [] then (if isAbsolute p then ''/'' else if trailing then ''./'' else ''.'')
              else (if isAbsolute p then ''/'' else []) @ body @ (if trailing then ''/'' else []))"

definition path_join :: "string list \<Rightarrow> string" where
  "path_join ps = (let qs = filter (\<lambda>p. p \<noteq> []) ps
                   in if qs = [] then ''.'' else path_normalize (js_join ''/'' qs))"

text \<open>\<open>resolve(base, p)\<close> for an absolute \<open>base\<close>; \<open>resolve(p)\<close> is that with the working directory as the base.\<close>

definition canonical_of :: "string list \<Rightarrow> string" where
  "canonical_of segs = ''/'' @ js_join ''/'' segs"

definition path_resolve :: "string \<Rightarrow> string \<Rightarrow> string" where
  "path_resolve base p = canonical_of
     (norm_segs False [] (js_split slash (if isAbsolute p then p else base @ ''/'' @ p)))"

text \<open>
  \<open>dirname\<close>: trailing separators are skipped, then the last segment; the separators before it are
  dropped one at a time, as the scan from the end stops at the first one it meets.
\<close>

definition path_dirname :: "string \<Rightarrow> string" where
  "path_dirname p =
     (if p = [] then ''.''
      else let c = hd p;
               r = dropWhile (\<lambda>x. x \<noteq> slash) (dropWhile (\<lambda>x. x = slash) (rev (tl p)))
           in case r of
                [] \<Rightarrow> if c = slash then ''/'' else ''.''
              | _ # t \<Rightarrow> if c = slash \<and> t = [] then ''//'' else c # rev t)"

definition path_basename :: "string \<Rightarrow> string" where
  "path_basename p = rev (takeWhile (\<lambda>x. x \<noteq> slash) (dropWhile (\<lambda>x. x = slash) (rev p)))"

text \<open>\<open>s.slice(s.lastIndexOf("/") + 1)\<close>\<close>

definition after_last_slash :: "string \<Rightarrow> string" where
  "after_last_slash p = rev (takeWhile (\<lambda>x. x \<noteq> slash) (rev p))"

text \<open>\<open>relative(from, to)\<close> for absolute paths without dot segments.\<close>

fun drop_common :: "string list \<Rightarrow> string list \<Rightarrow> string list \<times> string list" where
  "drop_common (x # xs) (y # ys) = (if x = y then drop_common xs ys else (x # xs, y # ys))"
| "drop_common xs ys = (xs, ys)"

definition path_segs :: "string \<Rightarrow> string list" where
  "path_segs p = filter (\<lambda>s. s \<noteq> []) (js_split slash p)"

definition path_relative :: "string \<Rightarrow> string \<Rightarrow> string" where
  "path_relative from to =
    (let (up, down) = drop_common (path_segs from) (path_segs to)
     in js_join ''/'' (replicate (length up) ''..'' @ down))"

section \<open>Canonical paths\<close>

definition plain_seg :: "string \<Rightarrow> bool" where
  "plain_seg x \<longleftrightarrow> x \<noteq> [] \<and> x \<noteq> ''.'' \<and> x \<noteq> ''..'' \<and> slash \<notin> set x"

definition canonical :: "string \<Rightarrow> bool" where
  "canonical p \<longleftrightarrow> (\<exists>segs. list_all plain_seg segs \<and> p = canonical_of segs)"

lemma js_split_no_sep: "x \<in> set (js_split sep s) \<Longrightarrow> sep \<notin> set x"
proof -
  have "x \<in> set (split_at_char sep acc s) \<Longrightarrow> sep \<notin> set acc \<Longrightarrow> sep \<notin> set x" for acc
    by (induction sep acc s rule: split_at_char.induct) (auto split: if_splits)
  then show "x \<in> set (js_split sep s) \<Longrightarrow> sep \<notin> set x" by (simp add: js_split_def)
qed

lemma split_at_char_mid:
  "split_at_char sep acc (u @ sep # w) = split_at_char sep acc u @ split_at_char sep [] w"
  by (induction u arbitrary: acc) auto

lemma js_split_mid: "js_split sep (u @ sep # w) = js_split sep u @ js_split sep w"
  by (simp add: js_split_def split_at_char_mid)

lemma js_split_final: "sep \<notin> set x \<Longrightarrow> x \<in> set (js_split sep (u @ sep # x))"
  by (simp add: js_split_mid) (simp add: js_split_def split_at_char_no_sep)

lemma js_split_middle: "sep \<notin> set x \<Longrightarrow> x \<in> set (js_split sep (u @ sep # x @ sep # w))"
  using js_split_final [of sep x u] js_split_mid [of sep "u @ sep # x" w] by simp

lemma list_all_split: "list_all (\<lambda>x. sep \<notin> set x) (js_split sep s)"
  by (auto simp: list_all_iff dest: js_split_no_sep)

lemma norm_segs_plain:
  "list_all plain_seg st \<Longrightarrow> list_all (\<lambda>x. slash \<notin> set x) xs \<Longrightarrow> list_all plain_seg (norm_segs False st xs)"
proof (induction "False" st xs rule: norm_segs.induct)
  case (2 st x xs)
  then show ?case by (auto simp: plain_seg_def split: list.splits)
qed simp

lemma canonical_resolve [simp]: "canonical (path_resolve base p)"
proof -
  let ?full = "if isAbsolute p then p else base @ ''/'' @ p"
  have "list_all plain_seg (norm_segs False [] (js_split slash ?full))"
    by (rule norm_segs_plain) (simp, rule list_all_split)
  then show ?thesis unfolding canonical_def path_resolve_def by blast
qed

lemma norm_segs_id: "list_all plain_seg xs \<Longrightarrow> norm_segs up st xs = rev st @ xs"
  by (induction xs arbitrary: st) (auto simp: plain_seg_def)

lemma split_join_segs: "list_all plain_seg xs \<Longrightarrow> xs \<noteq> [] \<Longrightarrow> js_split slash (js_join ''/'' xs) = xs"
proof (induction "''/''" xs rule: js_join.induct)
  case (2 x)
  then show ?case by (simp add: js_split_def split_at_char_no_sep plain_seg_def)
next
  case (3 x y xs)
  then show ?case by (simp add: js_string plain_seg_def)
qed simp

lemma canonical_of_split:
  "list_all plain_seg xs \<Longrightarrow> js_split slash (canonical_of xs) = (if xs = [] then [[], []] else [] # xs)"
proof -
  assume a: "list_all plain_seg xs"
  have "js_split slash ([] @ slash # js_join ''/'' xs) = [] # js_split slash (js_join ''/'' xs)"
    by (rule js_split_append) simp
  with a show ?thesis
    by (cases "xs = []") (simp_all add: canonical_of_def split_join_segs, simp add: js_split_def)
qed

lemma isAbsolute_canonical_of [simp]: "isAbsolute (canonical_of xs)"
  by (simp add: isAbsolute_def canonical_of_def)

lemma path_resolve_canonical: "canonical p \<Longrightarrow> path_resolve base p = p"
  unfolding canonical_def path_resolve_def
  by (auto simp: canonical_of_split norm_segs_id)

lemma path_resolve_idem [simp]: "path_resolve base (path_resolve base' p) = path_resolve base' p"
  by (simp add: path_resolve_canonical)

lemma canonical_absolute: "canonical p \<Longrightarrow> starts_with p ''/''"
  by (auto simp: canonical_def canonical_of_def)

section \<open>Joining segments\<close>

lemma canonical_of_canonical [simp]: "list_all plain_seg xs \<Longrightarrow> canonical (canonical_of xs)"
  by (auto simp: canonical_def)

lemma norm_segs_drop_empty: "norm_segs up st xs = norm_segs up st (filter (\<lambda>x. x \<noteq> []) xs)"
  by (induction up st xs rule: norm_segs.induct) (auto split: list.splits)

lemma split_canonical_nonempty:
  "list_all plain_seg xs \<Longrightarrow> filter (\<lambda>x. x \<noteq> []) (js_split slash (canonical_of xs)) = xs"
  by (auto simp: canonical_of_split plain_seg_def list_all_iff intro!: filter_True)

lemma js_join_append: "xs \<noteq> [] \<Longrightarrow> ys \<noteq> [] \<Longrightarrow> js_join sep (xs @ ys) = js_join sep xs @ sep @ js_join sep ys"
  by (induction sep xs rule: js_join.induct) (auto simp: neq_Nil_conv)

lemma js_join_plain_ne: "list_all plain_seg xs \<Longrightarrow> xs \<noteq> [] \<Longrightarrow> js_join ''/'' xs \<noteq> []"
  by (induction "''/''" xs rule: js_join.induct) (auto simp: plain_seg_def)

lemma js_join_last_char: "list_all plain_seg xs \<Longrightarrow> xs \<noteq> [] \<Longrightarrow> last (js_join ''/'' xs) \<noteq> slash"
proof (induction "''/''" xs rule: js_join.induct)
  case (2 x)
  then show ?case by (simp add: plain_seg_def) (metis last_in_set)
next
  case (3 x y xs)
  then show ?case using js_join_plain_ne [of "y # xs"] by (simp del: js_join.simps) (simp)
qed simp

lemma js_join_hd_char: "list_all plain_seg xs \<Longrightarrow> xs \<noteq> [] \<Longrightarrow> \<not> starts_with (js_join ''/'' xs) ''/''"
  by (cases xs rule: list.exhaust; cases "tl xs"; cases "hd xs") (auto simp: plain_seg_def)

lemma ends_with_slash: "p \<noteq> [] \<Longrightarrow> ends_with p ''/'' \<longleftrightarrow> last p = slash"
  by (cases p rule: rev_cases) (auto simp: ends_with_def)

lemma join_canonical:
  assumes "list_all plain_seg xs" and "list_all plain_seg ss" and "ss \<noteq> []"
  shows "path_join [canonical_of xs, js_join ''/'' ss] = canonical_of (xs @ ss)"
proof -
  let ?full = "canonical_of xs @ ''/'' @ js_join ''/'' ss"
  have ne: "js_join ''/'' ss \<noteq> []" using js_join_plain_ne assms(2,3) by blast
  have "filter (\<lambda>x. x \<noteq> []) (js_split slash ?full) = xs @ ss"
    using assms split_canonical_nonempty [OF assms(1)]
    by (auto simp: js_split_mid split_join_segs plain_seg_def list_all_iff intro!: filter_True)
  then have norm: "norm_segs False [] (js_split slash ?full) = xs @ ss"
    using norm_segs_drop_empty [of False "[]" "js_split slash ?full"] norm_segs_id [of "xs @ ss" False "[]"] assms by simp
  have abs: "isAbsolute ?full" by (simp add: isAbsolute_def canonical_of_def)
  have tr: "\<not> ends_with ?full ''/''"
    using js_join_last_char [OF assms(2,3)] ne by (simp add: ends_with_slash)
  have b: "js_join ''/'' (xs @ ss) \<noteq> []" using js_join_plain_ne [of "xs @ ss"] assms by simp
  have "path_normalize ?full = canonical_of (xs @ ss)"
    using norm abs tr b by (simp add: path_normalize_def Let_def canonical_of_def)
  then show ?thesis using ne by (simp add: path_join_def canonical_of_def)
qed

lemma join_relative:
  assumes "plain_seg s" and "list_all plain_seg ss" and "ss \<noteq> []"
  shows "path_join [s, js_join ''/'' ss] = js_join ''/'' (s # ss)"
proof -
  let ?full = "s @ ''/'' @ js_join ''/'' ss"
  have full: "?full = js_join ''/'' (s # ss)" using assms(3) by (cases ss) auto
  have ne: "js_join ''/'' ss \<noteq> []" "s \<noteq> []" using js_join_plain_ne assms by (auto simp: plain_seg_def)
  have l: "list_all plain_seg (s # ss)" using assms by simp
  have norm: "norm_segs True [] (js_split slash ?full) = s # ss"
    unfolding full using split_join_segs [OF l] norm_segs_id [OF l, of True "[]"] by simp
  have abs: "\<not> isAbsolute ?full" unfolding full isAbsolute_def using js_join_hd_char [OF l] by simp
  have tr: "\<not> ends_with ?full ''/''"
    using js_join_last_char [OF assms(2,3)] ne by (simp add: ends_with_slash)
  have "path_normalize ?full = js_join ''/'' (s # ss)"
    using norm abs tr js_join_plain_ne [OF l] ne by (simp add: path_normalize_def Let_def full)
  then show ?thesis using ne by (simp add: path_join_def)
qed

lemma dropWhile_plain: "plain_seg s \<Longrightarrow> dropWhile (\<lambda>x. x = slash) (rev s @ t) = rev s @ t"
  by (cases s rule: rev_cases) (auto simp: plain_seg_def)

lemma last_segment:
  assumes "list_all plain_seg xs" and "plain_seg s"
  shows "path_basename (canonical_of (xs @ [s])) = s"
    and "path_dirname (canonical_of (xs @ [s])) = canonical_of xs"
proof -
  have s: "slash \<notin> set s" "s \<noteq> []" using assms(2) by (auto simp: plain_seg_def)
  have root: "canonical_of ([] @ [s]) = slash # s"
    and deep: "xs \<noteq> [] \<Longrightarrow> canonical_of (xs @ [s]) = slash # js_join ''/'' xs @ slash # s"
    by (simp_all add: canonical_of_def js_join_append)
  have tw: "takeWhile (\<lambda>x. x \<noteq> slash) (rev s @ slash # t) = rev s"
    and dw: "dropWhile (\<lambda>x. x \<noteq> slash) (rev s @ slash # t) = slash # t" for t
    using s by (simp_all add: takeWhile_append dropWhile_append)
  have dn: "dropWhile (\<lambda>x. x \<noteq> slash) (rev s) = []" using s by (auto simp: dropWhile_eq_Nil_conv)
  have ne: "xs \<noteq> [] \<Longrightarrow> js_join ''/'' xs \<noteq> []" using js_join_plain_ne assms(1) by blast
  note plain = dropWhile_plain [OF assms(2)] dropWhile_plain [OF assms(2), of "[]", simplified]
  have "path_basename (canonical_of (xs @ [s])) = s \<and> path_dirname (canonical_of (xs @ [s])) = canonical_of xs"
  proof (cases "xs = []")
    case True
    then show ?thesis
      unfolding path_basename_def path_dirname_def True root
      by (simp add: plain tw dn canonical_of_def)
  next
    case False
    then show ?thesis
      unfolding path_basename_def path_dirname_def deep [OF False]
      using ne by (simp add: plain tw dw canonical_of_def)
  qed
  then show "path_basename (canonical_of (xs @ [s])) = s" "path_dirname (canonical_of (xs @ [s])) = canonical_of xs"
    by blast+
qed

lemma root_dirname [simp]: "path_dirname (canonical_of []) = canonical_of []"
  by (simp add: path_dirname_def canonical_of_def)

end
