(* ===== verification/Js_Regex.thy ===== *)
theory Js_Regex
  imports Js_Prelude "HOL-Library.Sublist"
begin

text \<open>
  JavaScript regular expressions without capturing groups, as the modelled modules write them. A
  position in the subject is a zipper: the code unit before it, if any, and the rest of the string.
  \<open>rx_ends r p\<close> lists the positions where a match of \<open>r\<close> that starts at \<open>p\<close> can end, in the order in
  which the backtracking matcher of the language tries them: the head is the match it returns.
  An iteration of \<open>*\<close> that consumes nothing is rejected, as the language does, so the matcher
  terminates with as much fuel as there are code units left.

  \<open>rx_ends_Star_iff\<close> and \<open>rx_test_iff\<close> relate the executable matcher to its declarative reading.
\<close>

type_synonym rpos = "char option \<times> string"

datatype rx =
    Eps
  | Cls "char \<Rightarrow> bool"
  | Seq rx rx
  | Alt rx rx
  | Star rx
  | LazyStar rx
  | Bol
  | Eol
  | WordB
  | Look rx
  | NegLook rx

definition nub :: "'a list \<Rightarrow> 'a list" where
  "nub xs = rev (remdups (rev xs))"

lemma set_nub [simp]: "set (nub xs) = set xs"
  by (simp add: nub_def)

lemma nub_Nil [simp]: "nub xs = [] \<longleftrightarrow> xs = []"
  by (simp add: nub_def)

text \<open>Iterating a one-step matcher; every iteration has to consume.\<close>

fun iter_ends :: "nat \<Rightarrow> (rpos \<Rightarrow> rpos list) \<Rightarrow> rpos \<Rightarrow> rpos list" where
  "iter_ends 0 f p = [p]"
| "iter_ends (Suc n) f p =
     nub (concat (map (iter_ends n f) (filter (\<lambda>q. length (snd q) < length (snd p)) (f p))) @ [p])"

fun lazy_ends :: "nat \<Rightarrow> (rpos \<Rightarrow> rpos list) \<Rightarrow> rpos \<Rightarrow> rpos list" where
  "lazy_ends 0 f p = [p]"
| "lazy_ends (Suc n) f p =
     nub (p # concat (map (lazy_ends n f) (filter (\<lambda>q. length (snd q) < length (snd p)) (f p))))"

definition word_at :: "char option \<Rightarrow> bool" where
  "word_at c = (case c of None \<Rightarrow> False | Some x \<Rightarrow> is_word x)"

definition next_char :: "string \<Rightarrow> char option" where
  "next_char s = (case s of [] \<Rightarrow> None | c # _ \<Rightarrow> Some c)"

fun rx_ends :: "rx \<Rightarrow> rpos \<Rightarrow> rpos list" where
  "rx_ends Eps p = [p]"
| "rx_ends (Cls f) p = (case snd p of [] \<Rightarrow> [] | c # cs \<Rightarrow> if f c then [(Some c, cs)] else [])"
| "rx_ends (Seq r s) p = nub (concat (map (rx_ends s) (rx_ends r p)))"
| "rx_ends (Alt r s) p = nub (rx_ends r p @ rx_ends s p)"
| "rx_ends (Star r) p = iter_ends (length (snd p)) (rx_ends r) p"
| "rx_ends (LazyStar r) p = lazy_ends (length (snd p)) (rx_ends r) p"
| "rx_ends Bol p = (if fst p = None then [p] else [])"
| "rx_ends Eol p = (if snd p = [] then [p] else [])"
| "rx_ends WordB p = (if word_at (fst p) \<noteq> word_at (next_char (snd p)) then [p] else [])"
| "rx_ends (Look r) p = (if rx_ends r p \<noteq> [] then [p] else [])"
| "rx_ends (NegLook r) p = (if rx_ends r p = [] then [p] else [])"

text \<open>\<open>r.test(s)\<close>: a match starts at some position.\<close>

fun rx_search :: "rx \<Rightarrow> char option \<Rightarrow> string \<Rightarrow> bool" where
  "rx_search r prev [] = (rx_ends r (prev, []) \<noteq> [])"
| "rx_search r prev (c # cs) = (rx_ends r (prev, c # cs) \<noteq> [] \<or> rx_search r (Some c) cs)"

definition rx_test :: "rx \<Rightarrow> string \<Rightarrow> bool" where
  "rx_test r s = rx_search r None s"

text \<open>\<open>s.replace(/^r/, "")\<close> for an expression that starts with \<open>^\<close>.\<close>

definition rx_strip_prefix :: "rx \<Rightarrow> string \<Rightarrow> string" where
  "rx_strip_prefix r s = (case rx_ends r (None, s) of [] \<Rightarrow> s | q # _ \<Rightarrow> snd q)"

text \<open>
  \<open>s.split(r)\<close> for an expression whose matches are never empty: \<open>acc\<close> is the current piece,
  reversed.
\<close>

function (sequential) rx_split_go :: "rx \<Rightarrow> string \<Rightarrow> char option \<Rightarrow> string \<Rightarrow> string list" where
  "rx_split_go r acc prev [] = [rev acc]"
| "rx_split_go r acc prev (c # cs) =
     (case rx_ends r (prev, c # cs) of
        [] \<Rightarrow> rx_split_go r (c # acc) (Some c) cs
      | q # _ \<Rightarrow> if length (snd q) < length (c # cs)
                then rev acc # rx_split_go r [] (fst q) (snd q)
                else rx_split_go r (c # acc) (Some c) cs)"
  by pat_completeness auto
termination
  by (relation "measure (\<lambda>(r, acc, prev, s). length s)") auto

definition rx_split :: "rx \<Rightarrow> string \<Rightarrow> string list" where
  "rx_split r s = rx_split_go r [] None s"

text \<open>\<open>s.replace(/r/g, w)\<close> for an expression whose matches are never empty and a replacement without \<open>$\<close>.\<close>

function (sequential) rx_replace_go :: "rx \<Rightarrow> string \<Rightarrow> char option \<Rightarrow> string \<Rightarrow> string" where
  "rx_replace_go r w prev [] = []"
| "rx_replace_go r w prev (c # cs) =
     (case rx_ends r (prev, c # cs) of
        [] \<Rightarrow> c # rx_replace_go r w (Some c) cs
      | q # _ \<Rightarrow> if length (snd q) < length (c # cs) then w @ rx_replace_go r w (fst q) (snd q)
                else c # rx_replace_go r w (Some c) cs)"
  by pat_completeness auto
termination
  by (relation "measure (\<lambda>(r, w, prev, s). length s)") auto

definition rx_replace :: "rx \<Rightarrow> string \<Rightarrow> string \<Rightarrow> string" where
  "rx_replace r w s = rx_replace_go r w None s"

section \<open>Notation of the source's expressions\<close>

fun lit :: "string \<Rightarrow> rx" where
  "lit [] = Eps"
| "lit [c] = Cls (\<lambda>x. x = c)"
| "lit (c # d # cs) = Seq (Cls (\<lambda>x. x = c)) (lit (d # cs))"

text \<open>A literal under the flag \<open>i\<close>.\<close>

fun lit_ci :: "string \<Rightarrow> rx" where
  "lit_ci [] = Eps"
| "lit_ci [c] = Cls (\<lambda>x. lower_char x = lower_char c)"
| "lit_ci (c # d # cs) = Seq (Cls (\<lambda>x. lower_char x = lower_char c)) (lit_ci (d # cs))"

fun seqs :: "rx list \<Rightarrow> rx" where
  "seqs [] = Eps"
| "seqs [r] = r"
| "seqs (r # s # rs) = Seq r (seqs (s # rs))"

fun alts :: "rx list \<Rightarrow> rx" where
  "alts [] = Cls (\<lambda>_. False)"
| "alts [r] = r"
| "alts (r # s # rs) = Alt r (alts (s # rs))"

definition opt :: "rx \<Rightarrow> rx" where "opt r = Alt r Eps"

definition plus :: "rx \<Rightarrow> rx" where "plus r = Seq r (Star r)"

definition one_of :: "string \<Rightarrow> rx" where "one_of cs = Cls (\<lambda>x. x \<in> set cs)"

definition none_of :: "string \<Rightarrow> rx" where "none_of cs = Cls (\<lambda>x. x \<notin> set cs)"

definition ws :: rx where "ws = Cls is_ws"

definition non_ws :: rx where "non_ws = Cls (\<lambda>c. \<not> is_ws c)"

definition digit :: rx where "digit = Cls is_digit"

definition word :: rx where "word = Cls is_word"

definition lower :: rx where "lower = Cls is_lower"

definition any_char :: rx where "any_char = Cls (\<lambda>_. True)"

text \<open>\<open>.\<close> is any code unit but the line terminators, of which the Latin-1 range has two.\<close>

definition dot :: rx where "dot = none_of [CHR 0x0A, CHR 0x0D]"

text \<open>\<open>r{m,n}\<close>.\<close>

fun rep_upto :: "nat \<Rightarrow> rx \<Rightarrow> rx" where
  "rep_upto 0 r = Eps"
| "rep_upto (Suc n) r = opt (Seq r (rep_upto n r))"

fun rep_exact :: "nat \<Rightarrow> rx \<Rightarrow> rx" where
  "rep_exact 0 r = Eps"
| "rep_exact (Suc n) r = Seq r (rep_exact n r)"

definition rep :: "nat \<Rightarrow> nat \<Rightarrow> rx \<Rightarrow> rx" where
  "rep m n r = Seq (rep_exact m r) (rep_upto (n - m) r)"

lemmas rx_defs = opt_def plus_def one_of_def none_of_def ws_def non_ws_def digit_def word_def
  lower_def any_char_def dot_def rep_def

section \<open>The declarative reading\<close>

text \<open>One consuming step of an iteration.\<close>

definition rx_adv :: "(rpos \<Rightarrow> rpos list) \<Rightarrow> rpos \<Rightarrow> rpos \<Rightarrow> bool" where
  "rx_adv f a b \<longleftrightarrow> b \<in> set (f a) \<and> length (snd b) < length (snd a)"

lemma iter_ends_Suc_set:
  "q \<in> set (iter_ends (Suc n) f p) \<longleftrightarrow> q = p \<or> (\<exists>m. rx_adv f p m \<and> q \<in> set (iter_ends n f m))"
  by (auto simp: rx_adv_def)

lemma iter_ends_progress:
  assumes "q \<in> set (iter_ends n f p)"
  shows "(rx_adv f)\<^sup>*\<^sup>* p q"
  using assms
proof (induction n arbitrary: p)
  case 0
  then show ?case by simp
next
  case (Suc n)
  then consider "q = p" | m where "rx_adv f p m" "q \<in> set (iter_ends n f m)"
    unfolding iter_ends_Suc_set by blast
  then show ?case
    by cases (auto dest: Suc.IH intro: converse_rtranclp_into_rtranclp)
qed

lemma iter_ends_complete:
  assumes "(rx_adv f)\<^sup>*\<^sup>* p q" and "length (snd p) \<le> n"
  shows "q \<in> set (iter_ends n f p)"
  using assms
proof (induction arbitrary: n rule: converse_rtranclp_induct)
  case base
  then show ?case by (cases n) auto
next
  case (step p m)
  then have less: "length (snd m) < length (snd p)" by (simp add: rx_adv_def)
  with step obtain k where n: "n = Suc k" by (cases n) auto
  with step less have "q \<in> set (iter_ends k f m)" by (auto intro: step.IH)
  with step n show ?case unfolding n iter_ends_Suc_set by blast
qed

lemma rx_ends_Star_iff:
  "q \<in> set (rx_ends (Star r) p) \<longleftrightarrow> (rx_adv (rx_ends r))\<^sup>*\<^sup>* p q"
  by (auto intro: iter_ends_progress iter_ends_complete)

lemma iter_ends_self: "p \<in> set (iter_ends n f p)"
  by (cases n) auto

lemma rx_ends_Star_self [simp]: "p \<in> set (rx_ends (Star r) p)"
  by (simp add: iter_ends_self)

lemma rx_ends_Seq [simp]:
  "q \<in> set (rx_ends (Seq r s) p) \<longleftrightarrow> (\<exists>m\<in>set (rx_ends r p). q \<in> set (rx_ends s m))"
  by auto

lemma rx_search_iff:
  "rx_search r prev s \<longleftrightarrow>
     (\<exists>u v. s = u @ v \<and> rx_ends r (if u = [] then prev else Some (last u), v) \<noteq> [])"
proof (induction r prev s rule: rx_search.induct)
  case (1 r prev)
  then show ?case by auto
next
  case (2 r prev c cs)
  show ?case
  proof
    assume "rx_search r prev (c # cs)"
    then consider "rx_ends r (prev, c # cs) \<noteq> []" | "rx_search r (Some c) cs" by auto
    then show "\<exists>u v. c # cs = u @ v \<and> rx_ends r (if u = [] then prev else Some (last u), v) \<noteq> []"
    proof cases
      case 1
      then show ?thesis by (intro exI [of _ "[]"] exI [of _ "c # cs"]) simp
    next
      case 2
      then obtain u v where "cs = u @ v" "rx_ends r (if u = [] then Some c else Some (last u), v) \<noteq> []"
        using "2.IH" by blast
      then show ?thesis by (intro exI [of _ "c # u"] exI [of _ v]) auto
    qed
  next
    assume "\<exists>u v. c # cs = u @ v \<and> rx_ends r (if u = [] then prev else Some (last u), v) \<noteq> []"
    then obtain u v where uv: "c # cs = u @ v"
      "rx_ends r (if u = [] then prev else Some (last u), v) \<noteq> []" by blast
    show "rx_search r prev (c # cs)"
    proof (cases u)
      case Nil
      then show ?thesis using uv by auto
    next
      case (Cons d u')
      then have "rx_search r (Some c) cs"
        using uv "2.IH" by (intro "2.IH" [THEN iffD2] exI [of _ u'] exI [of _ v]) (auto split: if_splits)
      then show ?thesis by simp
    qed
  qed
qed

lemma rx_test_iff:
  "rx_test r s \<longleftrightarrow>
     (\<exists>u v. s = u @ v \<and> rx_ends r (if u = [] then None else Some (last u), v) \<noteq> [])"
  by (simp add: rx_test_def rx_search_iff)

lemma rx_testI:
  "rx_ends r (if u = [] then None else Some (last u), v) \<noteq> [] \<Longrightarrow> rx_test r (u @ v)"
  using rx_test_iff by blast

text \<open>A match only moves forward: its end is a suffix of its start.\<close>

lemma iter_ends_suffix:
  assumes f: "\<And>p q. q \<in> set (f p) \<Longrightarrow> suffix (snd q) (snd p)"
  shows "q \<in> set (iter_ends n f p) \<Longrightarrow> suffix (snd q) (snd p)"
proof (induction n arbitrary: p)
  case 0
  then show ?case by simp
next
  case (Suc n)
  then consider "q = p" | m where "m \<in> set (f p)" "q \<in> set (iter_ends n f m)" by auto
  then show ?case
    by cases (auto dest!: f Suc.IH intro: suffix_order.trans)
qed

lemma lazy_ends_suffix:
  assumes f: "\<And>p q. q \<in> set (f p) \<Longrightarrow> suffix (snd q) (snd p)"
  shows "q \<in> set (lazy_ends n f p) \<Longrightarrow> suffix (snd q) (snd p)"
proof (induction n arbitrary: p)
  case 0
  then show ?case by simp
next
  case (Suc n)
  then consider "q = p" | m where "m \<in> set (f p)" "q \<in> set (lazy_ends n f m)" by auto
  then show ?case
    by cases (auto dest!: f Suc.IH intro: suffix_order.trans)
qed

lemma rx_ends_suffix: "q \<in> set (rx_ends r p) \<Longrightarrow> suffix (snd q) (snd p)"
proof (induction r arbitrary: p q)
  case (Seq r s)
  then obtain m where "m \<in> set (rx_ends r p)" "q \<in> set (rx_ends s m)" by auto
  with Seq.IH show ?case by (metis suffix_order.trans)
next
  case (Alt r s)
  from Alt.prems have "q \<in> set (rx_ends r p) \<or> q \<in> set (rx_ends s p)" by simp
  with Alt.IH show ?case by metis
next
  case (Star r)
  then show ?case using iter_ends_suffix [of "rx_ends r" q "length (snd p)" p] by simp
next
  case (LazyStar r)
  then show ?case using lazy_ends_suffix [of "rx_ends r" q "length (snd p)" p] by simp
qed (auto split: list.splits if_splits simp: suffix_def)

section \<open>Literals\<close>

lemma rx_ends_lit:
  "rx_ends (lit w) (prev, s) =
     (if starts_with s w then [(if w = [] then prev else Some (last w), drop (length w) s)] else [])"
proof (induction w arbitrary: prev s rule: lit.induct)
  case 1
  then show ?case by simp
next
  case (2 c)
  then show ?case by (cases s) auto
next
  case (3 c d cs)
  then show ?case by (cases s) (auto simp: nub_def)
qed

lemma rx_test_lit: "rx_test (lit w) s \<longleftrightarrow> includes_str s w"
proof -
  have "rx_ends (lit w) (x, v) \<noteq> [] \<longleftrightarrow> starts_with v w" for x v
    by (simp add: rx_ends_lit)
  then have "rx_test (lit w) s \<longleftrightarrow> (\<exists>u v. s = u @ v \<and> starts_with v w)"
    unfolding rx_test_iff by simp
  then show ?thesis
    by (auto simp: includes_str_iff starts_with_iff)
qed

lemma seqs_Cons: "rs \<noteq> [] \<Longrightarrow> seqs (r # rs) = Seq r (seqs rs)"
  by (cases rs) auto

lemma rx_ends_alts: "set (rx_ends (alts rs) p) = (\<Union>r\<in>set rs. set (rx_ends r p))"
  by (induction rs rule: alts.induct) (auto split: list.splits)

lemma rx_ends_alts_ne: "r \<in> set rs \<Longrightarrow> rx_ends r p \<noteq> [] \<Longrightarrow> rx_ends (alts rs) p \<noteq> []"
  by (metis rx_ends_alts UN_I empty_iff ex_in_conv set_empty)

section \<open>Building matches\<close>

text \<open>\<open>rx_match r p q\<close>: some match of \<open>r\<close> leads from \<open>p\<close> to \<open>q\<close>; the introduction rules follow the syntax.\<close>

definition rx_match :: "rx \<Rightarrow> rpos \<Rightarrow> rpos \<Rightarrow> bool" where
  "rx_match r p q \<longleftrightarrow> q \<in> set (rx_ends r p)"

named_theorems rx_match_intro \<open>introduction rules for matches\<close>

lemma rx_match_Eps [rx_match_intro]: "rx_match Eps p p"
  by (simp add: rx_match_def)

lemma rx_match_Cls [rx_match_intro]: "f c \<Longrightarrow> rx_match (Cls f) (x, c # s) (Some c, s)"
  by (simp add: rx_match_def)

lemma rx_match_Seq [rx_match_intro]: "rx_match r p m \<Longrightarrow> rx_match s m q \<Longrightarrow> rx_match (Seq r s) p q"
  by (auto simp: rx_match_def)

lemma rx_match_Alt1: "rx_match r p q \<Longrightarrow> rx_match (Alt r s) p q"
  by (simp add: rx_match_def)

lemma rx_match_Alt2: "rx_match s p q \<Longrightarrow> rx_match (Alt r s) p q"
  by (simp add: rx_match_def)

lemma rx_match_alts: "r \<in> set rs \<Longrightarrow> rx_match r p q \<Longrightarrow> rx_match (alts rs) p q"
  by (auto simp: rx_match_def rx_ends_alts)

lemma rx_match_Star_Nil: "rx_match (Star r) p p"
  unfolding rx_match_def by (rule rx_ends_Star_self)

lemma rx_match_Star_step:
  "rx_match r p m \<Longrightarrow> length (snd m) < length (snd p) \<Longrightarrow> rx_match (Star r) m q \<Longrightarrow> rx_match (Star r) p q"
  unfolding rx_match_def rx_ends_Star_iff
  by (rule converse_rtranclp_into_rtranclp) (auto simp: rx_adv_def)

lemma rx_match_Bol [rx_match_intro]: "rx_match Bol (None, s) (None, s)"
  by (simp add: rx_match_def)

lemma rx_match_Eol [rx_match_intro]: "rx_match Eol (x, []) (x, [])"
  by (simp add: rx_match_def)

lemma rx_match_WordB: "word_at x \<noteq> word_at (next_char s) \<Longrightarrow> rx_match WordB (x, s) (x, s)"
  by (simp add: rx_match_def)

lemma rx_match_lit:
  "rx_match (lit w) (x, w @ s) (if w = [] then x else Some (last w), s)"
  by (simp add: rx_match_def rx_ends_lit)

lemma rx_match_Star_Cls:
  "list_all f w \<Longrightarrow> rx_match (Star (Cls f)) (x, w @ s) (if w = [] then x else Some (last w), s)"
proof (induction w arbitrary: x)
  case Nil
  then show ?case by (simp add: rx_match_Star_Nil)
next
  case (Cons c w)
  have "rx_match (Cls f) (x, c # w @ s) (Some c, w @ s)"
    using Cons.prems by (intro rx_match_Cls) simp
  moreover have "rx_match (Star (Cls f)) (Some c, w @ s)
      (if w = [] then Some c else Some (last w), s)"
    using Cons by simp
  ultimately show ?case
    by (auto intro: rx_match_Star_step split: if_splits)
qed

lemma rx_match_plus_Cls:
  assumes "w \<noteq> []" and "list_all f w"
  shows "rx_match (plus (Cls f)) (x, w @ s) (Some (last w), s)"
proof -
  obtain c w' where w: "w = c # w'" using assms(1) by (cases w) auto
  have "rx_match (Cls f) (x, c # w' @ s) (Some c, w' @ s)"
    using assms w by (intro rx_match_Cls) simp
  moreover have "rx_match (Star (Cls f)) (Some c, w' @ s)
      (if w' = [] then Some c else Some (last w'), s)"
    using assms w by (intro rx_match_Star_Cls) simp
  ultimately show ?thesis
    unfolding plus_def w by (auto intro: rx_match_Seq split: if_splits)
qed

lemma rx_test_match:
  "rx_match r (if u = [] then None else Some (last u), v) q \<Longrightarrow> rx_test r (u @ v)"
  by (rule rx_testI) (auto simp: rx_match_def)

text \<open>From here on the notation stays folded; \<open>rx_syntax\<close> unfolds it.\<close>

declare lit.simps [simp del] lit_ci.simps [simp del] seqs.simps [simp del] alts.simps [simp del]

lemmas rx_syntax = seqs.simps alts.simps

lemma rx_ends_ne: "rx_ends r p \<noteq> [] \<longleftrightarrow> (\<exists>q. rx_match r p q)"
  by (cases "rx_ends r p") (auto simp: rx_match_def)

lemma rx_match_alts_iff: "rx_match (alts rs) p q \<longleftrightarrow> (\<exists>r \<in> set rs. rx_match r p q)"
  by (simp add: rx_match_def rx_ends_alts)

lemma rx_test_alts: "rx_test (alts rs) s \<longleftrightarrow> (\<exists>r \<in> set rs. rx_test r s)"
  unfolding rx_test_iff rx_ends_ne rx_match_alts_iff by blast

lemma rx_test_Cls: "rx_test (Cls f) s \<longleftrightarrow> (\<exists>c \<in> set s. f c)"
proof
  assume "rx_test (Cls f) s"
  then obtain u v where "s = u @ v" "rx_ends (Cls f) (if u = [] then None else Some (last u), v) \<noteq> []"
    unfolding rx_test_iff by blast
  then show "\<exists>c \<in> set s. f c" by (cases v) (auto split: if_splits)
next
  assume "\<exists>c \<in> set s. f c"
  then obtain u c v where s: "s = u @ c # v" and "f c" by (meson split_list)
  then show "rx_test (Cls f) s"
    unfolding s by (intro rx_testI) simp
qed

section \<open>Absent literals\<close>

text \<open>Expressions that match nowhere in a text: one literal they need is absent.\<close>

definition rx_dead :: "rx \<Rightarrow> string \<Rightarrow> bool" where
  "rx_dead r s \<longleftrightarrow> (\<forall>prev u v. s = u @ v \<longrightarrow> rx_ends r (prev, v) = [])"

lemma rx_ends_lit_ci:
  "rx_ends (lit_ci w) (prev, s) =
     (if starts_with (map lower_char s) (map lower_char w)
      then [(if w = [] then prev else Some (s ! (length w - 1)), drop (length w) s)] else [])"
proof (induction w arbitrary: prev s rule: lit_ci.induct)
  case (2 c)
  then show ?case by (cases s) (auto simp: lit_ci.simps)
next
  case (3 c d cs)
  then show ?case by (cases s) (auto simp: nub_def lit_ci.simps)
qed (simp add: lit_ci.simps)

lemma rx_dead_Cons: "rx_dead r (c # s) \<Longrightarrow> rx_ends r (prev, c # s) = []" "rx_dead r (c # s) \<Longrightarrow> rx_dead r s"
  unfolding rx_dead_def by (metis append_Nil, metis append_Cons)

lemma rx_replace_dead: "rx_dead r s \<Longrightarrow> rx_replace r w s = s"
proof -
  have "rx_dead r s \<Longrightarrow> rx_replace_go r w prev s = s" for prev
    by (induction s arbitrary: prev) (simp_all add: rx_dead_Cons)
  then show "rx_dead r s \<Longrightarrow> rx_replace r w s = s" by (simp add: rx_replace_def)
qed

lemma rx_dead_Seq: "rx_dead r s \<Longrightarrow> rx_dead (Seq r t) s"
  by (simp add: rx_dead_def)

lemma rx_dead_lit: "\<not> includes_str s w \<Longrightarrow> rx_dead (lit w) s"
  by (simp add: rx_dead_def rx_ends_lit includes_str_iff starts_with_iff) blast

lemma rx_dead_lit_ci: "\<not> includes_str (map lower_char s) (map lower_char w) \<Longrightarrow> rx_dead (lit_ci w) s"
  by (simp add: rx_dead_def rx_ends_lit_ci includes_str_iff starts_with_iff) (metis map_append)

lemmas dead_rules = rx_replace_dead rx_dead_Seq rx_dead_lit rx_dead_lit_ci

end
