(* ===== verification/Goal_Plan.thy ===== *)
theory Goal_Plan
  imports Js_Path Js_Regex
begin

text \<open>
  The plan file of a goal (\<open>apps/api/src/services/goal-mode/plan-file-service.ts\<close>) and the edits that the leader's tools make in
  it (\<open>autonomous-loop/manager-tools-adapter.ts\<close>). The disk is the map from a path to its content; the argument \<open>disk\<close> says
  whether it answers, and where it does not every access fails. \<open>base\<close> is what \<open>resolveWorkspaceBaseDir\<close> returns, \<open>stamp\<close> the time
  stamp of the call. Two signs outside the model's characters are stood for by code units above the ASCII range: the dash by
  \<open>CHR 0x97\<close> and the ellipsis by \<open>CHR 0x85\<close>.
\<close>

section \<open>Where the file lives\<close>

definition MAX_PLAN_BYTES :: nat where "MAX_PLAN_BYTES = 65536"

record plan_init_input =
  initTask :: string
  initObjective :: string
  initGoalId :: string

record plan_location =
  absolutePath :: string
  relativePath :: string

definition resolvePlanLocation :: "string \<Rightarrow> string \<Rightarrow> plan_location" where
  "resolvePlanLocation base taskId =
    (let abs = path_join [base, ''.magister'', ''goals'', taskId, ''plan.md'']
     in \<lparr>absolutePath = abs, relativePath = path_relative base abs\<rparr>)"

section \<open>Skeletons\<close>

definition lines :: "string list \<Rightarrow> string" where
  "lines ls = js_join [CHR 0x0A] ls"

definition ticked :: "string \<Rightarrow> string" where
  "ticked s = [CHR 0x60] @ s @ [CHR 0x60]"

definition criteria_and_log :: "string list" where
  "criteria_and_log =
    [''## Acceptance criteria'', [],
     ''_(Leader: replace this section with concrete, verifiable criteria on the first turn.'',
     ''Each criterion should be checkable against '' @ ticked ''file:line'' @ '', command output, or a git commit.)_'', [],
     ''- [ ] (criterion 1 '' @ [CHR 0x97] @ '' replace me)'', [],
     ''## Iteration log'', [],
     ''_(Updated by the loop after each iteration verdict.)_'', []]"

definition renderSkeleton :: "string \<Rightarrow> plan_init_input \<Rightarrow> string" where
  "renderSkeleton stamp input = lines (
    [''# Goal plan'', [],
     ''**Goal ID**: '' @ ticked (initGoalId input),
     ''**Started**: '' @ stamp, [],
     ''## Objective'', [],
     js_trim (initObjective input), []] @ criteria_and_log)"

definition cap_summary :: "string \<Rightarrow> string" where
  "cap_summary s = (if length s > 1024
     then take 1024 s @ [CHR 0x0A, CHR 0x0A] @ ''_(truncated; full conversation is still in leader checkpoint)_''
     else s)"

definition renderSkeletonWithPriorContext :: "string \<Rightarrow> plan_init_input \<Rightarrow> string \<Rightarrow> string" where
  "renderSkeletonWithPriorContext stamp input priorContextSummary = lines (
    [''# Goal plan'', [],
     ''**Goal ID**: '' @ ticked (initGoalId input),
     ''**Started**: '' @ stamp,
     ''**Started**: mid-conversation (token budget counts from this moment)'', [],
     ''## Objective'', [],
     js_trim (initObjective input), [],
     ''## Prior context'', [],
     cap_summary priorContextSummary, []] @ criteria_and_log)"

section \<open>Reading and writing\<close>

datatype plan_error = DiskError | PlanTooLarge nat

type_synonym plan_files = "string \<rightharpoonup> string"

text \<open>The flag \<open>wx\<close>: a file that exists is left as it is, and the error is swallowed.\<close>

definition write_new :: "bool \<Rightarrow> string \<Rightarrow> string \<Rightarrow> plan_files \<Rightarrow> plan_error + plan_files" where
  "write_new disk path content files =
    (if \<not> disk then Inl DiskError
     else if files path \<noteq> None then Inr files else Inr (files(path \<mapsto> content)))"

definition initializePlan ::
    "bool \<Rightarrow> string \<Rightarrow> string \<Rightarrow> plan_init_input \<Rightarrow> plan_files \<Rightarrow> plan_error + plan_location \<times> plan_files" where
  "initializePlan disk base stamp input files =
    (let location = resolvePlanLocation base (initTask input) in
     case write_new disk (absolutePath location) (renderSkeleton stamp input) files of
       Inl e \<Rightarrow> Inl e
     | Inr files' \<Rightarrow> Inr (location, files'))"

definition initializePlanWithPriorContext ::
    "bool \<Rightarrow> string \<Rightarrow> string \<Rightarrow> plan_init_input \<Rightarrow> string \<Rightarrow> plan_files \<Rightarrow> plan_error + plan_location \<times> plan_files" where
  "initializePlanWithPriorContext disk base stamp input summary files =
    (let location = resolvePlanLocation base (initTask input) in
     case write_new disk (absolutePath location) (renderSkeletonWithPriorContext stamp input summary) files of
       Inl e \<Rightarrow> Inl e
     | Inr files' \<Rightarrow> Inr (location, files'))"

text \<open>The shares of a long file that are kept: \<open>floor(MAX * 0.3)\<close> and \<open>floor(MAX * 0.6)\<close>.\<close>

definition plan_head_len :: nat where "plan_head_len = 19660"

definition plan_tail_len :: nat where "plan_tail_len = 39321"

definition clip_plan :: "string \<Rightarrow> string" where
  "clip_plan content =
    (if length content > MAX_PLAN_BYTES
     then take plan_head_len content @ [CHR 0x0A, CHR 0x0A] @ ''... [truncated ''
          @ show_nat (length content - plan_head_len - plan_tail_len) @ '' bytes] ...'' @ [CHR 0x0A, CHR 0x0A]
          @ lastn plan_tail_len content
     else content)"

definition readPlan :: "bool \<Rightarrow> string \<Rightarrow> string \<Rightarrow> plan_files \<Rightarrow> plan_error + string option" where
  "readPlan disk base taskId files =
    (if \<not> disk then Inl DiskError
     else Inr (map_option clip_plan (files (absolutePath (resolvePlanLocation base taskId)))))"

text \<open>\<open>Buffer.byteLength(s, "utf8")\<close> of a Latin-1 text.\<close>

definition utf8_length :: "string \<Rightarrow> nat" where
  "utf8_length s = sum_list (map (\<lambda>c. if char_nat c < 128 then 1 else 2) s)"

definition writePlan :: "bool \<Rightarrow> string \<Rightarrow> string \<Rightarrow> string \<Rightarrow> plan_files \<Rightarrow> plan_error + nat \<times> plan_files" where
  "writePlan disk base taskId content files =
    (if length content > MAX_PLAN_BYTES then Inl (PlanTooLarge (length content))
     else if \<not> disk then Inl DiskError
     else Inr (utf8_length content, files(absolutePath (resolvePlanLocation base taskId) \<mapsto> content)))"

section \<open>The iteration log\<close>

datatype log_verdict = InProgress | CompleteClaimed | LogBlocked

fun show_log_verdict :: "log_verdict \<Rightarrow> string" where
  "show_log_verdict InProgress = ''in-progress''"
| "show_log_verdict CompleteClaimed = ''complete-claimed''"
| "show_log_verdict LogBlocked = ''blocked''"

definition log_block :: "string \<Rightarrow> nat \<Rightarrow> log_verdict \<Rightarrow> string \<Rightarrow> string" where
  "log_block stamp iteration verdict summary = lines
    [[], ''### Iteration '' @ show_nat iteration @ '' '' @ [CHR 0x97] @ '' '' @ show_log_verdict verdict @ '' ('' @ stamp @ '')'',
     [], js_trim summary, []]"

definition with_log_block :: "string \<Rightarrow> string \<Rightarrow> string" where
  "with_log_block existing block =
    (if includes_str existing ''## Iteration log'' then existing @ block
     else existing @ [CHR 0x0A, CHR 0x0A] @ ''## Iteration log'' @ [CHR 0x0A] @ block)"

definition appendIterationLog ::
    "bool \<Rightarrow> string \<Rightarrow> string \<Rightarrow> string \<Rightarrow> nat \<Rightarrow> log_verdict \<Rightarrow> string \<Rightarrow> plan_files \<Rightarrow> plan_error + nat \<times> plan_files" where
  "appendIterationLog disk base stamp taskId iteration verdict summary files =
    (case readPlan disk base taskId files of
       Inl e \<Rightarrow> Inl e
     | Inr existing \<Rightarrow> writePlan disk base taskId
         (with_log_block (case existing of Some s \<Rightarrow> s | None \<Rightarrow> []) (log_block stamp iteration verdict summary)) files)"

definition appendBlocker ::
    "bool \<Rightarrow> string \<Rightarrow> string \<Rightarrow> string \<Rightarrow> nat \<Rightarrow> string \<Rightarrow> plan_files \<Rightarrow> plan_error + nat \<times> plan_files" where
  "appendBlocker disk base stamp taskId iteration reason files =
    appendIterationLog disk base stamp taskId iteration LogBlocked reason files"

text \<open>The callers ignore a failure of the log.\<close>

definition best_effort :: "(plan_error + 'a \<times> plan_files) \<Rightarrow> plan_files \<Rightarrow> plan_files" where
  "best_effort r files = (case r of Inl e \<Rightarrow> files | Inr (a, files') \<Rightarrow> files')"

section \<open>The leader's edits\<close>

text \<open>\<open>s.indexOf(p, n)\<close> as the number of code units before the first occurrence at or after \<open>n\<close>.\<close>

fun index_of :: "string \<Rightarrow> string \<Rightarrow> nat option" where
  "index_of [] p = (if p = [] then Some 0 else None)"
| "index_of (c # s) p = (if starts_with (c # s) p then Some 0 else map_option Suc (index_of s p))"

definition index_from :: "string \<Rightarrow> string \<Rightarrow> nat \<Rightarrow> nat option" where
  "index_from s p n = map_option (\<lambda>k. n + k) (index_of (drop n s) p)"

definition CRITERIA_HEADER :: string where "CRITERIA_HEADER = ''## Acceptance criteria''"

definition splice_criterion :: "string \<Rightarrow> string \<Rightarrow> string" where
  "splice_criterion existing txt =
    (let inject = ''- [ ] '' @ js_trim txt; nl = [CHR 0x0A] in
     case index_of existing CRITERIA_HEADER of
       None \<Rightarrow> existing @ nl @ nl @ CRITERIA_HEADER @ nl @ nl @ inject @ nl
     | Some idx \<Rightarrow>
         (case index_from existing (nl @ ''## '') (idx + length CRITERIA_HEADER) of
            None \<Rightarrow> trim_end existing @ nl @ inject @ nl
          | Some after \<Rightarrow> trim_end (take after existing) @ nl @ inject @ nl @ drop after existing))"


section \<open>Lemmas\<close>

abbreviation plan_path :: "string \<Rightarrow> string \<Rightarrow> string" where
  "plan_path base taskId \<equiv> absolutePath (resolvePlanLocation base taskId)"

lemma clip_short: "length content \<le> MAX_PLAN_BYTES \<Longrightarrow> clip_plan content = content"
  by (simp add: clip_plan_def)

lemma with_log_block_split:
  obtains u where "with_log_block existing block = existing @ u @ block"
proof (cases "includes_str existing ''## Iteration log''")
  case True
  show ?thesis by (rule that [of "[]"]) (simp add: with_log_block_def True)
next
  case False
  show ?thesis
    by (rule that [of "[CHR 0x0A, CHR 0x0A] @ ''## Iteration log'' @ [CHR 0x0A]"]) (simp add: with_log_block_def False)
qed

lemma length_show_nat: "n < 10 ^ k \<Longrightarrow> 0 < k \<Longrightarrow> length (show_nat n) \<le> k"
proof (induction n arbitrary: k rule: show_nat.induct)
  case (1 n)
  show ?case
  proof (cases "n < 10")
    case True
    then show ?thesis using 1(3) by (subst show_nat.simps) simp
  next
    case False
    then obtain j where k: "k = Suc j" "0 < j" using 1(2,3) by (cases k; cases "k - 1") auto
    have "n div 10 < 10 ^ j" using 1(2) k by (simp add: less_mult_imp_div_less mult.commute)
    then have "length (show_nat (n div 10)) \<le> j" using 1(1) False k by simp
    then show ?thesis using False k by (subst show_nat.simps) simp
  qed
qed

lemma length_lastn_le: "length (lastn n xs) \<le> n"
  by (simp add: lastn_def)

lemma clip_plan_bound:
  assumes "length content < 10 ^ 9"
  shows "length (clip_plan content) \<le> MAX_PLAN_BYTES"
proof (cases "length content > MAX_PLAN_BYTES")
  case True
  have "length (show_nat (length content - plan_head_len - plan_tail_len)) \<le> 9"
    by (rule length_show_nat) (use assms in simp_all)
  moreover have "length (lastn plan_tail_len content) \<le> plan_tail_len" by (rule length_lastn_le)
  ultimately show ?thesis using True
    by (simp add: clip_plan_def plan_head_len_def plan_tail_len_def MAX_PLAN_BYTES_def)
qed (simp add: clip_plan_def)

lemma append_result:
  "disk \<Longrightarrow> files (plan_path base taskId) = Some old
    \<Longrightarrow> appendIterationLog disk base stamp taskId iteration verdict summary files =
      (let new = with_log_block (clip_plan old) (log_block stamp iteration verdict summary) in
       if length new > MAX_PLAN_BYTES then Inl (PlanTooLarge (length new))
       else Inr (utf8_length new, files(plan_path base taskId \<mapsto> new)))"
  by (simp add: appendIterationLog_def readPlan_def writePlan_def Let_def)

lemma append_off: "\<not> disk \<Longrightarrow> best_effort (appendIterationLog disk base stamp taskId iteration verdict summary files) files = files"
  by (simp add: appendIterationLog_def readPlan_def best_effort_def)

section \<open>Properties\<close>

text \<open>
  The iteration log only grows: appending an entry, whether it succeeds or not, leaves every character of a plan within the
  size cap where it was, adds the new text after it, and touches no other file; if the entry fits it is the end of the file.
\<close>

theorem log_is_append_only:
  assumes "files (plan_path base taskId) = Some old" and "length old \<le> MAX_PLAN_BYTES"
  shows "\<exists>t. best_effort (appendIterationLog disk base stamp taskId iteration verdict summary files) files
      = files(plan_path base taskId \<mapsto> old @ t)
    \<and> (disk \<and> length old + length (log_block stamp iteration verdict summary) + 19 \<le> MAX_PLAN_BYTES
        \<longrightarrow> (\<exists>u. t = u @ log_block stamp iteration verdict summary))"
proof (cases "disk \<and> length (with_log_block old (log_block stamp iteration verdict summary)) \<le> MAX_PLAN_BYTES")
  case True
  let ?b = "log_block stamp iteration verdict summary"
  obtain u where u: "with_log_block old ?b = old @ u @ ?b" by (rule with_log_block_split)
  have "best_effort (appendIterationLog disk base stamp taskId iteration verdict summary files) files
      = files(plan_path base taskId \<mapsto> old @ u @ ?b)"
    using True assms u by (simp add: append_result clip_short Let_def best_effort_def)
  then show ?thesis by blast
next
  case False
  have "best_effort (appendIterationLog disk base stamp taskId iteration verdict summary files) files = files"
  proof (cases disk)
    case True
    then show ?thesis using False assms by (simp add: append_result clip_short Let_def best_effort_def)
  qed (simp add: append_off)
  moreover have "files = files(plan_path base taskId \<mapsto> old @ [])" using assms(1) by auto
  moreover have "\<not> (disk \<and> length old + length (log_block stamp iteration verdict summary) + 19 \<le> MAX_PLAN_BYTES)"
    using False by (auto simp: with_log_block_def split: if_splits)
  ultimately show ?thesis by metis
qed

theorem log_is_append_only_witness:
  "\<exists>t. best_effort (appendIterationLog True ''/w'' ''now'' ''t1'' 2 InProgress ''half done'' (Map.empty(plan_path ''/w'' ''t1'' \<mapsto> ''# Plan'')))
     (Map.empty(plan_path ''/w'' ''t1'' \<mapsto> ''# Plan'')) (plan_path ''/w'' ''t1'') = Some (''# Plan'' @ t)"
proof -
  let ?files = "Map.empty(plan_path ''/w'' ''t1'' \<mapsto> ''# Plan'')"
  have f: "?files (plan_path ''/w'' ''t1'') = Some ''# Plan''" by simp
  have n: "length ''# Plan'' \<le> MAX_PLAN_BYTES" by (simp add: MAX_PLAN_BYTES_def)
  obtain t where "best_effort (appendIterationLog True ''/w'' ''now'' ''t1'' 2 InProgress ''half done'' ?files) ?files
      = ?files(plan_path ''/w'' ''t1'' \<mapsto> ''# Plan'' @ t)"
    using log_is_append_only [of ?files "''/w''" "''t1''", OF f n, of True "''now''" 2 InProgress "''half done''"] by blast
  then show ?thesis by (simp only: fun_upd_same) blast
qed

text \<open>
  What \<open>readPlan\<close> hands to the continuation prompt is never longer than the cap, whatever is on disk (up to a gigabyte), and
  it is the file itself unless the file is longer than the cap.
\<close>

theorem read_plan_is_bounded:
  assumes "readPlan disk base taskId files = Inr (Some content)"
    and "files (plan_path base taskId) = Some stored" and "length stored < 10 ^ 9"
  shows "length content \<le> MAX_PLAN_BYTES \<and> (length stored \<le> MAX_PLAN_BYTES \<longrightarrow> content = stored)"
proof -
  have "content = clip_plan stored" using assms(1,2) by (simp add: readPlan_def split: if_splits)
  then show ?thesis using clip_plan_bound [OF assms(3)] by (simp add: clip_short)
qed

theorem read_plan_is_bounded_witness:
  "length (clip_plan (replicate 70000 CHR ''x'')) \<le> MAX_PLAN_BYTES"
proof -
  let ?s = "replicate 70000 CHR ''x''"
  let ?files = "Map.empty(plan_path ''/w'' ''t1'' \<mapsto> ?s)"
  have r: "readPlan True ''/w'' ''t1'' ?files = Inr (Some (clip_plan ?s))" by (simp add: readPlan_def)
  have f: "?files (plan_path ''/w'' ''t1'') = Some ?s" by simp
  have n: "length ?s < 10 ^ 9" by simp
  show ?thesis using read_plan_is_bounded [OF r f n] by (rule conjunct1)
qed

text \<open>
  A plan file is initialised once: where one exists, starting a goal again, cold or in mid-conversation, with another
  objective and another goal id, leaves it as it is and reports the same place.
\<close>

theorem plan_is_written_once:
  assumes "initializePlan disk base stamp input files = Inr (location, files')" and "initTask input' = initTask input"
  shows "initializePlan True base stamp' input' files' = Inr (location, files')
    \<and> initializePlanWithPriorContext True base stamp' input' summary files' = Inr (location, files')"
  using assms
  by (auto simp: initializePlan_def initializePlanWithPriorContext_def write_new_def Let_def split: if_splits)

theorem plan_is_written_once_witness:
  "\<exists>files. initializePlan True ''/w'' ''now'' \<lparr>initTask = ''t1'', initObjective = ''ship it'', initGoalId = ''g1''\<rparr> Map.empty
       = Inr (resolvePlanLocation ''/w'' ''t1'', files)
     \<and> initializePlan True ''/w'' ''later'' \<lparr>initTask = ''t1'', initObjective = ''drop it'', initGoalId = ''g2''\<rparr> files
       = Inr (resolvePlanLocation ''/w'' ''t1'', files)"
proof -
  let ?a = "\<lparr>initTask = ''t1'', initObjective = ''ship it'', initGoalId = ''g1''\<rparr>"
  let ?b = "\<lparr>initTask = ''t1'', initObjective = ''drop it'', initGoalId = ''g2''\<rparr>"
  let ?files = "Map.empty(plan_path ''/w'' ''t1'' \<mapsto> renderSkeleton ''now'' ?a)"
  have first: "initializePlan True ''/w'' ''now'' ?a Map.empty = Inr (resolvePlanLocation ''/w'' ''t1'', ?files)"
    by (simp add: initializePlan_def write_new_def Let_def)
  from plan_is_written_once [OF first, of ?b "''later''"] have
    "initializePlan True ''/w'' ''later'' ?b ?files = Inr (resolvePlanLocation ''/w'' ''t1'', ?files)" by simp
  with first show ?thesis by blast
qed

text \<open>
  A plan beyond the cap is clipped for reading, and the log writes back what it read: the middle of the file is gone. The comment
  of \<open>readPlan\<close> promises null for such a file.
\<close>

theorem logging_clips_a_long_plan:
  assumes "files (plan_path base taskId) = Some old" and "length old > MAX_PLAN_BYTES"
    and "length (with_log_block (clip_plan old) (log_block stamp iteration verdict summary)) \<le> MAX_PLAN_BYTES"
  shows "\<exists>marker rest. best_effort (appendIterationLog True base stamp taskId iteration verdict summary files) files (plan_path base taskId)
    = Some (take plan_head_len old @ marker @ lastn plan_tail_len old @ rest)"
proof -
  obtain u where "with_log_block (clip_plan old) (log_block stamp iteration verdict summary)
      = clip_plan old @ u @ log_block stamp iteration verdict summary" by (rule with_log_block_split)
  moreover have "\<exists>m. clip_plan old = take plan_head_len old @ m @ lastn plan_tail_len old"
    unfolding clip_plan_def using assms(2) by auto
  ultimately have "\<exists>m r. with_log_block (clip_plan old) (log_block stamp iteration verdict summary)
      = take plan_head_len old @ m @ lastn plan_tail_len old @ r" by (metis append.assoc)
  then show ?thesis using assms by (simp add: append_result Let_def best_effort_def)
qed

text \<open>An entry that does not fit is dropped without a trace, and so is every one after it.\<close>

theorem full_plan_drops_the_log:
  assumes "files (plan_path base taskId) = Some old" and "length old \<le> MAX_PLAN_BYTES"
    and "MAX_PLAN_BYTES < length old + length (log_block stamp iteration verdict summary)"
  shows "best_effort (appendIterationLog disk base stamp taskId iteration verdict summary files) files = files"
proof (cases disk)
  case True
  obtain u where "with_log_block old (log_block stamp iteration verdict summary)
      = old @ u @ log_block stamp iteration verdict summary" by (rule with_log_block_split)
  then show ?thesis using assms True by (simp add: append_result Let_def best_effort_def clip_short)
qed (simp add: append_off)

text \<open>
  The tool that adds a criterion keeps the plan's own text: only white space at the end of the section is dropped, and the
  criterion stands in its own line before the next section.
\<close>

theorem criterion_keeps_the_plan:
  "\<exists>u v w. existing = u @ v \<and> splice_criterion existing txt = w @ [CHR 0x0A] @ ''- [ ] '' @ js_trim txt @ [CHR 0x0A] @ v
    \<and> (w = trim_end u \<or> (\<exists>header. w = u @ header))"
proof (cases "index_of existing CRITERIA_HEADER")
  case None
  have "splice_criterion existing txt = (existing @ [CHR 0x0A, CHR 0x0A] @ CRITERIA_HEADER @ [CHR 0x0A]) @ [CHR 0x0A]
      @ ''- [ ] '' @ js_trim txt @ [CHR 0x0A] @ []"
    by (simp add: splice_criterion_def None Let_def)
  then show ?thesis by (metis append_Nil2)
next
  case (Some idx)
  show ?thesis
  proof (cases "index_from existing ([CHR 0x0A] @ ''## '') (idx + length CRITERIA_HEADER)")
    case None
    have "splice_criterion existing txt = trim_end existing @ [CHR 0x0A] @ ''- [ ] '' @ js_trim txt @ [CHR 0x0A] @ []"
      using Some None by (simp add: splice_criterion_def Let_def)
    then show ?thesis by (metis append_Nil2)
  next
    case (Some after)
    then have "splice_criterion existing txt
        = trim_end (take after existing) @ [CHR 0x0A] @ ''- [ ] '' @ js_trim txt @ [CHR 0x0A] @ drop after existing"
      using \<open>index_of existing CRITERIA_HEADER = Some idx\<close> by (simp add: splice_criterion_def Let_def)
    moreover have "existing = take after existing @ drop after existing" by simp
    ultimately show ?thesis by blast
  qed
qed

text \<open>The place of the plan under a base directory, relative to it.\<close>

lemma plan_location_example:
  "relativePath (resolvePlanLocation ''/srv/w'' ''task_1'') = ''.magister/goals/task_1/plan.md''"
  by (simp add: resolvePlanLocation_def path_join_def path_normalize_def path_relative_def path_segs_def isAbsolute_def js_split_def
      ends_with_def)

end
