(* ===== verification/Goal_State.thy ===== *)
theory Goal_State
  imports Goal_Plan
begin

text \<open>
  The goal of a task: the columns of the task row that goal mode keeps and every operation that changes them
  (\<open>apps/api/src/services/goal-mode/\<close>: \<open>start-goal-service.ts\<close>, \<open>edit-objective-service.ts\<close>, \<open>subgoal-service.ts\<close>,
  \<open>evaluator-verifier-service.ts\<close>; the tool \<open>mark_goal_complete\<close> and its neighbours in
  \<open>autonomous-loop/manager-tools-adapter.ts\<close>; the routes of \<open>apps/api/src/routes/tasks.ts\<close>). The operations act on the table of
  tasks and the disk of plan files together. Each takes the time \<open>now\<close> of its call, its ISO text \<open>stamp\<close>, and the state \<open>disk\<close>
  of the file system; \<open>base\<close> gives the directory of a workspace.
\<close>

section \<open>The row\<close>

datatype goal_status = GActive | GPaused | GComplete | GCancelled

datatype verifier_verdict = VReady | VBlocked

record goal_task =
  taskState :: string
  taskTitle :: "string option"
  taskDescription :: "string option"
  taskWorkspace :: string
  taskCompletedAt :: "int option"
  goalObjective :: "string option"
  goalStatus :: "goal_status option"
  goalStartedAt :: "int option"
  goalIterations :: "nat option"
  goalTokensUsed :: "int option"
  goalCompletedAt :: "int option"
  goalId :: "string option"
  goalMaxWallSeconds :: "int option"
  goalTokenBudget :: "int option"
  goalPlanPath :: "string option"
  goalSubgoals :: "json_text option"
  goalObjectiveEditedAt :: "int option"
  goalLastVerifierVerdict :: "verifier_verdict option"
  goalLastVerifierAt :: "int option"
  goalLastVerifierBlocker :: "string option"
  goalEvaluatorParseFailures :: "nat option"

type_synonym task_table = "string \<rightharpoonup> goal_task"

record goal_world =
  tasks :: task_table
  plans :: plan_files

text \<open>Where a call runs: the disk, the directory of each workspace, the clock.\<close>

record call_env =
  envDisk :: bool
  envBase :: "string \<Rightarrow> string"
  envNow :: int
  envStamp :: string

definition put_task :: "string \<Rightarrow> goal_task \<Rightarrow> goal_world \<Rightarrow> goal_world" where
  "put_task i t w = w\<lparr>tasks := (tasks w)(i \<mapsto> t)\<rparr>"

definition has_goal :: "goal_task \<Rightarrow> bool" where
  "has_goal t = truthy_str (goalObjective t)"

text \<open>The log entry an operation leaves in the plan, if the task has a workspace; a failure is ignored.\<close>

definition log_entry :: "call_env \<Rightarrow> string \<Rightarrow> goal_task \<Rightarrow> nat \<Rightarrow> log_verdict \<Rightarrow> string \<Rightarrow> goal_world \<Rightarrow> goal_world" where
  "log_entry e i t iteration verdict summary w =
    (if taskWorkspace t = [] then w
     else w\<lparr>plans := best_effort (appendIterationLog (envDisk e) (envBase e (taskWorkspace t)) (envStamp e) i iteration verdict
                                    summary (plans w)) (plans w)\<rparr>)"

section \<open>Starting a goal\<close>

definition REFUSED_STATES :: "string list" where
  "REFUSED_STATES = [''COMPLETED'', ''DONE'', ''MERGE_WAITING'', ''PR_OPEN'', ''FAILED'', ''BLOCKED'', ''CANCELLED'']"

definition MAX_OBJECTIVE_BYTES :: nat where "MAX_OBJECTIVE_BYTES = 32768"

datatype goal_error =
    InvalidObjective string
  | TaskNotFound
  | TaskTerminal string
  | GoalAlreadyActive goal_status
  | NoActiveGoal string
  | GoalNotActive goal_status
  | InvalidSubgoal string
  | IndexOutOfRange
  | LimitReached
  | NotPaused "goal_status option"
  | TurnInFlight

definition squeeze :: "string \<Rightarrow> string" where
  "squeeze s = js_trim (rx_replace (plus ws) '' '' s)"

definition snippet :: "nat \<Rightarrow> string \<Rightarrow> string" where
  "snippet n s = (let t = squeeze s in if length t > n then take n t @ [CHR 0x85] else t)"

definition buildPriorContextSummary :: "string option \<Rightarrow> string option \<Rightarrow> string option \<Rightarrow> string" where
  "buildPriorContextSummary title latestAnswer initialPrompt =
    (let parts = (if truthy_str title then [''Conversation title: '' @ the title] else [])
               @ (if truthy_str initialPrompt then [''Initial user prompt: '' @ snippet 300 (the initialPrompt)] else [])
               @ (if truthy_str latestAnswer then [''Last assistant turn: '' @ snippet 600 (the latestAnswer)] else [])
     in if parts = [] then ''No durable pre-goal context recorded.''
        else js_join [CHR 0x0A, CHR 0x0A] parts)"

record start_goal_input =
  startObjective :: string
  startTokenBudget :: "int option"
  startMaxWallSeconds :: "int option"

record started_goal =
  startedGoalId :: string
  startedGoalAt :: int
  startedTokenBudget :: "int option"
  startedMaxWallSeconds :: "int option"
  startedPlanPath :: string

definition objective_error :: "string \<Rightarrow> goal_error option" where
  "objective_error trimmed =
    (if trimmed = [] then Some (InvalidObjective ''Objective is empty'')
     else if utf8_length trimmed > MAX_OBJECTIVE_BYTES
       then Some (InvalidObjective (''Objective exceeds '' @ show_nat MAX_OBJECTIVE_BYTES @ '' bytes''))
     else None)"

text \<open>The columns that a start writes.\<close>

definition start_columns :: "int \<Rightarrow> string \<Rightarrow> string \<Rightarrow> start_goal_input \<Rightarrow> goal_task \<Rightarrow> goal_task" where
  "start_columns now gid trimmed input t = t\<lparr>
     goalObjective := Some trimmed, goalStatus := Some GActive, goalStartedAt := Some now, goalIterations := Some 0,
     goalTokensUsed := Some 0, goalCompletedAt := None, goalId := Some gid,
     goalMaxWallSeconds := startMaxWallSeconds input, goalTokenBudget := startTokenBudget input,
     goalLastVerifierVerdict := None, goalLastVerifierAt := None, goalLastVerifierBlocker := None\<rparr>"

text \<open>\<open>persistPlanLocation\<close>.\<close>

definition persistPlanLocation :: "string \<Rightarrow> plan_location \<Rightarrow> string \<Rightarrow> goal_world \<Rightarrow> goal_world" where
  "persistPlanLocation i location gid w =
    (case tasks w i of
       None \<Rightarrow> w
     | Some t \<Rightarrow> put_task i (t\<lparr>goalId := Some gid, goalPlanPath := Some (relativePath location)\<rparr>) w)"

text \<open>A goal that was cancelled may be replaced, no other.\<close>

definition goal_taken :: "goal_task \<Rightarrow> bool" where
  "goal_taken t = (has_goal t \<and> goalStatus t \<noteq> None \<and> goalStatus t \<noteq> Some GCancelled)"

text \<open>\<open>gid\<close> is the fresh id, \<open>summaryTitle\<close> and \<open>latestAnswer\<close> what the task's summary has.\<close>

definition startGoalOnExistingTask ::
    "call_env \<Rightarrow> string \<Rightarrow> string option \<Rightarrow> string option \<Rightarrow> string \<Rightarrow> start_goal_input \<Rightarrow> goal_world
     \<Rightarrow> (goal_error + started_goal) \<times> goal_world" where
  "startGoalOnExistingTask e gid summaryTitle latestAnswer i input w =
    (let trimmed = js_trim (startObjective input) in
     case objective_error trimmed of
       Some err \<Rightarrow> (Inl err, w)
     | None \<Rightarrow> (case tasks w i of
         None \<Rightarrow> (Inl TaskNotFound, w)
       | Some t \<Rightarrow>
           if taskState t \<in> set REFUSED_STATES then (Inl (TaskTerminal (taskState t)), w)
           else if goal_taken t then (Inl (GoalAlreadyActive (the (goalStatus t))), w)
           else
             let w1 = put_task i (start_columns (envNow e) gid trimmed input t) w;
                 context = buildPriorContextSummary
                   (case taskTitle t of None \<Rightarrow> summaryTitle | Some s \<Rightarrow> Some s) latestAnswer (taskDescription t);
                 (path, w2) =
                   (case initializePlanWithPriorContext (envDisk e) (envBase e (taskWorkspace t)) (envStamp e)
                       \<lparr>initTask = i, initObjective = trimmed, initGoalId = gid\<rparr> context (plans w1) of
                      Inl err \<Rightarrow> ([], w1)
                    | Inr (location, files) \<Rightarrow>
                        (relativePath location, persistPlanLocation i location gid (w1\<lparr>plans := files\<rparr>)))
             in (Inr \<lparr>startedGoalId = gid, startedGoalAt = envNow e, startedTokenBudget = startTokenBudget input,
                      startedMaxWallSeconds = startMaxWallSeconds input, startedPlanPath = path\<rparr>, w2)))"

text \<open>The goal columns of a task that is created with a goal (\<open>process-task-intent-service.ts\<close>).\<close>

definition create_with_goal :: "int \<Rightarrow> string \<Rightarrow> start_goal_input \<Rightarrow> goal_task \<Rightarrow> goal_task" where
  "create_with_goal now gid input t = t\<lparr>
     goalObjective := Some (startObjective input), goalStatus := Some GActive, goalStartedAt := Some now,
     goalIterations := Some 0, goalTokensUsed := Some 0, goalId := Some gid,
     goalMaxWallSeconds := startMaxWallSeconds input, goalTokenBudget := startTokenBudget input\<rparr>"

section \<open>Editing the objective\<close>

definition editGoalObjective :: "call_env \<Rightarrow> string \<Rightarrow> string \<Rightarrow> goal_world \<Rightarrow> (goal_error + string \<times> int) \<times> goal_world" where
  "editGoalObjective e i objective w =
    (let trimmed = js_trim objective in
     case objective_error trimmed of
       Some err \<Rightarrow> (Inl err, w)
     | None \<Rightarrow> (case tasks w i of
         None \<Rightarrow> (Inl TaskNotFound, w)
       | Some t \<Rightarrow>
           if \<not> has_goal t then (Inl (NoActiveGoal ''Task has no goal to edit''), w)
           else if goalStatus t = Some GComplete \<or> goalStatus t = Some GCancelled
             then (Inl (GoalNotActive (the (goalStatus t))), w)
           else (Inr (trimmed, envNow e),
             log_entry e i t (case goalIterations t of Some n \<Rightarrow> n | None \<Rightarrow> 0) InProgress
               (''Objective edited by user. New objective: '' @ take 200 trimmed
                 @ (if length trimmed > 200 then [CHR 0x85] else []))
               (put_task i (t\<lparr>goalObjective := Some trimmed, goalObjectiveEditedAt := Some (envNow e),
                  goalLastVerifierVerdict := None, goalLastVerifierAt := None, goalLastVerifierBlocker := None\<rparr>) w))))"

section \<open>Subgoals\<close>

definition MAX_SUBGOAL_BYTES :: nat where "MAX_SUBGOAL_BYTES = 4096"

definition MAX_SUBGOALS :: nat where "MAX_SUBGOALS = 32"

definition parseSubgoals :: "json_text option \<Rightarrow> string list" where
  "parseSubgoals raw = (case raw of
     Some (Some (JArr items)) \<Rightarrow> filter (\<lambda>s. s \<noteq> []) (List.map_filter json_as_str items)
   | _ \<Rightarrow> [])"

definition subgoals_json :: "string list \<Rightarrow> json_text" where
  "subgoals_json xs = Some (JArr (map JStr xs))"

definition listSubgoals :: "string \<Rightarrow> goal_world \<Rightarrow> goal_error + string list" where
  "listSubgoals i w =
    (case tasks w i of
       None \<Rightarrow> Inl TaskNotFound
     | Some t \<Rightarrow> if \<not> has_goal t then Inl (NoActiveGoal ''Task has no goal'') else Inr (parseSubgoals (goalSubgoals t)))"

definition addSubgoal :: "string \<Rightarrow> string \<Rightarrow> goal_world \<Rightarrow> (goal_error + string list) \<times> goal_world" where
  "addSubgoal i txt w =
    (let trimmed = js_trim txt in
     if trimmed = [] then (Inl (InvalidSubgoal ''Subgoal text is empty''), w)
     else if utf8_length trimmed > MAX_SUBGOAL_BYTES
       then (Inl (InvalidSubgoal (''Subgoal exceeds '' @ show_nat MAX_SUBGOAL_BYTES @ '' bytes'')), w)
     else (case tasks w i of
         None \<Rightarrow> (Inl TaskNotFound, w)
       | Some t \<Rightarrow>
           if \<not> has_goal t \<or> goalStatus t \<noteq> Some GActive
             then (Inl (NoActiveGoal (''Task has no active goal '' @ [CHR 0x97] @ '' start a goal first'')), w)
           else let current = parseSubgoals (goalSubgoals t) in
             if length current \<ge> MAX_SUBGOALS then (Inl LimitReached, w)
             else (Inr (current @ [trimmed]), put_task i (t\<lparr>goalSubgoals := Some (subgoals_json (current @ [trimmed]))\<rparr>) w)))"

fun drop_index :: "nat \<Rightarrow> 'a list \<Rightarrow> 'a list" where
  "drop_index k [] = []"
| "drop_index 0 (x # xs) = xs"
| "drop_index (Suc k) (x # xs) = x # drop_index k xs"

text \<open>The index is the integer that the number is, if it is one.\<close>

definition removeSubgoal :: "string \<Rightarrow> int option \<Rightarrow> goal_world \<Rightarrow> (goal_error + string list) \<times> goal_world" where
  "removeSubgoal i index1Based w =
    (case index1Based of
       None \<Rightarrow> (Inl IndexOutOfRange, w)
     | Some k \<Rightarrow>
         if k < 1 then (Inl IndexOutOfRange, w)
         else (case tasks w i of
             None \<Rightarrow> (Inl TaskNotFound, w)
           | Some t \<Rightarrow>
               if \<not> has_goal t then (Inl (NoActiveGoal ''Task has no goal''), w)
               else let current = parseSubgoals (goalSubgoals t) in
                 if k > int (length current) then (Inl IndexOutOfRange, w)
                 else let rest = drop_index (nat k - 1) current in
                   (Inr rest, put_task i (t\<lparr>goalSubgoals := if rest = [] then None else Some (subgoals_json rest)\<rparr>) w)))"

definition clearSubgoals :: "string \<Rightarrow> goal_world \<Rightarrow> (goal_error + string list) \<times> goal_world" where
  "clearSubgoals i w =
    (case tasks w i of
       None \<Rightarrow> (Inl TaskNotFound, w)
     | Some t \<Rightarrow>
         if \<not> has_goal t then (Inl (NoActiveGoal ''Task has no goal''), w)
         else (Inr [], put_task i (t\<lparr>goalSubgoals := None\<rparr>) w))"

section \<open>The evaluator's verdict\<close>

datatype evaluator_verdict = Ready | Blocked string | Unclear

definition READY_RE :: rx where
  "READY_RE = seqs [WordB, Alt (seqs [lit_ci ''overall'', plus ws, lit_ci ''verdict'']) (lit_ci ''verdict''),
     Star ws, opt (lit '':''), Star ws, lit_ci ''ready'', WordB]"

text \<open>The expression up to its group, which takes the rest of the line; the dashes of its class are the three it names.\<close>

definition BLOCKED_RE :: rx where
  "BLOCKED_RE = seqs [WordB, Alt (seqs [lit_ci ''overall'', plus ws, lit_ci ''verdict'']) (lit_ci ''verdict''),
     Star ws, opt (lit '':''), Star ws, lit_ci ''blocked'', WordB,
     Star (Cls (\<lambda>c. is_ws c \<or> c \<in> {CHR ''-'', CHR 0x96, CHR 0x97, CHR '':''}))]"

text \<open>What follows the first match of an expression.\<close>

fun rx_after :: "rx \<Rightarrow> char option \<Rightarrow> string \<Rightarrow> string option" where
  "rx_after r prev [] = (case rx_ends r (prev, []) of [] \<Rightarrow> None | q # _ \<Rightarrow> Some (snd q))"
| "rx_after r prev (c # cs) =
     (case rx_ends r (prev, c # cs) of [] \<Rightarrow> rx_after r (Some c) cs | q # _ \<Rightarrow> Some (snd q))"

definition NO_REASON :: string where
  "NO_REASON = ''Evaluator returned BLOCKED with no reason summary; spawn evaluator again with explicit criteria.''"

definition parseEvaluatorVerdict :: "string \<Rightarrow> evaluator_verdict" where
  "parseEvaluatorVerdict rawText =
    (if js_trim rawText = [] then Unclear
     else let tail = lastn 2048 rawText in
       case rx_after BLOCKED_RE None tail of
         Some rest \<Rightarrow>
           let reason = js_trim (takeWhile (\<lambda>c. c \<noteq> CHR 0x0A \<and> c \<noteq> CHR 0x0D) rest)
           in Blocked (if reason = [] then NO_REASON else reason)
       | None \<Rightarrow> if rx_test READY_RE tail then Ready else Unclear)"

definition PARSE_FAILURE_THRESHOLD :: nat where "PARSE_FAILURE_THRESHOLD = 3"

definition PAUSE_HINT :: string where
  "PAUSE_HINT = ''Evaluator returned UNCLEAR 3 times in a row '' @ [CHR 0x97]
     @ '' goal auto-paused. The configured evaluator model is likely too weak to follow the verdict format. Switch the ''
     @ ''evaluator agent's model in Settings (or change its system-prompt addendum), then resume the goal.''"

definition iterations_of :: "goal_task \<Rightarrow> nat" where
  "iterations_of t = (case goalIterations t of Some n \<Rightarrow> n | None \<Rightarrow> 0)"

definition recordVerdict :: "call_env \<Rightarrow> string \<Rightarrow> evaluator_verdict \<Rightarrow> goal_world \<Rightarrow> (bool \<times> nat) \<times> goal_world" where
  "recordVerdict e i v w =
    (case tasks w i of
       None \<Rightarrow> ((False, 0), w)
     | Some t \<Rightarrow> (case v of
         Unclear \<Rightarrow>
           (let failures = (case goalEvaluatorParseFailures t of Some n \<Rightarrow> n | None \<Rightarrow> 0) + 1 in
            if failures \<ge> PARSE_FAILURE_THRESHOLD \<and> goalStatus t = Some GActive
            then ((True, failures), log_entry e i t (iterations_of t) LogBlocked PAUSE_HINT
                   (put_task i (t\<lparr>goalEvaluatorParseFailures := Some failures, goalStatus := Some GPaused,
                      goalCompletedAt := Some (envNow e)\<rparr>) w))
            else ((False, failures), put_task i (t\<lparr>goalEvaluatorParseFailures := Some failures\<rparr>) w))
       | Ready \<Rightarrow> ((False, 0), put_task i (t\<lparr>goalLastVerifierVerdict := Some VReady, goalLastVerifierAt := Some (envNow e),
             goalLastVerifierBlocker := None, goalEvaluatorParseFailures := Some 0\<rparr>) w)
       | Blocked reason \<Rightarrow> ((False, 0), put_task i (t\<lparr>goalLastVerifierVerdict := Some VBlocked,
             goalLastVerifierAt := Some (envNow e), goalLastVerifierBlocker := Some reason,
             goalEvaluatorParseFailures := Some 0\<rparr>) w)))"

definition clear_verdict :: "goal_task \<Rightarrow> goal_task" where
  "clear_verdict t = t\<lparr>goalLastVerifierVerdict := None, goalLastVerifierAt := None, goalLastVerifierBlocker := None\<rparr>"

definition clearVerdict :: "string \<Rightarrow> goal_world \<Rightarrow> goal_world" where
  "clearVerdict i w = (case tasks w i of None \<Rightarrow> w | Some t \<Rightarrow> put_task i (clear_verdict t) w)"

definition VERDICT_FRESHNESS_MS :: int where "VERDICT_FRESHNESS_MS = 600000"

definition isVerdictFresh :: "int option \<Rightarrow> int \<Rightarrow> bool" where
  "isVerdictFresh at now = (case at of None \<Rightarrow> False | Some a \<Rightarrow> a \<noteq> 0 \<and> now - a \<le> VERDICT_FRESHNESS_MS)"

text \<open>The hook behind every teammate's end, and the tool by which an evaluator hands in its verdict.\<close>

definition maybeRecordEvaluatorVerdict :: "call_env \<Rightarrow> string \<Rightarrow> string \<Rightarrow> string \<Rightarrow> goal_world \<Rightarrow> goal_world" where
  "maybeRecordEvaluatorVerdict e roleId i finalText w =
    (if roleId \<noteq> ''evaluator'' then w
     else case tasks w i of
       None \<Rightarrow> w
     | Some t \<Rightarrow> if \<not> has_goal t then w else snd (recordVerdict e i (parseEvaluatorVerdict finalText) w))"

datatype verdict_reply = VerdictNoGoal | VerdictNeedsBlocker | VerdictStored

definition submit_goal_verdict :: "call_env \<Rightarrow> string \<Rightarrow> bool \<Rightarrow> string option \<Rightarrow> goal_world \<Rightarrow> verdict_reply \<times> goal_world" where
  "submit_goal_verdict e i ready blocker w =
    (case tasks w i of
       None \<Rightarrow> (VerdictNoGoal, w)
     | Some t \<Rightarrow>
         if \<not> has_goal t then (VerdictNoGoal, w)
         else if \<not> ready \<and> (case blocker of None \<Rightarrow> True | Some b \<Rightarrow> js_trim b = []) then (VerdictNeedsBlocker, w)
         else (VerdictStored, snd (recordVerdict e i (if ready then Ready else Blocked (js_trim (the blocker))) w)))"

section \<open>The leader's tools\<close>

record complete_args =
  argSummary :: string
  argEvidence :: "string list"
  argTrivial :: bool
  argForce :: bool
  argExpectedGoalId :: "string option"

datatype complete_reply =
    CompleteNoGoal
  | CompleteWrongGoal string string
  | CompleteNotActive "goal_status option"
  | CompleteBlocked string
  | CompleteTrivialTooLate nat
  | CompletedTrivial string
  | CompletedAudited string

fun is_completed :: "complete_reply \<Rightarrow> bool" where
  "is_completed (CompletedTrivial s) = True"
| "is_completed (CompletedAudited s) = True"
| "is_completed r = False"

definition formatCompletionBudgetReport :: "int \<Rightarrow> int option \<Rightarrow> int option \<Rightarrow> int \<Rightarrow> string" where
  "formatCompletionBudgetReport tokensUsed tokenBudget startedAtMs completedAtMs =
    (let budget = (case tokenBudget of Some b \<Rightarrow> b > 0 | None \<Rightarrow> False);
         tokens = (if budget then [''tokens used: '' @ show_int tokensUsed @ '' of '' @ show_int (the tokenBudget)]
                   else if tokensUsed > 0 then [''tokens used: '' @ show_int tokensUsed] else []);
         elapsed = (case startedAtMs of None \<Rightarrow> []
           | Some a \<Rightarrow> let sec = max 0 ((completedAtMs - a) div 1000)
                       in if sec > 0 then [''elapsed: '' @ show_int sec @ ''s''] else []);
         parts = tokens @ elapsed
     in if parts = [] then []
        else '' Final budget '' @ [CHR 0x97] @ '' '' @ js_join ''; '' parts @ ''. Report this to the user in your closing message.'')"

definition budget_report :: "int \<Rightarrow> goal_task \<Rightarrow> string" where
  "budget_report now t = formatCompletionBudgetReport (case goalTokensUsed t of Some n \<Rightarrow> n | None \<Rightarrow> 0)
     (goalTokenBudget t) (goalStartedAt t) now"

definition id_mismatch :: "string option \<Rightarrow> goal_task \<Rightarrow> bool" where
  "id_mismatch expected t = (truthy_str expected \<and> truthy_str (goalId t) \<and> expected \<noteq> goalId t)"

definition completed_goal :: "int \<Rightarrow> goal_task \<Rightarrow> goal_task" where
  "completed_goal now t = t\<lparr>goalStatus := Some GComplete, goalIterations := Some (iterations_of t + 1),
     goalCompletedAt := Some now\<rparr>"

definition mark_goal_complete :: "call_env \<Rightarrow> string \<Rightarrow> complete_args \<Rightarrow> goal_world \<Rightarrow> complete_reply \<times> goal_world" where
  "mark_goal_complete e i a w =
    (case tasks w i of
       None \<Rightarrow> (CompleteNoGoal, w)
     | Some t \<Rightarrow>
         if \<not> has_goal t then (CompleteNoGoal, w)
         else if id_mismatch (argExpectedGoalId a) t
           then (CompleteWrongGoal (the (argExpectedGoalId a)) (the (goalId t)), w)
         else if goalStatus t \<noteq> Some GActive then (CompleteNotActive (goalStatus t), w)
         else if goalLastVerifierVerdict t = Some VBlocked \<and> \<not> argForce a
           then (CompleteBlocked (case goalLastVerifierBlocker t of Some b \<Rightarrow> b
                   | None \<Rightarrow> ''Evaluator returned BLOCKED with no reason '' @ [CHR 0x97] @ '' re-run the evaluator.''), w)
         else if argTrivial a \<and> iterations_of t \<ge> 1 then (CompleteTrivialTooLate (iterations_of t), w)
         else
           let done = put_task i (completed_goal (envNow e) t) w;
               n = iterations_of t + 1 in
           if argTrivial a then
             (CompletedTrivial (''Goal marked complete (trivial path '' @ [CHR 0x97] @ '' no evaluator needed). ''
                @ argSummary a @ budget_report (envNow e) t),
              log_entry e i t n CompleteClaimed (''Goal complete (trivial path, no evaluator). '' @ argSummary a) done)
           else
             (CompletedAudited (''Goal marked complete after '' @ show_nat n @ '' iteration(s) (self-audit). '' @ argSummary a
                @ (if argEvidence a \<noteq> [] then '' Evidence: '' @ js_join ''; '' (argEvidence a) @ ''.'' else [])
                @ budget_report (envNow e) t),
              log_entry e i t n CompleteClaimed (''Goal complete (self-audit). '' @ argSummary a) done))"

datatype plan_reply = PlanNoGoal | PlanWrongGoal | PlanNoWorkspace | PlanUpdated nat | CriterionAdded | PlanFailed plan_error | PlanThrew plan_error

definition update_goal_plan :: "call_env \<Rightarrow> string \<Rightarrow> string \<Rightarrow> string option \<Rightarrow> goal_world \<Rightarrow> plan_reply \<times> goal_world" where
  "update_goal_plan e i content expected w =
    (case tasks w i of
       None \<Rightarrow> (PlanNoGoal, w)
     | Some t \<Rightarrow>
         if \<not> has_goal t then (PlanNoGoal, w)
         else if id_mismatch expected t then (PlanWrongGoal, w)
         else if taskWorkspace t = [] then (PlanNoWorkspace, w)
         else case writePlan (envDisk e) (envBase e (taskWorkspace t)) i content (plans w) of
             Inl err \<Rightarrow> (PlanFailed err, w)
           | Inr (n, files) \<Rightarrow> (PlanUpdated n, w\<lparr>plans := files\<rparr>))"

text \<open>A plan that cannot be read makes the call throw; one that cannot be written is reported.\<close>

definition add_acceptance_criterion :: "call_env \<Rightarrow> string \<Rightarrow> string \<Rightarrow> string option \<Rightarrow> goal_world \<Rightarrow> plan_reply \<times> goal_world" where
  "add_acceptance_criterion e i txt expected w =
    (case tasks w i of
       None \<Rightarrow> (PlanNoGoal, w)
     | Some t \<Rightarrow>
         if \<not> has_goal t then (PlanNoGoal, w)
         else if id_mismatch expected t then (PlanWrongGoal, w)
         else if taskWorkspace t = [] then (PlanNoWorkspace, w)
         else case readPlan (envDisk e) (envBase e (taskWorkspace t)) i (plans w) of
             Inl err \<Rightarrow> (PlanThrew err, w)
           | Inr existing \<Rightarrow>
               (case writePlan (envDisk e) (envBase e (taskWorkspace t)) i
                   (splice_criterion (case existing of Some s \<Rightarrow> s | None \<Rightarrow> []) txt) (plans w) of
                  Inl err \<Rightarrow> (PlanFailed err, w)
                | Inr (n, files) \<Rightarrow> (CriterionAdded, w\<lparr>plans := files\<rparr>)))"

end
