(* ===== verification/Js_Number.thy ===== *)
theory Js_Number
  imports Js_Prelude
begin

text \<open>
  Numbers of the source language. \<open>js_parse_int\<close> is \<open>Number.parseInt(s, 10)\<close>. A double constant in
  the unit interval is a pair of its integer significand and the number of binary places, and
  \<open>js_floor_mul\<close> is \<open>Math.floor(n * c)\<close> for an integer \<open>n\<close> (below 2^53 in absolute value) and such a
  constant, the product rounded to 53 significant bits, ties to even, as IEEE 754 prescribes.
\<close>

fun digits_value :: "nat \<Rightarrow> string \<Rightarrow> nat" where
  "digits_value acc [] = acc"
| "digits_value acc (c # cs) = digits_value (10 * acc + (char_nat c - 48)) cs"

definition js_parse_int :: "string \<Rightarrow> int option" where
  "js_parse_int s =
     (let t = trim_start s;
          neg = (case t of c # _ \<Rightarrow> c = CHR ''-'' | [] \<Rightarrow> False);
          body = (case t of c # cs \<Rightarrow> if c = CHR ''-'' \<or> c = CHR ''+'' then cs else t | [] \<Rightarrow> []);
          ds = takeWhile is_digit body
      in if ds = [] then None
         else Some (if neg then - int (digits_value 0 ds) else int (digits_value 0 ds)))"

fun bit_len :: "nat \<Rightarrow> nat" where
  "bit_len n = (if n = 0 then 0 else Suc (bit_len (n div 2)))"

declare bit_len.simps [simp del]

definition round_53 :: "nat \<Rightarrow> nat" where
  "round_53 x =
     (if x < 2 ^ 53 then x
      else let s = bit_len x - 53; q = x div 2 ^ s; r = x mod 2 ^ s; half = 2 ^ (s - 1)
           in (if half < r \<or> (r = half \<and> odd q) then q + 1 else q) * 2 ^ s)"

type_synonym unit_double = "nat \<times> nat"

definition js_floor_mul :: "int \<Rightarrow> unit_double \<Rightarrow> int" where
  "js_floor_mul n c =
     (let p = int (round_53 (nat \<bar>n\<bar> * fst c))
      in (if n < 0 then - p else p) div 2 ^ snd c)"

lemma bit_len_bounds: "0 < n \<Longrightarrow> 2 ^ (bit_len n - 1) \<le> n \<and> n < 2 ^ bit_len n"
proof (induction n rule: bit_len.induct)
  case (1 n)
  show ?case
  proof (cases "n div 2 = 0")
    case True
    then have "n = 1" using "1.prems" by presburger
    then show ?thesis by (simp add: bit_len.simps)
  next
    case False
    with "1" have IH: "2 ^ (bit_len (n div 2) - 1) \<le> n div 2" "n div 2 < 2 ^ bit_len (n div 2)"
      by auto
    have eq: "bit_len n = Suc (bit_len (n div 2))"
      using "1.prems" by (subst bit_len.simps) simp
    have "bit_len (n div 2) \<noteq> 0"
      using False by (subst bit_len.simps) simp
    then obtain k where k: "bit_len (n div 2) = Suc k" by (cases "bit_len (n div 2)") auto
    have "2 * 2 ^ k \<le> n" using IH(1) k by simp
    moreover have "n < 2 * 2 ^ bit_len (n div 2)" using IH(2) by simp
    ultimately show ?thesis by (simp add: eq k)
  qed
qed

lemma round_53_le:
  assumes "x \<le> m * 2 ^ k" and "m < 2 ^ 53"
  shows "round_53 x \<le> m * 2 ^ k"
proof (cases "x < 2 ^ 53")
  case True
  then show ?thesis using assms by (simp add: round_53_def)
next
  case False
  define s where "s = bit_len x - 53"
  have pos: "0 < x" using False by simp
  have "2 ^ 53 \<le> x" using False by simp
  also have "x < 2 ^ bit_len x" using bit_len_bounds [OF pos] by simp
  finally have "(2::nat) ^ 53 < 2 ^ bit_len x" .
  then have "53 < bit_len x" by (rule power_less_imp_less_exp [rotated]) simp
  then have s: "bit_len x - 1 = s + 52" "0 < s" by (simp_all add: s_def)
  have "s \<le> k"
  proof (rule ccontr)
    assume "\<not> s \<le> k"
    then have "k + 53 \<le> s + 52" by simp
    then have "(2::nat) ^ (k + 53) \<le> 2 ^ (s + 52)" by (intro power_increasing) auto
    also have "\<dots> \<le> x" using bit_len_bounds [OF pos] s by simp
    also have "x \<le> m * 2 ^ k" by (rule assms(1))
    also have "\<dots> < 2 ^ 53 * 2 ^ k" using assms(2) by simp
    finally show False by (simp add: power_add)
  qed
  then obtain j where k: "k = s + j" using le_iff_add by blast
  let ?q = "x div 2 ^ s" and ?r = "x mod 2 ^ s"
  have y: "m * 2 ^ k = (m * 2 ^ j) * 2 ^ s" by (simp add: k power_add algebra_simps)
  have x: "x = ?q * 2 ^ s + ?r" by (rule div_mult_mod_eq [symmetric])
  show ?thesis
  proof (cases "?r = 0")
    case True
    then have "round_53 x = ?q * 2 ^ s"
      using False by (simp add: round_53_def Let_def s_def [symmetric])
    then show ?thesis using assms(1) True x by simp
  next
    case r: False
    have "?q * 2 ^ s < (m * 2 ^ j) * 2 ^ s" using assms(1) y x r by linarith
    then have "?q + 1 \<le> m * 2 ^ j" by simp
    then have "(?q + 1) * 2 ^ s \<le> (m * 2 ^ j) * 2 ^ s" by (intro mult_right_mono) auto
    moreover have "round_53 x \<le> (?q + 1) * 2 ^ s"
      using False by (simp add: round_53_def Let_def s_def [symmetric])
    ultimately show ?thesis using y by linarith
  qed
qed

text \<open>Scaling by a constant below one keeps a non-negative integer between zero and itself.\<close>

lemma js_floor_mul_bounds:
  assumes "0 \<le> n" and "n < 2 ^ 53" and "fst c < 2 ^ snd c"
  shows "0 \<le> js_floor_mul n c" and "js_floor_mul n c \<le> n"
proof -
  show "0 \<le> js_floor_mul n c"
    using assms(1) by (simp add: js_floor_mul_def Let_def pos_imp_zdiv_nonneg_iff)
  have "nat n * fst c \<le> nat n * 2 ^ snd c" using assms(3) by simp
  moreover have "nat n < 2 ^ 53" using assms(1,2) by (simp add: nat_less_iff)
  ultimately have "round_53 (nat n * fst c) \<le> nat n * 2 ^ snd c" by (rule round_53_le)
  then have "int (round_53 (nat n * fst c)) \<le> int (nat n * 2 ^ snd c)" by (rule of_nat_mono)
  then have "int (round_53 (nat n * fst c)) \<le> n * 2 ^ snd c" using assms(1) by simp
  then have "int (round_53 (nat n * fst c)) div 2 ^ snd c \<le> (n * 2 ^ snd c) div 2 ^ snd c"
    by (intro zdiv_mono1) auto
  then show "js_floor_mul n c \<le> n"
    using assms(1) by (simp add: js_floor_mul_def Let_def)
qed

end
