(* ===== verification/Leader_Messages.thy ===== *)
theory Leader_Messages
  imports Js_Prelude
begin

text \<open>
  The messages of a leader's conversation
  (\<open>apps/api/src/services/manager-automation/autonomous-loop/autonomous-types.ts\<close>), as the pairing,
  the resume pipeline, the token estimator and the plan mode use them, and the removal of unpaired
  tool blocks (\<open>message-pairing.ts\<close> beside it). An absent optional field is \<open>None\<close>.
\<close>

section \<open>Data\<close>

record msg_base =
  uuid :: "string option"
  timestamp :: "string option"
  isMeta :: "bool option"
  requestId :: "string option"

datatype result_block = RText string | RImage string string

datatype result_content = RCStr string | RCBlocks "result_block list"

datatype content_block =
    CText string
  | CThinking string
  | CToolUse string string "(string \<times> json) list" "string option"
  | CToolResult string result_content "bool option"
  | CImage string string

datatype user_content = UStr string | UBlocks "content_block list"

datatype leader_message =
    MUser msg_base user_content
  | MAssistant msg_base "content_block list" "string option" "bool option"
  | MToolResult msg_base string result_content "bool option"
  | MProgress msg_base string json
  | MTombstone msg_base "string list"

definition no_base :: msg_base where
  "no_base = \<lparr>uuid = None, timestamp = None, isMeta = None, requestId = None\<rparr>"

fun is_tool_use :: "content_block \<Rightarrow> bool" where
  "is_tool_use (CToolUse i n inp p) = True"
| "is_tool_use b = False"

text \<open>The JSON a block or a result content is rendered as; an absent field is not rendered.\<close>

definition opt_field :: "string \<Rightarrow> json option \<Rightarrow> (string \<times> json) list" where
  "opt_field k v = (case v of None \<Rightarrow> [] | Some j \<Rightarrow> [(k, j)])"

fun result_block_json :: "result_block \<Rightarrow> json" where
  "result_block_json (RText t) = JObj [(''type'', JStr ''text''), (''text'', JStr t)]"
| "result_block_json (RImage mt d) =
     JObj [(''type'', JStr ''image''), (''mediaType'', JStr mt), (''data'', JStr d)]"

fun result_content_json :: "result_content \<Rightarrow> json" where
  "result_content_json (RCStr s) = JStr s"
| "result_content_json (RCBlocks bs) = JArr (map result_block_json bs)"

fun content_block_json :: "content_block \<Rightarrow> json" where
  "content_block_json (CText t) = JObj [(''type'', JStr ''text''), (''text'', JStr t)]"
| "content_block_json (CThinking t) = JObj [(''type'', JStr ''thinking''), (''thinking'', JStr t)]"
| "content_block_json (CToolUse i n inp p) =
     JObj ([(''type'', JStr ''tool_use''), (''id'', JStr i), (''name'', JStr n), (''input'', JObj inp)]
           @ opt_field ''providerToolUseId'' (map_option JStr p))"
| "content_block_json (CToolResult i c e) =
     JObj ([(''type'', JStr ''tool_result''), (''tool_use_id'', JStr i),
            (''content'', result_content_json c)]
           @ opt_field ''is_error'' (map_option JBool e))"
| "content_block_json (CImage mt d) =
     JObj [(''type'', JStr ''image''), (''mediaType'', JStr mt), (''data'', JStr d)]"

section \<open>Dropping unpaired tool blocks\<close>

text \<open>
  The first pass: the ids declared so far and the ids that a later result answers, over the blocks of
  one message and over the stream.
\<close>

type_synonym pair_state = "string set \<times> string set"

fun record_result :: "string \<Rightarrow> pair_state \<Rightarrow> pair_state" where
  "record_result i (declared, valid) =
     (declared, if i \<in> declared then insert i valid else valid)"

fun scan_assistant_block :: "content_block \<Rightarrow> pair_state \<Rightarrow> pair_state" where
  "scan_assistant_block (CToolUse i n inp p) (declared, valid) = (insert i declared, valid)"
| "scan_assistant_block b st = st"

fun scan_user_block :: "content_block \<Rightarrow> pair_state \<Rightarrow> pair_state" where
  "scan_user_block (CToolResult i c e) st = record_result i st"
| "scan_user_block b st = st"

fun scan_message :: "leader_message \<Rightarrow> pair_state \<Rightarrow> pair_state" where
  "scan_message (MAssistant b content ae em) st = fold scan_assistant_block content st"
| "scan_message (MToolResult b i c e) st = record_result i st"
| "scan_message (MUser b (UBlocks content)) st = fold scan_user_block content st"
| "scan_message m st = st"

definition validPairIds :: "leader_message list \<Rightarrow> string set" where
  "validPairIds messages = snd (fold scan_message messages ({}, {}))"

text \<open>The second pass.\<close>

fun keep_assistant_block :: "string set \<Rightarrow> content_block \<Rightarrow> bool" where
  "keep_assistant_block valid (CToolUse i n inp p) = (i \<in> valid)"
| "keep_assistant_block valid b = True"

fun keep_user_block :: "string set \<Rightarrow> content_block \<Rightarrow> bool" where
  "keep_user_block valid (CToolResult i c e) = (i \<in> valid)"
| "keep_user_block valid b = True"

fun is_visible_text :: "content_block \<Rightarrow> bool" where
  "is_visible_text (CText t) = (js_trim t \<noteq> [])"
| "is_visible_text b = False"

fun prune_message :: "string set \<Rightarrow> leader_message \<Rightarrow> leader_message option" where
  "prune_message valid (MAssistant b content ae em) =
     (let filtered = filter (keep_assistant_block valid) content
      in if \<not> list_ex is_visible_text filtered \<and> \<not> list_ex is_tool_use filtered then None
         else Some (MAssistant b filtered ae em))"
| "prune_message valid (MToolResult b i c e) =
     (if i \<in> valid then Some (MToolResult b i c e) else None)"
| "prune_message valid (MUser b (UBlocks content)) =
     (let filtered = filter (keep_user_block valid) content
      in if filtered = [] then None else Some (MUser b (UBlocks filtered)))"
| "prune_message valid m = Some m"

definition pairLeaderToolMessages :: "leader_message list \<Rightarrow> leader_message list" where
  "pairLeaderToolMessages messages = List.map_filter (prune_message (validPairIds messages)) messages"

section \<open>The tool events of a history\<close>

text \<open>
  What a provider sees of a history, as far as tools are concerned: the declarations and the answers in
  conversation order.
\<close>

datatype tool_event = Declares string | Answers string

fun assistant_block_events :: "content_block \<Rightarrow> tool_event list" where
  "assistant_block_events (CToolUse i n inp p) = [Declares i]"
| "assistant_block_events b = []"

fun user_block_events :: "content_block \<Rightarrow> tool_event list" where
  "user_block_events (CToolResult i c e) = [Answers i]"
| "user_block_events b = []"

fun msg_events :: "leader_message \<Rightarrow> tool_event list" where
  "msg_events (MAssistant b content ae em) = List.concat (map assistant_block_events content)"
| "msg_events (MToolResult b i c e) = [Answers i]"
| "msg_events (MUser b (UBlocks content)) = List.concat (map user_block_events content)"
| "msg_events m = []"

definition tool_events :: "leader_message list \<Rightarrow> tool_event list" where
  "tool_events messages = List.concat (map msg_events messages)"

fun event_id :: "tool_event \<Rightarrow> string" where
  "event_id (Declares i) = i"
| "event_id (Answers i) = i"

text \<open>A declaration of the id with an answer to it somewhere behind.\<close>

definition answered_later :: "string \<Rightarrow> tool_event list \<Rightarrow> bool" where
  "answered_later i es \<longleftrightarrow> (\<exists>xs ys zs. es = xs @ Declares i # ys @ Answers i # zs)"

lemma tool_events_simps [simp]:
  "tool_events [] = []"
  "tool_events (m # ms) = msg_events m @ tool_events ms"
  "tool_events (ms @ ns) = tool_events ms @ tool_events ns"
  by (simp_all add: tool_events_def)

fun scan_event :: "tool_event \<Rightarrow> pair_state \<Rightarrow> pair_state" where
  "scan_event (Declares i) (declared, valid) = (insert i declared, valid)"
| "scan_event (Answers i) st = record_result i st"

lemma scan_assistant_blocks_events:
  "fold scan_assistant_block bs st = fold scan_event (List.concat (map assistant_block_events bs)) st"
proof (induction bs arbitrary: st)
  case (Cons b bs)
  then show ?case by (cases b; cases st) auto
qed simp

lemma scan_user_blocks_events:
  "fold scan_user_block bs st = fold scan_event (List.concat (map user_block_events bs)) st"
proof (induction bs arbitrary: st)
  case (Cons b bs)
  then show ?case by (cases b; cases st) auto
qed simp

lemma scan_message_events: "scan_message m st = fold scan_event (msg_events m) st"
  by (induction m st rule: scan_message.induct)
    (simp_all add: scan_assistant_blocks_events scan_user_blocks_events)

lemma scan_messages_events: "fold scan_message ms st = fold scan_event (tool_events ms) st"
  by (induction ms arbitrary: st) (simp_all add: scan_message_events)

lemma answered_later_snoc:
  "answered_later i (es @ [e]) \<longleftrightarrow> answered_later i es \<or> (e = Answers i \<and> Declares i \<in> set es)"
proof
  assume "answered_later i (es @ [e])"
  then obtain xs ys zs where eq: "es @ [e] = xs @ Declares i # ys @ Answers i # zs"
    by (auto simp: answered_later_def)
  show "answered_later i es \<or> (e = Answers i \<and> Declares i \<in> set es)"
  proof (cases zs rule: rev_cases)
    case Nil
    then have "es @ [e] = (xs @ Declares i # ys) @ [Answers i]" using eq by simp
    then have "es = xs @ Declares i # ys" "e = Answers i" by (metis append1_eq_conv)+
    then show ?thesis by simp
  next
    case (snoc ws w)
    then have "es @ [e] = (xs @ Declares i # ys @ Answers i # ws) @ [w]" using eq by simp
    then have "es = xs @ Declares i # ys @ Answers i # ws" by (metis append1_eq_conv)
    then show ?thesis by (auto simp: answered_later_def)
  qed
next
  assume "answered_later i es \<or> (e = Answers i \<and> Declares i \<in> set es)"
  then show "answered_later i (es @ [e])"
  proof
    assume "answered_later i es"
    then obtain xs ys zs where "es = xs @ Declares i # ys @ Answers i # zs"
      by (auto simp: answered_later_def)
    then have "es @ [e] = xs @ Declares i # ys @ Answers i # (zs @ [e])" by simp
    then show ?thesis unfolding answered_later_def by blast
  next
    assume e: "e = Answers i \<and> Declares i \<in> set es"
    then obtain xs ys where "es = xs @ Declares i # ys" by (meson split_list)
    then have "es @ [e] = xs @ Declares i # ys @ Answers i # []" using e by simp
    then show ?thesis unfolding answered_later_def by blast
  qed
qed

lemma scan_events_exact:
  "fold scan_event es ({}, {}) = ({i. Declares i \<in> set es}, {i. answered_later i es})"
proof (induction es rule: rev_induct)
  case Nil
  then show ?case by (simp add: answered_later_def)
next
  case (snoc e es)
  then show ?case by (cases e) (auto simp: answered_later_snoc)
qed

lemma validPairIds_exact: "validPairIds ms = {i. answered_later i (tool_events ms)}"
  by (simp add: validPairIds_def scan_messages_events scan_events_exact)

section \<open>What the pruned history looks like\<close>

lemma assistant_events_filter:
  "List.concat (map assistant_block_events (filter (keep_assistant_block v) bs))
     = filter (\<lambda>e. event_id e \<in> v) (List.concat (map assistant_block_events bs))"
proof (induction bs)
  case (Cons b bs)
  then show ?case by (cases b) auto
qed simp

lemma user_events_filter:
  "List.concat (map user_block_events (filter (keep_user_block v) bs))
     = filter (\<lambda>e. event_id e \<in> v) (List.concat (map user_block_events bs))"
proof (induction bs)
  case (Cons b bs)
  then show ?case by (cases b) auto
qed simp

lemma no_tool_use_no_events:
  "\<not> list_ex is_tool_use bs \<Longrightarrow> List.concat (map assistant_block_events bs) = []"
proof (induction bs)
  case (Cons b bs)
  then show ?case by (cases b) auto
qed simp

lemma prune_message_events:
  "(case prune_message v m of None \<Rightarrow> [] | Some m' \<Rightarrow> msg_events m')
     = filter (\<lambda>e. event_id e \<in> v) (msg_events m)"
proof (cases m)
  case (MUser b c)
  show ?thesis
  proof (cases c)
    case (UBlocks content)
    show ?thesis using user_events_filter [of v content]
      by (auto simp: MUser UBlocks Let_def)
  qed (simp add: MUser)
next
  case (MAssistant b content ae em)
  show ?thesis using assistant_events_filter [of v content]
      no_tool_use_no_events [of "filter (keep_assistant_block v) content"]
    by (auto simp: MAssistant Let_def)
qed auto

lemma map_filter_events:
  "tool_events (List.map_filter (prune_message v) ms)
     = filter (\<lambda>e. event_id e \<in> v) (tool_events ms)"
proof (induction ms)
  case (Cons m ms)
  then show ?case using prune_message_events [of v m]
    by (cases "prune_message v m") (auto simp: List.map_filter_simps)
qed (simp add: List.map_filter_simps)

lemma pair_events:
  "tool_events (pairLeaderToolMessages ms)
     = filter (\<lambda>e. answered_later (event_id e) (tool_events ms)) (tool_events ms)"
  by (simp add: pairLeaderToolMessages_def map_filter_events validPairIds_exact)

lemma answered_later_filter:
  assumes "answered_later i es" and "P (Declares i)" and "P (Answers i)"
  shows "answered_later i (filter P es)"
proof -
  obtain xs ys zs where "es = xs @ Declares i # ys @ Answers i # zs"
    using assms(1) by (auto simp: answered_later_def)
  then have "filter P es = filter P xs @ Declares i # filter P ys @ Answers i # filter P zs"
    using assms(2,3) by simp
  then show ?thesis unfolding answered_later_def by blast
qed

lemma answered_later_mem: "answered_later i es \<Longrightarrow> Declares i \<in> set es \<and> Answers i \<in> set es"
  by (auto simp: answered_later_def)

lemma pair_answered_later:
  "answered_later i (tool_events (pairLeaderToolMessages ms)) \<longleftrightarrow> answered_later i (tool_events ms)"
proof
  assume "answered_later i (tool_events (pairLeaderToolMessages ms))"
  then have "Declares i \<in> set (tool_events (pairLeaderToolMessages ms))"
    by (simp add: answered_later_mem)
  then show "answered_later i (tool_events ms)" by (simp add: pair_events)
next
  assume a: "answered_later i (tool_events ms)"
  show "answered_later i (tool_events (pairLeaderToolMessages ms))"
    unfolding pair_events by (rule answered_later_filter [OF a]) (simp_all add: a)
qed

lemma prune_message_again:
  "prune_message v m = Some m' \<Longrightarrow> prune_message v m' = Some m'"
  by (induction v m rule: prune_message.induct) (auto simp: Let_def split: if_splits)

lemma map_filter_idem:
  "(\<And>x y. f x = Some y \<Longrightarrow> f y = Some y) \<Longrightarrow>
     List.map_filter f (List.map_filter f xs) = List.map_filter f xs"
proof (induction xs)
  case (Cons x xs)
  then show ?case by (cases "f x") (auto simp: List.map_filter_simps)
qed (simp add: List.map_filter_simps)

section \<open>Properties\<close>

text \<open>
  Pairing settles in one pass: pruning an already pruned history changes nothing.
\<close>

theorem pair_idempotent:
  "pairLeaderToolMessages (pairLeaderToolMessages ms) = pairLeaderToolMessages ms"
proof -
  have v: "validPairIds (pairLeaderToolMessages ms) = validPairIds ms"
    by (simp add: validPairIds_exact pair_answered_later)
  show ?thesis
    unfolding pairLeaderToolMessages_def [of "pairLeaderToolMessages ms"] v
    unfolding pairLeaderToolMessages_def by (rule map_filter_idem) (rule prune_message_again)
qed

lemma pair_declared_iff:
  "Declares i \<in> set (tool_events (pairLeaderToolMessages ms)) \<longleftrightarrow> answered_later i (tool_events ms)"
  by (auto simp: pair_events dest: answered_later_mem)

lemma pair_answered_iff:
  "Answers i \<in> set (tool_events (pairLeaderToolMessages ms)) \<longleftrightarrow> answered_later i (tool_events ms)"
  by (auto simp: pair_events dest: answered_later_mem)

definition is_answer :: "tool_event \<Rightarrow> bool" where
  "is_answer e = (case e of Answers i \<Rightarrow> True | Declares i \<Rightarrow> False)"

lemma answer_once_prefix:
  assumes "distinct (filter is_answer es)" and "es = xs @ Answers i # zs" and "answered_later i es"
  shows "Declares i \<in> set xs"
proof -
  obtain ys ms cs where eq: "es = (ys @ Declares i # ms) @ Answers i # cs"
    using assms(3) by (auto simp: answered_later_def)
  have "Answers i \<notin> set xs" "Answers i \<notin> set zs"
    using assms(1) unfolding assms(2) by (auto simp: is_answer_def)
  then have "xs = ys @ Declares i # ms"
    using eq unfolding assms(2) by (subst (asm) append_Cons_eq_iff) auto
  then show ?thesis by simp
qed

text \<open>
  If no tool id is answered twice, then in the pruned history every tool call is answered further
  on and every answer stands behind its call, which is what the provider requires; and the calls and
  answers that survive are exactly those of the ids that were so paired before.
\<close>

theorem pair_forward:
  assumes "distinct (filter is_answer (tool_events ms))"
  shows "(\<forall>i. Declares i \<in> set (tool_events (pairLeaderToolMessages ms))
              \<longrightarrow> answered_later i (tool_events (pairLeaderToolMessages ms)))
    \<and> (\<forall>xs i zs. tool_events (pairLeaderToolMessages ms) = xs @ Answers i # zs
              \<longrightarrow> Declares i \<in> set xs)
    \<and> (\<forall>i. answered_later i (tool_events ms)
              \<longrightarrow> filter (\<lambda>e. event_id e = i) (tool_events (pairLeaderToolMessages ms))
                  = filter (\<lambda>e. event_id e = i) (tool_events ms))"
proof (intro conjI allI impI)
  fix i
  assume "Declares i \<in> set (tool_events (pairLeaderToolMessages ms))"
  then show "answered_later i (tool_events (pairLeaderToolMessages ms))"
    by (simp add: pair_declared_iff pair_answered_later)
next
  fix xs i zs
  assume split: "tool_events (pairLeaderToolMessages ms) = xs @ Answers i # zs"
  let ?es = "tool_events (pairLeaderToolMessages ms)"
  have "distinct (filter is_answer ?es)"
  proof -
    have "filter is_answer ?es
        = filter (\<lambda>e. answered_later (event_id e) (tool_events ms)) (filter is_answer (tool_events ms))"
      by (simp add: pair_events conj_commute)
    then show ?thesis using assms by (simp only: distinct_filter)
  qed
  moreover have "Answers i \<in> set ?es" using split by simp
  then have "answered_later i ?es" by (simp only: pair_answered_iff pair_answered_later)
  ultimately show "Declares i \<in> set xs" using split by (intro answer_once_prefix)
next
  fix i
  assume "answered_later i (tool_events ms)"
  then show "filter (\<lambda>e. event_id e = i) (tool_events (pairLeaderToolMessages ms))
      = filter (\<lambda>e. event_id e = i) (tool_events ms)"
    unfolding pair_events by (auto simp: intro!: filter_cong)
qed

theorem pair_forward_witness:
  "let ms = [MUser no_base (UStr ''go''),
             MAssistant no_base [CToolUse ''a'' ''bash'' [] None, CToolUse ''b'' ''bash'' [] None] None None,
             MToolResult no_base ''a'' (RCStr ''ok'') None]
   in (\<forall>i. Declares i \<in> set (tool_events (pairLeaderToolMessages ms))
              \<longrightarrow> answered_later i (tool_events (pairLeaderToolMessages ms)))
      \<and> tool_events (pairLeaderToolMessages ms) = [Declares ''a'', Answers ''a'']"
  unfolding Let_def
  using pair_forward [of "[MUser no_base (UStr ''go''),
      MAssistant no_base [CToolUse ''a'' ''bash'' [] None, CToolUse ''b'' ''bash'' [] None] None None,
      MToolResult no_base ''a'' (RCStr ''ok'') None]"]
  by (simp add: is_answer_def pairLeaderToolMessages_def validPairIds_def List.map_filter_simps)

text \<open>
  The pruning works by id, not by occurrence: an answer that stands before its call is kept when the
  same id is answered a second time behind it, so the history that is sent on starts with an answer to
  nothing.
\<close>

theorem pair_keeps_early_answer:
  "pairLeaderToolMessages
     [MToolResult base1 i c1 e1, MAssistant base2 [CToolUse i n inp p] ae em, MToolResult base3 i c2 e2]
   = [MToolResult base1 i c1 e1, MAssistant base2 [CToolUse i n inp p] ae em, MToolResult base3 i c2 e2]"
  by (simp add: pairLeaderToolMessages_def validPairIds_def List.map_filter_simps)

end
