(* ===== verification/Token_Budget.thy ===== *)
theory Token_Budget
  imports Js_Number Leader_Messages
begin

text \<open>
  The token estimate and the compaction thresholds of the leader loop
  (\<open>apps/api/src/services/manager-automation/autonomous-loop/token-budget.ts\<close>). Budgets are integers, as
  context windows are; \<open>parseFloat\<close> of the ratio variable is a parameter, a positive double below one or
  nothing.
\<close>

definition DEFAULT_AUTOCOMPACT_RATIO :: unit_double where
  "DEFAULT_AUTOCOMPACT_RATIO = (6305039478318694, 53)"

definition APPROX_TOKENS_PER_IMAGE :: int where "APPROX_TOKENS_PER_IMAGE = 1600"

definition CHARS_PER_TOKEN_ASCII :: nat where "CHARS_PER_TOKEN_ASCII = 4"

definition DEFAULT_CONTEXT_WINDOW :: int where "DEFAULT_CONTEXT_WINDOW = 128000"

definition DEFAULT_MAX_OUTPUT_TOKENS :: int where "DEFAULT_MAX_OUTPUT_TOKENS = 4096"

definition OUTPUT_RESERVE_RATIO :: unit_double where
  "OUTPUT_RESERVE_RATIO = (5404319552844595, 55)"

record token_budget =
  totalBudget :: int
  reserveForOutput :: int
  availableForInput :: int

section \<open>The estimate\<close>

fun count_chars :: "string \<Rightarrow> nat \<Rightarrow> nat \<Rightarrow> nat \<times> nat" where
  "count_chars [] asciiChars fatChars = (asciiChars, fatChars)"
| "count_chars (c # cs) asciiChars fatChars =
     (if char_nat c > 0x7F then count_chars cs asciiChars (fatChars + 1)
      else count_chars cs (asciiChars + 1) fatChars)"

definition estimateTextTokens :: "string \<Rightarrow> int" where
  "estimateTextTokens t =
     (case count_chars t 0 0 of
        (asciiChars, fatChars) \<Rightarrow>
          int ((asciiChars + CHARS_PER_TOKEN_ASCII - 1) div CHARS_PER_TOKEN_ASCII) + int fatChars)"

definition UNKNOWN_BLOCK_TOKEN_CAP :: int where "UNKNOWN_BLOCK_TOKEN_CAP = 4000"

fun estimate_block :: "content_block \<Rightarrow> int" where
  "estimate_block (CImage mt d) = APPROX_TOKENS_PER_IMAGE"
| "estimate_block (CText t) = estimateTextTokens t"
| "estimate_block (CToolUse i name input p) =
     min UNKNOWN_BLOCK_TOKEN_CAP (estimateTextTokens name + estimateTextTokens (json_stringify (JObj input)))"
| "estimate_block (CToolResult i content e) =
     min UNKNOWN_BLOCK_TOKEN_CAP
       (estimateTextTokens (case content of RCStr s \<Rightarrow> s
                                          | RCBlocks bs \<Rightarrow> json_stringify (result_content_json content)))"
| "estimate_block (CThinking t) =
     min UNKNOWN_BLOCK_TOKEN_CAP (estimateTextTokens (json_stringify (content_block_json (CThinking t))))"

definition estimateBlockArrayTokens :: "content_block list \<Rightarrow> int" where
  "estimateBlockArrayTokens blocks = foldl (\<lambda>total b. total + estimate_block b) 0 blocks"

fun estimate_result_block :: "result_block \<Rightarrow> int" where
  "estimate_result_block (RText t) = estimateTextTokens t"
| "estimate_result_block (RImage mt d) = min UNKNOWN_BLOCK_TOKEN_CAP 1600"

fun estimate_message :: "leader_message \<Rightarrow> int" where
  "estimate_message (MUser b (UStr s)) = estimateTextTokens s"
| "estimate_message (MUser b (UBlocks bs)) = estimateBlockArrayTokens bs"
| "estimate_message (MAssistant b content ae em) =
     estimateTextTokens (json_stringify (JArr (map content_block_json content)))"
| "estimate_message (MToolResult b i (RCStr s) e) = estimateTextTokens s"
| "estimate_message (MToolResult b i (RCBlocks bs) e) =
     foldl (\<lambda>total r. total + estimate_result_block r) 0 bs"
| "estimate_message m = 0"

definition estimateTokenCount :: "leader_message list \<Rightarrow> int" where
  "estimateTokenCount messages = foldl (\<lambda>total m. total + estimate_message m) 0 messages"

section \<open>Budget and thresholds\<close>

definition computeTokenBudget :: "int option \<Rightarrow> int option \<Rightarrow> token_budget" where
  "computeTokenBudget contextWindow maxOutputTokens =
     (let total = (case contextWindow of None \<Rightarrow> DEFAULT_CONTEXT_WINDOW | Some w \<Rightarrow> w);
          reserve = max (case maxOutputTokens of None \<Rightarrow> DEFAULT_MAX_OUTPUT_TOKENS | Some m \<Rightarrow> m)
                        (js_floor_mul total OUTPUT_RESERVE_RATIO)
      in \<lparr>totalBudget = total, reserveForOutput = reserve, availableForInput = total - reserve\<rparr>)"

definition isOverBudget :: "int \<Rightarrow> token_budget \<Rightarrow> bool" where
  "isOverBudget estimatedTokens budget = (estimatedTokens > availableForInput budget)"

text \<open>
  The two environment variables; \<open>parseFloat\<close> returns the parsed ratio when it is a double strictly
  between zero and one, and nothing otherwise.
\<close>

record compact_env =
  env_absolute :: "string option"
  env_ratio :: "string option"

definition ratio_setting :: "(string \<Rightarrow> unit_double option) \<Rightarrow> compact_env \<Rightarrow> unit_double option" where
  "ratio_setting parseFloat env =
     (case env_ratio env of None \<Rightarrow> None | Some s \<Rightarrow> if s = [] then None else parseFloat s)"

definition getAutocompactThreshold ::
  "(string \<Rightarrow> unit_double option) \<Rightarrow> compact_env \<Rightarrow> token_budget \<Rightarrow> int" where
  "getAutocompactThreshold parseFloat env budget =
     (case (case env_absolute env of
              None \<Rightarrow> None
            | Some s \<Rightarrow> if s = [] then None
                        else (case js_parse_int s of
                                None \<Rightarrow> None
                              | Some parsed \<Rightarrow> if parsed > 0 then Some parsed else None)) of
        Some parsed \<Rightarrow> parsed
      | None \<Rightarrow>
          (case ratio_setting parseFloat env of
             Some ratio \<Rightarrow> js_floor_mul (availableForInput budget) ratio
           | None \<Rightarrow> js_floor_mul (availableForInput budget) DEFAULT_AUTOCOMPACT_RATIO))"

section \<open>Bounds of the estimate\<close>

lemma count_chars_split:
  "count_chars s a f = (a + length (filter (\<lambda>c. char_nat c \<le> 0x7F) s),
                        f + length (filter (\<lambda>c. char_nat c > 0x7F) s))"
  by (induction s arbitrary: a f) (simp_all add: not_le)

lemma length_ascii_fat:
  "length s = length (filter (\<lambda>c. char_nat c \<le> 0x7F) s) + length (filter (\<lambda>c. char_nat c > 0x7F) s)"
  by (induction s) auto

lemma estimateTextTokens_alt:
  "estimateTextTokens s = int ((length (filter (\<lambda>c. char_nat c \<le> 0x7F) s) + 3) div 4)
      + int (length (filter (\<lambda>c. char_nat c > 0x7F) s))"
  by (simp add: estimateTextTokens_def count_chars_split CHARS_PER_TOKEN_ASCII_def)

lemma estimateTextTokens_bounds:
  "0 \<le> estimateTextTokens s" "int (length s) \<le> 4 * estimateTextTokens s"
  "estimateTextTokens s \<le> int (length s)"
proof -
  let ?a = "length (filter (\<lambda>c. char_nat c \<le> 0x7F) s)" and ?f = "length (filter (\<lambda>c. char_nat c > 0x7F) s)"
  have e: "estimateTextTokens s = int ((?a + 3) div 4) + int ?f" by (rule estimateTextTokens_alt)
  have l: "int (length s) = int ?a + int ?f" by (subst length_ascii_fat) simp
  have d: "?a \<le> 4 * ((?a + 3) div 4)" "(?a + 3) div 4 \<le> ?a" by (cases "?a") auto
  then have "int ?a \<le> 4 * int ((?a + 3) div 4)" "int ((?a + 3) div 4) \<le> int ?a" by linarith+
  then show "0 \<le> estimateTextTokens s" "int (length s) \<le> 4 * estimateTextTokens s"
    "estimateTextTokens s \<le> int (length s)" unfolding e l by simp_all
qed

lemma foldl_sum: "foldl (\<lambda>t x. t + f x) (a::int) xs = a + sum_list (map f xs)"
  by (induction xs arbitrary: a) auto

text \<open>
  The estimate of a text charges at least one token for every four characters and at most one per
  character, and splitting a text never lowers the total charged, so cutting a message into blocks does
  not hide tokens from the compaction trigger.
\<close>

theorem text_estimate_bounds:
  "int (length s) \<le> 4 * estimateTextTokens s \<and> estimateTextTokens s \<le> int (length s)
   \<and> estimateTextTokens (s @ t) \<le> estimateTextTokens s + estimateTextTokens t"
  using estimateTextTokens_bounds [of s] by (simp add: estimateTextTokens_alt)

text \<open>Two messages that differ in the bytes of their images only.\<close>

fun blank_block :: "content_block \<Rightarrow> content_block" where
  "blank_block (CImage mt d) = CImage [] []"
| "blank_block b = b"

fun blank_result :: "result_block \<Rightarrow> result_block" where
  "blank_result (RImage mt d) = RImage [] []"
| "blank_result b = b"

fun blank_images :: "leader_message \<Rightarrow> leader_message" where
  "blank_images (MUser b (UBlocks bs)) = MUser b (UBlocks (map blank_block bs))"
| "blank_images (MToolResult b i (RCBlocks rs) e) = MToolResult b i (RCBlocks (map blank_result rs)) e"
| "blank_images m = m"

lemma estimate_blank_block: "estimate_block (blank_block b) = estimate_block b"
  by (cases b) auto

lemma estimate_blank_result: "estimate_result_block (blank_result r) = estimate_result_block r"
  by (cases r) auto

lemma estimate_blank_message: "estimate_message (blank_images m) = estimate_message m"
  by (induction m rule: blank_images.induct)
    (simp_all add: estimateBlockArrayTokens_def foldl_sum comp_def estimate_blank_block estimate_blank_result)

text \<open>
  The estimate of a conversation does not depend on the data of the images that users attach or
  tools return: an image costs the same however large it is.
\<close>

theorem estimate_ignores_image_data:
  "estimateTokenCount (map blank_images ms) = estimateTokenCount ms"
  by (simp add: estimateTokenCount_def foldl_sum comp_def estimate_blank_message)

section \<open>Thresholds\<close>

text \<open>
  Unless an absolute threshold is set, compaction is proactive: for every budget with room for
  input, the trigger lies between zero and the hard limit, for the default ratio as for any ratio below
  one, so a conversation over the hard limit is always over the trigger.
\<close>

theorem threshold_proactive:
  assumes "0 \<le> availableForInput b" and "availableForInput b < 2 ^ 53"
    and "env_absolute env = None"
    and "\<And>s r. parseFloat s = Some r \<Longrightarrow> fst r < 2 ^ snd r"
  shows "0 \<le> getAutocompactThreshold parseFloat env b
    \<and> getAutocompactThreshold parseFloat env b \<le> availableForInput b
    \<and> (isOverBudget n b \<longrightarrow> getAutocompactThreshold parseFloat env b < n)"
proof -
  have d: "fst DEFAULT_AUTOCOMPACT_RATIO < 2 ^ snd DEFAULT_AUTOCOMPACT_RATIO"
    by (simp add: DEFAULT_AUTOCOMPACT_RATIO_def)
  have r: "ratio_setting parseFloat env = Some r \<Longrightarrow> fst r < 2 ^ snd r" for r
    using assms(4) by (auto simp: ratio_setting_def split: option.splits if_splits)
  have "0 \<le> getAutocompactThreshold parseFloat env b
      \<and> getAutocompactThreshold parseFloat env b \<le> availableForInput b"
    using js_floor_mul_bounds [OF assms(1,2) d] js_floor_mul_bounds [OF assms(1,2) r] assms(3)
    by (auto simp: getAutocompactThreshold_def split: option.splits)
  then show ?thesis by (simp add: isOverBudget_def)
qed

theorem threshold_proactive_witness:
  "getAutocompactThreshold (\<lambda>s. None) \<lparr>env_absolute = None, env_ratio = None\<rparr>
     \<lparr>totalBudget = 128000, reserveForOutput = 19200, availableForInput = 108800\<rparr> \<le> 108800"
  using threshold_proactive [of "\<lparr>totalBudget = 128000, reserveForOutput = 19200, availableForInput = 108800\<rparr>"
      "\<lparr>env_absolute = None, env_ratio = None\<rparr>" "\<lambda>s. None"]
  by simp

text \<open>The two products of the default configuration.\<close>

lemma js_floor_mul_eval:
  "js_floor_mul 128000 OUTPUT_RESERVE_RATIO = 19200"
  "js_floor_mul 108800 DEFAULT_AUTOCOMPACT_RATIO = 76160"
  by (simp_all add: js_floor_mul_def OUTPUT_RESERVE_RATIO_def DEFAULT_AUTOCOMPACT_RATIO_def round_53_def
      bit_len.simps Let_def)

text \<open>
  A budget never reserves less for the output than was asked for, and the input gets what is left;
  with the defaults that is 108800 of 128000 tokens, and the trigger lies at 76160, seven tenths of it.
\<close>

theorem token_budget_split:
  "reserveForOutput (computeTokenBudget w m) + availableForInput (computeTokenBudget w m)
     = totalBudget (computeTokenBudget w m)
   \<and> (case m of None \<Rightarrow> 4096 | Some k \<Rightarrow> k) \<le> reserveForOutput (computeTokenBudget w m)
   \<and> availableForInput (computeTokenBudget None None) = 108800
   \<and> getAutocompactThreshold parseFloat \<lparr>env_absolute = None, env_ratio = None\<rparr>
       (computeTokenBudget None None) = 76160"
  by (cases m) (simp_all add: computeTokenBudget_def getAutocompactThreshold_def ratio_setting_def js_floor_mul_eval
      DEFAULT_CONTEXT_WINDOW_def DEFAULT_MAX_OUTPUT_TOKENS_def Let_def)

end
