(* ===== verification/Approval_Store.thy ===== *)
theory Approval_Store
  imports Js_Prelude
begin

text \<open>
  Pending approvals (\<open>services/command-approval-service.ts\<close>, \<open>repositories/approval-repository.ts\<close>): the rows of the
  table, the one write that settles a row, the channels that answer, the waiters and the expiry. What reading the payload
  of a row gives is its fields, or none where the column is empty or corrupt. The clock is an argument.
\<close>

datatype approval_state = Pending | Approved | Rejected | Expired

record approval_row =
  av_id :: string
  av_taskId :: string
  av_type :: string
  av_state :: approval_state
  av_requestedAt :: int
  av_resolvedAt :: "int option"
  av_resolvedBy :: "string option"
  av_payload :: "(string \<times> json) list option"

type_synonym approval_table = "approval_row list"

record approval_record =
  ar_id :: string
  ar_taskId :: string
  ar_toolName :: string
  ar_toolArgs :: json
  ar_summary :: json
  ar_status :: approval_state
  ar_createdAt :: int
  ar_resolvedAt :: "int option"
  ar_resolvedBy :: "string option"

definition APPROVAL_TIMEOUT_MS :: int where "APPROVAL_TIMEOUT_MS = 5 * 60 * 1000"

text \<open>\<open>payload.k ?? d\<close>\<close>

definition payload_or :: "approval_row \<Rightarrow> string \<Rightarrow> json \<Rightarrow> json" where
  "payload_or row k d = (case av_payload row of None \<Rightarrow> d
     | Some fs \<Rightarrow> (case obj_get fs k of None \<Rightarrow> d | Some JNull \<Rightarrow> d | Some j \<Rightarrow> j))"

definition payload_str :: "approval_row \<Rightarrow> string \<Rightarrow> string \<Rightarrow> string" where
  "payload_str row k d = (case av_payload row of None \<Rightarrow> d
     | Some fs \<Rightarrow> (case obj_get fs k of Some (JStr s) \<Rightarrow> s | _ \<Rightarrow> d))"

definition rowToRecord :: "approval_row \<Rightarrow> approval_record" where
  "rowToRecord row = \<lparr>ar_id = av_id row, ar_taskId = av_taskId row,
     ar_toolName = (case payload_or row ''toolName'' (JStr (av_type row)) of JStr s \<Rightarrow> s | j \<Rightarrow> json_stringify j),
     ar_toolArgs = payload_or row ''toolArgs'' (JObj []), ar_summary = payload_or row ''summary'' (JStr []),
     ar_status = av_state row, ar_createdAt = av_requestedAt row, ar_resolvedAt = av_resolvedAt row,
     ar_resolvedBy = (case av_resolvedBy row of Some s \<Rightarrow> if s = [] then None else Some s | None \<Rightarrow> None)\<rparr>"

section \<open>The table\<close>

definition approval_getById :: "string \<Rightarrow> approval_table \<Rightarrow> approval_row option" where
  "approval_getById i t = find (\<lambda>r. av_id r = i) t"

definition listPending :: "approval_table \<Rightarrow> approval_row list" where
  "listPending t = sort_key av_requestedAt (filter (\<lambda>r. av_state r = Pending) t)"

definition listExpired :: "int \<Rightarrow> approval_table \<Rightarrow> approval_row list" where
  "listExpired before t = sort_key av_requestedAt (filter (\<lambda>r. av_state r = Pending \<and> av_requestedAt r < before) t)"

text \<open>The write lands on a row that is still pending, and reports whether it did.\<close>

definition repo_resolve ::
  "string \<Rightarrow> approval_state \<Rightarrow> int \<Rightarrow> string \<Rightarrow> approval_table \<Rightarrow> bool \<times> approval_table" where
  "repo_resolve i st now by t =
    (list_ex (\<lambda>r. av_id r = i \<and> av_state r = Pending) t,
     map (\<lambda>r. if av_id r = i \<and> av_state r = Pending
              then r\<lparr>av_state := st, av_resolvedAt := Some now, av_resolvedBy := Some by\<rparr> else r) t)"

section \<open>The service\<close>

datatype approval_event =
    RequestedEvent string
  | ResolvedEvent string string string approval_state
  | ConflictEvent string approval_state approval_state

record approval_store =
  as_rows :: approval_table
  as_landed :: "string list"
  as_events :: "approval_event list"

definition createApproval ::
  "int \<Rightarrow> string \<Rightarrow> string \<Rightarrow> string \<Rightarrow> (string \<times> json) list \<Rightarrow> approval_store \<Rightarrow> approval_store" where
  "createApproval now i taskId toolName payload s =
     s\<lparr>as_rows := as_rows s @ [\<lparr>av_id = i, av_taskId = taskId, av_type = toolName, av_state = Pending,
         av_requestedAt = now, av_resolvedAt = None, av_resolvedBy = None, av_payload = Some payload\<rparr>],
       as_events := as_events s @ [RequestedEvent i]\<rparr>"

text \<open>The write of a channel; the winner still has to tell the others, which \<open>emit_resolved\<close> does later.\<close>

definition try_resolve :: "string \<Rightarrow> approval_state \<Rightarrow> int \<Rightarrow> string \<Rightarrow> approval_store \<Rightarrow> approval_store" where
  "try_resolve i st now by s =
    (let (landed, rows) = repo_resolve i st now by (as_rows s)
     in s\<lparr>as_rows := rows, as_landed := (if landed then as_landed s @ [i] else as_landed s)\<rparr>)"

definition resolved_event :: "approval_row \<Rightarrow> approval_event" where
  "resolved_event row = ResolvedEvent (av_id row) (payload_str row ''requestId'' [])
     (payload_str row ''toolName'' (av_type row)) (av_state row)"

definition emit_resolved :: "string \<Rightarrow> approval_store \<Rightarrow> approval_store" where
  "emit_resolved i s =
    (case approval_getById i (as_rows s) of
       None \<Rightarrow> s\<lparr>as_landed := remove1 i (as_landed s)\<rparr>
     | Some row \<Rightarrow> s\<lparr>as_landed := remove1 i (as_landed s), as_events := as_events s @ [resolved_event row]\<rparr>)"

datatype channel_decision = Approve | Reject

fun state_of :: "channel_decision \<Rightarrow> approval_state" where
  "state_of Approve = Approved"
| "state_of Reject = Rejected"

record resolve_outcome =
  ro_record :: approval_record
  ro_landed :: bool
  ro_conflict :: bool
  ro_stored :: approval_state

text \<open>
  The answer of a channel: \<open>s1\<close> is the state at the read, \<open>s2\<close> at the write, which other channels may have changed
  in between.
\<close>

definition resolveApproval ::
  "int \<Rightarrow> string \<Rightarrow> channel_decision \<Rightarrow> approval_store \<Rightarrow> approval_store
     \<Rightarrow> resolve_outcome option \<times> approval_store" where
  "resolveApproval now i d s1 s2 =
    (case approval_getById i (as_rows s1) of
       None \<Rightarrow> (None, s2)
     | Some row \<Rightarrow>
        if av_state row \<noteq> Pending
        then (Some \<lparr>ro_record = rowToRecord row, ro_landed = False, ro_conflict = (av_state row \<noteq> state_of d),
                ro_stored = av_state row\<rparr>,
              if av_state row \<noteq> state_of d
              then s2\<lparr>as_events := as_events s2 @ [ConflictEvent i (state_of d) (av_state row)]\<rparr> else s2)
        else
          (let landed = fst (repo_resolve i (state_of d) now ''user'' (as_rows s2));
               s3 = try_resolve i (state_of d) now ''user'' s2
           in case approval_getById i (as_rows s3) of
                None \<Rightarrow> (None, s3)
              | Some updated \<Rightarrow>
                  (Some \<lparr>ro_record = rowToRecord updated, ro_landed = landed,
                     ro_conflict = (\<not> landed \<and> av_state updated \<noteq> state_of d), ro_stored = av_state updated\<rparr>,
                   if landed then emit_resolved i s3 else s3)))"

definition expireApprovalWithTimeout :: "int \<Rightarrow> string \<Rightarrow> approval_store \<Rightarrow> approval_store" where
  "expireApprovalWithTimeout now i s =
    (if fst (repo_resolve i Approved now ''auto_timeout'' (as_rows s))
     then emit_resolved i (try_resolve i Approved now ''auto_timeout'' s) else s)"

definition expireOldApprovals :: "int \<Rightarrow> approval_store \<Rightarrow> approval_store" where
  "expireOldApprovals now s =
     fold (\<lambda>r. expireApprovalWithTimeout now (av_id r)) (listExpired (now - APPROVAL_TIMEOUT_MS) (as_rows s)) s"

text \<open>
  One round of \<open>waitForApproval\<close> after its expiry of old approvals: \<open>s1\<close> is the state at the read, \<open>s2\<close> at the
  write. \<open>None\<close> goes on waiting.
\<close>

definition wait_check ::
  "int \<Rightarrow> int \<Rightarrow> bool \<Rightarrow> string \<Rightarrow> approval_store \<Rightarrow> approval_store \<Rightarrow> approval_state option \<times> approval_store" where
  "wait_check now deadline aborted i s1 s2 =
    (case approval_getById i (as_rows s1) of
       None \<Rightarrow> (Some Expired, s2)
     | Some row \<Rightarrow>
        if av_state row \<noteq> Pending then (Some (av_state row), s2)
        else if aborted
        then (Some Expired,
              if fst (repo_resolve i Expired now ''abort'' (as_rows s2))
              then emit_resolved i (try_resolve i Expired now ''abort'' s2) else s2)
        else if deadline \<le> now then (Some Approved, expireApprovalWithTimeout now i s2)
        else (None, s2))"

definition approval_wait_round ::
  "int \<Rightarrow> int \<Rightarrow> bool \<Rightarrow> string \<Rightarrow> approval_store \<Rightarrow> approval_state option \<times> approval_store" where
  "approval_wait_round now deadline aborted i s =
    (let s1 = expireOldApprovals now s in wait_check now deadline aborted i s1 s1)"

section \<open>The machine\<close>

text \<open>Every channel at any time: creation, the write of a decision, its announcement, and the note of a conflict.\<close>

inductive approval_step :: "approval_store \<Rightarrow> approval_store \<Rightarrow> bool" where
  approval_create: "i \<notin> av_id ` set (as_rows s) \<Longrightarrow> approval_step s (createApproval now i taskId tool payload s)"
| approval_try: "st \<noteq> Pending \<Longrightarrow> approval_step s (try_resolve i st now by s)"
| approval_emit: "i \<in> set (as_landed s) \<Longrightarrow> approval_step s (emit_resolved i s)"
| approval_conflict: "approval_step s (s\<lparr>as_events := as_events s @ [ConflictEvent i d st]\<rparr>)"

definition no_approvals :: "approval_store \<Rightarrow> bool" where
  "no_approvals s \<longleftrightarrow> s = \<lparr>as_rows = [], as_landed = [], as_events = []\<rparr>"

definition announcements :: "string \<Rightarrow> approval_store \<Rightarrow> approval_event list" where
  "announcements i s = filter (\<lambda>e. case e of ResolvedEvent j q t st \<Rightarrow> j = i | _ \<Rightarrow> False) (as_events s)"

text \<open>Ids are unique; a settled row has one announcement, made or to be made, and it tells the state of the row.\<close>

definition announced_ok :: "approval_store \<Rightarrow> string \<Rightarrow> bool" where
  "announced_ok s i \<longleftrightarrow>
    (case approval_getById i (as_rows s) of
       None \<Rightarrow> i \<notin> set (as_landed s) \<and> announcements i s = []
     | Some r \<Rightarrow>
        if av_state r = Pending then i \<notin> set (as_landed s) \<and> announcements i s = [] \<and> av_resolvedBy r = None
        else (count_list (as_landed s) i = 1 \<and> announcements i s = [] \<or>
              i \<notin> set (as_landed s) \<and> announcements i s = [resolved_event r]))"

definition approvals_ok :: "approval_store \<Rightarrow> bool" where
  "approvals_ok s \<longleftrightarrow> distinct (map av_id (as_rows s)) \<and> (\<forall>i. announced_ok s i)"

text \<open>What is settled stays settled.\<close>

definition settled_le :: "approval_store \<Rightarrow> approval_store \<Rightarrow> bool" where
  "settled_le s t \<longleftrightarrow> (\<forall>i r. approval_getById i (as_rows s) = Some r \<longrightarrow> av_state r \<noteq> Pending \<longrightarrow>
     approval_getById i (as_rows t) = Some r)"

subsection \<open>Reading after writing\<close>

definition settle :: "approval_state \<Rightarrow> int \<Rightarrow> string \<Rightarrow> approval_row \<Rightarrow> approval_row" where
  "settle st now by r = r\<lparr>av_state := st, av_resolvedAt := Some now, av_resolvedBy := Some by\<rparr>"

lemma settle_simps [simp]:
  "av_id (settle st now by r) = av_id r" "av_state (settle st now by r) = st"
  "av_payload (settle st now by r) = av_payload r" "av_type (settle st now by r) = av_type r"
  by (simp_all add: settle_def)

lemma getById_append: "approval_getById j (t @ [r]) =
    (case approval_getById j t of Some x \<Rightarrow> Some x | None \<Rightarrow> if av_id r = j then Some r else None)"
  by (induction t) (auto simp: approval_getById_def)

lemma getById_Some: "approval_getById j t = Some r \<Longrightarrow> av_id r = j \<and> r \<in> set t"
  by (auto simp: approval_getById_def find_Some_iff)

lemma getById_None: "approval_getById j t = None \<longleftrightarrow> j \<notin> av_id ` set t"
  by (auto simp: approval_getById_def find_None_iff)

lemma getById_unique: "distinct (map av_id t) \<Longrightarrow> r \<in> set t \<Longrightarrow> approval_getById (av_id r) t = Some r"
  by (induction t) (auto simp: approval_getById_def)

lemma getById_resolve: "approval_getById j (snd (repo_resolve i st now by t)) =
    map_option (\<lambda>r. if j = i \<and> av_state r = Pending then settle st now by r else r) (approval_getById j t)"
  by (induction t) (auto simp: approval_getById_def repo_resolve_def settle_def)

lemma repo_resolve_lands:
  "distinct (map av_id t) \<Longrightarrow> fst (repo_resolve i st now by t) \<longleftrightarrow>
    (\<exists>r. approval_getById i t = Some r \<and> av_state r = Pending)"
  by (auto simp: repo_resolve_def list_ex_iff dest: getById_unique getById_Some)

lemma repo_resolve_ids: "map av_id (snd (repo_resolve i st now by t)) = map av_id t"
  by (induction t) (auto simp: repo_resolve_def)

lemma try_resolve_simps [simp]:
  "as_rows (try_resolve i st now by s) = snd (repo_resolve i st now by (as_rows s))"
  "as_landed (try_resolve i st now by s) =
     (if fst (repo_resolve i st now by (as_rows s)) then as_landed s @ [i] else as_landed s)"
  "as_events (try_resolve i st now by s) = as_events s"
  by (simp_all add: try_resolve_def split: prod.split)

lemma announcements_simps [simp]:
  "announcements i (s\<lparr>as_events := as_events s @ es\<rparr>) = announcements i s @ filter (\<lambda>e. case e of ResolvedEvent j q t st \<Rightarrow> j = i | _ \<Rightarrow> False) es"
  by (simp add: announcements_def)

lemma announcements_try [simp]: "announcements j (try_resolve i st now by s) = announcements j s"
  by (simp add: announcements_def)

lemma emit_simps:
  "as_rows (emit_resolved i s) = as_rows s" "as_landed (emit_resolved i s) = remove1 i (as_landed s)"
  "approval_getById i (as_rows s) = Some r \<Longrightarrow> announcements j (emit_resolved i s) =
     announcements j s @ (if j = av_id r then [resolved_event r] else [])"
  by (auto simp: emit_resolved_def announcements_def resolved_event_def split: option.split)

subsection \<open>The invariant\<close>

lemma announced_cong: "approval_getById j (as_rows t) = approval_getById j (as_rows s) \<Longrightarrow>
    as_landed t = as_landed s \<Longrightarrow> announcements j t = announcements j s \<Longrightarrow> announced_ok t j = announced_ok s j"
  by (simp only: announced_ok_def)

lemma create_simps:
  "as_landed (createApproval now i taskId tool payload s) = as_landed s"
  "announcements j (createApproval now i taskId tool payload s) = announcements j s"
  "map av_id (as_rows (createApproval now i taskId tool payload s)) = map av_id (as_rows s) @ [i]"
  "approval_getById i (as_rows s) = None \<Longrightarrow>
     approval_getById j (as_rows (createApproval now i taskId tool payload s)) =
       (if j = i then Some (last (as_rows (createApproval now i taskId tool payload s)))
        else approval_getById j (as_rows s))"
  "av_state (last (as_rows (createApproval now i taskId tool payload s))) = Pending"
  "av_resolvedBy (last (as_rows (createApproval now i taskId tool payload s))) = None"
  by (auto simp: createApproval_def announcements_def getById_append split: option.split)

lemma create_ok:
  assumes "approvals_ok s" "i \<notin> av_id ` set (as_rows s)"
  shows "approvals_ok (createApproval now i taskId tool payload s)"
proof -
  let ?t = "createApproval now i taskId tool payload s"
  have n: "approval_getById i (as_rows s) = None" using assms(2) by (simp add: getById_None)
  have a: "announced_ok s j" for j using assms(1) by (simp add: approvals_ok_def)
  have "announced_ok ?t j" for j
  proof (cases "j = i")
    case True
    have "i \<notin> set (as_landed s) \<and> announcements i s = []" using a [of i] n by (simp add: announced_ok_def)
    then show ?thesis using True n by (simp add: announced_ok_def create_simps)
  next
    case False
    then show ?thesis using a [of j] n announced_cong [of j ?t s] by (simp add: create_simps)
  qed
  then show ?thesis using assms by (auto simp: approvals_ok_def create_simps)
qed

lemma try_ok:
  assumes "approvals_ok s" "st \<noteq> Pending"
  shows "approvals_ok (try_resolve i st now by s)"
proof -
  have d: "distinct (map av_id (as_rows s))" and a: "announced_ok s j" for j
    using assms(1) by (simp_all add: approvals_ok_def)
  have "announced_ok (try_resolve i st now by s) j" for j
  proof (cases "approval_getById j (as_rows s)")
    case None
    then show ?thesis using a [of j] repo_resolve_lands [OF d, of i st now "by"]
      by (auto simp: announced_ok_def getById_resolve)
  next
    case (Some r)
    show ?thesis
    proof (cases "j = i \<and> av_state r = Pending")
      case True
      then have "fst (repo_resolve i st now by (as_rows s))" using Some repo_resolve_lands [OF d] by blast
      then show ?thesis using True Some a [of j] assms(2)
        by (auto simp: announced_ok_def getById_resolve)
    next
      case False
      then have "fst (repo_resolve i st now by (as_rows s)) \<longrightarrow> j \<noteq> i"
        using Some repo_resolve_lands [OF d, of i st now "by"] by auto
      then show ?thesis using False Some a [of j] by (auto simp: announced_ok_def getById_resolve)
    qed
  qed
  then show ?thesis using d by (simp add: approvals_ok_def repo_resolve_ids)
qed

lemma count_list_remove1: "count_list (remove1 i xs) j = (if i = j then count_list xs j - 1 else count_list xs j)"
  by (induction xs) (auto simp: count_list_0_iff)

lemma emit_ok:
  assumes "approvals_ok s" "i \<in> set (as_landed s)"
  shows "approvals_ok (emit_resolved i s)"
proof -
  have a: "announced_ok s j" for j using assms(1) by (simp add: approvals_ok_def)
  obtain r where r: "approval_getById i (as_rows s) = Some r" "av_state r \<noteq> Pending" "count_list (as_landed s) i = 1"
    "announcements i s = []"
    using a [of i] assms(2) by (auto simp: announced_ok_def split: option.splits if_splits)
  have id: "av_id r = i" using getById_Some [OF r(1)] by simp
  have "announced_ok (emit_resolved i s) j" for j
  proof (cases "j = i")
    case True
    have "i \<notin> set (remove1 i (as_landed s))"
      using r(3) count_list_remove1 [of i "as_landed s" i] by (simp add: count_list_0_iff [symmetric])
    then show ?thesis using True r id by (simp add: announced_ok_def emit_simps)
  next
    case False
    then show ?thesis using a [of j] id emit_simps(3) [OF r(1), of j]
      by (auto simp: announced_ok_def emit_simps(1,2) count_list_remove1 split: option.splits)
  qed
  then show ?thesis using assms(1) by (simp add: approvals_ok_def emit_simps)
qed

lemma conflict_ok: "approvals_ok s \<Longrightarrow> approvals_ok (s\<lparr>as_events := as_events s @ [ConflictEvent i d st]\<rparr>)"
proof -
  let ?t = "s\<lparr>as_events := as_events s @ [ConflictEvent i d st]\<rparr>"
  assume "approvals_ok s"
  moreover have "announced_ok ?t j = announced_ok s j" for j by (rule announced_cong) simp_all
  ultimately show "approvals_ok ?t" by (simp add: approvals_ok_def)
qed

lemma approval_step_ok: "approval_step s t \<Longrightarrow> approvals_ok s \<Longrightarrow> approvals_ok t"
  by (induction rule: approval_step.induct) (simp_all add: create_ok try_ok emit_ok conflict_ok)

lemma approval_step_le: "approval_step s t \<Longrightarrow> settled_le s t"
  by (induction rule: approval_step.induct)
    (auto simp: settled_le_def createApproval_def getById_append getById_resolve emit_simps)

interpretation approvals: monotone_system no_approvals approval_step approvals_ok settled_le
proof unfold_locales
  show "no_approvals s \<Longrightarrow> approvals_ok s" for s
    by (simp add: no_approvals_def approvals_ok_def announced_ok_def announcements_def approval_getById_def)
  show "settled_le s s" for s by (simp add: settled_le_def)
  show "settled_le s t \<Longrightarrow> settled_le t u \<Longrightarrow> settled_le s u" for s t u unfolding settled_le_def by blast
qed (auto intro: approval_step_ok approval_step_le)

section \<open>The service runs on the machine\<close>

lemma try_emit_steps: "st \<noteq> Pending \<Longrightarrow> fst (repo_resolve i st now by (as_rows s)) \<Longrightarrow>
    approval_step\<^sup>*\<^sup>* s (emit_resolved i (try_resolve i st now by s))"
proof -
  assume "st \<noteq> Pending" "fst (repo_resolve i st now by (as_rows s))"
  then have "approval_step s (try_resolve i st now by s)" "i \<in> set (as_landed (try_resolve i st now by s))"
    by (auto intro: approval_try)
  then show ?thesis by (meson approval_emit converse_rtranclp_into_rtranclp r_into_rtranclp)
qed

lemma expire_steps: "approval_step\<^sup>*\<^sup>* s (expireApprovalWithTimeout now i s)"
  by (simp add: expireApprovalWithTimeout_def try_emit_steps)

lemma expire_old_steps: "approval_step\<^sup>*\<^sup>* s (expireOldApprovals now s)"
proof -
  have "approval_step\<^sup>*\<^sup>* s (fold (\<lambda>r. expireApprovalWithTimeout now (av_id r)) rs s)" for rs s
    by (induction rs arbitrary: s) (auto intro: rtranclp_trans [OF expire_steps])
  then show ?thesis by (simp add: expireOldApprovals_def)
qed

lemma state_of_settled [simp]: "state_of d \<noteq> Pending"
  by (cases d) simp_all

lemma resolve_steps: "approval_step\<^sup>*\<^sup>* s2 (snd (resolveApproval now i d s1 s2))"
proof -
  have t: "approval_step s2 (try_resolve i (state_of d) now ''user'' s2)" by (rule approval_try) simp
  show ?thesis
    by (auto simp: resolveApproval_def Let_def try_emit_steps intro: r_into_rtranclp approval_conflict
        r_into_rtranclp [of approval_step, OF t] split: option.split)
qed

lemma wait_steps: "approval_step\<^sup>*\<^sup>* s2 (snd (wait_check now deadline aborted i s1 s2))"
  by (auto simp: wait_check_def try_emit_steps expire_steps split: option.split)

text \<open>
  C25: An approval is settled once: whatever channels, waiters and expiry do later, its row does not change any more, and
  it is announced at most once, with the state it has.
\<close>

theorem settled_once:
  assumes "reach no_approvals approval_step s" and "approval_step\<^sup>*\<^sup>* s t"
    and "approval_getById i (as_rows s) = Some r" and "av_state r \<noteq> Pending"
  shows "approval_getById i (as_rows t) = Some r \<and> announcements i t \<in> {[], [resolved_event r]}"
proof -
  have ok: "approvals_ok s" by (rule approvals.reach_inv [OF assms(1)])
  have "settled_le s t" by (rule approvals.steps_le [OF assms(2) ok])
  then have r: "approval_getById i (as_rows t) = Some r" using assms(3,4) by (simp add: settled_le_def)
  have "announced_ok t i" using approvals.steps_inv [OF assms(2) ok] by (simp add: approvals_ok_def)
  then show ?thesis using r assms(4) by (auto simp: announced_ok_def)
qed

text \<open>
  The answer to a channel tells the truth even when others answer in between: what is reported as stored is the state
  of the row, a conflict is reported exactly when it is not the channel's own decision, and the winner never conflicts.
\<close>

theorem channel_answer_exact:
  assumes "reach no_approvals approval_step s1" and "approval_step\<^sup>*\<^sup>* s1 s2"
    and "resolveApproval now i d s1 s2 = (Some out, s3)"
  shows "map_option av_state (approval_getById i (as_rows s3)) = Some (ro_stored out) \<and> ro_stored out \<noteq> Pending \<and>
    (ro_conflict out \<longleftrightarrow> ro_stored out \<noteq> state_of d) \<and> (ro_landed out \<longrightarrow> \<not> ro_conflict out)"
proof -
  have ok1: "approvals_ok s1" by (rule approvals.reach_inv [OF assms(1)])
  have le: "settled_le s1 s2" by (rule approvals.steps_le [OF assms(2) ok1])
  have d2: "distinct (map av_id (as_rows s2))"
    using approvals.steps_inv [OF assms(2) ok1] by (simp add: approvals_ok_def)
  obtain row where row: "approval_getById i (as_rows s1) = Some row"
    using assms(3) by (auto simp: resolveApproval_def split: option.splits)
  show ?thesis
  proof (cases "av_state row = Pending")
    case False
    then have "approval_getById i (as_rows s2) = Some row" using le row by (simp add: settled_le_def)
    then show ?thesis using False row assms(3) by (auto simp: resolveApproval_def split: if_splits)
  next
    case True
    let ?t = "try_resolve i (state_of d) now ''user'' s2"
    obtain u where u: "approval_getById i (as_rows ?t) = Some u"
      using True row assms(3) by (auto simp: resolveApproval_def Let_def split: option.splits)
    then obtain v where v: "approval_getById i (as_rows s2) = Some v"
      and uv: "u = (if av_state v = Pending then settle (state_of d) now ''user'' v else v)"
      by (auto simp: getById_resolve)
    have l: "fst (repo_resolve i (state_of d) now ''user'' (as_rows s2)) \<longleftrightarrow> av_state v = Pending"
      using repo_resolve_lands [OF d2] v by auto
    have "as_rows s3 = as_rows ?t" and "ro_landed out = (av_state v = Pending)" and "ro_stored out = av_state u"
      and "ro_conflict out = (av_state v \<noteq> Pending \<and> av_state u \<noteq> state_of d)"
      using True row u assms(3) l by (auto simp: resolveApproval_def Let_def emit_simps split: if_splits)
    then show ?thesis using u uv by auto
  qed
qed

section \<open>Time\<close>

lemma expire_rows: "as_rows (expireApprovalWithTimeout now i s) = snd (repo_resolve i Approved now ''auto_timeout'' (as_rows s))"
proof (cases "fst (repo_resolve i Approved now ''auto_timeout'' (as_rows s))")
  case True
  then show ?thesis by (simp add: expireApprovalWithTimeout_def emit_simps)
next
  case False
  then have "snd (repo_resolve i Approved now ''auto_timeout'' (as_rows s)) = as_rows s"
    by (auto simp: repo_resolve_def list_ex_iff intro!: map_idI)
  then show ?thesis using False by (simp add: expireApprovalWithTimeout_def)
qed

lemma expire_fold: "approval_getById j (as_rows (fold (\<lambda>r. expireApprovalWithTimeout now (av_id r)) rs s)) =
    map_option (\<lambda>r. if j \<in> av_id ` set rs \<and> av_state r = Pending then settle Approved now ''auto_timeout'' r else r)
      (approval_getById j (as_rows s))"
proof (induction rs arbitrary: s)
  case Nil
  show ?case by (cases "approval_getById j (as_rows s)") simp_all
next
  case (Cons r rs)
  show ?case
    by (cases "approval_getById j (as_rows s)") (auto simp: Cons.IH expire_rows getById_resolve)
qed

text \<open>
  Silence is consent. A round of any waiter approves every approval that has been pending for more than five minutes,
  whatever time its own waiter allows, and changes no other.
\<close>

theorem unattended_is_approved:
  assumes "distinct (map av_id (as_rows s))"
  shows "approval_getById j (as_rows (expireOldApprovals now s)) =
    map_option (\<lambda>r. if av_state r = Pending \<and> av_requestedAt r < now - 300000
        then settle Approved now ''auto_timeout'' r else r) (approval_getById j (as_rows s))"
proof (cases "approval_getById j (as_rows s)")
  case None
  then show ?thesis by (simp add: expireOldApprovals_def expire_fold)
next
  case (Some r)
  have "j \<in> av_id ` set (listExpired (now - APPROVAL_TIMEOUT_MS) (as_rows s)) \<longleftrightarrow>
      av_state r = Pending \<and> av_requestedAt r < now - APPROVAL_TIMEOUT_MS"
  proof
    assume "j \<in> av_id ` set (listExpired (now - APPROVAL_TIMEOUT_MS) (as_rows s))"
    then obtain q where q: "q \<in> set (as_rows s)" "av_id q = j" "av_state q = Pending"
      "av_requestedAt q < now - APPROVAL_TIMEOUT_MS" by (auto simp: listExpired_def)
    with getById_unique [OF assms q(1)] Some show "av_state r = Pending \<and> av_requestedAt r < now - APPROVAL_TIMEOUT_MS"
      by simp
  next
    assume "av_state r = Pending \<and> av_requestedAt r < now - APPROVAL_TIMEOUT_MS"
    then show "j \<in> av_id ` set (listExpired (now - APPROVAL_TIMEOUT_MS) (as_rows s))"
      using getById_Some [OF Some] by (force simp: listExpired_def)
  qed
  then show ?thesis using Some by (simp add: expireOldApprovals_def expire_fold APPROVAL_TIMEOUT_MS_def)
qed

text \<open>
  A rejection that reaches the row between the waiter's last read and its deadline is lost: the row says rejected, and
  the waiter says approved.
\<close>

theorem rejection_at_deadline_is_lost:
  assumes "approval_getById i (as_rows s1) = Some r" and "av_state r = Pending" and "deadline \<le> now"
    and "distinct (map av_id (as_rows s1))"
    and "s2 = snd (resolveApproval at i Reject s1 s1)"
  shows "approval_step\<^sup>*\<^sup>* s1 s2 \<and> fst (wait_check now deadline False i s1 s2) = Some Approved \<and>
    map_option av_state (approval_getById i (as_rows (snd (wait_check now deadline False i s1 s2)))) = Some Rejected"
proof -
  have l: "fst (repo_resolve i Rejected at ''user'' (as_rows s1))" using repo_resolve_lands [OF assms(4)] assms(1,2) by blast
  have "as_rows s2 = snd (repo_resolve i Rejected at ''user'' (as_rows s1))"
    using assms(1,2,5) l by (simp add: resolveApproval_def Let_def emit_simps getById_resolve)
  then have "approval_getById i (as_rows s2) = Some (settle Rejected at ''user'' r)"
    using assms(1,2) by (simp add: getById_resolve)
  then show ?thesis using assms resolve_steps [of s1 at i Reject s1]
    by (simp add: wait_check_def expire_rows getById_resolve)
qed

section \<open>A run\<close>

definition empty_store :: approval_store where
  "empty_store = \<lparr>as_rows = [], as_landed = [], as_events = []\<rparr>"

definition demo_asked :: approval_store where
  "demo_asked = createApproval 1000 ''a'' ''t'' ''bash'' [] empty_store"

definition demo_rejected :: approval_store where
  "demo_rejected = snd (resolveApproval 2000 ''a'' Reject demo_asked demo_asked)"

lemma reach_asked: "reach no_approvals approval_step demo_asked"
proof -
  have "reach no_approvals approval_step empty_store" by (rule reach_init) (simp add: no_approvals_def empty_store_def)
  moreover have "approval_step empty_store demo_asked"
    unfolding demo_asked_def by (rule approval_create) (simp add: empty_store_def)
  ultimately show ?thesis by (rule reach_step)
qed

lemma asked_rejected: "approval_step\<^sup>*\<^sup>* demo_asked demo_rejected"
  unfolding demo_rejected_def by (rule resolve_steps)

lemma reach_steps: "step\<^sup>*\<^sup>* s t \<Longrightarrow> reach init step s \<Longrightarrow> reach init step t"
  by (induction rule: rtranclp_induct) (auto intro: reach_step)

lemma asked_row:
  "\<exists>r. approval_getById ''a'' (as_rows demo_asked) = Some r \<and> av_state r = Pending \<and> av_requestedAt r = 1000"
  "distinct (map av_id (as_rows demo_asked))"
  by (simp_all add: demo_asked_def createApproval_def empty_store_def approval_getById_def)

theorem settled_once_witness:
  "map_option av_state (approval_getById ''a'' (as_rows (expireOldApprovals 900000 demo_rejected))) = Some Rejected"
proof -
  obtain r where r: "approval_getById ''a'' (as_rows demo_rejected) = Some r" "av_state r = Rejected"
    by (simp add: demo_rejected_def demo_asked_def createApproval_def empty_store_def resolveApproval_def approval_getById_def
        emit_simps repo_resolve_def emit_resolved_def try_resolve_def)
  have "av_state r \<noteq> Pending" using r(2) by simp
  from settled_once [OF reach_steps [OF asked_rejected reach_asked] expire_old_steps r(1) this] r(2)
  show ?thesis by simp
qed

theorem channel_answer_exact_witness:
  "ro_stored (the (fst (resolveApproval 3000 ''a'' Approve demo_asked demo_rejected))) = Rejected \<and>
   ro_conflict (the (fst (resolveApproval 3000 ''a'' Approve demo_asked demo_rejected)))"
proof -
  obtain out s3 where o: "resolveApproval 3000 ''a'' Approve demo_asked demo_rejected = (Some out, s3)"
    "ro_stored out = Rejected"
    by (simp add: demo_rejected_def demo_asked_def createApproval_def empty_store_def resolveApproval_def approval_getById_def
        emit_simps repo_resolve_def emit_resolved_def try_resolve_def)
  from channel_answer_exact [OF reach_asked asked_rejected o(1)] o show ?thesis by simp
qed

theorem unattended_is_approved_witness:
  "map_option av_state (approval_getById ''a'' (as_rows (expireOldApprovals 400000 demo_asked))) = Some Approved"
proof -
  obtain r where "approval_getById ''a'' (as_rows demo_asked) = Some r" "av_state r = Pending" "av_requestedAt r = 1000"
    using asked_row(1) by blast
  with unattended_is_approved [OF asked_row(2), of "''a''" 400000] show ?thesis by simp
qed

theorem rejection_at_deadline_is_lost_witness:
  "fst (wait_check 301000 301000 False ''a'' demo_asked demo_rejected) = Some Approved \<and>
   map_option av_state (approval_getById ''a''
     (as_rows (snd (wait_check 301000 301000 False ''a'' demo_asked demo_rejected)))) = Some Rejected"
  using rejection_at_deadline_is_lost [of "''a''" demo_asked _ 301000 301000 demo_rejected 2000] asked_row
    demo_rejected_def by auto

end
