(* ===== verification/Progress_Artifact.thy ===== *)
theory Progress_Artifact
  imports Leader_Messages Approval_Store
begin

text \<open>
  The progress of a leader session as it is put back after a compaction
  (\<open>autonomous-loop/progress-artifacts.ts\<close>): the scan of the messages, the loads from the stored events, runtimes,
  approvals and artifacts, and the rendered block. Rows are the parameters' values in the order the repositories return
  them; the payload of an event is its parsed text, or nothing where it does not parse. The check marks of the block lie
  outside the character range of the model and are parameters.
\<close>

section \<open>Data\<close>

datatype plan_status = PlanPending | PlanInProgress | PlanCompleted | PlanCancelled

record plan_item =
  pi_content :: string
  pi_activeForm :: string
  pi_status :: plan_status

record teammate_item =
  ti_runId :: string
  ti_roleId :: string
  ti_state :: string

record progress_artifact =
  pg_completedSteps :: "string list"
  pg_currentStep :: "string option"
  pg_modifiedFiles :: "string list"
  pg_toolsUsed :: "string list"
  pg_turnCount :: nat
  pg_plan :: "plan_item list"
  pg_teammates :: "teammate_item list"
  pg_approvals :: "(string \<times> string) list"
  pg_artifacts :: "(string \<times> string) list"
  pg_readFiles :: "string list"

section \<open>The messages\<close>

definition FILE_TOOLS :: "string list" where
  "FILE_TOOLS = [''write_file'', ''edit_file'', ''read_file'']"

definition toRecentStep :: "string \<Rightarrow> string" where
  "toRecentStep s = lastn 200 s"

definition visible_path :: "json option \<Rightarrow> string option" where
  "visible_path j = (case Option.bind j json_as_str of None \<Rightarrow> None | Some s \<Rightarrow> if js_trim s = [] then None else Some s)"

definition readFilePath :: "(string \<times> json) list \<Rightarrow> string option" where
  "readFilePath input = (case visible_path (obj_get input ''path'') of Some s \<Rightarrow> Some s
     | None \<Rightarrow> visible_path (obj_get input ''file_path''))"

text \<open>\<open>Set.add\<close> on a set listed in insertion order.\<close>

definition set_add :: "'a \<Rightarrow> 'a list \<Rightarrow> 'a list" where
  "set_add x xs = (if x \<in> set xs then xs else xs @ [x])"

definition empty_artifact :: progress_artifact where
  "empty_artifact = \<lparr>pg_completedSteps = [], pg_currentStep = None, pg_modifiedFiles = [], pg_toolsUsed = [],
     pg_turnCount = 0, pg_plan = [], pg_teammates = [], pg_approvals = [], pg_artifacts = [], pg_readFiles = []\<rparr>"

fun progress_block :: "content_block \<Rightarrow> progress_artifact \<Rightarrow> progress_artifact" where
  "progress_block (CText t) a = (if js_trim t = [] then a else a\<lparr>pg_currentStep := Some (toRecentStep t)\<rparr>)"
| "progress_block (CToolUse i name input p) a =
     (let b = a\<lparr>pg_toolsUsed := set_add name (pg_toolsUsed a)\<rparr>
      in if name \<in> set FILE_TOOLS
         then (case readFilePath input of None \<Rightarrow> b | Some f \<Rightarrow> b\<lparr>pg_modifiedFiles := set_add f (pg_modifiedFiles b)\<rparr>)
         else b)"
| "progress_block c a = a"

fun progress_message :: "leader_message \<Rightarrow> progress_artifact \<Rightarrow> progress_artifact" where
  "progress_message (MUser b c) a = a\<lparr>pg_turnCount := pg_turnCount a + 1\<rparr>"
| "progress_message (MAssistant b cs ae em) a = fold progress_block cs a"
| "progress_message (MToolResult b i c isError) a =
     (case pg_currentStep a of
        Some step \<Rightarrow> if isError \<noteq> Some True \<and> step \<noteq> []
          then a\<lparr>pg_completedSteps := pg_completedSteps a @ [step], pg_currentStep := None\<rparr> else a
      | None \<Rightarrow> a)"
| "progress_message m a = a"

definition buildProgressArtifact :: "leader_message list \<Rightarrow> progress_artifact" where
  "buildProgressArtifact messages =
    (let a = fold progress_message messages empty_artifact
     in a\<lparr>pg_completedSteps := lastn 10 (pg_completedSteps a)\<rparr>)"

section \<open>The stores\<close>

definition json_field :: "json \<Rightarrow> string \<Rightarrow> json option" where
  "json_field j k = (case j of JObj fs \<Rightarrow> obj_get fs k | _ \<Rightarrow> None)"

definition sub_field :: "json option \<Rightarrow> string \<Rightarrow> json option" where
  "sub_field j k = Option.bind j (\<lambda>v. json_field v k)"

definition raw_read_path :: "json \<Rightarrow> string option" where
  "raw_read_path payload =
    (if json_field payload ''toolName'' \<noteq> Some (JStr ''read_file'') then None
     else case Option.bind (sub_field (json_field payload ''input'') ''path'') json_as_str of
            Some s \<Rightarrow> Some s
          | None \<Rightarrow> Option.bind (sub_field (json_field payload ''input'') ''file_path'') json_as_str)"

text \<open>Newest first; \<open>None\<close> where a payload is \<open>null\<close> and reading its tool name throws.\<close>

fun read_scan :: "json option list \<Rightarrow> string list \<Rightarrow> string list option" where
  "read_scan [] acc = Some acc"
| "read_scan (None # es) acc = read_scan es acc"
| "read_scan (Some p # es) acc =
     (if p = JNull then None
      else case raw_read_path p of
        None \<Rightarrow> read_scan es acc
      | Some s \<Rightarrow> if s = [] \<or> s \<in> set acc then read_scan es acc
                 else if 50 \<le> length acc + 1 then Some (acc @ [s]) else read_scan es (acc @ [s]))"

definition loadReadFiles :: "json option list \<Rightarrow> string list" where
  "loadReadFiles events = (case read_scan events [] of None \<Rightarrow> [] | Some fs \<Rightarrow> fs)"

fun plan_status_of :: "json option \<Rightarrow> plan_status option" where
  "plan_status_of (Some (JStr s)) =
     (if s = ''pending'' then Some PlanPending else if s = ''in_progress'' then Some PlanInProgress
      else if s = ''completed'' then Some PlanCompleted else if s = ''cancelled'' then Some PlanCancelled else None)"
| "plan_status_of j = None"

definition str_or_empty :: "json option \<Rightarrow> string" where
  "str_or_empty j = (case Option.bind j json_as_str of None \<Rightarrow> [] | Some s \<Rightarrow> s)"

definition plan_entry :: "json \<Rightarrow> plan_item option" where
  "plan_entry t =
    (let content = str_or_empty (json_field t ''content'') in
     case plan_status_of (json_field t ''status'') of
       None \<Rightarrow> None
     | Some st \<Rightarrow> if content = [] then None
         else Some \<lparr>pi_content = content, pi_activeForm = str_or_empty (json_field t ''activeForm''), pi_status = st\<rparr>)"

fun loadLatestPlan :: "json option list \<Rightarrow> plan_item list" where
  "loadLatestPlan [] = []"
| "loadLatestPlan (None # es) = loadLatestPlan es"
| "loadLatestPlan (Some p # es) =
     (if p = JNull then []
      else if json_field p ''toolName'' \<noteq> Some (JStr ''update_plan'') then loadLatestPlan es
      else case sub_field (json_field p ''input'') ''todos'' of
             Some (JArr ts) \<Rightarrow> List.map_filter plan_entry ts
           | _ \<Rightarrow> loadLatestPlan es)"

record runtime_row =
  rr_id :: string
  rr_parentRunId :: "string option"
  rr_roleId :: string
  rr_state :: string

definition loadActiveTeammates :: "string \<Rightarrow> runtime_row list \<Rightarrow> teammate_item list" where
  "loadActiveTeammates parentRunId rows =
    map (\<lambda>r. \<lparr>ti_runId = rr_id r, ti_roleId = rr_roleId r, ti_state = rr_state r\<rparr>)
      (filter (\<lambda>r. rr_parentRunId r = Some parentRunId \<and> rr_state r \<in> {''RUNNING'', ''QUEUED''}) rows)"

text \<open>\<open>r.reason ?? r.message ?? r.command\<close>\<close>

definition nullish :: "json option \<Rightarrow> bool" where
  "nullish j \<longleftrightarrow> j = None \<or> j = Some JNull"

definition payload_reason :: "(string \<times> json) list \<Rightarrow> json option" where
  "payload_reason fs =
    (if \<not> nullish (obj_get fs ''reason'') then obj_get fs ''reason''
     else if \<not> nullish (obj_get fs ''message'') then obj_get fs ''message'' else obj_get fs ''command'')"

definition pending_reason :: "approval_row \<Rightarrow> string" where
  "pending_reason row =
    (case Option.bind (av_payload row) (\<lambda>fs. Option.bind (payload_reason fs) json_as_str) of
       None \<Rightarrow> av_type row
     | Some s \<Rightarrow> if s = [] then av_type row else av_type row @ '': '' @ take 120 s)"

definition loadPendingApprovals :: "approval_table \<Rightarrow> (string \<times> string) list" where
  "loadPendingApprovals rows = map (\<lambda>r. (av_id r, pending_reason r)) (filter (\<lambda>r. av_state r = Pending) rows)"

record artifact_row =
  at_title :: string
  at_type :: string
  at_createdAt :: int

definition loadRecentArtifacts :: "artifact_row list \<Rightarrow> (string \<times> string) list" where
  "loadRecentArtifacts rows = map (\<lambda>a. (at_title a, at_type a)) (take 5 (sort_key (\<lambda>a. - at_createdAt a) rows))"

record progress_stores =
  ps_events :: "json option list"
  ps_runtimes :: "runtime_row list"
  ps_approvals :: approval_table
  ps_artifacts :: "artifact_row list"

definition buildProgressArtifactFromState :: "leader_message list \<Rightarrow> string \<Rightarrow> progress_stores \<Rightarrow> progress_artifact" where
  "buildProgressArtifactFromState messages runId stores =
    (buildProgressArtifact messages)\<lparr>pg_plan := loadLatestPlan (ps_events stores),
       pg_teammates := loadActiveTeammates runId (ps_runtimes stores),
       pg_approvals := loadPendingApprovals (ps_approvals stores),
       pg_artifacts := loadRecentArtifacts (ps_artifacts stores),
       pg_readFiles := loadReadFiles (ps_events stores)\<rparr>"

section \<open>The block\<close>

record progress_glyphs =
  gl_tick :: string
  gl_status :: "plan_status \<Rightarrow> string"
  gl_more :: string

definition lines_of :: "string list \<Rightarrow> string" where
  "lines_of xs = js_join [CHR 0x0A] xs"

definition listed :: "string \<Rightarrow> ('a \<Rightarrow> string) \<Rightarrow> 'a list \<Rightarrow> string list" where
  "listed title f xs = (if xs = [] then [] else [title @ [CHR 0x0A] @ lines_of (map f xs)])"

definition comma_or_none :: "string list \<Rightarrow> string" where
  "comma_or_none xs = (if xs = [] then ''(none)'' else js_join '', '' xs)"

definition progress_sections :: "progress_glyphs \<Rightarrow> progress_artifact \<Rightarrow> string list" where
  "progress_sections g a =
    [''[Session Progress]'',
     ''Completed:'' @ [CHR 0x0A] @ (if pg_completedSteps a = [] then ''  '' @ gl_tick g @ '' (none)''
        else lines_of (map (\<lambda>s. ''  '' @ gl_tick g @ '' '' @ s) (pg_completedSteps a))),
     ''Current: '' @ (case pg_currentStep a of None \<Rightarrow> ''(none)'' | Some s \<Rightarrow> s),
     ''Files touched: '' @ comma_or_none (pg_modifiedFiles a),
     ''Tools used: '' @ comma_or_none (pg_toolsUsed a),
     ''Turns completed: '' @ show_nat (pg_turnCount a)] @
    listed ''Current plan:'' (\<lambda>t. ''  '' @ gl_status g (pi_status t) @ '' '' @
        (if pi_status t = PlanInProgress \<and> pi_activeForm t \<noteq> [] then pi_activeForm t else pi_content t)) (pg_plan a) @
    listed ''Active teammates:'' (\<lambda>t. ''  - '' @ ti_roleId t @ '' ('' @ ti_runId t @ '', state='' @ ti_state t @ '')'')
      (pg_teammates a) @
    listed ''Pending approvals:'' (\<lambda>(i, reason). ''  - '' @ i @ '': '' @ reason) (pg_approvals a) @
    listed ''Recent artifacts:'' (\<lambda>(name, kind). ''  - '' @ kind @ '': '' @ name) (pg_artifacts a) @
    (if pg_readFiles a = [] then []
     else [''Already read this session (most recent first):'' @ [CHR 0x0A] @
       lines_of (map (\<lambda>p. ''  - '' @ p) (take 20 (pg_readFiles a))) @
       (if 20 < length (pg_readFiles a)
        then [CHR 0x0A] @ ''  '' @ gl_more g @ ''and '' @ show_nat (length (pg_readFiles a) - 20) @ '' more'' else [])])"

definition formatProgressForInjection :: "progress_glyphs \<Rightarrow> progress_artifact \<Rightarrow> string" where
  "formatProgressForInjection g a = lines_of (progress_sections g a)"

section \<open>Facts\<close>

lemma starts_with_js_join: "starts_with (js_join sep (x # xs)) x"
  by (cases xs) (auto simp: starts_with_iff)

lemma format_starts: "starts_with (formatProgressForInjection g a) ''[Session Progress]''"
  unfolding formatProgressForInjection_def progress_sections_def lines_of_def append_Cons by (rule starts_with_js_join)

lemma read_scan_files:
  "read_scan es acc = Some fs \<Longrightarrow> distinct acc \<Longrightarrow> [] \<notin> set acc \<Longrightarrow> length acc < 50 \<Longrightarrow>
    distinct fs \<and> [] \<notin> set fs \<and> length fs \<le> 50"
proof (induction es acc rule: read_scan.induct)
  case (3 p es acc)
  then show ?case by (auto split: if_splits option.splits)
qed auto

text \<open>
  The progress block lists at most ten completed steps, five artifacts and fifty read files, these without repetition
  and none of them empty, and only teammates of this run that are queued or running and approvals that are pending.
\<close>

theorem progress_bounds:
  "length (pg_completedSteps (buildProgressArtifactFromState messages runId stores)) \<le> 10 \<and>
   length (pg_artifacts (buildProgressArtifactFromState messages runId stores)) \<le> 5 \<and>
   length (pg_readFiles (buildProgressArtifactFromState messages runId stores)) \<le> 50 \<and>
   distinct (pg_readFiles (buildProgressArtifactFromState messages runId stores)) \<and>
   [] \<notin> set (pg_readFiles (buildProgressArtifactFromState messages runId stores)) \<and>
   ti_state ` set (pg_teammates (buildProgressArtifactFromState messages runId stores)) \<subseteq> {''RUNNING'', ''QUEUED''} \<and>
   fst ` set (pg_approvals (buildProgressArtifactFromState messages runId stores)) \<subseteq> av_id ` set (listPending (ps_approvals stores))"
proof -
  have files: "distinct (loadReadFiles es) \<and> [] \<notin> set (loadReadFiles es) \<and> length (loadReadFiles es) \<le> 50" for es
    using read_scan_files [of es "[]"] by (auto simp: loadReadFiles_def split: option.splits)
  show ?thesis
    using files [of "ps_events stores"]
    by (auto simp: buildProgressArtifactFromState_def buildProgressArtifact_def Let_def lastn_def loadRecentArtifacts_def
        loadActiveTeammates_def loadPendingApprovals_def listPending_def)
qed

text \<open>
  Of an approval that \<open>createApproval\<close> has made the block says its kind only: the loader reads the fields reason, message
  and command of the payload, which hold nothing, for the payload's fields are the tool's name, arguments and summary.
\<close>

theorem pending_reason_is_kind:
  assumes "as_rows s = []"
  shows "loadPendingApprovals (as_rows (createApproval now i taskId tool
     [(''toolName'', JStr tool), (''toolArgs'', toolArgs), (''summary'', JStr summary), (''requestId'', JStr request)] s))
     = [(i, tool)]"
  using assms by (simp add: createApproval_def loadPendingApprovals_def pending_reason_def payload_reason_def nullish_def obj_get_def)

theorem pending_reason_is_kind_witness:
  "loadPendingApprovals (as_rows (createApproval 5 ''a1'' ''t'' ''bash''
     [(''toolName'', JStr ''bash''), (''toolArgs'', JObj [(''command'', JStr ''rm -rf a'')]),
      (''summary'', JStr ''Dangerous bash command: rm -rf a''), (''requestId'', JStr ''r'')] empty_store)) = [(''a1'', ''bash'')]"
  by (rule pending_reason_is_kind) (simp add: empty_store_def)

end
