(* ===== verification/Message_Compaction.thy ===== *)
theory Message_Compaction
  imports Token_Budget Js_Regex Progress_Artifact
begin

text \<open>
  The compaction of a leader's conversation (\<open>autonomous-loop/message-compaction.ts\<close>) and the pass of the loop that uses it
  (\<open>autonomous-loop-service.ts\<close>): turns, the tail that is kept, the mechanical steps, the summary by the model with its
  retries, and the drop of the oldest turns. What a model call gives back is a parameter: its text, or the error that ends
  the stream.
\<close>

section \<open>Turns\<close>

definition SNIP_MARKER :: string where "SNIP_MARKER = ''[snipped '' @ [CHR 0x97] @ '' see earlier context]''"

definition DROP_MARKER :: string where "DROP_MARKER = ''[ earlier turn(s) dropped to fit context window]''"

definition PREV_SUMMARY_MARKER :: string where "PREV_SUMMARY_MARKER = ''[Previous conversation summary]''"

fun is_user :: "leader_message \<Rightarrow> bool" where
  "is_user (MUser b c) = True"
| "is_user m = False"

fun turns_go :: "leader_message list \<Rightarrow> leader_message list \<Rightarrow> leader_message list list" where
  "turns_go current [] = (if current = [] then [] else [current])"
| "turns_go current (m # ms) =
     (if is_user m \<and> current \<noteq> [] then current # turns_go [m] ms else turns_go (current @ [m]) ms)"

definition identifyTurns :: "leader_message list \<Rightarrow> leader_message list list" where
  "identifyTurns messages = turns_go [] messages"

definition meta_text :: "leader_message \<Rightarrow> string option" where
  "meta_text m = (case m of MUser b (UStr s) \<Rightarrow> if isMeta b = Some True then Some s else None | _ \<Rightarrow> None)"

definition extractPreviousSummary :: "leader_message list \<Rightarrow> string option \<times> leader_message list" where
  "extractPreviousSummary messages =
    (case messages of
       [] \<Rightarrow> (None, messages)
     | m # rest \<Rightarrow> (case meta_text m of
         Some s \<Rightarrow> if starts_with s PREV_SUMMARY_MARKER
           then (Some (dropWhile (\<lambda>c. c = CHR 0x0A) (drop (length PREV_SUMMARY_MARKER) s)), rest) else (None, messages)
       | None \<Rightarrow> (None, messages)))"

text \<open>The number of turns, from the end, that fit the budget: the last one always does. \<open>ts\<close> is reversed.\<close>

fun tail_turns :: "int \<Rightarrow> int \<Rightarrow> leader_message list list \<Rightarrow> nat" where
  "tail_turns budget preserved [] = 0"
| "tail_turns budget preserved (t # ts) =
     (if preserved + estimateTokenCount t > budget then 0
      else Suc (tail_turns budget (preserved + estimateTokenCount t) ts))"

definition pickTailStart :: "leader_message list list \<Rightarrow> int \<Rightarrow> nat" where
  "pickTailStart turns budget =
    (if length turns \<le> 1 then 0
     else length turns - 1 - tail_turns budget (estimateTokenCount (last turns)) (tl (rev turns)))"

definition MIN_PRESERVE_TAIL_TOKENS :: int where "MIN_PRESERVE_TAIL_TOKENS = 2000"

definition MAX_PRESERVE_TAIL_TOKENS :: int where "MAX_PRESERVE_TAIL_TOKENS = 30000"

definition DEFAULT_PRESERVE_TAIL_RATIO :: unit_double where
  "DEFAULT_PRESERVE_TAIL_RATIO = (5404319552844595, 54)"

definition clamp_tail :: "int \<Rightarrow> int" where
  "clamp_tail n = min MAX_PRESERVE_TAIL_TOKENS (max MIN_PRESERVE_TAIL_TOKENS n)"

definition getPreserveTailBudget :: "string option \<Rightarrow> int \<Rightarrow> int" where
  "getPreserveTailBudget env available =
    (case (case env of None \<Rightarrow> None | Some s \<Rightarrow> if s = [] then None else js_parse_int s) of
       Some parsed \<Rightarrow> if parsed > 0 then clamp_tail parsed else clamp_tail (js_floor_mul available DEFAULT_PRESERVE_TAIL_RATIO)
     | None \<Rightarrow> clamp_tail (js_floor_mul available DEFAULT_PRESERVE_TAIL_RATIO))"

section \<open>The mechanical steps\<close>

fun snip_message :: "leader_message \<Rightarrow> leader_message" where
  "snip_message (MToolResult b i c e) = MToolResult b i (RCStr SNIP_MARKER) e"
| "snip_message m = m"

fun is_tool_result :: "leader_message \<Rightarrow> bool" where
  "is_tool_result (MToolResult b i c e) = True"
| "is_tool_result m = False"

definition snipOldToolResults :: "leader_message list \<Rightarrow> int \<Rightarrow> leader_message list \<times> nat" where
  "snipOldToolResults messages preserveTailTokens =
    (let turns = identifyTurns messages; start = pickTailStart turns preserveTailTokens in
     if length turns \<le> 1 \<or> start = 0 then (messages, 0)
     else (map snip_message (concat (take start turns)) @ concat (drop start turns),
           length (filter is_tool_result (concat (take start turns)))))"

text \<open>The marks hold a dash outside the model's characters; one code unit above the ASCII range, \<open>CHR 0x97\<close>, stands for it.\<close>

definition cut_mark :: "string \<Rightarrow> nat \<Rightarrow> string" where
  "cut_mark what n = [CHR 0x0A] @ ''[truncated '' @ [CHR 0x97] @ '' '' @ what @ '' was '' @ show_nat n @ '' chars]''"

definition IMAGE_BLOCK_OVERHEAD :: int where "IMAGE_BLOCK_OVERHEAD = 64"

fun cut_blocks :: "int \<Rightarrow> result_block list \<Rightarrow> result_block list \<times> bool" where
  "cut_blocks remaining [] = ([], False)"
| "cut_blocks remaining (b # bs) =
     (if remaining \<le> 0
      then ((case b of RImage mt d \<Rightarrow> RText (''[image elided during truncation: '' @ mt @ '']'')
                     | RText t \<Rightarrow> RText ''[truncated]'') # fst (cut_blocks remaining bs), True)
      else case b of
        RImage mt d \<Rightarrow> (let (r, cut) = cut_blocks (remaining - IMAGE_BLOCK_OVERHEAD) bs in (b # r, cut))
      | RText t \<Rightarrow>
          if int (length t) \<le> remaining
          then (let (r, cut) = cut_blocks (remaining - int (length t)) bs in (b # r, cut))
          else (RText (take (nat remaining) t @ cut_mark ''text block'' (length t)) # fst (cut_blocks 0 bs), True))"

definition cut_content :: "nat \<Rightarrow> result_content \<Rightarrow> result_content \<times> bool" where
  "cut_content limit c = (case c of
     RCStr s \<Rightarrow> if length s \<le> limit then (RCStr s, False)
       else (RCStr (take limit s @ cut_mark ''original'' (length s)), True)
   | RCBlocks bs \<Rightarrow> (let (r, cut) = cut_blocks (int limit) bs in (RCBlocks r, cut)))"

fun cut_message :: "nat \<Rightarrow> leader_message \<Rightarrow> leader_message \<times> bool" where
  "cut_message limit (MToolResult b i c e) = (let (c', cut) = cut_content limit c in (MToolResult b i c' e, cut))"
| "cut_message limit m = (m, False)"

definition truncateLargeToolResults :: "leader_message list \<Rightarrow> nat \<Rightarrow> leader_message list \<times> nat" where
  "truncateLargeToolResults messages limit =
    (map (fst \<circ> cut_message limit) messages, length (filter (snd \<circ> cut_message limit) messages))"

definition meta_user :: "string \<Rightarrow> leader_message" where
  "meta_user s = MUser (no_base\<lparr>isMeta := Some True\<rparr>) (UStr s)"

definition dropOldestTurns :: "leader_message list \<Rightarrow> nat \<Rightarrow> leader_message list \<times> nat" where
  "dropOldestTurns messages turnsToDrop =
    (let source = (if messages \<noteq> [] \<and> meta_text (hd messages) = Some DROP_MARKER then tl messages else messages);
         turns = identifyTurns source;
         dropped = min turnsToDrop (length turns - 1)
     in if dropped = 0 then (messages, 0) else (meta_user DROP_MARKER # concat (drop dropped turns), dropped))"

section \<open>The summary\<close>

definition or_none :: "string \<Rightarrow> string" where
  "or_none t = ''- ['' @ t @ '' or '' @ [CHR 0x22] @ ''(none)'' @ [CHR 0x22] @ '']''"

definition SUMMARY_TEMPLATE :: string where
  "SUMMARY_TEMPLATE = lines_of
    [''Output exactly the Markdown structure shown inside <template> and keep the section order unchanged. Do not include the <template> tags in your response.'',
     ''<template>'', ''## Goal'', ''- [single-sentence task summary]'', [],
     ''## Constraints & Preferences'', or_none ''user constraints, preferences, specs,'', [],
     ''## Progress'', ''### Done'', or_none ''completed work'', [],
     ''### In Progress'', or_none ''current work'', [], ''### Blocked'', or_none ''blockers'', [],
     ''## Key Decisions'', or_none ''decision and why,'', [],
     ''## Next Steps'', or_none ''ordered next actions'', [],
     ''## Critical Context'', or_none ''important technical facts, errors, open questions,'', [],
     ''## Relevant Files'', or_none ''file or directory path: why it matters,'',
     ''</template>'', [], ''Rules:'', ''- Keep every section, even when empty.'', ''- Use terse bullets, not prose paragraphs.'',
     ''- Preserve exact file paths, commands, error strings, and identifiers when known.'',
     ''- Do not mention the summary process or that context was compacted.'']"

record model_error =
  me_message :: string
  me_code :: "string option"
  me_status :: "int option"

definition near :: "string \<Rightarrow> nat \<Rightarrow> rx \<Rightarrow> rx" where
  "near w n r = seqs [lit_ci w, rep 0 n dot, r]"

definition OVERFLOW_WORDS :: rx where
  "OVERFLOW_WORDS = alts
    [near ''context'' 20 (lit_ci ''length''), near ''context'' 20 (lit_ci ''window''), near ''max'' 20 (lit_ci ''token''),
     near ''too'' 5 (alts [lit_ci ''long'', near ''many'' 5 (lit_ci ''token'')]), near ''prompt'' 5 (lit_ci ''too''),
     seqs [lit_ci ''exceed'', opt (lit_ci ''s''), rep 0 5 dot, alts [lit_ci ''context'', lit_ci ''token'', lit_ci ''limit'']]]"

definition looksLikeContextOverflow :: "model_error \<Rightarrow> bool" where
  "looksLikeContextOverflow e \<longleftrightarrow> me_code e = Some ''context_length_exceeded'' \<or> me_status e = Some 413 \<or>
     rx_test OVERFLOW_WORDS (me_message e)"

definition buildSummaryPrompt :: "string option \<Rightarrow> string list \<Rightarrow> string" where
  "buildSummaryPrompt previousSummary extraContext =
    (if truthy_str previousSummary
     then lines_of [''Update the anchored summary below using the conversation history above.'',
           ''Preserve still-true details, remove stale details, and merge in the new facts.'', ''<previous-summary>'',
           js_trim (the previousSummary), ''</previous-summary>'']
     else ''Create a new anchored summary from the conversation history above.'') @
    [CHR 0x0A, CHR 0x0A] @ SUMMARY_TEMPLATE @
    (if extraContext = [] then []
     else [CHR 0x0A, CHR 0x0A] @ ''<additional-context>'' @ [CHR 0x0A] @ js_join [CHR 0x0A, CHR 0x0A] extraContext @
       [CHR 0x0A] @ ''</additional-context>'')"

text \<open>One call of the model: what its stream yields, or the error it ends with.\<close>

type_synonym summary_model = "nat \<Rightarrow> leader_message list \<Rightarrow> model_error + leader_message list"

fun text_of :: "content_block \<Rightarrow> string" where
  "text_of (CText t) = t"
| "text_of b = []"

fun said_text :: "leader_message \<Rightarrow> string" where
  "said_text (MAssistant b cs ae em) = concat (map text_of cs)"
| "said_text m = []"

definition MAX_SUMMARY_RETRIES :: nat where "MAX_SUMMARY_RETRIES = 2"

fun summary_attempts ::
  "summary_model \<Rightarrow> string \<Rightarrow> nat \<Rightarrow> nat \<Rightarrow> leader_message list \<Rightarrow> (string \<times> nat) option" where
  "summary_attempts model prompt attempt left old =
    (case model attempt (pairLeaderToolMessages old @ [MUser no_base (UStr prompt)]) of
       Inr msgs \<Rightarrow> Some (concat (map said_text msgs), attempt)
     | Inl e \<Rightarrow>
        if \<not> looksLikeContextOverflow e then None
        else case left of 0 \<Rightarrow> None
          | Suc k \<Rightarrow> if length old div 2 = 0 then None
              else summary_attempts model prompt (attempt + 1) k (drop (length old div 2) old))"

declare summary_attempts.simps [simp del]

definition TEMPLATE_TAG :: rx where
  "TEMPLATE_TAG = seqs [lit ''<'', opt (lit ''/''), lit_ci ''template'', lit ''>'']"

record autocompact_result =
  ac_messages :: "leader_message list"
  ac_compacted :: bool
  ac_failed :: bool
  ac_summary :: "string option"
  ac_tailTokens :: int
  ac_tailStart :: nat
  ac_retries :: nat

definition not_compacted :: "leader_message list \<Rightarrow> bool \<Rightarrow> autocompact_result" where
  "not_compacted messages failed = \<lparr>ac_messages = messages, ac_compacted = False, ac_failed = failed, ac_summary = None,
     ac_tailTokens = 0, ac_tailStart = 0, ac_retries = 0\<rparr>"

definition summary_message :: "string \<Rightarrow> leader_message" where
  "summary_message t = meta_user (PREV_SUMMARY_MARKER @ [CHR 0x0A] @ t)"

definition autocompact ::
  "summary_model \<Rightarrow> int \<Rightarrow> string list \<Rightarrow> leader_message list \<Rightarrow> autocompact_result" where
  "autocompact model preserveTailTokens extraContext messages =
    (let (previousSummary, rest) = extractPreviousSummary messages;
         turns = identifyTurns rest;
         start = pickTailStart turns preserveTailTokens;
         old = concat (take start turns);
         recent = concat (drop start turns)
     in if length turns \<le> 1 \<or> start = 0 then not_compacted messages False
        else case summary_attempts model (buildSummaryPrompt previousSummary extraContext) 0 MAX_SUMMARY_RETRIES old of
               None \<Rightarrow> not_compacted messages True
             | Some (raw, retries) \<Rightarrow>
                (let summary = js_trim (rx_replace TEMPLATE_TAG [] raw) in
                 if summary = [] then not_compacted messages True
                 else \<lparr>ac_messages = summary_message summary # recent, ac_compacted = True, ac_failed = False,
                        ac_summary = Some summary, ac_tailTokens = estimateTokenCount recent,
                        ac_tailStart = (if previousSummary = None then 0 else 1) + length old, ac_retries = retries\<rparr>))"

definition shouldAttemptLlmSummary :: "bool \<Rightarrow> bool \<Rightarrow> int \<Rightarrow> int \<Rightarrow> int \<Rightarrow> bool \<Rightarrow> bool" where
  "shouldAttemptLlmSummary llmAllowed forceUserCompact pre post threshold over \<longleftrightarrow>
     llmAllowed \<and> (forceUserCompact \<or> (post > threshold \<or> over) \<or> (pre > threshold \<and> post > threshold div 2))"

section \<open>The pass of the loop\<close>

definition COMPACT_FAILURE_LIMIT :: nat where "COMPACT_FAILURE_LIMIT = 3"

record pass_env =
  pe_budget :: token_budget
  pe_threshold :: int
  pe_tailEnv :: "string option"
  pe_force :: bool
  pe_model :: summary_model
  pe_extraContext :: "string list"
  pe_glyphs :: progress_glyphs
  pe_artifact :: progress_artifact

record pass_result =
  pz_messages :: "leader_message list"
  pz_failures :: nat
  pz_changed :: bool
  pz_truncated :: nat
  pz_snipped :: nat
  pz_dropped :: nat
  pz_compacted :: bool
  pz_attempted :: bool

fun drop_rounds :: "nat \<Rightarrow> token_budget \<Rightarrow> leader_message list \<Rightarrow> leader_message list \<times> nat" where
  "drop_rounds 0 budget ms = (ms, 0)"
| "drop_rounds (Suc k) budget ms =
     (if \<not> isOverBudget (estimateTokenCount ms) budget then (ms, 0)
      else case dropOldestTurns ms 1 of (ms', d) \<Rightarrow>
        if d = 0 then (ms, 0) else (case drop_rounds k budget ms' of (r, n) \<Rightarrow> (r, n + d)))"

definition is_progress_block :: "leader_message \<Rightarrow> bool" where
  "is_progress_block m = (case meta_text m of Some s \<Rightarrow> starts_with s ''[Session Progress]'' | None \<Rightarrow> False)"

definition with_progress :: "pass_env \<Rightarrow> leader_message list \<Rightarrow> leader_message list" where
  "with_progress env ms =
     meta_user (formatProgressForInjection (pe_glyphs env) (pe_artifact env)) # filter (\<lambda>m. \<not> is_progress_block m) ms"

definition tail_budget :: "pass_env \<Rightarrow> int" where
  "tail_budget env = getPreserveTailBudget (pe_tailEnv env) (availableForInput (pe_budget env))"

definition mechanical :: "pass_env \<Rightarrow> leader_message list \<Rightarrow> leader_message list \<times> nat \<times> nat" where
  "mechanical env messages =
    (let (cut, truncated) = truncateLargeToolResults messages 8000;
         (snipped, count) = snipOldToolResults cut (tail_budget env)
     in (snipped, truncated, count))"

definition summarize_step :: "pass_env \<Rightarrow> nat \<Rightarrow> int \<Rightarrow> leader_message list \<Rightarrow> autocompact_result option" where
  "summarize_step env failures estimate ms =
    (let post = estimateTokenCount ms in
     if shouldAttemptLlmSummary (failures < COMPACT_FAILURE_LIMIT) (pe_force env) estimate post (pe_threshold env)
          (isOverBudget post (pe_budget env))
     then Some (autocompact (pe_model env) (tail_budget env) (pe_extraContext env) ms)
     else None)"

definition after_summary :: "autocompact_result option \<Rightarrow> leader_message list \<Rightarrow> leader_message list" where
  "after_summary tried mech = (case tried of None \<Rightarrow> mech | Some r \<Rightarrow> ac_messages r)"

definition did_compact :: "autocompact_result option \<Rightarrow> bool" where
  "did_compact tried = (case tried of None \<Rightarrow> False | Some r \<Rightarrow> ac_compacted r)"

definition count_failures :: "autocompact_result option \<Rightarrow> nat \<Rightarrow> nat" where
  "count_failures tried failures = (case tried of None \<Rightarrow> failures
     | Some r \<Rightarrow> if ac_compacted r then 0 else if ac_failed r then failures + 1 else failures)"

definition compaction_pass :: "pass_env \<Rightarrow> nat \<Rightarrow> int \<Rightarrow> leader_message list \<Rightarrow> pass_result" where
  "compaction_pass env failures estimate messages =
    (if \<not> (pe_force env \<or> isOverBudget estimate (pe_budget env) \<or> estimate > pe_threshold env)
     then \<lparr>pz_messages = messages, pz_failures = failures, pz_changed = False, pz_truncated = 0, pz_snipped = 0,
            pz_dropped = 0, pz_compacted = False, pz_attempted = False\<rparr>
     else
      (let (mech, truncated, snipped) = mechanical env messages;
           tried = summarize_step env failures estimate mech;
           (remaining, dropped) = drop_rounds 3 (pe_budget env) (after_summary tried mech);
           changed = (truncated > 0 \<or> snipped > 0 \<or> dropped > 0 \<or> did_compact tried)
       in \<lparr>pz_messages = (if changed then with_progress env remaining else remaining), pz_failures = count_failures tried failures,
           pz_changed = changed, pz_truncated = truncated, pz_snipped = snipped, pz_dropped = dropped,
           pz_compacted = did_compact tried, pz_attempted = (tried \<noteq> None)\<rparr>))"

section \<open>Turns partition the conversation\<close>

lemma concat_turns_go [simp]: "concat (turns_go cur ms) = cur @ ms"
  by (induction cur ms rule: turns_go.induct) auto

lemma concat_turns [simp]: "concat (identifyTurns ms) = ms"
  by (simp add: identifyTurns_def)

lemma turns_go_cut:
  "is_user u \<Longrightarrow> list_all (\<lambda>m. \<not> is_user m) b \<Longrightarrow> turns_go cur (a @ u # b) = turns_go cur a @ [u # b]"
proof (induction cur a rule: turns_go.induct)
  case (1 cur)
  have tail: "list_all (\<lambda>m. \<not> is_user m) b \<Longrightarrow> c \<noteq> [] \<Longrightarrow> turns_go c b = [c @ b]" for c
    by (induction b arbitrary: c) auto
  show ?case using 1 tail [of "[u]"] by (cases "cur = []") auto
next
  case (2 cur m ms)
  then show ?case by auto
qed

lemma turns_cut:
  "is_user u \<Longrightarrow> list_all (\<lambda>m. \<not> is_user m) b \<Longrightarrow> identifyTurns (a @ u # b) = identifyTurns a @ [u # b]"
  by (simp add: identifyTurns_def turns_go_cut)

definition turn_ok :: "leader_message list \<Rightarrow> bool" where
  "turn_ok t \<longleftrightarrow> t \<noteq> [] \<and> list_all (\<lambda>m. \<not> is_user m) (tl t)"

lemma turns_go_ok:
  "cur = [] \<or> turn_ok cur \<Longrightarrow>
    list_all turn_ok (turns_go cur ms) \<and> (\<forall>t\<in>set (tl (turns_go cur ms)). is_user (hd t)) \<and>
    (cur \<noteq> [] \<longrightarrow> turns_go cur ms \<noteq> [] \<and> hd (hd (turns_go cur ms)) = hd cur)"
proof (induction cur ms rule: turns_go.induct)
  case (2 cur m ms)
  show ?case
  proof (cases "is_user m \<and> cur \<noteq> []")
    case True
    have one: "turn_ok [m]" by (simp add: turn_ok_def)
    from 2 True one have ih: "list_all turn_ok (turns_go [m] ms)" "\<forall>t\<in>set (tl (turns_go [m] ms)). is_user (hd t)"
      "turns_go [m] ms \<noteq> []" "hd (hd (turns_go [m] ms)) = m" by auto
    then show ?thesis using 2(3) True by (cases "turns_go [m] ms") auto
  next
    case False
    then have "turn_ok (cur @ [m])" using 2(3) by (cases cur) (auto simp: turn_ok_def)
    with 2 False show ?thesis by (cases cur) auto
  qed
qed auto

lemma turns_ok: "list_all turn_ok (identifyTurns ms)" "t \<in> set (tl (identifyTurns ms)) \<Longrightarrow> is_user (hd t)"
  using turns_go_ok [of "[]" ms] by (auto simp: identifyTurns_def)

lemma turns_user_headed:
  "list_all (\<lambda>t. turn_ok t \<and> is_user (hd t)) ts \<Longrightarrow> identifyTurns (a @ concat ts) = identifyTurns a @ ts"
proof (induction ts arbitrary: a rule: rev_induct)
  case (snoc t ts)
  obtain u b where t: "t = u # b" and "is_user u" "list_all (\<lambda>m. \<not> is_user m) b"
    using snoc.prems by (cases t) (auto simp: turn_ok_def)
  then show ?case using snoc turns_cut [of u b "a @ concat ts"] by simp
qed simp

lemma later_turns: "0 < k \<Longrightarrow> list_all (\<lambda>t. turn_ok t \<and> is_user (hd t)) (drop k (identifyTurns ms))"
proof -
  assume k: "0 < k"
  have "set (drop k (identifyTurns ms)) \<subseteq> set (tl (identifyTurns ms))"
    using k set_drop_subset_set_drop [of 1 k "identifyTurns ms"] by (simp add: drop_Suc)
  moreover have "set (tl (identifyTurns ms)) \<subseteq> set (identifyTurns ms)" by (cases "identifyTurns ms") auto
  ultimately show ?thesis using turns_ok(1) [of ms] turns_ok(2) [of _ ms] unfolding list_all_iff by blast
qed

lemma turns_Nil [simp]: "identifyTurns [] = []"
  by (simp add: identifyTurns_def)

lemma turns_drop:
  assumes "0 < k"
  shows "identifyTurns (concat (drop k (identifyTurns ms))) = drop k (identifyTurns ms)"
  using turns_user_headed [OF later_turns [OF assms, of ms], of "[]"] by simp

lemma pickTailStart_less: "pickTailStart turns budget \<le> length turns - 1"
  by (simp add: pickTailStart_def diff_le_mono2)

section \<open>What a summary replaces\<close>

lemma tail_turns_le: "tail_turns budget p ts \<le> length ts"
  by (induction ts arbitrary: p) auto

lemma estimateTokenCount_append: "estimateTokenCount (a @ b) = estimateTokenCount a + estimateTokenCount b"
  by (simp add: estimateTokenCount_def foldl_sum)

lemma estimate_take_turns:
  "p \<le> budget \<Longrightarrow> p + estimateTokenCount (concat (rev (take (tail_turns budget p ts) ts))) \<le> budget"
proof (induction ts arbitrary: p)
  case Nil
  then show ?case by (simp add: estimateTokenCount_def)
next
  case (Cons t ts)
  show ?case
  proof (cases "p + estimateTokenCount t > budget")
    case True
    then show ?thesis using Cons.prems by (simp add: estimateTokenCount_def)
  next
    case False
    then show ?thesis using Cons.IH [of "p + estimateTokenCount t"] by (simp add: estimateTokenCount_append)
  qed
qed

lemma estimate_nonneg: "0 \<le> estimateTokenCount ms"
proof -
  have block: "0 \<le> estimate_block b" for b
    using estimateTextTokens_bounds(1) by (cases b) (auto simp: UNKNOWN_BLOCK_TOKEN_CAP_def APPROX_TOKENS_PER_IMAGE_def)
  have result: "0 \<le> estimate_result_block r" for r
    using estimateTextTokens_bounds(1) by (cases r) (auto simp: UNKNOWN_BLOCK_TOKEN_CAP_def)
  have "0 \<le> estimate_message m" for m
    using estimateTextTokens_bounds(1) block result
    by (cases m rule: estimate_message.cases)
       (auto simp: estimateBlockArrayTokens_def foldl_sum intro!: sum_list_nonneg)
  then show ?thesis by (auto simp: estimateTokenCount_def foldl_sum intro!: sum_list_nonneg)
qed

text \<open>The turns from the start of the tail on are within the budget, or only the last one is kept.\<close>

lemma tail_within_budget:
  assumes "length turns > 1"
  shows "estimateTokenCount (concat (drop (pickTailStart turns budget) turns)) \<le> budget \<or>
    drop (pickTailStart turns budget) turns = [last turns]"
proof -
  obtain ts l where t: "turns = ts @ [l]" using assms by (cases turns rule: rev_cases) auto
  let ?n = "tail_turns budget (estimateTokenCount l) (rev ts)"
  have n: "?n \<le> length ts" using tail_turns_le [of budget "estimateTokenCount l" "rev ts"] by simp
  have start: "pickTailStart turns budget = length ts - ?n"
    using assms by (simp add: pickTailStart_def t)
  have drop: "drop (pickTailStart turns budget) turns = rev (take ?n (rev ts)) @ [l]"
    using start unfolding t by (simp add: rev_take)
  show ?thesis
  proof (cases "estimateTokenCount l \<le> budget")
    case True
    then show ?thesis using estimate_take_turns [of "estimateTokenCount l" budget "rev ts"]
      unfolding drop by (simp add: estimateTokenCount_append add.commute)
  next
    case False
    have "?n = 0" using False estimate_nonneg [of "hd (rev ts)"] by (cases "rev ts") auto
    then have "drop (pickTailStart turns budget) turns = [l]" unfolding drop by simp
    moreover have "last turns = l" by (simp add: t)
    ultimately show ?thesis by simp
  qed
qed

lemma extract_rest:
  "extractPreviousSummary ms = (prev, rest) \<Longrightarrow>
     (prev = None \<and> rest = ms) \<or> (\<exists>p m. prev = Some p \<and> ms = m # rest \<and> is_user m)"
  by (cases ms) (auto simp: extractPreviousSummary_def meta_text_def split: option.splits leader_message.splits
      user_content.splits if_splits)

lemma tail_index:
  assumes "extractPreviousSummary ms = (prev, rest)" and "rest = old @ recent"
  shows "recent = drop ((if prev = None then 0 else 1) + length old) ms"
  using extract_rest [OF assms(1)] assms(2) by auto

text \<open>
  C34: A compaction by summary replaces a prefix of the conversation by one message and keeps the rest as it stands: the
  rest starts with a message of the user, at the index the result names, and its estimate, which the result names too, is
  within the budget unless it is a single turn.
\<close>

theorem summary_keeps_tail:
  assumes "ac_compacted (autocompact model budget extra messages)"
  shows "\<exists>summary recent. ac_messages (autocompact model budget extra messages) = summary_message summary # recent \<and>
    summary \<noteq> [] \<and> ac_summary (autocompact model budget extra messages) = Some summary \<and>
    recent = drop (ac_tailStart (autocompact model budget extra messages)) messages \<and>
    recent \<noteq> [] \<and> is_user (hd recent) \<and>
    ac_tailTokens (autocompact model budget extra messages) = estimateTokenCount recent \<and>
    (estimateTokenCount recent \<le> budget \<or> length (identifyTurns recent) = 1)"
proof -
  obtain prev rest where e: "extractPreviousSummary messages = (prev, rest)" by fastforce
  let ?turns = "identifyTurns rest"
  let ?start = "pickTailStart ?turns budget"
  let ?old = "concat (take ?start ?turns)" and ?recent = "concat (drop ?start ?turns)"
  have nt: "length ?turns > 1" "?start \<noteq> 0"
    using assms by (auto simp: autocompact_def e not_compacted_def Let_def split: if_splits)
  obtain raw retries where a: "summary_attempts model (buildSummaryPrompt prev extra) 0 MAX_SUMMARY_RETRIES ?old = Some (raw, retries)"
    using assms nt by (auto simp: autocompact_def e not_compacted_def Let_def split: if_splits option.splits)
  let ?s = "js_trim (rx_replace TEMPLATE_TAG [] raw)"
  have s: "?s \<noteq> []"
    using assms nt a by (auto simp: autocompact_def e not_compacted_def Let_def split: if_splits)
  have r: "autocompact model budget extra messages = \<lparr>ac_messages = summary_message ?s # ?recent, ac_compacted = True,
      ac_failed = False, ac_summary = Some ?s, ac_tailTokens = estimateTokenCount ?recent,
      ac_tailStart = (if prev = None then 0 else 1) + length ?old, ac_retries = retries\<rparr>"
    using nt a s by (simp add: autocompact_def e Let_def)
  have parts: "rest = ?old @ ?recent" by (metis append_take_drop_id concat_append concat_turns)
  have index: "?recent = drop ((if prev = None then 0 else 1) + length ?old) messages"
    by (rule tail_index [OF e parts])
  have turns: "identifyTurns ?recent = drop ?start ?turns" using turns_drop nt(2) by blast
  have less: "?start < length ?turns" using pickTailStart_less [of ?turns budget] nt(1) by linarith
  obtain t ts where d: "drop ?start ?turns = t # ts" using less by (cases "drop ?start ?turns") auto
  have head: "turn_ok t \<and> is_user (hd t)" using later_turns [of ?start rest] nt(2) d by simp
  then have first: "?recent \<noteq> []" "is_user (hd ?recent)" unfolding d by (auto simp: turn_ok_def)
  have budget: "estimateTokenCount ?recent \<le> budget \<or> length (identifyTurns ?recent) = 1"
    using tail_within_budget [OF nt(1), of budget] unfolding turns by (metis One_nat_def length_Cons list.size(3))
  show ?thesis unfolding r by (simp only: autocompact_result.simps) (use s index first budget in blast)
qed

section \<open>The current request survives\<close>

text \<open>\<open>request u b ms\<close>: \<open>ms\<close> ends with the user's message \<open>u\<close> and what followed it.\<close>

definition request :: "leader_message \<Rightarrow> leader_message list \<Rightarrow> leader_message list \<Rightarrow> bool" where
  "request u b ms \<longleftrightarrow> is_user u \<and> list_all (\<lambda>m. \<not> is_user m) b \<and> (\<exists>a. ms = a @ u # b)"

lemma request_turns: "request u b ms \<Longrightarrow> \<exists>ts. identifyTurns ms = ts @ [u # b]"
  unfolding request_def using turns_cut by blast

lemma request_kept: "request u b ms \<Longrightarrow> request u b (x @ ms)"
  unfolding request_def by (metis append_assoc)

lemma request_drop_turns:
  assumes "request u b ms" and "k < length (identifyTurns ms)"
  shows "request u b (concat (drop k (identifyTurns ms)))"
proof -
  obtain ts where t: "identifyTurns ms = ts @ [u # b]" using request_turns [OF assms(1)] by blast
  then have "concat (drop k (identifyTurns ms)) = concat (drop k ts) @ u # b" using assms(2) by simp
  with assms(1) show ?thesis unfolding request_def by blast
qed

lemma request_tl:
  assumes "request u b (m # ms)" and "length (identifyTurns ms) > 1"
  shows "request u b ms"
proof -
  from assms(1) obtain a where a: "m # ms = a @ u # b" by (auto simp: request_def)
  show ?thesis
  proof (cases a)
    case Nil
    then have "ms = b" using a by simp
    moreover have "list_all (\<lambda>m. \<not> is_user m) b \<Longrightarrow> length (turns_go c b) \<le> 1" for c
      by (induction b arbitrary: c) auto
    ultimately show ?thesis using assms by (auto simp: request_def identifyTurns_def not_less [symmetric])
  next
    case (Cons x xs)
    then show ?thesis using a assms(1) by (auto simp: request_def)
  qed
qed

lemma is_user_cut [simp]: "is_user (fst (cut_message n m)) = is_user m"
  by (cases m) (auto split: prod.splits)

lemma is_user_snip [simp]: "is_user (snip_message m) = is_user m"
  by (cases m) auto

lemma request_cut:
  "request u b ms \<Longrightarrow> request (fst (cut_message n u)) (map (fst \<circ> cut_message n) b) (fst (truncateLargeToolResults ms n))"
  by (auto simp: request_def truncateLargeToolResults_def list_all_iff)

lemma cut_user: "is_user u \<Longrightarrow> fst (cut_message n u) = u"
  by (cases u) auto

lemma request_snip:
  assumes "request u b ms"
  shows "request u b (fst (snipOldToolResults ms budget))"
proof (cases "length (identifyTurns ms) \<le> 1 \<or> pickTailStart (identifyTurns ms) budget = 0")
  case True
  then show ?thesis using assms by (auto simp: snipOldToolResults_def Let_def)
next
  case False
  then have "pickTailStart (identifyTurns ms) budget < length (identifyTurns ms)"
    using pickTailStart_less [of "identifyTurns ms" budget] by linarith
  from request_drop_turns [OF assms this] show ?thesis
    using False by (simp add: snipOldToolResults_def Let_def request_kept)
qed

lemma request_autocompact:
  assumes "request u b ms"
  shows "request u b (ac_messages (autocompact model budget extra ms))"
proof (cases "ac_compacted (autocompact model budget extra ms)")
  case False
  then show ?thesis using assms
    by (auto simp: autocompact_def not_compacted_def Let_def split: prod.splits option.splits if_splits)
next
  case True
  obtain prev rest where e: "extractPreviousSummary ms = (prev, rest)" by fastforce
  let ?turns = "identifyTurns rest"
  let ?start = "pickTailStart ?turns budget"
  have nt: "length ?turns > 1" "?start \<noteq> 0"
    using True by (auto simp: autocompact_def e not_compacted_def Let_def split: if_splits)
  have "request u b rest" using extract_rest [OF e] assms nt(1) request_tl by blast
  moreover have "?start < length ?turns" using pickTailStart_less [of ?turns budget] nt(1) by linarith
  ultimately have "request u b (concat (drop ?start ?turns))" by (rule request_drop_turns)
  then have "request u b (m # concat (drop ?start ?turns))" for m using request_kept [of u b _ "[m]"] by simp
  then show ?thesis using True nt
    by (auto simp: autocompact_def e not_compacted_def Let_def split: if_splits option.splits)
qed

lemma request_drop:
  assumes "request u b ms"
  shows "request u b (fst (dropOldestTurns ms k))"
proof -
  let ?s = "if ms \<noteq> [] \<and> meta_text (hd ms) = Some DROP_MARKER then tl ms else ms"
  let ?d = "min k (length (identifyTurns ?s) - 1)"
  show ?thesis
  proof (cases "?d = 0")
    case True
    then show ?thesis using assms by (simp add: dropOldestTurns_def Let_def)
  next
    case False
    then have len: "length (identifyTurns ?s) > 1" by auto
    have "request u b ?s" using assms len by (cases ms) (auto intro: request_tl)
    moreover have "?d < length (identifyTurns ?s)" using len by auto
    ultimately have "request u b (concat (drop ?d (identifyTurns ?s)))" by (rule request_drop_turns)
    then have "request u b (m # concat (drop ?d (identifyTurns ?s)))" for m using request_kept [of u b _ "[m]"] by simp
    then show ?thesis using False unfolding dropOldestTurns_def Let_def by (simp only: if_False fst_conv)
  qed
qed

lemma request_rounds: "request u b ms \<Longrightarrow> request u b (fst (drop_rounds k budget ms))"
proof (induction k arbitrary: ms)
  case (Suc k)
  obtain ms' d where d: "dropOldestTurns ms 1 = (ms', d)" by fastforce
  have "request u b ms'" using request_drop [OF Suc.prems, of 1] d by simp
  then have "request u b (fst (drop_rounds k budget ms'))" by (rule Suc.IH)
  then show ?case using Suc.prems d by (cases "drop_rounds k budget ms'") simp
qed simp

lemma request_progress:
  assumes "request u b ms" and "\<not> is_progress_block u"
  shows "request u b (with_progress env ms)"
proof -
  have "list_all (\<lambda>m. \<not> is_progress_block m) b"
    using assms(1) by (auto simp: request_def list_all_iff is_progress_block_def meta_text_def split: leader_message.splits option.splits
        user_content.splits if_splits)
  then show ?thesis using assms unfolding request_def with_progress_def
    by (auto simp: filter_empty_conv list_all_iff filter_id_conv)
qed

lemma request_mechanical:
  assumes "request u b ms"
  shows "request u (map (fst \<circ> cut_message 8000) b) (fst (mechanical env ms))"
proof -
  have "request u (map (fst \<circ> cut_message 8000) b) (fst (truncateLargeToolResults ms 8000))"
    using request_cut [OF assms, of 8000] cut_user [of u 8000] assms unfolding request_def by metis
  from request_snip [OF this, of "tail_budget env"] show ?thesis
    by (simp add: mechanical_def Let_def case_prod_beta)
qed

lemma request_after_summary:
  "request u b ms \<Longrightarrow> request u b (after_summary (summarize_step env failures estimate ms) ms)"
  by (simp add: after_summary_def summarize_step_def Let_def request_autocompact)

text \<open>
  A compaction pass never loses the current request: whatever it truncates, snips, summarizes and drops, the
  conversation still ends with the last message of the user and everything that followed it, with no change but the cut of
  oversized tool results.
\<close>

theorem pass_keeps_request:
  assumes "is_user u" and "list_all (\<lambda>m. \<not> is_user m) b" and "\<not> is_progress_block u"
  shows "\<exists>before. pz_messages (compaction_pass env failures estimate (a @ u # b)) = before @ u # b \<or>
    pz_messages (compaction_pass env failures estimate (a @ u # b)) = before @ u # map (fst \<circ> cut_message 8000) b"
proof (cases "pe_force env \<or> isOverBudget estimate (pe_budget env) \<or> estimate > pe_threshold env")
  case False
  then show ?thesis by (simp add: compaction_pass_def) blast
next
  case True
  let ?ms = "a @ u # b" and ?b = "map (fst \<circ> cut_message 8000) b"
  obtain mech truncated snipped where m: "mechanical env ?ms = (mech, truncated, snipped)" by (cases "mechanical env ?ms")
  let ?tried = "summarize_step env failures estimate mech"
  obtain remaining dropped where d: "drop_rounds 3 (pe_budget env) (after_summary ?tried mech) = (remaining, dropped)"
    by fastforce
  have "request u b ?ms" using assms by (auto simp: request_def)
  from request_mechanical [OF this, of env] have "request u ?b mech" by (simp add: m)
  then have "request u ?b (after_summary ?tried mech)" by (rule request_after_summary)
  from request_rounds [OF this, of 3 "pe_budget env"] have r: "request u ?b remaining" by (simp add: d)
  have "pz_messages (compaction_pass env failures estimate ?ms) \<in> {with_progress env remaining, remaining}"
    using True by (simp add: compaction_pass_def m d Let_def)
  then have "request u ?b (pz_messages (compaction_pass env failures estimate ?ms))"
    using r request_progress [OF r assms(3), of env] by auto
  then show ?thesis by (auto simp: request_def)
qed

definition demo_glyphs :: progress_glyphs where
  "demo_glyphs = \<lparr>gl_tick = ''+'', gl_status = (\<lambda>_. ''+''), gl_more = ''..''\<rparr>"

definition demo_model :: summary_model where
  "demo_model attempt ms = Inr [MAssistant no_base [CText ''S''] None None]"

definition demo_pass :: pass_env where
  "demo_pass = \<lparr>pe_budget = \<lparr>totalBudget = 100, reserveForOutput = 0, availableForInput = 100\<rparr>, pe_threshold = 70,
     pe_tailEnv = None, pe_force = True, pe_model = demo_model, pe_extraContext = [], pe_glyphs = demo_glyphs,
     pe_artifact = empty_artifact\<rparr>"

definition demo_said :: "string \<Rightarrow> leader_message" where
  "demo_said t = MUser no_base (UStr t)"

theorem pass_keeps_request_witness:
  "\<exists>before. pz_messages (compaction_pass demo_pass 0 5 [demo_said ''a'', demo_said ''b'']) = before @ [demo_said ''b'']"
  using pass_keeps_request [of "demo_said ''b''" "[]" demo_pass 0 5 "[demo_said ''a'']"]
  by (simp add: demo_said_def is_progress_block_def meta_text_def no_base_def)

section \<open>The anchor is never found again\<close>

lemma progress_hides_anchor:
  assumes "meta_text p = Some s" and "starts_with s ''[Session Progress]''"
  shows "extractPreviousSummary (p # ms) = (None, p # ms)"
proof -
  have "\<not> starts_with s PREV_SUMMARY_MARKER"
    using assms(2) by (auto simp: PREV_SUMMARY_MARKER_def starts_with_iff)
  then show ?thesis using assms(1) by (simp add: extractPreviousSummary_def)
qed

lemma meta_user_text: "meta_text (meta_user s) = Some s"
  by (simp add: meta_user_def meta_text_def no_base_def)

text \<open>
  After a pass that changed the conversation the summary it may have made is out of sight for good: the progress block
  is put before it, and what later turns append does not change the first message, which is the only one where a previous
  summary is looked for. So the next pass asks the model for a new summary and not for an update of this one.
\<close>

theorem anchor_out_of_sight:
  assumes "pz_changed (compaction_pass env failures estimate messages)"
  shows "extractPreviousSummary (pz_messages (compaction_pass env failures estimate messages) @ later)
    = (None, pz_messages (compaction_pass env failures estimate messages) @ later)"
proof -
  obtain mech truncated snipped where m: "mechanical env messages = (mech, truncated, snipped)" by (cases "mechanical env messages")
  let ?tried = "summarize_step env failures estimate mech"
  obtain remaining dropped where d: "drop_rounds 3 (pe_budget env) (after_summary ?tried mech) = (remaining, dropped)"
    by fastforce
  have "pz_messages (compaction_pass env failures estimate messages) = with_progress env remaining"
    using assms by (auto simp: compaction_pass_def m d Let_def split: if_splits)
  then show ?thesis
    by (simp add: with_progress_def progress_hides_anchor [OF meta_user_text format_starts])
qed

text \<open>
  A summary just made is the first thing the fallback drops: when the summarized conversation is still over the budget,
  dropping the oldest turn removes the summary and nothing else.
\<close>

theorem drop_removes_summary:
  assumes "ac_compacted (autocompact model budget extra messages)"
  shows "\<exists>summary recent. ac_messages (autocompact model budget extra messages) = summary_message summary # recent \<and>
    dropOldestTurns (ac_messages (autocompact model budget extra messages)) 1 = (meta_user DROP_MARKER # recent, 1)"
proof -
  obtain prev rest where e: "extractPreviousSummary messages = (prev, rest)" by fastforce
  let ?turns = "identifyTurns rest"
  let ?start = "pickTailStart ?turns budget"
  let ?recent = "concat (drop ?start ?turns)"
  have nt: "length ?turns > 1" "?start \<noteq> 0"
    using assms by (auto simp: autocompact_def e not_compacted_def Let_def split: if_splits)
  obtain s where r: "ac_messages (autocompact model budget extra messages) = summary_message s # ?recent"
    using assms nt by (auto simp: autocompact_def e not_compacted_def Let_def split: if_splits option.splits)
  have less: "?start < length ?turns" using pickTailStart_less [of ?turns budget] nt(1) by linarith
  have heads: "list_all (\<lambda>t. turn_ok t \<and> is_user (hd t)) (drop ?start ?turns)"
    using later_turns nt(2) by blast
  have "identifyTurns ([summary_message s] @ ?recent) = identifyTurns [summary_message s] @ drop ?start ?turns"
    by (rule turns_user_headed [OF heads])
  then have t: "identifyTurns (summary_message s # ?recent) = [summary_message s] # drop ?start ?turns"
    by (simp add: identifyTurns_def [of "[summary_message s]"])
  have "meta_text (summary_message s) \<noteq> Some DROP_MARKER"
    by (simp add: summary_message_def meta_user_text PREV_SUMMARY_MARKER_def DROP_MARKER_def)
  then have "dropOldestTurns (summary_message s # ?recent) 1 = (meta_user DROP_MARKER # ?recent, 1)"
    using less by (simp add: dropOldestTurns_def t Let_def)
  then show ?thesis using r by auto
qed

text \<open>
  A tool result that was cut is cut again by every later pass: the text with its mark is longer than the limit, so the
  mark is replaced by one that gives the size of the cut text for the size of the original.
\<close>

theorem recut_forgets_size:
  assumes "limit < length s"
  shows "cut_content limit (fst (cut_content limit (RCStr s)))
    = (RCStr (take limit s @ cut_mark ''original'' (limit + length (cut_mark ''original'' (length s)))), True)"
  using assms by (simp add: cut_content_def) (simp add: cut_mark_def)

theorem recut_forgets_size_witness:
  "cut_content 2 (fst (cut_content 2 (RCStr ''abc''))) = (RCStr (''ab'' @ cut_mark ''original'' (2 + length (cut_mark ''original'' 3))), True)"
  using recut_forgets_size [of 2 "''abc''"] by (simp add: numeral_3_eq_3 numeral_2_eq_2)

section \<open>Witnesses\<close>

lemma demo_compacted: "ac_compacted (autocompact demo_model 0 [] [demo_said ''a'', demo_said ''b''])"
  by code_simp

lemma demo_autocompact:
  "ac_messages (autocompact demo_model 0 [] [demo_said ''a'', demo_said ''b'']) = [summary_message ''S'', demo_said ''b'']"
  "ac_tailStart (autocompact demo_model 0 [] [demo_said ''a'', demo_said ''b'']) = 1"
  by code_simp+

theorem summary_keeps_tail_witness:
  "drop (ac_tailStart (autocompact demo_model 0 [] [demo_said ''a'', demo_said ''b''])) [demo_said ''a'', demo_said ''b'']
     = [demo_said ''b'']"
  using summary_keeps_tail [OF demo_compacted] unfolding demo_autocompact by auto

theorem drop_removes_summary_witness:
  "dropOldestTurns [summary_message ''S'', demo_said ''b''] 1 = ([meta_user DROP_MARKER, demo_said ''b''], 1)"
  using drop_removes_summary [OF demo_compacted] unfolding demo_autocompact by auto

definition tight_pass :: pass_env where
  "tight_pass = demo_pass\<lparr>pe_budget := \<lparr>totalBudget = 0, reserveForOutput = 0, availableForInput = 0\<rparr>\<rparr>"

lemma snip_none:
  assumes "filter is_tool_result ms = []"
  shows "snipOldToolResults ms n = (ms, 0)"
proof -
  let ?ts = "identifyTurns ms" and ?k = "pickTailStart (identifyTurns ms) n"
  have parts: "concat (take ?k ?ts) @ concat (drop ?k ?ts) = ms" by (metis append_take_drop_id concat_append concat_turns)
  have none: "filter is_tool_result (concat (take ?k ?ts)) = []"
    using assms parts by (metis filter_append append_is_Nil_conv)
  have "filter is_tool_result xs = [] \<Longrightarrow> map snip_message xs = xs" for xs
  proof (induction xs)
    case (Cons x xs)
    then show ?case by (cases x) (auto split: if_splits)
  qed simp
  from this [OF none] show ?thesis using none parts by (simp add: snipOldToolResults_def Let_def)
qed

lemma tight_steps:
  "truncateLargeToolResults [demo_said ''a'', demo_said ''b''] 8000 = ([demo_said ''a'', demo_said ''b''], 0)"
  "snipOldToolResults [demo_said ''a'', demo_said ''b''] (tail_budget tight_pass) = ([demo_said ''a'', demo_said ''b''], 0)"
  "summarize_step tight_pass 3 5 [demo_said ''a'', demo_said ''b''] = None"
  by (simp_all add: truncateLargeToolResults_def demo_said_def snip_none summarize_step_def shouldAttemptLlmSummary_def
      COMPACT_FAILURE_LIMIT_def Let_def)

lemma tight_drop: "snd (drop_rounds 3 (pe_budget tight_pass) [demo_said ''a'', demo_said ''b'']) = 1"
proof -
  let ?b = "\<lparr>totalBudget = 0, reserveForOutput = 0, availableForInput = 0\<rparr>"
  have b: "pe_budget tight_pass = ?b" by (simp add: tight_pass_def)
  have "drop_rounds 3 ?b [demo_said ''a'', demo_said ''b''] = ([meta_user DROP_MARKER, demo_said ''b''], 1)" by code_simp
  then show ?thesis by (simp add: b)
qed

lemma tight_changed: "pz_changed (compaction_pass tight_pass 3 5 [demo_said ''a'', demo_said ''b''])"
proof -
  have "pe_force tight_pass" by (simp add: tight_pass_def demo_pass_def)
  then show ?thesis
    using tight_steps tight_drop by (simp add: compaction_pass_def mechanical_def after_summary_def did_compact_def Let_def case_prod_beta)
qed

theorem anchor_out_of_sight_witness:
  "fst (extractPreviousSummary (pz_messages (compaction_pass tight_pass 3 5 [demo_said ''a'', demo_said ''b'']) @ [demo_said ''c'']))
     = None"
  using anchor_out_of_sight [OF tight_changed, of "[demo_said ''c'']"] by simp

end
