(* ===== verification/Fresh_Context.thy ===== *)
theory Fresh_Context
  imports Message_Compaction
begin

text \<open>
  The fresh context of a goal's iterations (\<open>apps/api/src/services/goal-mode/fresh-context-service.ts\<close>): the checkpoint of the leader
  is cut to its last turns behind an anchor that points at the plan.
\<close>

section \<open>The service\<close>

definition GOAL_FRESH_CONTEXT_ANCHOR :: string where
  "GOAL_FRESH_CONTEXT_ANCHOR = ''[Previous conversation summary]'' @ [CHR 0x0A]
    @ ''Earlier turns in this goal have been intentionally elided to give the next iteration a fresh context window. The durable ''
    @ ''record of what's been done and what's left lives in `plan.md`, which is embedded in the continuation message below. Use ''
    @ ''plan.md as the source of truth; do not assume hidden state from prior turns.''"

record trim_options =
  tailTurns :: "int option"
  envOverride :: "string option"

definition DEFAULT_TAIL_TURNS :: int where "DEFAULT_TAIL_TURNS = 3"

text \<open>The module's own copy of the loop: \<open>turns\<close> are those that are closed, \<open>current\<close> the open one.\<close>

definition turn_step :: "leader_message \<Rightarrow> leader_message list list \<times> leader_message list \<Rightarrow> leader_message list list \<times> leader_message list" where
  "turn_step msg st = (case st of (turns, current) \<Rightarrow>
     if is_user msg \<and> current \<noteq> [] then (turns @ [current], [msg]) else (turns, current @ [msg]))"

definition identify_turns :: "leader_message list \<Rightarrow> leader_message list list" where
  "identify_turns messages =
    (case fold turn_step messages ([], []) of (turns, current) \<Rightarrow> if current \<noteq> [] then turns @ [current] else turns)"

definition isFreshContextEnabled :: "string option \<Rightarrow> string option \<Rightarrow> bool" where
  "isFreshContextEnabled process_env override =
    (case (case override of None \<Rightarrow> process_env | Some s \<Rightarrow> Some s) of
       None \<Rightarrow> True
     | Some raw \<Rightarrow> to_lower (js_trim raw) \<notin> {''0'', ''false'', ''off'', ''no''})"

text \<open>\<open>xs.slice(-n)\<close> for \<open>n \<ge> 0\<close>: minus zero is zero, so nothing is cut off.\<close>

definition slice_neg :: "nat \<Rightarrow> 'a list \<Rightarrow> 'a list" where
  "slice_neg n xs = (if n = 0 then xs else lastn n xs)"

definition is_summary :: "leader_message \<Rightarrow> bool" where
  "is_summary m = (case meta_text m of Some s \<Rightarrow> starts_with s ''[Previous conversation summary]'' | None \<Rightarrow> False)"

definition strip_summary :: "leader_message list \<Rightarrow> leader_message list" where
  "strip_summary tail = (case tail of [] \<Rightarrow> [] | m # ms \<Rightarrow> if is_summary m then ms else tail)"

definition fresh_anchor :: leader_message where
  "fresh_anchor = meta_user GOAL_FRESH_CONTEXT_ANCHOR"

definition trimForFreshContext ::
    "string option \<Rightarrow> leader_message list \<Rightarrow> trim_options \<Rightarrow> leader_message list \<times> nat \<times> bool" where
  "trimForFreshContext process_env messages options =
    (if \<not> isFreshContextEnabled process_env (envOverride options) then (messages, 0, False)
     else let k = (case tailTurns options of None \<Rightarrow> DEFAULT_TAIL_TURNS | Some n \<Rightarrow> n) in
       if k < 0 then (messages, 0, False)
       else let turns = identify_turns messages in
         if int (length turns) \<le> k then (messages, 0, False)
         else (fresh_anchor # strip_summary (concat (slice_neg (nat k) turns)), length turns - nat k, True))"

section \<open>Lemmas\<close>

lemma fold_turns: "fold turn_step ms (ts, cur) =
    (let all = ts @ turns_go cur ms in if cur = [] \<and> ms = [] then (ts, []) else (butlast all, last all))"
proof (induction ms arbitrary: ts cur)
  case Nil
  then show ?case by simp
next
  case (Cons m ms)
  show ?case
  proof (cases "is_user m \<and> cur \<noteq> []")
    case True
    then show ?thesis using Cons [of "ts @ [cur]" "[m]"] by (simp add: turn_step_def Let_def)
  next
    case False
    then show ?thesis using Cons [of ts "cur @ [m]"] by (auto simp: turn_step_def Let_def)
  qed
qed

lemma turns_go_nonempty: "cur \<noteq> [] \<or> ms \<noteq> [] \<Longrightarrow> turns_go cur ms \<noteq> [] \<and> last (turns_go cur ms) \<noteq> []"
proof (induction cur ms rule: turns_go.induct)
  case (2 current m ms)
  then show ?case by (cases "is_user m \<and> current \<noteq> []") auto
qed simp

lemma identify_turns_eq: "identify_turns ms = identifyTurns ms"
  using turns_go_nonempty [of "[]" ms] by (auto simp: identify_turns_def fold_turns Let_def identifyTurns_def)

lemma trim_on:
  assumes "isFreshContextEnabled process_env (envOverride options)" and "tailTurns options = Some (int k)" and "0 < k"
  shows "trimForFreshContext process_env ms options =
    (if length (identifyTurns ms) \<le> k then (ms, 0, False)
     else (fresh_anchor # strip_summary (concat (lastn k (identifyTurns ms))), length (identifyTurns ms) - k, True))"
  using assms by (simp add: trimForFreshContext_def identify_turns_eq slice_neg_def Let_def)

lemma last_turns_headed:
  assumes "k < length (identifyTurns ms)"
  shows "list_all (\<lambda>t. turn_ok t \<and> is_user (hd t)) (lastn k (identifyTurns ms))"
  unfolding lastn_def by (rule later_turns) (use assms in simp)

lemma turns_behind_anchor:
  assumes "list_all (\<lambda>t. turn_ok t \<and> is_user (hd t)) ts" and "list_all (\<lambda>m. \<not> is_user m) b" and "is_user a"
  shows "identifyTurns (a # b @ concat ts) = (a # b) # ts"
proof -
  have "identifyTurns ([] @ a # b) = [] @ [a # b]" using turns_cut [OF assms(3,2), of "[]"] by simp
  then show ?thesis using turns_user_headed [OF assms(1), of "a # b"] by simp
qed

lemma anchor_is_user: "is_user fresh_anchor"
  by (simp add: fresh_anchor_def meta_user_def)

section \<open>Properties\<close>

text \<open>
  The module's copy of the turn finder agrees with the one of the compaction on every conversation.
\<close>

theorem turn_finders_agree: "identify_turns ms = identifyTurns ms"
  by (rule identify_turns_eq)

text \<open>
  A trim keeps the last turns whole: the conversation splits into what is dropped and a tail of exactly \<open>k\<close> turns, and the
  result is the anchor followed by the tail, without the summary an earlier trim or compaction may have left at its head.
\<close>

theorem fresh_context_keeps_the_tail:
  assumes "isFreshContextEnabled process_env (envOverride options)" and "tailTurns options = Some (int k)" and "0 < k"
    and "k < length (identifyTurns ms)"
  shows "\<exists>dropped kept. ms = dropped @ kept \<and> length (identifyTurns kept) = k
    \<and> trimForFreshContext process_env ms options
      = (fresh_anchor # strip_summary kept, length (identifyTurns ms) - k, True)"
proof -
  let ?ts = "lastn k (identifyTurns ms)"
  have kept: "identifyTurns (concat ?ts) = ?ts"
    using turns_user_headed [OF last_turns_headed [OF assms(4)], of "[]"] by simp
  have "concat (identifyTurns ms) = concat (take (length (identifyTurns ms) - k) (identifyTurns ms)) @ concat ?ts"
    unfolding lastn_def by (metis append_take_drop_id concat_append)
  then have "ms = concat (take (length (identifyTurns ms) - k) (identifyTurns ms)) @ concat ?ts" by simp
  moreover have "length (identifyTurns (concat ?ts)) = k" using kept assms(4) by simp
  moreover have "trimForFreshContext process_env ms options
      = (fresh_anchor # strip_summary (concat ?ts), length (identifyTurns ms) - k, True)"
    using trim_on [OF assms(1-3), of ms] assms(4) by simp
  ultimately show ?thesis by blast
qed

text \<open>
  Trimming is idempotent: a second trim of the trimmed conversation changes nothing more, so the iterations of a goal do not
  stack anchors.
\<close>

theorem trim_is_idempotent:
  assumes "isFreshContextEnabled process_env (envOverride options)" and "tailTurns options = Some (int k)" and "0 < k"
  shows "fst (trimForFreshContext process_env (fst (trimForFreshContext process_env ms options)) options)
    = fst (trimForFreshContext process_env ms options)"
proof (cases "length (identifyTurns ms) \<le> k")
  case True
  then show ?thesis using trim_on [OF assms] by simp
next
  case False
  let ?ts = "lastn k (identifyTurns ms)"
  have ts: "list_all (\<lambda>t. turn_ok t \<and> is_user (hd t)) ?ts" "length ?ts = k"
    using last_turns_headed [of k ms] False by simp_all
  then obtain t us where u: "?ts = t # us" using assms(3) by (cases ?ts) auto
  then obtain m b where t: "t = m # b" "list_all (\<lambda>m. \<not> is_user m) b" "list_all (\<lambda>t. turn_ok t \<and> is_user (hd t)) us"
    using ts(1) by (cases t) (auto simp: turn_ok_def)
  have first: "fst (trimForFreshContext process_env ms options) = fresh_anchor # strip_summary (concat ?ts)"
    using trim_on [OF assms, of ms] False by simp
  show ?thesis
  proof (cases "is_summary m")
    case True
    then have r: "fresh_anchor # strip_summary (concat ?ts) = fresh_anchor # b @ concat us"
      by (simp add: u t strip_summary_def)
    have "length (identifyTurns (fresh_anchor # b @ concat us)) = k"
      using turns_behind_anchor [OF t(3,2) anchor_is_user] ts(2) u by simp
    then show ?thesis unfolding first r using trim_on [OF assms, of "fresh_anchor # b @ concat us"] by simp
  next
    case False
    then have s: "strip_summary (concat ?ts) = concat ?ts" by (simp add: u t strip_summary_def)
    have i: "identifyTurns (fresh_anchor # concat ?ts) = [fresh_anchor] # ?ts"
      using turns_behind_anchor [OF ts(1), of "[]" fresh_anchor] anchor_is_user by simp
    have "lastn k ([fresh_anchor] # ?ts) = ?ts" using ts(2) by (simp add: lastn_def)
    then show ?thesis unfolding first s using trim_on [OF assms, of "fresh_anchor # concat ?ts"] i ts(2) s by simp
  qed
qed

definition chat :: "string \<Rightarrow> leader_message list" where
  "chat s = [MUser no_base (UStr s), MAssistant no_base [CText s] None None]"

definition long_chat :: "leader_message list" where
  "long_chat = chat ''a'' @ chat ''b'' @ chat ''c''"

definition keep_two :: trim_options where
  "keep_two = \<lparr>tailTurns = Some 2, envOverride = None\<rparr>"

lemma keep_two_on: "isFreshContextEnabled None (envOverride keep_two)" "tailTurns keep_two = Some (int 2)"
  by (simp_all add: keep_two_def isFreshContextEnabled_def)

lemma long_chat_turns: "identifyTurns long_chat = [chat ''a'', chat ''b'', chat ''c'']"
  by (simp add: long_chat_def chat_def identifyTurns_def)

theorem fresh_context_keeps_the_tail_witness:
  "\<exists>dropped kept. long_chat = dropped @ kept \<and> length (identifyTurns kept) = 2
    \<and> trimForFreshContext None long_chat keep_two = (fresh_anchor # strip_summary kept, 1, True)"
  using fresh_context_keeps_the_tail [OF keep_two_on, of long_chat] by (simp add: long_chat_turns)

theorem trim_is_idempotent_witness:
  "fst (trimForFreshContext None (fst (trimForFreshContext None long_chat keep_two)) keep_two)
    = fst (trimForFreshContext None long_chat keep_two)"
  using trim_is_idempotent [OF keep_two_on, of long_chat] by simp

text \<open>With no turns to keep, nothing is cut: the anchor says that turns were elided and all of them follow it.\<close>

theorem zero_tail_keeps_everything:
  "trimForFreshContext None long_chat \<lparr>tailTurns = Some 0, envOverride = None\<rparr> = (fresh_anchor # long_chat, 3, True)"
  by (simp add: trimForFreshContext_def isFreshContextEnabled_def identify_turns_eq long_chat_turns slice_neg_def)
    (simp add: long_chat_def chat_def strip_summary_def is_summary_def meta_text_def no_base_def)

end
