(* ===== verification/Task_Worker.thy ===== *)
theory Task_Worker
  imports Js_Number
begin

text \<open>
  The pool that runs the leader's turns (\<open>apps/api/src/services/task-worker.ts\<close>). JavaScript's sets keep the order of insertion, so they are lists
  here. \<open>controllers\<close> are the keys of the registry of abort controllers, \<open>immediates\<close> the callbacks that \<open>setImmediate\<close> has
  scheduled and \<open>started\<close> the jobs the executor has been called with, in order.
\<close>

section \<open>The pool\<close>

record task_job =
  jobTask :: string
  jobRun :: string
  jobRequest :: string
  jobWorkspace :: string
  jobPrompt :: string
  jobBinding :: "string option"

record task_worker =
  queue :: "task_job list"
  queuedIds :: "string list"
  active :: "string list"
  concurrency :: nat
  controllers :: "string list"
  immediates :: "task_job list"
  started :: "task_job list"

definition defaultConcurrency :: "string option \<Rightarrow> nat" where
  "defaultConcurrency raw =
    (if \<not> truthy_str raw then 4
     else (case js_parse_int (the raw) of
             Some n \<Rightarrow> if n > 0 then nat n else 4
           | None \<Rightarrow> 4))"

definition add_key :: "string \<Rightarrow> string list \<Rightarrow> string list" where
  "add_key x xs = (if x \<in> set xs then xs else xs @ [x])"

definition new_worker :: "nat \<Rightarrow> task_worker" where
  "new_worker n = \<lparr>queue = [], queuedIds = [], active = [], concurrency = n, controllers = [], immediates = [], started = []\<rparr>"

text \<open>\<open>runOne\<close> up to its first suspension: the controller is registered and the executor is called.\<close>

definition runOne :: "task_job \<Rightarrow> task_worker \<Rightarrow> task_worker" where
  "runOne job w = w\<lparr>controllers := add_key (jobTask job) (controllers w), started := started w @ [job]\<rparr>"

fun start_loop :: "task_job list \<Rightarrow> task_worker \<Rightarrow> task_worker" where
  "start_loop [] w = w\<lparr>queue := []\<rparr>"
| "start_loop (job # jobs) w =
     (if length (active w) < concurrency w
      then start_loop jobs (runOne job
             (w\<lparr>queuedIds := removeAll (jobTask job) (queuedIds w), active := add_key (jobTask job) (active w)\<rparr>))
      else w\<lparr>queue := job # jobs\<rparr>)"

definition tryStart :: "task_worker \<Rightarrow> task_worker" where
  "tryStart w = start_loop (queue w) w"

definition enqueue :: "task_job \<Rightarrow> task_worker \<Rightarrow> task_worker" where
  "enqueue job w =
    (if jobTask job \<in> set (queuedIds w) \<or> jobTask job \<in> set (active w) then w
     else tryStart (w\<lparr>queue := queue w @ [job], queuedIds := add_key (jobTask job) (queuedIds w)\<rparr>))"

text \<open>The \<open>finally\<close> block of \<open>runOne\<close>, when the executor's promise has settled.\<close>

definition run_settled :: "string \<Rightarrow> task_worker \<Rightarrow> task_worker" where
  "run_settled i w = tryStart (w\<lparr>controllers := removeAll i (controllers w), active := removeAll i (active w)\<rparr>)"

definition requeueAfterCurrent :: "task_job \<Rightarrow> task_worker \<Rightarrow> task_worker" where
  "requeueAfterCurrent job w = w\<lparr>immediates := immediates w @ [job]\<rparr>"

definition fire_immediate :: "task_worker \<Rightarrow> task_worker" where
  "fire_immediate w = (case immediates w of [] \<Rightarrow> w | job # rest \<Rightarrow> enqueue job (w\<lparr>immediates := rest\<rparr>))"

definition isQueued :: "string \<Rightarrow> task_worker \<Rightarrow> bool" where
  "isQueued i w = (i \<in> set (queuedIds w))"

definition isActive :: "string \<Rightarrow> task_worker \<Rightarrow> bool" where
  "isActive i w = (i \<in> set (active w))"

definition has_controller :: "string \<Rightarrow> task_worker \<Rightarrow> bool" where
  "has_controller i w = (i \<in> set (controllers w))"

definition cancelQueued :: "string \<Rightarrow> task_worker \<Rightarrow> bool \<times> task_worker" where
  "cancelQueued i w =
    (if i \<notin> set (queuedIds w) then (False, w)
     else (True, w\<lparr>queue := filter (\<lambda>j. jobTask j \<noteq> i) (queue w), queuedIds := removeAll i (queuedIds w)\<rparr>))"

record pool_snapshot =
  snap_concurrency :: nat
  snap_activeCount :: nat
  snap_queuedCount :: nat
  snap_activeIds :: "string list"
  snap_queuedIds :: "string list"

definition worker_snapshot :: "task_worker \<Rightarrow> pool_snapshot" where
  "worker_snapshot w = \<lparr>snap_concurrency = concurrency w, snap_activeCount = length (active w),
     snap_queuedCount = length (queuedIds w), snap_activeIds = active w, snap_queuedIds = queuedIds w\<rparr>"

section \<open>What happens to the pool\<close>

text \<open>
  A run settles only while it is active. A requeue comes from the running job itself, which continues its goal, or from a
  teammate that finishes and wakes its leader, which may run, wait in the queue or be unknown to the pool. The step relation is
  the union of the pool's operations.
\<close>

datatype worker_event =
    Enqueued task_job
  | Requeued task_job
  | Fired
  | Settled string
  | CancelAsked string

fun may_happen :: "worker_event \<Rightarrow> task_worker \<Rightarrow> bool" where
  "may_happen (Enqueued j) w = True"
| "may_happen (Requeued j) w = True"
| "may_happen Fired w = (immediates w \<noteq> [])"
| "may_happen (Settled i) w = isActive i w"
| "may_happen (CancelAsked i) w = True"

fun handle :: "worker_event \<Rightarrow> task_worker \<Rightarrow> task_worker" where
  "handle (Enqueued j) w = enqueue j w"
| "handle (Requeued j) w = requeueAfterCurrent j w"
| "handle Fired w = fire_immediate w"
| "handle (Settled i) w = run_settled i w"
| "handle (CancelAsked i) w = snd (cancelQueued i w)"

inductive worker_step :: "task_worker \<Rightarrow> task_worker \<Rightarrow> bool" where
  worker_step: "may_happen e w \<Longrightarrow> worker_step w (handle e w)"

inductive_cases worker_stepE: "worker_step w w'"

fun handle_all :: "worker_event list \<Rightarrow> task_worker \<Rightarrow> task_worker option" where
  "handle_all [] w = Some w"
| "handle_all (e # es) w = (if may_happen e w then handle_all es (handle e w) else None)"

section \<open>The invariant\<close>

definition worker_ok :: "task_worker \<Rightarrow> bool" where
  "worker_ok w = (queuedIds w = map jobTask (queue w) \<and> distinct (queuedIds w) \<and> distinct (active w)
     \<and> (\<forall>i\<in>set (queuedIds w). i \<notin> set (active w)) \<and> controllers w = active w
     \<and> length (active w) \<le> concurrency w \<and> 0 < concurrency w
     \<and> (queue w \<noteq> [] \<longrightarrow> length (active w) = concurrency w))"

definition worker_init :: "task_worker \<Rightarrow> bool" where
  "worker_init w = (\<exists>n. 0 < n \<and> w = new_worker n)"

text \<open>What holds between a change of the pool's sets and the call of \<open>tryStart\<close>: all but the last clause.\<close>

definition worker_loose :: "task_worker \<Rightarrow> task_job list \<Rightarrow> bool" where
  "worker_loose w js = (queuedIds w = map jobTask js \<and> distinct (queuedIds w) \<and> distinct (active w)
     \<and> (\<forall>i\<in>set (queuedIds w). i \<notin> set (active w)) \<and> controllers w = active w
     \<and> length (active w) \<le> concurrency w \<and> 0 < concurrency w)"

lemma removeAll_head: "distinct (x # xs) \<Longrightarrow> removeAll x (x # xs) = xs"
  by simp

lemma start_loop_ok: "worker_loose w js \<Longrightarrow> worker_ok (start_loop js w)"
proof (induction js w rule: start_loop.induct)
  case (1 w)
  then show ?case by (simp add: worker_loose_def worker_ok_def)
next
  case (2 job jobs w)
  show ?case
  proof (cases "length (active w) < concurrency w")
    case True
    have "worker_loose (runOne job (w\<lparr>queuedIds := removeAll (jobTask job) (queuedIds w),
        active := add_key (jobTask job) (active w)\<rparr>)) jobs"
      using 2(2) True by (auto simp: worker_loose_def runOne_def add_key_def)
    then show ?thesis using 2(1) True by simp
  next
    case False
    then show ?thesis using 2(2) by (auto simp: worker_loose_def worker_ok_def)
  qed
qed

lemma tryStart_ok: "worker_loose w (queue w) \<Longrightarrow> worker_ok (tryStart w)"
  by (simp add: tryStart_def start_loop_ok)

lemma worker_ok_loose: "worker_ok w \<Longrightarrow> worker_loose w (queue w)"
  by (auto simp: worker_ok_def worker_loose_def)

lemma loose_push:
  "worker_loose w js \<Longrightarrow> jobTask j \<notin> set (queuedIds w) \<Longrightarrow> jobTask j \<notin> set (active w)
    \<Longrightarrow> worker_loose (w\<lparr>queue := q, queuedIds := add_key (jobTask j) (queuedIds w)\<rparr>) (js @ [j])"
  by (auto simp: worker_loose_def add_key_def)

lemma enqueue_ok: "worker_ok w \<Longrightarrow> worker_ok (enqueue j w)"
  by (simp add: enqueue_def tryStart_ok loose_push worker_ok_loose)

lemma loose_release:
  "worker_loose w js \<Longrightarrow> worker_loose (w\<lparr>controllers := removeAll i (controllers w), active := removeAll i (active w)\<rparr>) js"
  by (auto simp: worker_loose_def distinct_removeAll intro: le_trans [OF length_removeAll_less_eq])

lemma run_settled_ok: "worker_ok w \<Longrightarrow> worker_ok (run_settled i w)"
  unfolding run_settled_def by (rule tryStart_ok) (simp add: loose_release worker_ok_loose)

lemma immediates_ok [simp]: "worker_ok (w\<lparr>immediates := js\<rparr>) = worker_ok w"
  by (simp add: worker_ok_def)

lemma fire_immediate_ok: "worker_ok w \<Longrightarrow> worker_ok (fire_immediate w)"
  by (simp add: fire_immediate_def enqueue_ok split: list.splits)

lemma ids_without: "removeAll i (map jobTask js) = map jobTask (filter (\<lambda>j. jobTask j \<noteq> i) js)"
  by (induction js) auto

lemma cancelQueued_ok: "worker_ok w \<Longrightarrow> worker_ok (snd (cancelQueued i w))"
  by (auto simp: cancelQueued_def worker_ok_def ids_without [symmetric] distinct_removeAll)

lemma handle_ok: "worker_ok w \<Longrightarrow> worker_ok (handle e w)"
  by (cases e) (simp_all add: enqueue_ok fire_immediate_ok run_settled_ok cancelQueued_ok requeueAfterCurrent_def)

interpretation pool: invariant_system worker_init worker_step worker_ok
proof
  show "worker_init w \<Longrightarrow> worker_ok w" for w
    by (auto simp: worker_init_def worker_ok_def new_worker_def)
  show "worker_ok w \<Longrightarrow> worker_step w w' \<Longrightarrow> worker_ok w'" for w w'
    by (auto elim!: worker_stepE intro: handle_ok)
qed

lemmas reachable_pool = pool.reach_inv

section \<open>A queued job starts\<close>

fun is_settled :: "worker_event \<Rightarrow> bool" where
  "is_settled (Settled i) = True"
| "is_settled e = False"

lemma full_pool_waits: "worker_ok w \<Longrightarrow> length (active w) = concurrency w \<Longrightarrow> start_loop js w = w\<lparr>queue := js\<rparr>"
  by (cases js) simp_all

lemma enqueue_behind:
  assumes "worker_ok w" and "queue w \<noteq> []"
  shows "queue (enqueue k w) = queue w \<or> queue (enqueue k w) = queue w @ [k]"
    and "started (enqueue k w) = started w"
proof -
  have "length (active w) = concurrency w" using assms by (simp add: worker_ok_def)
  then have "tryStart (w\<lparr>queue := queue w @ [k], queuedIds := q\<rparr>) = w\<lparr>queue := queue w @ [k], queuedIds := q\<rparr>" for q
    by (cases "queue w") (simp_all add: tryStart_def)
  then show "queue (enqueue k w) = queue w \<or> queue (enqueue k w) = queue w @ [k]"
    and "started (enqueue k w) = started w" by (simp_all add: enqueue_def)
qed

lemma started_loop: "set (started w) \<subseteq> set (started (start_loop js w))"
proof (induction js w rule: start_loop.induct)
  case (2 job jobs w)
  then show ?case by (auto simp: runOne_def)
qed simp

lemma started_tryStart: "set (started w) \<subseteq> set (started (tryStart w))"
  by (simp add: tryStart_def started_loop)

lemma started_enqueue: "set (started w) \<subseteq> set (started (enqueue j w))"
  using started_tryStart [of "w\<lparr>queue := queue w @ [j], queuedIds := add_key (jobTask j) (queuedIds w)\<rparr>"]
  by (simp add: enqueue_def)

lemma started_settled: "set (started w) \<subseteq> set (started (run_settled i w))"
  using started_tryStart [of "w\<lparr>controllers := removeAll i (controllers w), active := removeAll i (active w)\<rparr>"]
  by (simp add: run_settled_def)

lemma started_fire: "set (started w) \<subseteq> set (started (fire_immediate w))"
proof (cases "immediates w")
  case (Cons j rest)
  then show ?thesis using started_enqueue [of "w\<lparr>immediates := rest\<rparr>" j] by (simp add: fire_immediate_def)
qed (simp add: fire_immediate_def)

lemma started_handle: "set (started w) \<subseteq> set (started (handle e w))"
proof (cases e)
  case (Enqueued j)
  then show ?thesis using started_enqueue by simp
next
  case (Settled i)
  then show ?thesis using started_settled by simp
next
  case Fired
  then show ?thesis using started_fire by simp
qed (simp_all add: requeueAfterCurrent_def cancelQueued_def)

lemma started_handle_all: "handle_all es w = Some w' \<Longrightarrow> set (started w) \<subseteq> set (started w')"
proof (induction es arbitrary: w)
  case (Cons e es)
  then show ?case using started_handle [of w e] by (fastforce split: if_splits)
qed simp

lemma loop_immediates: "immediates (start_loop js w) = immediates w"
  by (induction js w rule: start_loop.induct) (simp_all add: runOne_def)

lemma release_active:
  "distinct xs \<Longrightarrow> i \<in> set xs \<Longrightarrow> Suc (length (removeAll i xs)) = length xs"
  by (induction xs) auto

lemma start_one:
  assumes "Suc (length (active w)) = concurrency w" and "jobTask x \<notin> set (active w)"
  shows "queue (start_loop (x # xs) w) = xs" and "x \<in> set (started (start_loop (x # xs) w))"
proof -
  let ?u = "runOne x (w\<lparr>queuedIds := removeAll (jobTask x) (queuedIds w), active := add_key (jobTask x) (active w)\<rparr>)"
  have full: "length (active ?u) = concurrency ?u" using assms by (simp add: runOne_def add_key_def)
  have "start_loop (x # xs) w = start_loop xs ?u" using assms by simp
  also have "\<dots> = ?u\<lparr>queue := xs\<rparr>" using full by (cases xs) simp_all
  finally show "queue (start_loop (x # xs) w) = xs" and "x \<in> set (started (start_loop (x # xs) w))"
    by (simp_all add: runOne_def)
qed

lemma settled_starts_head:
  assumes "worker_ok w" and "queue w = x # xs" and "i \<in> set (active w)"
  shows "queue (run_settled i w) = xs" and "x \<in> set (started (run_settled i w))"
proof -
  let ?u = "w\<lparr>controllers := removeAll i (controllers w), active := removeAll i (active w)\<rparr>"
  have "Suc (length (active ?u)) = concurrency ?u" and "jobTask x \<notin> set (active ?u)"
    using assms release_active [of "active w" i] by (auto simp: worker_ok_def)
  note one = start_one [OF this]
  have "run_settled i w = start_loop (x # xs) ?u" using assms(2) by (simp add: run_settled_def tryStart_def)
  then show "queue (run_settled i w) = xs" and "x \<in> set (started (run_settled i w))"
    using one by simp_all
qed

definition waits_behind :: "task_job \<Rightarrow> nat \<Rightarrow> task_worker \<Rightarrow> bool" where
  "waits_behind j n w = (\<exists>a b. queue w = a @ j # b \<and> length a \<le> n)"

lemma waits_append: "waits_behind j n w \<Longrightarrow> queue w' = queue w \<or> queue w' = queue w @ [k] \<Longrightarrow> waits_behind j n w'"
  by (fastforce simp: waits_behind_def)

lemma waits_nonempty: "waits_behind j n w \<Longrightarrow> queue w \<noteq> []"
  by (auto simp: waits_behind_def)

lemma waits_enqueue:
  assumes "worker_ok w" and "waits_behind j n w"
  shows "waits_behind j n (enqueue k w)"
  using enqueue_behind(1) [OF assms(1) waits_nonempty [OF assms(2)], of k] assms(2) by (blast intro: waits_append)

lemma waits_fire:
  assumes "worker_ok w" and "waits_behind j n w"
  shows "waits_behind j n (fire_immediate w)"
proof (cases "immediates w")
  case (Cons k rest)
  have "waits_behind j n (w\<lparr>immediates := rest\<rparr>)" using assms(2) by (simp add: waits_behind_def)
  then show ?thesis using assms(1) Cons by (simp add: fire_immediate_def waits_enqueue)
qed (use assms in \<open>simp add: fire_immediate_def\<close>)

lemma waits_cancel:
  assumes "waits_behind j n w" and "i \<noteq> jobTask j"
  shows "waits_behind j n (snd (cancelQueued i w))"
proof -
  obtain a b where q: "queue w = a @ j # b" "length a \<le> n" using assms(1) by (auto simp: waits_behind_def)
  let ?f = "filter (\<lambda>k. jobTask k \<noteq> i)"
  have "?f (queue w) = ?f a @ j # ?f b" "length (?f a) \<le> n"
    using q assms(2) le_trans [OF length_filter_le] by auto
  then show ?thesis using assms(1) unfolding waits_behind_def cancelQueued_def by auto
qed

lemma settled_advances:
  assumes "worker_ok w" and "waits_behind j n w" and "i \<in> set (active w)"
  shows "j \<in> set (started (run_settled i w)) \<or> (0 < n \<and> waits_behind j (n - 1) (run_settled i w))"
proof -
  obtain a b where q: "queue w = a @ j # b" "length a \<le> n" using assms(2) by (auto simp: waits_behind_def)
  show ?thesis
  proof (cases a)
    case Nil
    then show ?thesis using settled_starts_head(2) [OF assms(1) _ assms(3), of j b] q by simp
  next
    case (Cons x xs)
    then have "queue (run_settled i w) = xs @ j # b"
      using settled_starts_head(1) [OF assms(1) _ assms(3), of x "xs @ j # b"] q by simp
    moreover have "0 < n" "length xs \<le> n - 1" using q Cons by simp_all
    ultimately show ?thesis by (auto simp: waits_behind_def)
  qed
qed

lemma event_advances:
  assumes "worker_ok w" and "waits_behind j n w" and "may_happen e w" and "e \<noteq> CancelAsked (jobTask j)"
  shows "j \<in> set (started (handle e w)) \<or> (\<not> is_settled e \<and> waits_behind j n (handle e w))
    \<or> (0 < n \<and> waits_behind j (n - 1) (handle e w))"
proof (cases e)
  case (Settled i)
  then show ?thesis using settled_advances [OF assms(1,2), of i] assms(3) by (auto simp: isActive_def)
next
  case (CancelAsked i)
  then show ?thesis using waits_cancel [OF assms(2), of i] assms(4) by auto
next
  case (Requeued k)
  then show ?thesis using assms(2) by (simp add: requeueAfterCurrent_def waits_behind_def)
qed (use assms in \<open>simp_all add: waits_enqueue waits_fire\<close>)

lemma queued_job_advances:
  "worker_ok w \<Longrightarrow> waits_behind j n w \<Longrightarrow> handle_all es w = Some w' \<Longrightarrow> CancelAsked (jobTask j) \<notin> set es
    \<Longrightarrow> n < length (filter is_settled es) \<Longrightarrow> j \<in> set (started w')"
proof (induction es arbitrary: w n)
  case (Cons e es)
  have e: "may_happen e w" "handle_all es (handle e w) = Some w'" using Cons.prems(3) by (simp_all split: if_splits)
  note ok = handle_ok [OF Cons.prems(1), of e]
  consider "j \<in> set (started (handle e w))" | "\<not> is_settled e" "waits_behind j n (handle e w)"
    | "0 < n" "waits_behind j (n - 1) (handle e w)"
    using event_advances [OF Cons.prems(1,2) e(1)] Cons.prems(4) by auto
  then show ?case
  proof cases
    case 1
    then show ?thesis using started_handle_all [OF e(2)] by blast
  next
    case 2
    then show ?thesis using Cons.IH [OF ok 2(2) e(2)] Cons.prems(4,5) by simp
  next
    case 3
    then show ?thesis using Cons.IH [OF ok 3(2) e(2)] Cons.prems(4,5) by (auto split: if_splits)
  qed
qed simp

section \<open>Runs of the pool\<close>

lemma handle_all_reach:
  "handle_all es w = Some w' \<Longrightarrow> reach worker_init worker_step w \<Longrightarrow> reach worker_init worker_step w'"
proof (induction es arbitrary: w)
  case (Cons e es)
  then show ?case by (auto split: if_splits intro: reach_step worker_step)
qed simp

lemma new_worker_reach: "0 < n \<Longrightarrow> reach worker_init worker_step (new_worker n)"
  by (rule reach_init) (auto simp: worker_init_def)

lemma runs_reach: "0 < n \<Longrightarrow> handle_all es (new_worker n) = Some w \<Longrightarrow> reach worker_init worker_step w"
  by (blast intro: handle_all_reach new_worker_reach)

text \<open>A job of task \<open>i\<close> for the examples, and a pool of one slot after three of them were enqueued.\<close>

definition sample_job :: "string \<Rightarrow> task_job" where
  "sample_job i = \<lparr>jobTask = i, jobRun = ''run'', jobRequest = ''req'', jobWorkspace = ''w'', jobPrompt = [], jobBinding = None\<rparr>"

definition busy_pool :: task_worker where
  "busy_pool = enqueue (sample_job ''c'') (enqueue (sample_job ''b'') (enqueue (sample_job ''a'') (new_worker 1)))"

lemma busy_pool_eq:
  "busy_pool = \<lparr>queue = [sample_job ''b'', sample_job ''c''], queuedIds = [''b'', ''c''], active = [''a''], concurrency = 1,
     controllers = [''a''], immediates = [], started = [sample_job ''a'']\<rparr>"
  by (simp add: busy_pool_def enqueue_def tryStart_def new_worker_def runOne_def add_key_def sample_job_def)

lemma busy_pool_reach: "reach worker_init worker_step busy_pool"
  by (rule runs_reach [of 1 "[Enqueued (sample_job ''a''), Enqueued (sample_job ''b''), Enqueued (sample_job ''c'')]"])
    (simp_all add: busy_pool_def)

section \<open>No task is dropped\<close>

definition known :: "task_worker \<Rightarrow> string set" where
  "known w = set (map jobTask (queue w)) \<union> set (active w)"

lemma start_loop_known: "known (start_loop js w) = set (map jobTask js) \<union> set (active w)"
proof (induction js w rule: start_loop.induct)
  case (2 job jobs w)
  then show ?case by (auto simp: known_def runOne_def add_key_def)
qed (simp add: known_def)

lemma known_iff: "worker_ok w \<Longrightarrow> i \<in> known w \<longleftrightarrow> isQueued i w \<or> isActive i w"
  by (simp add: worker_ok_def known_def isQueued_def isActive_def)

lemma enqueued_known: "worker_ok w \<Longrightarrow> jobTask j \<in> known (enqueue j w)"
  by (auto simp: enqueue_def tryStart_def start_loop_known worker_ok_def) (auto simp: known_def)

section \<open>Properties\<close>

text \<open>
  In every reachable state of the pool a task has at most one run: the active ids are distinct and none of them is queued,
  a task is queued at most once, the queue and its id set agree, the registered abort controllers are exactly those of the
  active tasks, no more runs are active than the concurrency allows, and a job waits only while every slot is taken.
\<close>

theorem one_run_per_task:
  assumes "reach worker_init worker_step w"
  shows "distinct (active w) \<and> distinct (map jobTask (queue w)) \<and> queuedIds w = map jobTask (queue w)
    \<and> (\<forall>i. isQueued i w \<longrightarrow> \<not> isActive i w) \<and> controllers w = active w
    \<and> length (active w) \<le> concurrency w \<and> (queue w \<noteq> [] \<longrightarrow> length (active w) = concurrency w)"
  using reachable_pool [OF assms] by (auto simp: worker_ok_def isQueued_def isActive_def)

theorem one_run_per_task_witness:
  "distinct (active busy_pool) \<and> length (active busy_pool) = 1 \<and> length (queue busy_pool) = 2"
  using one_run_per_task [OF busy_pool_reach] by (simp add: busy_pool_eq)

text \<open>
  C19: No starvation: a job with \<open>n\<close> others before it in the queue has been handed to the executor once more than \<open>n\<close> runs have
  settled, whatever else is enqueued, requeued, fired or cancelled meanwhile, as long as nobody cancels its own task.
\<close>

theorem queued_job_starts:
  assumes "reach worker_init worker_step w" and "queue w = before @ j # after"
    and "handle_all es w = Some w'" and "CancelAsked (jobTask j) \<notin> set es"
    and "length before < length (filter is_settled es)"
  shows "j \<in> set (started w')"
proof -
  have "waits_behind j (length before) w" using assms(2) by (auto simp: waits_behind_def)
  then show ?thesis by (rule queued_job_advances [OF reachable_pool [OF assms(1)] _ assms(3,4,5)])
qed

theorem queued_job_starts_witness:
  "sample_job ''c'' \<in> set (started (the (handle_all
     [Settled ''a'', Enqueued (sample_job ''a''), CancelAsked ''d'', Settled ''b''] busy_pool)))"
proof -
  let ?es = "[Settled ''a'', Enqueued (sample_job ''a''), CancelAsked ''d'', Settled ''b'']"
  obtain w' where w': "handle_all ?es busy_pool = Some w'"
    by (simp add: busy_pool_eq isActive_def run_settled_def tryStart_def runOne_def add_key_def sample_job_def enqueue_def
        cancelQueued_def)
  have "queue busy_pool = [sample_job ''b''] @ sample_job ''c'' # []" by (simp add: busy_pool_eq)
  from queued_job_starts [OF busy_pool_reach this w'] show ?thesis unfolding w' by (simp add: sample_job_def)
qed

text \<open>
  The next turn of a running task is not lost when it is scheduled with \<open>requeueAfterCurrent\<close>: an \<open>enqueue\<close> from inside the
  run is dropped, but once the run has settled and the callback has fired the task is queued or active again.
\<close>

theorem requeued_turn_runs:
  assumes "reach worker_init worker_step w" and "isActive (jobTask j) w" and "immediates w = []"
  shows "enqueue j w = w
    \<and> (let w' = fire_immediate (run_settled (jobTask j) (requeueAfterCurrent j w))
       in isQueued (jobTask j) w' \<or> isActive (jobTask j) w')"
proof -
  note ok = reachable_pool [OF assms(1)]
  let ?u = "run_settled (jobTask j) (requeueAfterCurrent j w)"
  have u: "worker_ok ?u" using run_settled_ok [of "requeueAfterCurrent j w"] ok by (simp add: requeueAfterCurrent_def)
  have "immediates ?u = [j]" using assms(3) by (simp add: run_settled_def tryStart_def requeueAfterCurrent_def loop_immediates)
  then have fired: "fire_immediate ?u = enqueue j (?u\<lparr>immediates := []\<rparr>)" by (simp add: fire_immediate_def)
  have v: "worker_ok (?u\<lparr>immediates := []\<rparr>)" using u by simp
  have "isQueued (jobTask j) (fire_immediate ?u) \<or> isActive (jobTask j) (fire_immediate ?u)"
    unfolding fired using enqueued_known [OF v] known_iff [OF enqueue_ok [OF v]] by blast
  moreover have "enqueue j w = w" using assms(2) by (simp add: enqueue_def isActive_def)
  ultimately show ?thesis by (simp add: Let_def)
qed

theorem requeued_turn_runs_witness:
  "isQueued ''a'' (fire_immediate (run_settled ''a'' (requeueAfterCurrent (sample_job ''a'') busy_pool)))
    \<or> isActive ''a'' (fire_immediate (run_settled ''a'' (requeueAfterCurrent (sample_job ''a'') busy_pool)))"
  using requeued_turn_runs [OF busy_pool_reach, of "sample_job ''a''"]
  by (simp add: Let_def busy_pool_eq isActive_def sample_job_def)

text \<open>
  A cancellation in the gap between the end of a run and its scheduled callback finds the task neither queued nor under a
  controller, and the callback then starts it all the same.
\<close>

theorem cancel_misses_the_callback:
  "let w = run_settled ''a'' (requeueAfterCurrent (sample_job ''a'') (enqueue (sample_job ''a'') (new_worker 1)))
   in cancelQueued ''a'' w = (False, w) \<and> \<not> has_controller ''a'' w \<and> isActive ''a'' (fire_immediate w)"
  by (simp add: Let_def enqueue_def tryStart_def new_worker_def runOne_def add_key_def sample_job_def run_settled_def
      requeueAfterCurrent_def cancelQueued_def has_controller_def fire_immediate_def isActive_def)

text \<open>The pool has four slots unless the environment names a positive number.\<close>

theorem default_slots: "0 < defaultConcurrency raw \<and> defaultConcurrency None = 4 \<and> defaultConcurrency (Some ''0'') = 4
    \<and> defaultConcurrency (Some ''12 slots'') = 12"
  by (auto simp: defaultConcurrency_def split: option.split) (simp_all add: js_parse_int_def is_digit_def is_ws_def trim_start_def js_trim_def)

end
