(* ===== verification/Goal_Turn.thy ===== *)
theory Goal_Turn
  imports Goal_State Goal_Prompt Fresh_Context Task_Worker
begin

text \<open>
  The end of a leader's turn (\<open>processTaskExecution\<close> in \<open>apps/api/src/services/process-task-intent-service.ts\<close>), where the loop of
  goal mode lives, the controls of a goal (\<open>apps/api/src/routes/tasks.ts\<close>), the cancellation of a task there and in the chat
  (\<open>feishu-channel-command-service.ts\<close>), and the mailbox the leader is fed from
  (\<open>apps/api/src/repositories/task-mailbox-repository.ts\<close>). The database answers; the clock is read once per call.
\<close>

section \<open>The mailbox\<close>

record mail_row =
  mailId :: string
  mailTask :: string
  mailSender :: string
  mailContent :: string
  mailCreatedAt :: int
  mailConsumedAt :: "int option"
  mailMetadata :: "json_text option"

definition getUnconsumed :: "string \<Rightarrow> mail_row list \<Rightarrow> mail_row list" where
  "getUnconsumed i rows = sort_key mailCreatedAt (filter (\<lambda>r. mailTask r = i \<and> mailConsumedAt r = None) rows)"

definition markConsumed :: "int \<Rightarrow> string list \<Rightarrow> mail_row list \<Rightarrow> mail_row list" where
  "markConsumed now ids rows = map (\<lambda>r. if mailId r \<in> set ids then r\<lparr>mailConsumedAt := Some now\<rparr> else r) rows"

definition listMailByTaskId :: "string \<Rightarrow> mail_row list \<Rightarrow> mail_row list" where
  "listMailByTaskId i rows = sort_key mailCreatedAt (filter (\<lambda>r. mailTask r = i) rows)"

definition is_completion :: "mail_row \<Rightarrow> bool" where
  "is_completion r = (case mailMetadata r of
     Some (Some (JObj fs)) \<Rightarrow> obj_get fs ''type'' = Some (JStr ''teammate_completion'') | _ \<Rightarrow> False)"

definition countUnconsumedTeammateCompletions :: "string \<Rightarrow> mail_row list \<Rightarrow> nat" where
  "countUnconsumedTeammateCompletions i rows =
    length (filter is_completion (filter (\<lambda>r. mailTask r = i \<and> mailConsumedAt r = None) rows))"

section \<open>The world of a turn\<close>

record goal_runtime =
  rtId :: string
  rtTask :: string
  rtRole :: string
  rtState :: string
  rtAsync :: bool
  rtStartedAt :: int

record goal_checkpoint =
  ckptMessages :: "leader_message list"
  ckptTurnCount :: nat
  ckptRequest :: "string option"
  ckptPolicy :: "json option"
  ckptDoom :: "json option"

record turn_world =
  goals :: goal_world
  mails :: "mail_row list"
  pool :: task_worker
  runtimes :: "goal_runtime list"
  checkpoints :: "string \<rightharpoonup> goal_checkpoint"
  turnEvents :: "(string \<times> string \<times> string) list"
  aborted :: "(string \<times> string) list"

definition task_of :: "string \<Rightarrow> turn_world \<Rightarrow> goal_task option" where
  "task_of i w = tasks (goals w) i"

definition set_task :: "string \<Rightarrow> goal_task \<Rightarrow> turn_world \<Rightarrow> turn_world" where
  "set_task i t w = w\<lparr>goals := put_task i t (goals w)\<rparr>"

definition set_runtime :: "string \<Rightarrow> string \<Rightarrow> turn_world \<Rightarrow> turn_world" where
  "set_runtime rid st w = w\<lparr>runtimes := map (\<lambda>r. if rtId r = rid then r\<lparr>rtState := st\<rparr> else r) (runtimes w)\<rparr>"

definition listActiveBackgroundTeammates :: "string \<Rightarrow> turn_world \<Rightarrow> goal_runtime list" where
  "listActiveBackgroundTeammates i w = filter (\<lambda>r. rtTask r = i \<and> rtState r = ''RUNNING'' \<and> rtAsync r) (runtimes w)"

definition teammates_pending :: "string \<Rightarrow> turn_world \<Rightarrow> bool" where
  "teammates_pending i w =
    (listActiveBackgroundTeammates i w \<noteq> [] \<or> countUnconsumedTeammateCompletions i (mails w) > 0)"

section \<open>The continuation of a goal\<close>

text \<open>What a turn's end draws from outside: the texts of the templates, the environment variable, fresh ids.\<close>

record turn_env =
  callEnv :: call_env
  templateBody :: "template_name \<Rightarrow> string"
  freshContextEnv :: "string option"
  freshMail :: string
  freshRequest :: string

definition wall_seconds :: "int \<Rightarrow> goal_task \<Rightarrow> int" where
  "wall_seconds now t = (now - (case goalStartedAt t of Some a \<Rightarrow> a | None \<Rightarrow> now)) div 1000"

definition tokens_used :: "goal_task \<Rightarrow> int" where
  "tokens_used t = (case goalTokensUsed t of Some n \<Rightarrow> n | None \<Rightarrow> 0)"

definition wallExceeded :: "int \<Rightarrow> goal_task \<Rightarrow> bool" where
  "wallExceeded now t = (case goalMaxWallSeconds t of None \<Rightarrow> False | Some m \<Rightarrow> wall_seconds now t \<ge> m)"

text \<open>\<open>used >= budget * 1.5\<close>: the product is exact for numbers of this size.\<close>

definition tokenBudgetExceeded :: "goal_task \<Rightarrow> bool" where
  "tokenBudgetExceeded t = (case goalTokenBudget t of None \<Rightarrow> False | Some b \<Rightarrow> b > 0 \<and> 2 * tokens_used t \<ge> 3 * b)"

definition standing_blocker :: "goal_task \<Rightarrow> string option" where
  "standing_blocker t = (if goalLastVerifierVerdict t = Some VBlocked then goalLastVerifierBlocker t else None)"

definition objective_edited :: "goal_task \<Rightarrow> bool" where
  "objective_edited t = (case goalObjectiveEditedAt t of Some a \<Rightarrow> a > 0 | None \<Rightarrow> False)"

definition continuation_of :: "int \<Rightarrow> goal_task \<Rightarrow> string option \<Rightarrow> goal_continuation" where
  "continuation_of now t plan = \<lparr>contObjective = the (goalObjective t), contElapsed = wall_seconds now t,
     contWallCap = goalMaxWallSeconds t, contTokensUsed = tokens_used t, contTokenBudget = goalTokenBudget t,
     contGoalId = goalId t, contPlan = plan, contBlocker = standing_blocker t,
     contSubgoals = parseSubgoals (goalSubgoals t), contEdited = objective_edited t\<rparr>"

text \<open>The blocker is mirrored into the plan and cleared from the row.\<close>

definition surface_blocker :: "call_env \<Rightarrow> string \<Rightarrow> goal_task \<Rightarrow> turn_world \<Rightarrow> turn_world" where
  "surface_blocker e i t w =
    (case standing_blocker t of
       None \<Rightarrow> w
     | Some b \<Rightarrow> if b = [] then w
         else w\<lparr>goals := clearVerdict i (log_entry e i t (iterations_of t + 1) LogBlocked b (goals w))\<rparr>)"

definition count_iteration :: "goal_task \<Rightarrow> goal_task \<Rightarrow> goal_task" where
  "count_iteration before t = t\<lparr>goalIterations := Some (iterations_of before + 1),
     goalObjectiveEditedAt := if objective_edited before then None else goalObjectiveEditedAt t\<rparr>"

definition refresh_checkpoint :: "turn_env \<Rightarrow> string \<Rightarrow> turn_world \<Rightarrow> turn_world" where
  "refresh_checkpoint e run w =
    (if \<not> isFreshContextEnabled (freshContextEnv e) None then w
     else case checkpoints w run of
       None \<Rightarrow> w
     | Some c \<Rightarrow>
         let (messages, dropped, trimmed) =
               trimForFreshContext (freshContextEnv e) (ckptMessages c) \<lparr>tailTurns = Some 3, envOverride = None\<rparr>
         in if trimmed then w\<lparr>checkpoints := (checkpoints w)(run \<mapsto>
              c\<lparr>ckptMessages := messages, ckptRequest := Some (case ckptRequest c of Some r \<Rightarrow> r | None \<Rightarrow> freshRequest e)\<rparr>)\<rparr>
            else w)"

definition plan_text :: "call_env \<Rightarrow> string \<Rightarrow> goal_task \<Rightarrow> goal_world \<Rightarrow> string option" where
  "plan_text e i t g =
    (if taskWorkspace t = [] then None
     else case readPlan (envDisk e) (envBase e (taskWorkspace t)) i (plans g) of Inl err \<Rightarrow> None | Inr p \<Rightarrow> p)"

definition continue_goal :: "turn_env \<Rightarrow> task_job \<Rightarrow> goal_task \<Rightarrow> turn_world \<Rightarrow> turn_world" where
  "continue_goal e job t w =
    (let i = jobTask job; now = envNow (callEnv e);
         plan = plan_text (callEnv e) i t (goals w);
         prompt = buildGoalContinuationV2 (templateBody e) (continuation_of now t plan);
         w1 = surface_blocker (callEnv e) i t w;
         mail = \<lparr>mailId = freshMail e, mailTask = i, mailSender = ''user'', mailContent = prompt, mailCreatedAt = now,
                 mailConsumedAt = None, mailMetadata = None\<rparr>;
         w2 = w1\<lparr>mails := mails w1 @ [mail]\<rparr>;
         w3 = (case task_of i w2 of None \<Rightarrow> w2 | Some t2 \<Rightarrow> set_task i (count_iteration t t2) w2);
         w4 = refresh_checkpoint e (jobRun job) w3
     in w4\<lparr>pool := requeueAfterCurrent (job\<lparr>jobRequest := freshRequest e, jobPrompt := []\<rparr>) (pool w4)\<rparr>)"

definition exhaust_goal :: "int \<Rightarrow> goal_task \<Rightarrow> goal_task" where
  "exhaust_goal now t = t\<lparr>goalStatus := Some GCancelled, goalCompletedAt := Some now\<rparr>"

text \<open>The hook: whether the run was requeued, and the world after it.\<close>

definition ralph_hook :: "turn_env \<Rightarrow> task_job \<Rightarrow> turn_world \<Rightarrow> bool \<times> turn_world" where
  "ralph_hook e job w =
    (let i = jobTask job; now = envNow (callEnv e) in
     case task_of i w of
       None \<Rightarrow> (False, w)
     | Some t \<Rightarrow>
         if \<not> (has_goal t \<and> goalStatus t = Some GActive) \<or> teammates_pending i w then (False, w)
         else if wallExceeded now t \<or> tokenBudgetExceeded t
           then (False, (set_task i (exhaust_goal now t) w)\<lparr>turnEvents := turnEvents w @ [(''goal.budget_exhausted'', i, [])]\<rparr>)
         else (True, continue_goal e job t w))"

section \<open>The end of a turn\<close>

datatype turn_final = FDone | FFailed | FPaused | FCancelled | FAwaitingTeammates

fun show_final :: "turn_final \<Rightarrow> string" where
  "show_final FDone = ''DONE''"
| "show_final FFailed = ''FAILED''"
| "show_final FPaused = ''PAUSED''"
| "show_final FCancelled = ''CANCELLED''"
| "show_final FAwaitingTeammates = ''AWAITING_TEAMMATES''"

text \<open>
  What the loop returned: its reason, and the reason of the \<open>leader.session_complete\<close> event of this request, if there is one.
\<close>

record loop_result =
  loopReason :: string
  sessionComplete :: "string option"

definition base_final_state :: "string \<Rightarrow> loop_result \<Rightarrow> turn_world \<Rightarrow> turn_final" where
  "base_final_state i r w =
    (if loopReason r = ''completed'' \<and> sessionComplete r = Some ''plan_awaiting_approval'' then FPaused
     else if starts_with (loopReason r) ''aborted'' \<and> map_option taskState (task_of i w) = Some ''CANCELLED'' then FCancelled
     else if loopReason r = ''completed'' then FDone
     else FFailed)"

definition terminal_type :: "turn_final \<Rightarrow> string" where
  "terminal_type f = (if f = FDone \<or> f = FPaused \<or> f = FAwaitingTeammates then ''task:completed''
     else if f = FCancelled then ''task:cancelled'' else ''task:failed'')"

definition runtime_final :: "turn_final \<Rightarrow> string" where
  "runtime_final f = (if f = FDone \<or> f = FAwaitingTeammates then ''COMPLETED''
     else if f = FPaused then ''PAUSED'' else if f = FCancelled then ''CANCELLED'' else ''FAILED'')"

definition goal_cleanup :: "int \<Rightarrow> turn_final \<Rightarrow> goal_task \<Rightarrow> goal_task" where
  "goal_cleanup now f t =
    (if (f = FFailed \<or> f = FCancelled) \<and> has_goal t \<and> goalStatus t = Some GActive then exhaust_goal now t else t)"

definition terminal_row :: "int \<Rightarrow> turn_final \<Rightarrow> goal_task \<Rightarrow> goal_task" where
  "terminal_row now f t = (goal_cleanup now f t)\<lparr>taskState := show_final f,
     taskCompletedAt := if f = FPaused \<or> f = FAwaitingTeammates then taskCompletedAt t else Some now\<rparr>"

definition write_terminal :: "int \<Rightarrow> task_job \<Rightarrow> turn_final \<Rightarrow> turn_world \<Rightarrow> turn_world" where
  "write_terminal now job f w =
    (let i = jobTask job;
         w1 = (case task_of i w of None \<Rightarrow> w | Some t \<Rightarrow> set_task i (terminal_row now f t) w);
         w2 = set_runtime (jobRun job) (runtime_final f) w1
     in w2\<lparr>turnEvents := turnEvents w2 @ [(terminal_type f, i, jobRequest job)]\<rparr>)"

definition finish_turn :: "turn_env \<Rightarrow> task_job \<Rightarrow> loop_result \<Rightarrow> turn_world \<Rightarrow> turn_world" where
  "finish_turn e job r w =
    (let i = jobTask job; base = base_final_state i r w;
         (requeued, w1) = (if base = FDone then ralph_hook e job w else (False, w))
     in if requeued then w1
        else let final = (if base = FDone \<and> teammates_pending i w1 then FAwaitingTeammates else base)
             in write_terminal (envNow (callEnv e)) job final w1)"

text \<open>The start of a run: a task that was cancelled while it was queued is not executed.\<close>

definition begin_turn :: "task_job \<Rightarrow> turn_world \<Rightarrow> bool \<times> turn_world" where
  "begin_turn job w =
    (if map_option taskState (task_of (jobTask job) w) = Some ''CANCELLED''
     then (False, set_runtime (jobRun job) ''CANCELLED'' w)
     else (True, set_runtime (jobRun job) ''RUNNING''
       (case task_of (jobTask job) w of
          None \<Rightarrow> w
        | Some t \<Rightarrow> set_task (jobTask job) (t\<lparr>taskState := ''EXECUTING'', taskCompletedAt := None\<rparr>) w)))"

text \<open>The guard in the leader's loop that ends a run once the goal is complete (\<open>autonomous-loop-service.ts\<close>).\<close>

definition goal_complete_halt :: "string \<Rightarrow> turn_world \<Rightarrow> bool" where
  "goal_complete_halt i w = (case task_of i w of None \<Rightarrow> False | Some t \<Rightarrow> has_goal t \<and> goalStatus t = Some GComplete)"

end
