(* ===== verification/Goal_Control.thy ===== *)
theory Goal_Control
  imports Goal_Turn
begin

text \<open>
  The controls of a goal and of its task: pause, resume and cancel of the goal and the cancellation of the task
  (\<open>apps/api/src/routes/tasks.ts\<close>), the stop command of the chat (\<open>feishu-channel-command-service.ts\<close>), and the machine of all
  operations that change a goal.
\<close>

section \<open>The routes\<close>

datatype control_reply =
    ControlOk goal_status
  | ControlNotFound
  | ControlNoGoal
  | ControlNotActive "goal_status option"
  | ControlNotPaused "goal_status option"
  | ControlTurnInFlight

definition pause_goal :: "int \<Rightarrow> string \<Rightarrow> turn_world \<Rightarrow> control_reply \<times> turn_world" where
  "pause_goal now i w =
    (case task_of i w of
       None \<Rightarrow> (ControlNotFound, w)
     | Some t \<Rightarrow>
         if \<not> has_goal t then (ControlNoGoal, w)
         else if goalStatus t \<noteq> Some GActive then (ControlNotActive (goalStatus t), w)
         else (ControlOk GPaused, set_task i (t\<lparr>goalStatus := Some GPaused, goalCompletedAt := Some now\<rparr>) w))"

text \<open>The leader's runtime of a task that started last; the first of those that started together.\<close>

definition latest_leader :: "string \<Rightarrow> turn_world \<Rightarrow> goal_runtime option" where
  "latest_leader i w =
    (case filter (\<lambda>r. rtTask r = i \<and> rtRole r = ''leader'') (runtimes w) of
       [] \<Rightarrow> None
     | r # rs \<Rightarrow> Some (foldl (\<lambda>a b. if rtStartedAt b > rtStartedAt a then b else a) r rs))"

definition RESUME_MAIL :: string where
  "RESUME_MAIL = ''<<goal_continuation>>'' @ [CHR 0x0A, CHR 0x0A] @ ''Resumed by user. Continue toward the goal.''"

definition resume_row :: "goal_task \<Rightarrow> goal_task" where
  "resume_row t = t\<lparr>goalStatus := Some GActive, goalCompletedAt := None\<rparr>"

definition resume_goal :: "turn_env \<Rightarrow> string option \<Rightarrow> string \<Rightarrow> turn_world \<Rightarrow> control_reply \<times> turn_world" where
  "resume_goal e binding i w =
    (case task_of i w of
       None \<Rightarrow> (ControlNotFound, w)
     | Some t \<Rightarrow>
         if goalStatus t \<noteq> Some GPaused then (ControlNotPaused (goalStatus t), w)
         else if has_controller i (pool w) then (ControlTurnInFlight, w)
         else
           let mail = \<lparr>mailId = freshMail e, mailTask = i, mailSender = ''user'', mailContent = RESUME_MAIL,
                       mailCreatedAt = envNow (callEnv e), mailConsumedAt = None, mailMetadata = None\<rparr>;
               w1 = set_task i (resume_row t) (w\<lparr>mails := mails w @ [mail]\<rparr>)
           in (ControlOk GActive,
               case latest_leader i w1 of
                 None \<Rightarrow> w1
               | Some r \<Rightarrow> w1\<lparr>pool := enqueue \<lparr>jobTask = i, jobRun = rtId r, jobRequest = freshRequest e,
                   jobWorkspace = taskWorkspace t, jobPrompt = [], jobBinding = binding\<rparr> (pool w1)\<rparr>))"

definition cancel_runtimes :: "(goal_runtime \<Rightarrow> bool) \<Rightarrow> turn_world \<Rightarrow> turn_world" where
  "cancel_runtimes p w = w\<lparr>runtimes := map (\<lambda>r. if p r then r\<lparr>rtState := ''CANCELLED''\<rparr> else r) (runtimes w)\<rparr>"

definition live_runtime :: "string \<Rightarrow> goal_runtime \<Rightarrow> bool" where
  "live_runtime i r = (rtTask r = i \<and> (rtState r = ''RUNNING'' \<or> rtState r = ''PENDING''))"

text \<open>\<open>anchor\<close> is the request of the task's last checkpoint, or a fresh one.\<close>

definition cancel_goal :: "int \<Rightarrow> string \<Rightarrow> string \<Rightarrow> turn_world \<Rightarrow> control_reply \<times> turn_world" where
  "cancel_goal now anchor i w =
    (case task_of i w of
       None \<Rightarrow> (ControlNotFound, w)
     | Some t \<Rightarrow>
         if \<not> has_goal t then (ControlNoGoal, w)
         else if goalStatus t = Some GComplete \<or> goalStatus t = Some GCancelled then (ControlOk (the (goalStatus t)), w)
         else
           let w1 = set_task i (exhaust_goal now t) w in
           if has_controller i (pool w1) then (ControlOk GCancelled, w1\<lparr>aborted := aborted w1 @ [(i, ''goal_cancelled'')]\<rparr>)
           else
             let (wasQueued, p) = cancelQueued i (pool w1); w2 = w1\<lparr>pool := p\<rparr> in
             if \<not> wasQueued \<and> map_option taskState (task_of i w2) \<noteq> Some ''EXECUTING'' then (ControlOk GCancelled, w2)
             else
               let drained = filter (\<lambda>r. \<not> is_completion r) (getUnconsumed i (mails w2));
                   w3 = w2\<lparr>mails := markConsumed now (map mailId drained) (mails w2)\<rparr>;
                   w4 = cancel_runtimes (live_runtime i) w3;
                   w5 = (case task_of i w4 of None \<Rightarrow> w4
                         | Some u \<Rightarrow> set_task i (u\<lparr>taskState := ''CANCELLED'', taskCompletedAt := Some now\<rparr>) w4)
               in (ControlOk GCancelled, w5\<lparr>turnEvents := turnEvents w5 @ [(''task:cancelled'', i, anchor)]\<rparr>))"

text \<open>The row both cancellations of the whole task write.\<close>

definition cancelled_row :: "int \<Rightarrow> goal_task \<Rightarrow> goal_task" where
  "cancelled_row now t =
    (if has_goal t \<and> goalStatus t \<noteq> Some GComplete
     then t\<lparr>taskState := ''CANCELLED'', goalStatus := Some GCancelled, goalCompletedAt := Some now\<rparr>
     else t\<lparr>taskState := ''CANCELLED''\<rparr>)"

definition signal_abort :: "string \<Rightarrow> turn_world \<Rightarrow> turn_world" where
  "signal_abort i w = (if has_controller i (pool w) then w\<lparr>aborted := aborted w @ [(i, ''cancelled'')]\<rparr> else w)"

definition cancel_task :: "int \<Rightarrow> string \<Rightarrow> turn_world \<Rightarrow> bool \<times> turn_world" where
  "cancel_task now i w =
    (case task_of i w of
       None \<Rightarrow> (False, w)
     | Some t \<Rightarrow>
         let w1 = set_task i (cancelled_row now t) w;
             (fromQueue, p) = cancelQueued i (pool w1);
             w2 = w1\<lparr>pool := p\<rparr>;
             w3 = (if fromQueue then cancel_runtimes (live_runtime i) w2 else w2);
             w4 = signal_abort i w3
         in (True, cancel_runtimes (\<lambda>r. rtTask r = i \<and> rtState r = ''RUNNING'' \<and> rtAsync r) w4))"

definition stop_command :: "int \<Rightarrow> string \<Rightarrow> turn_world \<Rightarrow> bool \<times> turn_world" where
  "stop_command now i w =
    (case task_of i w of
       None \<Rightarrow> (False, w)
     | Some t \<Rightarrow>
         let w1 = set_task i (cancelled_row now t) w;
             w2 = w1\<lparr>pool := snd (cancelQueued i (pool w1))\<rparr>
         in (True, signal_abort i w2))"

text \<open>The books of a model call: tokens are added to the task whether it has a goal or not (\<open>token-usage-repository.ts\<close>).\<close>

definition charge_tokens :: "int \<Rightarrow> string \<Rightarrow> turn_world \<Rightarrow> turn_world" where
  "charge_tokens n i w =
    (case task_of i w of None \<Rightarrow> w
     | Some t \<Rightarrow> set_task i (t\<lparr>goalTokensUsed := Some ((case goalTokensUsed t of Some m \<Rightarrow> m | None \<Rightarrow> 0) + n)\<rparr>) w)"

section \<open>The machine\<close>

text \<open>One operation on the world: the services and tools act on its goals, the controls and the turn on all of it.\<close>

datatype goal_op =
    OpCreate string goal_task "(int \<times> string \<times> start_goal_input) option"
  | OpStart call_env string "string option" "string option" string start_goal_input
  | OpEdit call_env string string
  | OpAddSubgoal string string
  | OpRemoveSubgoal string "int option"
  | OpClearSubgoals string
  | OpVerdict call_env string string string
  | OpSubmitVerdict call_env string bool "string option"
  | OpComplete call_env string complete_args
  | OpUpdatePlan call_env string string "string option"
  | OpAddCriterion call_env string string "string option"
  | OpPause int string
  | OpResume turn_env "string option" string
  | OpCancelGoal int string string
  | OpCancelTask int string
  | OpStop int string
  | OpCharge int string
  | OpBegin task_job
  | OpFinish turn_env task_job loop_result

definition on_goals :: "(goal_world \<Rightarrow> goal_world) \<Rightarrow> turn_world \<Rightarrow> turn_world" where
  "on_goals f w = w\<lparr>goals := f (goals w)\<rparr>"

text \<open>
  A task is created once, without the goal columns or with all of them; the route has checked that an objective is not empty.
\<close>

definition plain_row :: "goal_task \<Rightarrow> goal_task" where
  "plain_row t = t\<lparr>goalObjective := None, goalStatus := None\<rparr>"

definition create_row :: "goal_task \<Rightarrow> (int \<times> string \<times> start_goal_input) option \<Rightarrow> goal_task" where
  "create_row t goal = (case goal of
     None \<Rightarrow> plain_row t
   | Some (now, gid, input) \<Rightarrow>
       if startObjective input = [] then plain_row t else create_with_goal now gid input (plain_row t))"

fun perform :: "goal_op \<Rightarrow> turn_world \<Rightarrow> turn_world" where
  "perform (OpCreate i t goal) w = (if task_of i w = None then set_task i (create_row t goal) w else w)"
| "perform (OpStart e gid title answer i input) w = on_goals (snd \<circ> startGoalOnExistingTask e gid title answer i input) w"
| "perform (OpEdit e i objective) w = on_goals (snd \<circ> editGoalObjective e i objective) w"
| "perform (OpAddSubgoal i s) w = on_goals (snd \<circ> addSubgoal i s) w"
| "perform (OpRemoveSubgoal i k) w = on_goals (snd \<circ> removeSubgoal i k) w"
| "perform (OpClearSubgoals i) w = on_goals (snd \<circ> clearSubgoals i) w"
| "perform (OpVerdict e role i txt) w = on_goals (maybeRecordEvaluatorVerdict e role i txt) w"
| "perform (OpSubmitVerdict e i ready b) w = on_goals (snd \<circ> submit_goal_verdict e i ready b) w"
| "perform (OpComplete e i a) w = on_goals (snd \<circ> mark_goal_complete e i a) w"
| "perform (OpUpdatePlan e i s x) w = on_goals (snd \<circ> update_goal_plan e i s x) w"
| "perform (OpAddCriterion e i s x) w = on_goals (snd \<circ> add_acceptance_criterion e i s x) w"
| "perform (OpPause now i) w = snd (pause_goal now i w)"
| "perform (OpResume e b i) w = snd (resume_goal e b i w)"
| "perform (OpCancelGoal now a i) w = snd (cancel_goal now a i w)"
| "perform (OpCancelTask now i) w = snd (cancel_task now i w)"
| "perform (OpStop now i) w = snd (stop_command now i w)"
| "perform (OpCharge n i) w = charge_tokens n i w"
| "perform (OpBegin job) w = snd (begin_turn job w)"
| "perform (OpFinish e job r) w = finish_turn e job r w"

end
