(* ===== verification/Goal_Lifecycle.thy ===== *)
theory Goal_Lifecycle
  imports Goal_Control
begin

text \<open>
  The life of a goal across all its operations: the abstract automaton, the refinement of it by every operation of the services,
  the tools, the routes and the end of a turn, the invariant of the row, and what a completed goal keeps.
\<close>

section \<open>The automaton\<close>

datatype goal_phase = NoGoal | Running | Held | Finished | Stopped

fun phase_of_status :: "goal_status \<Rightarrow> goal_phase" where
  "phase_of_status GActive = Running"
| "phase_of_status GPaused = Held"
| "phase_of_status GComplete = Finished"
| "phase_of_status GCancelled = Stopped"

definition phase :: "goal_task \<Rightarrow> goal_phase" where
  "phase t = (if \<not> has_goal t then NoGoal else case goalStatus t of None \<Rightarrow> NoGoal | Some s \<Rightarrow> phase_of_status s)"

text \<open>What the design promises: a finished goal is final, a stopped one can only be started anew.\<close>

inductive phase_step :: "goal_phase \<Rightarrow> goal_phase \<Rightarrow> bool" where
  stay: "phase_step p p"
| start: "phase_step NoGoal Running"
| restart: "phase_step Stopped Running"
| hold: "phase_step Running Held"
| continue: "phase_step Held Running"
| finish: "phase_step Running Finished"
| stop_running: "phase_step Running Stopped"
| stop_held: "phase_step Held Stopped"

inductive_simps phase_step_simps: "phase_step p q"
inductive_cases from_Finished: "phase_step Finished q"

declare phase_step.intros [intro]

section \<open>Moves of a row\<close>

definition row_wf :: "goal_task \<Rightarrow> bool" where
  "row_wf t = (has_goal t = (goalStatus t \<noteq> None))"

definition core :: "goal_task \<Rightarrow> string option \<times> goal_status option \<times> nat option \<times> int option \<times> string option" where
  "core t = (goalObjective t, goalStatus t, goalIterations t, goalCompletedAt t, goalId t)"

definition move :: "goal_task \<Rightarrow> goal_task \<Rightarrow> bool" where
  "move t t' = (row_wf t \<longrightarrow> row_wf t' \<and> phase_step (phase t) (phase t') \<and> (phase t = Finished \<longrightarrow> core t' = core t))"

fun row_moves :: "goal_task option \<Rightarrow> goal_task option \<Rightarrow> bool" where
  "row_moves None None = True"
| "row_moves None (Some t) = (row_wf t \<and> (phase t = NoGoal \<or> phase t = Running))"
| "row_moves (Some t) None = False"
| "row_moves (Some t) (Some t') = move t t'"

definition moves :: "goal_world \<Rightarrow> goal_world \<Rightarrow> bool" where
  "moves w w' = (\<forall>i. row_moves (tasks w i) (tasks w' i))"

lemma core_phase: "core t' = core t \<Longrightarrow> phase t' = phase t"
  by (simp add: core_def phase_def has_goal_def)

lemma core_wf: "core t' = core t \<Longrightarrow> row_wf t' = row_wf t"
  by (simp add: core_def row_wf_def has_goal_def)

lemma core_move: "core t' = core t \<Longrightarrow> move t t'"
  using core_phase [of t' t] core_wf [of t' t] by (auto simp: move_def)

lemma row_moves_refl [simp]: "row_moves r r"
  by (cases r) (simp_all add: core_move)

lemma moves_refl [simp]: "moves w w"
  by (simp add: moves_def)

lemma moves_plans [simp]: "moves w (w'\<lparr>plans := f\<rparr>) = moves w w'"
  by (simp add: moves_def)

lemma tasks_log_entry [simp]: "tasks (log_entry e i t n v s w) = tasks w"
  by (simp add: log_entry_def)

lemma moves_log [simp]: "moves w (log_entry e i t n v s w') = moves w w'"
  by (simp add: moves_def)

lemma tasks_put [simp]: "tasks (put_task i t w) = (tasks w)(i \<mapsto> t)"
  by (simp add: put_task_def)

lemma moves_put: "tasks w i = Some t \<Longrightarrow> move t t' \<Longrightarrow> moves w (put_task i t' w)"
  by (simp add: moves_def)

lemma moves_tasks: "tasks w' = (tasks w)(i \<mapsto> t') \<Longrightarrow> tasks w i = Some t \<Longrightarrow> move t t' \<Longrightarrow> moves w w'"
  by (simp add: moves_def)

lemma move_status:
  assumes "has_goal t" and "has_goal t'" and "goalStatus t' = Some s'" and "goalStatus t = Some s"
    and "phase_step (phase_of_status s) (phase_of_status s')" and "s \<noteq> GComplete"
  shows "move t t'"
  using assms by (cases s) (auto simp: move_def row_wf_def phase_def)

section \<open>Every operation on goals moves\<close>

lemma move_start:
  assumes "\<not> goal_taken t"
    and "has_goal t'" and "goalStatus t' = Some GActive"
  shows "move t t'"
proof (cases "has_goal t")
  case True
  then show ?thesis using assms by (cases "goalStatus t") (auto simp: move_def row_wf_def phase_def goal_taken_def)
next
  case False
  then show ?thesis using assms by (auto simp: move_def row_wf_def phase_def)
qed

lemma start_columns_goal: "trimmed \<noteq> [] \<Longrightarrow> has_goal (start_columns now gid trimmed input t)"
  by (simp add: start_columns_def has_goal_def)

lemma start_columns_status: "goalStatus (start_columns now gid trimmed input t) = Some GActive"
  by (simp add: start_columns_def)

lemma objective_error_None: "objective_error s = None \<Longrightarrow> s \<noteq> []"
  by (auto simp: objective_error_def)

text \<open>The row after a start: the start's columns, and the path of the plan if it could be written.\<close>

lemma start_row:
  assumes "objective_error (js_trim (startObjective input)) = None" and "tasks w i = Some t"
    and "taskState t \<notin> set REFUSED_STATES"
    and "\<not> goal_taken t"
  shows "\<exists>p. tasks (snd (startGoalOnExistingTask e gid title answer i input w))
    = (tasks w)(i \<mapsto> (start_columns (envNow e) gid (js_trim (startObjective input)) input t)\<lparr>goalPlanPath := p\<rparr>)"
proof -
  let ?t = "start_columns (envNow e) gid (js_trim (startObjective input)) input t"
  have same: "?t\<lparr>goalPlanPath := goalPlanPath ?t\<rparr> = ?t" by simp
  have gid: "?t\<lparr>goalId := Some gid, goalPlanPath := p\<rparr> = ?t\<lparr>goalPlanPath := p\<rparr>" for p by (simp add: start_columns_def)
  let ?c = "buildPriorContextSummary (case taskTitle t of None \<Rightarrow> title | Some s \<Rightarrow> Some s) answer (taskDescription t)"
  show ?thesis
  proof (cases "initializePlanWithPriorContext (envDisk e) (envBase e (taskWorkspace t)) (envStamp e)
      \<lparr>initTask = i, initObjective = js_trim (startObjective input), initGoalId = gid\<rparr> ?c (plans (put_task i ?t w))")
    case (Inl err)
    then have "tasks (snd (startGoalOnExistingTask e gid title answer i input w)) = (tasks w)(i \<mapsto> ?t)"
      using assms by (simp add: startGoalOnExistingTask_def Let_def)
    then show ?thesis using same by metis
  next
    case (Inr r)
    obtain location files where r: "r = (location, files)" by (cases r)
    have "tasks (snd (startGoalOnExistingTask e gid title answer i input w))
        = (tasks w)(i \<mapsto> ?t\<lparr>goalPlanPath := Some (relativePath location)\<rparr>)"
      using assms Inr r by (simp add: startGoalOnExistingTask_def Let_def persistPlanLocation_def gid)
    then show ?thesis by blast
  qed
qed

lemma start_refused:
  assumes "objective_error (js_trim (startObjective input)) \<noteq> None \<or> tasks w i = None
    \<or> (\<exists>t. tasks w i = Some t \<and> (taskState t \<in> set REFUSED_STATES
        \<or> goal_taken t))"
  shows "snd (startGoalOnExistingTask e gid title answer i input w) = w"
  using assms by (auto simp: startGoalOnExistingTask_def Let_def split: option.split)

lemma moves_start: "moves w (snd (startGoalOnExistingTask e gid title answer i input w))"
proof (cases "\<exists>t. objective_error (js_trim (startObjective input)) = None \<and> tasks w i = Some t
    \<and> taskState t \<notin> set REFUSED_STATES \<and> \<not> goal_taken t")
  case True
  then obtain t where t: "objective_error (js_trim (startObjective input)) = None" "tasks w i = Some t"
      "taskState t \<notin> set REFUSED_STATES" "\<not> goal_taken t"
    by blast
  obtain p where p: "tasks (snd (startGoalOnExistingTask e gid title answer i input w))
      = (tasks w)(i \<mapsto> (start_columns (envNow e) gid (js_trim (startObjective input)) input t)\<lparr>goalPlanPath := p\<rparr>)"
    using start_row [OF t] by blast
  show ?thesis
    by (rule moves_tasks [OF p t(2)], rule move_start [OF t(4)])
      (use objective_error_None [OF t(1)] in \<open>simp_all add: start_columns_def has_goal_def\<close>)
next
  case False
  then have "snd (startGoalOnExistingTask e gid title answer i input w) = w"
    by (intro start_refused) (cases "tasks w i"; auto)
  then show ?thesis by simp
qed

lemma moves_edit: "moves w (snd (editGoalObjective e i objective w))"
proof -
  have "move t (t\<lparr>goalObjective := Some o', goalObjectiveEditedAt := a, goalLastVerifierVerdict := None,
      goalLastVerifierAt := None, goalLastVerifierBlocker := None\<rparr>)"
    if "has_goal t" "goalStatus t \<noteq> Some GComplete" "o' \<noteq> []" for t o' a
    using that by (auto simp: move_def row_wf_def phase_def has_goal_def split: option.splits)
      (metis goal_phase.distinct goal_status.exhaust phase_of_status.simps)
  then show ?thesis
    by (auto simp: editGoalObjective_def Let_def objective_error_def split: option.split intro!: moves_put)
qed

lemma core_subgoals [simp]: "core (t\<lparr>goalSubgoals := x\<rparr>) = core t"
  by (simp add: core_def)

lemma moves_subgoals:
  "moves w (snd (addSubgoal i s w))" "moves w (snd (removeSubgoal i k w))" "moves w (snd (clearSubgoals i w))"
  by (auto simp: addSubgoal_def removeSubgoal_def clearSubgoals_def Let_def split: option.split
      intro!: moves_put core_move)

text \<open>A row that ends as active, paused, complete or cancelled and keeps its objective.\<close>

lemma has_goal_cong: "goalObjective t' = goalObjective t \<Longrightarrow> has_goal t' = has_goal t"
  by (simp add: has_goal_def)

lemma move_from_active:
  assumes "goalObjective t' = goalObjective t" and "has_goal t" and "goalStatus t = Some GActive" and "goalStatus t' = Some s"
  shows "move t t'"
  using assms has_goal_cong [OF assms(1)] by (cases s) (auto simp: move_def row_wf_def phase_def)

lemma move_from_held:
  assumes "goalObjective t' = goalObjective t" and "goalStatus t = Some GPaused" and "goalStatus t' = Some GActive \<or> goalStatus t' = Some GCancelled"
  shows "move t t'"
  using assms has_goal_cong [OF assms(1)] by (auto simp: move_def row_wf_def phase_def)

lemma move_cancel:
  assumes "goalObjective t' = goalObjective t" and "has_goal t" and "goalStatus t \<noteq> Some GComplete" and "goalStatus t' = Some GCancelled"
  shows "move t t'"
proof (cases "goalStatus t")
  case None
  then show ?thesis using assms(2) by (simp add: move_def row_wf_def)
next
  case (Some s)
  then show ?thesis using assms has_goal_cong [OF assms(1)] by (cases s) (auto simp: move_def row_wf_def phase_def)
qed

lemma moves_record: "has_goal t \<Longrightarrow> tasks w i = Some t \<Longrightarrow> moves w (snd (recordVerdict e i v w))"
proof (cases v)
  case Unclear
  let ?n = "(case goalEvaluatorParseFailures t of Some n \<Rightarrow> n | None \<Rightarrow> 0) + 1"
  assume t: "has_goal t" "tasks w i = Some t"
  show ?thesis
  proof (cases "?n \<ge> PARSE_FAILURE_THRESHOLD \<and> goalStatus t = Some GActive")
    case True
    have "move t (t\<lparr>goalEvaluatorParseFailures := Some ?n, goalStatus := Some GPaused, goalCompletedAt := Some (envNow e)\<rparr>)"
      by (rule move_from_active [OF _ t(1)]) (use True in simp_all)
    then show ?thesis using True t(2) Unclear by (simp add: recordVerdict_def Let_def moves_put)
  next
    case False
    have "move t (t\<lparr>goalEvaluatorParseFailures := Some ?n\<rparr>)" by (rule core_move) (simp add: core_def)
    then show ?thesis using False t(2) Unclear by (auto simp: recordVerdict_def Let_def intro: moves_put)
  qed
qed (simp_all add: recordVerdict_def moves_put core_move core_def)

lemma moves_verdict: "moves w (maybeRecordEvaluatorVerdict e role i txt w)"
  by (simp add: maybeRecordEvaluatorVerdict_def moves_record split: option.split)

lemma moves_submit: "moves w (snd (submit_goal_verdict e i ready b w))"
proof (cases "tasks w i")
  case (Some t)
  then show ?thesis by (simp add: submit_goal_verdict_def moves_record)
qed (simp add: submit_goal_verdict_def)

lemma complete_tasks:
  "tasks (snd (mark_goal_complete e i a w)) = tasks w \<or>
   (\<exists>t. tasks w i = Some t \<and> has_goal t \<and> goalStatus t = Some GActive
      \<and> tasks (snd (mark_goal_complete e i a w)) = (tasks w)(i \<mapsto> completed_goal (envNow e) t))"
proof (cases "tasks w i")
  case (Some t)
  then show ?thesis by (simp add: mark_goal_complete_def Let_def)
qed (simp add: mark_goal_complete_def)

lemma moves_same_tasks: "tasks w' = tasks w \<Longrightarrow> moves w w'"
  by (simp add: moves_def)

lemma moves_complete: "moves w (snd (mark_goal_complete e i a w))"
proof -
  consider "tasks (snd (mark_goal_complete e i a w)) = tasks w"
    | t where "tasks w i = Some t" "has_goal t" "goalStatus t = Some GActive"
        "tasks (snd (mark_goal_complete e i a w)) = (tasks w)(i \<mapsto> completed_goal (envNow e) t)"
    using complete_tasks by blast
  then show ?thesis
  proof cases
    case 1
    then show ?thesis by (rule moves_same_tasks)
  next
    case 2
    have "move t (completed_goal (envNow e) t)"
      by (rule move_from_active [OF _ 2(2,3)]) (simp_all add: completed_goal_def)
    then show ?thesis using moves_tasks [OF 2(4,1)] by simp
  qed
qed

lemma moves_plan_tools:
  "moves w (snd (update_goal_plan e i s x w))" "moves w (snd (add_acceptance_criterion e i s x w))"
  by (simp_all add: update_goal_plan_def add_acceptance_criterion_def split: option.split sum.split prod.split)

section \<open>Every control and every turn moves\<close>

abbreviation turn_moves :: "turn_world \<Rightarrow> turn_world \<Rightarrow> bool" where
  "turn_moves w w' \<equiv> moves (goals w) (goals w')"

lemma goals_set_task: "goals (set_task i t w) = put_task i t (goals w)"
  by (simp add: set_task_def)

lemma turn_moves_set: "task_of i w = Some t \<Longrightarrow> move t t' \<Longrightarrow> turn_moves w (set_task i t' w)"
  by (simp add: goals_set_task task_of_def moves_put)

lemma goals_set_runtime [simp]: "goals (set_runtime r s w) = goals w"
  by (simp add: set_runtime_def)

lemma goals_cancel_runtimes [simp]: "goals (cancel_runtimes p w) = goals w"
  by (simp add: cancel_runtimes_def)

lemma goals_signal [simp]: "goals (signal_abort i w) = goals w"
  by (simp add: signal_abort_def)

lemma moves_pause: "turn_moves w (snd (pause_goal now i w))"
proof (cases "task_of i w")
  case (Some t)
  have "move t (t\<lparr>goalStatus := Some GPaused, goalCompletedAt := Some now\<rparr>)" if "has_goal t" "goalStatus t = Some GActive"
    by (rule move_from_active [OF _ that]) simp_all
  then show ?thesis using Some by (simp add: pause_goal_def turn_moves_set)
qed (simp add: pause_goal_def)

lemma resume_goals:
  "goals (snd (resume_goal e b i w)) = goals w \<or>
   (\<exists>t. task_of i w = Some t \<and> goalStatus t = Some GPaused \<and> goals (snd (resume_goal e b i w)) = put_task i (resume_row t) (goals w))"
proof (cases "task_of i w")
  case (Some t)
  then show ?thesis by (simp add: resume_goal_def Let_def goals_set_task split: option.split)
qed (simp add: resume_goal_def)

lemma moves_resume: "turn_moves w (snd (resume_goal e b i w))"
proof -
  consider "goals (snd (resume_goal e b i w)) = goals w"
    | t where "task_of i w = Some t" "goalStatus t = Some GPaused" "goals (snd (resume_goal e b i w)) = put_task i (resume_row t) (goals w)"
    using resume_goals by blast
  then show ?thesis
  proof cases
    case 2
    have "move t (resume_row t)" by (rule move_from_held [OF _ 2(2)]) (simp_all add: resume_row_def)
    then show ?thesis using 2(1) unfolding 2(3) by (simp add: moves_put task_of_def)
  qed simp
qed

text \<open>The rows a cancellation of the goal can leave.\<close>

definition stopped_row :: "int \<Rightarrow> goal_task \<Rightarrow> goal_task" where
  "stopped_row now t = (exhaust_goal now t)\<lparr>taskState := ''CANCELLED'', taskCompletedAt := Some now\<rparr>"

lemma cancel_goals:
  "goals (snd (cancel_goal now a i w)) = goals w \<or>
   (\<exists>t. task_of i w = Some t \<and> has_goal t \<and> goalStatus t \<noteq> Some GComplete
      \<and> (goals (snd (cancel_goal now a i w)) = put_task i (exhaust_goal now t) (goals w)
         \<or> goals (snd (cancel_goal now a i w)) = put_task i (stopped_row now t) (put_task i (exhaust_goal now t) (goals w))))"
proof (cases "task_of i w")
  case (Some t)
  then show ?thesis
    by (simp add: cancel_goal_def Let_def goals_set_task task_of_def stopped_row_def split: prod.split)
qed (simp add: cancel_goal_def)

lemma move_exhaust: "has_goal t \<Longrightarrow> goalStatus t \<noteq> Some GComplete \<Longrightarrow> move t (exhaust_goal now t)"
  by (rule move_cancel) (simp_all add: exhaust_goal_def)

lemma move_stopped: "has_goal t \<Longrightarrow> goalStatus t \<noteq> Some GComplete \<Longrightarrow> move t (stopped_row now t)"
  by (rule move_cancel) (simp_all add: exhaust_goal_def stopped_row_def)

lemma put_put: "put_task i t (put_task i u w) = put_task i t w"
  by (simp add: put_task_def)

lemma moves_cancel_goal: "turn_moves w (snd (cancel_goal now a i w))"
  using cancel_goals [of now a i w]
  by (auto simp: put_put task_of_def intro!: moves_put move_exhaust move_stopped)

lemma move_cancelled: "move t (cancelled_row now t)"
proof (cases "has_goal t \<and> goalStatus t \<noteq> Some GComplete")
  case True
  then show ?thesis by (intro move_cancel) (simp_all add: cancelled_row_def)
next
  case False
  then show ?thesis by (intro core_move) (simp add: cancelled_row_def core_def)
qed

lemma moves_cancel_task: "turn_moves w (snd (cancel_task now i w))"
proof (cases "task_of i w")
  case (Some t)
  then have "goals (snd (cancel_task now i w)) = put_task i (cancelled_row now t) (goals w)"
    by (simp add: cancel_task_def Let_def goals_set_task split: prod.split)
  then show ?thesis using Some move_cancelled by (simp add: task_of_def moves_put)
qed (simp add: cancel_task_def)

lemma moves_stop: "turn_moves w (snd (stop_command now i w))"
proof (cases "task_of i w")
  case (Some t)
  then have "goals (snd (stop_command now i w)) = put_task i (cancelled_row now t) (goals w)"
    by (simp add: stop_command_def Let_def goals_set_task)
  then show ?thesis using Some move_cancelled by (simp add: task_of_def moves_put)
qed (simp add: stop_command_def)

lemma moves_charge: "turn_moves w (charge_tokens n i w)"
  by (auto simp: charge_tokens_def core_def split: option.split intro!: turn_moves_set core_move)

lemma moves_begin: "turn_moves w (snd (begin_turn job w))"
  by (auto simp: begin_turn_def core_def split: option.split intro!: turn_moves_set core_move)

text \<open>Two worlds whose rows differ in nothing that the life of a goal is about.\<close>

definition same_core :: "goal_world \<Rightarrow> goal_world \<Rightarrow> bool" where
  "same_core w w' = (\<forall>i. map_option core (tasks w' i) = map_option core (tasks w i))"

lemma same_core_refl [simp]: "same_core w w"
  by (simp add: same_core_def)

lemma move_then_core: "move t u \<Longrightarrow> core u' = core u \<Longrightarrow> move t u'"
  using core_phase [of u' u] core_wf [of u' u] by (auto simp: move_def)

lemma row_moves_then_core: "row_moves r s \<Longrightarrow> map_option core s' = map_option core s \<Longrightarrow> row_moves r s'"
proof (cases s)
  case (Some u)
  assume r: "row_moves r s" and c: "map_option core s' = map_option core s"
  then obtain u' where u': "s' = Some u'" "core u' = core u" using Some by (cases s') auto
  show ?thesis
  proof (cases r)
    case None
    then show ?thesis using r Some u' core_phase [of u' u] core_wf [of u' u] by simp
  next
    case (Some t)
    then show ?thesis using r \<open>s = Some u\<close> u' by (simp add: move_then_core)
  qed
qed (cases r; simp)

lemma moves_then_core: "moves w w1 \<Longrightarrow> same_core w1 w2 \<Longrightarrow> moves w w2"
  unfolding moves_def same_core_def using row_moves_then_core by blast

lemma goals_refresh [simp]: "goals (refresh_checkpoint e r w) = goals w"
  by (simp add: refresh_checkpoint_def split: option.split prod.split)

lemma surface_tasks:
  assumes "task_of i w = Some t"
  shows "\<exists>u. task_of i (surface_blocker e i t w) = Some u \<and> (u = t \<or> u = clear_verdict t)
    \<and> tasks (goals (surface_blocker e i t w)) = (tasks (goals w))(i \<mapsto> u)"
proof (cases "standing_blocker t = None \<or> standing_blocker t = Some []")
  case True
  then have "surface_blocker e i t w = w" by (auto simp: surface_blocker_def)
  then show ?thesis using assms by (auto simp: task_of_def)
next
  case False
  then obtain b where "standing_blocker t = Some b" "b \<noteq> []" by auto
  then show ?thesis using assms by (simp add: surface_blocker_def clearVerdict_def task_of_def)
qed

lemma continue_tasks:
  assumes "task_of (jobTask job) w = Some t"
  shows "\<exists>u. (u = t \<or> u = clear_verdict t)
    \<and> tasks (goals (continue_goal e job t w)) = (tasks (goals w))(jobTask job \<mapsto> count_iteration t u)"
proof -
  obtain u where u: "task_of (jobTask job) (surface_blocker (callEnv e) (jobTask job) t w) = Some u" "u = t \<or> u = clear_verdict t"
      "tasks (goals (surface_blocker (callEnv e) (jobTask job) t w)) = (tasks (goals w))(jobTask job \<mapsto> u)"
    using surface_tasks [OF assms] by blast
  then have "tasks (goals (continue_goal e job t w)) = (tasks (goals w))(jobTask job \<mapsto> count_iteration t u)"
    by (simp add: continue_goal_def Let_def goals_set_task task_of_def)
  then show ?thesis using u(2) by blast
qed

lemma hook_goals:
  "(fst (ralph_hook e job w) = False \<and> goals (snd (ralph_hook e job w)) = goals w)
   \<or> (\<exists>t. task_of (jobTask job) w = Some t \<and> has_goal t \<and> goalStatus t = Some GActive \<and> fst (ralph_hook e job w) = False
        \<and> goals (snd (ralph_hook e job w)) = put_task (jobTask job) (exhaust_goal (envNow (callEnv e)) t) (goals w))
   \<or> (\<exists>t. task_of (jobTask job) w = Some t \<and> has_goal t \<and> goalStatus t = Some GActive
        \<and> ralph_hook e job w = (True, continue_goal e job t w))"
proof (cases "task_of (jobTask job) w")
  case (Some t)
  then show ?thesis by (simp add: ralph_hook_def Let_def goals_set_task)
qed (simp add: ralph_hook_def)

lemma moves_hook: "turn_moves w (snd (ralph_hook e job w))"
proof -
  consider "goals (snd (ralph_hook e job w)) = goals w"
    | t where "task_of (jobTask job) w = Some t" "has_goal t" "goalStatus t = Some GActive"
        "goals (snd (ralph_hook e job w)) = put_task (jobTask job) (exhaust_goal (envNow (callEnv e)) t) (goals w)"
    | t where "task_of (jobTask job) w = Some t" "has_goal t" "goalStatus t = Some GActive"
        "ralph_hook e job w = (True, continue_goal e job t w)"
    using hook_goals by blast
  then show ?thesis
  proof cases
    case 2
    have "move t (exhaust_goal (envNow (callEnv e)) t)" by (rule move_exhaust) (use 2 in simp_all)
    then show ?thesis using 2(1) unfolding 2(4) by (simp add: moves_put task_of_def)
  next
    case 3
    obtain u where u: "u = t \<or> u = clear_verdict t"
      "tasks (goals (continue_goal e job t w)) = (tasks (goals w))(jobTask job \<mapsto> count_iteration t u)"
      using continue_tasks [OF 3(1)] by blast
    have "move t (count_iteration t u)"
      by (rule move_from_active [OF _ 3(2,3)]) (use u(1) 3(3) in \<open>auto simp: count_iteration_def clear_verdict_def\<close>)
    then show ?thesis using moves_tasks [OF u(2)] 3(1,4) by (simp add: task_of_def)
  qed simp
qed

lemma terminal_core: "f \<noteq> FFailed \<Longrightarrow> f \<noteq> FCancelled \<Longrightarrow> core (terminal_row now f t) = core t"
  by (simp add: terminal_row_def goal_cleanup_def core_def)

lemma terminal_goals:
  "goals (write_terminal now job f w) = (case task_of (jobTask job) w of None \<Rightarrow> goals w
     | Some t \<Rightarrow> put_task (jobTask job) (terminal_row now f t) (goals w))"
  by (simp add: write_terminal_def Let_def goals_set_task split: option.split)

lemma terminal_same_core: "f \<noteq> FFailed \<Longrightarrow> f \<noteq> FCancelled \<Longrightarrow> same_core (goals w) (goals (write_terminal now job f w))"
  by (auto simp: terminal_goals same_core_def task_of_def terminal_core split: option.split)

lemma move_terminal: "move t (terminal_row now f t)"
proof (cases "(f = FFailed \<or> f = FCancelled) \<and> has_goal t \<and> goalStatus t = Some GActive")
  case True
  then show ?thesis
    by (intro move_from_active [of _ _ GCancelled]) (simp_all add: terminal_row_def goal_cleanup_def exhaust_goal_def)
next
  case False
  then have "terminal_row now f t = t\<lparr>taskState := show_final f,
      taskCompletedAt := if f = FPaused \<or> f = FAwaitingTeammates then taskCompletedAt t else Some now\<rparr>"
    by (auto simp: terminal_row_def goal_cleanup_def)
  then show ?thesis by (intro core_move) (simp add: core_def)
qed

lemma moves_terminal: "turn_moves w (write_terminal now job f w)"
  by (auto simp: terminal_goals task_of_def move_terminal split: option.split intro!: moves_put)

lemma moves_finish: "turn_moves w (finish_turn e job r w)"
proof (cases "base_final_state (jobTask job) r w = FDone")
  case True
  have hook: "turn_moves w (snd (ralph_hook e job w))" by (rule moves_hook)
  show ?thesis
  proof (cases "fst (ralph_hook e job w)")
    case requeued: True
    then show ?thesis using True hook by (simp add: finish_turn_def Let_def split: prod.split) auto
  next
    case False
    then obtain w1 where h: "ralph_hook e job w = (False, w1)" by (cases "ralph_hook e job w") simp
    let ?f = "if teammates_pending (jobTask job) w1 then FAwaitingTeammates else FDone"
    have "finish_turn e job r w = write_terminal (envNow (callEnv e)) job ?f w1"
      using True h by (simp add: finish_turn_def Let_def)
    moreover have "same_core (goals w1) (goals (write_terminal (envNow (callEnv e)) job ?f w1))"
      by (rule terminal_same_core) simp_all
    ultimately show ?thesis using moves_then_core hook h by simp
  qed
next
  case False
  then have "finish_turn e job r w = write_terminal (envNow (callEnv e)) job (base_final_state (jobTask job) r w) w"
    by (simp add: finish_turn_def Let_def)
  then show ?thesis using moves_terminal by simp
qed

lemma create_row_wf: "row_wf (create_row t goal) \<and> (phase (create_row t goal) = NoGoal \<or> phase (create_row t goal) = Running)"
  by (auto simp: create_row_def plain_row_def create_with_goal_def row_wf_def phase_def has_goal_def split: option.split)

lemma moves_create: "turn_moves w (perform (OpCreate i t goal) w)"
  using create_row_wf [of t goal] by (auto simp: moves_def goals_set_task task_of_def)

lemma goals_on_goals [simp]: "goals (on_goals f w) = f (goals w)"
  by (simp add: on_goals_def)

lemmas goal_moves = moves_start moves_edit moves_subgoals moves_verdict moves_submit moves_complete moves_plan_tools

lemmas control_moves = moves_pause moves_resume moves_cancel_goal moves_cancel_task moves_stop moves_charge moves_begin moves_finish

lemma perform_moves: "turn_moves w (perform op w)"
proof (cases op)
  case (OpCreate i t goal)
  then show ?thesis using moves_create by simp
qed (simp_all add: goal_moves control_moves)

section \<open>The machine of goals\<close>

inductive goal_step :: "turn_world \<Rightarrow> turn_world \<Rightarrow> bool" where
  goal_step: "goal_step w (perform op w)"

inductive_cases goal_stepE: "goal_step w w'"

definition goal_init :: "turn_world \<Rightarrow> bool" where
  "goal_init w = (tasks (goals w) = Map.empty)"

definition rows_wf :: "turn_world \<Rightarrow> bool" where
  "rows_wf w = (\<forall>i t. task_of i w = Some t \<longrightarrow> row_wf t)"

text \<open>Tasks stay, and a finished goal keeps its objective, status, count, end and id.\<close>

definition finished_kept :: "turn_world \<Rightarrow> turn_world \<Rightarrow> bool" where
  "finished_kept w w' = (\<forall>i t. task_of i w = Some t \<longrightarrow>
     (\<exists>t'. task_of i w' = Some t' \<and> (phase t = Finished \<longrightarrow> core t' = core t)))"

lemma moved_row:
  assumes "turn_moves w w'" and "task_of i w' = Some t'"
  shows "(task_of i w = None \<and> row_wf t' \<and> (phase t' = NoGoal \<or> phase t' = Running)) \<or> (\<exists>t. task_of i w = Some t \<and> move t t')"
  using assms by (cases "task_of i w") (auto simp: moves_def task_of_def dest!: spec [of _ i])

lemma kept_row:
  assumes "turn_moves w w'" and "task_of i w = Some t"
  shows "\<exists>t'. task_of i w' = Some t' \<and> move t t'"
  using assms by (cases "task_of i w'") (auto simp: moves_def task_of_def dest!: spec [of _ i])

lemma perform_wf: "rows_wf w \<Longrightarrow> rows_wf (perform op w)"
  unfolding rows_wf_def using moved_row [OF perform_moves] by (fastforce simp: move_def)

lemma perform_kept: "rows_wf w \<Longrightarrow> finished_kept w (perform op w)"
  unfolding rows_wf_def finished_kept_def using kept_row [OF perform_moves] by (fastforce simp: move_def)

interpretation goal_life: monotone_system goal_init goal_step rows_wf finished_kept
proof
  show "rows_wf w" if "goal_init w" for w
    using that by (simp add: goal_init_def rows_wf_def task_of_def)
  show "rows_wf w'" if "rows_wf w" "goal_step w w'" for w w'
    using that by (auto elim!: goal_stepE intro: perform_wf)
  show "finished_kept w w" for w by (simp add: finished_kept_def)
  show "finished_kept u w" if "finished_kept u v" "finished_kept v w" for u v w
    using that core_phase unfolding finished_kept_def by metis
  show "finished_kept w w'" if "rows_wf w" "goal_step w w'" for w w'
    using that by (auto elim!: goal_stepE intro: perform_kept)
qed

lemma perform_reach: "reach goal_init goal_step w \<Longrightarrow> reach goal_init goal_step (perform op w)"
  by (rule reach_step) (auto intro: goal_step)

end
