(* ===== verification/Goal_Loop.thy ===== *)
theory Goal_Loop
  imports Goal_Lifecycle
begin

text \<open>
  What goal mode guarantees: the life of a goal, the gate before its completion, the bounds of its loop; and what the operations
  together leave open.
\<close>

section \<open>A world for the examples\<close>

definition blank_task :: goal_task where
  "blank_task = \<lparr>taskState = ''EXECUTING'', taskTitle = None, taskDescription = None, taskWorkspace = ''w'', taskCompletedAt = None,
     goalObjective = None, goalStatus = None, goalStartedAt = None, goalIterations = None, goalTokensUsed = None,
     goalCompletedAt = None, goalId = None, goalMaxWallSeconds = None, goalTokenBudget = None, goalPlanPath = None,
     goalSubgoals = None, goalObjectiveEditedAt = None, goalLastVerifierVerdict = None, goalLastVerifierAt = None,
     goalLastVerifierBlocker = None, goalEvaluatorParseFailures = None\<rparr>"

definition empty_world :: turn_world where
  "empty_world = \<lparr>goals = \<lparr>tasks = Map.empty, plans = Map.empty\<rparr>, mails = [], pool = new_worker 4, runtimes = [],
     checkpoints = Map.empty, turnEvents = [], aborted = []\<rparr>"

definition sample_input :: start_goal_input where
  "sample_input = \<lparr>startObjective = ''ship'', startTokenBudget = Some 100, startMaxWallSeconds = Some 60\<rparr>"

definition goal_row :: goal_task where
  "goal_row = create_row blank_task (Some (1000, ''g1'', sample_input))"

definition goal_world_1 :: turn_world where
  "goal_world_1 = set_task ''t1'' goal_row empty_world"

definition sample_env :: call_env where
  "sample_env = \<lparr>envDisk = False, envBase = (\<lambda>_. ''/w''), envNow = 2000, envStamp = ''now''\<rparr>"

definition sample_turn :: turn_env where
  "sample_turn = \<lparr>callEnv = sample_env, templateBody = (\<lambda>_. ''go on''), freshContextEnv = Some ''0'', freshMail = ''m1'',
     freshRequest = ''r2''\<rparr>"

definition goal_job :: task_job where
  "goal_job = (sample_job ''t1'')\<lparr>jobRequest := ''r1''\<rparr>"

lemma empty_world_reach: "reach goal_init goal_step empty_world"
  by (rule reach_init) (simp add: goal_init_def empty_world_def)

lemma goal_world_1_made: "goal_world_1 = perform (OpCreate ''t1'' blank_task (Some (1000, ''g1'', sample_input))) empty_world"
  by (simp add: goal_world_1_def goal_row_def task_of_def empty_world_def)

lemma goal_world_1_reach: "reach goal_init goal_step goal_world_1"
  unfolding goal_world_1_made by (rule perform_reach [OF empty_world_reach])

lemma goal_row_values [simp]:
  "has_goal goal_row" "goalStatus goal_row = Some GActive" "goalIterations goal_row = Some 0" "goalStartedAt goal_row = Some 1000"
  "goalTokensUsed goal_row = Some 0" "goalTokenBudget goal_row = Some 100" "goalMaxWallSeconds goal_row = Some 60"
  "goalLastVerifierVerdict goal_row = None" "goalObjective goal_row = Some ''ship''" "goalId goal_row = Some ''g1''"
  "taskWorkspace goal_row = ''w''" "goalObjectiveEditedAt goal_row = None" "goalSubgoals goal_row = None"
  "taskState goal_row = ''EXECUTING''" "goalEvaluatorParseFailures goal_row = None"
  by (simp_all add: goal_row_def create_row_def create_with_goal_def plain_row_def blank_task_def sample_input_def has_goal_def)

lemma task_of_set [simp]: "task_of i (set_task j t w) = (if i = j then Some t else task_of i w)"
  by (simp add: task_of_def goals_set_task)

lemma task_of_world_1 [simp]: "task_of i goal_world_1 = (if i = ''t1'' then Some goal_row else None)"
  by (simp add: goal_world_1_def) (simp add: task_of_def empty_world_def)

section \<open>Properties\<close>

text \<open>
  C9: Every operation of goal mode, on every reachable world and every task, refines the automaton of the design: a goal is
  started, held and continued, and ends as finished or stopped; a finished goal never moves again and a stopped one can only be
  started anew.
\<close>

theorem goal_life_refines_the_automaton:
  assumes "reach goal_init goal_step w" and "task_of i w = Some t"
  shows "\<exists>t'. task_of i (perform op w) = Some t' \<and> phase_step (phase t) (phase t') \<and> row_wf t'"
proof -
  have "row_wf t" using goal_life.reach_inv [OF assms(1)] assms(2) by (simp add: rows_wf_def)
  then show ?thesis using kept_row [OF perform_moves assms(2)] by (auto simp: move_def)
qed

theorem goal_life_refines_the_automaton_witness:
  "\<exists>t'. task_of ''t1'' (perform (OpPause 3000 ''t1'') goal_world_1) = Some t' \<and> phase_step (phase goal_row) (phase t') \<and> row_wf t'"
  by (rule goal_life_refines_the_automaton [OF goal_world_1_reach]) simp

text \<open>
  Once a goal is complete, no sequence of operations reopens it: its objective, status, iteration count, end and id stay, and
  the guard of the leader's loop that ends a run on a completed goal holds on every later run of the task.
\<close>

theorem finished_goal_is_final:
  assumes "reach goal_init goal_step w" and "goal_step\<^sup>*\<^sup>* w w'" and "task_of i w = Some t" and "goal_complete_halt i w"
  shows "\<exists>t'. task_of i w' = Some t' \<and> core t' = core t \<and> goal_complete_halt i w'"
proof -
  have "phase t = Finished" using assms(3,4) by (simp add: goal_complete_halt_def phase_def)
  moreover have "finished_kept w w'" by (rule goal_life.reach_steps_le [OF assms(1,2)])
  ultimately obtain t' where t': "task_of i w' = Some t'" "core t' = core t"
    using assms(3) unfolding finished_kept_def by blast
  then have "goal_complete_halt i w'" using assms(3,4) by (simp add: goal_complete_halt_def core_def has_goal_def)
  with t' show ?thesis by blast
qed

definition audit_args :: complete_args where
  "audit_args = \<lparr>argSummary = ''done'', argEvidence = [], argTrivial = False, argForce = False, argExpectedGoalId = None\<rparr>"

lemma completed_row: "task_of ''t1'' (perform (OpComplete sample_env ''t1'' audit_args) goal_world_1) = Some (completed_goal 2000 goal_row)"
proof -
  have "tasks (goals goal_world_1) ''t1'' = Some goal_row" using task_of_world_1 [of "''t1''"] by (simp add: task_of_def)
  then show ?thesis
    by (simp add: task_of_def mark_goal_complete_def audit_args_def id_mismatch_def sample_env_def Let_def)
qed

theorem finished_goal_is_final_witness:
  "\<exists>t'. task_of ''t1'' (perform (OpCancelTask 9000 ''t1'') (perform (OpComplete sample_env ''t1'' audit_args) goal_world_1)) = Some t'
    \<and> goal_complete_halt ''t1'' (perform (OpCancelTask 9000 ''t1'') (perform (OpComplete sample_env ''t1'' audit_args) goal_world_1))"
proof -
  let ?w = "perform (OpComplete sample_env ''t1'' audit_args) goal_world_1"
  have r: "reach goal_init goal_step ?w" by (rule perform_reach [OF goal_world_1_reach])
  have s: "goal_step\<^sup>*\<^sup>* ?w (perform (OpCancelTask 9000 ''t1'') ?w)" by (blast intro: goal_step)
  have h: "goal_complete_halt ''t1'' ?w"
    unfolding goal_complete_halt_def completed_row by (simp add: completed_goal_def has_goal_def)
  show ?thesis using finished_goal_is_final [OF r s completed_row h] by blast
qed

text \<open>
  Exactly when the leader's completion succeeds: the task has an active goal, the goal id the caller expects is not another
  one, the last verdict is not a rejection unless the call is forced, and the trivial path is taken on iteration zero only. A
  success sets the row of a complete goal; everything else leaves the tasks as they are.
\<close>

theorem completion_is_gated:
  "is_completed (fst (mark_goal_complete e i a w)) =
     (\<exists>t. tasks w i = Some t \<and> has_goal t \<and> goalStatus t = Some GActive \<and> \<not> id_mismatch (argExpectedGoalId a) t
        \<and> (goalLastVerifierVerdict t \<noteq> Some VBlocked \<or> argForce a) \<and> (argTrivial a \<longrightarrow> iterations_of t = 0))
   \<and> tasks (snd (mark_goal_complete e i a w)) =
     (if is_completed (fst (mark_goal_complete e i a w)) then (tasks w)(i \<mapsto> completed_goal (envNow e) (the (tasks w i))) else tasks w)"
proof (cases "tasks w i")
  case (Some t)
  then show ?thesis by (auto simp: mark_goal_complete_def Let_def)
qed (simp add: mark_goal_complete_def)

theorem completion_is_gated_witness:
  "is_completed (fst (mark_goal_complete sample_env ''t1'' audit_args (goals goal_world_1)))"
proof -
  have "tasks (goals goal_world_1) ''t1'' = Some goal_row" using task_of_world_1 [of "''t1''"] by (simp add: task_of_def)
  then show ?thesis using completion_is_gated [of sample_env "''t1''" audit_args "goals goal_world_1"]
    by (simp add: audit_args_def id_mismatch_def)
qed

section \<open>The loop\<close>

lemma charge_row: "task_of i w = Some t \<Longrightarrow> task_of i (charge_tokens n i w) = Some (t\<lparr>goalTokensUsed := Some (tokens_used t + n)\<rparr>)"
  by (simp add: charge_tokens_def tokens_used_def)

lemma continued_row:
  assumes "task_of (jobTask job) w = Some t"
  shows "\<exists>t'. task_of (jobTask job) (continue_goal e job t w) = Some t' \<and> tokens_used t' = tokens_used t
    \<and> goalTokenBudget t' = goalTokenBudget t \<and> goalMaxWallSeconds t' = goalMaxWallSeconds t \<and> goalStartedAt t' = goalStartedAt t
    \<and> iterations_of t' = iterations_of t + 1 \<and> goalStatus t' = goalStatus t \<and> goalObjective t' = goalObjective t
    \<and> \<not> objective_edited t'"
proof -
  obtain u where u: "u = t \<or> u = clear_verdict t"
    "tasks (goals (continue_goal e job t w)) = (tasks (goals w))(jobTask job \<mapsto> count_iteration t u)"
    using continue_tasks [OF assms] by blast
  then show ?thesis
    by (auto simp: task_of_def count_iteration_def clear_verdict_def tokens_used_def iterations_of_def objective_edited_def
        split: option.splits)
qed

text \<open>
  The turns of a goal that end cleanly, each with its environment and the tokens its model calls were charged: how many in a row
  are continued.
\<close>

fun continuations :: "(turn_env \<times> int) list \<Rightarrow> task_job \<Rightarrow> turn_world \<Rightarrow> nat" where
  "continuations [] job w = 0"
| "continuations ((e, n) # turns) job w =
     (case ralph_hook e job (charge_tokens n (jobTask job) w) of
        (True, w') \<Rightarrow> Suc (continuations turns job w')
      | (False, w') \<Rightarrow> 0)"

lemma hook_continues:
  assumes "ralph_hook e job w = (True, w')"
  obtains t where "task_of (jobTask job) w = Some t" "has_goal t" "goalStatus t = Some GActive"
    "\<not> teammates_pending (jobTask job) w" "\<not> wallExceeded (envNow (callEnv e)) t" "\<not> tokenBudgetExceeded t"
    "w' = continue_goal e job t w"
  using assms by (auto simp: ralph_hook_def Let_def split: option.splits if_splits)

lemma charged_loop_ends:
  assumes "task_of (jobTask job) w = Some t" and "goalTokenBudget t = Some b" and "0 < b"
    and "\<forall>(e, n)\<in>set turns. 1 \<le> n" and "0 < continuations turns job w"
  shows "2 * (tokens_used t + int (continuations turns job w)) < 3 * b"
  using assms
proof (induction turns arbitrary: w t)
  case (Cons x turns)
  obtain e n where x: "x = (e, n)" by (cases x)
  let ?t = "t\<lparr>goalTokensUsed := Some (tokens_used t + n)\<rparr>"
  let ?w = "charge_tokens n (jobTask job) w"
  have row: "task_of (jobTask job) ?w = Some ?t" by (rule charge_row [OF Cons.prems(1)])
  have used: "tokens_used ?t = tokens_used t + n" by (simp add: tokens_used_def)
  obtain w' where h: "ralph_hook e job ?w = (True, w')"
    using Cons.prems(5) unfolding x by (auto split: prod.splits bool.splits)
  have below: "\<not> tokenBudgetExceeded ?t" and w': "w' = continue_goal e job ?t ?w"
    using hook_continues [OF h] row by auto
  have n: "1 \<le> n" using Cons.prems(4) x by auto
  have cap: "2 * (tokens_used t + n) < 3 * b" using below Cons.prems(2,3) used by (simp add: tokenBudgetExceeded_def)
  obtain t' where t': "task_of (jobTask job) w' = Some t'" "tokens_used t' = tokens_used t + n" "goalTokenBudget t' = Some b"
    using continued_row [OF row, of e] Cons.prems(2) used unfolding w' by auto
  have count: "continuations (x # turns) job w = Suc (continuations turns job w')" by (simp add: x h)
  show ?case
  proof (cases "continuations turns job w' = 0")
    case True
    then show ?thesis using cap n by (simp add: count)
  next
    case False
    then have "2 * (tokens_used t' + int (continuations turns job w')) < 3 * b"
      using Cons.IH [OF t'(1,3) Cons.prems(3)] Cons.prems(4) by simp
    then show ?thesis using t'(2) n by (simp add: count)
  qed
qed simp

text \<open>
  C10: Goal mode ends: whatever the model does, if every turn is charged at least one token, a goal with a token budget is continued
  fewer than one and a half times its budget, however many turns there are.
\<close>

theorem goal_loop_ends:
  assumes "task_of (jobTask job) w = Some t" and "goalTokenBudget t = Some b" and "0 < b" and "0 \<le> tokens_used t"
    and "\<forall>(e, n)\<in>set turns. 1 \<le> n"
  shows "2 * int (continuations turns job w) < 3 * b"
proof (cases "continuations turns job w = 0")
  case False
  then show ?thesis using charged_loop_ends [OF assms(1-3,5)] assms(4) by simp
qed (use assms(3) in simp)

theorem goal_loop_ends_witness:
  "2 * int (continuations [(sample_turn, 90), (sample_turn, 70)] goal_job goal_world_1) < 3 * 100"
  by (rule goal_loop_ends [of _ _ goal_row])
    (simp_all add: goal_job_def sample_job_def tokens_used_def)

lemma continue_mail:
  "\<exists>m. mails (continue_goal e job t w) = mails w @ [m] \<and> mailTask m = jobTask job \<and> mailConsumedAt m = None"
proof -
  have "mails (surface_blocker (callEnv e) (jobTask job) t w) = mails w" by (simp add: surface_blocker_def split: option.split)
  moreover have "mails (refresh_checkpoint e r v) = mails v" for r v
    by (simp add: refresh_checkpoint_def split: option.split prod.split)
  moreover have "mails (set_task i u v) = mails v" for i u v by (simp add: set_task_def)
  ultimately show ?thesis by (simp add: continue_goal_def Let_def split: option.split)
qed

lemma continue_pool:
  "immediates (pool (continue_goal e job t w))
    = immediates (pool w) @ [job\<lparr>jobRequest := freshRequest e, jobPrompt := []\<rparr>]"
proof -
  have "pool (surface_blocker (callEnv e) (jobTask job) t w) = pool w" by (simp add: surface_blocker_def split: option.split)
  moreover have "pool (refresh_checkpoint e r v) = pool v" for r v
    by (simp add: refresh_checkpoint_def split: option.split prod.split)
  moreover have "pool (set_task i u v) = pool v" for i u v by (simp add: set_task_def)
  ultimately show ?thesis by (simp add: continue_goal_def Let_def requeueAfterCurrent_def split: option.split)
qed

text \<open>
  The hook at the end of a clean turn continues a goal exactly when the goal is active, no background teammate is running or
  waiting to be heard, less wall time than the cap has passed and less than one and a half times the token budget is used. It
  then leaves one message in the mailbox, schedules the same run once more, counts the iteration and clears the edit mark.
\<close>

theorem goal_continues_within_its_budgets:
  assumes "task_of (jobTask job) w = Some t" and "ralph_hook e job w = (c, w')"
  shows "c = (has_goal t \<and> goalStatus t = Some GActive \<and> \<not> teammates_pending (jobTask job) w
      \<and> \<not> wallExceeded (envNow (callEnv e)) t \<and> \<not> tokenBudgetExceeded t)
    \<and> (c \<longrightarrow> (\<exists>t' m. task_of (jobTask job) w' = Some t' \<and> iterations_of t' = iterations_of t + 1 \<and> \<not> objective_edited t'
         \<and> mails w' = mails w @ [m] \<and> mailTask m = jobTask job \<and> mailConsumedAt m = None
         \<and> map jobRun (immediates (pool w')) = map jobRun (immediates (pool w)) @ [jobRun job]))"
proof -
  have c: "c = (has_goal t \<and> goalStatus t = Some GActive \<and> \<not> teammates_pending (jobTask job) w
      \<and> \<not> wallExceeded (envNow (callEnv e)) t \<and> \<not> tokenBudgetExceeded t)"
    using assms by (auto simp: ralph_hook_def Let_def split: if_splits)
  moreover have "\<exists>t' m. task_of (jobTask job) w' = Some t' \<and> iterations_of t' = iterations_of t + 1 \<and> \<not> objective_edited t'
         \<and> mails w' = mails w @ [m] \<and> mailTask m = jobTask job \<and> mailConsumedAt m = None
         \<and> map jobRun (immediates (pool w')) = map jobRun (immediates (pool w)) @ [jobRun job]" if "c"
  proof -
    have w': "w' = continue_goal e job t w"
      using assms that by (auto simp: ralph_hook_def Let_def split: if_splits)
    show ?thesis unfolding w'
      using continued_row [OF assms(1), of e] continue_mail [of e job t w] by (auto simp: continue_pool)
  qed
  ultimately show ?thesis by blast
qed

theorem goal_continues_within_its_budgets_witness:
  "fst (ralph_hook sample_turn goal_job goal_world_1)"
proof -
  have j: "jobTask goal_job = ''t1''" by (simp add: goal_job_def sample_job_def)
  have t: "task_of (jobTask goal_job) goal_world_1 = Some goal_row" by (simp add: j)
  have p: "\<not> teammates_pending ''t1'' goal_world_1"
    by (simp add: teammates_pending_def listActiveBackgroundTeammates_def countUnconsumedTeammateCompletions_def goal_world_1_def
        set_task_def empty_world_def)
  obtain c w' where h: "ralph_hook sample_turn goal_job goal_world_1 = (c, w')" by (cases "ralph_hook sample_turn goal_job goal_world_1")
  have "c"
    using goal_continues_within_its_budgets [OF t h] p
    by (simp add: j wallExceeded_def wall_seconds_def sample_turn_def sample_env_def tokenBudgetExceeded_def tokens_used_def)
  then show ?thesis by (simp add: h)
qed

section \<open>Subgoals\<close>

lemma drop_index_eq: "k < length xs \<Longrightarrow> drop_index k xs = take k xs @ drop (Suc k) xs"
  by (induction k xs rule: drop_index.induct) auto

lemma parse_rendered: "[] \<notin> set xs \<Longrightarrow> parseSubgoals (Some (subgoals_json xs)) = xs"
proof -
  assume n: "[] \<notin> set xs"
  have "List.map_filter json_as_str (map JStr xs) = xs" by (induction xs) simp_all
  then show ?thesis using n by (simp add: parseSubgoals_def subgoals_json_def filter_id_conv) (metis filter_True)
qed

lemma parse_stored: "[] \<notin> set xs \<Longrightarrow> parseSubgoals (if xs = [] then None else Some (subgoals_json xs)) = xs"
  by (cases "xs = []") (simp add: parseSubgoals_def, simp add: parse_rendered)

lemma parsed_nonempty: "[] \<notin> set (parseSubgoals raw)"
  by (auto simp: parseSubgoals_def split: option.splits json.splits)

text \<open>
  What the subgoal operations store is what they report and what the next reader parses: an accepted addition appends the
  trimmed text, an accepted removal takes out the entry with that number and no other, and a clearing leaves none; the list
  never exceeds its limit by an addition.
\<close>

theorem subgoals_round_trip:
  "(fst (addSubgoal i s w) = Inr added \<longrightarrow>
      added = (case listSubgoals i w of Inr xs \<Rightarrow> xs) @ [js_trim s] \<and> length added \<le> MAX_SUBGOALS
      \<and> listSubgoals i (snd (addSubgoal i s w)) = Inr added)
   \<and> (fst (removeSubgoal i (Some k) w) = Inr rest \<longrightarrow>
      rest = (case listSubgoals i w of Inr xs \<Rightarrow> take (nat k - 1) xs @ drop (nat k) xs)
      \<and> listSubgoals i (snd (removeSubgoal i (Some k) w)) = Inr rest)
   \<and> (fst (clearSubgoals i w) = Inr none \<longrightarrow> none = [] \<and> listSubgoals i (snd (clearSubgoals i w)) = Inr [])"
proof -
  have add: "added = (case listSubgoals i w of Inr xs \<Rightarrow> xs) @ [js_trim s] \<and> length added \<le> MAX_SUBGOALS
      \<and> listSubgoals i (snd (addSubgoal i s w)) = Inr added" if ok: "fst (addSubgoal i s w) = Inr added"
  proof -
    obtain t where t: "tasks w i = Some t" "has_goal t" "js_trim s \<noteq> []" "length (parseSubgoals (goalSubgoals t)) < MAX_SUBGOALS"
        "added = parseSubgoals (goalSubgoals t) @ [js_trim s]"
        "snd (addSubgoal i s w) = put_task i (t\<lparr>goalSubgoals := Some (subgoals_json added)\<rparr>) w"
      using ok by (auto simp: addSubgoal_def Let_def split: option.splits if_splits)
    have "[] \<notin> set added" using t(3,5) parsed_nonempty by simp
    then show ?thesis using t by (simp add: listSubgoals_def has_goal_def parse_rendered)
  qed
  have rem: "rest = (case listSubgoals i w of Inr xs \<Rightarrow> take (nat k - 1) xs @ drop (nat k) xs)
      \<and> listSubgoals i (snd (removeSubgoal i (Some k) w)) = Inr rest" if ok: "fst (removeSubgoal i (Some k) w) = Inr rest"
  proof -
    obtain t where t: "tasks w i = Some t" "has_goal t" "1 \<le> k" "k \<le> int (length (parseSubgoals (goalSubgoals t)))"
        "rest = drop_index (nat k - 1) (parseSubgoals (goalSubgoals t))"
        "snd (removeSubgoal i (Some k) w)
          = put_task i (t\<lparr>goalSubgoals := if rest = [] then None else Some (subgoals_json rest)\<rparr>) w"
      using ok by (auto simp: removeSubgoal_def Let_def split: option.splits if_splits)
    let ?xs = "parseSubgoals (goalSubgoals t)"
    have cut: "rest = take (nat k - 1) ?xs @ drop (nat k) ?xs"
      using t(3,4) unfolding t(5) by (subst drop_index_eq) (auto simp: Suc_diff_1)
    then have "[] \<notin> set rest" using parsed_nonempty [of "goalSubgoals t"] by (auto dest: in_set_takeD in_set_dropD)
    then have "parseSubgoals (if rest = [] then None else Some (subgoals_json rest)) = rest" by (rule parse_stored)
    moreover have "listSubgoals i w = Inr ?xs" using t(1,2) by (simp add: listSubgoals_def)
    moreover have "listSubgoals i (snd (removeSubgoal i (Some k) w))
        = Inr (parseSubgoals (if rest = [] then None else Some (subgoals_json rest)))"
      using t(1,2) unfolding t(6) by (simp add: listSubgoals_def has_goal_def del: if_split)
    ultimately show ?thesis using cut by simp
  qed
  have clr: "none = [] \<and> listSubgoals i (snd (clearSubgoals i w)) = Inr []" if "fst (clearSubgoals i w) = Inr none"
    using that by (auto simp: clearSubgoals_def listSubgoals_def has_goal_def parseSubgoals_def split: option.splits if_splits)
  show ?thesis using add rem clr by blast
qed

theorem subgoals_round_trip_witness:
  "listSubgoals ''t1'' (snd (addSubgoal ''t1'' '' tests pass '' (goals goal_world_1))) = Inr [''tests pass'']"
proof -
  have t: "tasks (goals goal_world_1) ''t1'' = Some goal_row" using task_of_world_1 [of "''t1''"] by (simp add: task_of_def)
  have trimmed: "js_trim '' tests pass '' = ''tests pass''" by code_simp
  have "fst (addSubgoal ''t1'' '' tests pass '' (goals goal_world_1)) = Inr [''tests pass'']"
    unfolding addSubgoal_def trimmed
    by (simp add: Let_def t utf8_length_def MAX_SUBGOAL_BYTES_def MAX_SUBGOALS_def parseSubgoals_def)
  then show ?thesis
    using subgoals_round_trip [of "''t1''" "'' tests pass ''" "goals goal_world_1" "[''tests pass'']"] by blast
qed

section \<open>What the operations leave open\<close>

text \<open>
  A rejection by the evaluator stands for one turn only: the continuation that surfaces it also clears it, and the next call of
  \<open>mark_goal_complete\<close> succeeds although no evaluator has looked again. Nothing anywhere asks for a ready verdict.
\<close>

theorem rejection_lasts_one_turn:
  assumes "ralph_hook e job w = (True, w')" and "task_of (jobTask job) w = Some t"
    and "standing_blocker t = Some b" and "b \<noteq> []"
  shows "\<exists>t'. task_of (jobTask job) w' = Some t' \<and> goalLastVerifierVerdict t' = None
    \<and> is_completed (fst (mark_goal_complete e' (jobTask job) audit_args (goals w')))"
proof -
  have t: "has_goal t" "goalStatus t = Some GActive" and w': "w' = continue_goal e job t w"
    using hook_continues [OF assms(1)] assms(2) by auto
  have "surface_blocker (callEnv e) (jobTask job) t w
      = w\<lparr>goals := clearVerdict (jobTask job) (log_entry (callEnv e) (jobTask job) t (iterations_of t + 1) LogBlocked b (goals w))\<rparr>"
    using assms(3,4) by (simp add: surface_blocker_def)
  then have row: "task_of (jobTask job) w' = Some (count_iteration t (clear_verdict t))"
    using assms(2) unfolding w' by (simp add: continue_goal_def Let_def task_of_def goals_set_task clearVerdict_def)
  then have "is_completed (fst (mark_goal_complete e' (jobTask job) audit_args (goals w')))"
    using t by (simp add: mark_goal_complete_def Let_def task_of_def audit_args_def id_mismatch_def count_iteration_def
        clear_verdict_def has_goal_def)
  then show ?thesis using row by (simp add: count_iteration_def clear_verdict_def)
qed

text \<open>
  Cancelling the goal while its turn runs only aborts the run; the end of the turn finds a task that is not marked cancelled, and
  the task fails. The cancellation of the task marks it first.
\<close>

theorem cancelled_goal_fails_its_task:
  assumes "task_of (jobTask job) w = Some t" and "has_goal t" and "goalStatus t = Some GActive" and "taskState t \<noteq> ''CANCELLED''"
    and "has_controller (jobTask job) (pool w)" and "starts_with (loopReason r) ''aborted''"
  shows "map_option taskState (task_of (jobTask job) (finish_turn e job r (snd (cancel_goal now a (jobTask job) w)))) = Some ''FAILED''
    \<and> map_option taskState (task_of (jobTask job) (finish_turn e job r (snd (cancel_task now (jobTask job) w)))) = Some ''CANCELLED''"
proof -
  let ?i = "jobTask job"
  have reason: "loopReason r \<noteq> ''completed''" using assms(6) by auto
  have after: "task_of ?i (write_terminal n job f v) = map_option (terminal_row n f) (task_of ?i v)" for n f v
    by (simp add: task_of_def terminal_goals split: option.split)
  have "task_of ?i (snd (cancel_goal now a ?i w)) = Some (exhaust_goal now t)"
    using assms(1-3,5) by (simp add: cancel_goal_def Let_def set_task_def) (simp add: task_of_def put_task_def)
  moreover have "taskState (exhaust_goal now t) \<noteq> ''CANCELLED''" using assms(4) by (simp add: exhaust_goal_def)
  ultimately have goal: "map_option taskState (task_of ?i (finish_turn e job r (snd (cancel_goal now a ?i w)))) = Some ''FAILED''"
    using reason by (simp add: finish_turn_def base_final_state_def Let_def after terminal_row_def)
  have "goals (snd (cancel_task now ?i w)) = put_task ?i (cancelled_row now t) (goals w)"
    using assms(1) by (simp add: cancel_task_def Let_def goals_set_task split: prod.split)
  then have "task_of ?i (snd (cancel_task now ?i w)) = Some (cancelled_row now t)" by (simp add: task_of_def)
  moreover have "taskState (cancelled_row now t) = ''CANCELLED''" by (simp add: cancelled_row_def)
  ultimately have "map_option taskState (task_of ?i (finish_turn e job r (snd (cancel_task now ?i w)))) = Some ''CANCELLED''"
    using reason assms(6) by (simp add: finish_turn_def base_final_state_def Let_def after terminal_row_def)
  with goal show ?thesis by blast
qed

lemma cancelled_rows:
  "filter (\<lambda>r. rtTask r = i \<and> rtState r = ''RUNNING'' \<and> rtAsync r)
     (map (\<lambda>r. if rtTask r = i \<and> rtState r = ''RUNNING'' \<and> rtAsync r then r\<lparr>rtState := ''CANCELLED''\<rparr> else r) rows) = []"
  by (induction rows) simp_all

lemma cancelled_teammates:
  "listActiveBackgroundTeammates i (cancel_runtimes (\<lambda>r. rtTask r = i \<and> rtState r = ''RUNNING'' \<and> rtAsync r) v) = []"
  by (simp add: listActiveBackgroundTeammates_def cancel_runtimes_def cancelled_rows)

text \<open>
  The stop command of the chat says it takes the same path as the web client, but the background teammates of the task keep
  running in the database.
\<close>

theorem chat_stop_leaves_teammates:
  assumes "task_of i w = Some t"
  shows "listActiveBackgroundTeammates i (snd (stop_command now i w)) = listActiveBackgroundTeammates i w
    \<and> listActiveBackgroundTeammates i (snd (cancel_task now i w)) = []"
proof -
  have "runtimes (snd (stop_command now i w)) = runtimes w"
    using assms by (simp add: stop_command_def Let_def signal_abort_def set_task_def)
  then have "listActiveBackgroundTeammates i (snd (stop_command now i w)) = listActiveBackgroundTeammates i w"
    by (simp add: listActiveBackgroundTeammates_def)
  moreover have "listActiveBackgroundTeammates i (snd (cancel_task now i w)) = []"
    using assms by (simp add: cancel_task_def Let_def cancelled_teammates split: prod.split)
  ultimately show ?thesis by (rule conjI)
qed

text \<open>The cap on wall time counts the time a goal was paused, although the pause freezes the clock that is shown.\<close>

theorem paused_time_counts_against_the_cap: "wallExceeded now (resume_row t) = wallExceeded now t"
  by (simp add: wallExceeded_def wall_seconds_def resume_row_def split: option.split)

text \<open>
  A goal that was paused because its evaluator was unclear three times is paused again by the first unclear verdict after it was
  resumed: neither the resume nor the start of a new goal resets the count of consecutive failures.
\<close>

theorem resumed_goal_is_paused_again:
  assumes "tasks w i = Some (resume_row t)" and "goalEvaluatorParseFailures t = Some n" and "PARSE_FAILURE_THRESHOLD \<le> n"
  shows "fst (recordVerdict e i Unclear w) = (True, Suc n)"
  using assms by (simp add: recordVerdict_def Let_def resume_row_def)

text \<open>
  A goal that replaces a cancelled one inherits its subgoals, its mark of an edited objective and its count of unclear verdicts;
  with the plan file, which is written once, it also inherits the objective and criteria the prompt calls the source of truth.
\<close>

theorem new_goal_inherits:
  assumes "objective_error (js_trim (startObjective input)) = None" and "tasks w i = Some t"
    and "taskState t \<notin> set REFUSED_STATES" and "\<not> goal_taken t"
  shows "\<exists>t'. tasks (snd (startGoalOnExistingTask e gid title answer i input w)) i = Some t'
    \<and> goalSubgoals t' = goalSubgoals t \<and> goalObjectiveEditedAt t' = goalObjectiveEditedAt t
    \<and> goalEvaluatorParseFailures t' = goalEvaluatorParseFailures t"
proof -
  obtain p where "tasks (snd (startGoalOnExistingTask e gid title answer i input w))
      = (tasks w)(i \<mapsto> (start_columns (envNow e) gid (js_trim (startObjective input)) input t)\<lparr>goalPlanPath := p\<rparr>)"
    using start_row [OF assms] by blast
  then show ?thesis by (simp add: start_columns_def)
qed

text \<open>
  The last verdict line is meant to win, but a rejection anywhere in the last two thousand characters does: an evaluator that
  recalls an earlier verdict and ends with READY blocks the goal.
\<close>

theorem earlier_rejection_wins:
  "parseEvaluatorVerdict (''Round 1 verdict: BLOCKED. Fixed.'' @ [CHR 0x0A] @ ''Overall verdict: READY'') = Blocked ''. Fixed.''
   \<and> parseEvaluatorVerdict ''Overall  verdict: ready'' = Ready \<and> parseEvaluatorVerdict ''Verdict: not ready'' = Unclear
   \<and> parseEvaluatorVerdict ''VERDICT: blocked - tests fail'' = Blocked ''tests fail''"
  by code_simp

end
