(* ===== verification/Conversation_Parts.thy ===== *)
theory Conversation_Parts
  imports Progress_Artifact
begin

text \<open>
  The parts of an assistant's response and the handlers that grow them
  (\<open>apps/web/src/components/chat/conversation/projector.ts\<close> with \<open>types.ts\<close>). A handler returns \<open>None\<close> where the code
  returns the very object it was given, for the caller compares by identity. Timestamps are the parsed milliseconds, or
  nothing where they do not parse; the headline of a notice is the data it shows, as its pictograms lie outside the
  character range of the model; a message that was cut carries a flag in the place of its ellipsis.
\<close>

section \<open>Data\<close>

datatype exchange_status = ExPending | ExStreaming | ExComplete | ExFailed

datatype plan_part_status = PlanAwaiting | PlanApproved | PlanWasCancelled | PlanRevised

datatype plan_phase = PhIdle | PhPlanning | PhAwaiting | PhDone

datatype mate_status = MateSpawned | MateRunning | MateCompleted | MateFailed | MateCancelled

datatype notice_variant = NvCompaction | NvDoomLoop | NvMaxTurns | NvRecovery | NvRecoveryBlocked | NvStatus
  | NvAsyncTeammate | NvModelSwitched

datatype notice =
    NoteCompaction "(int \<times> int) option" "string list"
  | NoteDoomLoop string "int option" string
  | NoteMaxTurns "int option"
  | NoteRecovery bool string
  | NoteStatus
  | NoteTeammate string string "string option" "string option"
  | NoteModel "string option" string bool

record pending_approval =
  pa_id :: string
  pa_reason :: string
  pa_command :: string
  pa_toolKind :: "string option"
  pa_subjectKey :: "string option"
  pa_justification :: "string option"
  pa_sandboxMode :: "string option"
  pa_permissions :: "json option"
  pa_denied :: "json option"

record text_part =
  tx_id :: string
  tx_content :: string
  tx_sealed :: bool
  tx_createdAt :: "int option"
  tx_role :: "string option"
  tx_agent :: "string option"

record thinking_part =
  th_id :: string
  th_content :: string
  th_sealed :: bool
  th_first :: int

record media_part =
  md_id :: string
  md_mediaId :: string
  md_video :: bool
  md_mimeType :: string
  md_filename :: string
  md_size :: int
  md_url :: string
  md_attachment :: bool
  md_caption :: "string option"
  md_width :: "int option"
  md_height :: "int option"
  md_duration :: "int option"
  md_createdAt :: "int option"
  md_role :: "string option"
  md_agent :: "string option"

record todo_item =
  td_content :: string
  td_activeForm :: string
  td_status :: plan_status
  td_priority :: "string option"

record tool_part =
  tl_id :: string
  tl_useId :: string
  tl_name :: string
  tl_input :: json
  tl_result :: "(bool \<times> string) option"
  tl_createdAt :: "int option"
  tl_role :: "string option"
  tl_agent :: "string option"
  tl_approval :: "pending_approval option"
  tl_runId :: "string option"
  tl_mateRole :: "string option"
  tl_mateName :: "string option"
  tl_runtime :: "string option"
  tl_model :: "string option"
  tl_startedAt :: "int option"
  tl_completedAt :: "int option"
  tl_status :: "mate_status option"
  tl_toolCount :: "nat option"
  tl_eventCount :: "nat option"
  tl_lastMessage :: "(string \<times> bool) option"
  tl_inputTokens :: "int option"
  tl_outputTokens :: "int option"
  tl_cacheTokens :: "int option"
  tl_failure :: "(string \<times> bool) option"
  tl_nextAction :: "string option"
  tl_summary :: "string option"

datatype response_part =
    PText text_part
  | PThinking thinking_part
  | PMedia media_part
  | PTool tool_part "response_part list option"
  | PError string string
  | PPlan string string plan_part_status "string option"
  | PTodo string string "todo_item list"
  | PSystem string notice_variant notice

record exchange_timing =
  tm_startedAt :: "int option"
  tm_completedAt :: "int option"
  tm_wall :: "int option"
  tm_paused :: "int option"
  tm_elapsed :: "int option"
  tm_pauses :: "(string \<times> int) list"
  tm_pauseStart :: "int option"

record user_turn =
  ut_content :: string
  ut_attachments :: "json list"
  ut_createdAt :: "int option"
  ut_hydrated :: "string list"

record exchange =
  ex_id :: string
  ex_status :: exchange_status
  ex_user :: user_turn
  ex_parts :: "response_part list"
  ex_timing :: "exchange_timing option"
  ex_lastSeq :: int
  ex_pendingExit :: "(plan_part_status \<times> string option) option"
  ex_phase :: "plan_phase option"

record event_agent =
  ea_role :: string
  ea_name :: string
  ea_depth :: int
  ea_parentToolUseId :: "string option"

record wire_event =
  we_type :: string
  we_request :: string
  we_seq :: int
  we_time :: "int option"
  we_data :: "(string \<times> json) list"
  we_agent :: "event_agent option"

section \<open>Reading the payload\<close>

definition str_at :: "(string \<times> json) list \<Rightarrow> string \<Rightarrow> string option" where
  "str_at data k = Option.bind (obj_get data k) json_as_str"

definition str_or :: "(string \<times> json) list \<Rightarrow> string \<Rightarrow> string \<Rightarrow> string" where
  "str_or data k d = (case str_at data k of None \<Rightarrow> d | Some s \<Rightarrow> s)"

fun json_num :: "json \<Rightarrow> int option" where
  "json_num (JNum n) = Some n"
| "json_num j = None"

definition num_at :: "(string \<times> json) list \<Rightarrow> string \<Rightarrow> int option" where
  "num_at data k = Option.bind (obj_get data k) json_num"

definition non_blank :: "string option \<Rightarrow> string option" where
  "non_blank s = (case s of None \<Rightarrow> None | Some t \<Rightarrow> if t = [] then None else Some t)"

fun textField :: "(string \<times> json) list \<Rightarrow> string list \<Rightarrow> string option" where
  "textField data [] = None"
| "textField data (k # ks) =
     (case non_blank (map_option js_trim (str_at data k)) of Some s \<Rightarrow> Some s | None \<Rightarrow> textField data ks)"

definition or_default :: "'a option \<Rightarrow> 'a \<Rightarrow> 'a" where
  "or_default a d = (case a of None \<Rightarrow> d | Some x \<Rightarrow> x)"

definition or_option :: "'a option \<Rightarrow> 'a option \<Rightarrow> 'a option" where
  "or_option a b = (case a of None \<Rightarrow> b | Some x \<Rightarrow> Some x)"

definition json_truthy :: "json option \<Rightarrow> bool" where
  "json_truthy j = (case j of None \<Rightarrow> False | Some JNull \<Rightarrow> False | Some (JBool b) \<Rightarrow> b | Some (JNum n) \<Rightarrow> n \<noteq> 0
     | Some (JStr s) \<Rightarrow> s \<noteq> [] | _ \<Rightarrow> True)"

definition readApprovalId :: "wire_event \<Rightarrow> string option" where
  "readApprovalId e = non_blank (str_at (we_data e) ''approvalId'')"

definition agent_role :: "wire_event \<Rightarrow> string option" where
  "agent_role e = non_blank (map_option ea_role (we_agent e))"

definition agent_name :: "wire_event \<Rightarrow> string option" where
  "agent_name e = non_blank (map_option ea_name (we_agent e))"

definition pickToolOutput :: "(string \<times> json) list \<Rightarrow> string" where
  "pickToolOutput data =
    (case str_at data ''output'' of Some s \<Rightarrow> s
     | None \<Rightarrow> (case str_at data ''outputSummary'' of Some s \<Rightarrow> s
       | None \<Rightarrow> (case str_at data ''result'' of Some s \<Rightarrow> s
         | None \<Rightarrow> if nullish (obj_get data ''output'') then [] else json_stringify (the (obj_get data ''output'')))))"

section \<open>Part identities\<close>

definition textPartId :: "string \<Rightarrow> nat \<Rightarrow> string" where
  "textPartId r n = r @ '':text:'' @ show_nat n"

definition thinkingPartId :: "string \<Rightarrow> nat \<Rightarrow> string" where
  "thinkingPartId r n = r @ '':thinking:'' @ show_nat n"

definition toolPartId :: "string \<Rightarrow> string \<Rightarrow> string" where
  "toolPartId r t = r @ '':tool:'' @ t"

definition mediaPartId :: "string \<Rightarrow> string \<Rightarrow> string" where
  "mediaPartId r m = r @ '':media:'' @ m"

definition todoPartId :: "string \<Rightarrow> string \<Rightarrow> string" where
  "todoPartId r t = r @ '':todo_list:'' @ t"

definition planPartId :: "string \<Rightarrow> nat \<Rightarrow> string" where
  "planPartId r n = r @ '':plan:'' @ show_nat n"

fun is_text :: "response_part \<Rightarrow> bool" where
  "is_text (PText t) = True"
| "is_text p = False"

fun is_thinking :: "response_part \<Rightarrow> bool" where
  "is_thinking (PThinking t) = True"
| "is_thinking p = False"

fun is_plan :: "response_part \<Rightarrow> bool" where
  "is_plan (PPlan i p s f) = True"
| "is_plan p = False"

fun is_tool :: "response_part \<Rightarrow> bool" where
  "is_tool (PTool t tr) = True"
| "is_tool p = False"

definition count_parts :: "(response_part \<Rightarrow> bool) \<Rightarrow> response_part list \<Rightarrow> nat" where
  "count_parts P ps = length (filter P ps)"

section \<open>Sealing\<close>

text \<open>\<open>Some\<close> is a new object, \<open>None\<close> the old one; \<open>now_or f x\<close> reads the result, \<open>and_then\<close> composes.\<close>

definition now_or :: "'a option \<Rightarrow> 'a \<Rightarrow> 'a" where
  "now_or r x = (case r of None \<Rightarrow> x | Some y \<Rightarrow> y)"

definition and_then :: "'a option \<Rightarrow> ('a \<Rightarrow> 'a option) \<Rightarrow> 'a \<Rightarrow> 'a option" where
  "and_then r f x = (case r of None \<Rightarrow> f x | Some y \<Rightarrow> Some (now_or (f y) y))"

definition withParts :: "exchange \<Rightarrow> response_part list \<Rightarrow> exchange" where
  "withParts x ps = x\<lparr>ex_parts := ps\<rparr>"

definition withStatus :: "exchange \<Rightarrow> exchange_status \<Rightarrow> exchange" where
  "withStatus x s = x\<lparr>ex_status := s\<rparr>"

text \<open>
  \<open>sealActivePart\<close> with the kinds text and thinking, and with one of them only.
\<close>

datatype seal_kinds = SealText | SealThinking | SealBoth

fun sealable :: "seal_kinds \<Rightarrow> response_part \<Rightarrow> bool" where
  "sealable k (PText t) = (k \<noteq> SealThinking \<and> \<not> tx_sealed t)"
| "sealable k (PThinking t) = (k \<noteq> SealText \<and> \<not> th_sealed t)"
| "sealable k p = False"

fun sealed_part :: "response_part \<Rightarrow> response_part" where
  "sealed_part (PText t) = PText (t\<lparr>tx_sealed := True\<rparr>)"
| "sealed_part (PThinking t) = PThinking (t\<lparr>th_sealed := True\<rparr>)"
| "sealed_part p = p"

definition sealActivePart :: "seal_kinds \<Rightarrow> exchange \<Rightarrow> exchange option" where
  "sealActivePart k x =
    (let ps = ex_parts x in
     if ps \<noteq> [] \<and> sealable k (last ps) then Some (withParts x (butlast ps @ [sealed_part (last ps)])) else None)"

definition sealed_exchange :: "seal_kinds \<Rightarrow> exchange \<Rightarrow> exchange" where
  "sealed_exchange k x = now_or (sealActivePart k x) x"

definition push_part :: "response_part \<Rightarrow> exchange \<Rightarrow> exchange" where
  "push_part p x = withParts x (ex_parts x @ [p])"

text \<open>A boundary: everything that streams is sealed and the part is appended.\<close>

definition push_sealed :: "response_part \<Rightarrow> exchange \<Rightarrow> exchange" where
  "push_sealed p x = push_part p (sealed_exchange SealBoth x)"

definition to_streaming :: "exchange \<Rightarrow> exchange option" where
  "to_streaming x = (if ex_status x = ExStreaming then None else Some (x\<lparr>ex_status := ExStreaming\<rparr>))"

section \<open>Streamed text\<close>

definition MAX_THINKING_CONTENT_CHARS :: nat where "MAX_THINKING_CONTENT_CHARS = 80000"

definition THINKING_TRUNCATION_PREFIX :: string where
  "THINKING_TRUNCATION_PREFIX = ''[earlier thinking truncated to fit in-memory cap]'' @ [CHR 0x0A, CHR 0x0A]"

definition clampThinkingContent :: "string \<Rightarrow> string" where
  "clampThinkingContent s =
    (if length s \<le> MAX_THINKING_CONTENT_CHARS then s
     else THINKING_TRUNCATION_PREFIX @ drop (length s - MAX_THINKING_CONTENT_CHARS) s)"

definition open_thinking :: "response_part list \<Rightarrow> thinking_part option" where
  "open_thinking ps = (if ps = [] then None
     else case last ps of PThinking t \<Rightarrow> if th_sealed t then None else Some t | _ \<Rightarrow> None)"

definition open_text :: "response_part list \<Rightarrow> text_part option" where
  "open_text ps = (if ps = [] then None else case last ps of PText t \<Rightarrow> if tx_sealed t then None else Some t | _ \<Rightarrow> None)"

definition appendThinkingDelta :: "string \<Rightarrow> int \<Rightarrow> exchange \<Rightarrow> exchange" where
  "appendThinkingDelta text seq x =
    (case open_thinking (ex_parts x) of
       Some t \<Rightarrow> withStatus (withParts x (butlast (ex_parts x) @
         [PThinking (t\<lparr>th_content := clampThinkingContent (th_content t @ text)\<rparr>)])) ExStreaming
     | None \<Rightarrow>
        (let y = sealed_exchange SealText x;
             part = PThinking \<lparr>th_id = thinkingPartId (ex_id y) (count_parts is_thinking (ex_parts y)), th_content = text,
               th_sealed = False, th_first = seq\<rparr>
         in withStatus (push_part part y) ExStreaming))"

definition appendTextDelta :: "string \<Rightarrow> wire_event \<Rightarrow> exchange \<Rightarrow> exchange" where
  "appendTextDelta text e x =
    (case open_text (ex_parts x) of
       Some t \<Rightarrow> withStatus (withParts x (butlast (ex_parts x) @ [PText (t\<lparr>tx_content := tx_content t @ text\<rparr>)])) ExStreaming
     | None \<Rightarrow>
        (let part = PText \<lparr>tx_id = textPartId (ex_id x) (count_parts is_text (ex_parts x)), tx_content = text,
               tx_sealed = False, tx_createdAt = we_time e, tx_role = agent_role e, tx_agent = agent_name e\<rparr>
         in withStatus (push_part part x) ExStreaming))"

definition applyStreamDelta :: "wire_event \<Rightarrow> exchange \<Rightarrow> exchange option" where
  "applyStreamDelta e x =
    (let kind = str_at (we_data e) ''type''; text = str_or (we_data e) ''text'' [] in
     if kind = Some ''thinking_delta'' then (if text = [] then None else Some (appendThinkingDelta text (we_seq e) x))
     else if kind = Some ''text_delta''
     then (if text = [] then None else Some (appendTextDelta text e (sealed_exchange SealThinking x)))
     else if kind = Some ''tool_use_start'' then sealActivePart SealBoth x
     else None)"

section \<open>Tools\<close>

definition extract_todo :: "json \<Rightarrow> todo_item option" where
  "extract_todo t =
    (let content = str_or_empty (json_field t ''content'') in
     case plan_status_of (json_field t ''status'') of
       None \<Rightarrow> None
     | Some st \<Rightarrow> if content = [] then None
         else Some \<lparr>td_content = content, td_activeForm = str_or_empty (json_field t ''activeForm''), td_status = st,
           td_priority = (case Option.bind (json_field t ''priority'') json_as_str of
              Some p \<Rightarrow> if p \<in> {''high'', ''medium'', ''low''} then Some p else None | None \<Rightarrow> None)\<rparr>)"

definition extractTodos :: "(string \<times> json) list \<Rightarrow> todo_item list" where
  "extractTodos data = (case sub_field (obj_get data ''input'') ''todos'' of
     Some (JArr ts) \<Rightarrow> List.map_filter extract_todo ts | _ \<Rightarrow> [])"

fun todo_has_id :: "string \<Rightarrow> response_part \<Rightarrow> bool" where
  "todo_has_id i (PTodo j u ts) = (j = i)"
| "todo_has_id i p = False"

fun tool_has_id :: "string \<Rightarrow> response_part \<Rightarrow> bool" where
  "tool_has_id i (PTool t tr) = (tl_id t = i)"
| "tool_has_id i p = False"

fun media_has_id :: "string \<Rightarrow> response_part \<Rightarrow> bool" where
  "media_has_id i (PMedia m) = (md_id m = i)"
| "media_has_id i p = False"

definition fresh_tool :: "string \<Rightarrow> string \<Rightarrow> string \<Rightarrow> json \<Rightarrow> wire_event \<Rightarrow> tool_part" where
  "fresh_tool i u n input e = \<lparr>tl_id = i, tl_useId = u, tl_name = n, tl_input = input, tl_result = None,
     tl_createdAt = we_time e, tl_role = agent_role e, tl_agent = agent_name e, tl_approval = None, tl_runId = None,
     tl_mateRole = None, tl_mateName = None, tl_runtime = None, tl_model = None, tl_startedAt = None, tl_completedAt = None,
     tl_status = None, tl_toolCount = None, tl_eventCount = None, tl_lastMessage = None, tl_inputTokens = None,
     tl_outputTokens = None, tl_cacheTokens = None, tl_failure = None, tl_nextAction = None, tl_summary = None\<rparr>"

definition applyUpdatePlanCall :: "string \<Rightarrow> (string \<times> json) list \<Rightarrow> exchange \<Rightarrow> exchange option" where
  "applyUpdatePlanCall u data x =
    (let i = todoPartId (ex_id x) u in
     if list_ex (todo_has_id i) (ex_parts x) then to_streaming x
     else if extractTodos data = [] then None
     else Some (withStatus (push_sealed (PTodo i u (extractTodos data)) x) ExStreaming))"

definition call_input :: "(string \<times> json) list \<Rightarrow> json" where
  "call_input data = (if \<not> nullish (obj_get data ''input'') then the (obj_get data ''input'')
     else if \<not> nullish (obj_get data ''inputSummary'') then the (obj_get data ''inputSummary'') else JNull)"

definition applyToolCall :: "wire_event \<Rightarrow> exchange \<Rightarrow> exchange option" where
  "applyToolCall e x =
    (let u = str_or (we_data e) ''toolUseId'' []; name = str_or (we_data e) ''toolName'' ''tool''; i = toolPartId (ex_id x) u in
     if u = [] then None
     else if name = ''update_plan'' then applyUpdatePlanCall u (we_data e) x
     else if list_ex (tool_has_id i) (ex_parts x) then to_streaming x
     else Some (withStatus (push_sealed (PTool (fresh_tool i u name (call_input (we_data e)) e) None) x) ExStreaming))"

text \<open>The first part that satisfies a condition is rewritten; \<open>None\<close> when there is none or the rewriting declines.\<close>

fun rewrite_first :: "(response_part \<Rightarrow> bool) \<Rightarrow> (response_part \<Rightarrow> response_part option) \<Rightarrow> response_part list
    \<Rightarrow> response_part list option" where
  "rewrite_first P f [] = None"
| "rewrite_first P f (p # ps) = (if P p then map_option (\<lambda>q. q # ps) (f p) else map_option (\<lambda>qs. p # qs) (rewrite_first P f ps))"

fun set_result :: "bool \<times> string \<Rightarrow> response_part \<Rightarrow> response_part option" where
  "set_result r (PTool t tr) = (if tl_result t \<noteq> None then None
     else Some (PTool (t\<lparr>tl_approval := None, tl_result := Some r\<rparr>) tr))"
| "set_result r p = None"

definition applyToolResult :: "wire_event \<Rightarrow> exchange \<Rightarrow> exchange option" where
  "applyToolResult e x =
    (let u = str_or (we_data e) ''toolUseId'' [] in
     if u = [] then None
     else map_option (withParts x) (rewrite_first (tool_has_id (toolPartId (ex_id x) u))
            (set_result (obj_get (we_data e) ''isError'' = Some (JBool True), pickToolOutput (we_data e))) (ex_parts x)))"

section \<open>Media\<close>

definition unreserved :: "char \<Rightarrow> bool" where
  "unreserved c \<longleftrightarrow> is_lower c \<or> is_upper c \<or> is_digit c \<or> c \<in> set (''-_.!~*()'' @ [CHR 0x27])"

definition upper_hex :: "nat \<Rightarrow> char" where
  "upper_hex n = (if n < 10 then char_of (48 + n) else char_of (55 + n))"

definition percent :: "nat \<Rightarrow> string" where
  "percent n = [CHR ''%'', upper_hex (n div 16), upper_hex (n mod 16)]"

text \<open>On the Latin-1 range, whose upper half takes two bytes of UTF-8.\<close>

definition encode_char :: "char \<Rightarrow> string" where
  "encode_char c = (if unreserved c then [c]
     else if char_nat c < 128 then percent (char_nat c)
     else percent (192 + char_nat c div 64) @ percent (128 + char_nat c mod 64))"

definition encodeURIComponent :: "string \<Rightarrow> string" where
  "encodeURIComponent s = concat (map encode_char s)"

definition media_kind :: "(string \<times> json) list \<Rightarrow> bool option" where
  "media_kind data =
    (case or_option (str_at data ''kind'') (str_at data ''mediaKind'') of
       Some s \<Rightarrow> if s = ''video'' then Some True else if s = ''image'' then Some False else None
     | None \<Rightarrow> None)"

definition applyMediaSent :: "string \<Rightarrow> wire_event \<Rightarrow> exchange \<Rightarrow> exchange option" where
  "applyMediaSent taskId e x =
    (let data = we_data e; m = js_trim (str_or data ''mediaId'' []); mime = js_trim (str_or data ''mimeType'' []);
         filename = js_trim (str_or data ''filename'' []); i = mediaPartId (ex_id x) m
     in if m = [] \<or> media_kind data = None \<or> mime = [] \<or> filename = [] \<or> num_at data ''sizeBytes'' = None then None
        else if list_ex (media_has_id i) (ex_parts x) then to_streaming x
        else Some (withStatus (push_sealed (PMedia \<lparr>md_id = i, md_mediaId = m, md_video = the (media_kind data), md_mimeType = mime,
            md_filename = filename, md_size = the (num_at data ''sizeBytes''),
            md_url = ''/api/tasks/'' @ encodeURIComponent taskId @ ''/media/'' @ encodeURIComponent m,
            md_attachment = (str_at data ''display'' = Some ''attachment''),
            md_caption = non_blank (map_option js_trim (str_at data ''caption'')), md_width = num_at data ''width'',
            md_height = num_at data ''height'', md_duration = num_at data ''durationMs'', md_createdAt = we_time e,
            md_role = agent_role e, md_agent = agent_name e\<rparr>) x) ExStreaming))"

end
