(* ===== verification/Permission_Mode.thy ===== *)
theory Permission_Mode
  imports Js_Prelude
begin

text \<open>
  How much a runtime was allowed to do without asking
  (\<open>apps/api/src/services/safe-apply/permission-mode-service.ts\<close>): the permission mode derived from its
  command line, sandbox and environment, and the part of the command line that is recorded.
\<close>

datatype permission_mode = Interactive | Headless | Skipped | Bypassed | UnknownMode

datatype runtime_source = Ucm | Codex | ClaudeCode | OpenCode | Kiro | UnknownRuntime

datatype sandbox_mode = ReadOnly | WorkspaceWrite | DangerFullAccess

record permission_input =
  pi_runtimeSource :: runtime_source
  pi_argv :: "string list"
  pi_sandboxMode :: "sandbox_mode option"
  pi_envPermissionHints :: "string list"
  pi_hasInteractiveApprovalChannel :: "bool option"

record permission_result =
  pr_permissionMode :: permission_mode
  pr_permissionSignals :: "string list"

definition hasArg :: "string list \<Rightarrow> string \<Rightarrow> bool" where
  "hasArg argv flag = (flag \<in> set argv)"

definition argValue :: "string list \<Rightarrow> string \<Rightarrow> string option" where
  "argValue argv flag =
     (case dropWhile (\<lambda>a. a \<noteq> flag) argv of
        f # value # _ \<Rightarrow> if value \<noteq> [] \<and> \<not> starts_with value ''-'' then Some value else None
      | _ \<Rightarrow> None)"

definition firstArg :: "string list \<Rightarrow> string" where
  "firstArg argv = (case argv of [] \<Rightarrow> [] | a # _ \<Rightarrow> to_lower (js_trim a))"

definition hasClaudePrintPrompt :: "string list \<Rightarrow> bool" where
  "hasClaudePrintPrompt argv = (hasArg argv ''-p'' \<or> hasArg argv ''--print'')"

text \<open>
  \<open>toUpperCase\<close>: the sharp s becomes two letters; the two characters whose upper case lies outside
  Latin-1 are kept.
\<close>

definition upper_char :: "char \<Rightarrow> string" where
  "upper_char c = (let n = char_nat c in
     if (97 \<le> n \<and> n \<le> 122) \<or> (224 \<le> n \<and> n \<le> 254 \<and> n \<noteq> 247) then [char_of (n - 32)]
     else if n = 223 then ''SS'' else [c])"

definition to_upper :: "string \<Rightarrow> string" where
  "to_upper s = List.concat (map upper_char s)"

definition hasPermissionOverrideHint :: "string list \<Rightarrow> bool" where
  "hasPermissionOverrideHint hints =
     list_ex (\<lambda>hint. let normalized = to_upper (js_trim hint)
                     in normalized = ''OPENCODE_PERMISSION'' \<or> includes_str normalized ''PERMISSION'') hints"

definition hint_signals :: "string list \<Rightarrow> string list" where
  "hint_signals hints =
     List.map_filter (\<lambda>hint. let normalized = js_trim hint
        in if length normalized = 0 then None
           else if normalized = ''IS_SANDBOX'' \<or> includes_str (to_upper normalized) ''PERMISSION''
           then Some (''env:'' @ normalized) else None) hints"

fun runtime_name :: "runtime_source \<Rightarrow> string" where
  "runtime_name Ucm = ''ucm''"
| "runtime_name Codex = ''codex''"
| "runtime_name ClaudeCode = ''claude-code''"
| "runtime_name OpenCode = ''opencode''"
| "runtime_name Kiro = ''kiro''"
| "runtime_name UnknownRuntime = ''unknown''"

text \<open>The blocks of the three runtimes; \<open>None\<close> falls through.\<close>

definition codex_mode :: "permission_input \<Rightarrow> string list \<Rightarrow> permission_result option" where
  "codex_mode i signals =
     (if hasArg (pi_argv i) ''--dangerously-bypass-approvals-and-sandbox''
      then Some \<lparr>pr_permissionMode = Bypassed,
                 pr_permissionSignals = signals @ [''argv:--dangerously-bypass-approvals-and-sandbox'']\<rparr>
      else if hasArg (pi_argv i) ''--full-auto''
      then Some \<lparr>pr_permissionMode = Headless, pr_permissionSignals = signals @ [''argv:--full-auto'']\<rparr>
      else if firstArg (pi_argv i) = ''exec'' \<and> pi_hasInteractiveApprovalChannel i \<noteq> Some True
      then Some \<lparr>pr_permissionMode = Headless,
                 pr_permissionSignals = signals @ [''argv:exec'', ''approval:non-interactive'']\<rparr>
      else None)"

definition claude_mode :: "permission_input \<Rightarrow> string list \<Rightarrow> permission_result option" where
  "claude_mode i signals =
     (let permissionMode = argValue (pi_argv i) ''--permission-mode'' in
      if permissionMode = Some ''bypassPermissions''
      then Some \<lparr>pr_permissionMode = Bypassed,
                 pr_permissionSignals = signals @ [''argv:--permission-mode=bypassPermissions'']\<rparr>
      else if hasArg (pi_argv i) ''--dangerously-skip-permissions''
      then Some \<lparr>pr_permissionMode = Bypassed,
                 pr_permissionSignals = signals @ [''argv:--dangerously-skip-permissions'']\<rparr>
      else if ''IS_SANDBOX'' \<in> set (pi_envPermissionHints i) \<and> pi_hasInteractiveApprovalChannel i \<noteq> Some True
      then Some \<lparr>pr_permissionMode = Bypassed,
                 pr_permissionSignals = signals @ [''env:IS_SANDBOX'', ''approval:non-interactive'']\<rparr>
      else if hasClaudePrintPrompt (pi_argv i) \<and> pi_hasInteractiveApprovalChannel i \<noteq> Some True
      then Some \<lparr>pr_permissionMode = Headless,
                 pr_permissionSignals = signals
                   @ [if hasArg (pi_argv i) ''-p'' then ''argv:-p'' else ''argv:--print'']
                   @ (case permissionMode of None \<Rightarrow> [] | Some m \<Rightarrow> [''argv:--permission-mode='' @ m])
                   @ [''approval:non-interactive'']\<rparr>
      else None)"

definition opencode_mode :: "permission_input \<Rightarrow> string list \<Rightarrow> permission_result option" where
  "opencode_mode i signals =
     (if hasArg (pi_argv i) ''--dangerously-skip-permissions''
      then Some \<lparr>pr_permissionMode = Bypassed,
                 pr_permissionSignals = signals @ [''argv:--dangerously-skip-permissions'']\<rparr>
      else if firstArg (pi_argv i) = ''run''
      then Some \<lparr>pr_permissionMode = Headless, pr_permissionSignals = signals @ [''argv:run'']\<rparr>
      else None)"

definition derivePermissionMode :: "permission_input \<Rightarrow> permission_result" where
  "derivePermissionMode i =
     (let signals = hint_signals (pi_envPermissionHints i) in
      if hasPermissionOverrideHint (pi_envPermissionHints i)
      then \<lparr>pr_permissionMode = Bypassed, pr_permissionSignals = signals\<rparr>
      else if pi_sandboxMode i = Some DangerFullAccess
      then \<lparr>pr_permissionMode = Bypassed, pr_permissionSignals = signals @ [''sandbox:danger-full-access'']\<rparr>
      else if pi_runtimeSource i = Ucm
      then \<lparr>pr_permissionMode = Interactive, pr_permissionSignals = signals @ [''runtime:ucm'']\<rparr>
      else case (if pi_runtimeSource i = Codex then codex_mode i signals
                 else if pi_runtimeSource i = ClaudeCode then claude_mode i signals
                 else if pi_runtimeSource i = OpenCode then opencode_mode i signals
                 else None) of
             Some r \<Rightarrow> r
           | None \<Rightarrow> \<lparr>pr_permissionMode = UnknownMode,
                      pr_permissionSignals = signals @ [''runtime:'' @ runtime_name (pi_runtimeSource i)]\<rparr>)"

definition relevant_flags :: "string list" where
  "relevant_flags = [''--full-auto'', ''--dangerously-bypass-approvals-and-sandbox'',
     ''--dangerously-skip-permissions'', ''-p'', ''--print'']"

text \<open>The loop over the arguments; the flag says whether the index is still zero.\<close>

fun extract_go :: "bool \<Rightarrow> string list \<Rightarrow> string list" where
  "extract_go first [] = []"
| "extract_go first (arg # rest) =
     (if arg = [] then extract_go False rest
      else if first \<and> (arg = ''exec'' \<or> arg = ''run'') then arg # extract_go False rest
      else if arg \<in> set relevant_flags then arg # extract_go False rest
      else if arg = ''--permission-mode'' \<or> arg = ''--sandbox'' then
        (case rest of
           [] \<Rightarrow> [arg]
         | value # rest' \<Rightarrow>
             if value \<noteq> [] \<and> \<not> starts_with value ''-'' then arg # value # extract_go False rest'
             else arg # extract_go False rest)
      else extract_go False rest)"

definition extractPermissionRelevantArgvFlags :: "string list \<Rightarrow> string list" where
  "extractPermissionRelevantArgvFlags argv = extract_go True argv"

section \<open>The recorded flags\<close>

lemma relevant_dash: "flag \<in> set relevant_flags \<Longrightarrow> starts_with flag ''-''"
  by (auto simp: relevant_flags_def)

lemma extract_hd_dash_go: "extract_go b xs = x # ys \<Longrightarrow> \<not> b \<Longrightarrow> starts_with x ''-''"
proof (induction b xs arbitrary: x ys rule: extract_go.induct)
  case (2 first arg rest)
  consider "arg = []" | "arg \<noteq> []" "arg \<in> set relevant_flags"
    | "arg \<notin> set relevant_flags" "arg = ''--permission-mode'' \<or> arg = ''--sandbox''"
    | "arg \<noteq> []" "arg \<notin> set relevant_flags" "\<not> (arg = ''--permission-mode'' \<or> arg = ''--sandbox'')"
    by blast
  then show ?case
  proof cases
    case 1
    then have "extract_go False rest = x # ys" using "2.prems"(1) by simp
    then show ?thesis using "2.IH"(1) [OF 1] by simp
  next
    case c: 2
    then have "x = arg" using "2.prems" by simp
    then show ?thesis using c relevant_dash by blast
  next
    case 3
    then have "x = arg" using "2.prems" by (cases rest) (auto split: if_splits)
    then show ?thesis using 3 by auto
  next
    case 4
    then have rest: "extract_go False rest = x # ys" using "2.prems" by simp
    have "\<not> (first \<and> (arg = ''exec'' \<or> arg = ''run''))" using "2.prems"(2) by simp
    from "2.IH"(6) [OF 4(1) this 4(2,3) rest] show ?thesis by simp
  qed
qed simp

lemma extract_hd_dash: "extract_go False xs = x # ys \<Longrightarrow> starts_with x ''-''"
  by (rule extract_hd_dash_go [of False xs]) simp_all

lemma extract_keeps_flag:
  "flag \<in> set relevant_flags \<Longrightarrow> flag \<in> set (extract_go b xs) \<longleftrightarrow> flag \<in> set xs"
proof (induction b xs rule: extract_go.induct)
  case (2 first arg rest)
  have dash: "starts_with flag ''-''" "flag \<noteq> []" "flag \<noteq> ''--permission-mode''" "flag \<noteq> ''--sandbox''"
    "flag \<noteq> ''exec''" "flag \<noteq> ''run''"
    using "2.prems" by (auto simp: relevant_flags_def)
  show ?case
  proof (cases rest)
    case Nil
    then show ?thesis using dash "2.prems" by auto
  next
    case (Cons v rest')
    then show ?thesis using 2 dash by (auto split: if_splits)
  qed
qed simp

lemma argValue_simps:
  "argValue [] flag = None"
  "argValue (a # xs) flag =
     (if a = flag then (case xs of v # _ \<Rightarrow> if v \<noteq> [] \<and> \<not> starts_with v ''-'' then Some v else None | [] \<Rightarrow> None)
      else argValue xs flag)"
  by (simp_all add: argValue_def split: list.splits)

lemma extract_keeps_value:
  "argValue (extract_go b xs) ''--permission-mode'' = argValue xs ''--permission-mode''"
proof (induction b xs rule: extract_go.induct)
  case (2 first arg rest)
  let ?f = "''--permission-mode''"
  have flags: "?f \<notin> set relevant_flags" by (simp add: relevant_flags_def)
  consider "arg = []" | "first" "arg = ''exec'' \<or> arg = ''run''"
    | "arg \<noteq> []" "\<not> (first \<and> (arg = ''exec'' \<or> arg = ''run''))" "arg \<in> set relevant_flags"
    | "arg = ?f \<or> arg = ''--sandbox''"
    | "arg \<noteq> []" "\<not> (first \<and> (arg = ''exec'' \<or> arg = ''run''))" "arg \<notin> set relevant_flags"
      "arg \<noteq> ?f" "arg \<noteq> ''--sandbox''"
    by blast
  then show ?case
  proof cases
    case 4
    have no: "arg \<notin> set relevant_flags" "arg \<noteq> []" "arg \<noteq> ''exec''" "arg \<noteq> ''run''"
      using 4 by (auto simp: relevant_flags_def)
    show ?thesis
    proof (cases rest)
      case Nil
      then show ?thesis using 4 no by (simp add: argValue_simps)
    next
      case (Cons v rest')
      show ?thesis
      proof (cases "v \<noteq> [] \<and> \<not> starts_with v ''-''")
        case True
        then have "v \<noteq> ?f" by auto
        then show ?thesis using 4 no True Cons "2.IH"(4) by (auto simp: argValue_simps)
      next
        case False
        have step: "extract_go first (arg # rest) = arg # extract_go False rest"
          using 4 no False Cons by auto
        have IH: "argValue (extract_go False rest) ?f = argValue rest ?f"
          using 4 no False Cons "2.IH"(5) by blast
        have "(case extract_go False rest of v # _ \<Rightarrow> if v \<noteq> [] \<and> \<not> starts_with v ''-'' then Some v else None
            | [] \<Rightarrow> None) = None"
          using extract_hd_dash [of rest] by (auto split: list.splits)
        then show ?thesis unfolding step using IH False Cons by (auto simp: argValue_simps)
      qed
    qed
  qed (use 2 flags in \<open>auto simp: argValue_simps\<close>)
qed (simp add: argValue_simps)

lemma firstArg_dash: "starts_with x ''-'' \<Longrightarrow> firstArg (x # ys) \<noteq> ''exec'' \<and> firstArg (x # ys) \<noteq> ''run''"
proof -
  assume "starts_with x ''-''"
  then obtain t where x: "x = CHR ''-'' # t" by (auto simp: starts_with_iff)
  have "trim_start x = x" by (simp add: x trim_start_def is_ws_def)
  moreover have "trim_end x = CHR ''-'' # rev (dropWhile is_ws (rev t))"
    by (simp add: x trim_end_def dropWhile_append3 is_ws_def)
  ultimately show ?thesis by (simp add: firstArg_def js_trim_def to_lower_def lower_char_def)
qed

lemma extract_firstArg:
  assumes "firstArg xs \<in> {''exec'', ''run''} \<Longrightarrow> hd xs = firstArg xs" and "w \<in> {''exec'', ''run''}"
  shows "firstArg (extract_go True xs) = w \<longleftrightarrow> firstArg xs = w"
proof (cases "firstArg xs \<in> {''exec'', ''run''}")
  case True
  then obtain a ys where xs: "xs = a # ys" by (cases xs) (auto simp: firstArg_def)
  have "a = ''exec'' \<or> a = ''run''" using True assms(1) [OF True] xs by auto
  then have "extract_go True xs = a # extract_go False ys" by (auto simp: xs)
  then show ?thesis by (simp add: xs firstArg_def)
next
  case False
  have "firstArg (extract_go True xs) \<notin> {''exec'', ''run''}"
  proof (cases xs)
    case Nil
    then show ?thesis by (simp add: firstArg_def)
  next
    case (Cons a ys)
    have "a \<noteq> ''exec''" "a \<noteq> ''run''"
      using False by (auto simp: Cons firstArg_def to_lower_def lower_char_def js_trim_def trim_start_def
          trim_end_def is_ws_def Let_def)
    then have "extract_go True xs = extract_go False xs" by (simp add: Cons)
    then show ?thesis
      using extract_hd_dash [of xs] firstArg_dash by (cases "extract_go False xs") (auto simp: firstArg_def)
  qed
  then show ?thesis using False assms(2) by auto
qed

text \<open>
  The recorded flags tell as much about the permission mode as the whole command line did: deriving
  the mode again from what was extracted gives the same mode and the same signals, provided an \<open>exec\<close> or
  \<open>run\<close> in first place is written plainly, as the launchers write it.
\<close>

theorem extracted_flags_suffice:
  assumes "firstArg (pi_argv i) \<in> {''exec'', ''run''} \<Longrightarrow> hd (pi_argv i) = firstArg (pi_argv i)"
  shows "derivePermissionMode (i\<lparr>pi_argv := extractPermissionRelevantArgvFlags (pi_argv i)\<rparr>)
       = derivePermissionMode i"
proof -
  let ?x = "extract_go True (pi_argv i)"
  have flags: "hasArg ?x f = hasArg (pi_argv i) f" if "f \<in> set relevant_flags" for f
    using extract_keeps_flag [OF that] by (simp add: hasArg_def)
  have f: "hasArg ?x ''--full-auto'' = hasArg (pi_argv i) ''--full-auto''"
    "hasArg ?x ''--dangerously-bypass-approvals-and-sandbox''
       = hasArg (pi_argv i) ''--dangerously-bypass-approvals-and-sandbox''"
    "hasArg ?x ''--dangerously-skip-permissions'' = hasArg (pi_argv i) ''--dangerously-skip-permissions''"
    "hasArg ?x ''-p'' = hasArg (pi_argv i) ''-p''" "hasArg ?x ''--print'' = hasArg (pi_argv i) ''--print''"
    by (rule flags, simp add: relevant_flags_def)+
  have first: "firstArg ?x = ''exec'' \<longleftrightarrow> firstArg (pi_argv i) = ''exec''"
    "firstArg ?x = ''run'' \<longleftrightarrow> firstArg (pi_argv i) = ''run''"
    using extract_firstArg [OF assms] by auto
  show ?thesis
    by (simp add: derivePermissionMode_def codex_mode_def claude_mode_def opencode_mode_def
        extractPermissionRelevantArgvFlags_def hasClaudePrintPrompt_def f first extract_keeps_value Let_def)
qed

definition permission_example :: permission_input where
  "permission_example = \<lparr>pi_runtimeSource = Codex, pi_argv = [''exec'', ''--json'', ''--sandbox'', ''workspace-write'', ''do it''],
     pi_sandboxMode = Some WorkspaceWrite, pi_envPermissionHints = [], pi_hasInteractiveApprovalChannel = None\<rparr>"

theorem extracted_flags_suffice_witness:
  "derivePermissionMode (permission_example\<lparr>pi_argv := extractPermissionRelevantArgvFlags (pi_argv permission_example)\<rparr>)
     = derivePermissionMode permission_example"
  by (rule extracted_flags_suffice)
    (simp add: permission_example_def firstArg_def to_lower_def lower_char_def js_trim_def trim_start_def
      trim_end_def is_ws_def Let_def)

text \<open>Only the built-in runtime counts as interactive.\<close>

lemma interactive_only_ucm:
  assumes "pr_permissionMode (derivePermissionMode i) = Interactive"
  shows "pi_runtimeSource i = Ucm" and "\<not> hasPermissionOverrideHint (pi_envPermissionHints i)"
    and "pi_sandboxMode i \<noteq> Some DangerFullAccess"
  using assms
  by (auto simp: derivePermissionMode_def codex_mode_def claude_mode_def opencode_mode_def Let_def
      split: if_splits)

end
