(* ===== verification/Conversation_Handlers.thy ===== *)
theory Conversation_Handlers
  imports Conversation_Parts Permission_Mode
begin

text \<open>
  The handlers of the conversation projector for approvals, notices, model errors, plans and timing
  (\<open>apps/web/src/components/chat/conversation/projector.ts\<close>), in the convention of \<open>Conversation_Parts\<close>: \<open>None\<close> is the
  unchanged object.
\<close>

section \<open>Approvals\<close>

definition escalation_of :: "(string \<times> json) list \<Rightarrow> json option" where
  "escalation_of data = sub_field (obj_get data ''args'') ''escalation''"

definition one_of :: "string list \<Rightarrow> string option \<Rightarrow> string option" where
  "one_of names s = (case s of None \<Rightarrow> None | Some t \<Rightarrow> if t \<in> set names then Some t else None)"

definition approval_card :: "string \<Rightarrow> (string \<times> json) list \<Rightarrow> pending_approval" where
  "approval_card i data = (let esc = escalation_of data in
     \<lparr>pa_id = i, pa_reason = str_or data ''reason'' ''Dangerous command'', pa_command = str_or data ''command'' [],
      pa_toolKind = one_of [''bash'', ''mcp_tool''] (str_at data ''toolKind''), pa_subjectKey = str_at data ''subjectKey'',
      pa_justification = non_blank (Option.bind (sub_field esc ''justification'') json_as_str),
      pa_sandboxMode = one_of [''use_default'', ''with_additional_permissions'', ''require_escalated'']
        (Option.bind (sub_field esc ''sandbox_permissions'') json_as_str),
      pa_permissions = (if json_truthy (sub_field esc ''additional_permissions'') then sub_field esc ''additional_permissions''
        else None),
      pa_denied = (case sub_field esc ''deny_read_requested_but_unsupported'' of
         Some (JArr (j # js)) \<Rightarrow> Some (JArr (j # js)) | Some (JStr (c # cs)) \<Rightarrow> Some (JStr (c # cs)) | _ \<Rightarrow> None)\<rparr>)"

fun unresolved_tool :: "response_part \<Rightarrow> bool" where
  "unresolved_tool (PTool t tr) = (tl_result t = None)"
| "unresolved_tool p = False"

fun set_approval :: "pending_approval option \<Rightarrow> response_part \<Rightarrow> response_part option" where
  "set_approval a (PTool t tr) = Some (PTool (t\<lparr>tl_approval := a\<rparr>) tr)"
| "set_approval a p = None"

text \<open>The newest part that satisfies a condition is rewritten.\<close>

definition rewrite_last :: "(response_part \<Rightarrow> bool) \<Rightarrow> (response_part \<Rightarrow> response_part option) \<Rightarrow> response_part list
    \<Rightarrow> response_part list option" where
  "rewrite_last P f ps = map_option rev (rewrite_first P f (rev ps))"

definition applyApprovalRequested :: "wire_event \<Rightarrow> exchange \<Rightarrow> exchange option" where
  "applyApprovalRequested e x =
    (case readApprovalId e of None \<Rightarrow> None
     | Some i \<Rightarrow> map_option (withParts x)
         (rewrite_last unresolved_tool (set_approval (Some (approval_card i (we_data e)))) (ex_parts x)))"

definition isApprovalEvent :: "string \<Rightarrow> bool" where
  "isApprovalEvent ty \<longleftrightarrow> ty \<in> {''leader.approval_requested'', ''leader.approval_resolved'', ''approval.resolved''}"

fun carries_approval :: "string \<Rightarrow> response_part \<Rightarrow> bool" where
  "carries_approval i (PTool t tr) = (map_option pa_id (tl_approval t) = Some i)"
| "carries_approval i p = False"

definition applyApprovalResolved :: "wire_event \<Rightarrow> exchange \<Rightarrow> exchange option" where
  "applyApprovalResolved e x =
    (case readApprovalId e of None \<Rightarrow> None
     | Some i \<Rightarrow> map_option (withParts x) (rewrite_first (carries_approval i) (set_approval None) (ex_parts x)))"

section \<open>Notices\<close>

definition isRuntimeRecoveryRetry :: "(string \<times> json) list \<Rightarrow> bool" where
  "isRuntimeRecoveryRetry data \<longleftrightarrow> textField data [''action'', ''transition''] = Some ''retry''
     \<and> (case textField data [''reason'', ''recoveryReason''] of None \<Rightarrow> False | Some r \<Rightarrow> starts_with r ''runtime_recovery_'')"

definition isRuntimeRecoveryBlocked :: "(string \<times> json) list \<Rightarrow> bool" where
  "isRuntimeRecoveryBlocked data \<longleftrightarrow> textField data [''stopReason'', ''reason''] = Some ''runtime_recovery_exhausted''"

definition labelled :: "string \<Rightarrow> string option \<Rightarrow> string list" where
  "labelled l v = (case v of None \<Rightarrow> [] | Some s \<Rightarrow> [l @ s])"

definition formatRecoveryNotice :: "(string \<times> json) list \<Rightarrow> bool \<Rightarrow> notice" where
  "formatRecoveryNotice data blocked = NoteRecovery blocked (js_join [CHR 0x0A]
     (labelled ''Reason: '' (if blocked then textField data [''stopReason'', ''reason'', ''recoveryReason'']
        else textField data [''reason'', ''recoveryReason'']) @
      labelled ''Previous state: '' (textField data [''previousState'', ''fromState'']) @
      labelled ''Next state: '' (textField data [''state'', ''taskState'', ''nextState'']) @
      labelled ''Run: '' (textField data [''runId'', ''roleRuntimeId'']) @
      [if blocked then ''Status: user action needed'' else ''Status: continuing automatically'']))"

definition counted :: "string \<Rightarrow> string \<Rightarrow> int option \<Rightarrow> string list" where
  "counted before after n = (case n of None \<Rightarrow> []
     | Some k \<Rightarrow> if k > 0 then [before @ show_int k @ after @ (if k = 1 then [] else ''s'')] else [])"

definition nonzero :: "int option \<Rightarrow> int option" where
  "nonzero n = (if n = Some 0 then None else n)"

text \<open>\<open>Math.round(n / 1000)\<close> on an integer.\<close>

definition round_seconds :: "int \<Rightarrow> int" where
  "round_seconds ms = (ms + 500) div 1000"

definition duration_text :: "int \<Rightarrow> string" where
  "duration_text ms = (if ms < 60000 then show_int (round_seconds ms) @ ''s''
     else show_int (ms div 60000) @ ''m'' @ show_int (round_seconds (ms mod 60000)) @ ''s'')"

definition mate_verb :: "string \<Rightarrow> string" where
  "mate_verb status = (if status = ''COMPLETED'' then ''completed'' else if status = ''CANCELLED'' then ''cancelled'' else ''failed'')"

fun formatSystemNotice :: "notice_variant \<Rightarrow> (string \<times> json) list \<Rightarrow> notice" where
  "formatSystemNotice NvCompaction data =
     NoteCompaction (case (num_at data ''preCompactTokens'', num_at data ''postCompactTokens'') of
         (Some a, Some b) \<Rightarrow> Some (a, b) | _ \<Rightarrow> None)
       (counted ''Truncated '' '' large tool result'' (num_at data ''truncatedCount'') @
        counted ''Snipped '' '' old tool result'' (num_at data ''snippedCount'') @
        counted ''Dropped '' '' oldest turn'' (num_at data ''droppedCount'') @
        (if obj_get data ''llmCompacted'' = Some (JBool True) then [''LLM summary applied''] else []))"
| "formatSystemNotice NvDoomLoop data =
     NoteDoomLoop (str_or data ''toolName'' ''tool'') (nonzero (num_at data ''count'')) (str_or data ''message'' [])"
| "formatSystemNotice NvMaxTurns data = NoteMaxTurns (nonzero (num_at data ''maxTurns''))"
| "formatSystemNotice NvRecovery data = formatRecoveryNotice data False"
| "formatSystemNotice NvRecoveryBlocked data = formatRecoveryNotice data True"
| "formatSystemNotice NvStatus data = NoteStatus"
| "formatSystemNotice NvAsyncTeammate data =
     NoteTeammate (or_default (textField data [''role'']) ''teammate'')
       (mate_verb (to_upper (or_default (textField data [''status'']) ''COMPLETED'')))
       (map_option duration_text (num_at data ''durationMs'')) (textField data [''summary''])"
| "formatSystemNotice NvModelSwitched data =
     NoteModel (textField data [''from'']) (or_default (textField data [''to'']) ''(default)'')
       (obj_get data ''requiresWarning'' = Some (JBool True))"

fun system_has_id :: "string \<Rightarrow> response_part \<Rightarrow> bool" where
  "system_has_id i (PSystem j v n) = (j = i)"
| "system_has_id i p = False"

fun error_has_id :: "string \<Rightarrow> response_part \<Rightarrow> bool" where
  "error_has_id i (PError j m) = (j = i)"
| "error_has_id i p = False"

definition row_id :: "string \<Rightarrow> wire_event \<Rightarrow> exchange \<Rightarrow> string" where
  "row_id kind e x = (case str_at (we_data e) ''__eventId'' of Some i \<Rightarrow> i | None \<Rightarrow> ex_id x @ kind @ show_int (we_seq e))"

definition applySystemNotice :: "notice_variant \<Rightarrow> wire_event \<Rightarrow> exchange \<Rightarrow> exchange option" where
  "applySystemNotice v e x =
    (let i = row_id '':system:'' e x in
     if list_ex (system_has_id i) (ex_parts x) then None
     else Some (push_sealed (PSystem i v (formatSystemNotice v (we_data e))) x))"

definition applyModelError :: "wire_event \<Rightarrow> exchange \<Rightarrow> exchange option" where
  "applyModelError e x =
    (let i = row_id '':model-error:'' e x;
         message = (case str_at (we_data e) ''error'' of
            Some m \<Rightarrow> if js_trim m \<noteq> [] then m else ''Model request failed (unknown error)''
          | None \<Rightarrow> ''Model request failed (unknown error)'')
     in if list_ex (error_has_id i) (ex_parts x) then None else Some (push_sealed (PError i message) x))"

section \<open>Plans\<close>

definition applyPlanProposed :: "wire_event \<Rightarrow> exchange \<Rightarrow> exchange option" where
  "applyPlanProposed e x =
    (let plan = str_or (we_data e) ''plan'' []; pending = ex_pendingExit x;
         status = (case pending of None \<Rightarrow> PlanAwaiting | Some (s, f) \<Rightarrow> s);
         part = PPlan (planPartId (ex_id x) (count_parts is_plan (ex_parts x))) plan status
           (case pending of None \<Rightarrow> None | Some (s, f) \<Rightarrow> f)
     in if plan = [] then None
        else Some ((push_sealed part x)\<lparr>
          ex_phase := Some (case pending of None \<Rightarrow> PhAwaiting
             | Some (s, f) \<Rightarrow> if s = PlanRevised then PhPlanning else PhDone),
          ex_pendingExit := None\<rparr>))"

definition exit_reason :: "(string \<times> json) list \<Rightarrow> plan_part_status option" where
  "exit_reason data = (case str_at data ''reason'' of None \<Rightarrow> None
     | Some r \<Rightarrow> if r = ''approved'' then Some PlanApproved else if r = ''cancelled'' then Some PlanWasCancelled
         else if r = ''revised'' then Some PlanRevised else None)"

fun set_plan :: "plan_part_status \<Rightarrow> string option \<Rightarrow> response_part \<Rightarrow> response_part option" where
  "set_plan s fb (PPlan i p st f) = Some (PPlan i p s (or_option fb f))"
| "set_plan s fb p = None"

definition applyPlanModeExited :: "wire_event \<Rightarrow> exchange \<Rightarrow> exchange option" where
  "applyPlanModeExited e x =
    (case exit_reason (we_data e) of None \<Rightarrow> None
     | Some s \<Rightarrow>
        (let fb = str_at (we_data e) ''feedback'' in
         case rewrite_last is_plan (set_plan s fb) (ex_parts x) of
           None \<Rightarrow> Some (x\<lparr>ex_phase := (if s \<noteq> PlanRevised then Some PhDone else ex_phase x), ex_pendingExit := Some (s, fb)\<rparr>)
         | Some ps \<Rightarrow> Some ((withParts x ps)\<lparr>ex_phase := Some (if s = PlanRevised then PhPlanning else PhDone)\<rparr>)))"

definition enter_plan_mode :: "exchange \<Rightarrow> exchange" where
  "enter_plan_mode x = x\<lparr>ex_phase := Some PhPlanning, ex_pendingExit := None\<rparr>"

section \<open>Timing\<close>

definition empty_timing :: exchange_timing where
  "empty_timing = \<lparr>tm_startedAt = None, tm_completedAt = None, tm_wall = None, tm_paused = None, tm_elapsed = None,
     tm_pauses = [], tm_pauseStart = None\<rparr>"

definition readTimingPayload :: "json option \<Rightarrow> exchange_timing option" where
  "readTimingPayload j = (case j of Some (JObj o1) \<Rightarrow>
      (let t = empty_timing\<lparr>tm_startedAt := num_at o1 ''startedAtMs'', tm_completedAt := num_at o1 ''completedAtMs'',
          tm_wall := num_at o1 ''wallMs'', tm_paused := num_at o1 ''pausedMs'', tm_elapsed := num_at o1 ''elapsedMs''\<rparr>
       in if t = empty_timing then None else Some t)
    | _ \<Rightarrow> None)"

definition begin_timing :: "wire_event \<Rightarrow> exchange_timing \<Rightarrow> exchange_timing option" where
  "begin_timing e t = (if we_time e \<noteq> None \<and> tm_startedAt t = None
     then Some (t\<lparr>tm_startedAt := we_time e, tm_paused := Some (or_default (tm_paused t) 0)\<rparr>) else None)"

definition plan_pause_id :: "wire_event \<Rightarrow> string option" where
  "plan_pause_id e = (if we_type e \<in> {''leader.plan_proposed'', ''leader.plan_mode_exited''} then Some (''plan:'' @ we_request e)
     else None)"

definition pause_key :: "wire_event \<Rightarrow> string option" where
  "pause_key e = or_option (readApprovalId e) (plan_pause_id e)"

definition is_pause_start :: "wire_event \<Rightarrow> bool" where
  "is_pause_start e \<longleftrightarrow> (we_type e = ''leader.approval_requested'' \<and> readApprovalId e \<noteq> None)
     \<or> we_type e = ''leader.plan_proposed''"

definition is_pause_end :: "wire_event \<Rightarrow> bool" where
  "is_pause_end e \<longleftrightarrow> (we_type e \<in> {''leader.approval_resolved'', ''approval.resolved''} \<and> readApprovalId e \<noteq> None)
     \<or> we_type e = ''leader.plan_mode_exited''"

definition start_pause :: "string \<Rightarrow> int \<Rightarrow> exchange_timing \<Rightarrow> exchange_timing" where
  "start_pause k ms t = t\<lparr>
     tm_pauses := (if map_of (tm_pauses t) k = None then tm_pauses t @ [(k, ms)] else tm_pauses t),
     tm_pauseStart := Some (case tm_pauseStart t of None \<Rightarrow> ms | Some s \<Rightarrow> min s ms),
     tm_paused := Some (or_default (tm_paused t) 0)\<rparr>"

definition end_pause :: "string \<Rightarrow> int \<Rightarrow> exchange_timing \<Rightarrow> exchange_timing option" where
  "end_pause k ms t =
    (case map_of (tm_pauses t) k of None \<Rightarrow> None
     | Some started \<Rightarrow>
        (let rest = filter (\<lambda>p. fst p \<noteq> k) (tm_pauses t); from_ms = or_default (tm_pauseStart t) started;
             paused = or_default (tm_paused t) 0
         in Some (if rest = [] then t\<lparr>tm_paused := Some (paused + max 0 (ms - from_ms)), tm_pauses := [], tm_pauseStart := None\<rparr>
                  else t\<lparr>tm_paused := Some paused, tm_pauses := rest, tm_pauseStart := Some from_ms\<rparr>)))"

definition pause_timing :: "wire_event \<Rightarrow> exchange_timing \<Rightarrow> exchange_timing option" where
  "pause_timing e t =
    (case (we_time e, pause_key e) of
       (Some ms, Some k) \<Rightarrow> if is_pause_start e then Some (start_pause k ms t)
          else if is_pause_end e then end_pause k ms t else None
     | _ \<Rightarrow> None)"

definition final_timing :: "wire_event \<Rightarrow> exchange_timing \<Rightarrow> exchange_timing option" where
  "final_timing e t =
    (case readTimingPayload (obj_get (we_data e) ''timing'') of None \<Rightarrow> None
     | Some u \<Rightarrow> Some \<lparr>tm_startedAt = or_option (tm_startedAt u) (tm_startedAt t),
         tm_completedAt = or_option (tm_completedAt u) (tm_completedAt t), tm_wall = or_option (tm_wall u) (tm_wall t),
         tm_paused = or_option (tm_paused u) (tm_paused t), tm_elapsed = or_option (tm_elapsed u) (tm_elapsed t),
         tm_pauses = [], tm_pauseStart = None\<rparr>)"

definition applyTimingEvent :: "wire_event \<Rightarrow> exchange \<Rightarrow> exchange option" where
  "applyTimingEvent e x =
    map_option (\<lambda>t. x\<lparr>ex_timing := Some t\<rparr>)
      (let t = or_default (ex_timing x) empty_timing in
       and_then (and_then (begin_timing e t) (pause_timing e) t) (final_timing e) t)"

end
