(* ===== verification/Conversation_Teammates.thy ===== *)
theory Conversation_Teammates
  imports Conversation_Handlers
begin

text \<open>
  The nested transcripts of teammates, the end of a turn and the dispatch of one event on one exchange
  (\<open>apps/web/src/components/chat/conversation/projector.ts\<close>). The clock the code reads at the end of a turn is an argument.
\<close>

section \<open>Finding and rewriting a tool part of the tree\<close>

definition TRANSCRIPT_MEMORY_CAP :: nat where "TRANSCRIPT_MEMORY_CAP = 500"
definition TRANSCRIPT_HEAD_KEEP :: nat where "TRANSCRIPT_HEAD_KEEP = 50"
definition TRANSCRIPT_TAIL_KEEP :: nat where "TRANSCRIPT_TAIL_KEEP = 10"
definition FIND_DEPTH_BUDGET :: nat where "FIND_DEPTH_BUDGET = 4"

fun next_index :: "nat list \<Rightarrow> nat list" where
  "next_index [] = []"
| "next_index (i # is) = Suc i # is"

fun findTeammateToolPartByPath :: "nat \<Rightarrow> (tool_part \<Rightarrow> bool) \<Rightarrow> response_part list \<Rightarrow> nat list option" where
  "findTeammateToolPartByPath d P [] = None"
| "findTeammateToolPartByPath d P (p # ps) =
     (case (case p of PTool t tr \<Rightarrow>
              if P t then Some [0]
              else (case (d, tr) of (Suc d', Some inner) \<Rightarrow> map_option (\<lambda>is. 0 # is) (findTeammateToolPartByPath d' P inner)
                    | _ \<Rightarrow> None)
            | _ \<Rightarrow> None) of
        Some path \<Rightarrow> Some path
      | None \<Rightarrow> map_option next_index (findTeammateToolPartByPath d P ps))"

primrec replaceToolPartByPath :: "nat list \<Rightarrow> (tool_part \<Rightarrow> response_part list option \<Rightarrow> response_part) \<Rightarrow> response_part list
    \<Rightarrow> response_part list" where
  "replaceToolPartByPath [] f ps = ps"
| "replaceToolPartByPath (i # is) f ps =
     (if i < length ps
      then (case ps ! i of
              PTool t tr \<Rightarrow> ps[i := if is = [] then f t tr
                else PTool t (Some (replaceToolPartByPath is f (or_default tr [])))]
            | _ \<Rightarrow> ps)
      else ps)"

section \<open>Stamps\<close>

definition compactTeammateMessage :: "string \<Rightarrow> string \<times> bool" where
  "compactTeammateMessage v =
    (let line = js_join '' '' (ws_words v) in if length line \<le> 240 then (line, False) else (take 239 line, True))"

fun textFromInput :: "json \<Rightarrow> string list \<Rightarrow> string option" where
  "textFromInput (JObj input) ks = textField input ks"
| "textFromInput j ks = None"

definition summarizeNestedTeammateEvent :: "wire_event \<Rightarrow> (string \<times> bool) option" where
  "summarizeNestedTeammateEvent e =
    (let ty = we_type e; data = we_data e in
     if ty = ''leader.stream_delta''
     then (if textField data [''type''] \<in> {Some ''text_delta'', Some ''thinking_delta''}
           then map_option compactTeammateMessage (textField data [''text'']) else None)
     else if ty = ''leader.tool_result''
     then (if js_trim (pickToolOutput data) \<noteq> [] then Some (compactTeammateMessage (pickToolOutput data)) else None)
     else if ty = ''leader.model_error''
     then Some (compactTeammateMessage (or_default (textField data [''error'', ''message'']) ''Model request failed''))
     else if ty = ''leader.messages_compacted'' then Some (''Context compacted'', False)
     else if ty = ''leader.doom_loop_detected''
     then Some (compactTeammateMessage (or_default (textField data [''message'']) ''Doom-loop detected''))
     else if ty = ''leader.max_turns'' then Some (''Max turns reached'', False)
     else if ty = ''task.orchestration.transition'' \<and> isRuntimeRecoveryRetry data
     then Some (''Recovered from runtime interruption'', False)
     else if ty = ''task.orchestration.stopped'' \<and> isRuntimeRecoveryBlocked data then Some (''Blocked by recovery'', False)
     else None)"

fun tool_use_is :: "string \<Rightarrow> response_part \<Rightarrow> bool" where
  "tool_use_is u (PTool t tr) = (tl_useId t = u)"
| "tool_use_is u p = False"

definition hasTranscriptToolUseId :: "response_part list \<Rightarrow> string \<Rightarrow> bool" where
  "hasTranscriptToolUseId ps u = list_ex (tool_use_is u) ps"

definition stampTeammateSpawnedPart :: "wire_event \<Rightarrow> tool_part \<Rightarrow> response_part list option \<Rightarrow> response_part option" where
  "stampTeammateSpawnedPart e t tr =
    (let data = we_data e;
         role = or_option (textField data [''role'', ''roleId'', ''teammateRole''])
            (or_option (textFromInput (tl_input t) [''role'', ''roleId'', ''teammateRole''])
               (textField data [''teammateName'', ''name'', ''agentName'']));
         mate = or_option (textField data [''teammateName'', ''name'', ''agentName'']) role
     in case non_blank (str_at data ''teammateRunId'') of
          None \<Rightarrow> None
        | Some run \<Rightarrow> Some (PTool (t\<lparr>tl_runId := Some run, tl_mateRole := or_option role (tl_mateRole t),
            tl_mateName := or_option mate (tl_mateName t),
            tl_runtime := or_option (textField data [''runtimeType'', ''runtime'', ''executorClass'']) (tl_runtime t),
            tl_model := or_option (textField data [''modelName'', ''model'', ''modelRef'', ''configuredModel'']) (tl_model t),
            tl_startedAt := or_option (we_time e) (tl_startedAt t), tl_status := Some MateSpawned,
            tl_eventCount := Some (or_default (tl_eventCount t) 0), tl_toolCount := Some (or_default (tl_toolCount t) 0)\<rparr>)
          (Some (or_default tr []))))"

definition completion_status :: "string option \<Rightarrow> mate_status" where
  "completion_status reason = (if reason = Some ''completed'' then MateCompleted
     else if reason = Some ''cancelled'' then MateCancelled else MateFailed)"

definition completion_failure :: "(string \<times> json) list \<Rightarrow> (string \<times> bool) option" where
  "completion_failure data =
    (let reason = str_at data ''reason''; summary = str_at data ''summary'' in
     case completion_status reason of
       MateCompleted \<Rightarrow> None
     | status \<Rightarrow>
        (case textField data [''failureReason'', ''error'', ''message''] of Some s \<Rightarrow> Some (s, False)
         | None \<Rightarrow> if summary \<noteq> None \<and> js_trim (the summary) \<noteq> [] then Some (compactTeammateMessage (the summary))
            else Some (if status = MateCancelled then ''Teammate was cancelled''
               else (case non_blank reason of Some r \<Rightarrow> ''Teammate ended with '' @ r | None \<Rightarrow> ''Teammate failed''), False)))"

definition completion_action :: "(string \<times> json) list \<Rightarrow> string option" where
  "completion_action data = (if completion_status (str_at data ''reason'') = MateFailed
     then Some (or_default (textField data [''nextAction'', ''suggestedNextAction''])
       ''Inspect the transcript, fix the blocker, then retry or resume this teammate.'') else None)"

definition usage_count :: "(string \<times> json) list \<Rightarrow> string \<Rightarrow> int option" where
  "usage_count data k = (case Option.bind (sub_field (obj_get data ''usage'') k) json_num of
     Some n \<Rightarrow> if n > 0 then Some n else None | None \<Rightarrow> None)"

definition stampTeammateCompletedPart :: "wire_event \<Rightarrow> tool_part \<Rightarrow> response_part list option \<Rightarrow> response_part" where
  "stampTeammateCompletedPart e t tr = (let data = we_data e in
     PTool (t\<lparr>tl_status := Some (completion_status (str_at data ''reason'')),
       tl_summary := or_option (str_at data ''summary'') (tl_summary t),
       tl_completedAt := or_option (we_time e) (tl_completedAt t),
       tl_failure := or_option (completion_failure data) (tl_failure t),
       tl_nextAction := or_option (completion_action data) (tl_nextAction t),
       tl_inputTokens := or_option (usage_count data ''inputTokens'') (tl_inputTokens t),
       tl_outputTokens := or_option (usage_count data ''outputTokens'') (tl_outputTokens t),
       tl_cacheTokens := or_option (usage_count data ''cacheReadTokens'') (tl_cacheTokens t)\<rparr>) tr)"

text \<open>The search at the top level only, and the rewriting of what it finds.\<close>

fun tool_such :: "(tool_part \<Rightarrow> bool) \<Rightarrow> response_part \<Rightarrow> bool" where
  "tool_such P (PTool t tr) = P t"
| "tool_such P p = False"

fun on_tool :: "(tool_part \<Rightarrow> response_part list option \<Rightarrow> response_part option) \<Rightarrow> response_part \<Rightarrow> response_part option" where
  "on_tool f (PTool t tr) = f t tr"
| "on_tool f p = None"

definition payload_id :: "wire_event \<Rightarrow> string \<Rightarrow> string option" where
  "payload_id e k = non_blank (str_at (we_data e) k)"

definition applyTeammateSpawned :: "wire_event \<Rightarrow> exchange \<Rightarrow> exchange option" where
  "applyTeammateSpawned e x =
    (case (payload_id e ''parentToolUseId'', payload_id e ''teammateRunId'') of
       (Some parent, Some run) \<Rightarrow>
         (let ps = ex_parts x; stamp = on_tool (stampTeammateSpawnedPart e) in
          map_option (withParts x)
            (if list_ex (tool_such (\<lambda>t. tl_useId t = parent)) ps
             then rewrite_first (tool_such (\<lambda>t. tl_useId t = parent)) stamp ps
             else rewrite_first (tool_such (\<lambda>t. tl_name t = ''spawn_teammate'' \<and> non_blank (tl_runId t) = None)) stamp ps))
     | _ \<Rightarrow> None)"

definition applyTeammateCompleted :: "wire_event \<Rightarrow> exchange \<Rightarrow> exchange option" where
  "applyTeammateCompleted e x =
    (case payload_id e ''teammateRunId'' of None \<Rightarrow> None
     | Some run \<Rightarrow> map_option (withParts x) (rewrite_first (tool_such (\<lambda>t. tl_runId t = Some run))
         (on_tool (\<lambda>t tr. Some (stampTeammateCompletedPart e t tr))) (ex_parts x)))"

section \<open>Events of a teammate\<close>

definition defaultDispatch :: "string \<Rightarrow> wire_event \<Rightarrow> exchange \<Rightarrow> exchange option" where
  "defaultDispatch taskId e x =
    (let ty = we_type e in
     if ty = ''leader.stream_delta'' then applyStreamDelta e x
     else if ty = ''leader.tool_call'' then applyToolCall e x
     else if ty = ''leader.tool_result'' then applyToolResult e x
     else if ty = ''leader.media_sent'' then applyMediaSent taskId e x
     else if ty = ''leader.approval_requested'' then applyApprovalRequested e x
     else if ty \<in> {''leader.approval_resolved'', ''approval.resolved''} then applyApprovalResolved e x
     else if ty = ''leader.turn_complete'' then sealActivePart SealBoth x
     else if ty = ''leader.model_error'' then applyModelError e x
     else if ty = ''leader.messages_compacted'' then applySystemNotice NvCompaction e x
     else if ty = ''leader.doom_loop_detected'' then applySystemNotice NvDoomLoop e x
     else if ty = ''leader.max_turns'' then applySystemNotice NvMaxTurns e x
     else if ty = ''leader.async_teammate_consumed'' then applySystemNotice NvAsyncTeammate e x
     else if ty = ''leader.model_switched'' then applySystemNotice NvModelSwitched e x
     else if ty = ''task.orchestration.transition''
     then (if isRuntimeRecoveryRetry (we_data e) then applySystemNotice NvRecovery e x else None)
     else if ty = ''task.orchestration.stopped''
     then (if isRuntimeRecoveryBlocked (we_data e) then applySystemNotice NvRecoveryBlocked e x else None)
     else None)"

definition cap_transcript :: "response_part list \<Rightarrow> response_part list" where
  "cap_transcript ps = (if length ps > TRANSCRIPT_MEMORY_CAP
     then take TRANSCRIPT_HEAD_KEEP ps @ drop (length ps - TRANSCRIPT_TAIL_KEEP) ps else ps)"

definition fake_exchange :: "string \<Rightarrow> response_part list \<Rightarrow> exchange" where
  "fake_exchange i ps = \<lparr>ex_id = i, ex_status = ExStreaming,
     ex_user = \<lparr>ut_content = [], ut_attachments = [], ut_createdAt = None, ut_hydrated = []\<rparr>, ex_parts = ps, ex_timing = None,
     ex_lastSeq = 0, ex_pendingExit = None, ex_phase = None\<rparr>"

definition nested_transcript :: "string \<Rightarrow> wire_event \<Rightarrow> string \<Rightarrow> response_part list \<Rightarrow> response_part list" where
  "nested_transcript taskId e i ps =
     cap_transcript (ex_parts (now_or (defaultDispatch taskId e (fake_exchange i ps)) (fake_exchange i ps)))"

definition new_tool_call :: "wire_event \<Rightarrow> response_part list \<Rightarrow> bool" where
  "new_tool_call e ps \<longleftrightarrow> we_type e = ''leader.tool_call''
     \<and> (case payload_id e ''toolUseId'' of None \<Rightarrow> True | Some u \<Rightarrow> \<not> hasTranscriptToolUseId ps u)"

definition running_status :: "mate_status option \<Rightarrow> mate_status" where
  "running_status s = (case s of Some MateCompleted \<Rightarrow> MateCompleted | Some MateFailed \<Rightarrow> MateFailed
     | Some MateCancelled \<Rightarrow> MateCancelled | _ \<Rightarrow> MateRunning)"

definition updateTeammateToolPart :: "string \<Rightarrow> wire_event \<Rightarrow> string \<Rightarrow> tool_part \<Rightarrow> response_part list option \<Rightarrow> response_part" where
  "updateTeammateToolPart taskId e i t tr =
    (let ps = or_default tr [] in
     PTool (t\<lparr>tl_eventCount := Some (or_default (tl_eventCount t) 0 + 1),
         tl_toolCount := Some (or_default (tl_toolCount t) 0 + (if new_tool_call e ps then 1 else 0)),
         tl_lastMessage := or_option (summarizeNestedTeammateEvent e) (tl_lastMessage t),
         tl_status := Some (running_status (tl_status t))\<rparr>)
       (Some (nested_transcript taskId e i ps)))"

definition rewrite_tree :: "(tool_part \<Rightarrow> bool) \<Rightarrow> (tool_part \<Rightarrow> response_part list option \<Rightarrow> response_part) \<Rightarrow> exchange
    \<Rightarrow> exchange option" where
  "rewrite_tree P f x = map_option (\<lambda>path. withParts x (replaceToolPartByPath path f (ex_parts x)))
     (findTeammateToolPartByPath FIND_DEPTH_BUDGET P (ex_parts x))"

definition event_parent :: "wire_event \<Rightarrow> string option" where
  "event_parent e = non_blank (Option.bind (we_agent e) ea_parentToolUseId)"

definition completion_target :: "wire_event \<Rightarrow> tool_part \<Rightarrow> bool" where
  "completion_target e t \<longleftrightarrow> (payload_id e ''teammateRunId'' \<noteq> None \<and> tl_runId t = payload_id e ''teammateRunId'')
     \<or> event_parent e = Some (tl_useId t)"

definition applyTeammateNestedEvent :: "string \<Rightarrow> wire_event \<Rightarrow> exchange \<Rightarrow> exchange option" where
  "applyTeammateNestedEvent taskId e x =
    (if we_type e = ''leader.teammate_spawned''
     then (case payload_id e ''parentToolUseId'' of None \<Rightarrow> None
           | Some parent \<Rightarrow> rewrite_tree (\<lambda>t. tl_useId t = parent)
               (\<lambda>t tr. now_or (stampTeammateSpawnedPart e t tr) (PTool t tr)) x)
     else if we_type e = ''leader.teammate_completed''
     then (if payload_id e ''teammateRunId'' = None \<and> event_parent e = None then None
           else rewrite_tree (completion_target e) (stampTeammateCompletedPart e) x)
     else (case event_parent e of
             None \<Rightarrow> defaultDispatch taskId e x
           | Some parent \<Rightarrow> rewrite_tree (\<lambda>t. tl_useId t = parent)
               (updateTeammateToolPart taskId e (ex_id x @ ''::teammate::'' @ parent)) x))"

section \<open>The end of a turn\<close>

definition unfinished_text :: "exchange_status \<Rightarrow> string" where
  "unfinished_text st = (if st = ExFailed then ''Tool call did not complete before the turn terminated.''
     else ''Tool call was cancelled by the turn ending.'')"

text \<open>
  \<open>freezeUnresolvedNested\<close> on one part: \<open>None\<close> when nothing changed. A transcript that changes has its tools moved behind
  its other parts.
\<close>

definition reordered :: "response_part list \<Rightarrow> response_part option list \<Rightarrow> response_part list" where
  "reordered ps rs = filter (\<lambda>p. \<not> is_tool p) ps @ map (\<lambda>(p, r). now_or r p) (filter (\<lambda>(p, r). is_tool p) (zip ps rs))"

definition freeze_result :: "response_part list \<Rightarrow> response_part option list \<Rightarrow> response_part list option" where
  "freeze_result ps rs = (if list_ex (\<lambda>r. r \<noteq> None) rs then Some (reordered ps rs) else None)"

fun freezeUnresolvedNested :: "string \<Rightarrow> response_part \<Rightarrow> response_part option" where
  "freezeUnresolvedNested out (PTool t tr) =
     (if tl_result t \<noteq> None \<or> tl_name t = ''spawn_teammate'' \<or> tl_approval t \<noteq> None
      then (case tr of None \<Rightarrow> None
            | Some ps \<Rightarrow> map_option (\<lambda>qs. PTool t (Some qs)) (freeze_result ps (map (freezeUnresolvedNested out) ps)))
      else Some (PTool (t\<lparr>tl_result := Some (True, out)\<rparr>) tr))"
| "freezeUnresolvedNested out p = None"

definition freeze_transcript :: "string \<Rightarrow> response_part list option \<Rightarrow> response_part list option" where
  "freeze_transcript out tr = (case tr of None \<Rightarrow> None
     | Some ps \<Rightarrow> or_option (freeze_result ps (map (freezeUnresolvedNested out) ps)) (Some ps))"

definition live_teammate :: "tool_part \<Rightarrow> bool" where
  "live_teammate t \<longleftrightarrow> tl_name t = ''spawn_teammate'' \<and> tl_startedAt t \<noteq> None \<and> tl_completedAt t = None
     \<and> tl_status t \<notin> {Some MateCompleted, Some MateFailed, Some MateCancelled}"

definition stop_teammate :: "int \<Rightarrow> bool \<Rightarrow> tool_part \<Rightarrow> tool_part" where
  "stop_teammate clock was_cancelled t = t\<lparr>tl_status := Some (if was_cancelled then MateCancelled else MateFailed),
     tl_completedAt := Some clock,
     tl_failure := (if tl_failure t \<noteq> None \<and> fst (the (tl_failure t)) \<noteq> [] then tl_failure t
       else Some (if was_cancelled then ''Parent task was cancelled before teammate reported completion.''
         else ''Parent task ended before teammate reported completion.'', False))\<rparr>"

fun terminal_part :: "int \<Rightarrow> exchange_status \<Rightarrow> bool \<Rightarrow> bool \<Rightarrow> response_part \<Rightarrow> response_part" where
  "terminal_part clock st was_cancelled keep (PTool t tr) =
     (let waiting = (tl_approval t \<noteq> None \<and> tl_result t = None);
          t1 = (if waiting then t\<lparr>tl_approval := None\<rparr> else t);
          t2 = (if \<not> keep \<and> live_teammate t then stop_teammate clock was_cancelled t1 else t1);
          t3 = (if tl_result t2 = None \<and> tl_name t2 \<noteq> ''spawn_teammate'' \<and> \<not> waiting
                then t2\<lparr>tl_result := Some (True, unfinished_text st)\<rparr> else t2)
      in PTool t3 (freeze_transcript (unfinished_text st) tr))"
| "terminal_part clock st was_cancelled keep p = p"

definition markTerminal :: "int \<Rightarrow> exchange_status \<Rightarrow> bool \<Rightarrow> bool \<Rightarrow> exchange \<Rightarrow> exchange option" where
  "markTerminal clock st was_cancelled keep x =
    (if ex_status x = st then None
     else (let y = sealed_exchange SealBoth x in
           Some (withStatus (withParts y (map (terminal_part clock st was_cancelled keep) (ex_parts y))) st)))"

section \<open>One event on one exchange\<close>

definition leader_dispatch :: "int \<Rightarrow> string \<Rightarrow> wire_event \<Rightarrow> exchange \<Rightarrow> exchange option" where
  "leader_dispatch clock taskId e x =
    (let ty = we_type e in
     if ty = ''leader.teammate_spawned'' then applyTeammateSpawned e x
     else if ty = ''leader.teammate_completed'' then applyTeammateCompleted e x
     else if ty = ''leader.plan_mode_entered'' then Some (enter_plan_mode x)
     else if ty = ''leader.plan_proposed'' then applyPlanProposed e x
     else if ty = ''leader.plan_mode_exited'' then applyPlanModeExited e x
     else if ty \<in> {''task:completed'', ''leader.session_complete''}
     then markTerminal clock ExComplete False (str_at (we_data e) ''state'' = Some ''AWAITING_TEAMMATES'') x
     else if ty = ''task:failed'' then markTerminal clock ExFailed False False x
     else if ty = ''task:cancelled'' then markTerminal clock ExComplete True False x
     else defaultDispatch taskId e x)"

definition from_teammate :: "wire_event \<Rightarrow> bool" where
  "from_teammate e = (case we_agent e of None \<Rightarrow> False | Some a \<Rightarrow> ea_depth a > 0)"

definition mutateExchange :: "int \<Rightarrow> string \<Rightarrow> wire_event \<Rightarrow> exchange \<Rightarrow> exchange option" where
  "mutateExchange clock taskId e x =
    (if from_teammate e
     then and_then (if isApprovalEvent (we_type e) then applyTimingEvent e x else None) (applyTeammateNestedEvent taskId e) x
     else and_then (applyTimingEvent e x) (leader_dispatch clock taskId e) x)"

end
