(* ===== verification/Conversation_Projector.thy ===== *)
theory Conversation_Projector
  imports Conversation_Teammates
begin

text \<open>
  The conversation projector over several exchanges: routing by request, merged prompts, whole logs and snapshots
  (\<open>apps/web/src/components/chat/conversation/projector.ts\<close>). A conversation is \<open>None\<close> where the code throws.
\<close>

section \<open>Conversations\<close>

record conversation =
  cv_taskId :: string
  cv_exchanges :: "exchange list"

definition find_exchange :: "string \<Rightarrow> exchange list \<Rightarrow> exchange option" where
  "find_exchange r xs = List.find (\<lambda>x. ex_id x = r) xs"

fun exchange_index :: "string \<Rightarrow> exchange list \<Rightarrow> nat option" where
  "exchange_index r [] = None"
| "exchange_index r (x # xs) = (if ex_id x = r then Some 0 else map_option Suc (exchange_index r xs))"

definition maxKnownSeq :: "exchange list \<Rightarrow> int" where
  "maxKnownSeq xs = foldl max 0 (map ex_lastSeq xs)"

definition new_exchange :: "string \<Rightarrow> int option \<Rightarrow> exchange_timing option \<Rightarrow> exchange" where
  "new_exchange r created timing = \<lparr>ex_id = r, ex_status = ExStreaming,
     ex_user = \<lparr>ut_content = [], ut_attachments = [], ut_createdAt = created, ut_hydrated = []\<rparr>, ex_parts = [],
     ex_timing = timing, ex_lastSeq = 0, ex_pendingExit = None, ex_phase = None\<rparr>"

definition fresh_exchange :: "wire_event \<Rightarrow> exchange" where
  "fresh_exchange e = new_exchange (we_request e) (we_time e)
     (case we_time e of None \<Rightarrow> None | Some ms \<Rightarrow> Some (empty_timing\<lparr>tm_startedAt := Some ms, tm_paused := Some 0\<rparr>))"

definition with_seq :: "int \<Rightarrow> exchange \<Rightarrow> exchange" where
  "with_seq s x = x\<lparr>ex_lastSeq := s\<rparr>"

section \<open>Merged prompts\<close>

definition PROMPT_MERGE_SEPARATOR :: string where
  "PROMPT_MERGE_SEPARATOR = [CHR 0x0A, CHR 0x0A] @ ''---'' @ [CHR 0x0A, CHR 0x0A]"

definition merge_target :: "wire_event \<Rightarrow> string option" where
  "merge_target e = non_blank (if nullish (obj_get (we_data e) ''intoRequestId'') then Some (we_request e)
     else str_at (we_data e) ''intoRequestId'')"

definition merge_source :: "wire_event \<Rightarrow> string option" where
  "merge_source e = non_blank (str_at (we_data e) ''sourceRequestId'')"

definition has_output :: "exchange \<Rightarrow> bool" where
  "has_output x \<longleftrightarrow> ex_parts x \<noteq> [] \<or> ex_lastSeq x > 0"

definition folded_content :: "wire_event \<Rightarrow> exchange option \<Rightarrow> string" where
  "folded_content e source = (case source of
      Some y \<Rightarrow> if ut_content (ex_user y) \<noteq> [] then ut_content (ex_user y) else str_or (we_data e) ''content'' []
    | None \<Rightarrow> str_or (we_data e) ''content'' [])"

definition fold_prompt :: "wire_event \<Rightarrow> exchange option \<Rightarrow> exchange \<Rightarrow> exchange" where
  "fold_prompt e source t =
    (let user = ex_user t; extra = folded_content e source;
         atts = (case source of None \<Rightarrow> [] | Some y \<Rightarrow> ut_attachments (ex_user y))
     in t\<lparr>ex_user := user\<lparr>
            ut_content := (if extra = [] then ut_content user
               else if ut_content user = [] then extra else ut_content user @ PROMPT_MERGE_SEPARATOR @ extra),
            ut_attachments := ut_attachments user @ atts,
            ut_hydrated := (case merge_source e of None \<Rightarrow> ut_hydrated user
               | Some s \<Rightarrow> if s \<in> set (ut_hydrated user) then ut_hydrated user else ut_hydrated user @ [s])\<rparr>,
          ex_lastSeq := we_seq e\<rparr>)"

definition remove_at :: "nat \<Rightarrow> 'a list \<Rightarrow> 'a list" where
  "remove_at i xs = take i xs @ drop (Suc i) xs"

definition already_folded :: "wire_event \<Rightarrow> exchange \<Rightarrow> bool" where
  "already_folded e t \<longleftrightarrow> (case merge_source e of None \<Rightarrow> False | Some s \<Rightarrow> s \<in> set (ut_hydrated (ex_user t)))"

definition merge_into :: "wire_event \<Rightarrow> nat \<Rightarrow> exchange list \<Rightarrow> exchange list option" where
  "merge_into e i xs =
    (let j = Option.bind (merge_source e) (\<lambda>s. exchange_index s xs); source = map_option (\<lambda>n. xs ! n) j;
         drops = (case source of None \<Rightarrow> False | Some y \<Rightarrow> \<not> has_output y);
         ys = (if drops then remove_at (the j) xs else xs);
         k = (if drops \<and> the j < i then i - 1 else i)
     in if k < length ys then Some (ys[k := fold_prompt e source (ys ! k)]) else None)"

definition applyPromptMerged :: "wire_event \<Rightarrow> conversation \<Rightarrow> conversation option" where
  "applyPromptMerged e c =
    (let xs = cv_exchanges c in
     case Option.bind (merge_target e) (\<lambda>r. exchange_index r xs) of
       None \<Rightarrow> Some c
     | Some i \<Rightarrow>
         if we_seq e \<le> ex_lastSeq (xs ! i) then Some c
         else if already_folded e (xs ! i) then Some (c\<lparr>cv_exchanges := xs[i := with_seq (we_seq e) (xs ! i)]\<rparr>)
         else map_option (\<lambda>ys. c\<lparr>cv_exchanges := ys\<rparr>) (merge_into e i xs))"

section \<open>Events\<close>

definition applyEvent :: "int \<Rightarrow> wire_event \<Rightarrow> conversation \<Rightarrow> conversation option" where
  "applyEvent clock e c =
    (if we_type e = ''task.prompt_merged'' then applyPromptMerged e c
     else let xs = cv_exchanges c in
       case exchange_index (we_request e) xs of
         None \<Rightarrow>
           if we_seq e \<le> maxKnownSeq xs then Some c
           else (let x = fresh_exchange e in
             if we_seq e \<le> ex_lastSeq x then Some (c\<lparr>cv_exchanges := xs @ [x]\<rparr>)
             else Some (c\<lparr>cv_exchanges := xs @ [with_seq (we_seq e) (now_or (mutateExchange clock (cv_taskId c) e x) x)]\<rparr>))
       | Some i \<Rightarrow>
           if we_seq e \<le> ex_lastSeq (xs ! i) then Some c
           else (case mutateExchange clock (cv_taskId c) e (xs ! i) of
               None \<Rightarrow> Some c
             | Some y \<Rightarrow> Some (c\<lparr>cv_exchanges := xs[i := with_seq (we_seq e) y]\<rparr>)))"

fun apply_in_order :: "int \<Rightarrow> wire_event list \<Rightarrow> conversation \<Rightarrow> conversation option" where
  "apply_in_order clock [] c = Some c"
| "apply_in_order clock (e # es) c = Option.bind (applyEvent clock e c) (apply_in_order clock es)"

definition applyEvents :: "int \<Rightarrow> wire_event list \<Rightarrow> conversation \<Rightarrow> conversation option" where
  "applyEvents clock es c = apply_in_order clock (sort_key we_seq es) c"

section \<open>Snapshots\<close>

text \<open>
  A stored event: its payload text as the JSON value it parses to, \<open>Some None\<close> when it does not parse and \<open>None\<close> when
  it is absent or empty.
\<close>

record snapshot_event =
  sn_id :: string
  sn_type :: string
  sn_requestId :: "string option"
  sn_seq :: int
  sn_time :: "int option"
  sn_payload :: "json option option"
  sn_data :: "(string \<times> json) list option"
  sn_agent :: "event_agent option"

text \<open>A payload that is neither an object nor falsy has none of the keys that are read.\<close>

definition snapshot_payload :: "snapshot_event \<Rightarrow> (string \<times> json) list option" where
  "snapshot_payload ev = (case sn_payload ev of
      None \<Rightarrow> sn_data ev
    | Some None \<Rightarrow> None
    | Some (Some (JObj kvs)) \<Rightarrow> Some kvs
    | Some (Some j) \<Rightarrow> if json_truthy (Some j) then Some [] else None)"

definition isTaskScopedRecoveryNotice :: "string \<Rightarrow> (string \<times> json) list \<Rightarrow> bool" where
  "isTaskScopedRecoveryNotice ty data = (if ty = ''task.orchestration.transition'' then isRuntimeRecoveryRetry data
     else if ty = ''task.orchestration.stopped'' then isRuntimeRecoveryBlocked data else False)"

type_synonym parsed_row = "snapshot_event \<times> (string \<times> json) list"

definition parsed_rows :: "snapshot_event list \<Rightarrow> parsed_row list" where
  "parsed_rows events = sort_key (\<lambda>p. sn_seq (fst p))
     (List.map_filter (\<lambda>ev. map_option (\<lambda>d. (ev, d)) (snapshot_payload ev)) events)"

definition row_request :: "parsed_row \<Rightarrow> string option" where
  "row_request p = non_blank (sn_requestId (fst p))"

definition first_request :: "parsed_row list \<Rightarrow> string option" where
  "first_request rows = Option.bind (List.find (\<lambda>p. row_request p \<noteq> None) rows) row_request"

definition wire_of :: "parsed_row \<Rightarrow> string \<Rightarrow> wire_event" where
  "wire_of p r = \<lparr>we_type = sn_type (fst p), we_request = r, we_seq = sn_seq (fst p), we_time = sn_time (fst p),
     we_data = filter (\<lambda>kv. fst kv \<noteq> ''__eventId'') (snd p) @ [(''__eventId'', JStr (sn_id (fst p)))],
     we_agent = sn_agent (fst p)\<rparr>"

fun wire_events :: "string option \<Rightarrow> string option \<Rightarrow> parsed_row list \<Rightarrow> wire_event list" where
  "wire_events first latest [] = []"
| "wire_events first latest (p # ps) =
     (let latest' = or_option (row_request p) latest;
          request = (if sn_requestId (fst p) \<noteq> None then row_request p
            else if isTaskScopedRecoveryNotice (sn_type (fst p)) (snd p) then or_option latest' first else None)
      in (case request of
            Some r \<Rightarrow> if sn_type (fst p) = ''leader.decision_trace'' then [] else [wire_of p r]
          | None \<Rightarrow> []) @ wire_events first latest' ps)"

text \<open>The requests in the order of their first events, and the first time each carries.\<close>

fun requests_seen :: "string list \<Rightarrow> wire_event list \<Rightarrow> string list" where
  "requests_seen seen [] = []"
| "requests_seen seen (e # es) = (if we_request e \<in> set seen then requests_seen seen es
     else we_request e # requests_seen (we_request e # seen) es)"

definition first_time :: "wire_event list \<Rightarrow> string \<Rightarrow> int option" where
  "first_time es r = Option.bind (List.find (\<lambda>e. we_request e = r \<and> we_time e \<noteq> None) es) we_time"

definition seedSnapshotConversation :: "string \<Rightarrow> snapshot_event list \<Rightarrow> conversation \<times> wire_event list" where
  "seedSnapshotConversation taskId events =
    (let rows = parsed_rows events; es = sort_key we_seq (wire_events (first_request rows) None rows) in
     (\<lparr>cv_taskId = taskId, cv_exchanges = map (\<lambda>r. new_exchange r (first_time es r) None) (requests_seen [] es)\<rparr>, es))"

definition projectSnapshot :: "int \<Rightarrow> string \<Rightarrow> snapshot_event list \<Rightarrow> conversation option" where
  "projectSnapshot clock taskId events =
    (case seedSnapshotConversation taskId events of (c, es) \<Rightarrow> applyEvents clock es c)"

definition createOptimisticExchange :: "int \<Rightarrow> string \<Rightarrow> string \<Rightarrow> json list \<Rightarrow> exchange" where
  "createOptimisticExchange clock localId prompt atts =
     (new_exchange localId (Some clock) (Some (empty_timing\<lparr>tm_startedAt := Some clock, tm_paused := Some 0\<rparr>)))
       \<lparr>ex_status := ExPending,
        ex_user := \<lparr>ut_content = prompt, ut_attachments = atts, ut_createdAt = Some clock, ut_hydrated = []\<rparr>\<rparr>"

end
