(* ===== verification/Conversation_Stream.thy ===== *)
theory Conversation_Stream
  imports Conversation_Projector
begin

text \<open>
  What every handler of the projector keeps of an exchange: its identity, and a response in which at most the last part
  still streams and the texts and the thoughts are numbered in order.
\<close>

section \<open>Results\<close>

lemma now_or_simps [simp]: "now_or None x = x" "now_or (Some y) x = y"
  by (simp_all add: now_or_def)

lemma now_or_and_then [simp]: "now_or (and_then r f x) x = now_or (f (now_or r x)) (now_or r x)"
  by (cases r) (simp_all add: and_then_def)

lemma and_then_None [simp]: "and_then r f x = None \<longleftrightarrow> r = None \<and> f x = None"
  by (cases r) (simp_all add: and_then_def)

lemma now_or_map: "now_or (map_option f r) x = (case r of None \<Rightarrow> x | Some y \<Rightarrow> f y)"
  by (cases r) simp_all

lemma withParts_simps [simp]: "ex_parts (withParts x ps) = ps" "ex_id (withParts x ps) = ex_id x"
    "ex_status (withParts x ps) = ex_status x" "ex_lastSeq (withParts x ps) = ex_lastSeq x"
  by (simp_all add: withParts_def)

lemma withStatus_simps [simp]: "ex_parts (withStatus x s) = ex_parts x" "ex_id (withStatus x s) = ex_id x"
    "ex_status (withStatus x s) = s"
  by (simp_all add: withStatus_def)

lemma rewrite_first_map: "(\<And>p q. f p = Some q \<Longrightarrow> g q = g p) \<Longrightarrow> rewrite_first P f ps = Some qs \<Longrightarrow> map g qs = map g ps"
  by (induction ps arbitrary: qs) (auto split: if_splits)

lemma rewrite_last_map: "(\<And>p q. f p = Some q \<Longrightarrow> g q = g p) \<Longrightarrow> rewrite_last P f ps = Some qs \<Longrightarrow> map g qs = map g ps"
proof -
  assume f: "\<And>p q. f p = Some q \<Longrightarrow> g q = g p" and "rewrite_last P f ps = Some qs"
  then obtain z where "rewrite_first P f (rev ps) = Some z" "qs = rev z" by (auto simp: rewrite_last_def)
  then show ?thesis using rewrite_first_map[of f g P "rev ps" z, OF f] by (simp add: rev_map[symmetric])
qed

section \<open>The stream\<close>

fun stream_mark :: "response_part \<Rightarrow> (bool \<times> string \<times> bool) option" where
  "stream_mark (PText t) = Some (True, tx_id t, tx_sealed t)"
| "stream_mark (PThinking t) = Some (False, th_id t, th_sealed t)"
| "stream_mark p = None"

definition marks :: "response_part list \<Rightarrow> (bool \<times> string \<times> bool) option list" where
  "marks ps = map stream_mark ps"

definition mark_closed :: "(bool \<times> string \<times> bool) option \<Rightarrow> bool" where
  "mark_closed m = (case m of None \<Rightarrow> True | Some (k, i, s) \<Rightarrow> s)"

definition mark_id :: "bool \<Rightarrow> (bool \<times> string \<times> bool) option \<Rightarrow> string list" where
  "mark_id kind m = (case m of None \<Rightarrow> [] | Some (k, i, s) \<Rightarrow> if k = kind then [i] else [])"

definition ids_of :: "bool \<Rightarrow> response_part list \<Rightarrow> string list" where
  "ids_of kind ps = concat (map (mark_id kind) (marks ps))"

definition stream_id :: "bool \<Rightarrow> string \<Rightarrow> nat \<Rightarrow> string" where
  "stream_id kind r n = (if kind then textPartId r n else thinkingPartId r n)"

definition numbered :: "string \<Rightarrow> response_part list \<Rightarrow> bool" where
  "numbered r ps \<longleftrightarrow> (\<forall>kind. ids_of kind ps = map (stream_id kind r) [0..<length (ids_of kind ps)])"

definition closed_parts :: "response_part list \<Rightarrow> bool" where
  "closed_parts ps = list_all mark_closed (marks ps)"

definition stream_ok :: "exchange \<Rightarrow> bool" where
  "stream_ok x \<longleftrightarrow> closed_parts (butlast (ex_parts x)) \<and> numbered (ex_id x) (ex_parts x)"

lemma marks_append: "marks (ps @ qs) = marks ps @ marks qs"
  by (simp add: marks_def)

lemma ids_of_append [simp]: "ids_of k (ps @ qs) = ids_of k ps @ ids_of k qs"
  by (simp add: ids_of_def marks_append)

lemma closed_append [simp]: "closed_parts (ps @ qs) \<longleftrightarrow> closed_parts ps \<and> closed_parts qs"
  by (simp add: closed_parts_def marks_append)

lemma closed_single [simp]: "closed_parts [p] \<longleftrightarrow> \<not> sealable SealBoth p" "closed_parts []"
  by (cases p; simp add: closed_parts_def marks_def mark_closed_def) (simp add: closed_parts_def marks_def)

lemma ids_of_single [simp]: "ids_of k [p] = mark_id k (stream_mark p)" "ids_of k [] = []"
  by (simp_all add: ids_of_def marks_def)

lemma ids_of_count: "length (ids_of True ps) = count_parts is_text ps" "length (ids_of False ps) = count_parts is_thinking ps"
proof -
  have "length (ids_of True ps) = count_parts is_text ps \<and> length (ids_of False ps) = count_parts is_thinking ps"
  proof (induction ps)
    case (Cons p ps)
    then show ?case by (cases p) (simp_all add: ids_of_def marks_def mark_id_def count_parts_def)
  qed (simp add: count_parts_def)
  then show "length (ids_of True ps) = count_parts is_text ps" "length (ids_of False ps) = count_parts is_thinking ps" by simp_all
qed

lemma marks_stream_ok: "marks qs = marks ps \<Longrightarrow> stream_ok (withParts x qs) = stream_ok (withParts x ps)"
  by (simp add: stream_ok_def numbered_def ids_of_def closed_parts_def marks_def map_butlast)

lemma withParts_self [simp]: "withParts x (ex_parts x) = x"
  by (simp add: withParts_def)

lemma marks_keep: "stream_ok x \<Longrightarrow> marks qs = marks (ex_parts x) \<Longrightarrow> stream_ok (withParts x qs)"
  using marks_stream_ok[of qs "ex_parts x" x] by simp

lemma stream_ok_cong: "ex_parts y = ex_parts x \<Longrightarrow> ex_id y = ex_id x \<Longrightarrow> stream_ok y = stream_ok x"
  by (simp add: stream_ok_def)

section \<open>Sealing and appending\<close>

lemma sealed_part_mark: "mark_id k (stream_mark (sealed_part p)) = mark_id k (stream_mark p)"
  by (cases p) (simp_all add: mark_id_def)

lemma sealed_part_closed: "\<not> sealable SealBoth (sealed_part p)"
  by (cases p) simp_all

lemma sealed_id [simp]: "ex_id (sealed_exchange k x) = ex_id x"
  by (simp add: sealed_exchange_def sealActivePart_def Let_def)

lemma sealed_parts: "ex_parts (sealed_exchange k x) =
    (if ex_parts x \<noteq> [] \<and> sealable k (last (ex_parts x)) then butlast (ex_parts x) @ [sealed_part (last (ex_parts x))]
     else ex_parts x)"
  by (simp add: sealed_exchange_def sealActivePart_def Let_def)

lemma sealed_numbers: "ids_of k (ex_parts (sealed_exchange s x)) = ids_of k (ex_parts x)"
proof (cases "ex_parts x = []")
  case False
  then have "ids_of k (ex_parts x) = ids_of k (butlast (ex_parts x) @ [last (ex_parts x)])" by simp
  then show ?thesis by (simp add: sealed_parts sealed_part_mark del: append_butlast_last_id)
qed (simp add: sealed_parts)

lemma stream_seal: "stream_ok x \<Longrightarrow> stream_ok (sealed_exchange k x)"
  unfolding stream_ok_def numbered_def sealed_numbers sealed_id by (simp add: sealed_parts)

lemma closed_iff: "closed_parts ps \<longleftrightarrow> closed_parts (butlast ps) \<and> (ps \<noteq> [] \<longrightarrow> \<not> sealable SealBoth (last ps))"
proof (cases "ps = []")
  case False
  then have "closed_parts ps = closed_parts (butlast ps @ [last ps])" by simp
  then show ?thesis using False by (simp del: append_butlast_last_id)
qed simp

lemma seal_closes: "stream_ok x \<Longrightarrow> closed_parts (ex_parts (sealed_exchange SealBoth x))"
  by (subst closed_iff) (auto simp: sealed_parts stream_ok_def sealed_part_closed)

lemma stream_push:
  assumes "stream_ok x" "closed_parts (ex_parts x)"
    and "\<And>k. mark_id k (stream_mark p) = [] \<or> mark_id k (stream_mark p) = [stream_id k (ex_id x) (length (ids_of k (ex_parts x)))]"
  shows "stream_ok (push_part p x)"
  unfolding stream_ok_def numbered_def push_part_def
proof (intro conjI allI)
  show "closed_parts (butlast (ex_parts (withParts x (ex_parts x @ [p]))))" using assms(2) by simp
  fix k
  have n: "ids_of k (ex_parts x) = map (stream_id k (ex_id x)) [0..<length (ids_of k (ex_parts x))]"
    using assms(1) by (simp add: stream_ok_def numbered_def)
  show "ids_of k (ex_parts (withParts x (ex_parts x @ [p]))) =
      map (stream_id k (ex_id (withParts x (ex_parts x @ [p])))) [0..<length (ids_of k (ex_parts (withParts x (ex_parts x @ [p]))))]"
    using assms(3)[of k] n by auto
qed

lemma push_id [simp]: "ex_id (push_part p x) = ex_id x" "ex_id (push_sealed p x) = ex_id x"
  by (simp_all add: push_part_def push_sealed_def)

lemma stream_push_sealed: "stream_ok x \<Longrightarrow> stream_mark p = None \<Longrightarrow> stream_ok (push_sealed p x)"
  unfolding push_sealed_def by (rule stream_push) (simp_all add: stream_seal seal_closes mark_id_def)

lemma stream_status [simp]: "stream_ok (withStatus x s) = stream_ok x"
  by (simp add: stream_ok_def)

section \<open>Every handler\<close>

lemma open_last: "open_thinking ps = Some t \<Longrightarrow> ps = butlast ps @ [PThinking t]"
    "open_text ps = Some u \<Longrightarrow> ps = butlast ps @ [PText u]"
  by (simp_all add: open_thinking_def open_text_def split: if_splits response_part.splits)
     (metis append_butlast_last_id)+

lemma not_open: "open_text ps = None \<Longrightarrow> open_thinking ps = None \<Longrightarrow> ps \<noteq> [] \<Longrightarrow> \<not> sealable SealBoth (last ps)"
  by (cases "last ps") (simp_all add: open_thinking_def open_text_def split: if_splits)

lemma marks_last: "ps = butlast ps @ [p] \<Longrightarrow> stream_mark q = stream_mark p \<Longrightarrow> marks (butlast ps @ [q]) = marks ps"
  by (metis list.simps(9) map_append marks_def)

lemma sealed_not_open:
  "open_thinking (ex_parts x) = None \<Longrightarrow> stream_ok x \<Longrightarrow> closed_parts (ex_parts (sealed_exchange SealText x))"
  "open_text (ex_parts x) = None \<Longrightarrow> stream_ok x \<Longrightarrow> closed_parts (ex_parts (sealed_exchange SealThinking x))"
  by (cases "ex_parts x = []"; cases "last (ex_parts x)"; subst closed_iff;
      simp add: sealed_parts stream_ok_def open_thinking_def open_text_def split: if_splits)+

lemma stream_thinking: "stream_ok x \<Longrightarrow> stream_ok (appendThinkingDelta text s x)"
proof (cases "open_thinking (ex_parts x)")
  case (Some t)
  assume "stream_ok x"
  then show ?thesis unfolding appendThinkingDelta_def Some option.simps stream_status
    by (rule marks_keep) (rule marks_last[OF open_last(1)[OF Some]], simp)
next
  case None
  assume x: "stream_ok x"
  show ?thesis unfolding appendThinkingDelta_def None option.simps Let_def stream_status
    by (rule stream_push)
       (simp_all add: x stream_seal sealed_not_open(1)[OF None x] mark_id_def stream_id_def ids_of_count)
qed

lemma append_id [simp]: "ex_id (appendThinkingDelta text s x) = ex_id x" "ex_id (appendTextDelta text e x) = ex_id x"
  by (simp_all add: appendThinkingDelta_def appendTextDelta_def Let_def split: option.splits)

lemma stream_text: "stream_ok x \<Longrightarrow> open_thinking (ex_parts x) = None \<Longrightarrow> stream_ok (appendTextDelta text e x)"
proof (cases "open_text (ex_parts x)")
  case (Some t)
  assume "stream_ok x"
  then show ?thesis unfolding appendTextDelta_def Some option.simps stream_status
    by (rule marks_keep) (rule marks_last[OF open_last(2)[OF Some]], simp)
next
  case None
  assume x: "stream_ok x" and th: "open_thinking (ex_parts x) = None"
  have "closed_parts (ex_parts x)"
    using x not_open[OF None th] by (subst closed_iff) (simp add: stream_ok_def)
  then show ?thesis unfolding appendTextDelta_def None option.simps Let_def stream_status
    by (intro stream_push) (simp_all add: x mark_id_def stream_id_def ids_of_count)
qed

lemma thinking_sealed: "open_thinking (ex_parts (sealed_exchange SealThinking x)) = None"
  by (cases "last (ex_parts x)") (simp_all add: open_thinking_def sealed_parts split: response_part.splits)

text \<open>What a handler keeps: the identity and the stream.\<close>

definition keeps_stream :: "(exchange \<Rightarrow> exchange option) \<Rightarrow> bool" where
  "keeps_stream h \<longleftrightarrow> (\<forall>x. ex_id (now_or (h x) x) = ex_id x \<and> (stream_ok x \<longrightarrow> stream_ok (now_or (h x) x)))"

lemma keepsI: "(\<And>x. ex_id (now_or (h x) x) = ex_id x) \<Longrightarrow> (\<And>x. stream_ok x \<Longrightarrow> stream_ok (now_or (h x) x)) \<Longrightarrow> keeps_stream h"
  by (simp add: keeps_stream_def)

named_theorems keeps \<open>handlers that keep the stream\<close>

lemma keeps_nothing [keeps]: "keeps_stream (\<lambda>x. None)"
  by (simp add: keeps_stream_def)

lemma keeps_seal [keeps]: "keeps_stream (sealActivePart k)"
  using stream_seal[of _ k] sealed_id[of k] by (simp add: keeps_stream_def sealed_exchange_def)

lemma keeps_if [keeps]: "keeps_stream h \<Longrightarrow> keeps_stream g \<Longrightarrow> keeps_stream (\<lambda>x. if b then h x else g x)"
  by (cases b) simp_all

lemma keeps_option: "keeps_stream h \<Longrightarrow> (\<And>a. keeps_stream (g a)) \<Longrightarrow> keeps_stream (\<lambda>x. case v of None \<Rightarrow> h x | Some a \<Rightarrow> g a x)"
  by (cases v) simp_all

lemma keeps_delta [keeps]: "keeps_stream (applyStreamDelta e)"
  by (rule keepsI)
     (simp_all add: applyStreamDelta_def Let_def stream_thinking stream_text stream_seal thinking_sealed
        flip: sealed_exchange_def)

lemma keeps_push: "(\<And>x. stream_mark (p x) = None) \<Longrightarrow> keeps_stream (\<lambda>x. if b x then None else Some (push_sealed (p x) x))"
  by (rule keepsI) (simp_all add: stream_push_sealed)

lemma keeps_streaming [keeps]: "keeps_stream to_streaming"
  by (rule keepsI) (simp_all add: to_streaming_def stream_ok_def)

lemma keeps_streamingD: "ex_id (now_or (to_streaming x) x) = ex_id x" "stream_ok x \<Longrightarrow> stream_ok (now_or (to_streaming x) x)"
  using keeps_streaming by (simp_all add: keeps_stream_def)

lemma keeps_marks: "(\<And>x qs. g x = Some qs \<Longrightarrow> marks qs = marks (ex_parts x)) \<Longrightarrow> keeps_stream (\<lambda>x. map_option (withParts x) (g x))"
  by (rule keepsI) (auto simp: now_or_map intro: marks_keep split: option.splits)

lemma rewrite_marks: "(\<And>p q. f p = Some q \<Longrightarrow> stream_mark q = stream_mark p) \<Longrightarrow> rewrite_first P f ps = Some qs \<Longrightarrow> marks qs = marks ps"
  unfolding marks_def by (rule rewrite_first_map)

lemma rewrite_last_marks:
  "(\<And>p q. f p = Some q \<Longrightarrow> stream_mark q = stream_mark p) \<Longrightarrow> rewrite_last P f ps = Some qs \<Longrightarrow> marks qs = marks ps"
  unfolding marks_def by (rule rewrite_last_map)

lemma tool_marks:
  "set_result r p = Some q \<Longrightarrow> stream_mark q = stream_mark p"
  "set_approval a p = Some q \<Longrightarrow> stream_mark q = stream_mark p"
  "set_plan s fb p = Some q \<Longrightarrow> stream_mark q = stream_mark p"
  by (cases p; auto split: if_splits)+

lemma on_tool_marks: "(\<And>t tr q. f t tr = Some q \<Longrightarrow> stream_mark q = None) \<Longrightarrow> on_tool f p = Some q \<Longrightarrow> stream_mark q = stream_mark p"
  by (cases p) auto

lemma spawned_marks: "stampTeammateSpawnedPart e t tr = Some q \<Longrightarrow> stream_mark q = None"
  unfolding stampTeammateSpawnedPart_def Let_def by (cases "non_blank (str_at (we_data e) ''teammateRunId'')") auto

lemma stamp_marks [simp]: "stream_mark (stampTeammateCompletedPart e t tr) = None"
    "stream_mark (updateTeammateToolPart k e i t tr) = None"
  by (simp_all only: stampTeammateCompletedPart_def updateTeammateToolPart_def Let_def stream_mark.simps)

lemma keeps_plan_call: "keeps_stream (applyUpdatePlanCall u data)"
  by (rule keepsI) (simp_all add: applyUpdatePlanCall_def Let_def keeps_streamingD stream_push_sealed)

lemma keeps_call [keeps]: "keeps_stream (applyToolCall e)"
  using keeps_plan_call by (auto simp: keeps_stream_def applyToolCall_def Let_def keeps_streamingD stream_push_sealed)

lemma keeps_result [keeps]: "keeps_stream (applyToolResult e)"
  unfolding applyToolResult_def Let_def
  by (rule keeps_if[OF keeps_nothing], rule keeps_marks) (erule rewrite_marks[rotated], erule tool_marks(1))

lemma keeps_media [keeps]: "keeps_stream (applyMediaSent taskId e)"
  by (auto simp: keeps_stream_def applyMediaSent_def Let_def keeps_streamingD stream_push_sealed)

lemma keeps_requested [keeps]: "keeps_stream (applyApprovalRequested e)"
proof (cases "readApprovalId e")
  case (Some i)
  show ?thesis unfolding applyApprovalRequested_def Some option.simps
    by (rule keeps_marks) (erule rewrite_last_marks[rotated], erule tool_marks(2))
qed (simp add: keeps_stream_def applyApprovalRequested_def)

lemma keeps_resolved [keeps]: "keeps_stream (applyApprovalResolved e)"
proof (cases "readApprovalId e")
  case (Some i)
  show ?thesis unfolding applyApprovalResolved_def Some option.simps
    by (rule keeps_marks) (erule rewrite_marks[rotated], erule tool_marks(2))
qed (simp add: keeps_stream_def applyApprovalResolved_def)

lemma keeps_notice [keeps]: "keeps_stream (applySystemNotice v e)"
  by (simp add: keeps_stream_def applySystemNotice_def Let_def stream_push_sealed)

lemma keeps_error [keeps]: "keeps_stream (applyModelError e)"
  by (simp add: keeps_stream_def applyModelError_def Let_def stream_push_sealed)

lemma keeps_spawned [keeps]: "keeps_stream (applyTeammateSpawned e)"
proof (cases "payload_id e ''parentToolUseId'' = None \<or> payload_id e ''teammateRunId'' = None")
  case False
  then obtain parent run where p: "payload_id e ''parentToolUseId'' = Some parent" "payload_id e ''teammateRunId'' = Some run" by auto
  show ?thesis unfolding applyTeammateSpawned_def p option.simps prod.case Let_def
    by (rule keeps_marks) (auto split: if_splits elim!: rewrite_marks[rotated] on_tool_marks[rotated] dest: spawned_marks)
qed (auto simp: keeps_stream_def applyTeammateSpawned_def split: option.splits)

lemma keeps_completed [keeps]: "keeps_stream (applyTeammateCompleted e)"
proof (cases "payload_id e ''teammateRunId''")
  case (Some run)
  show ?thesis unfolding applyTeammateCompleted_def Some option.simps
    by (rule keeps_marks) (auto elim!: rewrite_marks[rotated] on_tool_marks[rotated])
qed (simp add: keeps_stream_def applyTeammateCompleted_def)

lemma keeps_default [keeps]: "keeps_stream (defaultDispatch taskId e)"
  unfolding defaultDispatch_def Let_def by (intro keeps)

lemma replace_marks: "(\<And>t tr. stream_mark (f t tr) = None) \<Longrightarrow> marks (replaceToolPartByPath path f ps) = marks ps"
proof (cases path)
  case (Cons i js)
  assume f: "\<And>t tr. stream_mark (f t tr) = None"
  have upd: "marks (ps[i := q]) = marks ps" if "i < length ps" "stream_mark q = stream_mark (ps ! i)" for q
    using that by (metis list_update_id map_update marks_def nth_map)
  show ?thesis unfolding Cons by (cases "ps ! i") (simp_all add: upd f)
qed simp

lemma keeps_tree: "(\<And>t tr. stream_mark (f t tr) = None) \<Longrightarrow> keeps_stream (rewrite_tree P f)"
  by (rule keepsI) (auto simp: rewrite_tree_def now_or_map replace_marks intro: marks_keep split: option.splits)

lemma keeps_nested [keeps]: "keeps_stream (applyTeammateNestedEvent taskId e)"
proof -
  have s: "stream_mark (now_or (stampTeammateSpawnedPart e t tr) (PTool t tr)) = None" for t tr
    by (cases "stampTeammateSpawnedPart e t tr") (auto dest: spawned_marks)
  have r: "keeps_stream (\<lambda>x. rewrite_tree P (updateTeammateToolPart taskId e (ex_id x @ i)) x)" for P i
    by (rule keepsI)
       (auto simp: rewrite_tree_def now_or_map replace_marks intro: marks_keep split: option.splits)
  show ?thesis unfolding applyTeammateNestedEvent_def
    by (intro keeps keeps_option keeps_tree r s stamp_marks)
qed

lemma keeps_timing [keeps]: "keeps_stream (applyTimingEvent e)"
  by (rule keepsI) (simp_all add: applyTimingEvent_def Let_def now_or_map stream_ok_def split: option.splits)

lemma keeps_enter [keeps]: "keeps_stream (\<lambda>x. Some (enter_plan_mode x))"
  by (rule keepsI) (simp_all add: enter_plan_mode_def stream_ok_def)

lemma stream_plan_fields: "stream_ok (x\<lparr>ex_phase := a, ex_pendingExit := b\<rparr>) = stream_ok x" "stream_ok (x\<lparr>ex_phase := a\<rparr>) = stream_ok x"
    "stream_ok (x\<lparr>ex_pendingExit := b\<rparr>) = stream_ok x"
  by (simp_all add: stream_ok_def)

lemma keeps_proposed [keeps]: "keeps_stream (applyPlanProposed e)"
  by (rule keepsI) (simp_all add: applyPlanProposed_def Let_def stream_plan_fields stream_push_sealed)

lemma keeps_exited [keeps]: "keeps_stream (applyPlanModeExited e)"
  by (rule keepsI)
     (auto simp: applyPlanModeExited_def Let_def stream_plan_fields split: option.splits
        intro!: marks_keep elim!: rewrite_last_marks[rotated] tool_marks(3))

lemma terminal_mark: "stream_mark (terminal_part clock st b keep p) = stream_mark p"
  by (cases p) (simp_all add: Let_def)

lemma terminal_marks: "marks (map (terminal_part clock st b keep) ps) = marks ps"
  by (simp add: marks_def terminal_mark)

lemma keeps_terminal [keeps]: "keeps_stream (markTerminal clock st b keep)"
  by (rule keepsI) (simp_all add: markTerminal_def Let_def marks_keep terminal_marks stream_seal)

lemma keeps_dispatch [keeps]: "keeps_stream (leader_dispatch clock taskId e)"
  unfolding leader_dispatch_def Let_def by (intro keeps)

lemma keeps_and_then: "keeps_stream h \<Longrightarrow> keeps_stream g \<Longrightarrow> keeps_stream (\<lambda>x. and_then (h x) g x)"
  by (simp add: keeps_stream_def)

lemma keeps_mutate: "keeps_stream (mutateExchange clock taskId e)"
  unfolding mutateExchange_def by (intro keeps keeps_and_then)

lemma mutate_id: "mutateExchange clock taskId e x = Some y \<Longrightarrow> ex_id y = ex_id x"
  using keeps_mutate[of clock taskId e] by (auto simp: keeps_stream_def dest!: spec[of _ x])

lemma mutate_stream: "mutateExchange clock taskId e x = Some y \<Longrightarrow> stream_ok x \<Longrightarrow> stream_ok y"
  using keeps_mutate[of clock taskId e] by (auto simp: keeps_stream_def dest!: spec[of _ x])

lemma terminal_clock: "markTerminal clock st b keep x = None \<longleftrightarrow> markTerminal clock' st b keep x = None"
  by (simp add: markTerminal_def Let_def)

lemma same_if: "(h = None \<longleftrightarrow> h' = None) \<Longrightarrow> (g = None \<longleftrightarrow> g' = None) \<Longrightarrow>
    (if b then h else g) = None \<longleftrightarrow> (if b then h' else g') = None"
  by simp

lemma dispatch_clock: "leader_dispatch clock taskId e x = None \<longleftrightarrow> leader_dispatch clock' taskId e x = None"
  unfolding leader_dispatch_def Let_def by (intro same_if terminal_clock refl)

lemma mutate_clock: "mutateExchange clock taskId e x = None \<Longrightarrow> mutateExchange clock' taskId e x = None"
  unfolding mutateExchange_def by (cases "from_teammate e") (simp_all add: dispatch_clock[of clock _ _ _ clock'])

section \<open>Conversations\<close>

definition conversation_ok :: "conversation \<Rightarrow> bool" where
  "conversation_ok c \<longleftrightarrow> list_all stream_ok (cv_exchanges c) \<and> distinct (map ex_id (cv_exchanges c))"

lemma fresh_ok: "stream_ok (new_exchange r a b)" "ex_id (new_exchange r a b) = r" "ex_lastSeq (new_exchange r a b) = 0"
  by (simp_all add: new_exchange_def stream_ok_def numbered_def)

lemma with_seq_simps [simp]: "stream_ok (with_seq s x) = stream_ok x" "ex_id (with_seq s x) = ex_id x"
    "ex_lastSeq (with_seq s x) = s" "ex_parts (with_seq s x) = ex_parts x"
  by (simp_all add: with_seq_def stream_ok_def)

end
