(* ===== verification/Conversation_Replay.thy ===== *)
theory Conversation_Replay
  imports Conversation_Stream
begin

text \<open>
  What the projector promises of whole logs: every event leaves a well-formed conversation, a log that is applied again
  changes nothing, and a snapshot can be joined with the live events. Then what the code does that its contract does not
  say.
\<close>

section \<open>Looking up an exchange\<close>

lemma find_Nil [simp]: "find_exchange r [] = None"
  by (simp add: find_exchange_def)

lemma find_Cons [simp]: "find_exchange r (x # xs) = (if ex_id x = r then Some x else find_exchange r xs)"
  by (simp add: find_exchange_def)

lemma find_exchange_append: "find_exchange r (xs @ ys) = or_option (find_exchange r xs) (find_exchange r ys)"
  by (induction xs) (simp_all add: or_option_def)

lemma find_None: "find_exchange r xs = None \<longleftrightarrow> r \<notin> ex_id ` set xs"
  by (induction xs) auto

lemma index_None: "exchange_index r xs = None \<longleftrightarrow> find_exchange r xs = None"
  by (induction xs) auto

lemma index_Some: "exchange_index r xs = Some i \<Longrightarrow> i < length xs \<and> ex_id (xs ! i) = r \<and> find_exchange r xs = Some (xs ! i)"
  by (induction xs arbitrary: i) (auto split: if_splits)

lemma find_index: "find_exchange r xs = Some x \<Longrightarrow> \<exists>i. exchange_index r xs = Some i \<and> xs ! i = x"
proof (cases "exchange_index r xs")
  case None
  assume "find_exchange r xs = Some x"
  then show ?thesis using index_None[of r xs] None by simp
next
  case (Some i)
  assume "find_exchange r xs = Some x"
  then show ?thesis using index_Some[OF Some] Some by simp
qed

lemma find_update: "exchange_index r xs = Some i \<Longrightarrow> ex_id y = r
    \<Longrightarrow> find_exchange q (xs[i := y]) = (if q = r then Some y else find_exchange q xs)"
  by (induction xs arbitrary: i) (auto split: if_splits)

lemma ids_update: "exchange_index r xs = Some i \<Longrightarrow> ex_id y = r \<Longrightarrow> map ex_id (xs[i := y]) = map ex_id xs"
  by (induction xs arbitrary: i) (auto split: if_splits)

lemma remove_at_Cons [simp]: "remove_at 0 (x # xs) = xs" "remove_at (Suc n) (x # xs) = x # remove_at n xs"
  by (simp_all add: remove_at_def)

lemma find_remove: "exchange_index s xs = Some j \<Longrightarrow> distinct (map ex_id xs)
    \<Longrightarrow> find_exchange q (remove_at j xs) = (if q = s then None else find_exchange q xs)"
  by (induction xs arbitrary: j) (auto simp: find_None image_iff split: if_splits)

lemma set_remove: "set (remove_at j xs) \<subseteq> set xs"
  by (auto simp: remove_at_def dest: in_set_takeD in_set_dropD)

lemma map_remove: "map f (remove_at j xs) = remove_at j (map f xs)"
  by (simp add: remove_at_def take_map drop_map)

lemma distinct_remove: "distinct xs \<Longrightarrow> distinct (remove_at j xs)"
proof (induction xs arbitrary: j)
  case (Cons x xs)
  then show ?case using set_remove[of _ xs] by (cases j) auto
qed (simp add: remove_at_def)

lemma index_remove: "exchange_index s xs = Some j \<Longrightarrow> exchange_index r xs = Some i \<Longrightarrow> r \<noteq> s
    \<Longrightarrow> exchange_index r (remove_at j xs) = Some (if j < i then i - 1 else i)"
  by (induction xs arbitrary: i j) (auto split: if_splits nat.splits)

lemma le_max: "s \<le> maxKnownSeq xs \<longleftrightarrow> s \<le> 0 \<or> (\<exists>x\<in>set xs. s \<le> ex_lastSeq x)"
  by (induction xs rule: rev_induct) (auto simp: maxKnownSeq_def)

section \<open>One event\<close>

abbreviation exs :: "conversation \<Rightarrow> exchange list" where "exs \<equiv> cv_exchanges"

definition self_merge :: "wire_event \<Rightarrow> bool" where
  "self_merge e \<longleftrightarrow> we_type e = ''task.prompt_merged'' \<and> merge_target e \<noteq> None \<and> merge_source e = merge_target e"

text \<open>How an event may change a list of exchanges: nothing, one exchange put in place of another, one added, one folded away.\<close>

definition replaced :: "string \<Rightarrow> exchange \<Rightarrow> exchange list \<Rightarrow> exchange list \<Rightarrow> bool" where
  "replaced r y xs ys \<longleftrightarrow> (\<exists>i. exchange_index r xs = Some i \<and> ex_id y = r \<and> ys = xs[i := y] \<and> ex_lastSeq (xs ! i) < ex_lastSeq y)"

definition folded_away :: "string \<Rightarrow> exchange list \<Rightarrow> exchange list \<Rightarrow> bool" where
  "folded_away s xs ys \<longleftrightarrow> (\<exists>j. exchange_index s xs = Some j \<and> \<not> has_output (xs ! j) \<and> ys = remove_at j xs)"

definition exchange_step :: "int \<Rightarrow> exchange list \<Rightarrow> exchange list \<Rightarrow> bool" where
  "exchange_step s xs ys \<longleftrightarrow> ys = xs
     \<or> (\<exists>r y. ex_lastSeq y = s \<and> replaced r y xs ys)
     \<or> (\<exists>y. ex_lastSeq y = s \<and> find_exchange (ex_id y) xs = None \<and> ys = xs @ [y])
     \<or> (\<exists>r q y zs. ex_lastSeq y = s \<and> q \<noteq> r \<and> folded_away q xs zs \<and> replaced r y zs ys)"

lemma fold_prompt_simps [simp]: "ex_id (fold_prompt e source t) = ex_id t" "ex_lastSeq (fold_prompt e source t) = we_seq e"
    "ex_parts (fold_prompt e source t) = ex_parts t"
  by (simp_all add: fold_prompt_def Let_def)

lemma merge_step:
  assumes "merge_target e = Some r" "merge_source e \<noteq> Some r" "exchange_index r xs = Some i" "ex_lastSeq (xs ! i) < we_seq e"
    and d: "distinct (map ex_id xs)"
  shows "\<exists>ys. merge_into e i xs = Some ys \<and> exchange_step (we_seq e) xs ys
    \<and> (\<exists>y. find_exchange r ys = Some y \<and> ex_lastSeq y = we_seq e)"
proof (cases "Option.bind (merge_source e) (\<lambda>s. exchange_index s xs)")
  case None
  let ?y = "fold_prompt e None (xs ! i)"
  have "replaced r ?y xs (xs[i := ?y])" using assms(3,4) index_Some[OF assms(3)] by (auto simp: replaced_def)
  moreover have "find_exchange r (xs[i := ?y]) = Some ?y"
    using find_update[OF assms(3), of ?y] index_Some[OF assms(3)] by simp
  ultimately show ?thesis using None index_Some[OF assms(3)]
    by (auto simp: merge_into_def exchange_step_def Let_def intro!: exI[of _ r] exI[of _ ?y])
next
  case (Some j)
  then obtain s where s: "merge_source e = Some s" and j: "exchange_index s xs = Some j" by (auto simp: bind_eq_Some_conv)
  have ne: "s \<noteq> r" using assms(2) s by auto
  let ?y = "fold_prompt e (Some (xs ! j)) (xs ! i)"
  let ?k = "if j < i then i - 1 else i"
  have y: "ex_id ?y = r" "ex_lastSeq ?y = we_seq e" using index_Some[OF assms(3)] by simp_all
  show ?thesis
  proof (cases "has_output (xs ! j)")
    case True
    have "replaced r ?y xs (xs[i := ?y])" using assms(3,4) y by (auto simp: replaced_def)
    moreover have "find_exchange r (xs[i := ?y]) = Some ?y" using find_update[OF assms(3) y(1)] by simp
    ultimately show ?thesis using Some True index_Some[OF assms(3)] y
      by (auto simp: merge_into_def exchange_step_def Let_def intro!: exI[of _ r] exI[of _ ?y])
  next
    case False
    let ?zs = "remove_at j xs"
    have k: "exchange_index r ?zs = Some ?k" by (rule index_remove[OF j assms(3)]) (use ne in auto)
    note kk = index_Some[OF k]
    have same: "?zs ! ?k = xs ! i"
      using find_remove[OF j d, of r] kk index_Some[OF assms(3)] ne by simp
    have r: "replaced r ?y ?zs (?zs[?k := ?y])" using k y assms(4) same by (auto simp: replaced_def)
    have f: "folded_away s xs ?zs" using j False by (auto simp: folded_away_def)
    have m: "merge_into e i xs = Some (?zs[?k := ?y])"
      using Some s j False kk same by (simp add: merge_into_def Let_def)
    have n: "find_exchange r (?zs[?k := ?y]) = Some ?y" using find_update[OF k y(1)] by simp
    have "exchange_step (we_seq e) xs (?zs[?k := ?y])"
      unfolding exchange_step_def using r f ne y(2) by blast
    then show ?thesis using m n y by blast
  qed
qed

lemma replace_step: "exchange_index r xs = Some i \<Longrightarrow> ex_id y = r \<Longrightarrow> ex_lastSeq y = s \<Longrightarrow> ex_lastSeq (xs ! i) < s
    \<Longrightarrow> exchange_step s xs (xs[i := y])"
  unfolding exchange_step_def replaced_def by blast

lemma merge_event:
  assumes "we_type e = ''task.prompt_merged''" "\<not> self_merge e" "distinct (map ex_id (exs c))"
  shows "\<exists>ys. applyEvent clock e c = Some (c\<lparr>cv_exchanges := ys\<rparr>) \<and> exchange_step (we_seq e) (exs c) ys
    \<and> (\<forall>r t. merge_target e = Some r \<longrightarrow> find_exchange r ys = Some t \<longrightarrow> we_seq e \<le> ex_lastSeq t)"
proof (cases "Option.bind (merge_target e) (\<lambda>r. exchange_index r (exs c))")
  case None
  have "applyEvent clock e c = Some c" using assms(1) None by (simp add: applyEvent_def applyPromptMerged_def Let_def)
  moreover have "find_exchange r (exs c) = None" if "merge_target e = Some r" for r using None that by (simp add: index_None)
  ultimately show ?thesis by (intro exI[of _ "exs c"]) (simp add: exchange_step_def)
next
  case (Some i)
  then obtain r where r: "merge_target e = Some r" and i: "exchange_index r (exs c) = Some i" by (auto simp: bind_eq_Some_conv)
  have ns: "merge_source e \<noteq> Some r" using assms(1,2) r by (auto simp: self_merge_def)
  note ii = index_Some[OF i]
  have a: "applyEvent clock e c = (if we_seq e \<le> ex_lastSeq (exs c ! i) then Some c
      else if already_folded e (exs c ! i) then Some (c\<lparr>cv_exchanges := (exs c)[i := with_seq (we_seq e) (exs c ! i)]\<rparr>)
      else map_option (\<lambda>ys. c\<lparr>cv_exchanges := ys\<rparr>) (merge_into e i (exs c)))"
    using assms(1) Some by (simp add: applyEvent_def applyPromptMerged_def Let_def)
  consider "we_seq e \<le> ex_lastSeq (exs c ! i)" | "ex_lastSeq (exs c ! i) < we_seq e" "already_folded e (exs c ! i)"
    | "ex_lastSeq (exs c ! i) < we_seq e" "\<not> already_folded e (exs c ! i)" by linarith
  then show ?thesis
  proof cases
    case 1
    then show ?thesis using a ii r by (intro exI[of _ "exs c"]) (auto simp: exchange_step_def)
  next
    case 2
    let ?y = "with_seq (we_seq e) (exs c ! i)"
    have "ex_id ?y = r" using ii by simp
    then show ?thesis using a 2 r replace_step[OF i, of ?y "we_seq e"] find_update[OF i, of ?y]
      by (intro exI[of _ "(exs c)[i := ?y]"]) auto
  next
    case 3
    obtain ys where ys: "merge_into e i (exs c) = Some ys" "exchange_step (we_seq e) (exs c) ys"
      and last: "\<And>t. find_exchange r ys = Some t \<Longrightarrow> we_seq e \<le> ex_lastSeq t"
      using merge_step[OF r ns i 3(1) assms(3)] by auto
    then show ?thesis using a 3 r by (intro exI[of _ ys]) auto
  qed
qed

text \<open>An event is settled when it would change nothing, whatever the clock.\<close>

definition settled :: "wire_event \<Rightarrow> conversation \<Rightarrow> bool" where
  "settled e c \<longleftrightarrow>
    (if we_type e = ''task.prompt_merged''
     then (\<forall>r t. merge_target e = Some r \<longrightarrow> find_exchange r (exs c) = Some t \<longrightarrow> we_seq e \<le> ex_lastSeq t)
     else (case find_exchange (we_request e) (exs c) of
         None \<Rightarrow> we_seq e \<le> maxKnownSeq (exs c)
       | Some x \<Rightarrow> we_seq e \<le> ex_lastSeq x \<or> (\<forall>clock. mutateExchange clock (cv_taskId c) e x = None)))"

lemma settled_noop: "settled e c \<Longrightarrow> applyEvent clock e c = Some c"
proof (cases "we_type e = ''task.prompt_merged''")
  case True
  assume s: "settled e c"
  show ?thesis
  proof (cases "Option.bind (merge_target e) (\<lambda>r. exchange_index r (exs c))")
    case None
    then show ?thesis using True by (simp add: applyEvent_def applyPromptMerged_def Let_def)
  next
    case (Some i)
    then obtain r where "merge_target e = Some r" "exchange_index r (exs c) = Some i" by (auto simp: bind_eq_Some_conv)
    then have "we_seq e \<le> ex_lastSeq (exs c ! i)" using s True index_Some[of r "exs c" i] by (simp add: settled_def)
    then show ?thesis using True Some by (simp add: applyEvent_def applyPromptMerged_def Let_def)
  qed
next
  case False
  assume s: "settled e c"
  show ?thesis
  proof (cases "exchange_index (we_request e) (exs c)")
    case None
    then have "we_seq e \<le> maxKnownSeq (exs c)" using s False index_None[of "we_request e" "exs c"] by (simp add: settled_def)
    then show ?thesis using False None by (simp add: applyEvent_def Let_def)
  next
    case (Some i)
    then show ?thesis using s False index_Some[OF Some] by (auto simp: applyEvent_def settled_def Let_def)
  qed
qed

lemma plain_event:
  assumes "we_type e \<noteq> ''task.prompt_merged''"
  shows "\<exists>ys. applyEvent clock e c = Some (c\<lparr>cv_exchanges := ys\<rparr>) \<and> exchange_step (we_seq e) (exs c) ys
    \<and> settled e (c\<lparr>cv_exchanges := ys\<rparr>)"
proof (cases "exchange_index (we_request e) (exs c)")
  case None
  note f = None[unfolded index_None]
  show ?thesis
  proof (cases "we_seq e \<le> maxKnownSeq (exs c)")
    case True
    then show ?thesis using assms None f
      by (intro exI[of _ "exs c"]) (simp add: applyEvent_def exchange_step_def settled_def Let_def)
  next
    case False
    then have pos: "0 < we_seq e" by (auto simp: le_max)
    let ?x = "fresh_exchange e"
    let ?y = "with_seq (we_seq e) (now_or (mutateExchange clock (cv_taskId c) e ?x) ?x)"
    have x: "ex_id ?x = we_request e" "ex_lastSeq ?x = 0" by (simp_all add: fresh_exchange_def fresh_ok)
    have y: "ex_id ?y = we_request e" "ex_lastSeq ?y = we_seq e"
      using x mutate_id by (cases "mutateExchange clock (cv_taskId c) e ?x"; force)+
    have "applyEvent clock e c = Some (c\<lparr>cv_exchanges := exs c @ [?y]\<rparr>)"
      using assms None False pos x by (simp add: applyEvent_def Let_def)
    moreover have "exchange_step (we_seq e) (exs c) (exs c @ [?y])"
      unfolding exchange_step_def using f y by metis
    moreover have "settled e (c\<lparr>cv_exchanges := exs c @ [?y]\<rparr>)"
      using assms f y by (simp add: settled_def find_exchange_append or_option_def)
    ultimately show ?thesis by blast
  qed
next
  case (Some i)
  note ii = index_Some[OF Some]
  have a: "applyEvent clock e c = (if we_seq e \<le> ex_lastSeq (exs c ! i) then Some c
     else (case mutateExchange clock (cv_taskId c) e (exs c ! i) of None \<Rightarrow> Some c
       | Some y \<Rightarrow> Some (c\<lparr>cv_exchanges := (exs c)[i := with_seq (we_seq e) y]\<rparr>)))"
    using assms Some by (simp add: applyEvent_def Let_def)
  show ?thesis
  proof (cases "we_seq e \<le> ex_lastSeq (exs c ! i) \<or> mutateExchange clock (cv_taskId c) e (exs c ! i) = None")
    case True
    then have "applyEvent clock e c = Some c" using a by auto
    moreover have "settled e c" using True assms ii mutate_clock[of clock "cv_taskId c" e "exs c ! i"] by (auto simp: settled_def)
    ultimately show ?thesis by (intro exI[of _ "exs c"]) (simp add: exchange_step_def)
  next
    case False
    then obtain y where y: "mutateExchange clock (cv_taskId c) e (exs c ! i) = Some y" by auto
    let ?y = "with_seq (we_seq e) y"
    have z: "ex_id ?y = we_request e" using mutate_id[OF y] ii by simp
    have "exchange_step (we_seq e) (exs c) ((exs c)[i := ?y])" by (rule replace_step[OF Some z]) (use False in simp_all)
    moreover have "settled e (c\<lparr>cv_exchanges := (exs c)[i := ?y]\<rparr>)"
      using assms find_update[OF Some z] by (simp add: settled_def)
    ultimately show ?thesis using a y False by (intro exI[of _ "(exs c)[i := ?y]"]) simp
  qed
qed

lemma any_event: "\<not> self_merge e \<Longrightarrow> distinct (map ex_id (exs c)) \<Longrightarrow>
    \<exists>ys. applyEvent clock e c = Some (c\<lparr>cv_exchanges := ys\<rparr>) \<and> exchange_step (we_seq e) (exs c) ys
    \<and> settled e (c\<lparr>cv_exchanges := ys\<rparr>)"
  using merge_event[of e c clock] plain_event[of e clock c]
  by (cases "we_type e = ''task.prompt_merged''") (auto simp: settled_def)

section \<open>What a step keeps\<close>

lemma replaced_view: "replaced r y xs ys \<Longrightarrow> find_exchange q ys = (if q = r then Some y else find_exchange q xs)"
  by (auto simp: replaced_def find_update)

lemma replaced_max: "replaced r y xs ys \<Longrightarrow> s \<le> maxKnownSeq xs \<or> s \<le> ex_lastSeq y \<Longrightarrow> s \<le> maxKnownSeq ys"
proof -
  assume r: "replaced r y xs ys" and s: "s \<le> maxKnownSeq xs \<or> s \<le> ex_lastSeq y"
  then obtain i where i: "i < length xs" "ys = xs[i := y]" "ex_lastSeq (xs ! i) < ex_lastSeq y"
    using index_Some by (auto simp: replaced_def)
  have y: "y \<in> set ys" using i by (simp add: set_update_memI)
  have "\<exists>z\<in>set ys. s \<le> ex_lastSeq z" if x: "x \<in> set xs" "s \<le> ex_lastSeq x" for x
  proof -
    obtain n where n: "n < length xs" "x = xs ! n" using x(1) in_set_conv_nth[of x xs] by blast
    show ?thesis
    proof (cases "n = i")
      case True
      then show ?thesis using y i(3) n x(2) by (intro bexI[of _ y]) simp_all
    next
      case False
      then have "x \<in> set ys" using n i by (metis length_list_update nth_list_update_neq nth_mem)
      then show ?thesis using x(2) by blast
    qed
  qed
  then show ?thesis using s y by (auto simp: le_max)
qed

lemma replaced_ids: "replaced r y xs ys \<Longrightarrow> map ex_id ys = map ex_id xs"
  by (auto simp: replaced_def ids_update)

lemma folded_max: "folded_away r xs ys \<Longrightarrow> s \<le> maxKnownSeq xs \<Longrightarrow> s \<le> maxKnownSeq ys"
proof -
  assume f: "folded_away r xs ys" and s: "s \<le> maxKnownSeq xs"
  then obtain j where j: "j < length xs" "ys = remove_at j xs" "ex_lastSeq (xs ! j) \<le> 0"
    using index_Some by (auto simp: folded_away_def has_output_def not_less)
  have "x \<in> set ys" if "x \<in> set xs" "0 < ex_lastSeq x" for x
  proof -
    have "set xs = set (take j xs @ xs ! j # drop (Suc j) xs)" using id_take_nth_drop[OF j(1)] by simp
    then have "x = xs ! j \<or> x \<in> set ys" using that(1) unfolding j(2) remove_at_def by auto
    then show ?thesis using that(2) j(3) by auto
  qed
  then show ?thesis using s by (auto simp: le_max not_le)
qed

lemma step_distinct: "exchange_step s xs ys \<Longrightarrow> distinct (map ex_id xs) \<Longrightarrow> distinct (map ex_id ys)"
  unfolding exchange_step_def
proof (elim disjE exE conjE)
  fix r q y zs
  assume "distinct (map ex_id xs)" "folded_away q xs zs" "replaced r y zs ys"
  then show "distinct (map ex_id ys)"
    by (auto simp: replaced_ids folded_away_def map_remove intro: distinct_remove)
qed (auto simp: replaced_ids find_None image_iff)

text \<open>What a request sees of a step: its exchange as it was, or one as new as the step, or none while the step is known.\<close>

lemma step_view:
  assumes "exchange_step s xs ys" "distinct (map ex_id xs)"
  shows "find_exchange q ys = find_exchange q xs \<or> (\<exists>y. find_exchange q ys = Some y \<and> ex_lastSeq y = s)
    \<or> (find_exchange q ys = None \<and> s \<le> maxKnownSeq ys)"
    and "n \<le> maxKnownSeq xs \<Longrightarrow> n \<le> maxKnownSeq ys"
proof -
  show "find_exchange q ys = find_exchange q xs \<or> (\<exists>y. find_exchange q ys = Some y \<and> ex_lastSeq y = s)
    \<or> (find_exchange q ys = None \<and> s \<le> maxKnownSeq ys)"
    using assms(1) unfolding exchange_step_def
  proof (elim disjE exE conjE)
    fix r p y zs
    assume h: "ex_lastSeq y = s" "p \<noteq> r" "folded_away p xs zs" "replaced r y zs ys"
    have "find_exchange q zs = (if q = p then None else find_exchange q xs)"
      using h(3) find_remove[OF _ assms(2)] by (auto simp: folded_away_def)
    moreover have "s \<le> maxKnownSeq ys" using replaced_max[OF h(4)] h(1) by auto
    ultimately show ?thesis using replaced_view[OF h(4)] h(1) by auto
  qed (auto simp: replaced_view find_exchange_append or_option_def split: option.splits)
  show "n \<le> maxKnownSeq xs \<Longrightarrow> n \<le> maxKnownSeq ys"
  proof -
    assume n: "n \<le> maxKnownSeq xs"
    show ?thesis using assms(1) unfolding exchange_step_def
    proof (elim disjE exE conjE)
      fix y assume "ys = xs @ [y]"
      then show ?thesis using n by (auto simp: le_max)
    next
      fix r q y zs assume "folded_away q xs zs" "replaced r y zs ys"
      then show ?thesis using n folded_max replaced_max by blast
    qed (use n replaced_max in blast)+
  qed
qed

lemma settled_step:
  assumes "settled e c" "exchange_step s (exs c) ys" "distinct (map ex_id (exs c))" "we_seq e \<le> s"
  shows "settled e (c\<lparr>cv_exchanges := ys\<rparr>)"
proof (cases "we_type e = ''task.prompt_merged''")
  case True
  have "we_seq e \<le> ex_lastSeq t" if t: "merge_target e = Some r" "find_exchange r ys = Some t" for r t
  proof (cases "find_exchange r ys = find_exchange r (exs c)")
    case same: True
    then show ?thesis using assms(1) True t by (simp add: settled_def)
  next
    case False
    then show ?thesis using step_view(1)[OF assms(2,3), of r] t(2) assms(4) by auto
  qed
  then show ?thesis using True by (simp add: settled_def)
next
  case False
  have m: "we_seq e \<le> maxKnownSeq (exs c) \<Longrightarrow> we_seq e \<le> maxKnownSeq ys" by (rule step_view(2)[OF assms(2,3)])
  consider "find_exchange (we_request e) ys = find_exchange (we_request e) (exs c)"
    | y where "find_exchange (we_request e) ys = Some y" "ex_lastSeq y = s"
    | "find_exchange (we_request e) ys = None" "s \<le> maxKnownSeq ys"
    using step_view(1)[OF assms(2,3), of "we_request e"] by auto
  then show ?thesis
  proof cases
    case 1
    then show ?thesis using False assms(1) m by (cases "find_exchange (we_request e) (exs c)") (simp_all add: settled_def)
  qed (use False assms(4) in \<open>simp_all add: settled_def\<close>)
qed

section \<open>Whole logs\<close>

lemma log_settles:
  assumes "sorted (map we_seq es)" "\<forall>e\<in>set es. \<not> self_merge e" "distinct (map ex_id (exs c))"
    "\<forall>e\<in>set done. settled e c \<and> (\<forall>f\<in>set es. we_seq e \<le> we_seq f)"
  shows "\<exists>ys. apply_in_order clock es c = Some (c\<lparr>cv_exchanges := ys\<rparr>) \<and> distinct (map ex_id ys)
    \<and> (\<forall>e\<in>set done \<union> set es. settled e (c\<lparr>cv_exchanges := ys\<rparr>))"
  using assms
proof (induction es arbitrary: c "done")
  case Nil
  then show ?case by (intro exI[of _ "exs c"]) simp
next
  case (Cons e es)
  obtain ys where ys: "applyEvent clock e c = Some (c\<lparr>cv_exchanges := ys\<rparr>)" "exchange_step (we_seq e) (exs c) ys"
      "settled e (c\<lparr>cv_exchanges := ys\<rparr>)" using any_event[of e c clock] Cons.prems by auto
  let ?c = "c\<lparr>cv_exchanges := ys\<rparr>"
  have old: "settled f ?c" if "f \<in> set done" for f
    using settled_step[of f c "we_seq e" ys] that Cons.prems ys(2) by simp
  have d: "distinct (map ex_id (exs ?c))" using step_distinct[OF ys(2)] Cons.prems by simp
  have "\<exists>zs. apply_in_order clock es ?c = Some (?c\<lparr>cv_exchanges := zs\<rparr>) \<and> distinct (map ex_id zs)
    \<and> (\<forall>f\<in>set (e # done) \<union> set es. settled f (?c\<lparr>cv_exchanges := zs\<rparr>))"
    by (rule Cons.IH) (use Cons.prems ys(3) old d in auto)
  then show ?case using ys(1) by auto
qed

lemma settled_log: "\<forall>e\<in>set es. settled e c \<Longrightarrow> apply_in_order clock es c = Some c"
  by (induction es) (simp_all add: settled_noop)

lemma log_twice:
  assumes "\<forall>e\<in>set es. \<not> self_merge e" "distinct (map ex_id (exs c))"
  shows "\<exists>d. applyEvents clock es c = Some d \<and> distinct (map ex_id (exs d)) \<and> cv_taskId d = cv_taskId c
    \<and> (\<forall>e\<in>set es. settled e d)"
  using log_settles[of "sort_key we_seq es" c "[]" clock] assms by (auto simp: applyEvents_def)

lemma log_ok: "list_all stream_ok (exs c) \<Longrightarrow> apply_in_order clock es c = Some d \<Longrightarrow>
    (\<And>e c d. list_all stream_ok (exs c) \<Longrightarrow> applyEvent clock e c = Some d \<Longrightarrow> list_all stream_ok (exs d)) \<Longrightarrow> list_all stream_ok (exs d)"
  by (induction es arbitrary: c) (auto simp: bind_eq_Some_conv)

lemma list_update_ok: "list_all P xs \<Longrightarrow> P y \<Longrightarrow> list_all P (xs[i := y])"
  by (auto simp: list_all_iff dest!: set_update_subset_insert[THEN subsetD])

lemma merge_ok: "list_all stream_ok xs \<Longrightarrow> merge_into e i xs = Some ys \<Longrightarrow> list_all stream_ok ys"
proof -
  assume xs: "list_all stream_ok xs" and m: "merge_into e i xs = Some ys"
  have f: "stream_ok (fold_prompt e source t) = stream_ok t" for source t by (rule stream_ok_cong) simp_all
  obtain zs k source where z: "zs = xs \<or> (\<exists>j. zs = remove_at j xs)" "k < length zs" "ys = zs[k := fold_prompt e source (zs ! k)]"
    using m by (auto simp: merge_into_def Let_def split: if_splits)
  have zs: "list_all stream_ok zs" using z(1) xs set_remove by (fastforce simp: list_all_iff)
  then show ?thesis unfolding z(3) by (rule list_update_ok) (use zs z(2) f in \<open>simp add: list_all_length\<close>)
qed

lemma event_ok: "list_all stream_ok (exs c) \<Longrightarrow> applyEvent clock e c = Some d \<Longrightarrow> list_all stream_ok (exs d)"
proof -
  assume c: "list_all stream_ok (exs c)" and d: "applyEvent clock e c = Some d"
  show ?thesis
  proof (cases "we_type e = ''task.prompt_merged''")
    case True
    show ?thesis
    proof (cases "Option.bind (merge_target e) (\<lambda>r. exchange_index r (exs c))")
      case None
      then show ?thesis using True c d by (simp add: applyEvent_def applyPromptMerged_def Let_def)
    next
      case (Some i)
      then have "i < length (exs c)" using index_Some by (auto simp: bind_eq_Some_conv)
      then have i: "stream_ok (exs c ! i)" using c by (simp add: list_all_length)
      have u: "list_all stream_ok ((exs c)[i := with_seq (we_seq e) (exs c ! i)])" by (rule list_update_ok[OF c]) (simp add: i)
      show ?thesis using True Some c d u
        by (auto simp: applyEvent_def applyPromptMerged_def Let_def split: if_splits intro: merge_ok)
    qed
  next
    case False
    show ?thesis
    proof (cases "exchange_index (we_request e) (exs c)")
      case None
      have x: "stream_ok (fresh_exchange e)" by (simp add: fresh_exchange_def fresh_ok)
      have "stream_ok (now_or (mutateExchange clock (cv_taskId c) e (fresh_exchange e)) (fresh_exchange e))"
        using x mutate_stream by (cases "mutateExchange clock (cv_taskId c) e (fresh_exchange e)") auto
      then show ?thesis using False None c d x by (auto simp: applyEvent_def Let_def split: if_splits)
    next
      case (Some i)
      then have i: "stream_ok (exs c ! i)" using c index_Some[OF Some] by (simp add: list_all_length)
      have u: "list_all stream_ok ((exs c)[i := with_seq (we_seq e) y])"
        if "mutateExchange clock (cv_taskId c) e (exs c ! i) = Some y" for y
        by (rule list_update_ok[OF c]) (simp add: mutate_stream[OF that i])
      show ?thesis using False Some c d u by (auto simp: applyEvent_def Let_def split: if_splits option.splits)
    qed
  qed
qed

lemma requests_distinct: "distinct (requests_seen seen es) \<and> set (requests_seen seen es) \<inter> set seen = {}"
  by (induction seen es rule: requests_seen.induct) auto

lemma seed_ok: "seedSnapshotConversation taskId events = (c, es) \<Longrightarrow>
    cv_taskId c = taskId \<and> list_all stream_ok (exs c) \<and> distinct (map ex_id (exs c)) \<and> sorted (map we_seq es)"
  using requests_distinct[of "[]" es]
  by (auto simp: seedSnapshotConversation_def Let_def list_all_iff fresh_ok comp_def)

section \<open>Properties\<close>

text \<open>
  C22: A log that is applied twice is applied once. Whatever events arrive, in whatever order they are handed over, a
  conversation with distinct requests takes them all, and taking the same events again, at any later time, gives the very
  same conversation: no delta is appended twice, no part is added twice and no prompt is folded in twice. The events that
  were ignored the first time are ignored again. Only a merge of a prompt into its own request is excluded, which the code
  does not guard against.
\<close>

theorem replay_is_idempotent:
  assumes "distinct (map ex_id (cv_exchanges c))" "\<forall>e\<in>set es. \<not> self_merge e"
  shows "\<exists>d. applyEvents clock es c = Some d \<and> applyEvents clock' es d = Some d"
proof -
  obtain d where d: "applyEvents clock es c = Some d" "\<forall>e\<in>set es. settled e d" using log_twice[OF assms(2,1)] by blast
  have "apply_in_order clock' (sort_key we_seq es) d = Some d" by (rule settled_log) (use d(2) in simp)
  then show ?thesis using d(1) by (auto simp: applyEvents_def)
qed

text \<open>
  A reconnect adds only what was missed. When the events up to some point were applied live and then the whole log
  arrives, the old events and the new ones, the result is that of the new events alone.
\<close>

theorem reconnect_applies_only_the_new:
  assumes "distinct (map ex_id (cv_exchanges c))" "\<forall>e\<in>set old. \<not> self_merge e" "sorted (map we_seq (old @ new))"
  shows "\<exists>d. applyEvents clock old c = Some d \<and> applyEvents clock' (old @ new) d = applyEvents clock' new d"
proof -
  obtain d where d: "applyEvents clock old c = Some d" "\<forall>e\<in>set old. settled e d" using log_twice[OF assms(2,1)] by blast
  have a: "apply_in_order clock' (xs @ ys) d = apply_in_order clock' ys d" if "\<forall>e\<in>set xs. settled e d" for xs ys
    using that by (induction xs) (simp_all add: settled_noop)
  have s: "sort_key we_seq (old @ new) = old @ new" "sort_key we_seq new = new"
    using assms(3) by (rule sort_key_id_if_sorted) (rule sort_key_id_if_sorted, use assms(3) in \<open>simp add: sorted_append\<close>)
  show ?thesis using d a[of old new] by (auto simp: applyEvents_def s)
qed

text \<open>
  C35: What a cold load shows is well formed. The conversation projected from the stored events has one exchange for each
  request, and in every response only the last part may still be streaming, while the texts and the thoughts are numbered
  from zero in the order they stand, so that no two of them share an identity.
\<close>

theorem snapshot_is_well_formed:
  assumes "projectSnapshot clock taskId events = Some d"
    and "\<forall>e\<in>set (snd (seedSnapshotConversation taskId events)). \<not> self_merge e"
  shows "cv_taskId d = taskId \<and> distinct (map ex_id (cv_exchanges d)) \<and> list_all stream_ok (cv_exchanges d)"
proof -
  obtain c es where ce: "seedSnapshotConversation taskId events = (c, es)" by fastforce
  note ok = seed_ok[OF ce]
  have d: "applyEvents clock es c = Some d" using assms(1) ce by (simp add: projectSnapshot_def)
  have "list_all stream_ok (exs d)"
    using log_ok[of c clock "sort_key we_seq es" d] d ok event_ok by (auto simp: applyEvents_def)
  moreover have "distinct (map ex_id (exs d)) \<and> cv_taskId d = cv_taskId c"
    using log_twice[of es c clock] assms(2) ce ok d by auto
  ultimately show ?thesis using ok by simp
qed

text \<open>A short log: a text in two deltas, a tool call with its result and the end of the turn, delivered out of order.\<close>

definition sample_event :: "string \<Rightarrow> int \<Rightarrow> (string \<times> json) list \<Rightarrow> wire_event" where
  "sample_event ty n data = \<lparr>we_type = ty, we_request = ''r1'', we_seq = n, we_time = None, we_data = data, we_agent = None\<rparr>"

definition sample_log :: "wire_event list" where
  "sample_log =
    [sample_event ''leader.tool_call'' 3 [(''toolUseId'', JStr ''u1''), (''toolName'', JStr ''bash'')],
     sample_event ''leader.stream_delta'' 1 [(''type'', JStr ''text_delta''), (''text'', JStr ''Loo'')],
     sample_event ''leader.stream_delta'' 2 [(''type'', JStr ''text_delta''), (''text'', JStr ''king'')],
     sample_event ''leader.tool_result'' 4 [(''toolUseId'', JStr ''u1''), (''output'', JStr ''ok'')]]"

definition empty_conversation :: conversation where
  "empty_conversation = \<lparr>cv_taskId = ''t1'', cv_exchanges = []\<rparr>"

theorem replay_is_idempotent_witness:
  "\<exists>d. applyEvents 10 sample_log empty_conversation = Some d \<and> applyEvents 20 sample_log d = Some d"
  by (rule replay_is_idempotent) (simp_all add: empty_conversation_def sample_log_def sample_event_def self_merge_def)

theorem reconnect_applies_only_the_new_witness:
  "\<exists>d. applyEvents 10 [sample_log ! 1] empty_conversation = Some d
     \<and> applyEvents 20 ([sample_log ! 1] @ [sample_log ! 2, sample_log ! 3]) d = applyEvents 20 [sample_log ! 2, sample_log ! 3] d"
  by (rule reconnect_applies_only_the_new)
     (simp_all add: empty_conversation_def sample_log_def sample_event_def self_merge_def)

definition sample_row :: "string \<Rightarrow> int \<Rightarrow> snapshot_event" where
  "sample_row ty n = \<lparr>sn_id = ''e1'', sn_type = ty, sn_requestId = Some ''r1'', sn_seq = n, sn_time = None,
     sn_payload = Some (Some (JObj [(''type'', JStr ''text_delta''), (''text'', JStr ''Hi'')])), sn_data = None, sn_agent = None\<rparr>"

lemma sample_seed: "seedSnapshotConversation ''t1'' [sample_row ''leader.stream_delta'' 1] =
   (\<lparr>cv_taskId = ''t1'', cv_exchanges = [new_exchange ''r1'' None None]\<rparr>,
    [sample_event ''leader.stream_delta'' 1
       [(''type'', JStr ''text_delta''), (''text'', JStr ''Hi''), (''__eventId'', JStr ''e1'')]])"
  by (simp add: seedSnapshotConversation_def parsed_rows_def sample_row_def snapshot_payload_def List.map_filter_simps
      row_request_def first_request_def non_blank_def or_option_def wire_of_def sample_event_def first_time_def Let_def)

lemma sample_projection: "projectSnapshot 10 ''t1'' [sample_row ''leader.stream_delta'' 1] =
   Some \<lparr>cv_taskId = ''t1'', cv_exchanges = [with_seq 1 ((new_exchange ''r1'' None None)\<lparr>ex_parts :=
     [PText \<lparr>tx_id = textPartId ''r1'' 0, tx_content = ''Hi'', tx_sealed = False, tx_createdAt = None, tx_role = None, tx_agent = None\<rparr>]\<rparr>)]\<rparr>"
  unfolding projectSnapshot_def sample_seed
  by (simp add: applyEvents_def applyEvent_def Let_def sample_event_def new_exchange_def mutateExchange_def from_teammate_def
      applyTimingEvent_def begin_timing_def pause_timing_def final_timing_def readTimingPayload_def and_then_def
      leader_dispatch_def defaultDispatch_def applyStreamDelta_def str_at_def str_or_def sealed_exchange_def sealActivePart_def
      appendTextDelta_def open_text_def push_part_def withParts_def withStatus_def count_parts_def agent_role_def agent_name_def
      non_blank_def with_seq_def obj_get_def)

theorem snapshot_is_well_formed_witness:
  "list_all stream_ok (cv_exchanges (the (projectSnapshot 10 ''t1'' [sample_row ''leader.stream_delta'' 1])))"
proof -
  have "\<forall>e\<in>set (snd (seedSnapshotConversation ''t1'' [sample_row ''leader.stream_delta'' 1])). \<not> self_merge e"
    by (simp add: sample_seed self_merge_def sample_event_def)
  from snapshot_is_well_formed[OF sample_projection this] show ?thesis unfolding sample_projection by simp
qed

end
