(* ===== verification/Conversation_Gaps.thy ===== *)
theory Conversation_Gaps
  imports Conversation_Replay
begin

text \<open>
  Where the projector departs from what its comments promise: the late cancellation, the order and the identities of a
  nested transcript, the clock, and the exchanges it opens.
\<close>

section \<open>The end of a turn with live teammates\<close>

lemma timing_keeps: "ex_parts (now_or (applyTimingEvent e x) x) = ex_parts x" "ex_status (now_or (applyTimingEvent e x) x) = ex_status x"
  by (simp_all add: applyTimingEvent_def Let_def now_or_map split: option.splits)

lemma sealed_keeps_tools: "PTool t tr \<in> set ps \<Longrightarrow> ps = ex_parts x \<Longrightarrow> PTool t tr \<in> set (ex_parts (sealed_exchange k x))"
proof -
  assume p: "PTool t tr \<in> set ps" and x: "ps = ex_parts x"
  have "PTool t tr = last ps \<or> PTool t tr \<in> set (butlast ps)"
    using p by (metis append_butlast_last_id empty_iff empty_set insert_iff list.simps(15) rotate1.simps(2) set_ConsD set_rotate1)
  then show ?thesis
  proof
    assume l: "PTool t tr = last ps"
    then have "\<not> sealable k (last (ex_parts x))" using x by (cases "last (ex_parts x)") auto
    then show ?thesis using p x by (simp add: sealed_parts)
  qed (auto simp: sealed_parts x dest: in_set_butlastD)
qed

lemma waits_for_teammates: "PTool t tr \<in> set (ex_parts x) \<Longrightarrow> live_teammate t \<Longrightarrow>
    \<exists>t' tr'. PTool t' tr' \<in> set (ex_parts (now_or (markTerminal clock st b True x) x)) \<and> live_teammate t'"
proof (cases "ex_status x = st")
  case False
  assume t: "PTool t tr \<in> set (ex_parts x)" "live_teammate t"
  let ?ps = "ex_parts (sealed_exchange SealBoth x)"
  have m: "PTool t tr \<in> set ?ps" by (rule sealed_keeps_tools[OF t(1) refl])
  have "\<exists>t' tr'. terminal_part clock st b True (PTool t tr) = PTool t' tr' \<and> live_teammate t'"
    using t(2) by (auto simp: Let_def live_teammate_def)
  then obtain t' tr' where q: "terminal_part clock st b True (PTool t tr) = PTool t' tr'" "live_teammate t'" by blast
  have "terminal_part clock st b True (PTool t tr) \<in> set (map (terminal_part clock st b True) ?ps)" using m by (simp only: set_map image_eqI)
  then show ?thesis using False q by (auto simp: markTerminal_def Let_def)
qed (auto simp: markTerminal_def)

text \<open>
  A cancellation that follows the end of the turn freezes nothing. When the leader's turn has ended with its
  teammates still at work (\<open>AWAITING_TEAMMATES\<close>) and the task is then cancelled, the teammate's part stays as it was,
  started, not completed and not failed, because the exchange already has the status the cancellation would give it: the
  working timer, which the freeze exists to stop, runs on.
\<close>

theorem late_cancel_leaves_teammates_running:
  assumes "we_type e = ''task:completed''" "str_at (we_data e) ''state'' = Some ''AWAITING_TEAMMATES''" "\<not> from_teammate e"
    and "we_type f = ''task:cancelled''" "\<not> from_teammate f"
    and "PTool t tr \<in> set (ex_parts x)" "live_teammate t"
  shows "\<exists>t' tr'. live_teammate t' \<and> PTool t' tr' \<in> set (ex_parts
    (now_or (mutateExchange clock' k f (now_or (mutateExchange clock k e x) x)) (now_or (mutateExchange clock k e x) x)))"
proof -
  let ?x = "now_or (applyTimingEvent e x) x"
  let ?y = "now_or (mutateExchange clock k e x) x"
  have y: "?y = now_or (markTerminal clock ExComplete False True ?x) ?x"
    using assms(1-3) by (simp add: mutateExchange_def leader_dispatch_def Let_def)
  have st: "ex_status ?y = ExComplete" unfolding y by (simp add: markTerminal_def Let_def)
  have "ex_parts (now_or (mutateExchange clock' k f ?y) ?y) = ex_parts ?y"
    using assms(4,5) st timing_keeps[of f ?y] by (simp add: mutateExchange_def leader_dispatch_def markTerminal_def Let_def)
  moreover have "\<exists>t' tr'. PTool t' tr' \<in> set (ex_parts ?y) \<and> live_teammate t'"
    unfolding y by (rule waits_for_teammates[OF _ assms(7)]) (use assms(6) timing_keeps in simp)
  ultimately show ?thesis by auto
qed

section \<open>Nested transcripts\<close>

lemma freeze_tool: "freezeUnresolvedNested out p = Some q \<Longrightarrow> is_tool q"
  by (cases p) (auto split: if_splits option.splits)

lemma freeze_kind: "is_tool p \<Longrightarrow> is_tool (now_or (freezeUnresolvedNested out p) p)"
  by (cases "freezeUnresolvedNested out p") (simp_all add: freeze_tool)

text \<open>
  Freezing a transcript reorders it. As soon as one tool of a teammate's transcript has no result when the turn ends,
  all tools of that transcript are moved behind all its other parts: what the teammate said after a tool now stands
  before it.
\<close>

theorem frozen_transcript_loses_order:
  assumes "p \<in> set ps" "freezeUnresolvedNested out p \<noteq> None"
  shows "\<exists>tools. freeze_transcript out (Some ps) = Some (filter (\<lambda>q. \<not> is_tool q) ps @ tools) \<and> list_all is_tool tools"
proof -
  let ?rs = "map (freezeUnresolvedNested out) ps"
  let ?tools = "map (\<lambda>(p, r). now_or r p) (filter (\<lambda>(p, r). is_tool p) (zip ps ?rs))"
  have "list_ex (\<lambda>r. r \<noteq> None) ?rs" using assms by (auto simp: list_ex_iff)
  then have "freeze_transcript out (Some ps) = Some (filter (\<lambda>q. \<not> is_tool q) ps @ ?tools)"
    by (simp add: freeze_transcript_def freeze_result_def reordered_def or_option_def)
  moreover have "list_all is_tool ?tools"
    by (auto simp: list_all_iff zip_map2 zip_same_conv_map freeze_kind)
  ultimately show ?thesis by blast
qed

text \<open>The middle of a long transcript is dropped, but the texts are numbered by how many are left.\<close>

lemma trimmed_transcript_repeats_ids:
  assumes "length ps > TRANSCRIPT_MEMORY_CAP" "ids_of True ps = map (textPartId r) [0..<length (ids_of True ps)]"
    and "closed_parts ps" "h = length (ids_of True (take TRANSCRIPT_HEAD_KEEP ps))"
    and "m = length (ids_of True (drop TRANSCRIPT_HEAD_KEEP (take (length ps - TRANSCRIPT_TAIL_KEEP) ps)))"
    and "0 < m" "m \<le> length (ids_of True (drop (length ps - TRANSCRIPT_TAIL_KEEP) ps))"
  shows "textPartId r (count_parts is_text (cap_transcript ps)) \<in> set (ids_of True (cap_transcript ps))"
proof -
  let ?a = "take TRANSCRIPT_HEAD_KEEP ps" and ?c = "drop (length ps - TRANSCRIPT_TAIL_KEEP) ps"
  let ?b = "drop TRANSCRIPT_HEAD_KEEP (take (length ps - TRANSCRIPT_TAIL_KEEP) ps)"
  let ?k = "length (ids_of True ?c)"
  have len: "TRANSCRIPT_HEAD_KEEP \<le> length ps - TRANSCRIPT_TAIL_KEEP"
    using assms(1) by (simp add: TRANSCRIPT_MEMORY_CAP_def TRANSCRIPT_HEAD_KEEP_def TRANSCRIPT_TAIL_KEEP_def)
  have "?a @ ?b = take (length ps - TRANSCRIPT_TAIL_KEEP) ps"
    using len by (metis append_take_drop_id min.absorb1 take_take)
  then have ps: "ps = ?a @ ?b @ ?c" by (metis append.assoc append_take_drop_id)
  have ids: "ids_of True ps = ids_of True ?a @ ids_of True ?b @ ids_of True ?c" using ps by (metis ids_of_append)
  have n: "length (ids_of True ps) = h + m + ?k" using ids assms(4,5) by simp
  have "ids_of True ?c = drop (h + m) (ids_of True ps)" unfolding ids using assms(4,5) by simp
  also have "\<dots> = map (textPartId r) [h + m..<h + m + ?k]" by (subst assms(2)) (simp add: drop_map n)
  finally have c: "ids_of True ?c = map (textPartId r) [h + m..<h + m + ?k]" .
  have cap: "cap_transcript ps = ?a @ ?c" using assms(1) by (simp add: cap_transcript_def)
  have "count_parts is_text (cap_transcript ps) = h + ?k"
    using ids_of_count(1)[of "?a @ ?c"] assms(4) cap by simp
  moreover have "textPartId r (h + ?k) \<in> set (ids_of True ?c)" by (subst c) (use assms(6,7) in auto)
  ultimately show ?thesis unfolding cap by simp
qed

section \<open>The clock and the requests\<close>

text \<open>Two projections of one log at different times differ as soon as a live teammate is frozen.\<close>

fun completed_at :: "response_part \<Rightarrow> int option" where
  "completed_at (PTool t tr) = tl_completedAt t"
| "completed_at p = None"

lemma clock_reaches_the_projection: "live_teammate t \<Longrightarrow> completed_at (terminal_part clock st b False (PTool t tr)) = Some clock"
  by (simp add: Let_def stop_teammate_def)

text \<open>
  The comment above \<open>applyEvent\<close> says that the projector never invents an exchange; a request it does not know opens one
  whenever its number is the highest so far.
\<close>

lemma unknown_request_opens_an_exchange:
  "we_type e \<noteq> ''task.prompt_merged'' \<Longrightarrow> find_exchange (we_request e) (cv_exchanges c) = None
    \<Longrightarrow> maxKnownSeq (cv_exchanges c) < we_seq e
    \<Longrightarrow> \<exists>x. ex_id x = we_request e \<and> applyEvent clock e c = Some (c\<lparr>cv_exchanges := cv_exchanges c @ [x]\<rparr>)"
proof -
  assume a: "we_type e \<noteq> ''task.prompt_merged''" "find_exchange (we_request e) (cv_exchanges c) = None"
    "maxKnownSeq (cv_exchanges c) < we_seq e"
  let ?x = "fresh_exchange e"
  have pos: "0 < we_seq e" using a(3) le_max[of "we_seq e" "cv_exchanges c"] by linarith
  have x: "ex_id ?x = we_request e" "ex_lastSeq ?x = 0" by (simp_all add: fresh_exchange_def fresh_ok)
  have "ex_id (now_or (mutateExchange clock (cv_taskId c) e ?x) ?x) = we_request e"
    using x mutate_id by (cases "mutateExchange clock (cv_taskId c) e ?x") force+
  then show ?thesis using a(1,3) a(2)[folded index_None] pos x
    by (intro exI[of _ "with_seq (we_seq e) (now_or (mutateExchange clock (cv_taskId c) e ?x) ?x)"]) (simp add: applyEvent_def Let_def)
qed

text \<open>A live event carries no row number, a stored one does: the same notice has two identities.\<close>

lemma live_notice_has_another_id:
  "str_at (we_data e) ''__eventId'' = None \<Longrightarrow> row_id kind e x = ex_id x @ kind @ show_int (we_seq e)"
  "str_at (we_data e) ''__eventId'' = Some i \<Longrightarrow> row_id kind e x = i"
  by (simp_all add: row_id_def)

definition live_part :: tool_part where
  "live_part = (fresh_tool ''p'' ''u'' ''spawn_teammate'' JNull (sample_event ''leader.tool_call'' 1 []))
     \<lparr>tl_runId := Some ''run1'', tl_startedAt := Some 100, tl_status := Some MateRunning\<rparr>"

lemma live_part: "live_teammate live_part"
  by (simp add: live_part_def live_teammate_def fresh_tool_def)

definition live_exchange :: exchange where
  "live_exchange = (new_exchange ''r1'' None None)\<lparr>ex_parts := [PTool live_part None]\<rparr>"

theorem late_cancel_leaves_teammates_running_witness:
  "\<exists>t' tr'. live_teammate t' \<and> PTool t' tr' \<in> set (ex_parts
    (now_or (mutateExchange 9 ''t1'' (sample_event ''task:cancelled'' 6 [])
       (now_or (mutateExchange 8 ''t1'' (sample_event ''task:completed'' 5 [(''state'', JStr ''AWAITING_TEAMMATES'')]) live_exchange)
          live_exchange))
     (now_or (mutateExchange 8 ''t1'' (sample_event ''task:completed'' 5 [(''state'', JStr ''AWAITING_TEAMMATES'')]) live_exchange)
        live_exchange)))"
  by (rule late_cancel_leaves_teammates_running[where t = live_part and tr = None])
     (simp_all add: sample_event_def str_at_def obj_get_def from_teammate_def live_exchange_def live_part)

theorem frozen_transcript_loses_order_witness:
  "\<exists>tools. freeze_transcript ''stopped'' (Some [PTool (fresh_tool ''a'' ''u'' ''bash'' JNull (sample_event ''leader.tool_call'' 1 [])) None,
      PError ''e'' ''said later'']) = Some (filter (\<lambda>q. \<not> is_tool q) [PTool (fresh_tool ''a'' ''u'' ''bash'' JNull
      (sample_event ''leader.tool_call'' 1 [])) None, PError ''e'' ''said later''] @ tools) \<and> list_all is_tool tools"
  by (rule frozen_transcript_loses_order[where p = "PTool (fresh_tool ''a'' ''u'' ''bash'' JNull
      (sample_event ''leader.tool_call'' 1 [])) None"]) (simp_all add: fresh_tool_def)

end
