(* ===== verification/Channel_Claims.thy ===== *)
theory Channel_Claims
  imports Js_Regex
begin

text \<open>
  The claims that keep chat messages from being handled or delivered twice
  (\<open>repositories/channel-inbound-event-dedupe-repository.ts\<close>, \<open>channel-outbound-delivery-claim-repository.ts\<close>) with their
  use in \<open>services/process-channel-event-service.ts\<close> and \<open>services/feishu-outbound-delivery-service.ts\<close>. A transaction is
  one step; a rollback gives the table back.
\<close>

section \<open>Inbound events\<close>

datatype inbound_status = Processing | Completed

record inbound_row =
  in_status :: inbound_status
  in_firstSeenAt :: int
  in_leaseExpiresAt :: "int option"
  in_updatedAt :: int

type_synonym inbound_table = "string \<times> string \<Rightarrow> inbound_row option"

datatype inbound_reason = DuplicateCompleted | DuplicateInflight

datatype inbound_result = InAcquired | InRefused inbound_reason string

definition DEFAULT_INBOUND_PROCESSING_LEASE_MS :: int where
  "DEFAULT_INBOUND_PROCESSING_LEASE_MS = 2 * 60 * 1000"

definition normalized_keys :: "string list \<Rightarrow> string list" where
  "normalized_keys ks = nub (filter (\<lambda>k. k \<noteq> []) (map js_trim ks))"

definition lease_until :: "int \<Rightarrow> int option \<Rightarrow> int" where
  "lease_until now lease = now + max (case lease of None \<Rightarrow> DEFAULT_INBOUND_PROCESSING_LEASE_MS | Some l \<Rightarrow> l) 1"

definition row_lease :: "inbound_row \<Rightarrow> int" where
  "row_lease r = (case in_leaseExpiresAt r of None \<Rightarrow> 0 | Some l \<Rightarrow> l)"

fun claim_loop :: "string \<Rightarrow> int \<Rightarrow> int \<Rightarrow> string list \<Rightarrow> inbound_table \<Rightarrow> (inbound_reason \<times> string) + inbound_table" where
  "claim_loop b now expires [] t = Inr t"
| "claim_loop b now expires (k # ks) t =
     (case t (b, k) of
        None \<Rightarrow> claim_loop b now expires ks (t((b, k) \<mapsto>
          \<lparr>in_status = Processing, in_firstSeenAt = now, in_leaseExpiresAt = Some expires, in_updatedAt = now\<rparr>))
      | Some r \<Rightarrow>
          if in_status r = Completed then Inl (DuplicateCompleted, k)
          else if in_status r = Processing \<and> row_lease r > now then Inl (DuplicateInflight, k)
          else claim_loop b now expires ks (t((b, k) \<mapsto>
            r\<lparr>in_status := Processing, in_leaseExpiresAt := Some expires, in_updatedAt := now\<rparr>)))"

definition claimProcessingKeys :: "string \<Rightarrow> string list \<Rightarrow> int \<Rightarrow> int option \<Rightarrow> inbound_table \<Rightarrow> inbound_result \<times> inbound_table" where
  "claimProcessingKeys b ks now lease t =
    (if normalized_keys ks = [] then (InAcquired, t)
     else case claim_loop b now (lease_until now lease) (normalized_keys ks) t of
       Inl (reason, k) \<Rightarrow> (InRefused reason k, t)
     | Inr t' \<Rightarrow> (InAcquired, t'))"

text \<open>One update for each key, of rows that are being processed.\<close>

definition on_processing :: "(inbound_row \<Rightarrow> inbound_row) \<Rightarrow> string \<Rightarrow> string \<Rightarrow> inbound_table \<Rightarrow> inbound_table" where
  "on_processing f b k t = (case t (b, k) of None \<Rightarrow> t
     | Some r \<Rightarrow> if in_status r = Processing then t((b, k) \<mapsto> f r) else t)"

definition complete_row :: "int \<Rightarrow> inbound_row \<Rightarrow> inbound_row" where
  "complete_row now r = r\<lparr>in_status := Completed, in_leaseExpiresAt := None, in_updatedAt := now\<rparr>"

definition release_row :: "int \<Rightarrow> inbound_row \<Rightarrow> inbound_row" where
  "release_row now r = r\<lparr>in_leaseExpiresAt := Some (now - 1), in_updatedAt := now\<rparr>"

definition markProcessingKeysCompleted :: "string \<Rightarrow> string list \<Rightarrow> int \<Rightarrow> inbound_table \<Rightarrow> inbound_table" where
  "markProcessingKeysCompleted b ks now t = fold (on_processing (complete_row now) b) (normalized_keys ks) t"

definition releaseProcessingKeys :: "string \<Rightarrow> string list \<Rightarrow> int \<Rightarrow> inbound_table \<Rightarrow> inbound_table" where
  "releaseProcessingKeys b ks now t = fold (on_processing (release_row now) b) (normalized_keys ks) t"

text \<open>
  How the service uses them: every call passes the time of the event, not that of the clock. The handling between the
  claim and its end succeeds, throws, or is cut off with the process.
\<close>

record inbound_event =
  ie_eventId :: "string option"
  ie_platformMessageId :: "string option"
  ie_occurredAt :: int

definition labelled_key :: "string \<Rightarrow> string option \<Rightarrow> string list" where
  "labelled_key l v = (case v of None \<Rightarrow> [] | Some s \<Rightarrow> if s = [] then [] else [l @ s])"

definition buildInboundDedupeKeys :: "inbound_event \<Rightarrow> string list" where
  "buildInboundDedupeKeys e = nub (labelled_key ''event:'' (ie_eventId e) @ labelled_key ''platform:'' (ie_platformMessageId e))"

datatype handling = HandlingDone | HandlingThrew | HandlingCutOff

datatype intake = IntakeDuplicate | IntakeHandled | IntakeThrew | IntakeLost

definition receive_event :: "string \<Rightarrow> inbound_event \<Rightarrow> handling \<Rightarrow> inbound_table \<Rightarrow> intake \<times> inbound_table" where
  "receive_event b e h t =
    (let ks = buildInboundDedupeKeys e; now = ie_occurredAt e in
     case (if ks = [] then (InAcquired, t) else claimProcessingKeys b ks now None t) of
       (InRefused reason k, t') \<Rightarrow> (IntakeDuplicate, t')
     | (InAcquired, t') \<Rightarrow>
         (case h of
            HandlingDone \<Rightarrow> (IntakeHandled, if ks = [] then t' else markProcessingKeysCompleted b ks now t')
          | HandlingThrew \<Rightarrow> (IntakeThrew, if ks = [] then t' else releaseProcessingKeys b ks now t')
          | HandlingCutOff \<Rightarrow> (IntakeLost, t')))"

section \<open>Outbound deliveries\<close>

datatype lock_state = Unclaimed | Claimed | Delivered | DeliveryFailed

record lock_row =
  lk_state :: lock_state
  lk_token :: "string option"
  lk_claimedAt :: "int option"
  lk_updatedAt :: int

type_synonym lock_table = "string \<Rightarrow> lock_row option"

datatype outbound_result = OutAcquired string | OutFinalized | OutInflight

definition DEFAULT_OUTBOUND_CLAIM_LEASE_MS :: int where
  "DEFAULT_OUTBOUND_CLAIM_LEASE_MS = 5 * 60 * 1000"

definition claimed_since :: "lock_row \<Rightarrow> int" where
  "claimed_since r = (case lk_claimedAt r of None \<Rightarrow> 0 | Some a \<Rightarrow> a)"

text \<open>The random token is an argument.\<close>

definition acquireClaim :: "string \<Rightarrow> string \<Rightarrow> int \<Rightarrow> int option \<Rightarrow> lock_table \<Rightarrow> outbound_result \<times> lock_table" where
  "acquireClaim token e now lease t =
    (let ms = (case lease of None \<Rightarrow> DEFAULT_OUTBOUND_CLAIM_LEASE_MS | Some l \<Rightarrow> l);
         taken = \<lparr>lk_state = Claimed, lk_token = Some token, lk_claimedAt = Some now, lk_updatedAt = now\<rparr>
     in case t e of
          None \<Rightarrow> (OutAcquired token, t(e \<mapsto> taken))
        | Some r \<Rightarrow>
            if lk_state r = Delivered \<or> lk_state r = DeliveryFailed then (OutFinalized, t)
            else if lk_state r = Claimed \<and> claimed_since r + max ms 1 > now then (OutInflight, t)
            else (OutAcquired token, t(e \<mapsto> taken)))"

definition expired_claim :: "int \<Rightarrow> lock_row \<Rightarrow> bool" where
  "expired_claim now r \<longleftrightarrow> lk_state r = Claimed \<and>
     (case lk_claimedAt r of None \<Rightarrow> False | Some a \<Rightarrow> a + DEFAULT_OUTBOUND_CLAIM_LEASE_MS \<le> now)"

definition reapExpiredClaims :: "int \<Rightarrow> lock_table \<Rightarrow> lock_table" where
  "reapExpiredClaims now t = (\<lambda>e. map_option (\<lambda>r. if expired_claim now r
     then \<lparr>lk_state = Unclaimed, lk_token = None, lk_claimedAt = None, lk_updatedAt = now\<rparr> else r) (t e))"

definition finalizeClaim :: "string \<Rightarrow> string \<Rightarrow> lock_state \<Rightarrow> int \<Rightarrow> lock_table \<Rightarrow> bool \<times> lock_table" where
  "finalizeClaim e token st now t =
    (case t e of
       Some r \<Rightarrow> if lk_token r = Some token
         then (True, t(e \<mapsto> \<lparr>lk_state = st, lk_token = None, lk_claimedAt = None, lk_updatedAt = now\<rparr>)) else (False, t)
     | None \<Rightarrow> (False, t))"

text \<open>
  One queued event in the delivery loop: the claim, the transport, and the record of the outcome, which is made only by
  the one whose claim was still his. The transport may fail, and the note of the session that follows it may throw after
  the message is out. Other deliverers act on the table between the accesses.
\<close>

datatype transport_result = SentOk | SendThrew | SentThenThrew

datatype delivery = Skipped | NotFinalized | RecordedDelivered | RecordedFailed

record delivery_env =
  de_payload_ok :: bool
  de_transport :: transport_result
  de_meanwhile :: "lock_table \<Rightarrow> lock_table"
  de_finished :: int

definition deliver_one :: "delivery_env \<Rightarrow> string \<Rightarrow> int \<Rightarrow> string \<Rightarrow> lock_table \<Rightarrow> delivery \<times> bool \<times> lock_table" where
  "deliver_one env token now e t =
    (case acquireClaim token e now None t of
       (OutAcquired c, t1) \<Rightarrow>
         if \<not> de_payload_ok env
         then (RecordedFailed, False, snd (finalizeClaim e c DeliveryFailed now t1))
         else let t2 = de_meanwhile env t1;
                  sent_ok = (de_transport env = SentOk);
                  res = finalizeClaim e c (if sent_ok then Delivered else DeliveryFailed) (de_finished env) t2
              in (if \<not> fst res then NotFinalized else if sent_ok then RecordedDelivered else RecordedFailed,
                  de_transport env \<noteq> SendThrew, snd res)
     | (r, t1) \<Rightarrow> (Skipped, False, t1))"

section \<open>What a claim of inbound keys does\<close>

definition blocked :: "int \<Rightarrow> inbound_row option \<Rightarrow> inbound_reason option" where
  "blocked now r = (case r of None \<Rightarrow> None
     | Some row \<Rightarrow> if in_status row = Completed then Some DuplicateCompleted
         else if row_lease row > now then Some DuplicateInflight else None)"

definition held :: "int \<Rightarrow> inbound_row option \<Rightarrow> bool" where
  "held expires r \<longleftrightarrow> (\<exists>row. r = Some row \<and> in_status row = Processing \<and> in_leaseExpiresAt row = Some expires)"

lemma not_Completed: "in_status r \<noteq> Completed \<longleftrightarrow> in_status r = Processing"
  by (cases "in_status r") simp_all

lemma loop_step: "blocked now (t (b, k)) = None \<Longrightarrow> \<exists>v. held expires (Some v)
    \<and> (\<forall>ks. claim_loop b now expires (k # ks) t = claim_loop b now expires ks (t((b, k) \<mapsto> v)))"
proof (cases "t (b, k)")
  case None
  then show ?thesis by (intro exI conjI allI) (simp_all add: held_def)
next
  case (Some r)
  assume "blocked now (t (b, k)) = None"
  with Some have "in_status r = Processing" "\<not> row_lease r > now" by (auto simp: blocked_def not_Completed split: if_splits)
  then have "\<forall>ks. claim_loop b now expires (k # ks) t = claim_loop b now expires ks (t((b, k) \<mapsto>
      r\<lparr>in_status := Processing, in_leaseExpiresAt := Some expires, in_updatedAt := now\<rparr>))" using Some by simp
  moreover have "held expires (Some (r\<lparr>in_status := Processing, in_leaseExpiresAt := Some expires, in_updatedAt := now\<rparr>))"
    by (simp add: held_def)
  ultimately show ?thesis by blast
qed

lemma loop_stop: "blocked now (t (b, k)) = Some reason \<Longrightarrow> claim_loop b now expires (k # ks) t = Inl (reason, k)"
  by (cases "t (b, k)") (auto simp: blocked_def not_Completed split: if_splits)

lemma claim_loop_Inr: "claim_loop b now expires ks t = Inr t' \<Longrightarrow> distinct ks \<Longrightarrow>
    (\<forall>k\<in>set ks. blocked now (t (b, k)) = None \<and> held expires (t' (b, k))) \<and> (\<forall>c j. c \<noteq> b \<or> j \<notin> set ks \<longrightarrow> t' (c, j) = t (c, j))"
proof (induction ks arbitrary: t)
  case (Cons k ks)
  have nb: "blocked now (t (b, k)) = None"
    using Cons.prems(1) loop_stop[of now t b k] by (cases "blocked now (t (b, k))") auto
  then obtain v where v: "held expires (Some v)" "claim_loop b now expires ks (t((b, k) \<mapsto> v)) = Inr t'"
    using loop_step[of now t b k expires] Cons.prems(1) by auto
  note IH = Cons.IH[OF v(2)]
  have d: "distinct ks" "k \<notin> set ks" using Cons.prems(2) by auto
  have "t' (b, k) = (t((b, k) \<mapsto> v)) (b, k)" using IH d by blast
  then have "t' (b, k) = Some v" by simp
  moreover have "t' (c, j) = t (c, j)" if "c \<noteq> b \<or> j \<notin> set (k # ks)" for c j
  proof -
    have "t' (c, j) = (t((b, k) \<mapsto> v)) (c, j)" using IH d(1) that by (metis list.set_intros(2))
    then show ?thesis using that by auto
  qed
  moreover have "blocked now (t (b, j)) = None \<and> held expires (t' (b, j))" if "j \<in> set ks" for j
  proof -
    have "(t((b, k) \<mapsto> v)) (b, j) = t (b, j)" using that d by auto
    then show ?thesis using IH d that by metis
  qed
  ultimately show ?case using nb v(1) by auto
qed simp

lemma claim_loop_Inl: "claim_loop b now expires ks t = Inl (reason, k) \<Longrightarrow> distinct ks \<Longrightarrow>
    k \<in> set ks \<and> blocked now (t (b, k)) = Some reason"
proof (induction ks arbitrary: t)
  case (Cons j ks)
  show ?case
  proof (cases "blocked now (t (b, j))")
    case None
    then obtain v where "claim_loop b now expires ks (t((b, j) \<mapsto> v)) = Inl (reason, k)"
      using loop_step[of now t b j expires] Cons.prems(1) by auto
    from Cons.IH[OF this] Cons.prems(2) show ?thesis by (auto split: if_splits)
  next
    case (Some x)
    then show ?thesis using loop_stop[of now t b j x expires ks] Cons.prems(1) by simp
  qed
qed simp

lemma distinct_keys: "distinct (normalized_keys ks)"
  by (simp add: normalized_keys_def nub_def)

lemma claim_acquired: "claimProcessingKeys b ks now lease t = (InAcquired, t') \<Longrightarrow>
    (\<forall>k\<in>set (normalized_keys ks). blocked now (t (b, k)) = None \<and> held (lease_until now lease) (t' (b, k)))
    \<and> (\<forall>c j. c \<noteq> b \<or> j \<notin> set (normalized_keys ks) \<longrightarrow> t' (c, j) = t (c, j))"
  using claim_loop_Inr[OF _ distinct_keys, of b now "lease_until now lease" ks t]
  by (auto simp: claimProcessingKeys_def split: if_splits sum.splits)

lemma claim_refused: "claimProcessingKeys b ks now lease t = (InRefused reason k, t') \<Longrightarrow>
    t' = t \<and> k \<in> set (normalized_keys ks) \<and> blocked now (t (b, k)) = Some reason"
  using claim_loop_Inl[OF _ distinct_keys, of b now "lease_until now lease" ks t]
  by (auto simp: claimProcessingKeys_def split: if_splits sum.splits)

lemma blocked_claim: "k \<in> set (normalized_keys ks) \<Longrightarrow> blocked now (t (b, k)) \<noteq> None \<Longrightarrow>
    \<exists>reason j. claimProcessingKeys b ks now lease t = (InRefused reason j, t)"
proof -
  assume k: "k \<in> set (normalized_keys ks)" "blocked now (t (b, k)) \<noteq> None"
  obtain res t' where c: "claimProcessingKeys b ks now lease t = (res, t')" by fastforce
  show ?thesis using c claim_acquired[of b ks now lease t t'] claim_refused[of b ks now lease t _ _ t'] k
    by (cases res) auto
qed

section \<open>Any number of receivers\<close>

inductive inbound_step :: "inbound_table \<Rightarrow> inbound_table \<Rightarrow> bool" where
  claim: "inbound_step t (snd (claimProcessingKeys b ks now lease t))"
| complete: "inbound_step t (markProcessingKeysCompleted b ks now t)"

inductive release_step :: "inbound_table \<Rightarrow> inbound_table \<Rightarrow> bool" where
  release: "release_step t (releaseProcessingKeys b ks now t)"

definition no_events :: "inbound_table \<Rightarrow> bool" where
  "no_events t \<longleftrightarrow> (\<forall>q. t q = None)"

definition any_inbound_step :: "inbound_table \<Rightarrow> inbound_table \<Rightarrow> bool" where
  "any_inbound_step t u \<longleftrightarrow> inbound_step t u \<or> release_step t u"

text \<open>A completed row is final, and without a release a lease that runs is kept or completed.\<close>

definition completed_kept :: "inbound_table \<Rightarrow> inbound_table \<Rightarrow> bool" where
  "completed_kept t u \<longleftrightarrow> (\<forall>q r. t q = Some r \<longrightarrow> in_status r = Completed \<longrightarrow> u q = Some r)"

lemma on_processing_at: "on_processing f b k t q = (if q = (b, k) \<and> (\<exists>r. t q = Some r \<and> in_status r = Processing)
    then Some (f (the (t q))) else t q)"
  by (auto simp: on_processing_def split: option.splits)

lemma fold_kept: "completed_kept t (fold (on_processing f b) ks t)"
proof (induction ks arbitrary: t)
  case (Cons k ks)
  have "completed_kept t (on_processing f b k t)" by (auto simp: completed_kept_def on_processing_at)
  then show ?case using Cons[of "on_processing f b k t"] by (simp add: completed_kept_def)
qed (simp add: completed_kept_def)

lemma claim_kept: "completed_kept t (snd (claimProcessingKeys b ks now lease t))"
proof -
  obtain res t' where c: "claimProcessingKeys b ks now lease t = (res, t')" by fastforce
  show ?thesis
  proof (cases res)
    case InAcquired
    note a = claim_acquired[OF c[unfolded InAcquired]]
    have "t' (c, j) = Some r" if r: "t (c, j) = Some r" "in_status r = Completed" for c j r
    proof -
      have "c \<noteq> b \<or> j \<notin> set (normalized_keys ks)" using a r by (auto simp: blocked_def)
      then show ?thesis using a r(1) by simp
    qed
    then show ?thesis using c by (simp add: completed_kept_def)
  next
    case (InRefused reason k)
    then show ?thesis using claim_refused[OF c[unfolded InRefused]] c by (simp add: completed_kept_def)
  qed
qed

lemma any_step_kept: "any_inbound_step t u \<Longrightarrow> completed_kept t u"
  by (auto simp: any_inbound_step_def markProcessingKeysCompleted_def releaseProcessingKeys_def
      elim!: inbound_step.cases release_step.cases intro: fold_kept claim_kept)

interpretation inbound: monotone_system no_events any_inbound_step "\<lambda>_. True" completed_kept
  by unfold_locales (auto simp: completed_kept_def intro: any_step_kept[unfolded completed_kept_def, rule_format])

text \<open>Without a release a lease that runs is kept until it ends, or the key is completed.\<close>

definition taken_until :: "int \<Rightarrow> string \<times> string \<Rightarrow> inbound_table \<Rightarrow> bool" where
  "taken_until expires q t \<longleftrightarrow> (\<exists>r. t q = Some r \<and> (in_status r = Completed \<or> row_lease r = expires))"

text \<open>
  What others may do about a key: claim it before an instant, complete it, and do anything with other keys.
\<close>

definition touches :: "string \<times> string \<Rightarrow> string \<Rightarrow> string list \<Rightarrow> bool" where
  "touches q b ks \<longleftrightarrow> fst q = b \<and> snd q \<in> set (normalized_keys ks)"

inductive others_step :: "int \<Rightarrow> string \<times> string \<Rightarrow> inbound_table \<Rightarrow> inbound_table \<Rightarrow> bool" for expires q where
  claim: "touches q b ks \<longrightarrow> now < expires \<Longrightarrow> others_step expires q t (snd (claimProcessingKeys b ks now lease t))"
| complete: "others_step expires q t (markProcessingKeysCompleted b ks now t)"
| release: "\<not> touches q b ks \<Longrightarrow> others_step expires q t (releaseProcessingKeys b ks now t)"

lemma taken_blocks: "taken_until expires q t \<Longrightarrow> now < expires \<Longrightarrow> blocked now (t q) \<noteq> None"
  by (auto simp: taken_until_def blocked_def)

lemma held_taken: "held expires (t q) \<Longrightarrow> taken_until expires q t"
  by (auto simp: held_def taken_until_def row_lease_def)

lemma claim_taken: "taken_until expires q t \<Longrightarrow> touches q b ks \<longrightarrow> now < expires \<Longrightarrow>
    snd (claimProcessingKeys b ks now lease t) q = t q"
proof -
  assume t: "taken_until expires q t" "touches q b ks \<longrightarrow> now < expires"
  obtain c k where q: "q = (c, k)" by fastforce
  obtain res t' where c: "claimProcessingKeys b ks now lease t = (res, t')" by fastforce
  show ?thesis
  proof (cases res)
    case InAcquired
    note a = claim_acquired[OF c[unfolded InAcquired]]
    have "\<not> touches q b ks" using a t(2) taken_blocks[OF t(1), of now] unfolding q by (auto simp: touches_def)
    then show ?thesis using a c unfolding q by (auto simp: touches_def)
  next
    case (InRefused reason j)
    then show ?thesis using claim_refused[OF c[unfolded InRefused]] c by simp
  qed
qed

lemma complete_taken: "taken_until expires q t \<Longrightarrow> taken_until expires q (fold (on_processing (complete_row now) b) ks t)"
proof (induction ks arbitrary: t)
  case (Cons k ks)
  then have "taken_until expires q (on_processing (complete_row now) b k t)"
    by (auto simp: taken_until_def on_processing_at complete_row_def)
  then show ?case using Cons.IH by simp
qed simp

lemma fold_other: "fst q \<noteq> b \<or> snd q \<notin> set ks \<Longrightarrow> fold (on_processing f b) ks t q = t q"
  by (induction ks arbitrary: t) (auto simp: on_processing_at)

lemma others_taken: "others_step expires q t u \<Longrightarrow> taken_until expires q t \<Longrightarrow> taken_until expires q u"
proof (induction rule: others_step.induct)
  case (claim b ks now t lease)
  then show ?case using claim_taken[of expires q t b ks now lease] by (simp add: taken_until_def)
next
  case (complete t b ks now)
  then show ?case by (simp add: markProcessingKeysCompleted_def complete_taken)
next
  case (release b ks t now)
  then have "releaseProcessingKeys b ks now t q = t q"
    unfolding releaseProcessingKeys_def by (intro fold_other) (auto simp: touches_def)
  with release show ?case by (simp add: taken_until_def)
qed

lemma others_steps_taken: "(others_step expires q)\<^sup>*\<^sup>* t u \<Longrightarrow> taken_until expires q t \<Longrightarrow> taken_until expires q u"
  by (induction rule: rtranclp_induct) (auto intro: others_taken)

section \<open>Properties of inbound claims\<close>

text \<open>
  No two receivers handle one event while a lease runs. After a claim, whatever other receivers claim and complete
  meanwhile, every claim that shares a key with it and comes before the end of its lease is refused and changes nothing,
  as long as nobody releases that key.
\<close>

theorem running_claim_excludes:
  assumes "claimProcessingKeys b ks now lease t = (InAcquired, t1)"
    and "(others_step (lease_until now lease) (b, k))\<^sup>*\<^sup>* t1 t2"
    and "k \<in> set (normalized_keys ks)" "k \<in> set (normalized_keys ks')" "now' < lease_until now lease"
  shows "\<exists>reason j. claimProcessingKeys b ks' now' lease' t2 = (InRefused reason j, t2)"
proof -
  have "taken_until (lease_until now lease) (b, k) t1"
    using claim_acquired[OF assms(1)] assms(3) by (intro held_taken) simp
  then have "taken_until (lease_until now lease) (b, k) t2" by (rule others_steps_taken[OF assms(2)])
  then have "blocked now' (t2 (b, k)) \<noteq> None" using assms(5) by (rule taken_blocks)
  then show ?thesis by (rule blocked_claim[OF assms(4)])
qed

text \<open>
  An event whose handling was cut off is lost. The service claims with the time of the event for the time of the
  claim, so every redelivery of the event comes, by its own account, before the end of the lease, however late it arrives:
  it is refused as a duplicate that is still being handled, whatever else is received in the meantime.
\<close>

theorem crashed_event_is_lost:
  assumes "receive_event b e HandlingCutOff t = (IntakeLost, t1)"
    and "k \<in> set (normalized_keys (buildInboundDedupeKeys e))"
    and "(others_step (lease_until (ie_occurredAt e) None) (b, k))\<^sup>*\<^sup>* t1 t2"
  shows "receive_event b e h t2 = (IntakeDuplicate, t2)"
proof -
  have ne: "buildInboundDedupeKeys e \<noteq> []" using assms(2) by (auto simp: normalized_keys_def)
  have c: "claimProcessingKeys b (buildInboundDedupeKeys e) (ie_occurredAt e) None t = (InAcquired, t1)"
    using assms(1) ne by (auto simp: receive_event_def Let_def split: prod.splits inbound_result.splits)
  have "taken_until (lease_until (ie_occurredAt e) None) (b, k) t1"
    using claim_acquired[OF c] assms(2) by (intro held_taken) simp
  then have "taken_until (lease_until (ie_occurredAt e) None) (b, k) t2" by (rule others_steps_taken[OF assms(3)])
  then have "blocked (ie_occurredAt e) (t2 (b, k)) \<noteq> None"
    by (rule taken_blocks) (simp add: lease_until_def DEFAULT_INBOUND_PROCESSING_LEASE_MS_def)
  then obtain reason j where "claimProcessingKeys b (buildInboundDedupeKeys e) (ie_occurredAt e) None t2 = (InRefused reason j, t2)"
    using blocked_claim[OF assms(2), of "ie_occurredAt e" t2 b None] by blast
  then show ?thesis using ne by (simp add: receive_event_def Let_def)
qed

definition sample_inbound :: inbound_event where
  "sample_inbound = \<lparr>ie_eventId = Some ''ev1'', ie_platformMessageId = None, ie_occurredAt = 1000\<rparr>"

lemma sample_keys: "buildInboundDedupeKeys sample_inbound = [''event:ev1'']" "normalized_keys [''event:ev1''] = [''event:ev1'']"
  by (simp_all add: buildInboundDedupeKeys_def sample_inbound_def labelled_key_def nub_def normalized_keys_def js_trim_def
      trim_start_def trim_end_def is_ws_def)

lemma sample_claim: "claimProcessingKeys ''b'' [''event:ev1''] 1000 None (\<lambda>_. None) = (InAcquired,
    [(''b'', ''event:ev1'') \<mapsto> \<lparr>in_status = Processing, in_firstSeenAt = 1000, in_leaseExpiresAt = Some 121000, in_updatedAt = 1000\<rparr>])"
  by (simp add: claimProcessingKeys_def sample_keys lease_until_def DEFAULT_INBOUND_PROCESSING_LEASE_MS_def)

theorem running_claim_excludes_witness:
  "\<exists>reason j. claimProcessingKeys ''b'' [''event:ev1''] 5000 None
     (snd (claimProcessingKeys ''b'' [''event:ev1''] 1000 None (\<lambda>_. None))) =
   (InRefused reason j, snd (claimProcessingKeys ''b'' [''event:ev1''] 1000 None (\<lambda>_. None)))"
  unfolding sample_claim snd_conv
  by (rule running_claim_excludes[OF sample_claim, where k = "''event:ev1''"])
     (simp_all add: sample_keys lease_until_def DEFAULT_INBOUND_PROCESSING_LEASE_MS_def)

lemma sample_time: "ie_occurredAt sample_inbound = 1000"
  by (simp add: sample_inbound_def)

lemma sample_cut_off: "receive_event ''b'' sample_inbound HandlingCutOff (\<lambda>_. None) = (IntakeLost,
    [(''b'', ''event:ev1'') \<mapsto> \<lparr>in_status = Processing, in_firstSeenAt = 1000, in_leaseExpiresAt = Some 121000, in_updatedAt = 1000\<rparr>])"
  using sample_claim sample_time by (simp add: receive_event_def sample_keys Let_def)

theorem crashed_event_is_lost_witness:
  "receive_event ''b'' sample_inbound HandlingDone (snd (receive_event ''b'' sample_inbound HandlingCutOff (\<lambda>_. None))) =
   (IntakeDuplicate, snd (receive_event ''b'' sample_inbound HandlingCutOff (\<lambda>_. None)))"
  unfolding sample_cut_off snd_conv
  by (rule crashed_event_is_lost[OF sample_cut_off, where k = "''event:ev1''"]) (simp_all add: sample_keys)

section \<open>Any number of deliverers\<close>

text \<open>The table with the claims that were given out and the outcomes that were recorded, newest first.\<close>

record lock_world =
  lw_table :: lock_table
  lw_issued :: "(string \<times> string) list"
  lw_finals :: "(string \<times> string \<times> lock_state) list"

definition no_locks :: "lock_world \<Rightarrow> bool" where
  "no_locks w \<longleftrightarrow> w = \<lparr>lw_table = (\<lambda>_. None), lw_issued = [], lw_finals = []\<rparr>"

definition issue :: "string \<Rightarrow> string \<Rightarrow> int \<Rightarrow> int option \<Rightarrow> lock_world \<Rightarrow> lock_world" where
  "issue token e now lease w = (case acquireClaim token e now lease (lw_table w) of
     (OutAcquired c, t) \<Rightarrow> w\<lparr>lw_table := t, lw_issued := (e, c) # lw_issued w\<rparr> | (r, t) \<Rightarrow> w\<lparr>lw_table := t\<rparr>)"

definition finish :: "string \<Rightarrow> string \<Rightarrow> lock_state \<Rightarrow> int \<Rightarrow> lock_world \<Rightarrow> lock_world" where
  "finish e token st now w = (case finalizeClaim e token st now (lw_table w) of
     (True, t) \<Rightarrow> w\<lparr>lw_table := t, lw_finals := (e, token, st) # lw_finals w\<rparr> | (False, t) \<Rightarrow> w\<lparr>lw_table := t\<rparr>)"

text \<open>Tokens are random: none is given out twice.\<close>

inductive lock_step :: "lock_world \<Rightarrow> lock_world \<Rightarrow> bool" where
  acquire: "token \<notin> snd ` set (lw_issued w) \<Longrightarrow> lock_step w (issue token e now lease w)"
| reap: "lock_step w (w\<lparr>lw_table := reapExpiredClaims now (lw_table w)\<rparr>)"
| finalize: "st = Delivered \<or> st = DeliveryFailed \<Longrightarrow> lock_step w (finish e token st now w)"

definition final_state :: "lock_row option \<Rightarrow> lock_state option" where
  "final_state r = (case r of None \<Rightarrow> None
     | Some row \<Rightarrow> if lk_state row = Delivered \<or> lk_state row = DeliveryFailed then Some (lk_state row) else None)"

definition outcomes :: "string \<Rightarrow> lock_world \<Rightarrow> (string \<times> lock_state) list" where
  "outcomes e w = map snd (filter (\<lambda>f. fst f = e) (lw_finals w))"

text \<open>
  A token stands only in a claimed row, and is the last one given out for its event; an event has one outcome at most, and
  its row tells it.
\<close>

definition row_ok :: "string \<Rightarrow> lock_world \<Rightarrow> bool" where
  "row_ok e w \<longleftrightarrow>
    (\<forall>r c. lw_table w e = Some r \<longrightarrow> lk_token r = Some c \<longrightarrow> lk_state r = Claimed \<and> map_of (lw_issued w) e = Some c) \<and>
    map snd (outcomes e w) = (case final_state (lw_table w e) of None \<Rightarrow> [] | Some st \<Rightarrow> [st])"

definition locks_ok :: "lock_world \<Rightarrow> bool" where
  "locks_ok w \<longleftrightarrow> (\<forall>e. row_ok e w)"

definition finals_kept :: "lock_world \<Rightarrow> lock_world \<Rightarrow> bool" where
  "finals_kept w v \<longleftrightarrow> (\<forall>e. final_state (lw_table w e) \<noteq> None \<longrightarrow>
     lw_table v e = lw_table w e \<and> outcomes e v = outcomes e w)"

lemma acquire_cases:
  obtains "acquireClaim token e now lease t = (OutFinalized, t)" | "acquireClaim token e now lease t = (OutInflight, t)"
  | "final_state (t e) = None" "acquireClaim token e now lease t = (OutAcquired token,
      t(e \<mapsto> \<lparr>lk_state = Claimed, lk_token = Some token, lk_claimedAt = Some now, lk_updatedAt = now\<rparr>))"
proof (cases "t e")
  case None
  then show ?thesis using that(3) by (simp add: acquireClaim_def final_state_def)
next
  case (Some r)
  show ?thesis
  proof (cases "lk_state r = Delivered \<or> lk_state r = DeliveryFailed")
    case True
    then show ?thesis using that(1) Some by (simp add: acquireClaim_def)
  next
    case False
    let ?busy = "lk_state r = Claimed \<and>
      claimed_since r + max (case lease of None \<Rightarrow> DEFAULT_OUTBOUND_CLAIM_LEASE_MS | Some l \<Rightarrow> l) 1 > now"
    show ?thesis using that(2,3) Some False by (cases ?busy) (simp_all add: acquireClaim_def final_state_def Let_def)
  qed
qed

lemma finalize_cases:
  obtains "finalizeClaim e token st now t = (False, t)"
  | r where "t e = Some r" "lk_token r = Some token" "finalizeClaim e token st now t = (True,
      t(e \<mapsto> \<lparr>lk_state = st, lk_token = None, lk_claimedAt = None, lk_updatedAt = now\<rparr>))"
proof (cases "t e")
  case None
  then show ?thesis using that(1) by (simp add: finalizeClaim_def)
next
  case (Some r)
  then show ?thesis using that(1) that(2)[of r] by (cases "lk_token r = Some token") (simp_all add: finalizeClaim_def)
qed

lemma reap_at: "reapExpiredClaims now t e = t e \<or> (final_state (t e) = None \<and> final_state (reapExpiredClaims now t e) = None
    \<and> (\<exists>r. reapExpiredClaims now t e = Some r \<and> lk_token r = None))"
  by (cases "t e") (auto simp: reapExpiredClaims_def expired_claim_def final_state_def)

lemma issue_ok: "locks_ok w \<Longrightarrow> locks_ok (issue token e now lease w) \<and> finals_kept w (issue token e now lease w)"
proof (rule acquire_cases[of token e now lease "lw_table w"])
  assume "locks_ok w" "final_state (lw_table w e) = None" and a: "acquireClaim token e now lease (lw_table w) = (OutAcquired token,
      (lw_table w)(e \<mapsto> \<lparr>lk_state = Claimed, lk_token = Some token, lk_claimedAt = Some now, lk_updatedAt = now\<rparr>))"
  moreover have "final_state (Some \<lparr>lk_state = Claimed, lk_token = Some token, lk_claimedAt = Some now, lk_updatedAt = now\<rparr>) = None"
    by (simp add: final_state_def)
  ultimately show ?thesis
    by (auto simp: issue_def locks_ok_def row_ok_def finals_kept_def outcomes_def)
qed (auto simp: issue_def finals_kept_def)

lemma finish_ok: "locks_ok w \<Longrightarrow> st = Delivered \<or> st = DeliveryFailed \<Longrightarrow>
    locks_ok (finish e token st now w) \<and> finals_kept w (finish e token st now w)"
proof (rule finalize_cases[of e token st now "lw_table w"])
  fix r
  assume w: "locks_ok w" "st = Delivered \<or> st = DeliveryFailed" "lw_table w e = Some r" "lk_token r = Some token"
    and f: "finalizeClaim e token st now (lw_table w) = (True,
      (lw_table w)(e \<mapsto> \<lparr>lk_state = st, lk_token = None, lk_claimedAt = None, lk_updatedAt = now\<rparr>))"
  have open_row: "final_state (lw_table w e) = None" "outcomes e w = []"
    using w(1,3,4) by (auto simp: locks_ok_def row_ok_def final_state_def dest!: spec[of _ e])
  have "final_state (Some \<lparr>lk_state = st, lk_token = None, lk_claimedAt = None, lk_updatedAt = now\<rparr>) = Some st"
    using w(2) by (auto simp: final_state_def)
  then show ?thesis using w(1) open_row f
    by (auto simp: finish_def locks_ok_def row_ok_def finals_kept_def outcomes_def)
qed (auto simp: finish_def finals_kept_def)

lemma reap_ok: "locks_ok w \<Longrightarrow> locks_ok (w\<lparr>lw_table := reapExpiredClaims now (lw_table w)\<rparr>)
    \<and> finals_kept w (w\<lparr>lw_table := reapExpiredClaims now (lw_table w)\<rparr>)"
proof -
  assume w: "locks_ok w"
  have "row_ok e (w\<lparr>lw_table := reapExpiredClaims now (lw_table w)\<rparr>)" for e
  proof (cases "reapExpiredClaims now (lw_table w) e = lw_table w e")
    case True
    have "row_ok e w" using w by (simp add: locks_ok_def)
    then show ?thesis by (simp add: row_ok_def outcomes_def True)
  next
    case False
    then have "final_state (lw_table w e) = None" "final_state (reapExpiredClaims now (lw_table w) e) = None"
      "\<exists>r. reapExpiredClaims now (lw_table w) e = Some r \<and> lk_token r = None"
      using reap_at[of now "lw_table w" e] by auto
    moreover have "row_ok e w" using w by (simp add: locks_ok_def)
    ultimately show ?thesis by (auto simp: row_ok_def outcomes_def)
  qed
  moreover have "reapExpiredClaims now (lw_table w) e = lw_table w e" if "final_state (lw_table w e) \<noteq> None" for e
    using that reap_at[of now "lw_table w" e] by auto
  ultimately show ?thesis by (simp add: locks_ok_def finals_kept_def outcomes_def)
qed

lemma lock_step_ok: "lock_step w v \<Longrightarrow> locks_ok w \<Longrightarrow> locks_ok v \<and> finals_kept w v"
  by (induction rule: lock_step.induct) (simp_all add: issue_ok finish_ok reap_ok)

interpretation deliveries: monotone_system no_locks lock_step locks_ok finals_kept
proof
  show "no_locks w \<Longrightarrow> locks_ok w" for w by (simp add: no_locks_def locks_ok_def row_ok_def outcomes_def final_state_def)
  show "locks_ok w \<Longrightarrow> lock_step w v \<Longrightarrow> locks_ok v" for w v using lock_step_ok by blast
  show "finals_kept w w" for w by (simp add: finals_kept_def)
  show "finals_kept u v \<Longrightarrow> finals_kept v w \<Longrightarrow> finals_kept u w" for u v w by (simp add: finals_kept_def)
  show "locks_ok w \<Longrightarrow> lock_step w v \<Longrightarrow> finals_kept w v" for w v using lock_step_ok by blast
qed

section \<open>Properties of outbound claims\<close>

text \<open>
  C37: A delivery is recorded once. Through any interleaving of claims, reaped leases and recorded outcomes an event gets one
  outcome at most; from then on its row does not change, and nobody can claim the event again.
\<close>

theorem delivery_is_recorded_once:
  assumes "reach no_locks lock_step w" "lock_step\<^sup>*\<^sup>* w v" and "(c, st) \<in> set (outcomes e w)"
  shows "outcomes e v = [(c, st)] \<and> lw_table v e = lw_table w e \<and>
    acquireClaim token e now lease (lw_table v) = (OutFinalized, lw_table v)"
proof -
  have ok: "row_ok e w" using deliveries.reach_inv[OF assms(1)] by (simp add: locks_ok_def)
  have f: "final_state (lw_table w e) \<noteq> None"
    using ok assms(3) by (auto simp: row_ok_def split: option.splits)
  have one: "outcomes e w = [(c, st)]" using ok assms(3) f by (cases "outcomes e w") (auto simp: row_ok_def)
  have k: "lw_table v e = lw_table w e" "outcomes e v = outcomes e w"
    using deliveries.reach_steps_le[OF assms(1,2)] f by (auto simp: finals_kept_def)
  have "acquireClaim token e now lease (lw_table v) = (OutFinalized, lw_table v)"
    using f k(1) by (auto simp: acquireClaim_def final_state_def split: option.splits if_splits)
  then show ?thesis using one k by simp
qed

text \<open>
  Only the last claimant can record an outcome. When a claim is finalized, its token is the last one that was given out
  for the event: one whose lease ran out and was taken over or reaped cannot record anything any more.
\<close>

theorem last_claimant_records:
  assumes "reach no_locks lock_step w" and "fst (finalizeClaim e c st now (lw_table w))"
  shows "map_of (lw_issued w) e = Some c \<and> outcomes e w = [] \<and>
    (\<forall>token now' lease. acquireClaim token e now' lease (lw_table (finish e c Delivered now w)) =
       (OutFinalized, lw_table (finish e c Delivered now w)))"
proof -
  have ok: "row_ok e w" using deliveries.reach_inv[OF assms(1)] by (simp add: locks_ok_def)
  obtain r where r: "lw_table w e = Some r" "lk_token r = Some c"
    using assms(2) by (auto simp: finalizeClaim_def split: option.splits if_splits)
  then show ?thesis using ok
    by (auto simp: row_ok_def finish_def finalizeClaim_def acquireClaim_def final_state_def)
qed

text \<open>A claim whose holder has crashed is available again when its lease is over, reaped or not.\<close>

lemma expired_claim_is_available:
  assumes "t e = Some r" "expired_claim now r"
  shows "fst (acquireClaim token e now None t) = OutAcquired token"
    "fst (acquireClaim token e now None (reapExpiredClaims now t)) = OutAcquired token"
  using assms by (auto simp: acquireClaim_def expired_claim_def reapExpiredClaims_def claimed_since_def Let_def
      DEFAULT_OUTBOUND_CLAIM_LEASE_MS_def split: option.splits)

text \<open>A message that is out is recorded as failed when the note of the session throws.\<close>

lemma sent_message_recorded_as_failed:
  "de_payload_ok env \<Longrightarrow> de_transport env = SentThenThrew \<Longrightarrow> de_meanwhile env = id \<Longrightarrow> t e = None \<Longrightarrow>
   \<exists>t'. deliver_one env token now e t = (RecordedFailed, True, t') \<and> final_state (t' e) = Some DeliveryFailed"
  by (simp add: deliver_one_def acquireClaim_def finalizeClaim_def final_state_def Let_def)

definition sample_world :: lock_world where
  "sample_world = finish ''out1'' ''tok'' Delivered 20 (issue ''tok'' ''out1'' 10 None
     \<lparr>lw_table = (\<lambda>_. None), lw_issued = [], lw_finals = []\<rparr>)"

lemma sample_issue: "issue ''tok'' ''out1'' 10 None \<lparr>lw_table = (\<lambda>_. None), lw_issued = [], lw_finals = []\<rparr> =
    \<lparr>lw_table = [''out1'' \<mapsto> \<lparr>lk_state = Claimed, lk_token = Some ''tok'', lk_claimedAt = Some 10, lk_updatedAt = 10\<rparr>],
     lw_issued = [(''out1'', ''tok'')], lw_finals = []\<rparr>"
  by (simp add: issue_def acquireClaim_def)

lemma sample_reach: "reach no_locks lock_step (issue ''tok'' ''out1'' 10 None \<lparr>lw_table = (\<lambda>_. None), lw_issued = [], lw_finals = []\<rparr>)"
    "reach no_locks lock_step sample_world"
proof -
  let ?w = "\<lparr>lw_table = (\<lambda>_. None), lw_issued = [], lw_finals = []\<rparr>"
  have "reach no_locks lock_step ?w" by (rule reach.intros) (simp add: no_locks_def)
  moreover have "lock_step ?w (issue ''tok'' ''out1'' 10 None ?w)" by (rule lock_step.acquire) simp
  ultimately show a: "reach no_locks lock_step (issue ''tok'' ''out1'' 10 None ?w)" by (rule reach.intros)
  have "lock_step (issue ''tok'' ''out1'' 10 None ?w) sample_world"
    unfolding sample_world_def by (rule lock_step.finalize) simp
  with a show "reach no_locks lock_step sample_world" by (rule reach.intros)
qed

theorem delivery_is_recorded_once_witness:
  "outcomes ''out1'' sample_world = [(''tok'', Delivered)] \<and> lw_table sample_world ''out1'' = lw_table sample_world ''out1'' \<and>
   acquireClaim ''t2'' ''out1'' 99 None (lw_table sample_world) = (OutFinalized, lw_table sample_world)"
  by (rule delivery_is_recorded_once[OF sample_reach(2) rtranclp.rtrancl_refl])
     (simp add: sample_world_def sample_issue finish_def finalizeClaim_def outcomes_def)

theorem last_claimant_records_witness:
  "map_of (lw_issued (issue ''tok'' ''out1'' 10 None \<lparr>lw_table = (\<lambda>_. None), lw_issued = [], lw_finals = []\<rparr>)) ''out1'' = Some ''tok''"
  using last_claimant_records[OF sample_reach(1), of "''out1''" "''tok''" Delivered 20]
  by (simp add: sample_issue finalizeClaim_def)

end
