(* ===== verification/Turn_Timing.thy ===== *)
theory Turn_Timing
  imports Js_Prelude
begin

text \<open>
  The working time of a turn (\<open>services/turn-timing-service.ts\<close>): the pauses between the request of an approval and its
  resolution, merged and cut to the turn. The payload of an event is its parsed fields; times are milliseconds.
\<close>

section \<open>Data\<close>

record timing_event =
  te_type :: string
  te_requestId :: "string option"
  te_at :: int
  te_payload :: "(string \<times> json) list"

record turn_timing =
  tt_startedAtMs :: int
  tt_completedAtMs :: int
  tt_wallMs :: int
  tt_pausedMs :: int
  tt_elapsedMs :: int

section \<open>Intervals\<close>

definition clampDuration :: "int \<Rightarrow> int" where
  "clampDuration ms = max 0 ms"

text \<open>The loop over the sorted intervals with the current one and the sum so far.\<close>

fun merge_loop :: "(int \<times> int) option \<Rightarrow> int \<Rightarrow> (int \<times> int) list \<Rightarrow> int" where
  "merge_loop None acc [] = acc"
| "merge_loop (Some (a, b)) acc [] = acc + clampDuration (b - a)"
| "merge_loop None acc (i # ivs) = merge_loop (Some i) acc ivs"
| "merge_loop (Some (a, b)) acc ((c, d) # ivs) =
     (if c \<le> b then merge_loop (Some (a, max b d)) acc ivs
      else merge_loop (Some (c, d)) (acc + clampDuration (b - a)) ivs)"

definition clip :: "int \<Rightarrow> int \<Rightarrow> (int \<times> int) list \<Rightarrow> (int \<times> int) list" where
  "clip lo hi ivs = sort_key fst (filter (\<lambda>(a, b). b > a) (map (\<lambda>(a, b). (max lo a, min hi b)) ivs))"

definition mergedIntervalDuration :: "(int \<times> int) list \<Rightarrow> int \<Rightarrow> int \<Rightarrow> int" where
  "mergedIntervalDuration ivs lo hi = merge_loop None 0 (clip lo hi ivs)"

section \<open>Pauses\<close>

definition approval_of :: "timing_event \<Rightarrow> string option" where
  "approval_of e = (case obj_get (te_payload e) ''approvalId'' of Some (JStr s) \<Rightarrow> if s = [] then None else Some s | _ \<Rightarrow> None)"

text \<open>The pauses that are open, in the order they were opened, and those that have ended.\<close>

fun pause_scan :: "(string \<times> int) list \<Rightarrow> (int \<times> int) list \<Rightarrow> timing_event list \<Rightarrow> (string \<times> int) list \<times> (int \<times> int) list" where
  "pause_scan active ended [] = (active, ended)"
| "pause_scan active ended (e # es) =
     (case approval_of e of
        None \<Rightarrow> pause_scan active ended es
      | Some k \<Rightarrow>
          if te_type e = ''leader.approval_requested''
          then pause_scan (if map_of active k = None then active @ [(k, te_at e)] else active) ended es
          else if te_type e = ''leader.approval_resolved''
          then (case map_of active k of
                  None \<Rightarrow> pause_scan active ended es
                | Some started \<Rightarrow> pause_scan (filter (\<lambda>p. fst p \<noteq> k) active) (ended @ [(started, te_at e)]) es)
          else pause_scan active ended es)"

definition turn_events :: "string \<Rightarrow> timing_event list \<Rightarrow> timing_event list" where
  "turn_events r es = sort_key te_at (filter (\<lambda>e. te_requestId e = Some r) es)"

definition pause_intervals :: "string \<Rightarrow> int \<Rightarrow> timing_event list \<Rightarrow> (int \<times> int) list" where
  "pause_intervals r completed es =
    (case pause_scan [] [] (turn_events r es) of (active, ended) \<Rightarrow> ended @ map (\<lambda>p. (snd p, completed)) active)"

definition calculateTurnTiming :: "string \<Rightarrow> int \<Rightarrow> int \<Rightarrow> timing_event list \<Rightarrow> turn_timing" where
  "calculateTurnTiming r started completed es =
    (let wall = clampDuration (completed - started);
         paused = min (mergedIntervalDuration (pause_intervals r completed es) started completed) wall
     in \<lparr>tt_startedAtMs = started, tt_completedAtMs = completed, tt_wallMs = wall, tt_pausedMs = paused,
         tt_elapsedMs = max 0 (wall - paused)\<rparr>)"

section \<open>The measure of the pauses\<close>

text \<open>The instants of the turn that lie in one of the intervals.\<close>

definition covered :: "(int \<times> int) list \<Rightarrow> int set" where
  "covered ivs = (\<Union>(a, b)\<in>set ivs. {a..<b})"

lemma covered_simps [simp]: "covered [] = {}" "covered ((a, b) # ivs) = {a..<b} \<union> covered ivs"
  by (simp_all add: covered_def)

lemma mem_covered: "t \<in> covered ivs \<longleftrightarrow> (\<exists>p\<in>set ivs. fst p \<le> t \<and> t < snd p)"
  by (auto simp: covered_def split: prod.splits) (metis fst_conv snd_conv)

lemma finite_covered [simp]: "finite (covered ivs)"
  by (auto simp: covered_def)

lemma card_int: "int (card {a..<b::int}) = clampDuration (b - a)"
  by (simp add: clampDuration_def)

lemma covered_from: "sorted (map fst ((c, d) # ivs)) \<Longrightarrow> t \<in> covered ((c, d) # ivs) \<Longrightarrow> c \<le> t"
  by (auto simp: covered_def)

lemma merge_loop_Some: "sorted (map fst ((a, b) # ivs)) \<Longrightarrow> a < b \<Longrightarrow> list_all (\<lambda>(c, d). c < d) ivs
    \<Longrightarrow> merge_loop (Some (a, b)) acc ivs = acc + int (card ({a..<b} \<union> covered ivs))"
proof (induction ivs arbitrary: a b acc)
  case Nil
  then show ?case by (simp add: card_int[symmetric])
next
  case (Cons i "ivs")
  obtain c d where i: "i = (c, d)" by fastforce
  have ac: "a \<le> c" "c < d" "sorted (map fst ((c, d) # ivs))" "list_all (\<lambda>(c, d). c < d) ivs"
    using Cons.prems unfolding i by auto
  show ?case
  proof (cases "c \<le> b")
    case True
    have "sorted (map fst ((a, max b d) # ivs))" using Cons.prems unfolding i by auto
    then have "merge_loop (Some (a, max b d)) acc ivs = acc + int (card ({a..<max b d} \<union> covered ivs))"
      by (rule Cons.IH) (use Cons.prems ac in auto)
    moreover have "{a..<max b d} = {a..<b} \<union> {c..<d}" using ac True by auto
    ultimately show ?thesis using True by (simp add: i Un_assoc)
  next
    case False
    have "merge_loop (Some (c, d)) (acc + clampDuration (b - a)) ivs =
        acc + clampDuration (b - a) + int (card ({c..<d} \<union> covered ivs))"
      by (rule Cons.IH) (use ac in auto)
    moreover have "{a..<b} \<inter> ({c..<d} \<union> covered ivs) = {}"
      using covered_from[OF ac(3)] False by force
    then have "card ({a..<b} \<union> ({c..<d} \<union> covered ivs)) = card {a..<b} + card ({c..<d} \<union> covered ivs)"
      by (intro card_Un_disjoint) auto
    ultimately show ?thesis using False by (simp add: i card_int del: card_atLeastLessThan_int)
  qed
qed

lemma merge_loop_card: "sorted (map fst ivs) \<Longrightarrow> list_all (\<lambda>(a, b). a < b) ivs \<Longrightarrow> merge_loop None 0 ivs = int (card (covered ivs))"
proof (cases "ivs")
  case (Cons i js)
  obtain a b where "i = (a, b)" by fastforce
  assume "sorted (map fst ivs)" "list_all (\<lambda>(a, b). a < b) ivs"
  then show ?thesis using merge_loop_Some[of a b js 0] by (simp add: Cons \<open>i = (a, b)\<close>)
qed simp

lemma covered_clip: "covered (clip lo hi ivs) = {t. lo \<le> t \<and> t < hi \<and> t \<in> covered ivs}"
proof -
  have "t \<in> covered (clip lo hi ivs) \<longleftrightarrow> (\<exists>p\<in>set ivs. max lo (fst p) < min hi (snd p) \<and> max lo (fst p) \<le> t \<and> t < min hi (snd p))" for t
    by (auto simp: mem_covered clip_def case_prod_beta)
  moreover have "max lo a < min hi b \<and> max lo a \<le> t \<and> t < min hi b \<longleftrightarrow> lo \<le> t \<and> t < hi \<and> a \<le> t \<and> t < b" for a b t
    by linarith
  ultimately have "t \<in> covered (clip lo hi ivs) \<longleftrightarrow> (\<exists>p\<in>set ivs. lo \<le> t \<and> t < hi \<and> fst p \<le> t \<and> t < snd p)" for t
    by (simp only:)
  then have "t \<in> covered (clip lo hi ivs) \<longleftrightarrow> lo \<le> t \<and> t < hi \<and> t \<in> covered ivs" for t
    unfolding mem_covered[of t ivs] by blast
  then show ?thesis by blast
qed

lemma merged_is_measure: "mergedIntervalDuration ivs lo hi = int (card {t. lo \<le> t \<and> t < hi \<and> t \<in> covered ivs})"
  unfolding mergedIntervalDuration_def covered_clip[symmetric]
  by (rule merge_loop_card) (auto simp: clip_def list_all_iff)

text \<open>
  When an approval is pending, read off the events alone: one of them asks for it, at the instant or before, and none that follows it
  resolves it by then.
\<close>

definition requests :: "string \<Rightarrow> timing_event \<Rightarrow> bool" where
  "requests k e \<longleftrightarrow> te_type e = ''leader.approval_requested'' \<and> approval_of e = Some k"

definition resolves :: "string \<Rightarrow> timing_event \<Rightarrow> bool" where
  "resolves k e \<longleftrightarrow> te_type e = ''leader.approval_resolved'' \<and> approval_of e = Some k"

definition pending_at :: "int \<Rightarrow> timing_event list \<Rightarrow> bool" where
  "pending_at t es \<longleftrightarrow> (\<exists>k us e vs. es = us @ e # vs \<and> requests k e \<and> te_at e \<le> t \<and> (\<forall>f \<in> set vs. resolves k f \<longrightarrow> t < te_at f))"

text \<open>Without a bound on the time: what all of the events leave open. The scan finds exactly this.\<close>

definition left_open :: "string \<Rightarrow> timing_event list \<Rightarrow> bool" where
  "left_open k es \<longleftrightarrow> (\<exists>us e vs. es = us @ e # vs \<and> requests k e \<and> (\<forall>f \<in> set vs. \<not> resolves k f))"

lemma left_open_Nil [simp]: "\<not> left_open k []"
  by (simp add: left_open_def)

lemma left_open_Cons: "left_open k (x # xs) \<longleftrightarrow> left_open k xs \<or> requests k x \<and> (\<forall>f \<in> set xs. \<not> resolves k f)"
  unfolding left_open_def by (auto simp: Cons_eq_append_conv)

lemma scan_leaves_open:
  "map_of (fst (pause_scan act ended xs)) k = None
     \<longleftrightarrow> \<not> left_open k xs \<and> (map_of act k = None \<or> (\<exists>f \<in> set xs. resolves k f))"
proof (induction xs arbitrary: act ended)
  case (Cons x xs)
  have f: "map_of (filter (\<lambda>p. fst p \<noteq> i) act) k = (if k = i then None else map_of act k)" for i
    by (induction act) auto
  consider "\<And>i. approval_of x = Some i \<Longrightarrow> te_type x \<noteq> ''leader.approval_requested'' \<and> te_type x \<noteq> ''leader.approval_resolved''"
    | i where "approval_of x = Some i" "te_type x = ''leader.approval_requested''"
    | i where "approval_of x = Some i" "te_type x = ''leader.approval_resolved''" by blast
  then show ?case
  proof cases
    case 1
    then have "pause_scan act ended (x # xs) = pause_scan act ended xs" "\<not> requests k x" "\<not> resolves k x"
      by (auto simp: requests_def resolves_def split: option.split)
    then show ?thesis by (simp add: Cons.IH left_open_Cons)
  next
    case (2 i)
    then have q: "requests k x \<longleftrightarrow> k = i" "\<not> resolves k x" by (auto simp: requests_def resolves_def)
    show ?thesis using 2 by (cases "map_of act i") (auto simp: Cons.IH left_open_Cons q map_add_def)
  next
    case (3 i)
    then have q: "resolves k x \<longleftrightarrow> k = i" "\<not> requests k x" by (auto simp: requests_def resolves_def)
    show ?thesis using 3 by (cases "map_of act i") (auto simp: Cons.IH left_open_Cons q f)
  qed
qed simp

lemma pending_iff_open:
  assumes "sorted (map te_at es)"
  shows "pending_at t es \<longleftrightarrow> (\<exists>k. left_open k (takeWhile (\<lambda>e. te_at e \<le> t) es))"
proof
  assume "pending_at t es"
  then obtain k us e vs where es: "es = us @ e # vs" "requests k e" "te_at e \<le> t" "\<forall>f \<in> set vs. resolves k f \<longrightarrow> t < te_at f"
    unfolding pending_at_def by blast
  have "\<forall>u \<in> set us. te_at u \<le> t" using assms es(3) by (auto simp: es(1) sorted_append)
  then have "takeWhile (\<lambda>e. te_at e \<le> t) es = us @ e # takeWhile (\<lambda>e. te_at e \<le> t) vs" by (simp add: es takeWhile_append2)
  moreover have "\<not> resolves k f" if "f \<in> set (takeWhile (\<lambda>e. te_at e \<le> t) vs)" for f
    using es(4) set_takeWhileD [OF that] by force
  ultimately have "left_open k (takeWhile (\<lambda>e. te_at e \<le> t) es)" unfolding left_open_def using es(2) by blast
  then show "\<exists>k. left_open k (takeWhile (\<lambda>e. te_at e \<le> t) es)" ..
next
  assume "\<exists>k. left_open k (takeWhile (\<lambda>e. te_at e \<le> t) es)"
  then obtain k us e vs where tw: "takeWhile (\<lambda>e. te_at e \<le> t) es = us @ e # vs" "requests k e" "\<forall>f \<in> set vs. \<not> resolves k f"
    unfolding left_open_def by blast
  have e: "te_at e \<le> t" using set_takeWhileD [of e "\<lambda>e. te_at e \<le> t" es] by (simp add: tw(1))
  let ?rest = "dropWhile (\<lambda>e. te_at e \<le> t) es"
  have split: "es = us @ e # (vs @ ?rest)" using takeWhile_dropWhile_id [of "\<lambda>e. te_at e \<le> t" es] by (simp add: tw(1))
  have "t < te_at f" if "f \<in> set ?rest" for f
  proof (cases ?rest)
    case (Cons g gs)
    have "\<not> te_at g \<le> t" using Cons by (simp add: dropWhile_eq_Cons_conv)
    moreover have "te_at g \<le> te_at f"
    proof -
      have "sorted (map te_at ?rest)" using assms by (subst (asm) split) (simp add: sorted_append)
      then show ?thesis using that by (auto simp: Cons)
    qed
    ultimately show ?thesis by simp
  qed (use that in \<open>simp only: list.set empty_iff\<close>)
  then have "\<forall>f \<in> set (vs @ ?rest). resolves k f \<longrightarrow> t < te_at f" using tw(3) by auto
  then show "pending_at t es" unfolding pending_at_def using split tw(2) e by blast
qed

lemma pending_iff_scan:
  assumes "sorted (map te_at es)"
  shows "pending_at t es \<longleftrightarrow> fst (pause_scan [] [] (takeWhile (\<lambda>e. te_at e \<le> t) es)) \<noteq> []"
proof -
  have "(\<exists>k. map_of xs k \<noteq> None) \<longleftrightarrow> xs \<noteq> []" for xs :: "(string \<times> int) list"
    by (cases xs) (auto intro: exI)
  from this [of "fst (pause_scan [] [] (takeWhile (\<lambda>e. te_at e \<le> t) es))"] show ?thesis
    by (simp only: pending_iff_open [OF assms] scan_leaves_open map_of.simps) simp
qed

definition all_intervals :: "int \<Rightarrow> (string \<times> int) list \<times> (int \<times> int) list \<Rightarrow> (int \<times> int) list" where
  "all_intervals completed st = snd st @ map (\<lambda>p. (snd p, completed)) (fst st)"

lemma covered_append [simp]: "covered (xs @ ys) = covered xs \<union> covered ys"
  by (auto simp: covered_def)

lemma scan_cases:
  obtains "pause_scan act ended (e # es) = pause_scan act ended es"
  | k where "map_of act k = None" "pause_scan act ended (e # es) = pause_scan (act @ [(k, te_at e)]) ended es"
  | k s where "map_of act k = Some s"
      "pause_scan act ended (e # es) = pause_scan (filter (\<lambda>p. fst p \<noteq> k) act) (ended @ [(s, te_at e)]) es"
proof (cases "approval_of e")
  case None
  then show ?thesis using that(1) by simp
next
  case (Some k)
  consider "te_type e = ''leader.approval_requested''" | "te_type e = ''leader.approval_resolved''"
    | "te_type e \<noteq> ''leader.approval_requested''" "te_type e \<noteq> ''leader.approval_resolved''" by blast
  then show ?thesis
  proof cases
    case 1
    then show ?thesis using Some that(1) that(2)[of k] by (cases "map_of act k") simp_all
  next
    case 2
    then show ?thesis using Some that(1) that(3)[of k] by (cases "map_of act k") simp_all
  next
    case 3
    then show ?thesis using Some that(1) by simp
  qed
qed

lemma distinct_open: "distinct (map fst act) \<Longrightarrow> map_of act k = None \<Longrightarrow> distinct (map fst (act @ [(k, s)]))"
  by (auto simp: map_of_eq_None_iff)

lemma distinct_closed: "distinct (map fst act) \<Longrightarrow> distinct (map fst (filter P act))"
  by (rule distinct_map_filter)

lemma open_starts: "distinct (map fst act) \<Longrightarrow> map_of act k = Some s
    \<Longrightarrow> (\<exists>p\<in>set act. snd p \<le> t) \<longleftrightarrow> s \<le> t \<or> (\<exists>p\<in>set (filter (\<lambda>p. fst p \<noteq> k) act). snd p \<le> (t::int))"
proof -
  assume d: "distinct (map fst act)" and m: "map_of act k = Some s"
  have i: "(k, s) \<in> set act" using m by (rule map_of_SomeD)
  have u: "snd p = s" if "p \<in> set act" "fst p = k" for p
    using map_of_is_SomeI[OF d, of k "snd p"] that m by (cases p) auto
  show ?thesis
  proof
    assume "\<exists>p\<in>set act. snd p \<le> t"
    then obtain p where p: "p \<in> set act" "snd p \<le> t" by blast
    then show "s \<le> t \<or> (\<exists>p\<in>set (filter (\<lambda>p. fst p \<noteq> k) act). snd p \<le> t)"
    proof (cases "fst p = k")
      case True
      then show ?thesis using u[OF p(1)] p(2) by simp
    next
      case False
      then have "p \<in> set (filter (\<lambda>p. fst p \<noteq> k) act)" using p(1) by simp
      then show ?thesis using p(2) by blast
    qed
  next
    assume "s \<le> t \<or> (\<exists>p\<in>set (filter (\<lambda>p. fst p \<noteq> k) act). snd p \<le> t)"
    then show "\<exists>p\<in>set act. snd p \<le> t" using i by force
  qed
qed

lemma scan_after: "\<forall>e\<in>set es. t < te_at e \<Longrightarrow> t < completed \<Longrightarrow> distinct (map fst act) \<Longrightarrow>
    t \<in> covered (all_intervals completed (pause_scan act ended es)) \<longleftrightarrow> t \<in> covered ended \<or> (\<exists>p\<in>set act. snd p \<le> t)"
proof (induction es arbitrary: act ended)
  case Nil
  then show ?case by (auto simp: all_intervals_def mem_covered)
next
  case (Cons e es)
  show ?case
  proof (rule scan_cases[of act ended e es])
    assume "pause_scan act ended (e # es) = pause_scan act ended es"
    then show ?thesis using Cons by simp
  next
    fix k assume k: "map_of act k = None" "pause_scan act ended (e # es) = pause_scan (act @ [(k, te_at e)]) ended es"
    show ?thesis unfolding k(2)
      using Cons.IH[of "act @ [(k, te_at e)]" ended] Cons.prems distinct_open[OF Cons.prems(3) k(1)] by simp
  next
    fix k s assume k: "map_of act k = Some s"
      "pause_scan act ended (e # es) = pause_scan (filter (\<lambda>p. fst p \<noteq> k) act) (ended @ [(s, te_at e)]) es"
    have "t \<in> covered (ended @ [(s, te_at e)]) \<longleftrightarrow> t \<in> covered ended \<or> s \<le> t" using Cons.prems(1) by auto
    then show ?thesis unfolding k(2)
      using Cons.IH[of "filter (\<lambda>p. fst p \<noteq> k) act" "ended @ [(s, te_at e)]"] Cons.prems
        distinct_closed[OF Cons.prems(3)] open_starts[OF Cons.prems(3) k(1), of t] by auto
  qed
qed

lemma scan_during: "sorted (map te_at es) \<Longrightarrow> t < completed \<Longrightarrow> distinct (map fst act) \<Longrightarrow> \<forall>p\<in>set act. snd p \<le> t \<Longrightarrow>
    t \<in> covered (all_intervals completed (pause_scan act ended es)) \<longleftrightarrow>
    t \<in> covered ended \<or> fst (pause_scan act ended (takeWhile (\<lambda>e. te_at e \<le> t) es)) \<noteq> []"
proof (induction es arbitrary: act ended)
  case Nil
  then show ?case by (cases act) (auto simp: all_intervals_def mem_covered)
next
  case (Cons e es)
  show ?case
  proof (cases "te_at e \<le> t")
    case False
    then have "\<forall>f\<in>set (e # es). t < te_at f" using Cons.prems(1) by auto
    from scan_after[OF this Cons.prems(2,3), of ended] show ?thesis
      using False Cons.prems(4) by (cases act) auto
  next
    case True
    have tw: "takeWhile (\<lambda>e. te_at e \<le> t) (e # es) = e # takeWhile (\<lambda>e. te_at e \<le> t) es" using True by simp
    note IH = Cons.IH[OF _ Cons.prems(2)]
    have so: "sorted (map te_at es)" using Cons.prems(1) by simp
    let ?es = "takeWhile (\<lambda>e. te_at e \<le> t) es"
    consider "approval_of e = None" | k where "approval_of e = Some k" by (cases "approval_of e") auto
    then show ?thesis
    proof cases
      case 1
      then show ?thesis using IH[OF so Cons.prems(3,4)] unfolding tw by simp
    next
      case (2 k)
      have app: "\<forall>p\<in>set (act @ [(k, te_at e)]). snd p \<le> t" using Cons.prems(4) True by auto
      have fil: "\<forall>p\<in>set (filter (\<lambda>p. fst p \<noteq> k) act). snd p \<le> t" using Cons.prems(4) by auto
      show ?thesis
      proof (cases "map_of act k")
        case None
        show ?thesis using 2 None IH[OF so Cons.prems(3,4)] IH[OF so distinct_open[OF Cons.prems(3) None] app]
          unfolding tw by simp
      next
        case (Some s)
        have "t \<notin> {s..<te_at e}" using True by simp
        then show ?thesis using 2 Some IH[OF so Cons.prems(3,4)]
            IH[OF so distinct_closed[OF Cons.prems(3), of "\<lambda>p. fst p \<noteq> k"] fil, of "ended @ [(s, te_at e)]"]
          unfolding tw by auto
      qed
    qed
  qed
qed

section \<open>Properties\<close>

lemma pauses_are_pending: "t < completed \<Longrightarrow> t \<in> covered (pause_intervals r completed es) \<longleftrightarrow> pending_at t (turn_events r es)"
  using scan_during[of "turn_events r es" t completed "[]" "[]"]
  by (simp add: pause_intervals_def pending_iff_scan all_intervals_def turn_events_def case_prod_beta)

text \<open>
  C38: The time of a turn is split in two: it is paused in exactly the milliseconds at which some approval had been asked for by an
  event of the turn and not been resolved by a later one, however the requests overlap, and it works in exactly the others. Only events that
  carry the request id of the turn count, for the request as for the resolution.
\<close>

theorem turn_time_is_split:
  "tt_pausedMs (calculateTurnTiming r s c es) = int (card {t. s \<le> t \<and> t < c \<and> pending_at t (turn_events r es)}) \<and>
   tt_elapsedMs (calculateTurnTiming r s c es) = int (card {t. s \<le> t \<and> t < c \<and> \<not> pending_at t (turn_events r es)}) \<and>
   tt_wallMs (calculateTurnTiming r s c es) =
     tt_pausedMs (calculateTurnTiming r s c es) + tt_elapsedMs (calculateTurnTiming r s c es)"
proof -
  let ?P = "{t. s \<le> t \<and> t < c \<and> pending_at t (turn_events r es)}"
  let ?N = "{t. s \<le> t \<and> t < c \<and> \<not> pending_at t (turn_events r es)}"
  have m: "mergedIntervalDuration (pause_intervals r c es) s c = int (card ?P)"
    unfolding merged_is_measure by (rule arg_cong[where f = "\<lambda>A. int (card A)"]) (auto simp: pauses_are_pending)
  have fin: "finite {t. s \<le> t \<and> t < c \<and> Q t}" for Q by (rule finite_subset[of _ "{s..<c}"]) auto
  have "?P \<union> ?N = {s..<c}" by auto
  moreover have "card (?P \<union> ?N) = card ?P + card ?N"
    by (rule card_Un_disjoint) (rule fin, rule fin, blast)
  ultimately have "card {s..<c} = card ?P + card ?N" by simp
  then have w: "clampDuration (c - s) = int (card ?P) + int (card ?N)" unfolding card_int[symmetric] by (simp only: of_nat_add)
  have "calculateTurnTiming r s c es = \<lparr>tt_startedAtMs = s, tt_completedAtMs = c, tt_wallMs = int (card ?P) + int (card ?N),
      tt_pausedMs = int (card ?P), tt_elapsedMs = int (card ?N)\<rparr>"
    unfolding calculateTurnTiming_def Let_def m w by simp
  then show ?thesis by simp
qed

text \<open>Two approvals that overlap, one resolution that belongs to another turn, and one approval that is resolved twice.\<close>

definition sample_approval :: "string \<Rightarrow> string \<Rightarrow> string \<Rightarrow> int \<Rightarrow> timing_event" where
  "sample_approval r kind k t = \<lparr>te_type = ''leader.approval_'' @ kind, te_requestId = Some r, te_at = t, te_payload = [(''approvalId'', JStr k)]\<rparr>"

definition overlapping_approvals :: "timing_event list" where
  "overlapping_approvals = [sample_approval ''q1'' ''requested'' ''a1'' 10, sample_approval ''q1'' ''requested'' ''a2'' 20,
     sample_approval ''q2'' ''resolved'' ''a2'' 25, sample_approval ''q1'' ''resolved'' ''a1'' 30, sample_approval ''q1'' ''resolved'' ''a2'' 50,
     sample_approval ''q1'' ''resolved'' ''a1'' 60]"

theorem turn_time_is_split_witness:
  "card {t. 0 \<le> t \<and> t < 100 \<and> pending_at t (turn_events ''q1'' overlapping_approvals)} = 40
   \<and> card {t. 0 \<le> t \<and> t < 100 \<and> \<not> pending_at t (turn_events ''q1'' overlapping_approvals)} = 60"
proof -
  have "tt_pausedMs (calculateTurnTiming ''q1'' 0 100 overlapping_approvals) = 40
     \<and> tt_elapsedMs (calculateTurnTiming ''q1'' 0 100 overlapping_approvals) = 60"
    by code_simp
  then show ?thesis using turn_time_is_split [of "''q1''" 0 100 overlapping_approvals] by simp
qed

text \<open>
  The resolution that the web's approval service stores carries no request id (\<open>approval-service.ts\<close>), so it is not an
  event of the turn, and the pause lasts until the end of the turn.
\<close>

lemma unstamped_resolution_is_lost:
  assumes "te_type a = ''leader.approval_requested''" "te_requestId a = Some r" "approval_of a = Some k"
    and "te_requestId b = None" "s \<le> te_at a" "te_at a \<le> c"
  shows "tt_pausedMs (calculateTurnTiming r s c [a, b]) = c - te_at a"
proof -
  have i: "pause_intervals r c [a, b] = [(te_at a, c)]"
    using assms by (simp add: pause_intervals_def turn_events_def)
  have "{t. s \<le> t \<and> t < c \<and> t \<in> covered [(te_at a, c)]} = {te_at a..<c}" using assms(5) by auto
  then show ?thesis using assms(5,6)
    by (simp add: calculateTurnTiming_def Let_def i merged_is_measure clampDuration_def)
qed

end
