(* ===== verification/Doom_Loop.thy ===== *)
theory Doom_Loop
  imports Js_Prelude
begin

text \<open>
  The doom-loop detector of the autonomous loop
  (\<open>apps/api/src/services/manager-automation/autonomous-loop/doom-loop-detector.ts\<close>): a sliding
  window of the last 20 tool-call fingerprints; a call whose fingerprint fills at least three places
  of the window is reported. The MD5 digest in hexadecimal (\<open>createHash\<close> of Node's \<open>crypto\<close>) is the
  parameter \<open>md5\<close>; no property needs it to be injective.
\<close>

definition WINDOW_SIZE :: nat where "WINDOW_SIZE = 20"

definition REPEAT_THRESHOLD :: nat where "REPEAT_THRESHOLD = 3"

record doom_result =
  isDoomLoop :: bool
  fingerprint_of :: string
  repeat_count :: nat
  warningMessage :: "string option"

type_synonym doom_window = "string list"

text \<open>\<open>toolArgs ?? {}\<close>: an absent argument is \<open>JNull\<close>.\<close>

definition doom_fingerprint :: "(string \<Rightarrow> string) \<Rightarrow> string \<Rightarrow> json \<Rightarrow> string" where
  "doom_fingerprint md5 toolName toolArgs =
     take 16 (md5 (toolName @ json_stringify (if toolArgs = JNull then JObj [] else toolArgs)))"

definition getWarningMessage :: "string \<Rightarrow> nat \<Rightarrow> string" where
  "getWarningMessage toolName n =
     ''Doom loop detected: tool \"'' @ toolName @ ''\" called '' @ show_nat n @
     '' times with identical arguments. Breaking loop.''"

definition doom_record ::
  "(string \<Rightarrow> string) \<Rightarrow> doom_window \<Rightarrow> string \<Rightarrow> json \<Rightarrow> doom_result \<times> doom_window" where
  "doom_record md5 w toolName toolArgs =
     (let fp = doom_fingerprint md5 toolName toolArgs;
          w1 = w @ [fp];
          w2 = (if length w1 > WINDOW_SIZE then lastn WINDOW_SIZE w1 else w1);
          n = length (filter (\<lambda>f. f = fp) w2)
      in if n \<ge> REPEAT_THRESHOLD
         then (\<lparr>isDoomLoop = True, fingerprint_of = fp, repeat_count = n,
                warningMessage = Some (getWarningMessage toolName n)\<rparr>, w2)
         else (\<lparr>isDoomLoop = False, fingerprint_of = fp, repeat_count = n,
                warningMessage = None\<rparr>, w2))"

definition doom_reset :: "doom_window \<Rightarrow> doom_window" where
  "doom_reset w = []"

text \<open>A snapshot is a copy of the window; \<open>None\<close> is a snapshot object without a \<open>window\<close>.\<close>

definition doom_snapshot :: "doom_window \<Rightarrow> string list option" where
  "doom_snapshot w = Some w"

definition doom_restore :: "doom_window \<Rightarrow> string list option \<Rightarrow> doom_window" where
  "doom_restore w snap = (case snap of None \<Rightarrow> [] | Some xs \<Rightarrow> xs)"

text \<open>A run of the detector over a sequence of tool calls.\<close>

fun doom_run :: "(string \<Rightarrow> string) \<Rightarrow> doom_window \<Rightarrow> (string \<times> json) list \<Rightarrow> doom_window" where
  "doom_run md5 w [] = w"
| "doom_run md5 w ((t, a) # calls) = doom_run md5 (snd (doom_record md5 w t a)) calls"

abbreviation call_fp :: "(string \<Rightarrow> string) \<Rightarrow> string \<times> json \<Rightarrow> string" where
  "call_fp md5 c \<equiv> doom_fingerprint md5 (fst c) (snd c)"

section \<open>The window is the suffix of the call history\<close>

lemma doom_record_window:
  "snd (doom_record md5 w t a) = lastn WINDOW_SIZE (w @ [doom_fingerprint md5 t a])"
  by (auto simp: doom_record_def Let_def)

lemma doom_record_count:
  "repeat_count (fst (doom_record md5 w t a)) =
     count_list (lastn WINDOW_SIZE (w @ [doom_fingerprint md5 t a])) (doom_fingerprint md5 t a)"
  by (auto simp: doom_record_def Let_def length_filter_eq_count)

lemma doom_record_flag:
  "isDoomLoop (fst (doom_record md5 w t a)) \<longleftrightarrow>
     REPEAT_THRESHOLD \<le> repeat_count (fst (doom_record md5 w t a))"
  by (auto simp: doom_record_def Let_def)

lemma doom_run_window:
  "doom_run md5 (lastn WINDOW_SIZE w) calls = lastn WINDOW_SIZE (w @ map (call_fp md5) calls)"
proof (induction calls arbitrary: w)
  case Nil
  then show ?case by simp
next
  case (Cons c calls)
  obtain t a where c: "c = (t, a)" by (cases c)
  have "doom_run md5 (lastn WINDOW_SIZE w) (c # calls) =
      doom_run md5 (lastn WINDOW_SIZE (lastn WINDOW_SIZE w @ [doom_fingerprint md5 t a])) calls"
    by (simp add: c doom_record_window)
  also have "\<dots> = doom_run md5 (lastn WINDOW_SIZE (w @ [doom_fingerprint md5 t a])) calls"
    by (simp add: lastn_lastn_snoc WINDOW_SIZE_def)
  also have "\<dots> = lastn WINDOW_SIZE ((w @ [doom_fingerprint md5 t a]) @ map (call_fp md5) calls)"
    by (rule Cons.IH)
  finally show ?case by (simp add: c)
qed

corollary doom_run_from_reset:
  "doom_run md5 (doom_reset w) calls = lastn WINDOW_SIZE (map (call_fp md5) calls)"
  using doom_run_window [of md5 "[]" calls] by (simp add: doom_reset_def)

text \<open>
  After any sequence of tool calls since the last reset, the next call is reported as a doom loop
  exactly when its fingerprint occurs at least three times among the last twenty calls, the new one
  included. The detector's incremental window is equivalent to that reading of the whole history.
\<close>

theorem doom_loop_exact:
  "isDoomLoop (fst (doom_record md5 (doom_run md5 (doom_reset w) calls) t a)) \<longleftrightarrow>
     3 \<le> count_list (lastn 20 (map (call_fp md5) (calls @ [(t, a)]))) (doom_fingerprint md5 t a)"
  by (simp add: doom_record_flag doom_record_count doom_run_from_reset lastn_lastn_snoc
      WINDOW_SIZE_def REPEAT_THRESHOLD_def)

end
