(* ===== verification/Sensitive_Paths.thy ===== *)
theory Sensitive_Paths
  imports Js_Regex
begin

text \<open>
  The detector of Magister-internal paths in shell command text
  (\<open>apps/api/src/services/safe-apply/sensitive-internal-paths.ts\<close>): four named patterns, tried in the
  order of the table.
\<close>

definition bash_boundary_chars :: string where
  "bash_boundary_chars = [CHR 0x27, CHR 0x22, CHR 0x60] @ '';|&<>()''"

text \<open>\<open>(^|[\s/'"`=;|&<>()])\<close>\<close>

definition BASH_BOUNDARY_BEFORE :: rx where
  "BASH_BOUNDARY_BEFORE = Alt Bol (Cls (\<lambda>c. is_ws c \<or> c \<in> set (''/='' @ bash_boundary_chars)))"

text \<open>\<open>([\s'"`/;|&<>()]|$)\<close>\<close>

definition BASH_BOUNDARY_AFTER :: rx where
  "BASH_BOUNDARY_AFTER = Alt (Cls (\<lambda>c. is_ws c \<or> c \<in> set (''/'' @ bash_boundary_chars))) Eol"

text \<open>\<open>(\/|$|[\s'"`;|&<>()])\<close>\<close>

definition dir_boundary_after :: rx where
  "dir_boundary_after = alts [lit ''/'', Eol, Cls (\<lambda>c. is_ws c \<or> c \<in> set bash_boundary_chars)]"

definition env_template_suffix :: rx where
  "env_template_suffix =
     Seq (alts [lit ''example'', lit ''template'', lit ''sample'', lit ''dist'']) BASH_BOUNDARY_AFTER"

definition env_name_char :: rx where
  "env_name_char = Cls (\<lambda>c. \<not> is_ws c \<and> c \<notin> set (''/'' @ bash_boundary_chars))"

definition SENSITIVE_INTERNAL_PATTERNS :: "(string \<times> rx) list" where
  "SENSITIVE_INTERNAL_PATTERNS =
    [(''.local'', seqs [BASH_BOUNDARY_BEFORE, lit ''.local'', dir_boundary_after]),
     (''.magister'', seqs [BASH_BOUNDARY_BEFORE, lit ''.magister'', dir_boundary_after]),
     (''config/secrets.json'',
        seqs [BASH_BOUNDARY_BEFORE, lit ''config/secrets.json'', BASH_BOUNDARY_AFTER]),
     (''.env'',
        seqs [BASH_BOUNDARY_BEFORE, lit ''.env'',
              opt (seqs [lit ''.'', NegLook env_template_suffix, plus env_name_char]),
              BASH_BOUNDARY_AFTER])]"

fun first_match :: "(string \<times> rx) list \<Rightarrow> string \<Rightarrow> string option" where
  "first_match [] s = None"
| "first_match ((name, pattern) # ps) s = (if rx_test pattern s then Some name else first_match ps s)"

definition findSensitiveInternalPathMatch :: "string \<Rightarrow> string option" where
  "findSensitiveInternalPathMatch command = first_match SENSITIVE_INTERNAL_PATTERNS command"

definition listSensitiveInternalPathMatches :: "string \<Rightarrow> string list" where
  "listSensitiveInternalPathMatches command =
     map fst (filter (\<lambda>(name, pattern). rx_test pattern command) SENSITIVE_INTERNAL_PATTERNS)"

definition hasSensitiveInternalPath :: "string \<Rightarrow> bool" where
  "hasSensitiveInternalPath command = (findSensitiveInternalPathMatch command \<noteq> None)"

lemma first_match_hd:
  "first_match ps s = (case map fst (filter (\<lambda>(name, pattern). rx_test pattern s) ps) of
     [] \<Rightarrow> None | n # _ \<Rightarrow> Some n)"
  by (induction ps s rule: first_match.induct) auto

lemma first_match_None_iff: "first_match ps s = None \<longleftrightarrow> (\<forall>(n, r) \<in> set ps. \<not> rx_test r s)"
  by (induction ps s rule: first_match.induct) auto

text \<open>The single answer is the first of the listed answers.\<close>

lemma find_is_first_listed:
  "findSensitiveInternalPathMatch s =
     (case listSensitiveInternalPathMatches s of [] \<Rightarrow> None | n # _ \<Rightarrow> Some n)"
  by (simp add: findSensitiveInternalPathMatch_def listSensitiveInternalPathMatches_def first_match_hd)

lemma hasSensitive_iff:
  "hasSensitiveInternalPath s \<longleftrightarrow> listSensitiveInternalPathMatches s \<noteq> []"
  by (auto simp: hasSensitiveInternalPath_def find_is_first_listed split: list.splits)

end
