(* ===== verification/Risk_Classifier.thy ===== *)
theory Risk_Classifier
  imports Sensitive_Paths
begin

text \<open>
  The risk classifier of tool calls (\<open>apps/api/src/services/safe-apply/risk-classifier.ts\<close>): the
  lethal patterns, the quote-aware scanner of read-only shell commands, and \<open>scoreToolCall\<close>.
\<close>

datatype risk_class = LOW | MEDIUM | HIGH | CRITICAL

definition LOW_RISK_TOOLS :: "string list" where
  "LOW_RISK_TOOLS = [''read_file'', ''list_dir'', ''grep'', ''time_now'', ''web_search'',
     ''web_fetch'', ''repo_structure'', ''mcp_list_resources'', ''mcp_read_resource'']"

section \<open>Lethal patterns\<close>

definition option_char :: rx where
  "option_char = Cls (\<lambda>c. is_word c \<or> c = CHR ''-'')"

text \<open>\<open>(?:-[\w-]+|--[\w-]+)\<close>\<close>

definition option_token :: rx where
  "option_token = Alt (Seq (lit ''-'') (plus option_char)) (Seq (lit ''--'') (plus option_char))"

definition RM_RF_OPTS :: rx where
  "RM_RF_OPTS = seqs [lit ''rm'', plus ws,
     alts [seqs [lit ''-'', plus (one_of ''rRf''), WordB], lit ''--no-preserve-root'',
           Seq (lit ''--'') WordB],
     Star (Seq (plus ws) option_token), plus ws]"

definition BLOCK_DEV :: rx where
  "BLOCK_DEV = alts [Seq (lit ''sd'') lower, Seq (lit ''nvme'') (plus word), Seq (lit ''hd'') lower,
     Seq (lit ''vd'') lower, Seq (lit ''xvd'') lower, Seq (lit ''mmcblk'') (plus digit),
     Seq (lit ''loop'') (Star digit), Seq (lit ''dm-'') (plus digit), Seq (lit ''md'') (plus digit),
     lit ''disk'']"

definition ws_or_end :: rx where "ws_or_end = Alt ws Eol"

definition not_newline :: rx where "not_newline = none_of [CHR 0x0A]"

text \<open>
  The target \<open>(["']?)\/+\.?\1(\s|$)\<close> of the long-form \<open>rm\<close> pattern: its group holds one quote or
  nothing, so the back-reference is written out as three alternatives, in the order tried.
\<close>

definition root_target :: rx where
  "root_target = alts (map (\<lambda>q. seqs [lit q, plus (lit ''/''), opt (lit ''.''), lit q, ws_or_end])
     [[CHR 0x22], [CHR 0x27], []])"

text \<open>\<open>(?:^|[\n;|&]|\bsudo\s+)\s*\<close>\<close>

definition command_position :: rx where
  "command_position =
     Seq (alts [Bol, one_of (CHR 0x0A # '';|&''), seqs [WordB, lit ''sudo'', plus ws]]) (Star ws)"

definition LETHAL_PATTERNS :: "(rx \<times> string) list" where
  "LETHAL_PATTERNS =
    [(seqs [WordB, RM_RF_OPTS, lit ''/'', ws_or_end], ''rm -rf /''),
     (seqs [WordB, RM_RF_OPTS, lit ''/*'', ws_or_end], ''rm -rf /*''),
     (seqs [WordB, RM_RF_OPTS, lit ''~'', ws_or_end], ''rm -rf ~''),
     (seqs [WordB, RM_RF_OPTS, lit ''$HOME'', ws_or_end], ''rm -rf $HOME''),
     (seqs [WordB, lit ''rm'', plus ws,
        Look (Seq (Star not_newline)
          (Alt (seqs [lit ''-'', Star (Cls (\<lambda>c. is_lower c \<or> is_upper c)), lit ''r''])
               (lit ''--recursive''))),
        LazyStar not_newline, ws, root_target], ''rm -r /''),
     (seqs [WordB, lit ''mkfs'', opt (Seq (lit ''.'') (plus word)), plus ws,
        Star (seqs [option_token, opt (Seq (plus ws) (plus non_ws)), plus ws]),
        lit ''/dev/'', BLOCK_DEV], ''mkfs on /dev device''),
     (seqs [WordB, lit ''dd'', plus ws, opt (Seq (Star (none_of ''|'')) ws), lit ''of=/dev/'',
        BLOCK_DEV], ''dd to block device''),
     (seqs [rep 1 2 (lit ''>''), Star ws, lit ''/dev/'', BLOCK_DEV, WordB],
        ''redirect overwrite of block device''),
     (seqs [lit '':()'', Star ws, lit ''{'', Star ws, lit '':'', Star ws, lit ''|'', Star ws,
        lit '':'', Star ws, lit ''&'', Star ws, lit ''}'', Star ws, lit '';'', Star ws, lit '':''],
        ''fork bomb''),
     (seqs [WordB, lit ''chmod'', plus ws, opt (Seq (lit ''-R'') (plus ws)),
        rep 3 4 (one_of ''01234567''), plus ws, lit ''/'', ws_or_end], ''chmod <mode> /''),
     (seqs [command_position, alts [lit ''shutdown'', lit ''reboot'', lit ''poweroff'', lit ''halt''],
        WordB], ''shutdown/reboot host''),
     (seqs [command_position, lit ''init'', plus ws, one_of ''06'', WordB], ''init 0/6 (halt/reboot)''),
     (seqs [Alt (lit ''curl'') (lit ''wget''), plus ws, Star (none_of ''|''), lit ''|'', Star ws,
        lit ''sudo'', plus ws, alts [lit ''bash'', lit ''sh'', lit ''zsh'', lit ''fish'']],
        ''remote script piped to sudo shell'')]"

fun first_lethal :: "(rx \<times> string) list \<Rightarrow> string \<Rightarrow> string option" where
  "first_lethal [] command = None"
| "first_lethal ((pattern, label) # ps) command =
     (if rx_test pattern command then Some label else first_lethal ps command)"

section \<open>Read-only shell commands\<close>

definition READ_ONLY_FIRST_TOKENS :: "string list" where
  "READ_ONLY_FIRST_TOKENS =
    [''ls'', ''cat'', ''head'', ''tail'', ''wc'', ''file'', ''stat'', ''du'', ''df'', ''tree'',
     ''ps'', ''ss'', ''lsof'', ''netstat'', ''top'', ''uptime'', ''free'',
     ''whoami'', ''id'', ''hostname'', ''pwd'', ''uname'', ''date'',
     ''env'', ''printenv'', ''which'', ''type'', ''command'', ''echo'', ''printf'',
     ''grep'', ''egrep'', ''fgrep'', ''rg'']"

definition READ_ONLY_GIT_SUBCOMMANDS :: "string list" where
  "READ_ONLY_GIT_SUBCOMMANDS =
    [''status'', ''log'', ''diff'', ''show'', ''branch'', ''remote'', ''ls-files'', ''blame'',
     ''rev-parse'', ''describe'', ''tag'', ''stash'', ''config'', ''shortlog'', ''name-rev'',
     ''for-each-ref'', ''ls-tree'']"

definition git_write_flags :: "string list" where
  "git_write_flags = [''--set'', ''--add'', ''--unset'', ''--unset-all'', ''--replace-all'',
     ''--rename-section'', ''--remove-section'']"

definition isReadOnlySegment :: "string \<Rightarrow> bool" where
  "isReadOnlySegment segment =
     (case ws_words segment of
        [] \<Rightarrow> False
      | head # rest \<Rightarrow>
          if head = ''find'' then
            \<not> list_ex (\<lambda>t. t = ''-delete'' \<or> t = ''-exec'' \<or> t = ''-execdir'' \<or> t = ''-ok'' \<or> t = ''-okdir'') rest
          else if head = ''git'' then
            (case rest of
               [] \<Rightarrow> True
             | sub # more \<Rightarrow>
                 if sub \<notin> set READ_ONLY_GIT_SUBCOMMANDS then False
                 else if sub = ''config'' \<and> list_ex (\<lambda>t. t \<in> set git_write_flags) rest then False
                 else if sub = ''stash'' then
                   (case more of [] \<Rightarrow> False | subsub # _ \<Rightarrow> subsub \<in> set [''list'', ''show''])
                 else True)
          else if head = ''curl'' \<or> head = ''wget'' then
            list_ex (\<lambda>t. t = ''-I'' \<or> t = ''--head'') rest
          else head \<in> set READ_ONLY_FIRST_TOKENS)"

text \<open>
  The scanner's loop: \<open>sq\<close>, \<open>dq\<close>, \<open>esc\<close> are \<open>inSingle\<close>, \<open>inDouble\<close>, \<open>escaped\<close>; \<open>buf\<close> is the current
  segment, reversed, and \<open>segs\<close> the finished ones, last first. \<open>None\<close> is the early \<open>return false\<close>.
\<close>

fun ro_scan :: "bool \<Rightarrow> bool \<Rightarrow> bool \<Rightarrow> string \<Rightarrow> string list \<Rightarrow> string \<Rightarrow> string list option" where
  "ro_scan sq dq esc buf segs [] = (if sq \<or> dq then None else Some (rev (rev buf # segs)))"
| "ro_scan sq dq esc buf segs (c # cs) =
     (let next = (case cs of [] \<Rightarrow> None | d # _ \<Rightarrow> Some d)
      in if esc then ro_scan sq dq False (c # buf) segs cs
         else if c = CHR 0x5C \<and> \<not> sq then ro_scan sq dq True (c # buf) segs cs
         else if c = CHR 0x27 \<and> \<not> dq then ro_scan (\<not> sq) dq False (c # buf) segs cs
         else if c = CHR 0x22 \<and> \<not> sq then ro_scan sq (\<not> dq) False (c # buf) segs cs
         else if sq \<or> dq then ro_scan sq dq False (c # buf) segs cs
         else if c = CHR '';'' \<or> c = CHR ''<'' \<or> c = CHR ''>'' \<or> c = CHR 0x60 \<or> c = CHR 0x0A then None
         else if c = CHR ''&'' \<and> next = Some (CHR ''&'') then None
         else if c = CHR ''|'' \<and> next = Some (CHR ''|'') then None
         else if c = CHR ''$'' \<and> (next = Some (CHR ''('') \<or> next = Some (CHR ''{'')) then None
         else if c = CHR ''|'' then ro_scan sq dq False [] (rev buf # segs) cs
         else ro_scan sq dq False (c # buf) segs cs)"

definition isPureReadOnlyBash :: "string \<Rightarrow> bool" where
  "isPureReadOnlyBash command =
     (case ro_scan False False False [] [] command of
        None \<Rightarrow> False
      | Some segments \<Rightarrow>
          let cleanSegments = filter (\<lambda>s. s \<noteq> []) (map js_trim segments)
          in if cleanSegments = [] then False else list_all isReadOnlySegment cleanSegments)"

section \<open>\<open>scoreToolCall\<close>\<close>

record score_result =
  riskClass :: risk_class
  lethalLabel :: "string option"
  score_reason :: string

definition arg_command :: "(string \<times> json) list \<Rightarrow> string" where
  "arg_command args = (case obj_get args ''command'' of Some (JStr s) \<Rightarrow> s | _ \<Rightarrow> [])"

definition requests_escalation :: "(string \<times> json) list \<Rightarrow> bool" where
  "requests_escalation args = (obj_get args ''sandbox_permissions'' = Some (JStr ''require_escalated''))"

definition requests_additional :: "(string \<times> json) list \<Rightarrow> bool" where
  "requests_additional args =
     (obj_get args ''sandbox_permissions'' = Some (JStr ''with_additional_permissions''))"

definition scoreToolCall :: "string \<Rightarrow> (string \<times> json) list \<Rightarrow> score_result" where
  "scoreToolCall toolName args =
     (if toolName \<in> set LOW_RISK_TOOLS
      then \<lparr>riskClass = LOW, lethalLabel = None, score_reason = ''read-only tool''\<rparr>
      else if toolName = ''bash'' then
        (let command = arg_command args
         in case first_lethal LETHAL_PATTERNS command of
              Some label \<Rightarrow> \<lparr>riskClass = CRITICAL, lethalLabel = Some label,
                             score_reason = ''lethal pattern: '' @ label\<rparr>
            | None \<Rightarrow>
                if hasSensitiveInternalPath command \<and> isPureReadOnlyBash command
                then \<lparr>riskClass = HIGH, lethalLabel = None,
                      score_reason = ''sensitive internal path read requires approval''\<rparr>
                else if isPureReadOnlyBash command
                then \<lparr>riskClass = LOW, lethalLabel = None, score_reason = ''read-only bash command''\<rparr>
                else if requests_escalation args \<or> requests_additional args
                then \<lparr>riskClass = HIGH, lethalLabel = None,
                      score_reason = (if requests_escalation args then ''model requested escalation''
                        else ''model requested additional sandbox permissions'')\<rparr>
                else \<lparr>riskClass = MEDIUM, lethalLabel = None, score_reason = ''default sandboxed bash''\<rparr>)
      else if toolName = ''spawn_teammate''
      then \<lparr>riskClass = HIGH, lethalLabel = None,
            score_reason = ''spawn_teammate creates a child runtime''\<rparr>
      else \<lparr>riskClass = MEDIUM, lethalLabel = None, score_reason = ''default classification''\<rparr>)"

section \<open>What the scanner guarantees\<close>

text \<open>
  The shell's quoting, read off the prefix of the command: whether the next code unit is inside single
  quotes, inside double quotes, or escaped.
\<close>

fun quote_step :: "bool \<times> bool \<times> bool \<Rightarrow> char \<Rightarrow> bool \<times> bool \<times> bool" where
  "quote_step (sq, dq, esc) c =
     (if esc then (sq, dq, False)
      else if c = CHR 0x5C \<and> \<not> sq then (sq, dq, True)
      else if c = CHR 0x27 \<and> \<not> dq then (\<not> sq, dq, False)
      else if c = CHR 0x22 \<and> \<not> sq then (sq, \<not> dq, False)
      else (sq, dq, False))"

definition unquoted_after :: "string \<Rightarrow> bool" where
  "unquoted_after u = (foldl quote_step (False, False, False) u = (False, False, False))"

text \<open>A compound construct of the shell that starts at a code unit followed by \<open>rest\<close>.\<close>

definition compound_at :: "char \<Rightarrow> string \<Rightarrow> bool" where
  "compound_at c rest =
     (c \<in> set ([CHR 0x60, CHR 0x0A] @ '';<>'')
      \<or> (c = CHR ''&'' \<and> next_char rest = Some (CHR ''&''))
      \<or> (c = CHR ''|'' \<and> next_char rest = Some (CHR ''|''))
      \<or> (c = CHR ''$'' \<and> next_char rest \<in> {Some (CHR ''(''), Some (CHR ''{'')}))"

lemma js_join_Cons: "ys \<noteq> [] \<Longrightarrow> js_join sep (x # ys) = x @ sep @ js_join sep ys"
  by (cases ys) auto

text \<open>One iteration of the loop that does not return early.\<close>

lemma ro_scan_step:
  assumes "ro_scan sq dq esc buf segs (c # cs) = Some out"
  obtains sq' dq' esc' where
    "quote_step (sq, dq, esc) c = (sq', dq', esc')"
    "\<not> (\<not> sq \<and> \<not> dq \<and> \<not> esc \<and> compound_at c cs)"
    "ro_scan sq' dq' esc' (c # buf) segs cs = Some out \<or>
       c = CHR ''|'' \<and> ro_scan sq' dq' esc' [] (rev buf # segs) cs = Some out"
proof -
  obtain sq' dq' esc' where q: "quote_step (sq, dq, esc) c = (sq', dq', esc')"
    by (metis prod.exhaust)
  have nxt: "(case cs of [] \<Rightarrow> None | d # _ \<Rightarrow> Some d) = next_char cs"
    by (simp add: next_char_def)
  have "\<not> (\<not> sq \<and> \<not> dq \<and> \<not> esc \<and> compound_at c cs)"
    using assms by (auto simp: Let_def nxt compound_at_def split: if_splits)
  moreover have "ro_scan sq' dq' esc' (c # buf) segs cs = Some out \<or>
       c = CHR ''|'' \<and> ro_scan sq' dq' esc' [] (rev buf # segs) cs = Some out"
    using assms q by (auto simp: Let_def nxt split: if_splits)
  ultimately show ?thesis using that q by blast
qed

lemma ro_scan_segments:
  "ro_scan sq dq esc buf segs s = Some out \<Longrightarrow>
     \<exists>tl. out = rev segs @ tl \<and> tl \<noteq> [] \<and> js_join ''|'' tl = rev buf @ s"
proof (induction s arbitrary: sq dq esc buf segs)
  case Nil
  then show ?case by (auto split: if_splits)
next
  case (Cons c cs)
  from Cons.prems show ?case
  proof (rule ro_scan_step)
    fix sq' dq' esc'
    assume "ro_scan sq' dq' esc' (c # buf) segs cs = Some out \<or>
       c = CHR ''|'' \<and> ro_scan sq' dq' esc' [] (rev buf # segs) cs = Some out"
    then show ?thesis
    proof
      assume "ro_scan sq' dq' esc' (c # buf) segs cs = Some out"
      from Cons.IH [OF this] show ?thesis by simp
    next
      assume *: "c = CHR ''|'' \<and> ro_scan sq' dq' esc' [] (rev buf # segs) cs = Some out"
      then obtain tl where "out = rev (rev buf # segs) @ tl" "tl \<noteq> []" "js_join ''|'' tl = cs"
        using Cons.IH [of sq' dq' esc' "[]" "rev buf # segs"] by auto
      then have "out = rev segs @ (rev buf # tl)" "js_join ''|'' (rev buf # tl) = rev buf @ c # cs"
        using * by (simp_all add: js_join_Cons)
      then show ?thesis by blast
    qed
  qed
qed

lemma ro_scan_no_compound:
  "ro_scan sq dq esc buf segs s = Some out \<Longrightarrow> s = u @ c # v \<Longrightarrow>
     foldl quote_step (sq, dq, esc) u = (False, False, False) \<Longrightarrow> \<not> compound_at c v"
proof (induction u arbitrary: sq dq esc buf segs s)
  case Nil
  then have "ro_scan sq dq esc buf segs (c # v) = Some out" by (simp del: ro_scan.simps)
  moreover have "(sq, dq, esc) = (False, False, False)" using Nil.prems by simp
  ultimately show ?case by (auto elim: ro_scan_step simp del: ro_scan.simps)
next
  case (Cons d u)
  then have "ro_scan sq dq esc buf segs (d # u @ c # v) = Some out"
    by (simp del: ro_scan.simps)
  then show ?case
  proof (rule ro_scan_step)
    fix sq' dq' esc'
    assume q: "quote_step (sq, dq, esc) d = (sq', dq', esc')"
      and or: "ro_scan sq' dq' esc' (d # buf) segs (u @ c # v) = Some out \<or>
       d = CHR ''|'' \<and> ro_scan sq' dq' esc' [] (rev buf # segs) (u @ c # v) = Some out"
    from q Cons.prems(3) have f: "foldl quote_step (sq', dq', esc') u = (False, False, False)"
      by (simp del: quote_step.simps)
    from or show ?thesis
    proof (elim disjE conjE)
      assume "ro_scan sq' dq' esc' (d # buf) segs (u @ c # v) = Some out"
      then show ?thesis by (rule Cons.IH [OF _ refl f])
    next
      assume "ro_scan sq' dq' esc' [] (rev buf # segs) (u @ c # v) = Some out"
      then show ?thesis by (rule Cons.IH [OF _ refl f])
    qed
  qed
qed

text \<open>
  The pieces of a pipeline, read off the command text alone: \<open>w\<close> lies between two pipes that are outside quotes (or an end of the
  command), and no pipe in it is outside quotes. \<open>q\<close> is the quoting before the text.
\<close>

definition plain_state :: "bool \<times> bool \<times> bool" where "plain_state = (False, False, False)"

definition starts_piece :: "bool \<times> bool \<times> bool \<Rightarrow> string \<Rightarrow> bool" where
  "starts_piece q u \<longleftrightarrow> u = [] \<or> (\<exists>x. u = x @ ''|'' \<and> foldl quote_step q x = plain_state)"

definition ends_piece :: "bool \<times> bool \<times> bool \<Rightarrow> string \<Rightarrow> string \<Rightarrow> bool" where
  "ends_piece q u v \<longleftrightarrow> v = [] \<or> (\<exists>y. v = ''|'' @ y \<and> foldl quote_step q u = plain_state)"

definition no_pipe_inside :: "bool \<times> bool \<times> bool \<Rightarrow> string \<Rightarrow> string \<Rightarrow> bool" where
  "no_pipe_inside q u w \<longleftrightarrow> (\<forall>a b. w = a @ ''|'' @ b \<longrightarrow> foldl quote_step q (u @ a) \<noteq> plain_state)"

definition pipeline_piece :: "string \<Rightarrow> string \<Rightarrow> bool" where
  "pipeline_piece s w \<longleftrightarrow> (\<exists>u v. s = u @ w @ v \<and> starts_piece plain_state u \<and> ends_piece plain_state (u @ w) v \<and> no_pipe_inside plain_state u w)"

definition quotes_closed :: "string \<Rightarrow> bool" where
  "quotes_closed s \<longleftrightarrow> (case foldl quote_step plain_state s of (sq, dq, esc) \<Rightarrow> \<not> sq \<and> \<not> dq)"

definition read_only_shape :: "string \<Rightarrow> bool" where
  "read_only_shape s \<longleftrightarrow> quotes_closed s \<and>
     (\<forall>u c v. s = u @ c # v \<longrightarrow> unquoted_after u \<longrightarrow> \<not> compound_at c v) \<and>
     (\<forall>w. pipeline_piece s w \<longrightarrow> js_trim w = [] \<or> isReadOnlySegment (js_trim w))"

lemma ro_scan_next:
  assumes "ro_scan sq dq esc buf segs (c # cs) = Some out"
  obtains q where "quote_step (sq, dq, esc) c = q"
    "if (sq, dq, esc) = plain_state \<and> c = CHR ''|'' then q = plain_state \<and> ro_scan False False False [] (rev buf # segs) cs = Some out
     else ro_scan (fst q) (fst (snd q)) (snd (snd q)) (c # buf) segs cs = Some out"
  using that [OF refl] assms by (auto simp: Let_def plain_state_def split: if_splits)

lemma ro_scan_closed:
  "ro_scan sq dq esc buf segs s = Some out \<Longrightarrow> case foldl quote_step (sq, dq, esc) s of (a, b, x) \<Rightarrow> \<not> a \<and> \<not> b"
proof (induction s arbitrary: sq dq esc buf segs)
  case Nil
  then show ?case by (auto split: if_splits)
next
  case (Cons c cs)
  from Cons.prems obtain q where q: "quote_step (sq, dq, esc) c = q"
    "if (sq, dq, esc) = plain_state \<and> c = CHR ''|'' then q = plain_state \<and> ro_scan False False False [] (rev buf # segs) cs = Some out
     else ro_scan (fst q) (fst (snd q)) (snd (snd q)) (c # buf) segs cs = Some out" by (rule ro_scan_next)
  have "case foldl quote_step q cs of (a, b, x) \<Rightarrow> \<not> a \<and> \<not> b"
  proof (cases "(sq, dq, esc) = plain_state \<and> c = CHR ''|''")
    case True
    then have "ro_scan False False False [] (rev buf # segs) cs = Some out" and "q = plain_state" using q(2) by simp_all
    then show ?thesis using Cons.IH [of False False False "[]" "rev buf # segs"] by (simp add: plain_state_def)
  next
    case False
    then have "ro_scan (fst q) (fst (snd q)) (snd (snd q)) (c # buf) segs cs = Some out" using q(2) by (simp only: if_False)
    from Cons.IH [OF this] show ?thesis by simp
  qed
  then show ?case using q(1) by simp
qed

lemma scanned_segs: "ro_scan sq dq esc buf segs s = Some out \<Longrightarrow> x \<in> set segs \<Longrightarrow> x \<in> set out"
  using ro_scan_segments [of sq dq esc buf segs s out] by auto

text \<open>The scanner finds every piece: the one it is in, which continues \<open>buf\<close>, and every later one.\<close>

lemma first_piece_scanned:
  "ro_scan sq dq esc buf segs s = Some out \<Longrightarrow> s = w @ v \<Longrightarrow> ends_piece (sq, dq, esc) w v \<Longrightarrow> no_pipe_inside (sq, dq, esc) [] w
     \<Longrightarrow> rev buf @ w \<in> set out"
proof (induction s arbitrary: sq dq esc buf segs w)
  case Nil
  then show ?case by (auto split: if_splits)
next
  case (Cons c cs)
  from Cons.prems(1) obtain q where q: "quote_step (sq, dq, esc) c = q"
    "if (sq, dq, esc) = plain_state \<and> c = CHR ''|'' then q = plain_state \<and> ro_scan False False False [] (rev buf # segs) cs = Some out
     else ro_scan (fst q) (fst (snd q)) (snd (snd q)) (c # buf) segs cs = Some out" by (rule ro_scan_next)
  show ?case
  proof (cases w)
    case Nil
    then have "(sq, dq, esc) = plain_state \<and> c = CHR ''|''" using Cons.prems(2,3) by (auto simp: ends_piece_def)
    then have "ro_scan False False False [] (rev buf # segs) cs = Some out" using q(2) by simp
    then show ?thesis using Nil by (auto intro: scanned_segs)
  next
    case (Cons d w')
    then have d: "d = c" "cs = w' @ v" using Cons.prems(2) by simp_all
    have not: "\<not> ((sq, dq, esc) = plain_state \<and> c = CHR ''|'')"
      using Cons.prems(4) Cons d by (auto simp: no_pipe_inside_def dest: spec [of _ "[]"])
    have run: "ro_scan (fst q) (fst (snd q)) (snd (snd q)) (c # buf) segs cs = Some out" using q(2) not by (simp only: if_False)
    have e: "ends_piece q w' v" using Cons.prems(3) Cons d q(1) by (simp add: ends_piece_def)
    have "foldl quote_step q a \<noteq> plain_state" if "w' = a @ ''|'' @ b" for a b
      using Cons.prems(4) Cons d q(1) that unfolding no_pipe_inside_def by (metis append_Cons append_Nil foldl_Cons)
    then have "no_pipe_inside q [] w'" by (simp add: no_pipe_inside_def)
    then have "rev (c # buf) @ w' \<in> set out"
      using Cons.IH [of "fst q" "fst (snd q)" "snd (snd q)" "c # buf" segs w'] run d(2) e by simp
    then show ?thesis using Cons d by simp
  qed
qed

lemma later_piece_scanned:
  "ro_scan sq dq esc buf segs s = Some out \<Longrightarrow> s = x @ ''|'' @ w @ v \<Longrightarrow> foldl quote_step (sq, dq, esc) x = plain_state
     \<Longrightarrow> ends_piece (sq, dq, esc) (x @ ''|'' @ w) v \<Longrightarrow> no_pipe_inside (sq, dq, esc) (x @ ''|'') w \<Longrightarrow> w \<in> set out"
proof (induction s arbitrary: sq dq esc buf segs x)
  case (Cons c cs)
  from Cons.prems(1) obtain q where q: "quote_step (sq, dq, esc) c = q"
    "if (sq, dq, esc) = plain_state \<and> c = CHR ''|'' then q = plain_state \<and> ro_scan False False False [] (rev buf # segs) cs = Some out
     else ro_scan (fst q) (fst (snd q)) (snd (snd q)) (c # buf) segs cs = Some out" by (rule ro_scan_next)
  show ?case
  proof (cases x)
    case Nil
    then have c: "c = CHR ''|''" "cs = w @ v" "(sq, dq, esc) = plain_state" using Cons.prems(2,3) by simp_all
    then have run: "ro_scan False False False [] (rev buf # segs) cs = Some out" and qp: "q = plain_state" using q(2) by simp_all
    have st: "foldl quote_step plain_state (''|'' @ a) = foldl quote_step plain_state a" for a
      using q(1) c qp by simp
    have "ends_piece (False, False, False) w v" using Cons.prems(4) Nil c st by (simp add: ends_piece_def plain_state_def)
    moreover have "no_pipe_inside (False, False, False) [] w"
      using Cons.prems(5) Nil c st by (simp add: no_pipe_inside_def plain_state_def)
    ultimately have "rev [] @ w \<in> set out" by (rule first_piece_scanned [OF run c(2)])
    then show ?thesis by simp
  next
    case (Cons d x')
    then have d: "d = c" "cs = x' @ ''|'' @ w @ v" using Cons.prems(2) by simp_all
    have f: "foldl quote_step q x' = plain_state" and e: "ends_piece q (x' @ ''|'' @ w) v" and n: "no_pipe_inside q (x' @ ''|'') w"
      using Cons.prems(3-5) Cons d q(1) by (simp_all add: ends_piece_def no_pipe_inside_def)
    show ?thesis
    proof (cases "(sq, dq, esc) = plain_state \<and> c = CHR ''|''")
      case True
      then have "ro_scan False False False [] (rev buf # segs) cs = Some out" and "q = plain_state" using q(2) by simp_all
      then show ?thesis using Cons.IH [of False False False "[]" "rev buf # segs" x'] d(2) f e n by (simp add: plain_state_def)
    next
      case False
      then have "ro_scan (fst q) (fst (snd q)) (snd (snd q)) (c # buf) segs cs = Some out" using q(2) by (simp only: if_False)
      then show ?thesis using Cons.IH [of "fst q" "fst (snd q)" "snd (snd q)" "c # buf" segs x'] d(2) f e n by simp
    qed
  qed
qed simp

lemma pieces_scanned:
  assumes "ro_scan False False False [] [] s = Some out" and "pipeline_piece s w"
  shows "w \<in> set out"
proof -
  obtain u v where u: "s = u @ w @ v" "starts_piece plain_state u" "ends_piece plain_state (u @ w) v" "no_pipe_inside plain_state u w"
    using assms(2) by (auto simp: pipeline_piece_def)
  show ?thesis
  proof (cases "u = []")
    case True
    then show ?thesis using first_piece_scanned [OF assms(1), of w v] u by (simp add: plain_state_def)
  next
    case False
    then obtain x where x: "u = x @ ''|''" "foldl quote_step plain_state x = plain_state" using u(2) by (auto simp: starts_piece_def)
    show ?thesis
      by (rule later_piece_scanned [OF assms(1), of x w v]) (use u x in \<open>simp_all add: plain_state_def\<close>)
  qed
qed

lemma isPureReadOnlyBash_shape:
  assumes "isPureReadOnlyBash s"
  shows "read_only_shape s"
proof -
  from assms obtain segs where scan: "ro_scan False False False [] [] s = Some segs"
    and segs: "list_all isReadOnlySegment (filter (\<lambda>s. s \<noteq> []) (map js_trim segs))"
    by (auto simp: isPureReadOnlyBash_def Let_def split: option.splits if_splits)
  have "js_trim w = [] \<or> isReadOnlySegment (js_trim w)" if "pipeline_piece s w" for w
    using segs pieces_scanned [OF scan that] by (auto simp: list_all_iff)
  moreover have "\<not> compound_at c v" if "s = u @ c # v" "unquoted_after u" for u c v
    using ro_scan_no_compound [OF scan that(1)] that(2) by (simp add: unquoted_after_def)
  moreover have "quotes_closed s" using ro_scan_closed [OF scan] by (simp add: quotes_closed_def plain_state_def)
  ultimately show ?thesis unfolding read_only_shape_def by blast
qed

lemma first_lethal_None_iff: "first_lethal ps s = None \<longleftrightarrow> (\<forall>(r, l) \<in> set ps. \<not> rx_test r s)"
  by (induction ps s rule: first_lethal.induct) auto

lemma bash_not_low_tool: "''bash'' \<notin> set LOW_RISK_TOOLS"
  by (simp add: LOW_RISK_TOOLS_def)

lemmas score_bash = scoreToolCall_def [of "''bash''", simplified bash_not_low_tool if_False Let_def]

lemma score_bash_LOW_iff:
  "riskClass (scoreToolCall ''bash'' args) = LOW \<longleftrightarrow>
     first_lethal LETHAL_PATTERNS (arg_command args) = None
     \<and> \<not> hasSensitiveInternalPath (arg_command args) \<and> isPureReadOnlyBash (arg_command args)"
  by (auto simp: score_bash split: option.splits)

lemma score_bash_CRITICAL_iff:
  "riskClass (scoreToolCall ''bash'' args) = CRITICAL \<longleftrightarrow>
     first_lethal LETHAL_PATTERNS (arg_command args) \<noteq> None"
  by (auto simp: score_bash split: option.splits)

text \<open>
  C5: A shell command that is classified LOW, and so runs without approval, matches no lethal pattern,
  names no Magister-internal path, closes its quotes, and contains outside quotes none of the compound constructs \<open>;\<close>, \<open><\<close>,
  \<open>>\<close>, backtick, newline, \<open>&&\<close>, \<open>||\<close>, \<open>$(\<close>, \<open>${\<close>; and every piece between two pipes outside quotes is
  blank or an allow-listed read-only invocation.
\<close>

theorem low_bash_is_read_only:
  assumes "riskClass (scoreToolCall ''bash'' args) = LOW"
  shows "(\<forall>(pattern, label) \<in> set LETHAL_PATTERNS. \<not> rx_test pattern (arg_command args))
     \<and> listSensitiveInternalPathMatches (arg_command args) = []
     \<and> read_only_shape (arg_command args)"
proof -
  from assms have "first_lethal LETHAL_PATTERNS (arg_command args) = None"
    "\<not> hasSensitiveInternalPath (arg_command args)" "isPureReadOnlyBash (arg_command args)"
    by (simp_all add: score_bash_LOW_iff)
  then show ?thesis
    by (auto simp: first_lethal_None_iff hasSensitive_iff intro: isPureReadOnlyBash_shape)
qed

lemma second_piece: "pipeline_piece ''cat a | wc'' '' wc''"
  unfolding pipeline_piece_def
proof (intro exI conjI)
  show "''cat a | wc'' = ''cat a |'' @ '' wc'' @ []" by simp
  show "starts_piece plain_state ''cat a |''"
    unfolding starts_piece_def by (rule disjI2, rule exI [of _ "''cat a ''"]) (simp add: plain_state_def)
  have "CHR ''|'' \<notin> set '' wc''" by simp
  then show "no_pipe_inside plain_state ''cat a |'' '' wc''" unfolding no_pipe_inside_def by (metis in_set_conv_decomp append_Cons append_Nil)
qed (simp add: ends_piece_def)

theorem low_bash_is_read_only_witness:
  "read_only_shape ''cat a | wc'' \<and> isReadOnlySegment (js_trim '' wc'') \<and> listSensitiveInternalPathMatches ''cat a | wc'' = []"
proof -
  let ?args = "[(''command'', JStr ''cat a | wc'')]"
  have "riskClass (scoreToolCall ''bash'' ?args) = LOW" by code_simp
  from low_bash_is_read_only [OF this] have r: "read_only_shape ''cat a | wc'' \<and> listSensitiveInternalPathMatches ''cat a | wc'' = []"
    by (simp add: arg_command_def obj_get_def)
  have "js_trim '' wc'' \<noteq> []" by code_simp
  then show ?thesis using r second_piece unfolding read_only_shape_def by blast
qed

section \<open>The recursive removal of the root is always blocked\<close>

definition is_option_word :: "string \<Rightarrow> bool" where
  "is_option_word t =
     (case t of c # os \<Rightarrow> c = CHR ''-'' \<and> os \<noteq> [] \<and> list_all (\<lambda>x. is_word x \<or> x = CHR ''-'') os | [] \<Rightarrow> False)"

lemma match_ws_space: "rx_match (plus ws) (x, CHR '' '' # s) (Some (CHR '' ''), s)"
  using rx_match_plus_Cls [of "'' ''" is_ws x s] by (simp add: ws_def is_ws_def)

lemma match_option_word:
  assumes "is_option_word t"
  shows "rx_match option_token (x, t @ s) (Some (last t), s)"
proof -
  obtain os where t: "t = CHR ''-'' # os" and os: "os \<noteq> []" "list_all (\<lambda>x. is_word x \<or> x = CHR ''-'') os"
    using assms by (cases t) (auto simp: is_option_word_def)
  have "rx_match (lit ''-'') (x, ''-'' @ os @ s) (Some (CHR ''-''), os @ s)"
    using rx_match_lit [of "''-''"] by simp
  moreover have "rx_match (plus option_char) (Some (CHR ''-''), os @ s) (Some (last os), s)"
    unfolding option_char_def by (rule rx_match_plus_Cls [OF os])
  ultimately show ?thesis
    unfolding option_token_def t using os(1) by (auto intro!: rx_match_Alt1 rx_match_Seq)
qed

definition spaced :: "string list \<Rightarrow> string" where
  "spaced opts = concat (map (\<lambda>t. '' '' @ t) opts)"

lemma match_options:
  "list_all is_option_word opts \<Longrightarrow>
     \<exists>y. rx_match (Star (Seq (plus ws) option_token)) (x, spaced opts @ s) (y, s)"
proof (induction opts arbitrary: x)
  case Nil
  then show ?case by (auto simp: spaced_def intro: rx_match_Star_Nil)
next
  case (Cons t opts)
  then have "is_option_word t" by simp
  let ?rest = "spaced opts @ s"
  obtain y where y: "rx_match (Star (Seq (plus ws) option_token)) (Some (last t), ?rest) (y, s)"
    using Cons by (auto simp: spaced_def)
  have "rx_match (Seq (plus ws) option_token) (x, '' '' @ t @ ?rest) (Some (last t), ?rest)"
    using match_option_word [OF \<open>is_option_word t\<close>] by (auto intro: rx_match_Seq match_ws_space)
  from rx_match_Star_step [OF this _ y] show ?case
    by (auto simp: spaced_def)
qed

lemma match_rm_rf:
  assumes f: "flags \<noteq> []" "set flags \<subseteq> set ''rRf''" and opts: "list_all is_option_word opts"
  shows "rx_match RM_RF_OPTS (x, ''rm -'' @ flags @ spaced opts @ '' '' @ s) (Some (CHR '' ''), s)"
proof -
  let ?after = "spaced opts @ '' '' @ s"
  obtain y where star: "rx_match (Star (Seq (plus ws) option_token)) (Some (last flags), ?after) (y, '' '' @ s)"
    using match_options [OF opts] by blast
  have flag: "last flags \<in> set ''rRf''" using f last_in_set by blast
  have "next_char ?after = Some (CHR '' '')"
    by (cases opts) (auto simp: next_char_def spaced_def)
  then have "rx_match WordB (Some (last flags), ?after) (Some (last flags), ?after)"
    using flag by (auto intro!: rx_match_WordB simp: word_at_def is_word_def is_digit_def is_upper_def is_lower_def)
  moreover have "rx_match (plus (one_of ''rRf'')) (Some (CHR ''-''), flags @ ?after) (Some (last flags), ?after)"
    unfolding one_of_def using f by (intro rx_match_plus_Cls) (auto simp: list_all_iff)
  moreover have "rx_match (lit ''-'') (Some (CHR '' ''), ''-'' @ flags @ ?after) (Some (CHR ''-''), flags @ ?after)"
    using rx_match_lit [of "''-''"] by simp
  ultimately have flags: "rx_match (seqs [lit ''-'', plus (one_of ''rRf''), WordB])
      (Some (CHR '' ''), ''-'' @ flags @ ?after) (Some (last flags), ?after)"
    unfolding rx_syntax by (auto intro: rx_match_Seq)
  have rm: "rx_match (lit ''rm'') (x, ''rm'' @ CHR '' '' # ''-'' @ flags @ ?after)
      (Some (CHR ''m''), CHR '' '' # ''-'' @ flags @ ?after)"
    using rx_match_lit [of "''rm''"] by simp
  have split: "''rm -'' @ flags @ ?after = ''rm'' @ CHR '' '' # ''-'' @ flags @ ?after" by simp
  have tail: "rx_match (plus ws) (y, '' '' @ s) (Some (CHR '' ''), s)"
    using match_ws_space by simp
  show ?thesis
    unfolding RM_RF_OPTS_def seqs.simps alts.simps split
    by (rule rx_match_Seq [OF rm], rule rx_match_Seq [OF match_ws_space], rule rx_match_Seq,
        rule rx_match_Alt1 [OF flags [unfolded seqs.simps]], rule rx_match_Seq [OF star tail])
qed

lemma match_ws_or_end: "post = [] \<or> is_ws (hd post) \<Longrightarrow> \<exists>q. rx_match ws_or_end (x, post) q"
  by (cases post) (auto simp: ws_or_end_def ws_def intro: rx_match_Alt1 rx_match_Alt2
      rx_match_Eol rx_match_Cls)

lemma rm_root_lethal:
  assumes pre: "pre = [] \<or> \<not> is_word (last pre)"
    and flags: "flags \<noteq> []" "set flags \<subseteq> set ''rRf''" and opts: "list_all is_option_word opts"
    and post: "post = [] \<or> is_ws (hd post)"
  shows "rx_test (seqs [WordB, RM_RF_OPTS, lit ''/'', ws_or_end])
    (pre @ ''rm -'' @ flags @ spaced opts @ '' /'' @ post)"
proof -
  let ?p = "if pre = [] then None else Some (last pre)"
  let ?s = "''rm -'' @ flags @ spaced opts @ '' '' @ ''/'' @ post"
  obtain q where "rx_match ws_or_end (Some (CHR ''/''), post) q"
    using match_ws_or_end [OF post] by blast
  moreover have "rx_match (lit ''/'') (Some (CHR '' ''), ''/'' @ post) (Some (CHR ''/''), post)"
    using rx_match_lit [of "''/''"] by simp
  moreover have "rx_match RM_RF_OPTS (?p, ?s) (Some (CHR '' ''), ''/'' @ post)"
    by (rule match_rm_rf [OF flags opts])
  moreover have "rx_match WordB (?p, ?s) (?p, ?s)"
    using pre by (auto intro!: rx_match_WordB
        simp: word_at_def next_char_def is_word_def is_digit_def is_upper_def is_lower_def)
  ultimately have "rx_match (seqs [WordB, RM_RF_OPTS, lit ''/'', ws_or_end]) (?p, ?s) q"
    unfolding rx_syntax by (auto intro!: rx_match_Seq)
  then show ?thesis using rx_test_match [of _ pre ?s q] by simp
qed

text \<open>
  Whatever precedes it on the line (\<open>sudo\<close>, another command), whatever further option words stand
  before the target, and whatever permissions the model asks for, a recursive or forced \<open>rm\<close> of the
  file-system root is classified CRITICAL, the class no approval can override.
\<close>

theorem rm_root_is_critical:
  assumes "arg_command args = pre @ ''rm -'' @ flags @ spaced opts @ '' /'' @ post"
    and "pre = [] \<or> \<not> is_word (last pre)"
    and "flags \<noteq> []" and "set flags \<subseteq> set ''rRf''" and "list_all is_option_word opts"
    and "post = [] \<or> is_ws (hd post)"
  shows "riskClass (scoreToolCall ''bash'' args) = CRITICAL"
proof -
  have "rx_test (seqs [WordB, RM_RF_OPTS, lit ''/'', ws_or_end]) (arg_command args)"
    unfolding assms(1) by (rule rm_root_lethal) (use assms in auto)
  then show ?thesis
    by (auto simp: score_bash_CRITICAL_iff first_lethal_None_iff LETHAL_PATTERNS_def)
qed

theorem rm_root_is_critical_witness:
  "riskClass (scoreToolCall ''bash'' [(''command'', JStr ''sudo rm -rf --no-preserve-root /'')]) = CRITICAL"
  by (rule rm_root_is_critical [where pre = "''sudo ''" and flags = "''rf''"
        and opts = "[''--no-preserve-root'']" and post = "[]"])
    (simp_all add: arg_command_def obj_get_def spaced_def is_option_word_def is_word_def is_digit_def
      is_upper_def is_lower_def)

section \<open>What the scanner lets through\<close>

definition plain_char :: "char \<Rightarrow> bool" where
  "plain_char c = (c \<notin> set ([CHR 0x5C, CHR 0x27, CHR 0x22, CHR 0x60, CHR 0x0A] @ '';<>&|$''))"

lemma ro_scan_plain:
  "list_all plain_char x \<Longrightarrow>
     ro_scan False False False buf segs x = Some (rev segs @ [rev buf @ x])"
  by (induction x arbitrary: buf) (auto simp: plain_char_def)

lemma ro_scan_double_quoted:
  "CHR 0x22 \<notin> set x \<Longrightarrow> CHR 0x5C \<notin> set x \<Longrightarrow>
     ro_scan False True False buf segs (x @ [CHR 0x22]) = Some (rev segs @ [rev buf @ x @ [CHR 0x22]])"
  by (induction x arbitrary: buf) auto

lemma isPureReadOnlyBash_one:
  assumes scan: "ro_scan False False False [] [] s = Some [s]"
    and words: "ws_words s = h # rest" and h: "h \<in> set READ_ONLY_FIRST_TOKENS"
  shows "isPureReadOnlyBash s"
proof -
  have "h \<notin> {''find'', ''git'', ''curl'', ''wget''}"
    using h by (auto simp: READ_ONLY_FIRST_TOKENS_def)
  then have "isReadOnlySegment (js_trim s)"
    using words h by (simp add: isReadOnlySegment_def)
  moreover have "js_trim s \<noteq> []"
    using words by (metis ws_words_js_trim ws_words_Nil list.distinct(1))
  ultimately show ?thesis by (simp add: isPureReadOnlyBash_def scan)
qed

text \<open>
  Three ways a command that is not read-only is taken for one. A single \<open>&\<close> is no compound
  construct to the scanner, so a whole second command may follow it; a command substitution inside
  double quotes, which the shell runs, is skipped as literal text; and the allow-list holds \<open>env\<close>
  and \<open>command\<close>, whose argument is itself a command. In each case the rest of the text is arbitrary
  (up to the characters the scanner reacts to).
\<close>

theorem read_only_scan_gaps:
  assumes "list_all plain_char x" and "CHR 0x22 \<notin> set y" and "CHR 0x5C \<notin> set y"
  shows "isPureReadOnlyBash (''ls & '' @ x)
     \<and> isPureReadOnlyBash (''echo '' @ [CHR 0x22] @ ''$('' @ y @ '')'' @ [CHR 0x22])
     \<and> isPureReadOnlyBash (''env '' @ x) \<and> isPureReadOnlyBash (''command '' @ x)"
proof (intro conjI)
  show "isPureReadOnlyBash (''ls & '' @ x)"
    by (rule isPureReadOnlyBash_one [where h = "''ls''"])
      (simp_all add: ro_scan_plain [OF assms(1)] ws_words_def is_ws_def READ_ONLY_FIRST_TOKENS_def)
  show "isPureReadOnlyBash (''env '' @ x)"
    by (rule isPureReadOnlyBash_one [where h = "''env''"])
      (simp_all add: ro_scan_plain [OF assms(1)] ws_words_def is_ws_def READ_ONLY_FIRST_TOKENS_def)
  show "isPureReadOnlyBash (''command '' @ x)"
    by (rule isPureReadOnlyBash_one [where h = "''command''"])
      (simp_all add: ro_scan_plain [OF assms(1)] ws_words_def is_ws_def READ_ONLY_FIRST_TOKENS_def)
  have "CHR 0x22 \<notin> set (y @ '')'')" "CHR 0x5C \<notin> set (y @ '')'')" using assms by auto
  from ro_scan_double_quoted [OF this]
  show "isPureReadOnlyBash (''echo '' @ [CHR 0x22] @ ''$('' @ y @ '')'' @ [CHR 0x22])"
    by (intro isPureReadOnlyBash_one [where h = "''echo''"])
      (simp_all add: ws_words_def is_ws_def READ_ONLY_FIRST_TOKENS_def)
qed

theorem read_only_scan_gaps_witness:
  "isPureReadOnlyBash ''ls & make install'' \<and> isPureReadOnlyBash ''env make install''"
  using read_only_scan_gaps [of "''make install''" "[]"] by (simp add: plain_char_def)

end
