(* ===== verification/Command_Rules.thy ===== *)
theory Command_Rules
  imports Js_Regex
begin

text \<open>
  Persistent approval rules for shell commands: the matcher
  (\<open>apps/api/src/services/safe-apply/command-rule-matcher.ts\<close>) and the rule store it reads
  (\<open>apps/api/src/repositories/command-approval-rule-repository.ts\<close>). The table is the list of its
  rows in storage order. The texts of validation errors are replaced by constructors.
\<close>

section \<open>Shell metacharacters and banned prefixes\<close>

definition SHELL_METACHAR_RE :: rx where
  "SHELL_METACHAR_RE = alts [one_of (CHR 0x60 # ''|&;''), lit ''$('', lit ''<('', lit ''>('',
     lit ''<<<'', lit ''<<'', lit ''>>'',
     seqs [Alt Bol (none_of ''<>=''), one_of ''<>'', Alt (none_of ''<>='') Eol]]"

definition hasShellMetacharacters :: "string \<Rightarrow> bool" where
  "hasShellMetacharacters command = rx_test SHELL_METACHAR_RE command"

definition BANNED_PREFIXES :: "string list list" where
  "BANNED_PREFIXES =
    [[''python''], [''python3''], [''node''], [''bash''], [''sh''], [''zsh''], [''ruby''], [''perl''],
     [''sudo''], [''doas''], [''su''],
     [''rm''], [''curl''], [''wget''], [''chmod''], [''chown''],
     [''python'', ''-c''], [''python'', ''-''], [''python3'', ''-c''], [''bash'', ''-c''],
     [''bash'', ''-lc''], [''sh'', ''-c''], [''zsh'', ''-c''], [''node'', ''-e''],
     [''ruby'', ''-e''], [''perl'', ''-e'']]"

datatype prefix_error = PrefixEmpty | PrefixEmptyToken | PrefixTooShort | PrefixBanned

definition validatePrefixRule :: "string list \<Rightarrow> prefix_error option" where
  "validatePrefixRule pfx =
     (if pfx = [] then Some PrefixEmpty
      else if list_ex (\<lambda>tok. tok = []) pfx then Some PrefixEmptyToken
      else if length pfx < 2 then Some PrefixTooShort
      else if pfx \<in> set BANNED_PREFIXES then Some PrefixBanned
      else None)"

section \<open>Persisted additional permissions\<close>

datatype access_mode = AccessRead | AccessWrite

record fs_entry =
  entry_path :: string
  entry_access :: access_mode

text \<open>\<open>ap_network\<close>: absent, present without \<open>enabled\<close>, or present with its value.\<close>

record permission_profile =
  ap_network :: "bool option option"
  ap_file_system :: "fs_entry list option"

definition is_control_char :: "char \<Rightarrow> bool" where
  "is_control_char c = (let n = char_nat c in n \<le> 31 \<or> (127 \<le> n \<and> n \<le> 159))"

text \<open>The checks on an entry's path, in the code's order; each failing one rejects the profile.\<close>

definition fs_path_ok :: "string \<Rightarrow> bool" where
  "fs_path_ok p =
     (p \<noteq> [] \<and> length p \<le> 4096 \<and> \<not> list_ex is_control_char p
      \<and> \<not> list_ex (\<lambda>c. c \<in> set ''*?[]{}'') p \<and> starts_with p ''/''
      \<and> \<not> (includes_str p ''/../'' \<or> ends_with p ''/..''))"

definition validate_fs_entry :: "json \<Rightarrow> fs_entry option" where
  "validate_fs_entry entry =
     (case entry of
        JObj e \<Rightarrow>
          (case obj_get e ''path'' of
             Some (JStr p) \<Rightarrow>
               if \<not> fs_path_ok p then None
               else if obj_get e ''access'' = Some (JStr ''read'')
               then Some \<lparr>entry_path = p, entry_access = AccessRead\<rparr>
               else if obj_get e ''access'' = Some (JStr ''write'')
               then Some \<lparr>entry_path = p, entry_access = AccessWrite\<rparr>
               else None
           | _ \<Rightarrow> None)
      | _ \<Rightarrow> None)"

fun validate_fs_entries :: "json list \<Rightarrow> fs_entry list option" where
  "validate_fs_entries [] = Some []"
| "validate_fs_entries (e # es) =
     (case validate_fs_entry e of
        None \<Rightarrow> None
      | Some x \<Rightarrow> (case validate_fs_entries es of None \<Rightarrow> None | Some xs \<Rightarrow> Some (x # xs)))"

text \<open>The two sections; the outer \<open>None\<close> is the early \<open>return undefined\<close>.\<close>

definition validate_network :: "(string \<times> json) list \<Rightarrow> bool option option option" where
  "validate_network obj =
     (case obj_get obj ''network'' of
        None \<Rightarrow> Some None
      | Some (JObj n) \<Rightarrow>
          (case obj_get n ''enabled'' of
             None \<Rightarrow> Some (Some None)
           | Some (JBool b) \<Rightarrow> Some (Some (Some b))
           | Some _ \<Rightarrow> None)
      | Some _ \<Rightarrow> None)"

definition validate_file_system :: "(string \<times> json) list \<Rightarrow> fs_entry list option option" where
  "validate_file_system obj =
     (case obj_get obj ''file_system'' of
        None \<Rightarrow> Some None
      | Some (JObj f) \<Rightarrow>
          (case obj_get f ''entries'' of
             Some (JArr es) \<Rightarrow>
               (case validate_fs_entries es of None \<Rightarrow> None | Some xs \<Rightarrow> Some (Some xs))
           | _ \<Rightarrow> None)
      | Some _ \<Rightarrow> None)"

definition validatePersistedAdditionalPermissions :: "json \<Rightarrow> permission_profile option" where
  "validatePersistedAdditionalPermissions parsed =
     (case parsed of
        JObj obj \<Rightarrow>
          (case validate_network obj of
             None \<Rightarrow> None
           | Some net \<Rightarrow>
               (case validate_file_system obj of
                  None \<Rightarrow> None
                | Some fs \<Rightarrow>
                    if net = None \<and> fs = None then None
                    else Some \<lparr>ap_network = net, ap_file_system = fs\<rparr>))
      | _ \<Rightarrow> None)"

section \<open>Matching a command against a prefix\<close>

fun tokenize_argv_go :: "string \<Rightarrow> char option \<Rightarrow> string \<Rightarrow> string list" where
  "tokenize_argv_go cur quote [] = (if cur = [] then [] else [rev cur])"
| "tokenize_argv_go cur quote (ch # cs) =
     (case quote of
        Some q \<Rightarrow> if ch = q then tokenize_argv_go cur None cs
                  else tokenize_argv_go (ch # cur) quote cs
      | None \<Rightarrow>
          if ch = CHR 0x22 \<or> ch = CHR 0x27 then tokenize_argv_go cur (Some ch) cs
          else if is_ws ch then
            (if cur = [] then tokenize_argv_go [] None cs
             else rev cur # tokenize_argv_go [] None cs)
          else tokenize_argv_go (ch # cur) None cs)"

definition tokenizeArgv :: "string \<Rightarrow> string list" where
  "tokenizeArgv command = tokenize_argv_go [] None command"

definition matchArgvPrefix :: "string \<Rightarrow> string list \<Rightarrow> bool" where
  "matchArgvPrefix command pfx =
     (if hasShellMetacharacters command then False
      else let tokens = tokenizeArgv command
           in if length tokens < length pfx then False
              else list_all (\<lambda>i. tokens ! i = pfx ! i) [0..<length pfx])"

section \<open>The rule store\<close>

datatype rule_scope = ScopeGlobal | ScopeProject | ScopeOther string

text \<open>\<open>rule_permissions\<close> is the text column as its length and what parsing makes of it.\<close>

record approval_rule =
  rule_id :: string
  rule_tool :: string
  rule_scope :: rule_scope
  rule_projectPath :: "string option"
  rule_patternKind :: string
  rule_patternJson :: json_text
  rule_permissions :: "(nat \<times> json_text) option"
  rule_enabled :: bool
  rule_expiresAt :: "int option"
  rule_hitCount :: nat
  rule_lastHitAt :: "int option"

type_synonym rule_table = "approval_rule list"

definition rule_create :: "approval_rule \<Rightarrow> rule_table \<Rightarrow> rule_table" where
  "rule_create r t = t @ [r]"

definition rule_getById :: "string \<Rightarrow> rule_table \<Rightarrow> approval_rule option" where
  "rule_getById i t = find (\<lambda>r. rule_id r = i) t"

definition listCandidatesForLookup ::
  "int \<Rightarrow> string \<Rightarrow> string option \<Rightarrow> rule_table \<Rightarrow> approval_rule list" where
  "listCandidatesForLookup now tool projectPath t =
     (let rows = filter (\<lambda>r. rule_tool r = tool \<and> rule_enabled r \<and>
                    (case projectPath of
                       Some p \<Rightarrow> rule_scope r = ScopeGlobal
                                 \<or> (rule_scope r = ScopeProject \<and> rule_projectPath r = Some p)
                     | None \<Rightarrow> rule_scope r = ScopeGlobal)) t
      in filter (\<lambda>r. case rule_expiresAt r of None \<Rightarrow> True | Some e \<Rightarrow> e > now) rows)"

definition bumpHit :: "int \<Rightarrow> string \<Rightarrow> rule_table \<Rightarrow> rule_table" where
  "bumpHit now i t =
     map (\<lambda>r. if rule_id r = i then r\<lparr>rule_hitCount := rule_hitCount r + 1, rule_lastHitAt := Some now\<rparr>
              else r) t"

definition rule_setEnabled :: "string \<Rightarrow> bool \<Rightarrow> rule_table \<Rightarrow> rule_table" where
  "rule_setEnabled i b t = map (\<lambda>r. if rule_id r = i then r\<lparr>rule_enabled := b\<rparr> else r) t"

definition rule_delete :: "string \<Rightarrow> rule_table \<Rightarrow> rule_table" where
  "rule_delete i t = filter (\<lambda>r. rule_id r \<noteq> i) t"

section \<open>The lookup\<close>

record matched_rule =
  m_rule :: approval_rule
  m_prefix :: "string list"
  m_permissions :: "permission_profile option"

fun strings_of :: "json list \<Rightarrow> string list option" where
  "strings_of [] = Some []"
| "strings_of (x # xs) =
     (case x of
        JStr s \<Rightarrow> if s = [] then None
                  else (case strings_of xs of None \<Rightarrow> None | Some ss \<Rightarrow> Some (s # ss))
      | _ \<Rightarrow> None)"

text \<open>The prefix of a row, if its \<open>patternJson\<close> is a well-formed and permitted one.\<close>

definition rule_prefix :: "approval_rule \<Rightarrow> string list option" where
  "rule_prefix r =
     (case rule_patternJson r of
        Some (JArr xs) \<Rightarrow>
          (case strings_of xs of
             None \<Rightarrow> None
           | Some pfx \<Rightarrow> if validatePrefixRule pfx \<noteq> None then None else Some pfx)
      | _ \<Rightarrow> None)"

definition rule_additionalPermissions :: "approval_rule \<Rightarrow> permission_profile option" where
  "rule_additionalPermissions r =
     (case rule_permissions r of
        None \<Rightarrow> None
      | Some (len, text) \<Rightarrow>
          if 0 < len \<and> len \<le> 8192
          then (case text of None \<Rightarrow> None | Some j \<Rightarrow> validatePersistedAdditionalPermissions j)
          else None)"

fun match_candidates :: "string \<Rightarrow> string \<Rightarrow> approval_rule list \<Rightarrow> matched_rule option" where
  "match_candidates tool command [] = None"
| "match_candidates tool command (r # rs) =
     (if rule_patternKind r = ''argv_prefix'' \<and> tool = ''bash'' then
        (case rule_prefix r of
           None \<Rightarrow> match_candidates tool command rs
         | Some pfx \<Rightarrow>
             if matchArgvPrefix command pfx
             then Some \<lparr>m_rule = r, m_prefix = pfx, m_permissions = rule_additionalPermissions r\<rparr>
             else match_candidates tool command rs)
      else match_candidates tool command rs)"

definition matchPersistentRule ::
  "int \<Rightarrow> string \<Rightarrow> (string \<times> json) list \<Rightarrow> string option \<Rightarrow> rule_table
     \<Rightarrow> matched_rule option \<times> rule_table" where
  "matchPersistentRule now tool input projectPath t =
     (let candidates = listCandidatesForLookup now tool projectPath t;
          command = (case obj_get input ''command'' of Some (JStr s) \<Rightarrow> s | _ \<Rightarrow> [])
      in case match_candidates tool command candidates of
           None \<Rightarrow> (None, t)
         | Some m \<Rightarrow> (Some m, bumpHit now (rule_id (m_rule m)) t))"

section \<open>What the metacharacter guard excludes\<close>

text \<open>The guard in plain words.\<close>

definition guard_clean :: "string \<Rightarrow> bool" where
  "guard_clean s \<longleftrightarrow>
     set s \<inter> set (CHR 0x60 # ''|&;'') = {}
     \<and> (\<forall>w \<in> set [''$('', ''<('', ''>('', ''<<'', ''>>'']. \<not> includes_str s w)
     \<and> (\<forall>u c v. s = u @ c # v \<longrightarrow> c \<in> set ''<>'' \<longrightarrow>
          (u \<noteq> [] \<and> last u \<in> set ''<>='') \<or> (v \<noteq> [] \<and> hd v \<in> set ''<>=''))"

definition lone_redirect :: rx where
  "lone_redirect = seqs [Alt Bol (none_of ''<>=''), one_of ''<>'', Alt (none_of ''<>='') Eol]"

lemma lone_redirect_test:
  assumes "c \<in> set ''<>''" and "u = [] \<or> last u \<notin> set ''<>=''" and "v = [] \<or> hd v \<notin> set ''<>=''"
  shows "rx_test lone_redirect (u @ c # v)"
proof -
  obtain q where q: "rx_match (Alt (none_of ''<>='') Eol) (Some c, v) q"
    using assms(3) unfolding none_of_def
    by (cases v) (auto intro: rx_match_Alt1 rx_match_Alt2 rx_match_Cls rx_match_Eol)
  have c: "rx_match (one_of ''<>'') (x, c # v) (Some c, v)" for x
    using assms(1) unfolding one_of_def by (intro rx_match_Cls) simp
  have *: "rx_match lone_redirect p q" if "rx_match (Alt Bol (none_of ''<>='')) p (x, c # v)" for p x
    unfolding lone_redirect_def rx_syntax by (rule rx_match_Seq [OF that rx_match_Seq [OF c q]])
  show ?thesis
  proof (cases u rule: rev_cases)
    case Nil
    have "rx_match lone_redirect (None, c # v) q"
      by (rule *, rule rx_match_Alt1, rule rx_match_Bol)
    then show ?thesis using Nil rx_test_match [of lone_redirect "[]" "c # v" q] by simp
  next
    case (snoc u' d)
    have "rx_match lone_redirect (if u' = [] then None else Some (last u'), d # c # v) q"
      using assms(2) snoc unfolding none_of_def
      by (intro * rx_match_Alt2) (auto simp: none_of_def intro: rx_match_Cls)
    then show ?thesis using snoc rx_test_match [of lone_redirect u' "d # c # v" q] by simp
  qed
qed

lemma no_metachar_guard_clean: "\<not> hasShellMetacharacters s \<Longrightarrow> guard_clean s"
proof -
  assume clean: "\<not> hasShellMetacharacters s"
  have "\<not> rx_test (one_of (CHR 0x60 # ''|&;'')) s"
    and w: "\<not> rx_test (lit ''$('') s" "\<not> rx_test (lit ''<('') s" "\<not> rx_test (lit ''>('') s"
      "\<not> rx_test (lit ''<<'') s" "\<not> rx_test (lit ''>>'') s"
    and lone: "\<not> rx_test lone_redirect s"
    using clean
    unfolding hasShellMetacharacters_def SHELL_METACHAR_RE_def rx_test_alts lone_redirect_def
    by auto
  then have "set s \<inter> set (CHR 0x60 # ''|&;'') = {}"
    by (auto simp: one_of_def rx_test_Cls)
  moreover have "\<forall>w \<in> set [''$('', ''<('', ''>('', ''<<'', ''>>'']. \<not> includes_str s w"
    using w by (simp add: rx_test_lit)
  moreover have "(u \<noteq> [] \<and> last u \<in> set ''<>='') \<or> (v \<noteq> [] \<and> hd v \<in> set ''<>='')"
    if "s = u @ c # v" "c \<in> set ''<>''" for u c v
    using lone lone_redirect_test [of c u v] that by blast
  ultimately show ?thesis unfolding guard_clean_def by blast
qed

lemma rx_seq_Cls_needs:
  assumes "rx_test (seqs [r, Cls f, r']) s"
  shows "\<exists>c \<in> set s. f c"
proof -
  from assms obtain u v p q where s: "s = u @ v" and p: "snd p = v"
    and "rx_match (seqs [r, Cls f, r']) p q"
    unfolding rx_test_iff rx_ends_ne by (metis snd_conv)
  then obtain m m' where m: "m \<in> set (rx_ends r p)" "m' \<in> set (rx_ends (Cls f) m)"
    by (auto simp: rx_match_def rx_syntax)
  from rx_ends_suffix [OF m(1)] have "set (snd m) \<subseteq> set s"
    using s p by (auto simp: suffix_def)
  with m(2) show ?thesis by (cases "snd m") (auto split: if_splits)
qed

lemma clean_chars_no_metachar:
  assumes "set s \<inter> set (CHR 0x60 # ''|&;$<>'') = {}"
  shows "\<not> hasShellMetacharacters s"
proof
  assume "hasShellMetacharacters s"
  then consider "rx_test (one_of (CHR 0x60 # ''|&;'')) s"
    | w where "w \<in> {''$('', ''<('', ''>('', ''<<<'', ''<<'', ''>>''}" "rx_test (lit w) s"
    | "rx_test lone_redirect s"
    unfolding hasShellMetacharacters_def SHELL_METACHAR_RE_def rx_test_alts lone_redirect_def by auto
  then show False
  proof cases
    case 1
    then show False using assms by (auto simp: one_of_def rx_test_Cls)
  next
    case 2
    then have "set w \<subseteq> set s" by (auto simp: rx_test_lit includes_str_iff)
    with 2(1) assms show False by auto
  next
    case 3
    then show False
      using assms rx_seq_Cls_needs [of "Alt Bol (none_of ''<>='')" "\<lambda>x. x \<in> set ''<>''"]
      by (fastforce simp: lone_redirect_def one_of_def)
  qed
qed

lemma tokenize_no_quotes:
  "CHR 0x22 \<notin> set s \<Longrightarrow> CHR 0x27 \<notin> set s \<Longrightarrow> tokenize_argv_go cur None s = ws_words_acc cur s"
  by (induction s arbitrary: cur) auto

lemma nth_upt_take:
  "n \<le> length ts \<Longrightarrow> n = length ps \<Longrightarrow> list_all (\<lambda>i. ts ! i = ps ! i) [0..<n] \<longleftrightarrow> take n ts = ps"
proof
  assume *: "n \<le> length ts" "n = length ps" "list_all (\<lambda>i. ts ! i = ps ! i) [0..<n]"
  show "take n ts = ps"
    using * by (intro nth_equalityI) (auto simp: list_all_iff)
next
  assume *: "n \<le> length ts" "n = length ps" "take n ts = ps"
  then show "list_all (\<lambda>i. ts ! i = ps ! i) [0..<n]"
    by (auto simp: list_all_iff) (metis nth_take)
qed

lemma matchArgvPrefix_iff:
  "matchArgvPrefix s pfx \<longleftrightarrow>
     \<not> hasShellMetacharacters s \<and> (\<exists>rest. tokenizeArgv s = pfx @ rest)"
proof (cases "length (tokenizeArgv s) < length pfx")
  case True
  then show ?thesis by (auto simp: matchArgvPrefix_def)
next
  case False
  then have "list_all (\<lambda>i. tokenizeArgv s ! i = pfx ! i) [0..<length pfx] \<longleftrightarrow> take (length pfx) (tokenizeArgv s) = pfx"
    by (intro nth_upt_take) auto
  also have "\<dots> \<longleftrightarrow> (\<exists>rest. tokenizeArgv s = pfx @ rest)"
    by (metis append_take_drop_id append_eq_conv_conj)
  finally show ?thesis using False by (simp add: matchArgvPrefix_def Let_def)
qed

text \<open>
  A rule's prefix matches only commands in which, anywhere, there is no pipe, ampersand, semicolon,
  backtick, \<open>$(\<close>, process substitution, here-document or lone redirection, and whose argument list
  starts with the prefix; without quotes that list is the white-space separated words of the command.
\<close>

theorem matchArgvPrefix_sound:
  assumes "matchArgvPrefix command pfx"
  shows "guard_clean command \<and> (\<exists>rest. tokenizeArgv command = pfx @ rest)
    \<and> (set command \<inter> {CHR 0x22, CHR 0x27} = {} \<longrightarrow> (\<exists>rest. ws_words command = pfx @ rest))"
  using assms no_metachar_guard_clean [of command]
  by (auto simp: matchArgvPrefix_iff tokenizeArgv_def ws_words_def tokenize_no_quotes)

theorem matchArgvPrefix_sound_witness:
  "guard_clean ''npm install --save'' \<and> (\<exists>rest. ws_words ''npm install --save'' = [''npm'', ''install''] @ rest)"
proof -
  have "\<not> hasShellMetacharacters ''npm install --save''"
    by (rule clean_chars_no_metachar) simp
  then have "matchArgvPrefix ''npm install --save'' [''npm'', ''install'']"
    by (simp add: matchArgvPrefix_def tokenizeArgv_def is_ws_def)
  from matchArgvPrefix_sound [OF this] show ?thesis by simp
qed

text \<open>
  The guard has no newline. After an operator has approved \<open>npm install\<close> as a prefix, a command
  of two lines whose first is \<open>npm install\<close> matches, whatever the second line runs, as long as that
  line has no quote and none of the guarded characters: the shell executes both lines.
\<close>

theorem newline_passes_prefix_guard:
  assumes "set x \<inter> set ([CHR 0x60, CHR 0x22, CHR 0x27] @ ''|&;$<>'') = {}"
  shows "matchArgvPrefix (''npm install'' @ [CHR 0x0A] @ x) [''npm'', ''install'']"
proof -
  let ?s = "''npm install'' @ [CHR 0x0A] @ x"
  have "\<not> hasShellMetacharacters ?s"
    using assms by (intro clean_chars_no_metachar) auto
  moreover have "tokenizeArgv ?s = [''npm'', ''install''] @ ws_words_acc [] x"
    using assms by (simp add: tokenizeArgv_def is_ws_def tokenize_no_quotes)
  ultimately show ?thesis by (auto simp: matchArgvPrefix_iff)
qed

theorem newline_passes_prefix_guard_witness:
  "matchArgvPrefix (''npm install'' @ [CHR 0x0A] @ ''rm -r src'') [''npm'', ''install'']"
  by (rule newline_passes_prefix_guard) simp

section \<open>What a persistent match means\<close>

definition rule_applies :: "int \<Rightarrow> string \<Rightarrow> string option \<Rightarrow> approval_rule \<Rightarrow> bool" where
  "rule_applies now tool projectPath r \<longleftrightarrow>
     rule_tool r = tool \<and> rule_enabled r
     \<and> (rule_scope r = ScopeGlobal
        \<or> rule_scope r = ScopeProject \<and> projectPath \<noteq> None \<and> rule_projectPath r = projectPath)
     \<and> (case rule_expiresAt r of None \<Rightarrow> True | Some e \<Rightarrow> now < e)"

lemma set_listCandidates:
  "set (listCandidatesForLookup now tool projectPath t) = {r \<in> set t. rule_applies now tool projectPath r}"
  by (auto simp: listCandidatesForLookup_def rule_applies_def split: option.splits)

definition safe_entry :: "fs_entry \<Rightarrow> bool" where
  "safe_entry e \<longleftrightarrow> (let p = entry_path e in
     starts_with p ''/'' \<and> length p \<le> 4096 \<and> list_all (\<lambda>c. \<not> is_control_char c) p
     \<and> set p \<inter> set ''*?[]{}'' = {} \<and> \<not> includes_str p ''/../'' \<and> \<not> ends_with p ''/..'')"

lemma validate_fs_entry_safe: "validate_fs_entry j = Some e \<Longrightarrow> safe_entry e"
proof -
  assume "validate_fs_entry j = Some e"
  then have "fs_path_ok (entry_path e)"
    unfolding validate_fs_entry_def by (auto split: json.splits option.splits if_splits)
  then show ?thesis
    unfolding safe_entry_def fs_path_ok_def Let_def list_all_iff list_ex_iff by blast
qed

lemma validate_fs_entries_safe: "validate_fs_entries js = Some es \<Longrightarrow> list_all safe_entry es"
  by (induction js arbitrary: es rule: validate_fs_entries.induct)
    (auto split: option.splits dest: validate_fs_entry_safe)

definition safe_profile :: "permission_profile \<Rightarrow> bool" where
  "safe_profile p \<longleftrightarrow> (ap_network p \<noteq> None \<or> ap_file_system p \<noteq> None)
     \<and> (case ap_file_system p of None \<Rightarrow> True | Some es \<Rightarrow> list_all safe_entry es)"

lemma validatePersisted_safe: "validatePersistedAdditionalPermissions j = Some p \<Longrightarrow> safe_profile p"
  by (auto simp: validatePersistedAdditionalPermissions_def validate_file_system_def safe_profile_def
      split: json.splits option.splits if_splits dest: validate_fs_entries_safe)

lemma strings_of_nonempty: "strings_of xs = Some ss \<Longrightarrow> [] \<notin> set ss"
  by (induction xs arbitrary: ss rule: strings_of.induct) (auto split: json.splits if_splits option.splits)

lemma rule_prefix_valid: "rule_prefix r = Some pfx \<Longrightarrow> validatePrefixRule pfx = None"
  by (auto simp: rule_prefix_def split: option.splits json.splits if_splits)

lemma validatePrefixRule_None:
  "validatePrefixRule pfx = None \<longleftrightarrow> 2 \<le> length pfx \<and> [] \<notin> set pfx \<and> pfx \<notin> set BANNED_PREFIXES"
  by (auto simp: validatePrefixRule_def list_ex_iff)

definition rule_matches :: "string \<Rightarrow> string \<Rightarrow> approval_rule \<Rightarrow> bool" where
  "rule_matches tool command r \<longleftrightarrow> tool = ''bash'' \<and> rule_patternKind r = ''argv_prefix''
     \<and> (case rule_prefix r of None \<Rightarrow> False | Some pfx \<Rightarrow> matchArgvPrefix command pfx)"

lemma match_candidates_Cons:
  "match_candidates tool command (r # rs) =
     (if rule_matches tool command r
      then Some \<lparr>m_rule = r, m_prefix = the (rule_prefix r), m_permissions = rule_additionalPermissions r\<rparr>
      else match_candidates tool command rs)"
  by (auto simp: rule_matches_def split: option.splits)

lemma match_candidates_None:
  "match_candidates tool command rs = None \<longleftrightarrow> (\<forall>r \<in> set rs. \<not> rule_matches tool command r)"
  by (induction rs) (simp_all add: match_candidates_Cons del: match_candidates.simps(2))

lemma match_candidates_Some:
  "match_candidates tool command rs = Some m \<Longrightarrow>
     m_rule m \<in> set rs \<and> rule_matches tool command (m_rule m) \<and> rule_prefix (m_rule m) = Some (m_prefix m)
     \<and> m_permissions m = rule_additionalPermissions (m_rule m)"
proof (induction rs)
  case (Cons r rs)
  then show ?case
    by (cases "rule_matches tool command r")
      (auto simp: match_candidates_Cons rule_matches_def simp del: match_candidates.simps(2)
        split: option.splits)
qed simp

text \<open>
  C6: A tool call is auto-approved only through an enabled, unexpired rule of the table for that tool,
  global or of exactly the caller's project, whose prefix has at least two non-empty words, is not
  banned and matches the command; permissions that come with it are structurally safe (absolute paths
  without \<open>..\<close>, globs or control characters). The lookup changes the table only in the hit counter and
  time stamp of the rows with that rule's id.
\<close>

theorem matchPersistentRule_sound:
  assumes "matchPersistentRule now tool input projectPath t = (Some m, t')"
  shows "m_rule m \<in> set t \<and> rule_applies now tool projectPath (m_rule m)
    \<and> 2 \<le> length (m_prefix m) \<and> [] \<notin> set (m_prefix m) \<and> m_prefix m \<notin> set BANNED_PREFIXES
    \<and> (\<exists>command. obj_get input ''command'' = Some (JStr command) \<and> matchArgvPrefix command (m_prefix m))
    \<and> (\<forall>p. m_permissions m = Some p \<longrightarrow> safe_profile p)
    \<and> t' = bumpHit now (rule_id (m_rule m)) t"
proof -
  let ?command = "case obj_get input ''command'' of Some (JStr s) \<Rightarrow> s | _ \<Rightarrow> []"
  from assms have m: "match_candidates tool ?command (listCandidatesForLookup now tool projectPath t) = Some m"
    and t': "t' = bumpHit now (rule_id (m_rule m)) t"
    by (auto simp: matchPersistentRule_def Let_def split: option.splits)
  note props = match_candidates_Some [OF m]
  from props have mp: "matchArgvPrefix ?command (m_prefix m)" by (auto simp: rule_matches_def)
  from props have valid: "2 \<le> length (m_prefix m) \<and> [] \<notin> set (m_prefix m) \<and> m_prefix m \<notin> set BANNED_PREFIXES"
    using rule_prefix_valid validatePrefixRule_None by blast
  have "\<exists>command. obj_get input ''command'' = Some (JStr command) \<and> matchArgvPrefix command (m_prefix m)"
  proof -
    have "\<not> matchArgvPrefix [] (m_prefix m)"
      using valid by (auto simp: matchArgvPrefix_iff tokenizeArgv_def)
    then show ?thesis using mp by (auto split: option.splits json.splits)
  qed
  moreover have "\<forall>p. m_permissions m = Some p \<longrightarrow> safe_profile p"
    using props by (auto simp: rule_additionalPermissions_def validatePersisted_safe
        split: option.splits if_splits)
  ultimately show ?thesis
    using props valid t' set_listCandidates [of now tool projectPath t] by auto
qed

definition example_rule :: approval_rule where
  "example_rule = \<lparr>rule_id = ''r1'', rule_tool = ''bash'', rule_scope = ScopeGlobal, rule_projectPath = None,
     rule_patternKind = ''argv_prefix'', rule_patternJson = Some (JArr [JStr ''npm'', JStr ''install'']),
     rule_permissions = None, rule_enabled = True, rule_expiresAt = None, rule_hitCount = 0,
     rule_lastHitAt = None\<rparr>"

theorem matchPersistentRule_sound_witness:
  "\<exists>m t'. matchPersistentRule 5 ''bash'' [(''command'', JStr ''npm install'')] None [example_rule] = (Some m, t')
     \<and> rule_applies 5 ''bash'' None (m_rule m) \<and> 2 \<le> length (m_prefix m)"
proof -
  have "\<not> hasShellMetacharacters ''npm install''" by (rule clean_chars_no_metachar) simp
  then have "\<exists>m t'. matchPersistentRule 5 ''bash'' [(''command'', JStr ''npm install'')] None [example_rule] = (Some m, t')"
    by (simp add: matchPersistentRule_def listCandidatesForLookup_def example_rule_def rule_prefix_def
        validatePrefixRule_def BANNED_PREFIXES_def obj_get_def matchArgvPrefix_def tokenizeArgv_def is_ws_def)
  then show ?thesis using matchPersistentRule_sound by blast
qed

end
