(* ===== verification/Circuit_Breaker.thy ===== *)
theory Circuit_Breaker
  imports Js_Number
begin

text \<open>
  The circuit breaker of the executors
  (\<open>apps/api/src/services/executor-circuit-breaker-service.ts\<close>). Its state is one JSON file, read
  before and rewritten after every event. Times are milliseconds; an ISO time stamp is the time it
  denotes, or \<open>BadIso\<close> for text on which \<open>Date.parse\<close> yields NaN. An empty time stamp, which the code
  treats as an absent one, is not written by it and is represented by \<open>None\<close>.
\<close>

datatype circuit_state = Closed | Open | HalfOpen

record circuit_entry =
  consecutiveFailures :: int
  lastFailureCode :: "string option"
  lastFailureAt :: "iso_time option"
  openUntil :: "iso_time option"

type_synonym circuit_store = "string \<rightharpoonup> circuit_entry"

text \<open>
  What the store file holds: nothing readable, or a JSON value with its \<open>version\<close> and its \<open>adapters\<close>
  object (\<open>None\<close> when that is missing or not an object).
\<close>

datatype circuit_file = Unreadable | StoreFile int "circuit_store option"

record executor_circuit_state =
  res_adapterId :: string
  res_state :: circuit_state
  res_failures :: int
  res_lastFailureCode :: "string option"
  res_lastFailureAt :: "iso_time option"
  res_openUntil :: "iso_time option"

definition DEFAULT_FAILURE_THRESHOLD :: int where "DEFAULT_FAILURE_THRESHOLD = 3"

definition DEFAULT_OPEN_MS :: int where "DEFAULT_OPEN_MS = 2 * 60 * 1000"

definition parsePositiveInteger :: "string option \<Rightarrow> int \<Rightarrow> int" where
  "parsePositiveInteger value fallback =
     (case value of
        None \<Rightarrow> fallback
      | Some s \<Rightarrow>
          if s = [] then fallback
          else (case js_parse_int s of
                  None \<Rightarrow> fallback
                | Some parsed \<Rightarrow> if parsed \<le> 0 then fallback else parsed))"

text \<open>The two environment variables the thresholds are read from.\<close>

record circuit_env =
  env_threshold :: "string option"
  env_open_ms :: "string option"

definition getFailureThreshold :: "circuit_env \<Rightarrow> int" where
  "getFailureThreshold env = parsePositiveInteger (env_threshold env) DEFAULT_FAILURE_THRESHOLD"

definition getOpenWindowMs :: "circuit_env \<Rightarrow> int" where
  "getOpenWindowMs env = parsePositiveInteger (env_open_ms env) DEFAULT_OPEN_MS"

definition defaultEntry :: circuit_entry where
  "defaultEntry = \<lparr>consecutiveFailures = 0, lastFailureCode = None, lastFailureAt = None, openUntil = None\<rparr>"

definition readStore :: "circuit_file \<Rightarrow> circuit_store" where
  "readStore f =
     (case f of
        Unreadable \<Rightarrow> Map.empty
      | StoreFile version adapters \<Rightarrow>
          if version \<noteq> 1 then Map.empty
          else (case adapters of None \<Rightarrow> Map.empty | Some m \<Rightarrow> m))"

definition writeStore :: "circuit_store \<Rightarrow> circuit_file" where
  "writeStore store = StoreFile 1 (Some store)"

definition resolveState :: "circuit_entry \<Rightarrow> int \<Rightarrow> circuit_state" where
  "resolveState entry now =
     (case openUntil entry of
        None \<Rightarrow> Closed
      | Some BadIso \<Rightarrow> Closed
      | Some (IsoMs t) \<Rightarrow> if t > now then Open else HalfOpen)"

definition toResource :: "string \<Rightarrow> circuit_entry \<Rightarrow> int \<Rightarrow> executor_circuit_state" where
  "toResource adapterId entry now =
     \<lparr>res_adapterId = adapterId, res_state = resolveState entry now,
      res_failures = consecutiveFailures entry, res_lastFailureCode = lastFailureCode entry,
      res_lastFailureAt = lastFailureAt entry, res_openUntil = openUntil entry\<rparr>"

definition store_entry :: "circuit_store \<Rightarrow> string \<Rightarrow> circuit_entry" where
  "store_entry store adapterId = (case store adapterId of None \<Rightarrow> defaultEntry | Some e \<Rightarrow> e)"

definition getExecutorCircuitState :: "circuit_file \<Rightarrow> string \<Rightarrow> int \<Rightarrow> executor_circuit_state" where
  "getExecutorCircuitState f adapterId now =
     toResource adapterId (store_entry (readStore f) adapterId) now"

definition failure_entry :: "circuit_env \<Rightarrow> circuit_entry \<Rightarrow> string \<Rightarrow> int \<Rightarrow> circuit_entry" where
  "failure_entry env current code now =
     (let threshold = getFailureThreshold env;
          openWindowMs = getOpenWindowMs env;
          failures = (if resolveState current now = HalfOpen then threshold
                      else max (consecutiveFailures current) 0 + 1)
      in \<lparr>consecutiveFailures = failures, lastFailureCode = Some code, lastFailureAt = Some (IsoMs now),
          openUntil = (if failures \<ge> threshold then Some (IsoMs (now + openWindowMs))
                       else openUntil current)\<rparr>)"

text \<open>The two file accesses of a recorded failure, and the whole operation.\<close>

definition failure_update :: "circuit_env \<Rightarrow> circuit_store \<Rightarrow> string \<Rightarrow> string \<Rightarrow> int \<Rightarrow> circuit_store" where
  "failure_update env store adapterId code now =
     store(adapterId \<mapsto> failure_entry env (store_entry store adapterId) code now)"

definition recordExecutorCircuitFailure ::
  "circuit_env \<Rightarrow> circuit_file \<Rightarrow> string \<Rightarrow> string \<Rightarrow> int \<Rightarrow> executor_circuit_state \<times> circuit_file" where
  "recordExecutorCircuitFailure env f adapterId code now =
     (let store = readStore f;
          nxt = failure_entry env (store_entry store adapterId) code now
      in (toResource adapterId nxt now, writeStore (failure_update env store adapterId code now)))"

definition recordExecutorCircuitSuccess ::
  "circuit_file \<Rightarrow> string \<Rightarrow> int \<Rightarrow> executor_circuit_state \<times> circuit_file" where
  "recordExecutorCircuitSuccess f adapterId now =
     (let store = readStore f;
          nxt = \<lparr>consecutiveFailures = 0, lastFailureCode = None, lastFailureAt = None, openUntil = None\<rparr>
      in (toResource adapterId nxt now, writeStore (store(adapterId \<mapsto> nxt))))"

section \<open>Histories\<close>

datatype circuit_event = Failed string string int | Succeeded string int

fun circuit_apply :: "circuit_env \<Rightarrow> circuit_file \<Rightarrow> circuit_event \<Rightarrow> circuit_file" where
  "circuit_apply env f (Failed a code t) = snd (recordExecutorCircuitFailure env f a code t)"
| "circuit_apply env f (Succeeded a t) = snd (recordExecutorCircuitSuccess f a t)"

definition circuit_run :: "circuit_env \<Rightarrow> circuit_file \<Rightarrow> circuit_event list \<Rightarrow> circuit_file" where
  "circuit_run env f es = foldl (circuit_apply env) f es"

text \<open>The failure times of an adapter since its last success, in order: what the breaker should depend on.\<close>

fun streak_step :: "string \<Rightarrow> int list \<Rightarrow> circuit_event \<Rightarrow> int list" where
  "streak_step a ts (Failed b code t) = (if b = a then ts @ [t] else ts)"
| "streak_step a ts (Succeeded b t) = (if b = a then [] else ts)"

definition failure_streak :: "string \<Rightarrow> circuit_event list \<Rightarrow> int list" where
  "failure_streak a es = foldl (streak_step a) [] es"

definition circuit_spec :: "circuit_env \<Rightarrow> int list \<Rightarrow> int \<Rightarrow> circuit_state" where
  "circuit_spec env ts now =
     (if int (length ts) < getFailureThreshold env then Closed
      else if now < last ts + getOpenWindowMs env then Open else HalfOpen)"

lemma threshold_pos: "0 < getFailureThreshold env"
  by (auto simp: getFailureThreshold_def parsePositiveInteger_def DEFAULT_FAILURE_THRESHOLD_def
      split: option.splits)

text \<open>How an entry relates to the failures since the last success.\<close>

definition entry_tracks :: "circuit_env \<Rightarrow> circuit_entry \<Rightarrow> int list \<Rightarrow> bool" where
  "entry_tracks env e ts \<longleftrightarrow>
     (if int (length ts) < getFailureThreshold env
      then consecutiveFailures e = int (length ts) \<and> openUntil e = None
      else getFailureThreshold env \<le> consecutiveFailures e
           \<and> openUntil e = Some (IsoMs (last ts + getOpenWindowMs env)))"

lemma entry_tracks_default: "entry_tracks env defaultEntry []"
  using threshold_pos [of env] by (simp add: entry_tracks_def defaultEntry_def)

lemma entry_tracks_failure:
  assumes "entry_tracks env e ts"
  shows "entry_tracks env (failure_entry env e code t) (ts @ [t])"
proof (cases "int (length ts) < getFailureThreshold env")
  case True
  with assms have e: "consecutiveFailures e = int (length ts)" "openUntil e = None"
    by (auto simp: entry_tracks_def)
  then show ?thesis
    using True by (auto simp: entry_tracks_def failure_entry_def resolveState_def Let_def)
next
  case False
  with assms have "getFailureThreshold env \<le> consecutiveFailures e"
    by (auto simp: entry_tracks_def)
  then show ?thesis
    using False by (auto simp: entry_tracks_def failure_entry_def Let_def)
qed

lemma readStore_writeStore [simp]: "readStore (writeStore s) = s"
  by (simp add: readStore_def writeStore_def)

lemma circuit_apply_tracks:
  assumes "\<And>a. entry_tracks env (store_entry (readStore f) a) (ts a)"
  shows "entry_tracks env (store_entry (readStore (circuit_apply env f e)) a) (streak_step a (ts a) e)"
proof (cases e)
  case (Failed b code t)
  then show ?thesis
    using assms [of a] entry_tracks_failure [OF assms [of a]]
    by (simp add: recordExecutorCircuitFailure_def failure_update_def store_entry_def Let_def)
next
  case (Succeeded b t)
  then show ?thesis
    using assms [of a] entry_tracks_default
    by (simp add: recordExecutorCircuitSuccess_def store_entry_def Let_def defaultEntry_def)
qed

lemma circuit_run_tracks:
  "readStore f = Map.empty \<Longrightarrow>
     entry_tracks env (store_entry (readStore (circuit_run env f es)) a) (failure_streak a es)"
proof (induction es arbitrary: a rule: rev_induct)
  case Nil
  then show ?case by (simp add: circuit_run_def failure_streak_def store_entry_def entry_tracks_default)
next
  case (snoc e es)
  have "entry_tracks env (store_entry (readStore (circuit_apply env (circuit_run env f es) e)) a)
     (streak_step a (failure_streak a es) e)"
    by (rule circuit_apply_tracks) (rule snoc.IH [OF snoc.prems])
  then show ?case by (simp add: circuit_run_def failure_streak_def)
qed

lemma resolveState_tracks: "entry_tracks env e ts \<Longrightarrow> resolveState e now = circuit_spec env ts now"
  by (auto simp: entry_tracks_def resolveState_def circuit_spec_def split: if_splits)

text \<open>
  C30: From an absent, unreadable or foreign store file, after any interleaved history of failures and
  successes of any adapters, the state reported for an adapter depends on its failures since its last
  success alone: closed below the threshold, then open for exactly the window after the latest failure,
  then half-open.
\<close>

theorem circuit_state_exact:
  assumes "readStore f = Map.empty"
  shows "res_state (getExecutorCircuitState (circuit_run env f es) a now)
     = circuit_spec env (failure_streak a es) now"
  using circuit_run_tracks [OF assms, of env es a]
  by (simp add: getExecutorCircuitState_def toResource_def resolveState_tracks)

theorem circuit_state_exact_witness:
  "res_state (getExecutorCircuitState
     (circuit_run \<lparr>env_threshold = None, env_open_ms = None\<rparr> Unreadable
        [Failed ''codex'' ''E'' 0, Failed ''codex'' ''E'' 1, Failed ''codex'' ''E'' 2]) ''codex'' 3) = Open"
  by (subst circuit_state_exact)
    (simp_all add: readStore_def failure_streak_def circuit_spec_def getFailureThreshold_def
      getOpenWindowMs_def parsePositiveInteger_def DEFAULT_FAILURE_THRESHOLD_def DEFAULT_OPEN_MS_def)

section \<open>Overlapping calls\<close>

text \<open>
  Two calls that are awaited concurrently interleave at their file accesses: both read the store before
  either writes it back.
\<close>

definition overlapped_failures ::
  "circuit_env \<Rightarrow> circuit_file \<Rightarrow> string \<times> string \<times> int \<Rightarrow> string \<times> string \<times> int \<Rightarrow> circuit_file" where
  "overlapped_failures env f c1 c2 =
     (let store1 = readStore f; store2 = readStore f;
          f1 = (case c1 of (a, code, t) \<Rightarrow> writeStore (failure_update env store1 a code t));
          f2 = (case c2 of (a, code, t) \<Rightarrow> writeStore (failure_update env store2 a code t))
      in f2)"

text \<open>
  Of two overlapping failure reports for different adapters the first is lost altogether, so
  failures reported together need not open the breaker of either adapter's peer: the reported entry of
  the first adapter is the one it had before.
\<close>

theorem overlapped_failures_lose_update:
  assumes "a \<noteq> b"
  shows "store_entry (readStore (overlapped_failures env f (a, c, t) (b, d, u))) a
     = store_entry (readStore f) a"
  using assms by (simp add: overlapped_failures_def failure_update_def store_entry_def Let_def)

theorem overlapped_failures_lose_update_witness:
  "consecutiveFailures (store_entry (readStore (overlapped_failures
     \<lparr>env_threshold = None, env_open_ms = None\<rparr> Unreadable (''codex'', ''E'', 0) (''claude'', ''E'', 1))) ''codex'') = 0"
  by (subst overlapped_failures_lose_update) (simp_all add: readStore_def store_entry_def defaultEntry_def)

end
