(* ===== verification/Session_Resume.thy ===== *)
theory Session_Resume
  imports Leader_Messages
begin

text \<open>
  The sanitising of a checkpoint's messages when a leader session resumes
  (\<open>apps/api/src/services/leader-session-resume-service.ts\<close>): the pairing repair, the merging of
  consecutive messages of one role, and their composition. The resume itself (database, executor and
  event projection around it) is not modelled.
\<close>

section \<open>Repairing the pairs\<close>

definition assistantToolUseIds :: "leader_message list \<Rightarrow> string list" where
  "assistantToolUseIds messages =
     List.concat (map (\<lambda>m. case m of
         MAssistant b content ae em \<Rightarrow>
           List.map_filter (\<lambda>blk. case blk of CToolUse i n inp p \<Rightarrow> Some i | _ \<Rightarrow> None) content
       | _ \<Rightarrow> []) messages)"

definition toolResultIds :: "leader_message list \<Rightarrow> string list" where
  "toolResultIds messages =
     List.map_filter (\<lambda>m. case m of MToolResult b i c e \<Rightarrow> Some i | _ \<Rightarrow> None) messages"

fun repair_message :: "(string \<Rightarrow> bool) \<Rightarrow> leader_message \<Rightarrow> leader_message option" where
  "repair_message paired (MAssistant b content ae em) =
     (let filteredContent = filter (\<lambda>blk. case blk of CToolUse i n inp p \<Rightarrow> paired i | _ \<Rightarrow> True) content
      in if filteredContent = [] then None else Some (MAssistant b filteredContent ae em))"
| "repair_message paired (MToolResult b i c e) =
     (if paired i then Some (MToolResult b i c e) else None)"
| "repair_message paired m = Some m"

definition repairToolResultPairing :: "leader_message list \<Rightarrow> leader_message list" where
  "repairToolResultPairing messages =
     (let uses = assistantToolUseIds messages; results = toolResultIds messages
      in List.map_filter (repair_message (\<lambda>i. i \<in> set uses \<and> i \<in> set results)) messages)"

definition sanitizeThinkingBlocks :: "leader_message list \<Rightarrow> leader_message list" where
  "sanitizeThinkingBlocks messages = messages"

section \<open>Alternating turns\<close>

datatype turn_role = RoleUser | RoleAssistant

fun resolveAnthropicRole :: "leader_message \<Rightarrow> turn_role" where
  "resolveAnthropicRole (MAssistant b content ae em) = RoleAssistant"
| "resolveAnthropicRole m = RoleUser"

fun is_user_block :: "content_block \<Rightarrow> bool" where
  "is_user_block (CText t) = True"
| "is_user_block (CToolResult i c e) = True"
| "is_user_block b = False"

fun asUserContentBlocks :: "leader_message \<Rightarrow> content_block list" where
  "asUserContentBlocks (MToolResult b i c e) =
     [CToolResult i c (if e = Some True then Some True else None)]"
| "asUserContentBlocks (MUser b (UStr s)) = [CText s]"
| "asUserContentBlocks (MUser b (UBlocks content)) = filter is_user_block content"
| "asUserContentBlocks m = []"

fun base_of :: "leader_message \<Rightarrow> msg_base" where
  "base_of (MUser b c) = b"
| "base_of (MAssistant b c ae em) = b"
| "base_of (MToolResult b i c e) = b"
| "base_of (MProgress b i d) = b"
| "base_of (MTombstone b is) = b"

text \<open>\<open>x ?? y\<close>, kept only when it is not the empty string.\<close>

definition carried :: "string option \<Rightarrow> string option \<Rightarrow> string option" where
  "carried x y = (let v = (case x of Some s \<Rightarrow> Some s | None \<Rightarrow> y)
                  in if v = Some [] then None else v)"

definition carried_base :: "msg_base \<Rightarrow> msg_base \<Rightarrow> msg_base" where
  "carried_base prev current =
     \<lparr>uuid = carried (uuid current) (uuid prev),
      timestamp = carried (timestamp current) (timestamp prev),
      isMeta = (if isMeta current = Some True \<or> isMeta prev = Some True then Some True else None),
      requestId = carried (requestId current) (requestId prev)\<rparr>"

definition merge_user :: "leader_message \<Rightarrow> leader_message \<Rightarrow> leader_message" where
  "merge_user prev current =
     MUser (carried_base (base_of prev) (base_of current))
       (UBlocks (asUserContentBlocks prev @ asUserContentBlocks current))"

definition meta_base :: msg_base where
  "meta_base = \<lparr>uuid = None, timestamp = None, isMeta = Some True, requestId = None\<rparr>"

text \<open>The loop: the first argument is the last message of the result so far.\<close>

fun enforce_go :: "leader_message \<Rightarrow> leader_message list \<Rightarrow> leader_message list" where
  "enforce_go prev [] = [prev]"
| "enforce_go prev (current # rest) =
     (let prevRole = resolveAnthropicRole prev; currentRole = resolveAnthropicRole current
      in if prevRole \<noteq> currentRole then prev # enforce_go current rest
         else if currentRole = RoleUser \<and> prevRole = RoleUser
         then enforce_go (merge_user prev current) rest
         else (case (prev, current) of
                 (MAssistant b c ae em, MAssistant b' c' ae' em') \<Rightarrow>
                   enforce_go (MAssistant b (c @ c') ae em) rest
               | _ \<Rightarrow>
                   if currentRole = RoleUser
                   then prev # MAssistant meta_base [CText ''[resume spacer]''] None None
                          # enforce_go current rest
                   else prev # MUser meta_base (UStr ''[resume spacer]'') # enforce_go current rest))"

definition enforceAlternatingTurns :: "leader_message list \<Rightarrow> leader_message list" where
  "enforceAlternatingTurns messages =
     (if length messages \<le> 1 then messages
      else (case messages of [] \<Rightarrow> [] | m # ms \<Rightarrow> enforce_go m ms))"

definition sanitizeResumedMessages :: "leader_message list \<Rightarrow> leader_message list" where
  "sanitizeResumedMessages messages =
     enforceAlternatingTurns (sanitizeThinkingBlocks (repairToolResultPairing messages))"

section \<open>The messages a resumed loop starts from\<close>

text \<open>
  The resume service sanitises the checkpoint and appends the new prompt, the runtime appends the
  prompt it was started with (\<open>manager-autonomous-runtime.ts\<close>), and the loop sanitises what it is
  given (\<open>autonomous-loop-service.ts\<close>).
\<close>

definition resume_messages :: "leader_message list \<Rightarrow> string option \<Rightarrow> leader_message list" where
  "resume_messages checkpoint appendMessage =
     (let messages = sanitizeResumedMessages checkpoint
      in case appendMessage of
           None \<Rightarrow> messages
         | Some a \<Rightarrow> if a = [] then messages else messages @ [MUser no_base (UStr a)])"

definition runtime_initial_messages ::
  "leader_message list \<Rightarrow> string \<Rightarrow> content_block list \<Rightarrow> string \<Rightarrow> leader_message list" where
  "runtime_initial_messages restored initialPrompt attachments reqId =
     restored @
       [MUser (no_base\<lparr>requestId := Some reqId\<rparr>)
          (if attachments \<noteq> [] then UBlocks (CText initialPrompt # attachments) else UStr initialPrompt)]"

definition loop_initial_messages :: "leader_message list \<Rightarrow> leader_message list" where
  "loop_initial_messages messages =
     (if length messages > 1 then sanitizeResumedMessages messages else messages)"

definition resumed_conversation ::
  "leader_message list \<Rightarrow> string option \<Rightarrow> string \<Rightarrow> leader_message list" where
  "resumed_conversation checkpoint appendMessage reqId =
     loop_initial_messages
       (runtime_initial_messages (resume_messages checkpoint appendMessage)
          (case appendMessage of None \<Rightarrow> [] | Some a \<Rightarrow> a) [] reqId)"

section \<open>Roles and content under merging\<close>

fun alternates :: "turn_role list \<Rightarrow> bool" where
  "alternates (r # s # rs) = (r \<noteq> s \<and> alternates (s # rs))"
| "alternates rs = True"

text \<open>
  What each side says, in order: the blocks of the assistant's messages and the text and tool results of
  the user's.
\<close>

fun spoken :: "leader_message \<Rightarrow> (turn_role \<times> content_block) list" where
  "spoken (MAssistant b content ae em) = map (Pair RoleAssistant) content"
| "spoken m = map (Pair RoleUser) (asUserContentBlocks m)"

definition transcript :: "leader_message list \<Rightarrow> (turn_role \<times> content_block) list" where
  "transcript ms = List.concat (map spoken ms)"

lemma transcript_simps [simp]:
  "transcript [] = []" "transcript (m # ms) = spoken m @ transcript ms"
  by (simp_all add: transcript_def)

lemma asUserContentBlocks_user: "list_all is_user_block (asUserContentBlocks m)"
  by (induction m rule: asUserContentBlocks.induct) (auto simp: list_all_iff)

lemma merge_user_simps [simp]:
  "resolveAnthropicRole (merge_user p c) = RoleUser"
  "spoken (merge_user p c) = map (Pair RoleUser) (asUserContentBlocks p @ asUserContentBlocks c)"
  using asUserContentBlocks_user [of p] asUserContentBlocks_user [of c]
  by (simp_all add: merge_user_def list_all_iff filter_id_conv)

lemma spoken_user:
  "resolveAnthropicRole m = RoleUser \<Longrightarrow> spoken m = map (Pair RoleUser) (asUserContentBlocks m)"
  by (cases m) auto

lemma role_assistant_iff:
  "resolveAnthropicRole m = RoleAssistant \<longleftrightarrow> (\<exists>b c ae em. m = MAssistant b c ae em)"
  by (cases m) auto

lemma role_not_user: "resolveAnthropicRole m \<noteq> RoleUser \<longleftrightarrow> resolveAnthropicRole m = RoleAssistant"
  by (cases "resolveAnthropicRole m") auto

text \<open>One step of the loop keeps the transcript and never reaches the spacers.\<close>

lemma enforce_go_step:
  "enforce_go prev (current # rest) =
     (if resolveAnthropicRole prev \<noteq> resolveAnthropicRole current then prev # enforce_go current rest
      else case (prev, current) of
        (MAssistant b c ae em, MAssistant b' c' ae' em') \<Rightarrow> enforce_go (MAssistant b (c @ c') ae em) rest
      | _ \<Rightarrow> enforce_go (merge_user prev current) rest)"
  by (cases prev; cases current) (simp_all add: Let_def)

lemma enforce_go_cases:
  assumes "resolveAnthropicRole prev \<noteq> resolveAnthropicRole current \<Longrightarrow> P (prev # enforce_go current rest)"
    and "resolveAnthropicRole prev = RoleUser \<Longrightarrow> resolveAnthropicRole current = RoleUser
           \<Longrightarrow> P (enforce_go (merge_user prev current) rest)"
    and "\<And>b c ae em b' c' ae' em'. prev = MAssistant b c ae em \<Longrightarrow> current = MAssistant b' c' ae' em'
           \<Longrightarrow> P (enforce_go (MAssistant b (c @ c') ae em) rest)"
  shows "P (enforce_go prev (current # rest))"
  using assms by (cases prev; cases current) (simp_all add: Let_def)

lemma enforce_go_transcript: "transcript (enforce_go prev ms) = spoken prev @ transcript ms"
proof (induction ms arbitrary: prev)
  case (Cons m ms)
  show ?case
    by (rule enforce_go_cases) (simp_all add: Cons.IH spoken_user)
qed simp

lemma enforce_go_roles:
  "\<exists>rs. map resolveAnthropicRole (enforce_go prev ms) = resolveAnthropicRole prev # rs
      \<and> alternates (resolveAnthropicRole prev # rs)"
proof (induction ms arbitrary: prev)
  case (Cons m ms)
  show ?case
  proof (rule enforce_go_cases)
    assume ne: "resolveAnthropicRole prev \<noteq> resolveAnthropicRole m"
    obtain rs where "map resolveAnthropicRole (enforce_go m ms) = resolveAnthropicRole m # rs"
      "alternates (resolveAnthropicRole m # rs)"
      using Cons.IH [of m] by (elim exE conjE) (rule that)
    then show "\<exists>rs. map resolveAnthropicRole (prev # enforce_go m ms) = resolveAnthropicRole prev # rs
        \<and> alternates (resolveAnthropicRole prev # rs)" using ne by auto
  next
    assume "resolveAnthropicRole prev = RoleUser"
    then show "\<exists>rs. map resolveAnthropicRole (enforce_go (merge_user prev m) ms) = resolveAnthropicRole prev # rs
        \<and> alternates (resolveAnthropicRole prev # rs)" using Cons.IH [of "merge_user prev m"] by simp
  next
    fix b c ae em b' c' ae' em'
    assume "prev = MAssistant b c ae em"
    then show "\<exists>rs. map resolveAnthropicRole (enforce_go (MAssistant b (c @ c') ae em) ms) = resolveAnthropicRole prev # rs
        \<and> alternates (resolveAnthropicRole prev # rs)" using Cons.IH [of "MAssistant b (c @ c') ae em"] by simp
  qed
qed simp

lemma enforce_transcript: "transcript (enforceAlternatingTurns ms) = transcript ms"
  by (cases ms) (auto simp: enforceAlternatingTurns_def enforce_go_transcript)

lemma enforce_alternates: "alternates (map resolveAnthropicRole (enforceAlternatingTurns ms))"
proof (cases ms)
  case (Cons m ms')
  then show ?thesis using enforce_go_roles [of m ms']
    by (cases ms') (auto simp: enforceAlternatingTurns_def simp del: enforce_go.simps)
qed (simp add: enforceAlternatingTurns_def)

section \<open>Tool events under the repair and the merging\<close>

fun spoken_events :: "turn_role \<times> content_block \<Rightarrow> tool_event list" where
  "spoken_events (RoleAssistant, blk) = assistant_block_events blk"
| "spoken_events (RoleUser, blk) = user_block_events blk"

lemma concat_map_filter_nil:
  "(\<And>x. \<not> P x \<Longrightarrow> f x = []) \<Longrightarrow> List.concat (map f (filter P xs)) = List.concat (map f xs)"
  by (induction xs) auto

lemma user_block_events_other: "\<not> is_user_block b \<Longrightarrow> user_block_events b = []"
  by (cases b) auto

lemma spoken_msg_events: "List.concat (map spoken_events (spoken m)) = msg_events m"
proof (cases m)
  case (MUser b c)
  then show ?thesis
    by (cases c) (simp_all add: comp_def concat_map_filter_nil user_block_events_other)
qed (simp_all add: comp_def)

lemma transcript_events: "tool_events ms = List.concat (map spoken_events (transcript ms))"
  by (induction ms) (simp_all add: spoken_msg_events)

lemma enforce_events: "tool_events (enforceAlternatingTurns ms) = tool_events ms"
  by (simp add: transcript_events enforce_transcript)

text \<open>No tool result is embedded in a user message: the shape a fresh session records.\<close>

fun no_embedded :: "leader_message \<Rightarrow> bool" where
  "no_embedded (MUser b (UBlocks content)) = (List.concat (map user_block_events content) = [])"
| "no_embedded m = True"

lemma use_ids_block:
  "i \<in> set (List.map_filter (\<lambda>blk. case blk of CToolUse i n inp p \<Rightarrow> Some i | _ \<Rightarrow> None) bs)
     \<longleftrightarrow> Declares i \<in> set (List.concat (map assistant_block_events bs))"
proof (induction bs)
  case (Cons b bs)
  then show ?case by (cases b) (auto simp: List.map_filter_simps)
qed (simp add: List.map_filter_simps)

lemma user_declares_nothing: "Declares i \<notin> set (List.concat (map user_block_events bs))"
proof (induction bs)
  case (Cons b bs)
  then show ?case by (cases b) auto
qed simp

lemma assistant_answers_nothing: "Answers i \<notin> set (List.concat (map assistant_block_events bs))"
proof (induction bs)
  case (Cons b bs)
  then show ?case by (cases b) auto
qed simp

lemma assistantToolUseIds_Cons:
  "assistantToolUseIds (m # ms) = assistantToolUseIds [m] @ assistantToolUseIds ms"
  by (simp add: assistantToolUseIds_def)

lemma use_ids_message: "i \<in> set (assistantToolUseIds [m]) \<longleftrightarrow> Declares i \<in> set (msg_events m)"
proof (cases m)
  case (MUser b c)
  then show ?thesis
    using user_declares_nothing [of i] by (cases c) (auto simp: assistantToolUseIds_def)
qed (simp_all add: assistantToolUseIds_def use_ids_block)

lemma use_ids: "i \<in> set (assistantToolUseIds ms) \<longleftrightarrow> Declares i \<in> set (tool_events ms)"
proof (induction ms)
  case (Cons m ms)
  then show ?case by (subst assistantToolUseIds_Cons) (simp add: use_ids_message)
qed (simp add: assistantToolUseIds_def)

lemma result_ids:
  "list_all no_embedded ms \<Longrightarrow> i \<in> set (toolResultIds ms) \<longleftrightarrow> Answers i \<in> set (tool_events ms)"
proof (induction ms)
  case (Cons m ms)
  show ?case
  proof (cases m)
    case (MUser b c)
    then show ?thesis using Cons by (cases c) (auto simp: toolResultIds_def List.map_filter_simps)
  next
    case (MAssistant b content ae em)
    then show ?thesis using Cons assistant_answers_nothing [of i content]
      by (simp add: toolResultIds_def List.map_filter_simps)
  qed (use Cons in \<open>auto simp: toolResultIds_def List.map_filter_simps\<close>)
qed (simp add: toolResultIds_def List.map_filter_simps)

lemma repair_blocks_events:
  "List.concat (map assistant_block_events
       (filter (\<lambda>blk. case blk of CToolUse i n inp p \<Rightarrow> P i | _ \<Rightarrow> True) content))
   = filter (\<lambda>e. P (event_id e)) (List.concat (map assistant_block_events content))"
proof (induction content)
  case (Cons b bs)
  then show ?case by (cases b) auto
qed simp

lemma repair_message_events:
  "no_embedded m \<Longrightarrow> (case repair_message P m of None \<Rightarrow> [] | Some m' \<Rightarrow> msg_events m')
     = filter (\<lambda>e. P (event_id e)) (msg_events m)"
proof (cases m)
  case (MAssistant b content ae em)
  then show ?thesis using repair_blocks_events [of P content] by (auto simp: Let_def)
next
  case (MUser b c)
  assume "no_embedded m"
  then show ?thesis by (cases c) (auto simp: MUser)
qed auto

lemma repair_events:
  "list_all no_embedded ms \<Longrightarrow>
     tool_events (List.map_filter (repair_message P) ms) = filter (\<lambda>e. P (event_id e)) (tool_events ms)"
proof (induction ms)
  case (Cons m ms)
  then show ?case using repair_message_events [of m P]
    by (cases "repair_message P m") (auto simp: List.map_filter_simps)
qed (simp add: List.map_filter_simps)

section \<open>Properties\<close>

text \<open>
  Merging keeps, in order, everything either side said as text, call or tool result, and its result
  alternates strictly between the two roles, whatever the checkpoint holds; no spacer is ever needed.
\<close>

theorem enforce_turns_spec:
  "transcript (enforceAlternatingTurns ms) = transcript ms
   \<and> alternates (map resolveAnthropicRole (enforceAlternatingTurns ms))"
  by (simp add: enforce_transcript enforce_alternates)

text \<open>
  A checkpoint whose tool results all stand as messages of their own resumes with exactly the calls
  and answers of the ids that have both, in their order, on strictly alternating turns.
\<close>

theorem sanitize_fresh_checkpoint:
  assumes "list_all no_embedded ms"
  shows "tool_events (sanitizeResumedMessages ms)
       = filter (\<lambda>e. Declares (event_id e) \<in> set (tool_events ms)
                    \<and> Answers (event_id e) \<in> set (tool_events ms)) (tool_events ms)
     \<and> alternates (map resolveAnthropicRole (sanitizeResumedMessages ms))"
  using assms
  by (simp add: sanitizeResumedMessages_def sanitizeThinkingBlocks_def enforce_events enforce_alternates
      repairToolResultPairing_def Let_def repair_events use_ids result_ids)

theorem sanitize_fresh_checkpoint_witness:
  "tool_events (sanitizeResumedMessages
     [MUser no_base (UStr ''go''),
      MAssistant no_base [CToolUse ''a'' ''bash'' [] None, CToolUse ''b'' ''bash'' [] None] None None,
      MToolResult no_base ''a'' (RCStr ''ok'') None, MUser no_base (UStr ''next'')])
   = [Declares ''a'', Answers ''a'']"
  by (subst sanitize_fresh_checkpoint [THEN conjunct1]) simp_all

text \<open>
  A resume forgets the tool calls whose answers stand before a prompt: its first sanitising merges
  the answer with the prompt, its second looks for answers in messages of their own only, drops the call
  and leaves the answer without one.
\<close>

theorem resume_drops_answered_call:
  "tool_events
     [MUser b0 (UStr q), MAssistant b1 [CText t, CToolUse i n inp p] ae em, MToolResult b2 i c e, MUser b3 (UStr q2)]
     = [Declares i, Answers i]
   \<and> tool_events (resumed_conversation
     [MUser b0 (UStr q), MAssistant b1 [CText t, CToolUse i n inp p] ae em, MToolResult b2 i c e, MUser b3 (UStr q2)]
     None r) = [Answers i]"
  by (simp add: resumed_conversation_def loop_initial_messages_def runtime_initial_messages_def
      resume_messages_def sanitizeResumedMessages_def sanitizeThinkingBlocks_def repairToolResultPairing_def
      assistantToolUseIds_def toolResultIds_def List.map_filter_simps enforceAlternatingTurns_def merge_user_def)

lemma map_filter_append: "List.map_filter f (xs @ ys) = List.map_filter f xs @ List.map_filter f ys"
  by (simp add: List.map_filter_def)

lemma transcript_append: "transcript (xs @ ys) = transcript xs @ transcript ys"
  by (simp add: transcript_def)

text \<open>
  A prompt appended to a resumed session reaches the model twice: the resume service appends it to
  the restored messages and the runtime appends it again.
\<close>

theorem resume_repeats_prompt:
  assumes "a \<noteq> []"
  shows "\<exists>earlier. transcript (resumed_conversation checkpoint (Some a) r)
      = earlier @ [(RoleUser, CText a), (RoleUser, CText a)]"
  using assms
  by (simp add: resumed_conversation_def loop_initial_messages_def runtime_initial_messages_def
      resume_messages_def sanitizeResumedMessages_def sanitizeThinkingBlocks_def repairToolResultPairing_def
      enforce_transcript map_filter_append List.map_filter_simps transcript_append Let_def)

theorem resume_repeats_prompt_witness:
  "\<exists>earlier. transcript (resumed_conversation [] (Some ''continue'') ''r1'')
      = earlier @ [(RoleUser, CText ''continue''), (RoleUser, CText ''continue'')]"
  by (rule resume_repeats_prompt) simp

text \<open>
  A prompt with attached images that directly follows a tool result loses them on resume: the
  merged message holds the tool result and the prompt's text and results, and no image.
\<close>

theorem merge_drops_images:
  "\<exists>b. enforceAlternatingTurns [MToolResult b2 i c e, MUser b3 (UBlocks content)]
        = [MUser b (UBlocks (CToolResult i c (if e = Some True then Some True else None)
                              # filter is_user_block content))]
      \<and> \<not> list_ex (\<lambda>blk. case blk of CImage mt d \<Rightarrow> True | _ \<Rightarrow> False) (filter is_user_block content)"
proof -
  have "\<not> list_ex (\<lambda>blk. case blk of CImage mt d \<Rightarrow> True | _ \<Rightarrow> False) (filter is_user_block content)"
    by (auto simp: list_ex_iff split: content_block.splits)
  then show ?thesis by (simp add: enforceAlternatingTurns_def merge_user_def)
qed

end
