(* ===== verification/Plan_Mode.thy ===== *)
theory Plan_Mode
  imports Session_Resume
begin

text \<open>
  The plan mode of the leader loop
  (\<open>apps/api/src/services/manager-automation/autonomous-loop/plan-mode-state.ts\<close> and the preflight in
  \<open>autonomous-loop-service.ts\<close>): the three states, their derivation from the recorded messages, the
  recognition of the user's answer to a plan and its substitution in the record.

  The phrase tables hold the ASCII phrases; the Chinese ones lie outside the represented characters, as
  do the emoji that the normalisation removes.
\<close>

datatype plan_state = IDLE | PLANNING | AWAITING_APPROVAL

definition isInPlanMode :: "plan_state \<Rightarrow> bool" where
  "isInPlanMode state = (state = PLANNING \<or> state = AWAITING_APPROVAL)"

section \<open>Derivation from the messages\<close>

fun userTextBlocks :: "user_content \<Rightarrow> string list" where
  "userTextBlocks (UStr s) = [s]"
| "userTextBlocks (UBlocks bs) =
     List.map_filter (\<lambda>b. case b of CText t \<Rightarrow> Some t | _ \<Rightarrow> None) bs"

fun derive_assistant_block :: "content_block \<Rightarrow> plan_state \<Rightarrow> plan_state" where
  "derive_assistant_block (CToolUse i name inp p) state =
     (if name = ''enter_plan_mode'' then (if state = IDLE then PLANNING else state)
      else if name = ''exit_plan_mode'' then (if state = PLANNING then AWAITING_APPROVAL else state)
      else state)"
| "derive_assistant_block b state = state"

fun derive_user_texts :: "string list \<Rightarrow> plan_state \<Rightarrow> plan_state" where
  "derive_user_texts [] state = state"
| "derive_user_texts (text1 # texts) state =
     (let trimmed = js_trim text1
      in if trimmed = ''[user approved the plan]'' \<or> trimmed = ''[user cancelled the plan]'' then IDLE
         else if starts_with trimmed ''[user requested revision:'' \<and> ends_with trimmed '']'' then PLANNING
         else derive_user_texts texts state)"

fun derive_message :: "leader_message \<Rightarrow> plan_state \<Rightarrow> plan_state" where
  "derive_message (MAssistant b content ae em) state = fold derive_assistant_block content state"
| "derive_message (MUser b content) state = derive_user_texts (userTextBlocks content) state"
| "derive_message m state = state"

definition derivePlanStateFromMessages :: "leader_message list \<Rightarrow> plan_state" where
  "derivePlanStateFromMessages messages = fold derive_message messages IDLE"

section \<open>The open plan in the event log\<close>

record plan_event_like =
  pe_type :: string
  pe_payloadJson :: "json_text option"

text \<open>\<open>None\<close> for an absent payload, one that does not parse, and one that is not an object.\<close>

definition parsePayload :: "json_text option \<Rightarrow> (string \<times> json) list option" where
  "parsePayload raw = (case raw of Some (Some (JObj p)) \<Rightarrow> Some p | _ \<Rightarrow> None)"

definition payload_requestId :: "json_text option \<Rightarrow> string option" where
  "payload_requestId raw =
     (case parsePayload raw of
        None \<Rightarrow> None
      | Some p \<Rightarrow> (case obj_get p ''requestId'' of
                     Some (JStr s) \<Rightarrow> if s = [] then None else Some s
                   | _ \<Rightarrow> None))"

definition plan_event_step :: "plan_event_like \<Rightarrow> string option \<Rightarrow> string option" where
  "plan_event_step ev open_id =
     (if pe_type ev \<noteq> ''leader.plan_proposed'' \<and> pe_type ev \<noteq> ''leader.plan_mode_exited'' then open_id
      else case payload_requestId (pe_payloadJson ev) of
             None \<Rightarrow> open_id
           | Some reqId \<Rightarrow>
               if pe_type ev = ''leader.plan_proposed'' then Some reqId
               else if pe_type ev = ''leader.plan_mode_exited'' \<and> open_id = Some reqId then None
               else open_id)"

definition findOpenPlanRequestId :: "plan_event_like list \<Rightarrow> string option" where
  "findOpenPlanRequestId events = fold plan_event_step events None"

section \<open>The user's answer\<close>

definition PLAN_TOKEN_APPROVED :: string where "PLAN_TOKEN_APPROVED = ''__PLAN_APPROVED__''"
definition PLAN_TOKEN_CANCELLED :: string where "PLAN_TOKEN_CANCELLED = ''__PLAN_CANCELLED__''"
definition PLAN_TOKEN_REVISED_PREFIX :: string where "PLAN_TOKEN_REVISED_PREFIX = ''__PLAN_REVISED__:''"

datatype plan_response = PlanApproved | PlanCancelled | PlanRevised string

definition NL_APPROVED_PHRASES :: "string list" where
  "NL_APPROVED_PHRASES =
     [''approve'', ''approved'', ''ok'', ''okay'', ''k'', ''lgtm'',
      ''yes'', ''y'', ''yep'', ''yeah'', ''go'', ''go ahead'', ''ship it'', ''ship'',
      ''do it'', ''looks good'', ''looks great'', ''sounds good'', ''good'',
      ''perfect'', ''great'', ''agreed'', ''agree'']"

definition NL_CANCELLED_PHRASES :: "string list" where
  "NL_CANCELLED_PHRASES =
     [''cancel'', ''cancelled'', ''canceled'', ''no'', ''n'', ''nope'', ''stop'',
      ''abort'', ''never mind'', ''nevermind'', ''abandon'', ''don'' @ [CHR 0x27] @ ''t'', ''dont'']"

definition NL_PHRASE_MAX_LENGTH :: nat where "NL_PHRASE_MAX_LENGTH = 25"

definition normalizeNLPlanResponse :: "string \<Rightarrow> string" where
  "normalizeNLPlanResponse t =
     js_trim (rev (dropWhile (\<lambda>c. c \<in> set ''!?.,'') (rev (to_lower (js_trim t)))))"

definition detectPlanResponse :: "string \<Rightarrow> plan_response option" where
  "detectPlanResponse t =
     (let trimmed = js_trim t in
      if trimmed = PLAN_TOKEN_APPROVED then Some PlanApproved
      else if trimmed = PLAN_TOKEN_CANCELLED then Some PlanCancelled
      else if starts_with trimmed PLAN_TOKEN_REVISED_PREFIX
      then Some (PlanRevised (js_trim (drop (length PLAN_TOKEN_REVISED_PREFIX) trimmed)))
      else let normalized = normalizeNLPlanResponse trimmed in
           if length normalized = 0 \<or> length normalized > NL_PHRASE_MAX_LENGTH then None
           else if normalized \<in> set NL_APPROVED_PHRASES then Some PlanApproved
           else if normalized \<in> set NL_CANCELLED_PHRASES then Some PlanCancelled
           else None)"

fun syntheticSubstituteFor :: "plan_response \<Rightarrow> string" where
  "syntheticSubstituteFor PlanApproved = ''[user approved the plan]''"
| "syntheticSubstituteFor PlanCancelled = ''[user cancelled the plan]''"
| "syntheticSubstituteFor (PlanRevised feedback) = ''[user requested revision: '' @ feedback @ '']''"

definition nl :: string where "nl = [CHR 0x0A]"

fun systemPromptAddendumFor :: "plan_response \<Rightarrow> string" where
  "systemPromptAddendumFor PlanApproved =
     nl @ nl @ ''The user has approved your plan. Execute it now. Do not re-plan unless you encounter something unexpected.''"
| "systemPromptAddendumFor (PlanRevised feedback) =
     nl @ nl @ ''The user requested a revision: '' @ feedback @ nl @ nl
     @ ''You are still in plan mode. Update your plan accordingly and call exit_plan_mode again.''"
| "systemPromptAddendumFor PlanCancelled =
     nl @ nl @ ''The user cancelled the plan. Stop. Do not execute. Acknowledge the cancellation and end the turn.''"

section \<open>Substitution in the record\<close>

fun lastUserMessageIndex_rev :: "leader_message list \<Rightarrow> nat option" where
  "lastUserMessageIndex_rev [] = None"
| "lastUserMessageIndex_rev (m # earlier) =
     (case m of MUser b c \<Rightarrow> Some (length earlier) | _ \<Rightarrow> lastUserMessageIndex_rev earlier)"

text \<open>The scan from the end; \<open>None\<close> is the code's \<open>-1\<close>.\<close>

definition lastUserMessageIndex :: "leader_message list \<Rightarrow> nat option" where
  "lastUserMessageIndex messages = lastUserMessageIndex_rev (rev messages)"

fun substitute_content :: "string \<Rightarrow> user_content \<Rightarrow> user_content" where
  "substitute_content replacement (UStr s) = UStr replacement"
| "substitute_content replacement (UBlocks bs) =
     UBlocks (map (\<lambda>b. case b of CText t \<Rightarrow> CText replacement | _ \<Rightarrow> b) bs)"

definition stripSentinelFromMessages ::
  "leader_message list \<Rightarrow> plan_response \<Rightarrow> leader_message list" where
  "stripSentinelFromMessages messages response =
     (if messages = [] then messages
      else case lastUserMessageIndex messages of
             None \<Rightarrow> messages
           | Some lastIdx \<Rightarrow>
               (case messages ! lastIdx of
                  MUser b c \<Rightarrow> messages[lastIdx := MUser b (substitute_content (syntheticSubstituteFor response) c)]
                | _ \<Rightarrow> messages))"

section \<open>Transitions and the preflight\<close>

datatype plan_event = PlanModeEntered | PlanProposed | PlanModeExited "plan_response option"

fun transitionPlanState :: "plan_state \<Rightarrow> plan_event \<Rightarrow> plan_state" where
  "transitionPlanState current PlanModeEntered = (if current = IDLE then PLANNING else current)"
| "transitionPlanState current PlanProposed = (if current = PLANNING then AWAITING_APPROVAL else current)"
| "transitionPlanState current (PlanModeExited reason) =
     (case reason of Some (PlanRevised f) \<Rightarrow> PLANNING | _ \<Rightarrow> IDLE)"

fun lastUserMessageText_rev :: "leader_message list \<Rightarrow> string option" where
  "lastUserMessageText_rev [] = None"
| "lastUserMessageText_rev (m # earlier) =
     (case m of
        MUser b c \<Rightarrow>
          (case c of
             UStr s \<Rightarrow> Some s
           | UBlocks bs \<Rightarrow> if userTextBlocks c \<noteq> [] then Some (js_join nl (userTextBlocks c)) else None)
      | _ \<Rightarrow> lastUserMessageText_rev earlier)"

definition lastUserMessageText :: "leader_message list \<Rightarrow> string option" where
  "lastUserMessageText messages = lastUserMessageText_rev (rev messages)"

text \<open>
  The preflight of a turn: the state and the two message lists (the one for the model and the durable
  one) before and after, and the answer it recognised.
\<close>

record plan_turn =
  pt_state :: plan_state
  pt_forModel :: "leader_message list"
  pt_current :: "leader_message list"

definition plan_preflight :: "plan_turn \<Rightarrow> plan_turn \<times> plan_response option" where
  "plan_preflight s =
     (if pt_state s \<noteq> AWAITING_APPROVAL then (s, None)
      else let lastUser = lastUserMessageText (pt_forModel s);
               detected = (if truthy_str lastUser then detectPlanResponse (the lastUser) else None)
           in case detected of
                None \<Rightarrow> (s, None)
              | Some r \<Rightarrow>
                  (\<lparr>pt_state = transitionPlanState (pt_state s) (PlanModeExited (Some r)),
                    pt_forModel = stripSentinelFromMessages (pt_forModel s) r,
                    pt_current = stripSentinelFromMessages (pt_current s) r\<rparr>, Some r))"

section \<open>Signals\<close>

text \<open>What one text block of a user message tells the derivation, and the first such block.\<close>

definition text_signal :: "string \<Rightarrow> plan_state option" where
  "text_signal t =
     (let trimmed = js_trim t
      in if trimmed = ''[user approved the plan]'' \<or> trimmed = ''[user cancelled the plan]'' then Some IDLE
         else if starts_with trimmed ''[user requested revision:'' \<and> ends_with trimmed '']'' then Some PLANNING
         else None)"

fun first_signal :: "string list \<Rightarrow> plan_state option" where
  "first_signal [] = None"
| "first_signal (t # ts) = (case text_signal t of None \<Rightarrow> first_signal ts | Some s \<Rightarrow> Some s)"

lemma derive_user_texts_signal:
  "derive_user_texts ts st = (case first_signal ts of None \<Rightarrow> st | Some s \<Rightarrow> s)"
  by (induction ts) (auto simp: text_signal_def Let_def)

lemma first_signal_append:
  "first_signal (ts @ us) = (case first_signal ts of None \<Rightarrow> first_signal us | Some s \<Rightarrow> Some s)"
  by (induction ts) (auto split: option.splits)

lemma first_signal_const: "first_signal (map (\<lambda>_. x) ts) = (if ts = [] then None else text_signal x)"
  by (induction ts) (auto split: option.splits)

lemma bracketed_trim: "js_trim (CHR ''['' # s @ [CHR '']'']) = CHR ''['' # s @ [CHR '']'']"
  by (rule js_trim_id) (simp_all add: is_ws_def)

lemma substitute_signal:
  "text_signal (syntheticSubstituteFor r) = Some (transitionPlanState st (PlanModeExited (Some r)))"
proof (cases r)
  case PlanApproved
  have "js_trim ''[user approved the plan]'' = ''[user approved the plan]''"
    using bracketed_trim [of "''user approved the plan''"] by simp
  then show ?thesis by (simp add: PlanApproved text_signal_def)
next
  case PlanCancelled
  have "js_trim ''[user cancelled the plan]'' = ''[user cancelled the plan]''"
    using bracketed_trim [of "''user cancelled the plan''"] by simp
  then show ?thesis by (simp add: PlanCancelled text_signal_def)
next
  case (PlanRevised f)
  have "js_trim (''[user requested revision: '' @ f @ '']'') = ''[user requested revision: '' @ f @ '']''"
    using bracketed_trim [of "''user requested revision: '' @ f"] by simp
  moreover have "ends_with (''[user requested revision: '' @ f @ '']'') '']''"
    unfolding ends_with_iff by (metis append.assoc)
  ultimately show ?thesis by (simp add: PlanRevised text_signal_def)
qed

lemma userTextBlocks_substitute:
  "userTextBlocks (substitute_content x c) = map (\<lambda>_. x) (userTextBlocks c)"
proof (cases c)
  case (UBlocks bs)
  show ?thesis unfolding UBlocks
  proof (induction bs)
    case (Cons b bs)
    then show ?case by (cases b) (auto simp: List.map_filter_simps)
  qed (simp add: List.map_filter_simps)
qed simp

lemma derive_snoc:
  "derivePlanStateFromMessages (ms @ [m]) = derive_message m (derivePlanStateFromMessages ms)"
  by (simp add: derivePlanStateFromMessages_def)

lemma strip_snoc:
  "stripSentinelFromMessages (ms @ [MUser b c]) r
     = ms @ [MUser b (substitute_content (syntheticSubstituteFor r) c)]"
  by (simp add: stripSentinelFromMessages_def lastUserMessageIndex_def list_update_append)

lemma preflight_text:
  "lastUserMessageText (ms @ [MUser b c]) = Some t \<Longrightarrow> userTextBlocks c \<noteq> []"
  by (cases c) (auto simp: lastUserMessageText_def split: if_splits)

section \<open>Substitutes are not answers\<close>

lemma bracket_not_phrase:
  assumes "list_all (\<lambda>p. p \<noteq> [] \<and> hd p \<noteq> CHR ''['') ps" and "w = [] \<or> hd w = CHR ''[''"
  shows "w \<notin> set ps"
  using assms by (auto simp: list_all_iff)

lemma normalize_bracketed:
  "normalizeNLPlanResponse (CHR ''['' # s @ [CHR '']'']) = CHR ''['' # to_lower s @ [CHR '']'']"
proof -
  have "to_lower (CHR ''['' # s @ [CHR '']'']) = CHR ''['' # to_lower s @ [CHR '']'']"
    by (simp add: to_lower_def lower_char_def)
  then show ?thesis by (simp add: normalizeNLPlanResponse_def bracketed_trim)
qed

text \<open>
  The substitute that the preflight leaves in the record is not itself recognised as an answer,
  so a turn that sees it again does not exit the plan mode a second time.
\<close>

theorem substitute_not_an_answer: "detectPlanResponse (syntheticSubstituteFor r) = None"
proof -
  obtain s where s: "syntheticSubstituteFor r = CHR ''['' # s @ [CHR '']'']"
  proof (cases r)
    case PlanApproved
    then show ?thesis using that [of "''user approved the plan''"] by simp
  next
    case PlanCancelled
    then show ?thesis using that [of "''user cancelled the plan''"] by simp
  next
    case (PlanRevised f)
    then show ?thesis using that [of "''user requested revision: '' @ f"] by simp
  qed
  have "normalizeNLPlanResponse (CHR ''['' # s @ [CHR '']'']) \<notin> set NL_APPROVED_PHRASES"
    by (rule bracket_not_phrase) (simp_all add: normalize_bracketed NL_APPROVED_PHRASES_def)
  moreover have "normalizeNLPlanResponse (CHR ''['' # s @ [CHR '']'']) \<notin> set NL_CANCELLED_PHRASES"
    by (rule bracket_not_phrase) (simp_all add: normalize_bracketed NL_CANCELLED_PHRASES_def)
  ultimately show ?thesis
    by (simp add: s detectPlanResponse_def bracketed_trim PLAN_TOKEN_APPROVED_def PLAN_TOKEN_CANCELLED_def
        PLAN_TOKEN_REVISED_PREFIX_def Let_def)
qed

section \<open>The open plan\<close>

definition proposes :: "string \<Rightarrow> plan_event_like \<Rightarrow> bool" where
  "proposes r e \<longleftrightarrow> pe_type e = ''leader.plan_proposed'' \<and> payload_requestId (pe_payloadJson e) = Some r"

definition exits :: "string \<Rightarrow> plan_event_like \<Rightarrow> bool" where
  "exits r e \<longleftrightarrow> pe_type e = ''leader.plan_mode_exited'' \<and> payload_requestId (pe_payloadJson e) = Some r"

lemma plan_event_step_cases:
  "plan_event_step e cur = Some r \<longleftrightarrow>
     proposes r e \<or> (cur = Some r \<and> (\<forall>q. \<not> proposes q e) \<and> \<not> exits r e)"
  by (auto simp: plan_event_step_def proposes_def exits_def split: option.splits)

lemma findOpenPlanRequestId_iff:
  "findOpenPlanRequestId es = Some r \<longleftrightarrow>
     (\<exists>before e after. es = before @ e # after \<and> proposes r e
        \<and> (\<forall>x\<in>set after. (\<forall>q. \<not> proposes q x) \<and> \<not> exits r x))"
  (is "?L es \<longleftrightarrow> ?R es")
proof (induction es rule: rev_induct)
  case Nil
  then show ?case by (simp add: findOpenPlanRequestId_def)
next
  case (snoc x es)
  note IH = snoc.IH
  have step: "?L (es @ [x]) \<longleftrightarrow> proposes r x \<or> (?L es \<and> (\<forall>q. \<not> proposes q x) \<and> \<not> exits r x)"
    by (simp add: findOpenPlanRequestId_def plan_event_step_cases)
  show ?case
  proof
    assume "?L (es @ [x])"
    then consider "proposes r x" | "?R es" "(\<forall>q. \<not> proposes q x) \<and> \<not> exits r x"
      unfolding step IH by blast
    then show "?R (es @ [x])"
    proof cases
      case 1
      then have "es @ [x] = es @ x # [] \<and> proposes r x" by simp
      then show ?thesis by fastforce
    next
      case 2
      then obtain before e after where "es = before @ e # after" "proposes r e"
        "\<forall>y\<in>set after. (\<forall>q. \<not> proposes q y) \<and> \<not> exits r y" by blast
      then have "es @ [x] = before @ e # (after @ [x]) \<and> proposes r e
          \<and> (\<forall>y\<in>set (after @ [x]). (\<forall>q. \<not> proposes q y) \<and> \<not> exits r y)" using 2 by auto
      then show ?thesis by blast
    qed
  next
    assume "?R (es @ [x])"
    then obtain before e after where eq: "es @ [x] = before @ e # after" and e: "proposes r e"
      and after: "\<forall>y\<in>set after. (\<forall>q. \<not> proposes q y) \<and> \<not> exits r y" by blast
    show "?L (es @ [x])"
    proof (cases after rule: rev_cases)
      case Nil
      then have "e = x" using eq by simp
      then show ?thesis using e by (simp add: step)
    next
      case (snoc ws w)
      then have es: "es = before @ e # ws" and "w = x" using eq by (metis append_Cons append_assoc append1_eq_conv)+
      have "?R es" using es e after snoc by auto
      then show ?thesis using after snoc \<open>w = x\<close> by (simp add: step IH)
    qed
  qed
qed

text \<open>
  The plan reported as open is the last one proposed, and only if no exit of that very plan was
  recorded behind its proposal; exits of other plans and malformed payloads do not matter.
\<close>

theorem findOpenPlanRequestId_exact:
  "findOpenPlanRequestId es = Some r \<longleftrightarrow>
     (\<exists>before e after. es = before @ e # after \<and> proposes r e
        \<and> list_all (\<lambda>x. (\<forall>q. \<not> proposes q x) \<and> \<not> exits r x) after)"
  unfolding findOpenPlanRequestId_iff list_all_iff ..

section \<open>Resuming in plan mode\<close>

text \<open>
  The signal a message of the user's side carries, and a history in which no run of consecutive
  user-side messages carries two different ones.
\<close>

fun msg_signal :: "leader_message \<Rightarrow> plan_state option" where
  "msg_signal (MUser b c) = first_signal (userTextBlocks c)"
| "msg_signal m = None"

fun consistent_runs :: "plan_state option \<Rightarrow> leader_message list \<Rightarrow> bool" where
  "consistent_runs run [] = True"
| "consistent_runs run (m # ms) =
     (if resolveAnthropicRole m = RoleAssistant then consistent_runs None ms
      else (run = None \<or> msg_signal m = None \<or> msg_signal m = run)
           \<and> consistent_runs (case msg_signal m of None \<Rightarrow> run | Some s \<Rightarrow> Some s) ms)"

lemma texts_of_user_blocks:
  "List.map_filter (\<lambda>b. case b of CText t \<Rightarrow> Some t | _ \<Rightarrow> None) (filter is_user_block bs)
     = List.map_filter (\<lambda>b. case b of CText t \<Rightarrow> Some t | _ \<Rightarrow> None) bs"
proof (induction bs)
  case (Cons b bs)
  then show ?case by (cases b) (auto simp: List.map_filter_simps)
qed (simp add: List.map_filter_simps)

lemma msg_signal_blocks:
  "resolveAnthropicRole m = RoleUser \<Longrightarrow>
     first_signal (List.map_filter (\<lambda>b. case b of CText t \<Rightarrow> Some t | _ \<Rightarrow> None) (asUserContentBlocks m))
       = msg_signal m"
proof (cases m)
  case (MUser b c)
  then show ?thesis by (cases c) (simp_all add: texts_of_user_blocks List.map_filter_simps)
qed (simp_all add: List.map_filter_simps)

lemma msg_signal_merge:
  assumes "resolveAnthropicRole p = RoleUser" and "resolveAnthropicRole c = RoleUser"
  shows "msg_signal (merge_user p c) = (case msg_signal p of None \<Rightarrow> msg_signal c | Some s \<Rightarrow> Some s)"
  using msg_signal_blocks [OF assms(1)] msg_signal_blocks [OF assms(2)]
  by (simp add: merge_user_def map_filter_append first_signal_append split: option.splits)

lemma derive_user_side:
  "resolveAnthropicRole m = RoleUser \<Longrightarrow>
     derive_message m st = (case msg_signal m of None \<Rightarrow> st | Some s \<Rightarrow> s)"
  by (cases m) (simp_all add: derive_user_texts_signal)

lemma consistent_runs_None:
  "consistent_runs run ms \<Longrightarrow> consistent_runs None ms"
proof (induction ms arbitrary: run)
  case (Cons m ms)
  then show ?case by (auto split: option.splits if_splits)
qed simp

lemma enforce_go_derive:
  "consistent_runs (if resolveAnthropicRole prev = RoleUser then msg_signal prev else None) ms \<Longrightarrow>
     fold derive_message (enforce_go prev ms) st = fold derive_message (prev # ms) st"
proof (induction ms arbitrary: prev st)
  case (Cons m ms)
  show ?case
  proof (cases "resolveAnthropicRole prev")
    case u: RoleUser
    show ?thesis
    proof (cases "resolveAnthropicRole m")
      case RoleUser
      have step: "enforce_go prev (m # ms) = enforce_go (merge_user prev m) ms"
        using u RoleUser by simp
      have run: "msg_signal prev = None \<or> msg_signal m = None \<or> msg_signal m = msg_signal prev"
        "consistent_runs (case msg_signal m of None \<Rightarrow> msg_signal prev | Some s \<Rightarrow> Some s) ms"
        using Cons.prems u RoleUser by auto
      then have "consistent_runs (msg_signal (merge_user prev m)) ms"
        by (auto simp: msg_signal_merge [OF u RoleUser] split: option.splits)
      then have "fold derive_message (enforce_go (merge_user prev m) ms) st
          = fold derive_message (merge_user prev m # ms) st" by (intro Cons.IH) simp
      moreover have "derive_message (merge_user prev m) st = derive_message m (derive_message prev st)"
        using run(1) by (auto simp: derive_user_side u RoleUser msg_signal_merge split: option.splits)
      ultimately show ?thesis using step by (simp del: enforce_go.simps)
    next
      case RoleAssistant
      then show ?thesis using Cons.IH [of m] Cons.prems u by simp
    qed
  next
    case a: RoleAssistant
    then obtain b c ae em where prev: "prev = MAssistant b c ae em" by (auto simp: role_assistant_iff)
    show ?thesis
    proof (cases m)
      case (MAssistant b' c' ae' em')
      have "consistent_runs None ms" using Cons.prems a MAssistant by simp
      then show ?thesis using Cons.IH [of "MAssistant b (c @ c') ae em"] by (simp add: prev MAssistant)
    qed (use Cons.IH [of m] Cons.prems a prev in \<open>auto split: option.splits\<close>)
  qed
qed simp

text \<open>
  Merging the turns of a history does not change the plan state derived from it, as long as no run
  of user-side messages carries contradictory answers.
\<close>

theorem merging_keeps_plan_state:
  assumes "consistent_runs None ms"
  shows "derivePlanStateFromMessages (enforceAlternatingTurns ms) = derivePlanStateFromMessages ms"
proof (cases ms)
  case (Cons m ms')
  have "consistent_runs (if resolveAnthropicRole m = RoleUser then msg_signal m else None) ms'"
    using assms Cons consistent_runs_None
    by (cases "resolveAnthropicRole m") (auto split: option.splits if_splits)
  then show ?thesis
    using enforce_go_derive [of m ms' IDLE]
    by (cases ms') (auto simp: Cons derivePlanStateFromMessages_def enforceAlternatingTurns_def
        simp del: enforce_go.simps)
qed (simp add: enforceAlternatingTurns_def)

theorem merging_keeps_plan_state_witness:
  "derivePlanStateFromMessages (enforceAlternatingTurns
     [MAssistant no_base [CToolUse ''a'' ''enter_plan_mode'' [] None, CToolUse ''b'' ''exit_plan_mode'' [] None] None None,
      MToolResult no_base ''b'' (RCStr ''ok'') None,
      MUser no_base (UStr ''[user approved the plan]''), MUser no_base (UStr ''and be quick'')]) = IDLE"
  by (subst merging_keeps_plan_state)
    (simp_all add: derivePlanStateFromMessages_def text_signal_def js_trim_def trim_start_def trim_end_def
      is_ws_def Let_def)

text \<open>
  A resume can end the plan mode: when the answer to \<open>enter_plan_mode\<close> stands before a prompt in the
  checkpoint, the double sanitising drops the call, and the resumed loop derives that it is not in plan
  mode although the run was planning.
\<close>

theorem resume_leaves_plan_mode:
  assumes "text_signal q = None" and "text_signal q2 = None"
  shows "derivePlanStateFromMessages
       [MUser b0 (UStr q), MAssistant b1 [CToolUse i ''enter_plan_mode'' inp p] ae em,
        MToolResult b2 i c e, MUser b3 (UStr q2)] = PLANNING
    \<and> derivePlanStateFromMessages (resumed_conversation
       [MUser b0 (UStr q), MAssistant b1 [CToolUse i ''enter_plan_mode'' inp p] ae em,
        MToolResult b2 i c e, MUser b3 (UStr q2)] None r) = IDLE"
proof -
  have empty: "text_signal [] = None" by (simp add: text_signal_def js_trim_def trim_start_def trim_end_def)
  show ?thesis
    using assms empty
    by (simp add: derivePlanStateFromMessages_def derive_user_texts_signal resumed_conversation_def
        loop_initial_messages_def runtime_initial_messages_def resume_messages_def
        sanitizeResumedMessages_def sanitizeThinkingBlocks_def repairToolResultPairing_def
        assistantToolUseIds_def toolResultIds_def List.map_filter_simps enforceAlternatingTurns_def
        merge_user_def)
qed

theorem resume_leaves_plan_mode_witness:
  "derivePlanStateFromMessages (resumed_conversation
       [MUser no_base (UStr ''plan it''),
        MAssistant no_base [CToolUse ''a'' ''enter_plan_mode'' [] None] None None,
        MToolResult no_base ''a'' (RCStr ''ok'') None, MUser no_base (UStr ''hurry'')] None ''r'') = IDLE"
  by (rule resume_leaves_plan_mode [THEN conjunct2])
    (simp_all add: text_signal_def js_trim_def trim_start_def trim_end_def is_ws_def Let_def)

end
