(* ===== verification/Plan_Recovery.thy ===== *)
theory Plan_Recovery
  imports Plan_Mode Message_Compaction
begin

text \<open>
  The plan mode across the life of a task: what the loop records of it and how a later run finds it again
  (\<open>autonomous-loop-service.ts\<close>, the plan tools of \<open>manager-tools-adapter.ts\<close> and the start of a run in
  \<open>process-task-intent-service.ts\<close>). The state lives in memory; the messages and the event log are durable. Prompts, answers of the model,
  the forced entry of a plan-first run, compaction and restarts are steps of one machine.

  A call of a plan tool that its gate admits goes through: the schema of \<open>exit_plan_mode\<close> and the refusal of forced tool choices are left out, for
  which see the last lemma. Recording an event succeeds, and the log can be read at the start of a run.
\<close>

section \<open>Recording\<close>

record plan_run =
  pnRequest :: string
  pnState :: plan_state
  pnOpen :: "string option"
  pnMessages :: "leader_message list"
  pnLog :: "plan_event_like list"
  pnExact :: bool

fun plan_event_type :: "plan_event \<Rightarrow> string" where
  "plan_event_type PlanModeEntered = ''leader.plan_mode_entered''"
| "plan_event_type PlanProposed = ''leader.plan_proposed''"
| "plan_event_type (PlanModeExited r) = ''leader.plan_mode_exited''"

definition recorded_event :: "string \<Rightarrow> plan_event \<Rightarrow> plan_event_like" where
  "recorded_event i ev = \<lparr>pe_type = plan_event_type ev, pe_payloadJson = Some (Some (JObj [(''requestId'', JStr i)]))\<rparr>"

text \<open>An exit is stamped with the request of the proposal it answers. \<open>pnOpen\<close> is \<open>currentPlanRequestId\<close>.\<close>

definition planAwareRecordEvent :: "plan_event \<Rightarrow> plan_run \<Rightarrow> plan_run" where
  "planAwareRecordEvent ev s =
    (let i = (case ev of PlanModeExited r \<Rightarrow> if truthy_str (pnOpen s) then the (pnOpen s) else pnRequest s | _ \<Rightarrow> pnRequest s)
     in s\<lparr>pnLog := pnLog s @ [recorded_event i ev], pnState := transitionPlanState (pnState s) ev,
          pnOpen := (case ev of PlanModeEntered \<Rightarrow> pnOpen s
                     | PlanProposed \<Rightarrow> if pnRequest s \<noteq> [] then Some (pnRequest s) else pnOpen s
                     | PlanModeExited r \<Rightarrow> None)\<rparr>)"

text \<open>The two tools. Each sees the state that the calls before it in the same turn have left.\<close>

fun call_plan_tool :: "content_block \<Rightarrow> plan_run \<Rightarrow> plan_run" where
  "call_plan_tool (CToolUse i name inp p) s =
    (if name = ''enter_plan_mode'' then (if isInPlanMode (pnState s) then s else planAwareRecordEvent PlanModeEntered s)
     else if name = ''exit_plan_mode''
     then (if \<not> isInPlanMode (pnState s) \<or> pnState s = AWAITING_APPROVAL then s else planAwareRecordEvent PlanProposed s)
     else s)"
| "call_plan_tool b s = s"

definition push :: "leader_message list \<Rightarrow> plan_run \<Rightarrow> plan_run" where
  "push ms s = s\<lparr>pnMessages := pnMessages s @ ms\<rparr>"

text \<open>The preflight of a turn; \<open>for_model\<close> is the list that goes to the model.\<close>

definition preflight_run :: "leader_message list \<Rightarrow> plan_run \<Rightarrow> plan_run" where
  "preflight_run for_model s =
    (case plan_preflight \<lparr>pt_state = pnState s, pt_forModel = for_model, pt_current = pnMessages s\<rparr> of
       (t, None) \<Rightarrow> s
     | (t, Some r) \<Rightarrow> (planAwareRecordEvent (PlanModeExited (Some r)) s)\<lparr>pnMessages := pt_current t\<rparr>)"

text \<open>A run that is asked to plan first.\<close>

definition force_plan :: "plan_run \<Rightarrow> plan_run" where
  "force_plan s = (if pnState s = IDLE then (planAwareRecordEvent PlanModeEntered s)\<lparr>pnExact := False\<rparr> else s)"

text \<open>The start of a run on stored messages: the open proposal of the log decides, and otherwise what the messages say.\<close>

definition restart_run :: "string \<Rightarrow> leader_message list \<Rightarrow> plan_run \<Rightarrow> plan_run" where
  "restart_run r ms s =
    (let open_plan = (if ms = [] then None else findOpenPlanRequestId (pnLog s))
     in s\<lparr>pnRequest := r, pnMessages := ms, pnOpen := open_plan,
          pnState := (if truthy_str open_plan then AWAITING_APPROVAL else derivePlanStateFromMessages ms),
          pnExact := (pnExact s \<and> ms = pnMessages s)\<rparr>)"

section \<open>The machine\<close>

text \<open>How far into planning a state is.\<close>

fun plan_rank :: "plan_state \<Rightarrow> nat" where
  "plan_rank IDLE = 0"
| "plan_rank PLANNING = 1"
| "plan_rank AWAITING_APPROVAL = 2"

text \<open>
  The steps. Prompts, and the mailbox with them, are user messages that are none of the bracketed substitutes; the last of them ends the list for
  the model. A restart gets the stored messages, or what the preparation of a resume leaves of them, which may lose calls of the plan tools but
  adds none. The ghost \<open>pnExact\<close> says that no entry was forced and that nothing was compacted or lost.
\<close>

inductive plan_step :: "plan_run \<Rightarrow> plan_run \<Rightarrow> bool" where
  prompts: "us \<noteq> [] \<Longrightarrow> \<forall>u \<in> set us. is_user u \<and> msg_signal u = None \<Longrightarrow>
     plan_step s (preflight_run (before @ [last us]) (push us s))"
| answer: "plan_step s (push [MAssistant b content ae em] (fold call_plan_tool content s))"
| result: "plan_step s (push [MToolResult b i c e] s)"
| forced: "plan_step s (force_plan s)"
| compaction: "plan_step s (s\<lparr>pnMessages := pz_messages (compaction_pass env failures estimate (pnMessages s)), pnExact := False\<rparr>)"
| restart: "r \<noteq> [] \<Longrightarrow> ms \<noteq> [] \<Longrightarrow> plan_rank (derivePlanStateFromMessages ms) \<le> plan_rank (derivePlanStateFromMessages (pnMessages s)) \<Longrightarrow>
     plan_step s (restart_run r ms s)"

inductive_cases plan_stepE: "plan_step s t"


section \<open>The messages\<close>

lemma rank_eq: "plan_rank a = plan_rank b \<longleftrightarrow> a = b"
  by (cases a; cases b) simp_all






















section \<open>Compaction\<close>










section \<open>The invariant\<close>

text \<open>The plan that waits is the one the log has open; the messages never say more than the memory, and the same while the record is exact.\<close>

definition plan_known :: "plan_run \<Rightarrow> bool" where
  "plan_known s \<longleftrightarrow> pnRequest s \<noteq> [] \<and> pnOpen s = findOpenPlanRequestId (pnLog s) \<and> pnOpen s \<noteq> Some []
     \<and> (pnState s = AWAITING_APPROVAL \<longleftrightarrow> pnOpen s \<noteq> None)"


lemma known_fields [simp]:
  "plan_known (s\<lparr>pnMessages := ms\<rparr>) = plan_known s" "plan_known (s\<lparr>pnExact := x\<rparr>) = plan_known s"
  by (simp_all add: plan_known_def)




lemma record_fields [simp]:
  "pnMessages (planAwareRecordEvent ev s) = pnMessages s" "pnExact (planAwareRecordEvent ev s) = pnExact s"
  "pnRequest (planAwareRecordEvent ev s) = pnRequest s" "pnState (planAwareRecordEvent ev s) = transitionPlanState (pnState s) ev"
  by (simp_all add: planAwareRecordEvent_def Let_def)





lemma push_fields [simp]:
  "pnMessages (push ms s) = pnMessages s @ ms" "pnState (push ms s) = pnState s" "pnExact (push ms s) = pnExact s"
  "plan_known (push ms s) = plan_known s"
  by (simp_all add: push_def plan_known_def)




section \<open>Properties\<close>







text \<open>
  The derivation counts calls, not what became of them: a call of \<open>exit_plan_mode\<close> that was refused, because its plan was too long or missing, makes a restart
  wait for an approval of a plan that nobody proposed, and the next \<open>ok\<close> of the user ends the plan mode.
\<close>

lemma refused_proposal_is_derived:
  "derivePlanStateFromMessages
     [MAssistant no_base [CToolUse ''a'' ''enter_plan_mode'' [] None] None None, MToolResult no_base ''a'' (RCStr ''ok'') None,
      MAssistant no_base [CToolUse ''b'' ''exit_plan_mode'' [] None] None None, MToolResult no_base ''b'' (RCStr ''Invalid input'') (Some True)]
     = AWAITING_APPROVAL"
  by (simp add: derivePlanStateFromMessages_def)

end
