(* ===== verification/Plan_Bash.thy ===== *)
theory Plan_Bash
  imports Js_Regex
begin

text \<open>
  The read-only classifier of shell commands in plan mode
  (\<open>apps/api/src/services/manager-automation/autonomous-loop/plan-mode-bash-classifier.ts\<close>): deny
  patterns over the whole command, then per segment an allow-list of first words and the inspection of
  subcommands and flags.
\<close>

section \<open>Deny patterns\<close>

definition words_alt :: "string list \<Rightarrow> rx" where
  "words_alt vs = alts (map lit vs)"

definition std_device :: rx where
  "std_device = seqs [Star ws, lit ''/dev/'', words_alt [''null'', ''stderr'', ''stdout'']]"

text \<open>\<open>(-[a-z]*i|--in-place)\<close>\<close>

definition in_place_flag :: rx where
  "in_place_flag = Alt (seqs [lit ''-'', Star lower, lit ''i'']) (lit ''--in-place'')"

definition quote_mark :: rx where "quote_mark = one_of [CHR 0x27, CHR 0x22]"

definition DENY_PATTERNS :: "rx list" where
  "DENY_PATTERNS =
    [seqs [lit ''>'', NegLook std_device, NegLook (lit ''&'')],
     Seq (lit ''>>'') (NegLook std_device),
     seqs [lit ''|'', Star ws, lit ''tee'', WordB],
     lit ''>('',
     seqs [WordB, words_alt [''rm'', ''mv'', ''cp'', ''mkdir'', ''rmdir'', ''touch'', ''chmod'', ''chown'', ''ln'',
       ''truncate'', ''install''], WordB],
     seqs [WordB, lit ''sed'', plus ws, in_place_flag, WordB],
     seqs [WordB, lit ''awk'', plus ws, in_place_flag, WordB],
     seqs [WordB, lit ''perl'', plus ws, in_place_flag, WordB],
     seqs [WordB, lit_ci ''python'', WordB, Star dot, WordB, lit_ci ''in'', opt (one_of ''_-''), lit_ci ''place''],
     seqs [WordB, words_alt [''apt'', ''apt-get'', ''brew'', ''yum'', ''dnf'', ''pacman'', ''zypper'', ''apk'',
       ''snap'', ''port''], plus ws, words_alt [''install'', ''remove'', ''update'', ''upgrade'', ''purge'']],
     seqs [WordB, lit ''make'', WordB],
     seqs [WordB, lit ''node'', plus ws, words_alt [''-e'', ''--eval'', ''-p'', ''--print''], WordB],
     seqs [WordB, lit ''deno'', plus ws, words_alt [''eval'', ''run''], WordB],
     seqs [WordB, lit ''python'', opt digit, plus ws, lit ''-c'', WordB],
     seqs [WordB, lit ''python'', opt digit, plus ws, lit ''-m'', plus ws,
       NegLook (alts [seqs [lit ''pip'', plus ws, lit ''show''], seqs [lit ''pip'', plus ws, lit ''list''],
                      seqs [lit ''pip'', plus ws, lit ''freeze'']])],
     seqs [WordB, lit ''perl'', plus ws, lit ''-e'', WordB],
     seqs [WordB, lit ''ruby'', plus ws, lit ''-e'', WordB],
     seqs [WordB, lit ''bash'', plus ws, lit ''-c'', WordB],
     seqs [WordB, lit ''sh'', plus ws, lit ''-c'', WordB],
     seqs [WordB, lit ''zsh'', plus ws, lit ''-c'', WordB],
     seqs [WordB, lit ''eval'', WordB],
     seqs [WordB, lit ''exec'', WordB],
     seqs [lit [CHR 0x60], plus (none_of [CHR 0x60]), lit [CHR 0x60]],
     seqs [WordB, lit ''docker'', plus ws, words_alt [''run'', ''exec'', ''build'', ''push'', ''pull'', ''rm'', ''rmi'',
       ''stop'', ''start'', ''kill'', ''restart'', ''cp'', ''create'', ''commit'', ''tag'', ''login'', ''logout'',
       ''save'', ''load''], WordB],
     seqs [WordB, lit ''vagrant'', WordB],
     seqs [WordB, lit ''kubectl'', plus ws, words_alt [''apply'', ''delete'', ''create'', ''edit'', ''patch'', ''exec'',
       ''run'', ''cp'', ''drain'', ''cordon'', ''uncordon'', ''taint'', ''label'', ''annotate'', ''scale'',
       ''rollout''], WordB],
     seqs [WordB, lit ''sudo'', WordB],
     seqs [WordB, words_alt [''kill'', ''pkill'', ''killall'', ''skill''], WordB],
     seqs [WordB, lit ''curl'', WordB, Star (none_of [CHR 0x0A]), ws,
       alts [lit ''-o'', lit ''-O'', lit ''--output'', lit ''--upload-file'', lit ''--data'',
             seqs [lit ''-X'', plus ws, words_alt [''POST'', ''PUT'', ''DELETE'', ''PATCH'']]], WordB],
     seqs [WordB, lit ''wget'', WordB, Star (none_of [CHR 0x0A]), ws,
       words_alt [''-O'', ''--output-document'', ''--post-data'', ''--post-file''], WordB],
     seqs [lit ''<<'', opt (lit ''-''), Star ws, opt quote_mark, plus word, opt quote_mark, plus ws, lit ''>''],
     seqs [lit ''$('', alts [lit ''rm'', lit ''mv'', lit ''cp'', lit ''mkdir'', lit ''chmod'', lit ''chown'',
       seqs [lit ''git'', plus ws, lit ''commit''], seqs [lit ''npm'', plus ws, lit ''install'']]]]"

section \<open>First words\<close>

definition ALLOW_FIRST_WORDS :: "string list" where
  "ALLOW_FIRST_WORDS =
    [''ls'', ''ll'', ''la'', ''find'', ''fd'', ''tree'', ''stat'', ''file'', ''wc'', ''du'', ''df'', ''pwd'',
     ''basename'', ''dirname'', ''which'', ''whereis'', ''type'', ''command'',
     ''cat'', ''head'', ''tail'', ''less'', ''more'', ''tac'', ''rev'',
     ''grep'', ''egrep'', ''fgrep'', ''rg'', ''ag'',
     ''sed'', ''awk'', ''sort'', ''uniq'', ''cut'', ''tr'', ''paste'', ''join'', ''comm'',
     ''expand'', ''unexpand'', ''fold'', ''fmt'', ''nl'', ''od'', ''xxd'', ''hexdump'', ''jq'', ''yq'',
     ''echo'', ''printf'', ''true'', ''false'', '':'', ''test'', ''['',
     ''env'', ''printenv'', ''date'', ''uname'', ''hostname'', ''id'', ''whoami'', ''groups'', ''uptime'', ''yes'',
     ''node'', ''bun'', ''npm'', ''pnpm'', ''yarn'', ''pip'', ''pip3'', ''python'',
     ''python3'', ''ruby'', ''go'', ''rustc'', ''cargo'', ''gcc'', ''clang'',
     ''java'', ''javac'', ''mvn'', ''gradle'', ''rake'', ''deno'',
     ''git'', ''docker'', ''sleep'', ''dirname'', ''realpath'', ''readlink'']"

text \<open>\<open>[A-Z_][A-Z0-9_]*=\S+\<close>\<close>

definition var_assignment :: rx where
  "var_assignment = seqs [Cls (\<lambda>c. is_upper c \<or> c = CHR ''_''),
     Star (Cls (\<lambda>c. is_upper c \<or> is_digit c \<or> c = CHR ''_'')), lit ''='', plus non_ws]"

definition leadingCommand :: "string \<Rightarrow> string" where
  "leadingCommand segment =
     (let trimmed = js_trim segment;
          stripped = rx_strip_prefix (Seq Bol (plus (Seq var_assignment (plus ws)))) trimmed;
          noEnv = rx_strip_prefix
            (seqs [Bol, lit ''env'',
               Star (Seq (plus ws) (Alt (Seq (lit ''-'') (one_of ''iu'')) var_assignment)), plus ws]) stripped;
          first = takeWhile (\<lambda>c. \<not> is_ws c) noEnv
      in case first of [] \<Rightarrow> [] | c # cs \<Rightarrow> if c = CHR 0x5C then cs else first)"

definition separator :: rx where
  "separator = seqs [Star ws, alts [lit ''||'', lit ''&&'', lit '';'', lit ''|''], Star ws]"

definition splitSegments :: "string \<Rightarrow> string list" where
  "splitSegments command = filter (\<lambda>s. length s > 0) (rx_split separator command)"

section \<open>Tokens and subcommands\<close>

fun tokenize_go :: "string \<Rightarrow> char option \<Rightarrow> string \<Rightarrow> string list" where
  "tokenize_go cur quote [] = (if cur = [] then [] else [rev cur])"
| "tokenize_go cur quote (ch # cs) =
     (case quote of
        Some q \<Rightarrow> tokenize_go (ch # cur) (if ch = q then None else quote) cs
      | None \<Rightarrow>
          if ch = CHR 0x22 \<or> ch = CHR 0x27 then tokenize_go (ch # cur) (Some ch) cs
          else if is_ws ch then (if cur = [] then tokenize_go [] None cs else rev cur # tokenize_go [] None cs)
          else tokenize_go (ch # cur) None cs)"

definition tokenize :: "string \<Rightarrow> string list" where
  "tokenize segment = tokenize_go [] None segment"

definition GIT_VALUE_FLAGS :: "string list" where
  "GIT_VALUE_FLAGS = [''-C'', ''-c'', ''--git-dir'', ''--work-tree'', ''--namespace'', ''--exec-path'']"

definition NPM_VALUE_FLAGS :: "string list" where
  "NPM_VALUE_FLAGS = [''--prefix'', ''-w'', ''--workspace'', ''--workspaces-update'', ''--registry'',
     ''--userconfig'', ''--globalconfig'', ''--cwd'']"

definition PIP_VALUE_FLAGS :: "string list" where
  "PIP_VALUE_FLAGS = [''--prefix'', ''--target'', ''-r'', ''--requirement'', ''--cache-dir'', ''--log'']"

text \<open>The tokens from \<open>start\<close> on.\<close>

fun extractSubcommand :: "string list \<Rightarrow> string list \<Rightarrow> string option" where
  "extractSubcommand valueFlags [] = None"
| "extractSubcommand valueFlags (t # ts) =
     (if \<not> starts_with t ''-'' then Some t
      else if includes_str t ''='' then extractSubcommand valueFlags ts
      else if t \<in> set valueFlags then extractSubcommand valueFlags (drop 1 ts)
      else extractSubcommand valueFlags ts)"

definition GIT_HARD_MUTATING :: "string list" where
  "GIT_HARD_MUTATING =
    [''commit'', ''push'', ''pull'', ''merge'', ''checkout'', ''switch'', ''reset'', ''rebase'',
     ''add'', ''cherry-pick'', ''revert'', ''clean'', ''am'', ''apply'',
     ''init'', ''clone'', ''submodule'', ''worktree'',
     ''gc'', ''prune'', ''repack'', ''filter-branch'', ''replace'', ''notes'',
     ''update-ref'', ''update-index'', ''rerere'', ''bisect'']"

definition non_flag :: "string \<Rightarrow> bool" where
  "non_flag t = (\<not> starts_with t ''-'')"

definition isMutatingGitConditional :: "string \<Rightarrow> string list \<Rightarrow> bool" where
  "isMutatingGitConditional subcmd tail =
     (if subcmd = ''fetch'' then ''--dry-run'' \<notin> set tail
      else if subcmd = ''stash'' then
        (case find non_flag tail of
           None \<Rightarrow> True
         | Some first \<Rightarrow> first = [] \<or> first \<notin> set [''list'', ''show'', ''help''])
      else if subcmd = ''remote'' then
        (if tail = [] then False
         else case find non_flag tail of
                None \<Rightarrow> False
              | Some action \<Rightarrow>
                  if action = [] then False
                  else action \<in> set [''add'', ''remove'', ''rm'', ''set-url'', ''rename'', ''prune'', ''update''])
      else if subcmd = ''tag'' then
        list_ex (\<lambda>t. t \<in> set [''-d'', ''-D'', ''-a'', ''-s'', ''-m'', ''-f'']) tail
        \<or> ''--delete'' \<in> set tail \<or> ''--force'' \<in> set tail
      else if subcmd = ''branch'' then
        list_ex (\<lambda>t. t \<in> set [''-d'', ''-D'', ''-m'', ''-c'', ''-f'']) tail
        \<or> list_ex (\<lambda>t. t \<in> set [''--delete'', ''--move'', ''--copy'', ''--force'']) tail
      else if subcmd = ''config'' then
        (if list_ex (\<lambda>t. t \<in> set [''--get'', ''--list'', ''-l'', ''--get-all'', ''--get-regexp'',
                                    ''--show-origin'', ''--show-scope'']) tail then False
         else length (filter non_flag tail) \<ge> 2)
      else False)"

definition NPM_MUTATING_SUBCOMMANDS :: "string list" where
  "NPM_MUTATING_SUBCOMMANDS =
    [''install'', ''i'', ''add'', ''ci'', ''update'', ''upgrade'', ''remove'', ''uninstall'',
     ''rm'', ''un'', ''publish'', ''exec'', ''x'', ''run'', ''run-script'', ''start'', ''test'',
     ''init'', ''set'', ''unset'', ''config'']"

text \<open>The value flags and the mutating subcommands of a tool; the latter are absent for git.\<close>

definition SUBCOMMAND_AWARE_TOOLS :: "(string \<times> string list \<times> string list option) list" where
  "SUBCOMMAND_AWARE_TOOLS =
    [(''git'', GIT_VALUE_FLAGS, None),
     (''npm'', NPM_VALUE_FLAGS, Some NPM_MUTATING_SUBCOMMANDS),
     (''bun'', NPM_VALUE_FLAGS, Some NPM_MUTATING_SUBCOMMANDS),
     (''pnpm'', NPM_VALUE_FLAGS, Some NPM_MUTATING_SUBCOMMANDS),
     (''yarn'', NPM_VALUE_FLAGS, Some NPM_MUTATING_SUBCOMMANDS),
     (''pip'', PIP_VALUE_FLAGS, Some [''install'', ''uninstall'', ''wheel'', ''download'']),
     (''pip3'', PIP_VALUE_FLAGS, Some [''install'', ''uninstall'', ''wheel'', ''download'']),
     (''cargo'', [''--manifest-path'', ''--target-dir''],
        Some [''install'', ''uninstall'', ''publish'', ''build'', ''run'', ''fetch'', ''update'', ''clean'',
              ''fix'', ''package''])]"

definition FLAG_DENY_FOR_TOOL :: "(string \<times> rx list) list" where
  "FLAG_DENY_FOR_TOOL =
    [(''find'', [seqs [Bol, lit ''-delete'', Eol], seqs [Bol, lit ''-execdi'', opt (lit ''r''), Eol],
                 seqs [Bol, lit ''-ok'', opt (lit ''dir''), Eol], Seq Bol (lit ''-fprint'')]),
     (''sort'', [seqs [Bol, lit ''-o'', Eol],
                 seqs [Bol, lit ''--output'', opt (Seq (lit ''='') (Star dot)), Eol]])]"

definition is_assignment :: "string \<Rightarrow> bool" where
  "is_assignment t = rx_test (seqs [Bol, var_assignment, Eol]) t"

text \<open>The tokens behind an \<open>env\<close> with its options and assignments.\<close>

fun skip_env :: "string list \<Rightarrow> string list" where
  "skip_env [] = []"
| "skip_env (t # ts) =
     (if t = ''-i'' \<or> t = ''-u'' \<or> is_assignment t
      then (if t = ''-u'' \<and> ts \<noteq> [] then skip_env (drop 1 ts) else skip_env ts)
      else t # ts)"

definition command_tokens :: "string list \<Rightarrow> string list" where
  "command_tokens tokens =
     (case dropWhile is_assignment tokens of
        [] \<Rightarrow> []
      | t # ts \<Rightarrow> if t = ''env'' then skip_env ts else t # ts)"

definition tokens_mutating :: "string list \<Rightarrow> bool" where
  "tokens_mutating tokens =
     (case command_tokens tokens of
        [] \<Rightarrow> False
      | cmd # rest \<Rightarrow>
          (case map_of SUBCOMMAND_AWARE_TOOLS cmd of
             Some (valueFlags, mutating) \<Rightarrow>
               (case extractSubcommand valueFlags rest of
                  None \<Rightarrow> False
                | Some sub \<Rightarrow>
                    if sub = [] then False
                    else let tail = drop 1 (dropWhile (\<lambda>t. t \<noteq> sub) rest)
                         in if cmd = ''git'' then
                              (if sub \<in> set GIT_HARD_MUTATING then True else isMutatingGitConditional sub tail)
                            else (case mutating of None \<Rightarrow> False | Some m \<Rightarrow> sub \<in> set m))
           | None \<Rightarrow>
               (case map_of FLAG_DENY_FOR_TOOL cmd of
                  None \<Rightarrow> False
                | Some flagDeny \<Rightarrow> list_ex (\<lambda>tok. list_ex (\<lambda>rule. rx_test rule tok) flagDeny) rest)))"

definition segmentHasMutatingSubcommand :: "string \<Rightarrow> bool" where
  "segmentHasMutatingSubcommand segment = tokens_mutating (tokenize segment)"

definition segment_ok :: "string \<Rightarrow> bool" where
  "segment_ok seg \<longleftrightarrow>
     leadingCommand seg \<in> set ALLOW_FIRST_WORDS \<and> \<not> segmentHasMutatingSubcommand seg"

definition isReadOnlyBashCommand :: "string \<Rightarrow> bool" where
  "isReadOnlyBashCommand command =
     (let normalized = js_trim command
      in if normalized = [] then False
         else if list_ex (\<lambda>pattern. rx_test pattern normalized) DENY_PATTERNS then False
         else list_all segment_ok (splitSegments normalized))"

section \<open>Redirections\<close>

lemma rx_match_Star_Cls_elim:
  assumes "rx_match (Star (Cls f)) p q"
  shows "\<exists>w. snd p = w @ snd q \<and> list_all f w"
proof -
  have "(rx_adv (rx_ends (Cls f)))\<^sup>*\<^sup>* p q" using assms by (simp only: rx_match_def rx_ends_Star_iff)
  then show ?thesis
  proof (induction rule: converse_rtranclp_induct)
    case base
    then show ?case by simp
  next
    case (step p m)
    then obtain w where w: "snd m = w @ snd q" "list_all f w" by blast
    from step(1) obtain c where "snd p = c # snd m" "f c"
      by (cases "snd p") (auto simp: rx_adv_def split: if_splits)
    then have "snd p = (c # w) @ snd q \<and> list_all f (c # w)" using w by simp
    then show ?case by blast
  qed
qed

lemma rx_match_Seq_elim: "rx_match (Seq r t) p q \<Longrightarrow> \<exists>m. rx_match r p m \<and> rx_match t m q"
  by (auto simp: rx_match_def)

lemma rx_match_lit_elim: "rx_match (lit w) p q \<Longrightarrow> snd p = w @ snd q"
  by (cases p) (auto simp: rx_match_def rx_ends_lit starts_with_iff split: if_splits)

lemma std_device_elim:
  assumes "rx_match std_device p q"
  shows "\<exists>w d z. snd p = w @ ''/dev/'' @ d @ z \<and> list_all is_ws w
           \<and> d \<in> set [''null'', ''stderr'', ''stdout'']"
proof -
  obtain a b where a: "rx_match (Star ws) p a" and b: "rx_match (lit ''/dev/'') a b"
    and c: "rx_match (words_alt [''null'', ''stderr'', ''stdout'']) b q"
    using assms unfolding std_device_def by (auto simp: rx_syntax dest!: rx_match_Seq_elim)
  obtain w where "snd p = w @ snd a" "list_all is_ws w"
    using rx_match_Star_Cls_elim a unfolding ws_def by blast
  moreover obtain d where "d \<in> set [''null'', ''stderr'', ''stdout'']" "rx_match (lit d) b q"
    using c unfolding words_alt_def rx_match_alts_iff by auto
  moreover have "snd a = ''/dev/'' @ snd b" by (rule rx_match_lit_elim [OF b])
  moreover have "snd b = d @ snd q" by (rule rx_match_lit_elim [OF calculation(4)])
  ultimately have "snd p = w @ ''/dev/'' @ d @ snd q \<and> list_all is_ws w
      \<and> d \<in> set [''null'', ''stderr'', ''stdout'']" by (simp only: append_assoc)
  then show ?thesis by blast
qed

text \<open>
  In a command accepted in plan mode, every \<open>>\<close> sends its output to one of the three standard
  devices or stands before \<open>&\<close>.
\<close>

theorem accepted_redirects:
  assumes "isReadOnlyBashCommand command" and "js_trim command = u @ ''>'' @ v"
  shows "starts_with v ''&''
    \<or> (\<exists>w d z. v = w @ ''/dev/'' @ d @ z \<and> list_all is_ws w \<and> d \<in> set [''null'', ''stderr'', ''stdout''])"
proof (rule ccontr)
  assume neg: "\<not> ?thesis"
  let ?r = "seqs [lit ''>'', NegLook std_device, NegLook (lit ''&'')]"
  have "?r \<in> set DENY_PATTERNS" by (simp add: DENY_PATTERNS_def)
  then have no: "\<not> rx_test ?r (js_trim command)"
    using assms(1) by (auto simp: isReadOnlyBashCommand_def Let_def list_ex_iff split: if_splits)
  have "rx_ends std_device (Some (CHR ''>''), v) = []"
  proof (rule ccontr)
    assume "rx_ends std_device (Some (CHR ''>''), v) \<noteq> []"
    then obtain q where "rx_match std_device (Some (CHR ''>''), v) q" using rx_ends_ne by blast
    from std_device_elim [OF this] show False using neg by simp
  qed
  moreover have "rx_ends (lit ''&'') (Some (CHR ''>''), v) = []"
    using neg by (simp add: rx_ends_lit)
  ultimately have "rx_ends ?r (if u = [] then None else Some (last u), ''>'' @ v) \<noteq> []"
    by (simp add: rx_syntax rx_ends_lit)
  then show False using no rx_testI assms(2) by metis
qed

section \<open>Global options\<close>

text \<open>A global option by itself, or one that takes the next token as its value.\<close>

definition option_group :: "string list \<Rightarrow> string list \<Rightarrow> bool" where
  "option_group valueFlags g =
     (case g of
        [f] \<Rightarrow> starts_with f ''-'' \<and> (includes_str f ''='' \<or> f \<notin> set valueFlags)
      | [f, v] \<Rightarrow> starts_with f ''-'' \<and> \<not> includes_str f ''='' \<and> f \<in> set valueFlags
      | _ \<Rightarrow> False)"

lemma extractSubcommand_skips:
  assumes "list_all (option_group vf) gs" and "non_flag sub"
  shows "extractSubcommand vf (List.concat gs @ sub # tail) = Some sub"
  using assms(1)
proof (induction gs)
  case Nil
  then show ?case using assms(2) by (simp add: non_flag_def)
next
  case (Cons g gs)
  then have IH: "extractSubcommand vf (List.concat gs @ sub # tail) = Some sub" by simp
  have "option_group vf g" using Cons.prems by simp
  then consider f where "g = [f]" "starts_with f ''-''" "includes_str f ''='' \<or> f \<notin> set vf"
    | f v where "g = [f, v]" "starts_with f ''-''" "\<not> includes_str f ''=''" "f \<in> set vf"
    by (auto simp: option_group_def split: list.splits)
  then show ?case by cases (auto simp: IH)
qed

definition plain_token :: "string \<Rightarrow> bool" where
  "plain_token t \<longleftrightarrow> t \<noteq> [] \<and> list_all (\<lambda>c. \<not> is_ws c \<and> c \<noteq> CHR 0x22 \<and> c \<noteq> CHR 0x27) t"

lemma tokenize_go_plain:
  "list_all (\<lambda>c. \<not> is_ws c \<and> c \<noteq> CHR 0x22 \<and> c \<noteq> CHR 0x27) t \<Longrightarrow>
     tokenize_go cur None (t @ s) = tokenize_go (rev t @ cur) None s"
  by (induction t arbitrary: cur) auto

lemma tokenize_join: "list_all plain_token toks \<Longrightarrow> tokenize (js_join '' '' toks) = toks"
proof (induction toks rule: induct_list012)
  case 1
  then show ?case by (simp add: tokenize_def)
next
  case (2 x)
  then show ?case
    using tokenize_go_plain [of x "[]" "[]"] by (simp add: tokenize_def plain_token_def)
next
  case (3 x y xs)
  then show ?case
    using tokenize_go_plain [of x "[]" "'' '' @ js_join '' '' (y # xs)"]
    by (simp add: tokenize_def plain_token_def is_ws_def)
qed

lemma rx_search_Bol: "\<not> rx_search (Seq Bol r) (Some c) t"
  by (induction t arbitrary: c) auto

lemma rx_test_Bol: "rx_test (Seq Bol r) t \<longleftrightarrow> rx_ends r (None, t) \<noteq> []"
  by (cases t) (auto simp: rx_test_def rx_search_Bol)

text \<open>What the tables say of a tool's mutating subcommands.\<close>

definition mutates :: "string \<Rightarrow> string list option \<Rightarrow> string \<Rightarrow> bool" where
  "mutates tool mutating sub \<longleftrightarrow>
     (if tool = ''git'' then sub \<in> set GIT_HARD_MUTATING
      else case mutating of None \<Rightarrow> False | Some m \<Rightarrow> sub \<in> set m)"

lemma tables_non_flag:
  assumes "(tool, vf, mutating) \<in> set SUBCOMMAND_AWARE_TOOLS" and "mutates tool mutating sub"
  shows "non_flag sub \<and> sub \<noteq> []"
proof -
  have "list_all (\<lambda>w. non_flag w \<and> w \<noteq> []) GIT_HARD_MUTATING"
    by (simp add: GIT_HARD_MUTATING_def non_flag_def)
  moreover have "list_all (\<lambda>(t, f, mo). case mo of None \<Rightarrow> True | Some m \<Rightarrow> list_all (\<lambda>w. non_flag w \<and> w \<noteq> []) m)
      SUBCOMMAND_AWARE_TOOLS"
    by (simp add: SUBCOMMAND_AWARE_TOOLS_def NPM_MUTATING_SUBCOMMANDS_def non_flag_def)
  ultimately show ?thesis using assms
    by (fastforce simp: mutates_def list_all_iff split: if_splits option.splits)
qed

lemma tool_lookup:
  assumes "(tool, vf, mutating) \<in> set SUBCOMMAND_AWARE_TOOLS"
  shows "map_of SUBCOMMAND_AWARE_TOOLS tool = Some (vf, mutating)"
    and "\<not> is_assignment tool" and "tool \<noteq> ''env''"
proof -
  have "distinct (map fst SUBCOMMAND_AWARE_TOOLS)" by (simp add: SUBCOMMAND_AWARE_TOOLS_def)
  then show "map_of SUBCOMMAND_AWARE_TOOLS tool = Some (vf, mutating)"
    using assms by (rule map_of_is_SomeI)
  have "list_all (\<lambda>(t, r). list_all is_lower (take 1 t) \<and> t \<noteq> [] \<and> t \<noteq> ''env'') SUBCOMMAND_AWARE_TOOLS"
    by (simp add: SUBCOMMAND_AWARE_TOOLS_def is_lower_def)
  then have l: "list_all is_lower (take 1 tool)" "tool \<noteq> []" "tool \<noteq> ''env''"
    using assms by (auto simp: list_all_iff)
  show "tool \<noteq> ''env''" by (rule l(3))
  obtain c cs where t: "tool = c # cs" using l(2) by (cases tool) auto
  then have "is_lower c" using l(1) by simp
  then have "\<not> is_upper c" "c \<noteq> CHR ''_''" by (auto simp: is_lower_def is_upper_def Let_def)
  then show "\<not> is_assignment tool"
    by (simp add: t is_assignment_def var_assignment_def rx_test_Bol rx_syntax)
qed

text \<open>
  No global option hides a mutating subcommand: a command with a segment that is a tool the
  classifier knows, any of its global options with their values, a mutating subcommand of the tool and
  any further words, is rejected.
\<close>

theorem global_options_do_not_hide:
  assumes "(tool, vf, mutating) \<in> set SUBCOMMAND_AWARE_TOOLS" and "mutates tool mutating sub"
    and "list_all (option_group vf) gs"
    and "list_all plain_token (tool # List.concat gs @ sub # tail)"
    and "js_join '' '' (tool # List.concat gs @ sub # tail) \<in> set (splitSegments (js_trim command))"
  shows "\<not> isReadOnlyBashCommand command"
proof -
  let ?toks = "tool # List.concat gs @ sub # tail"
  note sub = tables_non_flag [OF assms(1,2)] and tool = tool_lookup [OF assms(1)]
  have "extractSubcommand vf (List.concat gs @ sub # tail) = Some sub"
    using extractSubcommand_skips [OF assms(3)] sub by blast
  then have "tokens_mutating ?toks"
    using sub tool assms(2)
    by (simp add: tokens_mutating_def command_tokens_def mutates_def Let_def split: if_splits option.splits)
  then have "segmentHasMutatingSubcommand (js_join '' '' ?toks)"
    by (simp only: segmentHasMutatingSubcommand_def tokenize_join [OF assms(4)])
  then have "\<not> segment_ok (js_join '' '' ?toks)" by (simp add: segment_ok_def)
  then have "\<not> list_all segment_ok (splitSegments (js_trim command))"
    using assms(5) unfolding list_all_iff by blast
  then show ?thesis by (simp add: isReadOnlyBashCommand_def Let_def)
qed

theorem global_options_do_not_hide_witness:
  "\<not> isReadOnlyBashCommand ''ls; git -C x -q am y''"
proof (rule global_options_do_not_hide [where tool = "''git''" and vf = GIT_VALUE_FLAGS and mutating = None
      and sub = "''am''" and gs = "[[''-C'', ''x''], [''-q'']]" and tail = "[''y'']"])
  show "(''git'', GIT_VALUE_FLAGS, None) \<in> set SUBCOMMAND_AWARE_TOOLS"
    by (simp add: SUBCOMMAND_AWARE_TOOLS_def)
  show "mutates ''git'' None ''am''" by (simp add: mutates_def GIT_HARD_MUTATING_def)
  show "list_all (option_group GIT_VALUE_FLAGS) [[''-C'', ''x''], [''-q'']]"
    by (simp add: option_group_def GIT_VALUE_FLAGS_def)
  show "list_all plain_token (''git'' # List.concat [[''-C'', ''x''], [''-q'']] @ ''am'' # [''y''])"
    by (simp add: plain_token_def is_ws_def)
  show "js_join '' '' (''git'' # List.concat [[''-C'', ''x''], [''-q'']] @ ''am'' # [''y''])
      \<in> set (splitSegments (js_trim ''ls; git -C x -q am y''))"
    by code_simp
qed

theorem accepted_redirects_witness:
  "starts_with ''&1'' ''&''
    \<or> (\<exists>w d z. ''&1'' = w @ ''/dev/'' @ d @ z \<and> list_all is_ws w \<and> d \<in> set [''null'', ''stderr'', ''stdout''])"
proof (rule accepted_redirects [where command = "''ls 2>&1''" and u = "''ls 2''"])
  show "isReadOnlyBashCommand ''ls 2>&1''" by code_simp
  show "js_trim ''ls 2>&1'' = ''ls 2'' @ ''>'' @ ''&1''" by code_simp
qed

section \<open>Gaps\<close>

text \<open>
  Five writing commands that plan mode accepts: a quoted subcommand, because the tokens keep their
  quotes; a second command behind a newline or a single \<open>&\<close>, which do not split segments; a subcommand
  whose word is also the value of a global option, because its first occurrence is taken for it; and
  \<open>>&file\<close>, which the shell opens for writing.
\<close>

theorem plan_bash_gaps:
  "isReadOnlyBashCommand (''git '' @ [CHR 0x27] @ ''am'' @ [CHR 0x27])
   \<and> isReadOnlyBashCommand (''ls'' @ [CHR 0x0A] @ ''git am'')
   \<and> isReadOnlyBashCommand ''ls &git am''
   \<and> isReadOnlyBashCommand ''git -C remote remote prune a''
   \<and> isReadOnlyBashCommand ''ls >&f''"
  by (intro conjI) (code_simp+)

end
