(* ===== verification/Static_Gate.thy ===== *)
theory Static_Gate
  imports Permission_Mode Js_Regex
begin

text \<open>
  The static gate of a runtime's diff (\<open>apps/api/src/services/safe-apply/static-gate-service.ts\<close>) and the
  router that assigns a review to the leader or to the user
  (\<open>safe-apply/review-assignment-router.ts\<close>). Reading the patch file is a parameter: the text
  of a reference, or nothing when the read fails.
\<close>

section \<open>Data\<close>

datatype workspace_strategy = GitWorktree | WorkspaceRoot | UnknownStrategy

datatype sandbox_requirement = SandboxOff | SandboxOptional | SandboxRequired

datatype sandbox_status = SandboxDisabled | SandboxUnavailable | SandboxAvailable | SandboxActive

record execution_sandbox =
  es_mode :: sandbox_requirement
  es_provider :: string
  es_status :: sandbox_status
  es_reason :: "string option"

record runtime_security =
  rs_sandboxMode :: "sandbox_mode option"
  rs_permissionMode :: permission_mode
  rs_runtimeWorkspaceStrategy :: workspace_strategy
  rs_executionSandbox :: "execution_sandbox option"

datatype file_status = FAdded | FModified | FDeleted | FRenamed | FCopied | FUnknown

record changed_file =
  cf_path :: string
  cf_status :: file_status
  cf_oldPath :: "string option"
  cf_additions :: int
  cf_deletions :: int
  cf_isBinary :: bool
  cf_isExecutable :: bool

record diff_artifact =
  da_storageRef :: string
  da_baseRevision :: "string option"
  da_changedFiles :: "changed_file list"
  da_addedLines :: int
  da_removedLines :: int
  da_isEmpty :: bool

datatype gate_risk = AUTO_OK | HUMAN_REQUIRED

datatype gate_code =
    RuntimeHeadless | RuntimeBypassed | RuntimeUnknownPermission | WorkspaceRootFallback
  | MissingRuntimeWorktree | TrustedMcpServerCalled | McpMutatingToolCalled | McpUnknownToolPolicy
  | McpToolUnresolved | SastAdvisoryFinding | SastAdvisoryUnavailable | ExecutionSandboxRequired
  | EmptyDiffWithSideEffects | BaseRevisionUnknown | HighRiskPath | HighRiskContent | DiffTooLarge
  | LargeDeletion | DeletedFile | BinaryOrExecutable | MissingVerification

record gate_reason =
  gr_code :: gate_code
  gr_message :: string
  gr_path :: "string option"
  gr_evidence :: "string option"

record gate_result =
  gate_risk :: gate_risk
  gate_reasons :: "gate_reason list"

datatype verification_status = VPassed | VFailed | VSkipped | VNotRequired | VUnknown

datatype mcp_reason = ToolReadOnly | ToolMutating | ToolUnknown | ToolUnresolved

record mcp_tool_risk =
  mcp_name :: string
  mcp_reason :: mcp_reason

datatype sast_status = SastSkipped | SastPassed | SastFindings | SastError | SastTimedOut

record sast_result =
  sast_status :: sast_status
  sast_scanner :: string
  sast_reason :: "string option"
  sast_findings :: "string list"

record gate_input =
  gi_runtimeSecurity :: runtime_security
  gi_diffArtifact :: diff_artifact
  gi_verification :: "verification_status list"
  gi_mcpToolRisk :: "mcp_tool_risk list option"
  gi_sastAdvisory :: "sast_result option"
  gi_trustedMcpServerCalled :: bool
  gi_sideEffects :: "string list option"

section \<open>Path and content classes\<close>

text \<open>An empty path or evidence is left out, as the conditional spreads do.\<close>

definition truthy :: "string option \<Rightarrow> string option" where
  "truthy v = (if v = Some [] then None else v)"

definition mk_reason :: "gate_code \<Rightarrow> string \<Rightarrow> string option \<Rightarrow> string option \<Rightarrow> gate_reason" where
  "mk_reason code message path evidence =
     \<lparr>gr_code = code, gr_message = message, gr_path = truthy path, gr_evidence = truthy evidence\<rparr>"

definition hasVerification :: "verification_status list \<Rightarrow> bool" where
  "hasVerification verification = list_ex (\<lambda>v. v = VPassed \<or> v = VNotRequired) verification"

definition isLowRiskPath :: "string \<Rightarrow> bool" where
  "isLowRiskPath path =
     (starts_with path ''docs/'' \<or> ends_with path ''.md'' \<or> ends_with path ''.mdx'' \<or> ends_with path ''.css''
      \<or> includes_str path ''/test/'' \<or> includes_str path ''/tests/'' \<or> includes_str path ''.test.'')"

definition isHighRiskPath :: "string \<Rightarrow> bool" where
  "isHighRiskPath path =
     (let normalized = to_lower path in
      normalized = ''config/secrets.json'' \<or> normalized = ''package.json''
      \<or> includes_str normalized ''/auth'' \<or> includes_str normalized ''authorization''
      \<or> includes_str normalized ''approval'' \<or> includes_str normalized ''permission''
      \<or> includes_str normalized ''sandbox'' \<or> includes_str normalized ''shell''
      \<or> includes_str normalized ''/tool'' \<or> includes_str normalized ''/mcp''
      \<or> includes_str normalized ''agent-resolution'' \<or> includes_str normalized ''runtime-workspace''
      \<or> includes_str normalized ''worktree'' \<or> includes_str normalized ''executor''
      \<or> includes_str normalized ''manager-automation/autonomous-loop''
      \<or> starts_with normalized ''packages/db/'' \<or> includes_str normalized ''schema''
      \<or> includes_str normalized ''migration'' \<or> starts_with normalized ''.magister''
      \<or> starts_with normalized ''.ssh'' \<or> starts_with normalized ''.aws'' \<or> includes_str normalized ''.netrc''
      \<or> (starts_with normalized ''.env'' \<and> \<not> includes_str normalized ''example''
          \<and> \<not> includes_str normalized ''template''))"

definition pipe_shell :: rx where
  "pipe_shell = seqs [plus ws, Star (none_of (CHR 0x0A # ''|'')), lit ''|'', Star ws,
     Alt (lit_ci ''sh'') (lit_ci ''bash'')]"

definition content_checks :: "(rx \<times> string) list" where
  "content_checks =
    [(seqs [WordB, lit_ci ''eval'', Star ws, lit ''(''], ''eval(''),
     (seqs [WordB, lit_ci ''exec'', Star ws, lit ''(''], ''exec(''),
     (lit_ci ''child_process'', ''child_process''),
     (seqs [WordB, lit_ci ''spawn'', Star ws, lit ''(''], ''spawn(''),
     (Seq (lit_ci ''curl'') pipe_shell, ''curl pipe shell''),
     (Seq (lit_ci ''wget'') pipe_shell, ''wget pipe shell''),
     (seqs [lit_ci ''chmod'', plus ws, lit ''777''], ''chmod 777''),
     (seqs [lit_ci ''DROP'', plus ws, lit_ci ''TABLE''], ''DROP TABLE''),
     (seqs [lit_ci ''TRUNCATE'', plus ws, lit_ci ''TABLE''], ''TRUNCATE TABLE''),
     (seqs [lit_ci ''DELETE'', plus ws, lit_ci ''FROM'',
        NegLook (seqs [rep 0 120 any_char, WordB, lit_ci ''WHERE'', WordB])], ''DELETE FROM without nearby WHERE''),
     (lit_ci ''dangerously-'', ''dangerously-''),
     (lit_ci ''skip-permission'', ''skip-permission''),
     (lit_ci ''bypass-approvals'', ''bypass-approvals''),
     (seqs [plus (lit ''>''), Star ws, lit ''/'',
        alts [lit_ci ''etc'', lit_ci ''usr'', lit_ci ''bin'', lit_ci ''sbin'', lit_ci ''var''], lit ''/''],
      ''shell redirection into system path'')]"

definition highRiskContentEvidence :: "string \<Rightarrow> string option" where
  "highRiskContentEvidence patchText =
     map_option snd (find (\<lambda>(pattern, label). rx_test pattern patchText) content_checks)"

section \<open>The gate\<close>

definition permission_reasons :: "permission_mode \<Rightarrow> gate_reason list" where
  "permission_reasons m =
     (case m of
        Headless \<Rightarrow> [mk_reason RuntimeHeadless ''Headless runtime output requires human review.'' None None]
      | Bypassed \<Rightarrow> [mk_reason RuntimeBypassed ''Runtime permission checks were bypassed or skipped.'' None None]
      | Skipped \<Rightarrow> [mk_reason RuntimeBypassed ''Runtime permission checks were bypassed or skipped.'' None None]
      | UnknownMode \<Rightarrow>
          [mk_reason RuntimeUnknownPermission ''Runtime permission mode could not be classified.'' None None]
      | Interactive \<Rightarrow> [])"

fun status_name :: "sandbox_status \<Rightarrow> string" where
  "status_name SandboxDisabled = ''disabled''"
| "status_name SandboxUnavailable = ''unavailable''"
| "status_name SandboxAvailable = ''available''"
| "status_name SandboxActive = ''active''"

definition runtime_reasons :: "runtime_security \<Rightarrow> gate_reason list" where
  "runtime_reasons rs =
     permission_reasons (rs_permissionMode rs)
     @ (if rs_sandboxMode rs = Some DangerFullAccess
        then [mk_reason RuntimeBypassed ''danger-full-access sandbox mode requires human review.'' None None] else [])
     @ (case rs_runtimeWorkspaceStrategy rs of
          WorkspaceRoot \<Rightarrow> [mk_reason WorkspaceRootFallback
            ''Workspace root runtime output may include non-agent changes.'' None None]
        | UnknownStrategy \<Rightarrow> [mk_reason MissingRuntimeWorktree ''Runtime worktree strategy is unknown.'' None None]
        | GitWorktree \<Rightarrow> [])
     @ (case rs_executionSandbox rs of
          None \<Rightarrow> []
        | Some es \<Rightarrow>
            if es_mode es = SandboxRequired \<and> es_status es \<noteq> SandboxActive
            then [mk_reason ExecutionSandboxRequired ''Execution sandbox is required but is not active.'' None
              (Some (js_join '':'' (filter (\<lambda>x. x \<noteq> [])
                 ([es_provider es, status_name (es_status es)]
                  @ (case es_reason es of None \<Rightarrow> [] | Some r \<Rightarrow> [r])))))]
            else [])"

definition mcp_reasons :: "mcp_tool_risk list option \<Rightarrow> bool \<Rightarrow> gate_reason list" where
  "mcp_reasons risks trusted =
     (case risks of
        Some items \<Rightarrow>
          List.concat (map (\<lambda>item. case mcp_reason item of
              ToolMutating \<Rightarrow> [mk_reason McpMutatingToolCalled ''A mutating MCP tool was called.'' None (Some (mcp_name item))]
            | ToolUnknown \<Rightarrow> [mk_reason McpUnknownToolPolicy ''An MCP tool with unknown safety policy was called.''
                None (Some (mcp_name item))]
            | ToolUnresolved \<Rightarrow> [mk_reason McpToolUnresolved
                ''An MCP tool call could not be resolved to one configured server/tool policy.'' None (Some (mcp_name item))]
            | ToolReadOnly \<Rightarrow> []) items)
      | None \<Rightarrow>
          if trusted then [mk_reason TrustedMcpServerCalled
            ''A trusted MCP server was called; Phase 1 treats this as mutating.'' None None]
          else [])"

definition sast_reasons :: "sast_result option \<Rightarrow> gate_reason list" where
  "sast_reasons advisory =
     (case advisory of
        None \<Rightarrow> []
      | Some s \<Rightarrow>
          if sast_status s = SastFindings then
            (let count = length (sast_findings s)
             in [mk_reason SastAdvisoryFinding ''SAST advisory reported findings.'' None
                  (Some (sast_scanner s @ '': '' @ show_nat count @ '' finding'' @ (if count = 1 then [] else ''s'')))])
          else if sast_status s = SastError \<or> sast_status s = SastTimedOut then
            [mk_reason SastAdvisoryUnavailable ''Configured SAST advisory scanner did not complete successfully.'' None
              (Some (case sast_reason s of
                       Some r \<Rightarrow> r
                     | None \<Rightarrow> if sast_status s = SastError then ''error'' else ''timed_out''))]
          else [])"

definition file_reasons :: "changed_file \<Rightarrow> gate_reason list" where
  "file_reasons f =
     (if isHighRiskPath (cf_path f)
      then [mk_reason HighRiskPath ''Diff touches a high-risk path.'' (Some (cf_path f)) None] else [])
     @ (if cf_deletions f > 50
        then [mk_reason LargeDeletion ''File deletes more than 50 lines.'' (Some (cf_path f)) None] else [])
     @ (if cf_status f = FDeleted
        then [mk_reason DeletedFile ''Diff deletes a file.'' (Some (cf_path f)) None] else [])
     @ (if cf_isBinary f \<or> cf_isExecutable f
        then [mk_reason BinaryOrExecutable ''Diff touches a binary or executable file.'' (Some (cf_path f)) None]
        else [])"

definition diff_reasons :: "diff_artifact \<Rightarrow> string list option \<Rightarrow> gate_reason list" where
  "diff_reasons d effects =
     (if da_isEmpty d \<and> length (case effects of None \<Rightarrow> [] | Some es \<Rightarrow> es) > 0
      then [mk_reason EmptyDiffWithSideEffects ''No code diff was produced, but runtime side effects were observed.''
              None (map_option (js_join '', '') effects)] else [])
     @ (if length (da_changedFiles d) > 5 \<or> da_addedLines d + da_removedLines d > 200
        then [mk_reason DiffTooLarge ''Diff exceeds Phase 1 automatic-review size limits.'' None None] else [])
     @ List.concat (map file_reasons (da_changedFiles d))"

definition gate_all_reasons :: "(string \<Rightarrow> string option) \<Rightarrow> gate_input \<Rightarrow> gate_reason list" where
  "gate_all_reasons readFile i =
     (let d = gi_diffArtifact i;
          patchText = (case readFile (da_storageRef d) of None \<Rightarrow> [] | Some t \<Rightarrow> t)
      in runtime_reasons (gi_runtimeSecurity i)
         @ (if da_baseRevision d = None
            then [mk_reason BaseRevisionUnknown ''Base revision could not be determined.'' None None] else [])
         @ mcp_reasons (gi_mcpToolRisk i) (gi_trustedMcpServerCalled i)
         @ sast_reasons (gi_sastAdvisory i)
         @ diff_reasons d (gi_sideEffects i)
         @ (case highRiskContentEvidence patchText of
              None \<Rightarrow> []
            | Some e \<Rightarrow> [mk_reason HighRiskContent ''Diff contains high-risk content.'' None (Some e)])
         @ (if \<not> hasVerification (gi_verification i)
            then [mk_reason MissingVerification
              ''No passing or not-required verification evidence was recorded.'' None None] else []))"

definition classifyStaticGate :: "(string \<Rightarrow> string option) \<Rightarrow> gate_input \<Rightarrow> gate_result" where
  "classifyStaticGate readFile i =
     (let reasons = gate_all_reasons readFile i;
          lowRiskOnly = list_all (\<lambda>f. isLowRiskPath (cf_path f)) (da_changedFiles (gi_diffArtifact i))
      in if length reasons = 0 \<and> lowRiskOnly then \<lparr>gate_risk = AUTO_OK, gate_reasons = []\<rparr>
         else \<lparr>gate_risk = HUMAN_REQUIRED,
               gate_reasons = (if length reasons = 0
                 then [mk_reason MissingVerification
                   ''Diff is outside Phase 1 low-risk auto-OK categories.'' None None]
                 else reasons)\<rparr>)"

section \<open>What automatic approval means\<close>

text \<open>The conditions under which nobody has to look at the diff, file by file and over all.\<close>

definition harmless_file :: "changed_file \<Rightarrow> bool" where
  "harmless_file f \<longleftrightarrow>
     isLowRiskPath (cf_path f) \<and> \<not> isHighRiskPath (cf_path f) \<and> cf_deletions f \<le> 50 \<and> cf_status f \<noteq> FDeleted
     \<and> \<not> cf_isBinary f \<and> \<not> cf_isExecutable f"

lemma file_reasons_Nil:
  "file_reasons f = [] \<longleftrightarrow>
     \<not> isHighRiskPath (cf_path f) \<and> cf_deletions f \<le> 50 \<and> cf_status f \<noteq> FDeleted
     \<and> \<not> cf_isBinary f \<and> \<not> cf_isExecutable f"
  by (auto simp: file_reasons_def)

lemma permission_reasons_Nil: "permission_reasons m = [] \<longleftrightarrow> m = Interactive"
  by (cases m) (simp_all add: permission_reasons_def)

definition sandbox_satisfied :: "runtime_security \<Rightarrow> bool" where
  "sandbox_satisfied rs \<longleftrightarrow>
     (case rs_executionSandbox rs of
        None \<Rightarrow> True
      | Some es \<Rightarrow> es_mode es = SandboxRequired \<longrightarrow> es_status es = SandboxActive)"

definition mcp_satisfied :: "gate_input \<Rightarrow> bool" where
  "mcp_satisfied i \<longleftrightarrow>
     (case gi_mcpToolRisk i of
        None \<Rightarrow> \<not> gi_trustedMcpServerCalled i
      | Some items \<Rightarrow> list_all (\<lambda>m. mcp_reason m = ToolReadOnly) items)"

definition sast_satisfied :: "gate_input \<Rightarrow> bool" where
  "sast_satisfied i \<longleftrightarrow>
     (case gi_sastAdvisory i of None \<Rightarrow> True | Some r \<Rightarrow> sast_status r \<in> {SastSkipped, SastPassed})"

definition hidden_effects :: "gate_input \<Rightarrow> bool" where
  "hidden_effects i \<longleftrightarrow>
     da_isEmpty (gi_diffArtifact i) \<and> (case gi_sideEffects i of None \<Rightarrow> False | Some es \<Rightarrow> es \<noteq> [])"

definition patch_text :: "(string \<Rightarrow> string option) \<Rightarrow> gate_input \<Rightarrow> string" where
  "patch_text readFile i = (case readFile (da_storageRef (gi_diffArtifact i)) of None \<Rightarrow> [] | Some t \<Rightarrow> t)"

lemma runtime_reasons_Nil:
  "runtime_reasons rs = [] \<longleftrightarrow>
     rs_permissionMode rs = Interactive \<and> rs_sandboxMode rs \<noteq> Some DangerFullAccess
     \<and> rs_runtimeWorkspaceStrategy rs = GitWorktree \<and> sandbox_satisfied rs"
  by (cases "rs_runtimeWorkspaceStrategy rs"; cases "rs_executionSandbox rs")
    (auto simp: runtime_reasons_def permission_reasons_Nil sandbox_satisfied_def)

lemma diff_reasons_Nil:
  "diff_reasons (gi_diffArtifact i) (gi_sideEffects i) = [] \<longleftrightarrow>
     \<not> hidden_effects i \<and> length (da_changedFiles (gi_diffArtifact i)) \<le> 5
     \<and> da_addedLines (gi_diffArtifact i) + da_removedLines (gi_diffArtifact i) \<le> 200
     \<and> (\<forall>f\<in>set (da_changedFiles (gi_diffArtifact i)). file_reasons f = [])"
  by (cases "gi_sideEffects i") (auto simp: diff_reasons_def hidden_effects_def)

lemma mcp_reasons_Nil: "mcp_reasons (gi_mcpToolRisk i) (gi_trustedMcpServerCalled i) = [] \<longleftrightarrow> mcp_satisfied i"
proof (cases "gi_mcpToolRisk i")
  case (Some items)
  have "mcp_reasons (Some items) t = [] \<longleftrightarrow> list_all (\<lambda>m. mcp_reason m = ToolReadOnly) items" for t
  proof (induction items)
    case (Cons m ms)
    then show ?case by (cases "mcp_reason m") (auto simp: mcp_reasons_def)
  qed (simp add: mcp_reasons_def)
  then show ?thesis by (simp add: Some mcp_satisfied_def)
qed (simp add: mcp_reasons_def mcp_satisfied_def)

lemma sast_reasons_Nil: "sast_reasons (gi_sastAdvisory i) = [] \<longleftrightarrow> sast_satisfied i"
proof (cases "gi_sastAdvisory i")
  case (Some r)
  then show ?thesis by (cases "sast_status r") (simp_all add: sast_reasons_def sast_satisfied_def Let_def)
qed (simp add: sast_reasons_def sast_satisfied_def)

lemma gate_all_reasons_Nil:
  "gate_all_reasons readFile i = [] \<longleftrightarrow>
     runtime_reasons (gi_runtimeSecurity i) = [] \<and> da_baseRevision (gi_diffArtifact i) \<noteq> None
     \<and> mcp_reasons (gi_mcpToolRisk i) (gi_trustedMcpServerCalled i) = [] \<and> sast_reasons (gi_sastAdvisory i) = []
     \<and> diff_reasons (gi_diffArtifact i) (gi_sideEffects i) = []
     \<and> highRiskContentEvidence (patch_text readFile i) = None \<and> hasVerification (gi_verification i)"
  by (simp add: gate_all_reasons_def Let_def patch_text_def split: option.split)

lemma harmless_files:
  "list_all harmless_file fs \<longleftrightarrow>
     list_all (\<lambda>f. isLowRiskPath (cf_path f)) fs \<and> (\<forall>f\<in>set fs. file_reasons f = [])"
  by (induction fs) (auto simp: harmless_file_def file_reasons_Nil)

lemma auto_ok_iff:
  "gate_risk (classifyStaticGate readFile i) = AUTO_OK \<longleftrightarrow>
      gate_all_reasons readFile i = [] \<and> list_all (\<lambda>f. isLowRiskPath (cf_path f)) (da_changedFiles (gi_diffArtifact i))"
  by (simp add: classifyStaticGate_def Let_def)

text \<open>
  C7: The gate lets a diff pass without a human exactly when the runtime was interactive in a worktree of
  its own without full access and with any required sandbox active, the base is known, no mutating or
  unclear MCP tool was called, no scanner complained, no side effect hides behind an empty diff, the diff
  is small, every file is of a low-risk kind and harmless, the patch text shows no risky content, and
  verification was recorded.
\<close>

theorem auto_ok_exact:
  "gate_risk (classifyStaticGate readFile i) = AUTO_OK \<longleftrightarrow>
     (rs_permissionMode (gi_runtimeSecurity i) = Interactive
      \<and> rs_sandboxMode (gi_runtimeSecurity i) \<noteq> Some DangerFullAccess
      \<and> rs_runtimeWorkspaceStrategy (gi_runtimeSecurity i) = GitWorktree
      \<and> sandbox_satisfied (gi_runtimeSecurity i)
      \<and> da_baseRevision (gi_diffArtifact i) \<noteq> None \<and> mcp_satisfied i \<and> sast_satisfied i \<and> \<not> hidden_effects i
      \<and> length (da_changedFiles (gi_diffArtifact i)) \<le> 5
      \<and> da_addedLines (gi_diffArtifact i) + da_removedLines (gi_diffArtifact i) \<le> 200
      \<and> list_all harmless_file (da_changedFiles (gi_diffArtifact i))
      \<and> highRiskContentEvidence (patch_text readFile i) = None
      \<and> hasVerification (gi_verification i))"
  unfolding auto_ok_iff gate_all_reasons_Nil runtime_reasons_Nil mcp_reasons_Nil sast_reasons_Nil
    diff_reasons_Nil harmless_files by blast

text \<open>
  Only the built-in runtime passes the gate on its own: with the permission mode derived from the
  launch, an automatic pass means that the source was \<open>ucm\<close>, that no permission override was in the
  environment and that the sandbox was not open.
\<close>

theorem auto_ok_only_ucm:
  assumes "rs_permissionMode (gi_runtimeSecurity i) = pr_permissionMode (derivePermissionMode launch)"
    and "gate_risk (classifyStaticGate readFile i) = AUTO_OK"
  shows "pi_runtimeSource launch = Ucm \<and> \<not> hasPermissionOverrideHint (pi_envPermissionHints launch)
    \<and> pi_sandboxMode launch \<noteq> Some DangerFullAccess"
proof -
  have "pr_permissionMode (derivePermissionMode launch) = Interactive"
    using assms(2) unfolding auto_ok_iff gate_all_reasons_Nil runtime_reasons_Nil assms(1) [symmetric] by blast
  then show ?thesis using interactive_only_ucm by blast
qed

definition example_launch :: permission_input where
  "example_launch = \<lparr>pi_runtimeSource = Ucm, pi_argv = [], pi_sandboxMode = Some WorkspaceWrite,
     pi_envPermissionHints = [], pi_hasInteractiveApprovalChannel = None\<rparr>"

definition example_file :: changed_file where
  "example_file = \<lparr>cf_path = ''docs/a.md'', cf_status = FModified, cf_oldPath = None, cf_additions = 1,
     cf_deletions = 0, cf_isBinary = False, cf_isExecutable = False\<rparr>"

definition example_gate_input :: gate_input where
  "example_gate_input =
     \<lparr>gi_runtimeSecurity = \<lparr>rs_sandboxMode = Some WorkspaceWrite, rs_permissionMode = Interactive,
        rs_runtimeWorkspaceStrategy = GitWorktree, rs_executionSandbox = None\<rparr>,
      gi_diffArtifact = \<lparr>da_storageRef = ''p'', da_baseRevision = Some ''abc'', da_changedFiles = [example_file],
        da_addedLines = 1, da_removedLines = 0, da_isEmpty = False\<rparr>,
      gi_verification = [VPassed], gi_mcpToolRisk = None, gi_sastAdvisory = None,
      gi_trustedMcpServerCalled = False, gi_sideEffects = None\<rparr>"

lemma example_auto_ok: "gate_risk (classifyStaticGate (\<lambda>_. Some ''+x'') example_gate_input) = AUTO_OK"
  by code_simp

theorem auto_ok_only_ucm_witness: "pi_runtimeSource example_launch = Ucm"
proof -
  have "rs_permissionMode (gi_runtimeSecurity example_gate_input) = pr_permissionMode (derivePermissionMode example_launch)"
    by (simp add: example_gate_input_def example_launch_def derivePermissionMode_def hasPermissionOverrideHint_def)
  then show ?thesis using auto_ok_only_ucm [OF _ example_auto_ok] by blast
qed

text \<open>
  The gate does not look at everything it decides on: where a renamed file came from plays no role,
  so a sensitive file can be moved to a documentation path unnoticed, and a patch that cannot be read
  counts as an empty one.
\<close>

theorem gate_blind_spots:
  "classifyStaticGate readFile (i\<lparr>gi_diffArtifact := (gi_diffArtifact i)\<lparr>da_changedFiles :=
       map (\<lambda>f. f\<lparr>cf_oldPath := old\<rparr>) (da_changedFiles (gi_diffArtifact i))\<rparr>\<rparr>) = classifyStaticGate readFile i
   \<and> classifyStaticGate (\<lambda>_. None) i = classifyStaticGate (\<lambda>_. Some []) i"
proof -
  have f: "file_reasons (f\<lparr>cf_oldPath := old\<rparr>) = file_reasons f" for f
    by (simp add: file_reasons_def)
  show ?thesis
    by (simp add: classifyStaticGate_def gate_all_reasons_def diff_reasons_def Let_def comp_def f list_all_iff)
qed

end
