(* ===== verification/Review_Router.thy ===== *)
theory Review_Router
  imports Static_Gate
begin

text \<open>
  The assignment of a fresh review to the leader's or the user's inbox
  (\<open>apps/api/src/services/safe-apply/review-assignment-router.ts\<close>) under a workspace's policy document.
  A policy version is an integer; the represented JSON has no other numbers.
\<close>

datatype policy_mode = Hitl | LeaderDriven

record review_policy =
  rp_version :: int
  rp_mode :: policy_mode
  rp_alwaysEscalatePaths :: "string list option"

datatype assignee = ToLeader | ToUser

record router_decision =
  rd_assignee :: assignee
  rd_reason :: string

definition MAX_KNOWN_POLICY_VERSION :: int where "MAX_KNOWN_POLICY_VERSION = 1"

definition hitl_policy :: "int \<Rightarrow> review_policy" where
  "hitl_policy version = \<lparr>rp_version = version, rp_mode = Hitl, rp_alwaysEscalatePaths = None\<rparr>"

fun nonempty_strings :: "json list \<Rightarrow> string list" where
  "nonempty_strings [] = []"
| "nonempty_strings (j # js) =
     (case j of JStr p \<Rightarrow> if length p > 0 then p # nonempty_strings js else nonempty_strings js
              | _ \<Rightarrow> nonempty_strings js)"

text \<open>The outer option is an unset policy, the inner one a text that does not parse.\<close>

definition parseWorkspacePolicy :: "json_text option \<Rightarrow> review_policy" where
  "parseWorkspacePolicy text1 =
     (case text1 of
        Some (Some (JObj parsed)) \<Rightarrow>
          (let version = (case obj_get parsed ''version'' of Some (JNum n) \<Rightarrow> n | _ \<Rightarrow> 1) in
           if version > MAX_KNOWN_POLICY_VERSION then hitl_policy version
           else \<lparr>rp_version = version,
                 rp_mode = (if obj_get parsed ''mode'' = Some (JStr ''leader-driven'') then LeaderDriven else Hitl),
                 rp_alwaysEscalatePaths =
                   (case obj_get parsed ''alwaysEscalatePaths'' of
                      Some (JArr ps) \<Rightarrow> Some (nonempty_strings ps)
                    | _ \<Rightarrow> None)\<rparr>)
      | _ \<Rightarrow> hitl_policy 1)"

text \<open>The paths of the changed files; nothing for a text that does not parse or is no array.\<close>

fun entry_paths :: "json list \<Rightarrow> string list" where
  "entry_paths [] = []"
| "entry_paths (j # js) =
     (case j of
        JStr p \<Rightarrow> p # entry_paths js
      | JObj e \<Rightarrow> (case obj_get e ''path'' of Some (JStr p) \<Rightarrow> p # entry_paths js | _ \<Rightarrow> entry_paths js)
      | _ \<Rightarrow> entry_paths js)"

definition parseChangedFiles :: "json_text \<Rightarrow> string list" where
  "parseChangedFiles text1 = (case text1 of Some (JArr es) \<Rightarrow> entry_paths es | _ \<Rightarrow> [])"

definition matchesAnyGlob :: "string list \<Rightarrow> string list \<Rightarrow> bool" where
  "matchesAnyGlob files patterns =
     list_ex (\<lambda>pattern. let normalized = to_lower pattern
                        in list_ex (\<lambda>f. includes_str (to_lower f) normalized) files) patterns"

record route_input =
  ri_changedFilesJson :: json_text
  ri_permissionMode :: permission_mode
  ri_sandboxMode :: "sandbox_mode option"
  ri_runtimeWorkspaceStrategy :: workspace_strategy

definition routeAssignment :: "route_input \<Rightarrow> review_policy \<Rightarrow> router_decision" where
  "routeAssignment review policy =
     (if rp_mode policy = Hitl then \<lparr>rd_assignee = ToUser, rd_reason = ''workspace_policy:hitl''\<rparr>
      else
        let changedFiles = parseChangedFiles (ri_changedFilesJson review);
            highRiskHits = filter isHighRiskPath changedFiles
        in if length highRiskHits > 0 then
             \<lparr>rd_assignee = ToUser,
              rd_reason = ''static_gate_high_risk: '' @ js_join '', '' (take 5 highRiskHits)
                @ (if length highRiskHits > 5
                   then '' (+'' @ show_nat (length highRiskHits - 5) @ '' more)'' else [])\<rparr>
           else if (case rp_alwaysEscalatePaths policy of
                      None \<Rightarrow> False | Some ps \<Rightarrow> matchesAnyGlob changedFiles ps)
           then \<lparr>rd_assignee = ToUser, rd_reason = ''workspace_policy:always_escalate''\<rparr>
           else if ri_sandboxMode review = Some DangerFullAccess
           then \<lparr>rd_assignee = ToUser, rd_reason = ''danger_full_access''\<rparr>
           else if ri_permissionMode review = Headless \<and> ri_runtimeWorkspaceStrategy review = WorkspaceRoot
           then \<lparr>rd_assignee = ToUser, rd_reason = ''headless_on_workspace_root''\<rparr>
           else \<lparr>rd_assignee = ToLeader, rd_reason = ''default''\<rparr>)"

section \<open>Who decides\<close>

text \<open>The policy names a pattern that one of the paths contains, letter case aside.\<close>

definition escalated :: "review_policy \<Rightarrow> string list \<Rightarrow> bool" where
  "escalated policy paths \<longleftrightarrow>
     (\<exists>ps. rp_alwaysEscalatePaths policy = Some ps
        \<and> (\<exists>p\<in>set ps. \<exists>f\<in>set paths. \<exists>u v. to_lower f = u @ to_lower p @ v))"

lemma escalated_iff:
  "escalated policy paths \<longleftrightarrow>
     (case rp_alwaysEscalatePaths policy of None \<Rightarrow> False | Some ps \<Rightarrow> matchesAnyGlob paths ps)"
  by (auto simp: escalated_def matchesAnyGlob_def list_ex_iff includes_str_iff Let_def split: option.splits)

lemma leader_iff:
  "rd_assignee (routeAssignment r policy) = ToLeader \<longleftrightarrow>
     rp_mode policy = LeaderDriven
     \<and> \<not> list_ex isHighRiskPath (parseChangedFiles (ri_changedFilesJson r))
     \<and> \<not> escalated policy (parseChangedFiles (ri_changedFilesJson r))
     \<and> ri_sandboxMode r \<noteq> Some DangerFullAccess
     \<and> \<not> (ri_permissionMode r = Headless \<and> ri_runtimeWorkspaceStrategy r = WorkspaceRoot)"
  by (cases "rp_mode policy")
    (auto simp: routeAssignment_def escalated_iff Let_def list_ex_iff filter_empty_conv)

lemma hitl_to_user: "rp_mode policy = Hitl \<Longrightarrow> rd_assignee (routeAssignment r policy) = ToUser"
  by (simp add: routeAssignment_def)

lemma parse_policy_hitl:
  "rp_mode (parseWorkspacePolicy None) = Hitl" "rp_mode (parseWorkspacePolicy (Some None)) = Hitl"
  "rp_mode (parseWorkspacePolicy (Some (Some (JObj (others @ [(''version'', JNum (2 + int k))]))))) = Hitl"
  by (simp_all add: parseWorkspacePolicy_def hitl_policy_def obj_get_def MAX_KNOWN_POLICY_VERSION_def Let_def)

text \<open>
  A review reaches the leader's inbox exactly when the workspace opted in, no parsed path is
  high-risk or on the policy's list, the sandbox was not open and the runtime was not headless on the
  workspace itself; a policy of a newer version, or one that cannot be read, never opts in.
\<close>

theorem leader_assignment_exact:
  "(rd_assignee (routeAssignment r policy) = ToLeader \<longleftrightarrow>
     rp_mode policy = LeaderDriven
     \<and> \<not> list_ex isHighRiskPath (parseChangedFiles (ri_changedFilesJson r))
     \<and> \<not> escalated policy (parseChangedFiles (ri_changedFilesJson r))
     \<and> ri_sandboxMode r \<noteq> Some DangerFullAccess
     \<and> \<not> (ri_permissionMode r = Headless \<and> ri_runtimeWorkspaceStrategy r = WorkspaceRoot))
   \<and> rp_mode (parseWorkspacePolicy None) = Hitl \<and> rp_mode (parseWorkspacePolicy (Some None)) = Hitl
   \<and> rd_assignee (routeAssignment r
        (parseWorkspacePolicy (Some (Some (JObj (others @ [(''version'', JNum (2 + int k))])))))) = ToUser"
  by (simp add: leader_iff parse_policy_hitl hitl_to_user)

text \<open>
  The router and the static gate do not drift apart: of the files a review lists, none for which the
  gate would report a high-risk path is ever in a review that the leader decides.
\<close>

theorem router_agrees_with_gate:
  assumes "rd_assignee (routeAssignment r policy) = ToLeader"
    and "set (map cf_path (da_changedFiles (gi_diffArtifact i))) \<subseteq> set (parseChangedFiles (ri_changedFilesJson r))"
  shows "HighRiskPath \<notin> set (map gr_code (gate_reasons (classifyStaticGate readFile i)))"
proof -
  define ok where "ok (x :: gate_reason) \<longleftrightarrow> gr_code x \<noteq> HighRiskPath" for x
  have none: "\<not> isHighRiskPath (cf_path f)" if "f \<in> set (da_changedFiles (gi_diffArtifact i))" for f
    using assms that by (auto simp: leader_iff list_ex_iff)
  have code: "gr_code (mk_reason c m p e) = c" for c m p e by (simp add: mk_reason_def)
  have files: "list_all ok (file_reasons f)" if "f \<in> set (da_changedFiles (gi_diffArtifact i))" for f
    using none [OF that] by (simp add: file_reasons_def code ok_def)
  have perm: "list_all ok (permission_reasons m)" for m
    by (cases m) (simp_all add: permission_reasons_def code ok_def)
  have "list_all ok (runtime_reasons rs)" for rs
    using perm by (simp add: runtime_reasons_def code ok_def split: workspace_strategy.split option.split)
  moreover have "list_all ok (mcp_reasons m t)" for m t
  proof (cases m)
    case (Some items)
    show ?thesis unfolding Some
    proof (induction items)
      case (Cons x xs)
      then show ?case by (cases "mcp_reason x") (simp_all add: mcp_reasons_def code ok_def)
    qed (simp add: mcp_reasons_def)
  qed (simp add: mcp_reasons_def code ok_def)
  moreover have "list_all ok (sast_reasons s)" for s
    by (simp add: sast_reasons_def code ok_def Let_def split: option.split)
  moreover have "list_all ok (diff_reasons (gi_diffArtifact i) e)" for e
    using files by (auto simp: diff_reasons_def code ok_def list_all_iff)
  ultimately have "list_all ok (gate_all_reasons readFile i)"
    by (simp add: gate_all_reasons_def Let_def code ok_def split: option.split)
  then have "list_all ok (gate_reasons (classifyStaticGate readFile i))"
    by (simp add: classifyStaticGate_def Let_def code ok_def)
  then show ?thesis by (auto simp: list_all_iff ok_def)
qed

definition example_route :: route_input where
  "example_route = \<lparr>ri_changedFilesJson = Some (JArr [JObj [(''path'', JStr ''docs/a.md'')]]),
     ri_permissionMode = Headless, ri_sandboxMode = Some WorkspaceWrite, ri_runtimeWorkspaceStrategy = GitWorktree\<rparr>"

definition example_policy :: review_policy where
  "example_policy = \<lparr>rp_version = 1, rp_mode = LeaderDriven, rp_alwaysEscalatePaths = None\<rparr>"

theorem router_agrees_with_gate_witness:
  "HighRiskPath \<notin> set (map gr_code (gate_reasons (classifyStaticGate (\<lambda>_. None) example_gate_input)))"
proof (rule router_agrees_with_gate)
  show "rd_assignee (routeAssignment example_route example_policy) = ToLeader" by code_simp
  show "set (map cf_path (da_changedFiles (gi_diffArtifact example_gate_input)))
      \<subseteq> set (parseChangedFiles (ri_changedFilesJson example_route))"
    by (simp add: example_gate_input_def example_file_def example_route_def parseChangedFiles_def obj_get_def)
qed

text \<open>
  The router fails open on the list of changed files: when that list cannot be read, no path check
  applies and an opted-in workspace hands the review to the leader.
\<close>

theorem unreadable_files_go_to_leader:
  assumes "rp_mode policy = LeaderDriven" and "ri_changedFilesJson r = None"
    and "ri_sandboxMode r \<noteq> Some DangerFullAccess" and "ri_permissionMode r \<noteq> Headless"
  shows "rd_assignee (routeAssignment r policy) = ToLeader"
  using assms by (simp add: leader_iff parseChangedFiles_def escalated_def)

theorem unreadable_files_go_to_leader_witness:
  "rd_assignee (routeAssignment
     (example_route\<lparr>ri_changedFilesJson := None, ri_permissionMode := Bypassed\<rparr>) example_policy) = ToLeader"
  by (rule unreadable_files_go_to_leader) (simp_all add: example_route_def example_policy_def)

end
