(* ===== verification/Review_Store.thy ===== *)
theory Review_Store
  imports Js_Prelude
begin

text \<open>
  The table of change reviews and every operation that changes a row of it
  (\<open>apps/api/src/repositories/change-review-repository.ts\<close>, the row updates of
  \<open>services/safe-apply/leader-apply-service.ts\<close>, \<open>leader-review-tools-service.ts\<close>,
  \<open>reviewer-verdict-service.ts\<close> and \<open>routes/change-reviews.ts\<close>). The table is the list of its rows; the
  columns that no operation reads or changes are one component of a row. A time is its milliseconds. The
  clock of an operation, and the random id it draws, are arguments.

  Each operation is one step of the state machine below, so its runs are the interleavings of any number
  of clients. Where the code reads a row, updates it under a condition and reads it again without a
  transaction, the condition of the update repeats the guards of the first read, and the three are one step
  here.
\<close>

section \<open>Rows\<close>

datatype decision_state = Pending | Approved | Rejected | RevisionRequested | NotRequired | Superseded

datatype apply_state = NotApplied | Applying | Applied | ApplyFailed | PartiallyApplied

datatype review_assignee = AssignedLeader | AssignedUser

record change_review =
  rv_id :: string
  rv_workspaceId :: string
  rv_reviewDraftArtifactId :: string
  rv_diffArtifactId :: string
  rv_baseRevision :: "string option"
  rv_diffHash :: string
  rv_changedFilesJson :: json_text
  rv_reviewerVerdictsJson :: json_text
  rv_other :: "(string \<times> string) list"
  rv_decisionState :: decision_state
  rv_decisionReason :: "string option"
  rv_decidedBy :: "string option"
  rv_decidedAt :: "int option"
  rv_applyState :: apply_state
  rv_appliedAt :: "int option"
  rv_assignee :: review_assignee
  rv_assigneeSetBy :: "string option"
  rv_reviewerVerdictArtifactId :: "string option"
  rv_leaderApplyCommitSha :: "string option"
  rv_createdAt :: int
  rv_updatedAt :: int

type_synonym review_table = "change_review list"

datatype review_error = NotFound | Conflict | ConstraintViolation | Forged | TargetMissing | AlreadySubmitted
  | TerminalState | NotAssigned | RaceLost | StillApplicable | Internal

type_synonym 'a review_outcome = "(review_error + 'a) \<times> review_table"

text \<open>\<open>SELECT ... WHERE id = ? LIMIT 1\<close>, and \<open>UPDATE ... WHERE\<close> with its number of changed rows.\<close>

definition select_by_id :: "string \<Rightarrow> review_table \<Rightarrow> change_review option" where
  "select_by_id i t = find (\<lambda>r. rv_id r = i) t"

definition select_by_draft :: "string \<Rightarrow> review_table \<Rightarrow> change_review option" where
  "select_by_draft d t = find (\<lambda>r. rv_reviewDraftArtifactId r = d) t"

definition update_where ::
  "(change_review \<Rightarrow> bool) \<Rightarrow> (change_review \<Rightarrow> change_review) \<Rightarrow> review_table \<Rightarrow> review_table \<times> nat" where
  "update_where p f t = (map (\<lambda>r. if p r then f r else r) t, length (filter p t))"

section \<open>The repository\<close>

record create_input =
  ci_id :: "string option"
  ci_workspaceId :: string
  ci_reviewDraftArtifactId :: string
  ci_diffArtifactId :: string
  ci_baseRevision :: "string option"
  ci_diffHash :: string
  ci_changedFilesJson :: json_text
  ci_reviewerVerdictsJson :: "json_text option"
  ci_other :: "(string \<times> string) list"
  ci_decisionState :: decision_state
  ci_decisionReason :: "string option"
  ci_decidedBy :: "string option"
  ci_decidedAt :: "int option"
  ci_applyState :: "apply_state option"
  ci_appliedAt :: "int option"
  ci_assignee :: "review_assignee option"
  ci_assigneeSetBy :: "string option"
  ci_reviewerVerdictArtifactId :: "string option"
  ci_leaderApplyCommitSha :: "string option"
  ci_createdAt :: "int option"
  ci_updatedAt :: "int option"

definition default_to :: "'a \<Rightarrow> 'a option \<Rightarrow> 'a" where
  "default_to d v = (case v of None \<Rightarrow> d | Some x \<Rightarrow> x)"

definition new_row :: "string \<Rightarrow> int \<Rightarrow> create_input \<Rightarrow> change_review" where
  "new_row freshId clock i =
     (let now = default_to clock (ci_createdAt i) in
      \<lparr>rv_id = default_to freshId (ci_id i), rv_workspaceId = ci_workspaceId i,
       rv_reviewDraftArtifactId = ci_reviewDraftArtifactId i, rv_diffArtifactId = ci_diffArtifactId i,
       rv_baseRevision = ci_baseRevision i, rv_diffHash = ci_diffHash i,
       rv_changedFilesJson = ci_changedFilesJson i,
       rv_reviewerVerdictsJson = default_to (Some (JArr [])) (ci_reviewerVerdictsJson i),
       rv_other = ci_other i,
       rv_decisionState = ci_decisionState i, rv_decisionReason = ci_decisionReason i,
       rv_decidedBy = ci_decidedBy i, rv_decidedAt = ci_decidedAt i,
       rv_applyState = default_to NotApplied (ci_applyState i), rv_appliedAt = ci_appliedAt i,
       rv_assignee = default_to AssignedUser (ci_assignee i), rv_assigneeSetBy = ci_assigneeSetBy i,
       rv_reviewerVerdictArtifactId = ci_reviewerVerdictArtifactId i,
       rv_leaderApplyCommitSha = ci_leaderApplyCommitSha i,
       rv_createdAt = now, rv_updatedAt = default_to now (ci_updatedAt i)\<rparr>)"

text \<open>
  The insert fails on the primary key; the unique index on the draft cannot fail behind the select of
  the same transaction.
\<close>

definition createFromDraft :: "string \<Rightarrow> int \<Rightarrow> create_input \<Rightarrow> review_table \<Rightarrow> change_review review_outcome" where
  "createFromDraft freshId clock i t =
     (case select_by_draft (ci_reviewDraftArtifactId i) t of
        Some existing \<Rightarrow> (Inr existing, t)
      | None \<Rightarrow>
          let row = new_row freshId clock i
          in if select_by_id (rv_id row) t \<noteq> None then (Inl ConstraintViolation, t)
             else (case select_by_id (rv_id row) (t @ [row]) of
                     None \<Rightarrow> (Inl Internal, t)
                   | Some created \<Rightarrow> (Inr created, t @ [row])))"

record decision_input =
  di_reviewId :: string
  di_decisionState :: decision_state
  di_reason :: "string option"
  di_actorId :: "string option"
  di_expectedDiffHash :: "string option"

definition recordDecision ::
  "int \<Rightarrow> decision_input \<Rightarrow> review_table \<Rightarrow> (change_review \<times> bool) review_outcome" where
  "recordDecision now i t =
     (case select_by_id (di_reviewId i) t of
        None \<Rightarrow> (Inl NotFound, t)
      | Some review \<Rightarrow>
          if truthy_str (di_expectedDiffHash i) \<and> di_expectedDiffHash i \<noteq> Some (rv_diffHash review)
          then (Inl Conflict, t)
          else if rv_decisionState review \<noteq> Pending then
            (if rv_decisionState review = di_decisionState i then (Inr (review, True), t) else (Inl Conflict, t))
          else if rv_applyState review = Applying then (Inl Conflict, t)
          else
            let t' = fst (update_where
                  (\<lambda>r. rv_id r = di_reviewId i \<and> rv_decisionState r = Pending \<and> rv_applyState r \<noteq> Applying)
                  (\<lambda>r. r\<lparr>rv_decisionState := di_decisionState i, rv_decisionReason := di_reason i,
                         rv_decidedBy := di_actorId i, rv_decidedAt := Some now, rv_updatedAt := now\<rparr>) t)
            in (case select_by_id (di_reviewId i) t' of
                  None \<Rightarrow> (Inl Internal, t)
                | Some updated \<Rightarrow>
                    if rv_decisionState updated \<noteq> di_decisionState i then (Inl Conflict, t)
                    else (Inr (updated, False), t')))"

text \<open>Recording the outcome of an operator's apply: the shared guards, then the update.\<close>

definition record_apply ::
  "apply_state \<Rightarrow> (change_review \<Rightarrow> change_review) \<Rightarrow> string \<Rightarrow> string \<Rightarrow> review_table
     \<Rightarrow> change_review review_outcome" where
  "record_apply target set_columns reviewId expectedDiffHash t =
     (case select_by_id reviewId t of
        None \<Rightarrow> (Inl NotFound, t)
      | Some review \<Rightarrow>
          if rv_diffHash review \<noteq> expectedDiffHash then (Inl Conflict, t)
          else if rv_decisionState review \<noteq> Approved then (Inl Conflict, t)
          else if rv_applyState review \<noteq> NotApplied then (Inl Conflict, t)
          else
            (case update_where (\<lambda>r. rv_id r = reviewId \<and> rv_applyState r = NotApplied) set_columns t of
               (t', count) \<Rightarrow>
                 if count = 0 then (Inl Conflict, t)
                 else (case select_by_id reviewId t' of
                         None \<Rightarrow> (Inl Internal, t)
                       | Some updated \<Rightarrow>
                           if rv_applyState updated \<noteq> target then (Inl Conflict, t)
                           else (Inr updated, t'))))"

definition recordApplySuccess :: "int \<Rightarrow> string \<Rightarrow> string \<Rightarrow> review_table \<Rightarrow> change_review review_outcome" where
  "recordApplySuccess now reviewId expectedDiffHash t =
     record_apply Applied (\<lambda>r. r\<lparr>rv_applyState := Applied, rv_appliedAt := Some now, rv_updatedAt := now\<rparr>)
       reviewId expectedDiffHash t"

definition recordApplyFailure :: "int \<Rightarrow> string \<Rightarrow> string \<Rightarrow> review_table \<Rightarrow> change_review review_outcome" where
  "recordApplyFailure now reviewId expectedDiffHash t =
     record_apply ApplyFailed (\<lambda>r. r\<lparr>rv_applyState := ApplyFailed, rv_updatedAt := now\<rparr>)
       reviewId expectedDiffHash t"

section \<open>The leader's slot\<close>

definition claimApplyingSlot :: "int \<Rightarrow> string \<Rightarrow> string \<Rightarrow> string \<Rightarrow> review_table \<Rightarrow> bool \<times> review_table" where
  "claimApplyingSlot now reviewId decidedBy expectedDiffHash t =
     (case update_where
        (\<lambda>r. rv_id r = reviewId \<and> rv_assignee r = AssignedLeader \<and> rv_decisionState r = Pending
             \<and> rv_applyState r = NotApplied \<and> rv_diffHash r = expectedDiffHash)
        (\<lambda>r. r\<lparr>rv_applyState := Applying, rv_decidedBy := Some decidedBy, rv_updatedAt := now\<rparr>) t of
        (t', changes) \<Rightarrow> (changes = 1, t'))"

text \<open>The row is applying on behalf of this caller.\<close>

definition owns_slot :: "string \<Rightarrow> string \<Rightarrow> change_review \<Rightarrow> bool" where
  "owns_slot reviewId decidedBy r \<longleftrightarrow>
     rv_id r = reviewId \<and> rv_applyState r = Applying \<and> rv_decidedBy r = Some decidedBy"

definition revertApplyingSlot :: "int \<Rightarrow> string \<Rightarrow> string \<Rightarrow> review_table \<Rightarrow> review_table" where
  "revertApplyingSlot now reviewId decidedBy t =
     fst (update_where (owns_slot reviewId decidedBy)
       (\<lambda>r. r\<lparr>rv_applyState := NotApplied, rv_decidedBy := None, rv_updatedAt := now\<rparr>) t)"

definition markPartiallyApplied :: "int \<Rightarrow> string \<Rightarrow> string \<Rightarrow> string \<Rightarrow> review_table \<Rightarrow> review_table" where
  "markPartiallyApplied now reviewId decidedBy reason t =
     fst (update_where (owns_slot reviewId decidedBy)
       (\<lambda>r. r\<lparr>rv_applyState := PartiallyApplied, rv_decisionReason := Some (take 500 reason),
              rv_updatedAt := now\<rparr>) t)"

definition markApplyFailed :: "int \<Rightarrow> string \<Rightarrow> string \<Rightarrow> string \<Rightarrow> review_table \<Rightarrow> review_table" where
  "markApplyFailed now reviewId decidedBy reason t =
     fst (update_where (owns_slot reviewId decidedBy)
       (\<lambda>r. r\<lparr>rv_applyState := ApplyFailed, rv_decisionReason := Some (take 500 reason),
              rv_updatedAt := now\<rparr>) t)"

text \<open>The final write of the leader's apply; an empty commit id is stored as none.\<close>

definition finishLeaderApply :: "int \<Rightarrow> string \<Rightarrow> string \<Rightarrow> string \<Rightarrow> string \<Rightarrow> review_table \<Rightarrow> review_table" where
  "finishLeaderApply now reviewId decidedBy reasoning commitSha t =
     fst (update_where (owns_slot reviewId decidedBy)
       (\<lambda>r. r\<lparr>rv_applyState := Applied, rv_decisionState := Approved,
              rv_decisionReason := Some (take 500 reasoning), rv_appliedAt := Some now,
              rv_leaderApplyCommitSha := (if commitSha = [] then None else Some commitSha),
              rv_updatedAt := now\<rparr>) t)"

section \<open>The leader's and the operator's other decisions\<close>

definition rejectChangeReviewAsLeader ::
  "int \<Rightarrow> string \<Rightarrow> string \<Rightarrow> string \<Rightarrow> json \<Rightarrow> review_table \<Rightarrow> change_review review_outcome" where
  "rejectChangeReviewAsLeader now reviewId reason decidedBy entry t =
     (case select_by_id reviewId t of
        None \<Rightarrow> (Inl NotFound, t)
      | Some review \<Rightarrow>
          if rv_assignee review \<noteq> AssignedLeader then (Inl NotAssigned, t)
          else if rv_decisionState review \<noteq> Pending then (Inl TerminalState, t)
          else
            let prior = (case rv_reviewerVerdictsJson review of Some (JArr vs) \<Rightarrow> vs | _ \<Rightarrow> []);
                t' = fst (update_where
                  (\<lambda>r. rv_id r = reviewId \<and> rv_assignee r = AssignedLeader \<and> rv_decisionState r = Pending
                       \<and> rv_applyState r \<noteq> Applying)
                  (\<lambda>r. r\<lparr>rv_decisionState := Rejected, rv_decisionReason := Some reason,
                         rv_decidedBy := Some decidedBy, rv_decidedAt := Some now,
                         rv_reviewerVerdictsJson := Some (JArr (prior @ [entry])), rv_updatedAt := now\<rparr>) t)
            in (case select_by_id reviewId t' of
                  None \<Rightarrow> (Inl RaceLost, t')
                | Some after \<Rightarrow>
                    if rv_decisionState after \<noteq> Rejected \<or> rv_decidedBy after \<noteq> Some decidedBy
                    then (Inl RaceLost, t')
                    else (Inr after, t')))"

definition escalateChangeReviewToUser ::
  "int \<Rightarrow> string \<Rightarrow> string \<Rightarrow> review_table \<Rightarrow> change_review review_outcome" where
  "escalateChangeReviewToUser now reviewId reason t =
     (case select_by_id reviewId t of
        None \<Rightarrow> (Inl NotFound, t)
      | Some review \<Rightarrow>
          if rv_assignee review = AssignedUser then (Inr review, t)
          else if rv_decisionState review \<noteq> Pending then (Inl TerminalState, t)
          else
            let t' = fst (update_where
                  (\<lambda>r. rv_id r = reviewId \<and> rv_assignee r = AssignedLeader \<and> rv_decisionState r = Pending
                       \<and> rv_applyState r \<noteq> Applying)
                  (\<lambda>r. r\<lparr>rv_assignee := AssignedUser, rv_assigneeSetBy := Some ''leader'',
                         rv_decisionReason := Some reason, rv_updatedAt := now\<rparr>) t)
            in (case select_by_id reviewId t' of
                  None \<Rightarrow> (Inl RaceLost, t')
                | Some after \<Rightarrow>
                    if rv_assignee after \<noteq> AssignedUser then (Inl RaceLost, t')
                    else if rv_assigneeSetBy after \<noteq> Some ''leader'' \<or> rv_updatedAt after \<noteq> now
                    then (Inl RaceLost, t')
                    else (Inr after, t')))"

text \<open>The operator's discard of an approved review whose patch no longer applies.\<close>

definition discardReview ::
  "bool \<Rightarrow> int \<Rightarrow> string \<Rightarrow> string \<Rightarrow> string option \<Rightarrow> review_table \<Rightarrow> change_review review_outcome" where
  "discardReview applicable now reviewId reason actorId t =
     (case select_by_id reviewId t of
        None \<Rightarrow> (Inl NotFound, t)
      | Some review \<Rightarrow>
          if rv_decisionState review \<noteq> Approved \<or> rv_applyState review \<noteq> NotApplied then (Inl Conflict, t)
          else if applicable then (Inl StillApplicable, t)
          else
            (case update_where
               (\<lambda>r. rv_id r = reviewId \<and> rv_decisionState r = Approved \<and> rv_applyState r = NotApplied)
               (\<lambda>r. r\<lparr>rv_decisionState := Superseded, rv_decisionReason := Some reason,
                      rv_decidedBy := actorId, rv_decidedAt := Some now, rv_updatedAt := now\<rparr>) t of
               (t', changes) \<Rightarrow>
                 if changes \<noteq> 1 then (Inl Conflict, t')
                 else (case select_by_id reviewId t' of
                         None \<Rightarrow> (Inl Internal, t')
                       | Some updated \<Rightarrow> (Inr updated, t'))))"

text \<open>Attaching a reviewer's verdict: the forgery guard and the once-only slot.\<close>

definition persistReviewerVerdict ::
  "int \<Rightarrow> string \<Rightarrow> string \<Rightarrow> string \<Rightarrow> string \<Rightarrow> review_table \<Rightarrow> string review_outcome" where
  "persistReviewerVerdict now artifactId callerRoleRuntimeId claimedRoleRuntimeId reviewId t =
     (if claimedRoleRuntimeId \<noteq> callerRoleRuntimeId then (Inl Forged, t)
      else case select_by_id reviewId t of
             None \<Rightarrow> (Inl TargetMissing, t)
           | Some review \<Rightarrow>
               let t' = fst (update_where
                     (\<lambda>r. rv_id r = reviewId \<and> rv_reviewerVerdictArtifactId r = None \<and> rv_applyState r \<noteq> Applying)
                     (\<lambda>r. r\<lparr>rv_reviewerVerdictArtifactId := Some artifactId, rv_updatedAt := now\<rparr>) t)
               in (case select_by_id reviewId t' of
                     None \<Rightarrow> (Inl AlreadySubmitted, t')
                   | Some reread \<Rightarrow>
                       if rv_reviewerVerdictArtifactId reread \<noteq> Some artifactId then (Inl AlreadySubmitted, t')
                       else (Inr artifactId, t')))"

section \<open>Recovery at start-up\<close>

definition APPLY_ORPHAN_TTL_MS :: int where "APPLY_ORPHAN_TTL_MS = 10 * 60 * 1000"

text \<open>
  The search of \<open>git log --format=%H%x00%s%x00%b%x1e\<close> for the commit of a review: records end at code 30,
  their fields at code 0. \<open>None\<close> stands for the empty id, which the code treats as no commit.
\<close>

definition field_at :: "string list \<Rightarrow> nat \<Rightarrow> string" where
  "field_at fs n = (if n < length fs then fs ! n else [])"

definition marker_commit :: "string \<Rightarrow> string \<Rightarrow> string option" where
  "marker_commit reviewId record1 =
     (let trimmed = dropWhile (\<lambda>c. c = CHR 0x0A) record1;
          fields = js_split (CHR 0x00) trimmed
      in if trimmed = [] then None
         else if js_trim (field_at fields 1) \<noteq> ''leader-applied change_review '' @ reviewId then None
         else if \<not> includes_str (field_at fields 2) (''review-id: '' @ reviewId) then None
         else Some (js_trim (field_at fields 0)))"

fun first_marker :: "string \<Rightarrow> string list \<Rightarrow> string option" where
  "first_marker reviewId [] = None"
| "first_marker reviewId (r # rs) =
     (case marker_commit reviewId r of
        None \<Rightarrow> first_marker reviewId rs
      | Some sha \<Rightarrow> if sha = [] then None else Some sha)"

definition find_commit_marker :: "string \<Rightarrow> string \<Rightarrow> string option" where
  "find_commit_marker blob reviewId = first_marker reviewId (js_split (CHR 0x1E) blob)"

text \<open>
  One candidate: the commit found for it in the git log, if any, decides between completing and
  reverting it. The update is pinned to the row as it was read.
\<close>

definition reconcile_row :: "int \<Rightarrow> (string \<Rightarrow> string option) \<Rightarrow> change_review \<Rightarrow> review_table \<times> nat \<times> nat
    \<Rightarrow> review_table \<times> nat \<times> nat" where
  "reconcile_row now recoveredCommit row acc =
     (case acc of (t, reverted, recovered) \<Rightarrow>
        let pinned = (\<lambda>r. rv_id r = rv_id row \<and> rv_applyState r = Applying \<and> rv_updatedAt r = rv_updatedAt row)
        in (case recoveredCommit (rv_id row) of
              Some sha \<Rightarrow>
                (case update_where pinned
                   (\<lambda>r. r\<lparr>rv_applyState := Applied, rv_decisionState := Approved, rv_appliedAt := Some now,
                          rv_leaderApplyCommitSha := Some sha, rv_updatedAt := now\<rparr>) t of
                   (t', changes) \<Rightarrow> (t', reverted, if changes = 1 then recovered + 1 else recovered))
            | None \<Rightarrow>
                (case update_where pinned
                   (\<lambda>r. r\<lparr>rv_applyState := NotApplied, rv_decidedBy := None, rv_updatedAt := now\<rparr>) t of
                   (t', changes) \<Rightarrow> (t', if changes = 1 then reverted + 1 else reverted, recovered))))"

definition orphan_candidates :: "int \<Rightarrow> review_table \<Rightarrow> change_review list" where
  "orphan_candidates now t =
     filter (\<lambda>r. rv_applyState r = Applying \<and> rv_updatedAt r < now - APPLY_ORPHAN_TTL_MS) t"

definition reconcileOrphanApplyingReviews ::
  "int \<Rightarrow> (string \<Rightarrow> string option) \<Rightarrow> review_table \<Rightarrow> review_table \<times> nat \<times> nat" where
  "reconcileOrphanApplyingReviews now recoveredCommit t =
     fold (reconcile_row now recoveredCommit) (orphan_candidates now t) (t, 0, 0)"

section \<open>The life of a row\<close>

text \<open>The steps any number of clients can take, in any order, with any arguments.\<close>

definition fresh_input :: "create_input \<Rightarrow> bool" where
  "fresh_input i \<longleftrightarrow>
     ci_decisionState i \<in> {Pending, NotRequired} \<and> ci_applyState i = Some NotApplied \<and> ci_appliedAt i = None
     \<and> ci_leaderApplyCommitSha i = None \<and> ci_reviewerVerdictArtifactId i = None"

inductive review_step :: "review_table \<Rightarrow> review_table \<Rightarrow> bool" where
  step_create: "fresh_input i \<Longrightarrow> review_step t (snd (createFromDraft freshId clock i t))"
| step_decide: "di_decisionState i \<in> {Approved, Rejected, RevisionRequested} \<Longrightarrow>
     review_step t (snd (recordDecision now i t))"
| step_success: "review_step t (snd (recordApplySuccess now reviewId hash t))"
| step_failure: "review_step t (snd (recordApplyFailure now reviewId hash t))"
| step_claim: "review_step t (snd (claimApplyingSlot now reviewId decidedBy hash t))"
| step_revert: "review_step t (revertApplyingSlot now reviewId decidedBy t)"
| step_partial: "review_step t (markPartiallyApplied now reviewId decidedBy reason t)"
| step_failed: "review_step t (markApplyFailed now reviewId decidedBy reason t)"
| step_finish: "review_step t (finishLeaderApply now reviewId decidedBy reasoning sha t)"
| step_reject: "review_step t (snd (rejectChangeReviewAsLeader now reviewId reason decidedBy entry t))"
| step_escalate: "review_step t (snd (escalateChangeReviewToUser now reviewId reason t))"
| step_discard: "review_step t (snd (discardReview applicable now reviewId reason actor t))"
| step_verdict: "review_step t (snd (persistReviewerVerdict now artifactId caller claimed reviewId t))"
| step_reconcile: "review_step t (fst (reconcile_row now recoveredCommit row (t, reverted, recovered)))"

text \<open>What holds of the columns of a row that carry its state.\<close>

definition state_ok ::
  "apply_state \<Rightarrow> decision_state \<Rightarrow> review_assignee \<Rightarrow> string option \<Rightarrow> int option \<Rightarrow> string option \<Rightarrow> bool" where
  "state_ok a d who by_whom at sha \<longleftrightarrow>
     (case a of
        NotApplied \<Rightarrow> True
      | Applying \<Rightarrow> who = AssignedLeader \<and> d = Pending \<and> by_whom \<noteq> None
      | Applied \<Rightarrow> d = Approved
      | _ \<Rightarrow> d \<noteq> NotRequired \<and> d \<noteq> Superseded)
     \<and> (at \<noteq> None \<longleftrightarrow> a = Applied) \<and> (sha \<noteq> None \<longrightarrow> a = Applied)"

definition row_ok :: "change_review \<Rightarrow> bool" where
  "row_ok r \<longleftrightarrow> state_ok (rv_applyState r) (rv_decisionState r) (rv_assignee r) (rv_decidedBy r)
     (rv_appliedAt r) (rv_leaderApplyCommitSha r)"

text \<open>What never changes, and what never changes again once it is settled.\<close>

definition row_content :: "change_review \<Rightarrow> string \<times> string \<times> string \<times> string \<times> string option \<times> json_text" where
  "row_content r = (rv_id r, rv_reviewDraftArtifactId r, rv_diffArtifactId r, rv_diffHash r,
     rv_baseRevision r, rv_changedFilesJson r)"

text \<open>
  The order in which a decision can move: from pending to anything, from approved to superseded.
\<close>

instantiation decision_state :: order
begin

definition less_eq_decision_state :: "decision_state \<Rightarrow> decision_state \<Rightarrow> bool" where
  "less_eq_decision_state d d' \<longleftrightarrow> d' = d \<or> d = Pending \<or> d = Approved \<and> d' = Superseded"

definition less_decision_state :: "decision_state \<Rightarrow> decision_state \<Rightarrow> bool" where
  "less_decision_state d d' \<longleftrightarrow> d \<noteq> d' \<and> (d = Pending \<or> d = Approved \<and> d' = Superseded)"

instance
  by standard (auto simp: less_eq_decision_state_def less_decision_state_def)

end

definition outcome_le ::
  "apply_state \<times> int option \<times> string option \<Rightarrow> apply_state \<times> int option \<times> string option \<Rightarrow> bool" where
  "outcome_le x y \<longleftrightarrow>
     (if fst x = Applied then y = x else if fst x \<in> {ApplyFailed, PartiallyApplied} then fst y = fst x else True)"

definition row_le :: "change_review \<Rightarrow> change_review \<Rightarrow> bool" where
  "row_le r r' \<longleftrightarrow>
     row_content r' = row_content r
     \<and> rv_decisionState r \<le> rv_decisionState r'
     \<and> outcome_le (rv_applyState r, rv_appliedAt r, rv_leaderApplyCommitSha r)
         (rv_applyState r', rv_appliedAt r', rv_leaderApplyCommitSha r')
     \<and> (rv_reviewerVerdictArtifactId r = None \<or> rv_reviewerVerdictArtifactId r' = rv_reviewerVerdictArtifactId r)
     \<and> (rv_assignee r = AssignedUser \<longrightarrow> rv_assignee r' = AssignedUser)"

definition table_ok :: "review_table \<Rightarrow> bool" where
  "table_ok t \<longleftrightarrow>
     distinct (map rv_id t) \<and> distinct (map rv_reviewDraftArtifactId t) \<and> list_all row_ok t"

definition table_le :: "review_table \<Rightarrow> review_table \<Rightarrow> bool" where
  "table_le t t' \<longleftrightarrow> (\<forall>r\<in>set t. \<exists>r'\<in>set t'. row_le r r')"

lemma outcome_le_trans: "outcome_le a b \<Longrightarrow> outcome_le b c \<Longrightarrow> outcome_le a c"
  by (auto simp: outcome_le_def split: if_splits)

lemma row_le_refl: "row_le r r"
  by (simp add: row_le_def less_eq_decision_state_def outcome_le_def)

lemma row_le_trans: "row_le a b \<Longrightarrow> row_le b c \<Longrightarrow> row_le a c"
proof -
  assume ab: "row_le a b" and bc: "row_le b c"
  have "row_content c = row_content a" using ab bc by (simp add: row_le_def)
  moreover have "rv_decisionState a \<le> rv_decisionState c"
    using ab bc order_trans unfolding row_le_def by blast
  moreover have "outcome_le (rv_applyState a, rv_appliedAt a, rv_leaderApplyCommitSha a)
      (rv_applyState c, rv_appliedAt c, rv_leaderApplyCommitSha c)"
    using ab bc outcome_le_trans unfolding row_le_def by blast
  moreover have "rv_reviewerVerdictArtifactId a = None
      \<or> rv_reviewerVerdictArtifactId c = rv_reviewerVerdictArtifactId a"
    using ab bc unfolding row_le_def by metis
  moreover have "rv_assignee a = AssignedUser \<longrightarrow> rv_assignee c = AssignedUser"
    using ab bc unfolding row_le_def by blast
  ultimately show "row_le a c" unfolding row_le_def by blast
qed

lemma table_le_refl: "table_le t t"
  using row_le_refl by (auto simp: table_le_def)

lemma table_le_trans: "table_le a b \<Longrightarrow> table_le b c \<Longrightarrow> table_le a c"
  unfolding table_le_def using row_le_trans by meson

text \<open>Updates that respect both, and their effect on a table.\<close>

definition good_update :: "(change_review \<Rightarrow> bool) \<Rightarrow> (change_review \<Rightarrow> change_review) \<Rightarrow> bool" where
  "good_update p f \<longleftrightarrow> (\<forall>r. row_ok r \<longrightarrow> p r \<longrightarrow> row_ok (f r) \<and> row_le r (f r))"

lemma update_where_fst: "fst (update_where p f t) = map (\<lambda>r. if p r then f r else r) t"
  by (simp add: update_where_def)

lemma update_good:
  assumes "good_update p f" and "table_ok t"
  shows "table_ok (fst (update_where p f t)) \<and> table_le t (fst (update_where p f t))"
proof -
  let ?g = "\<lambda>r. if p r then f r else r"
  have row: "row_ok (?g r) \<and> row_le r (?g r)" if r: "r \<in> set t" for r
  proof -
    have "row_ok r" using assms(2) r by (simp add: table_ok_def list_all_iff)
    then show ?thesis using assms(1) row_le_refl by (simp add: good_update_def)
  qed
  have same: "rv_id (?g r) = rv_id r" "rv_reviewDraftArtifactId (?g r) = rv_reviewDraftArtifactId r"
    if "r \<in> set t" for r
    using row [OF that] by (simp_all only: row_le_def row_content_def prod.inject)
  have ids: "map (\<lambda>r. rv_id (?g r)) t = map rv_id t"
    "map (\<lambda>r. rv_reviewDraftArtifactId (?g r)) t = map rv_reviewDraftArtifactId t"
    by (intro map_cong [OF refl] same, assumption)+
  have "list_all row_ok (map ?g t)" using row unfolding list_all_iff set_map by blast
  moreover have "table_le t (map ?g t)"
    unfolding table_le_def
  proof
    fix r
    assume r: "r \<in> set t"
    then have "?g r \<in> set (map ?g t)" unfolding set_map by (rule imageI)
    with row [OF r] show "\<exists>r'\<in>set (map ?g t). row_le r r'" by blast
  qed
  ultimately show ?thesis
    using assms(2) by (simp only: update_where_fst table_ok_def map_map comp_def ids simp_thms)
qed

lemmas row_laws = row_ok_def row_le_def row_content_def

lemmas state_laws = state_ok_def less_eq_decision_state_def outcome_le_def

lemma good_updateI:
  "(\<And>r. row_ok r \<Longrightarrow> p r \<Longrightarrow> row_ok (f r)) \<Longrightarrow> (\<And>r. row_ok r \<Longrightarrow> p r \<Longrightarrow> row_le r (f r)) \<Longrightarrow> good_update p f"
  by (simp add: good_update_def)

text \<open>A table as an operation leaves it: untouched, or updated by a respectful update.\<close>

definition good_result :: "review_table \<Rightarrow> review_table \<Rightarrow> bool" where
  "good_result t t' \<longleftrightarrow> t' = t \<or> (\<exists>p f. good_update p f \<and> t' = fst (update_where p f t))"

lemma good_resultI: "good_update p f \<Longrightarrow> good_result t (fst (update_where p f t))"
  by (auto simp: good_result_def)

lemma good_result_refl: "good_result t t"
  by (simp add: good_result_def)

lemma good_result_keeps: "good_result t t' \<Longrightarrow> table_ok t \<Longrightarrow> table_ok t' \<and> table_le t t'"
  using update_good table_le_refl by (auto simp: good_result_def)

named_theorems good_ops \<open>operations as good results\<close>

lemma recordDecision_good [good_ops]:
  assumes "di_decisionState i \<in> {Approved, Rejected, RevisionRequested}"
  shows "good_result t (snd (recordDecision now i t))"
proof -
  have "good_update (\<lambda>r. rv_id r = di_reviewId i \<and> rv_decisionState r = Pending \<and> rv_applyState r \<noteq> Applying)
      (\<lambda>r. r\<lparr>rv_decisionState := di_decisionState i, rv_decisionReason := di_reason i,
             rv_decidedBy := di_actorId i, rv_decidedAt := Some now, rv_updatedAt := now\<rparr>)"
    using assms by (intro good_updateI) (auto simp: row_laws state_laws split: apply_state.splits)
  then show ?thesis
    unfolding recordDecision_def Let_def
    by (auto split: option.split simp: good_result_refl intro: good_resultI)
qed

lemma record_apply_good:
  assumes "good_update (\<lambda>r. rv_id r = reviewId \<and> rv_applyState r = NotApplied \<and> rv_decisionState r = Approved) f"
    and "distinct (map rv_id t)"
  shows "good_result t (snd (record_apply target f reviewId hash t))"
proof (cases "snd (record_apply target f reviewId hash t) = t")
  case False
  then obtain review where r: "select_by_id reviewId t = Some review" "rv_decisionState review = Approved"
    and t': "snd (record_apply target f reviewId hash t)
      = fst (update_where (\<lambda>r. rv_id r = reviewId \<and> rv_applyState r = NotApplied) f t)"
    unfolding record_apply_def update_where_def
    by (cases "select_by_id reviewId t") (simp_all add: Let_def split: option.splits if_splits)
  have uniq: "x = review" if "x \<in> set t" "rv_id x = reviewId" for x
  proof -
    have "review \<in> set t" "rv_id review = reviewId"
      using r(1) by (auto simp: select_by_id_def find_Some_iff)
    moreover have "inj_on rv_id (set t)" using assms(2) by (simp only: distinct_map)
    ultimately show ?thesis using that by (simp add: inj_on_def)
  qed
  have "fst (update_where (\<lambda>r. rv_id r = reviewId \<and> rv_applyState r = NotApplied) f t)
      = fst (update_where (\<lambda>r. rv_id r = reviewId \<and> rv_applyState r = NotApplied \<and> rv_decisionState r = Approved) f t)"
    unfolding update_where_fst using uniq r(2) by (auto intro!: map_cong)
  then show ?thesis unfolding t' by (simp only: good_resultI [OF assms(1)])
qed (simp add: good_result_refl)

lemma recordApplySuccess_good [good_ops]:
  "distinct (map rv_id t) \<Longrightarrow> good_result t (snd (recordApplySuccess now reviewId hash t))"
  unfolding recordApplySuccess_def
  by (rule record_apply_good, rule good_updateI) (auto simp: row_laws state_laws split: apply_state.splits)

lemma recordApplyFailure_good [good_ops]:
  "distinct (map rv_id t) \<Longrightarrow> good_result t (snd (recordApplyFailure now reviewId hash t))"
  unfolding recordApplyFailure_def
  by (rule record_apply_good, rule good_updateI) (auto simp: row_laws state_laws split: apply_state.splits)

lemma claim_good [good_ops]: "good_result t (snd (claimApplyingSlot now reviewId decidedBy hash t))"
proof -
  have "snd (claimApplyingSlot now reviewId decidedBy hash t) = fst (update_where
      (\<lambda>r. rv_id r = reviewId \<and> rv_assignee r = AssignedLeader \<and> rv_decisionState r = Pending
           \<and> rv_applyState r = NotApplied \<and> rv_diffHash r = hash)
      (\<lambda>r. r\<lparr>rv_applyState := Applying, rv_decidedBy := Some decidedBy, rv_updatedAt := now\<rparr>) t)"
    by (simp add: claimApplyingSlot_def update_where_def)
  then show ?thesis by (simp only:) (rule good_resultI, rule good_updateI, auto simp: row_laws state_laws split: apply_state.splits)
qed

lemma slot_ops_good [good_ops]:
  "good_result t (revertApplyingSlot now reviewId decidedBy t)"
  "good_result t (markPartiallyApplied now reviewId decidedBy reason t)"
  "good_result t (markApplyFailed now reviewId decidedBy reason t)"
  "good_result t (finishLeaderApply now reviewId decidedBy reasoning sha t)"
  unfolding revertApplyingSlot_def markPartiallyApplied_def markApplyFailed_def finishLeaderApply_def
  by (rule good_resultI, rule good_updateI, auto simp: owns_slot_def row_laws state_laws split: apply_state.splits)+

lemma reject_good [good_ops]:
  "good_result t (snd (rejectChangeReviewAsLeader now reviewId reason decidedBy entry t))"
proof -
  have "good_update (\<lambda>r. rv_id r = reviewId \<and> rv_assignee r = AssignedLeader \<and> rv_decisionState r = Pending
         \<and> rv_applyState r \<noteq> Applying)
      (\<lambda>r. r\<lparr>rv_decisionState := Rejected, rv_decisionReason := Some reason, rv_decidedBy := Some decidedBy,
             rv_decidedAt := Some now, rv_reviewerVerdictsJson := v, rv_updatedAt := now\<rparr>)" for v
    by (rule good_updateI) (auto simp: row_laws state_laws split: apply_state.splits)
  then show ?thesis
    unfolding rejectChangeReviewAsLeader_def Let_def
    by (auto split: option.split simp: good_result_refl intro: good_resultI)
qed

lemma escalate_good [good_ops]: "good_result t (snd (escalateChangeReviewToUser now reviewId reason t))"
proof -
  have "good_update (\<lambda>r. rv_id r = reviewId \<and> rv_assignee r = AssignedLeader \<and> rv_decisionState r = Pending
         \<and> rv_applyState r \<noteq> Applying)
      (\<lambda>r. r\<lparr>rv_assignee := AssignedUser, rv_assigneeSetBy := Some ''leader'',
             rv_decisionReason := Some reason, rv_updatedAt := now\<rparr>)"
    by (rule good_updateI) (auto simp: row_laws state_laws split: apply_state.splits)
  then show ?thesis
    unfolding escalateChangeReviewToUser_def Let_def
    by (auto split: option.split simp: good_result_refl intro: good_resultI)
qed

lemma discard_good [good_ops]: "good_result t (snd (discardReview applicable now reviewId reason actor t))"
proof -
  let ?p = "\<lambda>r. rv_id r = reviewId \<and> rv_decisionState r = Approved \<and> rv_applyState r = NotApplied"
  let ?f = "\<lambda>r. r\<lparr>rv_decisionState := Superseded, rv_decisionReason := Some reason,
                  rv_decidedBy := actor, rv_decidedAt := Some now, rv_updatedAt := now\<rparr>"
  have good: "good_update ?p ?f" by (rule good_updateI) (auto simp: row_laws state_laws split: apply_state.splits)
  have "snd (discardReview applicable now reviewId reason actor t) = t
      \<or> snd (discardReview applicable now reviewId reason actor t) = fst (update_where ?p ?f t)"
    by (auto simp: discardReview_def split: option.split prod.split)
  then show ?thesis by (elim disjE) (simp_all only: good_resultI [OF good] good_result_refl)
qed

lemma verdict_good [good_ops]:
  "good_result t (snd (persistReviewerVerdict now artifactId caller claimed reviewId t))"
proof -
  have "good_update (\<lambda>r. rv_id r = reviewId \<and> rv_reviewerVerdictArtifactId r = None \<and> rv_applyState r \<noteq> Applying)
      (\<lambda>r. r\<lparr>rv_reviewerVerdictArtifactId := Some artifactId, rv_updatedAt := now\<rparr>)"
    by (rule good_updateI) (auto simp: row_laws state_laws split: apply_state.splits)
  then show ?thesis
    unfolding persistReviewerVerdict_def Let_def
    by (auto split: option.split simp: good_result_refl intro: good_resultI)
qed

lemma reconcile_good [good_ops]:
  "good_result t (fst (reconcile_row now recoveredCommit row (t, reverted, recovered)))"
proof -
  let ?p = "\<lambda>r. rv_id r = rv_id row \<and> rv_applyState r = Applying \<and> rv_updatedAt r = rv_updatedAt row"
  have "good_update ?p (\<lambda>r. r\<lparr>rv_applyState := Applied, rv_decisionState := Approved, rv_appliedAt := Some now,
          rv_leaderApplyCommitSha := Some sha, rv_updatedAt := now\<rparr>)" for sha
    by (rule good_updateI) (auto simp: row_laws state_laws split: apply_state.splits)
  moreover have "good_update ?p (\<lambda>r. r\<lparr>rv_applyState := NotApplied, rv_decidedBy := None, rv_updatedAt := now\<rparr>)"
    by (rule good_updateI) (auto simp: row_laws state_laws split: apply_state.splits)
  ultimately show ?thesis
    by (cases "recoveredCommit (rv_id row)")
      (simp_all add: reconcile_row_def update_where_def good_result_def Let_def, blast+)
qed

lemma create_keeps:
  assumes "fresh_input i" and "table_ok t"
  shows "table_ok (snd (createFromDraft freshId clock i t)) \<and> table_le t (snd (createFromDraft freshId clock i t))"
proof (cases "snd (createFromDraft freshId clock i t) = t")
  case True
  then show ?thesis using assms(2) table_le_refl by simp
next
  case False
  let ?row = "new_row freshId clock i"
  have t': "snd (createFromDraft freshId clock i t) = t @ [?row]"
    and draft: "select_by_draft (ci_reviewDraftArtifactId i) t = None" and key: "select_by_id (rv_id ?row) t = None"
    using False by (auto simp: createFromDraft_def Let_def split: option.splits if_splits)
  have "row_ok ?row" using assms(1) by (auto simp: row_ok_def state_ok_def new_row_def fresh_input_def Let_def default_to_def)
  moreover have "rv_id ?row \<notin> set (map rv_id t)"
    using key by (auto simp: select_by_id_def find_None_iff)
  moreover have "rv_reviewDraftArtifactId ?row \<notin> set (map rv_reviewDraftArtifactId t)"
    using draft by (auto simp: select_by_draft_def find_None_iff new_row_def Let_def)
  ultimately show ?thesis
    unfolding t' using assms(2) row_le_refl by (auto simp: table_ok_def table_le_def)
qed

lemma review_step_keeps: "review_step t t' \<Longrightarrow> table_ok t \<Longrightarrow> table_ok t' \<and> table_le t t'"
proof (induction rule: review_step.induct)
  case (step_create i t freshId clock)
  then show ?case by (intro create_keeps)
next
  case (step_decide i t now)
  then show ?case by (intro good_result_keeps good_ops)
next
  case (step_success t now reviewId hash)
  then show ?case by (intro good_result_keeps good_ops) (simp_all add: table_ok_def)
next
  case (step_failure t now reviewId hash)
  then show ?case by (intro good_result_keeps good_ops) (simp_all add: table_ok_def)
qed (intro good_result_keeps good_ops, assumption)+

interpretation reviews: monotone_system "\<lambda>t. t = []" review_step table_ok table_le
proof unfold_locales
  show "table_ok t" if "t = []" for t using that by (simp add: table_ok_def)
  show "table_ok t'" if "table_ok t" "review_step t t'" for t t' using review_step_keeps that by blast
  show "table_le t t" for t by (rule table_le_refl)
  show "table_le t v" if "table_le t u" "table_le u v" for t u v using table_le_trans that by blast
  show "table_le t t'" if "table_ok t" "review_step t t'" for t t' using review_step_keeps that by blast
qed

abbreviation reachable_reviews :: "review_table \<Rightarrow> bool" where
  "reachable_reviews t \<equiv> reach (\<lambda>t. t = []) review_step t"

text \<open>The rows of a well-formed table by their ids.\<close>

lemma select_by_id_mem: "select_by_id i t = Some r \<Longrightarrow> r \<in> set t \<and> rv_id r = i"
  by (auto simp: select_by_id_def find_Some_iff)

lemma same_id:
  assumes "table_ok t" "r \<in> set t" "r' \<in> set t" "rv_id r = rv_id r'"
  shows "r = r'"
proof -
  have "inj_on rv_id (set t)" using assms(1) by (simp only: table_ok_def distinct_map)
  then show ?thesis using assms(2-4) by (simp add: inj_on_def)
qed

lemma select_by_idI:
  assumes "table_ok t" "r \<in> set t"
  shows "select_by_id (rv_id r) t = Some r"
proof (cases "select_by_id (rv_id r) t")
  case None
  then show ?thesis using assms(2) by (auto simp: select_by_id_def find_None_iff)
next
  case (Some x)
  then have "x \<in> set t" "rv_id x = rv_id r" using select_by_id_mem by blast+
  then have "x = r" using same_id assms by blast
  then show ?thesis using Some by simp
qed

lemma update_none: "(\<And>r. r \<in> set t \<Longrightarrow> \<not> p r) \<Longrightarrow> update_where p f t = (t, 0)"
  unfolding update_where_def by (simp add: map_idI filter_empty_conv)

text \<open>A table in which the row with this id is applying: nobody else's update reaches it.\<close>

definition slot_taken :: "string \<Rightarrow> review_table \<Rightarrow> bool" where
  "slot_taken i t \<longleftrightarrow> (\<exists>r. select_by_id i t = Some r \<and> rv_applyState r = Applying \<and> rv_decisionState r = Pending)
     \<and> (\<forall>r\<in>set t. rv_id r = i \<longrightarrow> rv_applyState r = Applying)"

lemma slot_taken_update: "slot_taken i t \<Longrightarrow> (\<And>r. p r \<Longrightarrow> rv_id r = i \<and> rv_applyState r \<noteq> Applying) \<Longrightarrow>
    update_where p f t = (t, 0)"
  by (rule update_none) (auto simp: slot_taken_def)

lemma slot_taken_blocks:
  assumes "slot_taken i t"
  shows "claimApplyingSlot now i who hash t = (False, t)"
    and "di_reviewId d = i \<Longrightarrow> snd (recordDecision now d t) = t"
    and "snd (recordApplySuccess now i hash t) = t" and "snd (recordApplyFailure now i hash t) = t"
    and "snd (rejectChangeReviewAsLeader now i reason who entry t) = t"
    and "snd (escalateChangeReviewToUser now i reason t) = t"
    and "snd (discardReview applicable now i reason actor t) = t"
    and "snd (persistReviewerVerdict now artifact caller claimed i t) = t"
proof -
  obtain r where r: "select_by_id i t = Some r" "rv_applyState r = Applying" "rv_decisionState r = Pending"
    using assms by (auto simp: slot_taken_def)
  note none = slot_taken_update [OF assms]
  have upd: "fst (update_where (\<lambda>r. rv_id r = i \<and> rv_assignee r = AssignedLeader \<and> rv_decisionState r = Pending
      \<and> rv_applyState r \<noteq> Applying) f t) = t"
    "fst (update_where (\<lambda>r. rv_id r = i \<and> rv_reviewerVerdictArtifactId r = None \<and> rv_applyState r \<noteq> Applying) f t) = t"
    for f by (subst none; simp)+
  show "claimApplyingSlot now i who hash t = (False, t)"
    unfolding claimApplyingSlot_def by (subst none) simp_all
  show "snd (recordDecision now d t) = t" if "di_reviewId d = i"
    using r that by (simp add: recordDecision_def)
  show "snd (recordApplySuccess now i hash t) = t" "snd (recordApplyFailure now i hash t) = t"
    using r by (simp_all add: recordApplySuccess_def recordApplyFailure_def record_apply_def)
  show "snd (rejectChangeReviewAsLeader now i reason who entry t) = t"
    using r by (simp add: rejectChangeReviewAsLeader_def upd Let_def)
  show "snd (escalateChangeReviewToUser now i reason t) = t"
    using r by (simp add: escalateChangeReviewToUser_def upd Let_def)
  show "snd (discardReview applicable now i reason actor t) = t"
    using r by (simp add: discardReview_def)
  show "snd (persistReviewerVerdict now artifact caller claimed i t) = t"
    using r by (simp add: persistReviewerVerdict_def upd Let_def)
qed

lemma claim_success:
  assumes ok: "table_ok t" and claim: "claimApplyingSlot now i who hash t = (True, t')"
  obtains r where "select_by_id i t = Some r" "rv_assignee r = AssignedLeader" "rv_decisionState r = Pending"
    "rv_applyState r = NotApplied" "rv_diffHash r = hash"
    "select_by_id i t' = Some (r\<lparr>rv_applyState := Applying, rv_decidedBy := Some who, rv_updatedAt := now\<rparr>)"
    "slot_taken i t'"
proof -
  let ?p = "\<lambda>r. rv_id r = i \<and> rv_assignee r = AssignedLeader \<and> rv_decisionState r = Pending
             \<and> rv_applyState r = NotApplied \<and> rv_diffHash r = hash"
  let ?f = "\<lambda>r. r\<lparr>rv_applyState := Applying, rv_decidedBy := Some who, rv_updatedAt := now\<rparr>"
  have t': "t' = map (\<lambda>r. if ?p r then ?f r else r) t" and one: "length (filter ?p t) = 1"
    using claim by (auto simp: claimApplyingSlot_def update_where_def)
  from one obtain r where "r \<in> set (filter ?p t)" by (cases "filter ?p t") auto
  then have r: "r \<in> set t" "?p r" by auto
  have ok': "table_ok t'"
    using good_result_keeps [OF claim_good ok, of now i who hash] claim by simp
  have mem: "?f r \<in> set t'" using r unfolding t' set_map by force
  have sel': "select_by_id i t' = Some (?f r)"
    using select_by_idI [OF ok' mem] r(2) by simp
  have "slot_taken i t'"
    unfolding slot_taken_def
  proof (intro conjI exI ballI impI)
    show "select_by_id i t' = Some (?f r)" by (rule sel')
    show "rv_applyState x = Applying" if "x \<in> set t'" "rv_id x = i" for x
      using same_id [OF ok' that(1) mem] that(2) r(2) by simp
  qed (use r(2) in simp_all)
  moreover have "select_by_id i t = Some r" using select_by_idI [OF ok r(1)] r(2) by simp
  ultimately show ?thesis using that r(2) sel' by blast
qed

section \<open>What the table guarantees\<close>

text \<open>
  In every table the operations can produce, ids and drafts are unique; a review that is applied was
  approved, and one that carries a commit or a time of applying is applied; a review being applied by the
  leader is assigned to the leader, undecided and has an owner; a review that needs no decision, or was
  superseded, was never applied.
\<close>
theorem reachable_reviews_ok:
  assumes "reachable_reviews t"
  shows "distinct (map rv_id t) \<and> distinct (map rv_reviewDraftArtifactId t)
    \<and> (\<forall>r\<in>set t. (rv_applyState r = Applied \<longrightarrow> rv_decisionState r = Approved)
         \<and> (rv_leaderApplyCommitSha r \<noteq> None \<or> rv_appliedAt r \<noteq> None \<longrightarrow> rv_applyState r = Applied)
         \<and> (rv_applyState r = Applying \<longrightarrow>
              rv_assignee r = AssignedLeader \<and> rv_decisionState r = Pending \<and> rv_decidedBy r \<noteq> None)
         \<and> (rv_decisionState r = NotRequired \<or> rv_decisionState r = Superseded \<longrightarrow> rv_applyState r = NotApplied))"
proof -
  have ok: "table_ok t" by (rule reviews.reach_inv [OF assms])
  have row: "(rv_applyState r = Applied \<longrightarrow> rv_decisionState r = Approved)
         \<and> (rv_leaderApplyCommitSha r \<noteq> None \<or> rv_appliedAt r \<noteq> None \<longrightarrow> rv_applyState r = Applied)
         \<and> (rv_applyState r = Applying \<longrightarrow>
              rv_assignee r = AssignedLeader \<and> rv_decisionState r = Pending \<and> rv_decidedBy r \<noteq> None)
         \<and> (rv_decisionState r = NotRequired \<or> rv_decisionState r = Superseded \<longrightarrow> rv_applyState r = NotApplied)"
    if "r \<in> set t" for r
  proof -
    have "row_ok r" using ok that by (simp add: table_ok_def list_all_iff)
    then show ?thesis by (cases "rv_applyState r") (auto simp: row_ok_def state_ok_def)
  qed
  have "distinct (map rv_id t)" "distinct (map rv_reviewDraftArtifactId t)"
    using ok by (simp_all only: table_ok_def)
  with row show ?thesis by blast
qed

text \<open>
  C1: A review once created stays, with its draft, its diff, its hash and its base revision; a decision once
  taken never changes, except that an approved review may be superseded; an applied, failed or partially
  applied review keeps that outcome, an applied one also its commit and its time; a reviewer's verdict once
  attached is never replaced; a review handed to the user never returns to the leader.
\<close>
theorem review_lifecycle:
  assumes "reachable_reviews t" and "review_step\<^sup>*\<^sup>* t t'" and "select_by_id i t = Some r"
  shows "\<exists>r'. select_by_id i t' = Some r' \<and> rv_diffHash r' = rv_diffHash r
     \<and> rv_diffArtifactId r' = rv_diffArtifactId r \<and> rv_reviewDraftArtifactId r' = rv_reviewDraftArtifactId r
     \<and> rv_baseRevision r' = rv_baseRevision r
     \<and> (rv_decisionState r \<noteq> Pending \<longrightarrow> rv_decisionState r' = rv_decisionState r
          \<or> rv_decisionState r = Approved \<and> rv_decisionState r' = Superseded)
     \<and> (rv_applyState r \<in> {Applied, ApplyFailed, PartiallyApplied} \<longrightarrow> rv_applyState r' = rv_applyState r)
     \<and> (rv_applyState r = Applied \<longrightarrow>
          rv_leaderApplyCommitSha r' = rv_leaderApplyCommitSha r \<and> rv_appliedAt r' = rv_appliedAt r)
     \<and> (rv_reviewerVerdictArtifactId r \<noteq> None \<longrightarrow>
          rv_reviewerVerdictArtifactId r' = rv_reviewerVerdictArtifactId r)
     \<and> (rv_assignee r = AssignedUser \<longrightarrow> rv_assignee r' = AssignedUser)"
proof -
  have r: "r \<in> set t" "rv_id r = i" using select_by_id_mem [OF assms(3)] by simp_all
  have ok': "table_ok t'"
    by (rule reviews.steps_inv [OF assms(2) reviews.reach_inv [OF assms(1)]])
  from reviews.reach_steps_le [OF assms(1,2)] r obtain r' where r': "r' \<in> set t'" "row_le r r'"
    unfolding table_le_def by blast
  then have content: "row_content r' = row_content r" by (simp add: row_le_def)
  then have "select_by_id i t' = Some r'"
    using select_by_idI [OF ok' r'(1)] r(2) by (simp add: row_content_def)
  moreover have "rv_decisionState r \<le> rv_decisionState r'"
    "outcome_le (rv_applyState r, rv_appliedAt r, rv_leaderApplyCommitSha r)
       (rv_applyState r', rv_appliedAt r', rv_leaderApplyCommitSha r')"
    "rv_reviewerVerdictArtifactId r = None \<or> rv_reviewerVerdictArtifactId r' = rv_reviewerVerdictArtifactId r"
    "rv_assignee r = AssignedUser \<longrightarrow> rv_assignee r' = AssignedUser"
    using r'(2) by (simp_all add: row_le_def)
  ultimately show ?thesis
    using content by (auto simp: row_content_def less_eq_decision_state_def outcome_le_def split: if_splits)
qed

text \<open>What the start-up recovery makes of an orphaned row.\<close>

definition recovered_row :: "int \<Rightarrow> (string \<Rightarrow> string option) \<Rightarrow> change_review \<Rightarrow> change_review" where
  "recovered_row now recoveredCommit r =
     (case recoveredCommit (rv_id r) of
        Some sha \<Rightarrow> r\<lparr>rv_applyState := Applied, rv_decisionState := Approved, rv_appliedAt := Some now,
                      rv_leaderApplyCommitSha := Some sha, rv_updatedAt := now\<rparr>
      | None \<Rightarrow> r\<lparr>rv_applyState := NotApplied, rv_decidedBy := None, rv_updatedAt := now\<rparr>)"

lemma recovered_row_id [simp]: "rv_id (recovered_row now rc r) = rv_id r"
  by (simp add: recovered_row_def split: option.split)

lemma reconcile_row_effect:
  assumes "distinct (map rv_id t)" and "row \<in> set t" and "rv_applyState row = Applying"
  shows "reconcile_row now rc row (t, a, b)
    = (map (\<lambda>r. if r = row then recovered_row now rc r else r) t,
       if rc (rv_id row) = None then a + 1 else a, if rc (rv_id row) = None then b else b + 1)"
proof -
  let ?p = "\<lambda>r. rv_id r = rv_id row \<and> rv_applyState r = Applying \<and> rv_updatedAt r = rv_updatedAt row"
  have inj: "inj_on rv_id (set t)" using assms(1) by (simp only: distinct_map)
  have p: "?p r \<longleftrightarrow> r = row" if "r \<in> set t" for r
    using inj_onD [OF inj _ that assms(2)] assms(3) by auto
  have "filter ?p t = filter (\<lambda>r. r = row) t" by (rule filter_cong [OF refl p])
  then have "length (filter ?p t) = count_list t row" by (simp add: length_filter_eq_count)
  also have "\<dots> = 1" using assms(1,2) by (simp add: distinct_map count_list_distinct)
  finally have one: "length (filter ?p t) = 1" .
  have upd: "update_where ?p f t = (map (\<lambda>r. if r = row then f r else r) t, 1)" for f
    unfolding update_where_def one by (simp add: p cong: map_cong)
  have rec: "(if r = row then recovered_row now rc r else r) = (if r = row then
      (case rc (rv_id row) of Some sha \<Rightarrow> r\<lparr>rv_applyState := Applied, rv_decisionState := Approved,
          rv_appliedAt := Some now, rv_leaderApplyCommitSha := Some sha, rv_updatedAt := now\<rparr>
        | None \<Rightarrow> r\<lparr>rv_applyState := NotApplied, rv_decidedBy := None, rv_updatedAt := now\<rparr>) else r)" for r
    by (cases "r = row"; cases "rc (rv_id row)") (simp_all add: recovered_row_def)
  show ?thesis
    by (cases "rc (rv_id row)") (simp_all only: reconcile_row_def Let_def upd rec option.case prod.case refl
      if_True if_False option.distinct simp_thms)
qed

lemma reconcile_rows_effect:
  "distinct (map rv_id t) \<Longrightarrow> distinct (map rv_id cs) \<Longrightarrow>
   (\<forall>c\<in>set cs. c \<in> set t \<and> rv_applyState c = Applying) \<Longrightarrow>
   fold (reconcile_row now rc) cs (t, a, b)
     = (map (\<lambda>r. if r \<in> set cs then recovered_row now rc r else r) t,
        a + length (filter (\<lambda>c. rc (rv_id c) = None) cs), b + length (filter (\<lambda>c. rc (rv_id c) \<noteq> None) cs))"
proof (induction cs arbitrary: t a b)
  case Nil
  then show ?case by simp
next
  case (Cons c cs)
  let ?g = "\<lambda>r. if r = c then recovered_row now rc r else r"
  let ?t = "map ?g t"
  have step: "reconcile_row now rc c (t, a, b) = (?t,
      if rc (rv_id c) = None then a + 1 else a, if rc (rv_id c) = None then b else b + 1)"
    using Cons.prems by (intro reconcile_row_effect) auto
  have ids: "map rv_id ?t = map rv_id t" by auto
  have keep: "\<forall>d\<in>set cs. d \<in> set ?t \<and> rv_applyState d = Applying"
  proof
    fix d assume d: "d \<in> set cs"
    then have "d \<noteq> c" using Cons.prems(2) by auto
    then have "?g d = d" by simp
    moreover have "?g d \<in> set ?t" unfolding set_map using Cons.prems(3) d by (intro imageI) simp
    ultimately show "d \<in> set ?t \<and> rv_applyState d = Applying" using Cons.prems(3) d by simp
  qed
  have new: "recovered_row now rc c \<notin> set cs"
    using Cons.prems(2) recovered_row_id [of now rc c] by (metis distinct.simps(2) imageI list.simps(9) set_map)
  have "map (\<lambda>r. if r \<in> set cs then recovered_row now rc r else r) ?t
      = map (\<lambda>r. if r \<in> set (c # cs) then recovered_row now rc r else r) t"
    using new by simp
  then show ?case
    using Cons.IH [OF _ _ keep] Cons.prems(1,2) ids by (simp only: fold_Cons o_apply step) auto
qed

text \<open>
  The recovery at start-up settles exactly the reviews that have been applying for longer than ten
  minutes and leaves every other one alone: where the log holds the commit of the review it becomes applied,
  approved and carries that commit, otherwise it is free again, with no owner; the two counts it reports are
  the numbers of the reviews freed and completed.
\<close>
theorem reconcile_exact:
  assumes "reachable_reviews t"
  shows "reconcileOrphanApplyingReviews now rc t
    = (map (\<lambda>r. if rv_applyState r = Applying \<and> rv_updatedAt r < now - 600000
                then recovered_row now rc r else r) t,
       length (filter (\<lambda>c. rc (rv_id c) = None) (orphan_candidates now t)),
       length (filter (\<lambda>c. rc (rv_id c) \<noteq> None) (orphan_candidates now t)))"
proof -
  have d: "distinct (map rv_id t)" using reviews.reach_inv [OF assms] by (simp only: table_ok_def)
  have "distinct (map rv_id (orphan_candidates now t))"
    unfolding orphan_candidates_def using d by (rule distinct_map_filter)
  moreover have "\<forall>c\<in>set (orphan_candidates now t). c \<in> set t \<and> rv_applyState c = Applying"
    by (simp add: orphan_candidates_def)
  ultimately have run: "reconcileOrphanApplyingReviews now rc t
    = (map (\<lambda>r. if r \<in> set (orphan_candidates now t) then recovered_row now rc r else r) t,
       0 + length (filter (\<lambda>c. rc (rv_id c) = None) (orphan_candidates now t)),
       0 + length (filter (\<lambda>c. rc (rv_id c) \<noteq> None) (orphan_candidates now t)))"
    unfolding reconcileOrphanApplyingReviews_def by (rule reconcile_rows_effect [OF d])
  have "r \<in> set (orphan_candidates now t) \<longleftrightarrow> rv_applyState r = Applying \<and> rv_updatedAt r < now - 600000"
    if "r \<in> set t" for r
    using that by (simp add: orphan_candidates_def APPLY_ORPHAN_TTL_MS_def)
  then show ?thesis unfolding run add_0 by (simp only: prod.inject simp_thms cong: map_cong)
qed

text \<open>
  C2: The leader's claim succeeds only on a review that is assigned to the leader, undecided, not applied
  and whose diff has the expected hash, and it records the owner. From then on nobody else moves the review:
  a second claim fails, and every decision, rejection, escalation, discard, verdict and recorded apply
  outcome for it, by anyone and with any arguments, leaves the table as it is; so do the slot operations
  of every other owner.
\<close>
theorem claim_exclusive:
  assumes "reachable_reviews t" and "claimApplyingSlot now i who hash t = (True, t')"
  shows "(\<exists>r. select_by_id i t = Some r \<and> rv_assignee r = AssignedLeader \<and> rv_decisionState r = Pending
            \<and> rv_applyState r = NotApplied \<and> rv_diffHash r = hash
            \<and> select_by_id i t' = Some (r\<lparr>rv_applyState := Applying, rv_decidedBy := Some who, rv_updatedAt := now\<rparr>))
    \<and> claimApplyingSlot now' i who' hash' t' = (False, t')
    \<and> snd (recordDecision now' (d\<lparr>di_reviewId := i\<rparr>) t') = t'
    \<and> snd (recordApplySuccess now' i hash' t') = t' \<and> snd (recordApplyFailure now' i hash' t') = t'
    \<and> snd (rejectChangeReviewAsLeader now' i reason who' entry t') = t'
    \<and> snd (escalateChangeReviewToUser now' i reason t') = t'
    \<and> snd (discardReview applicable now' i reason actor t') = t'
    \<and> snd (persistReviewerVerdict now' artifact caller claimed i t') = t'
    \<and> (who' = who \<or> revertApplyingSlot now' i who' t' = t' \<and> markPartiallyApplied now' i who' reason t' = t'
         \<and> markApplyFailed now' i who' reason t' = t' \<and> finishLeaderApply now' i who' reason sha t' = t')"
proof -
  obtain r where r: "select_by_id i t = Some r" "rv_assignee r = AssignedLeader" "rv_decisionState r = Pending"
    "rv_applyState r = NotApplied" "rv_diffHash r = hash"
    "select_by_id i t' = Some (r\<lparr>rv_applyState := Applying, rv_decidedBy := Some who, rv_updatedAt := now\<rparr>)"
    and taken: "slot_taken i t'"
    using claim_success [OF reviews.reach_inv [OF assms(1)] assms(2)] by blast
  have "reachable_reviews t'" using reach_step [OF assms(1) step_claim [of t now i who hash]] assms(2) by simp
  then have ok': "table_ok t'" by (rule reviews.reach_inv)
  let ?r = "r\<lparr>rv_applyState := Applying, rv_decidedBy := Some who, rv_updatedAt := now\<rparr>"
  have r': "?r \<in> set t'" "rv_id ?r = i" using select_by_id_mem [OF r(6)] by simp_all
  have owner: "\<not> owns_slot i who' x" if "who' \<noteq> who" "x \<in> set t'" for x
  proof
    assume "owns_slot i who' x"
    then have "rv_id x = i" "rv_decidedBy x = Some who'" by (simp_all add: owns_slot_def)
    moreover from this(1) have "x = ?r" using same_id [OF ok' that(2) r'(1)] r'(2) by simp
    ultimately show False using that(1) by simp
  qed
  have others: "update_where (owns_slot i who') f t' = (t', 0)" if "who' \<noteq> who" for f
    using owner [OF that] by (rule update_none)
  have first: "\<exists>r. select_by_id i t = Some r \<and> rv_assignee r = AssignedLeader \<and> rv_decisionState r = Pending
            \<and> rv_applyState r = NotApplied \<and> rv_diffHash r = hash
            \<and> select_by_id i t' = Some (r\<lparr>rv_applyState := Applying, rv_decidedBy := Some who, rv_updatedAt := now\<rparr>)"
    using r by blast
  have slot: "who' = who \<or> revertApplyingSlot now' i who' t' = t' \<and> markPartiallyApplied now' i who' reason t' = t'
         \<and> markApplyFailed now' i who' reason t' = t' \<and> finishLeaderApply now' i who' reason sha t' = t'"
    using others by (cases "who' = who") (simp_all add: revertApplyingSlot_def markPartiallyApplied_def markApplyFailed_def
      finishLeaderApply_def)
  have decide: "snd (recordDecision now' (d\<lparr>di_reviewId := i\<rparr>) t') = t'"
    by (rule slot_taken_blocks(2) [OF taken]) simp
  show ?thesis
    using first slot decide slot_taken_blocks(1,3-) [OF taken] by (intro conjI) assumption+
qed

section \<open>Concrete runs\<close>

definition demo_input :: create_input where
  "demo_input = \<lparr>ci_id = Some ''r1'', ci_workspaceId = ''w'', ci_reviewDraftArtifactId = ''d1'',
     ci_diffArtifactId = ''diff1'', ci_baseRevision = Some ''base'', ci_diffHash = ''h1'',
     ci_changedFilesJson = Some (JArr []), ci_reviewerVerdictsJson = None, ci_other = [],
     ci_decisionState = Pending, ci_decisionReason = None, ci_decidedBy = None, ci_decidedAt = None,
     ci_applyState = Some NotApplied, ci_appliedAt = None, ci_assignee = Some AssignedLeader,
     ci_assigneeSetBy = None, ci_reviewerVerdictArtifactId = None, ci_leaderApplyCommitSha = None,
     ci_createdAt = None, ci_updatedAt = None\<rparr>"

definition demo_table :: review_table where
  "demo_table = snd (createFromDraft ''x'' 5 demo_input [])"

definition demo_claimed :: review_table where
  "demo_claimed = snd (claimApplyingSlot 6 ''r1'' ''leader'' ''h1'' demo_table)"

lemmas demo_defs = demo_input_def demo_table_def demo_claimed_def createFromDraft_def new_row_def
  select_by_draft_def select_by_id_def claimApplyingSlot_def update_where_def default_to_def Let_def

lemma demo_reachable: "reachable_reviews demo_table" "reachable_reviews demo_claimed"
proof -
  show one: "reachable_reviews demo_table"
    unfolding demo_table_def
    by (rule reach_step, rule reach_init, rule refl, rule step_create) (simp add: fresh_input_def demo_input_def)
  show "reachable_reviews demo_claimed"
    unfolding demo_claimed_def by (rule reach_step [OF one step_claim])
qed

lemma reachable_reviews_ok_witness: "distinct (map rv_id demo_claimed)"
  using reachable_reviews_ok [OF demo_reachable(2)] by blast

lemma review_lifecycle_witness:
  "\<exists>r'. select_by_id ''r1'' demo_claimed = Some r' \<and> rv_diffHash r' = ''h1''"
proof -
  have steps: "review_step\<^sup>*\<^sup>* demo_table demo_claimed"
    unfolding demo_claimed_def by (rule r_into_rtranclp, rule step_claim)
  have "select_by_id ''r1'' demo_table = Some (hd demo_table) \<and> rv_diffHash (hd demo_table) = ''h1''"
    by (simp add: demo_defs)
  then show ?thesis
    using review_lifecycle [OF demo_reachable(1) steps, of "''r1''" "hd demo_table"] by auto
qed

lemma reconcile_exact_witness:
  "reconcileOrphanApplyingReviews 1000000 (\<lambda>i. None) demo_claimed
    = (map (\<lambda>r. if rv_applyState r = Applying \<and> rv_updatedAt r < 1000000 - 600000
                then recovered_row 1000000 (\<lambda>i. None) r else r) demo_claimed,
       length (filter (\<lambda>c. None = (None :: string option)) (orphan_candidates 1000000 demo_claimed)),
       length (filter (\<lambda>c. None \<noteq> (None :: string option)) (orphan_candidates 1000000 demo_claimed)))"
  by (rule reconcile_exact [OF demo_reachable(2)])

lemma claim_exclusive_witness:
  "claimApplyingSlot 7 ''r1'' ''leader'' ''h1'' demo_claimed = (False, demo_claimed)"
proof -
  have "claimApplyingSlot 6 ''r1'' ''leader'' ''h1'' demo_table = (True, demo_claimed)"
    by (simp add: demo_defs)
  from claim_exclusive [OF demo_reachable(1) this, of 7 "''leader''" "''h1''"] show ?thesis by simp
qed

end
