(* ===== verification/Review_Draft.thy ===== *)
theory Review_Draft
  imports Review_Router Review_Store
begin

text \<open>
  From a draft to a change review, and to its decision
  (\<open>apps/api/src/services/safe-apply/change-review-state-service.ts\<close>): the validation of the stored draft,
  the parsing of its sandbox record, the creation of the row with its assignee, the pass over the pending
  drafts, and the wait for a decision.

  A draft is the object \<open>JSON.parse\<close> makes of its file, as in the code; the artifact table, the files and the
  workspace policies are parameters. Events, the notice to the leader and the views for the client are not
  modelled. The columns of the row that no operation reads are kept as the text of their values.
\<close>

section \<open>Reading the draft\<close>

definition obj_field :: "(string \<times> json) list \<Rightarrow> string \<Rightarrow> (string \<times> json) list option" where
  "obj_field fs k = (case obj_get fs k of Some (JObj g) \<Rightarrow> Some g | _ \<Rightarrow> None)"

definition str_field :: "(string \<times> json) list \<Rightarrow> string \<Rightarrow> string option" where
  "str_field fs k = (case obj_get fs k of Some (JStr s) \<Rightarrow> Some s | _ \<Rightarrow> None)"

definition is_arr :: "json option \<Rightarrow> bool" where
  "is_arr v = (case v of Some (JArr xs) \<Rightarrow> True | _ \<Rightarrow> False)"

definition is_num :: "json option \<Rightarrow> bool" where
  "is_num v = (case v of Some (JNum n) \<Rightarrow> True | _ \<Rightarrow> False)"

definition is_bool :: "json option \<Rightarrow> bool" where
  "is_bool v = (case v of Some (JBool b) \<Rightarrow> True | _ \<Rightarrow> False)"

text \<open>Absent or null, which \<open>??\<close> and the comparisons of the code treat alike.\<close>

definition is_nullish :: "json option \<Rightarrow> bool" where
  "is_nullish v = (v = None \<or> v = Some JNull)"

definition enumValue :: "json option \<Rightarrow> string list \<Rightarrow> string option" where
  "enumValue value allowed = (case value of Some (JStr s) \<Rightarrow> if s \<in> set allowed then Some s else None | _ \<Rightarrow> None)"

definition SANDBOX_MODES :: "string list" where
  "SANDBOX_MODES = [''off'', ''optional'', ''required'']"

definition SANDBOX_PROVIDERS :: "string list" where
  "SANDBOX_PROVIDERS = [''none'', ''bubblewrap'']"

definition SANDBOX_STATUSES :: "string list" where
  "SANDBOX_STATUSES = [''disabled'', ''unavailable'', ''available'', ''active'']"

definition SANDBOX_NETWORKS :: "string list" where
  "SANDBOX_NETWORKS = [''host'', ''disabled'', ''unknown'']"

definition SANDBOX_MAIN_WORKSPACE :: "string list" where
  "SANDBOX_MAIN_WORKSPACE = [''not_isolated'', ''read_only'', ''hidden'', ''unknown'']"

definition SANDBOX_RUNTIME_WORKSPACE :: "string list" where
  "SANDBOX_RUNTIME_WORKSPACE = [''host_writable'', ''sandbox_writable'', ''unknown'']"

definition SANDBOX_HOME_TMP :: "string list" where
  "SANDBOX_HOME_TMP = [''host'', ''isolated'', ''unknown'']"

text \<open>A nullable text: a string, or absent or null; anything else is refused.\<close>

definition nullable_str :: "json option \<Rightarrow> json option" where
  "nullable_str v = (case v of Some (JStr s) \<Rightarrow> Some (JStr s) | Some JNull \<Rightarrow> Some JNull | None \<Rightarrow> Some JNull
                             | _ \<Rightarrow> None)"

definition parseExecutionSandboxMetadata :: "json option \<Rightarrow> json option" where
  "parseExecutionSandboxMetadata value =
     (case value of
        Some (JObj v) \<Rightarrow>
         (case obj_field v ''filesystem'' of
            None \<Rightarrow> None
          | Some filesystem \<Rightarrow>
             (case (enumValue (obj_get v ''mode'') SANDBOX_MODES,
                    enumValue (obj_get v ''provider'') SANDBOX_PROVIDERS,
                    enumValue (obj_get v ''status'') SANDBOX_STATUSES,
                    enumValue (obj_get v ''network'') SANDBOX_NETWORKS,
                    enumValue (obj_get filesystem ''mainWorkspace'') SANDBOX_MAIN_WORKSPACE,
                    enumValue (obj_get filesystem ''runtimeWorkspace'') SANDBOX_RUNTIME_WORKSPACE,
                    enumValue (obj_get filesystem ''home'') SANDBOX_HOME_TMP,
                    enumValue (obj_get filesystem ''tmp'') SANDBOX_HOME_TMP,
                    nullable_str (obj_get v ''commandPath''), nullable_str (obj_get v ''reason'')) of
                (Some mode, Some provider, Some status, Some network, Some mainWorkspace, Some runtimeWorkspace,
                 Some home, Some tmp, Some commandPath, Some reason) \<Rightarrow>
                  Some (JObj [(''mode'', JStr mode), (''provider'', JStr provider), (''status'', JStr status),
                    (''commandPath'', commandPath), (''reason'', reason), (''network'', JStr network),
                    (''filesystem'', JObj [(''mainWorkspace'', JStr mainWorkspace),
                      (''runtimeWorkspace'', JStr runtimeWorkspace), (''home'', JStr home), (''tmp'', JStr tmp)])])
              | _ \<Rightarrow> None))
      | _ \<Rightarrow> None)"

text \<open>Setting a field of an object: the last of equal keys counts.\<close>

definition obj_set :: "(string \<times> json) list \<Rightarrow> string \<Rightarrow> json \<Rightarrow> (string \<times> json) list" where
  "obj_set fs k v = fs @ [(k, v)]"

definition diff_ok :: "(string \<times> json) list \<Rightarrow> bool" where
  "diff_ok diff =
     (str_field diff ''artifactId'' \<noteq> None \<and> str_field diff ''diffHash'' \<noteq> None
      \<and> is_arr (obj_get diff ''changedFiles'') \<and> is_num (obj_get diff ''addedLines'')
      \<and> is_num (obj_get diff ''removedLines'') \<and> is_bool (obj_get diff ''isEmpty'')
      \<and> obj_field diff ''diffAlgorithm'' \<noteq> None)"

definition security_ok :: "(string \<times> json) list \<Rightarrow> bool" where
  "security_ok security =
     (str_field security ''runtimeSource'' \<noteq> None \<and> is_arr (obj_get security ''argvFlags'')
      \<and> is_arr (obj_get security ''permissionSignals'') \<and> is_arr (obj_get security ''envPermissionHints'')
      \<and> str_field security ''permissionMode'' \<noteq> None
      \<and> str_field security ''runtimeWorkspaceStrategy'' \<noteq> None)"

text \<open>The validated draft with its normalised fields, or the complaint.\<close>

definition validateChangeReviewDraft :: "json \<Rightarrow> string + (string \<times> json) list" where
  "validateChangeReviewDraft value =
     (case value of
        JObj v \<Rightarrow>
          if \<not> truthy_str (str_field v ''taskId'') then Inl ''missing taskId''
          else if \<not> truthy_str (str_field v ''workspaceId'') then Inl ''missing workspaceId''
          else (case (obj_field v ''runtimeSecurity'', obj_field v ''diffArtifact'', obj_field v ''gate'') of
            (None, _, _) \<Rightarrow> Inl ''missing runtimeSecurity''
          | (Some security, None, _) \<Rightarrow> Inl ''missing diffArtifact''
          | (Some security, Some diff, None) \<Rightarrow> Inl ''missing gate''
          | (Some security, Some diff, Some gate) \<Rightarrow>
              let executionSandbox = parseExecutionSandboxMetadata (obj_get security ''executionSandbox'') in
              if str_field gate ''risk'' \<noteq> Some ''AUTO_OK'' \<and> str_field gate ''risk'' \<noteq> Some ''HUMAN_REQUIRED''
              then Inl ''invalid gate risk''
              else if \<not> is_arr (obj_get gate ''reasons'') then Inl ''missing gate reasons''
              else if \<not> diff_ok diff then Inl ''invalid diff artifact''
              else if \<not> security_ok security then Inl ''invalid runtime security''
              else if \<not> is_arr (obj_get v ''verification'') then Inl ''missing verification''
              else if obj_get v ''mcpToolRisk'' \<noteq> None \<and> \<not> is_arr (obj_get v ''mcpToolRisk'')
              then Inl ''invalid mcpToolRisk''
              else if \<not> is_nullish (obj_get v ''sastAdvisory'') \<and> obj_field v ''sastAdvisory'' = None
              then Inl ''invalid sastAdvisory''
              else if \<not> is_nullish (obj_get security ''executionSandbox'') \<and> executionSandbox = None
              then Inl ''invalid executionSandbox''
              else Inr (obj_set (obj_set (obj_set v
                     ''runtimeSecurity'' (JObj (obj_set security ''executionSandbox''
                        (case executionSandbox of None \<Rightarrow> JNull | Some e \<Rightarrow> e))))
                     ''mcpToolRisk'' (case obj_get v ''mcpToolRisk'' of Some (JArr xs) \<Rightarrow> JArr xs | _ \<Rightarrow> JArr []))
                     ''sastAdvisory'' (case obj_field v ''sastAdvisory'' of Some s \<Rightarrow> JObj s | None \<Rightarrow> JNull)))
      | _ \<Rightarrow> Inl ''root is not an object'')"

section \<open>Creating the row\<close>

record draft_env =
  de_artifact :: "string \<Rightarrow> (string \<times> string) option"
  de_readJson :: "string \<Rightarrow> json_text"
  de_policy :: "string \<Rightarrow> json_text option option"
  de_freshId :: string
  de_now :: int

text \<open>
  \<open>de_artifact\<close> gives the type and the storage reference of an artifact; \<open>de_policy\<close> is \<open>None\<close> where the
  lookup of the workspace fails, and \<open>Some None\<close> where no policy is set.
\<close>

datatype draft_error = DraftMissing | Malformed string | Unparsable | StoreError review_error

definition permission_of :: "string option \<Rightarrow> permission_mode" where
  "permission_of s = (if s = Some ''interactive'' then Interactive else if s = Some ''headless'' then Headless
     else if s = Some ''skipped'' then Skipped else if s = Some ''bypassed'' then Bypassed else UnknownMode)"

definition sandbox_of :: "string option \<Rightarrow> sandbox_mode option" where
  "sandbox_of s = (if s = Some ''read-only'' then Some ReadOnly
     else if s = Some ''workspace-write'' then Some WorkspaceWrite
     else if s = Some ''danger-full-access'' then Some DangerFullAccess else None)"

definition strategy_of :: "string option \<Rightarrow> workspace_strategy" where
  "strategy_of s = (if s = Some ''git_worktree'' then GitWorktree
     else if s = Some ''workspace_root'' then WorkspaceRoot else UnknownStrategy)"

definition field_or :: "'a \<Rightarrow> 'a option \<Rightarrow> 'a" where
  "field_or d v = (case v of None \<Rightarrow> d | Some x \<Rightarrow> x)"

definition draft_decision :: "(string \<times> json) list \<Rightarrow> decision_state" where
  "draft_decision draft =
     (if str_field (field_or [] (obj_field draft ''gate'')) ''risk'' = Some ''AUTO_OK''
         \<or> obj_get (field_or [] (obj_field draft ''diffArtifact'')) ''isEmpty'' = Some (JBool True)
      then NotRequired else Pending)"

text \<open>The assignee and who set it; a failing lookup leaves the review with the user.\<close>

definition draft_assignee :: "draft_env \<Rightarrow> (string \<times> json) list \<Rightarrow> review_assignee \<times> string option" where
  "draft_assignee env draft =
     (if draft_decision draft \<noteq> Pending then (AssignedUser, None)
      else case de_policy env (field_or [] (str_field draft ''workspaceId'')) of
             None \<Rightarrow> (AssignedUser, None)
           | Some policyJson \<Rightarrow>
               let security = field_or [] (obj_field draft ''runtimeSecurity'');
                   decision = routeAssignment
                     \<lparr>ri_changedFilesJson = obj_get (field_or [] (obj_field draft ''diffArtifact'')) ''changedFiles'',
                      ri_permissionMode = permission_of (str_field security ''permissionMode''),
                      ri_sandboxMode = sandbox_of (str_field security ''sandboxMode''),
                      ri_runtimeWorkspaceStrategy = strategy_of (str_field security ''runtimeWorkspaceStrategy'')\<rparr>
                     (parseWorkspacePolicy policyJson)
               in (case rd_assignee decision of ToLeader \<Rightarrow> AssignedLeader | ToUser \<Rightarrow> AssignedUser,
                   Some ''router''))"

definition other_columns :: "(string \<times> json) list \<Rightarrow> (string \<times> string) list" where
  "other_columns draft =
     (let security = field_or [] (obj_field draft ''runtimeSecurity'');
          diff = field_or [] (obj_field draft ''diffArtifact'');
          gate = field_or [] (obj_field draft ''gate'');
          column = (\<lambda>fs name key. (name, json_stringify (field_or JNull (obj_get fs key))))
      in [column draft ''taskId'' ''taskId'', column draft ''roleRuntimeId'' ''roleRuntimeId'',
          column security ''runtimeSource'' ''runtimeSource'', column security ''permissionMode'' ''permissionMode'',
          column security ''executorCommand'' ''commandPath'', column security ''sandboxMode'' ''sandboxMode'',
          column security ''argvFlagsJson'' ''argvFlags'',
          column security ''permissionSignalsJson'' ''permissionSignals'',
          column security ''envPermissionHintsJson'' ''envPermissionHints'',
          column security ''runtimeWorkspaceStrategy'' ''runtimeWorkspaceStrategy'',
          column draft ''mcpToolRiskJson'' ''mcpToolRisk'', column draft ''sastAdvisoryJson'' ''sastAdvisory'',
          column security ''executionSandboxJson'' ''executionSandbox'',
          column draft ''sideEffectWarningJson'' ''sideEffectWarning'',
          column diff ''diffAlgorithmJson'' ''diffAlgorithm'', column diff ''addedLines'' ''addedLines'',
          column diff ''removedLines'' ''removedLines'', column diff ''isEmpty'' ''isEmpty'',
          column gate ''risk'' ''risk'', column gate ''riskReasonsJson'' ''reasons'',
          column draft ''verificationJson'' ''verification''])"

definition draft_input :: "draft_env \<Rightarrow> string \<Rightarrow> string option \<Rightarrow> (string \<times> json) list \<Rightarrow> create_input" where
  "draft_input env draftId diffArtifactId draft =
     (let diff = field_or [] (obj_field draft ''diffArtifact'') in
      \<lparr>ci_id = None, ci_workspaceId = field_or [] (str_field draft ''workspaceId''),
       ci_reviewDraftArtifactId = draftId,
       ci_diffArtifactId = field_or (field_or [] (str_field diff ''artifactId'')) diffArtifactId,
       ci_baseRevision = str_field diff ''baseRevision'', ci_diffHash = field_or [] (str_field diff ''diffHash''),
       ci_changedFilesJson = obj_get diff ''changedFiles'', ci_reviewerVerdictsJson = Some (Some (JArr [])),
       ci_other = other_columns draft, ci_decisionState = draft_decision draft, ci_decisionReason = None,
       ci_decidedBy = None, ci_decidedAt = None, ci_applyState = Some NotApplied, ci_appliedAt = None,
       ci_assignee = Some (fst (draft_assignee env draft)), ci_assigneeSetBy = snd (draft_assignee env draft),
       ci_reviewerVerdictArtifactId = None, ci_leaderApplyCommitSha = None,
       ci_createdAt = Some (de_now env), ci_updatedAt = Some (de_now env)\<rparr>)"

definition materializeChangeReviewFromDraft ::
  "draft_env \<Rightarrow> string \<Rightarrow> string option \<Rightarrow> review_table \<Rightarrow> (draft_error + change_review) \<times> review_table" where
  "materializeChangeReviewFromDraft env draftId diffArtifactId t =
     (case select_by_draft draftId t of
        Some existing \<Rightarrow> (Inr existing, t)
      | None \<Rightarrow>
         (case de_artifact env draftId of
            None \<Rightarrow> (Inl DraftMissing, t)
          | Some (artifactType, storageRef) \<Rightarrow>
             if artifactType \<noteq> ''change_review_draft'' then (Inl DraftMissing, t)
             else (case de_readJson env storageRef of
                     None \<Rightarrow> (Inl Unparsable, t)
                   | Some value \<Rightarrow>
                      (case validateChangeReviewDraft value of
                         Inl message \<Rightarrow> (Inl (Malformed message), t)
                       | Inr draft \<Rightarrow>
                          (case createFromDraft (de_freshId env) (de_now env)
                                  (draft_input env draftId diffArtifactId draft) t of
                             (Inl e, t') \<Rightarrow> (Inl (StoreError e), t')
                           | (Inr review, t') \<Rightarrow> (Inr review, t'))))))"

section \<open>The pass over the pending drafts\<close>

definition stringOrNull :: "json option \<Rightarrow> string option" where
  "stringOrNull value = (case value of Some (JStr s) \<Rightarrow> if length s > 0 then Some s else None | _ \<Rightarrow> None)"

definition parseJsonObject :: "json_text \<Rightarrow> (string \<times> json) list" where
  "parseJsonObject value = (case value of Some (JObj fs) \<Rightarrow> fs | _ \<Rightarrow> [])"

text \<open>The counts of created, skipped and failed drafts. An event is its payload.\<close>

fun materializePending ::
  "(nat \<Rightarrow> draft_env) \<Rightarrow> nat \<Rightarrow> json_text list \<Rightarrow> review_table \<Rightarrow> (nat \<times> nat \<times> nat) \<times> review_table" where
  "materializePending envs n [] t = ((0, 0, 0), t)"
| "materializePending envs n (e # es) t =
     (let payload = parseJsonObject e in
      case stringOrNull (obj_get payload ''reviewDraftArtifactId'') of
        None \<Rightarrow> (case materializePending envs (n + 1) es t of ((c, s, f), t') \<Rightarrow> ((c, s + 1, f), t'))
      | Some draftId \<Rightarrow>
          if select_by_draft draftId t \<noteq> None
          then (case materializePending envs (n + 1) es t of ((c, s, f), t') \<Rightarrow> ((c, s + 1, f), t'))
          else (case materializeChangeReviewFromDraft (envs n) draftId
                       (stringOrNull (obj_get payload ''diffArtifactId'')) t of
                  (Inr review, t1) \<Rightarrow>
                    (case materializePending envs (n + 1) es t1 of ((c, s, f), t') \<Rightarrow> ((c + 1, s, f), t'))
                | (Inl err, t1) \<Rightarrow>
                    (case materializePending envs (n + 1) es t1 of ((c, s, f), t') \<Rightarrow> ((c, s, f + 1), t'))))"

section \<open>Taking the decision and waiting for it\<close>

datatype decision_verb = Approve | Reject | RequestRevision

fun decisionToState :: "decision_verb \<Rightarrow> decision_state" where
  "decisionToState Approve = Approved"
| "decisionToState Reject = Rejected"
| "decisionToState RequestRevision = RevisionRequested"

definition recordChangeReviewDecision ::
  "int \<Rightarrow> string \<Rightarrow> decision_verb \<Rightarrow> string option \<Rightarrow> string option \<Rightarrow> string option \<Rightarrow> review_table
     \<Rightarrow> (change_review \<times> bool) review_outcome" where
  "recordChangeReviewDecision now reviewId decision reason expectedDiffHash actorId t =
     recordDecision now
       \<lparr>di_reviewId = reviewId, di_decisionState = decisionToState decision, di_reason = reason,
        di_actorId = actorId, di_expectedDiffHash = expectedDiffHash\<rparr> t"

text \<open>Every decision taken through the service is a step of the table's machine.\<close>

lemma recordChangeReviewDecision_step:
  "review_step t (snd (recordChangeReviewDecision now reviewId decision reason expectedDiffHash actorId t))"
  unfolding recordChangeReviewDecision_def by (rule step_decide) (cases decision; simp)

datatype review_decision = DecApproved | DecRejected "string option" | DecRevision "string option" | DecTimeout | DecAborted

text \<open>What one round of the loop sees: the row, the abort signal, and the clock.\<close>

record wait_poll =
  wp_row :: "(decision_state \<times> string option) option"
  wp_aborted :: bool
  wp_now :: int

definition wait_round :: "int \<Rightarrow> wait_poll \<Rightarrow> review_decision option" where
  "wait_round deadline p =
     (case wp_row p of
        None \<Rightarrow> Some DecAborted
      | Some (state, reason) \<Rightarrow>
          let shown = (if truthy_str reason then reason else None) in
          if state = Approved then Some DecApproved
          else if state = Rejected then Some (DecRejected shown)
          else if state = RevisionRequested then Some (DecRevision shown)
          else if wp_aborted p then Some DecAborted
          else if wp_now p \<ge> deadline then Some DecTimeout
          else None)"

text \<open>The loop; \<open>None\<close> is a wait that never ends.\<close>

partial_function (option) wait_loop :: "(nat \<Rightarrow> wait_poll) \<Rightarrow> int \<Rightarrow> nat \<Rightarrow> review_decision option" where
  "wait_loop polls deadline n =
     (case wait_round deadline (polls n) of
        Some decision \<Rightarrow> Some decision
      | None \<Rightarrow> wait_loop polls deadline (n + 1))"

definition waitForReviewDecision :: "(nat \<Rightarrow> wait_poll) \<Rightarrow> int \<Rightarrow> int option \<Rightarrow> review_decision option" where
  "waitForReviewDecision polls start timeoutMs =
     wait_loop polls (start + field_or (5 * 60 * 1000) timeoutMs) 0"

section \<open>Properties\<close>

lemma draft_input_fresh: "fresh_input (draft_input env draftId d draft)"
  by (simp add: fresh_input_def draft_input_def Let_def draft_decision_def)

lemma create_result:
  assumes "createFromDraft f now i t = (Inr r, t')" and "select_by_draft (ci_reviewDraftArtifactId i) t = None"
  shows "r = new_row f now i \<and> t' = t @ [r]"
proof -
  have "select_by_id (rv_id (new_row f now i)) (t @ [new_row f now i]) = Some (new_row f now i)"
    if "select_by_id (rv_id (new_row f now i)) t = None"
    using that by (induction t) (auto simp: select_by_id_def split: if_splits)
  then show ?thesis
    using assms by (auto simp: createFromDraft_def Let_def split: if_splits option.splits)
qed

lemma assignee_leader:
  "fst (draft_assignee env draft) = AssignedLeader \<Longrightarrow> draft_decision draft = Pending \<and> de_policy env (field_or [] (str_field draft ''workspaceId'')) \<noteq> None"
  by (auto simp: draft_assignee_def split: if_splits option.splits)

text \<open>The three ways through the code.\<close>

lemma materialize_cases:
  obtains (failed) e where "materializeChangeReviewFromDraft env draftId d t = (Inl e, t)"
  | (known) r where "materializeChangeReviewFromDraft env draftId d t = (Inr r, t)" "select_by_draft draftId t = Some r"
  | (created) draft where "select_by_draft draftId t = None"
      "materializeChangeReviewFromDraft env draftId d t
       = (case createFromDraft (de_freshId env) (de_now env) (draft_input env draftId d draft) t of
            (Inl e, t') \<Rightarrow> (Inl (StoreError e), t') | (Inr review, t') \<Rightarrow> (Inr review, t'))"
proof (cases "select_by_draft draftId t")
  case (Some r)
  then show ?thesis using known by (simp add: materializeChangeReviewFromDraft_def)
next
  case none: None
  show ?thesis
  proof (cases "\<exists>ref value draft. de_artifact env draftId = Some (''change_review_draft'', ref)
      \<and> de_readJson env ref = Some value \<and> validateChangeReviewDraft value = Inr draft")
    case True
    then show ?thesis using created none by (auto simp: materializeChangeReviewFromDraft_def)
  next
    case False
    then have "\<exists>e. materializeChangeReviewFromDraft env draftId d t = (Inl e, t)"
      using none
      by (auto simp: materializeChangeReviewFromDraft_def split: option.splits prod.splits sum.splits if_splits)
    then show ?thesis using failed by blast
  qed
qed

text \<open>
  Turning a draft into a review is one step of the table's state machine. It returns the review there is
  for the draft, or fails and leaves the table alone, or appends one review, not applied and without
  a verdict, that needs no decision exactly when the gate passed the draft or its diff is empty, and
  that is the leader's only when it needs one.
\<close>
theorem materialize_effect:
  "case materializeChangeReviewFromDraft env draftId d t of
     (res, t') \<Rightarrow>
       (t' = t \<or> review_step t t')
       \<and> (case res of
            Inl e \<Rightarrow> t' = t
          | Inr r \<Rightarrow> t' = t \<and> select_by_draft draftId t = Some r
              \<or> (\<exists>draft. t' = t @ [r] \<and> rv_reviewDraftArtifactId r = draftId \<and> rv_applyState r = NotApplied
                   \<and> rv_reviewerVerdictArtifactId r = None \<and> rv_decisionState r = draft_decision draft
                   \<and> rv_diffHash r = field_or [] (str_field (field_or [] (obj_field draft ''diffArtifact'')) ''diffHash'')
                   \<and> (rv_assignee r = AssignedUser \<or> rv_decisionState r = Pending)))"
proof (rule materialize_cases [of env draftId d t])
  fix draft
  let ?i = "draft_input env draftId d draft"
  assume none: "select_by_draft draftId t = None"
    and m: "materializeChangeReviewFromDraft env draftId d t
       = (case createFromDraft (de_freshId env) (de_now env) ?i t of
            (Inl e, t') \<Rightarrow> (Inl (StoreError e), t') | (Inr review, t') \<Rightarrow> (Inr review, t'))"
  obtain x t' where c: "createFromDraft (de_freshId env) (de_now env) ?i t = (x, t')" by fastforce
  have step: "review_step t t'"
    using step_create [OF draft_input_fresh, of t "de_freshId env" "de_now env" env draftId d draft] c by simp
  have id: "ci_reviewDraftArtifactId ?i = draftId" by (simp add: draft_input_def Let_def)
  show ?thesis
  proof (cases x)
    case (Inl e)
    then have "t' = t" using c by (auto simp: createFromDraft_def Let_def split: option.splits if_splits)
    then show ?thesis using m c Inl by simp
  next
    case (Inr r)
    then have r: "r = new_row (de_freshId env) (de_now env) ?i" "t' = t @ [r]"
      using create_result c none id by simp_all
    have "rv_assignee r = AssignedUser \<or> rv_decisionState r = Pending"
      using assignee_leader [of env draft] unfolding r(1)
      by (cases "fst (draft_assignee env draft)") (simp_all add: new_row_def draft_input_def Let_def default_to_def)
    moreover have "rv_reviewDraftArtifactId r = draftId \<and> rv_applyState r = NotApplied
        \<and> rv_reviewerVerdictArtifactId r = None \<and> rv_decisionState r = draft_decision draft
        \<and> rv_diffHash r = field_or [] (str_field (field_or [] (obj_field draft ''diffArtifact'')) ''diffHash'')"
      unfolding r(1) by (simp add: new_row_def draft_input_def Let_def default_to_def)
    ultimately show ?thesis
      using m c Inr step r(2) by simp blast
  qed
qed auto

text \<open>Every event is counted once.\<close>

lemma pending_counts:
  "(let n = fst (materializePending envs k es t) in fst n + fst (snd n) + snd (snd n)) = length es"
proof (induction es arbitrary: k t)
  case Nil
  then show ?case by simp
next
  case (Cons e es)
  then show ?case
    by (simp add: Let_def prod.case_eq_if split: option.split sum.split)
qed

lemma wait_loop_returns:
  assumes "wait_round deadline (polls m) \<noteq> None" and "n \<le> m"
  shows "\<exists>k \<ge> n. k \<le> m \<and> wait_loop polls deadline n = wait_round deadline (polls k)
    \<and> wait_round deadline (polls k) \<noteq> None \<and> (\<forall>j. n \<le> j \<and> j < k \<longrightarrow> wait_round deadline (polls j) = None)"
  using assms(2)
proof (induction "m - n" arbitrary: n rule: less_induct)
  case less
  show ?case
  proof (cases "wait_round deadline (polls n)")
    case (Some decision)
    then have "wait_loop polls deadline n = wait_round deadline (polls n)"
      by (simp add: wait_loop.simps [of polls deadline n])
    then show ?thesis using Some less.prems by (intro exI [of _ n]) auto
  next
    case None
    then have "n \<noteq> m" using assms(1) by auto
    then have lt: "n + 1 \<le> m" using less.prems by simp
    have "m - (n + 1) < m - n" using lt by simp
    from less.hyps [OF this lt] obtain k where k: "n + 1 \<le> k" "k \<le> m" "wait_loop polls deadline (n + 1) = wait_round deadline (polls k)"
      "wait_round deadline (polls k) \<noteq> None" "\<forall>j. n + 1 \<le> j \<and> j < k \<longrightarrow> wait_round deadline (polls j) = None"
      by blast
    have "wait_loop polls deadline n = wait_loop polls deadline (n + 1)"
      using None by (simp add: wait_loop.simps [of polls deadline n])
    moreover have "\<forall>j. n \<le> j \<and> j < k \<longrightarrow> wait_round deadline (polls j) = None"
      using k(5) None by (metis Suc_eq_plus1 Suc_leI le_eq_less_or_eq)
    ultimately show ?thesis using k by (intro exI [of _ k]) auto
  qed
qed

text \<open>
  C36: The wait for a decision ends: when every round takes at least a second, it returns after at most one
  round more than the time-out has seconds, with what the first conclusive round shows. It reports an
  approval only when the row was approved.
\<close>
theorem wait_returns:
  assumes "\<forall>n. wp_now (polls n) \<ge> start + 1000 * int n" and "0 \<le> timeoutMs"
  shows "\<exists>k decision. int k \<le> timeoutMs div 1000 + 1
    \<and> waitForReviewDecision polls start (Some timeoutMs) = Some decision
    \<and> wait_round (start + timeoutMs) (polls k) = Some decision
    \<and> (\<forall>j<k. wait_round (start + timeoutMs) (polls j) = None)
    \<and> (decision = DecApproved \<longrightarrow> (\<exists>reason. wp_row (polls k) = Some (Approved, reason)))"
proof -
  let ?m = "nat (timeoutMs div 1000 + 1)"
  have "wp_now (polls ?m) \<ge> start + timeoutMs"
  proof -
    have "timeoutMs \<le> 1000 * (timeoutMs div 1000 + 1)" by presburger
    moreover have "int ?m = timeoutMs div 1000 + 1" using assms(2) by simp
    ultimately show ?thesis using assms(1) by (smt (verit))
  qed
  then have "wait_round (start + timeoutMs) (polls ?m) \<noteq> None"
    by (auto simp: wait_round_def Let_def split: option.split)
  from wait_loop_returns [of "start + timeoutMs" polls ?m 0, OF this] obtain k where k: "k \<le> ?m"
    "wait_loop polls (start + timeoutMs) 0 = wait_round (start + timeoutMs) (polls k)"
    "wait_round (start + timeoutMs) (polls k) \<noteq> None"
    "\<forall>j<k. wait_round (start + timeoutMs) (polls j) = None" by auto
  then obtain decision where d: "wait_round (start + timeoutMs) (polls k) = Some decision" by auto
  have "int k \<le> timeoutMs div 1000 + 1" using k(1) assms(2) by simp
  moreover have "decision = DecApproved \<longrightarrow> (\<exists>reason. wp_row (polls k) = Some (Approved, reason))"
    using d by (auto simp: wait_round_def Let_def split: option.splits if_splits)
  ultimately show ?thesis
    using k d by (intro exI [of _ k] exI [of _ decision]) (simp add: waitForReviewDecision_def field_or_def)
qed

lemma wait_returns_witness:
  "\<exists>decision. waitForReviewDecision (\<lambda>n. \<lparr>wp_row = Some (Superseded, None), wp_aborted = False,
     wp_now = 1000 * int n\<rparr>) 0 (Some 2500) = Some decision"
  using wait_returns [of 0 "\<lambda>n. \<lparr>wp_row = Some (Superseded, None), wp_aborted = False, wp_now = 1000 * int n\<rparr>" 2500]
  by auto

section \<open>A sandbox the code itself reports\<close>

definition sandbox_json :: "string \<Rightarrow> json" where
  "sandbox_json mainWorkspace = JObj [(''mode'', JStr ''required''), (''provider'', JStr ''bubblewrap''),
     (''status'', JStr ''active''), (''commandPath'', JNull), (''reason'', JNull), (''network'', JStr ''host''),
     (''filesystem'', JObj [(''mainWorkspace'', JStr mainWorkspace), (''runtimeWorkspace'', JStr ''sandbox_writable''),
        (''home'', JStr ''isolated''), (''tmp'', JStr ''isolated'')])]"

definition draft_json :: "string \<Rightarrow> json" where
  "draft_json mainWorkspace = JObj [(''taskId'', JStr ''t''), (''workspaceId'', JStr ''w''),
     (''runtimeSecurity'', JObj [(''runtimeSource'', JStr ''ucm''), (''argvFlags'', JArr []),
        (''permissionSignals'', JArr []), (''envPermissionHints'', JArr []), (''permissionMode'', JStr ''interactive''),
        (''runtimeWorkspaceStrategy'', JStr ''git_worktree''), (''executionSandbox'', sandbox_json mainWorkspace)]),
     (''diffArtifact'', JObj [(''artifactId'', JStr ''a''), (''diffHash'', JStr ''h''), (''changedFiles'', JArr []),
        (''addedLines'', JNum 1), (''removedLines'', JNum 0), (''isEmpty'', JBool False),
        (''diffAlgorithm'', JObj [])]),
     (''gate'', JObj [(''risk'', JStr ''HUMAN_REQUIRED''), (''reasons'', JArr [])]), (''verification'', JArr [])]"

text \<open>
  A draft of a run whose main workspace was writable inside the sandbox, which the sandbox service reports
  and the type of the record allows, is refused as malformed, where the same draft with a read-only main
  workspace is accepted.
\<close>
theorem sandbox_writable_draft_refused:
  "validateChangeReviewDraft (draft_json ''sandbox_writable'') = Inl ''invalid executionSandbox''
   \<and> (\<exists>draft. validateChangeReviewDraft (draft_json ''read_only'') = Inr draft)"
  by (simp add: draft_json_def sandbox_json_def validateChangeReviewDraft_def parseExecutionSandboxMetadata_def
    obj_field_def str_field_def obj_get_def enumValue_def is_arr_def is_num_def is_bool_def is_nullish_def
    diff_ok_def security_ok_def nullable_str_def SANDBOX_MODES_def SANDBOX_PROVIDERS_def SANDBOX_STATUSES_def
    SANDBOX_NETWORKS_def SANDBOX_MAIN_WORKSPACE_def SANDBOX_RUNTIME_WORKSPACE_def SANDBOX_HOME_TMP_def Let_def)

end
