(* ===== verification/Apply_Lock.thy ===== *)
theory Apply_Lock
  imports Js_Prelude
begin

text \<open>
  The apply lock of a workspace (\<open>apps/api/src/services/safe-apply/apply-lock-service.ts\<close>): one file,
  created exclusively, then filled with the owner's record, and taken over from an owner that is dead or too
  old. Every file access is a step of its own, and any number of clients interleave. An empty time stamp,
  which the code does not write, is represented by an absent one; the directory can always be created.
\<close>

definition DEFAULT_APPLY_LOCK_TTL_MS :: int where "DEFAULT_APPLY_LOCK_TTL_MS = 10 * 60 * 1000"

section \<open>The file\<close>

text \<open>What the code reads of the record in the file.\<close>

record lock_content =
  lk_pid :: "int option"
  lk_createdAt :: "iso_time option"
  lk_ownerToken :: "string option"

text \<open>
  The file: absent, or created by some client and holding a record, or holding text that is no record
  (such as the empty text before the owner's write).
\<close>

type_synonym lock_file = "(nat \<times> lock_content option) option"

definition readExistingLock :: "lock_file \<Rightarrow> lock_content option" where
  "readExistingLock f = (case f of None \<Rightarrow> None | Some (creator, content) \<Rightarrow> content)"

section \<open>A client\<close>

record lock_client =
  lc_pid :: int
  lc_ownerToken :: string
  lc_now :: int
  lc_ttlMs :: int

definition lock_age :: "lock_client \<Rightarrow> lock_content option \<Rightarrow> int" where
  "lock_age c existing =
     (case (case existing of None \<Rightarrow> None | Some e \<Rightarrow> lk_createdAt e) of
        None \<Rightarrow> max 0 (lc_now c - 0)
      | Some BadIso \<Rightarrow> lc_ttlMs c + 1
      | Some (IsoMs t) \<Rightarrow> max 0 (lc_now c - t))"

text \<open>The owner's process is alive and the lock is not too old; process 0 counts as none.\<close>

definition still_held :: "(int \<Rightarrow> bool) \<Rightarrow> lock_client \<Rightarrow> lock_file \<Rightarrow> bool" where
  "still_held isProcessAlive c f =
     (let existing = readExistingLock f in
      case existing of
        None \<Rightarrow> False
      | Some e \<Rightarrow>
          (case lk_pid e of
             None \<Rightarrow> False
           | Some pid \<Rightarrow> pid \<noteq> 0 \<and> isProcessAlive pid \<and> lock_age c existing \<le> lc_ttlMs c))"

datatype lock_pc =
    Start | Writing | Exists | TakingOver | Retrying | Busy
  | Holding | Releasing | Released

definition own_content :: "lock_client \<Rightarrow> lock_content" where
  "own_content c = \<lparr>lk_pid = Some (lc_pid c), lk_createdAt = Some (IsoMs (lc_now c)),
     lk_ownerToken = Some (lc_ownerToken c)\<rparr>"

text \<open>
  One file access of client \<open>k\<close>: the exclusive creation, the write through the open handle (which reaches
  the file only while it is the one the client created), the reading of a lock that exists, its removal,
  the second creation, and the two accesses of the release.
\<close>

fun lock_move :: "(int \<Rightarrow> bool) \<Rightarrow> lock_client \<Rightarrow> nat \<Rightarrow> lock_file \<Rightarrow> lock_pc \<Rightarrow> lock_file \<times> lock_pc" where
  "lock_move alive c k f Start = (case f of None \<Rightarrow> (Some (k, None), Writing) | Some _ \<Rightarrow> (f, Exists))"
| "lock_move alive c k f Writing =
     (case f of
        None \<Rightarrow> (None, Holding)
      | Some (creator, content) \<Rightarrow>
          (if creator = k then Some (k, Some (own_content c)) else f, Holding))"
| "lock_move alive c k f Exists = (f, if still_held alive c f then Busy else TakingOver)"
| "lock_move alive c k f TakingOver = (None, Retrying)"
| "lock_move alive c k f Retrying = (case f of None \<Rightarrow> (Some (k, None), Writing) | Some _ \<Rightarrow> (f, Busy))"
| "lock_move alive c k f Holding =
     (f, case readExistingLock f of
           Some e \<Rightarrow> if lk_ownerToken e = Some (lc_ownerToken c) then Releasing else Released
         | None \<Rightarrow> Released)"
| "lock_move alive c k f Releasing = (None, Released)"
| "lock_move alive c k f Busy = (f, Busy)"
| "lock_move alive c k f Released = (f, Released)"

text \<open>Acquiring without interference: at most five accesses.\<close>

fun acquire_alone :: "nat \<Rightarrow> (int \<Rightarrow> bool) \<Rightarrow> lock_client \<Rightarrow> nat \<Rightarrow> lock_file \<times> lock_pc \<Rightarrow> lock_file \<times> lock_pc" where
  "acquire_alone 0 alive c k s = s"
| "acquire_alone (Suc n) alive c k s =
     (if snd s \<in> {Busy, Holding} then s else acquire_alone n alive c k (lock_move alive c k (fst s) (snd s)))"

definition acquireApplyLock :: "(int \<Rightarrow> bool) \<Rightarrow> lock_client \<Rightarrow> nat \<Rightarrow> lock_file \<Rightarrow> lock_file \<times> lock_pc" where
  "acquireApplyLock alive c k f = acquire_alone 5 alive c k (f, Start)"

section \<open>Interleaved clients\<close>

record lock_state =
  ls_file :: lock_file
  ls_pc :: "nat \<Rightarrow> lock_pc"

definition client_step :: "(int \<Rightarrow> bool) \<Rightarrow> (nat \<Rightarrow> lock_client) \<Rightarrow> nat \<Rightarrow> lock_state \<Rightarrow> lock_state" where
  "client_step alive clients k s =
     (case lock_move alive (clients k) k (ls_file s) (ls_pc s k) of
        (f, pc) \<Rightarrow> \<lparr>ls_file = f, ls_pc = (ls_pc s)(k := pc)\<rparr>)"

definition run_schedule :: "(int \<Rightarrow> bool) \<Rightarrow> (nat \<Rightarrow> lock_client) \<Rightarrow> nat list \<Rightarrow> lock_state \<Rightarrow> lock_state" where
  "run_schedule alive clients ks s = fold (client_step alive clients) ks s"

text \<open>
  A history of the lock: every access of every client is a step, and what is alive may change from one to the next. A client that finds a
  lock no longer held takes it over: it removes the file, creates it again and fills it. These four accesses are one step, between which no
  other client comes, and which does not fall between the creation and the filling of a file or between the two accesses of a release.
  Every lock so taken from a client that holds it is noted, with the contender and whether the holder's process was alive.
\<close>

type_synonym lock_story = "lock_state \<times> (nat \<times> nat \<times> bool) list"

definition robbed :: "(int \<Rightarrow> bool) \<Rightarrow> (nat \<Rightarrow> lock_client) \<Rightarrow> nat \<Rightarrow> lock_state \<Rightarrow> (nat \<times> nat \<times> bool) list" where
  "robbed alive clients k s = (case ls_file s of
     Some (i, content) \<Rightarrow> if ls_pc s i = Holding then [(i, k, alive (lc_pid (clients i)))] else []
   | None \<Rightarrow> [])"

inductive lock_turn :: "(nat \<Rightarrow> lock_client) \<Rightarrow> lock_story \<Rightarrow> lock_story \<Rightarrow> bool" for clients where
  access: "ls_pc s k \<noteq> Exists \<or> still_held alive (clients k) (ls_file s) \<Longrightarrow>
     lock_turn clients (s, lost) (client_step alive clients k s, lost)"
| take_over: "ls_pc s k = Exists \<Longrightarrow> \<not> still_held alive (clients k) (ls_file s) \<Longrightarrow>
     \<forall>j. ls_pc s j \<noteq> Writing \<and> ls_pc s j \<noteq> Releasing \<Longrightarrow>
     lock_turn clients (s, lost) (run_schedule alive clients [k, k, k, k] s, robbed alive clients k s @ lost)"

inductive_cases lock_turnE: "lock_turn clients s t"

definition lock_start :: "lock_story \<Rightarrow> bool" where
  "lock_start s \<longleftrightarrow> snd s = [] \<and> (\<forall>k. ls_pc (fst s) k = Start)
     \<and> (\<forall>k content. ls_file (fst s) = Some (k, content) \<longrightarrow> content \<noteq> None)"

definition taken_from :: "lock_story \<Rightarrow> nat \<Rightarrow> bool" where
  "taken_from s i \<longleftrightarrow> i \<in> fst ` set (snd s)"

text \<open>The client is between its successful creation and the end of its release.\<close>

definition owns_lock :: "lock_pc \<Rightarrow> bool" where
  "owns_lock pc \<longleftrightarrow> pc \<in> {Writing, Holding, Releasing}"

text \<open>Why a lock was taken from its holder: its process was gone, or the contender found it older than its lifetime.\<close>

definition fairly_taken :: "(nat \<Rightarrow> lock_client) \<Rightarrow> nat \<times> nat \<times> bool \<Rightarrow> bool" where
  "fairly_taken clients x = (case x of (i, k, up) \<Rightarrow>
     \<not> up \<or> lc_pid (clients i) = 0 \<or> max 0 (lc_now (clients k) - lc_now (clients i)) > lc_ttlMs (clients k))"

definition file_of :: "(nat \<Rightarrow> lock_client) \<Rightarrow> nat \<Rightarrow> lock_pc \<Rightarrow> lock_file" where
  "file_of clients k pc = Some (k, if pc = Writing then None else Some (own_content (clients k)))"

definition lock_inv :: "(nat \<Rightarrow> lock_client) \<Rightarrow> lock_story \<Rightarrow> bool" where
  "lock_inv clients s \<longleftrightarrow> (\<forall>k. ls_pc (fst s) k \<noteq> TakingOver \<and> ls_pc (fst s) k \<noteq> Retrying)
     \<and> (\<forall>k. owns_lock (ls_pc (fst s) k) \<and> \<not> taken_from s k \<longrightarrow> ls_file (fst s) = file_of clients k (ls_pc (fst s) k))
     \<and> (\<forall>i content. ls_file (fst s) = Some (i, content) \<longrightarrow>
          owns_lock (ls_pc (fst s) i) \<and> \<not> taken_from s i \<or> (\<forall>k. ls_pc (fst s) k \<in> {Start, Exists, Busy}))
     \<and> (\<forall>k. taken_from s k \<longrightarrow> ls_pc (fst s) k \<in> {Holding, Released})
     \<and> (\<forall>x \<in> set (snd s). fairly_taken clients x)"

lemma lock_invI:
  assumes "\<And>k. ls_pc s k \<noteq> TakingOver \<and> ls_pc s k \<noteq> Retrying"
    and "\<And>k. owns_lock (ls_pc s k) \<Longrightarrow> \<not> taken_from (s, lost) k \<Longrightarrow> ls_file s = file_of clients k (ls_pc s k)"
    and "\<And>i content. ls_file s = Some (i, content) \<Longrightarrow>
          owns_lock (ls_pc s i) \<and> \<not> taken_from (s, lost) i \<or> (\<forall>k. ls_pc s k \<in> {Start, Exists, Busy})"
    and "\<And>k. taken_from (s, lost) k \<Longrightarrow> ls_pc s k \<in> {Holding, Released}"
    and "\<forall>x \<in> set lost. fairly_taken clients x"
  shows "lock_inv clients (s, lost)"
  using assms unfolding lock_inv_def fst_conv snd_conv by blast

lemma lock_invD:
  assumes "lock_inv clients (s, lost)"
  shows "ls_pc s k \<noteq> TakingOver" "ls_pc s k \<noteq> Retrying"
    and "owns_lock (ls_pc s k) \<Longrightarrow> \<not> taken_from (s, lost) k \<Longrightarrow> ls_file s = file_of clients k (ls_pc s k)"
    and "ls_file s = Some (i, content) \<Longrightarrow>
          owns_lock (ls_pc s i) \<and> \<not> taken_from (s, lost) i \<or> (\<forall>k. ls_pc s k \<in> {Start, Exists, Busy})"
    and "taken_from (s, lost) k \<Longrightarrow> ls_pc s k \<in> {Holding, Released}"
    and "\<forall>x \<in> set lost. fairly_taken clients x"
  using assms unfolding lock_inv_def fst_conv snd_conv by blast+

lemma own_token [simp]: "lk_ownerToken (own_content c) = Some (lc_ownerToken c)"
  by (simp add: own_content_def)

lemma holder_present:
  "ls_pc s k = pc \<Longrightarrow> pc \<notin> {Start, Exists, Busy} \<Longrightarrow> \<not> (\<forall>k. ls_pc s k \<in> {Start, Exists, Busy})"
  by auto

text \<open>A client whose lock was taken finds another token in the file, or none, and removes nothing.\<close>

lemma robbed_release:
  assumes "lock_inv clients (s, lost)" and "inj (\<lambda>k. lc_ownerToken (clients k))" and "taken_from (s, lost) k" and "ls_pc s k = Holding"
  shows "lock_move alive (clients k) k (ls_file s) Holding = (ls_file s, Released)"
proof (cases "ls_file s")
  case (Some f)
  obtain i content where f: "f = (i, content)" by fastforce
  have "\<not> (\<forall>k. ls_pc s k \<in> {Start, Exists, Busy})" by (rule holder_present [OF assms(4)]) simp
  then have i: "owns_lock (ls_pc s i)" "\<not> taken_from (s, lost) i"
    using lock_invD(4) [OF assms(1) Some [unfolded f]] by blast+
  then have "i \<noteq> k" using assms(3) by blast
  then have "lc_ownerToken (clients i) \<noteq> lc_ownerToken (clients k)" using assms(2) by (auto dest: injD)
  moreover have "ls_file s = file_of clients i (ls_pc s i)" by (rule lock_invD(3) [OF assms(1) i])
  ultimately show ?thesis by (simp add: file_of_def readExistingLock_def)
qed (simp add: readExistingLock_def)

text \<open>What one access does to the file and the client, in the states that occur.\<close>

lemma move_cases:
  assumes inv: "lock_inv clients (s, lost)" and inj: "inj (\<lambda>k. lc_ownerToken (clients k))"
    and calm: "ls_pc s k \<noteq> Exists \<or> still_held alive (clients k) (ls_file s)"
    and mv: "lock_move alive (clients k) k (ls_file s) (ls_pc s k) = (f, pc)"
  obtains (made) "ls_file s = None" "f = file_of clients k pc" "pc = Writing" "ls_pc s k = Start"
    | (kept) "f = ls_file s" "\<not> owns_lock pc" "\<not> owns_lock (ls_pc s k)" "pc \<in> {Exists, Busy, Released}" "ls_pc s k = Released \<longleftrightarrow> pc = Released"
    | (mine) "f = file_of clients k pc" "owns_lock pc" "owns_lock (ls_pc s k)" "\<not> taken_from (s, lost) k"
    | (gone) "f = ls_file s" "pc = Released" "ls_pc s k = Holding" "taken_from (s, lost) k"
    | (freed) "f = None" "pc = Released" "ls_pc s k = Releasing" "\<not> taken_from (s, lost) k"
proof -
  have free: "\<not> taken_from (s, lost) k" if "ls_pc s k \<notin> {Holding, Released}" using lock_invD(5) [OF inv, of k] that by blast
  have own: "ls_file s = file_of clients k (ls_pc s k)" if "owns_lock (ls_pc s k)" "\<not> taken_from (s, lost) k"
    by (rule lock_invD(3) [OF inv that])
  show thesis
  proof (cases "ls_pc s k")
    case Start
    then show ?thesis using mv made kept by (cases "ls_file s") (auto simp: file_of_def owns_lock_def)
  next
    case Writing
    then show ?thesis using mv own free mine by (auto simp: file_of_def owns_lock_def)
  next
    case Exists
    then show ?thesis using mv calm kept by (auto simp: owns_lock_def)
  next
    case Busy
    then show ?thesis using mv kept by (auto simp: owns_lock_def)
  next
    case Holding
    show ?thesis
    proof (cases "taken_from (s, lost) k")
      case True
      then show ?thesis using robbed_release [OF inv inj True Holding] mv gone Holding by auto
    next
      case False
      then show ?thesis using mv own Holding mine by (auto simp: file_of_def owns_lock_def readExistingLock_def)
    qed
  next
    case Releasing
    then show ?thesis using mv free freed by auto
  next
    case Released
    then show ?thesis using mv kept by (auto simp: owns_lock_def)
  qed (use lock_invD(1,2) [OF inv, of k] in auto)
qed

lemma access_inv:
  assumes inv: "lock_inv clients (s, lost)" and inj: "inj (\<lambda>k. lc_ownerToken (clients k))"
    and calm: "ls_pc s k \<noteq> Exists \<or> still_held alive (clients k) (ls_file s)"
  shows "lock_inv clients (client_step alive clients k s, lost)"
proof -
  obtain f pc where mv: "lock_move alive (clients k) k (ls_file s) (ls_pc s k) = (f, pc)" by fastforce
  let ?t = "\<lparr>ls_file = f, ls_pc = (ls_pc s)(k := pc)\<rparr>"
  note D = lock_invD [OF inv]
  have "lock_inv clients (?t, lost)"
  proof (rule lock_invI)
    note cs [case_names made kept mine gone freed] = move_cases [OF inv inj calm mv]
    show "ls_pc ?t j \<noteq> TakingOver \<and> ls_pc ?t j \<noteq> Retrying" for j
      using D(1,2) by (cases rule: cs) (auto simp: owns_lock_def)
    show "ls_file ?t = file_of clients j (ls_pc ?t j)" if "owns_lock (ls_pc ?t j)" "\<not> taken_from (?t, lost) j" for j
    proof (cases rule: cs)
      case made
      then show ?thesis using that D(3) [of j] by (cases "j = k") (auto simp: taken_from_def file_of_def)
    next
      case kept
      then show ?thesis using that D(3) [of j] by (cases "j = k") (auto simp: taken_from_def)
    next
      case mine
      then show ?thesis using that D(3) [of j] D(3) [of k] by (cases "j = k") (auto simp: taken_from_def file_of_def)
    next
      case gone
      then show ?thesis using that D(3) [of j] by (cases "j = k") (auto simp: taken_from_def owns_lock_def)
    next
      case freed
      then show ?thesis using that D(3) [of j] D(3) [of k] by (cases "j = k") (auto simp: taken_from_def owns_lock_def file_of_def)
    qed
    show "owns_lock (ls_pc ?t i) \<and> \<not> taken_from (?t, lost) i \<or> (\<forall>k. ls_pc ?t k \<in> {Start, Exists, Busy})"
      if "ls_file ?t = Some (i, content)" for i content
    proof (cases rule: cs)
      case made
      then show ?thesis using that D(5) [of k] by (auto simp: taken_from_def file_of_def owns_lock_def)
    next
      case kept
      have "\<not> (\<forall>k. ls_pc s k \<in> {Start, Exists, Busy})" if "pc = Released"
        by (rule holder_present [of s k Released]) (use kept(5) that in simp_all)
      then show ?thesis using kept that D(4) [of i content] by (cases "i = k") (auto simp: taken_from_def)
    next
      case mine
      then show ?thesis using that by (auto simp: taken_from_def file_of_def)
    next
      case gone
      then have "\<not> (\<forall>k. ls_pc s k \<in> {Start, Exists, Busy})" by (intro holder_present [of s k Holding]) simp_all
      then show ?thesis using gone that D(4) [of i content] by (cases "i = k") (auto simp: taken_from_def)
    next
      case freed
      then show ?thesis using that by simp
    qed
    show "ls_pc ?t j \<in> {Holding, Released}" if "taken_from (?t, lost) j" for j
      using that D(5) [of j] by (cases rule: cs; cases "j = k") (auto simp: taken_from_def owns_lock_def)
    show "\<forall>x \<in> set lost. fairly_taken clients x" by (rule D(6))
  qed
  then show ?thesis by (simp add: client_step_def mv)
qed

text \<open>A take-over leaves the contender as the holder.\<close>

lemma take_over_result:
  assumes "ls_pc s k = Exists" and "\<not> still_held alive (clients k) (ls_file s)"
  shows "run_schedule alive clients [k, k, k, k] s
    = \<lparr>ls_file = Some (k, Some (own_content (clients k))), ls_pc = (ls_pc s)(k := Holding)\<rparr>"
  using assms by (simp add: run_schedule_def client_step_def)

lemma not_held_fair:
  assumes "\<not> still_held alive (clients k) (Some (i, Some (own_content (clients i))))"
  shows "fairly_taken clients (i, k, alive (lc_pid (clients i)))"
  using assms by (auto simp: still_held_def readExistingLock_def own_content_def lock_age_def fairly_taken_def Let_def)

lemma take_over_inv:
  assumes inv: "lock_inv clients (s, lost)" and pc: "ls_pc s k = Exists" and stale: "\<not> still_held alive (clients k) (ls_file s)"
    and quiet: "\<forall>j. ls_pc s j \<noteq> Writing \<and> ls_pc s j \<noteq> Releasing"
  shows "lock_inv clients (run_schedule alive clients [k, k, k, k] s, robbed alive clients k s @ lost)"
proof -
  let ?t = "\<lparr>ls_file = Some (k, Some (own_content (clients k))), ls_pc = (ls_pc s)(k := Holding)\<rparr>"
  let ?lost = "robbed alive clients k s @ lost"
  note D = lock_invD [OF inv]
  have t: "taken_from (?t, ?lost) j \<longleftrightarrow> taken_from (s, lost) j \<or> (\<exists>content. ls_file s = Some (j, content)) \<and> ls_pc s j = Holding" for j
    by (cases "ls_file s") (auto simp: taken_from_def robbed_def)
  have k: "\<not> taken_from (?t, ?lost) k" using D(5) [of k] pc by (auto simp: t)
  have "lock_inv clients (?t, ?lost)"
  proof (rule lock_invI)
    show "ls_pc ?t j \<noteq> TakingOver \<and> ls_pc ?t j \<noteq> Retrying" for j using D(1,2) by simp
    show "ls_file ?t = file_of clients j (ls_pc ?t j)" if "owns_lock (ls_pc ?t j)" "\<not> taken_from (?t, ?lost) j" for j
    proof (cases "j = k")
      case False
      then have own: "owns_lock (ls_pc s j)" "\<not> taken_from (s, lost) j" using that by (simp_all add: t)
      then have "ls_pc s j = Holding" using quiet by (auto simp: owns_lock_def)
      then show ?thesis using that(2) D(3) [OF own] by (simp add: t file_of_def)
    qed (simp add: file_of_def)
    show "owns_lock (ls_pc ?t i) \<and> \<not> taken_from (?t, ?lost) i \<or> (\<forall>k. ls_pc ?t k \<in> {Start, Exists, Busy})"
      if "ls_file ?t = Some (i, content)" for i content using that k by (simp add: owns_lock_def)
    show "ls_pc ?t j \<in> {Holding, Released}" if "taken_from (?t, ?lost) j" for j
      using that D(5) [of j] by (auto simp: t)
    have "fairly_taken clients x" if new: "x \<in> set (robbed alive clients k s)" for x
    proof -
      obtain i content where i: "ls_file s = Some (i, content)" "ls_pc s i = Holding" "x = (i, k, alive (lc_pid (clients i)))"
        using new by (cases "ls_file s") (auto simp: robbed_def split: if_splits)
      have "\<not> (\<forall>k. ls_pc s k \<in> {Start, Exists, Busy})" by (rule holder_present [OF i(2)]) simp
      then have "\<not> taken_from (s, lost) i" using D(4) [OF i(1)] by blast
      then have "ls_file s = Some (i, Some (own_content (clients i)))"
        using D(3) [of i] i(2) by (simp add: owns_lock_def file_of_def)
      then show ?thesis using stale i(3) by (simp add: not_held_fair)
    qed
    then show "\<forall>x \<in> set ?lost. fairly_taken clients x" using D(6) by auto
  qed
  then show ?thesis by (simp only: take_over_result [where clients = clients, OF pc stale])
qed

text \<open>Tokens are random and differ; for clients that share one the histories are left out.\<close>

definition token_turn :: "(nat \<Rightarrow> lock_client) \<Rightarrow> lock_story \<Rightarrow> lock_story \<Rightarrow> bool" where
  "token_turn clients s t \<longleftrightarrow> inj (\<lambda>k. lc_ownerToken (clients k)) \<and> lock_turn clients s t"

interpretation locks: invariant_system lock_start "token_turn clients" "lock_inv clients"
  for clients
proof unfold_locales
  show "lock_inv clients s" if "lock_start s" for s
    using that by (auto simp: lock_start_def lock_inv_def owns_lock_def taken_from_def)
  show "lock_inv clients t" if "lock_inv clients s" "token_turn clients s t" for s t
    using that unfolding token_turn_def by (auto elim!: lock_turnE intro: access_inv take_over_inv)
qed

lemma locks_with_tokens:
  assumes "inj (\<lambda>k. lc_ownerToken (clients k))" and "reach lock_start (lock_turn clients) s"
  shows "lock_inv clients s"
proof (rule locks.reach_inv)
  show "reach lock_start (token_turn clients) s"
    using assms(2) by induction (auto simp: token_turn_def assms(1) intro: reach.intros)
qed

section \<open>Properties\<close>

text \<open>
  A client that is not disturbed gets the lock exactly when there is none or the one there is not
  held any more, and the file then names it as the owner; otherwise it is refused and the file is untouched.
\<close>
theorem acquire_alone_exact:
  "acquireApplyLock alive c k f =
     (if f \<noteq> None \<and> still_held alive c f then (f, Busy) else (Some (k, Some (own_content c)), Holding))"
  by (cases f) (auto simp: acquireApplyLock_def numeral_eq_Suc)

text \<open>
  C32: The lock excludes, through expiry and take-over. Of the clients whose lock was not taken from them at most one owns it, from the
  creation of the file to the end of its release, and the file is that client's; and a lock was taken from a client that held it only when its
  process was not alive or the lock was older than the lifetime the contender allows. A client whose lock was taken removes nobody's file
  when it releases, since the owner tokens differ. A take-over is not disturbed and does not fall into the middle of another client's creation or release.
\<close>
theorem lock_mutual_exclusion:
  assumes "reach lock_start (lock_turn clients) s" and "inj (\<lambda>k. lc_ownerToken (clients k))"
    and "owns_lock (ls_pc (fst s) j)" and "\<not> taken_from s j" and "owns_lock (ls_pc (fst s) k)" and "\<not> taken_from s k"
  shows "j = k \<and> ls_file (fst s) = Some (k, if ls_pc (fst s) k = Writing then None else Some (own_content (clients k)))
    \<and> (\<forall>(i, by, up) \<in> set (snd s). \<not> up \<or> lc_pid (clients i) = 0
         \<or> max 0 (lc_now (clients by) - lc_now (clients i)) > lc_ttlMs (clients by))"
proof -
  have inv: "lock_inv clients (fst s, snd s)" using locks_with_tokens [OF assms(2,1)] by simp
  have "ls_file (fst s) = file_of clients j (ls_pc (fst s) j)" "ls_file (fst s) = file_of clients k (ls_pc (fst s) k)"
    using lock_invD(3) [OF inv, of j] lock_invD(3) [OF inv, of k] assms(3-6) by simp_all
  then have "file_of clients j (ls_pc (fst s) j) = file_of clients k (ls_pc (fst s) k)" "ls_file (fst s) = file_of clients k (ls_pc (fst s) k)"
    by simp_all
  moreover have "\<forall>x \<in> set (snd s). fairly_taken clients x" by (rule lock_invD(6) [OF inv])
  ultimately show ?thesis by (auto simp: file_of_def fairly_taken_def)
qed

definition two_clients :: "nat \<Rightarrow> lock_client" where
  "two_clients k = \<lparr>lc_pid = 100 + int k, lc_ownerToken = replicate k CHR ''t'', lc_now = 1000 + (if k = 0 then 0 else DEFAULT_APPLY_LOCK_TTL_MS + 1),
     lc_ttlMs = DEFAULT_APPLY_LOCK_TTL_MS\<rparr>"

definition no_lock :: lock_state where
  "no_lock = \<lparr>ls_file = None, ls_pc = (\<lambda>k. Start)\<rparr>"

text \<open>Client 0 takes the lock and works for longer than ten minutes; client 1 takes it over; the release of client 0 leaves the file of client 1.\<close>

definition late_release :: lock_story where
  "late_release = (run_schedule (\<lambda>p. True) two_clients [0, 0, 1, 1, 1, 1, 1, 0] no_lock, [(0, 1, True)])"

lemma late_release_reached: "reach lock_start (lock_turn two_clients) late_release"
proof -
  let ?step = "client_step (\<lambda>p. True) two_clients"
  let ?s1 = "?step 0 no_lock" let ?s2 = "?step 0 ?s1" let ?s3 = "?step 1 ?s2"
  let ?s4 = "run_schedule (\<lambda>p. True) two_clients [1, 1, 1, 1] ?s3"
  note defs = client_step_def no_lock_def still_held_def readExistingLock_def own_content_def lock_age_def two_clients_def
    DEFAULT_APPLY_LOCK_TTL_MS_def
  have "reach lock_start (lock_turn two_clients) (no_lock, [])"
    by (rule reach_init) (simp add: lock_start_def no_lock_def)
  then have "reach lock_start (lock_turn two_clients) (?s1, [])"
    by (rule reach_step) (rule access, simp add: no_lock_def)
  then have "reach lock_start (lock_turn two_clients) (?s2, [])"
    by (rule reach_step) (rule access, simp add: client_step_def no_lock_def)
  then have "reach lock_start (lock_turn two_clients) (?s3, [])"
    by (rule reach_step) (rule access, simp add: client_step_def no_lock_def)
  moreover have "ls_pc ?s3 1 = Exists" "\<not> still_held (\<lambda>p. True) (two_clients 1) (ls_file ?s3)"
    "\<forall>j. ls_pc ?s3 j \<noteq> Writing \<and> ls_pc ?s3 j \<noteq> Releasing"
    by (simp_all add: defs)
  ultimately have "reach lock_start (lock_turn two_clients) (?s4, robbed (\<lambda>p. True) two_clients 1 ?s3 @ [])"
    by - (rule reach_step, assumption, rule take_over)
  moreover have "robbed (\<lambda>p. True) two_clients 1 ?s3 = [(0, 1, True)]"
    by (simp add: robbed_def defs)
  ultimately have "reach lock_start (lock_turn two_clients) (?s4, [(0, 1, True)])" by simp
  then have "reach lock_start (lock_turn two_clients) (?step 0 ?s4, [(0, 1, True)])"
    by (rule reach_step) (rule access, simp add: run_schedule_def defs)
  then show ?thesis by (simp add: late_release_def run_schedule_def)
qed

theorem lock_mutual_exclusion_witness:
  "ls_pc (fst late_release) 0 = Released \<and> ls_pc (fst late_release) 1 = Holding
   \<and> ls_file (fst late_release) = Some (1, Some (own_content (two_clients 1)))"
proof -
  have i: "inj (\<lambda>k. lc_ownerToken (two_clients k))" by (rule injI) (simp add: two_clients_def replicate_eq_replicate)
  have pcs: "ls_pc (fst late_release) 0 = Released" "ls_pc (fst late_release) 1 = Holding"
    by (simp_all add: late_release_def run_schedule_def client_step_def no_lock_def still_held_def readExistingLock_def own_content_def
        lock_age_def two_clients_def DEFAULT_APPLY_LOCK_TTL_MS_def)
  moreover have "\<not> taken_from late_release 1" by (simp add: taken_from_def late_release_def)
  ultimately show ?thesis
    using lock_mutual_exclusion [OF late_release_reached i, of 1 1] by (simp add: owns_lock_def)
qed

text \<open>
  Two live clients that ask for a free lock at the same time can both get it: the second one reads
  the file between its creation and its filling, takes the empty text for a stale lock, and removes it.
\<close>
theorem lock_two_holders:
  "ls_pc (run_schedule (\<lambda>p. True) two_clients [0, 1, 1, 1, 1, 1, 0] no_lock) 0 = Holding
   \<and> ls_pc (run_schedule (\<lambda>p. True) two_clients [0, 1, 1, 1, 1, 1, 0] no_lock) 1 = Holding"
  by (simp add: run_schedule_def client_step_def no_lock_def still_held_def readExistingLock_def)

end
