(* ===== verification/Apply_Gate.thy ===== *)
theory Apply_Gate
  imports Review_Store
begin

text \<open>
  The operator's apply (\<open>apps/api/src/services/safe-apply/apply-gate-service.ts\<close>): the eligibility of the
  review, the verified patch, the checks of the workspace, the two runs of \<open>git apply\<close> and the recording of
  the outcome, together with the probe the detail page uses.

  Git, the file system, the artifact and workspace tables, SHA-256 and the apply lock are parameters, in one
  record. Git answers a command from everything that was done before, so that no behaviour of it is excluded.
  The other clients of the review table act at numbered points, by an arbitrary function each. The messages
  of the errors, the execution events and the removal of the temporary patch file are not modelled.
\<close>

section \<open>The environment\<close>

record git_result =
  gr_ok :: bool
  gr_stdout :: string
  gr_stderr :: string
  gr_exitCode :: "int option"

text \<open>What a client does to the workspace, oldest first: commands with their standard input, patch files.\<close>

datatype work_act = RunGit "string list" "string option" | WritePatch string

type_synonym work_log = "work_act list"

datatype lock_outcome = LockGranted | LockBusy | LockError

record diff_row =
  dr_artifactType :: string
  dr_storageKind :: string
  dr_storageRef :: string

record apply_env =
  ae_git :: "work_log \<Rightarrow> string list \<Rightarrow> string option \<Rightarrow> git_result"
  ae_workspace :: "string \<Rightarrow> string option"
  ae_artifact :: "string \<Rightarrow> diff_row option"
  ae_readFile :: "string \<Rightarrow> string option"
  ae_sha256 :: "string \<Rightarrow> string"
  ae_patchWritable :: bool
  ae_patchPath :: string
  ae_lock :: "nat \<Rightarrow> lock_outcome"
  ae_others :: "nat \<Rightarrow> review_table \<Rightarrow> review_table"
  ae_now :: int

definition git_call :: "apply_env \<Rightarrow> work_log \<Rightarrow> string list \<Rightarrow> string option \<Rightarrow> git_result \<times> work_log" where
  "git_call env log args inp = (ae_git env log args inp, log @ [RunGit args inp])"

definition truthy_base :: "change_review \<Rightarrow> bool" where
  "truthy_base review = truthy_str (rv_baseRevision review)"

definition summarizeGitFailure :: "git_result \<Rightarrow> string" where
  "summarizeGitFailure r =
     (let stderr = js_trim (gr_stderr r); stdout = js_trim (gr_stdout r) in
      take 2000 (if stderr \<noteq> [] then stderr else if stdout \<noteq> [] then stdout
                 else ''git exited with code '' @
                   (case gr_exitCode r of None \<Rightarrow> ''unknown'' | Some c \<Rightarrow> show_int c)))"

section \<open>Paths\<close>

definition isInternalWorkspacePath :: "string \<Rightarrow> bool" where
  "isInternalWorkspacePath path =
     (path = ''.magister'' \<or> starts_with path ''.magister/'' \<or> path = ''.local'' \<or> starts_with path ''.local/'')"

definition status_letters :: string where
  "status_letters = '' MADRCU?!''"

definition isPorcelainStatusEntry :: "string \<Rightarrow> bool" where
  "isPorcelainStatusEntry entry =
     (\<not> (length entry < 4 \<or> entry ! 2 \<noteq> CHR '' '') \<and> entry ! 0 \<in> set status_letters
      \<and> entry ! 1 \<in> set status_letters)"

fun porcelain_paths :: "string list \<Rightarrow> string list" where
  "porcelain_paths [] = []"
| "porcelain_paths (entry # entries) =
     (if \<not> isPorcelainStatusEntry entry then entry # porcelain_paths entries
      else if CHR ''R'' \<in> set (take 2 entry) \<or> CHR ''C'' \<in> set (take 2 entry)
      then (case entries of
              [] \<Rightarrow> [drop 3 entry]
            | companion # rest \<Rightarrow> drop 3 entry # companion # porcelain_paths rest)
      else drop 3 entry # porcelain_paths entries)"

definition parsePorcelainStatusPaths :: "string \<Rightarrow> string list" where
  "parsePorcelainStatusPaths output =
     porcelain_paths (filter (\<lambda>e. e \<noteq> []) (js_split (CHR 0x00) output))"

fun patch_entry_paths :: "json list \<Rightarrow> string list" where
  "patch_entry_paths [] = []"
| "patch_entry_paths (j # js) =
     (case j of
        JStr p \<Rightarrow> p # patch_entry_paths js
      | JObj e \<Rightarrow> (case obj_get e ''path'' of Some (JStr p) \<Rightarrow> p # patch_entry_paths js
                                          | _ \<Rightarrow> patch_entry_paths js)
      | _ \<Rightarrow> patch_entry_paths js)"

text \<open>The set of paths, as the list of its elements.\<close>

definition extractPatchFilePaths :: "json_text \<Rightarrow> string list" where
  "extractPatchFilePaths changedFilesJson =
     (case changedFilesJson of
        Some (JArr es) \<Rightarrow> filter (\<lambda>p. p \<noteq> []) (patch_entry_paths es)
      | _ \<Rightarrow> [])"

section \<open>Checks\<close>

text \<open>The errors of the service by their classes and codes; \<open>GateReviewConflict\<close> is the
  conflict the repository raises, \<open>GateThrow\<close> any other exception.\<close>

datatype gate_error = GateNotFound | GateConflict string | GatePatch string | GateApplyFailed
  | GateReviewConflict | GateThrow

definition validateReviewEligibility :: "change_review \<Rightarrow> string \<Rightarrow> gate_error option" where
  "validateReviewEligibility review expectedDiffHash =
     (if rv_diffHash review \<noteq> expectedDiffHash then Some (GateConflict ''stale_diff_hash'')
      else if rv_decisionState review \<noteq> Approved then Some (GateConflict ''not_approved'')
      else if rv_applyState review = Applied then Some (GateConflict ''already_applied'')
      else if rv_applyState review = ApplyFailed then Some (GateConflict ''apply_failed'')
      else if rv_applyState review \<noteq> NotApplied then Some (GateConflict ''apply_state_invalid'')
      else if \<not> truthy_base review then Some (GateConflict ''base_revision_mismatch'')
      else None)"

definition readVerifiedPatchBytes :: "apply_env \<Rightarrow> change_review \<Rightarrow> gate_error + string" where
  "readVerifiedPatchBytes env review =
     (case ae_artifact env (rv_diffArtifactId review) of
        None \<Rightarrow> Inl (GatePatch ''patch_unreadable'')
      | Some artifact \<Rightarrow>
          if dr_artifactType artifact \<noteq> ''runtime_diff'' \<or> dr_storageKind artifact \<noteq> ''file''
          then Inl (GatePatch ''patch_unreadable'')
          else (case ae_readFile env (dr_storageRef artifact) of
                  None \<Rightarrow> Inl (GatePatch ''patch_unreadable'')
                | Some patchBytes \<Rightarrow>
                    if ae_sha256 env patchBytes \<noteq> rv_diffHash review
                    then Inl (GatePatch ''patch_hash_mismatch'')
                    else Inr patchBytes))"

definition rev_parse :: "string list" where "rev_parse = [''rev-parse'', ''HEAD'']"

definition git_status :: "string list" where
  "git_status = [''status'', ''--porcelain=v1'', ''-z'', ''--untracked-files=all'']"

definition apply_check :: "string \<Rightarrow> string list" where
  "apply_check path = [''apply'', ''--check'', ''--binary'', ''--whitespace=nowarn'', path]"

definition apply_real :: "string \<Rightarrow> string list" where
  "apply_real path = [''apply'', ''--binary'', ''--whitespace=nowarn'', path]"

definition assertWorkspaceAtBaseRevision ::
  "apply_env \<Rightarrow> string option \<Rightarrow> work_log \<Rightarrow> gate_error option \<times> work_log" where
  "assertWorkspaceAtBaseRevision env baseRevision log =
     (if \<not> truthy_str baseRevision then (Some (GateConflict ''base_revision_mismatch''), log)
      else case git_call env log rev_parse None of
             (head, log1) \<Rightarrow>
               (if \<not> gr_ok head then Some (GateConflict ''base_revision_unreadable'')
                else if Some (js_trim (gr_stdout head)) \<noteq> baseRevision
                then Some (GateConflict ''base_revision_mismatch'') else None, log1))"

text \<open>The dirty paths outside the service's own directories, or \<open>None\<close> when the status is unreadable.\<close>

definition getWorkspaceDirtyPaths :: "apply_env \<Rightarrow> work_log \<Rightarrow> string list option \<times> work_log" where
  "getWorkspaceDirtyPaths env log =
     (case git_call env log git_status None of
        (status, log1) \<Rightarrow>
          (if \<not> gr_ok status then None
           else Some (filter (\<lambda>p. \<not> isInternalWorkspacePath p)
                  (filter (\<lambda>p. length p > 0) (parsePorcelainStatusPaths (gr_stdout status)))), log1))"

text \<open>The dirty paths that stand in the way: those of the patch, or all when it names none.\<close>

definition conflicting_paths :: "string list \<Rightarrow> string list \<Rightarrow> string list" where
  "conflicting_paths patchFilePaths dirtyPaths =
     (if patchFilePaths \<noteq> [] then filter (\<lambda>p. p \<in> set patchFilePaths) dirtyPaths else dirtyPaths)"

definition assertWorkspaceClean ::
  "apply_env \<Rightarrow> string list \<Rightarrow> work_log \<Rightarrow> gate_error option \<times> work_log" where
  "assertWorkspaceClean env patchFilePaths log =
     (case getWorkspaceDirtyPaths env log of
        (None, log1) \<Rightarrow> (Some (GateConflict ''workspace_status_unreadable''), log1)
      | (Some dirtyPaths, log1) \<Rightarrow>
          (if dirtyPaths = [] then None
           else if conflicting_paths patchFilePaths dirtyPaths \<noteq> [] then Some (GateConflict ''workspace_dirty'')
           else None, log1))"

section \<open>The probe and the apply\<close>

datatype applicability = Applicable | NotApplicable string

definition computeChangeReviewApplicability ::
  "apply_env \<Rightarrow> work_log \<Rightarrow> string \<Rightarrow> review_table \<Rightarrow> (gate_error + applicability) \<times> work_log" where
  "computeChangeReviewApplicability env log reviewId t =
     (case select_by_id reviewId t of
        None \<Rightarrow> (Inl GateNotFound, log)
      | Some review \<Rightarrow>
         (case ae_workspace env (rv_workspaceId review) of
            None \<Rightarrow> (Inr (NotApplicable ''workspace_missing''), log)
          | Some path \<Rightarrow>
             if \<not> truthy_base review then (Inr (NotApplicable ''base_revision_missing''), log)
             else (case git_call env log rev_parse None of (head, log1) \<Rightarrow>
               if \<not> gr_ok head then (Inr (NotApplicable ''base_revision_unreadable''), log1)
               else if Some (js_trim (gr_stdout head)) \<noteq> rv_baseRevision review
               then (Inr (NotApplicable ''base_revision_mismatch''), log1)
               else (case getWorkspaceDirtyPaths env log1 of
                 (None, log2) \<Rightarrow> (Inr (NotApplicable ''workspace_status_unreadable''), log2)
               | (Some dirtyPaths, log2) \<Rightarrow>
                   if dirtyPaths \<noteq> []
                      \<and> conflicting_paths (extractPatchFilePaths (rv_changedFilesJson review)) dirtyPaths \<noteq> []
                   then (Inr (NotApplicable ''workspace_dirty''), log2)
                   else (case readVerifiedPatchBytes env review of
                     Inl (GatePatch code) \<Rightarrow>
                       (Inr (NotApplicable (if code = ''patch_hash_mismatch'' then code else ''patch_unreadable'')),
                        log2)
                   | Inl e \<Rightarrow> (Inl e, log2)
                   | Inr patchBytes \<Rightarrow>
                       (case git_call env log2 (apply_check ''-'') (Some patchBytes) of (check, log3) \<Rightarrow>
                          (Inr (if \<not> gr_ok check then NotApplicable ''patch_check_failed'' else Applicable),
                           log3)))))))"

text \<open>The two runs of git on the written patch, and the recording of their outcome.\<close>

definition apply_and_record ::
  "apply_env \<Rightarrow> change_review \<Rightarrow> string \<Rightarrow> string \<Rightarrow> work_log \<Rightarrow> review_table
     \<Rightarrow> (gate_error + change_review) \<times> review_table \<times> work_log" where
  "apply_and_record env review expectedDiffHash patchBytes log t =
     (if \<not> ae_patchWritable env then (Inl GateThrow, t, log)
      else case git_call env (log @ [WritePatch patchBytes]) (apply_check (ae_patchPath env)) None of (check, log1) \<Rightarrow>
        if \<not> gr_ok check then (Inl (GatePatch ''patch_check_failed''), t, log1)
        else case git_call env log1 (apply_real (ae_patchPath env)) None of (applied, log2) \<Rightarrow>
          let t2 = ae_others env 2 t in
          if \<not> gr_ok applied
          then (Inl GateApplyFailed, snd (recordApplyFailure (ae_now env) (rv_id review) expectedDiffHash t2), log2)
          else (case recordApplySuccess (ae_now env) (rv_id review) expectedDiffHash t2 of
                  (Inl NotFound, t3) \<Rightarrow> (Inl GateNotFound, t3, log2)
                | (Inl Conflict, t3) \<Rightarrow> (Inl GateReviewConflict, t3, log2)
                | (Inl e, t3) \<Rightarrow> (Inl GateThrow, t3, log2)
                | (Inr recorded, t3) \<Rightarrow> (Inr recorded, t3, log2)))"

definition locked_apply ::
  "apply_env \<Rightarrow> string \<Rightarrow> string \<Rightarrow> review_table \<Rightarrow> (gate_error + change_review) \<times> review_table \<times> work_log" where
  "locked_apply env reviewId expectedDiffHash t =
     (case select_by_id reviewId t of
        None \<Rightarrow> (Inl GateNotFound, t, [])
      | Some review \<Rightarrow>
         (case validateReviewEligibility review expectedDiffHash of
            Some e \<Rightarrow> (Inl e, t, [])
          | None \<Rightarrow>
             (case readVerifiedPatchBytes env review of
                Inl e \<Rightarrow> (Inl e, t, [])
              | Inr patchBytes \<Rightarrow>
                 (case assertWorkspaceAtBaseRevision env (rv_baseRevision review) [] of
                    (Some e, log1) \<Rightarrow> (Inl e, t, log1)
                  | (None, log1) \<Rightarrow>
                     (case assertWorkspaceClean env (extractPatchFilePaths (rv_changedFilesJson review)) log1 of
                        (Some e, log2) \<Rightarrow> (Inl e, t, log2)
                      | (None, log2) \<Rightarrow> apply_and_record env review expectedDiffHash patchBytes log2 t)))))"

definition applyChangeReview ::
  "apply_env \<Rightarrow> string \<Rightarrow> string \<Rightarrow> review_table \<Rightarrow> (gate_error + change_review) \<times> review_table \<times> work_log" where
  "applyChangeReview env reviewId expectedDiffHash t =
     (case select_by_id reviewId t of
        None \<Rightarrow> (Inl GateNotFound, t, [])
      | Some firstRead \<Rightarrow>
         (case ae_workspace env (rv_workspaceId firstRead) of
            None \<Rightarrow> (Inl (GateConflict ''workspace_missing''), t, [])
          | Some path \<Rightarrow>
             (case ae_lock env 0 of
                LockBusy \<Rightarrow> (Inl (GateConflict ''apply_lock_busy''), t, [])
              | LockError \<Rightarrow> (Inl GateThrow, t, [])
              | LockGranted \<Rightarrow> locked_apply env reviewId expectedDiffHash (ae_others env 1 t))))"

section \<open>What the status of the workspace says\<close>

text \<open>An entry of \<open>git status --porcelain=v1 -z\<close>: its two letters, its path and the old path of a rename or copy.\<close>

record status_entry =
  se_x :: char
  se_y :: char
  se_path :: string
  se_old :: "string option"

definition moved :: "status_entry \<Rightarrow> bool" where
  "moved e \<longleftrightarrow> se_x e \<in> {CHR ''R'', CHR ''C''} \<or> se_y e \<in> {CHR ''R'', CHR ''C''}"

definition entry_ok :: "status_entry \<Rightarrow> bool" where
  "entry_ok e \<longleftrightarrow> se_x e \<in> set status_letters \<and> se_y e \<in> set status_letters
     \<and> se_path e \<noteq> [] \<and> CHR 0x00 \<notin> set (se_path e)
     \<and> (case se_old e of None \<Rightarrow> \<not> moved e | Some old \<Rightarrow> moved e \<and> old \<noteq> [] \<and> CHR 0x00 \<notin> set old)"

definition entry_pieces :: "status_entry \<Rightarrow> string list" where
  "entry_pieces e = (se_x e # se_y e # CHR '' '' # se_path e)
     # (case se_old e of None \<Rightarrow> [] | Some old \<Rightarrow> [old])"

definition entry_files :: "status_entry \<Rightarrow> string list" where
  "entry_files e = se_path e # (case se_old e of None \<Rightarrow> [] | Some old \<Rightarrow> [old])"

definition render_status :: "status_entry list \<Rightarrow> string" where
  "render_status es = concat (map (\<lambda>p. p @ [CHR 0x00]) (concat (map entry_pieces es)))"

lemma status_entry_shape [simp]: "isPorcelainStatusEntry (x # y # CHR '' '' # p) \<longleftrightarrow>
    x \<in> set status_letters \<and> y \<in> set status_letters \<and> p \<noteq> []"
  by (cases p) (auto simp: isPorcelainStatusEntry_def)

lemma porcelain_entry: "entry_ok e \<Longrightarrow> porcelain_paths (entry_pieces e @ ps) = entry_files e @ porcelain_paths ps"
proof (cases "se_old e")
  case None
  moreover assume "entry_ok e"
  ultimately show ?thesis
    by (simp add: entry_ok_def entry_pieces_def entry_files_def moved_def
      eq_commute [of "CHR ''R''"] eq_commute [of "CHR ''C''"])
next
  case (Some old)
  moreover assume "entry_ok e"
  ultimately show ?thesis
    by (simp add: entry_ok_def entry_pieces_def entry_files_def moved_def
      eq_commute [of "CHR ''R''"] eq_commute [of "CHR ''C''"]) blast
qed

lemma entry_pieces_ok: "entry_ok e \<Longrightarrow> p \<in> set (entry_pieces e) \<Longrightarrow> p \<noteq> [] \<and> CHR 0x00 \<notin> set p"
  by (auto simp: entry_ok_def entry_pieces_def status_letters_def split: option.splits)

text \<open>
  The paths read from the status of a workspace are exactly the paths its entries name, the old path of
  every rename and copy included.
\<close>
theorem porcelain_paths_exact:
  assumes "\<forall>e\<in>set es. entry_ok e"
  shows "parsePorcelainStatusPaths (render_status es) = concat (map entry_files es)"
proof -
  have "\<forall>p\<in>set (concat (map entry_pieces es)). p \<noteq> [] \<and> CHR 0x00 \<notin> set p"
    using assms entry_pieces_ok by auto
  then have "filter (\<lambda>e. e \<noteq> []) (js_split (CHR 0x00) (render_status es)) = concat (map entry_pieces es)"
    unfolding render_status_def by (subst js_split_terminated) auto
  moreover have "porcelain_paths (concat (map entry_pieces es)) = concat (map entry_files es)"
    using assms by (induction es) (simp_all add: porcelain_entry)
  ultimately show ?thesis by (simp add: parsePorcelainStatusPaths_def)
qed

theorem porcelain_paths_exact_witness:
  "parsePorcelainStatusPaths (render_status
     [\<lparr>se_x = CHR ''R'', se_y = CHR '' '', se_path = ''new'', se_old = Some ''old''\<rparr>,
      \<lparr>se_x = CHR '' '', se_y = CHR ''M'', se_path = ''a b'', se_old = None\<rparr>]) = [''new'', ''old'', ''a b'']"
  by (subst porcelain_paths_exact)
    (simp_all add: entry_ok_def moved_def status_letters_def entry_files_def)

text \<open>
  A file whose type changed is not seen as itself: git marks it with the letter T, which the parser does
  not know, so the whole entry is taken for a path, and a patch of that file meets no conflict.
\<close>
theorem type_change_is_missed:
  "parsePorcelainStatusPaths ('' T link'' @ [CHR 0x00]) = ['' T link'']
   \<and> conflicting_paths [''link''] (parsePorcelainStatusPaths ('' T link'' @ [CHR 0x00])) = []"
  by (simp add: parsePorcelainStatusPaths_def js_split_def isPorcelainStatusEntry_def status_letters_def
    conflicting_paths_def)

section \<open>What an apply establishes\<close>

lemma recordApplySuccess_result:
  "recordApplySuccess now i h t = (Inr r, t') \<Longrightarrow> select_by_id i t' = Some r \<and> rv_applyState r = Applied"
  by (auto simp: recordApplySuccess_def record_apply_def split: option.splits prod.splits if_splits)

lemma recordApplySuccess_error: "recordApplySuccess now i h t = (Inl e, t') \<Longrightarrow> t' = t"
  by (auto simp: recordApplySuccess_def record_apply_def split: option.splits prod.splits if_splits)

lemma eligible:
  "validateReviewEligibility review h = None \<longleftrightarrow> rv_diffHash review = h \<and> rv_decisionState review = Approved
     \<and> rv_applyState review = NotApplied \<and> truthy_base review"
  by (auto simp: validateReviewEligibility_def)

lemma at_base:
  "assertWorkspaceAtBaseRevision env base log = (None, log1) \<Longrightarrow>
     gr_ok (ae_git env log rev_parse None) \<and> Some (js_trim (gr_stdout (ae_git env log rev_parse None))) = base
     \<and> log1 = log @ [RunGit rev_parse None]"
  by (auto simp: assertWorkspaceAtBaseRevision_def git_call_def split: if_splits)

lemma no_conflict [simp]: "conflicting_paths files [] = []"
  by (simp add: conflicting_paths_def)

lemma is_clean:
  assumes "assertWorkspaceClean env files log = (None, log1)"
  shows "gr_ok (ae_git env log git_status None) \<and> log1 = log @ [RunGit git_status None]
     \<and> (\<exists>dirty. fst (getWorkspaceDirtyPaths env log) = Some dirty \<and> conflicting_paths files dirty = [])"
proof -
  let ?x = "fst (getWorkspaceDirtyPaths env log)"
  have x: "getWorkspaceDirtyPaths env log = (?x, log @ [RunGit git_status None])"
    by (simp add: getWorkspaceDirtyPaths_def git_call_def)
  have ok: "gr_ok (ae_git env log git_status None)" if "?x = Some d" for d
    using that by (auto simp: getWorkspaceDirtyPaths_def git_call_def split: if_splits)
  have "(case ?x of None \<Rightarrow> False | Some d \<Rightarrow> conflicting_paths files d = []) \<and> log1 = log @ [RunGit git_status None]"
    using assms unfolding assertWorkspaceClean_def by (subst (asm) x) (auto split: option.splits if_splits)
  then show ?thesis using ok by (auto split: option.splits)
qed

lemma verified_bytes: "readVerifiedPatchBytes env review = Inr bytes \<Longrightarrow> ae_sha256 env bytes = rv_diffHash review"
  by (auto simp: readVerifiedPatchBytes_def split: option.splits if_splits)

lemma apply_and_record_success:
  assumes "apply_and_record env review h bytes log t = (Inr r, t', log')"
  shows "gr_ok (ae_git env (log @ [WritePatch bytes]) (apply_check (ae_patchPath env)) None)
    \<and> gr_ok (ae_git env (log @ [WritePatch bytes, RunGit (apply_check (ae_patchPath env)) None])
         (apply_real (ae_patchPath env)) None)
    \<and> log' = log @ [WritePatch bytes, RunGit (apply_check (ae_patchPath env)) None,
                    RunGit (apply_real (ae_patchPath env)) None]
    \<and> select_by_id (rv_id review) t' = Some r \<and> rv_applyState r = Applied"
  using assms
  by (auto simp: apply_and_record_def git_call_def Let_def dest!: recordApplySuccess_result
    split: if_splits prod.splits sum.splits review_error.splits)

lemma locked_apply_success:
  assumes "locked_apply env i h t = (Inr r, t', log)"
  obtains review bytes log1 log2 where "select_by_id i t = Some review"
    "validateReviewEligibility review h = None" "readVerifiedPatchBytes env review = Inr bytes"
    "assertWorkspaceAtBaseRevision env (rv_baseRevision review) [] = (None, log1)"
    "assertWorkspaceClean env (extractPatchFilePaths (rv_changedFilesJson review)) log1 = (None, log2)"
    "apply_and_record env review h bytes log2 t = (Inr r, t', log)"
  using assms by (auto simp: locked_apply_def split: option.splits sum.splits prod.splits)

text \<open>
  C4: When the operator's apply succeeds, the review it read under the lock was approved, not yet applied and
  had the expected hash; the patch on disk has that hash; the head of the workspace was the base revision
  of the review and no local change stood in the way; the patch was written, checked and applied, in
  this order and each with success; and the review is now recorded as applied.
\<close>
theorem gate_success:
  assumes "applyChangeReview env i h t = (Inr r, t', log)"
  shows "\<exists>review bytes dirty path. select_by_id i (ae_others env 1 t) = Some review
    \<and> rv_decisionState review = Approved \<and> rv_applyState review = NotApplied \<and> rv_diffHash review = h
    \<and> ae_sha256 env bytes = h \<and> path = ae_patchPath env
    \<and> log = [RunGit rev_parse None, RunGit git_status None, WritePatch bytes, RunGit (apply_check path) None,
             RunGit (apply_real path) None]
    \<and> (\<forall>n < 5. n \<noteq> 2 \<longrightarrow> (case log ! n of RunGit args inp \<Rightarrow> gr_ok (ae_git env (take n log) args inp)
                                     | WritePatch b \<Rightarrow> False))
    \<and> Some (js_trim (gr_stdout (ae_git env [] rev_parse None))) = rv_baseRevision review
    \<and> fst (getWorkspaceDirtyPaths env [RunGit rev_parse None]) = Some dirty
    \<and> conflicting_paths (extractPatchFilePaths (rv_changedFilesJson review)) dirty = []
    \<and> select_by_id i t' = Some r \<and> rv_applyState r = Applied"
proof -
  have "locked_apply env i h (ae_others env 1 t) = (Inr r, t', log)"
    using assms by (auto simp: applyChangeReview_def split: option.splits lock_outcome.splits)
  then obtain review bytes log1 log2 where run: "select_by_id i (ae_others env 1 t) = Some review"
    "validateReviewEligibility review h = None" "readVerifiedPatchBytes env review = Inr bytes"
    "assertWorkspaceAtBaseRevision env (rv_baseRevision review) [] = (None, log1)"
    "assertWorkspaceClean env (extractPatchFilePaths (rv_changedFilesJson review)) log1 = (None, log2)"
    "apply_and_record env review h bytes log2 (ae_others env 1 t) = (Inr r, t', log)"
    by (rule locked_apply_success)
  have base: "gr_ok (ae_git env [] rev_parse None)" "log1 = [RunGit rev_parse None]"
    "Some (js_trim (gr_stdout (ae_git env [] rev_parse None))) = rv_baseRevision review"
    using at_base [OF run(4)] by simp_all
  then obtain dirty where clean: "gr_ok (ae_git env log1 git_status None)" "log2 = log1 @ [RunGit git_status None]"
    "fst (getWorkspaceDirtyPaths env log1) = Some dirty"
    "conflicting_paths (extractPatchFilePaths (rv_changedFilesJson review)) dirty = []"
    using is_clean [OF run(5)] by blast
  note rec = apply_and_record_success [OF run(6)]
  have id: "rv_id review = i" using select_by_id_mem [OF run(1)] by simp
  have nums: "(\<forall>n < 5. n \<noteq> 2 \<longrightarrow> P n) \<longleftrightarrow> P 0 \<and> P 1 \<and> P 3 \<and> P (4 :: nat)" for P
    by (auto simp: less_Suc_eq numeral_eq_Suc)
  show ?thesis
    unfolding nums
    using run(1,2) verified_bytes [OF run(3)] base clean rec id by (auto simp: eligible)
qed

text \<open>
  An apply that fails with anything but a failed run of git changes no row: the table is as the other
  clients left it. When git had already applied the patch, the failure is one of recording the outcome.
\<close>
theorem gate_failure_inert:
  assumes "applyChangeReview env i h t = (Inl e, t', log)" and "e \<noteq> GateApplyFailed"
  shows "t' \<in> {t, ae_others env 1 t, ae_others env 2 (ae_others env 1 t)}
    \<and> (RunGit (apply_real (ae_patchPath env)) None \<in> set log \<longrightarrow> e \<in> {GateReviewConflict, GateNotFound, GateThrow})"
proof -
  let ?t1 = "ae_others env 1 t"
  have base_log: "RunGit (apply_real p) None \<notin> set log1"
    if "assertWorkspaceAtBaseRevision env b [] = (x, log1)" for x b log1 p
    using that by (auto simp: assertWorkspaceAtBaseRevision_def git_call_def rev_parse_def apply_real_def
      split: if_splits)
  have clean_log: "RunGit (apply_real p) None \<in> set log2 \<Longrightarrow> RunGit (apply_real p) None \<in> set log1"
    if "assertWorkspaceClean env fs log1 = (x, log2)" for x fs log1 log2 p
    using that by (auto simp: assertWorkspaceClean_def getWorkspaceDirtyPaths_def git_call_def git_status_def
      apply_real_def split: if_splits)
  have rec: "t'' \<in> {?t1, ae_others env 2 ?t1} \<and> (RunGit (apply_real (ae_patchPath env)) None \<in> set log''
      \<longrightarrow> e' \<in> {GateReviewConflict, GateNotFound, GateThrow})"
    if "apply_and_record env review h bytes log2 ?t1 = (Inl e', t'', log'')" "e' \<noteq> GateApplyFailed"
      "RunGit (apply_real (ae_patchPath env)) None \<notin> set log2" for review bytes log2 e' t'' log''
    using that
    by (auto simp: apply_and_record_def git_call_def Let_def apply_real_def apply_check_def
      dest!: recordApplySuccess_error split: if_splits prod.splits sum.splits review_error.splits)
  show ?thesis
  proof (cases "locked_apply env i h ?t1 = (Inl e, t', log)")
    case True
    then show ?thesis
      unfolding locked_apply_def
      using base_log clean_log rec [OF _ assms(2)]
      by (auto split: option.splits sum.splits prod.splits; fastforce)
  next
    case False
    then show ?thesis
      using assms(1) by (auto simp: applyChangeReview_def split: option.splits lock_outcome.splits)
  qed
qed

section \<open>Concrete runs\<close>

text \<open>A workspace at revision \<open>base\<close> in which git succeeds and shows the patched file as changed.\<close>

definition demo_git :: "work_log \<Rightarrow> string list \<Rightarrow> string option \<Rightarrow> git_result" where
  "demo_git log args inp = \<lparr>gr_ok = True,
     gr_stdout = (if args = rev_parse then ''base''
                  else if args = git_status \<and> RunGit (apply_real ''p'') None \<in> set log
                  then '' M f.txt'' @ [CHR 0x00] else []),
     gr_stderr = [], gr_exitCode = Some 0\<rparr>"

definition demo_env :: apply_env where
  "demo_env = \<lparr>ae_git = demo_git, ae_workspace = (\<lambda>w. Some ''/w''),
     ae_artifact = (\<lambda>a. Some \<lparr>dr_artifactType = ''runtime_diff'', dr_storageKind = ''file'', dr_storageRef = ''ref''\<rparr>),
     ae_readFile = (\<lambda>p. Some ''bytes''), ae_sha256 = (\<lambda>b. if b = ''bytes'' then ''h1'' else ''h2''),
     ae_patchWritable = True, ae_patchPath = ''p'', ae_lock = (\<lambda>n. LockGranted),
     ae_others = (\<lambda>n t. t), ae_now = 9\<rparr>"

definition demo_approved :: review_table where
  "demo_approved = [(new_row ''x'' 5 demo_input)\<lparr>rv_decisionState := Approved\<rparr>]"

definition demo_applied :: change_review where
  "demo_applied = (new_row ''x'' 5 demo_input)\<lparr>rv_decisionState := Approved, rv_applyState := Applied,
     rv_appliedAt := Some 9, rv_updatedAt := 9\<rparr>"

lemmas gate_run_defs = demo_approved_def demo_env_def demo_applied_def demo_input_def new_row_def default_to_def
  select_by_id_def applyChangeReview_def locked_apply_def apply_and_record_def validateReviewEligibility_def
  truthy_base_def readVerifiedPatchBytes_def assertWorkspaceAtBaseRevision_def assertWorkspaceClean_def
  getWorkspaceDirtyPaths_def git_call_def recordApplySuccess_def record_apply_def update_where_def Let_def

lemma demo_git_simps [simp]:
  "gr_ok (demo_git log args inp)" "gr_stdout (demo_git log rev_parse inp) = ''base''"
  "RunGit (apply_real ''p'') None \<notin> set log \<Longrightarrow> gr_stdout (demo_git log git_status inp) = []"
  by (simp_all add: demo_git_def rev_parse_def git_status_def)

lemma small_facts [simp]:
  "js_trim ''base'' = ''base''" "parsePorcelainStatusPaths [] = []"
  "apply_real p \<noteq> rev_parse" "extractPatchFilePaths (Some (JArr [])) = []"
  by (simp_all add: js_trim_id is_ws_def parsePorcelainStatusPaths_def js_split_def apply_real_def rev_parse_def
    extractPatchFilePaths_def)

lemma demo_apply: "\<exists>log. applyChangeReview demo_env ''r1'' ''h1'' demo_approved = (Inr demo_applied, [demo_applied], log)"
  by (simp add: gate_run_defs)

theorem gate_success_witness:
  "\<exists>t. select_by_id ''r1'' t = Some demo_applied"
proof -
  obtain log where "applyChangeReview demo_env ''r1'' ''h1'' demo_approved = (Inr demo_applied, [demo_applied], log)"
    using demo_apply by blast
  from gate_success [OF this] show ?thesis by blast
qed

theorem gate_failure_inert_witness:
  "snd (applyChangeReview demo_env ''r1'' ''h9'' demo_approved) = (demo_approved, [])"
proof -
  have run: "applyChangeReview demo_env ''r1'' ''h9'' demo_approved
      = (Inl (GateConflict ''stale_diff_hash''), demo_approved, [])"
    by (simp add: gate_run_defs)
  from gate_failure_inert [OF this] show ?thesis using run by simp
qed

text \<open>
  The same workspace, in which the operator discards the review while the patch is being applied. The
  discard does not take the lock, and its probe finds the review inapplicable just because the patch
  is already there.
\<close>

definition probe_during_apply :: "review_table \<Rightarrow> bool" where
  "probe_during_apply t =
     (fst (computeChangeReviewApplicability demo_env [RunGit (apply_real ''p'') None] ''r1'' t) = Inr Applicable)"

definition racing_env :: apply_env where
  "racing_env = demo_env\<lparr>ae_others := (\<lambda>n t. if n = 2
     then snd (discardReview (probe_during_apply t) 8 ''r1'' ''superseded'' None t) else t)\<rparr>"

text \<open>
  The operator's discard can overtake the operator's apply: git has applied the patch, but the apply
  reports a conflict, and the review ends as superseded and not applied.
\<close>
theorem discard_overtakes_apply:
  "case applyChangeReview racing_env ''r1'' ''h1'' demo_approved of
     (res, t', log) \<Rightarrow> res = Inl GateReviewConflict \<and> RunGit (apply_real ''p'') None \<in> set log
       \<and> map rv_decisionState t' = [Superseded] \<and> map rv_applyState t' = [NotApplied]"
proof -
  have "\<not> probe_during_apply demo_approved"
    by (simp add: probe_during_apply_def computeChangeReviewApplicability_def gate_run_defs demo_git_def
      parsePorcelainStatusPaths_def js_split_def isPorcelainStatusEntry_def status_letters_def
      isInternalWorkspacePath_def conflicting_paths_def)
  then show ?thesis
    by (simp add: racing_env_def discardReview_def gate_run_defs)
qed

end
