(* ===== verification/Leader_Apply.thy ===== *)
theory Leader_Apply
  imports Apply_Gate
begin

text \<open>
  The leader's apply (\<open>applyChangeReviewAsLeader\<close> of
  \<open>apps/api/src/services/safe-apply/leader-apply-service.ts\<close>): the gate on the reviewer's verdict, the claim
  of the slot, the lock with its retries, the checks of the workspace, the patch, its commit, and the final
  write. Every path of the code after the claim ends with at most one write to the slot, which is a value
  here and is carried out at the end.

  The environment is that of the operator's apply, with the stored verdicts. The validation of a verdict
  body by the schema library is a parameter. Messages for the caller, events and the waiting between
  the attempts are not modelled; what is written to the row is.
\<close>

section \<open>Inputs and results\<close>

datatype verdict_kind = VerdictApprove | VerdictRequestChanges | VerdictReject

datatype verdict_confidence = ConfidenceHigh | ConfidenceMedium | ConfidenceLow

record reviewer_verdict =
  vd_verdict :: verdict_kind
  vd_confidence :: verdict_confidence

fun verdict_name :: "verdict_kind \<Rightarrow> string" where
  "verdict_name VerdictApprove = ''APPROVE''"
| "verdict_name VerdictRequestChanges = ''REQUEST_CHANGES''"
| "verdict_name VerdictReject = ''REJECT''"

fun confidence_name :: "verdict_confidence \<Rightarrow> string" where
  "confidence_name ConfidenceHigh = ''high''"
| "confidence_name ConfidenceMedium = ''medium''"
| "confidence_name ConfidenceLow = ''low''"

record leader_env = apply_env +
  le_readJson :: "string \<Rightarrow> json_text"
  le_schema :: "json \<Rightarrow> reviewer_verdict option"

record leader_input =
  li_reviewId :: string
  li_reasoning :: string
  li_expectedDiffHash :: string
  li_expectedWorkspaceHead :: "string option"
  li_decidedBy :: string

datatype leader_code =
    LNotFound | LVerdictRequired | LVerdictInsufficient | LRaceLost | LLockBusy | LHeadDrift
  | LBaseRevisionMismatch | LWorkspaceDirty | LPatchCheckFailed | LApplyFailed | LCommitFailed
  | LPartiallyApplied | LWorkspaceMissing | LDiffUnreadable

text \<open>The commit and the warnings, a failure, or an exception.\<close>

datatype leader_result = LeaderOk string "string list" | LeaderFail leader_code | LeaderThrow

text \<open>The write to the slot with which the code leaves.\<close>

datatype slot_end = SlotRevert | SlotFailed string | SlotPartial string | SlotFinish string | SlotUntouched

definition leader_summary :: "git_result \<Rightarrow> string" where
  "leader_summary r =
     (let stderr = js_trim (gr_stderr r) in
      if length stderr > 0 then take 500 stderr
      else ''git exited with code '' @ (case gr_exitCode r of None \<Rightarrow> ''null'' | Some c \<Rightarrow> show_int c))"

section \<open>Before the lock\<close>

definition getReviewerVerdictForReview ::
  "'a leader_env_scheme \<Rightarrow> string \<Rightarrow> review_table \<Rightarrow> reviewer_verdict option" where
  "getReviewerVerdictForReview env reviewId t =
     (case select_by_id reviewId t of
        None \<Rightarrow> None
      | Some review \<Rightarrow>
         (case rv_reviewerVerdictArtifactId review of
            None \<Rightarrow> None
          | Some artifactId \<Rightarrow>
             if artifactId = [] then None
             else (case ae_artifact env artifactId of
                     None \<Rightarrow> None
                   | Some artifact \<Rightarrow>
                       if dr_artifactType artifact \<noteq> ''reviewer_verdict_v1'' then None
                       else (case le_readJson env (dr_storageRef artifact) of
                               None \<Rightarrow> None
                             | Some parsed \<Rightarrow> le_schema env parsed))))"

text \<open>Step 1. The verdict is read after the row; other clients may act in between.\<close>

definition verdict_gate ::
  "'a leader_env_scheme \<Rightarrow> leader_input \<Rightarrow> review_table \<Rightarrow> leader_code + (change_review \<times> reviewer_verdict)" where
  "verdict_gate env inp t =
     (case select_by_id (li_reviewId inp) t of
        None \<Rightarrow> Inl LNotFound
      | Some review \<Rightarrow>
          if rv_diffHash review \<noteq> li_expectedDiffHash inp then Inl LRaceLost
          else if rv_assignee review \<noteq> AssignedLeader then Inl LRaceLost
          else if \<not> truthy_str (rv_reviewerVerdictArtifactId review) then Inl LVerdictRequired
          else (case getReviewerVerdictForReview env (rv_id review) (ae_others env 1 t) of
                  None \<Rightarrow> Inl LVerdictRequired
                | Some verdict \<Rightarrow>
                    if vd_verdict verdict \<noteq> VerdictApprove \<or> vd_confidence verdict \<noteq> ConfidenceHigh
                    then Inl LVerdictInsufficient
                    else Inr (review, verdict)))"

definition LOCK_RETRY_DELAYS_MS :: "nat list" where
  "LOCK_RETRY_DELAYS_MS = [5000, 15000, 30000]"

text \<open>Step 3: one attempt more than there are delays.\<close>

fun lock_retry :: "(nat \<Rightarrow> lock_outcome) \<Rightarrow> nat \<Rightarrow> nat list \<Rightarrow> lock_outcome" where
  "lock_retry acquire attempt delays =
     (case acquire attempt of
        LockGranted \<Rightarrow> LockGranted
      | LockError \<Rightarrow> LockError
      | LockBusy \<Rightarrow> (case delays of [] \<Rightarrow> LockBusy | delay # rest \<Rightarrow> lock_retry acquire (attempt + 1) rest))"

declare lock_retry.simps [simp del]

section \<open>Under the lock\<close>

definition parseChangedFilePaths :: "json_text \<Rightarrow> string list" where
  "parseChangedFilePaths json =
     (case json of Some (JArr es) \<Rightarrow> filter (\<lambda>p. length p > 0) (patch_entry_paths es) | _ \<Rightarrow> [])"

text \<open>Steps 4 and 5: the head against the one the caller expects, and against the base revision.\<close>

definition head_check ::
  "'a leader_env_scheme \<Rightarrow> string option \<Rightarrow> leader_code \<Rightarrow> work_log \<Rightarrow> leader_code option \<times> work_log" where
  "head_check env expected code log =
     (if \<not> truthy_str expected then (None, log)
      else (let head = ae_git env log rev_parse None in
            (if \<not> gr_ok head then Some LHeadDrift
             else if Some (js_trim (gr_stdout head)) \<noteq> expected then Some code else None,
             log @ [RunGit rev_parse None])))"

text \<open>Step 6.\<close>

definition clean_check ::
  "'a leader_env_scheme \<Rightarrow> change_review \<Rightarrow> work_log \<Rightarrow> leader_code option \<times> work_log" where
  "clean_check env review log =
     (let status = ae_git env log git_status None;
          dirtyPaths = filter (\<lambda>p. length p > 0 \<and> \<not> isInternalWorkspacePath p)
            (parsePorcelainStatusPaths (gr_stdout status))
      in (if \<not> gr_ok status then Some LWorkspaceDirty
          else if dirtyPaths \<noteq> []
            \<and> conflicting_paths (parseChangedFilePaths (rv_changedFilesJson review)) dirtyPaths \<noteq> []
          then Some LWorkspaceDirty else None,
          log @ [RunGit git_status None]))"

definition apply_reverse :: "string \<Rightarrow> string list" where
  "apply_reverse path = [''apply'', ''-R'', ''--binary'', ''--whitespace=nowarn'', path]"

definition stage_args :: "change_review \<Rightarrow> string list" where
  "stage_args review = [''add'', ''--all'', ''--''] @ parseChangedFilePaths (rv_changedFilesJson review)"

text \<open>
  The command of the commit. The last paragraph starts with an emoji in the code, which the strings here
  cannot hold; it is left out.
\<close>

definition commit_args :: "leader_input \<Rightarrow> change_review \<Rightarrow> reviewer_verdict \<Rightarrow> string list" where
  "commit_args inp review verdict =
     [''-c'', ''user.email=magister-leader@local'', ''-c'', ''user.name=Magister Leader'', ''commit'',
      ''-m'', ''leader-applied change_review '' @ rv_id review, ''-m'', [],
      ''-m'', take 500 (li_reasoning inp), ''-m'', [],
      ''-m'', ''review-id: '' @ rv_id review, ''-m'', ''decided-by: '' @ li_decidedBy inp,
      ''-m'', ''reviewer-verdict: '' @ verdict_name (vd_verdict verdict) @ ''/''
        @ confidence_name (vd_confidence verdict),
      ''-m'', [], ''-m'', '' Auto-applied by Magister Leader'']"

text \<open>Undoing the patch after a failure; when that fails too, the tree is left dirty.\<close>

definition undo_patch ::
  "'a leader_env_scheme \<Rightarrow> leader_code \<Rightarrow> string \<Rightarrow> (git_result \<Rightarrow> string) \<Rightarrow> work_log
     \<Rightarrow> leader_result \<times> slot_end \<times> work_log" where
  "undo_patch env code reason partial_reason log =
     (let args = apply_reverse (ae_patchPath env); reverse = ae_git env log args None in
      if gr_ok reverse then (LeaderFail code, SlotFailed reason, log @ [RunGit args None])
      else (LeaderFail LPartiallyApplied, SlotPartial (partial_reason reverse), log @ [RunGit args None]))"

text \<open>Steps 9 and 10; the warnings of step 11 are added by the caller.\<close>

definition stage_and_commit ::
  "'a leader_env_scheme \<Rightarrow> leader_input \<Rightarrow> change_review \<Rightarrow> reviewer_verdict \<Rightarrow> work_log
     \<Rightarrow> leader_result \<times> slot_end \<times> work_log" where
  "stage_and_commit env inp review verdict log =
     (let stage = ae_git env log (stage_args review) None; log1 = log @ [RunGit (stage_args review) None] in
      if \<not> gr_ok stage then
        undo_patch env LApplyFailed (''stage_failed: '' @ leader_summary stage)
          (\<lambda>r. ''stage_failed + reverse_failed'') log1
      else
        let args = commit_args inp review verdict;
            commit = ae_git env log1 args None; log2 = log1 @ [RunGit args None]
        in if \<not> gr_ok commit then
             undo_patch env LCommitFailed (''commit_failed: '' @ leader_summary commit)
               (\<lambda>r. ''commit_failed + reverse_failed: commit='' @ leader_summary commit
                      @ ''; reverse='' @ leader_summary r) log2
           else
             let sha = ae_git env log2 rev_parse None;
                 commitSha = (if gr_ok sha then js_trim (gr_stdout sha) else [])
             in (LeaderOk commitSha [], SlotFinish commitSha, log2 @ [RunGit rev_parse None]))"

text \<open>Steps 7 and 8.\<close>

definition patch_and_commit ::
  "'a leader_env_scheme \<Rightarrow> leader_input \<Rightarrow> change_review \<Rightarrow> reviewer_verdict \<Rightarrow> work_log
     \<Rightarrow> leader_result \<times> slot_end \<times> work_log" where
  "patch_and_commit env inp review verdict log =
     (case ae_artifact env (rv_diffArtifactId review) of
        None \<Rightarrow> (LeaderFail LDiffUnreadable, SlotRevert, log)
      | Some artifact \<Rightarrow>
         (case ae_readFile env (dr_storageRef artifact) of
            None \<Rightarrow> (LeaderFail LDiffUnreadable, SlotRevert, log)
          | Some patchBytes \<Rightarrow>
             if \<not> ae_patchWritable env then (LeaderThrow, SlotUntouched, log)
             else
               let path = ae_patchPath env; log1 = log @ [WritePatch patchBytes];
                   check = ae_git env log1 (apply_check path) None; log2 = log1 @ [RunGit (apply_check path) None]
               in if \<not> gr_ok check then
                    (LeaderFail LPatchCheckFailed, SlotFailed (''patch_check_failed: '' @ leader_summary check), log2)
                  else
                    let applied = ae_git env log2 (apply_real path) None;
                        log3 = log2 @ [RunGit (apply_real path) None]
                    in if \<not> gr_ok applied then
                         undo_patch env LApplyFailed (''apply_failed: '' @ leader_summary applied)
                           (\<lambda>r. ''apply_failed + reverse_failed: apply='' @ leader_summary applied
                                  @ ''; reverse='' @ leader_summary r) log3
                       else stage_and_commit env inp review verdict log3))"

definition leader_work ::
  "'a leader_env_scheme \<Rightarrow> leader_input \<Rightarrow> change_review \<Rightarrow> reviewer_verdict \<Rightarrow> leader_result \<times> slot_end \<times> work_log" where
  "leader_work env inp review verdict =
     (case ae_workspace env (rv_workspaceId review) of
        None \<Rightarrow> (LeaderFail LWorkspaceMissing, SlotRevert, [])
      | Some workspacePath \<Rightarrow>
         (case lock_retry (ae_lock env) 0 LOCK_RETRY_DELAYS_MS of
            LockError \<Rightarrow> (LeaderThrow, SlotRevert, [])
          | LockBusy \<Rightarrow> (LeaderFail LLockBusy, SlotRevert, [])
          | LockGranted \<Rightarrow>
             (case head_check env (li_expectedWorkspaceHead inp) LHeadDrift [] of
                (Some code, log1) \<Rightarrow> (LeaderFail code, SlotRevert, log1)
              | (None, log1) \<Rightarrow>
                 (case head_check env (rv_baseRevision review) LBaseRevisionMismatch log1 of
                    (Some code, log2) \<Rightarrow> (LeaderFail code, SlotRevert, log2)
                  | (None, log2) \<Rightarrow>
                     (case clean_check env review log2 of
                        (Some code, log3) \<Rightarrow> (LeaderFail code, SlotRevert, log3)
                      | (None, log3) \<Rightarrow> patch_and_commit env inp review verdict log3)))))"

section \<open>The whole\<close>

definition end_slot :: "leader_input \<Rightarrow> int \<Rightarrow> slot_end \<Rightarrow> review_table \<Rightarrow> review_table" where
  "end_slot inp now e t =
     (case e of
        SlotRevert \<Rightarrow> revertApplyingSlot now (li_reviewId inp) (li_decidedBy inp) t
      | SlotFailed reason \<Rightarrow> markApplyFailed now (li_reviewId inp) (li_decidedBy inp) reason t
      | SlotPartial reason \<Rightarrow> markPartiallyApplied now (li_reviewId inp) (li_decidedBy inp) reason t
      | SlotFinish sha \<Rightarrow> finishLeaderApply now (li_reviewId inp) (li_decidedBy inp) (li_reasoning inp) sha t
      | SlotUntouched \<Rightarrow> t)"

text \<open>The row read back after the final write does not show it.\<close>

definition db_drift :: "string \<Rightarrow> string \<Rightarrow> review_table \<Rightarrow> bool" where
  "db_drift reviewId commitSha t =
     (case select_by_id reviewId t of
        None \<Rightarrow> True
      | Some after \<Rightarrow> rv_applyState after \<noteq> Applied \<or> rv_leaderApplyCommitSha after \<noteq> Some commitSha)"

definition applyChangeReviewAsLeader ::
  "'a leader_env_scheme \<Rightarrow> leader_input \<Rightarrow> review_table \<Rightarrow> leader_result \<times> review_table \<times> work_log" where
  "applyChangeReviewAsLeader env inp t =
     (case verdict_gate env inp t of
        Inl code \<Rightarrow> (LeaderFail code, ae_others env 1 t, [])
      | Inr (review, verdict) \<Rightarrow>
         (case claimApplyingSlot (ae_now env) (rv_id review) (li_decidedBy inp) (li_expectedDiffHash inp)
                 (ae_others env 2 (ae_others env 1 t)) of
            (False, t1) \<Rightarrow> (LeaderFail LRaceLost, t1, [])
          | (True, t1) \<Rightarrow>
             (case leader_work env inp review verdict of
                (result, e, log) \<Rightarrow>
                   let t2 = end_slot inp (ae_now env) e (ae_others env 3 t1) in
                   (case result of
                      LeaderOk sha warnings \<Rightarrow>
                        let t3 = ae_others env 4 t2 in
                        (LeaderOk sha (if db_drift (rv_id review) sha t3 then [''db_drift''] else []), t3, log)
                    | _ \<Rightarrow> (result, t2, log)))))"

section \<open>What the leader's apply establishes\<close>

lemmas work_defs = undo_patch_def stage_and_commit_def patch_and_commit_def Let_def

text \<open>Each way out of the work under the lock.\<close>

lemma undo_patch_fail:
  assumes "undo_patch env code reason partial_reason log = (result, e, log')"
  shows "\<exists>c r. result = LeaderFail c \<and> (e = SlotFailed r \<or> e = SlotPartial r)
    \<and> log' = log @ [RunGit (apply_reverse (ae_patchPath env)) None]
    \<and> (c \<noteq> LPartiallyApplied \<longrightarrow> gr_ok (ae_git env log (apply_reverse (ae_patchPath env)) None))"
  using assms by (auto simp: undo_patch_def Let_def split: if_splits)

text \<open>The patch was undone by the last command of the log.\<close>

definition undone :: "'a leader_env_scheme \<Rightarrow> work_log \<Rightarrow> bool" where
  "undone env log \<longleftrightarrow> log \<noteq> [] \<and> last log = RunGit (apply_reverse (ae_patchPath env)) None
     \<and> gr_ok (ae_git env (butlast log) (apply_reverse (ae_patchPath env)) None)"

lemma undo_patch_undone:
  assumes "undo_patch env code reason partial_reason log = (LeaderFail c, e, log')"
  shows "e \<noteq> SlotUntouched \<and> (c \<noteq> LPartiallyApplied \<longrightarrow> undone env log')"
  using undo_patch_fail [OF assms] by (auto simp: undone_def)

lemma stage_and_commit_fail:
  assumes "stage_and_commit env inp review verdict log = (LeaderFail c, e, log')"
  shows "e \<noteq> SlotUntouched \<and> (c \<noteq> LPartiallyApplied \<longrightarrow> undone env log')"
  using assms unfolding stage_and_commit_def Let_def
  by (auto dest: undo_patch_undone split: if_splits simp del: append.simps)

lemma patch_and_commit_fail:
  assumes "patch_and_commit env inp review verdict log = (LeaderFail c, e, log')"
  shows "e \<noteq> SlotUntouched \<and> (c = LApplyFailed \<or> c = LCommitFailed \<longrightarrow> undone env log')"
proof (cases "ae_artifact env (rv_diffArtifactId review)")
  case None
  then show ?thesis using assms by (auto simp: patch_and_commit_def)
next
  case (Some artifact)
  show ?thesis
  proof (cases "ae_readFile env (dr_storageRef artifact)")
    case None
    then show ?thesis using assms Some by (auto simp: patch_and_commit_def)
  next
    case (Some bytes)
    with \<open>ae_artifact env _ = Some artifact\<close> assms show ?thesis
      unfolding patch_and_commit_def Let_def
      by (auto dest: undo_patch_undone stage_and_commit_fail split: if_splits simp del: append.simps)
  qed
qed

lemma leader_work_fail:
  assumes "leader_work env inp review verdict = (LeaderFail c, e, log)"
  shows "e \<noteq> SlotUntouched \<and> (c = LApplyFailed \<or> c = LCommitFailed \<longrightarrow> undone env log)"
proof -
  have head: "code \<noteq> LApplyFailed \<and> code \<noteq> LCommitFailed"
    if "head_check env expected c1 l = (Some code, l')" "c1 = LHeadDrift \<or> c1 = LBaseRevisionMismatch"
    for expected c1 l code l'
    using that by (auto simp: head_check_def Let_def split: if_splits)
  have clean: "code \<noteq> LApplyFailed \<and> code \<noteq> LCommitFailed" if "clean_check env review l = (Some code, l')" for l code l'
    using that by (auto simp: clean_check_def Let_def split: if_splits)
  show ?thesis
    using assms
    by (auto simp: leader_work_def dest: patch_and_commit_fail dest!: head clean split: option.splits lock_outcome.splits prod.splits)
qed

lemma end_slot_frees:
  assumes "e \<noteq> SlotUntouched"
  shows "\<forall>r\<in>set (end_slot inp now e t). \<not> owns_slot (li_reviewId inp) (li_decidedBy inp) r"
proof -
  have map_free: "\<forall>r\<in>set (fst (update_where (owns_slot i who) f t)). \<not> owns_slot i who r"
    if "\<And>r. rv_applyState (f r) \<noteq> Applying" for i who f
    using that by (auto simp: update_where_fst owns_slot_def)
  show ?thesis
    using assms unfolding end_slot_def revertApplyingSlot_def markApplyFailed_def markPartiallyApplied_def
      finishLeaderApply_def
    by (cases e) (simp_all only: slot_end.case, (rule map_free; simp)+, simp)
qed

text \<open>
  C31: When the leader's apply returns a failure, either it stopped before the claim or lost it, and touched
  nothing in the workspace, or nobody owns the slot in its name any more. Where it reports that applying
  or committing failed, the last thing done in the workspace was to undo the patch, with success.
\<close>
theorem leader_failure_frees_slot:
  assumes "applyChangeReviewAsLeader env inp t = (LeaderFail code, t', log)"
  shows "code \<in> {LNotFound, LVerdictRequired, LVerdictInsufficient, LRaceLost} \<and> log = []
    \<or> (\<forall>r\<in>set t'. \<not> owns_slot (li_reviewId inp) (li_decidedBy inp) r)
      \<and> (code = LApplyFailed \<or> code = LCommitFailed \<longrightarrow> undone env log)"
proof (cases "verdict_gate env inp t")
  case (Inl c)
  then have "c \<in> {LNotFound, LVerdictRequired, LVerdictInsufficient, LRaceLost}"
    by (auto simp: verdict_gate_def split: option.splits if_splits)
  then show ?thesis using assms Inl by (simp add: applyChangeReviewAsLeader_def)
next
  case (Inr p)
  obtain review verdict where p: "p = (review, verdict)" by (cases p)
  obtain claimed t1 where claim: "claimApplyingSlot (ae_now env) (rv_id review) (li_decidedBy inp)
      (li_expectedDiffHash inp) (ae_others env 2 (ae_others env 1 t)) = (claimed, t1)" by fastforce
  show ?thesis
  proof (cases claimed)
    case False
    then show ?thesis using assms Inr p claim by (simp add: applyChangeReviewAsLeader_def)
  next
    case True
    obtain result e l where w: "leader_work env inp review verdict = (result, e, l)" by (metis prod_cases3)
    have "result = LeaderFail code" "l = log" "t' = end_slot inp (ae_now env) e (ae_others env 3 t1)"
      using assms Inr p claim True w
      by (auto simp: applyChangeReviewAsLeader_def Let_def split: leader_result.splits)
    then show ?thesis using leader_work_fail end_slot_frees w by blast
  qed
qed











definition answer_ok :: "'a leader_env_scheme \<Rightarrow> work_log \<Rightarrow> work_act \<Rightarrow> bool" where
  "answer_ok env log x = (case x of RunGit args input \<Rightarrow> gr_ok (ae_git env log args input) | WritePatch bytes \<Rightarrow> True)"

definition answered_ok :: "'a leader_env_scheme \<Rightarrow> work_log \<Rightarrow> bool" where
  "answered_ok env log \<longleftrightarrow> (\<forall>n < length log. answer_ok env (take n log) (log ! n))"

lemma answered_ok_Nil [simp]: "answered_ok env []"
  by (simp add: answered_ok_def)





section \<open>Concrete runs\<close>

text \<open>The workspace of the operator's example, with a verdict attached to the review.\<close>

definition leader_demo :: "leader_env" where
  "leader_demo = \<lparr>ae_git = demo_git, ae_workspace = (\<lambda>w. Some ''/w''),
     ae_artifact = (\<lambda>a. Some \<lparr>dr_artifactType = if a = ''v1'' then ''reviewer_verdict_v1'' else ''runtime_diff'',
                             dr_storageKind = ''file'', dr_storageRef = ''ref''\<rparr>),
     ae_readFile = (\<lambda>p. Some ''other bytes''), ae_sha256 = (\<lambda>b. if b = ''bytes'' then ''h1'' else ''h2''),
     ae_patchWritable = True, ae_patchPath = ''p'', ae_lock = (\<lambda>n. if n < 2 then LockBusy else LockGranted),
     ae_others = (\<lambda>n t. t), ae_now = 9,
     le_readJson = (\<lambda>p. Some (JObj [])),
     le_schema = (\<lambda>j. Some \<lparr>vd_verdict = VerdictApprove, vd_confidence = ConfidenceHigh\<rparr>)\<rparr>"

definition leader_demo_input :: leader_input where
  "leader_demo_input = \<lparr>li_reviewId = ''r1'', li_reasoning = ''fine'', li_expectedDiffHash = ''h1'',
     li_expectedWorkspaceHead = None, li_decidedBy = ''leader:1''\<rparr>"

definition leader_demo_table :: review_table where
  "leader_demo_table = [(new_row ''x'' 5 demo_input)\<lparr>rv_reviewerVerdictArtifactId := Some ''v1''\<rparr>]"

lemmas leader_run_defs = leader_demo_def leader_demo_input_def leader_demo_table_def demo_input_def new_row_def
  default_to_def select_by_id_def update_where_def applyChangeReviewAsLeader_def verdict_gate_def
  getReviewerVerdictForReview_def claimApplyingSlot_def leader_work_def LOCK_RETRY_DELAYS_MS_def
  lock_retry.simps head_check_def clean_check_def patch_and_commit_def stage_and_commit_def
  end_slot_def finishLeaderApply_def owns_slot_def db_drift_def Let_def



theorem leader_failure_frees_slot_witness:
  "fst (applyChangeReviewAsLeader (leader_demo\<lparr>ae_lock := (\<lambda>n. LockBusy)\<rparr>) leader_demo_input leader_demo_table)
     = LeaderFail LLockBusy
   \<and> list_all (\<lambda>r. \<not> owns_slot ''r1'' ''leader:1'' r)
        (fst (snd (applyChangeReviewAsLeader (leader_demo\<lparr>ae_lock := (\<lambda>n. LockBusy)\<rparr>)
        leader_demo_input leader_demo_table)))"
proof -
  let ?run = "applyChangeReviewAsLeader (leader_demo\<lparr>ae_lock := (\<lambda>n. LockBusy)\<rparr>) leader_demo_input leader_demo_table"
  have code: "fst ?run = LeaderFail LLockBusy" by (simp add: leader_run_defs)
  obtain t' log where run: "?run = (LeaderFail LLockBusy, t', log)" using code by (cases ?run) auto
  from leader_failure_frees_slot [OF run] show ?thesis
    using code run by (simp add: leader_demo_input_def list_all_iff)
qed

text \<open>
  A failure to write the patch file leaves the review being applied, owned by the leader, although
  nothing was done to the workspace.
\<close>
theorem leader_throw_keeps_slot:
  "case applyChangeReviewAsLeader (leader_demo\<lparr>ae_patchWritable := False\<rparr>) leader_demo_input leader_demo_table of
     (result, t', log) \<Rightarrow> result = LeaderThrow \<and> list_all (owns_slot ''r1'' ''leader:1'') t' \<and> t' \<noteq> []
       \<and> (\<forall>a\<in>set log. a \<in> {RunGit rev_parse None, RunGit git_status None})"
  by (simp add: leader_run_defs)

text \<open>
  The leader's apply does not compare the stored patch with the hash of the review: it applies and
  commits bytes whose hash is another one, which the operator's apply refuses.
\<close>
theorem leader_applies_unverified_patch:
  "ae_sha256 leader_demo ''other bytes'' \<noteq> ''h1''
   \<and> (\<exists>t' log. applyChangeReviewAsLeader leader_demo leader_demo_input leader_demo_table = (LeaderOk ''base'' [], t', log)
        \<and> WritePatch ''other bytes'' \<in> set log)
   \<and> fst (applyChangeReview (demo_env\<lparr>ae_readFile := (\<lambda>p. Some ''other bytes'')\<rparr>) ''r1'' ''h1'' demo_approved)
       = Inl (GatePatch ''patch_hash_mismatch'')"
  by (intro conjI) (simp add: leader_demo_def, simp add: leader_run_defs, simp add: gate_run_defs)

end
