(* ===== verification/Path_Sensitivity.thy ===== *)
theory Path_Sensitivity
  imports Js_Path Js_Regex
begin

text \<open>
  The sensitivity of a file-system path (\<open>apps/api/src/services/safe-apply/path-sensitivity.ts\<close>), which decides
  whether a path may be added to the sandbox of a command. The code returns a text with each level; several of
  these texts hold characters beyond the modelled range, so every text is a constructor of \<open>path_reason\<close>.
  The early returns of the code are grouped by the level they return, in the order of the code.
\<close>

datatype path_level = Safe | Caution | Critical

datatype path_access = Read | Write

record classify_options =
  opt_homeDir :: "string option"
  opt_magisterInstallDir :: "string option"
  opt_workspaceRoot :: "string option"

text \<open>The home directory as the process knows it: the variable, and what the system reports.\<close>

record host_home =
  env_HOME :: "string option"
  os_homedir :: string

datatype path_error = EmptyPath | NotAbsolute string | NotCanonical string | HasTilde string

datatype path_reason =
    SystemCredentialFile string
  | SystemIdentityFileWrite string
  | SudoersEntry
  | HostSshConfig
  | DeviceWrite
  | AuthorizedKeys
  | SshPublicKey
  | SshDirWrite
  | EtcWrite
  | MagisterProviderKeys
  | WorkspaceEnvWrite
  | MagisterStateWrite
  | SshDirectory
  | AwsDirectory
  | GcpDirectory
  | AzureDirectory
  | KubeDirectory
  | DockerConfig
  | GitNetrcCredentials
  | GithubCli
  | PackageManagerToken
  | PypiCredentials
  | PipConfig
  | GpgKeyring
  | ShellHistory
  | PathBinDir string
  | RustupToolchain
  | WorkspaceEnvRead
  | CredentialName
  | BuildCache
  | SharedTemp
  | GitIdentity
  | UserHome
  | OtherPath

record path_class =
  pc_level :: path_level
  pc_reason :: path_reason

definition resolveHome :: "host_home \<Rightarrow> classify_options \<Rightarrow> string" where
  "resolveHome h opts = (case opt_homeDir opts of Some d \<Rightarrow> d
     | None \<Rightarrow> (case env_HOME h of Some d \<Rightarrow> d | None \<Rightarrow> os_homedir h))"

definition startsWithDirOrEquals :: "string \<Rightarrow> string \<Rightarrow> bool" where
  "startsWithDirOrEquals p pre =
     (if pre = [] then False
      else if p = pre then True
      else starts_with p (if ends_with pre ''/'' then pre else pre @ ''/''))"

definition isUnder :: "string \<Rightarrow> string list \<Rightarrow> bool" where
  "isUnder p pres = list_ex (startsWithDirOrEquals p) pres"

definition CRITICAL_SYSTEM_FILES_ANY_ACCESS :: "string list" where
  "CRITICAL_SYSTEM_FILES_ANY_ACCESS = [''/etc/shadow'', ''/etc/gshadow'', ''/etc/sudoers'']"

definition CRITICAL_SYSTEM_FILES_WRITE_ONLY :: "string list" where
  "CRITICAL_SYSTEM_FILES_WRITE_ONLY = [''/etc/passwd'']"

definition CRITICAL_DEV_BLOCK_PATTERNS :: "rx list" where
  "CRITICAL_DEV_BLOCK_PATTERNS =
    [seqs [Bol, lit ''/dev/'',
       alts [Seq (lit ''sd'') lower, Seq (lit ''nvme'') (plus word), Seq (lit ''hd'') lower,
         Seq (lit ''vd'') lower, Seq (lit ''xvd'') lower, Seq (lit ''mmcblk'') (plus digit),
         Seq (lit ''loop'') (Star digit), Seq (lit ''dm-'') (plus digit), Seq (lit ''md'') (plus digit),
         lit ''disk''],
       alts [lit ''/'', Eol, digit]],
     seqs [Bol, lit ''/proc/'', plus digit, lit ''/mem'', Eol]]"

definition not_slash :: rx where "not_slash = none_of ''/''"

definition CAUTION_AUTH_CATCH_ALL :: "rx list" where
  "CAUTION_AUTH_CATCH_ALL =
    [seqs [Alt Bol (lit ''/''), Star not_slash, lit_ci ''credentials'', Star not_slash, Eol],
     seqs [Alt Bol (lit ''/''), Star not_slash, lit_ci ''secret'', Star not_slash, Eol],
     Seq (lit ''.pem'') Eol, Seq (lit ''.key'') Eol, Seq (lit ''.p12'') Eol, Seq (lit ''.pfx'') Eol]"

text \<open>\<open>if (options.x)\<close>: present and not empty; \<open>dir_opt\<close> is the directory then.\<close>

definition dir_opt :: "string option \<Rightarrow> string option" where
  "dir_opt d = (if truthy_str d then d else None)"

definition is_env_name :: "string \<Rightarrow> bool" where
  "is_env_name p = (let b = after_last_slash p in b = ''.env'' \<or> starts_with b ''.env.'')"

section \<open>The classifier\<close>

definition critical_reason :: "string \<Rightarrow> classify_options \<Rightarrow> string \<Rightarrow> path_access \<Rightarrow> path_reason option" where
  "critical_reason home opts p a =
    (let w = (a = Write) in
     if p \<in> set CRITICAL_SYSTEM_FILES_ANY_ACCESS then Some (SystemCredentialFile p)
     else if w \<and> p \<in> set CRITICAL_SYSTEM_FILES_WRITE_ONLY then Some (SystemIdentityFileWrite p)
     else if isUnder p [''/etc/sudoers.d''] then Some SudoersEntry
     else if isUnder p [''/etc/ssh''] then Some HostSshConfig
     else if w \<and> list_ex (\<lambda>r. rx_test r p) CRITICAL_DEV_BLOCK_PATTERNS then Some DeviceWrite
     else if w \<and> p = home @ ''/.ssh/authorized_keys'' then Some AuthorizedKeys
     else if w \<and> ends_with p ''.pub'' \<and> isUnder p [home @ ''/.ssh''] then Some SshPublicKey
     else if w \<and> isUnder p [home @ ''/.ssh''] then Some SshDirWrite
     else if w \<and> starts_with p ''/etc/'' \<and> p \<noteq> ''/etc/resolv.conf'' then Some EtcWrite
     else if (case dir_opt (opt_magisterInstallDir opts) of None \<Rightarrow> False
              | Some m \<Rightarrow> p = m @ ''/config/secrets.json'') then Some MagisterProviderKeys
     else if (case dir_opt (opt_workspaceRoot opts) of None \<Rightarrow> False
              | Some r \<Rightarrow> w \<and> isUnder p [r] \<and> is_env_name p) then Some WorkspaceEnvWrite
     else if (case dir_opt (opt_magisterInstallDir opts) of None \<Rightarrow> False
              | Some m \<Rightarrow> w \<and> isUnder p [m @ ''/.magister'', m @ ''/.ultimate'']) then Some MagisterStateWrite
     else None)"

definition historyFiles :: "string list" where
  "historyFiles = [''.bash_history'', ''.zsh_history'', ''.python_history'', ''.node_repl_history'', ''.sh_history'']"

definition pathBinDirs :: "string \<Rightarrow> string list" where
  "pathBinDirs home = map (\<lambda>d. home @ ''/'' @ d)
     [''.cargo/bin'', ''.local/bin'', ''.npm-global/bin'', ''.yarn/bin'']"

definition caution_reason :: "string \<Rightarrow> classify_options \<Rightarrow> string \<Rightarrow> path_access \<Rightarrow> path_reason option" where
  "caution_reason home opts p a =
    (let under = (\<lambda>d. isUnder p [home @ d]) in
     if under ''/.ssh'' then Some SshDirectory
     else if under ''/.aws'' then Some AwsDirectory
     else if under ''/.config/gcloud'' then Some GcpDirectory
     else if under ''/.azure'' then Some AzureDirectory
     else if under ''/.kube'' then Some KubeDirectory
     else if under ''/.docker'' then Some DockerConfig
     else if p = home @ ''/.git-credentials'' \<or> p = home @ ''/.netrc'' then Some GitNetrcCredentials
     else if under ''/.config/gh'' then Some GithubCli
     else if p = home @ ''/.npmrc'' \<or> p = home @ ''/.yarnrc'' \<or> p = home @ ''/.yarnrc.yml'' \<or>
             p = home @ ''/.pnpmrc'' then Some PackageManagerToken
     else if p = home @ ''/.pypirc'' then Some PypiCredentials
     else if under ''/.config/pip'' then Some PipConfig
     else if under ''/.gnupg'' then Some GpgKeyring
     else if list_ex (\<lambda>f. p = home @ ''/'' @ f) historyFiles then Some ShellHistory
     else case (if a = Write then find (\<lambda>d. isUnder p [d]) (pathBinDirs home) else None) of
       Some d \<Rightarrow> Some (PathBinDir d)
     | None \<Rightarrow>
       if a = Write \<and> under ''/.rustup/toolchains'' \<and> includes_str p ''/bin/'' then Some RustupToolchain
       else if (case dir_opt (opt_workspaceRoot opts) of None \<Rightarrow> False
                | Some r \<Rightarrow> isUnder p [r] \<and> is_env_name p) then Some WorkspaceEnvRead
       else if list_ex (\<lambda>r. rx_test r p) CAUTION_AUTH_CATCH_ALL then Some CredentialName
       else None)"

definition safeCacheDirs :: "string \<Rightarrow> string list" where
  "safeCacheDirs home = map (\<lambda>d. home @ ''/'' @ d)
     [''.cache/uv'', ''.cache/pip'', ''.cache/pnpm'', ''.cache/yarn'', ''.cache/go-build'', ''.npm/_cacache'',
      ''.cargo/registry'', ''.cargo/git'', ''.local/share/uv'', ''.rustup/downloads'']"

definition safe_reason :: "string \<Rightarrow> string \<Rightarrow> path_access \<Rightarrow> path_reason option" where
  "safe_reason home p a =
    (if a = Write \<and> list_ex (\<lambda>d. isUnder p [d]) (safeCacheDirs home) then Some BuildCache
     else if a = Write \<and> (p = ''/var/tmp'' \<or> starts_with p ''/var/tmp/'' \<or> p = ''/tmp'' \<or> starts_with p ''/tmp/'')
       then Some SharedTemp
     else if a = Read \<and> (p = home @ ''/.gitconfig'' \<or> p = ''/etc/gitconfig'') then Some GitIdentity
     else None)"

definition path_defect :: "string \<Rightarrow> path_error option" where
  "path_defect p =
    (if p = [] then Some EmptyPath
     else if \<not> starts_with p ''/'' then Some (NotAbsolute p)
     else if includes_str p ''/../'' \<or> ends_with p ''/..'' \<or> includes_str p ''/./'' then Some (NotCanonical p)
     else if includes_str p ''~'' then Some (HasTilde p)
     else None)"

definition classifyPathSensitivity ::
    "host_home \<Rightarrow> string \<Rightarrow> path_access \<Rightarrow> classify_options \<Rightarrow> path_error + path_class" where
  "classifyPathSensitivity h p a opts =
    (case path_defect p of
       Some e \<Rightarrow> Inl e
     | None \<Rightarrow>
       (let home = resolveHome h opts in
        case critical_reason home opts p a of
          Some r \<Rightarrow> Inr \<lparr>pc_level = Critical, pc_reason = r\<rparr>
        | None \<Rightarrow>
          (case caution_reason home opts p a of
             Some r \<Rightarrow> Inr \<lparr>pc_level = Caution, pc_reason = r\<rparr>
           | None \<Rightarrow>
             (case safe_reason home p a of
                Some r \<Rightarrow> Inr \<lparr>pc_level = Safe, pc_reason = r\<rparr>
              | None \<Rightarrow> Inr \<lparr>pc_level = Caution,
                  pc_reason = (if starts_with p home then UserHome else OtherPath)\<rparr>))))"

definition isCriticallyDenied ::
    "host_home \<Rightarrow> string \<Rightarrow> path_access \<Rightarrow> classify_options \<Rightarrow> path_error + bool" where
  "isCriticallyDenied h p a opts =
     map_sum id (\<lambda>c. pc_level c = Critical) (classifyPathSensitivity h p a opts)"

section \<open>Properties\<close>

lemma isUnder_single: "isUnder p [d] \<longleftrightarrow> startsWithDirOrEquals p d"
  by (simp add: isUnder_def)

lemma startsWith_plain_dir:
  "d \<noteq> [] \<Longrightarrow> last d \<noteq> slash \<Longrightarrow> startsWithDirOrEquals p d \<longleftrightarrow> p = d \<or> (\<exists>t. p = d @ ''/'' @ t)"
  by (cases d rule: rev_cases) (auto simp: startsWithDirOrEquals_def starts_with_iff ends_with_def)

lemma canonical_no_defect:
  assumes "canonical p" and "CHR ''~'' \<notin> set p"
  shows "path_defect p = None"
proof -
  obtain segs where segs: "list_all plain_seg segs" and p: "p = canonical_of segs"
    using assms(1) by (auto simp: canonical_def)
  have split: "set (js_split slash p) \<subseteq> {[]} \<union> set segs"
    using segs by (auto simp: p canonical_of_split split: if_splits)
  have dots: "x \<notin> set (js_split slash p)" if "x = ''.'' \<or> x = ''..''" for x
    using split segs that by (auto simp: list_all_iff plain_seg_def)
  have "\<not> includes_str p (''/'' @ x @ ''/'')" and "\<not> ends_with p (''/'' @ x)"
    if "x = ''.'' \<or> x = ''..''" for x
    using dots [OF that] js_split_middle [of slash x] js_split_final [of slash x] that
    by (auto simp: includes_str_iff ends_with_iff)
  from this(1) [of "''.''"] this(1) [of "''..''"] this(2) [of "''..''"]
  have "\<not> includes_str p ''/./''" "\<not> includes_str p ''/../''" "\<not> ends_with p ''/..''" by simp_all
  moreover have "\<not> includes_str p ''~''"
    using assms(2) by (auto simp: includes_str_iff)
  moreover have "p \<noteq> []" "starts_with p ''/''"
    by (auto simp: p canonical_of_def)
  ultimately show ?thesis by (simp add: path_defect_def)
qed

lemma critical_iff_reason:
  "classifyPathSensitivity h p a opts = Inr c \<Longrightarrow>
     pc_level c = Critical \<longleftrightarrow> critical_reason (resolveHome h opts) opts p a \<noteq> None"
  by (auto simp: classifyPathSensitivity_def Let_def split: option.splits)

text \<open>The two settings of the caller that protect directories of its own.\<close>

definition in_magister :: "classify_options \<Rightarrow> (string \<Rightarrow> bool) \<Rightarrow> bool" where
  "in_magister opts P = (case dir_opt (opt_magisterInstallDir opts) of None \<Rightarrow> False | Some m \<Rightarrow> P m)"

definition in_workspace :: "classify_options \<Rightarrow> (string \<Rightarrow> bool) \<Rightarrow> bool" where
  "in_workspace opts P = (case dir_opt (opt_workspaceRoot opts) of None \<Rightarrow> False | Some r \<Rightarrow> P r)"

definition protected_any :: "classify_options \<Rightarrow> string \<Rightarrow> bool" where
  "protected_any opts p \<longleftrightarrow>
     p = ''/etc/shadow'' \<or> p = ''/etc/gshadow'' \<or> p = ''/etc/sudoers'' \<or>
     startsWithDirOrEquals p ''/etc/sudoers.d'' \<or> startsWithDirOrEquals p ''/etc/ssh'' \<or>
     in_magister opts (\<lambda>m. p = m @ ''/config/secrets.json'')"

definition protected_write :: "string \<Rightarrow> classify_options \<Rightarrow> string \<Rightarrow> bool" where
  "protected_write home opts p \<longleftrightarrow>
     starts_with p ''/etc/'' \<and> p \<noteq> ''/etc/resolv.conf'' \<or>
     startsWithDirOrEquals p (home @ ''/.ssh'') \<or>
     list_ex (\<lambda>r. rx_test r p) CRITICAL_DEV_BLOCK_PATTERNS \<or>
     in_workspace opts (\<lambda>r. startsWithDirOrEquals p r \<and> is_env_name p) \<or>
     in_magister opts (\<lambda>m. startsWithDirOrEquals p (m @ ''/.magister'') \<or> startsWithDirOrEquals p (m @ ''/.ultimate''))"

lemma under_self_file:
  "startsWithDirOrEquals (home @ ''/.ssh/authorized_keys'') (home @ ''/.ssh'')"
  by (simp add: startsWith_plain_dir)

lemma critical_reason_iff:
  "critical_reason home opts p a \<noteq> None \<longleftrightarrow>
     protected_any opts p \<or> (a = Write \<and> protected_write home opts p)"
  using under_self_file [of home]
  unfolding critical_reason_def protected_any_def protected_write_def in_magister_def in_workspace_def
  by (auto simp: Let_def isUnder_def CRITICAL_SYSTEM_FILES_ANY_ACCESS_def CRITICAL_SYSTEM_FILES_WRITE_ONLY_def
      split: option.splits)

text \<open>
  A path is refused for every grant exactly when it is one of the protected system files and directories or, for
  writing, lies below /etc, the SSH directory, a block device, the runtime state, or is an environment file of
  the workspace.
\<close>

theorem critical_exact:
  assumes "classifyPathSensitivity h p a opts = Inr c"
  shows "pc_level c = Critical \<longleftrightarrow>
    protected_any opts p \<or> (a = Write \<and> protected_write (resolveHome h opts) opts p)"
  using critical_iff_reason [OF assms] critical_reason_iff by simp

text \<open>Whatever may not be read may not be written.\<close>

theorem critical_read_implies_write:
  assumes "isCriticallyDenied h p Read opts = Inr True"
  shows "isCriticallyDenied h p Write opts = Inr True"
  using assms critical_reason_iff [of "resolveHome h opts" opts p]
  by (auto simp: isCriticallyDenied_def classifyPathSensitivity_def Let_def split: option.splits)

text \<open>What is granted without a warning is one of the listed caches and shared directories, and never looks like a key.\<close>

theorem safe_paths_exact:
  assumes "classifyPathSensitivity h p a opts = Inr c" and "pc_level c = Safe"
  shows "(if a = Write then startsWithDirOrEquals p ''/tmp'' \<or> startsWithDirOrEquals p ''/var/tmp'' \<or>
            list_ex (startsWithDirOrEquals p) (safeCacheDirs (resolveHome h opts))
          else p = resolveHome h opts @ ''/.gitconfig'' \<or> p = ''/etc/gitconfig'') \<and>
    \<not> list_ex (\<lambda>r. rx_test r p) CAUTION_AUTH_CATCH_ALL \<and>
    \<not> startsWithDirOrEquals p (resolveHome h opts @ ''/.ssh'')"
proof -
  have none: "caution_reason (resolveHome h opts) opts p a = None"
    and safe: "safe_reason (resolveHome h opts) p a \<noteq> None"
    using assms by (auto simp: classifyPathSensitivity_def Let_def split: option.splits)
  have "\<not> list_ex (\<lambda>r. rx_test r p) CAUTION_AUTH_CATCH_ALL"
    and "\<not> startsWithDirOrEquals p (resolveHome h opts @ ''/.ssh'')"
    using none by (auto simp: caution_reason_def Let_def isUnder_single split: if_splits option.splits)
  moreover have "startsWithDirOrEquals p ''/tmp'' \<longleftrightarrow> p = ''/tmp'' \<or> starts_with p ''/tmp/''"
    and "startsWithDirOrEquals p ''/var/tmp'' \<longleftrightarrow> p = ''/var/tmp'' \<or> starts_with p ''/var/tmp/''"
    by (auto simp: startsWithDirOrEquals_def ends_with_def)
  with safe have "if a = Write then startsWithDirOrEquals p ''/tmp'' \<or> startsWithDirOrEquals p ''/var/tmp'' \<or>
            list_ex (startsWithDirOrEquals p) (safeCacheDirs (resolveHome h opts))
          else p = resolveHome h opts @ ''/.gitconfig'' \<or> p = ''/etc/gitconfig''"
    unfolding safe_reason_def isUnder_single by (cases a) (simp_all only: split: if_splits, blast+)
  ultimately show ?thesis by blast
qed

text \<open>A directory that contains protected files is itself not protected: it may be granted for writing.\<close>

lemma rx_test_Bol_lit:
  assumes "rx_test (seqs (Bol # lit d # rs)) p" and "rs \<noteq> []"
  shows "starts_with p d"
proof -
  obtain u v where "p = u @ v" and m: "rx_ends (seqs (Bol # lit d # rs)) (if u = [] then None else Some (last u), v) \<noteq> []"
    using assms(1) by (auto simp: rx_test_iff)
  then obtain q where "q \<in> set (rx_ends (seqs (Bol # lit d # rs)) (if u = [] then None else Some (last u), v))"
    unfolding rx_ends_ne rx_match_def by blast
  with assms(2) show ?thesis
    using \<open>p = u @ v\<close> by (auto simp: seqs_Cons rx_ends_lit split: if_splits)
qed

lemma device_pattern_prefix:
  "list_ex (\<lambda>r. rx_test r p) CRITICAL_DEV_BLOCK_PATTERNS \<Longrightarrow> starts_with p ''/dev/'' \<or> starts_with p ''/proc/''"
  by (auto simp: CRITICAL_DEV_BLOCK_PATTERNS_def dest!: rx_test_Bol_lit)

definition level_of :: "host_home \<Rightarrow> string \<Rightarrow> path_access \<Rightarrow> classify_options \<Rightarrow> path_error + path_level" where
  "level_of h p a opts = map_sum id pc_level (classifyPathSensitivity h p a opts)"

lemma level_Critical: "path_defect p = None \<Longrightarrow> protected_any opts p \<or> a = Write \<and> protected_write (resolveHome h opts) opts p
    \<Longrightarrow> level_of h p a opts = Inr Critical"
  using critical_reason_iff [of "resolveHome h opts" opts p a]
  by (auto simp: level_of_def classifyPathSensitivity_def Let_def)

lemma level_Caution: "path_defect p = None \<Longrightarrow> \<not> protected_any opts p \<Longrightarrow> \<not> (a = Write \<and> protected_write (resolveHome h opts) opts p)
    \<Longrightarrow> safe_reason (resolveHome h opts) p a = None \<Longrightarrow> level_of h p a opts = Inr Caution"
  using critical_reason_iff [of "resolveHome h opts" opts p a]
  by (auto simp: level_of_def classifyPathSensitivity_def Let_def split: option.splits)

definition plain_home :: "string \<Rightarrow> classify_options" where
  "plain_home d = \<lparr>opt_homeDir = Some d, opt_magisterInstallDir = None, opt_workspaceRoot = None\<rparr>"

theorem ancestors_are_grantable:
  "level_of h ''/etc/passwd'' Write (plain_home ''/home/u'') = Inr Critical \<and>
   level_of h ''/etc'' Write (plain_home ''/home/u'') = Inr Caution \<and>
   level_of h ''/home/u/.ssh/authorized_keys'' Write (plain_home ''/home/u'') = Inr Critical \<and>
   level_of h ''/home/u'' Write (plain_home ''/home/u'') = Inr Caution \<and>
   level_of h ''/'' Write (plain_home ''/home/u'') = Inr Caution"
proof (intro conjI)
  note defs = path_defect_def protected_any_def protected_write_def plain_home_def in_magister_def in_workspace_def
    dir_opt_def startsWithDirOrEquals_def ends_with_def resolveHome_def safe_reason_def safeCacheDirs_def isUnder_def
  show "level_of h ''/etc/passwd'' Write (plain_home ''/home/u'') = Inr Critical"
    by (rule level_Critical) (simp_all add: defs)
  show "level_of h ''/home/u/.ssh/authorized_keys'' Write (plain_home ''/home/u'') = Inr Critical"
    by (rule level_Critical) (simp_all add: defs)
  show "level_of h ''/etc'' Write (plain_home ''/home/u'') = Inr Caution"
    by (rule level_Caution) (auto simp: defs dest: device_pattern_prefix)
  show "level_of h ''/home/u'' Write (plain_home ''/home/u'') = Inr Caution"
    by (rule level_Caution) (auto simp: defs dest: device_pattern_prefix)
  show "level_of h ''/'' Write (plain_home ''/home/u'') = Inr Caution"
    by (rule level_Caution) (auto simp: defs dest: device_pattern_prefix)
qed

end
