(* ===== verification/Extra_Permissions.thy ===== *)
theory Extra_Permissions
  imports Path_Sensitivity
begin

text \<open>
  The validation of the extra permissions a model asks for
  (\<open>apps/api/src/services/safe-apply/additional-permissions.ts\<close>). The schema library is the argument \<open>parse\<close>, which
  returns the text of an error or the parsed request; the file system is the argument \<open>realpath\<close>, which returns
  the error code of a failure or the real path.
\<close>

datatype permissions_mode = UseDefault | WithAdditionalPermissions | RequireEscalated

record file_entry =
  fe_path :: string
  fe_access :: path_access
  fe_sensitivity :: path_level
  fe_reason :: path_reason

text \<open>\<open>network\<close> is present or not, and \<open>enabled\<close> within it.\<close>

record extra_profile =
  xp_network :: "bool option option"
  xp_file_system :: "file_entry list option"

record parsed_request =
  rq_network :: "bool option option"
  rq_read :: "string list option"
  rq_write :: "string list option"

definition MAX_PER_ARRAY :: nat where "MAX_PER_ARRAY = 16"

definition MAX_PATH_LENGTH :: nat where "MAX_PATH_LENGTH = 4096"

text \<open>The codes of \<open>PermissionValidationError\<close>; an error thrown by the classifier is not one of them.\<close>

datatype permission_error =
    MixedShape
  | SchemaInvalid string
  | PathTooLong string
  | PathForbiddenChars string
  | PathGlobUnsupported string
  | PathCanonicalizeFailed string
  | PathNotAbsolute string
  | PathCountExceeded nat
  | WithAdditionalPermissionsEmpty
  | PathOnDenyList
  | ClassifierThrew path_error

definition is_validation_error :: "permission_error \<Rightarrow> bool" where
  "is_validation_error e = (case e of ClassifierThrew _ \<Rightarrow> False | _ \<Rightarrow> True)"

text \<open>\<open>xs.map(f)\<close> for an \<open>f\<close> that may throw.\<close>

fun map_err :: "('a \<Rightarrow> 'e + 'b) \<Rightarrow> 'a list \<Rightarrow> 'e + 'b list" where
  "map_err f [] = Inr []"
| "map_err f (x # xs) = (case f x of Inl e \<Rightarrow> Inl e
     | Inr y \<Rightarrow> (case map_err f xs of Inl e \<Rightarrow> Inl e | Inr ys \<Rightarrow> Inr (y # ys)))"

section \<open>Entries without access\<close>

text \<open>Assignment to a property: in place when the object has it, at the end otherwise.\<close>

definition obj_set :: "string \<Rightarrow> json \<Rightarrow> (string \<times> json) list \<Rightarrow> (string \<times> json) list" where
  "obj_set k v fs = (if k \<in> fst ` set fs then map (\<lambda>(k', v'). (k', if k' = k then v else v')) fs else fs @ [(k, v)])"

definition obj_delete :: "string \<Rightarrow> (string \<times> json) list \<Rightarrow> (string \<times> json) list" where
  "obj_delete k fs = filter (\<lambda>(k', v). k' \<noteq> k) fs"

definition is_arr :: "json option \<Rightarrow> bool" where
  "is_arr j = (case j of Some (JArr _) \<Rightarrow> True | _ \<Rightarrow> False)"

definition entry_access_is :: "string \<Rightarrow> json \<Rightarrow> bool" where
  "entry_access_is a entry = (case entry of JObj e \<Rightarrow> obj_get e ''access'' = Some (JStr a) | _ \<Rightarrow> False)"

definition entry_path :: "json \<Rightarrow> string option" where
  "entry_path entry = (case entry of JObj e \<Rightarrow> (case obj_get e ''path'' of Some (JStr p) \<Rightarrow> Some p | _ \<Rightarrow> None) | _ \<Rightarrow> None)"

definition paths_with :: "string \<Rightarrow> json list \<Rightarrow> string list" where
  "paths_with a entries = List.map_filter (\<lambda>e. if entry_access_is a e then entry_path e else None) entries"

text \<open>The request without its \<open>none\<close> entries, and the paths of these.\<close>

definition stripAccessNoneEntries :: "json option \<Rightarrow> permission_error + (json option \<times> string list)" where
  "stripAccessNoneEntries raw =
    (case raw of
       Some (JObj rawObj) \<Rightarrow>
         (case obj_get rawObj ''file_system'' of
            Some (JObj fsObj) \<Rightarrow>
              (case obj_get fsObj ''entries'' of
                 Some (JArr entries) \<Rightarrow>
                   if is_arr (obj_get fsObj ''read'') \<or> is_arr (obj_get fsObj ''write'') then Inl MixedShape
                   else
                     let kept = filter (\<lambda>e. \<not> entry_access_is ''none'' e) entries;
                         read = paths_with ''read'' kept;
                         write = paths_with ''write'' kept;
                         fs1 = obj_delete ''entries'' fsObj;
                         fs2 = (if read \<noteq> [] then obj_set ''read'' (JArr (map JStr read)) fs1 else fs1);
                         fs3 = (if write \<noteq> [] then obj_set ''write'' (JArr (map JStr write)) fs2 else fs2)
                     in Inr (Some (JObj (obj_set ''file_system'' (JObj fs3) rawObj)), paths_with ''none'' entries)
               | _ \<Rightarrow> Inr (raw, []))
          | _ \<Rightarrow> Inr (raw, []))
     | _ \<Rightarrow> Inr (raw, []))"

section \<open>One path\<close>

definition GLOB_CHAR_RE :: rx where "GLOB_CHAR_RE = one_of ''*?[]{}''"

definition FORBIDDEN_PATH_CHAR_RE :: rx where
  "FORBIDDEN_PATH_CHAR_RE = Cls (\<lambda>c. let n = char_nat c in n \<le> 31 \<or> (127 \<le> n \<and> n \<le> 159))"

definition validatePathString :: "string \<Rightarrow> permission_error + unit" where
  "validatePathString p =
    (if MAX_PATH_LENGTH < length p then Inl (PathTooLong p)
     else if rx_test FORBIDDEN_PATH_CHAR_RE p then Inl (PathForbiddenChars p)
     else if rx_test GLOB_CHAR_RE p then Inl (PathGlobUnsupported p)
     else Inr ())"

definition canonicalizePath :: "string \<Rightarrow> (string \<Rightarrow> string + string) \<Rightarrow> string \<Rightarrow> permission_error + string" where
  "canonicalizePath cwd realpath rawPath =
    (let resolved = path_resolve cwd rawPath in
     case realpath resolved of
       Inr p \<Rightarrow> Inr p
     | Inl code \<Rightarrow> if code = ''ENOENT'' then Inr resolved else Inl (PathCanonicalizeFailed code))"

section \<open>The pipeline\<close>

record permissions_input =
  pi_raw :: "json option"
  pi_mode :: permissions_mode
  pi_home :: host_home
  pi_options :: classify_options
  pi_canonicalize :: "string \<Rightarrow> permission_error + string"

record permissions_result =
  pr_effectiveMode :: permissions_mode
  pr_profile :: extra_profile
  pr_denyRead :: "(string \<times> path_level) list"

definition classify_denied :: "permissions_input \<Rightarrow> string \<Rightarrow> string \<times> path_level" where
  "classify_denied inp p =
    (case validatePathString p of
       Inl _ \<Rightarrow> (p, Caution)
     | Inr _ \<Rightarrow>
       (case pi_canonicalize inp p of
          Inl _ \<Rightarrow> (p, Caution)
        | Inr c \<Rightarrow> (c, case classifyPathSensitivity (pi_home inp) c Read (pi_options inp) of
                        Inl _ \<Rightarrow> Caution | Inr r \<Rightarrow> pc_level r)))"

text \<open>One path of the last step: an entry of the profile, or the refusal.\<close>

definition grant_entry :: "permissions_input \<Rightarrow> path_access \<Rightarrow> string \<Rightarrow> permission_error + file_entry" where
  "grant_entry inp a p =
    (case classifyPathSensitivity (pi_home inp) p a (pi_options inp) of
       Inl e \<Rightarrow> Inl (ClassifierThrew e)
     | Inr cls \<Rightarrow> if pc_level cls = Critical then Inl PathOnDenyList
                  else Inr \<lparr>fe_path = p, fe_access = a, fe_sensitivity = pc_level cls, fe_reason = pc_reason cls\<rparr>)"

definition parse_request :: "(json \<Rightarrow> string + parsed_request) \<Rightarrow> json option \<Rightarrow> permission_error + parsed_request option" where
  "parse_request parse cleaned =
    (case cleaned of
       None \<Rightarrow> Inr None
     | Some JNull \<Rightarrow> Inr None
     | Some j \<Rightarrow> (case parse j of Inl msg \<Rightarrow> Inl (SchemaInvalid msg) | Inr r \<Rightarrow> Inr (Some r)))"

definition absolute_check :: "string list \<Rightarrow> permission_error + unit" where
  "absolute_check ps = (case find (\<lambda>p. \<not> starts_with p ''/'') ps of None \<Rightarrow> Inr () | Some p \<Rightarrow> Inl (PathNotAbsolute p))"

definition list_opt :: "'a list option \<Rightarrow> 'a list" where
  "list_opt x = (case x of None \<Rightarrow> [] | Some xs \<Rightarrow> xs)"

text \<open>Steps 3 to 7: the canonical paths to read and to write, without repetitions.\<close>

definition normal_paths :: "permissions_input \<Rightarrow> string list \<Rightarrow> string list \<Rightarrow> permission_error + (string list \<times> string list)" where
  "normal_paths inp inputRead inputWrite =
    (case map_err validatePathString (inputRead @ inputWrite) of
       Inl e \<Rightarrow> Inl e
     | Inr _ \<Rightarrow>
       (case map_err (pi_canonicalize inp) inputRead of
          Inl e \<Rightarrow> Inl e
        | Inr canonicalRead \<Rightarrow>
          (case map_err (pi_canonicalize inp) inputWrite of
             Inl e \<Rightarrow> Inl e
           | Inr canonicalWrite \<Rightarrow>
             (case absolute_check (canonicalRead @ canonicalWrite) of
                Inl e \<Rightarrow> Inl e
              | Inr _ \<Rightarrow>
                let finalWrite = nub canonicalWrite
                in Inr (filter (\<lambda>p. p \<notin> set finalWrite) (nub canonicalRead), finalWrite)))))"

text \<open>Steps 8 to 11, for the number of paths the earlier ones left.\<close>

definition finish_request ::
    "permissions_input \<Rightarrow> (string \<times> path_level) list \<Rightarrow> bool option option \<Rightarrow> string list \<Rightarrow> string list
     \<Rightarrow> permission_error + permissions_result" where
  "finish_request inp denied network finalRead finalWrite =
    (let total = length finalRead + length finalWrite in
     if MAX_PER_ARRAY < total then Inl (PathCountExceeded total)
     else if pi_mode inp = WithAdditionalPermissions \<and> total = 0 \<and> network = None \<and> denied = []
     then Inl WithAdditionalPermissionsEmpty
     else
       (case map_err (grant_entry inp Write) finalWrite of
          Inl e \<Rightarrow> Inl e
        | Inr writes \<Rightarrow>
          (case map_err (grant_entry inp Read) finalRead of
             Inl e \<Rightarrow> Inl e
           | Inr reads \<Rightarrow>
             Inr \<lparr>pr_effectiveMode =
                    (if pi_mode inp = WithAdditionalPermissions \<and> total = 0 \<and> network = None \<and> denied \<noteq> []
                     then UseDefault else pi_mode inp),
                  pr_profile = \<lparr>xp_network = network,
                                xp_file_system = (if writes @ reads \<noteq> [] then Some (writes @ reads) else None)\<rparr>,
                  pr_denyRead = denied\<rparr>)))"

definition validateAndNormalize ::
    "(json \<Rightarrow> string + parsed_request) \<Rightarrow> permissions_input \<Rightarrow> permission_error + permissions_result" where
  "validateAndNormalize parse inp =
    (case stripAccessNoneEntries (pi_raw inp) of
       Inl e \<Rightarrow> Inl e
     | Inr (cleaned, denyRaw) \<Rightarrow>
       (let denied = map (classify_denied inp) denyRaw in
        case parse_request parse cleaned of
          Inl e \<Rightarrow> Inl e
        | Inr parsed \<Rightarrow>
          (case normal_paths inp
                  (case parsed of None \<Rightarrow> [] | Some r \<Rightarrow> list_opt (rq_read r))
                  (case parsed of None \<Rightarrow> [] | Some r \<Rightarrow> list_opt (rq_write r)) of
             Inl e \<Rightarrow> Inl e
           | Inr (finalRead, finalWrite) \<Rightarrow>
               finish_request inp denied (case parsed of None \<Rightarrow> None | Some r \<Rightarrow> rq_network r)
                 finalRead finalWrite)))"

section \<open>Properties\<close>

lemma map_err_InrD: "map_err f xs = Inr ys \<Longrightarrow> list_all2 (\<lambda>x y. f x = Inr y) xs ys"
  by (induction xs arbitrary: ys) (auto split: sum.splits)

lemma map_err_InrI: "list_all2 (\<lambda>x y. f x = Inr y) xs ys \<Longrightarrow> map_err f xs = Inr ys"
  by (induction rule: list_all2_induct) auto

lemma map_err_Inr: "map_err f xs = Inr ys \<longleftrightarrow> list_all2 (\<lambda>x y. f x = Inr y) xs ys"
  by (blast intro: map_err_InrD map_err_InrI)

lemma map_err_Inr_set:
  assumes "map_err f xs = Inr ys"
  shows "y \<in> set ys \<longleftrightarrow> (\<exists>x\<in>set xs. f x = Inr y)"
  using assms unfolding map_err_Inr
  by (induction xs ys rule: list_all2_induct) auto

lemma map_err_Inr_ex: "map_err f xs = Inr ys \<Longrightarrow> x \<in> set xs \<Longrightarrow> \<exists>y. f x = Inr y"
  by (induction xs arbitrary: ys) (auto split: sum.splits)

lemma map_err_Inl: "map_err f xs = Inl e \<Longrightarrow> \<exists>x\<in>set xs. f x = Inl e"
  by (induction xs) (auto split: sum.splits)

text \<open>The entries of a profile, and what makes one acceptable.\<close>

definition profile_entries :: "extra_profile \<Rightarrow> file_entry list" where
  "profile_entries p = list_opt (xp_file_system p)"

definition entry_ok :: "permissions_input \<Rightarrow> file_entry \<Rightarrow> bool" where
  "entry_ok inp e \<longleftrightarrow>
     starts_with (fe_path e) ''/'' \<and> fe_sensitivity e \<noteq> Critical \<and>
     classifyPathSensitivity (pi_home inp) (fe_path e) (fe_access e) (pi_options inp) =
       Inr \<lparr>pc_level = fe_sensitivity e, pc_reason = fe_reason e\<rparr>"

lemma grant_entry_ok:
  "grant_entry inp a p = Inr e \<Longrightarrow> fe_path e = p \<and> fe_access e = a \<and> (starts_with p ''/'' \<longrightarrow> entry_ok inp e)"
  by (auto simp: grant_entry_def entry_ok_def split: sum.splits if_splits)

lemma map_grant_paths: "map_err (grant_entry inp a) ps = Inr es \<Longrightarrow> map fe_path es = ps"
  unfolding map_err_Inr by (induction ps es rule: list_all2_induct) (auto dest: grant_entry_ok)

lemma map_grant_access: "map_err (grant_entry inp a) ps = Inr es \<Longrightarrow> list_all (\<lambda>e. fe_access e = a) es"
  unfolding map_err_Inr by (induction ps es rule: list_all2_induct) (auto dest: grant_entry_ok)

lemma map_grant_ok:
  "map_err (grant_entry inp a) ps = Inr es \<Longrightarrow> list_all (\<lambda>p. starts_with p ''/'') ps \<Longrightarrow> list_all (entry_ok inp) es"
  unfolding map_err_Inr by (induction ps es rule: list_all2_induct) (auto dest: grant_entry_ok)

lemma distinct_nub [simp]: "distinct (nub xs)"
  by (simp add: nub_def)

text \<open>What the normalised paths are.\<close>

lemma normal_paths_Inr:
  assumes "normal_paths inp rd wr = Inr (fr, fw)"
  shows "distinct (fr @ fw)" and "list_all (\<lambda>p. starts_with p ''/'') (fr @ fw)"
    and "p \<in> set fw \<longleftrightarrow> (\<exists>q\<in>set wr. pi_canonicalize inp q = Inr p)"
    and "p \<in> set fr \<longleftrightarrow> p \<notin> set fw \<and> (\<exists>q\<in>set rd. pi_canonicalize inp q = Inr p)"
    and "q \<in> set (rd @ wr) \<Longrightarrow> validatePathString q = Inr () \<and> (\<exists>p. pi_canonicalize inp q = Inr p)"
proof -
  obtain cr cw u where v: "map_err validatePathString (rd @ wr) = Inr u"
    and cr: "map_err (pi_canonicalize inp) rd = Inr cr" and cw: "map_err (pi_canonicalize inp) wr = Inr cw"
    and abs: "absolute_check (cr @ cw) = Inr ()"
    and fw: "fw = nub cw" and fr: "fr = filter (\<lambda>p. p \<notin> set fw) (nub cr)"
    using assms by (auto simp: normal_paths_def Let_def split: sum.splits)
  have abs': "\<forall>p\<in>set (cr @ cw). starts_with p ''/''"
    using abs by (auto simp: absolute_check_def find_None_iff split: option.splits)
  show "distinct (fr @ fw)" by (auto simp: fw fr)
  show "list_all (\<lambda>p. starts_with p ''/'') (fr @ fw)" using abs' by (auto simp: fw fr list_all_iff)
  show "p \<in> set fw \<longleftrightarrow> (\<exists>q\<in>set wr. pi_canonicalize inp q = Inr p)"
    by (simp add: fw map_err_Inr_set [OF cw])
  show "p \<in> set fr \<longleftrightarrow> p \<notin> set fw \<and> (\<exists>q\<in>set rd. pi_canonicalize inp q = Inr p)"
    by (auto simp: fr map_err_Inr_set [OF cr])
  show "q \<in> set (rd @ wr) \<Longrightarrow> validatePathString q = Inr () \<and> (\<exists>p. pi_canonicalize inp q = Inr p)"
    using map_err_Inr_ex [OF v] map_err_Inr_ex [OF cr] map_err_Inr_ex [OF cw] by auto
qed

lemma finish_request_Inr:
  assumes "finish_request inp den net fr fw = Inr res"
  obtains writes reads where
    "map_err (grant_entry inp Write) fw = Inr writes" and "map_err (grant_entry inp Read) fr = Inr reads"
    and "profile_entries (pr_profile res) = writes @ reads" and "xp_network (pr_profile res) = net"
    and "pr_denyRead res = den" and "length fr + length fw \<le> MAX_PER_ARRAY"
    and "pr_effectiveMode res = (if pi_mode inp = WithAdditionalPermissions \<and> fr = [] \<and> fw = [] \<and> net = None
           then UseDefault else pi_mode inp)"
    and "pi_mode inp = WithAdditionalPermissions \<Longrightarrow> fr = [] \<Longrightarrow> fw = [] \<Longrightarrow> net = None \<Longrightarrow> den \<noteq> []"
  using assms
  by (auto simp: finish_request_def profile_entries_def list_opt_def Let_def not_less split: if_splits sum.splits)

lemma validate_Inr:
  assumes "validateAndNormalize parse inp = Inr res"
  obtains cleaned denyRaw parsed fr fw where
    "stripAccessNoneEntries (pi_raw inp) = Inr (cleaned, denyRaw)" and "parse_request parse cleaned = Inr parsed"
    and "normal_paths inp (case parsed of None \<Rightarrow> [] | Some r \<Rightarrow> list_opt (rq_read r))
           (case parsed of None \<Rightarrow> [] | Some r \<Rightarrow> list_opt (rq_write r)) = Inr (fr, fw)"
    and "finish_request inp (map (classify_denied inp) denyRaw) (case parsed of None \<Rightarrow> None | Some r \<Rightarrow> rq_network r) fr fw
           = Inr res"
  using assms
  by (auto simp: validateAndNormalize_def Let_def split: sum.splits prod.splits)

lemma granted_entries:
  assumes "normal_paths inp rd wr = Inr (fr, fw)"
    and "map_err (grant_entry inp Write) fw = Inr writes" and "map_err (grant_entry inp Read) fr = Inr reads"
  shows "list_all (entry_ok inp) (writes @ reads)" and "distinct (map fe_path (writes @ reads))"
    and "length (writes @ reads) = length fr + length fw"
proof -
  note wp = map_grant_paths [OF assms(2)] and rp = map_grant_paths [OF assms(3)]
  show "list_all (entry_ok inp) (writes @ reads)"
    using normal_paths_Inr(2) [OF assms(1)] map_grant_ok [OF assms(2)] map_grant_ok [OF assms(3)] by simp
  show "distinct (map fe_path (writes @ reads))"
    using normal_paths_Inr(1) [OF assms(1)] by (auto simp: wp rp)
  show "length (writes @ reads) = length fr + length fw"
    using arg_cong [OF wp, of length] arg_cong [OF rp, of length] by simp
qed

lemma entries_by_access:
  assumes "map_err (grant_entry inp Write) fw = Inr writes" and "map_err (grant_entry inp Read) fr = Inr reads"
  shows "(\<exists>e\<in>set (writes @ reads). fe_path e = p \<and> fe_access e = a) \<longleftrightarrow> p \<in> set (if a = Write then fw else fr)"
proof -
  have w: "p \<in> set fw \<longleftrightarrow> (\<exists>e\<in>set writes. fe_path e = p)" and r: "p \<in> set fr \<longleftrightarrow> (\<exists>e\<in>set reads. fe_path e = p)"
    using map_grant_paths [OF assms(1)] map_grant_paths [OF assms(2)] by (auto simp: image_iff)
  have "list_all (\<lambda>e. fe_access e = Write) writes" "list_all (\<lambda>e. fe_access e = Read) reads"
    using map_grant_access [OF assms(1)] map_grant_access [OF assms(2)] by simp_all
  then show ?thesis by (cases a) (auto simp: w r list_all_iff)
qed

text \<open>
  C29: Every path of a validated profile was classified as grantable for its access, no path occurs twice, there are
  at most sixteen, and the mode is the requested one unless nothing but denials was requested.
\<close>

theorem granted_profile_ok:
  assumes "validateAndNormalize parse inp = Inr res"
  shows "list_all (entry_ok inp) (profile_entries (pr_profile res)) \<and>
    distinct (map fe_path (profile_entries (pr_profile res))) \<and>
    length (profile_entries (pr_profile res)) \<le> 16 \<and>
    (pr_effectiveMode res = pi_mode inp \<or>
       pr_effectiveMode res = UseDefault \<and> pr_profile res = \<lparr>xp_network = None, xp_file_system = None\<rparr> \<and>
       pr_denyRead res \<noteq> [])"
proof -
  obtain den fr fw and parsed :: "parsed_request option" where np: "normal_paths inp (case parsed of None \<Rightarrow> [] | Some r \<Rightarrow> list_opt (rq_read r))
           (case parsed of None \<Rightarrow> [] | Some r \<Rightarrow> list_opt (rq_write r)) = Inr (fr, fw)"
    and fin: "finish_request inp den (case parsed of None \<Rightarrow> None | Some r \<Rightarrow> rq_network r) fr fw = Inr res"
    by (rule validate_Inr [OF assms]) blast
  show ?thesis
  proof (rule finish_request_Inr [OF fin], goal_cases)
    case (1 writes reads)
    note g = granted_entries [OF np 1(1,2)]
    have fs: "xp_file_system (pr_profile res) = None" if "fr = []" "fw = []"
      using fin that by (auto simp: finish_request_def Let_def split: if_splits)
    have "pr_effectiveMode res = pi_mode inp \<or>
       pr_effectiveMode res = UseDefault \<and> pr_profile res = \<lparr>xp_network = None, xp_file_system = None\<rparr> \<and>
       pr_denyRead res \<noteq> []"
      using 1(4,5,7,8) fs by (cases "pr_profile res") (auto split: if_splits)
    then show ?case using g 1(3,6) by (simp add: MAX_PER_ARRAY_def)
  qed
qed

text \<open>
  A validated profile grants exactly what was requested: writing to the real paths of the requested writes, and
  reading the real paths of the requested reads that are not granted for writing.
\<close>

theorem granted_profile_complete:
  assumes "validateAndNormalize parse inp = Inr res"
    and "stripAccessNoneEntries (pi_raw inp) = Inr (Some j, denied)" and "j \<noteq> JNull" and "parse j = Inr rq"
  shows "((\<exists>e\<in>set (profile_entries (pr_profile res)). fe_path e = p \<and> fe_access e = Write) \<longleftrightarrow>
            (\<exists>q\<in>set (list_opt (rq_write rq)). pi_canonicalize inp q = Inr p)) \<and>
    ((\<exists>e\<in>set (profile_entries (pr_profile res)). fe_path e = p \<and> fe_access e = Read) \<longleftrightarrow>
            (\<exists>q\<in>set (list_opt (rq_read rq)). pi_canonicalize inp q = Inr p) \<and>
            (\<nexists>q. q \<in> set (list_opt (rq_write rq)) \<and> pi_canonicalize inp q = Inr p)) \<and>
    xp_network (pr_profile res) = rq_network rq"
proof -
  have parsed: "parse_request parse (Some j) = Inr (Some rq)"
    using assms(3,4) by (cases j) (auto simp: parse_request_def)
  obtain fr fw where np: "normal_paths inp (list_opt (rq_read rq)) (list_opt (rq_write rq)) = Inr (fr, fw)"
    and fin: "finish_request inp (map (classify_denied inp) denied) (rq_network rq) fr fw = Inr res"
    by (rule validate_Inr [OF assms(1)]) (use assms(2) parsed in auto)
  show ?thesis
  proof (rule finish_request_Inr [OF fin], goal_cases)
    case (1 writes reads)
    note acc = entries_by_access [OF 1(1,2), of p]
    show ?case
      using acc [of Write] acc [of Read] normal_paths_Inr(3,4) [OF np, of p] 1(3,4) by (simp only: simp_thms if_True if_False path_access.distinct) blast
  qed
qed

lemma grant_entry_Inl:
  "grant_entry inp a p = Inl e \<Longrightarrow>
     is_validation_error e \<or> (\<exists>c. classifyPathSensitivity (pi_home inp) p a (pi_options inp) = Inl c)"
  by (auto simp: grant_entry_def is_validation_error_def split: sum.splits if_splits)

lemma finish_request_Inl:
  assumes "finish_request inp den net fr fw = Inl e"
  shows "is_validation_error e \<or> (\<exists>p\<in>set (fr @ fw). \<exists>a c. classifyPathSensitivity (pi_home inp) p a (pi_options inp) = Inl c)"
proof -
  consider "is_validation_error e" | "map_err (grant_entry inp Write) fw = Inl e" | "map_err (grant_entry inp Read) fr = Inl e"
    using assms by (auto simp: finish_request_def Let_def is_validation_error_def split: if_splits sum.splits)
  then show ?thesis
    by cases (simp, (auto dest!: map_err_Inl dest: grant_entry_Inl)+)
qed

lemma classify_throws: "classifyPathSensitivity h p a opts = Inl e \<longleftrightarrow> path_defect p = Some e"
  by (auto simp: classifyPathSensitivity_def Let_def split: option.splits)

lemma normal_paths_Inl:
  assumes "normal_paths inp rd wr = Inl e" and "\<And>q e. pi_canonicalize inp q = Inl e \<Longrightarrow> is_validation_error e"
  shows "is_validation_error e"
  using assms(1)
  by (auto simp: normal_paths_def Let_def validatePathString_def absolute_check_def
      split: sum.splits if_splits option.splits dest!: map_err_Inl assms(2), auto simp: is_validation_error_def)

text \<open>
  The default canonicalisation returns a canonical path, or a validation error, if the system's real paths are
  canonical.
\<close>

lemma canonicalizePath_canonical:
  assumes "canonicalizePath cwd realpath q = Inr p" and "\<And>x r. realpath x = Inr r \<Longrightarrow> canonical r"
  shows "canonical p"
  using assms by (auto simp: canonicalizePath_def Let_def split: sum.splits if_splits)

lemma canonicalizePath_error: "canonicalizePath cwd realpath q = Inl e \<Longrightarrow> is_validation_error e"
  by (auto simp: canonicalizePath_def Let_def is_validation_error_def split: sum.splits if_splits)

text \<open>
  With canonical real paths every refusal is a validation error that the model gets to see, unless a requested
  path holds a tilde.
\<close>

theorem refusals_are_validation_errors:
  assumes "validateAndNormalize parse (inp\<lparr>pi_canonicalize := canonicalizePath cwd realpath\<rparr>) = Inl e"
    and "\<And>x r. realpath x = Inr r \<Longrightarrow> canonical r"
  shows "is_validation_error e \<or> (\<exists>q p. canonicalizePath cwd realpath q = Inr p \<and> CHR ''~'' \<in> set p)"
proof -
  let ?inp = "inp\<lparr>pi_canonicalize := canonicalizePath cwd realpath\<rparr>"
  consider (strip) "stripAccessNoneEntries (pi_raw ?inp) = Inl e"
    | (parse) cleaned where "parse_request parse cleaned = Inl e"
    | (norm) rd wr where "normal_paths ?inp rd wr = Inl e"
    | (fin) den net rd wr fr fw where "normal_paths ?inp rd wr = Inr (fr, fw)" "finish_request ?inp den net fr fw = Inl e"
    using assms(1) unfolding validateAndNormalize_def by (fastforce simp: Let_def split: sum.splits prod.splits)
  then show ?thesis
  proof cases
    case strip
    then show ?thesis
      by (auto simp: stripAccessNoneEntries_def Let_def is_validation_error_def split: option.splits json.splits if_splits)
  next
    case parse
    then show ?thesis
      by (auto simp: parse_request_def is_validation_error_def split: option.splits json.splits sum.splits)
  next
    case norm
    then show ?thesis using normal_paths_Inl canonicalizePath_error by fastforce
  next
    case fin
    then consider "is_validation_error e"
      | p where "p \<in> set (fr @ fw)" "path_defect p \<noteq> None"
      using finish_request_Inl [OF fin(2)] by (auto simp: classify_throws)
    then show ?thesis
    proof cases
      case 2
      then obtain q where q: "canonicalizePath cwd realpath q = Inr p"
        using normal_paths_Inr(3,4) [OF fin(1), of p] by auto
      then have "canonical p" using canonicalizePath_canonical assms(2) by blast
      then have "CHR ''~'' \<in> set p" using canonical_no_defect 2(2) by (rule_tac ccontr) simp
      then show ?thesis using q by blast
    qed simp
  qed
qed

section \<open>Witnesses\<close>

definition demo_parse :: "json \<Rightarrow> string + parsed_request" where
  "demo_parse j = Inr \<lparr>rq_network = None, rq_read = Some [''/b'', ''/a''], rq_write = Some [''/a'', ''/a'']\<rparr>"

definition demo_input :: permissions_input where
  "demo_input = \<lparr>pi_raw = Some (JObj []), pi_mode = WithAdditionalPermissions,
     pi_home = \<lparr>env_HOME = Some ''/h'', os_homedir = ''/root''\<rparr>,
     pi_options = \<lparr>opt_homeDir = None, opt_magisterInstallDir = None, opt_workspaceRoot = None\<rparr>,
     pi_canonicalize = Inr\<rparr>"

definition demo_result :: permissions_result where
  "demo_result = \<lparr>pr_effectiveMode = WithAdditionalPermissions,
     pr_profile = \<lparr>xp_network = None, xp_file_system = Some
       [\<lparr>fe_path = ''/a'', fe_access = Write, fe_sensitivity = Caution, fe_reason = OtherPath\<rparr>,
        \<lparr>fe_path = ''/b'', fe_access = Read, fe_sensitivity = Caution, fe_reason = OtherPath\<rparr>]\<rparr>,
     pr_denyRead = []\<rparr>"

lemma demo_validates: "validateAndNormalize demo_parse demo_input = Inr demo_result"
  by code_simp

theorem granted_profile_ok_witness:
  "list_all (entry_ok demo_input) (profile_entries (pr_profile demo_result)) \<and>
   length (profile_entries (pr_profile demo_result)) = 2"
  using granted_profile_ok [OF demo_validates] by (simp add: demo_result_def profile_entries_def list_opt_def)

theorem granted_profile_complete_witness:
  "\<not> (\<exists>e\<in>set (profile_entries (pr_profile demo_result)). fe_path e = ''/c'' \<and> fe_access e = Write)"
proof -
  have j: "JObj [] \<noteq> JNull" by simp
  have strip: "stripAccessNoneEntries (pi_raw demo_input) = Inr (Some (JObj []), [])" by code_simp
  have parse: "demo_parse (JObj []) = Inr (projr (demo_parse JNull))" by (simp add: demo_parse_def)
  from granted_profile_complete [OF demo_validates strip j parse, of "''/c''"]
  show ?thesis by (simp add: demo_input_def demo_parse_def list_opt_def)
qed

text \<open>A request for a backup file is refused with an error of the classifier, which the model does not get to see.\<close>

definition tilde_parse :: "json \<Rightarrow> string + parsed_request" where
  "tilde_parse j = Inr \<lparr>rq_network = None, rq_read = Some [''/w/a~''], rq_write = None\<rparr>"

theorem tilde_is_not_a_validation_error:
  "validateAndNormalize tilde_parse (demo_input\<lparr>pi_canonicalize := canonicalizePath ''/w'' Inr\<rparr>)
     = Inl (ClassifierThrew (HasTilde ''/w/a~'')) \<and>
   \<not> is_validation_error (ClassifierThrew (HasTilde ''/w/a~''))"
  by code_simp

theorem refusals_are_validation_errors_witness:
  "is_validation_error (PathCanonicalizeFailed ''EACCES'')"
proof -
  have run: "validateAndNormalize demo_parse (demo_input\<lparr>pi_canonicalize := canonicalizePath ''/w'' (\<lambda>_. Inl ''EACCES'')\<rparr>)
     = Inl (PathCanonicalizeFailed ''EACCES'')"
    by code_simp
  have "\<not> (\<exists>q p. canonicalizePath ''/w'' (\<lambda>_. Inl ''EACCES'') q = Inr p \<and> CHR ''~'' \<in> set p)"
    by (simp add: canonicalizePath_def)
  with refusals_are_validation_errors [OF run] show ?thesis by simp
qed

end
