(* ===== verification/Execution_Sandbox.thy ===== *)
theory Execution_Sandbox
  imports Extra_Permissions
begin

text \<open>
  The sandbox of a command (\<open>apps/api/src/services/safe-apply/execution-sandbox-service.ts\<close>) with the environment
  lookups and the operator's extra roots it uses (\<open>lib/env.ts\<close>, \<open>lib/extra-access-roots.ts\<close>): the assessment of the
  host, the plan for one command, and the full argument list of the wrapper. The file system is a record of
  what the calls of one synchronous function see; a mount is a datatype whose rendering gives the arguments.
\<close>

type_synonym env = "string \<Rightarrow> string option"

record host_fs =
  fs_exists :: "string \<Rightarrow> bool"
  fs_realpath :: "string \<Rightarrow> string + string"
  fs_readdir :: "string \<Rightarrow> string list option"
  fs_executable :: "string \<Rightarrow> bool"
  fs_cwd :: string

section \<open>Settings\<close>

text \<open>\<open>newName\<close> without its prefix: the three names are tried in this order. The warning is not modelled.\<close>

definition getMagisterEnv :: "string \<Rightarrow> env \<Rightarrow> string option" where
  "getMagisterEnv name e =
    (case e (''MAGISTER_'' @ name) of
       Some v \<Rightarrow> Some v
     | None \<Rightarrow> (case e (''UCM_'' @ name) of Some v \<Rightarrow> Some v | None \<Rightarrow> e (''ULTIMATE_'' @ name)))"

record access_root =
  ar_root :: string
  ar_writable :: bool

text \<open>One entry of the list, before its root is resolved: the candidate path and its access.\<close>

definition split_access_suffix :: "string \<Rightarrow> string \<times> bool" where
  "split_access_suffix entry =
    (if ends_with entry '':rw'' then (take (length entry - 3) entry, True)
     else if ends_with entry '':ro'' then (take (length entry - 3) entry, False)
     else (entry, False))"

definition add_access_root :: "access_root \<Rightarrow> access_root list \<Rightarrow> access_root list" where
  "add_access_root r rs =
    (if ar_root r \<in> ar_root ` set rs
     then (if ar_writable r then map (\<lambda>x. if ar_root x = ar_root r then x\<lparr>ar_writable := True\<rparr> else x) rs else rs)
     else rs @ [r])"

fun parse_roots :: "host_fs \<Rightarrow> access_root list \<Rightarrow> string list \<Rightarrow> access_root list" where
  "parse_roots fs out [] = out"
| "parse_roots fs out (part # parts) =
    (let entry = js_trim part; (candidate, writable) = split_access_suffix entry in
     if entry = [] then parse_roots fs out parts
     else if \<not> isAbsolute candidate then parse_roots fs out parts
     else let lexical = path_resolve (fs_cwd fs) candidate;
              root = (case fs_realpath fs lexical of Inr p \<Rightarrow> p | Inl _ \<Rightarrow> lexical)
          in parse_roots fs (add_access_root \<lparr>ar_root = root, ar_writable = writable\<rparr> out) parts)"

definition parseExtraAccessRoots :: "host_fs \<Rightarrow> env \<Rightarrow> access_root list" where
  "parseExtraAccessRoots fs e =
    (let raw = getMagisterEnv ''EXTRA_ACCESS_ROOTS'' e in
     if truthy_str raw then parse_roots fs [] (js_split (CHR '','') (the raw)) else [])"

definition matchExtraAccessRoot :: "access_root list \<Rightarrow> string \<Rightarrow> access_root option" where
  "matchExtraAccessRoot roots p = find (\<lambda>r. p = ar_root r \<or> starts_with p (ar_root r @ ''/'')) roots"

datatype wrap_mode = ModeOff | ModeOptional | ModeRequired

datatype sandbox_preference = PreferAuto | PreferBubblewrap | PreferNone

datatype sandbox_network = NetHost | NetDisabled | NetUnknown

datatype sandbox_provider = ProviderNone | Bubblewrap

datatype sandbox_state = Disabled | Unavailable | Available | Active

datatype main_access = MainNotIsolated | MainReadOnly | MainHidden | MainSandboxWritable | MainUnknown

datatype runtime_access = RuntimeHostWritable | RuntimeSandboxWritable | RuntimeUnknown

datatype dir_isolation = DirHost | DirIsolated | DirUnknown

record sandbox_filesystem =
  sf_mainWorkspace :: main_access
  sf_runtimeWorkspace :: runtime_access
  sf_home :: dir_isolation
  sf_tmp :: dir_isolation

record sandbox_metadata =
  sm_mode :: wrap_mode
  sm_provider :: sandbox_provider
  sm_status :: sandbox_state
  sm_commandPath :: "string option"
  sm_reason :: "string option"
  sm_network :: sandbox_network
  sm_filesystem :: sandbox_filesystem

definition VALID_MODES :: "(string \<times> wrap_mode) list" where
  "VALID_MODES = [(''off'', ModeOff), (''optional'', ModeOptional), (''required'', ModeRequired)]"

definition VALID_PROVIDERS :: "(string \<times> sandbox_preference) list" where
  "VALID_PROVIDERS = [(''auto'', PreferAuto), (''bubblewrap'', PreferBubblewrap), (''none'', PreferNone)]"

definition VALID_NETWORK :: "(string \<times> sandbox_network) list" where
  "VALID_NETWORK = [(''host'', NetHost), (''disabled'', NetDisabled), (''unknown'', NetUnknown)]"

definition parseConfigValue :: "string option \<Rightarrow> (string \<times> 'a) list \<Rightarrow> 'a \<Rightarrow> 'a" where
  "parseConfigValue v valid fallback =
    (case v of None \<Rightarrow> fallback
     | Some s \<Rightarrow> (let normalized = to_lower (js_trim s) in
         if normalized = [] then fallback
         else case map_of valid normalized of None \<Rightarrow> fallback | Some x \<Rightarrow> x))"

record sandbox_config =
  sc_mode :: wrap_mode
  sc_provider :: sandbox_preference
  sc_network :: sandbox_network

definition resolveExecutionSandboxConfig :: "env \<Rightarrow> sandbox_config" where
  "resolveExecutionSandboxConfig e =
    \<lparr>sc_mode = parseConfigValue (getMagisterEnv ''EXECUTION_SANDBOX_MODE'' e) VALID_MODES ModeOptional,
     sc_provider = parseConfigValue (getMagisterEnv ''EXECUTION_SANDBOX_PROVIDER'' e) VALID_PROVIDERS PreferAuto,
     sc_network = parseConfigValue (getMagisterEnv ''EXECUTION_SANDBOX_NETWORK'' e) VALID_NETWORK NetHost\<rparr>"

section \<open>Assessing the host\<close>

definition resolveCommandPath :: "host_fs \<Rightarrow> env \<Rightarrow> string \<Rightarrow> env \<Rightarrow> string option" where
  "resolveCommandPath fs process_env command e =
    (if isAbsolute command then (if fs_executable fs command then Some command else None)
     else let pathValue = (case e ''PATH'' of Some p \<Rightarrow> p
                | None \<Rightarrow> (case process_env ''PATH'' of Some p \<Rightarrow> p | None \<Rightarrow> []))
          in find (fs_executable fs)
               (map (\<lambda>dir. path_join [dir, command]) (filter (\<lambda>d. d \<noteq> []) (js_split (CHR '':'') pathValue))))"

text \<open>The partial configuration of a caller; \<open>commandResolver\<close> replaces the search of the path.\<close>

record partial_config =
  pc_mode :: "wrap_mode option"
  pc_provider :: "sandbox_preference option"
  pc_network :: "sandbox_network option"
  pc_env :: "env option"
  pc_commandResolver :: "(string \<Rightarrow> env \<Rightarrow> string option) option"

definition or_else :: "'a option \<Rightarrow> 'a \<Rightarrow> 'a" where
  "or_else x d = (case x of Some v \<Rightarrow> v | None \<Rightarrow> d)"

definition assessExecutionSandbox :: "host_fs \<Rightarrow> env \<Rightarrow> bool \<Rightarrow> partial_config \<Rightarrow> sandbox_metadata" where
  "assessExecutionSandbox fs process_env homeIsolated cfg =
    (let e = or_else (pc_env cfg) process_env;
         defaults = resolveExecutionSandboxConfig e;
         mode = or_else (pc_mode cfg) (sc_mode defaults);
         provider = or_else (pc_provider cfg) (sc_provider defaults);
         network = or_else (pc_network cfg) (sc_network defaults);
         filesystem = \<lparr>sf_mainWorkspace = MainNotIsolated, sf_runtimeWorkspace = RuntimeHostWritable,
           sf_home = (if homeIsolated then DirIsolated else DirHost), sf_tmp = DirHost\<rparr>;
         result = (\<lambda>pr st cp reason. \<lparr>sm_mode = mode, sm_provider = pr, sm_status = st, sm_commandPath = cp,
           sm_reason = Some reason, sm_network = network, sm_filesystem = filesystem\<rparr>)
     in if mode = ModeOff then result ProviderNone Disabled None ''mode_off''
        else if provider = PreferNone then result ProviderNone Disabled None ''provider_none''
        else let commandPath = (or_else (pc_commandResolver cfg) (resolveCommandPath fs process_env)) ''bwrap'' e
             in if \<not> truthy_str commandPath then result Bubblewrap Unavailable None ''provider_not_found''
                else result Bubblewrap Available commandPath ''provider_available_not_wrapping'')"

section \<open>The arguments of the wrapper\<close>

datatype mount =
    RoBind string string
  | RwBind string string
  | Tmpfs string
  | MakeDir string

fun mount_args :: "mount \<Rightarrow> string list" where
  "mount_args (RoBind src dst) = [''--ro-bind'', src, dst]"
| "mount_args (RwBind src dst) = [''--bind'', src, dst]"
| "mount_args (Tmpfs dst) = [''--tmpfs'', dst]"
| "mount_args (MakeDir dst) = [''--dir'', dst]"

record extra_bind =
  eb_path :: string
  eb_access :: path_access

record bwrap_input =
  bw_bwrapCommandPath :: string
  bw_command :: string
  bw_args :: "string list"
  bw_cwd :: string
  bw_env :: env
  bw_baseWorkspaceDir :: "string option"
  bw_runtimeWorkspaceDir :: string
  bw_runtimeHomeDir :: string
  bw_runtimeTmpDir :: string
  bw_network :: sandbox_network
  bw_systemReadOnlyBinds :: "string list option"
  bw_extraBinds :: "extra_bind list option"
  bw_classifyOptions :: "classify_options option"
  bw_allowNetwork :: bool

datatype bind_error =
    ClassifyOptionsRequired
  | ReservedTarget string
  | BindCanonicalizeFailed string
  | CanonicalMismatch
  | NowCritical path_reason
  | BindClassifierThrew path_error

definition DEFAULT_SYSTEM_READ_ONLY_BINDS :: "string list" where
  "DEFAULT_SYSTEM_READ_ONLY_BINDS = [''/usr'', ''/bin'', ''/lib'', ''/lib64'', ''/etc'']"

definition resolveHostDnsConfigPath :: "host_fs \<Rightarrow> string option" where
  "resolveHostDnsConfigPath fs =
    (case fs_realpath fs ''/etc/resolv.conf'' of
       Inl _ \<Rightarrow> None
     | Inr real \<Rightarrow> if real \<noteq> [] \<and> fs_exists fs real then Some real else None)"

definition collectCommandReadOnlyBinds :: "host_fs \<Rightarrow> string \<Rightarrow> env \<Rightarrow> string list" where
  "collectCommandReadOnlyBinds fs command e =
    (let candidates = (if isAbsolute command then [command]
           else map (\<lambda>dir. path_join [dir, command])
                  (filter (\<lambda>d. d \<noteq> []) (js_split (CHR '':'') (or_else (e ''PATH'') []))));
         binds = (case find (fs_exists fs) candidates of
             None \<Rightarrow> []
           | Some c \<Rightarrow> path_dirname c # (case fs_realpath fs c of Inl _ \<Rightarrow> [] | Inr r \<Rightarrow> [path_dirname r]))
     in filter (\<lambda>p. p \<noteq> [] \<and> p \<noteq> ''/'') binds)"

definition read_only_binds :: "host_fs \<Rightarrow> bwrap_input \<Rightarrow> string list" where
  "read_only_binds fs inp =
    (let systemBinds = filter (\<lambda>p. bw_systemReadOnlyBinds inp \<noteq> None \<or> fs_exists fs p)
           (nub (filter (\<lambda>p. p \<noteq> []) (or_else (bw_systemReadOnlyBinds inp) DEFAULT_SYSTEM_READ_ONLY_BINDS)))
     in nub (systemBinds @ collectCommandReadOnlyBinds fs (bw_command inp) (bw_env inp)))"

text \<open>The loop over the extra roots; \<open>bound\<close> is the set \<open>extraBoundRoots\<close>.\<close>

fun root_mounts :: "host_fs \<Rightarrow> string list \<Rightarrow> access_root list \<Rightarrow> mount list" where
  "root_mounts fs bound [] = []"
| "root_mounts fs bound (r # rs) =
    (if ar_root r \<in> set bound \<or> \<not> fs_exists fs (ar_root r) then root_mounts fs bound rs
     else (if ar_writable r then RwBind (ar_root r) (ar_root r) else RoBind (ar_root r) (ar_root r))
          # root_mounts fs (ar_root r # bound) rs)"

text \<open>The loop over the granted paths: the mounts, and the paths that no longer exist.\<close>

fun grant_mounts :: "host_fs \<Rightarrow> host_home \<Rightarrow> classify_options \<Rightarrow> string list \<Rightarrow> extra_bind list
    \<Rightarrow> bind_error + (mount list \<times> string list)" where
  "grant_mounts fs h opts reserved [] = Inr ([], [])"
| "grant_mounts fs h opts reserved (b # bs) =
    (if eb_path b \<in> set reserved then Inl (ReservedTarget (eb_path b))
     else case fs_realpath fs (eb_path b) of
       Inl code \<Rightarrow>
         if code = ''ENOENT''
         then map_sum id (\<lambda>(ms, missing). (ms, eb_path b # missing)) (grant_mounts fs h opts reserved bs)
         else Inl (BindCanonicalizeFailed code)
     | Inr c \<Rightarrow>
         if c \<noteq> eb_path b then Inl CanonicalMismatch
         else case classifyPathSensitivity h c (eb_access b) opts of
           Inl e \<Rightarrow> Inl (BindClassifierThrew e)
         | Inr cls \<Rightarrow>
             if pc_level cls = Critical then Inl (NowCritical (pc_reason cls))
             else map_sum id (\<lambda>(ms, missing). ((if eb_access b = Write then RwBind c c else RoBind c c) # ms, missing))
                    (grant_mounts fs h opts reserved bs))"

fun dir_prefixes :: "string \<Rightarrow> string list \<Rightarrow> mount list" where
  "dir_prefixes acc [] = []"
| "dir_prefixes acc (seg # segs) = (let a = acc @ ''/'' @ seg in MakeDir a # dir_prefixes a segs)"

definition dns_mounts :: "host_fs \<Rightarrow> mount list" where
  "dns_mounts fs =
    (case resolveHostDnsConfigPath fs of
       None \<Rightarrow> []
     | Some p \<Rightarrow> if starts_with p ''/''
         then dir_prefixes [] (filter (\<lambda>s. s \<noteq> []) (js_split slash (path_dirname p))) @ [RoBind p p]
         else [])"

definition is_masked_env_file :: "string \<Rightarrow> bool" where
  "is_masked_env_file name \<longleftrightarrow> name = ''.env'' \<or> (starts_with name ''.env.'' \<and> name \<noteq> ''.env.example'')"

definition sensitive_masks :: "host_fs \<Rightarrow> string \<Rightarrow> mount list" where
  "sensitive_masks fs dir =
    (if dir = [] then []
     else let fileMasks = nub (''config/secrets.json'' #
                (case fs_readdir fs dir of None \<Rightarrow> [] | Some names \<Rightarrow> filter is_masked_env_file names));
              targets = map (\<lambda>rel. path_join [dir, rel]) fileMasks;
              magisterDir = path_join [dir, ''.magister'']
          in map (RoBind ''/dev/null'') (filter (fs_exists fs) targets) @
             (if fs_exists fs magisterDir then [Tmpfs magisterDir] else []))"

definition base_dirs :: "bwrap_input \<Rightarrow> string list" where
  "base_dirs inp = (if truthy_str (bw_baseWorkspaceDir inp) then [the (bw_baseWorkspaceDir inp)] else [])"

definition all_masks :: "host_fs \<Rightarrow> bwrap_input \<Rightarrow> mount list" where
  "all_masks fs inp =
    sensitive_masks fs (bw_runtimeWorkspaceDir inp) @
    concat (map (sensitive_masks fs) (filter (\<lambda>b. b \<noteq> bw_runtimeWorkspaceDir inp) (base_dirs inp)))"

text \<open>The mounts up to the granted paths.\<close>

definition workspace_mounts :: "host_fs \<Rightarrow> bwrap_input \<Rightarrow> mount list" where
  "workspace_mounts fs inp =
    map (\<lambda>p. RoBind p p) (read_only_binds fs inp) @
    root_mounts fs (read_only_binds fs inp) (parseExtraAccessRoots fs (bw_env inp)) @
    [RwBind ''/tmp'' ''/tmp''] @
    map (\<lambda>b. RoBind b b) (base_dirs inp) @
    [RwBind (bw_runtimeWorkspaceDir inp) (bw_runtimeWorkspaceDir inp),
     RwBind (bw_runtimeHomeDir inp) (bw_runtimeHomeDir inp)]"

record bwrap_command =
  bc_command :: string
  bc_args :: "string list"
  bc_cwd :: string
  bc_env :: env
  bc_missingExtraBinds :: "string list"

definition fixed_args :: "bwrap_input \<Rightarrow> string list" where
  "fixed_args inp = [''--die-with-parent'', ''--dev'', ''/dev'', ''--proc'', ''/proc''] @
     (if bw_network inp = NetDisabled \<and> \<not> bw_allowNetwork inp then [''--unshare-net''] else [])"

definition all_mounts :: "host_fs \<Rightarrow> host_home \<Rightarrow> bwrap_input \<Rightarrow> bind_error + (mount list \<times> string list)" where
  "all_mounts fs h inp =
    (let extra = list_opt (bw_extraBinds inp);
         reserved = base_dirs inp @ [bw_runtimeWorkspaceDir inp, bw_runtimeHomeDir inp, bw_runtimeTmpDir inp];
         wrap = (\<lambda>(ms, missing). (workspace_mounts fs inp @ ms @ dns_mounts fs @ all_masks fs inp, missing))
     in if extra = [] then Inr (wrap ([], []))
        else case bw_classifyOptions inp of
          None \<Rightarrow> Inl ClassifyOptionsRequired
        | Some opts \<Rightarrow> map_sum id wrap (grant_mounts fs h opts reserved extra))"

definition buildBubblewrapSandboxCommand :: "host_fs \<Rightarrow> host_home \<Rightarrow> bwrap_input \<Rightarrow> bind_error + bwrap_command" where
  "buildBubblewrapSandboxCommand fs h inp =
    map_sum id (\<lambda>(ms, missing).
      \<lparr>bc_command = bw_bwrapCommandPath inp,
       bc_args = fixed_args inp @ concat (map mount_args ms) @
         [''--chdir'', bw_cwd inp, ''--'', bw_command inp] @ bw_args inp,
       bc_cwd = bw_cwd inp, bc_env = bw_env inp, bc_missingExtraBinds = missing\<rparr>)
     (all_mounts fs h inp)"

section \<open>The plan for a command\<close>

record command_input =
  ci_bwrap :: bwrap_input
  ci_executionSandbox :: "sandbox_metadata option"
  ci_allowSameWorkspace :: bool

datatype command_plan =
    Unwrapped "sandbox_metadata option"
  | Wrapped bwrap_command sandbox_metadata
  | Failed "sandbox_metadata option" string
  | PlanThrew bind_error

definition canonicalPath :: "host_fs \<Rightarrow> string \<Rightarrow> string" where
  "canonicalPath fs p = (case fs_realpath fs p of Inr r \<Rightarrow> r | Inl _ \<Rightarrow> path_resolve (fs_cwd fs) p)"

fun state_name :: "sandbox_state \<Rightarrow> string" where
  "state_name Disabled = ''disabled''"
| "state_name Unavailable = ''unavailable''"
| "state_name Available = ''available''"
| "state_name Active = ''active''"

definition failedPlan :: "sandbox_metadata option \<Rightarrow> command_plan" where
  "failedPlan sandbox = Failed sandbox (''Execution sandbox required but not active: '' @
     (case sandbox of None \<Rightarrow> ''unavailable''
      | Some s \<Rightarrow> (case sm_reason s of Some r \<Rightarrow> r | None \<Rightarrow> state_name (sm_status s))))"

text \<open>\<open>baseWorkspaceDir\<close> is present, not empty, and leads to the same directory as the runtime workspace.\<close>

definition same_workspace :: "host_fs \<Rightarrow> bwrap_input \<Rightarrow> bool" where
  "same_workspace fs b \<longleftrightarrow> truthy_str (bw_baseWorkspaceDir b) \<and>
     canonicalPath fs (the (bw_baseWorkspaceDir b)) = canonicalPath fs (bw_runtimeWorkspaceDir b)"

definition not_wrapped :: "sandbox_metadata \<Rightarrow> command_plan" where
  "not_wrapped s = (if sm_mode s = ModeRequired then failedPlan (Some s) else Unwrapped (Some s))"

text \<open>The caller opted in to running in the base workspace itself.\<close>

definition opted_same :: "host_fs \<Rightarrow> command_input \<Rightarrow> bool" where
  "opted_same fs inp \<longleftrightarrow> ci_allowSameWorkspace inp \<and> bw_baseWorkspaceDir (ci_bwrap inp) \<noteq> None \<and>
     canonicalPath fs (the (bw_baseWorkspaceDir (ci_bwrap inp))) = canonicalPath fs (bw_runtimeWorkspaceDir (ci_bwrap inp))"

definition wrapped_metadata :: "host_fs \<Rightarrow> command_input \<Rightarrow> sandbox_metadata \<Rightarrow> sandbox_metadata" where
  "wrapped_metadata fs inp sandbox = sandbox\<lparr>sm_status := Active,
     sm_reason := Some (if opted_same fs inp then ''wrapped_same_workspace'' else ''wrapped''),
     sm_filesystem := \<lparr>sf_mainWorkspace =
         (if truthy_str (bw_baseWorkspaceDir (ci_bwrap inp))
          then (if opted_same fs inp then MainSandboxWritable else MainReadOnly) else MainUnknown),
       sf_runtimeWorkspace = RuntimeSandboxWritable,
       sf_home = sf_home (sm_filesystem sandbox), sf_tmp = sf_tmp (sm_filesystem sandbox)\<rparr>\<rparr>"

definition wrapped_input :: "host_fs \<Rightarrow> command_input \<Rightarrow> sandbox_metadata \<Rightarrow> bwrap_input" where
  "wrapped_input fs inp sandbox = (ci_bwrap inp)\<lparr>bw_bwrapCommandPath := the (sm_commandPath sandbox),
     bw_network := sm_network sandbox,
     bw_baseWorkspaceDir := (if opted_same fs inp then None else bw_baseWorkspaceDir (ci_bwrap inp))\<rparr>"

definition prepareExecutionSandboxCommand :: "host_fs \<Rightarrow> host_home \<Rightarrow> command_input \<Rightarrow> command_plan" where
  "prepareExecutionSandboxCommand fs h inp =
    (case ci_executionSandbox inp of
       None \<Rightarrow> Unwrapped None
     | Some sandbox \<Rightarrow>
       if sm_mode sandbox = ModeOff then Unwrapped (Some sandbox)
       else if sm_status sandbox = Disabled then not_wrapped sandbox
       else if same_workspace fs (ci_bwrap inp) \<and> \<not> ci_allowSameWorkspace inp
       then not_wrapped (sandbox\<lparr>sm_status := Unavailable, sm_reason := Some ''runtime_workspace_not_isolated''\<rparr>)
       else if sm_provider sandbox \<noteq> Bubblewrap \<or> sm_status sandbox \<noteq> Available \<or> \<not> truthy_str (sm_commandPath sandbox)
       then not_wrapped sandbox
       else (case buildBubblewrapSandboxCommand fs h (wrapped_input fs inp sandbox) of
               Inl e \<Rightarrow> PlanThrew e
             | Inr w \<Rightarrow> Wrapped w (wrapped_metadata fs inp sandbox)))"

section \<open>What a sandboxed command sees\<close>

text \<open>
  The wrapper mounts in the order of its arguments, so a path is served by the last mount whose target is the
  path or a directory above it.
\<close>

fun mount_target :: "mount \<Rightarrow> string option" where
  "mount_target (RoBind src dst) = Some dst"
| "mount_target (RwBind src dst) = Some dst"
| "mount_target (Tmpfs dst) = Some dst"
| "mount_target (MakeDir dst) = None"

definition covers :: "mount \<Rightarrow> string \<Rightarrow> bool" where
  "covers m p = (case mount_target m of None \<Rightarrow> False | Some d \<Rightarrow> startsWithDirOrEquals p d)"

definition visible :: "mount list \<Rightarrow> string \<Rightarrow> mount option" where
  "visible ms p = find (\<lambda>m. covers m p) (rev ms)"

fun writable_mount :: "mount \<Rightarrow> bool" where
  "writable_mount (RwBind _ _) = True"
| "writable_mount _ = False"

definition is_mask :: "mount \<Rightarrow> bool" where
  "is_mask m \<longleftrightarrow> (\<exists>d. m = RoBind ''/dev/null'' d \<or> m = Tmpfs d)"

lemma visible_Nil [simp]: "visible [] p = None"
  by (simp add: visible_def)

lemma find_append: "find f (xs @ ys) = (case find f xs of None \<Rightarrow> find f ys | Some x \<Rightarrow> Some x)"
  by (induction xs) auto

lemma visible_append: "visible (ms @ ns) p = (case visible ns p of None \<Rightarrow> visible ms p | Some m \<Rightarrow> Some m)"
  unfolding visible_def rev_append find_append by (rule refl)

lemma visible_in: "visible ms p = Some m \<Longrightarrow> m \<in> set ms \<and> covers m p"
  by (auto simp: visible_def find_Some_iff) (metis in_set_conv_nth length_rev set_rev)

lemma visible_None: "visible ms p = None \<longleftrightarrow> (\<forall>m\<in>set ms. \<not> covers m p)"
  by (auto simp: visible_def find_None_iff)

lemma visible_last: "\<exists>m\<in>set ns. covers m p \<Longrightarrow> \<exists>m\<in>set ns. visible (ms @ ns) p = Some m"
  by (auto simp: visible_append visible_None split: option.splits dest: visible_in)

lemma sensitive_masks_are_masks: "m \<in> set (sensitive_masks fs dir) \<Longrightarrow> is_mask m"
  by (auto simp: sensitive_masks_def is_mask_def Let_def split: if_splits)

lemma all_masks_are_masks: "m \<in> set (all_masks fs inp) \<Longrightarrow> is_mask m"
  by (auto simp: all_masks_def dest: sensitive_masks_are_masks)

lemma map_sum_Inr_iff: "map_sum id f x = Inr y \<longleftrightarrow> (\<exists>z. x = Inr z \<and> y = f z)"
  by (cases x) auto

definition reserved_targets :: "bwrap_input \<Rightarrow> string list" where
  "reserved_targets inp = base_dirs inp @ [bw_runtimeWorkspaceDir inp, bw_runtimeHomeDir inp, bw_runtimeTmpDir inp]"

lemma all_mounts_Inr:
  assumes "all_mounts fs h inp = Inr (ms, missing)"
  obtains g where "ms = workspace_mounts fs inp @ g @ dns_mounts fs @ all_masks fs inp"
    and "list_opt (bw_extraBinds inp) = [] \<and> g = [] \<and> missing = [] \<or>
      (\<exists>opts. bw_classifyOptions inp = Some opts \<and>
         grant_mounts fs h opts (reserved_targets inp) (list_opt (bw_extraBinds inp)) = Inr (g, missing))"
proof (cases "list_opt (bw_extraBinds inp) = []")
  case True
  then show thesis using assms that [of "[]"] by (simp add: all_mounts_def)
next
  case False
  then obtain opts where "bw_classifyOptions inp = Some opts"
    using assms by (auto simp: all_mounts_def Let_def split: option.splits)
  then show thesis
    using False assms that by (auto simp: all_mounts_def Let_def map_sum_Inr_iff reserved_targets_def)
qed

lemma all_mounts_masks_last:
  assumes "all_mounts fs h inp = Inr (ms, missing)"
  obtains pre where "ms = pre @ all_masks fs inp"
  using assms by (rule all_mounts_Inr) (metis append_assoc that)

text \<open>The directories whose secrets are masked.\<close>

definition masked_dir :: "bwrap_input \<Rightarrow> string \<Rightarrow> bool" where
  "masked_dir inp dir \<longleftrightarrow> dir \<noteq> [] \<and> (dir = bw_runtimeWorkspaceDir inp \<or> dir \<in> set (base_dirs inp))"

lemma masks_of_dir: "masked_dir inp dir \<Longrightarrow> set (sensitive_masks fs dir) \<subseteq> set (all_masks fs inp)"
  by (auto simp: masked_dir_def all_masks_def)

lemma masked_if_covered:
  assumes "all_mounts fs h inp = Inr (ms, missing)" and "masked_dir inp dir"
    and "m \<in> set (sensitive_masks fs dir)" and "covers m p"
  shows "\<exists>m'. visible ms p = Some m' \<and> is_mask m'"
proof -
  obtain pre where ms: "ms = pre @ all_masks fs inp" using all_mounts_masks_last assms(1) by blast
  have "\<exists>m\<in>set (all_masks fs inp). covers m p"
    using masks_of_dir [OF assms(2), of fs] assms(3,4) by blast
  then show ?thesis using visible_last ms all_masks_are_masks by blast
qed

lemma under_self: "d \<noteq> [] \<Longrightarrow> startsWithDirOrEquals d d"
  by (simp add: startsWithDirOrEquals_def)

lemma under_ne: "startsWithDirOrEquals p d \<Longrightarrow> p \<noteq> []"
  by (cases p; cases d) (auto simp: startsWithDirOrEquals_def split: if_splits)

lemma path_join_ne: "path_join ps \<noteq> []"
  by (auto simp: path_join_def path_normalize_def Let_def)

lemma sensitive_path_masked:
  assumes "all_mounts fs h inp = Inr (ms, missing)" and "masked_dir inp dir"
    and "p = path_join [dir, ''config/secrets.json''] \<and> fs_exists fs p \<or>
         (\<exists>names name. fs_readdir fs dir = Some names \<and> name \<in> set names \<and> is_masked_env_file name \<and>
            p = path_join [dir, name] \<and> fs_exists fs p) \<or>
         startsWithDirOrEquals p (path_join [dir, ''.magister'']) \<and> fs_exists fs (path_join [dir, ''.magister''])"
  shows "\<exists>m. visible ms p = Some m \<and> is_mask m"
proof -
  have ne: "dir \<noteq> []" using assms(2) by (simp add: masked_dir_def)
  have "RoBind ''/dev/null'' p \<in> set (sensitive_masks fs dir) \<or>
      Tmpfs (path_join [dir, ''.magister'']) \<in> set (sensitive_masks fs dir) \<and>
      startsWithDirOrEquals p (path_join [dir, ''.magister''])"
    using assms(3) ne by (auto simp: sensitive_masks_def Let_def)
  moreover have "p \<noteq> []"
    using assms(3) path_join_ne under_ne by metis
  ultimately obtain m where "m \<in> set (sensitive_masks fs dir)" "covers m p"
    using under_self [of p] by (auto simp: covers_def)
  then show ?thesis using masked_if_covered [OF assms(1,2)] by blast
qed

text \<open>
  C23: Whatever is granted, mounted for the operator or set by the caller: inside the sandbox the provider keys, the
  environment files and everything below the runtime state of both workspaces are replaced by empty mounts.
\<close>

theorem secrets_are_masked:
  assumes "all_mounts fs h inp = Inr (ms, missing)" and "masked_dir inp dir"
    and "p = path_join [dir, ''config/secrets.json''] \<and> fs_exists fs p \<or>
         (\<exists>names name. fs_readdir fs dir = Some names \<and> name \<in> set names \<and> is_masked_env_file name \<and>
            p = path_join [dir, name] \<and> fs_exists fs p) \<or>
         startsWithDirOrEquals p (path_join [dir, ''.magister'']) \<and> fs_exists fs (path_join [dir, ''.magister''])"
  shows "\<exists>m. visible ms p = Some m \<and> is_mask m"
  using assms by (rule sensitive_path_masked)

text \<open>
  The runtime workspaces the server creates lie below the runtime state of the base workspace. When that
  directory exists, its mask comes after the mount of the runtime workspace and hides it: the command starts
  in a directory that is not there.
\<close>

theorem mask_hides_worktree:
  assumes "all_mounts fs h inp = Inr (ms, missing)" and "truthy_str (bw_baseWorkspaceDir inp)"
    and "base = the (bw_baseWorkspaceDir inp)" and "fs_exists fs (path_join [base, ''.magister''])"
    and "startsWithDirOrEquals (bw_runtimeWorkspaceDir inp) (path_join [base, ''.magister''])"
  shows "\<exists>m. visible ms (bw_runtimeWorkspaceDir inp) = Some m \<and> is_mask m \<and>
    visible ms (bw_runtimeWorkspaceDir inp) \<noteq> Some (RwBind (bw_runtimeWorkspaceDir inp) (bw_runtimeWorkspaceDir inp))"
proof -
  have "masked_dir inp base"
    using assms(2,3) by (cases "bw_baseWorkspaceDir inp") (auto simp: masked_dir_def base_dirs_def)
  then show ?thesis
    using sensitive_path_masked [OF assms(1), of base "bw_runtimeWorkspaceDir inp"] assms(4,5)
    by (auto simp: is_mask_def)
qed

section \<open>What a sandboxed command may write\<close>

definition grant_mount :: "extra_bind \<Rightarrow> mount" where
  "grant_mount b = (if eb_access b = Write then RwBind (eb_path b) (eb_path b) else RoBind (eb_path b) (eb_path b))"

text \<open>What the loop established of a granted path: it is gone, or unchanged and still grantable.\<close>

definition recheck_ok :: "host_fs \<Rightarrow> host_home \<Rightarrow> classify_options \<Rightarrow> string list \<Rightarrow> extra_bind \<Rightarrow> bool" where
  "recheck_ok fs h opts reserved b \<longleftrightarrow> eb_path b \<notin> set reserved \<and>
     (fs_realpath fs (eb_path b) = Inl ''ENOENT'' \<or>
      fs_realpath fs (eb_path b) = Inr (eb_path b) \<and>
      (\<exists>cls. classifyPathSensitivity h (eb_path b) (eb_access b) opts = Inr cls \<and> pc_level cls \<noteq> Critical))"

lemma grant_mounts_Inr:
  assumes "grant_mounts fs h opts reserved bs = Inr (ms, missing)"
  shows "ms = map grant_mount (filter (\<lambda>b. fs_realpath fs (eb_path b) = Inr (eb_path b)) bs) \<and>
    missing = map eb_path (filter (\<lambda>b. fs_realpath fs (eb_path b) = Inl ''ENOENT'') bs) \<and>
    list_all (recheck_ok fs h opts reserved) bs"
  using assms
  by (induction bs arbitrary: ms missing)
    (auto simp: map_sum_Inr_iff recheck_ok_def grant_mount_def split: if_splits sum.splits)

lemma writable_mounts:
  assumes "all_mounts fs h inp = Inr (ms, missing)" and "m \<in> set ms" and "writable_mount m"
  shows "m = RwBind ''/tmp'' ''/tmp'' \<or> m = RwBind (bw_runtimeWorkspaceDir inp) (bw_runtimeWorkspaceDir inp) \<or>
    m = RwBind (bw_runtimeHomeDir inp) (bw_runtimeHomeDir inp) \<or>
    (\<exists>r\<in>set (parseExtraAccessRoots fs (bw_env inp)). ar_writable r \<and> m = RwBind (ar_root r) (ar_root r)) \<or>
    (\<exists>b\<in>set (list_opt (bw_extraBinds inp)). eb_access b = Write \<and> m = RwBind (eb_path b) (eb_path b))"
proof -
  have roots: "x \<in> set (root_mounts fs bound rs) \<Longrightarrow> writable_mount x \<Longrightarrow>
      \<exists>r\<in>set rs. ar_writable r \<and> x = RwBind (ar_root r) (ar_root r)" for x bound rs
    by (induction fs bound rs rule: root_mounts.induct) (auto split: if_splits)
  have dirs: "x \<in> set (dir_prefixes acc segs) \<Longrightarrow> \<not> writable_mount x" for x acc segs
    by (induction acc segs rule: dir_prefixes.induct) (auto simp: Let_def)
  have dns: "x \<in> set (dns_mounts fs) \<Longrightarrow> \<not> writable_mount x" for x
    by (auto simp: dns_mounts_def dest: dirs split: option.splits if_splits)
  have masks: "x \<in> set (all_masks fs inp) \<Longrightarrow> \<not> writable_mount x" for x
    using all_masks_are_masks [of x fs inp] by (auto simp: is_mask_def)
  show ?thesis
  proof (rule all_mounts_Inr [OF assms(1)])
    fix g
    assume ms: "ms = workspace_mounts fs inp @ g @ dns_mounts fs @ all_masks fs inp"
      and g: "list_opt (bw_extraBinds inp) = [] \<and> g = [] \<and> missing = [] \<or>
        (\<exists>opts. bw_classifyOptions inp = Some opts \<and>
           grant_mounts fs h opts (reserved_targets inp) (list_opt (bw_extraBinds inp)) = Inr (g, missing))"
    have "m \<in> set g \<Longrightarrow> \<exists>b\<in>set (list_opt (bw_extraBinds inp)). eb_access b = Write \<and> m = RwBind (eb_path b) (eb_path b)"
      using g assms(3) by (auto dest!: grant_mounts_Inr simp: grant_mount_def split: if_splits)
    then show ?thesis
      using assms(2,3) dns masks by (auto simp: ms workspace_mounts_def dest: roots)
  qed
qed

text \<open>
  C24: The sandbox can write below a path only if the path lies below the shared temporary directory, the runtime
  workspace or home, a writable root of the operator, or a path that was granted for writing.
\<close>

theorem writable_paths_were_granted:
  assumes "all_mounts fs h inp = Inr (ms, missing)" and "visible ms p = Some m" and "writable_mount m"
  shows "\<exists>d. startsWithDirOrEquals p d \<and>
    (d = ''/tmp'' \<or> d = bw_runtimeWorkspaceDir inp \<or> d = bw_runtimeHomeDir inp \<or>
     d \<in> ar_root ` set (filter ar_writable (parseExtraAccessRoots fs (bw_env inp))) \<or>
     d \<in> eb_path ` set (filter (\<lambda>b. eb_access b = Write) (list_opt (bw_extraBinds inp))))"
proof -
  have "m \<in> set ms" and cov: "covers m p" using visible_in [OF assms(2)] by auto
  from writable_mounts [OF assms(1) this(1) assms(3)] cov show ?thesis
    by (auto simp: covers_def)
qed

text \<open>Every granted path was checked again when the command was built: it is gone, or unchanged and grantable.\<close>

theorem grants_are_rechecked:
  assumes "all_mounts fs h inp = Inr (ms, missing)" and "b \<in> set (list_opt (bw_extraBinds inp))"
  shows "\<exists>opts. bw_classifyOptions inp = Some opts \<and> recheck_ok fs h opts (reserved_targets inp) b \<and>
    (if fs_realpath fs (eb_path b) = Inr (eb_path b) then grant_mount b \<in> set ms else eb_path b \<in> set missing)"
proof (rule all_mounts_Inr [OF assms(1)])
  fix g
  assume ms: "ms = workspace_mounts fs inp @ g @ dns_mounts fs @ all_masks fs inp"
    and g: "list_opt (bw_extraBinds inp) = [] \<and> g = [] \<and> missing = [] \<or>
      (\<exists>opts. bw_classifyOptions inp = Some opts \<and>
         grant_mounts fs h opts (reserved_targets inp) (list_opt (bw_extraBinds inp)) = Inr (g, missing))"
  then obtain opts where o: "bw_classifyOptions inp = Some opts"
    and gm: "grant_mounts fs h opts (reserved_targets inp) (list_opt (bw_extraBinds inp)) = Inr (g, missing)"
    using assms(2) by auto
  have ok: "recheck_ok fs h opts (reserved_targets inp) b"
    using grant_mounts_Inr [OF gm] assms(2) by (simp add: list_all_iff)
  moreover have "if fs_realpath fs (eb_path b) = Inr (eb_path b) then grant_mount b \<in> set ms else eb_path b \<in> set missing"
    using grant_mounts_Inr [OF gm] assms(2) ok by (auto simp: ms recheck_ok_def)
  ultimately show ?thesis using o by blast
qed

text \<open>
  A grant for writing a directory above the base workspace comes after the read-only mount of that workspace:
  unless another mount follows, the command writes to the base workspace.
\<close>

theorem grant_reopens_base_workspace:
  assumes "all_mounts fs h inp = Inr (ms, missing)"
    and "list_opt (bw_extraBinds inp) = [b]" and "eb_access b = Write" and "fs_realpath fs (eb_path b) = Inr (eb_path b)"
    and "startsWithDirOrEquals p (eb_path b)" and "visible (dns_mounts fs @ all_masks fs inp) p = None"
  shows "visible ms p = Some (RwBind (eb_path b) (eb_path b))"
proof (rule all_mounts_Inr [OF assms(1)])
  fix g
  assume ms: "ms = workspace_mounts fs inp @ g @ dns_mounts fs @ all_masks fs inp"
    and g: "list_opt (bw_extraBinds inp) = [] \<and> g = [] \<and> missing = [] \<or>
      (\<exists>opts. bw_classifyOptions inp = Some opts \<and>
         grant_mounts fs h opts (reserved_targets inp) (list_opt (bw_extraBinds inp)) = Inr (g, missing))"
  then obtain opts where
    gm: "grant_mounts fs h opts (reserved_targets inp) (list_opt (bw_extraBinds inp)) = Inr (g, missing)"
    using assms(2) by auto
  have "g = [RwBind (eb_path b) (eb_path b)]"
    using grant_mounts_Inr [OF gm] assms(3,4) by (simp add: assms(2) grant_mount_def)
  moreover have "visible [RwBind (eb_path b) (eb_path b)] p = Some (RwBind (eb_path b) (eb_path b))"
    using assms(5) by (simp add: visible_def covers_def)
  ultimately have "visible (g @ dns_mounts fs @ all_masks fs inp) p = Some (RwBind (eb_path b) (eb_path b))"
    unfolding visible_append [of g] assms(6) by simp
  then show ?thesis
    unfolding ms visible_append [of "workspace_mounts fs inp"] by simp
qed

section \<open>When a command is sandboxed\<close>

lemma build_args:
  assumes "buildBubblewrapSandboxCommand fs h b = Inr w"
  shows "bc_command w = bw_bwrapCommandPath b"
    and "bw_network b = NetDisabled \<Longrightarrow> \<not> bw_allowNetwork b \<Longrightarrow> ''--unshare-net'' \<in> set (bc_args w)"
  using assms by (auto simp: buildBubblewrapSandboxCommand_def map_sum_Inr_iff fixed_args_def)

text \<open>When the host offers a wrapper and the workspaces differ, or the caller accepts that they do not.\<close>

definition can_wrap :: "host_fs \<Rightarrow> command_input \<Rightarrow> sandbox_metadata \<Rightarrow> bool" where
  "can_wrap fs inp s \<longleftrightarrow> sm_status s = Available \<and> sm_provider s = Bubblewrap \<and> truthy_str (sm_commandPath s) \<and>
     (ci_allowSameWorkspace inp \<or> \<not> same_workspace fs (ci_bwrap inp))"

lemma plan_cannot_wrap:
  assumes "ci_executionSandbox inp = Some s" and "sm_mode s = ModeRequired" and "\<not> can_wrap fs inp s"
  shows "\<exists>s' reason. prepareExecutionSandboxCommand fs h inp = Failed s' reason"
  using assms
  by (simp add: prepareExecutionSandboxCommand_def can_wrap_def not_wrapped_def failedPlan_def)

lemma plan_can_wrap:
  assumes "ci_executionSandbox inp = Some s" and "sm_mode s \<noteq> ModeOff" and "can_wrap fs inp s"
  shows "prepareExecutionSandboxCommand fs h inp =
    (case buildBubblewrapSandboxCommand fs h (wrapped_input fs inp s) of
       Inl e \<Rightarrow> PlanThrew e | Inr w \<Rightarrow> Wrapped w (wrapped_metadata fs inp s))"
proof -
  have "sm_status s \<noteq> Disabled" "sm_status s = Available" using assms(3) by (simp_all add: can_wrap_def)
  with assms show ?thesis by (auto simp: prepareExecutionSandboxCommand_def can_wrap_def)
qed

lemma wrapped_input_simps [simp]:
  "bw_bwrapCommandPath (wrapped_input fs inp s) = the (sm_commandPath s)"
  "bw_network (wrapped_input fs inp s) = sm_network s"
  "bw_allowNetwork (wrapped_input fs inp s) = bw_allowNetwork (ci_bwrap inp)"
  by (simp_all add: wrapped_input_def)

lemma wrapped_metadata_simps [simp]:
  "sm_status (wrapped_metadata fs inp s) = Active"
  "sm_provider (wrapped_metadata fs inp s) = sm_provider s"
  by (simp_all add: wrapped_metadata_def)

text \<open>
  A required sandbox is never left out: the command runs in an active sandbox, without the network when that is
  disabled and not granted, or it does not run; and it runs whenever the host can wrap it and no grant is refused.
\<close>

theorem required_sandbox_is_enforced:
  assumes "ci_executionSandbox inp = Some sandbox" and "sm_mode sandbox = ModeRequired"
  shows "(case prepareExecutionSandboxCommand fs h inp of
      Unwrapped s \<Rightarrow> False
    | Wrapped w s \<Rightarrow> can_wrap fs inp sandbox \<and> sm_status s = Active \<and> sm_provider s = Bubblewrap \<and>
        bc_command w = the (sm_commandPath sandbox) \<and>
        (''--unshare-net'' \<in> set (bc_args w) \<or> sm_network sandbox \<noteq> NetDisabled \<or> bw_allowNetwork (ci_bwrap inp))
    | Failed s reason \<Rightarrow> \<not> can_wrap fs inp sandbox
    | PlanThrew e \<Rightarrow> can_wrap fs inp sandbox)"
proof (cases "can_wrap fs inp sandbox")
  case True
  have m: "sm_mode sandbox \<noteq> ModeOff" using assms(2) by simp
  have p: "sm_provider sandbox = Bubblewrap" using True by (simp add: can_wrap_def)
  note plan = plan_can_wrap [OF assms(1) m True, of h]
  show ?thesis
  proof (cases "buildBubblewrapSandboxCommand fs h (wrapped_input fs inp sandbox)")
    case (Inl e)
    then show ?thesis using plan True by simp
  next
    case (Inr w)
    from build_args [OF this] plan Inr True p show ?thesis by auto
  qed
next
  case False
  from plan_cannot_wrap [OF assms False] obtain s' reason
    where "prepareExecutionSandboxCommand fs h inp = Failed s' reason" by blast
  with False show ?thesis by simp
qed

section \<open>Witnesses\<close>

definition demo_fs :: host_fs where
  "demo_fs = \<lparr>fs_exists = (\<lambda>p. p \<in> set [''/b/.magister'', ''/b/config/secrets.json'']), fs_realpath = Inr,
     fs_readdir = (\<lambda>_. None), fs_executable = (\<lambda>_. True), fs_cwd = ''/''\<rparr>"

definition demo_home :: host_home where
  "demo_home = \<lparr>env_HOME = Some ''/h'', os_homedir = ''/root''\<rparr>"

definition demo_bwrap :: bwrap_input where
  "demo_bwrap = \<lparr>bw_bwrapCommandPath = ''/w'', bw_command = ''/x'', bw_args = [], bw_cwd = ''/b/.magister/r'',
     bw_env = (\<lambda>_. None), bw_baseWorkspaceDir = Some ''/b'', bw_runtimeWorkspaceDir = ''/b/.magister/r'',
     bw_runtimeHomeDir = ''/h'', bw_runtimeTmpDir = ''/t'', bw_network = NetDisabled,
     bw_systemReadOnlyBinds = Some [], bw_extraBinds = None,
     bw_classifyOptions = Some \<lparr>opt_homeDir = None, opt_magisterInstallDir = None, opt_workspaceRoot = None\<rparr>,
     bw_allowNetwork = False\<rparr>"

definition demo_mounts :: "mount list" where
  "demo_mounts = [RwBind ''/tmp'' ''/tmp'', RoBind ''/b'' ''/b'', RwBind ''/b/.magister/r'' ''/b/.magister/r'',
     RwBind ''/h'' ''/h'', RoBind ''/dev/null'' ''/b/config/secrets.json'', Tmpfs ''/b/.magister'']"

lemma demo_all_mounts: "all_mounts demo_fs demo_home demo_bwrap = Inr (demo_mounts, [])"
  by code_simp

theorem secrets_are_masked_witness:
  "visible demo_mounts ''/b/config/secrets.json'' \<noteq> Some (RoBind ''/b'' ''/b'')"
proof -
  have d: "masked_dir demo_bwrap ''/b''" by code_simp
  have "''/b/config/secrets.json'' = path_join [''/b'', ''config/secrets.json''] \<and> fs_exists demo_fs ''/b/config/secrets.json''"
    by code_simp
  then show ?thesis
    using secrets_are_masked [OF demo_all_mounts d, of "''/b/config/secrets.json''"] by (auto simp: is_mask_def)
qed

theorem mask_hides_worktree_witness:
  "visible demo_mounts ''/b/.magister/r'' \<noteq> Some (RwBind ''/b/.magister/r'' ''/b/.magister/r'')"
proof -
  have h: "truthy_str (bw_baseWorkspaceDir demo_bwrap)" "''/b'' = the (bw_baseWorkspaceDir demo_bwrap)"
      "fs_exists demo_fs (path_join [''/b'', ''.magister''])"
      "startsWithDirOrEquals (bw_runtimeWorkspaceDir demo_bwrap) (path_join [''/b'', ''.magister''])"
    by code_simp+
  from mask_hides_worktree [OF demo_all_mounts h] show ?thesis by (auto simp: demo_bwrap_def)
qed

theorem writable_paths_were_granted_witness:
  "\<exists>d. startsWithDirOrEquals ''/h/a'' d \<and> (d = ''/tmp'' \<or> d = ''/b/.magister/r'' \<or> d = ''/h'')"
proof -
  have h: "visible demo_mounts ''/h/a'' = Some (RwBind ''/h'' ''/h'')" "writable_mount (RwBind ''/h'' ''/h'')"
    by code_simp+
  have "parseExtraAccessRoots demo_fs (bw_env demo_bwrap) = []" "list_opt (bw_extraBinds demo_bwrap) = []"
    by code_simp+
  with writable_paths_were_granted [OF demo_all_mounts h] show ?thesis by (auto simp: demo_bwrap_def)
qed

text \<open>A grant of \<open>/a\<close>, above the base workspace \<open>/a/b\<close>.\<close>

definition above_bwrap :: bwrap_input where
  "above_bwrap = demo_bwrap\<lparr>bw_baseWorkspaceDir := Some ''/a/b'', bw_runtimeWorkspaceDir := ''/r'',
     bw_extraBinds := Some [\<lparr>eb_path = ''/a'', eb_access = Write\<rparr>]\<rparr>"

definition above_mounts :: "mount list" where
  "above_mounts = [RwBind ''/tmp'' ''/tmp'', RoBind ''/a/b'' ''/a/b'', RwBind ''/r'' ''/r'',
     RwBind ''/h'' ''/h'', RwBind ''/a'' ''/a'']"

lemma above_all_mounts: "all_mounts demo_fs demo_home above_bwrap = Inr (above_mounts, [])"
  by code_simp

theorem grants_are_rechecked_witness:
  "grant_mount \<lparr>eb_path = ''/a'', eb_access = Write\<rparr> \<in> set above_mounts"
proof -
  have b: "\<lparr>eb_path = ''/a'', eb_access = Write\<rparr> \<in> set (list_opt (bw_extraBinds above_bwrap))"
    by (simp add: above_bwrap_def list_opt_def)
  from grants_are_rechecked [OF above_all_mounts b] show ?thesis by (auto simp: demo_fs_def)
qed

theorem grant_reopens_base_workspace_witness:
  "visible above_mounts ''/a/b/c'' = Some (RwBind ''/a'' ''/a'')"
proof -
  have h: "list_opt (bw_extraBinds above_bwrap) = [\<lparr>eb_path = ''/a'', eb_access = Write\<rparr>]"
      "eb_access \<lparr>eb_path = ''/a'', eb_access = Write\<rparr> = Write"
      "fs_realpath demo_fs (eb_path \<lparr>eb_path = ''/a'', eb_access = Write\<rparr>) = Inr (eb_path \<lparr>eb_path = ''/a'', eb_access = Write\<rparr>)"
      "startsWithDirOrEquals ''/a/b/c'' (eb_path \<lparr>eb_path = ''/a'', eb_access = Write\<rparr>)"
      "visible (dns_mounts demo_fs @ all_masks demo_fs above_bwrap) ''/a/b/c'' = None"
    by code_simp+
  from grant_reopens_base_workspace [OF above_all_mounts h] show ?thesis by simp
qed

definition demo_command :: command_input where
  "demo_command = \<lparr>ci_bwrap = demo_bwrap, ci_executionSandbox = Some \<lparr>sm_mode = ModeRequired, sm_provider = Bubblewrap,
     sm_status = Available, sm_commandPath = Some ''/w'', sm_reason = None, sm_network = NetDisabled,
     sm_filesystem = \<lparr>sf_mainWorkspace = MainNotIsolated, sf_runtimeWorkspace = RuntimeHostWritable,
       sf_home = DirIsolated, sf_tmp = DirHost\<rparr>\<rparr>, ci_allowSameWorkspace = False\<rparr>"

theorem required_sandbox_is_enforced_witness:
  "\<not> (\<exists>s. prepareExecutionSandboxCommand demo_fs demo_home demo_command = Unwrapped s)"
proof -
  have h: "ci_executionSandbox demo_command = Some (the (ci_executionSandbox demo_command))"
      "sm_mode (the (ci_executionSandbox demo_command)) = ModeRequired"
    by (simp_all add: demo_command_def)
  from required_sandbox_is_enforced [OF h, of demo_fs demo_home] show ?thesis by auto
qed

end
