(* ===== verification/Workspace_Path.thy ===== *)
theory Workspace_Path
  imports Execution_Sandbox
begin

text \<open>
  The containment of the file tools in the workspace (\<open>apps/api/src/services/manager-tools/workspace-path.ts\<close>): the
  internal paths, the detection of binary files, and the resolution of a requested path through symbolic
  links. The file system is the record \<open>link_fs\<close>: \<open>realpath\<close> with its error codes, \<open>lstat\<close> reduced to the
  question whether the entry is a symbolic link, and \<open>readlink\<close>. The opening of files is left out.
\<close>

record link_fs =
  lf_realpath :: "string \<Rightarrow> string + string"
  lf_is_symlink :: "string \<Rightarrow> bool"
  lf_readlink :: "string \<Rightarrow> string + string"

section \<open>Internal paths\<close>

definition dir_end :: rx where "dir_end = Alt (lit ''/'') Eol"

definition INTERNAL_PATH_PATTERNS :: "rx list" where
  "INTERNAL_PATH_PATTERNS =
    [seqs [Bol, lit ''.local'', dir_end],
     seqs [Bol, lit ''.magister'', dir_end],
     seqs [Bol, lit ''config/secrets.json'', Eol],
     seqs [Bol, lit ''.env'',
       opt (seqs [lit ''.'',
         NegLook (Seq (alts [lit ''example'', lit ''template'', lit ''sample'', lit ''dist'']) Eol),
         plus not_slash]), Eol]]"

text \<open>\<open>normalized\<close>: the split and join with the same separator do nothing.\<close>

definition strip_dot_slash :: "string \<Rightarrow> string" where
  "strip_dot_slash p = (if starts_with p ''./'' then drop 2 p else p)"

text \<open>\<open>deny\<close> holds the tests of the expressions the operator configured.\<close>

definition isInternalPath :: "(string \<Rightarrow> bool) list \<Rightarrow> string \<Rightarrow> bool" where
  "isInternalPath deny relPath =
    (let n = strip_dot_slash relPath in
     if n = [] \<or> n = ''.'' then False
     else list_ex (\<lambda>r. rx_test r n) INTERNAL_PATH_PATTERNS \<or> list_ex (\<lambda>f. f n) deny)"

section \<open>Binary files\<close>

definition BINARY_EXTENSIONS :: "string list" where
  "BINARY_EXTENSIONS = map (\<lambda>e. ''.'' @ e)
    [''png'', ''jpg'', ''jpeg'', ''gif'', ''bmp'', ''ico'', ''webp'', ''tiff'', ''tif'',
     ''mp4'', ''mov'', ''avi'', ''mkv'', ''webm'', ''wmv'', ''flv'', ''m4v'', ''mpeg'', ''mpg'',
     ''mp3'', ''wav'', ''ogg'', ''flac'', ''aac'', ''m4a'', ''wma'', ''aiff'', ''opus'',
     ''zip'', ''tar'', ''gz'', ''bz2'', ''7z'', ''rar'', ''xz'', ''z'', ''tgz'', ''iso'',
     ''exe'', ''dll'', ''so'', ''dylib'', ''bin'', ''o'', ''a'', ''obj'', ''lib'', ''app'', ''msi'', ''deb'', ''rpm'',
     ''pdf'', ''doc'', ''docx'', ''xls'', ''xlsx'', ''ppt'', ''pptx'', ''odt'', ''ods'', ''odp'',
     ''ttf'', ''otf'', ''woff'', ''woff2'', ''eot'',
     ''pyc'', ''pyo'', ''class'', ''jar'', ''war'', ''ear'', ''node'', ''wasm'', ''rlib'',
     ''sqlite'', ''sqlite3'', ''db'', ''mdb'', ''idx'',
     ''psd'', ''ai'', ''eps'', ''sketch'', ''fig'', ''xd'', ''blend'', ''3ds'', ''max'',
     ''swf'', ''fla'', ''lockb'', ''dat'', ''data'']"

definition hasBinaryExtension :: "string \<Rightarrow> bool" where
  "hasBinaryExtension p =
    (if CHR ''.'' \<notin> set p then False
     else ''.'' @ to_lower (rev (takeWhile (\<lambda>c. c \<noteq> CHR ''.'') (rev p))) \<in> set BINARY_EXTENSIONS)"

definition BINARY_CHECK_SIZE :: nat where "BINARY_CHECK_SIZE = 8192"

text \<open>
  A byte is its code unit. The quotient of two numbers up to 8192 exceeds the double 0.1 exactly when it exceeds
  one tenth, since other quotients differ from one tenth by far more than the rounding.
\<close>

definition non_printable :: "char \<Rightarrow> bool" where
  "non_printable c = (let n = char_nat c in n < 32 \<and> n \<noteq> 9 \<and> n \<noteq> 10 \<and> n \<noteq> 13)"

definition isBinaryContent :: "string \<Rightarrow> bool" where
  "isBinaryContent buffer =
    (let b = take BINARY_CHECK_SIZE buffer in
     if b = [] then False
     else CHR 0x00 \<in> set b \<or> length b < 10 * length (filter non_printable b))"

section \<open>Resolution\<close>

datatype path_refusal =
    OffLimits string
  | EscapesWorkspace
  | ResolutionFailed string
  | NoExistingAncestor
  | TooManyLevels

datatype path_intent = IntentRead | IntentWrite

record path_policy =
  pp_deny :: "(string \<Rightarrow> bool) list"
  pp_roots :: "access_root list"
  pp_relaxed :: bool

definition inside :: "string \<Rightarrow> string \<Rightarrow> bool" where
  "inside w p \<longleftrightarrow> p = w \<or> starts_with p (w @ ''/'')"

definition rel_from :: "string \<Rightarrow> string \<Rightarrow> string" where
  "rel_from w p = (if p = w then [] else path_relative w p)"

text \<open>The decision on a real candidate.\<close>

definition judge_candidate :: "path_policy \<Rightarrow> path_intent \<Rightarrow> string \<Rightarrow> string \<Rightarrow> path_refusal + string" where
  "judge_candidate pol intent realWorkspace candidate =
    (if inside realWorkspace candidate then
       (if isInternalPath (pp_deny pol) (rel_from realWorkspace candidate)
        then Inl (OffLimits (rel_from realWorkspace candidate)) else Inr candidate)
     else case matchExtraAccessRoot (pp_roots pol) candidate of
       Some r \<Rightarrow> if intent = IntentRead \<or> ar_writable r then Inr candidate
                 else if pp_relaxed pol then Inr candidate else Inl EscapesWorkspace
     | None \<Rightarrow> if pp_relaxed pol then Inr candidate else Inl EscapesWorkspace)"

definition join_tail :: "string \<Rightarrow> string \<Rightarrow> string" where
  "join_tail p tail = (if tail \<noteq> [] then path_join [p, tail] else p)"

fun resolve_loop :: "link_fs \<Rightarrow> path_policy \<Rightarrow> path_intent \<Rightarrow> string \<Rightarrow> nat \<Rightarrow> string \<Rightarrow> string \<Rightarrow> path_refusal + string" where
  "resolve_loop fs pol intent w 0 current tail = Inl TooManyLevels"
| "resolve_loop fs pol intent w (Suc n) current tail =
    (case lf_realpath fs current of
       Inr realCurrent \<Rightarrow> judge_candidate pol intent w (join_tail realCurrent tail)
     | Inl code \<Rightarrow>
       if code \<noteq> ''ENOENT'' \<and> code \<noteq> ''ENOTDIR'' then Inl (ResolutionFailed code)
       else if lf_is_symlink fs current then
         (case lf_readlink fs current of
            Inl e \<Rightarrow> Inl (ResolutionFailed e)
          | Inr target \<Rightarrow> resolve_loop fs pol intent w n (path_resolve (path_dirname current) target) tail)
       else if path_dirname current = current then Inl NoExistingAncestor
       else resolve_loop fs pol intent w n (path_dirname current)
              (if tail \<noteq> [] then path_join [path_basename current, tail] else path_basename current))"

definition MAX_ITERATIONS :: nat where "MAX_ITERATIONS = 64"

definition resolveInsideWorkspace ::
    "link_fs \<Rightarrow> string \<Rightarrow> path_policy \<Rightarrow> path_intent option \<Rightarrow> string \<Rightarrow> string \<Rightarrow> path_refusal + string" where
  "resolveInsideWorkspace fs cwd pol intent workspaceDir requestedPath =
    (let realWorkspace = (case lf_realpath fs workspaceDir of Inr p \<Rightarrow> p | Inl _ \<Rightarrow> path_resolve cwd workspaceDir);
         lexical = path_resolve (path_resolve cwd workspaceDir) requestedPath
     in resolve_loop fs pol (case intent of Some i \<Rightarrow> i | None \<Rightarrow> IntentWrite) realWorkspace MAX_ITERATIONS lexical [])"

section \<open>Containment\<close>

text \<open>
  What is documented of the two calls on the file system: a real path is canonical and its own real path, and
  looking up a name in a directory is looking it up in the real directory.
\<close>

definition child :: "string \<Rightarrow> string \<Rightarrow> string" where
  "child d s = canonical_of (path_segs d @ [s])"

definition honest_fs :: "link_fs \<Rightarrow> bool" where
  "honest_fs fs \<longleftrightarrow>
     (\<forall>q r. lf_realpath fs q = Inr r \<longrightarrow> canonical r \<and> lf_realpath fs r = Inr r) \<and>
     (\<forall>q r s. canonical q \<longrightarrow> plain_seg s \<longrightarrow> lf_realpath fs q = Inr r \<longrightarrow>
        lf_realpath fs (child q s) = lf_realpath fs (child r s) \<and>
        lf_is_symlink fs (child q s) = lf_is_symlink fs (child r s))"

definition missing_entry :: "link_fs \<Rightarrow> string \<Rightarrow> bool" where
  "missing_entry fs p \<longleftrightarrow> lf_realpath fs p \<in> {Inl ''ENOENT'', Inl ''ENOTDIR''} \<and> \<not> lf_is_symlink fs p"

text \<open>No entry is a symbolic link to something that does not exist.\<close>

definition no_dangling :: "link_fs \<Rightarrow> bool" where
  "no_dangling fs \<longleftrightarrow> (\<forall>q. lf_realpath fs q \<in> {Inl ''ENOENT'', Inl ''ENOTDIR''} \<longrightarrow> \<not> lf_is_symlink fs q)"

text \<open>
  A path that no symbolic link redirects: a real directory, and below it names of which the first does not
  exist. Creating or opening a file of that name stays where the path says.
\<close>

definition link_free :: "link_fs \<Rightarrow> string \<Rightarrow> bool" where
  "link_free fs p \<longleftrightarrow> (\<exists>xs ss. list_all plain_seg xs \<and> list_all plain_seg ss \<and> p = canonical_of (xs @ ss) \<and>
     lf_realpath fs (canonical_of xs) = Inr (canonical_of xs) \<and>
     (ss = [] \<or> missing_entry fs (canonical_of (xs @ [hd ss]))))"

definition allowed :: "path_policy \<Rightarrow> path_intent \<Rightarrow> string \<Rightarrow> string \<Rightarrow> bool" where
  "allowed pol intent w p \<longleftrightarrow>
     (if inside w p then \<not> isInternalPath (pp_deny pol) (rel_from w p)
      else pp_relaxed pol \<or>
        (\<exists>r. matchExtraAccessRoot (pp_roots pol) p = Some r \<and> (intent = IntentRead \<or> ar_writable r)))"

lemma judge_candidate_iff: "judge_candidate pol intent w c = Inr p \<longleftrightarrow> p = c \<and> allowed pol intent w c"
  by (auto simp: judge_candidate_def allowed_def split: option.splits)

lemma path_segs_canonical: "list_all plain_seg xs \<Longrightarrow> path_segs (canonical_of xs) = xs"
  by (simp add: path_segs_def split_canonical_nonempty)

lemma child_canonical: "list_all plain_seg xs \<Longrightarrow> child (canonical_of xs) s = canonical_of (xs @ [s])"
  by (simp add: child_def path_segs_canonical)

lemma join_tail_canonical:
  "list_all plain_seg xs \<Longrightarrow> list_all plain_seg ss \<Longrightarrow> join_tail (canonical_of xs) (js_join ''/'' ss) = canonical_of (xs @ ss)"
  using join_canonical [of xs ss] js_join_plain_ne [of ss] by (cases "ss = []") (auto simp: join_tail_def)

lemma honest_child:
  assumes "honest_fs fs" and "list_all plain_seg xs" and "plain_seg s" and "lf_realpath fs (canonical_of xs) = Inr (canonical_of ys)"
    and "list_all plain_seg ys"
  shows "missing_entry fs (canonical_of (xs @ [s])) \<longleftrightarrow> missing_entry fs (canonical_of (ys @ [s]))"
proof -
  have "lf_realpath fs (child (canonical_of xs) s) = lf_realpath fs (child (canonical_of ys) s) \<and>
      lf_is_symlink fs (child (canonical_of xs) s) = lf_is_symlink fs (child (canonical_of ys) s)"
    using assms(1,3,4) canonical_of_canonical [OF assms(2)] unfolding honest_fs_def by blast
  then show ?thesis
    by (simp add: missing_entry_def child_canonical [OF assms(2)] child_canonical [OF assms(5)])
qed

text \<open>
  The loop: \<open>cs\<close> are the segments of the current path and \<open>ss\<close> those of the tail, of which the first was found
  missing below the current path.
\<close>

lemma resolve_loop_sound:
  assumes "honest_fs fs" and "no_dangling fs"
    and "list_all plain_seg cs" and "list_all plain_seg ss"
    and "ss = [] \<or> missing_entry fs (canonical_of (cs @ [hd ss]))"
    and "resolve_loop fs pol intent w n (canonical_of cs) (js_join ''/'' ss) = Inr p"
  shows "link_free fs p \<and> allowed pol intent w p"
  using assms(3-6)
proof (induction n arbitrary: cs ss)
  case (Suc n)
  show ?case
  proof (cases "lf_realpath fs (canonical_of cs)")
    case (Inr r)
    then obtain ys where ys: "list_all plain_seg ys" "r = canonical_of ys"
      using assms(1) unfolding honest_fs_def canonical_def by blast
    have real: "lf_realpath fs r = Inr r" using assms(1) Inr unfolding honest_fs_def by blast
    have p: "p = canonical_of (ys @ ss)" and al: "allowed pol intent w p"
      using Suc.prems(4) Inr Suc.prems(2) by (simp_all add: ys judge_candidate_iff join_tail_canonical)
    have "ss = [] \<or> missing_entry fs (canonical_of (ys @ [hd ss]))"
      using Suc.prems honest_child [OF assms(1), of cs "hd ss" ys] Inr ys by (cases ss) auto
    with p ys real Suc.prems(2) al show ?thesis unfolding link_free_def by blast
  next
    case (Inl code)
    have code: "code = ''ENOENT'' \<or> code = ''ENOTDIR''" using Suc.prems(4) Inl by (auto split: if_splits)
    then have nl: "\<not> lf_is_symlink fs (canonical_of cs)" using assms(2) Inl by (auto simp: no_dangling_def)
    then have miss: "missing_entry fs (canonical_of cs)" using code Inl by (auto simp: missing_entry_def)
    show ?thesis
    proof (cases cs rule: rev_cases)
      case Nil
      then show ?thesis using Suc.prems(4) Inl code nl by (auto simp: root_dirname)
    next
      case (snoc bs b)
      have plain: "list_all plain_seg bs" "plain_seg b" using Suc.prems(1) snoc by auto
      have ne: "canonical_of bs \<noteq> canonical_of (bs @ [b])"
        using path_segs_canonical [of bs] path_segs_canonical [of "bs @ [b]"] plain by auto
      have tail: "(if js_join ''/'' ss \<noteq> [] then path_join [b, js_join ''/'' ss] else b) = js_join ''/'' (b # ss)"
        using join_relative [OF plain(2) Suc.prems(2)] js_join_plain_ne [OF Suc.prems(2)] by (cases "ss = []") auto
      have run: "resolve_loop fs pol intent w n (canonical_of bs) (js_join ''/'' (b # ss)) = Inr p"
        using Suc.prems(4) Inl code nl ne
        unfolding snoc resolve_loop.simps(2) last_segment [OF plain] tail by auto
      show ?thesis
        by (rule Suc.IH [OF plain(1) _ _ run]) (use Suc.prems(2) plain(2) miss snoc in auto)
    qed
  qed
qed simp


text \<open>
  C28: Without dangling links a resolved path is not redirected by any link, and it lies in the workspace and is not
  internal, or the operator's settings allow it.
\<close>

theorem resolved_path_is_contained:
  assumes "honest_fs fs" and "no_dangling fs"
    and "resolveInsideWorkspace fs cwd pol intent workspaceDir requested = Inr p"
  shows "link_free fs p \<and>
    allowed pol (case intent of Some i \<Rightarrow> i | None \<Rightarrow> IntentWrite)
      (case lf_realpath fs workspaceDir of Inr w \<Rightarrow> w | Inl _ \<Rightarrow> path_resolve cwd workspaceDir) p"
proof -
  obtain cs where cs: "list_all plain_seg cs"
    and lex: "path_resolve (path_resolve cwd workspaceDir) requested = canonical_of cs"
    using canonical_resolve [of "path_resolve cwd workspaceDir" requested] unfolding canonical_def by blast
  show ?thesis
    by (rule resolve_loop_sound [OF assms(1,2) cs, of "[]"])
      (use assms(3) in \<open>simp_all add: resolveInsideWorkspace_def lex\<close>)
qed

text \<open>A path that exists is judged by its real path alone.\<close>

theorem resolve_existing:
  assumes "lf_realpath fs (path_resolve (path_resolve cwd workspaceDir) requested) = Inr c"
    and "lf_realpath fs workspaceDir = Inr w" and "pp_roots pol = []" and "\<not> pp_relaxed pol"
  shows "resolveInsideWorkspace fs cwd pol intent workspaceDir requested =
    (if \<not> inside w c then Inl EscapesWorkspace
     else if isInternalPath (pp_deny pol) (rel_from w c) then Inl (OffLimits (rel_from w c)) else Inr c)"
  using assms
  by (simp add: resolveInsideWorkspace_def MAX_ITERATIONS_def numeral_eq_Suc judge_candidate_def join_tail_def
      matchExtraAccessRoot_def)

section \<open>A dangling link leads out\<close>

text \<open>
  A file system as a tree of directories, files and links, with the resolution of names the kernel performs: a
  link is resolved from the real directory it lies in.
\<close>

datatype tree_entry = TDir | TFile | TLink string

type_synonym file_tree = "(string list \<times> tree_entry) list"

fun walk :: "nat \<Rightarrow> file_tree \<Rightarrow> string list \<Rightarrow> string list \<Rightarrow> string + string list" where
  "walk n t cur [] = Inr cur"
| "walk 0 t cur (s # ss) = Inl ''ELOOP''"
| "walk (Suc n) t cur (s # ss) =
    (if s = [] \<or> s = ''.'' then walk n t cur ss
     else if s = ''..'' then walk n t (butlast cur) ss
     else case map_of t (cur @ [s]) of
       None \<Rightarrow> Inl ''ENOENT''
     | Some TFile \<Rightarrow> if ss = [] then Inr (cur @ [s]) else Inl ''ENOTDIR''
     | Some TDir \<Rightarrow> walk n t (cur @ [s]) ss
     | Some (TLink l) \<Rightarrow> walk n t (if isAbsolute l then [] else cur) (js_split slash l @ ss))"

definition tree_realpath :: "file_tree \<Rightarrow> string \<Rightarrow> string + string" where
  "tree_realpath t p = map_sum id canonical_of (walk 20 t [] (js_split slash p))"

definition tree_link :: "file_tree \<Rightarrow> string \<Rightarrow> string option" where
  "tree_link t p =
    (let segs = path_segs p in
     if segs = [] then None
     else case walk 20 t [] (butlast segs) of
       Inl _ \<Rightarrow> None
     | Inr d \<Rightarrow> (case map_of t (d @ [last segs]) of Some (TLink l) \<Rightarrow> Some l | _ \<Rightarrow> None))"

definition tree_fs :: "file_tree \<Rightarrow> link_fs" where
  "tree_fs t = \<lparr>lf_realpath = tree_realpath t, lf_is_symlink = (\<lambda>p. tree_link t p \<noteq> None),
     lf_readlink = (\<lambda>p. case tree_link t p of Some l \<Rightarrow> Inr l | None \<Rightarrow> Inl ''EINVAL'')\<rparr>"

text \<open>
  In the workspace \<open>/w\<close> the link \<open>a\<close> leads to \<open>/w/b/c\<close>, whose entry \<open>l\<close> is a dangling link to \<open>../s\<close>, and \<open>/w/s/x\<close> is a
  link to \<open>/e\<close>. The code resolves \<open>../s\<close> from \<open>/w/a\<close>, where the kernel resolves it from \<open>/w/b/c\<close>.
\<close>

definition escape_tree :: file_tree where
  "escape_tree =
    [([''w''], TDir), ([''w'', ''a''], TLink ''/w/b/c''), ([''w'', ''b''], TDir), ([''w'', ''b'', ''c''], TDir),
     ([''w'', ''b'', ''c'', ''l''], TLink ''../s''), ([''w'', ''s''], TDir), ([''w'', ''s'', ''x''], TLink ''/e''),
     ([''e''], TDir), ([''e'', ''f''], TFile)]"

definition strict_policy :: path_policy where
  "strict_policy = \<lparr>pp_deny = [], pp_roots = [], pp_relaxed = False\<rparr>"

theorem dangling_link_escapes:
  "resolveInsideWorkspace (tree_fs escape_tree) ''/'' strict_policy None ''/w'' ''a/l/x/f'' = Inr ''/w/s/x/f'' \<and>
   lf_realpath (tree_fs escape_tree) ''/w/s/x/f'' = Inr ''/e/f'' \<and> \<not> inside ''/w'' ''/e/f''"
  by code_simp

section \<open>Witnesses\<close>

text \<open>A file system without links, of the directories \<open>/\<close> and \<open>/w\<close>.\<close>

definition plain_fs :: link_fs where
  "plain_fs = \<lparr>lf_realpath = (\<lambda>p. if p = ''/'' \<or> p = ''/w'' then Inr p else Inl ''ENOENT''),
     lf_is_symlink = (\<lambda>_. False), lf_readlink = (\<lambda>_. Inl ''EINVAL'')\<rparr>"

lemma plain_fs_honest: "honest_fs plain_fs"
proof -
  have "''/'' = canonical_of []" "''/w'' = canonical_of [''w'']" by code_simp+
  moreover have "canonical (canonical_of [])" "canonical (canonical_of [''w''])"
    by (rule canonical_of_canonical, simp add: plain_seg_def)+
  ultimately have "canonical ''/''" "canonical ''/w''" by simp_all
  then show ?thesis by (auto simp: honest_fs_def plain_fs_def split: if_splits)
qed

lemma plain_fs_no_dangling: "no_dangling plain_fs"
  by (simp add: no_dangling_def plain_fs_def)

theorem resolved_path_is_contained_witness: "link_free plain_fs ''/w/d/f''"
proof -
  have run: "resolveInsideWorkspace plain_fs ''/'' strict_policy None ''/w'' ''d/./f'' = Inr ''/w/d/f''"
    by code_simp
  show ?thesis using resolved_path_is_contained [OF plain_fs_honest plain_fs_no_dangling run] by blast
qed

theorem resolve_existing_witness:
  "resolveInsideWorkspace plain_fs ''/'' strict_policy None ''/w'' ''..'' = Inl EscapesWorkspace"
proof -
  have h: "lf_realpath plain_fs (path_resolve (path_resolve ''/'' ''/w'') ''..'') = Inr ''/''"
      "lf_realpath plain_fs ''/w'' = Inr ''/w''" "pp_roots strict_policy = []" "\<not> pp_relaxed strict_policy"
      "\<not> inside ''/w'' ''/''"
    by code_simp+
  from resolve_existing [OF h(1-4)] h(5) show ?thesis by simp
qed


section \<open>What is internal\<close>

lemma rx_test_anchored: "rx_test (Seq Bol r) s \<longleftrightarrow> rx_ends r (None, s) \<noteq> []"
proof
  assume "rx_test (Seq Bol r) s"
  then obtain u v where s: "s = u @ v" and ne: "rx_ends (Seq Bol r) (if u = [] then None else Some (last u), v) \<noteq> []"
    by (auto simp: rx_test_iff)
  then have "u = []" by (auto split: if_splits)
  with s ne show "rx_ends r (None, s) \<noteq> []" by simp
next
  assume "rx_ends r (None, s) \<noteq> []"
  then show "rx_test (Seq Bol r) s" using rx_testI [of "Seq Bol r" "[]" s] by simp
qed

lemma ends_dir_end: "rx_ends dir_end (x, s) \<noteq> [] \<longleftrightarrow> s = [] \<or> starts_with s ''/''"
  by (cases s) (auto simp: dir_end_def rx_ends_lit nub_def)

lemma seq_lit_ne: "rx_ends (Seq (lit w) r) (x, s) \<noteq> [] \<longleftrightarrow>
    (\<exists>t. s = w @ t \<and> rx_ends r (if w = [] then x else Some (last w), t) \<noteq> [])"
  by (auto simp: rx_ends_lit starts_with_iff)

lemma internal_dir: "rx_test (seqs [Bol, lit w, dir_end]) n \<longleftrightarrow> n = w \<or> starts_with n (w @ ''/'')"
  unfolding rx_syntax rx_test_anchored seq_lit_ne ends_dir_end by (auto simp: starts_with_iff)

lemma seq_eol_ne: "rx_ends (Seq r Eol) p \<noteq> [] \<longleftrightarrow> (\<exists>q\<in>set (rx_ends r p). snd q = [])"
  by auto

lemma internal_file: "rx_test (seqs [Bol, lit w, Eol]) n \<longleftrightarrow> n = w"
  unfolding rx_syntax rx_test_anchored seq_lit_ne by simp

lemma star_cls_run: "(rx_adv (rx_ends (Cls f)))\<^sup>*\<^sup>* p q \<Longrightarrow> \<exists>w. snd p = w @ snd q \<and> list_all f w"
proof (induction rule: converse_rtranclp_induct)
  case (step p m)
  then obtain w where "snd m = w @ snd q" "list_all f w" by blast
  moreover obtain c where "snd p = c # snd m" "f c"
    using step(1) by (cases "snd p") (auto simp: rx_adv_def split: if_splits)
  ultimately have "snd p = (c # w) @ snd q \<and> list_all f (c # w)" by simp
  then show ?case by blast
qed simp

lemma plus_cls_all: "(\<exists>q\<in>set (rx_ends (plus (Cls f)) (x, s)). snd q = []) \<longleftrightarrow> s \<noteq> [] \<and> list_all f s"
proof
  assume "\<exists>q\<in>set (rx_ends (plus (Cls f)) (x, s)). snd q = []"
  then obtain m q where m: "m \<in> set (rx_ends (Cls f) (x, s))" and q: "q \<in> set (rx_ends (Star (Cls f)) m)" "snd q = []"
    by (auto simp: plus_def simp del: rx_ends.simps)
  obtain c where "s = c # snd m" "f c" using m by (auto split: list.splits if_splits)
  moreover have "list_all f (snd m)" using star_cls_run q unfolding rx_ends_Star_iff by fastforce
  ultimately show "s \<noteq> [] \<and> list_all f s" by simp
next
  assume "s \<noteq> [] \<and> list_all f s"
  then have "rx_match (plus (Cls f)) (x, s @ []) (Some (last s), [])" by (intro rx_match_plus_Cls) auto
  then show "\<exists>q\<in>set (rx_ends (plus (Cls f)) (x, s)). snd q = []"
    unfolding rx_match_def append_Nil2 by (rule bexI [rotated]) simp
qed

definition template_names :: "string list" where
  "template_names = [''example'', ''template'', ''sample'', ''dist'']"

lemma lit_all: "(\<exists>q\<in>set (rx_ends (lit w) (x, s)). snd q = []) \<longleftrightarrow> s = w"
  by (auto simp: rx_ends_lit starts_with_iff)

lemma template_ahead:
  "rx_ends (Seq (alts [lit ''example'', lit ''template'', lit ''sample'', lit ''dist'']) Eol) (x, s) \<noteq> []
     \<longleftrightarrow> s \<in> set template_names"
  unfolding seq_eol_ne rx_ends_alts bex_UN by (simp only: list.set bex_simps lit_all template_names_def insert_iff empty_iff)

lemma env_suffix:
  "rx_ends (Seq (opt (Seq (lit ''.'') (Seq (NegLook (Seq (alts [lit ''example'', lit ''template'', lit ''sample'',
       lit ''dist'']) Eol)) (plus (Cls f))))) Eol) (x, t) \<noteq> [] \<longleftrightarrow>
     t = [] \<or> (\<exists>s. t = ''.'' @ s \<and> s \<notin> set template_names \<and> s \<noteq> [] \<and> list_all f s)"
  (is "rx_ends (Seq (opt (Seq _ (Seq (NegLook ?N) _))) Eol) _ \<noteq> [] \<longleftrightarrow> _")
proof -
  have inner: "(\<exists>q\<in>set (rx_ends (Seq (NegLook ?N) (plus (Cls f))) (y, s)). snd q = []) \<longleftrightarrow>
      s \<notin> set template_names \<and> s \<noteq> [] \<and> list_all f s" for y s
    using template_ahead [of y s] plus_cls_all [of f y s] by (auto simp del: rx_ends.simps simp: rx_ends.simps(11))
  have outer: "(\<exists>q\<in>set (rx_ends (Seq (lit ''.'') r) (x, t)). snd q = []) \<longleftrightarrow>
      (\<exists>s. t = ''.'' @ s \<and> (\<exists>q\<in>set (rx_ends r (Some (CHR ''.''), s)). snd q = []))" for r
    by (cases t) (simp_all add: Bex_def rx_ends_lit del: rx_ends.simps)
  have option: "(\<exists>q\<in>set (rx_ends (opt r) p). snd q = []) \<longleftrightarrow> snd p = [] \<or> (\<exists>q\<in>set (rx_ends r p). snd q = [])" for r p
    by (auto simp: opt_def)
  show ?thesis unfolding seq_eol_ne option outer inner snd_conv by (rule refl)
qed

text \<open>
  The tools refuse exactly the two state directories with everything below, the provider keys, and the
  environment files of the root of the workspace but for the four templates.
\<close>

theorem internal_paths_exact:
  "isInternalPath [] p \<longleftrightarrow>
    (let n = strip_dot_slash p in
     n = ''.local'' \<or> starts_with n ''.local/'' \<or> n = ''.magister'' \<or> starts_with n ''.magister/'' \<or>
     n = ''config/secrets.json'' \<or> n = ''.env'' \<or>
     (\<exists>s. n = ''.env.'' @ s \<and> s \<noteq> [] \<and> slash \<notin> set s \<and> s \<notin> set template_names))"
proof -
  have env: "rx_test (seqs [Bol, lit ''.env'',
       opt (seqs [lit ''.'',
         NegLook (Seq (alts [lit ''example'', lit ''template'', lit ''sample'', lit ''dist'']) Eol),
         plus not_slash]), Eol]) n \<longleftrightarrow>
      n = ''.env'' \<or> (\<exists>s. n = ''.env.'' @ s \<and> s \<noteq> [] \<and> slash \<notin> set s \<and> s \<notin> set template_names)" for n
    unfolding rx_syntax(1-3) rx_test_anchored seq_lit_ne not_slash_def none_of_def env_suffix
    by (auto simp: list_all_iff)
  show ?thesis
    unfolding isInternalPath_def INTERNAL_PATH_PATTERNS_def Let_def
    by (simp only: list_ex_iff list.set bex_simps internal_dir internal_file env) auto
qed

end
