(* ===== verification/Tool_Executor.thy ===== *)
theory Tool_Executor
  imports Leader_Messages
begin

text \<open>
  The streaming tool executor (\<open>autonomous-loop/streaming-tool-executor.ts\<close>) as a state machine. The state holds
  the tracked tools, the flags, the suspended runs of \<open>processQueue\<close> (each by the index it continues at), the number
  of wake-ups that finished tools have scheduled, and the generator of \<open>getCompletedResults\<close>. A step is one piece of
  code between two awaits; a running tool may deliver updates, end or throw at any time. \<open>'c\<close> is the context of
  tool use. The character that ends a shortened description lies beyond the modelled range and is an argument.
\<close>

datatype tool_status = Queued | Executing | Completed | Yielded

text \<open>
  How far \<open>collectResults\<close> of a tool is: not called, iterating over the tool's updates, leaving the loop after a
  \<open>break\<close>, done, or ended by an exception.
\<close>

datatype run_phase = NotRun | Running | Leaving | RunDone | RunDead

record tool_block =
  tb_id :: string
  tb_name :: string
  tb_input :: "(string \<times> json) list"

record 'c tracked_tool =
  tt_block :: tool_block
  tt_status :: tool_status
  tt_safe :: bool
  tt_results :: "leader_message list option"
  tt_progress :: "leader_message list"
  tt_messages :: "leader_message list"
  tt_modifiers :: "'c list"
  tt_errored :: bool
  tt_phase :: run_phase

datatype interrupt_behavior = IntCancel | IntBlock

record tool_def =
  td_name :: string
  td_aliases :: "string list"
  td_isConcurrencySafe :: "(string \<times> json) list \<Rightarrow> bool option"
  td_interruptBehavior :: "interrupt_behavior option"

record executor_config =
  xc_tools :: "tool_def list"
  xc_ellipsis :: string

datatype result_gen = GenStart | GenAt nat | GenResults nat "leader_message list" | GenDone

record 'c executor =
  ex_tools :: "'c tracked_tool list"
  ex_ctx :: 'c
  ex_hasErrored :: bool
  ex_erroredToolDescription :: string
  ex_siblingAborted :: bool
  ex_discarded :: bool
  ex_aborted :: bool
  ex_inProgress :: "string set"
  ex_loops :: "nat list"
  ex_wakeups :: nat
  ex_gen :: result_gen
  ex_out :: "(nat \<times> leader_message) list"

definition new_executor :: "'c \<Rightarrow> 'c executor" where
  "new_executor c = \<lparr>ex_tools = [], ex_ctx = c, ex_hasErrored = False, ex_erroredToolDescription = [],
     ex_siblingAborted = False, ex_discarded = False, ex_aborted = False, ex_inProgress = {}, ex_loops = [],
     ex_wakeups = 0, ex_gen = GenDone, ex_out = []\<rparr>"

definition upd_tool :: "nat \<Rightarrow> ('c tracked_tool \<Rightarrow> 'c tracked_tool) \<Rightarrow> 'c executor \<Rightarrow> 'c executor" where
  "upd_tool k f ex = (if k < length (ex_tools ex) then ex\<lparr>ex_tools := (ex_tools ex)[k := f (ex_tools ex ! k)]\<rparr> else ex)"

definition findToolByName :: "tool_def list \<Rightarrow> string \<Rightarrow> tool_def option" where
  "findToolByName tools name = find (\<lambda>t. td_name t = name \<or> name \<in> set (td_aliases t)) tools"

section \<open>Starting tools\<close>

definition error_result :: "string \<Rightarrow> string \<Rightarrow> leader_message" where
  "error_result i txt = MToolResult no_base i (RCStr (''<tool_use_error>'' @ txt @ ''</tool_use_error>'')) (Some True)"

datatype abort_reason = SiblingError | UserInterrupted | StreamingFallback

definition createSyntheticErrorMessage :: "'c executor \<Rightarrow> string \<Rightarrow> abort_reason \<Rightarrow> leader_message" where
  "createSyntheticErrorMessage ex i reason = error_result i
    (case reason of
       UserInterrupted \<Rightarrow> ''User rejected tool use''
     | StreamingFallback \<Rightarrow> ''Streaming fallback - tool execution discarded''
     | SiblingError \<Rightarrow> if ex_erroredToolDescription ex \<noteq> []
         then ''Cancelled: parallel tool call '' @ ex_erroredToolDescription ex @ '' errored''
         else ''Cancelled: parallel tool call errored'')"

definition getToolInterruptBehavior :: "executor_config \<Rightarrow> 'c tracked_tool \<Rightarrow> interrupt_behavior" where
  "getToolInterruptBehavior cfg t =
    (case findToolByName (xc_tools cfg) (tb_name (tt_block t)) of
       None \<Rightarrow> IntCancel
     | Some d \<Rightarrow> (case td_interruptBehavior d of Some b \<Rightarrow> b | None \<Rightarrow> IntCancel))"

definition getAbortReason :: "executor_config \<Rightarrow> 'c executor \<Rightarrow> 'c tracked_tool \<Rightarrow> abort_reason option" where
  "getAbortReason cfg ex t =
    (if ex_discarded ex then Some StreamingFallback
     else if ex_hasErrored ex then Some SiblingError
     else if ex_aborted ex
     then (if getToolInterruptBehavior cfg t = IntBlock then None else Some UserInterrupted)
     else None)"

definition canExecuteTool :: "'c tracked_tool list \<Rightarrow> bool \<Rightarrow> bool" where
  "canExecuteTool tools safe =
    (let executing = filter (\<lambda>t. tt_status t = Executing) tools
     in executing = [] \<or> (safe \<and> list_all tt_safe executing))"

text \<open>
  \<open>executeTool\<close> up to its end, which the synchronous part of \<open>collectResults\<close> precedes. A tool that is cancelled
  before it starts is complete at once and schedules its wake-up.
\<close>

definition executeTool :: "executor_config \<Rightarrow> nat \<Rightarrow> 'c executor \<Rightarrow> 'c executor" where
  "executeTool cfg k ex =
    (let t = ex_tools ex ! k;
         ex1 = ex\<lparr>ex_inProgress := insert (tb_id (tt_block t)) (ex_inProgress ex)\<rparr>
     in case getAbortReason cfg ex t of
       Some reason \<Rightarrow>
         (upd_tool k (\<lambda>t. t\<lparr>tt_status := Completed, tt_phase := RunDone,
              tt_results := Some [createSyntheticErrorMessage ex (tb_id (tt_block t)) reason]\<rparr>) ex1)
            \<lparr>ex_wakeups := Suc (ex_wakeups ex)\<rparr>
     | None \<Rightarrow> upd_tool k (\<lambda>t. t\<lparr>tt_status := Executing, tt_phase := Running\<rparr>) ex1)"

text \<open>The tool the loop of \<open>processQueue\<close> starts next when it looks at \<open>rest\<close>, whose first index is \<open>i\<close>.\<close>

fun next_start :: "'c tracked_tool list \<Rightarrow> nat \<Rightarrow> 'c tracked_tool list \<Rightarrow> nat option" where
  "next_start tools i [] = None"
| "next_start tools i (t # rest) =
    (if tt_status t \<noteq> Queued then next_start tools (Suc i) rest
     else if canExecuteTool tools (tt_safe t) then Some i
     else if \<not> tt_safe t then None
     else next_start tools (Suc i) rest)"

text \<open>A run of \<open>processQueue\<close> from index \<open>i\<close> to its next await or its end.\<close>

definition processQueue :: "executor_config \<Rightarrow> nat \<Rightarrow> 'c executor \<Rightarrow> 'c executor" where
  "processQueue cfg i ex =
    (case next_start (ex_tools ex) i (drop i (ex_tools ex)) of
       None \<Rightarrow> ex
     | Some k \<Rightarrow> (let ex' = executeTool cfg k ex in ex'\<lparr>ex_loops := ex_loops ex' @ [Suc k]\<rparr>))"

definition new_tool :: "tool_block \<Rightarrow> bool \<Rightarrow> 'c tracked_tool" where
  "new_tool b safe = \<lparr>tt_block = b, tt_status = Queued, tt_safe = safe, tt_results = None, tt_progress = [],
     tt_messages = [], tt_modifiers = [], tt_errored = False, tt_phase = NotRun\<rparr>"

definition addTool :: "executor_config \<Rightarrow> tool_block \<Rightarrow> 'c executor \<Rightarrow> 'c executor" where
  "addTool cfg b ex =
    (case find (\<lambda>k. tb_id (tt_block (ex_tools ex ! k)) = tb_id b) [0..<length (ex_tools ex)] of
       Some k \<Rightarrow> if tt_status (ex_tools ex ! k) = Queued then upd_tool k (\<lambda>t. t\<lparr>tt_block := b\<rparr>) ex else ex
     | None \<Rightarrow>
       (case findToolByName (xc_tools cfg) (tb_name b) of
          None \<Rightarrow> ex\<lparr>ex_tools := ex_tools ex @ [(new_tool b True)\<lparr>tt_status := Completed,
            tt_results := Some [error_result (tb_id b) (''Error: No such tool available: '' @ tb_name b)]\<rparr>]\<rparr>
        | Some d \<Rightarrow>
            processQueue cfg 0 (ex\<lparr>ex_tools := ex_tools ex @
              [new_tool b (case td_isConcurrencySafe d (tb_input b) of Some s \<Rightarrow> s | None \<Rightarrow> False)]\<rparr>)))"

section \<open>Running tools\<close>

record 'c tool_update =
  tu_message :: "leader_message option"
  tu_newContext :: "'c option"

fun is_error_result :: "leader_message \<Rightarrow> bool" where
  "is_error_result (MToolResult b i c e) = (e = Some True)"
| "is_error_result _ = False"

fun is_progress :: "leader_message \<Rightarrow> bool" where
  "is_progress (MProgress b i d) = True"
| "is_progress _ = False"

text \<open>\<open>a ?? b\<close> on the fields of the input, null included.\<close>

definition present :: "json option \<Rightarrow> json option" where
  "present j = (if j = Some JNull then None else j)"

definition getToolDescription :: "executor_config \<Rightarrow> tool_block \<Rightarrow> string" where
  "getToolDescription cfg b =
    (let get = (\<lambda>k. present (obj_get (tb_input b) k));
         summary = (case get ''command'' of Some j \<Rightarrow> Some j
           | None \<Rightarrow> (case get ''file_path'' of Some j \<Rightarrow> Some j | None \<Rightarrow> get ''pattern''))
     in case summary of
          Some (JStr s) \<Rightarrow> if s \<noteq> []
            then tb_name b @ ''('' @ (if 40 < length s then take 40 s @ xc_ellipsis cfg else s) @ '')''
            else tb_name b
        | _ \<Rightarrow> tb_name b)"

definition message_is :: "(leader_message \<Rightarrow> bool) \<Rightarrow> 'c tool_update \<Rightarrow> bool" where
  "message_is P u = (case tu_message u of None \<Rightarrow> False | Some m \<Rightarrow> P m)"

definition note_error :: "executor_config \<Rightarrow> 'c tracked_tool \<Rightarrow> 'c executor \<Rightarrow> 'c executor" where
  "note_error cfg t ex =
    (if tb_name (tt_block t) = ''bash''
     then ex\<lparr>ex_hasErrored := True, ex_erroredToolDescription := getToolDescription cfg (tt_block t),
             ex_siblingAborted := True\<rparr>
     else ex)"

text \<open>One iteration of the loop over the updates of the tool.\<close>

definition tool_delivers :: "executor_config \<Rightarrow> nat \<Rightarrow> 'c tool_update \<Rightarrow> 'c executor \<Rightarrow> 'c executor" where
  "tool_delivers cfg k u ex =
    (let t = ex_tools ex ! k in
     case (if tt_errored t then None else getAbortReason cfg ex t) of
       Some reason \<Rightarrow>
         upd_tool k (\<lambda>t. t\<lparr>tt_phase := Leaving,
           tt_messages := tt_messages t @ [createSyntheticErrorMessage ex (tb_id (tt_block t)) reason]\<rparr>) ex
     | None \<Rightarrow>
         (let err = message_is is_error_result u;
              ex1 = (if err then note_error cfg t ex else ex)
          in upd_tool k (\<lambda>t. t\<lparr>
               tt_errored := tt_errored t \<or> err,
               tt_progress := (if message_is is_progress u then tt_progress t @ [the (tu_message u)] else tt_progress t),
               tt_messages := (if message_is (\<lambda>m. \<not> is_progress m) u then tt_messages t @ [the (tu_message u)]
                               else tt_messages t),
               tt_modifiers := (case tu_newContext u of None \<Rightarrow> tt_modifiers t | Some c \<Rightarrow> tt_modifiers t @ [c])\<rparr>) ex1))"

text \<open>The end of \<open>collectResults\<close>; every modifier replaces the context.\<close>

definition tool_ends :: "nat \<Rightarrow> 'c executor \<Rightarrow> 'c executor" where
  "tool_ends k ex =
    (let t = ex_tools ex ! k;
         ex1 = upd_tool k (\<lambda>t. t\<lparr>tt_results := Some (tt_messages t), tt_status := Completed, tt_phase := RunDone\<rparr>) ex
     in ex1\<lparr>ex_ctx := (if \<not> tt_safe t \<and> tt_modifiers t \<noteq> [] then last (tt_modifiers t) else ex_ctx ex),
            ex_wakeups := Suc (ex_wakeups ex)\<rparr>)"

definition tool_throws :: "nat \<Rightarrow> 'c executor \<Rightarrow> 'c executor" where
  "tool_throws k ex = (upd_tool k (\<lambda>t. t\<lparr>tt_phase := RunDead\<rparr>) ex)\<lparr>ex_wakeups := Suc (ex_wakeups ex)\<rparr>"

definition discard :: "'c executor \<Rightarrow> 'c executor" where
  "discard ex = ex\<lparr>ex_discarded := True\<rparr>"

section \<open>Yielding results\<close>

definition markToolUseAsComplete :: "string \<Rightarrow> 'c executor \<Rightarrow> 'c executor" where
  "markToolUseAsComplete i ex = ex\<lparr>ex_inProgress := ex_inProgress ex - {i}\<rparr>"

definition emit :: "nat \<Rightarrow> leader_message \<Rightarrow> 'c executor \<Rightarrow> 'c executor" where
  "emit k m ex = ex\<lparr>ex_out := ex_out ex @ [(k, m)]\<rparr>"

text \<open>One step of the generator of \<open>getCompletedResults\<close>; what it yields is appended to \<open>ex_out\<close>.\<close>

definition gen_step :: "'c executor \<Rightarrow> 'c executor" where
  "gen_step ex =
    (case ex_gen ex of
       GenStart \<Rightarrow> ex\<lparr>ex_gen := (if ex_discarded ex then GenDone else GenAt 0)\<rparr>
     | GenAt k \<Rightarrow>
         if length (ex_tools ex) \<le> k then ex\<lparr>ex_gen := GenDone\<rparr>
         else
           let t = ex_tools ex ! k in
           (case tt_progress t of
              m # ms \<Rightarrow> emit k m (upd_tool k (\<lambda>t. t\<lparr>tt_progress := ms\<rparr>) ex)
            | [] \<Rightarrow>
              (case (tt_status t, tt_results t) of
                 (Yielded, _) \<Rightarrow> ex\<lparr>ex_gen := GenAt (Suc k)\<rparr>
               | (Completed, Some rs) \<Rightarrow> (upd_tool k (\<lambda>t. t\<lparr>tt_status := Yielded\<rparr>) ex)\<lparr>ex_gen := GenResults k rs\<rparr>
               | (Executing, _) \<Rightarrow> ex\<lparr>ex_gen := (if tt_safe t then GenAt (Suc k) else GenDone)\<rparr>
               | _ \<Rightarrow> ex\<lparr>ex_gen := GenAt (Suc k)\<rparr>))
     | GenResults k [] \<Rightarrow>
         (markToolUseAsComplete (tb_id (tt_block (ex_tools ex ! k))) ex)\<lparr>ex_gen := GenAt (Suc k)\<rparr>
     | GenResults k (m # ms) \<Rightarrow> (emit k m ex)\<lparr>ex_gen := GenResults k ms\<rparr>
     | GenDone \<Rightarrow> ex)"

definition hasPendingProgress :: "'c executor \<Rightarrow> bool" where
  "hasPendingProgress ex = list_ex (\<lambda>t. tt_progress t \<noteq> []) (ex_tools ex)"

definition hasCompletedResults :: "'c executor \<Rightarrow> bool" where
  "hasCompletedResults ex = list_ex (\<lambda>t. tt_status t = Completed) (ex_tools ex)"

definition hasExecutingTools :: "'c executor \<Rightarrow> bool" where
  "hasExecutingTools ex = list_ex (\<lambda>t. tt_status t = Executing) (ex_tools ex)"

definition hasUnfinishedTools :: "'c executor \<Rightarrow> bool" where
  "hasUnfinishedTools ex = list_ex (\<lambda>t. tt_status t \<noteq> Yielded) (ex_tools ex)"

section \<open>The machine\<close>

definition is_running :: "'c tracked_tool \<Rightarrow> bool" where
  "is_running t \<longleftrightarrow> tt_phase t = Running \<or> tt_phase t = Leaving"

text \<open>
  The internal steps: a suspended run of the queue continues, a scheduled one starts, or a running tool ends.
\<close>

inductive inner_step :: "executor_config \<Rightarrow> 'c executor \<Rightarrow> 'c executor \<Rightarrow> bool" for cfg where
  step_resume: "ex_loops ex = l1 @ i # l2 \<Longrightarrow> inner_step cfg ex (processQueue cfg i (ex\<lparr>ex_loops := l1 @ l2\<rparr>))"
| step_wake: "ex_wakeups ex = Suc n \<Longrightarrow> inner_step cfg ex (processQueue cfg 0 (ex\<lparr>ex_wakeups := n\<rparr>))"
| step_end: "k < length (ex_tools ex) \<Longrightarrow> is_running (ex_tools ex ! k) \<Longrightarrow> inner_step cfg ex (tool_ends k ex)"

text \<open>All steps: the stream adds tools, tools deliver or throw, users abort, and the results are read.\<close>

inductive exec_step :: "executor_config \<Rightarrow> 'c executor \<Rightarrow> 'c executor \<Rightarrow> bool" for cfg where
  step_inner: "inner_step cfg ex ex' \<Longrightarrow> exec_step cfg ex ex'"
| step_add: "exec_step cfg ex (addTool cfg b ex)"
| step_deliver: "k < length (ex_tools ex) \<Longrightarrow> tt_phase (ex_tools ex ! k) = Running \<Longrightarrow>
    exec_step cfg ex (tool_delivers cfg k u ex)"
| step_throw: "k < length (ex_tools ex) \<Longrightarrow> is_running (ex_tools ex ! k) \<Longrightarrow> exec_step cfg ex (tool_throws k ex)"
| step_poll: "exec_step cfg ex (processQueue cfg 0 ex)"
| step_discard: "exec_step cfg ex (discard ex)"
| step_abort: "exec_step cfg ex (ex\<lparr>ex_aborted := True\<rparr>)"
| step_gen_new: "ex_gen ex = GenDone \<Longrightarrow> exec_step cfg ex (ex\<lparr>ex_gen := GenStart\<rparr>)"
| step_gen: "exec_step cfg ex (gen_step ex)"

definition fresh_executor :: "'c executor \<Rightarrow> bool" where
  "fresh_executor ex \<longleftrightarrow> (\<exists>c. ex = new_executor c)"

section \<open>The invariant\<close>

definition phase_ok :: "'c tracked_tool \<Rightarrow> bool" where
  "phase_ok t \<longleftrightarrow>
     (case tt_status t of
        Queued \<Rightarrow> tt_phase t = NotRun \<and> tt_results t = None \<and> tt_progress t = []
      | Executing \<Rightarrow> tt_phase t \<in> {Running, Leaving, RunDead} \<and> tt_results t = None
      | _ \<Rightarrow> tt_phase t \<in> {RunDone, NotRun} \<and> tt_results t \<noteq> None)"

text \<open>A tool that is not concurrency safe runs alone, and no queued tool stands before a started one.\<close>

definition tools_ok :: "'c tracked_tool list \<Rightarrow> bool" where
  "tools_ok ts \<longleftrightarrow>
     (\<forall>i<length ts. phase_ok (ts ! i)) \<and>
     (\<forall>i<length ts. \<forall>j<length ts. tt_status (ts ! i) = Executing \<longrightarrow> tt_status (ts ! j) = Executing \<longrightarrow>
        i = j \<or> tt_safe (ts ! i)) \<and>
     (\<forall>j<length ts. \<forall>i<j. tt_status (ts ! i) = Queued \<longrightarrow> tt_phase (ts ! j) = NotRun)"

definition loop_ok :: "'c tracked_tool list \<Rightarrow> nat \<Rightarrow> bool" where
  "loop_ok ts i \<longleftrightarrow> i \<le> length ts \<and> (\<forall>j<i. tt_status (ts ! j) \<noteq> Queued)"

definition some_queued :: "'c tracked_tool list \<Rightarrow> bool" where
  "some_queued ts \<longleftrightarrow> (\<exists>t\<in>set ts. tt_status t = Queued)"

definition some_executing :: "'c tracked_tool list \<Rightarrow> bool" where
  "some_executing ts \<longleftrightarrow> (\<exists>t\<in>set ts. tt_status t = Executing)"

definition tool_id :: "'c tracked_tool \<Rightarrow> string" where
  "tool_id t = tb_id (tt_block t)"

text \<open>What holds of the tools and the suspended runs, and the promise that a queued tool is not forgotten.\<close>

definition sound_state :: "'c executor \<Rightarrow> bool" where
  "sound_state ex \<longleftrightarrow> tools_ok (ex_tools ex) \<and> (\<forall>i\<in>set (ex_loops ex). loop_ok (ex_tools ex) i) \<and>
     distinct (map tool_id (ex_tools ex))"

definition exec_ok :: "'c executor \<Rightarrow> bool" where
  "exec_ok ex \<longleftrightarrow> sound_state ex \<and>
     (some_queued (ex_tools ex) \<longrightarrow> ex_loops ex \<noteq> [] \<or> 0 < ex_wakeups ex \<or> some_executing (ex_tools ex))"

subsection \<open>The choice of the next tool\<close>

lemma canExecute_weaken: "canExecuteTool ts s \<Longrightarrow> canExecuteTool ts True"
  by (auto simp: canExecuteTool_def Let_def)

lemma canExecute_iff:
  "canExecuteTool ts s \<longleftrightarrow> (\<forall>t\<in>set ts. tt_status t = Executing \<longrightarrow> s \<and> tt_safe t)"
  by (auto simp: canExecuteTool_def Let_def filter_empty_conv list_all_iff)

lemma next_start_blocked: "\<not> canExecuteTool ts True \<Longrightarrow> next_start ts i rest = None"
  by (induction ts i rest rule: next_start.induct) (auto dest: canExecute_weaken)

lemma next_start_Some:
  assumes "next_start ts i rest = Some k"
  shows "\<exists>d<length rest. k = i + d \<and> tt_status (rest ! d) = Queued \<and> canExecuteTool ts (tt_safe (rest ! d)) \<and>
    (\<forall>j<d. tt_status (rest ! j) \<noteq> Queued)"
  using assms
proof (induction rest arbitrary: i)
  case (Cons t rest)
  show ?case
  proof (cases "tt_status t = Queued \<and> canExecuteTool ts (tt_safe t)")
    case True
    then show ?thesis using Cons.prems by (intro exI [of _ 0]) auto
  next
    case False
    have run: "next_start ts (Suc i) rest = Some k" and q: "tt_status t \<noteq> Queued"
      using Cons.prems False next_start_blocked [of ts "Suc i" rest] by (auto split: if_splits)
    from Cons.IH [OF run] obtain d where "d < length rest" "k = Suc i + d" "tt_status (rest ! d) = Queued"
      "canExecuteTool ts (tt_safe (rest ! d))" "\<forall>j<d. tt_status (rest ! j) \<noteq> Queued" by blast
    with q show ?thesis by (intro exI [of _ "Suc d"]) (auto simp: less_Suc_eq_0_disj)
  qed
qed simp

lemma next_start_None:
  assumes "next_start ts i rest = None" and "t \<in> set rest" and "tt_status t = Queued"
  shows "some_executing ts"
  using assms
  by (induction ts i rest rule: next_start.induct)
    (auto simp: some_executing_def canExecute_iff split: if_splits)

lemma next_start_drop:
  assumes "next_start ts i (drop i ts) = Some k" and "loop_ok ts i"
  shows "k < length ts" "tt_status (ts ! k) = Queued" "canExecuteTool ts (tt_safe (ts ! k))"
    "\<forall>j<k. tt_status (ts ! j) \<noteq> Queued"
proof -
  obtain d where d: "d < length (drop i ts)" "k = i + d" "tt_status (drop i ts ! d) = Queued"
    "canExecuteTool ts (tt_safe (drop i ts ! d))" "\<forall>j<d. tt_status (drop i ts ! j) \<noteq> Queued"
    using next_start_Some [OF assms(1)] by blast
  then show "k < length ts" "tt_status (ts ! k) = Queued" "canExecuteTool ts (tt_safe (ts ! k))"
    using assms(2) by (auto simp: loop_ok_def)
  show "\<forall>j<k. tt_status (ts ! j) \<noteq> Queued"
  proof (intro allI impI)
    fix j assume "j < k"
    show "tt_status (ts ! j) \<noteq> Queued"
    proof (cases "j < i")
      case True then show ?thesis using assms(2) by (simp add: loop_ok_def)
    next
      case False
      with \<open>j < k\<close> d(2) have "j - i < d" by simp
      with d(5) have "tt_status (drop i ts ! (j - i)) \<noteq> Queued" by blast
      with False assms(2) show ?thesis by (simp add: loop_ok_def)
    qed
  qed
qed

subsection \<open>Changes of one tool\<close>

text \<open>A change of one tool that starts nothing and queues nothing.\<close>

definition evolves :: "'c tracked_tool \<Rightarrow> 'c tracked_tool \<Rightarrow> bool" where
  "evolves t t' \<longleftrightarrow> phase_ok t' \<and> tt_safe t' = tt_safe t \<and> tool_id t' = tool_id t \<and>
     (tt_status t' = Executing \<longrightarrow> tt_status t = Executing) \<and> (tt_status t' = Queued \<longrightarrow> tt_status t = Queued) \<and>
     (tt_phase t = NotRun \<longrightarrow> tt_phase t' = NotRun)"

lemma tools_ok_evolves: "tools_ok ts \<Longrightarrow> k < length ts \<Longrightarrow> evolves (ts ! k) t' \<Longrightarrow> tools_ok (ts[k := t'])"
  by (auto simp: tools_ok_def evolves_def nth_list_update)

lemma tools_ok_start:
  assumes "tools_ok ts" "k < length ts" "phase_ok t'" "tt_safe t' = tt_safe (ts ! k)" "tt_status t' \<noteq> Queued"
    "canExecuteTool ts (tt_safe (ts ! k))" "\<forall>j<k. tt_status (ts ! j) \<noteq> Queued"
  shows "tools_ok (ts[k := t'])"
proof -
  have "\<And>j. j < length ts \<Longrightarrow> tt_status (ts ! j) = Executing \<Longrightarrow> tt_safe (ts ! k) \<and> tt_safe (ts ! j)"
    using assms(6) nth_mem by (auto simp: canExecute_iff)
  then show ?thesis using assms by (auto simp: tools_ok_def nth_list_update)
qed

lemma tools_ok_append:
  assumes "tools_ok ts" "phase_ok t" "tt_status t \<noteq> Executing" "tt_phase t = NotRun"
  shows "tools_ok (ts @ [t])"
  using assms by (auto simp: tools_ok_def nth_append less_Suc_eq)

lemma loop_ok_upd: "loop_ok ts i \<Longrightarrow> (tt_status t' = Queued \<longrightarrow> tt_status (ts ! k) = Queued) \<Longrightarrow> loop_ok (ts[k := t']) i"
  by (cases "k < length ts") (auto simp: loop_ok_def nth_list_update list_update_beyond dest: less_le_trans)

lemma loop_ok_append: "loop_ok ts i \<Longrightarrow> loop_ok (ts @ us) i"
  by (auto simp: loop_ok_def nth_append)

lemma map_upd_same: "k < length ts \<Longrightarrow> f t' = f (ts ! k) \<Longrightarrow> map f (ts[k := t']) = map f ts"
  by (simp add: map_update list_update_same_conv)

lemma sound_evolves:
  assumes "sound_state ex" "k < length (ex_tools ex)" "evolves (ex_tools ex ! k) t'"
    "ex_tools ex' = (ex_tools ex)[k := t']" "set (ex_loops ex') \<subseteq> set (ex_loops ex)"
  shows "sound_state ex'"
proof -
  have "tools_ok (ex_tools ex')" unfolding assms(4)
    using assms by (intro tools_ok_evolves) (auto simp: sound_state_def)
  moreover have "\<forall>i\<in>set (ex_loops ex'). loop_ok (ex_tools ex') i" unfolding assms(4)
    using assms(1,3,5) by (auto simp: sound_state_def evolves_def intro!: loop_ok_upd)
  moreover have "map tool_id (ex_tools ex') = map tool_id (ex_tools ex)"
    unfolding assms(4) using assms(2,3) by (intro map_upd_same) (auto simp: evolves_def)
  ultimately show ?thesis using assms(1) by (simp add: sound_state_def)
qed

lemma some_queued_upd: "some_queued (ts[k := t']) \<Longrightarrow> (tt_status t' = Queued \<longrightarrow> tt_status (ts ! k) = Queued) \<Longrightarrow>
    k < length ts \<Longrightarrow> some_queued ts"
  using set_update_subset_insert [of ts k t'] nth_mem [of k ts] by (auto simp: some_queued_def)

lemma some_executing_upd: "some_executing ts \<Longrightarrow> k < length ts \<Longrightarrow>
    (tt_status (ts ! k) = Executing \<longrightarrow> tt_status t' = Executing) \<Longrightarrow> some_executing (ts[k := t'])"
  unfolding some_executing_def in_set_conv_nth Bex_def
  by (metis length_list_update nth_list_update)

lemma exec_ok_evolves:
  assumes "exec_ok ex" "k < length (ex_tools ex)" "evolves (ex_tools ex ! k) t'"
    "ex_tools ex' = (ex_tools ex)[k := t']" "ex_loops ex' = ex_loops ex" "ex_wakeups ex \<le> ex_wakeups ex'"
    "tt_status (ex_tools ex ! k) = Executing \<longrightarrow> tt_status t' = Executing \<or> 0 < ex_wakeups ex'"
  shows "exec_ok ex'"
  unfolding exec_ok_def
proof (intro conjI impI)
  show "sound_state ex'" using assms by (intro sound_evolves [of ex k t' ex']) (auto simp: exec_ok_def)
  assume "some_queued (ex_tools ex')"
  then have "some_queued (ex_tools ex)" using assms(2-4) some_queued_upd by (fastforce simp: evolves_def)
  then have "ex_loops ex \<noteq> [] \<or> 0 < ex_wakeups ex \<or> some_executing (ex_tools ex)"
    using assms(1) by (simp add: exec_ok_def)
  then show "ex_loops ex' \<noteq> [] \<or> 0 < ex_wakeups ex' \<or> some_executing (ex_tools ex')"
    using assms(2,4-7) some_executing_upd [of "ex_tools ex" k t'] by auto
qed


subsection \<open>Every step keeps the invariant\<close>

definition start_tool :: "executor_config \<Rightarrow> 'c executor \<Rightarrow> 'c tracked_tool \<Rightarrow> 'c tracked_tool" where
  "start_tool cfg ex t = (case getAbortReason cfg ex t of
     Some reason \<Rightarrow> t\<lparr>tt_status := Completed, tt_phase := RunDone,
       tt_results := Some [createSyntheticErrorMessage ex (tool_id t) reason]\<rparr>
   | None \<Rightarrow> t\<lparr>tt_status := Executing, tt_phase := Running\<rparr>)"

lemma executeTool_simps:
  "k < length (ex_tools ex) \<Longrightarrow>
     ex_tools (executeTool cfg k ex) = (ex_tools ex)[k := start_tool cfg ex (ex_tools ex ! k)]"
  "ex_loops (executeTool cfg k ex) = ex_loops ex"
  by (simp_all add: executeTool_def Let_def upd_tool_def start_tool_def tool_id_def split: option.splits)

lemma start_tool_props:
  "tt_safe (start_tool cfg ex t) = tt_safe t" "tool_id (start_tool cfg ex t) = tool_id t"
  "tt_status (start_tool cfg ex t) \<noteq> Queued"
  "phase_ok t \<Longrightarrow> tt_status t = Queued \<Longrightarrow> phase_ok (start_tool cfg ex t)"
  by (simp_all add: start_tool_def tool_id_def phase_ok_def split: option.splits)

lemma processQueue_ok:
  assumes "sound_state ex" and "loop_ok (ex_tools ex) i"
  shows "exec_ok (processQueue cfg i ex)"
proof (cases "next_start (ex_tools ex) i (drop i (ex_tools ex))")
  case None
  have "some_queued (ex_tools ex) \<longrightarrow> some_executing (ex_tools ex)"
  proof
    assume "some_queued (ex_tools ex)"
    then obtain j where j: "j < length (ex_tools ex)" "tt_status (ex_tools ex ! j) = Queued"
      by (auto simp: some_queued_def in_set_conv_nth)
    with assms(2) have "i \<le> j" by (meson loop_ok_def not_le)
    then have "ex_tools ex ! j \<in> set (drop i (ex_tools ex))"
      using j(1) by (auto simp: in_set_conv_nth intro!: exI [of _ "j - i"])
    then show "some_executing (ex_tools ex)" using next_start_None [OF None] j(2) by blast
  qed
  then show ?thesis using None assms(1) by (simp add: processQueue_def exec_ok_def)
next
  case (Some k)
  note k = next_start_drop [OF Some assms(2)]
  define t' where "t' = start_tool cfg ex (ex_tools ex ! k)"
  have t': "ex_tools (executeTool cfg k ex) = (ex_tools ex)[k := t']" "phase_ok t'" "tt_status t' \<noteq> Queued"
      "tt_safe t' = tt_safe (ex_tools ex ! k)" "tool_id t' = tool_id (ex_tools ex ! k)"
    using k assms(1) by (auto simp: t'_def executeTool_simps start_tool_props sound_state_def tools_ok_def)
  define ts where "ts = (ex_tools ex)[k := t']"
  have "tools_ok ts" unfolding ts_def
    using assms(1) t' k by (intro tools_ok_start) (auto simp: sound_state_def)
  moreover have "\<forall>i\<in>set (ex_loops ex). loop_ok ts i" unfolding ts_def
    using assms(1) t'(3) by (auto simp: sound_state_def intro!: loop_ok_upd)
  moreover have "loop_ok ts (Suc k)" unfolding ts_def
    using k(1,4) t'(3) by (auto simp: loop_ok_def less_Suc_eq)
  moreover have "distinct (map tool_id ts)" unfolding ts_def
    using assms(1) map_upd_same [OF k(1), of tool_id t'] t'(5) by (simp add: sound_state_def)
  ultimately show ?thesis using Some t'(1)
    by (auto simp: processQueue_def Let_def exec_ok_def sound_state_def ts_def executeTool_simps(2))
qed

lemma sound_loops: "sound_state ex \<Longrightarrow> set ls \<subseteq> set (ex_loops ex) \<Longrightarrow> sound_state (ex\<lparr>ex_loops := ls\<rparr>)"
  by (auto simp: sound_state_def)

lemma sound_same: "sound_state ex \<Longrightarrow> ex_tools ex' = ex_tools ex \<Longrightarrow> ex_loops ex' = ex_loops ex \<Longrightarrow> sound_state ex'"
  by (auto simp: sound_state_def)

lemma exec_ok_same: "exec_ok ex \<Longrightarrow> ex_tools ex' = ex_tools ex \<Longrightarrow> ex_loops ex' = ex_loops ex \<Longrightarrow>
    ex_wakeups ex' = ex_wakeups ex \<Longrightarrow> exec_ok ex'"
  by (simp add: exec_ok_def sound_state_def)

lemma loop_ok_0: "loop_ok ts 0"
  by (simp add: loop_ok_def)

lemma phase_running: "phase_ok t \<Longrightarrow> is_running t \<Longrightarrow> tt_status t = Executing \<and> tt_results t = None"
  by (auto simp: phase_ok_def is_running_def split: tool_status.splits)

lemma exec_ok_phase: "exec_ok ex \<Longrightarrow> k < length (ex_tools ex) \<Longrightarrow> phase_ok (ex_tools ex ! k)"
  by (simp add: exec_ok_def sound_state_def tools_ok_def)

lemma tool_ends_ok:
  assumes "exec_ok ex" "k < length (ex_tools ex)" "is_running (ex_tools ex ! k)"
  shows "exec_ok (tool_ends k ex)"
  using assms phase_running [OF exec_ok_phase [OF assms(1,2)] assms(3)]
  by (intro exec_ok_evolves [OF assms(1,2), of "(ex_tools ex ! k)\<lparr>tt_results := Some (tt_messages (ex_tools ex ! k)),
        tt_status := Completed, tt_phase := RunDone\<rparr>"])
    (auto simp: tool_ends_def Let_def upd_tool_def evolves_def phase_ok_def tool_id_def is_running_def)

lemma tool_throws_ok:
  assumes "exec_ok ex" "k < length (ex_tools ex)" "is_running (ex_tools ex ! k)"
  shows "exec_ok (tool_throws k ex)"
  using assms phase_running [OF exec_ok_phase [OF assms(1,2)] assms(3)]
  by (intro exec_ok_evolves [OF assms(1,2), of "(ex_tools ex ! k)\<lparr>tt_phase := RunDead\<rparr>"])
    (auto simp: tool_throws_def Let_def upd_tool_def evolves_def phase_ok_def tool_id_def is_running_def)

lemma note_error_simps [simp]:
  "ex_tools (note_error cfg t ex) = ex_tools ex" "ex_loops (note_error cfg t ex) = ex_loops ex"
  "ex_wakeups (note_error cfg t ex) = ex_wakeups ex" "ex_out (note_error cfg t ex) = ex_out ex"
  by (simp_all add: note_error_def)

lemma tool_delivers_shape:
  assumes "k < length (ex_tools ex)" "phase_ok (ex_tools ex ! k)" "tt_phase (ex_tools ex ! k) = Running"
  shows "\<exists>t'. ex_tools (tool_delivers cfg k u ex) = (ex_tools ex)[k := t'] \<and> evolves (ex_tools ex ! k) t' \<and>
      tt_status t' = tt_status (ex_tools ex ! k) \<and> is_running t'"
    and "ex_loops (tool_delivers cfg k u ex) = ex_loops ex" "ex_wakeups (tool_delivers cfg k u ex) = ex_wakeups ex"
proof -
  have e: "tt_status (ex_tools ex ! k) = Executing" "tt_results (ex_tools ex ! k) = None"
    using phase_running [OF assms(2)] assms(3) by (auto simp: is_running_def)
  show "\<exists>t'. ex_tools (tool_delivers cfg k u ex) = (ex_tools ex)[k := t'] \<and> evolves (ex_tools ex ! k) t' \<and>
      tt_status t' = tt_status (ex_tools ex ! k) \<and> is_running t'"
    using assms e
    by (cases "if tt_errored (ex_tools ex ! k) then None else getAbortReason cfg ex (ex_tools ex ! k)")
      (auto simp: tool_delivers_def Let_def upd_tool_def evolves_def phase_ok_def tool_id_def is_running_def)
  show "ex_loops (tool_delivers cfg k u ex) = ex_loops ex" "ex_wakeups (tool_delivers cfg k u ex) = ex_wakeups ex"
    by (auto simp: tool_delivers_def Let_def upd_tool_def split: option.splits)
qed

lemma tool_delivers_ok:
  assumes "exec_ok ex" "k < length (ex_tools ex)" "tt_phase (ex_tools ex ! k) = Running"
  shows "exec_ok (tool_delivers cfg k u ex)"
proof -
  obtain t' where "ex_tools (tool_delivers cfg k u ex) = (ex_tools ex)[k := t']" "evolves (ex_tools ex ! k) t'"
    "tt_status t' = tt_status (ex_tools ex ! k)"
    using tool_delivers_shape(1) [OF assms(2) exec_ok_phase [OF assms(1,2)] assms(3)] by blast
  then show ?thesis
    using exec_ok_evolves [OF assms(1,2), of t' "tool_delivers cfg k u ex"] tool_delivers_shape(2,3) [of k ex cfg u]
      assms exec_ok_phase [OF assms(1,2)] by simp
qed

lemma find_index_Some:
  assumes "find P [0..<n] = Some k" shows "k < n" "P k"
  using assms by (auto simp: find_Some_iff)

lemma addTool_ok:
  assumes "exec_ok ex"
  shows "exec_ok (addTool cfg b ex)"
proof (cases "find (\<lambda>k. tb_id (tt_block (ex_tools ex ! k)) = tb_id b) [0..<length (ex_tools ex)]")
  case (Some k)
  note k = find_index_Some [OF Some]
  show ?thesis
  proof (cases "tt_status (ex_tools ex ! k) = Queued")
    case True
    have "exec_ok (upd_tool k (\<lambda>t. t\<lparr>tt_block := b\<rparr>) ex)"
      using k True exec_ok_phase [OF assms k(1)]
      by (intro exec_ok_evolves [OF assms k(1), of "(ex_tools ex ! k)\<lparr>tt_block := b\<rparr>"])
        (auto simp: upd_tool_def evolves_def tool_id_def phase_ok_def)
    then show ?thesis using Some True by (simp add: addTool_def)
  next
    case False
    then show ?thesis using Some assms by (simp add: addTool_def)
  qed
next
  case None
  then have new: "tb_id b \<notin> set (map tool_id (ex_tools ex))"
    by (auto simp: find_None_iff tool_id_def in_set_conv_nth)
  have app: "sound_state (ex\<lparr>ex_tools := ex_tools ex @ [t]\<rparr>)"
    if "phase_ok t" "tt_status t \<noteq> Executing" "tt_phase t = NotRun" "tool_id t = tb_id b" for t
    using assms new that by (auto simp: sound_state_def exec_ok_def intro!: tools_ok_append loop_ok_append)
  have sound: "sound_state (ex\<lparr>ex_tools := ex_tools ex @ [new_tool b s]\<rparr>)" for s
    by (intro app) (auto simp: new_tool_def phase_ok_def tool_id_def)
  show ?thesis
  proof (cases "findToolByName (xc_tools cfg) (tb_name b)")
    case (Some d)
    then show ?thesis using None processQueue_ok [OF sound loop_ok_0] by (simp add: addTool_def)
  next
    case nod: None
    define t :: "'a tracked_tool" where "t = (new_tool b True)\<lparr>tt_status := Completed,
            tt_results := Some [error_result (tb_id b) (''Error: No such tool available: '' @ tb_name b)]\<rparr>"
    have t: "phase_ok t" "tt_status t = Completed" "tt_phase t = NotRun" "tool_id t = tb_id b"
      by (simp_all add: t_def new_tool_def phase_ok_def tool_id_def)
    have "sound_state (ex\<lparr>ex_tools := ex_tools ex @ [t]\<rparr>)" using t by (intro app) auto
    moreover have "some_queued (ex_tools ex @ [t]) = some_queued (ex_tools ex)"
      "some_executing (ex_tools ex @ [t]) = some_executing (ex_tools ex)"
      using t(2) by (simp_all add: some_queued_def some_executing_def)
    ultimately have "exec_ok (ex\<lparr>ex_tools := ex_tools ex @ [t]\<rparr>)" using assms by (simp add: exec_ok_def)
    then show ?thesis using None nod by (simp add: addTool_def t_def)
  qed
qed

lemma gen_step_same:
  "ex_loops (gen_step ex) = ex_loops ex" "ex_wakeups (gen_step ex) = ex_wakeups ex"
  by (simp_all add: gen_step_def Let_def emit_def upd_tool_def markToolUseAsComplete_def
      split: result_gen.splits list.splits tool_status.splits option.splits)

lemma gen_step_tools:
  "ex_tools (gen_step ex) = ex_tools ex \<or>
   (\<exists>k m ms. k < length (ex_tools ex) \<and> ex_gen ex = GenAt k \<and> tt_progress (ex_tools ex ! k) = m # ms \<and>
      ex_tools (gen_step ex) = (ex_tools ex)[k := (ex_tools ex ! k)\<lparr>tt_progress := ms\<rparr>]) \<or>
   (\<exists>k. k < length (ex_tools ex) \<and> ex_gen ex = GenAt k \<and> tt_status (ex_tools ex ! k) = Completed \<and>
      ex_tools (gen_step ex) = (ex_tools ex)[k := (ex_tools ex ! k)\<lparr>tt_status := Yielded\<rparr>])"
  by (simp add: gen_step_def Let_def emit_def upd_tool_def markToolUseAsComplete_def
      split: result_gen.splits list.splits tool_status.splits option.splits)

lemma gen_step_ok:
  assumes "exec_ok ex"
  shows "exec_ok (gen_step ex)"
  using gen_step_tools [of ex]
proof (elim disjE exE conjE)
  assume "ex_tools (gen_step ex) = ex_tools ex"
  then show ?thesis using exec_ok_same [OF assms] gen_step_same by blast
next
  fix k m ms
  assume k: "k < length (ex_tools ex)" and p: "tt_progress (ex_tools ex ! k) = m # ms"
    and t: "ex_tools (gen_step ex) = (ex_tools ex)[k := (ex_tools ex ! k)\<lparr>tt_progress := ms\<rparr>]"
  show ?thesis using exec_ok_phase [OF assms k] p
    by (intro exec_ok_evolves [OF assms k _ t])
      (auto simp: gen_step_same evolves_def tool_id_def phase_ok_def split: tool_status.splits)
next
  fix k
  assume k: "k < length (ex_tools ex)" and c: "tt_status (ex_tools ex ! k) = Completed"
    and t: "ex_tools (gen_step ex) = (ex_tools ex)[k := (ex_tools ex ! k)\<lparr>tt_status := Yielded\<rparr>]"
  show ?thesis using exec_ok_phase [OF assms k] c
    by (intro exec_ok_evolves [OF assms k _ t]) (auto simp: gen_step_same evolves_def tool_id_def phase_ok_def)
qed

lemma inner_ok: "inner_step cfg ex ex' \<Longrightarrow> exec_ok ex \<Longrightarrow> exec_ok ex'"
proof (induction rule: inner_step.induct)
  case (step_resume ex l1 i l2)
  then have s: "sound_state ex" and i: "loop_ok (ex_tools ex) i" by (auto simp: exec_ok_def sound_state_def)
  have "sound_state (ex\<lparr>ex_loops := l1 @ l2\<rparr>)" using s step_resume.hyps by (intro sound_loops) auto
  then show ?case using i by (intro processQueue_ok) auto
next
  case (step_wake ex n)
  then have "sound_state (ex\<lparr>ex_wakeups := n\<rparr>)" by (auto simp: exec_ok_def intro: sound_same)
  then show ?case by (intro processQueue_ok) (auto simp: loop_ok_0)
next
  case (step_end k ex)
  then show ?case by (intro tool_ends_ok)
qed

lemma exec_step_ok: "exec_step cfg ex ex' \<Longrightarrow> exec_ok ex \<Longrightarrow> exec_ok ex'"
proof (induction rule: exec_step.induct)
  case (step_poll ex)
  then show ?case by (intro processQueue_ok) (auto simp: loop_ok_0 exec_ok_def)
next
  case (step_discard ex)
  then show ?case by (rule exec_ok_same) (simp_all add: discard_def)
next
  case (step_abort ex)
  then show ?case by (rule exec_ok_same) simp_all
next
  case (step_gen_new ex)
  from step_gen_new.prems show ?case by (rule exec_ok_same) simp_all
qed (simp_all add: inner_ok addTool_ok tool_delivers_ok tool_throws_ok gen_step_ok)

lemma new_executor_ok: "exec_ok (new_executor c)"
  by (simp add: exec_ok_def sound_state_def tools_ok_def new_executor_def some_queued_def)

interpretation streaming: invariant_system fresh_executor "exec_step cfg" exec_ok for cfg
  by unfold_locales (auto simp: fresh_executor_def new_executor_ok intro: exec_step_ok)


section \<open>Progress\<close>

definition finished :: "'c tracked_tool \<Rightarrow> bool" where
  "finished t \<longleftrightarrow> tt_status t = Completed \<or> tt_status t = Yielded"

text \<open>The work that is left: what the queue holds, what runs, and the runs of the queue that are due.\<close>

definition tool_work :: "'c tracked_tool \<Rightarrow> nat" where
  "tool_work t = (case tt_status t of Queued \<Rightarrow> 4 | _ \<Rightarrow> if is_running t then 2 else 0)"

definition work_left :: "'c executor \<Rightarrow> nat" where
  "work_left ex = sum_list (map tool_work (ex_tools ex)) + length (ex_loops ex) + ex_wakeups ex"

lemma sum_list_upd_less:
  assumes "k < length xs" "f x + c \<le> f (xs ! k)"
  shows "sum_list (map f (xs[k := x])) + c \<le> (sum_list (map f xs) :: nat)"
  using assms by (induction xs arbitrary: k) (auto split: nat.split)

lemma executeTool_work:
  assumes "k < length (ex_tools ex)" "phase_ok (ex_tools ex ! k)" "tt_status (ex_tools ex ! k) = Queued"
  shows "work_left (executeTool cfg k ex) + 2 \<le> work_left ex"
proof (cases "getAbortReason cfg ex (ex_tools ex ! k)")
  case None
  then have "sum_list (map tool_work (ex_tools (executeTool cfg k ex))) + 2 \<le> sum_list (map tool_work (ex_tools ex))"
    unfolding executeTool_simps(1) [OF assms(1)] using assms
    by (intro sum_list_upd_less) (simp_all add: start_tool_def tool_work_def is_running_def)
  moreover have "ex_wakeups (executeTool cfg k ex) = ex_wakeups ex"
    using None by (simp add: executeTool_def Let_def upd_tool_def)
  ultimately show ?thesis by (simp add: work_left_def executeTool_simps(2))
next
  case (Some r)
  then have "sum_list (map tool_work (ex_tools (executeTool cfg k ex))) + 4 \<le> sum_list (map tool_work (ex_tools ex))"
    unfolding executeTool_simps(1) [OF assms(1)] using assms
    by (intro sum_list_upd_less) (simp_all add: start_tool_def tool_work_def is_running_def)
  moreover have "ex_wakeups (executeTool cfg k ex) = Suc (ex_wakeups ex)"
    using Some by (simp add: executeTool_def Let_def upd_tool_def)
  ultimately show ?thesis by (simp add: work_left_def executeTool_simps(2))
qed

lemma processQueue_work:
  assumes "sound_state ex" "loop_ok (ex_tools ex) i"
  shows "work_left (processQueue cfg i ex) \<le> work_left ex"
proof (cases "next_start (ex_tools ex) i (drop i (ex_tools ex))")
  case None
  then show ?thesis by (simp add: processQueue_def)
next
  case (Some k)
  note k = next_start_drop [OF Some assms(2)]
  have "phase_ok (ex_tools ex ! k)" using assms(1) k(1) by (simp add: sound_state_def tools_ok_def)
  from executeTool_work [OF k(1) this k(2), of cfg] show ?thesis
    using Some by (simp add: processQueue_def Let_def work_left_def)
qed

lemma inner_work: "inner_step cfg ex ex' \<Longrightarrow> exec_ok ex \<Longrightarrow> work_left ex' < work_left ex"
proof (induction rule: inner_step.induct)
  case (step_resume ex l1 i l2)
  then have s: "sound_state ex" and i: "loop_ok (ex_tools ex) i" by (auto simp: exec_ok_def sound_state_def)
  have "sound_state (ex\<lparr>ex_loops := l1 @ l2\<rparr>)" using s step_resume.hyps by (intro sound_loops) auto
  then have "work_left (processQueue cfg i (ex\<lparr>ex_loops := l1 @ l2\<rparr>)) \<le> work_left (ex\<lparr>ex_loops := l1 @ l2\<rparr>)"
    using i by (intro processQueue_work) auto
  also have "\<dots> < work_left ex" using step_resume.hyps by (simp add: work_left_def)
  finally show ?case .
next
  case (step_wake ex n)
  then have "sound_state (ex\<lparr>ex_wakeups := n\<rparr>)" by (auto simp: exec_ok_def intro: sound_same)
  then have "work_left (processQueue cfg 0 (ex\<lparr>ex_wakeups := n\<rparr>)) \<le> work_left (ex\<lparr>ex_wakeups := n\<rparr>)"
    by (intro processQueue_work) (auto simp: loop_ok_0)
  also have "\<dots> < work_left ex" using step_wake.hyps by (simp add: work_left_def)
  finally show ?case .
next
  case (step_end k ex)
  have "tt_status (ex_tools ex ! k) = Executing"
    using phase_running [OF exec_ok_phase [OF step_end.prems step_end.hyps(1)] step_end.hyps(2)] by simp
  then have "sum_list (map tool_work (ex_tools (tool_ends k ex))) + 2 \<le> sum_list (map tool_work (ex_tools ex))"
    using step_end.hyps sum_list_upd_less [of k "ex_tools ex" tool_work "(ex_tools ex ! k)
        \<lparr>tt_results := Some (tt_messages (ex_tools ex ! k)), tt_status := Completed, tt_phase := RunDone\<rparr>" 2]
    by (simp add: tool_ends_def Let_def upd_tool_def tool_work_def is_running_def)
  moreover have "ex_loops (tool_ends k ex) = ex_loops ex" "ex_wakeups (tool_ends k ex) = Suc (ex_wakeups ex)"
    by (simp_all add: tool_ends_def Let_def upd_tool_def)
  ultimately show ?case by (simp add: work_left_def)
qed

definition no_throw :: "'c executor \<Rightarrow> bool" where
  "no_throw ex \<longleftrightarrow> list_all (\<lambda>t. tt_phase t \<noteq> RunDead) (ex_tools ex)"

lemma no_throw_upd: "no_throw ex \<Longrightarrow> ex_tools ex' = (ex_tools ex)[k := t'] \<Longrightarrow> tt_phase t' \<noteq> RunDead \<Longrightarrow> no_throw ex'"
  using set_update_subset_insert [of "ex_tools ex" k t'] by (auto simp: no_throw_def list_all_iff)

lemma processQueue_no_throw:
  assumes "no_throw ex" "loop_ok (ex_tools ex) i"
  shows "no_throw (processQueue cfg i ex)"
proof (cases "next_start (ex_tools ex) i (drop i (ex_tools ex))")
  case None
  then show ?thesis using assms by (simp add: processQueue_def)
next
  case (Some k)
  have "tt_phase (start_tool cfg ex (ex_tools ex ! k)) \<noteq> RunDead"
    by (simp add: start_tool_def split: option.splits)
  then have "no_throw (executeTool cfg k ex)"
    using no_throw_upd [OF assms(1) executeTool_simps(1)] next_start_drop(1) [OF Some assms(2)] by blast
  then show ?thesis using Some by (simp add: processQueue_def Let_def no_throw_def)
qed

lemma inner_no_throw: "inner_step cfg ex ex' \<Longrightarrow> exec_ok ex \<Longrightarrow> no_throw ex \<Longrightarrow> no_throw ex'"
proof (induction rule: inner_step.induct)
  case (step_resume ex l1 i l2)
  then show ?case by (intro processQueue_no_throw) (auto simp: exec_ok_def sound_state_def no_throw_def)
next
  case (step_wake ex n)
  then show ?case by (intro processQueue_no_throw) (auto simp: loop_ok_0 no_throw_def)
next
  case (step_end k ex)
  then show ?case
    by (intro no_throw_upd [of ex "tool_ends k ex" k "(ex_tools ex ! k)\<lparr>tt_results := Some (tt_messages (ex_tools ex ! k)),
        tt_status := Completed, tt_phase := RunDone\<rparr>"]) (auto simp: tool_ends_def Let_def upd_tool_def)
qed

lemma inner_steps_bound:
  "(inner_step cfg ^^ n) ex ex' \<Longrightarrow> exec_ok ex \<Longrightarrow> no_throw ex \<Longrightarrow>
    exec_ok ex' \<and> no_throw ex' \<and> work_left ex' + n \<le> work_left ex"
proof (induction n arbitrary: ex')
  case (Suc n)
  then obtain ex1 where 1: "(inner_step cfg ^^ n) ex ex1" and 2: "inner_step cfg ex1 ex'" by auto
  from Suc.IH [OF 1 Suc.prems(2,3)] inner_ok [OF 2] inner_no_throw [OF 2] inner_work [OF 2] show ?case by auto
qed simp

lemma stuck_finished:
  assumes "exec_ok ex" "no_throw ex" "\<nexists>ex'. inner_step cfg ex ex'"
  shows "list_all finished (ex_tools ex)"
proof -
  have "ex_loops ex = []" using assms(3) inner_step.step_resume [of ex "[]"] by (cases "ex_loops ex") fastforce+
  moreover have "ex_wakeups ex = 0" using assms(3) inner_step.step_wake [of ex] by (cases "ex_wakeups ex") auto
  moreover have ne: "\<not> some_executing (ex_tools ex)"
  proof
    assume "some_executing (ex_tools ex)"
    then obtain k where k: "k < length (ex_tools ex)" "tt_status (ex_tools ex ! k) = Executing"
      by (auto simp: some_executing_def in_set_conv_nth)
    have "tt_phase (ex_tools ex ! k) \<noteq> RunDead" using assms(2) k(1) by (simp add: no_throw_def list_all_length)
    then have "is_running (ex_tools ex ! k)"
      using exec_ok_phase [OF assms(1) k(1)] k(2) by (auto simp: phase_ok_def is_running_def)
    then show False using assms(3) inner_step.step_end [OF k(1)] by blast
  qed
  ultimately have "\<not> some_queued (ex_tools ex)" using assms(1) by (simp add: exec_ok_def)
  with ne show ?thesis
    by (auto simp: list_all_iff finished_def some_queued_def some_executing_def)
      (metis tool_status.exhaust)
qed


section \<open>Results\<close>

text \<open>What the readers have been given of tool \<open>k\<close>, progress apart, and what the generator still holds of it.\<close>

definition given :: "nat \<Rightarrow> 'c executor \<Rightarrow> leader_message list" where
  "given k ex = filter (\<lambda>m. \<not> is_progress m) (map snd (filter (\<lambda>p. fst p = k) (ex_out ex)))"

definition held :: "nat \<Rightarrow> 'c executor \<Rightarrow> leader_message list" where
  "held k ex = (case ex_gen ex of GenResults j ms \<Rightarrow> if j = k then ms else [] | _ \<Rightarrow> [])"

definition tool_results :: "'c tracked_tool \<Rightarrow> leader_message list" where
  "tool_results t = (case tt_results t of None \<Rightarrow> [] | Some rs \<Rightarrow> rs)"

definition plain_tool :: "'c tracked_tool \<Rightarrow> bool" where
  "plain_tool t \<longleftrightarrow> (\<forall>m\<in>set (tt_messages t @ tool_results t). \<not> is_progress m) \<and> (\<forall>m\<in>set (tt_progress t). is_progress m)"

definition outs_ok :: "'c executor \<Rightarrow> bool" where
  "outs_ok ex \<longleftrightarrow> (\<forall>k<length (ex_tools ex). plain_tool (ex_tools ex ! k) \<and>
     given k ex @ held k ex = (if tt_status (ex_tools ex ! k) = Yielded then tool_results (ex_tools ex ! k) else [])) \<and>
     (\<forall>k\<ge>length (ex_tools ex). given k ex = [] \<and> held k ex = [])"

lemma outs_same:
  assumes "outs_ok ex" "ex_out ex' = ex_out ex" "ex_gen ex' = ex_gen ex" "ex_tools ex' = ex_tools ex"
  shows "outs_ok ex'"
  using assms by (simp add: outs_ok_def given_def held_def)

lemma outs_upd:
  assumes "outs_ok ex" "ex_out ex' = ex_out ex" "ex_gen ex' = ex_gen ex"
    "ex_tools ex' = (ex_tools ex)[k := t']" "plain_tool (ex_tools ex ! k) \<Longrightarrow> plain_tool t'"
    "tt_status t' \<noteq> Yielded" "tt_status (ex_tools ex ! k) \<noteq> Yielded"
  shows "outs_ok ex'"
proof -
  have "\<And>j. given j ex' = given j ex" "\<And>j. held j ex' = held j ex" using assms(2,3) by (simp_all add: given_def held_def)
  then show ?thesis using assms
    by (cases "k < length (ex_tools ex)") (auto simp: outs_ok_def nth_list_update list_update_beyond)
qed

lemma outs_append:
  assumes "outs_ok ex" "ex_out ex' = ex_out ex" "ex_gen ex' = ex_gen ex"
    "ex_tools ex' = ex_tools ex @ [t]" "plain_tool t" "tt_status t \<noteq> Yielded"
  shows "outs_ok ex'"
  using assms by (auto simp: outs_ok_def given_def held_def nth_append less_Suc_eq)

lemma executeTool_out: "ex_out (executeTool cfg k ex) = ex_out ex" "ex_gen (executeTool cfg k ex) = ex_gen ex"
  by (simp_all add: executeTool_def Let_def upd_tool_def split: option.splits)

lemma start_tool_plain: "plain_tool t \<Longrightarrow> plain_tool (start_tool cfg ex t)"
  by (auto simp: start_tool_def plain_tool_def createSyntheticErrorMessage_def error_result_def tool_results_def
      split: option.splits)

lemma processQueue_outs:
  assumes "outs_ok ex" "loop_ok (ex_tools ex) i"
  shows "outs_ok (processQueue cfg i ex)"
proof (cases "next_start (ex_tools ex) i (drop i (ex_tools ex))")
  case None
  then show ?thesis using assms by (simp add: processQueue_def)
next
  case (Some k)
  note k = next_start_drop [OF Some assms(2)]
  have "tt_status (start_tool cfg ex (ex_tools ex ! k)) \<noteq> Yielded"
    by (simp add: start_tool_def split: option.splits)
  then have "outs_ok (executeTool cfg k ex)"
    using k by (intro outs_upd [OF assms(1) _ _ executeTool_simps(1)]) (auto simp: executeTool_out start_tool_plain)
  then show ?thesis using Some
    by (auto simp: processQueue_def Let_def intro: outs_same)
qed

lemma addTool_outs:
  assumes "outs_ok ex"
  shows "outs_ok (addTool cfg b ex)"
proof (cases "find (\<lambda>k. tb_id (tt_block (ex_tools ex ! k)) = tb_id b) [0..<length (ex_tools ex)]")
  case (Some k)
  note k = find_index_Some [OF Some]
  show ?thesis
  proof (cases "tt_status (ex_tools ex ! k) = Queued")
    case True
    then show ?thesis using Some k
      by (intro outs_upd [OF assms, of _ k "(ex_tools ex ! k)\<lparr>tt_block := b\<rparr>"])
        (auto simp: addTool_def upd_tool_def plain_tool_def tool_results_def)
  next
    case False
    then show ?thesis using Some assms by (simp add: addTool_def)
  qed
next
  case None
  show ?thesis
  proof (cases "findToolByName (xc_tools cfg) (tb_name b)")
    case nod: None
    show ?thesis using None nod
      by (intro outs_append [OF assms])
        (auto simp: addTool_def new_tool_def plain_tool_def tool_results_def error_result_def)
  next
    case (Some d)
    have "outs_ok (ex\<lparr>ex_tools := ex_tools ex @ [new_tool b s]\<rparr>)" for s
      by (intro outs_append [OF assms]) (auto simp: new_tool_def plain_tool_def tool_results_def)
    then show ?thesis using None Some by (simp add: addTool_def processQueue_outs loop_ok_0)
  qed
qed

lemma note_error_out [simp]: "ex_gen (note_error cfg t ex) = ex_gen ex"
  by (simp add: note_error_def)

lemma tool_delivers_outs:
  assumes "outs_ok ex" "k < length (ex_tools ex)" "phase_ok (ex_tools ex ! k)" "tt_phase (ex_tools ex ! k) = Running"
  shows "outs_ok (tool_delivers cfg k u ex)"
proof -
  have e: "tt_status (ex_tools ex ! k) = Executing"
    using phase_running [OF assms(3)] assms(4) by (auto simp: is_running_def)
  show ?thesis
  proof (cases "if tt_errored (ex_tools ex ! k) then None else getAbortReason cfg ex (ex_tools ex ! k)")
    case None
    show ?thesis using None e assms(2)
      by (intro outs_upd [OF assms(1), of _ k "ex_tools (tool_delivers cfg k u ex) ! k"])
        (auto simp: tool_delivers_def Let_def upd_tool_def plain_tool_def tool_results_def message_is_def
          split: option.splits)
  next
    case (Some r)
    show ?thesis using Some e assms(2)
      by (intro outs_upd [OF assms(1), of _ k "ex_tools (tool_delivers cfg k u ex) ! k"])
        (auto simp: tool_delivers_def Let_def upd_tool_def plain_tool_def tool_results_def
          createSyntheticErrorMessage_def error_result_def)
  qed
qed

lemma tool_ends_outs:
  assumes "outs_ok ex" "k < length (ex_tools ex)" "phase_ok (ex_tools ex ! k)" "is_running (ex_tools ex ! k)"
  shows "outs_ok (tool_ends k ex)"
  using phase_running [OF assms(3,4)] assms(2)
  by (intro outs_upd [OF assms(1), of _ k "ex_tools (tool_ends k ex) ! k"])
    (auto simp: tool_ends_def Let_def upd_tool_def plain_tool_def tool_results_def)

lemma tool_throws_outs:
  assumes "outs_ok ex" "k < length (ex_tools ex)" "phase_ok (ex_tools ex ! k)" "is_running (ex_tools ex ! k)"
  shows "outs_ok (tool_throws k ex)"
  using phase_running [OF assms(3,4)] assms(2)
  by (intro outs_upd [OF assms(1), of _ k "ex_tools (tool_throws k ex) ! k"])
    (auto simp: tool_throws_def Let_def upd_tool_def plain_tool_def tool_results_def)

lemma given_emit: "given k (emit j m ex) = given k ex @ (if j = k \<and> \<not> is_progress m then [m] else [])"
  by (simp add: given_def emit_def)

lemma outs_gen_upd:
  assumes "outs_ok ex" "k < length (ex_tools ex)" "ex_tools ex' = (ex_tools ex)[k := t']" "plain_tool t'"
    "\<And>j. j \<noteq> k \<Longrightarrow> given j ex' @ held j ex' = given j ex @ held j ex"
    "given k ex' @ held k ex' = (if tt_status t' = Yielded then tool_results t' else [])"
  shows "outs_ok ex'"
  unfolding outs_ok_def
proof (intro conjI allI impI)
  fix j assume "j < length (ex_tools ex')"
  then have j: "j < length (ex_tools ex)" using assms(3) by simp
  show "plain_tool (ex_tools ex' ! j)" using assms(1-4) j by (cases "j = k") (simp_all add: outs_ok_def)
  show "given j ex' @ held j ex' = (if tt_status (ex_tools ex' ! j) = Yielded then tool_results (ex_tools ex' ! j) else [])"
    using assms(1,2,3,5,6) j by (cases "j = k") (simp_all add: outs_ok_def)
next
  fix j assume "length (ex_tools ex') \<le> j"
  then have "j \<noteq> k" "given j ex = []" "held j ex = []" using assms(1-3) by (auto simp: outs_ok_def)
  then show "given j ex' = []" "held j ex' = []" using assms(5) [of j] by simp_all
qed

lemma outs_of: "outs_ok ex \<Longrightarrow> k < length (ex_tools ex) \<Longrightarrow> plain_tool (ex_tools ex ! k) \<and>
    given k ex @ held k ex = (if tt_status (ex_tools ex ! k) = Yielded then tool_results (ex_tools ex ! k) else [])"
  unfolding outs_ok_def by blast

lemma gen_step_outs:
  assumes "outs_ok ex" "exec_ok ex"
  shows "outs_ok (gen_step ex)"
proof (cases "ex_gen ex")
  case GenStart
  then show ?thesis using assms(1) by (auto simp: gen_step_def outs_ok_def given_def held_def)
next
  case GenDone
  then show ?thesis using assms(1) by (simp add: gen_step_def)
next
  case (GenResults k ms)
  then have k: "k < length (ex_tools ex)" if "ms \<noteq> []"
    using assms(1) that by (force simp: outs_ok_def held_def not_less [symmetric])
  show ?thesis
  proof (cases ms)
    case Nil
    then show ?thesis using GenResults assms(1)
      by (auto simp: gen_step_def outs_ok_def given_def held_def markToolUseAsComplete_def)
  next
    case (Cons m ms')
    have g: "given k ex @ held k ex = (if tt_status (ex_tools ex ! k) = Yielded then tool_results (ex_tools ex ! k) else [])"
      and pl: "plain_tool (ex_tools ex ! k)"
      using assms(1) k Cons by (simp_all add: outs_ok_def)
    have "held k ex = m # ms'" using GenResults Cons by (simp add: held_def)
    with g have "tool_results (ex_tools ex ! k) = given k ex @ m # ms'" by (simp split: if_splits)
    with pl have "\<not> is_progress m" by (simp add: plain_tool_def)
    then have "given j (gen_step ex) @ held j (gen_step ex) = given j ex @ held j ex" for j
      using GenResults Cons by (simp add: gen_step_def given_def held_def emit_def)
    moreover have "ex_tools (gen_step ex) = ex_tools ex" using GenResults Cons by (simp add: gen_step_def emit_def)
    moreover have "given j (gen_step ex) = [] \<and> held j (gen_step ex) = []" if "j \<ge> length (ex_tools ex)" for j
      using assms(1) that k GenResults Cons by (auto simp: outs_ok_def gen_step_def given_def held_def emit_def)
    ultimately show ?thesis using assms(1) by (simp add: outs_ok_def)
  qed
next
  case (GenAt k)
  show ?thesis
  proof (cases "length (ex_tools ex) \<le> k")
    case True
    then show ?thesis using GenAt assms(1) by (auto simp: gen_step_def outs_ok_def given_def held_def)
  next
    case False
    then have k: "k < length (ex_tools ex)" by simp
    define t where "t = ex_tools ex ! k"
    show ?thesis
    proof (cases "tt_progress t")
      case (Cons m ms)
      have pl: "plain_tool t" using outs_of [OF assms(1) k] by (simp add: t_def)
      with Cons have "is_progress m" by (simp add: plain_tool_def)
      then have g: "given j (gen_step ex) = given j ex" "held j (gen_step ex) = held j ex" for j
        using GenAt False Cons by (simp_all add: gen_step_def Let_def t_def given_def held_def emit_def upd_tool_def)
      show ?thesis
      proof (rule outs_gen_upd [OF assms(1) k, of _ "t\<lparr>tt_progress := ms\<rparr>"])
        show "ex_tools (gen_step ex) = (ex_tools ex)[k := t\<lparr>tt_progress := ms\<rparr>]"
          using GenAt False Cons by (simp add: gen_step_def Let_def t_def emit_def upd_tool_def)
        show "plain_tool (t\<lparr>tt_progress := ms\<rparr>)" using pl Cons by (simp add: plain_tool_def tool_results_def)
        show "given k (gen_step ex) @ held k (gen_step ex) =
            (if tt_status (t\<lparr>tt_progress := ms\<rparr>) = Yielded then tool_results (t\<lparr>tt_progress := ms\<rparr>) else [])"
          using outs_of [OF assms(1) k] by (simp add: g t_def tool_results_def)
      qed (simp add: g)
    next
      case Nil
      show ?thesis
      proof (cases "tt_status t = Completed \<and> tt_results t \<noteq> None")
        case True
        then obtain rs where rs: "tt_results t = Some rs" by auto
        have o: "given k ex = []" using outs_of [OF assms(1) k] True by (simp add: t_def)
        have h0: "held j ex = []" for j using GenAt by (simp add: held_def)
        have g: "given j (gen_step ex) = given j ex" "held j (gen_step ex) = (if j = k then rs else [])" for j
          using GenAt False Nil True rs
          by (simp_all add: gen_step_def Let_def t_def given_def held_def emit_def upd_tool_def)
        show ?thesis
        proof (rule outs_gen_upd [OF assms(1) k, of _ "t\<lparr>tt_status := Yielded\<rparr>"])
          show "ex_tools (gen_step ex) = (ex_tools ex)[k := t\<lparr>tt_status := Yielded\<rparr>]"
            using GenAt False Nil True rs by (simp add: gen_step_def Let_def t_def upd_tool_def)
          show "plain_tool (t\<lparr>tt_status := Yielded\<rparr>)"
            using outs_of [OF assms(1) k] by (simp add: plain_tool_def tool_results_def t_def)
          show "given k (gen_step ex) @ held k (gen_step ex) =
            (if tt_status (t\<lparr>tt_status := Yielded\<rparr>) = Yielded then tool_results (t\<lparr>tt_status := Yielded\<rparr>) else [])"
            using o rs by (simp add: g tool_results_def)
        qed (simp add: g h0)
      next
        case other: False
        have "ex_tools (gen_step ex) = ex_tools ex \<and> ex_out (gen_step ex) = ex_out ex \<and>
            held j (gen_step ex) = held j ex" for j
          using GenAt False Nil other
          by (auto simp: gen_step_def Let_def t_def held_def split: tool_status.splits option.splits)
        then show ?thesis using assms(1) by (simp add: outs_ok_def given_def)
      qed
    qed
  qed
qed

lemma inner_outs: "inner_step cfg ex ex' \<Longrightarrow> exec_ok ex \<Longrightarrow> outs_ok ex \<Longrightarrow> outs_ok ex'"
proof (induction rule: inner_step.induct)
  case (step_resume ex l1 i l2)
  have "outs_ok (ex\<lparr>ex_loops := l1 @ l2\<rparr>)" by (rule outs_same [OF step_resume.prems(2)]) simp_all
  moreover have "loop_ok (ex_tools ex) i" using step_resume by (auto simp: exec_ok_def sound_state_def)
  ultimately show ?case by (simp add: processQueue_outs)
next
  case (step_wake ex n)
  have "outs_ok (ex\<lparr>ex_wakeups := n\<rparr>)" by (rule outs_same [OF step_wake.prems(2)]) simp_all
  then show ?case by (simp add: processQueue_outs loop_ok_0)
next
  case (step_end k ex)
  then show ?case by (intro tool_ends_outs exec_ok_phase)
qed

lemma exec_step_outs: "exec_step cfg ex ex' \<Longrightarrow> exec_ok ex \<Longrightarrow> outs_ok ex \<Longrightarrow> outs_ok ex'"
proof (induction rule: exec_step.induct)
  case (step_deliver k ex u)
  then show ?case by (intro tool_delivers_outs exec_ok_phase)
next
  case (step_throw k ex)
  then show ?case by (intro tool_throws_outs exec_ok_phase)
next
  case (step_discard ex)
  show ?case by (rule outs_same [OF step_discard.prems(2)]) (simp_all add: discard_def)
next
  case (step_abort ex)
  show ?case by (rule outs_same [OF step_abort.prems(2)]) simp_all
next
  case (step_gen_new ex)
  then show ?case by (simp add: outs_ok_def given_def held_def)
qed (simp_all add: inner_outs addTool_outs processQueue_outs loop_ok_0 gen_step_outs)

lemma new_executor_outs: "outs_ok (new_executor c)"
  by (simp add: outs_ok_def given_def held_def new_executor_def)

interpretation streaming_results: invariant_system fresh_executor "exec_step cfg" "\<lambda>ex. exec_ok ex \<and> outs_ok ex" for cfg
  by unfold_locales (auto simp: fresh_executor_def new_executor_ok new_executor_outs intro: exec_step_ok exec_step_outs)

section \<open>A round of \<open>getRemainingResults\<close>\<close>

text \<open>The generator ends: every step uses up some of this.\<close>

definition tool_cost :: "'c tracked_tool \<Rightarrow> nat" where
  "tool_cost t = length (tt_progress t) + (if tt_status t = Completed then length (tool_results t) + 2 else 0) + 1"

definition gen_cost :: "'c executor \<Rightarrow> nat" where
  "gen_cost ex = (case ex_gen ex of
     GenDone \<Rightarrow> 0
   | GenStart \<Rightarrow> 2 + sum_list (map tool_cost (ex_tools ex))
   | GenAt k \<Rightarrow> 1 + sum_list (map tool_cost (drop k (ex_tools ex)))
   | GenResults k ms \<Rightarrow> 2 + length ms + sum_list (map tool_cost (drop (Suc k) (ex_tools ex))))"

lemma gen_step_cost: "ex_gen ex \<noteq> GenDone \<Longrightarrow> gen_cost (gen_step ex) < gen_cost ex"
proof (cases "ex_gen ex")
  case (GenAt k)
  show ?thesis
  proof (cases "length (ex_tools ex) \<le> k")
    case False
    then have d: "drop k (ex_tools ex) = (ex_tools ex ! k) # drop (Suc k) (ex_tools ex)" "k < length (ex_tools ex)"
      by (simp_all add: Cons_nth_drop_Suc)
    have u: "drop k ((ex_tools ex)[k := t']) = t' # drop (Suc k) (ex_tools ex)" for t'
      using d(2) by (subst Cons_nth_drop_Suc [symmetric]) simp_all
    show ?thesis using GenAt False d u
      by (auto simp: gen_step_def Let_def gen_cost_def tool_cost_def emit_def upd_tool_def tool_results_def
          split: list.splits tool_status.splits option.splits)
  qed (use GenAt in \<open>simp add: gen_step_def gen_cost_def\<close>)
next
  case (GenResults k ms)
  then show ?thesis by (cases ms) (simp_all add: gen_step_def gen_cost_def emit_def markToolUseAsComplete_def)
qed (auto simp: gen_step_def gen_cost_def)

lemma gen_steps_end: "gen_cost ex \<le> n \<Longrightarrow> ex_gen ((gen_step ^^ n) ex) = GenDone"
proof (induction n arbitrary: ex)
  case 0
  then show ?case by (simp add: gen_cost_def split: result_gen.splits)
next
  case (Suc n)
  show ?case
  proof (cases "ex_gen ex = GenDone")
    case True
    then have "gen_step ex = ex" by (simp add: gen_step_def)
    then show ?thesis using Suc.IH [of ex] True by (simp add: funpow_swap1 gen_cost_def)
  next
    case False
    then have "gen_cost (gen_step ex) \<le> n" using gen_step_cost [OF False] Suc.prems by simp
    then show ?thesis using Suc.IH by (simp add: funpow_swap1)
  qed
qed

text \<open>\<open>getCompletedResults\<close> read to its end, and one round of the loop of \<open>getRemainingResults\<close> up to the wait.\<close>

definition getCompletedResults :: "'c executor \<Rightarrow> 'c executor" where
  "getCompletedResults ex = (let ex1 = ex\<lparr>ex_gen := GenStart\<rparr> in (gen_step ^^ gen_cost ex1) ex1)"

definition remaining_round :: "executor_config \<Rightarrow> 'c executor \<Rightarrow> 'c executor" where
  "remaining_round cfg ex = getCompletedResults (processQueue cfg 0 ex)"

definition round_waits :: "'c executor \<Rightarrow> bool" where
  "round_waits ex \<longleftrightarrow> hasExecutingTools ex \<and> \<not> hasCompletedResults ex \<and> \<not> hasPendingProgress ex"

lemma getCompletedResults_ends: "ex_gen (getCompletedResults ex) = GenDone"
  by (simp add: getCompletedResults_def Let_def gen_steps_end)

section \<open>What holds of every reachable state\<close>

text \<open>The runs the witnesses use: two reads beside each other, and a bash call with an unknown tool behind it.\<close>

definition demo_cfg :: executor_config where
  "demo_cfg = \<lparr>xc_tools = [
     \<lparr>td_name = ''read'', td_aliases = [], td_isConcurrencySafe = (\<lambda>_. Some True), td_interruptBehavior = None\<rparr>,
     \<lparr>td_name = ''bash'', td_aliases = [], td_isConcurrencySafe = (\<lambda>_. Some False), td_interruptBehavior = None\<rparr>],
     xc_ellipsis = ''...''\<rparr>"

definition demo_block :: "string \<Rightarrow> string \<Rightarrow> tool_block" where
  "demo_block i n = \<lparr>tb_id = i, tb_name = n, tb_input = []\<rparr>"

definition demo_reads :: "nat executor" where
  "demo_reads = addTool demo_cfg (demo_block ''b'' ''read'') (addTool demo_cfg (demo_block ''a'' ''read'') (new_executor 0))"

definition demo_bash :: "nat executor" where
  "demo_bash = addTool demo_cfg (demo_block ''b'' ''glob'') (addTool demo_cfg (demo_block ''a'' ''bash'') (new_executor 0))"

definition demo_error :: "nat tool_update" where
  "demo_error = \<lparr>tu_message = Some (error_result ''a'' ''exit 1''), tu_newContext = None\<rparr>"

definition demo_failed :: "nat executor" where
  "demo_failed = tool_delivers demo_cfg 0 demo_error demo_bash"

definition demo_unknown :: "nat executor" where
  "demo_unknown = addTool demo_cfg (demo_block ''a'' ''glob'') (new_executor 0)"

definition demo_yielded :: "nat executor" where
  "demo_yielded = (gen_step ^^ 5) (demo_unknown\<lparr>ex_gen := GenStart\<rparr>)"

lemma reach_new: "reach fresh_executor (exec_step cfg) (new_executor c)"
  by (rule reach_init) (auto simp: fresh_executor_def)

lemma reach_reads: "reach fresh_executor (exec_step demo_cfg) demo_reads"
  unfolding demo_reads_def by (intro reach_step [OF reach_step [OF reach_new step_add] step_add])

lemma reach_bash: "reach fresh_executor (exec_step demo_cfg) demo_bash"
  unfolding demo_bash_def by (intro reach_step [OF reach_step [OF reach_new step_add] step_add])

lemma reach_failed: "reach fresh_executor (exec_step demo_cfg) demo_failed"
  unfolding demo_failed_def by (rule reach_step [OF reach_bash step_deliver]) code_simp+

lemma reach_gens: "reach fresh_executor (exec_step cfg) ex \<Longrightarrow> reach fresh_executor (exec_step cfg) ((gen_step ^^ n) ex)"
  by (induction n) (auto intro: reach_step step_gen)

lemma reach_yielded: "reach fresh_executor (exec_step demo_cfg) demo_yielded"
proof -
  have "reach fresh_executor (exec_step demo_cfg) demo_unknown"
    unfolding demo_unknown_def by (rule reach_step [OF reach_new step_add])
  moreover have "exec_step demo_cfg demo_unknown (demo_unknown\<lparr>ex_gen := GenStart\<rparr>)"
    by (rule step_gen_new) code_simp
  ultimately have "reach fresh_executor (exec_step demo_cfg) (demo_unknown\<lparr>ex_gen := GenStart\<rparr>)"
    by (rule reach_step)
  then show ?thesis unfolding demo_yielded_def by (rule reach_gens)
qed

lemma gen_one_result:
  assumes "ex_tools ex = [t]" "tt_status t = Completed" "tt_progress t = []" "tt_results t = Some [m]" "\<not> ex_discarded ex"
  shows "ex_gen ((gen_step ^^ 5) (ex\<lparr>ex_gen := GenStart\<rparr>)) = GenDone"
    and "ex_tools ((gen_step ^^ 5) (ex\<lparr>ex_gen := GenStart\<rparr>)) = [t\<lparr>tt_status := Yielded\<rparr>]"
  using assms by (simp_all add: eval_nat_numeral gen_step_def emit_def upd_tool_def markToolUseAsComplete_def)

text \<open>C27: A tool that is not concurrency safe never runs beside another tool.\<close>

theorem unsafe_tools_run_alone:
  assumes "reach fresh_executor (exec_step cfg) ex"
    and "i < length (ex_tools ex)" "j < length (ex_tools ex)" "i \<noteq> j"
    and "tt_status (ex_tools ex ! i) = Executing" "tt_status (ex_tools ex ! j) = Executing"
  shows "tt_safe (ex_tools ex ! i) \<and> tt_safe (ex_tools ex ! j)"
proof -
  have "tools_ok (ex_tools ex)"
    using streaming.reach_inv [OF assms(1)] by (simp add: exec_ok_def sound_state_def)
  then show ?thesis using assms(2-) unfolding tools_ok_def by blast
qed

theorem unsafe_tools_run_alone_witness:
  "tt_safe (ex_tools demo_reads ! 0) \<and> tt_safe (ex_tools demo_reads ! 1)"
proof (rule unsafe_tools_run_alone [OF reach_reads, of 0 1])
  show "tt_status (ex_tools demo_reads ! 0) = Executing" "tt_status (ex_tools demo_reads ! 1) = Executing"
    "0 < length (ex_tools demo_reads)" "1 < length (ex_tools demo_reads)" by code_simp+
qed simp

text \<open>
  C26: As long as no tool's run has thrown, everything ends: a bounded number of internal steps is possible, and where none is, every tool is
  finished. A tool whose run threw stays executing and holds up the unsafe tools behind it, so without this condition the claim fails.
\<close>

theorem executor_drains:
  assumes "reach fresh_executor (exec_step cfg) ex" and "no_throw ex" and "(inner_step cfg ^^ n) ex ex'"
  shows "n \<le> work_left ex \<and> ((\<exists>ex''. inner_step cfg ex' ex'') \<or> list_all finished (ex_tools ex'))"
  using inner_steps_bound [OF assms(3) streaming.reach_inv [OF assms(1)] assms(2)] stuck_finished by fastforce

theorem executor_drains_witness:
  "1 \<le> work_left demo_bash \<and>
   ((\<exists>ex. inner_step demo_cfg (tool_ends 0 demo_bash) ex) \<or> list_all finished (ex_tools (tool_ends 0 demo_bash)))"
proof (rule executor_drains [OF reach_bash])
  show "no_throw demo_bash" by code_simp
  have "is_running (ex_tools demo_bash ! 0)" "0 < length (ex_tools demo_bash)" by code_simp+
  then have "inner_step demo_cfg demo_bash (tool_ends 0 demo_bash)" by (intro step_end)
  then show "(inner_step demo_cfg ^^ 1) demo_bash (tool_ends 0 demo_bash)" by (simp add: eq_OO)
qed

text \<open>A yielded tool has given its readers exactly its results, in order, once.\<close>

theorem results_are_given_once:
  assumes "reach fresh_executor (exec_step cfg) ex" and "ex_gen ex = GenDone" and "k < length (ex_tools ex)"
  shows "given k ex = (if tt_status (ex_tools ex ! k) = Yielded then tool_results (ex_tools ex ! k) else [])"
proof -
  have "outs_ok ex" using streaming_results.reach_inv [OF assms(1)] by simp
  moreover have "held k ex = []" using assms(2) by (simp add: held_def)
  ultimately show ?thesis using outs_of [of ex k] assms(3) by simp
qed

theorem results_are_given_once_witness:
  "given 0 demo_yielded = [error_result ''a'' ''Error: No such tool available: glob'']"
proof -
  let ?m = "error_result ''a'' ''Error: No such tool available: glob''"
  have n: "length (ex_tools demo_unknown) = 1" and st: "tt_status (ex_tools demo_unknown ! 0) = Completed"
    "tt_progress (ex_tools demo_unknown ! 0) = []" "tt_results (ex_tools demo_unknown ! 0) = Some [?m]"
    "\<not> ex_discarded demo_unknown" by code_simp+
  have e: "ex_tools demo_unknown = [ex_tools demo_unknown ! 0]" using n by (cases "ex_tools demo_unknown") auto
  note g = gen_one_result [OF e st, folded demo_yielded_def]
  show ?thesis using results_are_given_once [OF reach_yielded g(1), of 0] st by (simp add: g(2) tool_results_def)
qed

lemma start_tool_blocked: "getAbortReason cfg ex t \<noteq> None \<Longrightarrow> tt_phase (start_tool cfg ex t) = RunDone"
  by (auto simp: start_tool_def)

lemma abort_on_error: "ex_hasErrored ex \<Longrightarrow> getAbortReason cfg ex t \<noteq> None"
  by (simp add: getAbortReason_def)

definition starts_nothing :: "'c executor \<Rightarrow> 'c executor \<Rightarrow> bool" where
  "starts_nothing ex ex' \<longleftrightarrow> ex_hasErrored ex' \<and>
     (\<forall>k<length (ex_tools ex'). tt_phase (ex_tools ex' ! k) = Running \<longrightarrow>
        k < length (ex_tools ex) \<and> tt_phase (ex_tools ex ! k) = Running)"

lemma starts_nothing_upd:
  assumes "ex_tools ex' = (ex_tools ex)[k := t']" "ex_hasErrored ex'"
    "tt_phase t' = Running \<longrightarrow> tt_phase (ex_tools ex ! k) = Running"
  shows "starts_nothing ex ex'"
  using assms by (cases "k < length (ex_tools ex)")
    (auto simp: starts_nothing_def nth_list_update list_update_beyond)

lemma executeTool_hasErrored: "ex_hasErrored (executeTool cfg k ex) = ex_hasErrored ex"
  by (simp add: executeTool_def Let_def upd_tool_def split: option.splits)

lemma processQueue_starts_nothing:
  assumes "ex_hasErrored ex" "loop_ok (ex_tools ex) i"
  shows "starts_nothing ex (processQueue cfg i ex)"
proof (cases "next_start (ex_tools ex) i (drop i (ex_tools ex))")
  case None
  then show ?thesis using assms by (simp add: processQueue_def starts_nothing_def)
next
  case (Some k)
  have "starts_nothing ex (executeTool cfg k ex)"
    using executeTool_simps(1) next_start_drop(1) [OF Some assms(2)] assms(1)
    by (intro starts_nothing_upd [of _ _ k "start_tool cfg ex (ex_tools ex ! k)"])
      (auto simp: executeTool_hasErrored start_tool_blocked abort_on_error)
  then show ?thesis using Some by (simp add: processQueue_def Let_def starts_nothing_def)
qed

lemma starts_nothing_grow:
  assumes "starts_nothing (ex\<lparr>ex_tools := ex_tools ex @ [t]\<rparr>) ex'" "tt_phase t = NotRun"
  shows "starts_nothing ex ex'"
  unfolding starts_nothing_def
proof (intro conjI allI impI)
  show "ex_hasErrored ex'" using assms(1) by (simp add: starts_nothing_def)
  fix k assume k: "k < length (ex_tools ex')" "tt_phase (ex_tools ex' ! k) = Running"
  then have 1: "k < Suc (length (ex_tools ex)) \<and> tt_phase ((ex_tools ex @ [t]) ! k) = Running"
    using assms(1) by (simp add: starts_nothing_def)
  show "k < length (ex_tools ex)" using 1 assms(2) by (cases "k = length (ex_tools ex)") auto
  then show "tt_phase (ex_tools ex ! k) = Running" using 1 by (simp add: nth_append)
qed

lemma addTool_starts_nothing: "ex_hasErrored ex \<Longrightarrow> starts_nothing ex (addTool cfg b ex)"
proof (cases "find (\<lambda>k. tb_id (tt_block (ex_tools ex ! k)) = tb_id b) [0..<length (ex_tools ex)]")
  case (Some k)
  assume "ex_hasErrored ex"
  then show ?thesis using Some find_index_Some [OF Some]
    by (cases "tt_status (ex_tools ex ! k) = Queued")
      (auto simp: addTool_def upd_tool_def starts_nothing_def nth_list_update)
next
  case None
  assume e: "ex_hasErrored ex"
  show ?thesis
  proof (cases "findToolByName (xc_tools cfg) (tb_name b)")
    case nod: None
    then show ?thesis using None e
      by (auto simp: addTool_def starts_nothing_def nth_append less_Suc_eq new_tool_def)
  next
    case (Some d)
    have "starts_nothing ex (processQueue cfg 0 (ex\<lparr>ex_tools := ex_tools ex @ [new_tool b s]\<rparr>))" for s
      by (rule starts_nothing_grow [OF processQueue_starts_nothing]) (simp_all add: e loop_ok_0 new_tool_def)
    then show ?thesis using None Some by (simp add: addTool_def)
  qed
qed

lemma tool_delivers_phase:
  assumes "k < length (ex_tools ex)"
  shows "\<exists>t'. ex_tools (tool_delivers cfg k u ex) = (ex_tools ex)[k := t'] \<and>
    (tt_phase t' = Running \<longrightarrow> tt_phase (ex_tools ex ! k) = Running)"
  using assms
  by (cases "if tt_errored (ex_tools ex ! k) then None else getAbortReason cfg ex (ex_tools ex ! k)")
    (auto simp: tool_delivers_def Let_def upd_tool_def)

lemma tool_delivers_hasErrored: "ex_hasErrored ex \<Longrightarrow> ex_hasErrored (tool_delivers cfg k u ex)"
  by (auto simp: tool_delivers_def Let_def upd_tool_def note_error_def split: option.splits)

lemma gen_step_hasErrored: "ex_hasErrored (gen_step ex) = ex_hasErrored ex"
  by (simp add: gen_step_def Let_def emit_def upd_tool_def markToolUseAsComplete_def
      split: result_gen.splits list.splits tool_status.splits option.splits)

lemma starts_nothing_same: "ex_tools ex' = ex_tools ex \<Longrightarrow> ex_hasErrored ex' \<Longrightarrow> starts_nothing ex ex'"
  by (simp add: starts_nothing_def)

lemma starts_nothing_from: "starts_nothing ex1 ex' \<Longrightarrow> ex_tools ex1 = ex_tools ex \<Longrightarrow> starts_nothing ex ex'"
  by (simp add: starts_nothing_def)

lemma inner_starts_nothing: "inner_step cfg ex ex' \<Longrightarrow> exec_ok ex \<Longrightarrow> ex_hasErrored ex \<Longrightarrow> starts_nothing ex ex'"
proof (induction rule: inner_step.induct)
  case (step_resume ex l1 i l2)
  then have "loop_ok (ex_tools ex) i" by (auto simp: exec_ok_def sound_state_def)
  then show ?case using step_resume.prems
    by (intro starts_nothing_from [OF processQueue_starts_nothing]) simp_all
next
  case (step_wake ex n)
  then show ?case by (intro starts_nothing_from [OF processQueue_starts_nothing]) (simp_all add: loop_ok_0)
next
  case (step_end k ex)
  then show ?case
    by (intro starts_nothing_upd [of _ _ k "ex_tools (tool_ends k ex) ! k"])
      (simp_all add: tool_ends_def Let_def upd_tool_def)
qed

lemma exec_starts_nothing: "exec_step cfg ex ex' \<Longrightarrow> exec_ok ex \<Longrightarrow> ex_hasErrored ex \<Longrightarrow> starts_nothing ex ex'"
proof (induction rule: exec_step.induct)
  case (step_deliver k ex u)
  from tool_delivers_phase [OF step_deliver.hyps(1), of cfg u] obtain t' where
    "ex_tools (tool_delivers cfg k u ex) = (ex_tools ex)[k := t']"
    "tt_phase t' = Running \<longrightarrow> tt_phase (ex_tools ex ! k) = Running" by blast
  then show ?case using step_deliver.prems by (intro starts_nothing_upd tool_delivers_hasErrored)
next
  case (step_throw k ex)
  then show ?case
    by (intro starts_nothing_upd [of _ _ k "ex_tools (tool_throws k ex) ! k"])
      (simp_all add: tool_throws_def Let_def upd_tool_def)
next
  case (step_gen ex)
  show ?case using gen_step_tools [of ex]
  proof (elim disjE exE conjE)
    assume "ex_tools (gen_step ex) = ex_tools ex"
    then show ?thesis using step_gen.prems by (simp add: starts_nothing_same gen_step_hasErrored)
  qed (use step_gen.prems in \<open>auto intro!: starts_nothing_upd simp: gen_step_hasErrored\<close>)
next
  case (step_discard ex)
  then show ?case by (simp add: starts_nothing_same discard_def)
qed (simp_all add: inner_starts_nothing addTool_starts_nothing processQueue_starts_nothing loop_ok_0
      starts_nothing_same)

text \<open>Once a bash call has failed, no tool is started any more.\<close>

theorem no_start_after_bash_error:
  assumes "reach fresh_executor (exec_step cfg) ex" and "ex_hasErrored ex" and "(exec_step cfg)\<^sup>*\<^sup>* ex ex'"
    and "k < length (ex_tools ex')" and "tt_phase (ex_tools ex' ! k) = Running"
  shows "k < length (ex_tools ex) \<and> tt_phase (ex_tools ex ! k) = Running"
proof -
  have "exec_ok ex' \<and> starts_nothing ex ex'"
    using assms(3)
  proof (induction rule: rtranclp_induct)
    case base
    show ?case using streaming.reach_inv [OF assms(1)] assms(2) by (simp add: starts_nothing_same)
  next
    case (step y z)
    then have "ex_hasErrored y" by (simp add: starts_nothing_def)
    with step exec_starts_nothing [of cfg y z] have "starts_nothing y z" by blast
    with step exec_step_ok [of cfg y z] show ?case by (auto simp: starts_nothing_def)
  qed
  then show ?thesis using assms(4,5) by (simp add: starts_nothing_def)
qed

theorem no_start_after_bash_error_witness:
  "0 < length (ex_tools demo_bash) \<and> tt_phase (ex_tools demo_failed ! 0) = Running"
proof -
  define ex where "ex = addTool demo_cfg (demo_block ''c'' ''read'') demo_failed"
  have s: "(exec_step demo_cfg)\<^sup>*\<^sup>* demo_failed ex" unfolding ex_def by (rule r_into_rtranclp) (rule step_add)
  have "ex_hasErrored demo_failed" "0 < length (ex_tools ex)" "tt_phase (ex_tools ex ! 0) = Running"
    unfolding ex_def by code_simp+
  then have "tt_phase (ex_tools demo_failed ! 0) = Running"
    using no_start_after_bash_error [OF reach_failed _ s, of 0] by blast
  moreover have "0 < length (ex_tools demo_bash)" by code_simp
  ultimately show ?thesis by simp
qed

text \<open>
  A tool that has no definition, behind a running tool that is not concurrency safe, makes the loop of
  \<open>getRemainingResults\<close> go round without waiting for anything: a round changes nothing, the loop does not end, and it
  does not wait for the running tool.
\<close>

theorem unknown_tool_starves:
  assumes "ex_tools ex = t # ts" and "tt_status t = Executing" and "\<not> tt_safe t" and "tt_progress t = []"
    and "list_ex (\<lambda>u. tt_status u = Completed) ts" and "ex_gen ex = GenDone" and "\<not> ex_discarded ex"
  shows "(remaining_round cfg ^^ n) ex = ex \<and> hasUnfinishedTools ex \<and> \<not> round_waits ex"
proof -
  have "\<not> canExecuteTool (ex_tools ex) True" using assms(1-3) by (auto simp: canExecute_iff)
  then have q: "processQueue cfg 0 ex = ex" by (simp add: processQueue_def next_start_blocked)
  define ex1 where "ex1 = ex\<lparr>ex_gen := GenStart\<rparr>"
  have 1: "gen_step ex1 = ex\<lparr>ex_gen := GenAt 0\<rparr>" using assms(7) by (simp add: gen_step_def ex1_def)
  have 2: "gen_step (ex\<lparr>ex_gen := GenAt 0\<rparr>) = ex\<lparr>ex_gen := GenDone\<rparr>" using assms(1-4) by (simp add: gen_step_def)
  have 3: "ex\<lparr>ex_gen := GenDone\<rparr> = ex" using assms(6) by simp
  have "gen_step ex = ex" using assms(6) by (simp add: gen_step_def)
  then have id: "(gen_step ^^ m) ex = ex" for m by (induction m) simp_all
  obtain m where m: "gen_cost ex1 = Suc (Suc m)" by (simp add: gen_cost_def ex1_def)
  have "(gen_step ^^ gen_cost ex1) ex1 = (gen_step ^^ m) (gen_step (gen_step ex1))" by (simp add: m funpow_swap1)
  then have "getCompletedResults ex = ex" using 1 2 3 id by (simp add: getCompletedResults_def Let_def ex1_def)
  then have "remaining_round cfg ex = ex" using q by (simp add: remaining_round_def)
  then have "(remaining_round cfg ^^ n) ex = ex" by (induction n) simp_all
  then show ?thesis using assms(1-5)
    by (simp add: hasUnfinishedTools_def round_waits_def hasCompletedResults_def)
qed

theorem unknown_tool_starves_witness:
  "reach fresh_executor (exec_step demo_cfg) demo_bash \<and>
   (remaining_round demo_cfg ^^ 1000) demo_bash = demo_bash \<and> hasUnfinishedTools demo_bash \<and> \<not> round_waits demo_bash"
proof -
  have n: "length (ex_tools demo_bash) = 2" and st: "tt_status (ex_tools demo_bash ! 0) = Executing"
    "\<not> tt_safe (ex_tools demo_bash ! 0)" "tt_progress (ex_tools demo_bash ! 0) = []"
    "tt_status (ex_tools demo_bash ! 1) = Completed" "ex_gen demo_bash = GenDone" "\<not> ex_discarded demo_bash"
    by code_simp+
  have e: "ex_tools demo_bash = ex_tools demo_bash ! 0 # [ex_tools demo_bash ! 1]"
    using n by (cases "ex_tools demo_bash"; cases "tl (ex_tools demo_bash)") auto
  show ?thesis using unknown_tool_starves [OF e st(1-3) _ st(5,6)] st(4) reach_bash by simp
qed

end
