(* ===== verification/Execution_Policy.thy ===== *)
theory Execution_Policy
  imports Plan_Bash
begin

text \<open>
  The execution policy of a leader's turn (\<open>services/leader-execution-policy-service.ts\<close>): its classification from
  the prompt, the tightening by hints, the verdict on a tool call, the counters, the escalation and the levels of
  enforcement; and the step of the loop that brings the policy up to date after a turn
  (\<open>autonomous-loop/autonomous-loop-service.ts\<close>). The alternatives of the patterns that need a character beyond the
  modelled range never match here and are left out; the texts of reasons are constructors.
\<close>

datatype execution_mode = DirectAnswer | DirectSimple | OpsDirect | DelegatedCoding | ArchitectRequired | ReviewOnly
  | LandingRequired | DirectOverride

datatype policy_source = IntakeRules | UserOverride | RuntimeEscalation | ResumeRecovered

datatype code_write = NoWrite | TinyPatch | AnyWrite

datatype stop_condition = ReplySent | ImplementationReady | ReviewReady | LandingReady

datatype coordination_action = DirectAnswerAction | ToolAnswer | Clarify | AssignAction | Handoff | SendMessage

datatype task_type = ConversationTask | CodingTask | MixedTask

datatype policy_reason = BaseReason string | EscalationReason string | HintTaskType policy_reason
  | HintNeedsHuman policy_reason | HintStop stop_condition policy_reason | HintCoord coordination_action policy_reason

record policy_constraints =
  pc_allowReadTools :: bool
  pc_allowSpawnTools :: bool
  pc_allowCodeWriteTools :: code_write
  pc_allowOpsBash :: bool
  pc_allowGitCommit :: bool
  pc_mustDelegate :: bool
  pc_suggestedRoleHint :: "string option"
  pc_requireReviewBeforeDone :: "bool option"
  pc_maxDiscovery :: "nat option"
  pc_maxWriteFiles :: "nat option"
  pc_maxChangedLines :: "nat option"

record policy_counters =
  pn_discoveryToolCalls :: nat
  pn_writeToolCalls :: nat
  pn_writtenPaths :: "string list"
  pn_codeMutatingBashCalls :: nat
  pn_testFailures :: nat
  pn_teammateSpawned :: bool

record execution_policy =
  ep_mode :: execution_mode
  ep_source :: policy_source
  ep_reason :: policy_reason
  ep_constraints :: policy_constraints
  ep_counters :: policy_counters

section \<open>Paths of high risk\<close>

definition lits :: "string list \<Rightarrow> rx" where
  "lits vs = alts (map lit vs)"

definition lits_ci :: "string list \<Rightarrow> rx" where
  "lits_ci vs = alts (map lit_ci vs)"

definition HIGH_RISK_PATTERNS :: "rx list" where
  "HIGH_RISK_PATTERNS =
    [lit ''apps/api/src/services/manager-automation/autonomous-loop/'',
     Seq (lit ''apps/api/src/services/manager-automation/teammate-system-prompts.ts'') Eol,
     Seq (lit ''apps/api/src/services/manager-automation/tool-profiles.ts'') Eol,
     lits_ci [''permission'', ''sandbox'', ''approval'', ''command-approval'', ''risk-classifier''],
     lits_ci [''runtime-recovery'', ''leader-session-resume'', ''teammate-registry''],
     Seq (lit ''packages/db/src/'') (lits [''schema'', ''migrations'']),
     Seq (lits [''drizzle'', ''migrations'']) (lit ''/''),
     Alt (lits_ci [''auth'', ''secrets'', ''providers'', ''executors''])
       (seqs [lit_ci ''api'', opt (one_of ''_-''), lit_ci ''key'']),
     seqs [lit ''config/'', lits [''executors'', ''secrets''], lit ''.json'', Eol],
     Seq (lit ''scripts/'') (lits [''restart'', ''restart-profile'', ''deploy''])]"

definition isHighRiskPolicyPath :: "string \<Rightarrow> bool" where
  "isHighRiskPolicyPath p =
     list_ex (\<lambda>re. rx_test re (if starts_with p ''./'' then drop 2 p else p)) HIGH_RISK_PATTERNS"

section \<open>Classification\<close>

definition emptyCounters :: policy_counters where
  "emptyCounters = \<lparr>pn_discoveryToolCalls = 0, pn_writeToolCalls = 0, pn_writtenPaths = [],
     pn_codeMutatingBashCalls = 0, pn_testFailures = 0, pn_teammateSpawned = False\<rparr>"

definition hyphen_or_space :: rx where
  "hyphen_or_space = opt (Alt ws (lit ''-''))"

definition OVERRIDE_RE :: rx where
  "OVERRIDE_RE = alts [seqs [lit_ci ''don'', opt (lit [CHR 0x27]), lit_ci ''t delegate''], lit_ci ''no subagent'',
     lit_ci ''do it yourself'']"

definition LANDING_RE :: rx where
  "LANDING_RE = seqs [WordB, alts [lit_ci ''release'', lit_ci ''deploy'', lit_ci ''rollout'', lit_ci ''rollback'',
     lit_ci ''ship it'', seqs [lit_ci ''push '', opt (lit_ci ''the ''), lit_ci ''pr''],
     seqs [lit_ci ''create '', opt (lit_ci ''a ''), lit_ci ''pr''],
     seqs [lit_ci ''open '', opt (lit_ci ''a ''), lit_ci ''pr'']], WordB]"

definition REVIEW_RE :: rx where
  "REVIEW_RE = alts [seqs [lit_ci ''review'', hyphen_or_space, lit_ci ''only''],
     seqs [lit_ci ''audit'', hyphen_or_space, lit_ci ''only''], lit_ci ''do not modify'',
     seqs [lit_ci ''don'', opt (lit [CHR 0x27]), lit_ci ''t modify''],
     seqs [lit_ci ''read'', hyphen_or_space, lit_ci ''only''],
     seqs [WordB, lit_ci ''review'', WordB], seqs [WordB, lit_ci ''audit'', WordB]]"

definition INVESTIGATE_RE :: rx where
  "INVESTIGATE_RE = alts [seqs [lit_ci ''deep'', hyphen_or_space, lit_ci ''dive''],
     seqs [lit_ci ''investigate '', opt (lit_ci ''the ''), lit_ci ''subsystem''], lit_ci ''architecture'',
     lit_ci ''find possible issues'']"

definition OPS_RE :: rx where
  "OPS_RE = seqs [WordB, alts [
     seqs [lit_ci ''git'', plus ws, lits_ci [''status'', ''diff'', ''add'', ''commit'', ''fetch'', ''merge'']],
     seqs [lit_ci ''restart'', opt (lit_ci ''.sh'')], lit_ci ''restart-profile'',
     seqs [lit_ci ''health'', opt ws, lit_ci ''check''], lit_ci ''commit''], WordB]"

definition TINY_EDIT_RE :: rx where
  "TINY_EDIT_RE = seqs [lits_ci [''change'', ''update'', ''fix'', ''set'', ''rename'', ''tweak''], WordB, rep_upto 40 dot,
     WordB, lits_ci [''constant'', ''value'', ''string'', ''typo'', ''config'', ''one line''], WordB]"

definition CODE_CHANGE_RE :: rx where
  "CODE_CHANGE_RE = seqs [WordB,
     lits_ci [''fix'', ''implement'', ''add'', ''refactor'', ''build'', ''create'', ''wire'', ''migrate''], WordB]"

definition GENERIC_DELEGATE_RE :: rx where
  "GENERIC_DELEGATE_RE = seqs [WordB, lits_ci [''subagent'', ''teammate''], WordB]"

definition SEED_ROLE_RE :: rx where
  "SEED_ROLE_RE = seqs [WordB, lits_ci [''coder'', ''reviewer'', ''architect'', ''lander'', ''evaluator''], WordB]"

text \<open>\<open>s.match(r)[0]\<close>: the text of the first match.\<close>

fun rx_first_from :: "rx \<Rightarrow> char option \<Rightarrow> string \<Rightarrow> string option" where
  "rx_first_from r prev [] = (case rx_ends r (prev, []) of [] \<Rightarrow> None | q # _ \<Rightarrow> Some [])"
| "rx_first_from r prev (c # cs) =
     (case rx_ends r (prev, c # cs) of
        [] \<Rightarrow> rx_first_from r (Some c) cs
      | q # _ \<Rightarrow> Some (take (length (c # cs) - length (snd q)) (c # cs)))"

definition rx_first :: "rx \<Rightarrow> string \<Rightarrow> string option" where
  "rx_first r s = rx_first_from r None s"

record manager_hints =
  mh_taskType :: "task_type option"
  mh_needsHuman :: "bool option"
  mh_stopCondition :: "stop_condition option"
  mh_coordinationAction :: "coordination_action option"

text \<open>\<open>ph?.f ?? tmh?.f\<close>\<close>

definition hint_of :: "(manager_hints \<Rightarrow> 'a option) \<Rightarrow> manager_hints option \<Rightarrow> manager_hints option \<Rightarrow> 'a option" where
  "hint_of f ph tmh = (case Option.bind ph f of Some x \<Rightarrow> Some x | None \<Rightarrow> Option.bind tmh f)"

definition no_direct_writes :: "policy_constraints \<Rightarrow> policy_constraints" where
  "no_direct_writes c = c\<lparr>pc_allowCodeWriteTools := NoWrite, pc_mustDelegate := True\<rparr>"

definition hint_task :: "task_type option \<Rightarrow> execution_policy \<Rightarrow> execution_policy" where
  "hint_task t p = (if t = Some CodingTask \<and> ep_mode p = DirectAnswer
     then p\<lparr>ep_mode := DelegatedCoding, ep_source := IntakeRules, ep_reason := HintTaskType (ep_reason p),
            ep_constraints := no_direct_writes (ep_constraints p)\<rparr> else p)"

definition hint_human :: "bool option \<Rightarrow> execution_policy \<Rightarrow> execution_policy" where
  "hint_human h p = (if h = Some True \<and> \<not> pc_mustDelegate (ep_constraints p)
     then p\<lparr>ep_reason := HintNeedsHuman (ep_reason p), ep_constraints := no_direct_writes (ep_constraints p)\<rparr> else p)"

definition hint_stop :: "stop_condition option \<Rightarrow> execution_policy \<Rightarrow> execution_policy" where
  "hint_stop s p = (case s of
     Some c \<Rightarrow> if (c = ReviewReady \<or> c = LandingReady) \<and> \<not> pc_mustDelegate (ep_constraints p)
       then p\<lparr>ep_reason := HintStop c (ep_reason p), ep_constraints := no_direct_writes (ep_constraints p)\<rparr> else p
   | None \<Rightarrow> p)"

definition hint_coord :: "coordination_action option \<Rightarrow> execution_policy \<Rightarrow> execution_policy" where
  "hint_coord a p = (case a of
     Some c \<Rightarrow> if (c = AssignAction \<or> c = Handoff) \<and> \<not> pc_mustDelegate (ep_constraints p)
       then p\<lparr>ep_mode := (if ep_mode p = DirectAnswer \<or> ep_mode p = DirectSimple then DelegatedCoding else ep_mode p),
              ep_reason := HintCoord c (ep_reason p), ep_constraints := no_direct_writes (ep_constraints p)\<rparr> else p
   | None \<Rightarrow> p)"

definition applyHintsTightenOnly ::
  "execution_policy \<Rightarrow> manager_hints option \<Rightarrow> manager_hints option \<Rightarrow> execution_policy" where
  "applyHintsTightenOnly base ph tmh =
     (if ep_mode base = DirectOverride then base
      else hint_coord (hint_of mh_coordinationAction ph tmh)
            (hint_stop (hint_of mh_stopCondition ph tmh)
              (hint_human (hint_of mh_needsHuman ph tmh)
                (hint_task (hint_of mh_taskType ph tmh) base))))"

definition base_constraints :: policy_constraints where
  "base_constraints = \<lparr>pc_allowReadTools = True, pc_allowSpawnTools = True, pc_allowCodeWriteTools = NoWrite,
     pc_allowOpsBash = False, pc_allowGitCommit = False, pc_mustDelegate = False, pc_suggestedRoleHint = None,
     pc_requireReviewBeforeDone = None, pc_maxDiscovery = None, pc_maxWriteFiles = None, pc_maxChangedLines = None\<rparr>"

definition mk_policy :: "execution_mode \<Rightarrow> policy_source \<Rightarrow> string \<Rightarrow> policy_constraints \<Rightarrow> execution_policy" where
  "mk_policy m s r c = \<lparr>ep_mode = m, ep_source = s, ep_reason = BaseReason r, ep_constraints = c,
     ep_counters = emptyCounters\<rparr>"

definition namedAvailable :: "string list \<Rightarrow> string \<Rightarrow> string option" where
  "namedAvailable roles text =
     find (\<lambda>r. r \<noteq> [] \<and> rx_test (seqs [WordB, lit (to_lower r), WordB]) (to_lower text)) roles"

definition role_hint :: "string list \<Rightarrow> string \<Rightarrow> string option" where
  "role_hint roles text = (case namedAvailable roles text of
     Some r \<Rightarrow> Some r
   | None \<Rightarrow> map_option to_lower (rx_first SEED_ROLE_RE text))"

definition hasDelegationMention :: "string list \<Rightarrow> string \<Rightarrow> bool" where
  "hasDelegationMention roles text \<longleftrightarrow> namedAvailable roles text \<noteq> None \<or> rx_test GENERIC_DELEGATE_RE text \<or>
     rx_test SEED_ROLE_RE text"

definition base_policy :: "string list \<Rightarrow> string \<Rightarrow> execution_policy" where
  "base_policy roles text =
    (if rx_test REVIEW_RE text \<and> \<not> rx_test CODE_CHANGE_RE text
     then mk_policy ReviewOnly IntakeRules ''Review/audit/no-modify request.''
       (base_constraints\<lparr>pc_mustDelegate := True, pc_requireReviewBeforeDone := Some True\<rparr>)
     else if rx_test LANDING_RE text
     then mk_policy LandingRequired IntakeRules
       ''Release/deploy/PR work must be routed to a landing teammate (role is the leader's choice).''
       (base_constraints\<lparr>pc_mustDelegate := True\<rparr>)
     else if hasDelegationMention roles text
     then mk_policy DelegatedCoding IntakeRules
       ''User named a role/teammate; leader must delegate (role is the leader's choice).''
       (base_constraints\<lparr>pc_mustDelegate := True, pc_suggestedRoleHint := role_hint roles text\<rparr>)
     else if rx_test OPS_RE text \<and> \<not> rx_test CODE_CHANGE_RE text
     then mk_policy OpsDirect IntakeRules ''Explicit mechanical operator command.''
       (base_constraints\<lparr>pc_allowOpsBash := True, pc_allowGitCommit := True\<rparr>)
     else if rx_test INVESTIGATE_RE text
     then mk_policy ArchitectRequired IntakeRules ''Architecture/subsystem investigation.''
       (base_constraints\<lparr>pc_mustDelegate := True\<rparr>)
     else if rx_test TINY_EDIT_RE text
     then mk_policy DirectSimple IntakeRules ''Small, well-targeted edit.''
       (base_constraints\<lparr>pc_allowCodeWriteTools := TinyPatch, pc_maxChangedLines := Some 30,
          pc_maxWriteFiles := Some 2, pc_maxDiscovery := Some 3\<rparr>)
     else if rx_test CODE_CHANGE_RE text
     then mk_policy DelegatedCoding IntakeRules ''Code-changing request without an exact tiny target.''
       (base_constraints\<lparr>pc_mustDelegate := True\<rparr>)
     else mk_policy DirectAnswer IntakeRules ''Conversational / read-only.'' base_constraints)"

definition classifyExecutionPolicy ::
  "string \<Rightarrow> string list \<Rightarrow> manager_hints option \<Rightarrow> manager_hints option \<Rightarrow> execution_policy" where
  "classifyExecutionPolicy text roles ph tmh =
    (if rx_test OVERRIDE_RE text
     then mk_policy DirectOverride UserOverride ''User explicitly requested direct leader work.''
       (base_constraints\<lparr>pc_allowCodeWriteTools := AnyWrite, pc_allowOpsBash := True, pc_allowGitCommit := True\<rparr>)
     else applyHintsTightenOnly (base_policy roles text) ph tmh)"

section \<open>The levels of enforcement\<close>

datatype enforcement_level = EnfOff | EnfObserve | EnfReviewOnly | EnfDelegatedCoding | EnfStrict

definition getEnforcementLevel :: "string option \<Rightarrow> enforcement_level" where
  "getEnforcementLevel v =
    (let t = js_trim (case v of None \<Rightarrow> [] | Some s \<Rightarrow> s) in
     if t = ''off'' then EnfOff else if t = ''observe'' then EnfObserve else if t = ''review_only'' then EnfReviewOnly
     else if t = ''delegated_coding'' then EnfDelegatedCoding else if t = ''strict'' then EnfStrict else EnfObserve)"

definition modeIsEnforcedAtLevel :: "execution_mode \<Rightarrow> enforcement_level \<Rightarrow> bool" where
  "modeIsEnforcedAtLevel m e =
    (if e = EnfOff \<or> e = EnfObserve then False
     else if e = EnfStrict then True
     else if e = EnfReviewOnly then m = ReviewOnly \<or> m = DirectSimple
     else m = ReviewOnly \<or> m = DirectSimple \<or> m = DelegatedCoding \<or> m = ArchitectRequired \<or> m = LandingRequired)"

section \<open>The verdict on a tool call\<close>

definition MEASURABLE_WRITE_TOOLS :: "string list" where
  "MEASURABLE_WRITE_TOOLS = [''edit_file'', ''write_file'']"

definition DISCOVERY_TOOLS :: "string list" where
  "DISCOVERY_TOOLS = [''read_file'', ''grep'', ''list_dir'', ''repo_structure'']"

type_synonym tool_input = "(string \<times> json) list"

definition str_input :: "tool_input \<Rightarrow> string \<Rightarrow> string option" where
  "str_input input k = Option.bind (obj_get input k) json_as_str"

definition nonEmpty_lines :: "string option \<Rightarrow> nat" where
  "nonEmpty_lines s = (case s of None \<Rightarrow> 0
     | Some t \<Rightarrow> length (filter (\<lambda>l. js_trim l \<noteq> []) (js_split (CHR 0x0A) t)))"

definition countChangedLines :: "string \<Rightarrow> tool_input \<Rightarrow> nat" where
  "countChangedLines toolName input =
    (if toolName = ''write_file'' then nonEmpty_lines (str_input input ''content'')
     else if toolName = ''edit_file''
     then max (nonEmpty_lines (str_input input ''oldString'')) (nonEmpty_lines (str_input input ''newString''))
     else 0)"

definition interpreters :: "string list \<Rightarrow> rx" where
  "interpreters others = Alt (Seq (lit ''python'') (opt (lit ''3''))) (lits others)"

definition CODE_MUTATING_BASH_PATTERNS :: "rx list" where
  "CODE_MUTATING_BASH_PATTERNS =
    [seqs [lit ''>'', opt (lit ''>''), Star ws, Star (none_of ''|&;''), lit ''.'',
       lits [''ts'', ''tsx'', ''js'', ''json'', ''sh'', ''py'', ''sql'']],
     seqs [WordB, lit ''sed'', plus ws, lit ''-i'', WordB],
     seqs [WordB, interpreters [''node'', ''bun''], plus ws, lit ''-e'', WordB],
     seqs [WordB, lit ''git'', plus ws, lit ''apply'', WordB],
     seqs [WordB, lit ''patch'', plus ws, lit ''<''],
     seqs [lit ''--write'', WordB],
     seqs [WordB, lit ''git'', plus ws, lits [''add'', ''commit'', ''merge''], WordB],
     seqs [lit ''<<'', opt (one_of ''-~''), Star ws, opt (one_of [CHR 0x27, CHR 0x22]),
       Cls (\<lambda>c. is_word c \<and> \<not> is_digit c), Star word],
     seqs [WordB, interpreters [''node'', ''bun'', ''ruby'', ''perl'', ''deno''], plus ws, lit ''-'', Alt ws Eol]]"

definition isCodeMutatingBash :: "string \<Rightarrow> bool" where
  "isCodeMutatingBash command = list_ex (\<lambda>re. rx_test re command) CODE_MUTATING_BASH_PATTERNS"

definition VERIFY_OPS_BASH_PATTERNS :: "rx list" where
  "VERIFY_OPS_BASH_PATTERNS =
    [seqs [WordB, lits [''bun'', ''npm'', ''pnpm'', ''yarn''], plus ws, opt (Seq (lit ''run'') (plus ws)),
       lits [''test'', ''typecheck'', ''lint'', ''build''], WordB],
     seqs [WordB, lit ''tsc'', WordB],
     seqs [WordB, lit ''git'', plus ws, lits [''status'', ''diff'', ''log'', ''fetch''], WordB],
     seqs [lit ''scripts/restart'', opt (lit ''-profile''), lit ''.sh''],
     seqs [WordB, lit ''curl'', WordB, Star dot, WordB, lits [''health'', ''status''], WordB]]"

definition isVerifyOrOpsBash :: "string \<Rightarrow> bool" where
  "isVerifyOrOpsBash command = list_ex (\<lambda>re. rx_test re command) VERIFY_OPS_BASH_PATTERNS"

datatype deny_reason = DenyGitCommit execution_mode | DenyUnmeasuredBash | DenyMutatingBash execution_mode
  | DenyUnclassifiedBash execution_mode | DenySpawn | DenyCodeWrite execution_mode | DenyHighRisk string
  | DenyUnmeasurable string | DenyTooManyLines nat nat | DenyTooManyFiles nat nat

datatype policy_verdict = PolicyAllow | PolicyDeny deny_reason

definition exceeds :: "nat \<Rightarrow> nat option \<Rightarrow> bool" where
  "exceeds n limit = (case limit of None \<Rightarrow> False | Some m \<Rightarrow> m \<noteq> 0 \<and> m < n)"

definition policy_path :: "tool_input \<Rightarrow> string" where
  "policy_path input = (case str_input input ''path'' of None \<Rightarrow> [] | Some p \<Rightarrow> p)"

definition distinct_paths :: "execution_policy \<Rightarrow> string \<Rightarrow> nat" where
  "distinct_paths p path =
     length (remdups (pn_writtenPaths (ep_counters p) @ (if path \<noteq> [] then [path] else [])))"

definition write_verdict :: "execution_policy \<Rightarrow> string \<Rightarrow> tool_input \<Rightarrow> policy_verdict" where
  "write_verdict p toolName input =
    (let c = ep_constraints p; path = policy_path input in
     if pc_allowCodeWriteTools c = NoWrite then PolicyDeny (DenyCodeWrite (ep_mode p))
     else if path \<noteq> [] \<and> isHighRiskPolicyPath path then PolicyDeny (DenyHighRisk path)
     else if pc_allowCodeWriteTools c = TinyPatch
     then (let changed = countChangedLines toolName input in
       if toolName \<notin> set MEASURABLE_WRITE_TOOLS then PolicyDeny (DenyUnmeasurable toolName)
       else if exceeds changed (pc_maxChangedLines c)
       then PolicyDeny (DenyTooManyLines changed (the (pc_maxChangedLines c)))
       else if exceeds (distinct_paths p path) (pc_maxWriteFiles c)
       then PolicyDeny (DenyTooManyFiles (distinct_paths p path) (the (pc_maxWriteFiles c)))
       else PolicyAllow)
     else PolicyAllow)"

definition bash_verdict :: "execution_policy \<Rightarrow> tool_input \<Rightarrow> enforcement_level \<Rightarrow> policy_verdict" where
  "bash_verdict p input enf =
    (let cmd = (case str_input input ''command'' of None \<Rightarrow> [] | Some s \<Rightarrow> s) in
     if \<not> isCodeMutatingBash cmd \<and> (isReadOnlyBashCommand cmd \<or> isVerifyOrOpsBash cmd) then PolicyAllow
     else if ep_mode p = OpsDirect \<or> ep_mode p = DirectOverride then PolicyAllow
     else if isCodeMutatingBash cmd
     then (if ep_mode p = DirectSimple then PolicyDeny DenyUnmeasuredBash else PolicyDeny (DenyMutatingBash (ep_mode p)))
     else if enf = EnfStrict then PolicyDeny (DenyUnclassifiedBash (ep_mode p))
     else PolicyAllow)"

definition evaluateToolCall ::
  "execution_policy \<Rightarrow> string \<Rightarrow> tool_input \<Rightarrow> bool \<Rightarrow> enforcement_level \<Rightarrow> policy_verdict" where
  "evaluateToolCall p toolName input readOnly enf =
    (if toolName = ''git_commit''
     then (if pc_allowGitCommit (ep_constraints p) then PolicyAllow else PolicyDeny (DenyGitCommit (ep_mode p)))
     else if toolName = ''bash'' then bash_verdict p input enf
     else if toolName = ''spawn_teammate'' \<or> toolName = ''spawn_teammates''
     then (if pc_allowSpawnTools (ep_constraints p) then PolicyAllow else PolicyDeny DenySpawn)
     else if readOnly then PolicyAllow
     else write_verdict p toolName input)"

section \<open>After a tool, after a turn\<close>

text \<open>\<open>String(v)\<close>\<close>

fun js_String :: "json \<Rightarrow> string" and js_Strings :: "json list \<Rightarrow> string list" where
  "js_String JNull = ''null''"
| "js_String (JBool b) = (if b then ''true'' else ''false'')"
| "js_String (JNum i) = show_int i"
| "js_String (JStr s) = s"
| "js_String (JArr xs) = js_join '','' (js_Strings xs)"
| "js_String (JObj fs) = ''[object Object]''"
| "js_Strings [] = []"
| "js_Strings (x # xs) = (if x = JNull then [] else js_String x) # js_Strings xs"

definition TEST_RE :: rx where
  "TEST_RE = seqs [WordB, lits_ci [''test'', ''tsc'', ''typecheck'', ''build''], WordB]"

definition command_text :: "tool_input \<Rightarrow> string" where
  "command_text input = (case obj_get input ''command'' of None \<Rightarrow> [] | Some JNull \<Rightarrow> [] | Some j \<Rightarrow> js_String j)"

definition count_discovery :: "string \<Rightarrow> policy_counters \<Rightarrow> policy_counters" where
  "count_discovery t c = (if t \<in> set DISCOVERY_TOOLS
     then c\<lparr>pn_discoveryToolCalls := Suc (pn_discoveryToolCalls c)\<rparr> else c)"

definition counts_write :: "string \<Rightarrow> bool \<Rightarrow> bool" where
  "counts_write t readOnly \<longleftrightarrow> \<not> readOnly \<and> t \<notin> {''bash'', ''spawn_teammate'', ''spawn_teammates'', ''git_commit''}"

definition count_write :: "string \<Rightarrow> string \<Rightarrow> bool \<Rightarrow> policy_counters \<Rightarrow> policy_counters" where
  "count_write t path readOnly c = (if counts_write t readOnly
     then c\<lparr>pn_writeToolCalls := Suc (pn_writeToolCalls c),
        pn_writtenPaths := (if path \<noteq> [] \<and> path \<notin> set (pn_writtenPaths c) then pn_writtenPaths c @ [path]
          else pn_writtenPaths c)\<rparr> else c)"

definition count_bash :: "string \<Rightarrow> tool_input \<Rightarrow> policy_counters \<Rightarrow> policy_counters" where
  "count_bash t input c =
     (if t = ''bash'' \<and> (case str_input input ''command'' of None \<Rightarrow> False | Some s \<Rightarrow> isCodeMutatingBash s)
      then c\<lparr>pn_codeMutatingBashCalls := Suc (pn_codeMutatingBashCalls c)\<rparr> else c)"

definition count_spawn :: "string \<Rightarrow> policy_counters \<Rightarrow> policy_counters" where
  "count_spawn t c = (if t = ''spawn_teammate'' \<or> t = ''spawn_teammates'' then c\<lparr>pn_teammateSpawned := True\<rparr> else c)"

definition count_failure :: "string \<Rightarrow> tool_input \<Rightarrow> bool \<Rightarrow> policy_counters \<Rightarrow> policy_counters" where
  "count_failure t input isError c = (if isError \<and> t = ''bash'' \<and> rx_test TEST_RE (command_text input)
     then c\<lparr>pn_testFailures := Suc (pn_testFailures c)\<rparr> else c)"

definition updateExecutionPolicyAfterTool ::
  "string \<Rightarrow> tool_input \<Rightarrow> bool \<Rightarrow> bool \<Rightarrow> execution_policy \<Rightarrow> execution_policy" where
  "updateExecutionPolicyAfterTool t input readOnly isError p =
     p\<lparr>ep_counters := count_failure t input isError (count_spawn t (count_bash t input
        (count_write t (policy_path input) readOnly (count_discovery t (ep_counters p)))))\<rparr>"

definition escalateToDelegated :: "execution_policy \<Rightarrow> string \<Rightarrow> execution_policy" where
  "escalateToDelegated p reason = p\<lparr>ep_mode := DelegatedCoding, ep_source := RuntimeEscalation,
     ep_reason := EscalationReason reason, ep_constraints := no_direct_writes (ep_constraints p)\<rparr>"

record turn_result =
  tr_toolName :: string
  tr_input :: tool_input
  tr_readOnly :: bool
  tr_isError :: bool

definition count_result :: "turn_result \<Rightarrow> execution_policy \<Rightarrow> execution_policy" where
  "count_result r = updateExecutionPolicyAfterTool (tr_toolName r) (tr_input r) (tr_readOnly r) (tr_isError r)"

definition or_default :: "nat option \<Rightarrow> nat \<Rightarrow> nat" where
  "or_default v d = (case v of None \<Rightarrow> d | Some n \<Rightarrow> n)"

definition budget_exceeded :: "execution_policy \<Rightarrow> bool" where
  "budget_exceeded p \<longleftrightarrow>
     (let c = ep_constraints p; n = ep_counters p in
      or_default (pc_maxWriteFiles c) 2 < length (pn_writtenPaths n) \<or>
      pn_writeToolCalls n = 0 \<and> or_default (pc_maxDiscovery c) 3 < pn_discoveryToolCalls n)"

text \<open>The policy after a turn: the counters of all its results, and the escalation of an exceeded budget.\<close>

definition policy_after_turn :: "turn_result list \<Rightarrow> execution_policy \<Rightarrow> execution_policy" where
  "policy_after_turn results p =
    (let p1 = fold count_result results p
     in if ep_mode p1 = DirectSimple \<and> budget_exceeded p1
        then escalateToDelegated p1 ''direct_simple budget exceeded at runtime'' else p1)"

section \<open>Policies that are well formed\<close>

text \<open>What mode and constraints of a policy have to do with each other, at intake and ever after.\<close>

definition commit_mode :: "execution_mode \<Rightarrow> bool" where
  "commit_mode m \<longleftrightarrow> m = OpsDirect \<or> m = DirectOverride"

definition delegating_mode :: "execution_mode \<Rightarrow> bool" where
  "delegating_mode m \<longleftrightarrow> m = DelegatedCoding \<or> m = ArchitectRequired \<or> m = ReviewOnly \<or> m = LandingRequired"

definition tiny_limits :: "policy_constraints \<Rightarrow> bool" where
  "tiny_limits c \<longleftrightarrow> pc_maxChangedLines c = Some 30 \<and> pc_maxWriteFiles c = Some 2 \<and> pc_maxDiscovery c = Some 3"

definition caps_ok :: "execution_mode \<Rightarrow> policy_constraints \<Rightarrow> bool" where
  "caps_ok m c \<longleftrightarrow> pc_allowReadTools c \<and> pc_allowSpawnTools c \<and>
     (pc_allowCodeWriteTools c = AnyWrite \<longleftrightarrow> m = DirectOverride) \<and> (pc_allowGitCommit c \<longleftrightarrow> commit_mode m) \<and>
     (pc_allowCodeWriteTools c = TinyPatch \<longrightarrow> m = DirectSimple \<and> \<not> pc_mustDelegate c \<and> tiny_limits c) \<and>
     (delegating_mode m \<longrightarrow> pc_mustDelegate c \<and> pc_allowCodeWriteTools c = NoWrite)"

definition counters_ok :: "policy_counters \<Rightarrow> bool" where
  "counters_ok n \<longleftrightarrow> distinct (pn_writtenPaths n) \<and> [] \<notin> set (pn_writtenPaths n) \<and>
     length (pn_writtenPaths n) \<le> pn_writeToolCalls n"

definition policy_ok :: "execution_policy \<Rightarrow> bool" where
  "policy_ok p \<longleftrightarrow> caps_ok (ep_mode p) (ep_constraints p) \<and> counters_ok (ep_counters p)"

lemma mk_policy_simps [simp]:
  "ep_mode (mk_policy m s r c) = m" "ep_constraints (mk_policy m s r c) = c"
  "ep_counters (mk_policy m s r c) = emptyCounters"
  by (simp_all add: mk_policy_def)

lemma no_direct_writes_simps [simp]:
  "pc_allowReadTools (no_direct_writes c) = pc_allowReadTools c"
  "pc_allowSpawnTools (no_direct_writes c) = pc_allowSpawnTools c"
  "pc_allowGitCommit (no_direct_writes c) = pc_allowGitCommit c"
  "pc_allowCodeWriteTools (no_direct_writes c) = NoWrite" "pc_mustDelegate (no_direct_writes c)"
  by (simp_all add: no_direct_writes_def)

lemma caps_of_bases:
  "caps_ok ReviewOnly (base_constraints\<lparr>pc_mustDelegate := True, pc_requireReviewBeforeDone := Some True\<rparr>)"
  "m = LandingRequired \<or> m = ArchitectRequired \<or> m = DelegatedCoding \<Longrightarrow>
     caps_ok m (base_constraints\<lparr>pc_mustDelegate := True\<rparr>)"
  "caps_ok DelegatedCoding (base_constraints\<lparr>pc_mustDelegate := True, pc_suggestedRoleHint := r\<rparr>)"
  "caps_ok OpsDirect (base_constraints\<lparr>pc_allowOpsBash := True, pc_allowGitCommit := True\<rparr>)"
  "caps_ok DirectSimple (base_constraints\<lparr>pc_allowCodeWriteTools := TinyPatch, pc_maxChangedLines := Some 30,
     pc_maxWriteFiles := Some 2, pc_maxDiscovery := Some 3\<rparr>)"
  "caps_ok DirectAnswer base_constraints"
  "caps_ok DirectOverride (base_constraints\<lparr>pc_allowCodeWriteTools := AnyWrite, pc_allowOpsBash := True,
     pc_allowGitCommit := True\<rparr>)"
  by (auto simp: caps_ok_def base_constraints_def commit_mode_def delegating_mode_def tiny_limits_def)

lemma empty_counters_ok: "counters_ok emptyCounters"
  by (simp add: counters_ok_def emptyCounters_def)

lemma base_policy_ok: "policy_ok (base_policy roles text)"
  by (simp add: base_policy_def policy_ok_def caps_of_bases empty_counters_ok)

text \<open>Taking the right to write away keeps a policy well formed.\<close>

lemma caps_delegate: "caps_ok m c \<Longrightarrow> commit_mode m' = commit_mode m \<Longrightarrow> m' \<noteq> DirectOverride \<Longrightarrow>
    caps_ok m' (no_direct_writes c)"
  by (simp add: caps_ok_def)

lemma policy_ok_delegate:
  assumes "policy_ok p" "ep_constraints q = no_direct_writes (ep_constraints p)" "ep_counters q = ep_counters p"
    "commit_mode (ep_mode q) = commit_mode (ep_mode p)" "ep_mode q \<noteq> DirectOverride"
  shows "policy_ok q"
  using assms caps_delegate [of "ep_mode p" "ep_constraints p" "ep_mode q"] by (simp add: policy_ok_def)

lemma hint_task_ok: "policy_ok p \<Longrightarrow> policy_ok (hint_task t p)"
  unfolding hint_task_def by (auto intro: policy_ok_delegate simp: commit_mode_def)

lemma hint_human_ok: "policy_ok p \<Longrightarrow> ep_mode p \<noteq> DirectOverride \<Longrightarrow> policy_ok (hint_human h p)"
  unfolding hint_human_def by (auto intro: policy_ok_delegate simp: commit_mode_def)

lemma hint_stop_ok: "policy_ok p \<Longrightarrow> ep_mode p \<noteq> DirectOverride \<Longrightarrow> policy_ok (hint_stop s p)"
  unfolding hint_stop_def by (auto intro: policy_ok_delegate simp: commit_mode_def split: option.split)

lemma hint_coord_ok: "policy_ok p \<Longrightarrow> ep_mode p \<noteq> DirectOverride \<Longrightarrow> policy_ok (hint_coord a p)"
  unfolding hint_coord_def by (auto intro: policy_ok_delegate simp: commit_mode_def split: option.split)

lemma hint_modes:
  "ep_mode (hint_task t p) = DirectOverride \<longleftrightarrow> ep_mode p = DirectOverride"
  "ep_mode (hint_human h p) = ep_mode p" "ep_mode (hint_stop s p) = ep_mode p"
  "ep_mode (hint_coord a p) = DirectOverride \<longleftrightarrow> ep_mode p = DirectOverride"
  by (auto simp: hint_task_def hint_human_def hint_stop_def hint_coord_def split: option.split)

lemma hints_ok: "policy_ok p \<Longrightarrow> policy_ok (applyHintsTightenOnly p ph tmh)"
  by (simp add: applyHintsTightenOnly_def hint_task_ok hint_human_ok hint_stop_ok hint_coord_ok hint_modes)

lemma classify_ok: "policy_ok (classifyExecutionPolicy text roles ph tmh)"
  by (simp add: classifyExecutionPolicy_def hints_ok base_policy_ok policy_ok_def [of "mk_policy m s r c" for m s r c]
      caps_of_bases empty_counters_ok)

lemma update_simps:
  "ep_mode (updateExecutionPolicyAfterTool t i r e p) = ep_mode p"
  "ep_constraints (updateExecutionPolicyAfterTool t i r e p) = ep_constraints p"
  by (simp_all add: updateExecutionPolicyAfterTool_def)

lemma count_paths:
  "pn_writtenPaths (count_discovery t c) = pn_writtenPaths c" "pn_writeToolCalls (count_discovery t c) = pn_writeToolCalls c"
  "pn_writtenPaths (count_bash t i c) = pn_writtenPaths c" "pn_writeToolCalls (count_bash t i c) = pn_writeToolCalls c"
  "pn_writtenPaths (count_spawn t c) = pn_writtenPaths c" "pn_writeToolCalls (count_spawn t c) = pn_writeToolCalls c"
  "pn_writtenPaths (count_failure t i e c) = pn_writtenPaths c"
  "pn_writeToolCalls (count_failure t i e c) = pn_writeToolCalls c"
  by (simp_all add: count_discovery_def count_bash_def count_spawn_def count_failure_def)

lemma update_counters:
  "pn_writtenPaths (ep_counters (updateExecutionPolicyAfterTool t i r e p)) =
     (if counts_write t r \<and> policy_path i \<noteq> [] \<and> policy_path i \<notin> set (pn_writtenPaths (ep_counters p))
      then pn_writtenPaths (ep_counters p) @ [policy_path i] else pn_writtenPaths (ep_counters p))"
  "pn_writeToolCalls (ep_counters (updateExecutionPolicyAfterTool t i r e p)) =
     (if counts_write t r then Suc (pn_writeToolCalls (ep_counters p)) else pn_writeToolCalls (ep_counters p))"
  by (simp_all add: updateExecutionPolicyAfterTool_def count_paths count_write_def)

lemma counters_ok_add: "counters_ok n \<Longrightarrow> x \<noteq> [] \<Longrightarrow> x \<notin> set (pn_writtenPaths n) \<Longrightarrow>
    pn_writtenPaths m = pn_writtenPaths n @ [x] \<Longrightarrow> pn_writeToolCalls m = Suc (pn_writeToolCalls n) \<Longrightarrow> counters_ok m"
  by (simp add: counters_ok_def)

lemma counters_ok_keep: "counters_ok n \<Longrightarrow> pn_writtenPaths m = pn_writtenPaths n \<Longrightarrow>
    pn_writeToolCalls n \<le> pn_writeToolCalls m \<Longrightarrow> counters_ok m"
  by (simp add: counters_ok_def)

lemma update_ok:
  assumes "policy_ok p"
  shows "policy_ok (updateExecutionPolicyAfterTool t i r e p)"
proof -
  let ?q = "updateExecutionPolicyAfterTool t i r e p"
  have c: "counters_ok (ep_counters p)" using assms by (simp add: policy_ok_def)
  have "counters_ok (ep_counters ?q)"
  proof (cases "counts_write t r \<and> policy_path i \<noteq> [] \<and> policy_path i \<notin> set (pn_writtenPaths (ep_counters p))")
    case True
    then show ?thesis by (intro counters_ok_add [OF c, of "policy_path i"]) (simp_all add: update_counters)
  next
    case False
    then show ?thesis by (intro counters_ok_keep [OF c]) (auto simp: update_counters)
  qed
  then show ?thesis using assms by (simp add: policy_ok_def update_simps)
qed

lemma fold_count_ok: "policy_ok p \<Longrightarrow> policy_ok (fold count_result rs p)"
  by (induction rs arbitrary: p) (simp_all add: count_result_def update_ok)

lemma fold_count_simps:
  "ep_mode (fold count_result rs p) = ep_mode p" "ep_constraints (fold count_result rs p) = ep_constraints p"
  by (induction rs arbitrary: p) (simp_all add: count_result_def update_simps)

lemma escalate_ok: "policy_ok p \<Longrightarrow> ep_mode p = DirectSimple \<Longrightarrow> policy_ok (escalateToDelegated p r)"
  unfolding escalateToDelegated_def by (rule policy_ok_delegate [of p]) (simp_all add: commit_mode_def)

lemma after_turn_ok: "policy_ok p \<Longrightarrow> policy_ok (policy_after_turn rs p)"
  by (simp add: policy_after_turn_def Let_def fold_count_ok escalate_ok)

text \<open>C33: The policy of a run is well formed at intake and after every turn, whatever the tools returned.\<close>

theorem policies_stay_ok:
  "policy_ok (fold policy_after_turn turns (classifyExecutionPolicy prompt roles ph tmh))"
proof -
  have "policy_ok p \<Longrightarrow> policy_ok (fold policy_after_turn turns p)" for p
    by (induction turns arbitrary: p) (simp_all add: after_turn_ok)
  then show ?thesis by (simp add: classify_ok)
qed

text \<open>
  A leader may write code freely exactly when the prompt holds a phrase of an explicit override; no hint adds to or
  takes from that.
\<close>

theorem free_hand_exact:
  "pc_allowCodeWriteTools (ep_constraints (classifyExecutionPolicy prompt roles ph tmh)) = AnyWrite \<longleftrightarrow>
   rx_test OVERRIDE_RE prompt"
proof -
  have "ep_mode (base_policy roles prompt) \<noteq> DirectOverride" by (simp add: base_policy_def)
  then have "ep_mode (applyHintsTightenOnly (base_policy roles prompt) ph tmh) \<noteq> DirectOverride"
    by (simp add: applyHintsTightenOnly_def hint_modes)
  then have "ep_mode (classifyExecutionPolicy prompt roles ph tmh) = DirectOverride \<longleftrightarrow> rx_test OVERRIDE_RE prompt"
    by (simp add: classifyExecutionPolicy_def)
  then show ?thesis using classify_ok [of prompt roles ph tmh] by (simp add: policy_ok_def caps_ok_def)
qed

section \<open>Tightening\<close>

definition unrestricted :: "execution_policy \<Rightarrow> bool" where
  "unrestricted p \<longleftrightarrow> ep_mode p = OpsDirect \<or> ep_mode p = DirectOverride"

definition tighter :: "execution_policy \<Rightarrow> execution_policy \<Rightarrow> bool" where
  "tighter p q \<longleftrightarrow>
     pc_allowGitCommit (ep_constraints q) = pc_allowGitCommit (ep_constraints p) \<and>
     pc_allowSpawnTools (ep_constraints q) = pc_allowSpawnTools (ep_constraints p) \<and>
     (unrestricted q \<longrightarrow> unrestricted p) \<and>
     (pc_allowCodeWriteTools (ep_constraints q) = NoWrite \<or>
      ep_constraints q = ep_constraints p \<and> ep_counters q = ep_counters p)"

lemma tighter_refl: "tighter p p"
  by (simp add: tighter_def)

lemma tighter_trans: "tighter p q \<Longrightarrow> tighter q r \<Longrightarrow> tighter p r"
  by (auto simp: tighter_def)

lemma write_verdict_cong: "ep_constraints q = ep_constraints p \<Longrightarrow> ep_counters q = ep_counters p \<Longrightarrow>
    write_verdict q t i = PolicyAllow \<longleftrightarrow> write_verdict p t i = PolicyAllow"
  by (simp add: write_verdict_def Let_def distinct_paths_def)

lemma bash_verdict_allow: "bash_verdict p i e = PolicyAllow \<longleftrightarrow>
    (let cmd = (case str_input i ''command'' of None \<Rightarrow> [] | Some s \<Rightarrow> s) in
     unrestricted p \<or> \<not> isCodeMutatingBash cmd \<and> (isReadOnlyBashCommand cmd \<or> isVerifyOrOpsBash cmd \<or> e \<noteq> EnfStrict))"
  by (auto simp: bash_verdict_def Let_def unrestricted_def)

lemma tighter_permits:
  assumes "tighter p q" "evaluateToolCall q t i r e = PolicyAllow"
  shows "evaluateToolCall p t i r e = PolicyAllow"
proof -
  have "write_verdict p t i = PolicyAllow" if "write_verdict q t i = PolicyAllow"
  proof -
    have "pc_allowCodeWriteTools (ep_constraints q) \<noteq> NoWrite" using that by (auto simp: write_verdict_def Let_def)
    then show ?thesis using that assms(1) write_verdict_cong unfolding tighter_def by blast
  qed
  moreover have "bash_verdict p i e = PolicyAllow" if "bash_verdict q i e = PolicyAllow"
    using that assms(1) unfolding bash_verdict_allow Let_def tighter_def by blast
  ultimately show ?thesis using assms unfolding evaluateToolCall_def tighter_def by (auto split: if_splits)
qed

lemma hints_tighter: "tighter p (applyHintsTightenOnly p ph tmh)"
proof -
  have t: "tighter p (hint_task t p)" for t p by (simp add: tighter_def hint_task_def unrestricted_def)
  have h: "tighter p (hint_human h p)" for h p by (simp add: tighter_def hint_human_def unrestricted_def)
  have s: "tighter p (hint_stop s p)" for s p
    by (simp add: tighter_def hint_stop_def unrestricted_def split: option.split)
  have c: "tighter p (hint_coord a p)" for a p
    by (simp add: tighter_def hint_coord_def unrestricted_def split: option.split)
  show ?thesis unfolding applyHintsTightenOnly_def
    using tighter_trans [OF tighter_trans [OF tighter_trans [OF t h] s] c] by (simp add: tighter_refl)
qed

text \<open>Hints never let a tool call through that the policy without them would have stopped.\<close>

theorem hints_never_permit:
  assumes "evaluateToolCall (applyHintsTightenOnly p ph tmh) t i r e = PolicyAllow"
  shows "evaluateToolCall p t i r e = PolicyAllow"
  using assms by (rule tighter_permits [OF hints_tighter])

text \<open>A tool that changes files passes in a mode of tiny patches only as a measured edit within every budget.\<close>

theorem tiny_patch_bounds:
  assumes "evaluateToolCall p t i False e = PolicyAllow" and "pc_allowCodeWriteTools (ep_constraints p) = TinyPatch"
    and "t \<notin> {''git_commit'', ''bash'', ''spawn_teammate'', ''spawn_teammates''}"
    and "pc_maxChangedLines (ep_constraints p) = Some l" "l \<noteq> 0" "pc_maxWriteFiles (ep_constraints p) = Some f" "f \<noteq> 0"
    and "distinct (pn_writtenPaths (ep_counters p))" and "policy_path i \<noteq> []"
  shows "t \<in> {''edit_file'', ''write_file''} \<and> countChangedLines t i \<le> l \<and> \<not> isHighRiskPolicyPath (policy_path i) \<and>
    card (insert (policy_path i) (set (pn_writtenPaths (ep_counters p)))) \<le> f"
proof -
  have "length (remdups xs) = card (set xs)" for xs :: "string list" by (rule length_remdups_card_conv)
  then show ?thesis using assms
    by (auto simp: evaluateToolCall_def write_verdict_def Let_def MEASURABLE_WRITE_TOOLS_def exceeds_def distinct_paths_def
        split: if_splits)
qed

theorem hints_never_permit_witness:
  "evaluateToolCall (classifyExecutionPolicy ''hi'' [] None None) ''spawn_teammate'' [] False EnfStrict = PolicyAllow"
proof -
  let ?h = "Some \<lparr>mh_taskType = Some CodingTask, mh_needsHuman = None, mh_stopCondition = None, mh_coordinationAction = None\<rparr>"
  have n: "applyHintsTightenOnly p None None = p" for p
    by (simp add: applyHintsTightenOnly_def hint_task_def hint_human_def hint_stop_def hint_coord_def hint_of_def)
  have "pc_allowSpawnTools (ep_constraints (classifyExecutionPolicy ''hi'' [] None None))"
    using classify_ok [of "''hi''" "[]" None None] by (simp add: policy_ok_def caps_ok_def)
  then have "pc_allowSpawnTools (ep_constraints (applyHintsTightenOnly (classifyExecutionPolicy ''hi'' [] None None) ?h None))"
    using hints_tighter [of "classifyExecutionPolicy ''hi'' [] None None" ?h None] by (simp add: tighter_def)
  then have "evaluateToolCall (applyHintsTightenOnly (classifyExecutionPolicy ''hi'' [] None None) ?h None)
      ''spawn_teammate'' [] False EnfStrict = PolicyAllow"
    by (simp add: evaluateToolCall_def)
  then show ?thesis by (rule hints_never_permit)
qed

text \<open>
  Two gaps. The negation of an override phrase is one, and gives the leader a free hand; and a harmless command
  anywhere in a line lets the whole line pass, even where everything unclassified is to be stopped.
\<close>

theorem policy_gaps:
  "ep_mode (classifyExecutionPolicy ''never do it yourself'' [] None None) = DirectOverride \<and>
   evaluateToolCall (classifyExecutionPolicy ''review'' [] None None) ''bash''
     [(''command'', JStr ''rm -r a; git status'')] False EnfStrict = PolicyAllow"
proof
  have "rx_test OVERRIDE_RE ''never do it yourself''" by code_simp
  then show "ep_mode (classifyExecutionPolicy ''never do it yourself'' [] None None) = DirectOverride"
    by (simp add: classifyExecutionPolicy_def)
  have "\<not> isCodeMutatingBash ''rm -r a; git status''" "isVerifyOrOpsBash ''rm -r a; git status''" by code_simp+
  then show "evaluateToolCall (classifyExecutionPolicy ''review'' [] None None) ''bash''
     [(''command'', JStr ''rm -r a; git status'')] False EnfStrict = PolicyAllow"
    by (simp add: evaluateToolCall_def bash_verdict_def str_input_def obj_get_def)
qed

end
