(* ===== verification/Tool_Gate.thy ===== *)
theory Tool_Gate
  imports Execution_Policy Tool_Executor
begin

text \<open>
  The gates of one tool call (\<open>autonomous-loop/tool-execution.ts\<close>): \<open>runToolUse\<close> as the trace of what it does, in
  order. A tool, its schema, the hooks, the approval channel and the tool's run are arguments; longer texts are
  constructors, the characters of the texts for the client beyond the modelled range are an argument.
\<close>

section \<open>Invalid input\<close>

record validation_issue =
  vi_code :: string
  vi_message :: string
  vi_path :: "string list"
  vi_topKey :: "string option"

datatype validation_shape = TruncatedShape | EmptyShape | OtherShape

definition formatZodError :: "validation_issue list \<Rightarrow> string" where
  "formatZodError issues = js_join ''; '' (map (\<lambda>i. js_join ''.'' (vi_path i) @ '': '' @ vi_message i) issues)"

text \<open>The input of a call is an object; \<open>vi_topKey\<close> is the first step of an issue's path when it is a string.\<close>

definition missing_required :: "tool_input \<Rightarrow> validation_issue \<Rightarrow> bool" where
  "missing_required input i \<longleftrightarrow>
     (let m = to_lower (vi_message i) in
      (vi_code i = ''invalid_type'' \<or> includes_str m ''required'' \<or> includes_str m ''received undefined'') \<and>
      (case vi_topKey i of None \<Rightarrow> True | Some k \<Rightarrow> k \<notin> set (map fst input)))"

definition classifyValidationFailure :: "tool_input \<Rightarrow> validation_issue list \<Rightarrow> validation_shape" where
  "classifyValidationFailure input issues =
    (if \<not> list_ex (missing_required input) issues then OtherShape
     else if input = [] then EmptyShape else TruncatedShape)"

section \<open>Results and summaries\<close>

definition block_fields_ok :: "(string \<times> json) list \<Rightarrow> bool" where
  "block_fields_ok fs =
    (let is_str = (\<lambda>k. case obj_get fs k of Some (JStr s) \<Rightarrow> True | _ \<Rightarrow> False) in
     if obj_get fs ''type'' = Some (JStr ''text'') then is_str ''text''
     else if obj_get fs ''type'' = Some (JStr ''image'') then is_str ''mediaType'' \<and> is_str ''data'' else False)"

definition isLeaderResultBlockArray :: "json \<Rightarrow> bool" where
  "isLeaderResultBlockArray v =
    (case v of JArr bs \<Rightarrow> bs \<noteq> [] \<and> list_all (\<lambda>b. case b of JObj fs \<Rightarrow> block_fields_ok fs | _ \<Rightarrow> False) bs
     | _ \<Rightarrow> False)"

text \<open>\<open>JSON.stringify(v, null, 2)\<close> under an indentation.\<close>

fun json_pretty :: "string \<Rightarrow> json \<Rightarrow> string"
  and pretty_items :: "string \<Rightarrow> json list \<Rightarrow> string list"
  and pretty_fields :: "string \<Rightarrow> (string \<times> json) list \<Rightarrow> string list" where
  "json_pretty ind (JArr []) = ''[]''"
| "json_pretty ind (JArr (x # xs)) = ''['' @ [CHR 0x0A] @
     js_join ('','' @ [CHR 0x0A]) (pretty_items (ind @ ''  '') (x # xs)) @ [CHR 0x0A] @ ind @ '']''"
| "json_pretty ind (JObj []) = ''{}''"
| "json_pretty ind (JObj (f # fs)) = ''{'' @ [CHR 0x0A] @
     js_join ('','' @ [CHR 0x0A]) (pretty_fields (ind @ ''  '') (f # fs)) @ [CHR 0x0A] @ ind @ ''}''"
| "json_pretty ind JNull = ''null''"
| "json_pretty ind (JBool b) = (if b then ''true'' else ''false'')"
| "json_pretty ind (JNum i) = show_int i"
| "json_pretty ind (JStr s) = json_quote s"
| "pretty_items ind [] = []"
| "pretty_items ind (x # xs) = (ind @ json_pretty ind x) # pretty_items ind xs"
| "pretty_fields ind [] = []"
| "pretty_fields ind ((k, v) # fs) = (ind @ json_quote k @ '': '' @ json_pretty ind v) # pretty_fields ind fs"

text \<open>A tool returns a value or \<open>undefined\<close>.\<close>

definition formatToolResult :: "json option \<Rightarrow> string" where
  "formatToolResult d = (case d of None \<Rightarrow> [] | Some JNull \<Rightarrow> [] | Some (JStr s) \<Rightarrow> s | Some v \<Rightarrow> json_pretty [] v)"

datatype resolved_content = PlainText string | Blocks "json list"

definition resolve_content :: "json option \<Rightarrow> resolved_content" where
  "resolve_content d = (case d of
     Some (JArr bs) \<Rightarrow> if isLeaderResultBlockArray (JArr bs) then Blocks bs else PlainText (formatToolResult d)
   | _ \<Rightarrow> PlainText (formatToolResult d))"

definition block_summary :: "json \<Rightarrow> string" where
  "block_summary b = (case b of
     JObj fs \<Rightarrow> (let get = (\<lambda>k. case obj_get fs k of Some (JStr s) \<Rightarrow> s | _ \<Rightarrow> []) in
       if obj_get fs ''type'' = Some (JStr ''text'') then get ''text'' else ''[image: '' @ get ''mediaType'' @ '']'')
   | _ \<Rightarrow> [])"

definition summarizeToolResultForEvent :: "resolved_content \<Rightarrow> string" where
  "summarizeToolResultForEvent c = (case c of
     PlainText s \<Rightarrow> s
   | Blocks bs \<Rightarrow> js_join [CHR 0x0A] (map block_summary bs))"

text \<open>
  The copy of an input that goes into the events, the property order kept; what is \<open>undefined\<close> in it is written as
  null within an array and left out of an object, as the payload is stored.
\<close>

definition trunc_string :: "string \<Rightarrow> string \<Rightarrow> string" where
  "trunc_string ellipsis s = (if 4000 < length s then take 3999 s @ ellipsis else s)"

fun visit_json :: "string \<Rightarrow> nat \<Rightarrow> json \<Rightarrow> json option"
  and visit_items :: "string \<Rightarrow> nat \<Rightarrow> nat \<Rightarrow> json list \<Rightarrow> json list"
  and visit_fields :: "string \<Rightarrow> nat \<Rightarrow> nat \<Rightarrow> nat \<Rightarrow> (string \<times> json) list \<Rightarrow> (string \<times> json) list" where
  "visit_json e depth (JArr xs) = (if 4 < depth then None else
     Some (JArr (visit_items e (Suc depth) 20 xs @
       (if 20 < length xs then [JStr (e @ ''+'' @ show_nat (length xs - 20) @ '' more'')] else []))))"
| "visit_json e depth (JObj fs) = (if 4 < depth then None else
     Some (JObj (visit_fields e (Suc depth) 30 (length fs) fs)))"
| "visit_json e depth (JStr s) = (if 4 < depth then None else Some (JStr (trunc_string e s)))"
| "visit_json e depth JNull = (if 4 < depth then None else Some JNull)"
| "visit_json e depth (JBool b) = (if 4 < depth then None else Some (JBool b))"
| "visit_json e depth (JNum i) = (if 4 < depth then None else Some (JNum i))"
| "visit_items e depth n [] = []"
| "visit_items e depth n (x # xs) = (if n = 0 then [] else
     (case visit_json e depth x of None \<Rightarrow> JNull | Some v \<Rightarrow> v) # visit_items e depth (n - 1) xs)"
| "visit_fields e depth n tot [] = []"
| "visit_fields e depth n tot ((k, v) # fs) =
     (if n = 0 then [(''__truncated'', JStr (e @ ''+'' @ show_nat (tot - 30) @ '' keys''))]
      else (case visit_json e depth v of None \<Rightarrow> [] | Some w \<Rightarrow> [(k, w)]) @ visit_fields e depth (n - 1) tot fs)"

definition summarizeToolInputForEvent :: "string \<Rightarrow> tool_input \<Rightarrow> json option" where
  "summarizeToolInputForEvent e input = visit_json e 0 (JObj input)"

section \<open>The participants\<close>

datatype permission_behavior = PermAllow | PermDeny | PermAsk

record gate_permission =
  pr_behavior :: permission_behavior
  pr_message :: "string option"
  pr_updatedInput :: "tool_input option"

datatype hook_behavior = HookAllow | HookDeny | HookModify

record hook_result =
  hr_behavior :: hook_behavior
  hr_message :: "string option"
  hr_updatedInput :: "tool_input option"

record approval_result =
  ar_approved :: bool
  ar_feedback :: "string option"

text \<open>How the run of a tool ends, the race with its time-out decided.\<close>

datatype call_end = CallReturns "json option" | CallThrows string | CallTimesOut

record gate_tool =
  gt_name :: string
  gt_aliases :: "string list"
  gt_remote :: bool
  gt_parse :: "tool_input \<Rightarrow> validation_issue list + tool_input"
  gt_isReadOnly :: "tool_input \<Rightarrow> bool"
  gt_isPlanSafe :: "(tool_input \<Rightarrow> bool) option"
  gt_checkPermissions :: "(tool_input \<Rightarrow> gate_permission) option"
  gt_call :: "tool_input \<Rightarrow> call_end"
  gt_defaultTimeoutMs :: "int option"
  gt_acceptsTimeoutOverride :: bool

record gate_context =
  gc_aborted :: bool
  gc_inPlanMode :: bool
  gc_preHooks :: "(string \<Rightarrow> tool_input \<Rightarrow> hook_result) list"
  gc_postHooks :: "(string \<Rightarrow> tool_input \<Rightarrow> json option \<Rightarrow> json option option) list"
  gc_canUseTool :: "(string \<Rightarrow> tool_input \<Rightarrow> gate_permission) option"
  gc_requestApproval :: "(string \<Rightarrow> tool_input \<Rightarrow> string \<Rightarrow> approval_result) option"
  gc_executionPolicy :: "execution_policy option"
  gc_enforcement :: "string option"
  gc_ellipsis :: string

datatype gate_content =
    RcText string
  | RcToolError string
  | RcPolicyBlocked string execution_mode deny_reason
  | RcInvalidInput string validation_shape
  | RcTimedOut string int
  | RcPlanMode string
  | RcOutput resolved_content

datatype gate_event =
    EvOverrideUsed string
  | EvPolicyBlocked string execution_mode deny_reason bool
  | EvHookBlocked string "string option"
  | EvToolCall string string "json option" "bool" "bool option"
  | EvToolResult string bool string
  | EvToolTimeout string int

datatype gate_act =
    DoEvent gate_event
  | DoAsk string
  | DoCall tool_input
  | DoRemote
  | DoYield gate_content bool

section \<open>The gate of the execution policy\<close>

datatype policy_action = GateAllow | GateBlock gate_content

definition checkExecutionPolicyGate :: "gate_tool \<Rightarrow> tool_input \<Rightarrow> gate_context \<Rightarrow> policy_action \<times> gate_event list" where
  "checkExecutionPolicyGate tool input ctx =
    (let enf = getEnforcementLevel (gc_enforcement ctx) in
     case gc_executionPolicy ctx of
       None \<Rightarrow> (GateAllow, [])
     | Some policy \<Rightarrow>
         if enf = EnfOff then (GateAllow, [])
         else
           (let readOnly = (if gt_name tool = ''bash'' then False else gt_isReadOnly tool input) in
            case evaluateToolCall policy (gt_name tool) input readOnly enf of
              PolicyAllow \<Rightarrow>
                (GateAllow, if ep_mode policy = DirectOverride \<and> \<not> readOnly then [EvOverrideUsed (gt_name tool)] else [])
            | PolicyDeny reason \<Rightarrow>
                (let blocking = modeIsEnforcedAtLevel (ep_mode policy) enf in
                 (if blocking then GateBlock (RcPolicyBlocked (gt_name tool) (ep_mode policy) reason) else GateAllow,
                  [EvPolicyBlocked (gt_name tool) (ep_mode policy) reason blocking]))))"

section \<open>One tool call\<close>

definition find_tool :: "gate_tool list \<Rightarrow> string \<Rightarrow> gate_tool option" where
  "find_tool tools name = find (\<lambda>t. gt_name t = name \<or> name \<in> set (gt_aliases t)) tools"

text \<open>The results of the hooks in order; every hook has seen the input before any modification.\<close>

fun apply_hooks :: "string \<Rightarrow> tool_input \<Rightarrow> hook_result list \<Rightarrow> gate_act list + tool_input" where
  "apply_hooks name input [] = Inr input"
| "apply_hooks name input (r # rs) =
     (if hr_behavior r = HookDeny
      then Inl [DoYield (RcToolError (case hr_message r of None \<Rightarrow> ''Hook blocked tool execution'' | Some m \<Rightarrow> m)) True,
                DoEvent (EvHookBlocked name (hr_message r))]
      else apply_hooks name (case (hr_behavior r, hr_updatedInput r) of (HookModify, Some i) \<Rightarrow> i | _ \<Rightarrow> input) rs)"

text \<open>A permission that is denied, asked for or given: \<open>Inl\<close> ends the call, \<open>Inr\<close> are the acts so far.\<close>

definition permission_step ::
  "gate_context \<Rightarrow> string \<Rightarrow> string \<Rightarrow> tool_input \<Rightarrow> gate_permission \<Rightarrow> gate_act list + gate_act list" where
  "permission_step ctx name denied input r =
    (case pr_behavior r of
       PermAllow \<Rightarrow> Inr []
     | PermDeny \<Rightarrow> Inl [DoYield (RcToolError (case pr_message r of None \<Rightarrow> denied | Some m \<Rightarrow> m)) True]
     | PermAsk \<Rightarrow>
        (case gc_requestApproval ctx of
           None \<Rightarrow> Inl [DoYield (RcToolError (case pr_message r of
               None \<Rightarrow> ''Tool '' @ [CHR 0x27] @ name @ [CHR 0x27] @
                 '' requires approval but no approval channel is wired.'' | Some m \<Rightarrow> m)) True]
         | Some ask \<Rightarrow>
            (let q = (case pr_message r of None \<Rightarrow> ''Allow tool call: '' @ name @ ''?'' | Some m \<Rightarrow> m);
                 a = ask name input q
             in if ar_approved a then Inr [DoAsk q]
                else Inl [DoAsk q, DoYield (RcToolError (case ar_feedback a of None \<Rightarrow> ''User rejected'' | Some f \<Rightarrow> f)) True])))"

definition allow_result :: gate_permission where
  "allow_result = \<lparr>pr_behavior = PermAllow, pr_message = None, pr_updatedInput = None\<rparr>"

definition tool_timeout :: "gate_tool \<Rightarrow> tool_input \<Rightarrow> int option" where
  "tool_timeout tool input =
    (case (gt_acceptsTimeoutOverride tool, obj_get input ''timeout'') of
       (True, Some (JNum n)) \<Rightarrow> if 0 < n then Some n else gt_defaultTimeoutMs tool
     | _ \<Rightarrow> gt_defaultTimeoutMs tool)"

definition run_post_hooks :: "gate_context \<Rightarrow> string \<Rightarrow> tool_input \<Rightarrow> json option \<Rightarrow> json option" where
  "run_post_hooks ctx name input out =
     fold (\<lambda>h acc. case h name input out of None \<Rightarrow> acc | Some v \<Rightarrow> v) (gc_postHooks ctx) out"

definition call_acts :: "gate_tool \<Rightarrow> gate_context \<Rightarrow> tool_input \<Rightarrow> gate_act list" where
  "call_acts tool ctx input =
    DoEvent (EvToolCall (gt_name tool) (take 2000 (json_stringify (JObj input)))
      (summarizeToolInputForEvent (gc_ellipsis ctx) input) (gt_isReadOnly tool input)
      (map_option (\<lambda>f. f input) (gt_isPlanSafe tool))) #
    DoCall input #
    (case gt_call tool input of
       CallReturns out \<Rightarrow>
         (let c = resolve_content (run_post_hooks ctx (gt_name tool) input out) in
          [DoYield (RcOutput c) False,
           DoEvent (EvToolResult (gt_name tool) False (take 8000 (summarizeToolResultForEvent c)))])
     | CallThrows msg \<Rightarrow>
         [DoYield (RcToolError msg) True, DoEvent (EvToolResult (gt_name tool) True (take 8000 msg))]
     | CallTimesOut \<Rightarrow>
         (let ms = (case tool_timeout tool input of None \<Rightarrow> 0 | Some n \<Rightarrow> n) in
          [DoYield (RcTimedOut (gt_name tool) ms) True, DoEvent (EvToolTimeout (gt_name tool) ms)]))"

definition policy_then :: "gate_tool \<Rightarrow> gate_context \<Rightarrow> tool_input \<Rightarrow> gate_act list \<Rightarrow> gate_act list" where
  "policy_then tool ctx input rest =
    (let (action, events) = checkExecutionPolicyGate tool input ctx in
     map DoEvent events @ (case action of GateBlock c \<Rightarrow> [DoYield c True] | GateAllow \<Rightarrow> rest))"

definition after_hooks :: "gate_tool \<Rightarrow> gate_context \<Rightarrow> tool_input \<Rightarrow> gate_act list" where
  "after_hooks tool ctx processed =
    (case permission_step ctx (gt_name tool) ''Tool use denied'' processed
        (case gc_canUseTool ctx of None \<Rightarrow> allow_result | Some f \<Rightarrow> f (gt_name tool) processed) of
       Inl acts \<Rightarrow> acts
     | Inr acts \<Rightarrow> acts @
        (let r = (case gt_checkPermissions tool of None \<Rightarrow> allow_result | Some f \<Rightarrow> f processed) in
         case permission_step ctx (gt_name tool) ''Permission denied'' processed r of
           Inl acts2 \<Rightarrow> acts2
         | Inr acts2 \<Rightarrow> acts2 @
            (let input = (case pr_updatedInput r of None \<Rightarrow> processed | Some i \<Rightarrow> i) in
             policy_then tool ctx input (call_acts tool ctx input))))"

definition plan_safe :: "gate_tool \<Rightarrow> tool_input \<Rightarrow> bool" where
  "plan_safe tool input = (case gt_isPlanSafe tool of None \<Rightarrow> False | Some f \<Rightarrow> f input)"

definition runToolUse :: "string \<Rightarrow> tool_input \<Rightarrow> gate_tool list \<Rightarrow> gate_context \<Rightarrow> gate_act list" where
  "runToolUse name raw tools ctx =
    (case find_tool tools name of
       None \<Rightarrow> [DoYield (RcToolError (''Error: No such tool available: '' @ name)) True]
     | Some tool \<Rightarrow>
        if gc_aborted ctx then [DoYield (RcToolError ''Tool execution cancelled by user'') True]
        else if gt_remote tool then policy_then tool ctx raw [DoRemote]
        else case gt_parse tool raw of
          Inl issues \<Rightarrow>
            [DoYield (RcInvalidInput (formatZodError issues) (classifyValidationFailure raw issues)) True]
        | Inr parsed \<Rightarrow>
            if gc_inPlanMode ctx \<and> \<not> plan_safe tool parsed then [DoYield (RcPlanMode (gt_name tool)) True]
            else case apply_hooks (gt_name tool) parsed (map (\<lambda>h. h (gt_name tool) parsed) (gc_preHooks ctx)) of
              Inl acts \<Rightarrow> acts
            | Inr processed \<Rightarrow> after_hooks tool ctx processed)"

section \<open>What reaches the tool\<close>

definition permitted :: "gate_context \<Rightarrow> string \<Rightarrow> tool_input \<Rightarrow> gate_permission \<Rightarrow> bool" where
  "permitted ctx name input r \<longleftrightarrow> pr_behavior r = PermAllow \<or> pr_behavior r = PermAsk \<and>
     (case gc_requestApproval ctx of None \<Rightarrow> False
      | Some ask \<Rightarrow> ar_approved (ask name input (case pr_message r of None \<Rightarrow> ''Allow tool call: '' @ name @ ''?'' | Some m \<Rightarrow> m)))"

definition can_use_result :: "gate_tool \<Rightarrow> gate_context \<Rightarrow> tool_input \<Rightarrow> gate_permission" where
  "can_use_result tool ctx input = (case gc_canUseTool ctx of None \<Rightarrow> allow_result | Some f \<Rightarrow> f (gt_name tool) input)"

definition own_result :: "gate_tool \<Rightarrow> tool_input \<Rightarrow> gate_permission" where
  "own_result tool input = (case gt_checkPermissions tool of None \<Rightarrow> allow_result | Some f \<Rightarrow> f input)"

definition final_input :: "gate_tool \<Rightarrow> tool_input \<Rightarrow> tool_input" where
  "final_input tool input = (case pr_updatedInput (own_result tool input) of None \<Rightarrow> input | Some i \<Rightarrow> i)"

definition is_yield :: "gate_act \<Rightarrow> bool" where
  "is_yield a = (case a of DoYield _ _ \<Rightarrow> True | DoRemote \<Rightarrow> True | _ \<Rightarrow> False)"

definition is_call :: "gate_act \<Rightarrow> bool" where
  "is_call a = (case a of DoCall _ \<Rightarrow> True | _ \<Rightarrow> False)"

lemma act_simps [simp]:
  "is_yield (DoYield c e)" "is_yield DoRemote" "\<not> is_yield (DoEvent v)" "\<not> is_yield (DoAsk q)" "\<not> is_yield (DoCall i)"
  "\<not> is_call (DoYield c e)" "\<not> is_call DoRemote" "\<not> is_call (DoEvent v)" "\<not> is_call (DoAsk q)" "is_call (DoCall i)"
  by (simp_all add: is_yield_def is_call_def)

definition yields :: "gate_act list \<Rightarrow> nat" where
  "yields acts = length (filter is_yield acts)"

definition calls :: "gate_act list \<Rightarrow> gate_act list" where
  "calls acts = filter is_call acts"

lemma yields_simps [simp]: "yields [] = 0" "yields (a # as) = (if is_yield a then Suc (yields as) else yields as)"
  "yields (as @ bs) = yields as + yields bs" "yields (map DoEvent es) = 0"
  by (simp_all add: yields_def filter_empty_conv)

lemma calls_simps [simp]: "calls [] = []" "calls (a # as) = (if is_call a then a # calls as else calls as)"
  "calls (as @ bs) = calls as @ calls bs" "calls (map DoEvent es) = []"
  by (simp_all add: calls_def filter_empty_conv)

lemma permission_step_Inl: "permission_step ctx name d i r = Inl acts \<Longrightarrow>
    \<not> permitted ctx name i r \<and> yields acts = 1 \<and> calls acts = []"
  by (auto simp: permission_step_def permitted_def Let_def split: permission_behavior.splits option.splits if_splits)

lemma permission_step_Inr: "permission_step ctx name d i r = Inr acts \<Longrightarrow>
    permitted ctx name i r \<and> yields acts = 0 \<and> calls acts = []"
  by (auto simp: permission_step_def permitted_def Let_def split: permission_behavior.splits option.splits if_splits)

lemma apply_hooks_Inl: "apply_hooks name i rs = Inl acts \<Longrightarrow> yields acts = 1 \<and> calls acts = []"
  by (induction name i rs rule: apply_hooks.induct) (auto split: if_splits)

lemma call_acts_counts: "yields (call_acts tool ctx i) = 1 \<and> calls (call_acts tool ctx i) = [DoCall i]"
  by (simp add: call_acts_def Let_def split: call_end.split)

lemma policy_then_counts:
  "yields rest = 1 \<Longrightarrow> yields (policy_then tool ctx i rest) = 1"
  "calls (policy_then tool ctx i rest) = (if fst (checkExecutionPolicyGate tool i ctx) = GateAllow then calls rest else [])"
  by (auto simp: policy_then_def split: prod.split policy_action.split)

lemma after_hooks_counts:
  "yields (after_hooks tool ctx i) = 1 \<and>
   calls (after_hooks tool ctx i) =
     (if permitted ctx (gt_name tool) i (can_use_result tool ctx i) \<and> permitted ctx (gt_name tool) i (own_result tool i) \<and>
         fst (checkExecutionPolicyGate tool (final_input tool i) ctx) = GateAllow
      then [DoCall (final_input tool i)] else [])"
proof (cases "permission_step ctx (gt_name tool) ''Tool use denied'' i (can_use_result tool ctx i)")
  case (Inl acts)
  with permission_step_Inl [OF Inl] show ?thesis by (simp add: after_hooks_def can_use_result_def)
next
  case (Inr acts)
  note 1 = permission_step_Inr [OF Inr]
  show ?thesis
  proof (cases "permission_step ctx (gt_name tool) ''Permission denied'' i (own_result tool i)")
    case (Inl acts2)
    with permission_step_Inl [OF Inl] Inr 1 show ?thesis
      by (simp add: after_hooks_def can_use_result_def own_result_def)
  next
    case r2: (Inr acts2)
    note 2 = permission_step_Inr [OF r2]
    have "after_hooks tool ctx i = acts @ acts2 @ policy_then tool ctx (final_input tool i) (call_acts tool ctx (final_input tool i))"
      using Inr r2 by (simp add: after_hooks_def can_use_result_def own_result_def final_input_def Let_def)
    then show ?thesis using 1 2 policy_then_counts call_acts_counts by simp
  qed
qed

text \<open>When a call of a tool reaches the tool, and with which input.\<close>

definition reaches_tool :: "gate_tool \<Rightarrow> tool_input \<Rightarrow> gate_context \<Rightarrow> tool_input \<Rightarrow> bool" where
  "reaches_tool tool raw ctx i \<longleftrightarrow> \<not> gc_aborted ctx \<and> \<not> gt_remote tool \<and>
     (\<exists>parsed processed. gt_parse tool raw = Inr parsed \<and> (gc_inPlanMode ctx \<longrightarrow> plan_safe tool parsed) \<and>
        apply_hooks (gt_name tool) parsed (map (\<lambda>h. h (gt_name tool) parsed) (gc_preHooks ctx)) = Inr processed \<and>
        permitted ctx (gt_name tool) processed (can_use_result tool ctx processed) \<and>
        permitted ctx (gt_name tool) processed (own_result tool processed) \<and>
        i = final_input tool processed \<and> fst (checkExecutionPolicyGate tool i ctx) = GateAllow)"

text \<open>
  C21: A call reaches its tool exactly when every gate lets it pass, the abort, the schema, plan mode, the hooks, both
  permissions and the execution policy on the input the tool gets, and then once.
\<close>

theorem call_exact:
  "calls (runToolUse name raw tools ctx) = [DoCall i] \<longleftrightarrow>
   (\<exists>tool. find_tool tools name = Some tool \<and> reaches_tool tool raw ctx i)"
proof (cases "find_tool tools name")
  case None
  then show ?thesis by (simp add: runToolUse_def)
next
  case (Some tool)
  show ?thesis
  proof (cases "gc_aborted ctx \<or> gt_remote tool")
    case True
    then show ?thesis using Some policy_then_counts(2) [of tool ctx raw "[DoRemote]"]
      by (auto simp: runToolUse_def reaches_tool_def)
  next
    case False
    show ?thesis
    proof (cases "gt_parse tool raw")
      case (Inl issues)
      then show ?thesis using Some False by (simp add: runToolUse_def reaches_tool_def)
    next
      case (Inr parsed)
      define hooked where "hooked = apply_hooks (gt_name tool) parsed (map (\<lambda>h. h (gt_name tool) parsed) (gc_preHooks ctx))"
      show ?thesis
      proof (cases hooked)
        case h: (Inl acts)
        then show ?thesis using Some False Inr apply_hooks_Inl [of "gt_name tool" parsed _ acts]
          by (auto simp: runToolUse_def reaches_tool_def hooked_def)
      next
        case h: (Inr processed)
        then show ?thesis using Some False Inr after_hooks_counts [of tool ctx processed]
          by (auto simp: runToolUse_def reaches_tool_def hooked_def)
      qed
    qed
  qed
qed

text \<open>Every call yields exactly one result, or hands over to the remote executor.\<close>

theorem one_result_per_call: "yields (runToolUse name raw tools ctx) = 1"
proof (cases "find_tool tools name")
  case (Some tool)
  show ?thesis
  proof (cases "gt_parse tool raw")
    case (Inr parsed)
    then show ?thesis using Some
      by (cases "apply_hooks (gt_name tool) parsed (map (\<lambda>h. h (gt_name tool) parsed) (gc_preHooks ctx))")
        (auto simp: runToolUse_def policy_then_counts after_hooks_counts dest: apply_hooks_Inl)
  qed (use Some in \<open>simp add: runToolUse_def policy_then_counts\<close>)
qed (simp add: runToolUse_def)

section \<open>The escalation and the levels of enforcement\<close>

lemma getEnforcementLevel_review: "getEnforcementLevel (Some ''review_only'') = EnfReviewOnly"
  by code_simp

text \<open>
  Under the enforcement of reviews and small edits, a third file is refused to a leader of small edits; the refused
  call is counted as a write and escalates the policy to a mode that this level does not enforce, so that the same call
  passes the gate in the next turn.
\<close>

theorem escalation_lifts_block:
  assumes "policy_ok p" and "pc_allowCodeWriteTools (ep_constraints p) = TinyPatch"
    and "length (pn_writtenPaths (ep_counters p)) = 2"
    and "gt_name tool = ''edit_file''" and "\<not> gt_isReadOnly tool i"
    and "policy_path i \<noteq> []" and "policy_path i \<notin> set (pn_writtenPaths (ep_counters p))"
    and "gc_enforcement ctx = Some ''review_only''"
    and "tr_toolName r = ''edit_file''" "tr_input r = i" "\<not> tr_readOnly r"
  shows "fst (checkExecutionPolicyGate tool i (ctx\<lparr>gc_executionPolicy := Some p\<rparr>)) \<noteq> GateAllow \<and>
    fst (checkExecutionPolicyGate tool i (ctx\<lparr>gc_executionPolicy := Some (policy_after_turn [r] p)\<rparr>)) = GateAllow"
proof -
  have m: "ep_mode p = DirectSimple" and f: "pc_maxWriteFiles (ep_constraints p) = Some 2"
    and d: "distinct (pn_writtenPaths (ep_counters p))"
    using assms(1,2) by (auto simp: policy_ok_def caps_ok_def tiny_limits_def counters_ok_def)
  have n: "distinct_paths p (policy_path i) = 3"
    using d assms(3,6,7) by (simp add: distinct_paths_def distinct_remdups_id)
  have "write_verdict p ''edit_file'' i \<noteq> PolicyAllow"
    using assms(2,6) f n by (simp add: write_verdict_def Let_def exceeds_def)
  then have "evaluateToolCall p ''edit_file'' i False EnfReviewOnly \<noteq> PolicyAllow" by (simp add: evaluateToolCall_def)
  then have 1: "fst (checkExecutionPolicyGate tool i (ctx\<lparr>gc_executionPolicy := Some p\<rparr>)) \<noteq> GateAllow"
    using assms(4,5,8) m
    by (auto simp: checkExecutionPolicyGate_def getEnforcementLevel_review modeIsEnforcedAtLevel_def Let_def
        split: policy_verdict.split)
  have w: "pn_writtenPaths (ep_counters (count_result r p)) = pn_writtenPaths (ep_counters p) @ [policy_path i]"
    using assms(6,7,9-11) by (simp add: count_result_def update_counters counts_write_def)
  have "ep_mode (policy_after_turn [r] p) = DelegatedCoding"
    using w m f assms(3)
    by (simp add: policy_after_turn_def Let_def budget_exceeded_def or_default_def count_result_def update_simps
        escalateToDelegated_def)
  then have "fst (checkExecutionPolicyGate tool i (ctx\<lparr>gc_executionPolicy := Some (policy_after_turn [r] p)\<rparr>)) = GateAllow"
    using assms(4,8)
    by (simp add: checkExecutionPolicyGate_def getEnforcementLevel_review modeIsEnforcedAtLevel_def Let_def
        split: policy_verdict.split)
  with 1 show ?thesis by blast
qed

definition demo_policy :: execution_policy where
  "demo_policy = fold count_result
     [\<lparr>tr_toolName = ''edit_file'', tr_input = [(''path'', JStr ''a'')], tr_readOnly = False, tr_isError = False\<rparr>,
      \<lparr>tr_toolName = ''edit_file'', tr_input = [(''path'', JStr ''b'')], tr_readOnly = False, tr_isError = False\<rparr>]
     (classifyExecutionPolicy ''fix typo'' [] None None)"

definition demo_edit :: tool_input where
  "demo_edit = [(''path'', JStr ''c'')]"

definition demo_tool :: gate_tool where
  "demo_tool = \<lparr>gt_name = ''edit_file'', gt_aliases = [], gt_remote = False, gt_parse = Inr, gt_isReadOnly = (\<lambda>_. False),
     gt_isPlanSafe = None, gt_checkPermissions = None, gt_call = (\<lambda>_. CallReturns None), gt_defaultTimeoutMs = None,
     gt_acceptsTimeoutOverride = False\<rparr>"

definition demo_ctx :: gate_context where
  "demo_ctx = \<lparr>gc_aborted = False, gc_inPlanMode = False, gc_preHooks = [], gc_postHooks = [], gc_canUseTool = None,
     gc_requestApproval = None, gc_executionPolicy = None, gc_enforcement = Some ''review_only'', gc_ellipsis = ''...''\<rparr>"

definition demo_turn :: turn_result where
  "demo_turn = \<lparr>tr_toolName = ''edit_file'', tr_input = demo_edit, tr_readOnly = False, tr_isError = True\<rparr>"

theorem escalation_lifts_block_witness:
  "fst (checkExecutionPolicyGate demo_tool demo_edit (demo_ctx\<lparr>gc_executionPolicy := Some demo_policy\<rparr>)) \<noteq> GateAllow \<and>
   fst (checkExecutionPolicyGate demo_tool demo_edit
     (demo_ctx\<lparr>gc_executionPolicy := Some (policy_after_turn [demo_turn] demo_policy)\<rparr>)) = GateAllow"
proof (rule escalation_lifts_block)
  show "policy_ok demo_policy" unfolding demo_policy_def by (intro fold_count_ok classify_ok)
  have "rx_test TINY_EDIT_RE ''fix typo'' \<and> \<not> rx_test REVIEW_RE ''fix typo'' \<and> \<not> rx_test LANDING_RE ''fix typo''"
    "\<not> rx_test OVERRIDE_RE ''fix typo''" "\<not> hasDelegationMention [] ''fix typo''" "\<not> rx_test OPS_RE ''fix typo''"
    "\<not> rx_test INVESTIGATE_RE ''fix typo''"
    by code_simp+
  then have c: "classifyExecutionPolicy ''fix typo'' [] None None = mk_policy DirectSimple IntakeRules
      ''Small, well-targeted edit.'' (base_constraints\<lparr>pc_allowCodeWriteTools := TinyPatch, pc_maxChangedLines := Some 30,
          pc_maxWriteFiles := Some 2, pc_maxDiscovery := Some 3\<rparr>)"
    by (simp add: classifyExecutionPolicy_def base_policy_def applyHintsTightenOnly_def hint_task_def hint_human_def
        hint_stop_def hint_coord_def hint_of_def)
  show "pc_allowCodeWriteTools (ep_constraints demo_policy) = TinyPatch"
    unfolding demo_policy_def c by (simp add: count_result_def update_simps)
  have pp: "policy_path [(''path'', JStr x)] = x" for x by (simp add: policy_path_def str_input_def obj_get_def)
  have ps: "pn_writtenPaths (ep_counters demo_policy) = [''a'', ''b'']"
    unfolding demo_policy_def c
    by (simp add: count_result_def update_counters counts_write_def pp emptyCounters_def)
  then show "length (pn_writtenPaths (ep_counters demo_policy)) = 2"
    "policy_path demo_edit \<notin> set (pn_writtenPaths (ep_counters demo_policy))"
    by (simp_all add: demo_edit_def pp)
  show "policy_path demo_edit \<noteq> []" by (simp add: demo_edit_def pp)
qed (simp_all add: demo_tool_def demo_ctx_def demo_turn_def)

end
