(* ===== verification/Approval_Trust.thy ===== *)
theory Approval_Trust
  imports Command_Rules
begin

text \<open>
  The trust ledger of approvals (\<open>services/command-approval-service.ts\<close>) and the route that writes it
  (\<open>routes/approvals.ts\<close>): entries per task, the blanket trust, the grants of extra permissions with their union,
  coverage and expiry. A \<open>Map\<close> from paths to accesses is a list of entries in insertion order; the clock is an argument.
\<close>

datatype trust_kind = BashKind | McpKind

record trust_entry =
  te_kind :: trust_kind
  te_subject :: string
  te_expiry :: int
  te_pattern :: "string option"
  te_permissions :: "permission_profile option"

type_synonym trust_ledger = "string \<Rightarrow> trust_entry list option"

definition TASK_TRUST_MAX_DURATION_MS :: int where "TASK_TRUST_MAX_DURATION_MS = 72 * 60 * 60 * 1000"

definition task_entries :: "trust_ledger \<Rightarrow> string \<Rightarrow> trust_entry list" where
  "task_entries ledger task = (case ledger task of None \<Rightarrow> [] | Some es \<Rightarrow> es)"

definition isTrustedForApproval :: "int \<Rightarrow> trust_ledger \<Rightarrow> string \<Rightarrow> trust_kind \<Rightarrow> string \<Rightarrow> bool" where
  "isTrustedForApproval now ledger task kind subject =
     list_ex (\<lambda>e. te_kind e = kind \<and> (te_subject e = subject \<or> te_subject e = ''*'') \<and> now < te_expiry e)
       (task_entries ledger task)"

section \<open>Granted permissions\<close>

definition profile_files :: "permission_profile \<Rightarrow> fs_entry list" where
  "profile_files p = (case ap_file_system p of None \<Rightarrow> [] | Some es \<Rightarrow> es)"

definition profile_network :: "permission_profile \<Rightarrow> bool" where
  "profile_network p \<longleftrightarrow> ap_network p = Some (Some True)"

text \<open>\<open>pathMap.set(path, access)\<close>\<close>

fun path_put :: "fs_entry \<Rightarrow> fs_entry list \<Rightarrow> fs_entry list" where
  "path_put e [] = [e]"
| "path_put e (x # xs) = (if entry_path x = entry_path e then e # xs else x # path_put e xs)"

definition path_get :: "string \<Rightarrow> fs_entry list \<Rightarrow> access_mode option" where
  "path_get p xs = map_option entry_access (find (\<lambda>x. entry_path x = p) xs)"

definition merge_entry :: "fs_entry \<Rightarrow> fs_entry list \<Rightarrow> fs_entry list" where
  "merge_entry e m = (if path_get (entry_path e) m = Some AccessWrite then m else path_put e m)"

definition merge_entries :: "fs_entry list \<Rightarrow> fs_entry list" where
  "merge_entries es = fold merge_entry es []"

definition active_grants :: "int \<Rightarrow> trust_ledger \<Rightarrow> string \<Rightarrow> trust_kind \<Rightarrow> permission_profile list" where
  "active_grants now ledger task kind =
     List.map_filter (\<lambda>e. if te_kind e = kind \<and> now < te_expiry e then te_permissions e else None)
       (task_entries ledger task)"

definition findGrantedAdditionalPermissions ::
  "int \<Rightarrow> trust_ledger \<Rightarrow> string \<Rightarrow> trust_kind \<Rightarrow> permission_profile option" where
  "findGrantedAdditionalPermissions now ledger task kind =
    (let active = active_grants now ledger task kind;
         files = merge_entries (concat (map profile_files active))
     in if active = [] then None
        else Some \<lparr>ap_network = (if list_ex profile_network active then Some (Some True) else None),
                   ap_file_system = (if files = [] then None else Some files)\<rparr>)"

text \<open>\<open>expired\<close> and the ledger without them.\<close>

definition consumeExpired :: "int \<Rightarrow> string \<Rightarrow> trust_ledger \<Rightarrow> (fs_entry \<times> int) list \<times> trust_ledger" where
  "consumeExpired now task ledger =
    (let entries = task_entries ledger task;
         expired = concat (map (\<lambda>e. case te_permissions e of None \<Rightarrow> []
             | Some p \<Rightarrow> if te_kind e = BashKind \<and> te_expiry e \<le> now
                 then map (\<lambda>f. (f, te_expiry e)) (profile_files p) else []) entries);
         surviving = filter (\<lambda>e. now < te_expiry e) entries
     in (expired, if expired = [] then ledger
           else ledger(task := if surviving = [] then None else Some surviving)))"

definition map_of_entries :: "fs_entry list \<Rightarrow> string \<Rightarrow> access_mode option" where
  "map_of_entries es p = path_get p (fold path_put es [])"

definition requests_something :: "permission_profile \<Rightarrow> bool" where
  "requests_something p \<longleftrightarrow> profile_network p \<or> profile_files p \<noteq> []"

definition covers_profile :: "permission_profile \<Rightarrow> permission_profile \<Rightarrow> bool" where
  "covers_profile granted requested \<longleftrightarrow>
     (profile_network requested \<longrightarrow> profile_network granted) \<and>
     list_all (\<lambda>r. case map_of_entries (profile_files granted) (entry_path r) of
         None \<Rightarrow> False
       | Some a \<Rightarrow> \<not> (entry_access r = AccessWrite \<and> a = AccessRead)) (profile_files requested)"

definition findCoveringPermissionGrant ::
  "int \<Rightarrow> trust_ledger \<Rightarrow> string \<Rightarrow> permission_profile \<Rightarrow> permission_profile option" where
  "findCoveringPermissionGrant now ledger task requested =
    (if \<not> requests_something requested then None
     else case findGrantedAdditionalPermissions now ledger task BashKind of
            None \<Rightarrow> None
          | Some granted \<Rightarrow> if covers_profile granted requested then Some granted else None)"

definition findCoveringPermissionGrantExpiry :: "int \<Rightarrow> trust_ledger \<Rightarrow> string \<Rightarrow> permission_profile \<Rightarrow> int option" where
  "findCoveringPermissionGrantExpiry now ledger task requested =
    (if \<not> requests_something requested then None
     else fold (\<lambda>e best. if te_kind e = BashKind \<and> now < te_expiry e \<and>
            (case te_permissions e of None \<Rightarrow> False | Some p \<Rightarrow> covers_profile p requested)
          then (case best of None \<Rightarrow> Some (te_expiry e) | Some b \<Rightarrow> if b < te_expiry e then Some (te_expiry e) else best)
          else best) (task_entries ledger task) None)"

section \<open>Writing the ledger\<close>

definition addApprovalTrust ::
  "int \<Rightarrow> string \<Rightarrow> trust_kind \<Rightarrow> string \<Rightarrow> int option \<Rightarrow> string option \<Rightarrow> permission_profile option
     \<Rightarrow> trust_ledger \<Rightarrow> trust_ledger" where
  "addApprovalTrust now task kind subject duration pattern perms ledger =
    ledger(task := Some (task_entries ledger task @
      [\<lparr>te_kind = kind, te_subject = subject,
        te_expiry = now + (case duration of None \<Rightarrow> TASK_TRUST_MAX_DURATION_MS | Some d \<Rightarrow> max 0 d),
        te_pattern = (if pattern = Some [] then None else pattern), te_permissions = perms\<rparr>]))"

definition clearTaskApprovalTrust :: "string \<Rightarrow> trust_ledger \<Rightarrow> trust_ledger" where
  "clearTaskApprovalTrust task ledger = ledger(task := None)"

text \<open>What the route reads of the approval it has resolved.\<close>

record trust_request =
  tq_task :: string
  tq_toolName :: string
  tq_server :: "string option"
  tq_requestKind :: "string option"
  tq_permissions :: "permission_profile option"
  tq_dangerPattern :: "string option"
  tq_trustForTask :: bool
  tq_trustForMinutes :: "int option"

definition tq_kind :: "trust_request \<Rightarrow> trust_kind" where
  "tq_kind q = (if tq_toolName q = ''mcp_tool'' then McpKind else BashKind)"

definition tq_subject :: "trust_request \<Rightarrow> string" where
  "tq_subject q = (case tq_server q of Some s \<Rightarrow> if s = [] then ''*'' else s | None \<Rightarrow> ''*'')"

definition tq_duration :: "trust_request \<Rightarrow> int option" where
  "tq_duration q = (if tq_trustForTask q then None
     else Some ((case tq_trustForMinutes q of None \<Rightarrow> 0 | Some m \<Rightarrow> m) * 60000))"

definition wants_trust :: "trust_request \<Rightarrow> bool" where
  "wants_trust q \<longleftrightarrow> tq_trustForTask q \<or> (case tq_trustForMinutes q of None \<Rightarrow> False | Some m \<Rightarrow> m \<noteq> 0)"

definition truthy_pattern :: "trust_request \<Rightarrow> bool" where
  "truthy_pattern q \<longleftrightarrow> (case tq_dangerPattern q of None \<Rightarrow> False | Some s \<Rightarrow> s \<noteq> [])"

definition upgrade_trust :: "int \<Rightarrow> bool \<Rightarrow> bool \<Rightarrow> trust_request \<Rightarrow> trust_ledger \<Rightarrow> trust_ledger" where
  "upgrade_trust now landed approved q ledger =
    (if landed \<and> approved \<and> wants_trust q then
       (let add = (\<lambda>subject pattern perms. addApprovalTrust now (tq_task q) (tq_kind q) subject (tq_duration q) pattern perms) in
        if tq_requestKind q = Some ''sensitive_read'' then ledger
        else if tq_permissions q \<noteq> None \<and> truthy_pattern q
        then add ''paths:*'' None (tq_permissions q) (add ''*'' (tq_dangerPattern q) None ledger)
        else if tq_permissions q \<noteq> None then add ''paths:*'' None (tq_permissions q) ledger
        else if truthy_pattern q then add (tq_subject q) (tq_dangerPattern q) None ledger
        else add (tq_subject q) None None ledger)
     else ledger)"

section \<open>The union of grants\<close>

lemma path_get_Nil [simp]: "path_get p [] = None"
  by (simp add: path_get_def)

lemma path_get_Cons: "path_get p (x # xs) = (if entry_path x = p then Some (entry_access x) else path_get p xs)"
  by (simp add: path_get_def)

lemma path_get_put: "path_get p (path_put e m) = (if p = entry_path e then Some (entry_access e) else path_get p m)"
  by (induction m) (auto simp: path_get_def)

lemma path_get_merge: "path_get p (merge_entry e m) =
    (if p = entry_path e \<and> path_get p m \<noteq> Some AccessWrite then Some (entry_access e) else path_get p m)"
  by (cases "p = entry_path e") (auto simp: merge_entry_def path_get_put)

lemma path_get_fold_merge: "path_get p (fold merge_entry es m) =
    (if path_get p m = Some AccessWrite \<or> \<lparr>entry_path = p, entry_access = AccessWrite\<rparr> \<in> set es then Some AccessWrite
     else if path_get p m = Some AccessRead \<or> \<lparr>entry_path = p, entry_access = AccessRead\<rparr> \<in> set es then Some AccessRead
     else None)"
proof (induction es arbitrary: m)
  case Nil
  show ?case by (cases "path_get p m") (auto intro: access_mode.exhaust)
next
  case (Cons e es)
  show ?case
    by (cases e; cases "entry_access e") (auto simp: Cons.IH path_get_merge)
qed

lemma path_get_merge_entries: "path_get p (merge_entries es) =
    (if \<lparr>entry_path = p, entry_access = AccessWrite\<rparr> \<in> set es then Some AccessWrite
     else if \<lparr>entry_path = p, entry_access = AccessRead\<rparr> \<in> set es then Some AccessRead else None)"
  by (simp add: merge_entries_def path_get_fold_merge)

lemma path_get_None: "path_get p m = None \<longleftrightarrow> p \<notin> entry_path ` set m"
  by (induction m) (auto simp: path_get_Cons)

lemma path_put_paths: "entry_path ` set (path_put e m) = insert (entry_path e) (entry_path ` set m)"
  by (induction m) auto

lemma path_put_distinct: "distinct (map entry_path m) \<Longrightarrow> distinct (map entry_path (path_put e m))"
proof (induction m)
  case (Cons x m)
  have "set (map entry_path (path_put e m)) = insert (entry_path e) (set (map entry_path m))"
    using path_put_paths by simp
  then show ?case using Cons by auto
qed simp

lemma merge_distinct: "distinct (map entry_path (merge_entries es))"
proof -
  have "distinct (map entry_path m) \<Longrightarrow> distinct (map entry_path (fold merge_entry es m))" for m
    by (induction es arbitrary: m) (auto simp: merge_entry_def path_put_distinct)
  then show ?thesis by (simp add: merge_entries_def)
qed

lemma map_of_entries_distinct:
  assumes "distinct (map entry_path es)"
  shows "map_of_entries es p = path_get p es"
proof -
  have "distinct (map entry_path es) \<Longrightarrow> path_get p (fold path_put es m) =
      (case path_get p es of Some a \<Rightarrow> Some a | None \<Rightarrow> path_get p m)" for m
  proof (induction es arbitrary: m)
    case (Cons x es)
    have "path_get p es = None" if "entry_path x = p"
      using Cons.prems that by (auto simp: path_get_None)
    then show ?case using Cons by (auto simp: path_get_Cons path_get_put split: option.splits)
  qed simp
  with assms show ?thesis by (simp add: map_of_entries_def split: option.split)
qed

lemma granted_files:
  assumes "findGrantedAdditionalPermissions now ledger task kind = Some g"
  shows "profile_files g = merge_entries (concat (map profile_files (active_grants now ledger task kind)))"
    "profile_network g \<longleftrightarrow> list_ex profile_network (active_grants now ledger task kind)"
  using assms by (auto simp: findGrantedAdditionalPermissions_def Let_def profile_files_def profile_network_def
      split: if_splits)

lemma entry_cases: "\<lparr>entry_path = p, entry_access = a\<rparr> \<in> set es \<longleftrightarrow> (\<exists>f\<in>set es. entry_path f = p \<and> entry_access f = a)"
proof
  assume "\<exists>f\<in>set es. entry_path f = p \<and> entry_access f = a"
  then obtain f where f: "f \<in> set es" "entry_path f = p" "entry_access f = a" by blast
  have "f = \<lparr>entry_path = p, entry_access = a\<rparr>" by (rule fs_entry.equality) (simp_all add: f)
  with f(1) show "\<lparr>entry_path = p, entry_access = a\<rparr> \<in> set es" by simp
qed force

definition grants_entry :: "permission_profile list \<Rightarrow> fs_entry \<Rightarrow> bool" where
  "grants_entry gs r \<longleftrightarrow> (\<exists>f\<in>set (concat (map profile_files gs)). entry_path f = entry_path r \<and>
     (entry_access r = AccessWrite \<longrightarrow> entry_access f = AccessWrite))"

lemma covers_entry: "(case path_get (entry_path r) (merge_entries (concat (map profile_files gs))) of
      None \<Rightarrow> False | Some a \<Rightarrow> \<not> (entry_access r = AccessWrite \<and> a = AccessRead)) \<longleftrightarrow> grants_entry gs r"
proof -
  let ?in = "\<lambda>a. \<exists>f\<in>set (concat (map profile_files gs)). entry_path f = entry_path r \<and> entry_access f = a"
  have a: "entry_access f = AccessWrite \<or> entry_access f = AccessRead" for f :: fs_entry
    by (cases "entry_access f") simp_all
  then have "grants_entry gs r \<longleftrightarrow> ?in AccessWrite \<or> entry_access r = AccessRead \<and> ?in AccessRead"
  proof (cases "entry_access r")
    case AccessRead
    then have "grants_entry gs r \<longleftrightarrow> (\<exists>f\<in>set (concat (map profile_files gs)). entry_path f = entry_path r)"
      by (simp add: grants_entry_def)
    also have "\<dots> \<longleftrightarrow> (\<exists>f\<in>set (concat (map profile_files gs)). entry_path f = entry_path r \<and>
        (entry_access f = AccessWrite \<or> entry_access f = AccessRead))" by (simp only: a simp_thms)
    finally show ?thesis using AccessRead by (simp only: simp_thms) blast
  next
    case AccessWrite
    then show ?thesis unfolding grants_entry_def by simp
  qed
  then show ?thesis using a [of r] by (auto simp: path_get_merge_entries entry_cases)
qed

text \<open>
  A request for extra permissions skips its approval exactly when it asks for something and the active grants of the
  task cover all of it, each path by a grant of the same path for the same or the stronger access.
\<close>

theorem covering_exact:
  "findCoveringPermissionGrant now ledger task requested \<noteq> None \<longleftrightarrow>
    requests_something requested \<and> active_grants now ledger task BashKind \<noteq> [] \<and>
    (profile_network requested \<longrightarrow> (\<exists>g\<in>set (active_grants now ledger task BashKind). profile_network g)) \<and>
    (\<forall>r\<in>set (profile_files requested). grants_entry (active_grants now ledger task BashKind) r)"
proof (cases "findGrantedAdditionalPermissions now ledger task BashKind")
  case None
  then show ?thesis
    by (auto simp: findCoveringPermissionGrant_def findGrantedAdditionalPermissions_def Let_def split: if_splits)
next
  case (Some g)
  have ne: "active_grants now ledger task BashKind \<noteq> []"
    using Some by (auto simp: findGrantedAdditionalPermissions_def)
  have "map_of_entries (profile_files g) p = path_get p (merge_entries
      (concat (map profile_files (active_grants now ledger task BashKind))))" for p
    unfolding granted_files(1) [OF Some] by (rule map_of_entries_distinct [OF merge_distinct])
  then have "covers_profile g requested \<longleftrightarrow> (profile_network requested \<longrightarrow> profile_network g) \<and>
      (\<forall>r\<in>set (profile_files requested). grants_entry (active_grants now ledger task BashKind) r)"
    by (simp add: covers_profile_def list_all_iff covers_entry)
  then show ?thesis using Some ne granted_files(2) [OF Some]
    by (auto simp: findCoveringPermissionGrant_def list_ex_iff)
qed

section \<open>Blanket trust\<close>

lemma trusted_add: "isTrustedForApproval now' (addApprovalTrust now task kind subject d pat ps ledger) t k s \<longleftrightarrow>
    isTrustedForApproval now' ledger t k s \<or>
    t = task \<and> k = kind \<and> (subject = s \<or> subject = ''*'') \<and>
      now' < now + (case d of None \<Rightarrow> TASK_TRUST_MAX_DURATION_MS | Some n \<Rightarrow> max 0 n)"
  by (auto simp: isTrustedForApproval_def addApprovalTrust_def task_entries_def)

text \<open>
  Resolving an approval gives blanket trust exactly to the winner of an approved one that asked for it, never for the
  reading of sensitive paths, and never for extra permissions alone, whose entry covers no other command.
\<close>

theorem blanket_trust_exact:
  assumes "s \<noteq> ''paths:*''"
  shows "isTrustedForApproval now' (upgrade_trust now landed approved q ledger) t k s \<longleftrightarrow>
    isTrustedForApproval now' ledger t k s \<or>
    landed \<and> approved \<and> wants_trust q \<and> tq_requestKind q \<noteq> Some ''sensitive_read'' \<and> t = tq_task q \<and> k = tq_kind q \<and>
    now' < now + (case tq_duration q of None \<Rightarrow> TASK_TRUST_MAX_DURATION_MS | Some n \<Rightarrow> max 0 n) \<and>
    (if tq_permissions q = None then tq_subject q = s \<or> tq_subject q = ''*'' else truthy_pattern q)"
  using assms by (auto simp: upgrade_trust_def Let_def trusted_add)

text \<open>Trust ends: no entry is trusted once its time is over, and a cleared task trusts nothing.\<close>

lemma trust_expires: "isTrustedForApproval now ledger t k s \<Longrightarrow> \<exists>e\<in>set (task_entries ledger t). now < te_expiry e"
  by (auto simp: isTrustedForApproval_def list_ex_iff)

lemma trust_cleared: "\<not> isTrustedForApproval now (clearTaskApprovalTrust t ledger) t k s"
  by (simp add: isTrustedForApproval_def clearTaskApprovalTrust_def task_entries_def)

text \<open>What is reported as expired is reported once.\<close>

lemma expired_once: "fst (consumeExpired now task (snd (consumeExpired now task ledger))) = []"
  by (auto simp: consumeExpired_def Let_def task_entries_def split: option.splits)

section \<open>A ledger\<close>

definition demo_grant :: permission_profile where
  "demo_grant = \<lparr>ap_network = None, ap_file_system = Some [\<lparr>entry_path = ''/c'', entry_access = AccessWrite\<rparr>]\<rparr>"

definition demo_wish :: permission_profile where
  "demo_wish = \<lparr>ap_network = None, ap_file_system = Some [\<lparr>entry_path = ''/c'', entry_access = AccessRead\<rparr>]\<rparr>"

definition demo_ledger :: trust_ledger where
  "demo_ledger = addApprovalTrust 0 ''t'' BashKind ''paths:*'' None None (Some demo_grant) (\<lambda>_. None)"

lemma demo_active: "active_grants 5 demo_ledger ''t'' BashKind = [demo_grant]"
  by (simp add: active_grants_def demo_ledger_def addApprovalTrust_def task_entries_def TASK_TRUST_MAX_DURATION_MS_def
      List.map_filter_def)

theorem covering_exact_witness: "findCoveringPermissionGrant 5 demo_ledger ''t'' demo_wish \<noteq> None"
  using covering_exact [of 5 demo_ledger "''t''" demo_wish]
  by (simp add: demo_active demo_wish_def demo_grant_def requests_something_def profile_network_def profile_files_def
      grants_entry_def)

definition demo_upgrade :: trust_request where
  "demo_upgrade = \<lparr>tq_task = ''t'', tq_toolName = ''bash'', tq_server = None, tq_requestKind = None,
     tq_permissions = Some demo_grant, tq_dangerPattern = None, tq_trustForTask = True, tq_trustForMinutes = None\<rparr>"

theorem blanket_trust_exact_witness:
  "\<not> isTrustedForApproval 5 (upgrade_trust 0 True True demo_upgrade (\<lambda>_. None)) ''t'' BashKind ''*''"
  using blanket_trust_exact [of "''*''" 5 0 True True demo_upgrade "\<lambda>_. None" "''t''" BashKind]
  by (simp add: demo_upgrade_def truthy_pattern_def isTrustedForApproval_def task_entries_def)

end
