(* ===== verification/Bash_Gate.thy ===== *)
theory Bash_Gate
  imports Risk_Classifier Approval_Store Approval_Trust Extra_Permissions
begin

text \<open>
  The gate of the leader's shell tool (\<open>autonomous-loop/manager-tools-adapter.ts\<close>, the bash tool) with the danger rules,
  the exempted clean-ups and the redaction of previews (\<open>services/command-approval-service.ts\<close>) and the sanitizer of
  justifications (\<open>services/safe-apply/justification-sanitizer.ts\<close>, on the modelled range). The decision on an asked
  approval is an argument.
\<close>

section \<open>Dangerous commands\<close>

definition safe_names :: rx where
  "safe_names = alts (map lit [''__pycache__'', ''.pytest_cache'', ''.ruff_cache'', ''.mypy_cache'', ''.tox'', ''.eggs'',
     ''.next'', ''.nuxt'', ''.turbo'', ''.cache''])"

definition benign_tail :: rx where
  "benign_tail = seqs [
     opt (seqs [plus ws, lit ''2>'', Star ws, lit ''/dev/null'']),
     opt (seqs [Star ws, Alt (lit '';'') (lit ''&&''), Star ws,
       alts [seqs [lit ''echo'', plus ws, plus non_ws], lit ''true'', lit '':'']])]"

definition SAFE_CLEANUP_REGEXES :: "rx list" where
  "SAFE_CLEANUP_REGEXES =
    [seqs [Bol, lit ''rm'', plus ws, lit ''-r'', opt (one_of ''fF''), plus ws, Star non_ws, opt (lit ''/''), safe_names,
       opt (lit ''/''), benign_tail, Star ws, Eol],
     seqs [Bol, lit ''find'', plus ws, plus non_ws, plus ws, opt (seqs [lit ''-maxdepth'', plus ws, plus digit, plus ws]),
       lit ''-type'', plus ws, lit ''d'', plus ws, lit ''-name'', plus ws, opt (one_of [CHR 0x27, CHR 0x22]), safe_names,
       opt (one_of [CHR 0x27, CHR 0x22]), plus ws, lit ''-exec'', plus ws, lit ''rm'', plus ws, lit ''-r'',
       opt (one_of ''fF''), plus ws, lit ''{}'', plus ws, Alt (lit ''+'') (lit [CHR 0x5C, CHR '';'']), benign_tail,
       Star ws, Eol]]"

definition isSafeCleanupCommand :: "string \<Rightarrow> bool" where
  "isSafeCleanupCommand command = list_ex (\<lambda>re. rx_test re (js_trim command)) SAFE_CLEANUP_REGEXES"

definition letter :: rx where "letter = Cls (\<lambda>c. is_lower c \<or> is_upper c)"

definition DANGEROUS_RULES :: "(rx \<times> string) list" where
  "DANGEROUS_RULES =
    [(seqs [WordB, lit ''rm'', plus ws, alts [seqs [lit ''-'', Star letter, lit ''f''],
        seqs [lit ''-'', Star letter, lit ''r''], lit ''--force'', lit ''--recursive''], WordB],
        ''Recursive/forced file deletion''),
     (seqs [WordB, lit_ci ''rm'', plus ws, lit_ci ''-rf'', WordB], ''Recursive/forced file deletion''),
     (seqs [WordB, lit_ci ''rm'', plus ws, plus non_ws, plus ws, lit_ci ''-rf'', WordB], ''Recursive/forced file deletion''),
     (seqs [WordB, lit ''git'', plus ws, lit ''push'', plus ws, Star dot, lit ''--force'', WordB],
        ''Force push can rewrite remote history''),
     (seqs [WordB, lit ''git'', plus ws, lit ''push'', plus ws, lit ''-f'', WordB], ''Force push can rewrite remote history''),
     (seqs [WordB, lit ''git'', plus ws, lit ''push'', plus ws, plus non_ws, plus ws, plus non_ws, plus ws, lit ''-f'', WordB],
        ''Force push can rewrite remote history''),
     (seqs [WordB, lit ''git'', plus ws, lit ''reset'', plus ws, lit ''--hard'', WordB], ''Hard reset discards local changes''),
     (seqs [WordB, lit ''git'', plus ws, lit ''clean'', plus ws, lit ''-'', Star letter, lit ''f''],
        ''Git clean force can permanently remove files''),
     (seqs [WordB, lit ''git'', plus ws, lit ''checkout'', plus ws, lit ''--'', Star ws, lit ''.''],
        ''Checkout with path reset can discard local changes''),
     (seqs [WordB, lit_ci ''DROP'', plus ws, alts [lit_ci ''TABLE'', lit_ci ''DATABASE'', lit_ci ''INDEX''], WordB],
        ''Destructive SQL operation detected''),
     (seqs [WordB, lit_ci ''TRUNCATE'', plus ws, lit_ci ''TABLE'', WordB], ''Destructive SQL truncation detected''),
     (seqs [WordB, lit_ci ''DELETE'', plus ws, lit_ci ''FROM'', WordB, Star dot, WordB, lit_ci ''WHERE'', WordB, Star dot,
        lit ''1'', Star ws, lit ''='', Star ws, lit ''1''], ''Potential mass SQL delete detected''),
     (seqs [WordB, lit ''chmod'', plus ws, lit ''777'', WordB], ''Overly permissive chmod detected''),
     (seqs [WordB, lit ''chmod'', plus ws, lit ''-R'', plus ws, lit ''777'', WordB],
        ''Recursive overly permissive chmod detected''),
     (seqs [WordB, lit ''chmod'', plus ws, opt (lit ''0''), lit ''777'', WordB], ''Overly permissive chmod detected''),
     (seqs [WordB, lit ''curl'', plus ws, Star dot, lit ''|'', Star ws, lit ''sh'', WordB],
        ''Remote script execution via curl pipe detected''),
     (seqs [WordB, lit ''curl'', plus ws, Star dot, lit ''|'', Star ws, lit ''bash'', WordB],
        ''Remote script execution via curl pipe detected''),
     (seqs [WordB, lit ''wget'', plus ws, Star dot, lit ''|'', Star ws, lit ''sh'', WordB],
        ''Remote script execution via wget pipe detected''),
     (seqs [WordB, lit ''sudo'', plus ws, lit ''rm'', WordB], ''Privileged file removal detected''),
     (seqs [WordB, lit ''mkfs'', WordB], ''Filesystem formatting command detected''),
     (seqs [WordB, lit ''dd'', plus ws, lit ''if=''], ''Raw disk write command detected''),
     (seqs [WordB, lit ''>'', Star ws, lit ''/dev/sd'', lower], ''Direct disk device write redirection detected''),
     (seqs [WordB, lit ''npm'', plus ws, lit ''publish'', WordB], ''Package publish command detected''),
     (seqs [WordB, lit ''docker'', plus ws, lit ''rm'', plus ws, lit ''-f''], ''Forceful container deletion detected''),
     (seqs [WordB, lit ''docker'', plus ws, lit ''rm'', plus ws, plus non_ws, plus ws, lit ''-f'', WordB],
        ''Forceful container deletion detected''),
     (seqs [WordB, lit ''docker'', plus ws, lit ''system'', plus ws, lit ''prune''],
        ''Docker system prune can remove resources''),
     (seqs [WordB, lit ''kill'', plus ws, lit ''-9'', WordB], ''Force kill command detected''),
     (seqs [WordB, lit ''killall'', WordB], ''Killall command detected'')]"

definition isDangerousCommand :: "string \<Rightarrow> bool" where
  "isDangerousCommand command =
    (if isSafeCleanupCommand command then False else list_ex (\<lambda>(re, reason). rx_test re command) DANGEROUS_RULES)"

definition getDangerReason :: "string \<Rightarrow> string option" where
  "getDangerReason command =
    (if isSafeCleanupCommand command then None
     else map_option snd (find (\<lambda>(re, reason). rx_test re command) DANGEROUS_RULES))"

section \<open>Redaction\<close>

definition secret_field :: "rx \<Rightarrow> rx" where
  "secret_field name = seqs [name, one_of ''=:'', Star ws, plus non_ws]"

definition REDACTIONS :: "(rx \<times> string) list" where
  "REDACTIONS =
    [(seqs [lit_ci ''Bearer'', plus ws, plus non_ws], ''Bearer [REDACTED]''),
     (seqs [lit_ci ''Authorization:'', Star ws, plus non_ws], ''Authorization: [REDACTED]''),
     (secret_field (lit_ci ''token''), ''token=[REDACTED]''),
     (secret_field (lit_ci ''password''), ''password=[REDACTED]''),
     (secret_field (lit_ci ''secret''), ''secret=[REDACTED]''),
     (secret_field (seqs [lit_ci ''api'', opt (one_of ''_-''), lit_ci ''key'']), ''api_key=[REDACTED]''),
     (seqs [lit ''sk-'', rep_exact 20 (Alt letter digit), Star (Alt letter digit)], ''sk-[REDACTED]''),
     (seqs [lit ''ark-'', rep_exact 20 (alts [letter, digit, lit ''-'']), Star (alts [letter, digit, lit ''-''])],
        ''ark-[REDACTED]'')]"

definition sanitizeCommandPreview :: "string \<Rightarrow> string" where
  "sanitizeCommandPreview command = fold (\<lambda>(re, w) s. rx_replace re w s) REDACTIONS command"

definition CONTROL_CHARS :: rx where
  "CONTROL_CHARS = Cls (\<lambda>c. let n = char_nat c in n \<le> 9 \<or> (11 \<le> n \<and> n \<le> 31) \<or> (127 \<le> n \<and> n \<le> 159))"

definition sanitizeJustification :: "string option \<Rightarrow> string" where
  "sanitizeJustification raw = (case raw of None \<Rightarrow> []
     | Some s \<Rightarrow> js_trim (rx_replace (seqs [rep_exact 4 (one_of [CHR '' '', CHR 0x09]), Star (one_of [CHR '' '', CHR 0x09])]) ''   ''
         (rx_replace (seqs [rep_exact 3 (lit [CHR 0x0A]), Star (lit [CHR 0x0A])]) [CHR 0x0A, CHR 0x0A]
           (rx_replace CONTROL_CHARS [] (take 500 s)))))"

section \<open>The gate\<close>

record bash_env =
  bv_now :: int
  bv_v4Enabled :: bool
  bv_planApproved :: bool
  bv_taskId :: string
  bv_projectPath :: "string option"
  bv_parse :: "json \<Rightarrow> string + parsed_request"
  bv_permissions :: "json option \<Rightarrow> permissions_mode \<Rightarrow> permissions_input"
  bv_answer :: approval_state
  bv_rules :: rule_table
  bv_ledger :: trust_ledger

type_synonym bash_args = "(string \<times> json) list"

definition arg_str :: "bash_args \<Rightarrow> string \<Rightarrow> string option" where
  "arg_str args k = Option.bind (obj_get args k) json_as_str"

definition sandbox_arg :: "bash_args \<Rightarrow> string" where
  "sandbox_arg args = (case arg_str args ''sandbox_permissions'' of None \<Rightarrow> ''use_default'' | Some s \<Rightarrow> s)"

definition prefix_arg :: "bash_args \<Rightarrow> string list option" where
  "prefix_arg args = (case obj_get args ''prefix_rule'' of
     Some (JArr xs) \<Rightarrow> Some (List.map_filter json_as_str xs) | _ \<Rightarrow> None)"

datatype bash_refusal = RefCritical | RefPermissions permission_error | RefNoJustification | RefPrefix prefix_error
  | RefEscalation approval_state | RefDanger approval_state

datatype bash_ask = AskEscalation string "string list option" "permission_profile option" | AskSensitive
  | AskDanger string

datatype bash_act = BaThrow | BaRefuse bash_refusal | BaAsk bash_ask | BaRun "fs_entry list" bool bool

definition plain_access :: "path_access \<Rightarrow> access_mode" where
  "plain_access a = (case a of Read \<Rightarrow> AccessRead | Write \<Rightarrow> AccessWrite)"

definition plain_profile :: "extra_profile \<Rightarrow> permission_profile" where
  "plain_profile p = \<lparr>ap_network = xp_network p,
     ap_file_system = map_option (map (\<lambda>e. fs_entry.make (fe_path e) (plain_access (fe_access e)))) (xp_file_system p)\<rparr>"

text \<open>The validated extra permissions, where the flag and the call ask for them.\<close>

definition v4_validation :: "bash_env \<Rightarrow> bash_args \<Rightarrow> permission_error + permissions_result option" where
  "v4_validation env args =
    (let mode = sandbox_arg args; raw = obj_get args ''additional_permissions'' in
     if bv_v4Enabled env \<and> mode \<in> {''with_additional_permissions'', ''use_default'', ''default''} \<and>
        raw \<noteq> None \<and> raw \<noteq> Some JNull
     then (case validateAndNormalize (bv_parse env) (bv_permissions env raw
             (if mode = ''with_additional_permissions'' then WithAdditionalPermissions else UseDefault)) of
             Inl e \<Rightarrow> Inl e | Inr r \<Rightarrow> Inr (Some r))
     else Inr None)"

definition v4_profile :: "permissions_result option \<Rightarrow> permission_profile option" where
  "v4_profile v = (case v of None \<Rightarrow> None
     | Some r \<Rightarrow> if xp_file_system (pr_profile r) = None \<and> xp_network (pr_profile r) = None then None
                else Some (plain_profile (pr_profile r)))"

definition v4_requested :: "bash_env \<Rightarrow> bash_args \<Rightarrow> permissions_result option \<Rightarrow> bool" where
  "v4_requested env args v \<longleftrightarrow> bv_v4Enabled env \<and> sandbox_arg args = ''with_additional_permissions'' \<and> v4_profile v \<noteq> None"

definition escalation_requested :: "bash_args \<Rightarrow> bool" where
  "escalation_requested args \<longleftrightarrow> sandbox_arg args = ''require_escalated''"

definition sensitive_read :: "bash_args \<Rightarrow> bool" where
  "sensitive_read args \<longleftrightarrow> riskClass (scoreToolCall ''bash'' args) = HIGH \<and>
     score_reason (scoreToolCall ''bash'' args) = ''sensitive internal path read requires approval''"

text \<open>The binds and the network a run gets: the call's own, the ledger's and the rule's.\<close>

definition run_act ::
  "bash_env \<Rightarrow> bash_args \<Rightarrow> permissions_result option \<Rightarrow> matched_rule option \<Rightarrow> bash_act list \<times> trust_ledger" where
  "run_act env args v hit =
    (if \<not> bv_v4Enabled env then ([BaRun [] False (sensitive_read args)], bv_ledger env)
     else
       (let ledger = snd (consumeExpired (bv_now env) (bv_taskId env) (bv_ledger env));
            granted = findGrantedAdditionalPermissions (bv_now env) ledger (bv_taskId env) BashKind;
            inline = (if v4_requested env args v then v4_profile v else None);
            rule = Option.bind hit m_permissions;
            files = (\<lambda>p. case p of None \<Rightarrow> [] | Some q \<Rightarrow> profile_files q);
            net = (\<lambda>p. case p of None \<Rightarrow> False | Some q \<Rightarrow> profile_network q)
        in ([BaRun (merge_entries (files inline @ files granted @ files rule))
              (net inline \<or> net granted \<or> net rule) (sensitive_read args)], ledger)))"

text \<open>The branch of a requested escalation, of requested extra permissions and of a sensitive read.\<close>

definition high_branch ::
  "bash_env \<Rightarrow> bash_args \<Rightarrow> permissions_result option \<Rightarrow> bash_act list \<times> rule_table \<times> trust_ledger" where
  "high_branch env args v =
    (let sens = sensitive_read args;
         justification = (if sens then ''Read sensitive Magister-internal path referenced by this bash command.''
           else sanitizeJustification (arg_str args ''justification''))
     in if justification = [] then ([BaRefuse RefNoJustification], bv_rules env, bv_ledger env)
        else case (if sens then None else Option.bind (prefix_arg args) validatePrefixRule) of
          Some e \<Rightarrow> ([BaRefuse (RefPrefix e)], bv_rules env, bv_ledger env)
        | None \<Rightarrow>
           (let (hit, rules) = (if sens then (None, bv_rules env)
                  else matchPersistentRule (bv_now env) ''bash'' args (bv_projectPath env) (bv_rules env));
                trusted = (if sens then False
                  else if v4_requested env args v
                  then findCoveringPermissionGrant (bv_now env) (bv_ledger env) (bv_taskId env)
                         (the (v4_profile v)) \<noteq> None
                  else isTrustedForApproval (bv_now env) (bv_ledger env) (bv_taskId env) BashKind ''*'');
                ask = (if sens then AskSensitive
                       else AskEscalation justification (prefix_arg args) (v4_profile v));
                (acts, ledger) = run_act env args v hit
            in if hit \<noteq> None \<or> trusted then (acts, rules, ledger)
               else if bv_answer env = Approved then (BaAsk ask # acts, rules, ledger)
               else ([BaAsk ask, BaRefuse (RefEscalation (bv_answer env))], rules, bv_ledger env)))"

definition danger_branch ::
  "bash_env \<Rightarrow> bash_args \<Rightarrow> permissions_result option \<Rightarrow> bash_act list \<times> rule_table \<times> trust_ledger" where
  "danger_branch env args v =
    (let command = arg_command args;
         (acts, ledger) = run_act env args v None in
     if isDangerousCommand command \<and> \<not> bv_planApproved env \<and>
        \<not> isTrustedForApproval (bv_now env) (bv_ledger env) (bv_taskId env) BashKind ''*''
     then (let ask = BaAsk (AskDanger (case getDangerReason command of
                 None \<Rightarrow> ''Potentially dangerous operation'' | Some r \<Rightarrow> r))
           in if bv_answer env = Approved then (ask # acts, bv_rules env, ledger)
              else ([ask, BaRefuse (RefDanger (bv_answer env))], bv_rules env, bv_ledger env))
     else (acts, bv_rules env, ledger))"

definition bash_gate :: "bash_env \<Rightarrow> bash_args \<Rightarrow> bash_act list \<times> rule_table \<times> trust_ledger" where
  "bash_gate env args =
    (if riskClass (scoreToolCall ''bash'' args) = CRITICAL
     then ([BaRefuse RefCritical], bv_rules env, bv_ledger env)
     else case v4_validation env args of
       Inl e \<Rightarrow> ([if is_validation_error e then BaRefuse (RefPermissions e) else BaThrow], bv_rules env, bv_ledger env)
     | Inr v \<Rightarrow>
        if riskClass (scoreToolCall ''bash'' args) = HIGH \<and>
           (escalation_requested args \<or> v4_requested env args v \<or> sensitive_read args)
        then high_branch env args v
        else danger_branch env args v)"

section \<open>The tool that asks for permissions\<close>

definition sanitizeToolArgs :: "bash_args \<Rightarrow> bash_args" where
  "sanitizeToolArgs args = (case obj_get args ''command'' of
     Some (JStr c) \<Rightarrow> obj_set ''command'' (JStr (sanitizeCommandPreview c)) args | _ \<Rightarrow> args)"

text \<open>The generic question of a tool: \<open>None\<close> leaves the answer to the wait on the new row.\<close>

definition requestApprovalForTool ::
  "int \<Rightarrow> string \<Rightarrow> string \<Rightarrow> trust_kind \<Rightarrow> string option \<Rightarrow> bash_args \<Rightarrow> string \<Rightarrow> trust_ledger \<Rightarrow> approval_store
     \<Rightarrow> approval_state option \<times> approval_store" where
  "requestApprovalForTool now i task kind subject metadata summary ledger s =
    (if isTrustedForApproval now ledger task kind (case subject of None \<Rightarrow> ''*'' | Some k \<Rightarrow> k) then (Some Approved, s)
     else let tool = (case kind of BashKind \<Rightarrow> ''bash'' | McpKind \<Rightarrow> ''mcp_tool'')
          in (None, createApproval now i task tool
                [(''toolName'', JStr tool), (''toolArgs'', JObj (sanitizeToolArgs metadata)),
                 (''summary'', JStr (sanitizeCommandPreview summary))] s))"

datatype permission_reply = ReplyGated | ReplyInvalid permission_error | ReplyThrow | ReplyNoReason
  | ReplyNotApproved approval_state | ReplyGranted permission_profile bool

text \<open>
  \<open>ledger\<close> and \<open>now\<close> are read after the answer; the flag of the reply is its scope, the task or only the turn.
\<close>

definition request_permissions :: "bash_env \<Rightarrow> bash_args \<Rightarrow> int \<Rightarrow> trust_ledger \<Rightarrow> permission_reply" where
  "request_permissions env args now ledger =
    (if \<not> bv_v4Enabled env then ReplyGated
     else case validateAndNormalize (bv_parse env) (bv_permissions env (obj_get args ''permissions'') WithAdditionalPermissions) of
       Inl e \<Rightarrow> if is_validation_error e then ReplyInvalid e else ReplyThrow
     | Inr r \<Rightarrow>
        if sanitizeJustification (arg_str args ''reason'') = [] then ReplyNoReason
        else if bv_answer env \<noteq> Approved then ReplyNotApproved (bv_answer env)
        else ReplyGranted (plain_profile (pr_profile r))
          (case findCoveringPermissionGrantExpiry now ledger (bv_taskId env) (plain_profile (pr_profile r)) of
             None \<Rightarrow> False | Some expiry \<Rightarrow> now + 60 * 60 * 1000 < expiry))"

section \<open>What runs\<close>

definition runs :: "bash_act list \<Rightarrow> bool" where
  "runs acts \<longleftrightarrow> (\<exists>b n i. BaRun b n i \<in> set acts)"

definition asks :: "bash_act list \<Rightarrow> bool" where
  "asks acts \<longleftrightarrow> (\<exists>k. BaAsk k \<in> set acts)"

lemma runs_append [simp]: "runs (a # as) \<longleftrightarrow> (\<exists>b n i. a = BaRun b n i) \<or> runs as" "\<not> runs []"
  by (auto simp: runs_def)

lemma asks_append [simp]: "asks (a # as) \<longleftrightarrow> (\<exists>k. a = BaAsk k) \<or> asks as" "\<not> asks []"
  by (auto simp: asks_def)

lemma run_act_runs: "runs (fst (run_act env args v hit))" "\<not> asks (fst (run_act env args v hit))"
  using exI [of Not False] by (simp_all add: run_act_def Let_def)

text \<open>The ways past the question: a persistent rule, a coverage by grants, or blanket trust of the task.\<close>

definition passes_high :: "bash_env \<Rightarrow> bash_args \<Rightarrow> permissions_result option \<Rightarrow> bool" where
  "passes_high env args v \<longleftrightarrow> \<not> sensitive_read args \<and>
     (fst (matchPersistentRule (bv_now env) ''bash'' args (bv_projectPath env) (bv_rules env)) \<noteq> None \<or>
      (if v4_requested env args v
       then findCoveringPermissionGrant (bv_now env) (bv_ledger env) (bv_taskId env) (the (v4_profile v)) \<noteq> None
       else isTrustedForApproval (bv_now env) (bv_ledger env) (bv_taskId env) BashKind ''*''))"

lemma high_branch_runs:
  assumes "runs (fst (high_branch env args v))"
  shows "asks (fst (high_branch env args v)) \<and> bv_answer env = Approved \<or> passes_high env args v"
proof (cases "sensitive_read args")
  case True
  then show ?thesis using assms run_act_runs [of env args v None]
    by (cases "run_act env args v None") (simp add: high_branch_def Let_def split: if_splits option.splits)
next
  case False
  obtain hit rules where m: "matchPersistentRule (bv_now env) ''bash'' args (bv_projectPath env) (bv_rules env) = (hit, rules)"
    by fastforce
  show ?thesis using assms False run_act_runs [of env args v hit]
    by (cases "run_act env args v hit") (auto simp: high_branch_def passes_high_def m Let_def split: if_splits option.splits)
qed

lemma danger_branch_runs:
  assumes "runs (fst (danger_branch env args v))"
  shows "asks (fst (danger_branch env args v)) \<and> bv_answer env = Approved \<or> \<not> isDangerousCommand (arg_command args) \<or>
    bv_planApproved env \<or> isTrustedForApproval (bv_now env) (bv_ledger env) (bv_taskId env) BashKind ''*''"
  using assms by (cases "run_act env args v None") (auto simp: danger_branch_def Let_def split: if_splits)

lemma ask_before_run:
  "asks (fst (danger_branch env args v)) \<Longrightarrow> runs (fst (danger_branch env args v)) \<Longrightarrow>
    \<exists>k rest. fst (danger_branch env args v) = BaAsk k # rest \<and> \<not> asks rest"
  using run_act_runs [of env args v None]
  by (cases "run_act env args v None") (auto simp: danger_branch_def Let_def split: if_splits)

definition goes_high :: "bash_env \<Rightarrow> bash_args \<Rightarrow> permissions_result option \<Rightarrow> bool" where
  "goes_high env args v \<longleftrightarrow> riskClass (scoreToolCall ''bash'' args) = HIGH \<and>
     (escalation_requested args \<or> v4_requested env args v \<or> sensitive_read args)"

text \<open>Passing without a question.\<close>

definition standing_pass :: "bash_env \<Rightarrow> bash_args \<Rightarrow> permissions_result option \<Rightarrow> bool" where
  "standing_pass env args v \<longleftrightarrow>
    (if goes_high env args v then passes_high env args v
     else \<not> isDangerousCommand (arg_command args) \<or> bv_planApproved env \<or>
          isTrustedForApproval (bv_now env) (bv_ledger env) (bv_taskId env) BashKind ''*'')"

lemma bash_gate_cases:
  "bash_gate env args =
    (if riskClass (scoreToolCall ''bash'' args) = CRITICAL
     then ([BaRefuse RefCritical], bv_rules env, bv_ledger env)
     else case v4_validation env args of
       Inl e \<Rightarrow> ([if is_validation_error e then BaRefuse (RefPermissions e) else BaThrow], bv_rules env, bv_ledger env)
     | Inr v \<Rightarrow> if goes_high env args v then high_branch env args v else danger_branch env args v)"
  unfolding bash_gate_def goes_high_def by (rule refl)

text \<open>
  C20: A bash call that reaches the shell is never CRITICAL, its extra permissions were validated, and either the person was
  asked and approved, or it had a standing pass: for an escalated call or a request of extra permissions a persistent rule,
  a covering grant or blanket trust (never for the read of a sensitive internal path); for any other call a command that is
  not dangerous, an approved plan or blanket trust.
\<close>

theorem bash_runs_permitted:
  assumes "runs (fst (bash_gate env args))"
  shows "riskClass (scoreToolCall ''bash'' args) \<noteq> CRITICAL \<and>
    (\<exists>v. v4_validation env args = Inr v \<and>
       (asks (fst (bash_gate env args)) \<and> bv_answer env = Approved \<or> standing_pass env args v))"
proof (cases "v4_validation env args")
  case (Inl e)
  then show ?thesis using assms by (simp add: bash_gate_cases split: if_splits)
next
  case (Inr v)
  then show ?thesis
    using assms high_branch_runs [of env args v] danger_branch_runs [of env args v]
    by (auto simp: bash_gate_cases standing_pass_def split: if_splits)
qed

definition demo_env :: bash_env where
  "demo_env = \<lparr>bv_now = 5, bv_v4Enabled = True, bv_planApproved = False, bv_taskId = ''t'', bv_projectPath = Some ''/w'',
     bv_parse = demo_parse, bv_permissions = (\<lambda>raw mode. demo_input), bv_answer = Approved, bv_rules = [],
     bv_ledger = (\<lambda>_. None)\<rparr>"

definition demo_rm :: bash_args where
  "demo_rm = [(''command'', JStr ''rm -r a'')]"

lemma demo_rm_score:
  "first_lethal LETHAL_PATTERNS ''rm -r a'' = None" "hasSensitiveInternalPath ''rm -r a'' = False"
  "isPureReadOnlyBash ''rm -r a'' = False"
  by code_simp+

lemma demo_rm_risk: "riskClass (scoreToolCall ''bash'' demo_rm) = MEDIUM"
  by (simp add: score_bash demo_rm_def arg_command_def obj_get_def demo_rm_score requests_escalation_def requests_additional_def)

lemma demo_rm_danger: "isDangerousCommand (arg_command demo_rm)"
  by code_simp

lemma demo_rm_valid: "v4_validation demo_env demo_rm = Inr None"
  by (simp add: v4_validation_def demo_rm_def obj_get_def Let_def)

lemma demo_rm_gate: "bash_gate demo_env demo_rm = danger_branch demo_env demo_rm None"
  by (simp add: bash_gate_cases demo_rm_valid demo_rm_risk goes_high_def)

lemma demo_rm_runs: "runs (fst (bash_gate demo_env demo_rm))"
  unfolding demo_rm_gate danger_branch_def Let_def using run_act_runs(1) [of demo_env demo_rm None None]
  by (cases "run_act demo_env demo_rm None None") (simp add: demo_env_def)

theorem bash_runs_permitted_witness:
  "asks (fst (bash_gate demo_env demo_rm))"
  using bash_runs_permitted [OF demo_rm_runs]
  by (simp add: standing_pass_def goes_high_def demo_rm_risk demo_rm_danger isTrustedForApproval_def task_entries_def)
     (simp add: demo_env_def)

section \<open>What passes unasked\<close>

text \<open>
  A request of extra permissions that the grants of the task cover runs without a question, whatever the command is: the
  test for dangerous commands is only the other branch, so a grant of one path suppresses it.
\<close>

theorem covered_request_skips_danger:
  assumes "riskClass (scoreToolCall ''bash'' args) = HIGH" and "\<not> sensitive_read args"
    and "v4_validation env args = Inr v" and "v4_requested env args v"
    and "sanitizeJustification (arg_str args ''justification'') \<noteq> []"
    and "Option.bind (prefix_arg args) validatePrefixRule = None"
    and "findCoveringPermissionGrant (bv_now env) (bv_ledger env) (bv_taskId env) (the (v4_profile v)) \<noteq> None"
  shows "runs (fst (bash_gate env args)) \<and> \<not> asks (fst (bash_gate env args))"
proof -
  obtain hit rules where m: "matchPersistentRule (bv_now env) ''bash'' args (bv_projectPath env) (bv_rules env) = (hit, rules)"
    by fastforce
  obtain acts ledger where r: "run_act env args v hit = (acts, ledger)" by fastforce
  have "bash_gate env args = high_branch env args v"
    using assms(1,3,4) by (simp add: bash_gate_cases goes_high_def)
  also have "fst (high_branch env args v) = acts"
    using assms(2,4-7) by (simp add: high_branch_def m r Let_def)
  finally show ?thesis using run_act_runs [of env args v hit] r by simp
qed

definition demo_covered :: bash_args where
  "demo_covered = [(''command'', JStr ''rm -r a''), (''sandbox_permissions'', JStr ''with_additional_permissions''),
     (''additional_permissions'', JObj []), (''justification'', JStr ''cache'')]"

definition grant_env :: bash_env where
  "grant_env = demo_env\<lparr>bv_answer := Rejected, bv_ledger := (\<lambda>t. if t = ''t'' then
     Some [\<lparr>te_kind = BashKind, te_subject = ''[permissions]'', te_expiry = 99, te_pattern = None,
       te_permissions = Some \<lparr>ap_network = None, ap_file_system = Some
         [fs_entry.make ''/a'' AccessWrite, fs_entry.make ''/b'' AccessRead]\<rparr>\<rparr>] else None)\<rparr>"

lemma demo_covered_risk: "riskClass (scoreToolCall ''bash'' demo_covered) = HIGH" "\<not> sensitive_read demo_covered"
  by (simp_all add: score_bash sensitive_read_def demo_covered_def arg_command_def obj_get_def demo_rm_score
      requests_escalation_def requests_additional_def)

lemma demo_covered_valid: "v4_validation grant_env demo_covered = Inr (Some demo_result)"
  by (simp add: v4_validation_def grant_env_def demo_env_def demo_covered_def sandbox_arg_def arg_str_def obj_get_def Let_def
      demo_validates)

lemma demo_covered_requested: "v4_requested grant_env demo_covered (Some demo_result)"
  by (simp add: v4_requested_def grant_env_def demo_env_def demo_covered_def sandbox_arg_def arg_str_def obj_get_def
      v4_profile_def demo_result_def)

lemma demo_covered_just: "sanitizeJustification (arg_str demo_covered ''justification'') \<noteq> []"
  "Option.bind (prefix_arg demo_covered) validatePrefixRule = None"
  by code_simp+

lemma demo_covered_grant:
  "findCoveringPermissionGrant (bv_now grant_env) (bv_ledger grant_env) (bv_taskId grant_env)
     (the (v4_profile (Some demo_result))) \<noteq> None"
  by code_simp

theorem covered_request_skips_danger_witness:
  "isDangerousCommand (arg_command demo_covered) \<and> runs (fst (bash_gate grant_env demo_covered)) \<and>
   \<not> asks (fst (bash_gate grant_env demo_covered))"
proof -
  have "isDangerousCommand (arg_command demo_covered)"
    using demo_rm_danger by (simp add: demo_rm_def demo_covered_def arg_command_def obj_get_def)
  with covered_request_skips_danger [OF demo_covered_risk demo_covered_valid demo_covered_requested demo_covered_just
      demo_covered_grant]
  show ?thesis by simp
qed

text \<open>
  A command \<open>rm -rf XN\<close> with an exempted name \<open>N\<close> is not dangerous for any \<open>X\<close> without white space: the expression of
  the exempted clean-ups takes any such word, shell operators included, and not only a path.
\<close>

lemma safe_cleanup_word:
  assumes "list_all (\<lambda>c. \<not> is_ws c) x"
  shows "isSafeCleanupCommand (''rm -rf '' @ x @ ''.cache'')"
proof -
  let ?s = "''rm -rf '' @ x @ ''.cache''"
  have trim: "js_trim ?s = ?s"
    by (rule js_trim_id) (auto simp: is_ws_def)
  let ?x = "if x = [] then Some (CHR '' '') else Some (last x)"
  let ?stop = "(Some (CHR ''e''), [])"
  have plus_sp: "rx_match (plus ws) (y, CHR '' '' # t) (Some (CHR '' ''), t)" for y t
    using rx_match_plus_Cls [of "'' ''" is_ws y t] by (simp add: ws_def is_ws_def)
  have eps: "rx_match (opt r) p p" for r p
    unfolding opt_def by (intro rx_match_Alt2 rx_match_Eps)
  have name: "rx_match safe_names (?x, ''.cache'') ?stop"
    using rx_match_lit [of "''.cache''" ?x "[]"] unfolding safe_names_def
    by (intro rx_match_alts [of "lit ''.cache''"]) simp_all
  have tail: "rx_match benign_tail ?stop ?stop"
    unfolding benign_tail_def rx_syntax by (intro rx_match_Seq [OF eps] eps)
  have word: "rx_match (Star non_ws) (Some (CHR '' ''), x @ ''.cache'') (?x, ''.cache'')"
    using rx_match_Star_Cls [of "\<lambda>c. \<not> is_ws c" x "Some (CHR '' '')" "''.cache''"] assms
    by (simp add: non_ws_def)
  have rf: "rx_match (lit ''-r'') (y, ''-r'' @ t) (Some (CHR ''r''), t)" for y t
    using rx_match_lit [of "''-r''" y t] by simp
  have f: "rx_match (opt (one_of ''fF'')) (y, CHR ''f'' # t) (Some (CHR ''f''), t)" for y t
    unfolding opt_def one_of_def by (intro rx_match_Alt1 rx_match_Cls) simp
  have rm: "rx_match (lit ''rm'') (None, ''rm'' @ t) (Some (CHR ''m''), t)" for t
    using rx_match_lit [of "''rm''" None t] by simp
  have last: "rx_match (Seq (opt (lit ''/'')) (Seq benign_tail (Seq (Star ws) Eol))) ?stop ?stop"
    by (rule rx_match_Seq [OF eps rx_match_Seq [OF tail rx_match_Seq [OF rx_match_Star_Nil rx_match_Eol]]])
  have path: "rx_match (Seq (Star non_ws) (Seq (opt (lit ''/'')) (Seq safe_names (Seq (opt (lit ''/'')) (Seq benign_tail
      (Seq (Star ws) Eol)))))) (Some (CHR '' ''), x @ ''.cache'') ?stop"
    by (rule rx_match_Seq [OF word rx_match_Seq [OF eps rx_match_Seq [OF name last]]])
  have flags: "rx_match (Seq (opt (one_of ''fF'')) (Seq (plus ws) (Seq (Star non_ws) (Seq (opt (lit ''/'')) (Seq safe_names
      (Seq (opt (lit ''/'')) (Seq benign_tail (Seq (Star ws) Eol)))))))) (Some (CHR ''r''), ''f '' @ x @ ''.cache'') ?stop"
    using rx_match_Seq [OF f rx_match_Seq [OF plus_sp path]] by simp
  have "rx_match (hd SAFE_CLEANUP_REGEXES) (None, ''rm'' @ CHR '' '' # ''-r'' @ ''f '' @ x @ ''.cache'') ?stop"
    unfolding SAFE_CLEANUP_REGEXES_def list.sel rx_syntax
    by (rule rx_match_Seq [OF rx_match_Bol rx_match_Seq [OF rm rx_match_Seq [OF plus_sp rx_match_Seq [OF rf flags]]]])
  then have "rx_match (hd SAFE_CLEANUP_REGEXES) (None, ?s) ?stop" by simp
  then have "rx_test (hd SAFE_CLEANUP_REGEXES) ?s"
    using rx_test_match [of "hd SAFE_CLEANUP_REGEXES" "[]" ?s ?stop] by simp
  then show ?thesis unfolding isSafeCleanupCommand_def trim
    by (simp add: SAFE_CLEANUP_REGEXES_def)
qed

theorem cleanup_exemption_takes_any_word:
  assumes "list_all (\<lambda>c. \<not> is_ws c) x"
  shows "\<not> isDangerousCommand (''rm -rf '' @ x @ ''.cache'')"
  using safe_cleanup_word [OF assms] by (simp add: isDangerousCommand_def)

theorem cleanup_exemption_takes_any_word_witness:
  "\<not> isDangerousCommand ''rm -rf ../../src;.cache'' \<and> isDangerousCommand ''rm -rf ../../src''"
proof -
  have "isDangerousCommand ''rm -rf ../../src''" by code_simp
  with cleanup_exemption_takes_any_word [of "''../../src;''"] show ?thesis by (simp add: is_ws_def)
qed

lemma preview_header:
  "rx_replace (seqs [lit_ci ''Authorization:'', Star ws, plus non_ws]) ''Authorization: [REDACTED]'' ''Authorization: Basic QQ''
     = ''Authorization: [REDACTED] QQ''"
  by code_simp

lemma preview_bearer: "rx_replace (seqs [lit_ci ''Bearer'', plus ws, plus non_ws]) w ''Authorization: Basic QQ'' = ''Authorization: Basic QQ''"
  unfolding rx_syntax by (rule dead_rules)+ code_simp

lemma preview_lower: "map lower_char ''Authorization: [REDACTED] QQ'' = ''authorization: [redacted] qq''"
  by code_simp

lemma preview_field:
  "\<not> includes_str ''authorization: [redacted] qq'' (map lower_char n) \<Longrightarrow>
    rx_replace (secret_field (lit_ci n)) w ''Authorization: [REDACTED] QQ'' = ''Authorization: [REDACTED] QQ''"
  unfolding rx_syntax secret_field_def by (rule dead_rules)+ (simp only: preview_lower not_False_eq_True)

lemma preview_key:
  "rx_replace (secret_field (Seq (lit_ci ''api'') k)) w ''Authorization: [REDACTED] QQ'' = ''Authorization: [REDACTED] QQ''"
  unfolding rx_syntax secret_field_def by (rule dead_rules)+ code_simp

lemma preview_sk:
  "rx_replace (Seq (lit ''sk-'') k) w ''Authorization: [REDACTED] QQ'' = ''Authorization: [REDACTED] QQ''"
  "rx_replace (Seq (lit ''ark-'') k) w ''Authorization: [REDACTED] QQ'' = ''Authorization: [REDACTED] QQ''"
  by ((rule dead_rules)+, code_simp)+

lemma preview_words:
  "\<not> includes_str ''authorization: [redacted] qq'' (map lower_char ''token'')"
  "\<not> includes_str ''authorization: [redacted] qq'' (map lower_char ''password'')"
  "\<not> includes_str ''authorization: [redacted] qq'' (map lower_char ''secret'')"
  by code_simp+

text \<open>
  The preview that is stored and shown for a command that carries a Basic credential keeps the credential: the
  expression takes one word after the header name, which is the scheme.
\<close>

theorem preview_keeps_basic_credential:
  "sanitizeCommandPreview ''Authorization: Basic QQ'' = ''Authorization: [REDACTED] QQ''"
  unfolding sanitizeCommandPreview_def REDACTIONS_def fold_simps o_apply split
  unfolding preview_bearer preview_header
  unfolding rx_syntax preview_key preview_sk preview_field [OF preview_words(1)]
    preview_field [OF preview_words(2)] preview_field [OF preview_words(3)] by (rule refl)

section \<open>A grant that grants nothing\<close>

text \<open>
  A request for permissions that is approved without a wish for trust, as an unattended approval always is, is answered
  as granted although no permission is written: the next bash call of the task gets the binds and the network it would have
  had without the request.
\<close>

theorem grant_without_trust_is_void:
  assumes "bv_v4Enabled env" and "bv_answer env = Approved" and "\<not> wants_trust q"
    and "validateAndNormalize (bv_parse env)
           (bv_permissions env (obj_get args ''permissions'') WithAdditionalPermissions) = Inr r"
    and "sanitizeJustification (arg_str args ''reason'') \<noteq> []"
    and "ledger = upgrade_trust now landed True q (bv_ledger env)"
  shows "(\<exists>scope. request_permissions env args now ledger = ReplyGranted (plain_profile (pr_profile r)) scope) \<and>
    run_act (env\<lparr>bv_ledger := ledger\<rparr>) later v hit = run_act env later v hit"
  using assms by (simp add: request_permissions_def upgrade_trust_def)

definition demo_ask :: bash_args where
  "demo_ask = [(''permissions'', JObj []), (''reason'', JStr ''cache'')]"

definition demo_unattended :: trust_request where
  "demo_unattended = \<lparr>tq_task = ''t'', tq_toolName = ''bash'', tq_server = None, tq_requestKind = Some ''request_permissions'',
     tq_permissions = Some (plain_profile (pr_profile demo_result)), tq_dangerPattern = None, tq_trustForTask = False,
     tq_trustForMinutes = None\<rparr>"

lemma demo_ask_reason: "sanitizeJustification (arg_str demo_ask ''reason'') \<noteq> []"
  by code_simp

lemma demo_ask_valid:
  "validateAndNormalize (bv_parse demo_env) (bv_permissions demo_env (obj_get demo_ask ''permissions'') WithAdditionalPermissions)
     = Inr demo_result"
  by (simp add: demo_env_def demo_validates)

theorem grant_without_trust_is_void_witness:
  "(\<exists>scope. request_permissions demo_env demo_ask 7 (upgrade_trust 7 True True demo_unattended (bv_ledger demo_env))
      = ReplyGranted (plain_profile (pr_profile demo_result)) scope) \<and>
   run_act (demo_env\<lparr>bv_ledger := upgrade_trust 7 True True demo_unattended (bv_ledger demo_env)\<rparr>) demo_rm None None
      = run_act demo_env demo_rm None None"
  by (rule grant_without_trust_is_void [OF _ _ _ demo_ask_valid demo_ask_reason refl])
     (simp_all add: demo_env_def wants_trust_def demo_unattended_def)

end
