(* ===== verification/Js_Record.thy ===== *)
theory Js_Record
  imports Js_Prelude
begin

text \<open>
  Objects used as dictionaries. An object is the list of its entries in the order of \<open>Object.entries\<close>, each key once (keys that
  are array indices, which JavaScript moves to the front, are not used by the modelled code). \<open>normaliser\<close> is the contract between a
  function that reads a record out of an untrusted JSON value and the one that writes it: what was read is read again unchanged.
\<close>

section \<open>Entries\<close>

fun rec_put :: "string \<Rightarrow> 'a \<Rightarrow> (string \<times> 'a) list \<Rightarrow> (string \<times> 'a) list" where
  "rec_put k v [] = [(k, v)]"
| "rec_put k v ((k', v') # m) = (if k' = k then (k, v) # m else (k', v') # rec_put k v m)"

definition rec_del :: "string \<Rightarrow> (string \<times> 'a) list \<Rightarrow> (string \<times> 'a) list" where
  "rec_del k m = filter (\<lambda>e. fst e \<noteq> k) m"

definition fromEntries :: "(string \<times> 'a) list \<Rightarrow> (string \<times> 'a) list" where
  "fromEntries es = foldl (\<lambda>m e. rec_put (fst e) (snd e) m) [] es"

definition rec_ok :: "(string \<times> 'a) list \<Rightarrow> bool" where
  "rec_ok m = distinct (map fst m)"

named_theorems js_rec

lemma keys_rec_put: "map fst (rec_put k v m) = (if k \<in> fst ` set m then map fst m else map fst m @ [k])"
  by (induction m) (auto split: if_splits)

lemma rec_ok_Nil [js_rec, simp]: "rec_ok []"
  by (simp add: rec_ok_def)

lemma rec_ok_put [js_rec, simp]: "rec_ok m \<Longrightarrow> rec_ok (rec_put k v m)"
  by (auto simp: rec_ok_def keys_rec_put)

lemma rec_ok_del [js_rec, simp]: "rec_ok m \<Longrightarrow> rec_ok (rec_del k m)"
  by (simp add: rec_ok_def rec_del_def distinct_map_filter)

lemma map_of_rec_put [js_rec, simp]: "map_of (rec_put k v m) = (map_of m)(k \<mapsto> v)"
  by (induction m) auto

lemma map_of_rec_del [js_rec, simp]: "map_of (rec_del k m) = (map_of m)(k := None)"
  by (induction m) (auto simp: rec_del_def)

lemma rec_put_fresh: "k \<notin> fst ` set m \<Longrightarrow> rec_put k v m = m @ [(k, v)]"
  by (induction m) auto

lemma set_rec_put: "set (rec_put k v m) \<subseteq> insert (k, v) (set m)"
  by (induction m) (auto split: if_splits)

lemma rec_ok_foldl_put: "rec_ok m \<Longrightarrow> rec_ok (foldl (\<lambda>m e. rec_put (fst e) (snd e) m) m es)"
  by (induction es arbitrary: m) simp_all

lemma rec_ok_fromEntries [js_rec, simp]: "rec_ok (fromEntries es)"
  by (simp add: fromEntries_def rec_ok_foldl_put)

lemma foldl_put_distinct:
  "distinct (map fst (m @ es)) \<Longrightarrow> foldl (\<lambda>m e. rec_put (fst e) (snd e) m) m es = m @ es"
proof (induction es arbitrary: m)
  case (Cons e es)
  then have "rec_put (fst e) (snd e) m = m @ [e]"
    by (simp add: rec_put_fresh)
  then show ?case using Cons.IH [of "m @ [e]"] Cons.prems by simp
qed simp

lemma fromEntries_id: "rec_ok m \<Longrightarrow> fromEntries m = m"
  by (simp add: fromEntries_def rec_ok_def foldl_put_distinct)

lemma map_of_foldl_put: "map_of (foldl (\<lambda>m e. rec_put (fst e) (snd e) m) m es) k
    = (case map_of (rev es) k of Some v \<Rightarrow> Some v | None \<Rightarrow> map_of m k)"
  by (induction es arbitrary: m) (auto simp: map_add_def split: option.splits)

lemma map_of_fromEntries: "map_of (fromEntries es) = map_of (rev es)"
  by (rule ext) (simp add: fromEntries_def map_of_foldl_put split: option.splits)

section \<open>Reading and writing the fields of a record\<close>

text \<open>A field that is written only when it is there, as \<open>...(x ? { k: x } : {})\<close> does.\<close>

definition may_field :: "string \<Rightarrow> ('a \<Rightarrow> json) \<Rightarrow> 'a option \<Rightarrow> (string \<times> json) list" where
  "may_field k c v = (case v of None \<Rightarrow> [] | Some x \<Rightarrow> [(k, c x)])"

text \<open>A field read as a string that is trimmed and dropped when nothing is left.\<close>

definition trimmed :: "string \<Rightarrow> string option" where
  "trimmed s = (if js_trim s = [] then None else Some (js_trim s))"

definition str_of :: "json option \<Rightarrow> string option" where
  "str_of v = (case v of Some (JStr s) \<Rightarrow> trimmed s | _ \<Rightarrow> None)"

definition obj_of :: "json option \<Rightarrow> (string \<times> json) list option" where
  "obj_of v = (case v of Some (JObj x) \<Rightarrow> Some x | _ \<Rightarrow> None)"

definition enum_of :: "string list \<Rightarrow> json option \<Rightarrow> string option" where
  "enum_of vs v = (case v of Some (JStr s) \<Rightarrow> (if s \<in> set vs then Some s else None) | _ \<Rightarrow> None)"

text \<open>\<open>typeof v === "number" && v > 0\<close>; the numbers are integers, so rounding them changes nothing.\<close>

definition pos_of :: "json option \<Rightarrow> int option" where
  "pos_of v = (case v of Some (JNum n) \<Rightarrow> (if n > 0 then Some n else None) | _ \<Rightarrow> None)"

abbreviation text_field :: "(string \<times> json) list \<Rightarrow> string \<Rightarrow> string option" where
  "text_field fs k \<equiv> str_of (obj_get fs k)"

abbreviation object_field :: "(string \<times> json) list \<Rightarrow> string \<Rightarrow> (string \<times> json) list option" where
  "object_field fs k \<equiv> obj_of (obj_get fs k)"

abbreviation enum_field :: "string list \<Rightarrow> (string \<times> json) list \<Rightarrow> string \<Rightarrow> string option" where
  "enum_field vs fs k \<equiv> enum_of vs (obj_get fs k)"

abbreviation pos_field :: "(string \<times> json) list \<Rightarrow> string \<Rightarrow> int option" where
  "pos_field fs k \<equiv> pos_of (obj_get fs k)"

lemma obj_get_Nil [js_rec, simp]: "obj_get [] k = None"
  by (simp add: obj_get_def)

lemma obj_get_Cons [js_rec]: "obj_get ((k', v) # fs) k
    = (case obj_get fs k of Some w \<Rightarrow> Some w | None \<Rightarrow> if k' = k then Some v else None)"
  by (simp add: obj_get_def map_add_def split: option.splits)

lemma obj_get_may_field [js_rec]: "obj_get (may_field k' c v @ fs) k
    = (case obj_get fs k of Some w \<Rightarrow> Some w | None \<Rightarrow> if k' = k then map_option c v else None)"
  by (simp add: may_field_def obj_get_Cons split: option.splits)

lemma obj_get_may_field_other [js_rec, simp]: "k' \<noteq> k \<Longrightarrow> obj_get (may_field k' c v @ fs) k = obj_get fs k"
  by (simp add: obj_get_may_field split: option.splits)

lemma obj_get_may_field_here [js_rec, simp]:
  "obj_get fs k = None \<Longrightarrow> obj_get (may_field k c v @ fs) k = map_option c v"
  by (simp add: obj_get_may_field)

lemma obj_get_may_field_last [js_rec, simp]: "obj_get (may_field k' c v) k = (if k' = k then map_option c v else None)"
  using obj_get_may_field [of k' c v "[]" k] by simp

lemma obj_get_Cons_other [js_rec, simp]: "k' \<noteq> k \<Longrightarrow> obj_get ((k', v) # fs) k = obj_get fs k"
  by (simp add: obj_get_Cons split: option.splits)

lemma obj_get_Cons_here [js_rec, simp]: "obj_get fs k = None \<Longrightarrow> obj_get ((k, v) # fs) k = Some v"
  by (simp add: obj_get_Cons)

lemma trim_end_idem: "trim_end (trim_end s) = trim_end s"
  by (simp add: trim_end_def dropWhile_idem)

lemma trim_start_trim_end: "trim_start s = s \<Longrightarrow> trim_start (trim_end s) = trim_end s"
proof -
  assume s: "trim_start s = s"
  obtain w where w: "s = trim_end s @ w" using trim_end_infix by blast
  show ?thesis
  proof (cases "trim_end s")
    case (Cons c cs)
    then have "s = c # cs @ w" using w by simp
    then have "\<not> is_ws c" using s
      by (metis dropWhile.simps(2) length_dropWhile_le impossible_Cons trim_start_def)
    then show ?thesis using Cons by (simp add: trim_start_def)
  qed (simp add: trim_start_def)
qed

lemma js_trim_idem [js_rec, simp]: "js_trim (js_trim s) = js_trim s"
proof -
  have "trim_start (trim_start s) = trim_start s"
    by (simp add: trim_start_def dropWhile_idem)
  then show ?thesis
    by (simp add: js_trim_def trim_start_trim_end trim_end_idem)
qed

lemma trimmed_stable [js_rec, simp]: "trimmed s = Some t \<Longrightarrow> trimmed t = Some t"
  by (auto simp: trimmed_def split: if_splits)

lemma trimmed_nonempty: "trimmed s = Some t \<Longrightarrow> t \<noteq> [] \<and> js_trim t = t"
  by (auto simp: trimmed_def split: if_splits)

lemma str_of_stable [js_rec, simp]: "str_of (map_option JStr (str_of v)) = str_of v"
  by (auto simp: str_of_def split: option.splits json.splits)

lemma str_of_trimmed: "str_of v = Some s \<Longrightarrow> str_of (Some (JStr s)) = Some s"
  by (auto simp: str_of_def split: option.splits json.splits)

lemma obj_of_stable [js_rec, simp]: "obj_of (map_option JObj v) = v"
  by (auto simp: obj_of_def split: option.splits)

lemma enum_of_stable [js_rec, simp]: "enum_of vs (map_option JStr (enum_of vs v)) = enum_of vs v"
  by (auto simp: enum_of_def split: option.splits json.splits)

lemma enum_of_member: "enum_of vs v = Some s \<Longrightarrow> enum_of vs (Some (JStr s)) = Some s"
  by (auto simp: enum_of_def split: option.splits json.splits if_splits)

lemma pos_of_stable [js_rec, simp]: "pos_of (map_option JNum (pos_of v)) = pos_of v"
  by (auto simp: pos_of_def split: option.splits json.splits)

section \<open>Nested fields\<close>

definition nonempty :: "'a list \<Rightarrow> 'a list option" where
  "nonempty xs = (if xs = [] then None else Some xs)"

text \<open>The fields of a nested object, none when the value is not one.\<close>

definition sub_of :: "json option \<Rightarrow> (string \<times> json) list" where
  "sub_of v = (case v of Some (JObj x) \<Rightarrow> x | _ \<Rightarrow> [])"

abbreviation sub_obj :: "(string \<times> json) list \<Rightarrow> string \<Rightarrow> (string \<times> json) list" where
  "sub_obj fs k \<equiv> sub_of (obj_get fs k)"

definition json_strings_of :: "json option \<Rightarrow> string list" where
  "json_strings_of v = (case v of Some (JArr js) \<Rightarrow> List.map_filter json_as_str js | _ \<Rightarrow> [])"

definition strings_json :: "string list \<Rightarrow> json" where
  "strings_json xs = JArr (map JStr xs)"

text \<open>\<open>[...new Set(xs)]\<close>: the first occurrence of each value stays.\<close>

fun js_uniq :: "string list \<Rightarrow> string list" where
  "js_uniq [] = []"
| "js_uniq (x # xs) = x # filter (\<lambda>y. y \<noteq> x) (js_uniq xs)"

lemma set_js_uniq [js_rec, simp]: "set (js_uniq xs) = set xs"
  by (induction xs) auto

lemma distinct_js_uniq [js_rec, simp]: "distinct (js_uniq xs)"
  by (induction xs) auto

lemma js_uniq_id: "distinct xs \<Longrightarrow> js_uniq xs = xs"
  by (induction xs) (auto simp: filter_id_conv)

lemma js_uniq_eq_Nil [simp]: "js_uniq xs = [] \<longleftrightarrow> xs = []"
  by (cases xs) simp_all

lemma sub_of_stable [js_rec, simp]: "sub_of (map_option JObj (nonempty x)) = x"
  by (simp add: sub_of_def nonempty_def)

lemma json_strings_of_stable [js_rec, simp]: "json_strings_of (map_option strings_json (nonempty xs)) = xs"
  by (induction xs) (auto simp: json_strings_of_def strings_json_def nonempty_def map_filter_simps split: if_splits)

section \<open>The contract of a normaliser\<close>

definition normalize_map :: "(json \<Rightarrow> 'a option) \<Rightarrow> json \<Rightarrow> (string \<times> 'a) list" where
  "normalize_map f v = (case v of
     JObj fs \<Rightarrow> List.map_filter (\<lambda>(k, j). map_option (Pair k) (f j)) (fromEntries fs)
   | _ \<Rightarrow> [])"

definition map_json :: "('a \<Rightarrow> json) \<Rightarrow> (string \<times> 'a) list \<Rightarrow> json" where
  "map_json enc m = JObj (map (\<lambda>(k, r). (k, enc r)) m)"

definition normalize_list :: "(json \<Rightarrow> 'a option) \<Rightarrow> json \<Rightarrow> 'a list" where
  "normalize_list f v = (case v of JArr js \<Rightarrow> List.map_filter f js | _ \<Rightarrow> [])"

lemma keys_map_filter: "map fst (List.map_filter (\<lambda>(k, j). map_option (Pair k) (f j)) es)
    = map fst (filter (\<lambda>(k, j). f j \<noteq> None) es)"
  by (induction es) (auto simp: map_filter_simps split: option.splits)

lemma rec_ok_normalize_map [js_rec, simp]: "rec_ok (normalize_map f v)"
proof (cases v)
  case (JObj fs)
  have "distinct (map fst (fromEntries fs))"
    using rec_ok_fromEntries by (simp only: rec_ok_def)
  then show ?thesis
    by (simp add: JObj normalize_map_def rec_ok_def keys_map_filter distinct_map_filter)
qed (simp_all add: normalize_map_def)

lemma map_filter_all: "(\<And>x. x \<in> set xs \<Longrightarrow> f (g x) = Some x) \<Longrightarrow> List.map_filter f (map g xs) = xs"
  by (induction xs) (auto simp: map_filter_simps)

lemma set_map_filterE: "y \<in> set (List.map_filter f xs) \<Longrightarrow> \<exists>x\<in>set xs. f x = Some y"
  by (induction xs) (auto simp: map_filter_simps split: option.splits)

locale normaliser =
  fixes norm :: "json \<Rightarrow> 'a option"
    and enc :: "'a \<Rightarrow> json"
  assumes stable: "norm j = Some r \<Longrightarrow> norm (enc r) = Some r"
begin

lemma map_reads: "rec_ok m \<Longrightarrow> \<forall>e\<in>set m. norm (enc (snd e)) = Some (snd e) \<Longrightarrow> normalize_map norm (map_json enc m) = m"
proof -
  assume m: "rec_ok m" "\<forall>e\<in>set m. norm (enc (snd e)) = Some (snd e)"
  have "rec_ok (map (\<lambda>(k, r). (k, enc r)) m)"
    using m(1) by (simp add: rec_ok_def comp_def case_prod_unfold)
  then show ?thesis
    using m(2) by (simp add: normalize_map_def map_json_def fromEntries_id map_filter_all case_prod_unfold)
qed

lemma map_members: "e \<in> set (normalize_map norm v) \<Longrightarrow> norm (enc (snd e)) = Some (snd e)"
  by (cases v) (auto simp: normalize_map_def dest!: set_map_filterE intro: stable)

lemma map_stable: "normalize_map norm (map_json enc (normalize_map norm v)) = normalize_map norm v"
  using map_members by (intro map_reads) auto

lemma list_stable: "normalize_list norm (JArr (map enc (normalize_list norm v))) = normalize_list norm v"
  by (cases v) (auto simp: normalize_list_def intro!: map_filter_all dest!: set_map_filterE intro: stable)

end

end
