(* ===== verification/Executor_Catalog.thy ===== *)
theory Executor_Catalog
  imports Js_Record
begin

text \<open>
  The executors the server knows and the routing of roles it starts from (\<open>apps/api/src/executors/executor-catalog.ts\<close>), what an
  executor is able to do (\<open>apps/api/src/services/executor-capability-service.ts\<close>), how a failed dispatch is classified
  (\<open>apps/api/src/executors/executor-adapter.ts\<close>), and the store of secrets (\<open>apps/api/src/services/local-secret-store-service.ts\<close>).
\<close>

section \<open>The catalog\<close>

datatype exec_type = CodingAgent | ModelExecutor

datatype exec_mode = CliMode | ApiMode

datatype routing_strategy = AgentOnly | PreferAgent | FallbackModel | ModelOnly

record route =
  routeAdapter :: string
  routeStrategy :: routing_strategy
  routeFallback :: "string option"

record catalog_entry =
  catAdapter :: string
  catName :: string
  catType :: exec_type
  catRoles :: "string list"
  catKey :: string
  catMode :: exec_mode

definition EXECUTOR_CATALOG :: "catalog_entry list" where
  "EXECUTOR_CATALOG =
    [\<lparr>catAdapter = ''codex'', catName = ''Codex'', catType = CodingAgent,
       catRoles = [''leader'', ''architect'', ''coder'', ''reviewer'', ''lander''],
       catKey = ''MAGISTER_MODEL_CODEX'', catMode = CliMode\<rparr>,
     \<lparr>catAdapter = ''qoder'', catName = ''Qoder'', catType = CodingAgent,
       catRoles = [''reviewer''], catKey = ''MAGISTER_MODEL_QODER'', catMode = CliMode\<rparr>,
     \<lparr>catAdapter = ''opencode'', catName = ''OpenCode'', catType = CodingAgent,
       catRoles = [''architect'', ''coder''], catKey = ''MAGISTER_MODEL_OPENCODE'', catMode = CliMode\<rparr>,
     \<lparr>catAdapter = ''claude_code'', catName = ''Claude Code'', catType = CodingAgent,
       catRoles = [''leader''], catKey = ''MAGISTER_MODEL_CLAUDE_CODE'', catMode = CliMode\<rparr>,
     \<lparr>catAdapter = ''model'', catName = ''Model Fallback'', catType = ModelExecutor,
       catRoles = [''leader'', ''architect'', ''reviewer''], catKey = ''MAGISTER_MODEL_GENERAL_MODEL'', catMode = ApiMode\<rparr>]"

definition plain_route :: "string \<Rightarrow> routing_strategy \<Rightarrow> route" where
  "plain_route a s = \<lparr>routeAdapter = a, routeStrategy = s, routeFallback = None\<rparr>"

definition DEFAULT_ROLE_ROUTING :: "(string \<times> route) list" where
  "DEFAULT_ROLE_ROUTING =
    [(''leader'', plain_route ''model'' ModelOnly),
     (''architect'', plain_route ''codex'' AgentOnly),
     (''coder'', plain_route ''codex'' AgentOnly),
     (''reviewer'', \<lparr>routeAdapter = ''qoder'', routeStrategy = FallbackModel, routeFallback = Some ''model''\<rparr>),
     (''lander'', plain_route ''codex'' AgentOnly),
     (''deepresearcher'', plain_route ''model'' ModelOnly)]"

definition getExecutorCatalogEntry :: "string \<Rightarrow> catalog_entry option" where
  "getExecutorCatalogEntry a = find (\<lambda>e. catAdapter e = a) EXECUTOR_CATALOG"

definition getDefaultRoleRoutingForRole :: "string \<Rightarrow> route option" where
  "getDefaultRoleRoutingForRole r = map_of DEFAULT_ROLE_ROUTING r"

definition getDefaultAdapterIdForRole :: "string \<Rightarrow> string option" where
  "getDefaultAdapterIdForRole r = map_option routeAdapter (map_of DEFAULT_ROLE_ROUTING r)"

lemma catalog_entry_adapter: "getExecutorCatalogEntry a = Some e \<Longrightarrow> catAdapter e = a \<and> e \<in> set EXECUTOR_CATALOG"
  by (auto simp: getExecutorCatalogEntry_def find_Some_iff)

section \<open>Capabilities\<close>

record exec_capabilities =
  capResume :: bool
  capWorkspace :: bool
  capContract :: bool

definition cap_row :: "bool \<Rightarrow> bool \<Rightarrow> exec_capabilities" where
  "cap_row resume rest = \<lparr>capResume = resume, capWorkspace = rest, capContract = rest\<rparr>"

definition EXECUTOR_CAPABILITY_REGISTRY :: "(string \<times> exec_capabilities) list" where
  "EXECUTOR_CAPABILITY_REGISTRY =
    [(''codex'', cap_row True True), (''qoder'', cap_row False True), (''opencode'', cap_row False True),
     (''claude_code'', cap_row False True), (''model'', cap_row False False)]"

definition getExecutorCapabilities :: "string option \<Rightarrow> exec_capabilities" where
  "getExecutorCapabilities adapter =
    (case adapter of
       None \<Rightarrow> cap_row False False
     | Some a \<Rightarrow> (case map_of EXECUTOR_CAPABILITY_REGISTRY (js_trim a) of
                   Some c \<Rightarrow> c
                 | None \<Rightarrow> cap_row False False))"

definition adapterSupportsNativeResume :: "string option \<Rightarrow> bool" where
  "adapterSupportsNativeResume adapter = capResume (getExecutorCapabilities adapter)"

section \<open>The classes of dispatch failures\<close>

datatype failure_code =
    Unconfigured | ProviderMissing | ModelMissing | InvocationFailed | TimedOut | AuthFailed | Unavailable

fun code_name :: "failure_code \<Rightarrow> string" where
  "code_name Unconfigured = ''executor_unconfigured''"
| "code_name ProviderMissing = ''executor_provider_missing''"
| "code_name ModelMissing = ''executor_model_missing''"
| "code_name InvocationFailed = ''executor_invocation_failed''"
| "code_name TimedOut = ''executor_timeout''"
| "code_name AuthFailed = ''executor_auth_failed''"
| "code_name Unavailable = ''executor_unavailable''"

datatype failure_class = TransientFailure | AuthFailure | ConfigFailure | StateFailure

datatype next_action = Reroute | Retry | ManualFix

record disposition =
  failClass :: failure_class
  retryable :: bool
  nextAction :: next_action

definition disposition_of :: "failure_class \<Rightarrow> bool \<Rightarrow> next_action \<Rightarrow> disposition" where
  "disposition_of c r a = \<lparr>failClass = c, retryable = r, nextAction = a\<rparr>"

definition TRANSIENT_CODES :: "failure_code list" where
  "TRANSIENT_CODES = [InvocationFailed, TimedOut, Unavailable]"

definition classifyExecutorDispatchFailure :: "failure_code \<Rightarrow> disposition" where
  "classifyExecutorDispatchFailure c =
    (if c = AuthFailed then disposition_of AuthFailure False ManualFix
     else if c \<in> {Unconfigured, ProviderMissing, ModelMissing} then disposition_of ConfigFailure False ManualFix
     else if c \<in> set TRANSIENT_CODES then disposition_of TransientFailure True Reroute
     else disposition_of ConfigFailure False ManualFix)"

definition isTransientExecutorDispatchFailure :: "failure_code \<Rightarrow> bool" where
  "isTransientExecutorDispatchFailure c = (c \<in> set TRANSIENT_CODES)"

section \<open>The store of secrets\<close>

record secret_record =
  secValue :: string
  secUpdatedAt :: string

definition EPOCH_ISO :: string where "EPOCH_ISO = ''1970-01-01T00:00:00.000Z''"

type_synonym secret_store = "(string \<times> secret_record) list"

definition normalizeSecretRef :: "string option \<Rightarrow> string option" where
  "normalizeSecretRef r = Option.bind r trimmed"

definition updated_or_epoch :: "(string \<times> json) list \<Rightarrow> string" where
  "updated_or_epoch fs = (case text_field fs ''updatedAt'' of Some t \<Rightarrow> t | None \<Rightarrow> EPOCH_ISO)"

definition normalizeSecretRecord :: "json \<Rightarrow> secret_record option" where
  "normalizeSecretRecord v =
    (case v of
       JStr s \<Rightarrow> if s = [] then None else Some \<lparr>secValue = s, secUpdatedAt = EPOCH_ISO\<rparr>
     | JObj fs \<Rightarrow>
         (case obj_get fs ''value'' of
            Some (JStr s) \<Rightarrow> if s = [] then None else Some \<lparr>secValue = s, secUpdatedAt = updated_or_epoch fs\<rparr>
          | _ \<Rightarrow> None)
     | _ \<Rightarrow> None)"

definition secret_json :: "secret_record \<Rightarrow> json" where
  "secret_json r = JObj [(''value'', JStr (secValue r)), (''updatedAt'', JStr (secUpdatedAt r))]"

definition normalizeLocalSecretStore :: "json \<Rightarrow> secret_store" where
  "normalizeLocalSecretStore v =
    (case v of
       JObj fs \<Rightarrow>
         (case obj_get fs ''secrets'' of
            Some (JObj gs) \<Rightarrow> normalize_map normalizeSecretRecord (JObj gs)
          | _ \<Rightarrow> normalize_map normalizeSecretRecord (JObj fs))
     | _ \<Rightarrow> [])"

text \<open>A file on disk: absent, or the text of its last write as \<open>JSON.parse\<close> reads it. A text that does not parse throws.\<close>

datatype json_file = NoFile | FileText json_text

definition readLocalSecretStoreFile :: "json_file \<Rightarrow> secret_store option" where
  "readLocalSecretStoreFile f =
    (case f of NoFile \<Rightarrow> Some [] | FileText t \<Rightarrow> map_option normalizeLocalSecretStore t)"

definition writeLocalSecretStoreFile :: "secret_store \<Rightarrow> json_file" where
  "writeLocalSecretStoreFile s = FileText (Some (JObj [(''secrets'', map_json secret_json s)]))"

type_synonym env_vars = "string \<Rightarrow> string option"

definition stored_secret :: "secret_store \<Rightarrow> string \<Rightarrow> secret_record option" where
  "stored_secret s r = (case map_of s r of
     Some x \<Rightarrow> if js_trim (secValue x) = [] then None else Some x | None \<Rightarrow> None)"

definition secret_env_key :: "string \<Rightarrow> string" where
  "secret_env_key r = (if starts_with r ''env:'' then js_trim (drop 4 r) else r)"

definition env_secret :: "env_vars \<Rightarrow> string \<Rightarrow> string option" where
  "env_secret env r = Option.bind (env (secret_env_key r)) trimmed"

definition resolveSecretValue :: "secret_store \<Rightarrow> env_vars \<Rightarrow> string option \<Rightarrow> string option" where
  "resolveSecretValue s env ref =
    (case normalizeSecretRef ref of
       None \<Rightarrow> None
     | Some r \<Rightarrow> (case stored_secret s r of Some x \<Rightarrow> Some (secValue x) | None \<Rightarrow> env_secret env r))"

datatype secret_source = FromStore string | FromEnv | SecretMissing

definition getSecretStatus :: "secret_store \<Rightarrow> env_vars \<Rightarrow> string option \<Rightarrow> string \<times> secret_source" where
  "getSecretStatus s env ref =
    (case normalizeSecretRef ref of
       None \<Rightarrow> ([], SecretMissing)
     | Some r \<Rightarrow> (r, case stored_secret s r of
                      Some x \<Rightarrow> FromStore (secUpdatedAt x)
                    | None \<Rightarrow> if env_secret env r \<noteq> None then FromEnv else SecretMissing))"

definition secret_ready :: "secret_store \<Rightarrow> env_vars \<Rightarrow> string \<Rightarrow> bool" where
  "secret_ready s env r = (snd (getSecretStatus s env (Some r)) \<noteq> SecretMissing)"

text \<open>\<open>writeSecretValue\<close> answers that the secret is ready; an empty reference throws (\<open>Inl\<close>), so does a store that does not parse.\<close>

definition writeSecretValue :: "string \<Rightarrow> string \<Rightarrow> string \<Rightarrow> json_file \<Rightarrow> (string + string \<times> secret_source) \<times> json_file" where
  "writeSecretValue ref value now f =
    (case normalizeSecretRef (Some ref) of
       None \<Rightarrow> (Inl ''secretRef is required'', f)
     | Some r \<Rightarrow>
         (case readLocalSecretStoreFile f of
            None \<Rightarrow> (Inl ''SyntaxError'', f)
          | Some s \<Rightarrow> (Inr (r, FromStore now),
                       writeLocalSecretStoreFile (rec_put r \<lparr>secValue = value, secUpdatedAt = now\<rparr> s))))"

fun listSecretStatuses_go :: "secret_store \<Rightarrow> env_vars \<Rightarrow> string list \<Rightarrow> string option list \<Rightarrow> (string \<times> secret_source) list" where
  "listSecretStatuses_go s env seen [] = []"
| "listSecretStatuses_go s env seen (ref # refs) =
     (case normalizeSecretRef ref of
        None \<Rightarrow> listSecretStatuses_go s env seen refs
      | Some r \<Rightarrow> if r \<in> set seen then listSecretStatuses_go s env seen refs
                  else getSecretStatus s env (Some r) # listSecretStatuses_go s env (r # seen) refs)"

definition listSecretStatuses :: "secret_store \<Rightarrow> env_vars \<Rightarrow> string option list \<Rightarrow> (string \<times> secret_source) list" where
  "listSecretStatuses s env refs = listSecretStatuses_go s env [] refs"

lemma resolve_iff_ready: "resolveSecretValue s env (Some r) \<noteq> None \<longleftrightarrow> secret_ready s env r"
  by (auto simp: resolveSecretValue_def secret_ready_def getSecretStatus_def split: option.splits)

lemma resolved_nonempty: "resolveSecretValue s env ref = Some v \<Longrightarrow> js_trim v \<noteq> []"
  by (auto simp: resolveSecretValue_def stored_secret_def env_secret_def bind_eq_Some_conv
      dest!: trimmed_nonempty split: option.splits if_splits)

lemma secret_stable: "normalizeSecretRecord j = Some r \<Longrightarrow> normalizeSecretRecord (secret_json r) = Some r"
proof -
  have iso: "js_trim EPOCH_ISO = EPOCH_ISO" "EPOCH_ISO \<noteq> []"
    by (simp_all add: EPOCH_ISO_def js_trim_def trim_start_def trim_end_def is_ws_def)
  have "js_trim (updated_or_epoch fs) = updated_or_epoch fs \<and> updated_or_epoch fs \<noteq> []" for fs
    using iso by (auto simp: updated_or_epoch_def str_of_def dest!: trimmed_nonempty split: option.splits json.splits)
  moreover assume "normalizeSecretRecord j = Some r"
  ultimately show ?thesis
    using iso
    by (auto simp: normalizeSecretRecord_def secret_json_def updated_or_epoch_def [of "[_, _]"] str_of_def
        trimmed_def obj_get_Cons split: json.splits option.splits if_splits)
qed

interpretation secrets: normaliser normalizeSecretRecord secret_json
  by unfold_locales (rule secret_stable)

end
