(* ===== verification/Executor_Config.thy ===== *)
theory Executor_Config
  imports Executor_Catalog
begin

text \<open>
  The configuration of executors, providers, models and bindings
  (\<open>apps/api/src/services/executor-config-service.ts\<close>, \<open>apps/api/src/services/config-schemas.ts\<close>): reading it out of an untrusted JSON
  file, the readiness of an executor, and the operations of the settings page, which rewrite the file and, when something is deleted
  with its references, the rows of the agents. The file system answers; a file that does not parse makes the operation throw.
\<close>

section \<open>The records\<close>

record exec_record =
  erAuth :: "string option"
  erCommand :: "string option"
  erModel :: "string option"
  erSandbox :: "string option"
  erTimeout :: "int option"

datatype provider_auth =
    ChatgptSession
  | NoAuth
  | ApiKey string "string option" "string option"
  | OauthToken string "string option" "string option"

record header_rule =
  hdName :: string
  hdValue :: "string option"
  hdSecret :: "string option"
  hdEnv :: "string option"
  hdDialects :: "string list"
  hdModels :: "string list"

record provider_record =
  pvTransport :: exec_mode
  pvDialect :: string
  pvPreset :: "string option"
  pvLabel :: "string option"
  pvVendor :: "string option"
  pvBaseUrl :: "string option"
  pvAuth :: "provider_auth option"
  pvHeaders :: "header_rule list"
  pvCliCommand :: "string option"
  pvCliSandbox :: "string option"
  pvOverrides :: "(string \<times> json) list option"
  pvCapabilities :: "(string \<times> json) list option"
  pvQuirks :: "(string \<times> json) list option"

record reasoning_policy =
  rpMode :: string
  rpEffort :: "string option"
  rpBudget :: "int option"
  rpVisibility :: "string option"

record model_record =
  mdName :: string
  mdFallbacks :: "string list"
  mdLabel :: "string option"
  mdVendor :: "string option"
  mdContext :: "int option"
  mdMaxOutput :: "int option"
  mdCli :: "string option"
  mdApi :: "string option"
  mdReasoning :: "reasoning_policy option"
  mdOverrides :: "(string \<times> json) list option"
  mdHints :: "(string \<times> json) list option"
  mdCatalogProvider :: "string option"
  mdCatalogModel :: "string option"

record binding_record =
  bdMode :: exec_mode
  bdModel :: string
  bdProvider :: "string option"
  bdCommand :: "string option"
  bdSandbox :: "string option"
  bdTimeout :: "int option"

record exec_config =
  cfExecutors :: "(string \<times> exec_record) list"
  cfRouting :: "(string \<times> route) list"
  cfMapping :: "(string \<times> string) list"
  cfProviders :: "(string \<times> provider_record) list"
  cfModels :: "(string \<times> model_record) list"
  cfBindings :: "(string \<times> binding_record) list"

section \<open>Reading the records\<close>

definition EXEC_SANDBOX_MODES :: "string list" where
  "EXEC_SANDBOX_MODES = [''read-only'', ''workspace-write'', ''danger-full-access'']"

definition AUTH_MODES :: "string list" where
  "AUTH_MODES = [''chatgpt'', ''api_key'']"

definition DIALECTS :: "string list" where
  "DIALECTS = [''openai_chat_completions'', ''openai_responses'', ''anthropic_messages'', ''gemini_generate_content'', ''cli_native'']"

definition absent_or :: "(json \<Rightarrow> bool) \<Rightarrow> json option \<Rightarrow> bool" where
  "absent_or p v = (case v of None \<Rightarrow> True | Some j \<Rightarrow> p j)"

abbreviation field_is :: "(json \<Rightarrow> bool) \<Rightarrow> (string \<times> json) list \<Rightarrow> string \<Rightarrow> bool" where
  "field_is p fs k \<equiv> absent_or p (obj_get fs k)"

fun is_str :: "json \<Rightarrow> bool" where
  "is_str (JStr s) = True"
| "is_str _ = False"

fun is_json_num :: "json \<Rightarrow> bool" where
  "is_json_num (JNum n) = True"
| "is_json_num _ = False"

fun str_among :: "string list \<Rightarrow> json \<Rightarrow> bool" where
  "str_among vs (JStr s) = (s \<in> set vs)"
| "str_among vs _ = False"

text \<open>The code first accepts an object without any of the five keys; the tests that follow accept it as well.\<close>

definition isExecutorConfigRecord :: "(string \<times> json) list \<Rightarrow> bool" where
  "isExecutorConfigRecord fs =
    (field_is (str_among AUTH_MODES) fs ''authMode'' \<and> field_is is_str fs ''commandPath''
     \<and> field_is (str_among EXEC_SANDBOX_MODES) fs ''sandboxMode'' \<and> field_is is_str fs ''configuredModel''
     \<and> field_is is_json_num fs ''timeoutMs'')"

definition normalizeExecutorConfigRecord :: "(string \<times> json) list \<Rightarrow> exec_record" where
  "normalizeExecutorConfigRecord fs = \<lparr>erAuth = enum_field AUTH_MODES fs ''authMode'', erCommand = text_field fs ''commandPath'',
     erModel = text_field fs ''configuredModel'', erSandbox = enum_field EXEC_SANDBOX_MODES fs ''sandboxMode'',
     erTimeout = pos_field fs ''timeoutMs''\<rparr>"

definition normalize_executor :: "json \<Rightarrow> exec_record option" where
  "normalize_executor v = (case v of
     JObj fs \<Rightarrow> if isExecutorConfigRecord fs then Some (normalizeExecutorConfigRecord fs) else None | _ \<Rightarrow> None)"

definition executor_fields :: "exec_record \<Rightarrow> (string \<times> json) list" where
  "executor_fields r = may_field ''authMode'' JStr (erAuth r) @ may_field ''commandPath'' JStr (erCommand r)
     @ may_field ''configuredModel'' JStr (erModel r) @ may_field ''sandboxMode'' JStr (erSandbox r)
     @ may_field ''timeoutMs'' JNum (erTimeout r) @ []"

definition executor_json :: "exec_record \<Rightarrow> json" where
  "executor_json r = JObj (executor_fields r)"

definition normalizeProviderAuthConfig :: "json \<Rightarrow> provider_auth option" where
  "normalizeProviderAuthConfig v =
    (case v of
       JObj fs \<Rightarrow>
         (case obj_get fs ''kind'' of
            Some (JStr k) \<Rightarrow>
              if k = ''chatgpt_session'' then Some ChatgptSession
              else if k = ''none'' then Some NoAuth
              else if k \<in> {''api_key'', ''oauth_token''} then
                (case text_field fs ''secretRef'' of
                   None \<Rightarrow> None
                 | Some ref \<Rightarrow>
                     let prefix = (case obj_get fs ''prefix'' of Some (JStr p) \<Rightarrow> nonempty p | _ \<Rightarrow> None)
                     in Some ((if k = ''api_key'' then ApiKey else OauthToken) ref (text_field fs ''headerName'') prefix))
              else None
          | _ \<Rightarrow> None)
     | _ \<Rightarrow> None)"

definition key_fields :: "string \<Rightarrow> string \<Rightarrow> string option \<Rightarrow> string option \<Rightarrow> json" where
  "key_fields kind ref header prefix =
    JObj ((''kind'', JStr kind) # (''secretRef'', JStr ref) # may_field ''headerName'' JStr header @ may_field ''prefix'' JStr prefix @ [])"

fun auth_json :: "provider_auth \<Rightarrow> json" where
  "auth_json ChatgptSession = JObj [(''kind'', JStr ''chatgpt_session'')]"
| "auth_json NoAuth = JObj [(''kind'', JStr ''none'')]"
| "auth_json (ApiKey r h p) = key_fields ''api_key'' r h p"
| "auth_json (OauthToken r h p) = key_fields ''oauth_token'' r h p"

definition normalizeHeaderRule :: "json \<Rightarrow> header_rule option" where
  "normalizeHeaderRule v =
    (case v of
       JObj fs \<Rightarrow>
         (case text_field fs ''name'' of
            None \<Rightarrow> None
          | Some n \<Rightarrow> Some \<lparr>hdName = n, hdValue = text_field fs ''value'', hdSecret = text_field fs ''secretRef'',
              hdEnv = text_field fs ''envRef'',
              hdDialects = filter (\<lambda>d. d \<in> set DIALECTS) (json_strings_of (obj_get fs ''whenDialect'')),
              hdModels = filter (\<lambda>m. js_trim m \<noteq> []) (json_strings_of (obj_get fs ''whenModelPattern''))\<rparr>)
     | _ \<Rightarrow> None)"

definition header_json :: "header_rule \<Rightarrow> json" where
  "header_json h = JObj ((''name'', JStr (hdName h)) # may_field ''value'' JStr (hdValue h)
     @ may_field ''secretRef'' JStr (hdSecret h) @ may_field ''envRef'' JStr (hdEnv h)
     @ may_field ''whenDialect'' strings_json (nonempty (hdDialects h))
     @ may_field ''whenModelPattern'' strings_json (nonempty (hdModels h)) @ [])"

fun mode_name :: "exec_mode \<Rightarrow> string" where
  "mode_name CliMode = ''cli''"
| "mode_name ApiMode = ''api''"

definition mode_of :: "json option \<Rightarrow> exec_mode option" where
  "mode_of v = (case v of
     Some (JStr s) \<Rightarrow> if s = ''cli'' then Some CliMode else if s = ''api'' then Some ApiMode else None | _ \<Rightarrow> None)"

abbreviation mode_field :: "(string \<times> json) list \<Rightarrow> string \<Rightarrow> exec_mode option" where
  "mode_field fs k \<equiv> mode_of (obj_get fs k)"

definition json_or_null :: "json option \<Rightarrow> json" where
  "json_or_null v = (case v of None \<Rightarrow> JNull | Some j \<Rightarrow> j)"

definition normalizeProviderConfigRecord :: "json \<Rightarrow> provider_record option" where
  "normalizeProviderConfigRecord v =
    (case v of
       JObj fs \<Rightarrow>
         (case mode_field fs ''transport'' of
            None \<Rightarrow> None
          | Some t \<Rightarrow>
            (case enum_field DIALECTS fs ''apiDialect'' of
               None \<Rightarrow> None
             | Some d \<Rightarrow>
                 let cli = sub_obj fs ''cli''
                 in Some \<lparr>pvTransport = t, pvDialect = d, pvPreset = text_field fs ''presetId'', pvLabel = text_field fs ''label'',
                      pvVendor = text_field fs ''vendor'', pvBaseUrl = text_field fs ''baseUrl'',
                      pvAuth = Option.bind (obj_get fs ''auth'') normalizeProviderAuthConfig,
                      pvHeaders = normalize_list normalizeHeaderRule (json_or_null (obj_get fs ''headers'')),
                      pvCliCommand = text_field cli ''commandPath'', pvCliSandbox = enum_field EXEC_SANDBOX_MODES cli ''sandboxMode'',
                      pvOverrides = object_field fs ''requestOverrides'', pvCapabilities = object_field fs ''capabilities'',
                      pvQuirks = object_field fs ''quirks''\<rparr>))
     | _ \<Rightarrow> None)"

definition headers_json :: "header_rule list \<Rightarrow> json" where
  "headers_json hs = JArr (map header_json hs)"

definition cli_fields :: "provider_record \<Rightarrow> (string \<times> json) list" where
  "cli_fields p = may_field ''commandPath'' JStr (pvCliCommand p) @ may_field ''sandboxMode'' JStr (pvCliSandbox p) @ []"

definition provider_json :: "provider_record \<Rightarrow> json" where
  "provider_json p = JObj ((''transport'', JStr (mode_name (pvTransport p))) # (''apiDialect'', JStr (pvDialect p))
     # may_field ''presetId'' JStr (pvPreset p) @ may_field ''label'' JStr (pvLabel p) @ may_field ''vendor'' JStr (pvVendor p)
     @ may_field ''baseUrl'' JStr (pvBaseUrl p) @ may_field ''auth'' auth_json (pvAuth p)
     @ may_field ''headers'' headers_json (nonempty (pvHeaders p)) @ may_field ''cli'' JObj (nonempty (cli_fields p))
     @ may_field ''requestOverrides'' JObj (pvOverrides p) @ may_field ''capabilities'' JObj (pvCapabilities p)
     @ may_field ''quirks'' JObj (pvQuirks p) @ [])"

text \<open>The schema of a reasoning policy: strict, with a default mode.\<close>

definition EFFORTS :: "string list" where
  "EFFORTS = [''minimal'', ''low'', ''medium'', ''high'', ''xhigh'']"

definition REASONING_MODES :: "string list" where
  "REASONING_MODES = [''off'', ''auto'', ''on'']"

definition VISIBILITIES :: "string list" where
  "VISIBILITIES = [''hidden'', ''summary'', ''full'']"

definition REASONING_KEYS :: "string list" where
  "REASONING_KEYS = [''mode'', ''effort'', ''budgetTokens'', ''visibility'']"

definition keys_within :: "string list \<Rightarrow> (string \<times> json) list \<Rightarrow> bool" where
  "keys_within ks fs = list_all (\<lambda>e. fst e \<in> set ks) fs"

fun is_positive :: "json \<Rightarrow> bool" where
  "is_positive (JNum n) = (n > 0)"
| "is_positive _ = False"

definition normalizeReasoningPolicy :: "json \<Rightarrow> reasoning_policy option" where
  "normalizeReasoningPolicy v =
    (case v of
       JObj fs \<Rightarrow>
         if keys_within REASONING_KEYS fs
            \<and> field_is (str_among REASONING_MODES) fs ''mode'' \<and> field_is (str_among EFFORTS) fs ''effort''
            \<and> field_is is_positive fs ''budgetTokens'' \<and> field_is (str_among VISIBILITIES) fs ''visibility''
         then Some \<lparr>rpMode = (case enum_field REASONING_MODES fs ''mode'' of Some m \<Rightarrow> m | None \<Rightarrow> ''off''),
                    rpEffort = enum_field EFFORTS fs ''effort'', rpBudget = pos_field fs ''budgetTokens'',
                    rpVisibility = enum_field VISIBILITIES fs ''visibility''\<rparr>
         else None
     | _ \<Rightarrow> None)"

definition reasoning_json :: "reasoning_policy \<Rightarrow> json" where
  "reasoning_json r = JObj ((''mode'', JStr (rpMode r)) # may_field ''effort'' JStr (rpEffort r)
     @ may_field ''budgetTokens'' JNum (rpBudget r) @ may_field ''visibility'' JStr (rpVisibility r) @ [])"

definition normalizeModelProfileRecord :: "json \<Rightarrow> model_record option" where
  "normalizeModelProfileRecord v =
    (case v of
       JObj fs \<Rightarrow>
         (case text_field fs ''modelName'' of
            None \<Rightarrow> None
          | Some n \<Rightarrow>
              let refs = sub_obj fs ''providerRefs''
              in Some \<lparr>mdName = n,
                   mdFallbacks = js_uniq (filter (\<lambda>s. s \<noteq> []) (map js_trim (json_strings_of (obj_get fs ''fallbacks'')))),
                   mdLabel = text_field fs ''label'', mdVendor = text_field fs ''vendor'',
                   mdContext = pos_field fs ''contextWindow'', mdMaxOutput = pos_field fs ''maxOutputTokens'',
                   mdCli = text_field refs ''cli'', mdApi = text_field refs ''api'',
                   mdReasoning = Option.bind (obj_get fs ''defaultReasoning'') normalizeReasoningPolicy,
                   mdOverrides = object_field fs ''requestOverrides'', mdHints = object_field fs ''capabilityHints'',
                   mdCatalogProvider = text_field fs ''catalogProviderId'', mdCatalogModel = text_field fs ''catalogModelId''\<rparr>)
     | _ \<Rightarrow> None)"

definition refs_fields :: "model_record \<Rightarrow> (string \<times> json) list" where
  "refs_fields m = may_field ''cli'' JStr (mdCli m) @ may_field ''api'' JStr (mdApi m) @ []"

definition model_json :: "model_record \<Rightarrow> json" where
  "model_json m = JObj ((''modelName'', JStr (mdName m)) # may_field ''fallbacks'' strings_json (nonempty (mdFallbacks m))
     @ may_field ''label'' JStr (mdLabel m) @ may_field ''vendor'' JStr (mdVendor m)
     @ may_field ''contextWindow'' JNum (mdContext m) @ may_field ''maxOutputTokens'' JNum (mdMaxOutput m)
     @ may_field ''providerRefs'' JObj (nonempty (refs_fields m)) @ may_field ''defaultReasoning'' reasoning_json (mdReasoning m)
     @ may_field ''requestOverrides'' JObj (mdOverrides m) @ may_field ''capabilityHints'' JObj (mdHints m)
     @ may_field ''catalogProviderId'' JStr (mdCatalogProvider m) @ may_field ''catalogModelId'' JStr (mdCatalogModel m) @ [])"

definition normalizeBindingRecord :: "json \<Rightarrow> binding_record option" where
  "normalizeBindingRecord v =
    (case v of
       JObj fs \<Rightarrow>
         (case mode_field fs ''executionMode'' of
            None \<Rightarrow> None
          | Some t \<Rightarrow>
            (case text_field fs ''modelRef'' of
               None \<Rightarrow> None
             | Some m \<Rightarrow> Some \<lparr>bdMode = t, bdModel = m, bdProvider = text_field fs ''providerRef'',
                 bdCommand = text_field fs ''commandPath'', bdSandbox = enum_field EXEC_SANDBOX_MODES fs ''sandboxMode'',
                 bdTimeout = pos_field fs ''timeoutMs''\<rparr>))
     | _ \<Rightarrow> None)"

definition binding_json :: "binding_record \<Rightarrow> json" where
  "binding_json b = JObj ((''executionMode'', JStr (mode_name (bdMode b))) # (''modelRef'', JStr (bdModel b))
     # may_field ''providerRef'' JStr (bdProvider b) @ may_field ''commandPath'' JStr (bdCommand b)
     @ may_field ''sandboxMode'' JStr (bdSandbox b) @ may_field ''timeoutMs'' JNum (bdTimeout b) @ [])"

section \<open>What was read is read again unchanged\<close>

lemma absent_or_enum [js_rec, simp]: "absent_or (str_among vs) (map_option JStr (enum_of vs v))"
  by (auto simp: absent_or_def enum_of_def split: option.splits json.splits)

lemma absent_or_str [js_rec, simp]: "absent_or is_str (map_option JStr v)"
  by (simp add: absent_or_def split: option.splits)

lemma absent_or_num [js_rec, simp]: "absent_or is_json_num (map_option JNum v)"
  by (simp add: absent_or_def split: option.splits)

lemma absent_or_pos [js_rec, simp]: "absent_or is_positive (map_option JNum (pos_of v))"
  by (auto simp: absent_or_def pos_of_def split: option.splits json.splits)

lemma mode_of_stable [js_rec, simp]: "mode_of (Some (JStr (mode_name m))) = Some m"
  by (cases m) (simp_all add: mode_of_def)

lemma executor_stable: "normalize_executor j = Some r \<Longrightarrow> normalize_executor (executor_json r) = Some r"
  by (auto simp: normalize_executor_def executor_json_def executor_fields_def isExecutorConfigRecord_def
      normalizeExecutorConfigRecord_def split: json.splits if_splits)

lemma auth_stable:
  assumes "normalizeProviderAuthConfig j = Some r"
  shows "normalizeProviderAuthConfig (auth_json r) = Some r"
proof (cases r)
  case (ApiKey ref h p)
  then obtain fs where "text_field fs ''secretRef'' = Some ref" "h = text_field fs ''headerName''" "p = None \<or> (\<exists>x. p = nonempty x)"
    using assms by (auto simp: normalizeProviderAuthConfig_def Let_def split: json.splits option.splits if_splits)
  then show ?thesis
    by (auto simp: ApiKey normalizeProviderAuthConfig_def key_fields_def nonempty_def str_of_trimmed)
next
  case (OauthToken ref h p)
  then obtain fs where "text_field fs ''secretRef'' = Some ref" "h = text_field fs ''headerName''" "p = None \<or> (\<exists>x. p = nonempty x)"
    using assms by (auto simp: normalizeProviderAuthConfig_def Let_def split: json.splits option.splits if_splits)
  then show ?thesis
    by (auto simp: OauthToken normalizeProviderAuthConfig_def key_fields_def nonempty_def str_of_trimmed)
qed (simp_all add: normalizeProviderAuthConfig_def)

lemma header_stable:
  assumes "normalizeHeaderRule j = Some r"
  shows "normalizeHeaderRule (header_json r) = Some r"
proof -
  obtain fs n where j: "j = JObj fs" and n: "text_field fs ''name'' = Some n"
    using assms by (simp add: normalizeHeaderRule_def split: json.splits option.splits)
  show ?thesis
    using assms by (simp add: j n normalizeHeaderRule_def header_json_def str_of_trimmed [OF n]) (auto simp: str_of_trimmed [OF n])
qed

interpretation auths: normaliser normalizeProviderAuthConfig auth_json
  by unfold_locales (rule auth_stable)

interpretation headers: normaliser normalizeHeaderRule header_json
  by unfold_locales (rule header_stable)

lemma bind_stable [js_rec]: "normaliser norm enc \<Longrightarrow>
    Option.bind (map_option enc (Option.bind v norm)) norm = Option.bind v norm"
  by (cases v) (auto simp: normaliser_def split: Option.bind_splits)

lemma headers_back [js_rec, simp]: "normalize_list normalizeHeaderRule
    (json_or_null (map_option headers_json (nonempty (normalize_list normalizeHeaderRule v)))) = normalize_list normalizeHeaderRule v"
  using headers.list_stable [of v]
  by (auto simp: nonempty_def headers_json_def json_or_null_def normalize_list_def)

lemma provider_stable:
  assumes "normalizeProviderConfigRecord j = Some r"
  shows "normalizeProviderConfigRecord (provider_json r) = Some r"
proof -
  obtain fs t d where j: "j = JObj fs" and t: "mode_field fs ''transport'' = Some t" and d: "enum_field DIALECTS fs ''apiDialect'' = Some d"
    using assms by (simp add: normalizeProviderConfigRecord_def split: json.splits option.splits)
  have r: "r = the (normalizeProviderConfigRecord (JObj fs))"
    using assms by (simp add: j)
  show ?thesis
    by (simp add: r t d normalizeProviderConfigRecord_def provider_json_def cli_fields_def Let_def enum_of_member [OF d]
        bind_stable [OF auths.normaliser_axioms])
qed

lemma keys_within_simps [js_rec, simp]:
  "keys_within ks []"
  "keys_within ks ((k, v) # fs) \<longleftrightarrow> k \<in> set ks \<and> keys_within ks fs"
  "keys_within ks (xs @ ys) \<longleftrightarrow> keys_within ks xs \<and> keys_within ks ys"
  by (auto simp: keys_within_def)

lemma keys_within_may_field [js_rec, simp]: "k \<in> set ks \<Longrightarrow> keys_within ks (may_field k c v)"
  by (simp add: may_field_def split: option.splits)

lemma REASONING_KEYS_set [simp]: "set REASONING_KEYS = {''mode'', ''effort'', ''budgetTokens'', ''visibility''}"
  by (simp add: REASONING_KEYS_def)

lemma reasoning_stable:
  assumes "normalizeReasoningPolicy j = Some r"
  shows "normalizeReasoningPolicy (reasoning_json r) = Some r"
proof -
  obtain fs where j: "j = JObj fs"
    using assms by (simp add: normalizeReasoningPolicy_def split: json.splits)
  define m where "m = (case enum_field REASONING_MODES fs ''mode'' of Some m \<Rightarrow> m | None \<Rightarrow> ''off'')"
  have m: "m \<in> set REASONING_MODES"
    by (auto simp: m_def REASONING_MODES_def enum_of_def split: option.splits json.splits)
  have r: "r = \<lparr>rpMode = m, rpEffort = enum_field EFFORTS fs ''effort'', rpBudget = pos_field fs ''budgetTokens'',
      rpVisibility = enum_field VISIBILITIES fs ''visibility''\<rparr>"
    using assms by (simp add: j m_def normalizeReasoningPolicy_def split: if_splits)
  have mode: "absent_or (str_among REASONING_MODES) (Some (JStr m))" "enum_of REASONING_MODES (Some (JStr m)) = Some m"
    using m by (simp_all add: absent_or_def enum_of_def)
  show ?thesis
    by (simp add: r normalizeReasoningPolicy_def reasoning_json_def mode)
qed

interpretation reasonings: normaliser normalizeReasoningPolicy reasoning_json
  by unfold_locales (rule reasoning_stable)

lemma fallbacks_back [js_rec, simp]:
  "js_uniq (filter (\<lambda>s. s \<noteq> []) (map js_trim (js_uniq (filter (\<lambda>s. s \<noteq> []) (map js_trim xs)))))
    = js_uniq (filter (\<lambda>s. s \<noteq> []) (map js_trim xs))" (is "js_uniq (filter _ (map js_trim ?u)) = _")
proof -
  have "map js_trim ?u = ?u" by (intro map_idI) auto
  moreover have "filter (\<lambda>s. s \<noteq> []) ?u = ?u" by (auto simp: filter_id_conv)
  ultimately show ?thesis by (simp add: js_uniq_id)
qed

lemma model_stable:
  assumes "normalizeModelProfileRecord j = Some r"
  shows "normalizeModelProfileRecord (model_json r) = Some r"
proof -
  obtain fs n where j: "j = JObj fs" and n: "text_field fs ''modelName'' = Some n"
    using assms by (simp add: normalizeModelProfileRecord_def split: json.splits option.splits)
  have r: "r = the (normalizeModelProfileRecord (JObj fs))"
    using assms by (simp add: j)
  show ?thesis
    by (simp add: r n normalizeModelProfileRecord_def model_json_def refs_fields_def Let_def str_of_trimmed [OF n]
        bind_stable [OF reasonings.normaliser_axioms])
qed

lemma binding_stable:
  assumes "normalizeBindingRecord j = Some r"
  shows "normalizeBindingRecord (binding_json r) = Some r"
proof -
  obtain fs t m where j: "j = JObj fs" and t: "mode_field fs ''executionMode'' = Some t" and m: "text_field fs ''modelRef'' = Some m"
    using assms by (simp add: normalizeBindingRecord_def split: json.splits option.splits)
  have r: "r = the (normalizeBindingRecord (JObj fs))"
    using assms by (simp add: j)
  show ?thesis
    by (simp add: r t m normalizeBindingRecord_def binding_json_def str_of_trimmed [OF m])
qed

interpretation providers: normaliser normalizeProviderConfigRecord provider_json
  by unfold_locales (rule provider_stable)

interpretation models: normaliser normalizeModelProfileRecord model_json
  by unfold_locales (rule model_stable)

interpretation bindings: normaliser normalizeBindingRecord binding_json
  by unfold_locales (rule binding_stable)

interpretation executors: normaliser normalize_executor executor_json
  by unfold_locales (rule executor_stable)

section \<open>The routing of roles\<close>

fun strategy_name :: "routing_strategy \<Rightarrow> string" where
  "strategy_name AgentOnly = ''agent_only''"
| "strategy_name PreferAgent = ''prefer_agent''"
| "strategy_name FallbackModel = ''fallback_model''"
| "strategy_name ModelOnly = ''model_only''"

definition routing_strategy_of :: "json option \<Rightarrow> routing_strategy option" where
  "routing_strategy_of v = (case v of
     Some (JStr s) \<Rightarrow>
       if s = ''agent_only'' then Some AgentOnly else if s = ''prefer_agent'' then Some PreferAgent
       else if s = ''fallback_model'' then Some FallbackModel else if s = ''model_only'' then Some ModelOnly else None
   | _ \<Rightarrow> None)"

definition adapter_strategy :: "string \<Rightarrow> routing_strategy" where
  "adapter_strategy a = (case getExecutorCatalogEntry a of
     Some e \<Rightarrow> (if catType e = ModelExecutor then ModelOnly else AgentOnly) | None \<Rightarrow> AgentOnly)"

definition default_strategy :: "string \<Rightarrow> string \<Rightarrow> routing_strategy" where
  "default_strategy role a = (case getDefaultRoleRoutingForRole role of Some d \<Rightarrow> routeStrategy d | None \<Rightarrow> adapter_strategy a)"

definition default_fallback :: "string \<Rightarrow> string option" where
  "default_fallback role = Option.bind (getDefaultRoleRoutingForRole role) routeFallback"

definition normalize_route :: "string \<Rightarrow> json \<Rightarrow> route option" where
  "normalize_route role v =
    (case v of
       JStr s \<Rightarrow> map_option (\<lambda>a. \<lparr>routeAdapter = a, routeStrategy = default_strategy role a, routeFallback = default_fallback role\<rparr>) (trimmed s)
     | JObj fs \<Rightarrow> map_option (\<lambda>a.
         let strategy = (case routing_strategy_of (obj_get fs ''strategy'') of Some t \<Rightarrow> t | None \<Rightarrow> default_strategy role a);
             fallback = (case text_field fs ''fallbackAdapterId'' of
                           Some b \<Rightarrow> Some b
                         | None \<Rightarrow> if strategy = FallbackModel then default_fallback role else None)
         in \<lparr>routeAdapter = a, routeStrategy = strategy, routeFallback = fallback\<rparr>) (text_field fs ''adapterId'')
     | _ \<Rightarrow> None)"

definition route_json :: "route \<Rightarrow> json" where
  "route_json r = JObj ((''adapterId'', JStr (routeAdapter r)) # (''strategy'', JStr (strategy_name (routeStrategy r)))
     # may_field ''fallbackAdapterId'' JStr (routeFallback r) @ [])"

definition route_step :: "bool \<Rightarrow> string \<times> json \<Rightarrow> (string \<times> route) list \<Rightarrow> (string \<times> route) list" where
  "route_step hasExplicitLeader e m =
    (if fst e = ''manager'' \<and> hasExplicitLeader then m
     else let role = (if fst e = ''manager'' then ''leader'' else fst e)
          in case normalize_route role (snd e) of None \<Rightarrow> m | Some r \<Rightarrow> rec_put role r m)"

definition normalizeRoleRoutingMap :: "json \<Rightarrow> (string \<times> route) list" where
  "normalizeRoleRoutingMap v =
    (case v of
       JObj fs \<Rightarrow> let es = fromEntries fs in foldl (\<lambda>m e. route_step (''leader'' \<in> fst ` set es) e m) [] es
     | _ \<Rightarrow> [])"

definition normalize_mapping :: "json \<Rightarrow> string option" where
  "normalize_mapping v = str_of (Some v)"

lemma routing_strategy_of_stable [simp]: "routing_strategy_of (Some (JStr (strategy_name t))) = Some t"
  by (cases t) (simp_all add: routing_strategy_of_def)

text \<open>Text that trimming leaves alone; the default fallbacks are written that way.\<close>

definition clean :: "string \<Rightarrow> bool" where
  "clean s = (trimmed s = Some s)"

definition clean_opt :: "string option \<Rightarrow> bool" where
  "clean_opt v = (case v of None \<Rightarrow> True | Some s \<Rightarrow> clean s)"

lemma str_of_JStr [simp]: "str_of (Some (JStr s)) = trimmed s"
  by (simp add: str_of_def)

lemma str_of_None [simp]: "str_of None = None"
  by (simp add: str_of_def)

lemma clean_str_of: "str_of v = Some s \<Longrightarrow> clean s"
  using str_of_trimmed [of v s] by (simp add: clean_def)

lemma clean_trimmed: "trimmed s = Some t \<Longrightarrow> clean t"
  by (simp add: clean_def)

lemma clean_opt_str_of: "clean_opt (str_of v)"
  by (simp add: clean_opt_def clean_str_of split: option.splits)

lemma clean_default_fallback: "clean_opt (default_fallback role)"
  by (auto simp: default_fallback_def getDefaultRoleRoutingForRole_def DEFAULT_ROLE_ROUTING_def plain_route_def clean_opt_def
      clean_def trimmed_def js_trim_def trim_start_def trim_end_def is_ws_def)

definition route_ok :: "string \<Rightarrow> route \<Rightarrow> bool" where
  "route_ok role r = (clean (routeAdapter r) \<and> clean_opt (routeFallback r)
     \<and> (routeStrategy r = FallbackModel \<longrightarrow> routeFallback r = None \<longrightarrow> default_fallback role = None))"

definition picked_fallback :: "string \<Rightarrow> routing_strategy \<Rightarrow> string option \<Rightarrow> string option" where
  "picked_fallback role t given = (case given of Some b \<Rightarrow> Some b
     | None \<Rightarrow> if t = FallbackModel then default_fallback role else None)"

lemma picked_fallback_ok: "clean a \<Longrightarrow> clean_opt given \<Longrightarrow>
    route_ok role \<lparr>routeAdapter = a, routeStrategy = t, routeFallback = picked_fallback role t given\<rparr>"
  by (cases given) (simp_all add: route_ok_def picked_fallback_def clean_default_fallback clean_opt_def [of None])

lemma normalize_route_ok:
  assumes "normalize_route role v = Some r"
  shows "route_ok role r"
proof (cases v)
  case (JStr s)
  then show ?thesis
    using assms by (auto simp: normalize_route_def route_ok_def clean_trimmed clean_default_fallback)
next
  case (JObj fs)
  then obtain a t where "text_field fs ''adapterId'' = Some a"
    and "r = \<lparr>routeAdapter = a, routeStrategy = t, routeFallback = picked_fallback role t (text_field fs ''fallbackAdapterId'')\<rparr>"
    using assms by (auto simp: normalize_route_def Let_def picked_fallback_def)
  then show ?thesis
    by (simp add: picked_fallback_ok clean_str_of clean_opt_str_of)
qed (use assms in \<open>simp_all add: normalize_route_def\<close>)

lemma route_back: "route_ok role r \<Longrightarrow> normalize_route role (route_json r) = Some r"
  by (cases "routeFallback r")
    (simp_all add: normalize_route_def route_json_def route_ok_def clean_def clean_opt_def Let_def)

definition routing_ok :: "(string \<times> route) list \<Rightarrow> bool" where
  "routing_ok m = (rec_ok m \<and> (\<forall>e\<in>set m. fst e \<noteq> ''manager'' \<and> route_ok (fst e) (snd e)))"

lemma routing_ok_put: "routing_ok m \<Longrightarrow> role \<noteq> ''manager'' \<Longrightarrow> route_ok role r \<Longrightarrow> routing_ok (rec_put role r m)"
  using set_rec_put [of role r m] by (fastforce simp: routing_ok_def)

lemma routing_ok_del: "routing_ok m \<Longrightarrow> routing_ok (rec_del role m)"
  by (auto simp: routing_ok_def rec_del_def rec_ok_del [unfolded rec_del_def])

lemma route_step_ok: "routing_ok m \<Longrightarrow> routing_ok (route_step b e m)"
  by (auto simp: route_step_def Let_def intro!: routing_ok_put dest: normalize_route_ok split: option.splits)

lemma route_fold_ok: "routing_ok m \<Longrightarrow> routing_ok (foldl (\<lambda>m e. route_step b e m) m es)"
  by (induction es arbitrary: m) (simp_all add: route_step_ok)

lemma routing_ok_Nil [simp]: "routing_ok []"
  by (simp add: routing_ok_def)

lemma normalizeRoleRoutingMap_ok: "routing_ok (normalizeRoleRoutingMap v)"
  by (simp add: normalizeRoleRoutingMap_def Let_def route_fold_ok split: json.splits)

lemma route_fold_back:
  assumes "distinct (map fst (m @ es))" and "\<forall>e\<in>set es. fst e \<noteq> ''manager'' \<and> route_ok (fst e) (snd e)"
  shows "foldl (\<lambda>m e. route_step b e m) m (map (\<lambda>(k, r). (k, route_json r)) es) = m @ es"
  using assms
proof (induction es arbitrary: m)
  case (Cons e es)
  then have "route_step b (fst e, route_json (snd e)) m = m @ [e]"
    by (simp add: route_step_def route_back rec_put_fresh)
  then show ?case
    using Cons.IH [of "m @ [e]"] Cons.prems by (simp add: case_prod_unfold)
qed simp

lemma routing_back:
  assumes "routing_ok m"
  shows "normalizeRoleRoutingMap (map_json route_json m) = m"
proof -
  have "rec_ok (map (\<lambda>(k, r). (k, route_json r)) m)"
    using assms by (simp add: routing_ok_def rec_ok_def comp_def case_prod_unfold)
  then show ?thesis
    using assms route_fold_back [of "[]" m]
    by (simp add: normalizeRoleRoutingMap_def map_json_def fromEntries_id routing_ok_def rec_ok_def)
qed

interpretation mappings: normaliser normalize_mapping JStr
  by unfold_locales (auto simp: normalize_mapping_def clean_def [symmetric] dest: clean_str_of)

section \<open>The file\<close>

definition empty_config :: exec_config where
  "empty_config = \<lparr>cfExecutors = [], cfRouting = [], cfMapping = [], cfProviders = [], cfModels = [], cfBindings = []\<rparr>"

definition CONFIG_KEYS :: "string list" where
  "CONFIG_KEYS = [''executors'', ''roleRouting'', ''roleMapping'', ''providers'', ''models'', ''bindings'']"

definition normalizeConfigFile :: "json \<Rightarrow> exec_config" where
  "normalizeConfigFile v =
    (case v of
       JObj fs \<Rightarrow>
         if list_ex (\<lambda>k. obj_get fs k \<noteq> None) CONFIG_KEYS
         then \<lparr>cfExecutors = normalize_map normalize_executor (json_or_null (obj_get fs ''executors'')),
               cfRouting = normalizeRoleRoutingMap (json_or_null (obj_get fs ''roleRouting'')),
               cfMapping = normalize_map normalize_mapping (json_or_null (obj_get fs ''roleMapping'')),
               cfProviders = normalize_map normalizeProviderConfigRecord (json_or_null (obj_get fs ''providers'')),
               cfModels = normalize_map normalizeModelProfileRecord (json_or_null (obj_get fs ''models'')),
               cfBindings = normalize_map normalizeBindingRecord (json_or_null (obj_get fs ''bindings''))\<rparr>
         else empty_config\<lparr>cfExecutors := normalize_map normalize_executor v\<rparr>
     | _ \<Rightarrow> empty_config)"

definition config_json :: "exec_config \<Rightarrow> json" where
  "config_json c = JObj [(''executors'', map_json executor_json (cfExecutors c)), (''roleRouting'', map_json route_json (cfRouting c)),
     (''roleMapping'', map_json JStr (cfMapping c)), (''providers'', map_json provider_json (cfProviders c)),
     (''models'', map_json model_json (cfModels c)), (''bindings'', map_json binding_json (cfBindings c))]"

definition readExecutorConfigFile :: "json_file \<Rightarrow> exec_config option" where
  "readExecutorConfigFile f = (case f of NoFile \<Rightarrow> Some empty_config | FileText t \<Rightarrow> map_option normalizeConfigFile t)"

definition writeExecutorConfigFile :: "exec_config \<Rightarrow> json_file" where
  "writeExecutorConfigFile c = FileText (Some (config_json c))"

text \<open>A configuration in which every entry is one its normaliser returns.\<close>

definition entries_ok :: "(json \<Rightarrow> 'a option) \<Rightarrow> ('a \<Rightarrow> json) \<Rightarrow> (string \<times> 'a) list \<Rightarrow> bool" where
  "entries_ok norm enc m = (rec_ok m \<and> (\<forall>e\<in>set m. norm (enc (snd e)) = Some (snd e)))"

definition config_ok :: "exec_config \<Rightarrow> bool" where
  "config_ok c = (entries_ok normalize_executor executor_json (cfExecutors c) \<and> routing_ok (cfRouting c)
     \<and> entries_ok normalize_mapping JStr (cfMapping c) \<and> entries_ok normalizeProviderConfigRecord provider_json (cfProviders c)
     \<and> entries_ok normalizeModelProfileRecord model_json (cfModels c) \<and> entries_ok normalizeBindingRecord binding_json (cfBindings c))"

lemma entries_ok_Nil [simp]: "entries_ok norm enc []"
  by (simp add: entries_ok_def)

lemma entries_ok_put: "entries_ok norm enc m \<Longrightarrow> norm (enc r) = Some r \<Longrightarrow> entries_ok norm enc (rec_put k r m)"
  using set_rec_put [of k r m] by (fastforce simp: entries_ok_def)

lemma entries_ok_del: "entries_ok norm enc m \<Longrightarrow> entries_ok norm enc (rec_del k m)"
  by (auto simp: entries_ok_def rec_del_def rec_ok_del [unfolded rec_del_def])

lemma entries_ok_normalize: "normaliser norm enc \<Longrightarrow> entries_ok norm enc (normalize_map norm v)"
  by (auto simp: entries_ok_def dest: normaliser.map_members)

lemma entries_back: "normaliser norm enc \<Longrightarrow> entries_ok norm enc m \<Longrightarrow> normalize_map norm (map_json enc m) = m"
  by (auto simp: entries_ok_def intro: normaliser.map_reads)

lemmas config_codecs = executors.normaliser_axioms mappings.normaliser_axioms providers.normaliser_axioms
  models.normaliser_axioms bindings.normaliser_axioms

lemma config_ok_empty: "config_ok empty_config"
  by (simp add: config_ok_def empty_config_def routing_ok_def)

lemma config_ok_normalize: "config_ok (normalizeConfigFile v)"
  using config_ok_empty
  by (simp add: normalizeConfigFile_def config_ok_def config_codecs entries_ok_normalize normalizeRoleRoutingMap_ok split: json.splits)

lemma config_ok_read: "readExecutorConfigFile f = Some c \<Longrightarrow> config_ok c"
  by (auto simp: readExecutorConfigFile_def config_ok_normalize config_ok_empty split: json_file.splits)

lemma config_back: "config_ok c \<Longrightarrow> normalizeConfigFile (config_json c) = c"
  by (simp add: normalizeConfigFile_def config_json_def CONFIG_KEYS_def config_ok_def json_or_null_def config_codecs entries_back
      routing_back)

lemma read_write [simp]: "config_ok c \<Longrightarrow> readExecutorConfigFile (writeExecutorConfigFile c) = Some c"
  by (simp add: readExecutorConfigFile_def writeExecutorConfigFile_def config_back)

end
