(* ===== verification/Executor_Settings.thy ===== *)
theory Executor_Settings
  imports Executor_Config
begin

text \<open>
  What the configuration means and how it is changed (\<open>apps/api/src/services/executor-config-service.ts\<close>,
  \<open>apps/api/src/services/executor-slot-service.ts\<close>, \<open>apps/api/src/services/role-routing-service.ts\<close>): the readiness of
  providers, models, bindings and executors, the configuration an executor is started with, and the operations of the settings page.
\<close>

section \<open>Readiness\<close>

record settings_env =
  seStore :: secret_store
  seVars :: env_vars

definition ref_ready :: "settings_env \<Rightarrow> string \<Rightarrow> bool" where
  "ref_ready e r = secret_ready (seStore e) (seVars e) r"

definition filled :: "string option \<Rightarrow> bool" where
  "filled v = (case v of None \<Rightarrow> False | Some s \<Rightarrow> js_trim s \<noteq> [])"

definition uniqueStrings :: "string list \<Rightarrow> string list" where
  "uniqueStrings vs = js_uniq (filter (\<lambda>v. js_trim v \<noteq> []) vs)"

fun getProviderAuthSecretRefs :: "provider_auth option \<Rightarrow> string list" where
  "getProviderAuthSecretRefs (Some (ApiKey r h p)) = [r]"
| "getProviderAuthSecretRefs (Some (OauthToken r h p)) = [r]"
| "getProviderAuthSecretRefs _ = []"

definition option_list :: "'a option \<Rightarrow> 'a list" where
  "option_list v = (case v of None \<Rightarrow> [] | Some x \<Rightarrow> [x])"

definition collectSecretRefsFromHeaderRules :: "header_rule list \<Rightarrow> string list" where
  "collectSecretRefsFromHeaderRules hs =
    concat (map (\<lambda>h. option_list (normalizeSecretRef (hdSecret h)) @ option_list (normalizeSecretRef (hdEnv h))) hs)"

definition getSecretValueForAuth :: "settings_env \<Rightarrow> provider_auth option \<Rightarrow> string option" where
  "getSecretValueForAuth e a = (case getProviderAuthSecretRefs a of
     [] \<Rightarrow> None | r # _ \<Rightarrow> resolveSecretValue (seStore e) (seVars e) (Some r))"

definition api_issues :: "settings_env \<Rightarrow> provider_record \<Rightarrow> string list" where
  "api_issues e p =
    (if filled (pvBaseUrl p) then [] else [''baseUrl''])
    @ (if pvAuth p = None \<or> pvAuth p = Some NoAuth then [''auth'']
       else if list_all (ref_ready e) (getProviderAuthSecretRefs (pvAuth p)) then [] else [''auth.secretRef''])"

definition collectProviderReadinessIssues :: "settings_env \<Rightarrow> provider_record option \<Rightarrow> string list" where
  "collectProviderReadinessIssues e provider =
    (case provider of
       None \<Rightarrow> [''provider'']
     | Some p \<Rightarrow> uniqueStrings (
         (if pvTransport p = ApiMode then api_issues e p else [])
         @ (if pvTransport p = CliMode \<and> \<not> filled (pvCliCommand p) then [''commandPath''] else [])
         @ (if list_all (ref_ready e) (collectSecretRefsFromHeaderRules (pvHeaders p)) then [] else [''headers.secretRef''])))"

text \<open>A readiness is the list of what is missing; ready is the empty list.\<close>

definition getProviderReadiness :: "settings_env \<Rightarrow> provider_record option \<Rightarrow> string list" where
  "getProviderReadiness e p = collectProviderReadinessIssues e p"

definition getModelReadiness :: "exec_config \<Rightarrow> string option \<Rightarrow> string list" where
  "getModelReadiness c m =
    (case Option.bind m trimmed of None \<Rightarrow> [''model''] | Some r \<Rightarrow> if map_of (cfModels c) r \<noteq> None then [] else [''model''])"

definition or_str :: "string option \<Rightarrow> string option \<Rightarrow> string option" where
  "or_str a b = (if truthy_str a then a else b)"

definition truthy_opt :: "string option \<Rightarrow> string option" where
  "truthy_opt a = (if truthy_str a then a else None)"

definition model_provider :: "exec_mode \<Rightarrow> model_record option \<Rightarrow> string option" where
  "model_provider mode m = Option.bind m (if mode = ApiMode then mdApi else mdCli)"

definition binding_provider :: "exec_config \<Rightarrow> binding_record \<Rightarrow> string option" where
  "binding_provider c b = or_str (bdProvider b) (model_provider (bdMode b) (map_of (cfModels c) (bdModel b)))"

definition provider_at :: "exec_config \<Rightarrow> string option \<Rightarrow> provider_record option" where
  "provider_at c r = (if truthy_str r then map_of (cfProviders c) (the r) else None)"

definition getBindingReadiness :: "settings_env \<Rightarrow> exec_config \<Rightarrow> string \<Rightarrow> string list" where
  "getBindingReadiness e c a =
    (case map_of (cfBindings c) a of
       None \<Rightarrow> if filled (Option.bind (map_of (cfExecutors c) a) erModel) then [] else [''configuredModel'']
     | Some b \<Rightarrow>
         let ref = binding_provider c b
         in uniqueStrings ((if map_of (cfModels c) (bdModel b) = None then [''model''] else [])
              @ (if filled ref then [] else [''provider'']) @ collectProviderReadinessIssues e (provider_at c ref)))"

section \<open>The configuration of an executor\<close>

datatype config_source = SourceFile | SourceEnv | SourceDefault

record resolved_config =
  rsSource :: config_source
  rsMode :: "exec_mode option"
  rsAuth :: "string option"
  rsCommand :: "string option"
  rsModel :: "string option"
  rsSandbox :: "string option"
  rsTimeout :: "int option"
  rsProvider :: "string option"
  rsModelRef :: "string option"

definition mapProviderAuthToExecutorAuth :: "provider_auth option \<Rightarrow> string option" where
  "mapProviderAuthToExecutorAuth a = (case a of
     None \<Rightarrow> None | Some ChatgptSession \<Rightarrow> Some ''chatgpt'' | Some NoAuth \<Rightarrow> None | Some _ \<Rightarrow> Some ''api_key'')"

definition buildLegacyResolvedConfiguration :: "exec_record option \<Rightarrow> string option \<Rightarrow> resolved_config" where
  "buildLegacyResolvedConfiguration legacy envModel =
    \<lparr>rsSource = (if legacy \<noteq> None then SourceFile else if truthy_str envModel then SourceEnv else SourceDefault),
     rsMode = None, rsAuth = truthy_opt (Option.bind legacy erAuth), rsCommand = truthy_opt (Option.bind legacy erCommand),
     rsModel = truthy_opt (or_str (map_option js_trim (Option.bind legacy erModel)) envModel),
     rsSandbox = truthy_opt (Option.bind legacy erSandbox), rsTimeout = Option.bind legacy erTimeout,
     rsProvider = None, rsModelRef = None\<rparr>"

definition resolveExecutorConfiguration :: "exec_config \<Rightarrow> string \<Rightarrow> string option \<Rightarrow> resolved_config" where
  "resolveExecutorConfiguration c a envModel =
    (case map_of (cfBindings c) a of
       None \<Rightarrow> buildLegacyResolvedConfiguration (map_of (cfExecutors c) a) envModel
     | Some b \<Rightarrow>
         let m = map_of (cfModels c) (bdModel b);
             ref = binding_provider c b;
             p = provider_at c ref
         in \<lparr>rsSource = SourceFile, rsMode = Some (bdMode b), rsAuth = mapProviderAuthToExecutorAuth (Option.bind p pvAuth),
             rsCommand = truthy_opt (or_str (bdCommand b) (Option.bind p pvCliCommand)),
             rsModel = truthy_opt (map_option mdName m),
             rsSandbox = truthy_opt (or_str (bdSandbox b) (Option.bind p pvCliSandbox)),
             rsTimeout = bdTimeout b, rsProvider = truthy_opt ref, rsModelRef = Some (bdModel b)\<rparr>)"

definition env_model :: "settings_env \<Rightarrow> string \<Rightarrow> string option" where
  "env_model e key = map_option js_trim (seVars e key)"

definition getExecutorReadiness :: "settings_env \<Rightarrow> exec_config \<Rightarrow> string \<Rightarrow> string list" where
  "getExecutorReadiness e c a =
    (let envModel = Option.bind (getExecutorCatalogEntry a) (\<lambda>x. env_model e (catKey x));
         r = resolveExecutorConfiguration c a envModel
     in if map_of (cfBindings c) a \<noteq> None then getBindingReadiness e c a
        else uniqueStrings ((if filled (rsModel r) then [] else [''configuredModel''])
          @ (case rsMode r of
               Some ApiMode \<Rightarrow> if filled (rsProvider r)
                 then collectProviderReadinessIssues e (map_of (cfProviders c) (js_trim (the (rsProvider r)))) else [''provider'']
             | Some CliMode \<Rightarrow> if filled (rsCommand r) then [] else [''commandPath'']
             | None \<Rightarrow> [])))"

record exec_slot =
  slAdapter :: string
  slName :: string
  slType :: exec_type
  slRoles :: "string list"
  slKey :: string
  slMode :: exec_mode
  slConfigured :: bool
  slResolved :: resolved_config
  slMissing :: "string list"

definition slot_of :: "settings_env \<Rightarrow> exec_config \<Rightarrow> catalog_entry \<Rightarrow> exec_slot" where
  "slot_of e c x =
    (let r = resolveExecutorConfiguration c (catAdapter x) (env_model e (catKey x))
     in \<lparr>slAdapter = catAdapter x, slName = catName x, slType = catType x, slRoles = catRoles x, slKey = catKey x,
         slMode = (case rsMode r of Some t \<Rightarrow> t | None \<Rightarrow> catMode x), slConfigured = (rsModel r \<noteq> None), slResolved = r,
         slMissing = getExecutorReadiness e c (catAdapter x)\<rparr>)"

definition getExecutorSlotList :: "settings_env \<Rightarrow> exec_config \<Rightarrow> exec_slot list" where
  "getExecutorSlotList e c = map (slot_of e c) EXECUTOR_CATALOG"

record role_route =
  rrRole :: string
  rrRoute :: route
  rrFromFile :: bool
  rrAllowed :: "string list"

definition getRoleRoutingList :: "exec_config \<Rightarrow> role_route list" where
  "getRoleRoutingList c = map (\<lambda>(role, d).
     let r = (case map_of (cfRouting c) role of Some x \<Rightarrow> x | None \<Rightarrow> d)
     in \<lparr>rrRole = role, rrRoute = r\<lparr>routeFallback := truthy_opt (routeFallback r)\<rparr>, rrFromFile = (map_of (cfRouting c) role \<noteq> None),
         rrAllowed = map catAdapter (filter (\<lambda>x. role \<in> set (catRoles x)) EXECUTOR_CATALOG)\<rparr>) DEFAULT_ROLE_ROUTING"

text \<open>What a ready executor has.\<close>

lemma uniqueStrings_Nil [simp]: "uniqueStrings xs = [] \<longleftrightarrow> (\<forall>x\<in>set xs. js_trim x = [])"
  by (auto simp: uniqueStrings_def filter_empty_conv)

lemma issue_names [simp]:
  "js_trim ''baseUrl'' = ''baseUrl''" "js_trim ''auth'' = ''auth''" "js_trim ''auth.secretRef'' = ''auth.secretRef''"
  "js_trim ''commandPath'' = ''commandPath''" "js_trim ''headers.secretRef'' = ''headers.secretRef''"
  "js_trim ''model'' = ''model''" "js_trim ''provider'' = ''provider''" "js_trim ''configuredModel'' = ''configuredModel''"
  by (simp_all add: js_trim_def trim_start_def trim_end_def is_ws_def)

lemma in_uniqueStrings: "x \<in> set (uniqueStrings xs) \<Longrightarrow> js_trim x \<noteq> []"
  by (auto simp: uniqueStrings_def)

lemma issues_named: "x \<in> set (collectProviderReadinessIssues e p) \<Longrightarrow> js_trim x \<noteq> []"
  by (cases p) (auto simp: collectProviderReadinessIssues_def dest: in_uniqueStrings)

definition usable_provider :: "settings_env \<Rightarrow> provider_record \<Rightarrow> bool" where
  "usable_provider e p =
    ((pvTransport p = ApiMode \<longrightarrow> filled (pvBaseUrl p) \<and> pvAuth p \<noteq> None \<and> pvAuth p \<noteq> Some NoAuth
        \<and> (\<forall>r\<in>set (getProviderAuthSecretRefs (pvAuth p)). resolveSecretValue (seStore e) (seVars e) (Some r) \<noteq> None))
     \<and> (pvTransport p = CliMode \<longrightarrow> filled (pvCliCommand p))
     \<and> (\<forall>r\<in>set (collectSecretRefsFromHeaderRules (pvHeaders p)). resolveSecretValue (seStore e) (seVars e) (Some r) \<noteq> None))"

lemma provider_ready: "collectProviderReadinessIssues e q = [] \<longleftrightarrow> (\<exists>p. q = Some p \<and> usable_provider e p)"
proof (cases q)
  case (Some p)
  then show ?thesis
    by (cases "pvTransport p")
      (auto simp: collectProviderReadinessIssues_def usable_provider_def api_issues_def ref_ready_def resolve_iff_ready [symmetric] list_all_iff)
qed (simp add: collectProviderReadinessIssues_def)

lemma binding_ready:
  assumes "map_of (cfBindings c) a = Some b"
  shows "getBindingReadiness e c a = [] \<longleftrightarrow>
    (\<exists>m p. map_of (cfModels c) (bdModel b) = Some m \<and> filled (binding_provider c b)
       \<and> provider_at c (binding_provider c b) = Some p \<and> usable_provider e p)"
proof -
  have "(\<forall>x\<in>set (collectProviderReadinessIssues e q). js_trim x = []) \<longleftrightarrow> collectProviderReadinessIssues e q = []" for q
    using issues_named by (metis ex_in_conv list.set(1) set_empty)
  then show ?thesis
    by (auto simp: assms getBindingReadiness_def Let_def provider_ready ball_Un)
qed

section \<open>The operations of the settings page\<close>

record agent_row =
  agRole :: string
  agProvider :: "string option"
  agFallback :: "string option"
  agLegacy :: "string option"
  agModel :: "string option"
  agOverride :: "string option"

record settings_world =
  swFile :: json_file
  swAgents :: "agent_row list"

record provider_input =
  piPreset :: "string option option"
  piLabel :: "string option"
  piVendor :: "string option"
  piTransport :: exec_mode
  piDialect :: string
  piBaseUrl :: "string option"
  piAuth :: provider_auth
  piHeaders :: "header_rule list option"
  piCli :: "(string option \<times> string option) option"
  piOverrides :: "(string \<times> json) list option"
  piCapabilities :: "(string \<times> json) list option"
  piQuirks :: "(string \<times> json) list option"

text \<open>\<open>piPreset\<close> is \<open>None\<close> for an absent field, which keeps the preset the provider has, and \<open>Some None\<close> for \<open>null\<close>.\<close>

definition preset_after :: "provider_input \<Rightarrow> provider_record option \<Rightarrow> string option" where
  "preset_after i existing = (case piPreset i of None \<Rightarrow> Option.bind existing pvPreset | Some q \<Rightarrow> Option.bind q trimmed)"

definition provider_input_json :: "provider_input \<Rightarrow> provider_record option \<Rightarrow> json" where
  "provider_input_json i existing = JObj (may_field ''presetId'' JStr (truthy_opt (preset_after i existing))
     @ may_field ''label'' JStr (piLabel i) @ may_field ''vendor'' JStr (piVendor i)
     @ (''transport'', JStr (mode_name (piTransport i))) # (''apiDialect'', JStr (piDialect i))
     # may_field ''baseUrl'' JStr (piBaseUrl i) @ (''auth'', auth_json (piAuth i)) # may_field ''headers'' headers_json (piHeaders i)
     @ may_field ''cli'' (\<lambda>(cmd, sb). JObj (may_field ''commandPath'' JStr (truthy_opt cmd) @ may_field ''sandboxMode'' JStr (truthy_opt sb)))
         (piCli i)
     @ may_field ''requestOverrides'' JObj (piOverrides i) @ may_field ''capabilities'' JObj (piCapabilities i)
     @ may_field ''quirks'' JObj (piQuirks i))"

text \<open>An entry that does not normalise is deleted.\<close>

definition put_or_drop :: "string \<Rightarrow> 'a option \<Rightarrow> (string \<times> 'a) list \<Rightarrow> (string \<times> 'a) list" where
  "put_or_drop k v m = (case v of Some r \<Rightarrow> rec_put k r m | None \<Rightarrow> rec_del k m)"

definition updateProviderConfig :: "string \<Rightarrow> provider_input \<Rightarrow> exec_config \<Rightarrow> exec_config" where
  "updateProviderConfig ref i c = c\<lparr>cfProviders := put_or_drop ref
     (normalizeProviderConfigRecord (provider_input_json i (map_of (cfProviders c) ref))) (cfProviders c)\<rparr>"

record model_input =
  miName :: string
  miFallbacks :: "string list option"
  miLabel :: "string option"
  miVendor :: "string option"
  miContext :: "int option"
  miMaxOutput :: "int option"
  miRefs :: "(string option \<times> string option) option"
  miReasoning :: "json option"
  miOverrides :: "(string \<times> json) list option"
  miHints :: "(string \<times> json) list option"
  miCatalogProvider :: "string option"
  miCatalogModel :: "string option"

definition model_input_json :: "model_input \<Rightarrow> json" where
  "model_input_json i = JObj (may_field ''label'' JStr (miLabel i) @ may_field ''vendor'' JStr (miVendor i)
     @ (''modelName'', JStr (miName i)) # may_field ''fallbacks'' strings_json (miFallbacks i)
     @ may_field ''contextWindow'' JNum (miContext i) @ may_field ''maxOutputTokens'' JNum (miMaxOutput i)
     @ may_field ''providerRefs'' (\<lambda>(cli, api). JObj (may_field ''cli'' JStr (truthy_opt cli) @ may_field ''api'' JStr (truthy_opt api))) (miRefs i)
     @ may_field ''defaultReasoning'' id (miReasoning i) @ may_field ''requestOverrides'' JObj (miOverrides i)
     @ may_field ''capabilityHints'' JObj (miHints i) @ may_field ''catalogProviderId'' JStr (miCatalogProvider i)
     @ may_field ''catalogModelId'' JStr (miCatalogModel i))"

definition normalizeModelInput :: "model_input \<Rightarrow> model_record option" where
  "normalizeModelInput i = normalizeModelProfileRecord (model_input_json i)"

definition updateModelConfig :: "string \<Rightarrow> model_input \<Rightarrow> exec_config \<Rightarrow> exec_config" where
  "updateModelConfig ref i c = c\<lparr>cfModels := put_or_drop ref (normalizeModelInput i) (cfModels c)\<rparr>"

record batch_result =
  brAdded :: "string list"
  brSkipped :: "string list"
  brFailed :: "string list"

fun add_models :: "(string \<times> model_input) list \<Rightarrow> (string \<times> model_record) list \<Rightarrow> batch_result
    \<Rightarrow> (string \<times> model_record) list \<times> batch_result" where
  "add_models [] m r = (m, r)"
| "add_models ((i, x) # xs) m r =
     (let ref = js_trim i
      in if ref = [] then add_models xs m (r\<lparr>brFailed := brFailed r @ [i]\<rparr>)
         else if map_of m ref \<noteq> None then add_models xs m (r\<lparr>brSkipped := brSkipped r @ [ref]\<rparr>)
         else case normalizeModelInput x of
                None \<Rightarrow> add_models xs m (r\<lparr>brFailed := brFailed r @ [ref]\<rparr>)
              | Some n \<Rightarrow> add_models xs (rec_put ref n m) (r\<lparr>brAdded := brAdded r @ [ref]\<rparr>))"

definition addModelsBatch :: "(string \<times> model_input) list \<Rightarrow> exec_config \<Rightarrow> exec_config \<times> batch_result" where
  "addModelsBatch xs c =
    (let (m, r) = add_models xs (cfModels c) \<lparr>brAdded = [], brSkipped = [], brFailed = []\<rparr> in (c\<lparr>cfModels := m\<rparr>, r))"

record binding_input =
  biMode :: exec_mode
  biModel :: string
  biProvider :: "string option"
  biTimeout :: "int option"
  biCommand :: "string option"
  biSandbox :: "string option"

definition binding_input_json :: "binding_input \<Rightarrow> json" where
  "binding_input_json i = JObj ((''executionMode'', JStr (mode_name (biMode i))) # (''modelRef'', JStr (biModel i))
     # may_field ''providerRef'' JStr (truthy_opt (biProvider i)) @ may_field ''commandPath'' JStr (truthy_opt (biCommand i))
     @ may_field ''sandboxMode'' JStr (truthy_opt (biSandbox i)) @ may_field ''timeoutMs'' JNum (biTimeout i))"

definition updateExecutorBinding :: "string \<Rightarrow> binding_input \<Rightarrow> exec_config \<Rightarrow> exec_config" where
  "updateExecutorBinding a i c =
    c\<lparr>cfBindings := put_or_drop a (normalizeBindingRecord (binding_input_json i)) (cfBindings c)\<rparr>"

definition exec_input_fields :: "exec_record \<Rightarrow> (string \<times> json) list" where
  "exec_input_fields i = may_field ''authMode'' JStr (truthy_opt (erAuth i))
     @ may_field ''commandPath'' JStr (truthy_opt (map_option js_trim (erCommand i)))
     @ may_field ''configuredModel'' JStr (truthy_opt (map_option js_trim (erModel i)))
     @ may_field ''sandboxMode'' JStr (truthy_opt (erSandbox i)) @ may_field ''timeoutMs'' JNum (erTimeout i)"

definition updateExecutorConfig :: "string \<Rightarrow> exec_record \<Rightarrow> exec_config \<Rightarrow> exec_config" where
  "updateExecutorConfig a i c =
    (let nxt = normalizeExecutorConfigRecord (exec_input_fields i)
     in c\<lparr>cfExecutors := put_or_drop a (if executor_fields nxt \<noteq> [] then Some nxt else None) (cfExecutors c)\<rparr>)"

definition known_adapter :: "string option \<Rightarrow> string option" where
  "known_adapter a = (case Option.bind a trimmed of
     Some t \<Rightarrow> if getExecutorCatalogEntry t \<noteq> None then Some t else None | None \<Rightarrow> None)"

definition updateRoleRouting :: "string \<Rightarrow> string option \<Rightarrow> exec_config \<Rightarrow> exec_config" where
  "updateRoleRouting role a c = c\<lparr>cfRouting := put_or_drop role
     (map_option (\<lambda>t. \<lparr>routeAdapter = t, routeStrategy = default_strategy role t, routeFallback = default_fallback role\<rparr>)
        (known_adapter a)) (cfRouting c)\<rparr>"

definition updateRoleRoutingConfig :: "string \<Rightarrow> string option \<Rightarrow> routing_strategy option \<Rightarrow> string option \<Rightarrow> exec_config \<Rightarrow> exec_config" where
  "updateRoleRoutingConfig role a strategy fallback c = c\<lparr>cfRouting := put_or_drop role
     (map_option (\<lambda>t.
        let s = (case strategy of Some s \<Rightarrow> s | None \<Rightarrow> default_strategy role t);
            b = (case known_adapter fallback of Some b \<Rightarrow> Some b | None \<Rightarrow> default_fallback role)
        in \<lparr>routeAdapter = t, routeStrategy = s, routeFallback = (if s = FallbackModel then b else None)\<rparr>)
        (known_adapter a)) (cfRouting c)\<rparr>"

section \<open>Deleting with references\<close>

datatype config_ref = RefModel string string | RefBinding string string | RefAgent string string

definition if_ref :: "bool \<Rightarrow> 'a \<Rightarrow> 'a list" where
  "if_ref b x = (if b then [x] else [])"

fun ref_field :: "config_ref \<Rightarrow> string" where
  "ref_field (RefModel i f) = f"
| "ref_field (RefBinding a f) = f"
| "ref_field (RefAgent r f) = f"

definition agent_provider_refs :: "string \<Rightarrow> agent_row \<Rightarrow> config_ref list" where
  "agent_provider_refs p r = if_ref (agProvider r = Some p) (RefAgent (agRole r) ''providerId'')
     @ if_ref (agFallback r = Some p) (RefAgent (agRole r) ''fallbackProviderId'')
     @ if_ref (agLegacy r = Some p) (RefAgent (agRole r) ''provider'')"

definition findProviderReferences :: "string \<Rightarrow> exec_config \<Rightarrow> agent_row list \<Rightarrow> config_ref list" where
  "findProviderReferences p c rows =
    concat (map (\<lambda>(i, m). if_ref (mdCli m = Some p) (RefModel i ''providerRefs.cli'')
        @ if_ref (mdApi m = Some p) (RefModel i ''providerRefs.api'')) (cfModels c))
    @ concat (map (\<lambda>(a, b). if_ref (bdProvider b = Some p) (RefBinding a ''providerRef'')) (cfBindings c))
    @ concat (map (agent_provider_refs p) rows)"

definition agent_model_refs :: "string \<Rightarrow> agent_row \<Rightarrow> config_ref list" where
  "agent_model_refs m r = if_ref (agModel r = Some m) (RefAgent (agRole r) ''modelName'')
     @ if_ref (agOverride r = Some m) (RefAgent (agRole r) ''modelOverride'')"

definition findModelReferences :: "string \<Rightarrow> exec_config \<Rightarrow> agent_row list \<Rightarrow> config_ref list" where
  "findModelReferences m c rows =
    concat (map (\<lambda>(a, b). if_ref (bdModel b = m) (RefBinding a ''modelRef'')) (cfBindings c)) @ concat (map (agent_model_refs m) rows)"

record delete_cascade =
  dcBindings :: "string list"
  dcModelsCleared :: "string list"
  dcModelsRemoved :: "string list"
  dcAgents :: "(string \<times> string list) list"

datatype delete_reply = DeleteThrew | AlreadyGone | StillReferenced "config_ref list" | Deleted | DeletedWith delete_cascade

definition other_ref :: "string \<Rightarrow> string option \<Rightarrow> string option" where
  "other_ref p v = (if truthy_str v \<and> v \<noteq> Some p then v else None)"

definition names_provider :: "string \<Rightarrow> model_record \<Rightarrow> bool" where
  "names_provider p m = (mdCli m = Some p \<or> mdApi m = Some p)"

definition model_without :: "string \<Rightarrow> model_record \<Rightarrow> model_record option" where
  "model_without p m =
    (if \<not> names_provider p m then Some m
     else if other_ref p (mdCli m) = None \<and> other_ref p (mdApi m) = None then None
     else Some (m\<lparr>mdCli := other_ref p (mdCli m), mdApi := other_ref p (mdApi m)\<rparr>))"

definition models_without :: "string \<Rightarrow> (string \<times> model_record) list \<Rightarrow> (string \<times> model_record) list" where
  "models_without p ms = List.map_filter (\<lambda>(i, m). map_option (Pair i) (model_without p m)) ms"

definition cascade_provider :: "string \<Rightarrow> exec_config \<Rightarrow> exec_config" where
  "cascade_provider p c = c\<lparr>cfProviders := rec_del p (cfProviders c),
     cfBindings := filter (\<lambda>e. bdProvider (snd e) \<noteq> Some p) (cfBindings c), cfModels := models_without p (cfModels c)\<rparr>"

definition without :: "string \<Rightarrow> string option \<Rightarrow> string option" where
  "without p v = (if v = Some p then None else v)"

definition clear_provider :: "string \<Rightarrow> agent_row \<Rightarrow> agent_row" where
  "clear_provider p r = r\<lparr>agProvider := without p (agProvider r), agFallback := without p (agFallback r), agLegacy := without p (agLegacy r)\<rparr>"

definition provider_cascade :: "string \<Rightarrow> exec_config \<Rightarrow> agent_row list \<Rightarrow> delete_cascade" where
  "provider_cascade p c rows =
    \<lparr>dcBindings = map fst (filter (\<lambda>e. bdProvider (snd e) = Some p) (cfBindings c)),
     dcModelsCleared = map fst (filter (\<lambda>e. names_provider p (snd e) \<and> model_without p (snd e) \<noteq> None) (cfModels c)),
     dcModelsRemoved = map fst (filter (\<lambda>e. model_without p (snd e) = None) (cfModels c)),
     dcAgents = map (\<lambda>r. (agRole r, map ref_field (agent_provider_refs p r))) (filter (\<lambda>r. agent_provider_refs p r \<noteq> []) rows)\<rparr>"

definition deleteProviderConfig :: "string \<Rightarrow> bool \<Rightarrow> settings_world \<Rightarrow> delete_reply \<times> settings_world" where
  "deleteProviderConfig p cascade w =
    (case readExecutorConfigFile (swFile w) of
       None \<Rightarrow> (DeleteThrew, w)
     | Some c \<Rightarrow>
         if map_of (cfProviders c) p = None then (AlreadyGone, w)
         else if findProviderReferences p c (swAgents w) \<noteq> [] \<and> \<not> cascade
         then (StillReferenced (findProviderReferences p c (swAgents w)), w)
         else if cascade
         then (DeletedWith (provider_cascade p c (swAgents w)),
               w\<lparr>swFile := writeExecutorConfigFile (cascade_provider p c), swAgents := map (clear_provider p) (swAgents w)\<rparr>)
         else (Deleted, w\<lparr>swFile := writeExecutorConfigFile (c\<lparr>cfProviders := rec_del p (cfProviders c)\<rparr>)\<rparr>))"

definition cascade_model :: "string \<Rightarrow> exec_config \<Rightarrow> exec_config" where
  "cascade_model m c = c\<lparr>cfModels := rec_del m (cfModels c), cfBindings := filter (\<lambda>e. bdModel (snd e) \<noteq> m) (cfBindings c)\<rparr>"

definition clear_model :: "string \<Rightarrow> agent_row \<Rightarrow> agent_row" where
  "clear_model m r = r\<lparr>agModel := without m (agModel r), agOverride := without m (agOverride r)\<rparr>"

definition model_cascade :: "string \<Rightarrow> exec_config \<Rightarrow> agent_row list \<Rightarrow> delete_cascade" where
  "model_cascade m c rows =
    \<lparr>dcBindings = map fst (filter (\<lambda>e. bdModel (snd e) = m) (cfBindings c)), dcModelsCleared = [], dcModelsRemoved = [],
     dcAgents = map (\<lambda>r. (agRole r, map ref_field (agent_model_refs m r))) (filter (\<lambda>r. agent_model_refs m r \<noteq> []) rows)\<rparr>"

definition deleteModelConfig :: "string \<Rightarrow> bool \<Rightarrow> settings_world \<Rightarrow> delete_reply \<times> settings_world" where
  "deleteModelConfig m cascade w =
    (case readExecutorConfigFile (swFile w) of
       None \<Rightarrow> (DeleteThrew, w)
     | Some c \<Rightarrow>
         if map_of (cfModels c) m = None then (AlreadyGone, w)
         else if findModelReferences m c (swAgents w) \<noteq> [] \<and> \<not> cascade
         then (StillReferenced (findModelReferences m c (swAgents w)), w)
         else if cascade
         then (DeletedWith (model_cascade m c (swAgents w)),
               w\<lparr>swFile := writeExecutorConfigFile (cascade_model m c), swAgents := map (clear_model m) (swAgents w)\<rparr>)
         else (Deleted, w\<lparr>swFile := writeExecutorConfigFile (c\<lparr>cfModels := rec_del m (cfModels c)\<rparr>)\<rparr>))"

section \<open>Every update as one operation\<close>

datatype config_op =
    SetProvider string provider_input
  | SetModel string model_input
  | AddModels "(string \<times> model_input) list"
  | SetBinding string binding_input
  | SetExecutor string exec_record
  | SetRoute string "string option"
  | SetRouteConfig string "string option" "routing_strategy option" "string option"

fun op_config :: "config_op \<Rightarrow> exec_config \<Rightarrow> exec_config" where
  "op_config (SetProvider p i) c = updateProviderConfig p i c"
| "op_config (SetModel m i) c = updateModelConfig m i c"
| "op_config (AddModels xs) c = fst (addModelsBatch xs c)"
| "op_config (SetBinding a i) c = updateExecutorBinding a i c"
| "op_config (SetExecutor a i) c = updateExecutorConfig a i c"
| "op_config (SetRoute r a) c = updateRoleRouting r a c"
| "op_config (SetRouteConfig r a s b) c = updateRoleRoutingConfig r a s b c"

fun op_writes :: "config_op \<Rightarrow> exec_config \<Rightarrow> bool" where
  "op_writes (AddModels xs) c = (brAdded (snd (addModelsBatch xs c)) \<noteq> [])"
| "op_writes _ c = True"

text \<open>\<open>None\<close>: the file did not parse, and the operation threw before it changed anything.\<close>

definition run_op :: "config_op \<Rightarrow> json_file \<Rightarrow> json_file option" where
  "run_op x f = (case readExecutorConfigFile f of
     None \<Rightarrow> None | Some c \<Rightarrow> Some (if op_writes x c then writeExecutorConfigFile (op_config x c) else f))"

fun op_role :: "config_op \<Rightarrow> string option" where
  "op_role (SetRoute r a) = Some r"
| "op_role (SetRouteConfig r a s b) = Some r"
| "op_role _ = None"

section \<open>Every update leaves a configuration that is read back\<close>

lemma put_or_drop_ok: "entries_ok norm enc m \<Longrightarrow> (\<And>r. v = Some r \<Longrightarrow> norm (enc r) = Some r) \<Longrightarrow> entries_ok norm enc (put_or_drop k v m)"
  by (cases v) (simp_all add: put_or_drop_def entries_ok_put entries_ok_del)

lemma executor_back: "normalize_executor (executor_json (normalizeExecutorConfigRecord fs)) = Some (normalizeExecutorConfigRecord fs)"
  by (simp add: normalize_executor_def executor_json_def executor_fields_def isExecutorConfigRecord_def
      normalizeExecutorConfigRecord_def)

lemma add_models_ok: "entries_ok normalizeModelProfileRecord model_json m \<Longrightarrow>
    entries_ok normalizeModelProfileRecord model_json (fst (add_models xs m r))"
proof (induction xs arbitrary: m r)
  case (Cons y xs)
  show ?case
    using Cons.prems
    by (cases y) (auto simp: Let_def normalizeModelInput_def intro!: Cons.IH entries_ok_put dest: model_stable split: option.splits)
qed simp

lemma known_adapter_clean: "known_adapter a = Some t \<Longrightarrow> clean t"
  by (auto simp: known_adapter_def bind_eq_Some_conv clean_def split: option.splits if_splits)

lemma routing_put_or_drop: "routing_ok m \<Longrightarrow> role \<noteq> ''manager'' \<Longrightarrow> (\<And>r. v = Some r \<Longrightarrow> route_ok role r) \<Longrightarrow>
    routing_ok (put_or_drop role v m)"
  by (cases v) (simp_all add: put_or_drop_def routing_ok_put routing_ok_del)

lemma set_route_ok: "clean t \<Longrightarrow> route_ok role \<lparr>routeAdapter = t, routeStrategy = s, routeFallback = default_fallback role\<rparr>"
  by (simp add: route_ok_def clean_default_fallback)

lemma set_route_config_ok:
  assumes "clean t"
  shows "route_ok role \<lparr>routeAdapter = t, routeStrategy = s,
    routeFallback = (if s = FallbackModel then case known_adapter b of Some x \<Rightarrow> Some x | None \<Rightarrow> default_fallback role else None)\<rparr>"
  using assms clean_default_fallback [of role]
  by (auto simp: route_ok_def clean_opt_def dest: known_adapter_clean split: option.splits)

lemma op_config_ok:
  assumes "config_ok c" and "op_role x \<noteq> Some ''manager''"
  shows "config_ok (op_config x c)"
proof (cases x)
  case (SetProvider p i)
  then show ?thesis
    using assms by (simp add: config_ok_def updateProviderConfig_def put_or_drop_ok provider_stable)
next
  case (SetModel m i)
  then show ?thesis
    using assms by (simp add: config_ok_def updateModelConfig_def put_or_drop_ok normalizeModelInput_def model_stable)
next
  case (AddModels xs)
  then show ?thesis
    using assms add_models_ok [of "cfModels c" xs]
    by (simp add: config_ok_def addModelsBatch_def case_prod_unfold Let_def)
next
  case (SetBinding a i)
  then show ?thesis
    using assms by (simp add: config_ok_def updateExecutorBinding_def put_or_drop_ok binding_stable)
next
  case (SetExecutor a i)
  then show ?thesis
    using assms by (simp add: config_ok_def updateExecutorConfig_def put_or_drop_def entries_ok_put entries_ok_del executor_back Let_def)
next
  case (SetRoute r a)
  then show ?thesis
    using assms by (auto simp: config_ok_def updateRoleRouting_def intro!: routing_put_or_drop set_route_ok dest: known_adapter_clean)
next
  case (SetRouteConfig r a s b)
  then show ?thesis
    using assms
    by (auto simp: config_ok_def updateRoleRoutingConfig_def Let_def intro!: routing_put_or_drop set_route_config_ok
        dest: known_adapter_clean)
qed

lemma add_models_added: "brAdded (snd (add_models xs m r)) = brAdded r \<Longrightarrow> fst (add_models xs m r) = m"
proof -
  have grow: "length (brAdded r) \<le> length (brAdded (snd (add_models xs m r)))" for xs m r
  proof (induction xs arbitrary: m r)
    case (Cons y xs)
    show ?case
      using Cons.IH by (cases y) (fastforce simp: Let_def split: option.splits intro: le_trans [rotated])
  qed simp
  assume "brAdded (snd (add_models xs m r)) = brAdded r"
  then show ?thesis
  proof (induction xs arbitrary: r)
    case (Cons y xs)
    obtain i x where y: "y = (i, x)" by (cases y)
    consider "js_trim i = []" | "js_trim i \<noteq> []" "map_of m (js_trim i) \<noteq> None"
      | "js_trim i \<noteq> []" "map_of m (js_trim i) = None" "normalizeModelInput x = None"
      | n where "js_trim i \<noteq> []" "map_of m (js_trim i) = None" "normalizeModelInput x = Some n" by fastforce
    then show ?case
    proof cases
      case (4 n)
      then have "brAdded (snd (add_models xs (rec_put (js_trim i) n m) (r\<lparr>brAdded := brAdded r @ [js_trim i]\<rparr>))) = brAdded r"
        using Cons.prems by (simp add: y Let_def)
      then have False
        using grow [of "r\<lparr>brAdded := brAdded r @ [js_trim i]\<rparr>" xs "rec_put (js_trim i) n m"] by simp
      then show ?thesis ..
    qed (use Cons.prems Cons.IH in \<open>auto simp: y Let_def\<close>)
  qed simp
qed

lemma op_silent: "\<not> op_writes x c \<Longrightarrow> op_config x c = c"
  using add_models_added [of _ "cfModels c" "\<lparr>brAdded = [], brSkipped = [], brFailed = []\<rparr>"]
  by (cases x) (auto simp: addModelsBatch_def case_prod_unfold Let_def)

lemma run_op_read:
  assumes "readExecutorConfigFile f = Some c" and "op_role x \<noteq> Some ''manager''"
  shows "\<exists>f'. run_op x f = Some f' \<and> readExecutorConfigFile f' = Some (op_config x c)"
  using assms op_silent [of x c] by (auto simp: run_op_def op_config_ok config_ok_read)

section \<open>Deletion\<close>

lemma normalize_model_refs: "normalizeModelProfileRecord (model_json (m\<lparr>mdCli := x, mdApi := y\<rparr>))
    = map_option (\<lambda>n. n\<lparr>mdCli := str_of (map_option JStr x), mdApi := str_of (map_option JStr y)\<rparr>) (normalizeModelProfileRecord (model_json m))"
  by (simp add: normalizeModelProfileRecord_def model_json_def refs_fields_def Let_def split: option.splits)

lemma normalize_model_own_refs:
  assumes "normalizeModelProfileRecord (model_json m) = Some m"
  shows "str_of (map_option JStr (mdCli m)) = mdCli m" and "str_of (map_option JStr (mdApi m)) = mdApi m"
proof -
  have "m\<lparr>mdCli := mdCli m, mdApi := mdApi m\<rparr> = m" by simp
  then have e: "m\<lparr>mdCli := str_of (map_option JStr (mdCli m)), mdApi := str_of (map_option JStr (mdApi m))\<rparr> = m"
    using normalize_model_refs [where m = m and x = "mdCli m" and y = "mdApi m"] assms by simp
  from arg_cong [OF e, of mdCli] show "str_of (map_option JStr (mdCli m)) = mdCli m" by simp
  from arg_cong [OF e, of mdApi] show "str_of (map_option JStr (mdApi m)) = mdApi m" by simp
qed

lemma str_of_other_ref: "str_of (map_option JStr v) = v \<Longrightarrow> str_of (map_option JStr (other_ref p v)) = other_ref p v"
  by (simp add: other_ref_def)

lemma model_without_stable:
  assumes "normalizeModelProfileRecord (model_json m) = Some m" and "model_without p m = Some m'"
  shows "normalizeModelProfileRecord (model_json m') = Some m'"
proof (cases "names_provider p m")
  case True
  then have "m' = m\<lparr>mdCli := other_ref p (mdCli m), mdApi := other_ref p (mdApi m)\<rparr>"
    using assms(2) by (simp add: model_without_def split: if_splits)
  moreover have "str_of (map_option JStr (other_ref p (mdCli m))) = other_ref p (mdCli m)"
    "str_of (map_option JStr (other_ref p (mdApi m))) = other_ref p (mdApi m)"
    using normalize_model_own_refs [OF assms(1)] by (simp_all only: str_of_other_ref)
  ultimately show ?thesis
    by (simp only: normalize_model_refs assms(1) option.map)
qed (use assms in \<open>simp add: model_without_def\<close>)

lemma map_of_models_without: "rec_ok ms \<Longrightarrow> map_of (models_without p ms) i = Option.bind (map_of ms i) (model_without p)"
proof (induction ms)
  case (Cons e ms)
  have fresh: "map_of (models_without p xs) (fst e) = None" if "fst e \<notin> fst ` set xs" for xs
    using that by (induction xs) (auto simp: models_without_def map_filter_simps split: option.splits)
  then show ?case
    using Cons by (cases e) (auto simp: models_without_def map_filter_simps rec_ok_def split: option.splits)
qed (simp add: models_without_def)

lemma models_without_ok:
  assumes "entries_ok normalizeModelProfileRecord model_json ms"
  shows "entries_ok normalizeModelProfileRecord model_json (models_without p ms)"
proof -
  have "map fst (models_without p ms) = map fst (filter (\<lambda>(k, m). model_without p m \<noteq> None) ms)"
    by (simp add: models_without_def keys_map_filter)
  moreover have "distinct (map fst ms)"
    using assms by (simp add: entries_ok_def rec_ok_def)
  ultimately have "rec_ok (models_without p ms)"
    by (simp add: rec_ok_def distinct_map_filter)
  then show ?thesis
    using assms by (auto simp: entries_ok_def models_without_def dest!: set_map_filterE intro: model_without_stable)
qed

lemma entries_ok_filter: "entries_ok norm enc m \<Longrightarrow> entries_ok norm enc (filter q m)"
  by (auto simp: entries_ok_def rec_ok_def distinct_map_filter)

lemma cascade_provider_ok: "config_ok c \<Longrightarrow> config_ok (cascade_provider p c)"
  by (simp add: config_ok_def cascade_provider_def entries_ok_del entries_ok_filter models_without_ok)

lemma cascade_model_ok: "config_ok c \<Longrightarrow> config_ok (cascade_model m c)"
  by (simp add: config_ok_def cascade_model_def entries_ok_del entries_ok_filter)

lemma model_without_refs: "model_without p m = Some m' \<Longrightarrow> mdCli m' \<noteq> Some p \<and> mdApi m' \<noteq> Some p"
  by (auto simp: model_without_def names_provider_def other_ref_def split: if_splits)

lemma clear_provider_refs [simp]: "agent_provider_refs p (clear_provider p r) = []"
  by (simp add: agent_provider_refs_def clear_provider_def without_def if_ref_def)

lemma clear_model_refs [simp]: "agent_model_refs m (clear_model m r) = []"
  by (simp add: agent_model_refs_def clear_model_def without_def if_ref_def)

lemma cascade_provider_refs: "findProviderReferences p (cascade_provider p c) (map (clear_provider p) rows) = []"
  by (auto simp: findProviderReferences_def cascade_provider_def models_without_def if_ref_def
      dest!: set_map_filterE dest: model_without_refs)

lemma cascades_delete [simp]:
  "map_of (cfProviders (cascade_provider p c)) p = None" "map_of (cfModels (cascade_model m c)) m = None"
  by (simp_all add: cascade_provider_def cascade_model_def)

lemma references_elsewhere [simp]:
  "findProviderReferences p (c\<lparr>cfProviders := x\<rparr>) rows = findProviderReferences p c rows"
  "findModelReferences m (c\<lparr>cfModels := y\<rparr>) rows = findModelReferences m c rows"
  by (simp_all add: findProviderReferences_def findModelReferences_def)

lemma cascade_model_refs: "findModelReferences m (cascade_model m c) (map (clear_model m) rows) = []"
  by (auto simp: findModelReferences_def cascade_model_def if_ref_def)

section \<open>The routes of the settings page\<close>

text \<open>
  \<open>PUT /settings/role-routing/:roleId\<close> and \<open>PUT /settings/providers/:providerId/secret\<close>
  (\<open>apps/api/src/routes/settings.ts\<close>). The schemas trim the ids of the first; the key of the second has to be non-empty.
\<close>

datatype routing_reply = RoutingThrew | RoleNotFound | InvalidAdapter | InvalidFallback | RoutingSaved

definition put_role_routing :: "string \<Rightarrow> string option \<Rightarrow> routing_strategy option \<Rightarrow> string option \<Rightarrow> json_file \<Rightarrow> routing_reply \<times> json_file" where
  "put_role_routing role adapter strategy fallback f =
    (case readExecutorConfigFile f of
       None \<Rightarrow> (RoutingThrew, f)
     | Some c \<Rightarrow>
         (case find (\<lambda>r. rrRole r = role) (getRoleRoutingList c) of
            None \<Rightarrow> (RoleNotFound, f)
          | Some target \<Rightarrow>
              let a = map_option js_trim adapter; b = map_option js_trim fallback
              in if truthy_str a \<and> the a \<notin> set (rrAllowed target) then (InvalidAdapter, f)
                 else if truthy_str b \<and> the b \<notin> set (rrAllowed target) then (InvalidFallback, f)
                 else (RoutingSaved, the (run_op (SetRouteConfig role a strategy (truthy_opt b)) f))))"

datatype secret_reply = ConfigThrew | ProviderNotFound | SecretThrew string | SecretWritten "string \<times> secret_source"

text \<open>The upper case of the letters of ASCII; ids with others do not occur.\<close>

definition derived_secret_ref :: "string \<Rightarrow> string" where
  "derived_secret_ref i = map (\<lambda>c. if c = CHR ''-'' then CHR ''_'' else if is_lower c then char_of (char_nat c - 32) else c) i @ ''_API_KEY''"

definition provider_secret_ref :: "string \<Rightarrow> provider_record \<Rightarrow> string" where
  "provider_secret_ref i p =
    (case getProviderAuthSecretRefs (pvAuth p) of r # _ \<Rightarrow> (if r \<noteq> [] then r else derived_secret_ref i) | [] \<Rightarrow> derived_secret_ref i)"

definition put_provider_secret ::
  "string \<Rightarrow> string \<Rightarrow> string \<Rightarrow> json_file \<Rightarrow> json_file \<Rightarrow> secret_reply \<times> json_file" where
  "put_provider_secret i value now cf sf =
    (case readExecutorConfigFile cf of
       None \<Rightarrow> (ConfigThrew, sf)
     | Some c \<Rightarrow>
         (case map_of (cfProviders c) i of
            None \<Rightarrow> (ProviderNotFound, sf)
          | Some p \<Rightarrow>
              (case writeSecretValue (provider_secret_ref i p) value now sf of
                 (Inl err, sf') \<Rightarrow> (SecretThrew err, sf')
               | (Inr status, sf') \<Rightarrow> (SecretWritten status, sf'))))"

section \<open>Properties\<close>

lemma read_write_secrets:
  assumes "entries_ok normalizeSecretRecord secret_json s"
  shows "readLocalSecretStoreFile (writeLocalSecretStoreFile s) = Some s"
  using assms entries_back [OF secrets.normaliser_axioms]
  by (simp add: readLocalSecretStoreFile_def writeLocalSecretStoreFile_def normalizeLocalSecretStore_def map_json_def)

lemma secrets_normalized_ok: "entries_ok normalizeSecretRecord secret_json (normalizeLocalSecretStore v)"
  by (simp add: normalizeLocalSecretStore_def entries_ok_normalize [OF secrets.normaliser_axioms] split: json.split option.split)

lemma secrets_read_ok: "readLocalSecretStoreFile f = Some s \<Longrightarrow> entries_ok normalizeSecretRecord secret_json s"
  by (cases f) (auto simp: readLocalSecretStoreFile_def secrets_normalized_ok)

lemma secret_written_back:
  assumes "value \<noteq> []" and "trimmed now = Some now"
  shows "normalizeSecretRecord (secret_json \<lparr>secValue = value, secUpdatedAt = now\<rparr>) = Some \<lparr>secValue = value, secUpdatedAt = now\<rparr>"
  using assms by (simp add: normalizeSecretRecord_def secret_json_def updated_or_epoch_def)

lemma written_store:
  assumes "writeSecretValue ref value now f = (Inr st, f')" and "value \<noteq> []" and "trimmed now = Some now"
  shows "\<exists>r s. normalizeSecretRef (Some ref) = Some r \<and> readLocalSecretStoreFile f = Some s \<and> st = (r, FromStore now)
    \<and> readLocalSecretStoreFile f' = Some (rec_put r \<lparr>secValue = value, secUpdatedAt = now\<rparr> s)"
  using assms
  using read_write_secrets [OF entries_ok_put [OF secrets_read_ok secret_written_back [OF assms(2,3)]]]
  by (auto simp: writeSecretValue_def split: option.splits)

text \<open>A secret that is written is the one that is resolved. After a write of a value that is not blank, its reference resolves to
  that value whatever the environment holds, and every other reference resolves as before.\<close>

theorem written_secret_resolves:
  assumes "writeSecretValue ref value now f = (Inr st, f')" and "js_trim value \<noteq> []" and "trimmed now = Some now"
    and "readLocalSecretStoreFile f = Some s"
  shows "\<exists>s'. readLocalSecretStoreFile f' = Some s' \<and> resolveSecretValue s' env (Some ref) = Some value
    \<and> snd (getSecretStatus s' env (Some ref)) = FromStore now
    \<and> (\<forall>other. js_trim other = js_trim ref \<or> resolveSecretValue s' env (Some other) = resolveSecretValue s env (Some other))"
proof -
  have "value \<noteq> []" using assms(2) by (auto simp: js_trim_def trim_start_def trim_end_def)
  then obtain r where r: "normalizeSecretRef (Some ref) = Some r"
    and s': "readLocalSecretStoreFile f' = Some (rec_put r \<lparr>secValue = value, secUpdatedAt = now\<rparr> s)"
    using written_store [OF assms(1) _ assms(3)] assms(4) by auto
  have own: "r = js_trim ref" "js_trim ref \<noteq> []" using r by (auto simp: normalizeSecretRef_def trimmed_def split: if_splits)
  show ?thesis
    using assms(2) own
    by (intro exI [of _ "rec_put r \<lparr>secValue = value, secUpdatedAt = now\<rparr> s"])
      (auto simp: s' r resolveSecretValue_def getSecretStatus_def stored_secret_def normalizeSecretRef_def trimmed_def
        split: option.splits)
qed

theorem written_secret_resolves_witness:
  "\<exists>s'. readLocalSecretStoreFile (snd (writeSecretValue ''KEY'' ''sk-1'' ''2026-01-01'' NoFile)) = Some s'
    \<and> resolveSecretValue s' (\<lambda>_. None) (Some ''KEY'') = Some ''sk-1''"
proof -
  have w: "writeSecretValue ''KEY'' ''sk-1'' ''2026-01-01'' NoFile
      = (Inr (''KEY'', FromStore ''2026-01-01''), snd (writeSecretValue ''KEY'' ''sk-1'' ''2026-01-01'' NoFile))"
    by (simp add: writeSecretValue_def normalizeSecretRef_def trimmed_def js_trim_def trim_start_def trim_end_def is_ws_def
        readLocalSecretStoreFile_def)
  show ?thesis
    using written_secret_resolves [OF w, of "[]" "\<lambda>_. None"]
    by (auto simp: trimmed_def js_trim_def trim_start_def trim_end_def is_ws_def readLocalSecretStoreFile_def)
qed

text \<open>C17: The configuration file refines the configuration. From every file that can be read, each operation of the settings page
  writes a file that is read back as exactly the configuration the operation computes.\<close>

theorem saved_configuration_is_read_back:
  assumes "readExecutorConfigFile f = Some c" and "op_role x \<noteq> Some ''manager''"
  shows "\<exists>f'. run_op x f = Some f' \<and> readExecutorConfigFile f' = Some (op_config x c)"
  by (rule run_op_read [OF assms])

theorem saved_configuration_is_read_back_witness:
  "\<exists>f'. run_op (SetRoute ''coder'' (Some ''opencode'')) NoFile = Some f'
    \<and> readExecutorConfigFile f' = Some (op_config (SetRoute ''coder'' (Some ''opencode'')) empty_config)"
  by (rule saved_configuration_is_read_back) (simp_all add: readExecutorConfigFile_def)

definition model_deleted :: "string \<Rightarrow> settings_world \<Rightarrow> bool" where
  "model_deleted m w = (case readExecutorConfigFile (swFile w) of
     None \<Rightarrow> False | Some c \<Rightarrow> map_of (cfModels c) m = None \<and> findModelReferences m c (swAgents w) = [])"

text \<open>
  Who names a provider: a model by either of its two references, a binding, and an agent by any of three columns. The references the
  code lists are empty exactly when nobody does.
\<close>

definition agent_names :: "string \<Rightarrow> agent_row \<Rightarrow> bool" where
  "agent_names p r \<longleftrightarrow> agProvider r = Some p \<or> agFallback r = Some p \<or> agLegacy r = Some p"

definition provider_named :: "string \<Rightarrow> exec_config \<Rightarrow> agent_row list \<Rightarrow> bool" where
  "provider_named p c rows \<longleftrightarrow> (\<exists>(i, m) \<in> set (cfModels c). mdCli m = Some p \<or> mdApi m = Some p)
     \<or> (\<exists>(a, b) \<in> set (cfBindings c). bdProvider b = Some p) \<or> (\<exists>r \<in> set rows. agent_names p r)"

lemma if_ref_Nil: "if_ref b x = [] \<longleftrightarrow> \<not> b"
  by (simp add: if_ref_def)

lemma agent_refs_Nil: "agent_provider_refs p r = [] \<longleftrightarrow> \<not> agent_names p r"
  by (auto simp: agent_provider_refs_def agent_names_def if_ref_Nil)

lemma references_Nil: "findProviderReferences p c rows = [] \<longleftrightarrow> \<not> provider_named p c rows"
  unfolding findProviderReferences_def provider_named_def by (auto simp: if_ref_Nil agent_refs_Nil)

lemma rec_del_other: "q \<noteq> p \<Longrightarrow> map_of (rec_del p m) q = map_of m q"
  by (induction m) (auto simp: rec_del_def)

text \<open>What is kept: every other provider, and every model, binding and agent that does not name the deleted one.\<close>

definition rest_kept :: "string \<Rightarrow> exec_config \<Rightarrow> agent_row list \<Rightarrow> exec_config \<Rightarrow> agent_row list \<Rightarrow> bool" where
  "rest_kept p c rows c' rows' \<longleftrightarrow> (\<forall>q. q \<noteq> p \<longrightarrow> map_of (cfProviders c') q = map_of (cfProviders c) q)
     \<and> (\<forall>(i, m) \<in> set (cfModels c). names_provider p m \<or> (i, m) \<in> set (cfModels c'))
     \<and> (\<forall>(a, b) \<in> set (cfBindings c). bdProvider b = Some p \<or> (a, b) \<in> set (cfBindings c'))
     \<and> cfExecutors c' = cfExecutors c \<and> cfRouting c' = cfRouting c \<and> cfMapping c' = cfMapping c
     \<and> list_all2 (\<lambda>r r'. agRole r' = agRole r \<and> (agent_names p r \<or> r' = r)) rows rows'"

lemma model_kept: "(i, m) \<in> set ms \<Longrightarrow> \<not> names_provider p m \<Longrightarrow> (i, m) \<in> set (models_without p ms)"
  by (induction ms) (auto simp: models_without_def map_filter_simps model_without_def split: option.split)

lemma agents_kept: "list_all2 (\<lambda>r r'. agRole r' = agRole r \<and> (agent_names p r \<or> r' = r)) rows (map (clear_provider p) rows)"
  by (simp add: list_all2_map2 list.rel_refl_strong agent_names_def clear_provider_def without_def)

lemma cascade_keeps_rest: "rest_kept p c rows (cascade_provider p c) (map (clear_provider p) rows)"
  unfolding rest_kept_def by (auto simp: cascade_provider_def rec_del_other agents_kept intro: model_kept)

lemma delete_keeps_rest: "rest_kept p c rows (c\<lparr>cfProviders := rec_del p (cfProviders c)\<rparr>) rows"
  unfolding rest_kept_def by (auto simp: rec_del_other list.rel_refl_strong)

text \<open>C18: Deleting a provider is all or nothing. A file that cannot be read, a provider that is not there and, without the cascade, one
  that a model, a binding or an agent names are answered as such and change nothing. In every other case the provider is gone from the file as it is
  read afterwards, no model, binding or agent names it, and every other provider and whatever did not name it are as before.\<close>

theorem provider_deletion_leaves_no_reference:
  assumes "deleteProviderConfig p cascade w = (reply, w')"
  shows "case readExecutorConfigFile (swFile w) of
      None \<Rightarrow> reply = DeleteThrew \<and> w' = w
    | Some c \<Rightarrow>
        if map_of (cfProviders c) p = None then reply = AlreadyGone \<and> w' = w
        else if provider_named p c (swAgents w) \<and> \<not> cascade
        then reply = StillReferenced (findProviderReferences p c (swAgents w)) \<and> w' = w
        else reply = (if cascade then DeletedWith (provider_cascade p c (swAgents w)) else Deleted)
          \<and> (\<exists>c'. readExecutorConfigFile (swFile w') = Some c' \<and> map_of (cfProviders c') p = None
               \<and> \<not> provider_named p c' (swAgents w') \<and> rest_kept p c (swAgents w) c' (swAgents w'))"
proof (cases "readExecutorConfigFile (swFile w)")
  case (Some c)
  let ?c = "c\<lparr>cfProviders := rec_del p (cfProviders c)\<rparr>"
  have ok: "config_ok ?c" "config_ok (cascade_provider p c)"
    using config_ok_read [OF Some] by (simp_all add: config_ok_def entries_ok_del cascade_provider_ok [unfolded config_ok_def])
  have named: "provider_named p ?c rows = provider_named p c rows" for rows by (simp add: provider_named_def)
  have gone: "\<not> provider_named p (cascade_provider p c) (map (clear_provider p) (swAgents w))"
    using cascade_provider_refs [of p c "swAgents w"] by (simp add: references_Nil)
  show ?thesis
    using assms Some ok named gone cascade_keeps_rest [of p c "swAgents w"] delete_keeps_rest [of p c "swAgents w"]
    by (auto simp: deleteProviderConfig_def references_Nil split: if_splits)
qed (use assms in \<open>simp add: deleteProviderConfig_def\<close>)

theorem model_deletion_leaves_no_reference:
  "case deleteModelConfig m cascade w of (reply, w') \<Rightarrow> (case reply of
      Deleted \<Rightarrow> model_deleted m w'
    | DeletedWith d \<Rightarrow> model_deleted m w'
    | StillReferenced refs \<Rightarrow> w' = w \<and> refs \<noteq> [] \<and> \<not> cascade
    | _ \<Rightarrow> w' = w)"
proof (cases "readExecutorConfigFile (swFile w)")
  case (Some c)
  have "config_ok (c\<lparr>cfModels := rec_del m (cfModels c)\<rparr>)"
    using config_ok_read [OF Some] by (simp add: config_ok_def entries_ok_del)
  then show ?thesis
    using Some cascade_model_refs [of m c "swAgents w"] cascade_model_ok [OF config_ok_read [OF Some], of m]
    by (auto simp: deleteModelConfig_def model_deleted_def split: if_splits)
qed (simp add: deleteModelConfig_def)

text \<open>An executor with a binding is ready exactly when it can be started: its model and its provider exist and every secret the
  provider refers to resolves.\<close>

theorem executor_ready_iff:
  assumes "map_of (cfBindings c) a = Some b"
  shows "getExecutorReadiness e c a = [] \<longleftrightarrow>
    (\<exists>m p. map_of (cfModels c) (bdModel b) = Some m \<and> filled (binding_provider c b)
       \<and> provider_at c (binding_provider c b) = Some p \<and> usable_provider e p)"
  using binding_ready [OF assms, of e] by (simp add: getExecutorReadiness_def Let_def assms)

text \<open>A batch never changes a model that was there, and answers for every record it was given.\<close>

lemma add_models_keeps: "map_of m k = Some v \<Longrightarrow> map_of (fst (add_models xs m r)) k = Some v"
proof (induction xs arbitrary: m r)
  case (Cons y xs)
  then show ?case
    by (cases y) (auto simp: Let_def intro!: Cons.IH split: option.splits)
qed simp

lemma add_models_counts: "length (brAdded (snd (add_models xs m r))) + length (brSkipped (snd (add_models xs m r)))
    + length (brFailed (snd (add_models xs m r))) = length (brAdded r) + length (brSkipped r) + length (brFailed r) + length xs"
proof (induction xs arbitrary: m r)
  case (Cons y xs)
  show ?case
    by (cases y) (simp add: Let_def Cons.IH split: option.splits)
qed simp

section \<open>Gaps\<close>

text \<open>Saving a route with a strategy other than \<open>fallback_model\<close> drops the fallback, although the dispatch uses one for \<open>prefer_agent\<close>.\<close>

lemma prefer_agent_loses_fallback:
  "map_of (cfRouting (updateRoleRoutingConfig ''reviewer'' (Some ''qoder'') (Some PreferAgent) (Some ''codex'') empty_config)) ''reviewer''
     = Some \<lparr>routeAdapter = ''qoder'', routeStrategy = PreferAgent, routeFallback = None\<rparr>"
  by (simp add: updateRoleRoutingConfig_def known_adapter_def empty_config_def put_or_drop_def Let_def trimmed_def js_trim_def
      trim_start_def trim_end_def is_ws_def getExecutorCatalogEntry_def EXECUTOR_CATALOG_def)

text \<open>No adapter is allowed for the role \<open>deepresearcher\<close>, not even the one its default route names.\<close>

lemma deepresearcher_route_is_fixed:
  "getDefaultAdapterIdForRole ''deepresearcher'' = Some ''model''
   \<and> fst (put_role_routing ''deepresearcher'' (Some ''model'') None None NoFile) = InvalidAdapter"
  by (simp add: getDefaultAdapterIdForRole_def DEFAULT_ROLE_ROUTING_def plain_route_def put_role_routing_def
      readExecutorConfigFile_def getRoleRoutingList_def EXECUTOR_CATALOG_def Let_def js_trim_def trim_start_def trim_end_def is_ws_def)

text \<open>A blank key is reported as stored and ready; the status read afterwards says that it is missing.\<close>

lemma blank_secret_is_not_ready:
  "fst (writeSecretValue ''KEY'' '' '' ''2026-01-01'' NoFile) = Inr (''KEY'', FromStore ''2026-01-01'')
   \<and> map_option (\<lambda>s. snd (getSecretStatus s (\<lambda>_. None) (Some ''KEY'')))
       (readLocalSecretStoreFile (snd (writeSecretValue ''KEY'' '' '' ''2026-01-01'' NoFile))) = Some SecretMissing"
  by (simp add: writeSecretValue_def normalizeSecretRef_def trimmed_def js_trim_def trim_start_def trim_end_def is_ws_def
      readLocalSecretStoreFile_def writeLocalSecretStoreFile_def normalizeLocalSecretStore_def map_json_def normalize_map_def
      fromEntries_def normalizeSecretRecord_def secret_json_def updated_or_epoch_def map_filter_simps getSecretStatus_def stored_secret_def
      env_secret_def)

text \<open>
  The cascade that deletes a provider also deletes the models that only it served, but not the bindings of those models: a binding
  without a provider of its own is left with the name of a model that no longer exists.
\<close>

definition dangling_config :: exec_config where
  "dangling_config = empty_config
    \<lparr>cfProviders := [(''kimi'', \<lparr>pvTransport = ApiMode, pvDialect = ''openai_chat_completions'', pvPreset = None, pvLabel = None,
        pvVendor = None, pvBaseUrl = Some ''https://api'', pvAuth = Some (ApiKey ''KEY'' None None), pvHeaders = [],
        pvCliCommand = None, pvCliSandbox = None, pvOverrides = None, pvCapabilities = None, pvQuirks = None\<rparr>)],
     cfModels := [(''k2'', \<lparr>mdName = ''k2'', mdFallbacks = [], mdLabel = None, mdVendor = None, mdContext = None, mdMaxOutput = None,
        mdCli = None, mdApi = Some ''kimi'', mdReasoning = None, mdOverrides = None, mdHints = None, mdCatalogProvider = None,
        mdCatalogModel = None\<rparr>)],
     cfBindings := [(''model'', \<lparr>bdMode = ApiMode, bdModel = ''k2'', bdProvider = None, bdCommand = None, bdSandbox = None,
        bdTimeout = None\<rparr>)]\<rparr>"

lemma cascade_leaves_a_dangling_binding:
  "map_option bdModel (map_of (cfBindings (cascade_provider ''kimi'' dangling_config)) ''model'') = Some ''k2''
   \<and> map_of (cfModels (cascade_provider ''kimi'' dangling_config)) ''k2'' = None"
  by (simp add: cascade_provider_def dangling_config_def empty_config_def models_without_def map_filter_simps model_without_def
      names_provider_def other_ref_def)

text \<open>The configuration of the last section, with an agent that names its provider: refused without the cascade, and with it all is gone.\<close>

definition named_agents :: "agent_row list" where
  "named_agents = [\<lparr>agRole = ''coder'', agProvider = Some ''kimi'', agFallback = None, agLegacy = None, agModel = None, agOverride = None\<rparr>]"

lemma dangling_config_is_read: "readExecutorConfigFile (writeExecutorConfigFile dangling_config) = Some dangling_config"
  by code_simp

theorem provider_deletion_leaves_no_reference_witness:
  "(let w = \<lparr>swFile = writeExecutorConfigFile dangling_config, swAgents = named_agents\<rparr> in
      snd (deleteProviderConfig ''kimi'' False w) = w \<and> fst (deleteProviderConfig ''kimi'' False w)
         = StillReferenced [RefModel ''k2'' ''providerRefs.api'', RefAgent ''coder'' ''providerId'']
      \<and> (\<exists>c'. readExecutorConfigFile (swFile (snd (deleteProviderConfig ''kimi'' True w))) = Some c' \<and> map_of (cfProviders c') ''kimi'' = None
           \<and> \<not> provider_named ''kimi'' c' (swAgents (snd (deleteProviderConfig ''kimi'' True w)))))"
proof -
  let ?w = "\<lparr>swFile = writeExecutorConfigFile dangling_config, swAgents = named_agents\<rparr>"
  have there: "map_of (cfProviders dangling_config) ''kimi'' \<noteq> None" "provider_named ''kimi'' dangling_config named_agents"
    by (simp_all add: dangling_config_def provider_named_def named_agents_def agent_names_def)
  have refs: "findProviderReferences ''kimi'' dangling_config named_agents
      = [RefModel ''k2'' ''providerRefs.api'', RefAgent ''coder'' ''providerId'']"
    by (simp add: findProviderReferences_def dangling_config_def named_agents_def agent_provider_refs_def if_ref_def empty_config_def)
  note facts = provider_deletion_leaves_no_reference [OF prod.collapse [symmetric], of "''kimi''" _ ?w]
  show ?thesis
    using facts [of False] facts [of True] there refs by (auto simp: Let_def dangling_config_is_read split: if_splits)
qed

end
