(* ===== verification/Run_Records.thy ===== *)
theory Run_Records
  imports Executor_Settings Circuit_Breaker Goal_Turn
begin

text \<open>
  The tables that the dispatch of a run and the recovery of runs work on
  (\<open>apps/api/src/repositories/role-runtime-repository.ts\<close>, \<open>task-repository.ts\<close>, \<open>execution-event-repository.ts\<close>): tables are lists in
  the order \<open>findMany\<close> returns their rows. \<open>rwNow\<close> is the clock; what runs outside may advance it. The rows of the mailbox and the pool
  of the leader's turns are those of \<open>Goal_Turn\<close> and \<open>Task_Worker\<close>.
\<close>

record run_row =
  rnId :: string
  rnTask :: string
  rnRole :: string
  rnState :: string
  rnSession :: "string option"
  rnAttempts :: int
  rnExecutor :: "string option"
  rnParent :: "string option"
  rnAsync :: bool
  rnGroup :: "string option"
  rnPolicy :: "string option"
  rnPriorSession :: "string option"
  rnPriorWorkdir :: "string option"
  rnResumeAt :: "int option"
  rnResumeFailure :: "string option"
  rnDelegation :: "string option"
  rnStartedAt :: "int option"
  rnUpdatedAt :: int
  rnCompletedAt :: "int option"

record job_row =
  jbId :: string
  jbState :: string
  jbWorkspace :: string
  jbTitle :: string
  jbDescription :: "string option"
  jbBinding :: "string option"
  jbObjective :: "string option"
  jbGoalStatus :: "string option"
  jbUpdatedAt :: int
  jbCompletedAt :: "int option"

record run_event =
  reType :: string
  reTask :: "string option"
  reRun :: "string option"
  reAt :: int
  rePayload :: "json_text option"

record workspace_row =
  wkRun :: string
  wkStatus :: string
  wkDir :: string
  wkRequested :: "string option"
  wkStrategy :: string
  wkDecision :: "string option"
  wkFallback :: "string option"
  wkBase :: string
  wkFinished :: "int option"

record run_world =
  rwNow :: int
  rwRuns :: "run_row list"
  rwJobs :: "job_row list"
  rwEvents :: "run_event list"
  rwCircuits :: circuit_file
  rwWorkspaces :: "workspace_row list"
  rwMail :: "mail_row list"
  rwPool :: task_worker
  rwLive :: "(string \<times> string) list"
  rwAborted :: "string list"

definition run_by_id :: "string \<Rightarrow> run_world \<Rightarrow> run_row option" where
  "run_by_id i w = find (\<lambda>r. rnId r = i) (rwRuns w)"

definition job_by_id :: "string \<Rightarrow> run_world \<Rightarrow> job_row option" where
  "job_by_id i w = find (\<lambda>t. jbId t = i) (rwJobs w)"

definition runs_of_task :: "string \<Rightarrow> run_world \<Rightarrow> run_row list" where
  "runs_of_task i w = filter (\<lambda>r. rnTask r = i) (rwRuns w)"

definition update_run :: "string \<Rightarrow> (run_row \<Rightarrow> run_row) \<Rightarrow> run_world \<Rightarrow> run_world" where
  "update_run i f w = w\<lparr>rwRuns := map (\<lambda>r. if rnId r = i then f r else r) (rwRuns w)\<rparr>"

text \<open>\<open>updateIfStateIn\<close>: the number of rows changed tells the caller whether it won.\<close>

definition updateIfStateIn :: "string \<Rightarrow> string list \<Rightarrow> (run_row \<Rightarrow> run_row) \<Rightarrow> run_world \<Rightarrow> nat \<times> run_world" where
  "updateIfStateIn i states f w =
    (length (filter (\<lambda>r. rnId r = i \<and> rnState r \<in> set states) (rwRuns w)),
     w\<lparr>rwRuns := map (\<lambda>r. if rnId r = i \<and> rnState r \<in> set states then f r else r) (rwRuns w)\<rparr>)"

definition update_job :: "string \<Rightarrow> (job_row \<Rightarrow> job_row) \<Rightarrow> run_world \<Rightarrow> run_world" where
  "update_job i f w = w\<lparr>rwJobs := map (\<lambda>t. if jbId t = i then f t else t) (rwJobs w)\<rparr>"

definition record_event :: "string \<Rightarrow> string option \<Rightarrow> string option \<Rightarrow> int \<Rightarrow> (string \<times> json) list \<Rightarrow> run_world \<Rightarrow> run_world" where
  "record_event type task run at payload w = w\<lparr>rwEvents := rwEvents w @
     [\<lparr>reType = type, reTask = task, reRun = run, reAt = at, rePayload = Some (Some (JObj payload))\<rparr>]\<rparr>"

definition events_of_task :: "string \<Rightarrow> run_world \<Rightarrow> run_event list" where
  "events_of_task i w = filter (\<lambda>e. reTask e = Some i) (rwEvents w)"

text \<open>\<open>findFirst\<close> by descending time: a later row of the same time does not come first.\<close>

fun latest_by :: "('a \<Rightarrow> int) \<Rightarrow> 'a list \<Rightarrow> 'a option" where
  "latest_by t [] = None"
| "latest_by t (x # xs) = (case latest_by t xs of None \<Rightarrow> Some x | Some y \<Rightarrow> if t y > t x then Some y else Some x)"

definition getLatestCheckpointByRunId :: "string \<Rightarrow> run_world \<Rightarrow> run_event option" where
  "getLatestCheckpointByRunId i w =
    latest_by reAt (filter (\<lambda>e. reRun e = Some i \<and> reType e = ''leader.session_checkpoint'') (rev (rwEvents w)))"

definition isSessionActive :: "string \<Rightarrow> run_world \<Rightarrow> bool" where
  "isSessionActive i w = (getLatestCheckpointByRunId i w \<noteq> None)"

definition getLatestByType :: "string \<Rightarrow> run_world \<Rightarrow> run_event option" where
  "getLatestByType type w = latest_by reAt (filter (\<lambda>e. reType e = type) (rwEvents w))"

named_theorems run_world_simps

lemma map_if_find: "(\<And>r. rnId (f r) = rnId r) \<Longrightarrow> find (\<lambda>r. rnId r = j) (map (\<lambda>r. if rnId r = i then f r else r) rs)
    = map_option (\<lambda>r. if rnId r = i then f r else r) (find (\<lambda>r. rnId r = j) rs)"
  by (induction rs) auto

lemma job_if_find: "(\<And>t. jbId (f t) = jbId t) \<Longrightarrow> find (\<lambda>t. jbId t = j) (map (\<lambda>t. if jbId t = i then f t else t) ts)
    = map_option (\<lambda>t. if jbId t = i then f t else t) (find (\<lambda>t. jbId t = j) ts)"
  by (induction ts) auto

lemma run_by_id_update [run_world_simps]: "(\<And>r. rnId (f r) = rnId r) \<Longrightarrow>
    run_by_id j (update_run i f w) = map_option (\<lambda>r. if rnId r = i then f r else r) (run_by_id j w)"
  by (simp add: run_by_id_def update_run_def map_if_find)

lemma job_by_id_update [run_world_simps]: "(\<And>t. jbId (f t) = jbId t) \<Longrightarrow>
    job_by_id j (update_job i f w) = map_option (\<lambda>t. if jbId t = i then f t else t) (job_by_id j w)"
  by (simp add: job_by_id_def update_job_def job_if_find)

lemma run_by_id_other [run_world_simps, simp]:
  "run_by_id j (update_job i g w) = run_by_id j w" "run_by_id j (record_event a b c d e w) = run_by_id j w"
  by (simp_all add: run_by_id_def update_job_def record_event_def)

lemma job_by_id_other [run_world_simps, simp]:
  "job_by_id j (update_run i f w) = job_by_id j w" "job_by_id j (record_event a b c d e w) = job_by_id j w"
  by (simp_all add: job_by_id_def update_run_def record_event_def)

lemma world_fields [run_world_simps, simp]:
  "rwNow (update_run i f w) = rwNow w" "rwNow (update_job i g w) = rwNow w" "rwNow (record_event a b c d e w) = rwNow w"
  "rwCircuits (update_run i f w) = rwCircuits w" "rwCircuits (update_job i g w) = rwCircuits w"
  "rwCircuits (record_event a b c d e w) = rwCircuits w"
  "rwJobs (update_run i f w) = rwJobs w" "rwRuns (update_job i g w) = rwRuns w"
  "rwRuns (record_event a b c d e w) = rwRuns w" "rwJobs (record_event a b c d e w) = rwJobs w"
  by (simp_all add: update_run_def update_job_def record_event_def)

lemma run_by_id_id: "run_by_id i w = Some r \<Longrightarrow> rnId r = i"
  by (auto simp: run_by_id_def find_Some_iff)

lemma job_by_id_id: "job_by_id i w = Some t \<Longrightarrow> jbId t = i"
  by (auto simp: job_by_id_def find_Some_iff)

lemma latest_by_in: "latest_by t xs = Some x \<Longrightarrow> x \<in> set xs"
  by (induction xs arbitrary: x) (auto split: option.splits if_splits)

lemma latest_by_max: "latest_by t xs = Some x \<Longrightarrow> y \<in> set xs \<Longrightarrow> t y \<le> t x"
proof (induction xs arbitrary: x)
  case (Cons a xs)
  show ?case
  proof (cases "latest_by t xs")
    case None
    then have "xs = []" by (cases xs) (auto split: option.splits if_splits)
    then show ?thesis using Cons.prems by simp
  next
    case (Some z)
    then show ?thesis using Cons.prems Cons.IH [OF Some] by (auto split: if_splits)
  qed
qed simp

lemma latest_by_None [simp]: "latest_by t xs = None \<longleftrightarrow> xs = []"
  by (cases xs) (auto split: option.splits)

section \<open>Rows for concrete runs\<close>

definition sample_run :: "string \<Rightarrow> string \<Rightarrow> string \<Rightarrow> string \<Rightarrow> run_row" where
  "sample_run i task role state = \<lparr>rnId = i, rnTask = task, rnRole = role, rnState = state, rnSession = None, rnAttempts = 0,
     rnExecutor = None, rnParent = None, rnAsync = False, rnGroup = None, rnPolicy = None, rnPriorSession = None, rnPriorWorkdir = None,
     rnResumeAt = None, rnResumeFailure = None, rnDelegation = None, rnStartedAt = None, rnUpdatedAt = 0, rnCompletedAt = None\<rparr>"

definition sample_job_row :: "string \<Rightarrow> string \<Rightarrow> job_row" where
  "sample_job_row i state = \<lparr>jbId = i, jbState = state, jbWorkspace = ''ws'', jbTitle = ''Fix it'', jbDescription = None, jbBinding = None,
     jbObjective = None, jbGoalStatus = None, jbUpdatedAt = 0, jbCompletedAt = None\<rparr>"

definition sample_tables :: "run_row list \<Rightarrow> job_row list \<Rightarrow> run_world" where
  "sample_tables rs js = \<lparr>rwNow = 1000000, rwRuns = rs, rwJobs = js, rwEvents = [], rwCircuits = Unreadable, rwWorkspaces = [], rwMail = [],
     rwPool = new_worker 4, rwLive = [], rwAborted = []\<rparr>"

end
