(* ===== verification/Teammate_Mail.thy ===== *)
theory Teammate_Mail
  imports Run_Records
begin

text \<open>
  How the result of a background teammate reaches its leader
  (\<open>apps/api/src/services/manager-automation/teammate-completion-service.ts\<close>) and the registry of the teammates that are alive in
  this process (\<open>manager-automation/async-teammate-registry.ts\<close>). An insert into the mailbox throws when the id is taken or
  when the database refuses it, which \<open>fails\<close> says for each attempt. The dash of the code's texts is a hyphen and its ellipsis is
  \<open>CHR 0x85\<close>.
\<close>

section \<open>The registry\<close>

text \<open>The entries of the map of sets: one pair per task and live teammate.\<close>

definition registerActiveAsyncTeammate :: "string \<Rightarrow> string \<Rightarrow> run_world \<Rightarrow> run_world" where
  "registerActiveAsyncTeammate task run w =
    (if task = [] \<or> run = [] then w else w\<lparr>rwLive := (if (task, run) \<in> set (rwLive w) then rwLive w else rwLive w @ [(task, run)])\<rparr>)"

definition unregisterActiveAsyncTeammate :: "string \<Rightarrow> string \<Rightarrow> run_world \<Rightarrow> run_world" where
  "unregisterActiveAsyncTeammate task run w = w\<lparr>rwLive := removeAll (task, run) (rwLive w)\<rparr>"

definition isActiveAsyncTeammate :: "string \<Rightarrow> string \<Rightarrow> run_world \<Rightarrow> bool" where
  "isActiveAsyncTeammate task run w = ((task, run) \<in> set (rwLive w))"

section \<open>The group of a teammate\<close>

definition TERMINAL_RUN_STATES :: "string list" where
  "TERMINAL_RUN_STATES = [''COMPLETED'', ''FAILED'', ''CANCELLED'']"

definition listByParallelGroupId :: "string \<Rightarrow> run_world \<Rightarrow> run_row list" where
  "listByParallelGroupId g w = filter (\<lambda>r. rnGroup r = Some g) (rwRuns w)"

text \<open>\<open>/_(\d+)$/\<close>: the digits after the last underscore, when nothing else follows it.\<close>

definition expected_size :: "string \<Rightarrow> nat" where
  "expected_size g =
    (let ds = rev (takeWhile is_digit (rev g)); rest = dropWhile is_digit (rev g)
     in if ds \<noteq> [] \<and> rest \<noteq> [] \<and> hd rest = CHR ''_'' then digits_value 0 ds else 0)"

definition run_terminal :: "run_row \<Rightarrow> bool" where
  "run_terminal r = (rnState r \<in> set TERMINAL_RUN_STATES)"

definition isParallelGroupComplete :: "string \<Rightarrow> run_world \<Rightarrow> bool" where
  "isParallelGroupComplete g w =
    (let members = listByParallelGroupId g w; n = expected_size g
     in if n > 0 then n \<le> length members \<and> list_all run_terminal members
        else members \<noteq> [] \<and> list_all run_terminal members)"

section \<open>The note of a completion\<close>

record completion_event =
  ceTask :: string
  ceRun :: string
  ceRole :: string
  ceStatus :: string
  ceSummary :: string
  ceSpawnedAt :: int
  ceCompletedAt :: int
  ceUsage :: "(int \<times> int) option"
  ceFailure :: "string option"
  ceGroup :: "string option"

definition create_mail :: "mail_row \<Rightarrow> run_world \<Rightarrow> run_world option" where
  "create_mail m w = (if mailId m \<in> mailId ` set (rwMail w) then None else Some (w\<lparr>rwMail := rwMail w @ [m]\<rparr>))"

definition note_id :: "completion_event \<Rightarrow> string" where
  "note_id e = ''msg_async_'' @ ceRun e @ ''_'' @ show_int (ceCompletedAt e)"

definition summary_preview :: "string \<Rightarrow> string" where
  "summary_preview s = take 120 (hd (js_split (CHR 0x0A) s))"

definition usage_json :: "int \<times> int \<Rightarrow> json" where
  "usage_json u = JObj [(''inputTokens'', JNum (fst u)), (''outputTokens'', JNum (snd u))]"

definition note_metadata :: "completion_event \<Rightarrow> json" where
  "note_metadata e = JObj ([(''type'', JStr ''teammate_completion''), (''teammateRunId'', JStr (ceRun e)), (''role'', JStr (ceRole e)),
     (''status'', JStr (ceStatus e)), (''summary'', JStr (take 50000 (ceSummary e))), (''spawnedAtMs'', JNum (ceSpawnedAt e)),
     (''completedAtMs'', JNum (ceCompletedAt e)), (''durationMs'', JNum (ceCompletedAt e - ceSpawnedAt e))]
     @ may_field ''usage'' usage_json (ceUsage e) @ may_field ''failureReason'' JStr (truthy_opt (ceFailure e)))"

definition completion_note :: "completion_event \<Rightarrow> mail_row" where
  "completion_note e = \<lparr>mailId = note_id e, mailTask = ceTask e, mailSender = ''system'',
     mailContent = ''[teammate completed] '' @ ceRole e @ '' ('' @ ceRun e @ ''): '' @ summary_preview (ceSummary e),
     mailCreatedAt = ceCompletedAt e, mailConsumedAt = None, mailMetadata = Some (Some (note_metadata e))\<rparr>"

section \<open>The note of a group\<close>

record member_summary =
  msRole :: string
  msRun :: string
  msText :: string

definition json_text_of :: "json option \<Rightarrow> string option" where
  "json_text_of v = (case v of Some (JStr s) \<Rightarrow> if s = [] then None else Some s | _ \<Rightarrow> None)"

text \<open>A row that does not parse, or is no completion of a member with a role and a summary, is skipped.\<close>

definition row_summary :: "string list \<Rightarrow> mail_row \<Rightarrow> member_summary option" where
  "row_summary ids m =
    (case mailMetadata m of
       Some (Some (JObj fs)) \<Rightarrow>
         (case (json_text_of (obj_get fs ''teammateRunId''), json_text_of (obj_get fs ''role''), json_text_of (obj_get fs ''summary'')) of
            (Some run, Some role, Some text) \<Rightarrow>
              if obj_get fs ''type'' = Some (JStr ''teammate_completion'') \<and> run \<in> set ids
              then Some \<lparr>msRole = role, msRun = run, msText = text\<rparr> else None
          | _ \<Rightarrow> None)
     | _ \<Rightarrow> None)"

definition member_summaries :: "completion_event \<Rightarrow> string list \<Rightarrow> run_world \<Rightarrow> member_summary list" where
  "member_summaries e ids w =
    (let found = List.map_filter (row_summary ids) (listMailByTaskId (ceTask e) (rwMail w))
     in if list_ex (\<lambda>s. msRun s = ceRun e) found then found
        else found @ [\<lparr>msRole = ceRole e, msRun = ceRun e, msText = ceSummary e\<rparr>])"

definition PER_SUMMARY_CAP :: nat where "PER_SUMMARY_CAP = 12000"

definition TOTAL_CAP :: nat where "TOTAL_CAP = 40000"

definition mail_newline :: string where "mail_newline = [CHR 0x0A]"

definition summary_section :: "member_summary \<Rightarrow> string" where
  "summary_section s = ''### '' @ msRole s @ '' ('' @ take 12 (msRun s) @ '')'' @ mail_newline
     @ (if PER_SUMMARY_CAP < length (msText s) then take PER_SUMMARY_CAP (msText s) @ mail_newline @ [CHR 0x85] @ ''(truncated)'' else msText s)"

definition group_header :: "nat \<Rightarrow> string \<Rightarrow> string" where
  "group_header n g = ''All '' @ show_nat n @ '' teammates in parallel group '' @ g @ '' have completed. Consolidated outputs:'' @ mail_newline @ mail_newline"

text \<open>\<open>slice(0, TOTAL_CAP - header.length)\<close>; the header is shorter than the cap for every id in use.\<close>

definition group_content :: "nat \<Rightarrow> string \<Rightarrow> member_summary list \<Rightarrow> string" where
  "group_content n g ms =
    (let header = group_header n g; body = js_join (mail_newline @ mail_newline) (map summary_section ms)
     in header @ (if TOTAL_CAP < length header + length body then take (TOTAL_CAP - length header) body else body))"

definition member_json :: "member_summary \<Rightarrow> json" where
  "member_json s = JObj [(''role'', JStr (msRole s)), (''runId'', JStr (msRun s)), (''summary'', JStr (take PER_SUMMARY_CAP (msText s)))]"

definition group_note :: "completion_event \<Rightarrow> string \<Rightarrow> run_world \<Rightarrow> mail_row" where
  "group_note e g w =
    (let members = listByParallelGroupId g w; ms = member_summaries e (map rnId members) w
     in \<lparr>mailId = ''msg_async_group_'' @ g, mailTask = ceTask e, mailSender = ''system'', mailContent = group_content (length members) g ms,
         mailCreatedAt = ceCompletedAt e, mailConsumedAt = None,
         mailMetadata = Some (Some (JObj [(''type'', JStr ''parallel_group_completion''), (''parallelGroupId'', JStr g),
           (''memberCount'', JNum (int (length members))), (''completedAtMs'', JNum (ceCompletedAt e)),
           (''members'', JArr (map member_json ms))]))\<rparr>)"

text \<open>Best effort: a failure here never undoes the note of the teammate.\<close>

definition note_group :: "completion_event \<Rightarrow> run_world \<Rightarrow> run_world" where
  "note_group e w =
    (case truthy_opt (ceGroup e) of
       None \<Rightarrow> w
     | Some g \<Rightarrow> if isParallelGroupComplete g w
                 then (case create_mail (group_note e g w) w of Some w' \<Rightarrow> w' | None \<Rightarrow> w) else w)"

definition injection_failed :: "completion_event \<Rightarrow> run_world \<Rightarrow> run_world" where
  "injection_failed e w = record_event ''leader.teammate_completion_injection_failed'' (Some (ceTask e)) None (rwNow w)
     [(''event'', note_metadata e)] w"

text \<open>Three attempts, 100 ms apart; when the last one fails an event is left for the audit.\<close>

fun write_note :: "(nat \<Rightarrow> bool) \<Rightarrow> nat \<Rightarrow> completion_event \<Rightarrow> run_world \<Rightarrow> run_world" where
  "write_note fails 0 e w = injection_failed e w"
| "write_note fails (Suc n) e w =
     (case (if fails (2 - n) then None else create_mail (completion_note e) w) of
        Some w' \<Rightarrow> note_group e w'
      | None \<Rightarrow> write_note fails n e (if n = 0 then w else w\<lparr>rwNow := rwNow w + 100\<rparr>))"

definition writeTeammateCompletionMailbox :: "(nat \<Rightarrow> bool) \<Rightarrow> completion_event \<Rightarrow> run_world \<Rightarrow> run_world" where
  "writeTeammateCompletionMailbox fails e w = write_note fails 3 e w"

section \<open>Waking the leader\<close>

definition wake_time :: "run_row \<Rightarrow> int" where
  "wake_time r = (case rnStartedAt r of Some a \<Rightarrow> a | None \<Rightarrow> rnUpdatedAt r)"

definition reenqueueLeaderIfAwaiting :: "string \<Rightarrow> string \<Rightarrow> run_world \<Rightarrow> run_world" where
  "reenqueueLeaderIfAwaiting req i w =
    (case job_by_id i w of
       None \<Rightarrow> w
     | Some t \<Rightarrow>
         if jbState t \<noteq> ''AWAITING_TEAMMATES'' then w
         else (case latest_by wake_time (filter (\<lambda>r. rnRole r = ''leader'') (runs_of_task i w)) of
                 None \<Rightarrow> w
               | Some r \<Rightarrow> w\<lparr>rwPool := requeueAfterCurrent
                     \<lparr>jobTask = i, jobRun = rnId r, jobRequest = req, jobWorkspace = jbWorkspace t, jobPrompt = [], jobBinding = None\<rparr>
                     (rwPool w)\<rparr>))"

section \<open>A completion arrives once\<close>

definition unconsumed_completions :: "string \<Rightarrow> run_world \<Rightarrow> nat" where
  "unconsumed_completions i w = countUnconsumedTeammateCompletions i (rwMail w)"

lemma note_is_completion [simp]: "is_completion (completion_note e)"
  by (simp add: is_completion_def completion_note_def note_metadata_def obj_get_Cons)

lemma group_note_is_no_completion [simp]: "\<not> is_completion (group_note e g w)"
  by (simp add: is_completion_def group_note_def obj_get_Cons Let_def)

lemma note_group_mail: "rwMail (note_group e w) = rwMail w
    \<or> (\<exists>g. ceGroup e = Some g \<and> isParallelGroupComplete g w \<and> rwMail (note_group e w) = rwMail w @ [group_note e g w])"
  by (auto simp: note_group_def create_mail_def truthy_opt_def split: option.splits if_splits)

lemma note_group_count [simp]: "unconsumed_completions i (note_group e w) = unconsumed_completions i w"
  using note_group_mail [of e w]
  by (auto simp: unconsumed_completions_def countUnconsumedTeammateCompletions_def)

definition mail_ids_ok :: "run_world \<Rightarrow> bool" where
  "mail_ids_ok w = distinct (map mailId (rwMail w))"

lemma create_mail_ok: "mail_ids_ok w \<Longrightarrow> create_mail m w = Some w' \<Longrightarrow> mail_ids_ok w'"
  by (auto simp: mail_ids_ok_def create_mail_def split: if_splits)

lemma note_group_ok: "mail_ids_ok w \<Longrightarrow> mail_ids_ok (note_group e w)"
  using create_mail_ok by (auto simp: note_group_def split: option.split)

lemma injection_failed_mail [simp]: "rwMail (injection_failed e w) = rwMail w"
  by (simp add: injection_failed_def record_event_def)

lemma write_note_ok: "mail_ids_ok w \<Longrightarrow> mail_ids_ok (write_note fails n e w)"
proof (induction n arbitrary: w)
  case (Suc n)
  have "mail_ids_ok (write_note fails n e (if n = 0 then w else w\<lparr>rwNow := rwNow w + 100\<rparr>))"
    using Suc by (simp add: mail_ids_ok_def)
  then show ?case
    using Suc.prems by (auto simp: note_group_ok create_mail_ok split: option.split)
qed (simp add: mail_ids_ok_def)

definition note_fresh :: "completion_event \<Rightarrow> run_world \<Rightarrow> bool" where
  "note_fresh e w = (note_id e \<notin> mailId ` set (rwMail w))"

lemma write_note_delivers:
  assumes "note_fresh e w" and "m \<le> n" and "\<not> fails (2 - m)" and "n \<le> 2"
  shows "\<exists>w1 w2. write_note fails (Suc n) e w = note_group e w2 \<and> create_mail (completion_note e) w1 = Some w2 \<and> rwMail w1 = rwMail w"
  using assms
proof (induction n arbitrary: w)
  case 0
  then show ?case
    by (intro exI [of _ w] exI [of _ "w\<lparr>rwMail := rwMail w @ [completion_note e]\<rparr>"])
      (simp add: create_mail_def note_fresh_def completion_note_def [of e])
next
  case (Suc n)
  show ?case
  proof (cases "fails (2 - Suc n)")
    case True
    then have "m \<le> n" using Suc.prems by (cases "m = Suc n") auto
    then show ?thesis
      using Suc.prems True Suc.IH [of "if Suc n = 0 then w else w\<lparr>rwNow := rwNow w + 100\<rparr>"] by (simp add: note_fresh_def)
  next
    case False
    then show ?thesis
      using Suc.prems
      by (intro exI [of _ w] exI [of _ "w\<lparr>rwMail := rwMail w @ [completion_note e]\<rparr>"])
        (simp add: create_mail_def note_fresh_def completion_note_def [of e])
  qed
qed

text \<open>
  C16: The result of a background teammate reaches its leader exactly once. When one of the three attempts goes through and the note was not
  written before, the leader's task has exactly one more unconsumed completion, every other task as many as before; writing it again
  changes no count.
\<close>

theorem completion_arrives_once:
  assumes "note_fresh e w" and "k < 3" and "\<not> fails k"
  shows "unconsumed_completions i (writeTeammateCompletionMailbox fails e w)
      = unconsumed_completions i w + (if i = ceTask e then 1 else 0)
    \<and> unconsumed_completions i (writeTeammateCompletionMailbox fails' e (writeTeammateCompletionMailbox fails e w))
      = unconsumed_completions i (writeTeammateCompletionMailbox fails e w)"
proof -
  have le: "2 - k \<le> (2 :: nat)" and f: "\<not> fails (2 - (2 - k))" using assms(2,3) by auto
  obtain w1 w2 where w: "writeTeammateCompletionMailbox fails e w = note_group e w2" "create_mail (completion_note e) w1 = Some w2"
    "rwMail w1 = rwMail w"
    using write_note_delivers [where fails = fails, OF assms(1) le f] by (auto simp: writeTeammateCompletionMailbox_def numeral_3_eq_3)
  have mail: "rwMail w2 = rwMail w @ [completion_note e]"
    using w(2,3) by (auto simp: create_mail_def split: if_splits)
  have stale: "\<not> note_fresh e (note_group e w2)"
    using note_group_mail [of e w2] by (auto simp: note_fresh_def mail completion_note_def)
  have again: "unconsumed_completions i (write_note fs n e v) = unconsumed_completions i v" if "\<not> note_fresh e v" for fs n v
    using that
  proof (induction n arbitrary: v)
    case (Suc n)
    then show ?case
      by (simp add: create_mail_def note_fresh_def completion_note_def [of e] unconsumed_completions_def)
  qed (simp add: unconsumed_completions_def)
  have one: "unconsumed_completions i w2 = unconsumed_completions i w + (if i = ceTask e then 1 else 0)"
    by (simp add: unconsumed_completions_def mail countUnconsumedTeammateCompletions_def, simp add: completion_note_def [of e])
  have twice: "unconsumed_completions i (writeTeammateCompletionMailbox fails' e (note_group e w2)) = unconsumed_completions i (note_group e w2)"
    unfolding writeTeammateCompletionMailbox_def by (rule again [OF stale])
  show ?thesis
    unfolding w(1) twice by (simp add: one)
qed

definition sample_completion :: completion_event where
  "sample_completion = \<lparr>ceTask = ''t1'', ceRun = ''r2'', ceRole = ''coder'', ceStatus = ''COMPLETED'', ceSummary = ''Done'', ceSpawnedAt = 1,
     ceCompletedAt = 5, ceUsage = None, ceFailure = None, ceGroup = None\<rparr>"

theorem completion_arrives_once_witness:
  "unconsumed_completions ''t1'' (writeTeammateCompletionMailbox (\<lambda>k. k < 2) sample_completion (sample_tables [] []))
     = unconsumed_completions ''t1'' (sample_tables [] []) + 1"
  using completion_arrives_once [of sample_completion "sample_tables [] []" 2 "\<lambda>k. k < 2" "''t1''"]
  by (simp add: note_fresh_def sample_tables_def sample_completion_def)

end
