(* ===== verification/Run_Dispatch.thy ===== *)
theory Run_Dispatch
  imports Run_Records
begin

text \<open>
  The dispatch of a run to an executor (\<open>dispatchRun\<close> in \<open>apps/api/src/services/dispatch-run-service.ts\<close>) with the choice of its
  targets (\<open>dispatch-run/route-selection.ts\<close>), the mapping of its failures (\<open>dispatch-run/failure-mapping.ts\<close>) and the
  decision to resume a session (\<open>apps/api/src/services/runtime-continuity-service.ts\<close>). What an executor does with a run, the
  allocation of its directory and the recognition of small talk are fields of \<open>dispatch_env\<close>. The traces sent to the
  chat and the description of the allocated directory in the payloads of the events are left out.
\<close>

section \<open>The sessions of earlier runs\<close>

definition resolveRuntimeContinuityPolicy :: "string option \<Rightarrow> string option \<Rightarrow> string option" where
  "resolveRuntimeContinuityPolicy adapter prior =
    (case Option.bind prior trimmed of
       None \<Rightarrow> None
     | Some s \<Rightarrow> Some (if adapterSupportsNativeResume adapter then ''resume_first'' else ''rehydrate_only''))"

record continuity_decision =
  cdPolicy :: string
  cdAdapter :: "string option"
  cdSession :: string
  cdWorkdir :: "string option"
  cdSupports :: bool
  cdAttempted :: bool
  cdFresh :: bool
  cdReason :: string

definition is_policy :: "string option \<Rightarrow> bool" where
  "is_policy p = (p = Some ''resume_first'' \<or> p = Some ''rehydrate_only'')"

definition resolveRuntimeContinuityDecision ::
  "string option \<Rightarrow> string option \<Rightarrow> string option \<Rightarrow> string option \<Rightarrow> bool option \<Rightarrow> string option \<Rightarrow> continuity_decision option" where
  "resolveRuntimeContinuityDecision adapter prior workdir policy attempted failure =
    (case Option.bind prior trimmed of
       None \<Rightarrow> None
     | Some s \<Rightarrow>
         if \<not> is_policy policy then None
         else let a = map_option js_trim adapter;
                  supports = adapterSupportsNativeResume a;
                  first = (policy = Some ''resume_first'')
              in Some \<lparr>cdPolicy = the policy, cdAdapter = a, cdSession = s, cdWorkdir = map_option js_trim workdir,
                   cdSupports = supports,
                   cdAttempted = (case attempted of Some b \<Rightarrow> b | None \<Rightarrow> first \<and> supports), cdFresh = first,
                   cdReason = (case failure of Some f \<Rightarrow> js_trim f
                               | None \<Rightarrow> if \<not> first then ''rehydrate_only'' else if supports then ''resume_requested''
                                  else ''resume_not_supported_for_'' @ (case a of Some x \<Rightarrow> x | None \<Rightarrow> ''unknown''))\<rparr>)"

text \<open>The decision that \<open>dispatchRun\<close> takes itself; \<open>None\<close> when there is nothing to resume.\<close>

record resume_decision =
  rdPolicy :: string
  rdSession :: string
  rdWorkdir :: "string option"
  rdSupports :: bool
  rdNative :: bool
  rdFresh :: bool
  rdFailure :: "string option"

definition resolveResumeDispatchDecision :: "run_row \<Rightarrow> string \<Rightarrow> resume_decision option" where
  "resolveResumeDispatchDecision r adapter =
    (case Option.bind (rnPriorSession r) trimmed of
       None \<Rightarrow> None
     | Some s \<Rightarrow>
         if \<not> is_policy (rnPolicy r) then None
         else if rnPolicy r = Some ''rehydrate_only''
         then Some \<lparr>rdPolicy = ''rehydrate_only'', rdSession = s, rdWorkdir = map_option js_trim (rnPriorWorkdir r), rdSupports = False,
                rdNative = False, rdFresh = False, rdFailure = Some ''rehydrate_only''\<rparr>
         else let supports = adapterSupportsNativeResume (Some adapter)
              in Some \<lparr>rdPolicy = ''resume_first'', rdSession = s, rdWorkdir = map_option js_trim (rnPriorWorkdir r),
                   rdSupports = supports, rdNative = supports, rdFresh = True,
                   rdFailure = (if supports then None else Some (''resume_not_supported_for_'' @ adapter))\<rparr>)"

section \<open>Failures\<close>

record dispatch_failure =
  dfAdapter :: string
  dfState :: string
  dfCode :: failure_code
  dfMessage :: string
  dfDisposition :: disposition

datatype dispatch_result = DispatchOk string string string | DispatchFailed dispatch_failure

fun class_name :: "failure_class \<Rightarrow> string" where
  "class_name TransientFailure = ''transient''"
| "class_name AuthFailure = ''auth''"
| "class_name ConfigFailure = ''configuration''"
| "class_name StateFailure = ''state''"

fun action_name :: "next_action \<Rightarrow> string" where
  "action_name Reroute = ''reroute''"
| "action_name Retry = ''retry''"
| "action_name ManualFix = ''manual_fix''"

definition disposition_fields :: "disposition \<Rightarrow> (string \<times> json) list" where
  "disposition_fields d = [(''failureClass'', JStr (class_name (failClass d))), (''retryability'', JBool (retryable d)),
     (''nextAction'', JStr (action_name (nextAction d)))]"

definition buildConfigurationBlockMessage :: "string \<Rightarrow> string \<Rightarrow> string list \<Rightarrow> string" where
  "buildConfigurationBlockMessage name role missing = ''Configure '' @ name @ '' before dispatching the '' @ role @ '' run.''
     @ (if missing = [] then [] else '' Missing: '' @ js_join '', '' missing @ ''.'')"

definition PROVIDER_ISSUES :: "string list" where
  "PROVIDER_ISSUES = [''baseUrl'', ''auth'', ''auth.secretRef'', ''headers.secretRef'', ''provider'', ''commandPath'']"

definition classifyConfigurationBlockCode :: "string list \<Rightarrow> failure_code" where
  "classifyConfigurationBlockCode missing =
    (let provider = list_ex (\<lambda>m. m \<in> set PROVIDER_ISSUES) missing;
         model = list_ex (\<lambda>m. m = ''model'' \<or> m = ''configuredModel'') missing
     in if provider \<and> \<not> model then ProviderMissing
        else if model \<and> \<not> provider then (if ''configuredModel'' \<in> set missing then Unconfigured else ModelMissing)
        else Unconfigured)"

definition classifyDispatchFailure :: "failure_code \<Rightarrow> disposition" where
  "classifyDispatchFailure c =
    (if c \<in> {Unconfigured, ProviderMissing, ModelMissing} then disposition_of ConfigFailure False ManualFix
     else if c = AuthFailed then disposition_of AuthFailure False ManualFix
     else if failClass (classifyExecutorDispatchFailure c) = TransientFailure then disposition_of TransientFailure True Reroute
     else disposition_of ConfigFailure False ManualFix)"

definition buildDispatchFailure :: "string \<Rightarrow> failure_code \<Rightarrow> string \<Rightarrow> dispatch_failure" where
  "buildDispatchFailure adapter code msg =
    \<lparr>dfAdapter = adapter, dfState = ''FAILED'', dfCode = code, dfMessage = msg, dfDisposition = classifyDispatchFailure code\<rparr>"

definition state_block :: "string \<Rightarrow> string \<Rightarrow> dispatch_failure" where
  "state_block adapter msg = \<lparr>dfAdapter = adapter, dfState = ''FAILED'', dfCode = Unavailable, dfMessage = msg,
     dfDisposition = disposition_of StateFailure False ManualFix\<rparr>"

definition buildRuntimeDispatchBlock :: "run_row \<Rightarrow> string \<Rightarrow> dispatch_failure option" where
  "buildRuntimeDispatchBlock r adapter =
    (if rnState r = ''RUNNING'' then
       Some (state_block adapter (''Run '' @ rnId r @ '' is already running on ''
         @ (case rnExecutor r of Some x \<Rightarrow> x | None \<Rightarrow> adapter) @ ''.''
         @ (if truthy_str (rnSession r) then '' Session: '' @ the (rnSession r) @ ''.'' else [])))
     else if rnState r = ''COMPLETED'' then
       Some (state_block adapter (''Run '' @ rnId r @ '' has already completed. Create a new run before dispatching it again.''))
     else None)"

definition shouldRerouteAfterDispatchFailure :: "failure_code \<Rightarrow> bool" where
  "shouldRerouteAfterDispatchFailure c = isTransientExecutorDispatchFailure c"

definition shouldAllowManagerFallbackReroute :: "string \<Rightarrow> string \<Rightarrow> failure_code \<Rightarrow> bool" where
  "shouldAllowManagerFallbackReroute role adapter c =
    (role = ''leader'' \<and> adapter = ''model'' \<and> c \<in> {AuthFailed, Unconfigured, ProviderMissing, ModelMissing})"

section \<open>The targets\<close>

record dispatch_target =
  tgSlot :: exec_slot
  tgSource :: string

definition append_candidate :: "string option \<Rightarrow> string \<Rightarrow> (string \<times> string) list \<Rightarrow> (string \<times> string) list" where
  "append_candidate a source cs =
    (if \<not> truthy_str a \<or> the a \<in> fst ` set cs then cs else cs @ [(the a, source)])"

text \<open>
  The coding agents a leader on the model may fall back to. Codex comes first; the code orders the others by \<open>localeCompare\<close>, and the
  catalog has at most one of them (\<open>one_other_fallback\<close>).
\<close>

definition leader_fallbacks :: "exec_slot list \<Rightarrow> string \<Rightarrow> string \<Rightarrow> string list" where
  "leader_fallbacks slots role adapter =
    map slAdapter (sort_key (\<lambda>s. if slAdapter s = ''codex'' then 0 else (1 :: nat))
      (filter (\<lambda>s. slAdapter s \<noteq> adapter \<and> slType s = CodingAgent \<and> role \<in> set (slRoles s)) slots))"

definition add_fallback :: "string \<Rightarrow> routing_strategy \<Rightarrow> string option \<Rightarrow> (string \<times> string) list \<Rightarrow> (string \<times> string) list" where
  "add_fallback adapter s b cs =
    (if (s = FallbackModel \<or> s = PreferAgent) \<and> truthy_str b \<and> b \<noteq> Some adapter then append_candidate b ''fallback'' cs else cs)"

definition add_default :: "string \<Rightarrow> route option \<Rightarrow> (string \<times> string) list \<Rightarrow> (string \<times> string) list" where
  "add_default adapter d cs =
    (if truthy_str (map_option routeAdapter d) \<and> map_option routeAdapter d \<noteq> Some adapter
     then append_candidate (map_option routeAdapter d) ''default'' cs else cs)"

definition add_agents :: "string list \<Rightarrow> (string \<times> string) list \<Rightarrow> (string \<times> string) list" where
  "add_agents as cs = foldl (\<lambda>cs a. append_candidate (Some a) ''default'' cs) cs as"

definition dispatch_candidates :: "exec_slot list \<Rightarrow> string \<Rightarrow> routing_strategy option \<Rightarrow> string option \<Rightarrow> string \<Rightarrow> (string \<times> string) list" where
  "dispatch_candidates slots adapter strategy fallback role =
    (let d = getDefaultRoleRoutingForRole role;
         s = (case strategy of Some s \<Rightarrow> s | None \<Rightarrow> (case d of Some r \<Rightarrow> routeStrategy r | None \<Rightarrow> AgentOnly));
         b = (case fallback of Some x \<Rightarrow> Some x | None \<Rightarrow> Option.bind d routeFallback);
         cs = add_default adapter d (add_fallback adapter s b (append_candidate (Some adapter) ''primary'' []))
     in if role = ''leader'' \<and> adapter = ''model'' then add_agents (leader_fallbacks slots role adapter) cs else cs)"

definition resolveDispatchTargets ::
  "exec_slot list \<Rightarrow> string \<Rightarrow> routing_strategy option \<Rightarrow> string option \<Rightarrow> string \<Rightarrow> dispatch_target list" where
  "resolveDispatchTargets slots adapter strategy fallback role =
    List.map_filter (\<lambda>(a, source). map_option (\<lambda>s. \<lparr>tgSlot = s, tgSource = source\<rparr>) (find (\<lambda>s. slAdapter s = a) slots))
      (dispatch_candidates slots adapter strategy fallback role)"

section \<open>One attempt after another\<close>

datatype exec_result = ExecOk string string | ExecFailed failure_code string

record dispatch_env =
  deSettings :: settings_env
  deConfig :: exec_config
  deCircuit :: circuit_env
  deExecute :: "exec_slot \<Rightarrow> run_row \<Rightarrow> job_row \<Rightarrow> run_world \<Rightarrow> exec_result \<times> run_world"
  deAllocate :: "run_row \<Rightarrow> job_row \<Rightarrow> run_world \<Rightarrow> run_world"
  deSmallTalk :: "string \<Rightarrow> string option \<Rightarrow> bool"

definition lifecycle :: "string \<Rightarrow> job_row \<Rightarrow> run_row \<Rightarrow> (string \<times> json) list \<Rightarrow> run_world \<Rightarrow> run_world" where
  "lifecycle type t r payload w = record_event type (Some (jbId t)) (Some (rnId r)) (rwNow w) payload w"

definition names_json :: "string list \<Rightarrow> json" where
  "names_json xs = JArr (map JStr xs)"

record attempt_log =
  alAttempted :: "string list"
  alSkipped :: "string list"
  alReroute :: "(string \<times> dispatch_failure) option"
  alResult :: "dispatch_result option"

definition no_attempts :: attempt_log where
  "no_attempts = \<lparr>alAttempted = [], alSkipped = [], alReroute = None, alResult = None\<rparr>"

definition circuit_open :: "string \<Rightarrow> run_world \<Rightarrow> bool" where
  "circuit_open a w = (res_state (getExecutorCircuitState (rwCircuits w) a (rwNow w)) = Open)"

definition skip_open :: "string \<Rightarrow> job_row \<Rightarrow> run_row \<Rightarrow> attempt_log \<Rightarrow> run_world \<Rightarrow> attempt_log \<times> run_world" where
  "skip_open a t r l w =
    (let l' = l\<lparr>alSkipped := alSkipped l @ [a], alAttempted := alAttempted l @ [a]\<rparr>
     in (l', lifecycle ''run.progressed'' t r ((''message'', JStr (''Skipped open circuit adapter '' @ a @ '' while dispatching run '' @ rnId r))
           # (''reason'', JStr ''circuit_open'') # disposition_fields (disposition_of TransientFailure True Reroute)
           @ [(''fromAdapterId'', JStr a), (''skippedOpenCircuitAdapters'', names_json (alSkipped l')),
              (''attemptedAdapters'', names_json (alAttempted l'))]) w))"

text \<open>The announcements of a reroute put the task back into progress.\<close>

definition announce_reroute ::
  "string \<Rightarrow> string \<Rightarrow> string \<Rightarrow> (string \<times> json) list \<Rightarrow> dispatch_target \<Rightarrow> job_row \<Rightarrow> run_row \<Rightarrow> attempt_log \<Rightarrow> run_world \<Rightarrow> run_world" where
  "announce_reroute msg reason from extra g t r l w =
    (let a = slAdapter (tgSlot g);
         tail = [(''fromAdapterId'', JStr from), (''toAdapterId'', JStr a), (''routeSource'', JStr (tgSource g))] @ extra
                @ [(''attemptedAdapters'', names_json (alAttempted l))];
         w1 = update_job (jbId t) (\<lambda>x. x\<lparr>jbState := ''IN_PROGRESS'', jbUpdatedAt := rwNow w\<rparr>) w;
         w2 = lifecycle ''run.progressed'' t r ((''message'', JStr msg) # (''reason'', JStr reason)
                # disposition_fields (disposition_of TransientFailure True Reroute) @ tail) w1
     in record_event ''task.orchestration.transition'' (Some (jbId t)) (Some (rnId r)) (rwNow w2)
          ([(''message'', JStr msg), (''transition'', JStr ''retry''), (''reason'', JStr reason), (''action'', JStr ''dispatch''),
            (''state'', JStr ''IN_PROGRESS''), (''taskState'', JStr ''IN_PROGRESS''), (''roleId'', JStr (rnRole r))] @ tail) w2)"

definition reroute_open :: "dispatch_target \<Rightarrow> job_row \<Rightarrow> run_row \<Rightarrow> attempt_log \<Rightarrow> run_world \<Rightarrow> attempt_log \<times> run_world" where
  "reroute_open g t r l w =
    (case alSkipped l of
       [] \<Rightarrow> (l, w)
     | from # _ \<Rightarrow>
         (l\<lparr>alSkipped := []\<rparr>,
          announce_reroute (''Dispatch rerouted from '' @ from @ '' to '' @ slAdapter (tgSlot g) @ '' because the primary circuit is open'')
            ''reroute_circuit_open'' from [(''skippedOpenCircuitAdapters'', names_json (alSkipped l))] g t r l w))"

definition reroute_failed :: "dispatch_target \<Rightarrow> job_row \<Rightarrow> run_row \<Rightarrow> attempt_log \<Rightarrow> run_world \<Rightarrow> run_world" where
  "reroute_failed g t r l w =
    (case alReroute l of
       None \<Rightarrow> w
     | Some (from, f) \<Rightarrow>
         announce_reroute (''Dispatch rerouted from '' @ from @ '' to '' @ slAdapter (tgSlot g) @ '' after '' @ code_name (dfCode f))
           (''reroute_after_'' @ code_name (dfCode f)) from
           [(''dispatchCode'', JStr (code_name (dfCode f))), (''dispatchMessage'', JStr (dfMessage f))] g t r l w)"

definition wants_workspace :: "dispatch_env \<Rightarrow> string \<Rightarrow> run_row \<Rightarrow> job_row \<Rightarrow> bool" where
  "wants_workspace e a r t = (capWorkspace (getExecutorCapabilities (Some a))
     \<and> \<not> (rnRole r = ''leader'' \<and> deSmallTalk e (jbTitle t) (jbDescription t)))"

definition prepare_run :: "dispatch_env \<Rightarrow> dispatch_target \<Rightarrow> job_row \<Rightarrow> run_row \<Rightarrow> attempt_log \<Rightarrow> run_world \<Rightarrow> run_world" where
  "prepare_run e g t r l w =
    (let a = slAdapter (tgSlot g);
         w1 = (if wants_workspace e a r t
               then lifecycle ''runtime_workspace.allocated'' t r [(''adapterId'', JStr a), (''routeSource'', JStr (tgSource g))] (deAllocate e r t w)
               else w)
     in lifecycle ''run.started'' t r [(''message'', JStr (''Dispatch started on '' @ a @ '' for run '' @ rnId r)), (''roleId'', JStr (rnRole r)),
          (''adapterId'', JStr a), (''routeSource'', JStr (tgSource g)), (''attemptCount'', JNum (int (length (alAttempted l))))] w1)"

definition succeed :: "dispatch_target \<Rightarrow> job_row \<Rightarrow> run_row \<Rightarrow> string \<Rightarrow> string \<Rightarrow> run_world \<Rightarrow> run_world" where
  "succeed g t r session artifact w =
    (let a = slAdapter (tgSlot g);
         w1 = lifecycle ''run.completed'' t r [(''message'', JStr (''Dispatch completed on '' @ a @ '' for run '' @ rnId r)),
                (''roleId'', JStr (rnRole r)), (''adapterId'', JStr a), (''sessionId'', JStr session), (''artifactId'', JStr artifact),
                (''routeSource'', JStr (tgSource g))] w
     in w1\<lparr>rwCircuits := snd (recordExecutorCircuitSuccess (rwCircuits w1) a (rwNow w1))\<rparr>)"

definition note_circuit :: "dispatch_env \<Rightarrow> string \<Rightarrow> failure_code \<Rightarrow> run_world \<Rightarrow> run_world" where
  "note_circuit e a c w =
    (if shouldRerouteAfterDispatchFailure c
     then w\<lparr>rwCircuits := snd (recordExecutorCircuitFailure (deCircuit e) (rwCircuits w) a (code_name c) (rwNow w))\<rparr> else w)"

definition effective_disposition :: "run_row \<Rightarrow> string \<Rightarrow> failure_code \<Rightarrow> disposition" where
  "effective_disposition r a c = (if shouldAllowManagerFallbackReroute (rnRole r) a c
     then (classifyDispatchFailure c)\<lparr>nextAction := Reroute\<rparr> else classifyDispatchFailure c)"

definition goes_on :: "run_row \<Rightarrow> string \<Rightarrow> failure_code \<Rightarrow> bool" where
  "goes_on r a c = (shouldRerouteAfterDispatchFailure c \<or> shouldAllowManagerFallbackReroute (rnRole r) a c)"

definition fail_stop :: "dispatch_target \<Rightarrow> job_row \<Rightarrow> run_row \<Rightarrow> failure_code \<Rightarrow> string \<Rightarrow> run_world \<Rightarrow> run_world" where
  "fail_stop g t r c msg w =
    lifecycle ''run.blocked'' t r ((''message'', JStr msg) # (''reason'', JStr (code_name c))
      # disposition_fields (effective_disposition r (slAdapter (tgSlot g)) c)
      @ [(''source'', JStr (slAdapter (tgSlot g))), (''routeSource'', JStr (tgSource g))]) w"

text \<open>The pause of 150 ms before the next target.\<close>

definition fail_on :: "dispatch_target \<Rightarrow> job_row \<Rightarrow> run_row \<Rightarrow> attempt_log \<Rightarrow> failure_code \<Rightarrow> run_world \<Rightarrow> run_world" where
  "fail_on g t r l c w =
    (let a = slAdapter (tgSlot g);
         w1 = lifecycle ''run.progressed'' t r ((''message'', JStr (''Dispatch will reroute from '' @ a @ '' after '' @ code_name c))
                # (''reason'', JStr (code_name c)) # disposition_fields (effective_disposition r a c)
                @ [(''source'', JStr a), (''routeSource'', JStr (tgSource g)), (''attemptedAdapters'', names_json (alAttempted l))]) w
     in w1\<lparr>rwNow := rwNow w1 + 150\<rparr>)"

datatype loop_end = LoopReturn "dispatch_result option" | LoopDone attempt_log

definition try_target :: "dispatch_env \<Rightarrow> dispatch_target \<Rightarrow> job_row \<Rightarrow> run_row \<Rightarrow> attempt_log \<Rightarrow> run_world \<Rightarrow> exec_result \<times> attempt_log \<times> run_world" where
  "try_target e g t r l w =
    (let (l1, w1) = reroute_open g t r l w;
         w2 = reroute_failed g t r l1 w1;
         l2 = l1\<lparr>alAttempted := alAttempted l1 @ [slAdapter (tgSlot g)]\<rparr>;
         (res, w3) = deExecute e (tgSlot g) r t (prepare_run e g t r l2 w2)
     in (res, l2, w3))"

definition failure_of :: "string \<Rightarrow> failure_code \<Rightarrow> string \<Rightarrow> dispatch_failure" where
  "failure_of a c msg =
    \<lparr>dfAdapter = a, dfState = ''FAILED'', dfCode = c, dfMessage = msg, dfDisposition = classifyDispatchFailure c\<rparr>"

definition note_failure :: "string \<Rightarrow> failure_code \<Rightarrow> string \<Rightarrow> attempt_log \<Rightarrow> attempt_log" where
  "note_failure a c msg l = l\<lparr>alReroute := Some (a, failure_of a c msg), alResult := Some (DispatchFailed (failure_of a c msg))\<rparr>"

fun dispatch_loop :: "dispatch_env \<Rightarrow> job_row \<Rightarrow> run_row \<Rightarrow> dispatch_target list \<Rightarrow> attempt_log \<Rightarrow> run_world \<Rightarrow> loop_end \<times> run_world" where
  "dispatch_loop e t r [] l w = (LoopDone l, w)"
| "dispatch_loop e t r (g # gs) l w =
     (let a = slAdapter (tgSlot g)
      in if circuit_open a w then (let (l', w') = skip_open a t r l w in dispatch_loop e t r gs l' w')
         else case run_by_id (rnId r) w of
           None \<Rightarrow> (LoopReturn None, w)
         | Some r' \<Rightarrow>
             (case job_by_id (rnTask r') w of
                None \<Rightarrow> (LoopReturn None, w)
              | Some t' \<Rightarrow>
                  (case buildRuntimeDispatchBlock r' a of
                     Some b \<Rightarrow> (LoopReturn (Some (DispatchFailed b)), w)
                   | None \<Rightarrow>
                       (case try_target e g t' r' l w of
                          (ExecOk session artifact, l', w') \<Rightarrow>
                            (LoopDone (l'\<lparr>alResult := Some (DispatchOk a session artifact)\<rparr>), succeed g t' r' session artifact w')
                        | (ExecFailed c msg, l', w') \<Rightarrow>
                            let l2 = note_failure a c msg l';
                                w2 = note_circuit e a c w'
                            in if goes_on r' a c then dispatch_loop e t r gs l2 (fail_on g t' r' l2 c w2)
                               else (LoopDone l2, fail_stop g t' r' c msg w2)))))"

section \<open>The whole dispatch\<close>

text \<open>The dash of a text is \<open>CHR 0x97\<close>.\<close>

definition block_run :: "json \<Rightarrow> job_row \<Rightarrow> run_row \<Rightarrow> dispatch_failure \<Rightarrow> run_world \<Rightarrow> run_world" where
  "block_run source t r f w = lifecycle ''run.blocked'' t r ((''message'', JStr (dfMessage f)) # (''reason'', JStr (code_name (dfCode f)))
     # (''source'', source) # disposition_fields (dfDisposition f)) w"

definition no_routing :: "run_row \<Rightarrow> dispatch_failure" where
  "no_routing r = \<lparr>dfAdapter = ''(none)'', dfState = rnState r, dfCode = Unconfigured,
     dfMessage = ''Role '' @ [CHR 0x22] @ rnRole r @ [CHR 0x22] @ '' has no routing configured. The orchestration role must NOT fall back to the codex CLI adapter ''
       @ [CHR 0x97] @ '' that would run the leader as an external CLI agent. Add a leader entry to config/executors.json roleRouting pointing at a model binding.'',
     dfDisposition = disposition_of ConfigFailure False ManualFix\<rparr>"

definition opt_json :: "string option \<Rightarrow> json" where
  "opt_json v = (case v of None \<Rightarrow> JNull | Some s \<Rightarrow> JStr s)"

definition continuity_json :: "continuity_decision option \<Rightarrow> json" where
  "continuity_json d = (case d of
     None \<Rightarrow> JNull
   | Some c \<Rightarrow> JObj [(''source'', JStr ''control_plane''), (''decisionSource'', JStr ''runtime-continuity-service''),
       (''policy'', JStr (cdPolicy c)), (''adapterId'', opt_json (cdAdapter c)), (''priorSessionId'', JStr (cdSession c)),
       (''priorWorkdir'', opt_json (cdWorkdir c)), (''adapterSupportsResume'', JBool (cdSupports c)),
       (''nativeResumeAttempted'', JBool (cdAttempted c)), (''fallbackToFresh'', JBool (cdFresh c)), (''reason'', JStr (cdReason c))])"

definition resume_message :: "string \<Rightarrow> resume_decision \<Rightarrow> string" where
  "resume_message a d =
    (if rdPolicy d = ''rehydrate_only'' then ''Rehydration-only continuity armed from '' @ rdSession d @ ''; adapter '' @ a
       @ '' will start fresh using control-plane context artifacts''
     else if rdSupports d then ''Resume-first policy armed from '' @ rdSession d @ ''; adapter will attempt resume before fresh fallback''
     else ''Resume-first policy requested from '' @ rdSession d @ '' but adapter '' @ a @ '' does not support resume, so dispatch will start fresh'')"

definition arm_resume :: "string \<Rightarrow> job_row \<Rightarrow> run_row \<Rightarrow> run_world \<Rightarrow> run_world" where
  "arm_resume a t r w =
    (case resolveResumeDispatchDecision r a of
       None \<Rightarrow> w
     | Some d \<Rightarrow>
         let w1 = update_run (rnId r) (\<lambda>x. x\<lparr>rnResumeAt := (if rdNative d then Some (rwNow w) else None), rnResumeFailure := rdFailure d,
                    rnUpdatedAt := rwNow w\<rparr>) w
         in lifecycle ''run.message'' t r
              [(''message'', JStr (resume_message a d)), (''reason'', JStr (case rdFailure d of Some f \<Rightarrow> f | None \<Rightarrow> ''resume_requested'')), (''source'', JStr a),
               (''policy'', JStr (rdPolicy d)), (''priorSessionId'', JStr (rdSession d)), (''priorWorkdir'', opt_json (rdWorkdir d)),
               (''adapterSupportsResume'', JBool (rdSupports d)), (''nativeResumeAttempted'', JBool (rdNative d)),
               (''fallbackToFresh'', JBool (rdFresh d)),
               (''continuity'', continuity_json (resolveRuntimeContinuityDecision (Some a) (Some (rdSession d)) (rdWorkdir d) (Some (rdPolicy d))
                  (Some (rdNative d)) (rdFailure d)))] w1)"

text \<open>The run fails and its task waits for a person.\<close>

definition fail_run :: "string \<Rightarrow> job_row \<Rightarrow> run_row \<Rightarrow> run_world \<Rightarrow> run_world" where
  "fail_run a t r w =
    (let n = rwNow w;
         w1 = update_run (rnId r) (\<lambda>x. x\<lparr>rnState := ''FAILED'', rnExecutor := Some a, rnSession := None,
                rnDelegation := (case rnDelegation r of Some d \<Rightarrow> Some d | None \<Rightarrow> Some ''delegate_fresh''),
                rnAttempts := rnAttempts r + 1, rnStartedAt := (case rnStartedAt r of Some s \<Rightarrow> Some s | None \<Rightarrow> Some n),
                rnUpdatedAt := n, rnCompletedAt := Some n\<rparr>) w
     in update_job (jbId t) (\<lambda>x. x\<lparr>jbState := ''BLOCKED'', jbUpdatedAt := n\<rparr>) w1)"

definition session_failed :: "job_row \<Rightarrow> run_row \<Rightarrow> string \<Rightarrow> (string \<times> json) list \<Rightarrow> run_world \<Rightarrow> run_world" where
  "session_failed t r msg tail w = lifecycle ''executor_session.failed'' t r ((''message'', JStr msg) # (''error'', JStr msg) # tail) w"

definition no_ready_target :: "dispatch_target \<Rightarrow> job_row \<Rightarrow> run_row \<Rightarrow> run_world \<Rightarrow> dispatch_result option \<times> run_world" where
  "no_ready_target g t r w =
    (let slot = tgSlot g; missing = slMissing slot;
         f = buildDispatchFailure (slAdapter slot) (classifyConfigurationBlockCode missing)
               (buildConfigurationBlockMessage (slName slot) (rnRole r) missing);
         tail = (''reason'', JStr (code_name (dfCode f))) # (''source'', JStr (slAdapter slot)) # (''missing'', names_json missing)
                # disposition_fields (dfDisposition f);
         w1 = fail_run (slAdapter slot) t r w;
         w2 = lifecycle ''run.blocked'' t r ((''message'', JStr (dfMessage f)) # (''error'', JStr (dfMessage f)) # tail) w1
     in (Some (DispatchFailed f), session_failed t r (dfMessage f) tail w2))"

definition nothing_ran :: "string \<Rightarrow> job_row \<Rightarrow> run_row \<Rightarrow> attempt_log \<Rightarrow> run_world \<Rightarrow> dispatch_result option \<times> run_world" where
  "nothing_ran adapter t r l w =
    (let a = (case alAttempted l of x # _ \<Rightarrow> x | [] \<Rightarrow> adapter);
         msg = (if alAttempted l \<noteq> []
                then ''All eligible executors are temporarily unavailable because their circuits are open: '' @ js_join '', '' (alAttempted l)
                else ''No eligible executor remained for run '' @ rnId r);
         d = disposition_of TransientFailure True Retry;
         tail = (''reason'', JStr ''executor_unavailable'') # (''source'', JStr a) # (''attemptedAdapters'', names_json (alAttempted l))
                # disposition_fields d;
         w1 = fail_run a t r w;
         w2 = lifecycle ''run.failed'' t r ((''message'', JStr msg) # tail) w1
     in (Some (DispatchFailed \<lparr>dfAdapter = a, dfState = ''FAILED'', dfCode = Unavailable, dfMessage = msg, dfDisposition = d\<rparr>),
         session_failed t r msg tail w2))"

definition run_targets :: "dispatch_env \<Rightarrow> string \<Rightarrow> job_row \<Rightarrow> run_row \<Rightarrow> dispatch_target list \<Rightarrow> run_world \<Rightarrow> dispatch_result option \<times> run_world" where
  "run_targets e adapter t r targets w =
    (case dispatch_loop e t r targets no_attempts w of
       (LoopReturn res, w') \<Rightarrow> (res, w')
     | (LoopDone l, w') \<Rightarrow> (case alResult l of Some res \<Rightarrow> (Some res, w') | None \<Rightarrow> nothing_ran adapter t r l w'))"

definition target_ready :: "dispatch_target \<Rightarrow> bool" where
  "target_ready g = (slMissing (tgSlot g) = [])"

definition dispatch_to :: "dispatch_env \<Rightarrow> string \<Rightarrow> route option \<Rightarrow> job_row \<Rightarrow> run_row \<Rightarrow> run_world \<Rightarrow> dispatch_result option \<times> run_world" where
  "dispatch_to e a selected t r w =
    (let targets = resolveDispatchTargets (getExecutorSlotList (deSettings e) (deConfig e)) a (map_option routeStrategy selected)
                     (truthy_opt (Option.bind selected routeFallback)) (rnRole r)
     in case targets of
          [] \<Rightarrow> let f = buildDispatchFailure a Unconfigured (''No eligible executor remained for run '' @ rnId r)
                in (Some (DispatchFailed f), block_run (JStr a) t r f w)
        | g # _ \<Rightarrow> if filter target_ready targets = [] then no_ready_target g t r w
                    else run_targets e a t r (filter target_ready targets) w)"

definition route_of_role :: "dispatch_env \<Rightarrow> string \<Rightarrow> route option" where
  "route_of_role e role = map_option rrRoute (find (\<lambda>x. rrRole x = role) (getRoleRoutingList (deConfig e)))"

definition dispatchRun :: "dispatch_env \<Rightarrow> string \<Rightarrow> run_world \<Rightarrow> dispatch_result option \<times> run_world" where
  "dispatchRun e i w =
    (case run_by_id i w of
       None \<Rightarrow> (None, w)
     | Some r \<Rightarrow>
         (case job_by_id (rnTask r) w of
            None \<Rightarrow> (None, w)
          | Some t \<Rightarrow>
              let selected = route_of_role e (rnRole r)
              in if (rnRole r = ''leader'' \<or> rnRole r = ''manager'') \<and> selected = None
                 then (Some (DispatchFailed (no_routing r)), block_run JNull t r (no_routing r) w)
                 else
                   let a = (case selected of Some x \<Rightarrow> routeAdapter x | None \<Rightarrow> ''codex'')
                   in case buildRuntimeDispatchBlock r a of
                        Some b \<Rightarrow> (Some (DispatchFailed b), block_run (JStr a) t r b w)
                      | None \<Rightarrow>
                          let w1 = lifecycle ''run.claimed'' t r [(''message'', JStr (''Run '' @ rnId r @ '' claimed for dispatch'')),
                                     (''roleId'', JStr (rnRole r)), (''taskId'', JStr (jbId t)), (''workspaceId'', JStr (jbWorkspace t)),
                                     (''source'', JStr a)] w
                          in dispatch_to e a selected t r (arm_resume a t r w1)))"

section \<open>The targets are distinct\<close>

lemma append_candidate_distinct: "distinct (map fst cs) \<Longrightarrow> distinct (map fst (append_candidate a src cs))"
  by (auto simp: append_candidate_def)

lemma add_agents_distinct: "distinct (map fst cs) \<Longrightarrow> distinct (map fst (add_agents as cs))"
  unfolding add_agents_def by (induction as arbitrary: cs) (simp_all add: append_candidate_distinct)

lemma add_fallback_distinct: "distinct (map fst cs) \<Longrightarrow> distinct (map fst (add_fallback a s b cs))"
  unfolding add_fallback_def by (simp add: append_candidate_distinct)

lemma add_default_distinct: "distinct (map fst cs) \<Longrightarrow> distinct (map fst (add_default a d cs))"
  unfolding add_default_def by (simp add: append_candidate_distinct)

lemma candidates_distinct: "distinct (map fst (dispatch_candidates slots adapter strategy fallback role))"
  unfolding dispatch_candidates_def Let_def
  by (rule if_split [THEN iffD2], intro conjI impI)
    (intro add_agents_distinct add_default_distinct add_fallback_distinct append_candidate_distinct, simp)+

lemma target_adapters: "map (\<lambda>g. slAdapter (tgSlot g)) (resolveDispatchTargets slots adapter strategy fallback role)
    = filter (\<lambda>a. find (\<lambda>s. slAdapter s = a) slots \<noteq> None) (map fst (dispatch_candidates slots adapter strategy fallback role))"
proof -
  have own: "slAdapter x = a" if "find (\<lambda>s. slAdapter s = a) slots = Some x" for a x
    using that by (auto simp: find_Some_iff)
  have "map (\<lambda>g. slAdapter (tgSlot g)) (List.map_filter (\<lambda>(a, source). map_option (\<lambda>s. \<lparr>tgSlot = s, tgSource = source\<rparr>)
      (find (\<lambda>s. slAdapter s = a) slots)) cs) = filter (\<lambda>a. find (\<lambda>s. slAdapter s = a) slots \<noteq> None) (map fst cs)" for cs
  proof (induction cs)
    case (Cons c cs)
    show ?case
    proof (cases "find (\<lambda>s. slAdapter s = fst c) slots")
      case None
      then show ?thesis using Cons by (cases c) (simp add: map_filter_simps)
    next
      case (Some x)
      then show ?thesis using Cons own [OF Some] by (cases c) (simp add: map_filter_simps)
    qed
  qed (simp add: map_filter_simps)
  then show ?thesis by (simp add: resolveDispatchTargets_def)
qed

lemma targets_distinct: "distinct (map (\<lambda>g. slAdapter (tgSlot g)) (resolveDispatchTargets slots adapter strategy fallback role))"
  by (simp add: target_adapters candidates_distinct)

lemma one_other_fallback:
  "length (filter (\<lambda>s. slAdapter s \<noteq> ''codex'' \<and> slType s = CodingAgent \<and> ''leader'' \<in> set (slRoles s)) (getExecutorSlotList e c)) = 1"
  by (simp add: getExecutorSlotList_def EXECUTOR_CATALOG_def slot_of_def Let_def)

lemma find_role: "(\<And>e. rrRole (f e) = fst e) \<Longrightarrow> find (\<lambda>x. rrRole x = role) (map f xs) = None \<longleftrightarrow> role \<notin> fst ` set xs"
  by (induction xs) auto

lemma role_routed: "route_of_role e role = None \<longleftrightarrow> role \<notin> fst ` set DEFAULT_ROLE_ROUTING"
  by (simp add: route_of_role_def getRoleRoutingList_def case_prod_unfold Let_def find_role)

lemma leader_is_always_routed: "route_of_role e ''leader'' \<noteq> None"
  unfolding role_routed by (simp add: DEFAULT_ROLE_ROUTING_def)

section \<open>What the loop does\<close>

lemma note_failure_attempted [simp]: "alAttempted (note_failure a c msg l) = alAttempted l"
  by (simp add: note_failure_def)

lemma reroute_open_attempted [simp]: "alAttempted (fst (reroute_open g t r l w)) = alAttempted l"
  by (simp add: reroute_open_def split: list.splits)

lemma try_target_attempted: "try_target e g t r l w = (res, l', w') \<Longrightarrow> alAttempted l' = alAttempted l @ [slAdapter (tgSlot g)]"
  by (auto simp: try_target_def Let_def split: prod.splits) (metis fst_conv reroute_open_attempted)

lemma loop_attempts:
  "dispatch_loop e t r gs l w = (LoopDone l', w') \<Longrightarrow>
    \<exists>k. alAttempted l' = alAttempted l @ map (\<lambda>g. slAdapter (tgSlot g)) (take k gs)"
proof (induction gs arbitrary: l w)
  case (Cons g gs)
  have step: "\<exists>k. alAttempted l' = alAttempted l @ map (\<lambda>g. slAdapter (tgSlot g)) (take k (g # gs))"
    if l1: "alAttempted l1 = alAttempted l @ [slAdapter (tgSlot g)]"
      and rest: "\<exists>k. alAttempted l' = alAttempted l1 @ map (\<lambda>g. slAdapter (tgSlot g)) (take k gs)" for l1 :: attempt_log
  proof -
    obtain k where "alAttempted l' = alAttempted l1 @ map (\<lambda>g. slAdapter (tgSlot g)) (take k gs)" using rest by blast
    then show ?thesis using l1 by (intro exI [of _ "Suc k"]) simp
  qed
  show ?case
  proof (cases "circuit_open (slAdapter (tgSlot g)) w")
    case True
    then show ?thesis
      using Cons.prems by (auto simp: Let_def skip_open_def intro!: step dest!: Cons.IH)
  next
    case False
    then obtain r' t' where w: "run_by_id (rnId r) w = Some r'" "job_by_id (rnTask r') w = Some t'"
      "buildRuntimeDispatchBlock r' (slAdapter (tgSlot g)) = None"
      using Cons.prems by (auto simp: Let_def split: option.splits)
    obtain res l1 w1 where t: "try_target e g t' r' l w = (res, l1, w1)" by (metis prod_cases3)
    have a: "alAttempted l1 = alAttempted l @ [slAdapter (tgSlot g)]" by (rule try_target_attempted [OF t])
    have loop: "dispatch_loop e t r (g # gs) l w = (case (res, l1, w1) of
        (ExecOk session artifact, l', w') \<Rightarrow> (LoopDone (l'\<lparr>alResult := Some (DispatchOk (slAdapter (tgSlot g)) session artifact)\<rparr>),
           succeed g t' r' session artifact w')
      | (ExecFailed c msg, l', w') \<Rightarrow>
          let l2 = note_failure (slAdapter (tgSlot g)) c msg l';
              w2 = note_circuit e (slAdapter (tgSlot g)) c w'
          in if goes_on r' (slAdapter (tgSlot g)) c then dispatch_loop e t r gs l2 (fail_on g t' r' l2 c w2)
             else (LoopDone l2, fail_stop g t' r' c msg w2))"
      using False w t by (simp add: Let_def)
    show ?thesis
    proof (cases "alAttempted l' = alAttempted l1")
      case True
      then show ?thesis by (intro exI [of _ 1]) (simp add: a)
    next
      case False
      then obtain l2 w2 where "alAttempted l2 = alAttempted l1" "dispatch_loop e t r gs l2 w2 = (LoopDone l', w')"
        using Cons.prems that [OF note_failure_attempted] unfolding loop by (cases res) (auto simp: Let_def split: if_splits)
      then show ?thesis using Cons.IH [of l2 w2] a by (intro step [of l2]) simp_all
    qed
  qed
qed simp

section \<open>Whom the dispatch may call\<close>

text \<open>What the parts of a target's turn leave alone: the circuits, the clock and the runs.\<close>

definition keeps_clockwork :: "run_world \<Rightarrow> run_world \<Rightarrow> bool" where
  "keeps_clockwork w w' = (rwCircuits w' = rwCircuits w \<and> rwNow w' = rwNow w)"

lemma lifecycle_fields [simp]:
  "rwNow (lifecycle a t r p w) = rwNow w" "rwCircuits (lifecycle a t r p w) = rwCircuits w"
  "rwRuns (lifecycle a t r p w) = rwRuns w" "rwJobs (lifecycle a t r p w) = rwJobs w"
  by (simp_all add: lifecycle_def)

lemma announce_fields [simp]:
  "rwNow (announce_reroute m s f x g t r l w) = rwNow w" "rwCircuits (announce_reroute m s f x g t r l w) = rwCircuits w"
  "rwRuns (announce_reroute m s f x g t r l w) = rwRuns w"
  by (simp_all add: announce_reroute_def Let_def)

lemma reroute_fields [simp]:
  "rwNow (snd (reroute_open g t r l w)) = rwNow w" "rwCircuits (snd (reroute_open g t r l w)) = rwCircuits w"
  "rwRuns (snd (reroute_open g t r l w)) = rwRuns w"
  "rwNow (reroute_failed g t r l w) = rwNow w" "rwCircuits (reroute_failed g t r l w) = rwCircuits w"
  "rwRuns (reroute_failed g t r l w) = rwRuns w"
  by (simp_all add: reroute_open_def reroute_failed_def split: list.split option.split)

lemma skip_open_fields [simp]:
  "rwNow (snd (skip_open a t r l w)) = rwNow w" "rwCircuits (snd (skip_open a t r l w)) = rwCircuits w"
  "rwRuns (snd (skip_open a t r l w)) = rwRuns w" "rwJobs (snd (skip_open a t r l w)) = rwJobs w"
  "alResult (fst (skip_open a t r l w)) = alResult l"
  by (simp_all add: skip_open_def Let_def)

definition calm_allocation :: "dispatch_env \<Rightarrow> bool" where
  "calm_allocation e = (\<forall>r t w. keeps_clockwork w (deAllocate e r t w))"

lemma prepare_fields: "calm_allocation e \<Longrightarrow> keeps_clockwork w (prepare_run e g t r l w)"
  by (simp add: prepare_run_def calm_allocation_def keeps_clockwork_def Let_def)

definition may_execute :: "exec_slot \<Rightarrow> run_row \<Rightarrow> run_world \<Rightarrow> bool" where
  "may_execute s r w = (slMissing s = [] \<and> rnState r \<noteq> ''RUNNING'' \<and> rnState r \<noteq> ''COMPLETED'' \<and> \<not> circuit_open (slAdapter s) w)"

definition agree_where_allowed :: "dispatch_env \<Rightarrow> (exec_slot \<Rightarrow> run_row \<Rightarrow> job_row \<Rightarrow> run_world \<Rightarrow> exec_result \<times> run_world) \<Rightarrow> bool" where
  "agree_where_allowed e ex = (\<forall>s r t w. may_execute s r w \<longrightarrow> ex s r t w = deExecute e s r t w)"

lemma wants_workspace_ex [simp]: "wants_workspace (e\<lparr>deExecute := ex\<rparr>) a r t = wants_workspace e a r t"
  by (simp add: wants_workspace_def)

lemma env_fields [simp]:
  "prepare_run (e\<lparr>deExecute := ex\<rparr>) g t r l w = prepare_run e g t r l w" "note_circuit (e\<lparr>deExecute := ex\<rparr>) a c w = note_circuit e a c w"
  "route_of_role (e\<lparr>deExecute := ex\<rparr>) role = route_of_role e role"
  by (simp_all add: prepare_run_def note_circuit_def route_of_role_def Let_def)

lemma unblocked_state: "buildRuntimeDispatchBlock r a = None \<longleftrightarrow> rnState r \<noteq> ''RUNNING'' \<and> rnState r \<noteq> ''COMPLETED''"
  by (simp add: buildRuntimeDispatchBlock_def)

lemma try_target_agrees:
  assumes "calm_allocation e" "agree_where_allowed e ex" "target_ready g"
    "\<not> circuit_open (slAdapter (tgSlot g)) w" "buildRuntimeDispatchBlock r a = None"
  shows "try_target (e\<lparr>deExecute := ex\<rparr>) g t r l w = try_target e g t r l w"
proof -
  have "may_execute (tgSlot g) r (prepare_run e g t r l2 (reroute_failed g t r l1 (snd (reroute_open g t r l w))))" for l1 l2
    using assms prepare_fields [OF assms(1), of "reroute_failed g t r l1 (snd (reroute_open g t r l w))" g t r l2]
    by (simp add: may_execute_def target_ready_def unblocked_state circuit_open_def keeps_clockwork_def)
  then show ?thesis
    using assms(2) by (simp add: try_target_def agree_where_allowed_def Let_def case_prod_unfold)
qed

lemma loop_agrees:
  assumes "calm_allocation e" "agree_where_allowed e ex" "\<forall>g\<in>set gs. target_ready g"
  shows "dispatch_loop (e\<lparr>deExecute := ex\<rparr>) t r gs l w = dispatch_loop e t r gs l w"
  using assms(3)
proof (induction gs arbitrary: l w)
  case (Cons g gs)
  then have g: "target_ready g" by simp
  show ?case
  proof (cases "circuit_open (slAdapter (tgSlot g)) w")
    case True
    then show ?thesis using Cons by (simp add: Let_def case_prod_unfold)
  next
    case False
    show ?thesis
    proof (cases "run_by_id (rnId r) w")
      case (Some r')
      show ?thesis
      proof (cases "buildRuntimeDispatchBlock r' (slAdapter (tgSlot g))")
        case None
        have "try_target (e\<lparr>deExecute := ex\<rparr>) g t' r' l w = try_target e g t' r' l w" for t'
          by (rule try_target_agrees [OF assms(1,2) g False None])
        then show ?thesis
          using Cons False Some None by (simp add: Let_def split: option.split prod.split exec_result.split)
      qed (use False Some in \<open>simp add: Let_def split: option.split\<close>)
    qed (use False in \<open>simp add: Let_def\<close>)
  qed
qed simp

text \<open>
  C11: An executor is called only where it may be. Two worlds whose executors agree on every call for a run that is neither running nor
  completed, with an executor that is ready and whose circuit is not open at that moment, dispatch every run alike: no other call is made.
\<close>

theorem only_allowed_executions:
  assumes "calm_allocation e" and "agree_where_allowed e ex"
  shows "dispatchRun (e\<lparr>deExecute := ex\<rparr>) i w = dispatchRun e i w"
proof -
  have "run_targets (e\<lparr>deExecute := ex\<rparr>) a t r gs w = run_targets e a t r gs w" if "\<forall>g\<in>set gs. target_ready g" for a t r gs w
    using loop_agrees [OF assms that] by (simp add: run_targets_def)
  then have "dispatch_to (e\<lparr>deExecute := ex\<rparr>) a x t r w = dispatch_to e a x t r w" for a x t r w
    by (simp add: dispatch_to_def Let_def split: list.split)
  then show ?thesis
    by (simp add: dispatchRun_def Let_def split: option.split)
qed

definition sample_dispatch :: dispatch_env where
  "sample_dispatch = \<lparr>deSettings = \<lparr>seStore = [], seVars = (\<lambda>v. if v = ''OPENAI_API_KEY'' then Some ''k'' else None)\<rparr>, deConfig = empty_config,
     deCircuit = \<lparr>env_threshold = None, env_open_ms = None\<rparr>, deExecute = (\<lambda>s r t w. (ExecOk ''s1'' ''a1'', w)), deAllocate = (\<lambda>r t w. w),
     deSmallTalk = (\<lambda>title descr. False)\<rparr>"

text \<open>Executors that give up wherever they may not be called.\<close>

definition guarded_execute :: "exec_slot \<Rightarrow> run_row \<Rightarrow> job_row \<Rightarrow> run_world \<Rightarrow> exec_result \<times> run_world" where
  "guarded_execute s r t w = (if may_execute s r w then deExecute sample_dispatch s r t w else (ExecFailed Unavailable ''called in vain'', w))"

theorem only_allowed_executions_witness:
  "dispatchRun (sample_dispatch\<lparr>deExecute := guarded_execute\<rparr>) ''r1'' (sample_tables [sample_run ''r1'' ''t1'' ''coder'' ''QUEUED''] [sample_job_row ''t1'' ''IN_PROGRESS''])
     = dispatchRun sample_dispatch ''r1'' (sample_tables [sample_run ''r1'' ''t1'' ''coder'' ''QUEUED''] [sample_job_row ''t1'' ''IN_PROGRESS''])"
  by (rule only_allowed_executions)
    (simp_all add: calm_allocation_def keeps_clockwork_def agree_where_allowed_def guarded_execute_def sample_dispatch_def)

section \<open>Outages\<close>

lemma loop_all_open:
  assumes "\<forall>g\<in>set gs. circuit_open (slAdapter (tgSlot g)) w"
  shows "\<exists>l' w'. dispatch_loop e t r gs l w = (LoopDone l', w') \<and> alResult l' = alResult l \<and> rwRuns w' = rwRuns w \<and> rwJobs w' = rwJobs w
    \<and> rwNow w' = rwNow w"
  using assms
proof (induction gs arbitrary: l w)
  case (Cons g gs)
  let ?s = "skip_open (slAdapter (tgSlot g)) t r l w"
  have "\<forall>g\<in>set gs. circuit_open (slAdapter (tgSlot g)) (snd ?s)"
    using Cons.prems by (simp add: circuit_open_def)
  from Cons.IH [OF this, of "fst ?s"] show ?case
    using Cons.prems by (simp add: Let_def case_prod_unfold)
qed simp

lemma fail_run_verdict:
  assumes "run_by_id (rnId r) w = Some x" and "job_by_id (jbId t) w = Some y"
  shows "map_option rnState (run_by_id (rnId r) (fail_run a t r w)) = Some ''FAILED''
    \<and> map_option jbState (job_by_id (jbId t) (fail_run a t r w)) = Some ''BLOCKED''"
  using assms run_by_id_id [OF assms(1)] job_by_id_id [OF assms(2)] by (simp add: fail_run_def Let_def run_world_simps)

lemma runs_ext: "rwRuns w' = rwRuns w \<Longrightarrow> run_by_id i w' = run_by_id i w"
  by (simp add: run_by_id_def)

lemma jobs_ext: "rwJobs w' = rwJobs w \<Longrightarrow> job_by_id i w' = job_by_id i w"
  by (simp add: job_by_id_def)

text \<open>
  C12: An outage is a verdict. When the circuits of all ready targets are open, nothing is executed: the run ends FAILED, its task waits
  for a person in BLOCKED, and the answer says that the executors are unavailable and that a retry makes sense.
\<close>

theorem outage_fails_the_run:
  assumes "\<forall>g\<in>set gs. circuit_open (slAdapter (tgSlot g)) w"
    and "run_by_id (rnId r) w = Some r" and "job_by_id (jbId t) w = Some t"
  shows "\<exists>f w'. run_targets e a t r gs w = (Some (DispatchFailed f), w') \<and> dfCode f = Unavailable
    \<and> dfDisposition f = disposition_of TransientFailure True Retry
    \<and> map_option rnState (run_by_id (rnId r) w') = Some ''FAILED'' \<and> map_option jbState (job_by_id (jbId t) w') = Some ''BLOCKED''"
proof -
  obtain l w1 where loop: "dispatch_loop e t r gs no_attempts w = (LoopDone l, w1)" "alResult l = None"
    and same: "rwRuns w1 = rwRuns w" "rwJobs w1 = rwJobs w"
    using loop_all_open [OF assms(1), of e t r no_attempts] by (auto simp: no_attempts_def)
  have rows: "run_by_id (rnId r) w1 = Some r" "job_by_id (jbId t) w1 = Some t"
    using assms(2,3) by (simp_all add: runs_ext [OF same(1)] jobs_ext [OF same(2)])
  have keep: "run_by_id i (snd (nothing_ran a t r l w1)) = run_by_id i (fail_run (case alAttempted l of x # _ \<Rightarrow> x | [] \<Rightarrow> a) t r w1)"
    "job_by_id i (snd (nothing_ran a t r l w1)) = job_by_id i (fail_run (case alAttempted l of x # _ \<Rightarrow> x | [] \<Rightarrow> a) t r w1)" for i
    by (simp_all add: nothing_ran_def Let_def session_failed_def lifecycle_def)
  show ?thesis
    using loop fail_run_verdict [OF rows] keep
    by (auto simp: run_targets_def nothing_ran_def Let_def split: prod.splits)
qed

definition sample_outage :: run_world where
  "sample_outage = (sample_tables [sample_run ''r1'' ''t1'' ''coder'' ''QUEUED''] [sample_job_row ''t1'' ''IN_PROGRESS''])
     \<lparr>rwCircuits := StoreFile 1 (Some (\<lambda>a. Some \<lparr>consecutiveFailures = 3, lastFailureCode = None, lastFailureAt = None,
        openUntil = Some (IsoMs 2000000)\<rparr>))\<rparr>"

theorem outage_fails_the_run_witness:
  "\<exists>f w'. run_targets sample_dispatch ''codex'' (sample_job_row ''t1'' ''IN_PROGRESS'') (sample_run ''r1'' ''t1'' ''coder'' ''QUEUED'')
      [\<lparr>tgSlot = slot_of (deSettings sample_dispatch) empty_config (hd EXECUTOR_CATALOG), tgSource = ''primary''\<rparr>] sample_outage
    = (Some (DispatchFailed f), w') \<and> dfCode f = Unavailable"
proof -
  have o: "circuit_open a sample_outage" for a
    by (simp add: circuit_open_def getExecutorCircuitState_def toResource_def resolveState_def store_entry_def readStore_def sample_outage_def sample_tables_def)
  have rows: "run_by_id (rnId (sample_run ''r1'' ''t1'' ''coder'' ''QUEUED'')) sample_outage = Some (sample_run ''r1'' ''t1'' ''coder'' ''QUEUED'')"
    "job_by_id (jbId (sample_job_row ''t1'' ''IN_PROGRESS'')) sample_outage = Some (sample_job_row ''t1'' ''IN_PROGRESS'')"
    by (simp_all add: run_by_id_def job_by_id_def sample_outage_def sample_tables_def sample_run_def sample_job_row_def)
  show ?thesis
    using outage_fails_the_run [of "[\<lparr>tgSlot = slot_of (deSettings sample_dispatch) empty_config (hd EXECUTOR_CATALOG), tgSource = ''primary''\<rparr>]",
        OF _ rows, of sample_dispatch "''codex''"] o
    by auto
qed

lemma closed_after_success: "res_state (getExecutorCircuitState (snd (recordExecutorCircuitSuccess f a n)) a m) = Closed"
  by (simp add: getExecutorCircuitState_def recordExecutorCircuitSuccess_def toResource_def store_entry_def resolveState_def Let_def)

section \<open>At most one attempt per executor\<close>

text \<open>
  A dispatch tries its targets in the order of the routing and each executor at most once, so that it ends after at most as
  many attempts as there are ready targets.
\<close>

theorem targets_tried_once_in_order:
  assumes "dispatch_loop e t r (filter target_ready (resolveDispatchTargets slots adapter strategy fallback role)) no_attempts w = (LoopDone l, w')"
  shows "distinct (alAttempted l)
    \<and> (\<exists>rest. map (\<lambda>g. slAdapter (tgSlot g)) (filter target_ready (resolveDispatchTargets slots adapter strategy fallback role))
          = alAttempted l @ rest)"
proof -
  let ?gs = "filter target_ready (resolveDispatchTargets slots adapter strategy fallback role)"
  let ?as = "map (\<lambda>g. slAdapter (tgSlot g)) ?gs"
  obtain k where k: "alAttempted l = take k ?as"
    using loop_attempts [OF assms] by (auto simp: no_attempts_def take_map)
  have "distinct ?as"
    using targets_distinct [of slots adapter strategy fallback role] by (rule distinct_map_filter)
  then show ?thesis
    unfolding k by (intro conjI distinct_take exI [of _ "drop k ?as"]) (simp_all only: append_take_drop_id)
qed

section \<open>What counts as an attempt of a run\<close>

definition attempts_in :: "run_world \<Rightarrow> (string \<times> int) list" where
  "attempts_in w = map (\<lambda>r. (rnId r, rnAttempts r)) (rwRuns w)"

definition quiet_env :: "dispatch_env \<Rightarrow> bool" where
  "quiet_env e = ((\<forall>s r t w. attempts_in (snd (deExecute e s r t w)) = attempts_in w) \<and> (\<forall>r t w. attempts_in (deAllocate e r t w) = attempts_in w))"

lemma attempts_in_other [simp]:
  "attempts_in (lifecycle x t r p w) = attempts_in w" "attempts_in (update_job i f w) = attempts_in w"
  "attempts_in (record_event a b c d q w) = attempts_in w"
  "attempts_in (snd (reroute_open g t r l w)) = attempts_in w" "attempts_in (reroute_failed g t r l w) = attempts_in w"
  by (simp_all add: attempts_in_def)

lemma attempts_update_run: "(\<And>x. rnId (f x) = rnId x \<and> rnAttempts (f x) = rnAttempts x) \<Longrightarrow> attempts_in (update_run i f w) = attempts_in w"
  by (simp add: attempts_in_def update_run_def)

lemma prepare_attempts: "quiet_env e \<Longrightarrow> attempts_in (prepare_run e g t r l w) = attempts_in w"
  by (simp add: prepare_run_def quiet_env_def Let_def)

lemma try_target_attempts:
  assumes "quiet_env e" "try_target e g t r l w = (res, l', w')"
  shows "attempts_in w' = attempts_in w"
proof -
  let ?o = "reroute_open g t r l w"
  let ?l2 = "(fst ?o)\<lparr>alAttempted := alAttempted (fst ?o) @ [slAdapter (tgSlot g)]\<rparr>"
  have "w' = snd (deExecute e (tgSlot g) r t (prepare_run e g t r ?l2 (reroute_failed g t r (fst ?o) (snd ?o))))"
    using assms(2) by (auto simp: try_target_def Let_def case_prod_unfold)
  then have "attempts_in w' = attempts_in (prepare_run e g t r ?l2 (reroute_failed g t r (fst ?o) (snd ?o)))"
    using assms(1) by (simp add: quiet_env_def)
  also have "\<dots> = attempts_in w"
    by (simp add: prepare_attempts [OF assms(1)])
  finally show ?thesis .
qed

lemma after_run_attempts [simp]:
  "attempts_in (succeed g t r s a w) = attempts_in w" "attempts_in (note_circuit e b c w) = attempts_in w"
  "attempts_in (fail_stop g t r c m w) = attempts_in w" "attempts_in (fail_on g t r l c w) = attempts_in w"
  "attempts_in (snd (skip_open b t r l w)) = attempts_in w"
  by (simp_all add: attempts_in_def succeed_def note_circuit_def fail_stop_def fail_on_def Let_def)

lemma loop_attempts_kept: "quiet_env e \<Longrightarrow> attempts_in (snd (dispatch_loop e t r gs l w)) = attempts_in w"
proof (induction gs arbitrary: l w)
  case (Cons g gs)
  have "attempts_in (snd (snd (try_target e g t' r' l w))) = attempts_in w" for t' r'
    using try_target_attempts [OF Cons.prems] by (metis prod.collapse)
  then show ?case
    using Cons.IH [OF Cons.prems]
    by (auto simp: Let_def case_prod_unfold split: option.split exec_result.split)
qed simp

definition attempts_of :: "string \<Rightarrow> run_world \<Rightarrow> int option" where
  "attempts_of i w = map_option rnAttempts (run_by_id i w)"

definition run_state :: "string \<Rightarrow> run_world \<Rightarrow> string option" where
  "run_state i w = map_option rnState (run_by_id i w)"

lemma attempts_of_alt: "attempts_of i w = map_of (attempts_in w) i"
proof -
  have "map_option rnAttempts (find (\<lambda>r. rnId r = i) rs) = map_of (map (\<lambda>r. (rnId r, rnAttempts r)) rs) i" for rs
    by (induction rs) auto
  then show ?thesis by (simp add: attempts_of_def run_by_id_def attempts_in_def)
qed

definition counted_or_failed :: "string \<Rightarrow> run_world \<Rightarrow> run_world \<Rightarrow> bool" where
  "counted_or_failed i w w' = (attempts_of i w' = attempts_of i w \<or> run_state i w' = Some ''FAILED'')"

lemma counted_attempts: "attempts_in w' = attempts_in w \<Longrightarrow> counted_or_failed i w w'"
  by (simp add: counted_or_failed_def attempts_of_alt)

lemma counted_ext:
  assumes "rwRuns w'' = rwRuns w'" and "counted_or_failed i w w'"
  shows "counted_or_failed i w w''"
  using assms(2) runs_ext [OF assms(1), of i] by (simp add: counted_or_failed_def attempts_of_def run_state_def)

lemma counted_fail_run:
  assumes "attempts_in w1 = attempts_in w"
  shows "counted_or_failed i w (fail_run a t r w1)"
proof -
  have e: "attempts_of i w1 = attempts_of i w"
    using assms by (simp add: attempts_of_alt)
  show ?thesis
  proof (cases "run_by_id i w1")
    case (Some x)
    then show ?thesis
      using e run_by_id_id [OF Some]
      by (simp add: counted_or_failed_def attempts_of_def run_state_def fail_run_def Let_def run_world_simps)
  qed (use e in \<open>simp add: counted_or_failed_def attempts_of_def fail_run_def Let_def run_world_simps\<close>)
qed

lemma nothing_ran_runs: "\<exists>a'. rwRuns (snd (nothing_ran a t r l w)) = rwRuns (fail_run a' t r w)"
  by (auto simp: nothing_ran_def Let_def session_failed_def)

lemma run_targets_counted:
  assumes "quiet_env e"
  shows "counted_or_failed i w (snd (run_targets e a t r gs w))"
proof -
  obtain x w1 where l: "dispatch_loop e t r gs no_attempts w = (x, w1)" by (cases "dispatch_loop e t r gs no_attempts w")
  have w1: "attempts_in w1 = attempts_in w"
    using loop_attempts_kept [OF assms, of t r gs no_attempts w] by (simp add: l)
  show ?thesis
  proof (cases x)
    case (LoopDone lg)
    obtain a' where "rwRuns (snd (nothing_ran a t r lg w1)) = rwRuns (fail_run a' t r w1)"
      using nothing_ran_runs by blast
    then have "counted_or_failed i w (snd (nothing_ran a t r lg w1))"
      by (rule counted_ext [OF _ counted_fail_run [OF w1]])
    then show ?thesis
      using counted_attempts [OF w1, of i] by (simp add: run_targets_def l LoopDone split: option.split)
  qed (simp add: run_targets_def l counted_attempts [OF w1])
qed

lemma arm_resume_attempts: "attempts_in (arm_resume a t r w) = attempts_in w"
  by (simp add: arm_resume_def Let_def attempts_update_run split: option.split)

lemma dispatch_counted:
  assumes "quiet_env e"
  shows "counted_or_failed j w (snd (dispatchRun e i w))"
proof -
  have keep: "counted_or_failed j w (lifecycle x t r p w)" for x t r p
    by (rule counted_attempts) simp
  have to: "counted_or_failed j w (snd (dispatch_to e a s t r w1))" if w1: "attempts_in w1 = attempts_in w" for a s t r w1
  proof -
    have targets: "counted_or_failed j w (snd (run_targets e a t r gs w1))" for gs
      using run_targets_counted [OF assms, of j w1 a t r gs] w1 by (simp add: counted_or_failed_def attempts_of_alt)
    have none: "counted_or_failed j w (snd (no_ready_target g t r w1))" for g
      by (rule counted_ext [OF _ counted_fail_run [OF w1, of j "slAdapter (tgSlot g)" t r]])
        (simp add: no_ready_target_def Let_def session_failed_def)
    have block: "counted_or_failed j w (block_run x t r f w1)" for x f
      by (simp add: block_run_def counted_attempts w1)
    show ?thesis
      by (simp add: dispatch_to_def Let_def targets none block split: list.split)
  qed
  show ?thesis
    using counted_attempts [of w w j]
    by (simp add: dispatchRun_def Let_def to arm_resume_attempts block_run_def keep split: option.split)
qed

text \<open>
  A dispatch that leaves its run alive does not count it. Provided that executors do not write the counter themselves, after
  \<open>dispatchRun\<close> every run either has the number of attempts it had before or is FAILED.
\<close>

theorem dispatch_counts_only_failures:
  assumes "quiet_env e"
  shows "counted_or_failed j w (snd (dispatchRun e i w))"
  by (rule dispatch_counted [OF assms])

section \<open>A success closes the circuit\<close>

fun is_ok :: "dispatch_result option \<Rightarrow> bool" where
  "is_ok (Some (DispatchOk a s x)) = True"
| "is_ok _ = False"

definition circuit_closed :: "string \<Rightarrow> run_world \<Rightarrow> bool" where
  "circuit_closed a w = (res_state (getExecutorCircuitState (rwCircuits w) a (rwNow w)) = Closed)"

lemma succeed_closes: "circuit_closed (slAdapter (tgSlot g)) (succeed g t r s x w)"
  by (simp add: circuit_closed_def succeed_def Let_def closed_after_success)

lemma note_failure_not_ok [simp]: "\<not> is_ok (alResult (note_failure a c m l))"
  by (simp add: note_failure_def)

lemma reroute_open_result [simp]: "alResult (fst (reroute_open g t r l w)) = alResult l"
  by (simp add: reroute_open_def split: list.split)

lemma loop_closes:
  assumes "dispatch_loop e t r gs l w = (LoopDone l', w')" "alResult l' = Some (DispatchOk a s x)" "\<not> is_ok (alResult l)"
  shows "circuit_closed a w'"
  using assms
proof (induction gs arbitrary: l w)
  case (Cons g gs)
  show ?case
  proof (cases "circuit_open (slAdapter (tgSlot g)) w")
    case True
    then show ?thesis
      using Cons.prems Cons.IH [of "fst (skip_open (slAdapter (tgSlot g)) t r l w)" "snd (skip_open (slAdapter (tgSlot g)) t r l w)"]
      by (simp add: Let_def case_prod_unfold)
  next
    case False
    then obtain r' t' where rt: "run_by_id (rnId r) w = Some r'" "job_by_id (rnTask r') w = Some t'"
      "buildRuntimeDispatchBlock r' (slAdapter (tgSlot g)) = None"
      using Cons.prems by (auto simp: Let_def split: option.splits)
    obtain res l1 w1 where tt: "try_target e g t' r' l w = (res, l1, w1)" by (metis prod_cases3)
    show ?thesis
    proof (cases res)
      case (ExecOk s' x')
      then show ?thesis
        using Cons.prems False rt tt succeed_closes by (auto simp: Let_def)
    next
      case (ExecFailed c m)
      show ?thesis
      proof (cases "goes_on r' (slAdapter (tgSlot g)) c")
        case True
        then show ?thesis
          using Cons.prems(1,2) False rt tt ExecFailed Cons.IH [OF _ Cons.prems(2) note_failure_not_ok] by (simp add: Let_def)
      next
        case F: False
        then have "l' = note_failure (slAdapter (tgSlot g)) c m l1"
          using Cons.prems(1) False rt tt ExecFailed by (simp add: Let_def)
        then show ?thesis using Cons.prems(2) by (simp add: note_failure_def)
      qed
    qed
  qed
qed simp

text \<open>
  A dispatch that succeeds leaves the circuit of the executor that ran closed.
\<close>

theorem success_closes_the_circuit:
  assumes "run_targets e b t r gs w = (Some (DispatchOk a s x), w')"
  shows "circuit_closed a w'"
proof -
  obtain y w1 where l: "dispatch_loop e t r gs no_attempts w = (y, w1)" by (cases "dispatch_loop e t r gs no_attempts w")
  show ?thesis
  proof (cases y)
    case (LoopReturn res)
    have "\<not> is_ok res" if "dispatch_loop e t r gs lg w0 = (LoopReturn res, w1)" for lg w0
      using that by (induction gs arbitrary: lg w0)
        (auto simp: Let_def split: if_splits option.splits prod.splits exec_result.splits)
    then show ?thesis using assms l LoopReturn by (auto simp: run_targets_def)
  next
    case (LoopDone lg)
    then show ?thesis
      using assms l loop_closes [of e t r gs no_attempts w lg w1 a s x]
      by (auto simp: run_targets_def no_attempts_def nothing_ran_def Let_def split: option.splits)
  qed
qed

end
