(* ===== verification/Js_Date.thy ===== *)
theory Js_Date
  imports Js_Number
begin

text \<open>
  \<open>Date.parse\<close> on the texts that \<open>toISOString\<close> writes, and on those with a coarser or no fraction or with an offset: the milliseconds
  since 1970, or \<open>None\<close> for NaN. Other formats, on which engines differ, are not read.
\<close>

definition days_from_civil :: "int \<Rightarrow> int \<Rightarrow> int \<Rightarrow> int" where
  "days_from_civil y m d =
    (let y' = (if m \<le> 2 then y - 1 else y);
         era = y' div 400; yoe = y' mod 400;
         doy = (153 * (if m > 2 then m - 3 else m + 9) + 2) div 5 + d - 1;
         doe = yoe * 365 + yoe div 4 - yoe div 100 + doy
     in era * 146097 + doe - 719468)"

definition take_digits :: "nat \<Rightarrow> string \<Rightarrow> (int \<times> string) option" where
  "take_digits n s = (if length (takeWhile is_digit (take n s)) = n then Some (int (digits_value 0 (take n s)), drop n s) else None)"

definition take_char :: "char \<Rightarrow> string \<Rightarrow> string option" where
  "take_char c s = (case s of x # r \<Rightarrow> if x = c then Some r else None | [] \<Rightarrow> None)"

definition parse_day :: "string \<Rightarrow> (int \<times> string) option" where
  "parse_day s =
    Option.bind (take_digits 4 s) (\<lambda>(y, s). Option.bind (take_char (CHR ''-'') s) (\<lambda>s.
    Option.bind (take_digits 2 s) (\<lambda>(m, s). Option.bind (take_char (CHR ''-'') s) (\<lambda>s.
    Option.bind (take_digits 2 s) (\<lambda>(d, s).
      if 1 \<le> m \<and> m \<le> 12 \<and> 1 \<le> d \<and> d \<le> 31 then Some (days_from_civil y m d * 86400000, s) else None)))))"

definition parse_clock :: "string \<Rightarrow> (int \<times> string) option" where
  "parse_clock s =
    Option.bind (take_digits 2 s) (\<lambda>(h, s). Option.bind (take_char (CHR '':'') s) (\<lambda>s.
    Option.bind (take_digits 2 s) (\<lambda>(mi, s). Option.bind (take_char (CHR '':'') s) (\<lambda>s.
    Option.bind (take_digits 2 s) (\<lambda>(se, s).
      if h \<le> 23 \<and> mi \<le> 59 \<and> se \<le> 59 then Some (h * 3600000 + mi * 60000 + se * 1000, s) else None)))))"

definition parse_fraction :: "string \<Rightarrow> int \<times> string" where
  "parse_fraction s = (case take_char (CHR ''.'') s of
     None \<Rightarrow> (0, s)
   | Some r \<Rightarrow> (case take_digits 3 r of Some (n, r') \<Rightarrow> (n, dropWhile is_digit r')
              | None \<Rightarrow> (case take_digits 2 r of Some (n, r') \<Rightarrow> (n * 10, r')
              | None \<Rightarrow> (case take_digits 1 r of Some (n, r') \<Rightarrow> (n * 100, r') | None \<Rightarrow> (0, s)))))"

definition parse_offset :: "string \<Rightarrow> int option" where
  "parse_offset s =
    (case s of
       [] \<Rightarrow> None
     | c # r \<Rightarrow> if c = CHR ''Z'' then (if r = [] then Some 0 else None)
                else if c = CHR ''+'' \<or> c = CHR ''-'' then
                  Option.bind (take_digits 2 r) (\<lambda>(h, r). Option.bind (take_char (CHR '':'') r) (\<lambda>r.
                  Option.bind (take_digits 2 r) (\<lambda>(m, r). if r = [] then Some ((if c = CHR ''-'' then -1 else 1) * (h * 60 + m) * 60000) else None)))
                else None)"

definition date_parse :: "string \<Rightarrow> int option" where
  "date_parse s =
    Option.bind (parse_day s) (\<lambda>(day, s).
      if s = [] then Some day
      else Option.bind (take_char (CHR ''T'') s) (\<lambda>s. Option.bind (parse_clock s) (\<lambda>(clock, s).
        let (ms, s') = parse_fraction s in map_option (\<lambda>off. day + clock + ms - off) (parse_offset s'))))"

lemma date_parse_epoch: "date_parse ''1970-01-01T00:00:00.000Z'' = Some 0"
  by code_simp

lemma date_parse_sample: "date_parse ''2026-03-01T12:30:00.250Z'' = Some 1772368200250"
  by code_simp

end
