(* ===== verification/Run_Recovery.thy ===== *)
theory Run_Recovery
  imports Teammate_Mail Run_Dispatch Js_Date
begin

text \<open>
  The periodic recovery of runs (\<open>apps/api/src/services/runtime-recovery-service.ts\<close>) and the recovery at the start of the server
  (\<open>apps/api/src/services/crash-recovery-service.ts\<close>). A tick reads the tables once at its start, the snapshot \<open>w0\<close>, and decides by
  it; what it writes goes to the current tables. The dispatch of a run, the resumption of a leader and the disk are fields of
  \<open>recovery_env\<close>; the reflections on a failure, which go to the memory, are left out.
\<close>

section \<open>The environment\<close>

record recovery_env =
  rcEnabled :: "string option"
  rcInterval :: "string option"
  rcStale :: "string option"
  rcStuck :: "string option"
  rcMaxAttempts :: "string option"
  rcHeartbeat :: "string option"
  rcExists :: "string \<Rightarrow> bool"
  rcDispatch :: "string \<Rightarrow> run_world \<Rightarrow> run_world"
  rcResume :: "string \<Rightarrow> string \<Rightarrow> string \<Rightarrow> run_world \<Rightarrow> run_world"
  rcMailFails :: "nat \<Rightarrow> bool"
  rcRequest :: string

definition parseBoolean :: "string option \<Rightarrow> bool \<Rightarrow> bool" where
  "parseBoolean value fallback =
    (if \<not> truthy_str value then fallback
     else let n = to_lower (js_trim (the value))
          in if n \<in> {''1'', ''true'', ''yes'', ''on''} then True
             else if n \<in> {''0'', ''false'', ''no'', ''off''} then False else fallback)"

definition isRuntimeRecoveryEnabled :: "recovery_env \<Rightarrow> bool" where
  "isRuntimeRecoveryEnabled e = parseBoolean (rcEnabled e) True"

definition getRecoveryIntervalMs :: "recovery_env \<Rightarrow> int" where
  "getRecoveryIntervalMs e = parsePositiveInteger (rcInterval e) 30000"

definition getStaleRunningThresholdMs :: "recovery_env \<Rightarrow> int" where
  "getStaleRunningThresholdMs e = parsePositiveInteger (rcStale e) (10 * 60 * 1000)"

definition getStuckTaskThresholdMs :: "recovery_env \<Rightarrow> int" where
  "getStuckTaskThresholdMs e = parsePositiveInteger (rcStuck e) (3 * 60 * 1000)"

definition getRecoveryMaxAttempts :: "recovery_env \<Rightarrow> int" where
  "getRecoveryMaxAttempts e = parsePositiveInteger (rcMaxAttempts e) 3"

definition heartbeat_ms :: "recovery_env \<Rightarrow> int" where
  "heartbeat_ms e = parsePositiveInteger (rcHeartbeat e) (30 * 60 * 1000)"

definition isRuntimeStale :: "int \<Rightarrow> int \<Rightarrow> int \<Rightarrow> bool" where
  "isRuntimeStale updated now threshold = (now - updated \<ge> threshold)"

text \<open>The fields of a payload; text that does not parse, and what is no object, has none.\<close>

definition recovery_payload :: "json_text option \<Rightarrow> (string \<times> json) list" where
  "recovery_payload p = (case p of Some (Some (JObj fs)) \<Rightarrow> fs | _ \<Rightarrow> [])"

definition readNumber :: "(string \<times> json) list \<Rightarrow> string \<Rightarrow> int" where
  "readNumber fs k = (case obj_get fs k of Some (JNum n) \<Rightarrow> n | _ \<Rightarrow> 0)"

definition readStringArray :: "(string \<times> json) list \<Rightarrow> string \<Rightarrow> string list" where
  "readStringArray fs k = filter (\<lambda>s. js_trim s \<noteq> []) (json_strings_of (obj_get fs k))"

definition readString :: "(string \<times> json) list \<Rightarrow> string \<Rightarrow> string option" where
  "readString fs k = text_field fs k"

definition canWakeWaitingTask :: "(string \<times> json) list \<Rightarrow> bool" where
  "canWakeWaitingTask fs =
    (let mode = readString fs ''executionMode''
     in if mode = Some ''long_running'' then True
        else if mode = Some ''immediate'' \<or> mode = Some ''bounded_execution'' then False
        else readString fs ''stopReason'' = Some ''sleep_until'')"

section \<open>The tick: stale runs\<close>

record tick_log =
  tlRecovered :: "string list"
  tlBlocked :: "string list"
  tlResumed :: "string list"
  tlStuck :: "string list"
  tlOrphaned :: "string list"

definition empty_tick :: tick_log where
  "empty_tick = \<lparr>tlRecovered = [], tlBlocked = [], tlResumed = [], tlStuck = [], tlOrphaned = []\<rparr>"

type_synonym tick_state = "tick_log \<times> run_world"

definition cleanup_eligible :: "run_world \<Rightarrow> string list" where
  "cleanup_eligible w = map wkRun (filter (\<lambda>k. wkStatus k \<noteq> ''running'' \<and> wkFinished k \<noteq> None) (rwWorkspaces w))"

definition missing_workspaces :: "recovery_env \<Rightarrow> run_world \<Rightarrow> string list" where
  "missing_workspaces e w = map wkRun (filter (\<lambda>k. wkStatus k = ''running'' \<and> \<not> rcExists e (wkDir k)) (rwWorkspaces w))"

definition workspace_of :: "string \<Rightarrow> run_world \<Rightarrow> workspace_row option" where
  "workspace_of i w = find (\<lambda>k. wkRun k = i) (rev (rwWorkspaces w))"

definition task_state_is :: "string \<Rightarrow> string \<Rightarrow> run_world \<Rightarrow> bool" where
  "task_state_is st i w = (map_option jbState (job_by_id i w) = Some st)"

definition stale_runs :: "recovery_env \<Rightarrow> run_world \<Rightarrow> run_row list" where
  "stale_runs e w = filter (\<lambda>r. rnState r = ''RUNNING'' \<and> \<not> task_state_is ''EXECUTING'' (rnTask r) w
     \<and> (isRuntimeStale (rnUpdatedAt r) (rwNow w) (getStaleRunningThresholdMs e) \<or> rnId r \<in> set (missing_workspaces e w))) (rwRuns w)"

definition workspace_json :: "workspace_row option \<Rightarrow> json" where
  "workspace_json k = (case k of
     None \<Rightarrow> JNull
   | Some x \<Rightarrow> JObj [(''requestedStrategy'', opt_json (wkRequested x)), (''strategy'', JStr (wkStrategy x)),
       (''decisionReason'', opt_json (wkDecision x)), (''fallbackReason'', opt_json (wkFallback x)), (''workspaceDir'', JStr (wkDir x)),
       (''baseWorkspaceDir'', JStr (wkBase x)), (''missingOnDisk'', JBool True)])"

definition missing_workspace_of :: "recovery_env \<Rightarrow> run_world \<Rightarrow> run_row \<Rightarrow> workspace_row option" where
  "missing_workspace_of e w0 r = (if rnId r \<in> set (missing_workspaces e w0) then workspace_of (rnId r) w0 else None)"

definition recovery_reason :: "workspace_row option \<Rightarrow> string" where
  "recovery_reason k = (if k \<noteq> None then ''runtime_workspace_missing'' else ''runtime_recovery_stale_running'')"

definition exhaust_run :: "recovery_env \<Rightarrow> workspace_row option \<Rightarrow> run_row \<Rightarrow> job_row \<Rightarrow> run_world \<Rightarrow> run_world" where
  "exhaust_run e k r t w =
    (let n = rwNow w;
         w1 = update_run (rnId r) (\<lambda>x. x\<lparr>rnState := ''FAILED'', rnSession := None, rnUpdatedAt := n, rnCompletedAt := Some n\<rparr>) w;
         w2 = update_job (jbId t) (\<lambda>x. x\<lparr>jbState := ''BLOCKED'', jbUpdatedAt := n\<rparr>) w1
     in lifecycle ''task.orchestration.stopped'' t r
          [(''message'', JStr (''Runtime recovery exhausted for '' @ rnRole r
              @ (if k \<noteq> None then '' after the allocated workspace disappeared'' else ''; run moved to FAILED''))),
           (''action'', JStr ''block''), (''stopReason'', JStr ''runtime_recovery_exhausted''), (''recoveryReason'', JStr (recovery_reason k)),
           (''state'', JStr ''BLOCKED''), (''taskState'', JStr ''BLOCKED''), (''roleId'', JStr (rnRole r)), (''runId'', JStr (rnId r)),
           (''attemptCount'', JNum (rnAttempts r)), (''maxAttempts'', JNum (getRecoveryMaxAttempts e)), (''runtimeWorkspace'', workspace_json k)] w2)"

definition requeue_run :: "workspace_row option \<Rightarrow> run_row \<Rightarrow> job_row \<Rightarrow> run_world \<Rightarrow> run_world" where
  "requeue_run k r t w =
    (let n = rwNow w;
         w1 = update_run (rnId r) (\<lambda>x. x\<lparr>rnState := ''QUEUED'', rnSession := None, rnCompletedAt := None, rnUpdatedAt := n\<rparr>) w;
         w2 = update_job (jbId t) (\<lambda>x. x\<lparr>jbState := ''IN_PROGRESS'', jbUpdatedAt := n, jbCompletedAt := None\<rparr>) w1
     in lifecycle ''task.orchestration.transition'' t r
          [(''message'', JStr (if k \<noteq> None then ''Runtime recovery re-queued '' @ rnRole r @ '' after the allocated workspace disappeared''
              else ''Runtime recovery re-queued stale '' @ rnRole r @ '' run'')),
           (''transition'', JStr ''retry''), (''reason'', JStr (recovery_reason k)), (''action'', JStr ''retry''), (''state'', JStr ''IN_PROGRESS''),
           (''taskState'', JStr ''IN_PROGRESS''), (''roleId'', JStr (rnRole r)), (''runId'', JStr (rnId r)), (''previousState'', JStr ''RUNNING''),
           (''runtimeWorkspace'', workspace_json k)] w2)"

definition recover_run :: "recovery_env \<Rightarrow> run_world \<Rightarrow> run_row \<Rightarrow> tick_state \<Rightarrow> tick_state" where
  "recover_run e w0 r s =
    (case job_by_id (rnTask r) w0 of
       None \<Rightarrow> s
     | Some t \<Rightarrow>
         let (l, w) = s; k = missing_workspace_of e w0 r
         in if rnAttempts r \<ge> getRecoveryMaxAttempts e
            then (l\<lparr>tlBlocked := tlBlocked l @ [rnId r]\<rparr>, exhaust_run e k r t w)
            else (l\<lparr>tlRecovered := tlRecovered l @ [rnId r]\<rparr>, rcDispatch e (rnId r) (requeue_run k r t w)))"

definition recover_stale_runs :: "recovery_env \<Rightarrow> run_world \<Rightarrow> tick_state \<Rightarrow> tick_state" where
  "recover_stale_runs e w0 s = foldl (\<lambda>s r. recover_run e w0 r s) s (stale_runs e w0)"

section \<open>The tick: waiting and stuck tasks\<close>

definition find_leader :: "string \<Rightarrow> run_world \<Rightarrow> run_row option" where
  "find_leader i w = find (\<lambda>r. rnRole r = ''leader'') (runs_of_task i w)"

definition manager_runtime :: "string \<Rightarrow> run_world \<Rightarrow> run_row option" where
  "manager_runtime i w = latest_by rnUpdatedAt (filter (\<lambda>r. rnRole r = ''leader'' \<and> rnState r = ''COMPLETED'') (runs_of_task i w))"

definition wake_time_of :: "string \<Rightarrow> run_world \<Rightarrow> int option" where
  "wake_time_of i w =
    (let fs = recovery_payload (Option.bind (latest_by reAt (filter (\<lambda>x. reType x = ''task.orchestration.waiting'') (events_of_task i w))) rePayload)
     in case readString fs ''nextWakeupAt'' of
          None \<Rightarrow> None
        | Some s \<Rightarrow> if canWakeWaitingTask fs then date_parse s else None)"

definition resume_leader :: "recovery_env \<Rightarrow> string \<Rightarrow> string \<Rightarrow> string \<Rightarrow> run_world \<Rightarrow> job_row \<Rightarrow> run_world \<Rightarrow> run_world" where
  "resume_leader e trigger event_type msg w0 t w =
    (case find_leader (jbId t) w0 of
       None \<Rightarrow> w
     | Some r \<Rightarrow> rcResume e (jbId t) (rnId r) (jbWorkspace t)
         (lifecycle event_type t r [(''message'', JStr msg), (''trigger'', JStr trigger), (''runId'', JStr (rnId r))] w))"

definition back_to_progress :: "job_row \<Rightarrow> int \<Rightarrow> run_world \<Rightarrow> run_world" where
  "back_to_progress t n w = update_job (jbId t) (\<lambda>x. x\<lparr>jbState := ''IN_PROGRESS'', jbUpdatedAt := n, jbCompletedAt := None\<rparr>) w"

definition note_resumed :: "job_row \<Rightarrow> tick_log \<Rightarrow> tick_log" where
  "note_resumed t l = l\<lparr>tlResumed := tlResumed l @ [jbId t]\<rparr>"

text \<open>The events of a waiting task are read when its turn comes, its runs come from the snapshot.\<close>

definition wake_task :: "recovery_env \<Rightarrow> run_world \<Rightarrow> job_row \<Rightarrow> tick_state \<Rightarrow> tick_state" where
  "wake_task e w0 t s =
    (let (l, w) = s
     in if manager_runtime (jbId t) w0 = None then s
        else case wake_time_of (jbId t) w of
               None \<Rightarrow> s
             | Some ms \<Rightarrow>
                 if ms > rwNow w0 then s
                 else (note_resumed t l, resume_leader e ''waiting_wakeup'' ''leader.recovery_attempted'' ''Recovery attempted for leader after WAITING wakeup''
                         w0 t (back_to_progress t (rwNow w0) w)))"

definition latest_update :: "run_row list \<Rightarrow> int" where
  "latest_update rs = foldl (\<lambda>m r. if rnUpdatedAt r > m then rnUpdatedAt r else m) (rnUpdatedAt (hd rs)) rs"

definition stuck_in_progress :: "recovery_env \<Rightarrow> run_world \<Rightarrow> job_row \<Rightarrow> bool" where
  "stuck_in_progress e w0 t =
    (let rs = runs_of_task (jbId t) w0
     in list_all (\<lambda>r. rnState r \<noteq> ''RUNNING'') rs \<and> list_ex (\<lambda>r. rnState r = ''QUEUED'' \<or> rnState r = ''CREATED'') rs
        \<and> isRuntimeStale (latest_update rs) (rwNow w0) (getStuckTaskThresholdMs e) \<and> manager_runtime (jbId t) w0 \<noteq> None)"

definition resume_task :: "recovery_env \<Rightarrow> run_world \<Rightarrow> job_row \<Rightarrow> tick_state \<Rightarrow> tick_state" where
  "resume_task e w0 t s =
    (let (l, w) = s
     in if runs_of_task (jbId t) w0 = [] then s
        else if jbState t = ''WAITING'' then wake_task e w0 t s
        else if stuck_in_progress e w0 t
        then (note_resumed t l, resume_leader e ''stuck_in_progress'' ''leader.recovery_attempted''
                ''Recovery attempted for leader after stuck IN_PROGRESS detection'' w0 t (back_to_progress t (rwNow w) w))
        else s)"

definition candidate_tasks :: "run_world \<Rightarrow> job_row list" where
  "candidate_tasks w0 = filter (\<lambda>t. jbState t = ''IN_PROGRESS'' \<or> jbState t = ''WAITING'') (rwJobs w0)"

definition resume_tasks :: "recovery_env \<Rightarrow> run_world \<Rightarrow> tick_state \<Rightarrow> tick_state" where
  "resume_tasks e w0 s = foldl (\<lambda>s t. resume_task e w0 t s) s (candidate_tasks w0)"

section \<open>The tick: tasks stuck while executing\<close>

definition loop_alive :: "string \<Rightarrow> run_world \<Rightarrow> bool" where
  "loop_alive i w = (has_controller i (rwPool w) \<or> isQueued i (rwPool w))"

text \<open>Checkpoints are not progress. \<open>listByTaskId\<close> orders by sequence number, so the last event is the last written.\<close>

definition latest_progress :: "string \<Rightarrow> run_world \<Rightarrow> int option" where
  "latest_progress i w =
    (case rev (filter (\<lambda>x. reType x \<noteq> ''leader.session_checkpoint'') (events_of_task i w)) of [] \<Rightarrow> None | x # _ \<Rightarrow> Some (reAt x))"

definition last_touched :: "job_row \<Rightarrow> run_world \<Rightarrow> int" where
  "last_touched t w = max (jbUpdatedAt t) (case latest_progress (jbId t) w of Some a \<Rightarrow> a | None \<Rightarrow> 0)"

definition stuck_executing :: "recovery_env \<Rightarrow> int \<Rightarrow> job_row \<Rightarrow> run_world \<Rightarrow> bool" where
  "stuck_executing e start t w = (\<not> loop_alive (jbId t) w \<and> last_touched t w \<noteq> 0
     \<and> isRuntimeStale (last_touched t w) start (getStuckTaskThresholdMs e))"

definition active_goal :: "job_row \<Rightarrow> bool" where
  "active_goal t = (truthy_str (jbObjective t) \<and> jbGoalStatus t = Some ''active'')"

definition resumable_leader :: "run_world \<Rightarrow> job_row \<Rightarrow> run_world \<Rightarrow> run_row option" where
  "resumable_leader w0 t w = (case find_leader (jbId t) w0 of
     Some r \<Rightarrow> if isSessionActive (rnId r) w \<and> \<not> active_goal t then Some r else None | None \<Rightarrow> None)"

text \<open>\<open>Math.round(n / 1000)\<close>; the time stamps of a payload are the milliseconds they denote.\<close>

definition js_round_1000 :: "int \<Rightarrow> int" where
  "js_round_1000 n = (n + 500) div 1000"

definition time_json :: "int \<Rightarrow> json" where
  "time_json n = JNum n"

definition stuck_fields :: "recovery_env \<Rightarrow> job_row \<Rightarrow> run_world \<Rightarrow> (string \<times> json) list" where
  "stuck_fields e t w = (''lastTouchedAt'', time_json (last_touched t w))
     # may_field ''lastEventAt'' time_json (latest_progress (jbId t) w) @ [(''thresholdMs'', JNum (getStuckTaskThresholdMs e))]"

definition fail_running :: "int \<Rightarrow> run_row list \<Rightarrow> run_world \<Rightarrow> run_world" where
  "fail_running n rs w = foldl (\<lambda>w r. if rnState r = ''RUNNING''
     then update_run (rnId r) (\<lambda>x. x\<lparr>rnState := ''FAILED'', rnCompletedAt := Some n, rnUpdatedAt := n\<rparr>) w else w) w rs"

definition note_stuck :: "job_row \<Rightarrow> tick_log \<Rightarrow> tick_log" where
  "note_stuck t l = l\<lparr>tlStuck := tlStuck l @ [jbId t]\<rparr>"

definition reap_executing :: "recovery_env \<Rightarrow> run_world \<Rightarrow> job_row \<Rightarrow> run_world \<Rightarrow> run_world" where
  "reap_executing e w0 t w =
    (let n = rwNow w0; rs = runs_of_task (jbId t) w0;
         w1 = update_job (jbId t) (\<lambda>x. x\<lparr>jbState := ''FAILED'', jbUpdatedAt := n, jbCompletedAt := Some n\<rparr>) w;
         w2 = fail_running n rs w1
     in record_event ''leader.recovery_attempted'' (Some (jbId t)) (case rs of r # _ \<Rightarrow> Some (rnId r) | [] \<Rightarrow> None) n
          ((''message'', JStr (''Reaped stuck EXECUTING task '' @ [CHR 0x97] @ '' last activity '' @ show_int (js_round_1000 (n - last_touched t w)) @ ''s ago'')) # (''trigger'', JStr ''stuck_executing'') # stuck_fields e t w) w2)"

definition recover_executing :: "recovery_env \<Rightarrow> run_world \<Rightarrow> job_row \<Rightarrow> tick_state \<Rightarrow> tick_state" where
  "recover_executing e w0 t s =
    (let (l, w) = s
     in if \<not> stuck_executing e (rwNow w0) t w then s
        else case resumable_leader w0 t w of
               Some r \<Rightarrow> (note_stuck t l, rcResume e (jbId t) (rnId r) (jbWorkspace t)
                   (record_event ''leader.recovery_attempted'' (Some (jbId t)) (Some (rnId r)) (rwNow w0)
                      ([(''message'', JStr (''Stuck EXECUTING task has checkpoint '' @ [CHR 0x97] @ '' attempting resume instead of FAIL'')),
                        (''trigger'', JStr ''stuck_executing_resume''), (''runId'', JStr (rnId r))] @ stuck_fields e t w) w))
             | None \<Rightarrow> (note_stuck t l, reap_executing e w0 t w))"

definition recover_executing_tasks :: "recovery_env \<Rightarrow> run_world \<Rightarrow> tick_state \<Rightarrow> tick_state" where
  "recover_executing_tasks e w0 s =
    foldl (\<lambda>s t. recover_executing e w0 t s) s (filter (\<lambda>t. jbState t = ''EXECUTING'') (rwJobs w0))"

section \<open>The tick: leaders that wait for lost teammates\<close>

definition lost_teammates :: "run_world \<Rightarrow> string \<Rightarrow> run_world \<Rightarrow> run_row list" where
  "lost_teammates w0 i w = filter (\<lambda>r. rnState r = ''RUNNING'' \<and> rnAsync r \<and> \<not> has_controller i (rwPool w)
     \<and> \<not> isActiveAsyncTeammate i (rnId r) w) (runs_of_task i w0)"

definition lost_event :: "string \<Rightarrow> run_row \<Rightarrow> int \<Rightarrow> completion_event" where
  "lost_event i r n = \<lparr>ceTask = i, ceRun = rnId r, ceRole = rnRole r, ceStatus = ''FAILED'',
     ceSummary = ''Recovery: this background teammate'' @ [CHR 0x27] @ ''s process did not survive an API restart. The result is unrecoverable. Decide whether to re-spawn or move on.'',
     ceSpawnedAt = (case rnStartedAt r of Some a \<Rightarrow> a | None \<Rightarrow> rnUpdatedAt r), ceCompletedAt = n, ceUsage = None,
     ceFailure = Some ''process_lost_on_restart'', ceGroup = rnGroup r\<rparr>"

definition reap_teammate :: "recovery_env \<Rightarrow> string \<Rightarrow> run_world \<Rightarrow> run_row \<Rightarrow> run_world" where
  "reap_teammate e i w r =
    (let n = rwNow w
     in writeTeammateCompletionMailbox (rcMailFails e) (lost_event i r n)
          (update_run (rnId r) (\<lambda>x. x\<lparr>rnState := ''FAILED'', rnUpdatedAt := n, rnCompletedAt := Some n\<rparr>) w))"

definition recover_awaiting :: "recovery_env \<Rightarrow> run_world \<Rightarrow> run_world \<Rightarrow> job_row \<Rightarrow> run_world" where
  "recover_awaiting e w0 w t =
    (let i = jbId t; lost = lost_teammates w0 i w;
         w1 = foldl (reap_teammate e i) w lost;
         w2 = (if lost \<noteq> [] \<or> unconsumed_completions i w1 > 0 then reenqueueLeaderIfAwaiting (rcRequest e) i w1 else w1)
     in if lost = [] then w2
        else record_event ''leader.recovery_attempted'' (Some i) None (rwNow w2)
               [(''trigger'', JStr ''awaiting_teammates_orphaned_children''), (''orphanedRunIds'', names_json (map rnId lost))] w2)"

definition recover_awaiting_tasks :: "recovery_env \<Rightarrow> run_world \<Rightarrow> tick_state \<Rightarrow> tick_state" where
  "recover_awaiting_tasks e w0 s =
    (fst s, foldl (recover_awaiting e w0) (snd s) (filter (\<lambda>t. jbState t = ''AWAITING_TEAMMATES'') (rwJobs w0)))"

section \<open>The tick: orphaned runs\<close>

definition orphan_of :: "run_world \<Rightarrow> run_row \<Rightarrow> run_row option" where
  "orphan_of w0 c =
    (if rnState c \<noteq> ''RUNNING'' \<or> \<not> truthy_str (rnParent c) then None
     else case run_by_id (the (rnParent c)) w0 of
            None \<Rightarrow> None
          | Some p \<Rightarrow>
              if \<not> run_terminal p then None
              else if rnAsync c \<and> rnTask p = rnTask c \<and> task_state_is ''AWAITING_TEAMMATES'' (rnTask c) w0 then None
              else Some p)"

definition SETTLED_TASK_STATES :: "string list" where
  "SETTLED_TASK_STATES = [''DONE'', ''FAILED'', ''CANCELLED'', ''BLOCKED'']"

definition fail_child_task :: "run_world \<Rightarrow> int \<Rightarrow> run_row \<Rightarrow> run_world \<Rightarrow> run_world" where
  "fail_child_task w0 n c w =
    (case job_by_id (rnTask c) w0 of
       None \<Rightarrow> w
     | Some t \<Rightarrow> if jbState t \<in> set SETTLED_TASK_STATES then w
                 else update_job (rnTask c) (\<lambda>x. x\<lparr>jbState := ''FAILED'', jbUpdatedAt := n, jbCompletedAt := Some n\<rparr>) w)"

definition abort_task :: "string \<Rightarrow> run_world \<Rightarrow> run_world" where
  "abort_task i w = (if has_controller i (rwPool w) then w\<lparr>rwAborted := rwAborted w @ [i]\<rparr> else w)"

definition reap_orphan :: "run_world \<Rightarrow> run_row \<Rightarrow> run_row \<Rightarrow> run_world \<Rightarrow> run_world" where
  "reap_orphan w0 c p w =
    (let n = rwNow w;
         w1 = update_run (rnId c) (\<lambda>x. x\<lparr>rnState := ''FAILED'', rnSession := None, rnUpdatedAt := n, rnCompletedAt := Some n\<rparr>) w;
         w2 = abort_task (rnTask c) (fail_child_task w0 n c w1)
     in record_event ''task.orchestration.stopped'' (Some (rnTask c)) (Some (rnId c)) n
          [(''message'', JStr (''Child runtime '' @ rnRole c @ '' reaped '' @ [CHR 0x97] @ '' parent '' @ rnRole p @ '' ended in '' @ rnState p)),
           (''action'', JStr ''reap''), (''stopReason'', JStr ''parent_terminal''), (''parentRunId'', JStr (rnId p)),
           (''parentState'', JStr (rnState p)), (''roleId'', JStr (rnRole c)), (''runId'', JStr (rnId c)), (''state'', JStr ''FAILED''),
           (''taskState'', JStr ''FAILED'')] w2)"

definition recover_orphan :: "run_world \<Rightarrow> run_row \<Rightarrow> tick_state \<Rightarrow> tick_state" where
  "recover_orphan w0 c s =
    (case orphan_of w0 c of
       None \<Rightarrow> s
     | Some p \<Rightarrow>
         let (l, w) = s
         in case run_by_id (rnId c) w of
              None \<Rightarrow> s
            | Some now \<Rightarrow> if rnState now \<noteq> ''RUNNING'' then s
                          else (l\<lparr>tlOrphaned := tlOrphaned l @ [rnId c]\<rparr>, reap_orphan w0 c p w))"

definition recover_orphans :: "run_world \<Rightarrow> tick_state \<Rightarrow> tick_state" where
  "recover_orphans w0 s = foldl (\<lambda>s c. recover_orphan w0 c s) s (rwRuns w0)"

section \<open>The tick: what it reports\<close>

record tick_result =
  tkRunning :: nat
  tkTasks :: nat
  tkWorkspaces :: nat
  tkRecovered :: "string list"
  tkResumed :: "string list"
  tkBlocked :: "string list"
  tkCleanup :: "string list"
  tkMissing :: "string list"
  tkOrphaned :: "string list"

definition tick_result_of :: "recovery_env \<Rightarrow> run_world \<Rightarrow> tick_log \<Rightarrow> tick_result" where
  "tick_result_of e w0 l = \<lparr>tkRunning = length (stale_runs e w0), tkTasks = length (candidate_tasks w0) + length (tlStuck l),
     tkWorkspaces = length (rwWorkspaces w0), tkRecovered = tlRecovered l, tkResumed = tlResumed l, tkBlocked = tlBlocked l,
     tkCleanup = cleanup_eligible w0, tkMissing = missing_workspaces e w0, tkOrphaned = tlOrphaned l\<rparr>"

definition tick_did_work :: "tick_result \<Rightarrow> bool" where
  "tick_did_work k = (tkRecovered k \<noteq> [] \<or> tkResumed k \<noteq> [] \<or> tkBlocked k \<noteq> [] \<or> tkCleanup k \<noteq> [] \<or> tkMissing k \<noteq> [] \<or> tkOrphaned k \<noteq> [])"

definition TICK :: string where "TICK = ''worker.runtime_recovery.tick''"

definition should_heartbeat :: "recovery_env \<Rightarrow> int \<Rightarrow> run_world \<Rightarrow> bool" where
  "should_heartbeat e start w = (case getLatestByType TICK w of None \<Rightarrow> True | Some x \<Rightarrow> start - reAt x \<ge> heartbeat_ms e)"

definition tick_payload :: "tick_result \<Rightarrow> (string \<times> json) list" where
  "tick_payload k =
    [(''message'', JStr (''Runtime recovery scanned '' @ show_nat (tkRunning k) @ '' running lanes, '' @ show_nat (tkTasks k)
        @ '' in-progress tasks, and '' @ show_nat (tkWorkspaces k) @ '' runtime workspaces'')),
     (''action'', JStr (if tick_did_work k then ''scan'' else ''heartbeat'')), (''trigger'', JStr ''runtime_recovery_worker''),
     (''scannedRunningCount'', JNum (int (tkRunning k))), (''scannedTaskCount'', JNum (int (tkTasks k))),
     (''scannedWorkspaceCount'', JNum (int (tkWorkspaces k))), (''recoveredRunIds'', names_json (tkRecovered k)),
     (''resumedTaskIds'', names_json (tkResumed k)), (''blockedRunIds'', names_json (tkBlocked k)),
     (''cleanupEligibleRunIds'', names_json (tkCleanup k)), (''missingWorkspaceRunIds'', names_json (tkMissing k)),
     (''orphanedRunIds'', names_json (tkOrphaned k))]"

definition record_tick :: "recovery_env \<Rightarrow> int \<Rightarrow> tick_result \<Rightarrow> run_world \<Rightarrow> run_world" where
  "record_tick e start k w = (if tick_did_work k \<or> should_heartbeat e start w then record_event TICK None None start (tick_payload k) w else w)"

definition recovery_sweeps :: "recovery_env \<Rightarrow> run_world \<Rightarrow> tick_state" where
  "recovery_sweeps e w0 = recover_orphans w0 (recover_awaiting_tasks e w0 (recover_executing_tasks e w0
     (resume_tasks e w0 (recover_stale_runs e w0 (empty_tick, w0)))))"

definition recoverRuntimeOrchestrationTick :: "recovery_env \<Rightarrow> run_world \<Rightarrow> tick_result \<times> run_world" where
  "recoverRuntimeOrchestrationTick e w0 =
    (let (l, w) = recovery_sweeps e w0; k = tick_result_of e w0 l in (k, record_tick e (rwNow w0) k w))"

record recovery_status =
  rsEnabled :: bool
  rsInFlight :: bool
  rsIntervalMs :: int
  rsStaleMs :: int
  rsStuckMs :: int
  rsMaxAttempts :: int
  rsLastTick :: "int option"
  rsCounts :: "int list"
  rsLists :: "string list list"

definition getRuntimeRecoveryStatus :: "recovery_env \<Rightarrow> bool \<Rightarrow> run_world \<Rightarrow> recovery_status" where
  "getRuntimeRecoveryStatus e in_flight w =
    (let x = getLatestByType TICK w; fs = recovery_payload (Option.bind x rePayload)
     in \<lparr>rsEnabled = isRuntimeRecoveryEnabled e, rsInFlight = in_flight, rsIntervalMs = getRecoveryIntervalMs e,
         rsStaleMs = getStaleRunningThresholdMs e, rsStuckMs = getStuckTaskThresholdMs e, rsMaxAttempts = getRecoveryMaxAttempts e,
         rsLastTick = map_option reAt x,
         rsCounts = map (readNumber fs) [''scannedRunningCount'', ''scannedTaskCount'', ''scannedWorkspaceCount''],
         rsLists = map (readStringArray fs) [''recoveredRunIds'', ''resumedTaskIds'', ''blockedRunIds'', ''cleanupEligibleRunIds'',
           ''missingWorkspaceRunIds'', ''orphanedRunIds'']\<rparr>)"

section \<open>The loop\<close>

text \<open>
  The timer of the loop and the flag of a running tick. \<open>rlIntervals\<close> are the intervals that fire, \<open>rlStarting\<close> the calls of
  \<open>startRuntimeRecoveryLoop\<close> that wait for their first tick.
\<close>

record recovery_loop =
  rlTimer :: "nat option"
  rlIntervals :: "nat list"
  rlInFlight :: bool
  rlStarting :: nat
  rlNext :: nat

definition loop_off :: recovery_loop where
  "loop_off = \<lparr>rlTimer = None, rlIntervals = [], rlInFlight = False, rlStarting = 0, rlNext = 0\<rparr>"

definition set_interval :: "recovery_loop \<Rightarrow> recovery_loop" where
  "set_interval l = l\<lparr>rlTimer := Some (rlNext l), rlIntervals := rlIntervals l @ [rlNext l], rlNext := rlNext l + 1\<rparr>"

text \<open>The call up to its first suspension: with a tick in flight the first one is skipped and the interval is set at once.\<close>

definition start_recovery :: "bool \<Rightarrow> recovery_loop \<Rightarrow> recovery_loop" where
  "start_recovery enabled l =
    (if \<not> enabled \<or> rlTimer l \<noteq> None then l
     else if rlInFlight l then set_interval l else l\<lparr>rlInFlight := True, rlStarting := rlStarting l + 1\<rparr>)"

definition first_tick_done :: "recovery_loop \<Rightarrow> recovery_loop" where
  "first_tick_done l = (if rlStarting l = 0 then l else set_interval (l\<lparr>rlInFlight := False, rlStarting := rlStarting l - 1\<rparr>))"

definition interval_fires :: "recovery_loop \<Rightarrow> recovery_loop" where
  "interval_fires l = (if rlInFlight l \<or> rlIntervals l = [] then l else l\<lparr>rlInFlight := True\<rparr>)"

definition interval_tick_done :: "recovery_loop \<Rightarrow> recovery_loop" where
  "interval_tick_done l = l\<lparr>rlInFlight := False\<rparr>"

definition stop_recovery :: "recovery_loop \<Rightarrow> recovery_loop" where
  "stop_recovery l = (case rlTimer l of None \<Rightarrow> l | Some i \<Rightarrow> l\<lparr>rlTimer := None, rlIntervals := removeAll i (rlIntervals l)\<rparr>)"

section \<open>Recovery at the start of the server\<close>

text \<open>
  The messages of the latest checkpoint: \<open>None\<close> when reading them throws (the payload does not parse, or has no list of messages).
\<close>

definition checkpoint_messages :: "string \<Rightarrow> run_world \<Rightarrow> json list option option" where
  "checkpoint_messages i w =
    (case getLatestCheckpointByRunId i w of
       None \<Rightarrow> Some None
     | Some x \<Rightarrow>
         (case rePayload x of
            None \<Rightarrow> Some None
          | Some (Some (JObj fs)) \<Rightarrow> (case obj_get fs ''messages'' of Some (JArr ms) \<Rightarrow> Some (Some ms) | _ \<Rightarrow> None)
          | _ \<Rightarrow> None))"

definition leader_of_crash :: "string \<Rightarrow> run_world \<Rightarrow> run_row option" where
  "leader_of_crash i w = (case latest_by rnUpdatedAt (runs_of_task i w) of
     Some r \<Rightarrow> if rnRole r = ''leader'' then Some r else None | None \<Rightarrow> None)"

definition crash_job :: "string \<Rightarrow> job_row \<Rightarrow> run_row \<Rightarrow> task_job" where
  "crash_job req t r = \<lparr>jobTask = jbId t, jobRun = rnId r, jobRequest = req, jobWorkspace = jbWorkspace t,
     jobPrompt = ''[crash-recovery] resuming from checkpoint'', jobBinding = truthy_opt (jbBinding t)\<rparr>"

definition requeue_crashed :: "string \<Rightarrow> job_row \<Rightarrow> run_row \<Rightarrow> run_world \<Rightarrow> run_world" where
  "requeue_crashed req t r w = update_run (rnId r) (\<lambda>x. x\<lparr>rnState := ''RUNNING'', rnUpdatedAt := rwNow w\<rparr>)
     (w\<lparr>rwPool := enqueue (crash_job req t r) (rwPool w)\<rparr>)"

definition fail_crashed :: "job_row \<Rightarrow> run_world \<Rightarrow> run_world" where
  "fail_crashed t w =
    (let n = rwNow w;
         w1 = update_job (jbId t) (\<lambda>x. x\<lparr>jbState := ''FAILED'', jbUpdatedAt := n, jbCompletedAt := Some n\<rparr>) w
     in w1\<lparr>rwRuns := map (\<lambda>r. if rnTask r = jbId t \<and> rnState r = ''RUNNING''
          then r\<lparr>rnState := ''FAILED'', rnSession := None, rnUpdatedAt := n, rnCompletedAt := Some n\<rparr> else r) (rwRuns w1)\<rparr>)"

datatype crash_end = CrashDone nat nat | CrashThrew nat nat

fun recover_crashed :: "(nat \<Rightarrow> string) \<Rightarrow> job_row list \<Rightarrow> nat \<Rightarrow> nat \<Rightarrow> run_world \<Rightarrow> crash_end \<times> run_world" where
  "recover_crashed req [] ok bad w = (CrashDone ok bad, w)"
| "recover_crashed req (t # ts) ok bad w =
     (case leader_of_crash (jbId t) w of
        None \<Rightarrow> recover_crashed req ts ok (bad + 1) (fail_crashed t w)
      | Some r \<Rightarrow>
          (case checkpoint_messages (rnId r) w of
             None \<Rightarrow> (CrashThrew ok bad, w)
           | Some None \<Rightarrow> recover_crashed req ts ok (bad + 1) (fail_crashed t w)
           | Some (Some ms) \<Rightarrow> if ms = [] then recover_crashed req ts ok (bad + 1) (fail_crashed t w)
                               else recover_crashed req ts (ok + 1) bad (requeue_crashed (req (ok + bad)) t r w)))"

definition recoverStaleTasks :: "(nat \<Rightarrow> string) \<Rightarrow> run_world \<Rightarrow> crash_end \<times> run_world" where
  "recoverStaleTasks req w = recover_crashed req (filter (\<lambda>t. jbState t = ''EXECUTING'') (rwJobs w)) 0 0 w"

end
