(* ===== verification/Run_Recovery_Facts.thy ===== *)
theory Run_Recovery_Facts
  imports Run_Recovery
begin

text \<open>
  What the recovery of runs guarantees: the sweep of stale runs and the sweep of orphans touch exactly the runs they should, the
  recovery at the start of the server leaves no task behind; and the cases in which it does not do what its comments promise.
\<close>

section \<open>The sweep of stale runs\<close>

definition exhausted :: "recovery_env \<Rightarrow> run_row \<Rightarrow> bool" where
  "exhausted e r = (rnAttempts r \<ge> getRecoveryMaxAttempts e)"
























lemma requeue_attempts: "attempts_in (requeue_run k r t w) = attempts_in w"
  by (simp add: requeue_run_def Let_def attempts_update_run)

text \<open>
  Re-queueing a run does not count. With the real dispatch, whose executors leave the counter alone, a stale run below the limit has the
  same number of attempts after it was recovered, or is FAILED: a run that hangs again is recovered again, and the limit is not reached.
\<close>

theorem recovery_is_not_counted:
  assumes "quiet_env d" and "rcDispatch e = (\<lambda>i w. snd (dispatchRun d i w))" and "\<not> exhausted e r"
  shows "counted_or_failed j w (snd (recover_run e w0 r (l, w)))"
proof (cases "job_by_id (rnTask r) w0")
  case (Some t)
  let ?q = "requeue_run (missing_workspace_of e w0 r) r t w"
  have "counted_or_failed j ?q (snd (dispatchRun d (rnId r) ?q))"
    by (rule dispatch_counted [OF assms(1)])
  then show ?thesis
    using assms(2,3) Some requeue_attempts [of "missing_workspace_of e w0 r" r t w]
    by (simp add: recover_run_def exhausted_def Let_def counted_or_failed_def attempts_of_alt)
qed (simp add: recover_run_def counted_attempts)

section \<open>The sweep of orphans\<close>

lemma reap_orphan_run: "run_by_id j (reap_orphan w0 c p w) = map_option (\<lambda>x. if rnId x = rnId c
    then x\<lparr>rnState := ''FAILED'', rnSession := None, rnUpdatedAt := rwNow w, rnCompletedAt := Some (rwNow w)\<rparr> else x) (run_by_id j w)"
proof -
  have [simp]: "run_by_id j (abort_task i v) = run_by_id j v" for i v
    by (simp add: abort_task_def run_by_id_def)
  have [simp]: "run_by_id j (fail_child_task w0 n c v) = run_by_id j v" for n v
    by (simp add: fail_child_task_def split: option.split)
  show ?thesis by (simp add: reap_orphan_def Let_def run_by_id_update)
qed

lemma reap_orphan_state: "run_state j (reap_orphan w0 c p w)
    = (if j = rnId c \<and> run_state j w \<noteq> None then Some ''FAILED'' else run_state j w)"
proof (cases "run_by_id j w")
  case (Some x)
  then show ?thesis using run_by_id_id [OF Some] by (simp add: run_state_def reap_orphan_run)
qed (simp add: run_state_def reap_orphan_run)

definition orphaned :: "run_world \<Rightarrow> run_world \<Rightarrow> run_row \<Rightarrow> bool" where
  "orphaned w0 w c = (orphan_of w0 c \<noteq> None \<and> run_state (rnId c) w = Some ''RUNNING'')"

text \<open>The same, written out: what makes a run an orphan.\<close>

definition is_orphan :: "run_world \<Rightarrow> run_world \<Rightarrow> run_row \<Rightarrow> bool" where
  "is_orphan w0 w c = (rnState c = ''RUNNING'' \<and> run_state (rnId c) w = Some ''RUNNING''
     \<and> (case rnParent c of None \<Rightarrow> False | Some i \<Rightarrow> i \<noteq> [] \<and> (case run_by_id i w0 of None \<Rightarrow> False | Some p \<Rightarrow>
          rnState p \<in> {''COMPLETED'', ''FAILED'', ''CANCELLED''}
          \<and> \<not> (rnAsync c \<and> rnTask p = rnTask c \<and> map_option jbState (job_by_id (rnTask c) w0) = Some ''AWAITING_TEAMMATES''))))"

lemma orphaned_iff: "orphaned w0 w = is_orphan w0 w"
  by (rule ext) (auto simp: orphaned_def is_orphan_def orphan_of_def run_terminal_def TERMINAL_RUN_STATES_def task_state_is_def
      split: option.splits)

lemma recover_orphan_cases:
  "recover_orphan w0 c (l, w) = (if orphaned w0 w c
     then (l\<lparr>tlOrphaned := tlOrphaned l @ [rnId c]\<rparr>, reap_orphan w0 c (the (orphan_of w0 c)) w) else (l, w))"
  by (auto simp: recover_orphan_def orphaned_def run_state_def Let_def split: option.split)

lemma recover_orphan_state: "run_state j (snd (recover_orphan w0 c (l, w)))
    = (if j = rnId c \<and> orphaned w0 w c then Some ''FAILED'' else run_state j w)"
  by (auto simp: recover_orphan_cases reap_orphan_state orphaned_def)

lemma orphan_sweep:
  assumes "distinct (map rnId cs)"
  shows "tlOrphaned (fst (foldl (\<lambda>s c. recover_orphan w0 c s) (l, w) cs)) = tlOrphaned l @ map rnId (filter (orphaned w0 w) cs)
    \<and> (\<forall>j. run_state j (snd (foldl (\<lambda>s c. recover_orphan w0 c s) (l, w) cs))
        = (if \<exists>c\<in>set cs. rnId c = j \<and> orphaned w0 w c then Some ''FAILED'' else run_state j w))"
  using assms
proof (induction cs arbitrary: l w)
  case (Cons c cs)
  obtain l' w' where s: "recover_orphan w0 c (l, w) = (l', w')" by (cases "recover_orphan w0 c (l, w)")
  have l': "tlOrphaned l' = tlOrphaned l @ (if orphaned w0 w c then [rnId c] else [])"
    using s by (auto simp: recover_orphan_cases split: if_splits)
  have st: "run_state j w' = (if j = rnId c \<and> orphaned w0 w c then Some ''FAILED'' else run_state j w)" for j
    using recover_orphan_state [of j w0 c l w] by (simp add: s)
  have notin: "rnId d \<noteq> rnId c" if "d \<in> set cs" for d using that Cons.prems by (auto simp: image_iff)
  have same: "orphaned w0 w' d = orphaned w0 w d" if "d \<in> set cs" for d
    using notin [OF that] by (simp add: orphaned_def st)
  then have f: "filter (orphaned w0 w') cs = filter (orphaned w0 w) cs" by (auto intro: filter_cong)
  have ex: "(\<exists>d\<in>set cs. rnId d = j \<and> orphaned w0 w' d) = (\<exists>d\<in>set cs. rnId d = j \<and> orphaned w0 w d)" for j
    using same by (auto intro!: bex_cong)
  note ih = Cons.IH [of l' w', unfolded f ex]
  have logs: "tlOrphaned (fst (foldl (\<lambda>s c. recover_orphan w0 c s) (l', w') cs)) = tlOrphaned l' @ map rnId (filter (orphaned w0 w) cs)"
    using ih Cons.prems by simp
  have states: "run_state j (snd (foldl (\<lambda>s c. recover_orphan w0 c s) (l', w') cs))
      = (if \<exists>d\<in>set (c # cs). rnId d = j \<and> orphaned w0 w d then Some ''FAILED'' else run_state j w)" for j
  proof -
    have "run_state j (snd (foldl (\<lambda>s c. recover_orphan w0 c s) (l', w') cs))
        = (if \<exists>d\<in>set cs. rnId d = j \<and> orphaned w0 w d then Some ''FAILED'' else run_state j w')"
      using ih Cons.prems by simp
    then show ?thesis by (cases "j = rnId c \<and> orphaned w0 w c") (auto simp: st)
  qed
  show ?case using logs states by (simp add: s l')
qed simp

lemma job_after_orphan:
  assumes "job_by_id i w0 = Some t" and "jbState t \<in> set SETTLED_TASK_STATES"
  shows "job_by_id i (snd (recover_orphan w0 c (l, w))) = job_by_id i w"
proof -
  have [simp]: "job_by_id i (abort_task j v) = job_by_id i v" for j v
    by (simp add: abort_task_def job_by_id_def)
  have "job_by_id i (fail_child_task w0 n c v) = job_by_id i v" for n v
  proof (cases "rnTask c = i")
    case True
    then show ?thesis using assms by (simp add: fail_child_task_def)
  next
    case False
    have "map_option (\<lambda>x. if jbId x = rnTask c then f x else x) (job_by_id i v) = job_by_id i v" for f
      using False job_by_id_id [of i v] by (cases "job_by_id i v") auto
    then show ?thesis by (simp add: fail_child_task_def run_world_simps split: option.split)
  qed
  then show ?thesis by (simp add: recover_orphan_cases reap_orphan_def Let_def)
qed

text \<open>
  C14: The sweep of orphans fails exactly the orphans. A run is failed and reported exactly when it was RUNNING at the start of the tick
  under a parent that had ended, it is not a background teammate its leader waits for, and it is still RUNNING when its turn comes;
  no other run changes its state, and a task that was settled or blocked at the start of the tick is left as it is.
\<close>

theorem orphan_sweep_is_exact:
  assumes "distinct (map rnId (rwRuns w0))" and "recover_orphans w0 (l, w) = (l', w')"
  shows "tlOrphaned l' = tlOrphaned l @ map rnId (filter (is_orphan w0 w) (rwRuns w0))
    \<and> run_state j w' = (if j \<in> rnId ` set (filter (is_orphan w0 w) (rwRuns w0)) then Some ''FAILED'' else run_state j w)
    \<and> (\<forall>i t. job_by_id i w0 = Some t \<and> jbState t \<in> {''DONE'', ''FAILED'', ''CANCELLED'', ''BLOCKED''} \<longrightarrow> job_by_id i w' = job_by_id i w)"
proof -
  have jobs: "job_by_id i (snd (foldl (\<lambda>s c. recover_orphan w0 c s) (l, w) cs)) = job_by_id i w"
    if "job_by_id i w0 = Some t" "jbState t \<in> set SETTLED_TASK_STATES" for i t cs l w
  proof (induction cs arbitrary: l w)
    case (Cons c cs)
    then show ?case
      using job_after_orphan [OF that, of c l w] by (cases "recover_orphan w0 c (l, w)") simp
  qed simp
  show ?thesis
    using orphan_sweep [OF assms(1), of w0 l w, unfolded orphaned_iff] jobs [of _ _ l w "rwRuns w0"] assms(2)
    by (auto simp: recover_orphans_def SETTLED_TASK_STATES_def)
qed

section \<open>The start of the server\<close>

definition settled_or_queued :: "string \<Rightarrow> run_world \<Rightarrow> bool" where
  "settled_or_queued i w = (task_state_is ''FAILED'' i w \<or> isQueued i (rwPool w) \<or> isActive i (rwPool w))"

lemma enqueue_grows:
  assumes "worker_ok w" shows "known w \<subseteq> known (enqueue j w)"
proof (cases "jobTask j \<in> set (queuedIds w) \<or> jobTask j \<in> set (active w)")
  case True
  then have "enqueue j w = w" by (simp add: enqueue_def)
  then show ?thesis by simp
next
  case False
  let ?v = "w\<lparr>queue := queue w @ [j], queuedIds := add_key (jobTask j) (queuedIds w)\<rparr>"
  have "enqueue j w = start_loop (queue ?v) ?v" using False by (simp add: enqueue_def tryStart_def)
  then have "known (enqueue j w) = set (map jobTask (queue ?v)) \<union> set (active ?v)" by (simp only: start_loop_known)
  then show ?thesis by (auto simp: known_def)
qed

lemma fail_crashed_facts:
  "rwPool (fail_crashed t w) = rwPool w"
  "job_by_id i (fail_crashed t w) = map_option (\<lambda>x. if jbId x = jbId t
     then x\<lparr>jbState := ''FAILED'', jbUpdatedAt := rwNow w, jbCompletedAt := Some (rwNow w)\<rparr> else x) (job_by_id i w)"
proof -
  have [simp]: "job_by_id i (v\<lparr>rwRuns := rs\<rparr>) = job_by_id i v" for v rs by (simp add: job_by_id_def)
  show "rwPool (fail_crashed t w) = rwPool w" by (simp add: fail_crashed_def Let_def update_job_def)
  show "job_by_id i (fail_crashed t w) = map_option (\<lambda>x. if jbId x = jbId t
     then x\<lparr>jbState := ''FAILED'', jbUpdatedAt := rwNow w, jbCompletedAt := Some (rwNow w)\<rparr> else x) (job_by_id i w)"
    by (simp add: fail_crashed_def Let_def run_world_simps)
qed

lemma requeue_crashed_facts:
  "rwPool (requeue_crashed req t r w) = enqueue (crash_job req t r) (rwPool w)"
  "job_by_id i (requeue_crashed req t r w) = job_by_id i w"
proof -
  have [simp]: "job_by_id i (v\<lparr>rwPool := q\<rparr>) = job_by_id i v" for v q by (simp add: job_by_id_def)
  show "rwPool (requeue_crashed req t r w) = enqueue (crash_job req t r) (rwPool w)" by (simp add: requeue_crashed_def update_run_def)
  show "job_by_id i (requeue_crashed req t r w) = job_by_id i w" by (simp add: requeue_crashed_def)
qed

definition crash_ok :: "string \<Rightarrow> run_world \<Rightarrow> bool" where
  "crash_ok i w = (task_state_is ''FAILED'' i w \<or> i \<in> known (rwPool w))"

lemma fail_crashed_ok:
  assumes "worker_ok (rwPool w)" and "job_by_id (jbId t) w \<noteq> None"
  shows "worker_ok (rwPool (fail_crashed t w)) \<and> crash_ok (jbId t) (fail_crashed t w)
    \<and> (\<forall>i. crash_ok i w \<longrightarrow> crash_ok i (fail_crashed t w)) \<and> (\<forall>i. (job_by_id i (fail_crashed t w) = None) = (job_by_id i w = None))"
proof -
  obtain x where s: "job_by_id (jbId t) w = Some x" using assms(2) by blast
  note x = s job_by_id_id [OF s]
  have own: "crash_ok (jbId t) (fail_crashed t w)"
    using x by (simp add: fail_crashed_facts crash_ok_def task_state_is_def)
  have kept: "crash_ok i (fail_crashed t w)" if "crash_ok i w" for i
  proof (cases "job_by_id i w")
    case None
    then show ?thesis using that by (simp add: crash_ok_def task_state_is_def fail_crashed_facts)
  next
    case (Some y)
    then show ?thesis
      using that unfolding crash_ok_def task_state_is_def fail_crashed_facts by (cases "jbId y = jbId t") simp_all
  qed
  show ?thesis
    using assms(1) own kept by (simp only: fail_crashed_facts option.map_disc_iff simp_thms) simp
qed

lemma requeue_crashed_ok:
  assumes "worker_ok (rwPool w)"
  shows "worker_ok (rwPool (requeue_crashed req t r w)) \<and> crash_ok (jbId t) (requeue_crashed req t r w)
    \<and> (\<forall>i. crash_ok i w \<longrightarrow> crash_ok i (requeue_crashed req t r w)) \<and> (\<forall>i. (job_by_id i (requeue_crashed req t r w) = None) = (job_by_id i w = None))"
proof -
  have same: "task_state_is st i (requeue_crashed req t r w) = task_state_is st i w" for st i
    by (simp add: task_state_is_def requeue_crashed_facts(2))
  have own: "jbId t \<in> known (enqueue (crash_job req t r) (rwPool w))"
    using enqueued_known [OF assms, of "crash_job req t r"] by (simp add: crash_job_def)
  show ?thesis
    using enqueue_ok [OF assms] own enqueue_grows [OF assms, of "crash_job req t r"]
    by (auto simp: requeue_crashed_facts crash_ok_def same)
qed

lemma recover_crashed_ok:
  assumes "recover_crashed req ts ok bad w = (CrashDone ok' bad', w')" and "worker_ok (rwPool w)" and "\<forall>t\<in>set ts. job_by_id (jbId t) w \<noteq> None"
  shows "ok' + bad' = ok + bad + length ts \<and> worker_ok (rwPool w') \<and> (\<forall>t\<in>set ts. crash_ok (jbId t) w') \<and> (\<forall>i. crash_ok i w \<longrightarrow> crash_ok i w')"
  using assms
proof (induction ts arbitrary: ok bad w)
  case (Cons t ts)
  have f: "?case" if "recover_crashed req ts a b v = (CrashDone ok' bad', w')" "a + b = ok + bad + 1" "worker_ok (rwPool v)"
      "crash_ok (jbId t) v" "\<forall>i. crash_ok i w \<longrightarrow> crash_ok i v" "\<forall>i. (job_by_id i v = None) = (job_by_id i w = None)" for a b v
    using Cons.IH [OF that(1,3)] Cons.prems(3) that(2,4,5,6) by auto
  note fails = fail_crashed_ok [OF Cons.prems(2), of t]
  have t: "job_by_id (jbId t) w \<noteq> None" using Cons.prems(3) by simp
  have failed: "?case" if "recover_crashed req ts ok (bad + 1) (fail_crashed t w) = (CrashDone ok' bad', w')"
    using f [OF that] fails t by simp
  have again: "?case" if "recover_crashed req ts (ok + 1) bad (requeue_crashed n t r w) = (CrashDone ok' bad', w')" for n r
    using f [OF that] requeue_crashed_ok [OF Cons.prems(2), of n t r] by simp
  show ?case
  proof (cases "leader_of_crash (jbId t) w")
    case None
    then show ?thesis using Cons.prems(1) failed by simp
  next
    case (Some r)
    note r = this
    show ?thesis
    proof (cases "checkpoint_messages (rnId r) w")
      case None
      then show ?thesis using Cons.prems(1) r by simp
    next
      case (Some c)
      then show ?thesis using Cons.prems(1) r failed again by (cases c) (auto split: if_splits)
    qed
  qed
qed simp

text \<open>
  C15: The recovery at the start of the server leaves no task behind. When it returns, every task that was EXECUTING has been counted, and
  it is FAILED or waits in the pool or runs there.
\<close>

theorem crash_recovery_settles_every_task:
  assumes "recoverStaleTasks req w = (CrashDone ok bad, w')" and "worker_ok (rwPool w)"
    and "t \<in> set (rwJobs w)" and "jbState t = ''EXECUTING''"
  shows "ok + bad = length (filter (\<lambda>t. jbState t = ''EXECUTING'') (rwJobs w)) \<and> settled_or_queued (jbId t) w'"
proof -
  have "\<forall>x\<in>set (filter (\<lambda>t. jbState t = ''EXECUTING'') (rwJobs w)). job_by_id (jbId x) w \<noteq> None"
    by (auto simp: job_by_id_def find_None_iff)
  from recover_crashed_ok [OF assms(1) [unfolded recoverStaleTasks_def] assms(2) this]
  have "ok + bad = length (filter (\<lambda>t. jbState t = ''EXECUTING'') (rwJobs w))" "worker_ok (rwPool w')" "crash_ok (jbId t) w'"
    using assms(3,4) by auto
  then show ?thesis by (auto simp: settled_or_queued_def crash_ok_def known_iff)
qed

section \<open>Concrete ticks\<close>

definition quiet_recovery :: recovery_env where
  "quiet_recovery = \<lparr>rcEnabled = None, rcInterval = None, rcStale = None, rcStuck = None, rcMaxAttempts = None, rcHeartbeat = None,
     rcExists = (\<lambda>d. True), rcDispatch = (\<lambda>i w. w), rcResume = (\<lambda>i r d w. w), rcMailFails = (\<lambda>n. False), rcRequest = ''req''\<rparr>"





text \<open>A child that runs under a leader that has failed.\<close>

definition orphan_world :: run_world where
  "orphan_world = sample_tables [sample_run ''p1'' ''t1'' ''leader'' ''FAILED'', (sample_run ''c1'' ''t1'' ''coder'' ''RUNNING'')\<lparr>rnParent := Some ''p1''\<rparr>]
     [sample_job_row ''t1'' ''BLOCKED'']"

theorem orphan_sweep_is_exact_witness:
  "tlOrphaned (fst (recover_orphans orphan_world (empty_tick, orphan_world))) = [''c1'']
   \<and> run_state ''c1'' (snd (recover_orphans orphan_world (empty_tick, orphan_world))) = Some ''FAILED''
   \<and> job_by_id ''t1'' (snd (recover_orphans orphan_world (empty_tick, orphan_world))) = job_by_id ''t1'' orphan_world"
proof -
  have f: "filter (is_orphan orphan_world orphan_world) (rwRuns orphan_world) = [(sample_run ''c1'' ''t1'' ''coder'' ''RUNNING'')\<lparr>rnParent := Some ''p1''\<rparr>]"
    by (simp add: orphan_world_def sample_tables_def sample_run_def sample_job_row_def is_orphan_def run_by_id_def run_state_def job_by_id_def)
  have d: "distinct (map rnId (rwRuns orphan_world))" by (simp add: orphan_world_def sample_tables_def sample_run_def)
  have j: "job_by_id ''t1'' orphan_world = Some (sample_job_row ''t1'' ''BLOCKED'')" "jbState (sample_job_row ''t1'' ''BLOCKED'') = ''BLOCKED''"
    by (simp_all add: orphan_world_def sample_tables_def sample_job_row_def job_by_id_def)
  note facts = orphan_sweep_is_exact [OF d prod.collapse [symmetric], of empty_tick orphan_world "''c1''", unfolded f]
  show ?thesis using facts j by (simp add: empty_tick_def sample_run_def)
qed

definition crash_world :: run_world where
  "crash_world = sample_tables [sample_run ''r1'' ''t1'' ''leader'' ''RUNNING''] [sample_job_row ''t1'' ''EXECUTING'']"

theorem crash_recovery_settles_every_task_witness:
  "settled_or_queued ''t1'' (snd (recoverStaleTasks (\<lambda>n. ''req'') crash_world))"
proof -
  have r: "recoverStaleTasks (\<lambda>n. ''req'') crash_world = (CrashDone 0 1, fail_crashed (sample_job_row ''t1'' ''EXECUTING'') crash_world)"
    by (simp add: recoverStaleTasks_def crash_world_def sample_tables_def sample_run_def sample_job_row_def leader_of_crash_def runs_of_task_def
        checkpoint_messages_def getLatestCheckpointByRunId_def)
  show ?thesis
    using crash_recovery_settles_every_task [OF r, of "sample_job_row ''t1'' ''EXECUTING''"]
    by (simp add: r) (simp add: crash_world_def sample_tables_def sample_job_row_def new_worker_def worker_ok_def)
qed

section \<open>Where the recovery falls short\<close>

definition stale_world :: "string \<Rightarrow> run_world" where
  "stale_world st = sample_tables [sample_run ''r1'' ''t1'' ''coder'' ''RUNNING''] [sample_job_row ''t1'' st]"

text \<open>
  The sweep of stale runs looks at the state of the task only to leave out \<open>EXECUTING\<close>: the run of a cancelled task is started again and
  the task is put back into progress.
\<close>

lemma cancelled_task_is_restarted:
  "task_state_is ''IN_PROGRESS'' ''t1'' (snd (recover_stale_runs quiet_recovery (stale_world ''CANCELLED'') (empty_tick, stale_world ''CANCELLED'')))"
  by (simp add: recover_stale_runs_def stale_runs_def stale_world_def sample_tables_def sample_run_def sample_job_row_def task_state_is_def job_by_id_def
      isRuntimeStale_def getStaleRunningThresholdMs_def quiet_recovery_def parsePositiveInteger_def recover_run_def getRecoveryMaxAttempts_def
      missing_workspace_of_def missing_workspaces_def requeue_run_def lifecycle_def record_event_def update_run_def update_job_def Let_def)

text \<open>What the answer of a tick counts as work has no place for the tasks that were stuck while executing.\<close>

lemma stuck_tasks_are_no_work: "tick_did_work (tick_result_of e w0 (l\<lparr>tlStuck := xs\<rparr>)) = tick_did_work (tick_result_of e w0 l)"
  by (simp add: tick_did_work_def tick_result_of_def)

text \<open>As long as the table of workspaces has a finished row, every tick writes its event.\<close>

lemma finished_workspace_is_work:
  "k \<in> set (rwWorkspaces w0) \<Longrightarrow> wkStatus k \<noteq> ''running'' \<Longrightarrow> wkFinished k \<noteq> None \<Longrightarrow> tick_did_work (tick_result_of e w0 l)"
  by (auto simp: tick_did_work_def tick_result_of_def cleanup_eligible_def filter_empty_conv)

text \<open>Two calls that start the loop before its first tick has ended set two intervals, of which a stop clears one.\<close>

lemma stopped_loop_still_fires:
  "rlIntervals (stop_recovery (first_tick_done (start_recovery True (start_recovery True loop_off)))) = [0]"
  by (simp add: stop_recovery_def first_tick_done_def start_recovery_def loop_off_def set_interval_def)

text \<open>A checkpoint that cannot be read ends the recovery at the start of the server; the tasks after it stay EXECUTING.\<close>

lemma corrupt_checkpoint_stops_recovery:
  "leader_of_crash (jbId t) w = Some r \<Longrightarrow> checkpoint_messages (rnId r) w = None \<Longrightarrow> recover_crashed req (t # ts) ok bad w = (CrashThrew ok bad, w)"
  by simp

text \<open>
  The sweep of orphans reads the state of the task from the snapshot: a task that the sweep of stale runs has just given up, BLOCKED
  for a person to look at, is overwritten to FAILED when it has another run below a leader that ended.
\<close>

definition two_sweeps :: run_world where
  "two_sweeps = sample_tables
     [(sample_run ''r1'' ''t1'' ''coder'' ''RUNNING'')\<lparr>rnAttempts := 3\<rparr>, sample_run ''p1'' ''t0'' ''leader'' ''FAILED'',
      (sample_run ''c1'' ''t1'' ''coder'' ''RUNNING'')\<lparr>rnUpdatedAt := 999999, rnParent := Some ''p1''\<rparr>]
     [sample_job_row ''t1'' ''IN_PROGRESS'']"

definition after_stale_sweep :: "run_world \<Rightarrow> tick_state" where
  "after_stale_sweep w = recover_stale_runs quiet_recovery w (empty_tick, w)"

lemmas tick_defs = recover_stale_runs_def stale_runs_def sample_tables_def sample_run_def sample_job_row_def task_state_is_def job_by_id_def
  isRuntimeStale_def getStaleRunningThresholdMs_def quiet_recovery_def parsePositiveInteger_def recover_run_def getRecoveryMaxAttempts_def
  missing_workspace_of_def missing_workspaces_def requeue_run_def exhaust_run_def lifecycle_def record_event_def update_run_def update_job_def Let_def

lemma blocked_task_is_overwritten:
  "task_state_is ''BLOCKED'' ''t1'' (snd (after_stale_sweep two_sweeps))"
  "task_state_is ''FAILED'' ''t1'' (snd (recover_orphans two_sweeps (after_stale_sweep two_sweeps)))"
  by (simp_all add: after_stale_sweep_def two_sweeps_def tick_defs recover_orphans_def recover_orphan_def orphan_of_def run_by_id_def
      run_terminal_def TERMINAL_RUN_STATES_def reap_orphan_def fail_child_task_def SETTLED_TASK_STATES_def abort_task_def has_controller_def new_worker_def)

text \<open>
  A background teammate that was lost while its leader waits is handled twice in one tick. The first sweep re-queues it and puts the task
  IN_PROGRESS; the sweep of the waiting leaders, which sees it RUNNING in its snapshot, fails it and does not wake the leader, because
  the task no longer waits.
\<close>

definition waiting_world :: run_world where
  "waiting_world = sample_tables [(sample_run ''c1'' ''t1'' ''coder'' ''RUNNING'')\<lparr>rnAsync := True\<rparr>] [sample_job_row ''t1'' ''AWAITING_TEAMMATES'']"

lemma create_mail_fields: "create_mail m w = Some w' \<Longrightarrow> rwJobs w' = rwJobs w \<and> rwRuns w' = rwRuns w \<and> rwPool w' = rwPool w"
  by (auto simp: create_mail_def split: if_splits)

lemma note_group_fields: "rwJobs (note_group e w) = rwJobs w \<and> rwRuns (note_group e w) = rwRuns w \<and> rwPool (note_group e w) = rwPool w"
  by (auto simp: note_group_def split: option.split dest!: create_mail_fields)

lemma write_note_fields: "rwJobs (write_note f n e w) = rwJobs w \<and> rwRuns (write_note f n e w) = rwRuns w \<and> rwPool (write_note f n e w) = rwPool w"
proof (induction n arbitrary: w)
  case (Suc n)
  show ?case
  proof (cases "if f (2 - n) then None else create_mail (completion_note e) w")
    case None
    then show ?thesis using Suc.IH by simp
  next
    case (Some v)
    then have "create_mail (completion_note e) w = Some v" by (simp split: if_splits)
    then show ?thesis using Some create_mail_fields note_group_fields [of e v] by simp
  qed
qed (simp add: injection_failed_def record_event_def)

lemmas mailbox_fields = write_note_fields [where n = 3, folded writeTeammateCompletionMailbox_def]

lemma waiting_leader_is_not_woken:
  "task_state_is ''IN_PROGRESS'' ''t1'' (snd (recover_awaiting_tasks quiet_recovery waiting_world (after_stale_sweep waiting_world)))"
  "run_state ''c1'' (snd (recover_awaiting_tasks quiet_recovery waiting_world (after_stale_sweep waiting_world))) = Some ''FAILED''"
  "rwPool (snd (recover_awaiting_tasks quiet_recovery waiting_world (after_stale_sweep waiting_world))) = new_worker 4"
  by (simp_all add: after_stale_sweep_def waiting_world_def tick_defs recover_awaiting_tasks_def recover_awaiting_def lost_teammates_def
      runs_of_task_def has_controller_def new_worker_def isActiveAsyncTeammate_def reap_teammate_def reenqueueLeaderIfAwaiting_def mailbox_fields
      run_state_def run_by_id_def)

end
