(* ===== verification/Task_Retention.thy ===== *)
theory Task_Retention
  imports Run_Recovery "HOL-Library.Char_ord" "HOL-Library.List_Lexorder" "HOL-Library.Product_Lexorder" "HOL-Library.Multiset"
begin

text \<open>
  The sweep that drops old tasks (\<open>apps/api/src/services/task-retention-service.ts\<close>) with the pruning of the records of token usage
  (\<open>pruneOlderThan\<close> in \<open>apps/api/src/repositories/token-usage-repository.ts\<close>). A table whose columns do not matter here is the list of its
  rows' ids with the ids of their tasks. The native transaction of a deletion is one step; other clients act between two deletions.
  The files on the disk that belong to a task are left out.
\<close>

section \<open>Deleting a task\<close>

type_synonym owned_row = "string \<times> string"

record retention_world =
  ttNow :: int
  ttTasks :: "job_row list"
  ttEvents :: "run_event list"
  ttRuns :: "run_row list"
  ttWorkspaces :: "owned_row list"
  ttApprovals :: "owned_row list"
  ttArtifacts :: "owned_row list"
  ttMail :: "owned_row list"
  ttAttachments :: "owned_row list"
  ttMedia :: "owned_row list"
  ttSessions :: "(string \<times> string option) list"
  ttReviews :: "owned_row list"

definition TERMINAL_TASK_STATES :: "string list" where
  "TERMINAL_TASK_STATES = [''DONE'', ''FAILED'', ''PR_OPEN'', ''MERGE_WAITING'', ''CANCELLED'', ''BLOCKED'', ''COMPLETED'']"

definition is_ended :: "job_row \<Rightarrow> bool" where
  "is_ended t = (jbState t \<in> set TERMINAL_TASK_STATES)"

definition others_of :: "string \<Rightarrow> owned_row list \<Rightarrow> owned_row list" where
  "others_of i rows = filter (\<lambda>r. snd r \<noteq> i) rows"

definition purge_rows :: "string \<Rightarrow> retention_world \<Rightarrow> retention_world" where
  "purge_rows i w = w\<lparr>
     ttEvents := filter (\<lambda>e. reTask e \<noteq> Some i) (ttEvents w),
     ttRuns := filter (\<lambda>r. rnTask r \<noteq> i) (ttRuns w),
     ttWorkspaces := others_of i (ttWorkspaces w),
     ttApprovals := others_of i (ttApprovals w),
     ttArtifacts := others_of i (ttArtifacts w),
     ttMail := others_of i (ttMail w),
     ttAttachments := others_of i (ttAttachments w),
     ttMedia := others_of i (ttMedia w),
     ttSessions := map (\<lambda>(c, t). (c, if t = Some i then None else t)) (ttSessions w),
     ttTasks := filter (\<lambda>t. jbId t \<noteq> i) (ttTasks w)\<rparr>"

definition deleteTaskRowAndChildren :: "bool \<Rightarrow> string \<Rightarrow> retention_world \<Rightarrow> bool \<times> retention_world" where
  "deleteTaskRowAndChildren force i w =
    (case find (\<lambda>t. jbId t = i) (ttTasks w) of
       None \<Rightarrow> (False, w)
     | Some t \<Rightarrow> if \<not> force \<and> \<not> is_ended t then (False, w) else (True, purge_rows i w))"

section \<open>The sweep\<close>

record retention_env =
  reTtl :: "string option"
  reMax :: "string option"
  reFails :: "nat \<Rightarrow> bool"
  reOthers :: "nat \<Rightarrow> retention_world \<Rightarrow> retention_world"

definition retention_ttl :: "retention_env \<Rightarrow> int" where
  "retention_ttl e = parsePositiveInteger (reTtl e) (30 * 24 * 60 * 60 * 1000)"

definition retention_max :: "retention_env \<Rightarrow> int" where
  "retention_max e = parsePositiveInteger (reMax e) 50"

text \<open>The rows in the order of the query, the most recently updated first.\<close>

definition terminal_tasks :: "retention_world \<Rightarrow> job_row list" where
  "terminal_tasks w = sort_key (\<lambda>t. - jbUpdatedAt t) (filter is_ended (ttTasks w))"

definition over_ttl :: "retention_env \<Rightarrow> int \<Rightarrow> job_row \<Rightarrow> bool" where
  "over_ttl e n t = (n - jbUpdatedAt t > retention_ttl e)"

definition over_cap :: "retention_env \<Rightarrow> nat \<Rightarrow> bool" where
  "over_cap e i = (int i \<ge> retention_max e)"

definition to_delete :: "retention_env \<Rightarrow> retention_world \<Rightarrow> string list" where
  "to_delete e w = map (\<lambda>(i, t). jbId t)
     (filter (\<lambda>(i, t). over_ttl e (ttNow w) t \<or> over_cap e i) (enumerate 0 (terminal_tasks w)))"

record retention_result =
  rrScanned :: nat
  rrDeleted :: "string list"
  rrSkipped :: "string list"
  rrFailed :: "string list"
  rrTtl :: nat
  rrCap :: nat

text \<open>The deletion that throws is rolled back.\<close>

definition sweep_one :: "retention_env \<Rightarrow> nat \<times> string \<Rightarrow> retention_result \<times> retention_world \<Rightarrow> retention_result \<times> retention_world" where
  "sweep_one e x s =
    (let (k, i) = x; (r, w0) = s; w = reOthers e k w0
     in if reFails e k then (r\<lparr>rrFailed := rrFailed r @ [i]\<rparr>, w)
        else case deleteTaskRowAndChildren False i w of
               (True, w') \<Rightarrow> (r\<lparr>rrDeleted := rrDeleted r @ [i]\<rparr>, w')
             | (False, w') \<Rightarrow> (r\<lparr>rrSkipped := rrSkipped r @ [i]\<rparr>, w'))"

definition empty_sweep :: "retention_env \<Rightarrow> retention_world \<Rightarrow> retention_result" where
  "empty_sweep e w = \<lparr>rrScanned = length (terminal_tasks w), rrDeleted = [], rrSkipped = [], rrFailed = [],
     rrTtl = length (filter (over_ttl e (ttNow w)) (terminal_tasks w)),
     rrCap = length (filter (\<lambda>(i, t). over_cap e i) (enumerate 0 (terminal_tasks w)))\<rparr>"

definition cleanupStaleTasks :: "retention_env \<Rightarrow> retention_world \<Rightarrow> retention_result \<times> retention_world" where
  "cleanupStaleTasks e w = fold (sweep_one e) (enumerate 0 (to_delete e w)) (empty_sweep e w, w)"

definition NOISE_EVENT_TYPES :: "string list" where
  "NOISE_EVENT_TYPES = [''worker.runtime_recovery.tick'']"

definition pruneNoiseEvents :: "string option \<Rightarrow> int option \<Rightarrow> retention_world \<Rightarrow> nat \<times> retention_world" where
  "pruneNoiseEvents env ttl w =
    (let cutoff = ttNow w - parsePositiveInteger env (case ttl of Some t \<Rightarrow> t | None \<Rightarrow> 24 * 60 * 60 * 1000);
         noise = (\<lambda>e. reType e \<in> set NOISE_EVENT_TYPES \<and> reAt e < cutoff)
     in (length (filter noise (ttEvents w)), w\<lparr>ttEvents := filter (\<lambda>e. \<not> noise e) (ttEvents w)\<rparr>))"

section \<open>The records of token usage\<close>

record usage_row =
  usId :: string
  usRecordedAt :: int

definition USAGE_BATCH :: nat where "USAGE_BATCH = 1000"

definition USAGE_ROUNDS :: nat where "USAGE_ROUNDS = 100"

definition oldest_first :: "usage_row list \<Rightarrow> usage_row list" where
  "oldest_first rows = sort_key (\<lambda>r. (usRecordedAt r, usId r)) rows"

definition drop_oldest :: "nat \<Rightarrow> usage_row list \<Rightarrow> usage_row list" where
  "drop_oldest n rows = filter (\<lambda>r. usId r \<notin> usId ` set (take n (oldest_first rows))) rows"

text \<open>\<open>removedByCap\<close> adds up the sizes of the chunks, not the rows that went.\<close>

fun cap_rounds :: "nat \<Rightarrow> nat \<Rightarrow> nat \<times> usage_row list \<Rightarrow> nat \<times> usage_row list" where
  "cap_rounds 0 m s = s"
| "cap_rounds (Suc k) m (n, rows) =
     (if length rows \<le> m then (n, rows)
      else let chunk = min (length rows - m) USAGE_BATCH in cap_rounds k m (n + chunk, drop_oldest chunk rows))"

definition pruneOlderThan :: "int \<Rightarrow> nat \<Rightarrow> usage_row list \<Rightarrow> (nat \<times> nat) \<times> usage_row list" where
  "pruneOlderThan cutoff m rows =
    (let kept = filter (\<lambda>r. usRecordedAt r \<ge> cutoff) rows;
         (byCap, rows') = cap_rounds USAGE_ROUNDS m (0, kept)
     in ((length rows - length kept, byCap), rows'))"

section \<open>A deletion leaves no trace\<close>

definition owns_nothing :: "string \<Rightarrow> retention_world \<Rightarrow> bool" where
  "owns_nothing i w = ((\<forall>t\<in>set (ttTasks w). jbId t \<noteq> i) \<and> (\<forall>x\<in>set (ttEvents w). reTask x \<noteq> Some i) \<and> (\<forall>r\<in>set (ttRuns w). rnTask r \<noteq> i)
     \<and> (\<forall>x\<in>set (ttWorkspaces w) \<union> set (ttApprovals w) \<union> set (ttArtifacts w) \<union> set (ttMail w) \<union> set (ttAttachments w) \<union> set (ttMedia w). snd x \<noteq> i)
     \<and> (\<forall>s\<in>set (ttSessions w). snd s \<noteq> Some i))"

definition rows_of ::
  "string \<Rightarrow> retention_world \<Rightarrow> job_row list \<times> run_event list \<times> run_row list \<times> owned_row list list \<times> (string \<times> string option) list" where
  "rows_of i w = (filter (\<lambda>t. jbId t = i) (ttTasks w), filter (\<lambda>x. reTask x = Some i) (ttEvents w), filter (\<lambda>r. rnTask r = i) (ttRuns w),
     map (filter (\<lambda>x. snd x = i)) [ttWorkspaces w, ttApprovals w, ttArtifacts w, ttMail w, ttAttachments w, ttMedia w],
     filter (\<lambda>s. snd s = Some i) (ttSessions w))"

lemma purge_owns_nothing: "owns_nothing i (purge_rows i w)"
  by (auto simp: owns_nothing_def purge_rows_def others_of_def split: if_splits)

lemma purge_other_sessions:
  "j \<noteq> i \<Longrightarrow> filter (\<lambda>s. snd s = Some j) (map (\<lambda>(c, t). (c, if t = Some i then None else t)) ss) = filter (\<lambda>s. snd s = Some j) ss"
  by (induction ss) (auto split: if_splits)

lemma purge_others: "j = i \<or> rows_of j (purge_rows i w) = rows_of j w"
proof (cases "j = i")
  case False
  have narrow: "filter P (filter Q xs) = filter P xs" if "\<And>x. P x \<Longrightarrow> Q x" for P Q and xs :: "'a list"
    using that by (induction xs) auto
  have "filter (\<lambda>x. snd x = j) (others_of i xs) = filter (\<lambda>x. snd x = j) xs" for xs
    unfolding others_of_def using False by (intro narrow) auto
  then show ?thesis
    using False by (simp add: rows_of_def purge_rows_def purge_other_sessions del: filter_filter) (intro conjI narrow; auto)
qed simp

lemma purge_fields [simp]:
  "ttTasks (purge_rows i w) = filter (\<lambda>t. jbId t \<noteq> i) (ttTasks w)" "ttNow (purge_rows i w) = ttNow w" "ttReviews (purge_rows i w) = ttReviews w"
  by (simp_all add: purge_rows_def)

text \<open>
  A deletion is complete and nothing more. When a task is deleted, no row of the tables of its children names it any longer and the rows
  of other tasks are as before; otherwise nothing changes, and without force that is so for every task that has not ended.
\<close>

theorem deletion_is_complete:
  "case deleteTaskRowAndChildren force i w of
     (True, w') \<Rightarrow> owns_nothing i w' \<and> (j = i \<or> rows_of j w' = rows_of j w)
   | (False, w') \<Rightarrow> w' = w"
  using purge_others [of j i w] by (auto simp: deleteTaskRowAndChildren_def purge_owns_nothing split: option.split)

section \<open>What a sweep keeps\<close>

definition undisturbed :: "retention_env \<Rightarrow> bool" where
  "undisturbed e = ((\<forall>k w. reOthers e k w = w) \<and> (\<forall>k. \<not> reFails e k))"

lemma find_by_id: "distinct (map jbId ts) \<Longrightarrow> t \<in> set ts \<Longrightarrow> find (\<lambda>x. jbId x = jbId t) ts = Some t"
  by (induction ts) (auto simp: image_iff)

lemma sweep_kept:
  assumes "undisturbed e" and "distinct is" and "\<forall>i\<in>set is. \<exists>t\<in>set (ttTasks w). jbId t = i \<and> is_ended t"
    and "distinct (map jbId (ttTasks w))"
  shows "ttTasks (snd (fold (sweep_one e) (enumerate n is) (r, w))) = filter (\<lambda>t. jbId t \<notin> set is) (ttTasks w)
    \<and> rrDeleted (fst (fold (sweep_one e) (enumerate n is) (r, w))) = rrDeleted r @ is"
  using assms(2-)
proof (induction "is" arbitrary: n r w)
  case (Cons i "is")
  obtain t where t: "t \<in> set (ttTasks w)" "jbId t = i" "is_ended t" using Cons.prems(2) by auto
  have f: "find (\<lambda>t. jbId t = i) (ttTasks w) = Some t"
    using find_by_id [OF Cons.prems(3) t(1)] t(2) by simp
  have s: "sweep_one e (n, i) (r, w) = (r\<lparr>rrDeleted := rrDeleted r @ [i]\<rparr>, purge_rows i w)"
    using assms(1) t by (simp add: sweep_one_def undisturbed_def deleteTaskRowAndChildren_def f)
  have p: "\<forall>j\<in>set is. \<exists>t\<in>set (ttTasks (purge_rows i w)). jbId t = j \<and> is_ended t" using Cons.prems(1,2) by fastforce
  have d: "distinct (map jbId (ttTasks (purge_rows i w)))" using Cons.prems(3) by (simp add: distinct_map_filter)
  show ?case
    using Cons.IH [of "purge_rows i w" "Suc n" "r\<lparr>rrDeleted := rrDeleted r @ [i]\<rparr>"] Cons.prems(1) p d s
    by (auto intro: filter_cong)
qed simp

text \<open>
  What is to be kept, without the order of the query: the ended tasks that come before a task are those updated later, and of those updated at
  the same time the ones before it in the table. A task that has ended is kept when it is not too old and fewer than the cap come before it.
\<close>

definition ahead_of :: "retention_world \<Rightarrow> job_row \<Rightarrow> job_row list" where
  "ahead_of w t = filter (\<lambda>u. is_ended u \<and> jbUpdatedAt u > jbUpdatedAt t) (ttTasks w)
     @ filter (\<lambda>u. is_ended u \<and> jbUpdatedAt u = jbUpdatedAt t) (takeWhile (\<lambda>u. jbId u \<noteq> jbId t) (ttTasks w))"

definition keeps_task :: "retention_env \<Rightarrow> retention_world \<Rightarrow> job_row \<Rightarrow> bool" where
  "keeps_task e w t \<longleftrightarrow> \<not> is_ended t
     \<or> ttNow w - jbUpdatedAt t \<le> retention_ttl e \<and> int (length (ahead_of w t)) < retention_max e"

lemma retention_max_pos: "retention_max e > 0"
  by (simp add: retention_max_def parsePositiveInteger_def split: option.split)

lemma set_terminal: "set (terminal_tasks w) = {t \<in> set (ttTasks w). is_ended t}"
  by (auto simp: terminal_tasks_def)

lemma distinct_terminal: "distinct (map jbId (ttTasks w)) \<Longrightarrow> distinct (map jbId (terminal_tasks w))"
  by (simp add: terminal_tasks_def distinct_map distinct_filter inj_on_def)

lemma in_set_take: "x \<in> set (take n xs) \<longleftrightarrow> (\<exists>k<length xs. k < n \<and> xs ! k = x)"
  by (auto simp: in_set_conv_nth)

lemma takeWhile_filter: "P t \<Longrightarrow> takeWhile (\<lambda>u. u \<noteq> t) (filter P xs) = filter P (takeWhile (\<lambda>u. u \<noteq> t) xs)"
  by (induction xs) auto

lemma takeWhile_stops: "t \<notin> set xs \<Longrightarrow> takeWhile (\<lambda>u. u \<noteq> t) (filter P xs @ t # ys) = filter P xs"
  by (induction xs) auto

lemma filter_length_mset: "mset xs = mset ys \<Longrightarrow> length (filter P xs) = length (filter P ys)"
  by (metis mset_filter size_mset)

text \<open>The place of an element in a stable sort: after those with a smaller key and the earlier ones with the same.\<close>

lemma place_in_sort:
  fixes k :: "'a \<Rightarrow> int"
  assumes d: "distinct xs" and i: "i < length xs" "sort_key k xs ! i = t"
  shows "i = length (filter (\<lambda>u. k u < k t) xs) + length (filter (\<lambda>u. k u = k t) (takeWhile (\<lambda>u. u \<noteq> t) xs))"
proof -
  let ?s = "sort_key k xs"
  let ?A = "take i ?s" and ?B = "drop (Suc i) ?s"
  have s: "?s = ?A @ t # ?B" using i id_take_nth_drop [of i ?s] by simp
  have ds: "distinct ?s" using d by simp
  have so: "sorted (map k ?s)" by simp
  have before: "\<forall>u \<in> set ?A. k u \<le> k t" and after: "\<forall>u \<in> set ?B. k t \<le> k u"
    using so by (subst (asm) s, simp add: sorted_append)+
  have notA: "t \<notin> set ?A" using ds by (subst (asm) s) auto
  have "filter (\<lambda>u. k u < k t) ?s = filter (\<lambda>u. k u < k t) ?A"
    using after by (subst s) (auto simp: filter_empty_conv not_less)
  then have small: "length (filter (\<lambda>u. k u < k t) ?A) = length (filter (\<lambda>u. k u < k t) xs)"
    using filter_length_mset [of ?s xs "\<lambda>u. k u < k t"] by simp
  have "filter (\<lambda>u. k u = k t) xs = filter (\<lambda>u. k u = k t) ?s" by (rule sort_key_stable [symmetric])
  also have "\<dots> = filter (\<lambda>u. k u = k t) ?A @ t # filter (\<lambda>u. k u = k t) ?B" by (subst s) simp
  finally have "takeWhile (\<lambda>u. u \<noteq> t) (filter (\<lambda>u. k u = k t) xs) = filter (\<lambda>u. k u = k t) ?A"
    using notA by (simp add: takeWhile_stops)
  then have same: "filter (\<lambda>u. k u = k t) ?A = filter (\<lambda>u. k u = k t) (takeWhile (\<lambda>u. u \<noteq> t) xs)"
    using takeWhile_filter [of "\<lambda>u. k u = k t" t xs] by simp
  have "filter (\<lambda>u. \<not> k u < k t) ?A = filter (\<lambda>u. k u = k t) ?A"
    by (rule filter_cong [OF refl]) (use before in force)
  then have "length ?A = length (filter (\<lambda>u. k u < k t) ?A) + length (filter (\<lambda>u. k u = k t) ?A)"
    using sum_length_filter_compl [of "\<lambda>u. k u < k t" ?A] by simp
  then show ?thesis using i(1) small same by simp
qed

lemma rank_in_query:
  assumes ids: "distinct (map jbId (ttTasks w))" and t: "t \<in> set (ttTasks w)" "is_ended t"
  shows "t \<in> set (take n (terminal_tasks w)) \<longleftrightarrow> length (ahead_of w t) < n"
proof -
  let ?ts = "terminal_tasks w" and ?xs = "filter is_ended (ttTasks w)"
  have d: "distinct ?ts" "distinct ?xs" using distinct_terminal [OF ids] ids by (simp_all add: distinct_map)
  obtain i where i: "i < length ?ts" "?ts ! i = t" using t set_terminal by (fastforce simp: in_set_conv_nth)
  have same: "takeWhile (\<lambda>u. jbId u \<noteq> jbId t) (ttTasks w) = takeWhile (\<lambda>u. u \<noteq> t) (ttTasks w)"
    by (rule takeWhile_cong) (use ids t(1) in \<open>auto simp: distinct_map dest: inj_onD\<close>)
  have "i = length (filter (\<lambda>u. - jbUpdatedAt u < - jbUpdatedAt t) ?xs)
      + length (filter (\<lambda>u. - jbUpdatedAt u = - jbUpdatedAt t) (takeWhile (\<lambda>u. u \<noteq> t) ?xs))"
    using place_in_sort [OF d(2), of i "\<lambda>t. - jbUpdatedAt t" t] i by (simp add: terminal_tasks_def)
  then have rank: "i = length (ahead_of w t)"
    by (simp add: ahead_of_def same takeWhile_filter t(2) conj_commute)
  show ?thesis
  proof
    assume "t \<in> set (take n ?ts)"
    then obtain k where k: "k < length ?ts" "k < n" "?ts ! k = t" by (auto simp: in_set_take)
    then have "k = i" using i nth_eq_iff_index_eq [OF d(1), of k i] by simp
    then show "length (ahead_of w t) < n" using k(2) rank by simp
  qed (use i rank in \<open>auto simp: in_set_take\<close>)
qed

lemma keeps_task_alt:
  assumes "distinct (map jbId (ttTasks w))" and "t \<in> set (ttTasks w)"
  shows "keeps_task e w t \<longleftrightarrow> \<not> is_ended t
     \<or> t \<in> set (take (nat (retention_max e)) (terminal_tasks w)) \<and> ttNow w - jbUpdatedAt t \<le> retention_ttl e"
proof (cases "is_ended t")
  case True
  then show ?thesis
    using rank_in_query [OF assms True, of "nat (retention_max e)"] retention_max_pos [of e] by (auto simp: keeps_task_def)
qed (simp add: keeps_task_def)

lemma distinct_to_delete:
  assumes "distinct (map jbId (ttTasks w))" shows "distinct (to_delete e w)"
proof -
  have "map (\<lambda>(i, t). jbId t) (enumerate 0 (terminal_tasks w)) = map jbId (terminal_tasks w)"
    by (simp add: case_prod_unfold enumerate_eq_zip flip: map_map [unfolded comp_def, where f = jbId and g = snd])
  then have "distinct (map (\<lambda>(i, t). jbId t) (enumerate 0 (terminal_tasks w)))" using distinct_terminal [OF assms] by simp
  then show ?thesis unfolding to_delete_def by (rule distinct_map_filter)
qed

lemma in_to_delete:
  assumes "distinct (map jbId (ttTasks w))" and "t \<in> set (ttTasks w)"
  shows "jbId t \<in> set (to_delete e w) \<longleftrightarrow> \<not> keeps_task e w t"
proof -
  let ?ts = "terminal_tasks w"
  have same: "u = t" if "u \<in> set ?ts" "jbId u = jbId t" for u
    using that assms by (auto simp: set_terminal distinct_map inj_on_def)
  have d: "distinct ?ts" using distinct_terminal [OF assms(1)] by (simp add: distinct_map)
  have "jbId t \<in> set (to_delete e w) \<longleftrightarrow> (\<exists>i<length ?ts. ?ts ! i = t \<and> (over_ttl e (ttNow w) t \<or> over_cap e i))"
    using same by (force simp: to_delete_def in_set_enumerate_eq)
  also have "\<dots> \<longleftrightarrow> \<not> keeps_task e w t"
  proof (cases "is_ended t")
    case True
    then obtain i where i: "i < length ?ts" "?ts ! i = t" using assms(2) set_terminal by (fastforce simp: in_set_conv_nth)
    have u: "k = i" if "k < length ?ts" "?ts ! k = t" for k using that i nth_eq_iff_index_eq [OF d, of k i] by simp
    have "t \<in> set (take (nat (retention_max e)) ?ts) \<longleftrightarrow> i < nat (retention_max e)"
    proof
      assume "t \<in> set (take (nat (retention_max e)) ?ts)"
      then obtain k where "k < length ?ts" "k < nat (retention_max e)" "?ts ! k = t" by (auto simp: in_set_take)
      then show "i < nat (retention_max e)" using u by simp
    qed (use i in \<open>auto simp: in_set_take\<close>)
    then have "keeps_task e w t \<longleftrightarrow> \<not> (over_ttl e (ttNow w) t \<or> over_cap e i)"
      using True retention_max_pos [of e] by (simp add: keeps_task_alt [OF assms] over_ttl_def over_cap_def) linarith
    moreover have "(\<exists>k<length ?ts. ?ts ! k = t \<and> (over_ttl e (ttNow w) t \<or> over_cap e k)) \<longleftrightarrow> over_ttl e (ttNow w) t \<or> over_cap e i"
    proof
      assume "\<exists>k<length ?ts. ?ts ! k = t \<and> (over_ttl e (ttNow w) t \<or> over_cap e k)"
      then obtain k where "k < length ?ts" "?ts ! k = t" "over_ttl e (ttNow w) t \<or> over_cap e k" by blast
      then show "over_ttl e (ttNow w) t \<or> over_cap e i" using u by simp
    qed (use i in blast)
    ultimately show ?thesis by simp
  next
    case False
    then have "?ts ! i \<noteq> t" if "i < length ?ts" for i using that nth_mem [of i ?ts] by (auto simp: set_terminal)
    then show ?thesis using False by (auto simp: keeps_task_def)
  qed
  finally show ?thesis .
qed

lemma deleted_ids:
  assumes "distinct (map jbId (ttTasks w))"
  shows "mset (to_delete e w) = mset (map jbId (filter (\<lambda>t. \<not> keeps_task e w t) (ttTasks w)))"
proof -
  have "\<exists>t \<in> set (ttTasks w). jbId t = i" if "i \<in> set (to_delete e w)" for i
    using that unfolding to_delete_def by (force simp: in_set_enumerate_eq set_terminal dest!: nth_mem)
  then have "set (to_delete e w) = set (map jbId (filter (\<lambda>t. \<not> keeps_task e w t) (ttTasks w)))"
    using in_to_delete [OF assms] by force
  moreover have "distinct (map jbId (filter (\<lambda>t. \<not> keeps_task e w t) (ttTasks w)))" using assms by (rule distinct_map_filter)
  ultimately show ?thesis using distinct_to_delete [OF assms] set_eq_iff_mset_eq_distinct by blast
qed

text \<open>
  C40: The sweep keeps exactly what it should. Undisturbed, it leaves every task that has not ended and, of those that have, the ones that
  are not older than the limit and have fewer ended tasks than the cap before them, that is, updated later or, at the same time, earlier in the table; it
  reports exactly the others, and no more tasks that have ended than the cap are left.
\<close>

theorem sweep_is_exact:
  assumes "undisturbed e" and "distinct (map jbId (ttTasks w))"
  shows "ttTasks (snd (cleanupStaleTasks e w)) = filter (keeps_task e w) (ttTasks w)
    \<and> mset (rrDeleted (fst (cleanupStaleTasks e w))) = mset (map jbId (filter (\<lambda>t. \<not> keeps_task e w t) (ttTasks w)))
    \<and> int (length (filter is_ended (ttTasks (snd (cleanupStaleTasks e w))))) \<le> retention_max e"
proof -
  have ended: "\<forall>i\<in>set (to_delete e w). \<exists>t\<in>set (ttTasks w). jbId t = i \<and> is_ended t"
  proof
    fix i assume "i \<in> set (to_delete e w)"
    then obtain t where "t \<in> set (terminal_tasks w)" "jbId t = i"
      unfolding to_delete_def by (auto simp: in_set_enumerate_eq dest!: nth_mem)
    then show "\<exists>t\<in>set (ttTasks w). jbId t = i \<and> is_ended t" by (auto simp: set_terminal)
  qed
  have k: "ttTasks (snd (cleanupStaleTasks e w)) = filter (\<lambda>t. jbId t \<notin> set (to_delete e w)) (ttTasks w)"
    and r: "rrDeleted (fst (cleanupStaleTasks e w)) = to_delete e w"
    using sweep_kept [OF assms(1) distinct_to_delete [OF assms(2)] ended assms(2), of 0 "empty_sweep e w"]
    by (simp_all add: cleanupStaleTasks_def empty_sweep_def)
  have kept: "ttTasks (snd (cleanupStaleTasks e w)) = filter (keeps_task e w) (ttTasks w)"
    unfolding k by (rule filter_cong) (simp_all add: in_to_delete [OF assms(2)])
  have "distinct (filter is_ended (filter (keeps_task e w) (ttTasks w)))" using assms(2) by (simp add: distinct_map)
  then have "length (filter is_ended (filter (keeps_task e w) (ttTasks w))) = card (set (filter is_ended (filter (keeps_task e w) (ttTasks w))))"
    by (rule distinct_card [symmetric])
  also have "\<dots> \<le> card (set (take (nat (retention_max e)) (terminal_tasks w)))"
    by (rule card_mono) (auto simp: keeps_task_alt [OF assms(2)])
  also have "\<dots> \<le> nat (retention_max e)" using card_length [of "take (nat (retention_max e)) (terminal_tasks w)"] by simp
  finally have "int (length (filter is_ended (filter (keeps_task e w) (ttTasks w)))) \<le> retention_max e" using retention_max_pos [of e] by simp
  moreover have "mset (to_delete e w) = mset (map jbId (filter (\<lambda>t. \<not> keeps_task e w t) (ttTasks w)))"
    by (rule deleted_ids) (rule assms(2))
  ultimately show ?thesis using kept r by simp
qed

text \<open>
  Whatever the other clients do, a task that they have made active again before its turn is not deleted, as long as they leave it active.
\<close>

definition active_task :: "string \<Rightarrow> retention_world \<Rightarrow> bool" where
  "active_task i w = (case find (\<lambda>t. jbId t = i) (ttTasks w) of None \<Rightarrow> False | Some t \<Rightarrow> \<not> is_ended t)"

lemma find_other: "j \<noteq> i \<Longrightarrow> find (\<lambda>t. jbId t = j) (filter (\<lambda>t. jbId t \<noteq> i) ts) = find (\<lambda>t. jbId t = j) ts"
  by (induction ts) auto

lemma sweep_one_active:
  assumes "active_task j (reOthers e k w)"
  shows "active_task j (snd (sweep_one e (k, i) (r, w)))"
proof (cases "i = j")
  case True
  then show ?thesis using assms
    by (auto simp: sweep_one_def Let_def deleteTaskRowAndChildren_def active_task_def split: option.splits)
next
  case False
  then show ?thesis using assms
    by (auto simp: sweep_one_def Let_def deleteTaskRowAndChildren_def active_task_def find_other split: option.split)
qed

theorem sweep_spares_reactivated:
  assumes "\<forall>k v. active_task j v \<longrightarrow> active_task j (reOthers e k v)" and "active_task j w"
  shows "active_task j (snd (fold (sweep_one e) xs (r, w)))"
  using assms(2)
proof (induction xs arbitrary: r w)
  case (Cons x xs)
  obtain k i where x: "x = (k, i)" by (cases x)
  obtain r' w' where s: "sweep_one e x (r, w) = (r', w')" by (cases "sweep_one e x (r, w)")
  have "active_task j w'" using sweep_one_active [of j e k w i r] assms(1) Cons.prems s by (simp add: x)
  then show ?case using Cons.IH s by simp
qed simp

text \<open>The reviews of a deleted task stay behind: the table of change reviews is not among those a deletion clears.\<close>

lemma reviews_of_deleted_tasks_stay:
  "deleteTaskRowAndChildren force i w = (True, w') \<Longrightarrow> ttReviews w' = ttReviews w \<and> (\<forall>t\<in>set (ttTasks w'). jbId t \<noteq> i)"
  by (auto simp: deleteTaskRowAndChildren_def split: option.splits if_splits)

section \<open>The newest records survive\<close>

lemma oldest_first_sorted: "sorted (map (\<lambda>r. (usRecordedAt r, usId r)) (oldest_first rows))"
  by (simp add: oldest_first_def)

lemma set_oldest_first [simp]: "set (oldest_first rows) = set rows" "length (oldest_first rows) = length rows"
  by (simp_all add: oldest_first_def)

lemma distinct_oldest_first: "distinct (map usId rows) \<Longrightarrow> distinct (map usId (oldest_first rows))"
  by (simp add: oldest_first_def distinct_map inj_on_def)

lemma drop_oldest_rows:
  assumes "distinct (map usId rows)"
  shows "oldest_first (drop_oldest n rows) = drop n (oldest_first rows)"
proof -
  let ?s = "oldest_first rows"
  have d: "distinct (map usId ?s)" using distinct_oldest_first [OF assms] .
  then have d': "distinct (map usId (take n ?s) @ map usId (drop n ?s))" by (simp flip: map_append)
  have "oldest_first (drop_oldest n rows) = filter (\<lambda>r. usId r \<notin> usId ` set (take n ?s)) ?s"
    unfolding drop_oldest_def oldest_first_def by (simp add: filter_sort)
  also have "\<dots> = filter (\<lambda>r. usId r \<notin> usId ` set (take n ?s)) (take n ?s @ drop n ?s)" by simp
  also have "\<dots> = drop n ?s"
  proof -
    have "filter (\<lambda>r. usId r \<notin> usId ` set (take n ?s)) (take n ?s) = []" by (simp add: filter_empty_conv)
    moreover have "filter (\<lambda>r. usId r \<notin> usId ` set (take n ?s)) (drop n ?s) = drop n ?s"
      using d' by (intro filter_True) (auto simp: disjoint_iff)
    ultimately show ?thesis by (simp only: filter_append append_Nil)
  qed
  finally show ?thesis .
qed

lemma drop_oldest_distinct: "distinct (map usId rows) \<Longrightarrow> distinct (map usId (drop_oldest n rows))"
  by (simp add: drop_oldest_def distinct_map_filter)

lemma length_drop_oldest: "distinct (map usId rows) \<Longrightarrow> length (drop_oldest n rows) = length rows - n"
  using arg_cong [OF drop_oldest_rows, of rows length n] by simp

lemma cap_rounds_keep:
  assumes "distinct (map usId rows)" and "length rows \<le> m + k * USAGE_BATCH"
  shows "oldest_first (snd (cap_rounds k m (n, rows))) = drop (length rows - m) (oldest_first rows)
    \<and> fst (cap_rounds k m (n, rows)) = n + (length rows - m)"
  using assms
proof (induction k arbitrary: n rows)
  case (Suc k)
  show ?case
  proof (cases "length rows \<le> m")
    case False
    let ?c = "min (length rows - m) USAGE_BATCH"
    have l: "length (drop_oldest ?c rows) = length rows - ?c" by (rule length_drop_oldest [OF Suc.prems(1)])
    have "length (drop_oldest ?c rows) \<le> m + k * USAGE_BATCH" using Suc.prems(2) False by (simp add: l)
    note ih = Suc.IH [OF drop_oldest_distinct [OF Suc.prems(1)] this, of "n + ?c"]
    show ?thesis using ih False by (simp add: Let_def l drop_oldest_rows [OF Suc.prems(1)])
  qed simp
qed simp

text \<open>
  Pruning keeps the newest records. Of a table with at most a hundred batches above the cap, it keeps the records younger than the
  cut-off, and of these the newest up to the cap; the counts it returns are those of the rows that went.
\<close>

theorem pruning_keeps_the_newest:
  assumes "distinct (map usId rows)" and "length rows \<le> m + USAGE_ROUNDS * USAGE_BATCH"
    and "pruneOlderThan cutoff m rows = ((byTtl, byCap), rows')"
  shows "oldest_first rows' = (let kept = oldest_first (filter (\<lambda>r. usRecordedAt r \<ge> cutoff) rows) in drop (length kept - m) kept)
    \<and> length rows' \<le> m \<and> byTtl + byCap + length rows' = length rows"
proof -
  let ?kept = "filter (\<lambda>r. usRecordedAt r \<ge> cutoff) rows"
  have d: "distinct (map usId ?kept)" using assms(1) by (rule distinct_map_filter)
  have l: "length ?kept \<le> length rows" by simp
  have "length ?kept \<le> m + USAGE_ROUNDS * USAGE_BATCH" using l assms(2) by linarith
  note c = cap_rounds_keep [OF d this, of 0]
  have o: "oldest_first rows' = drop (length ?kept - m) (oldest_first ?kept)" and b: "byCap = length ?kept - m" "byTtl = length rows - length ?kept"
    using c assms(3) by (auto simp: pruneOlderThan_def Let_def split: prod.splits)
  have n: "length rows' = length ?kept - (length ?kept - m)" using arg_cong [OF o, of length] by simp
  have "byTtl + byCap + length rows' = length rows" using b n l by linarith
  moreover have "length rows' \<le> m" using n by linarith
  ultimately show ?thesis using o by (simp add: Let_def)
qed

text \<open>Beyond a hundred batches a sweep stops early; the next one goes on.\<close>

theorem pruning_keeps_the_newest_witness:
  "length (snd (pruneOlderThan 5 1 [\<lparr>usId = ''a'', usRecordedAt = 9\<rparr>, \<lparr>usId = ''b'', usRecordedAt = 1\<rparr>, \<lparr>usId = ''c'', usRecordedAt = 8\<rparr>])) \<le> 1"
  using pruning_keeps_the_newest [of "[\<lparr>usId = ''a'', usRecordedAt = 9\<rparr>, \<lparr>usId = ''b'', usRecordedAt = 1\<rparr>, \<lparr>usId = ''c'', usRecordedAt = 8\<rparr>]" 1 5,
      OF _ _ prod.collapse [symmetric, THEN trans, OF arg_cong2 [where f = Pair, OF prod.collapse [symmetric] refl]]]
  by (simp add: USAGE_ROUNDS_def USAGE_BATCH_def)

text \<open>A cap of two and the default limit: of two tasks updated at the same time the earlier row stays, and an old one goes although there is room.\<close>

definition quiet_retention :: retention_env where
  "quiet_retention = \<lparr>reTtl = None, reMax = Some ''2'', reFails = (\<lambda>k. False), reOthers = (\<lambda>k w. w)\<rparr>"

definition ended_at :: "string \<Rightarrow> int \<Rightarrow> job_row" where
  "ended_at i t = (sample_job_row i ''COMPLETED'')\<lparr>jbUpdatedAt := t\<rparr>"

definition retained_world :: "job_row list \<Rightarrow> retention_world" where
  "retained_world ts = \<lparr>ttNow = 3000000000, ttTasks = ts,
     ttEvents = [], ttRuns = [], ttWorkspaces = [], ttApprovals = [], ttArtifacts = [], ttMail = [], ttAttachments = [], ttMedia = [],
     ttSessions = [], ttReviews = [(''rev'', ''t1'')]\<rparr>"

definition tied_tasks :: "job_row list" where
  "tied_tasks = [ended_at ''t1'' 2999999990, sample_job_row ''t2'' ''EXECUTING'', ended_at ''t3'' 2999999999, ended_at ''t4'' 2999999990]"

theorem sweep_is_exact_witness:
  "map jbId (ttTasks (snd (cleanupStaleTasks quiet_retention (retained_world tied_tasks)))) = [''t1'', ''t2'', ''t3'']
   \<and> map jbId (ttTasks (snd (cleanupStaleTasks quiet_retention (retained_world [ended_at ''t1'' 0, ended_at ''t2'' 2999999999])))) = [''t2'']"
proof -
  let ?two = "[ended_at ''t1'' 0, ended_at ''t2'' 2999999999]"
  have u: "undisturbed quiet_retention" by (simp add: undisturbed_def quiet_retention_def)
  have t: "ttTasks (retained_world ts) = ts" for ts by (simp add: retained_world_def)
  have d: "distinct (map jbId (ttTasks (retained_world tied_tasks)))" "distinct (map jbId (ttTasks (retained_world ?two)))" by code_simp+
  have "ttTasks (snd (cleanupStaleTasks quiet_retention (retained_world tied_tasks)))
       = filter (keeps_task quiet_retention (retained_world tied_tasks)) tied_tasks"
    "ttTasks (snd (cleanupStaleTasks quiet_retention (retained_world ?two))) = filter (keeps_task quiet_retention (retained_world ?two)) ?two"
    using sweep_is_exact [OF u d(1), THEN conjunct1] sweep_is_exact [OF u d(2), THEN conjunct1] by (simp_all only: t)
  moreover have "map jbId (filter (keeps_task quiet_retention (retained_world tied_tasks)) tied_tasks) = [''t1'', ''t2'', ''t3'']"
    "map jbId (filter (keeps_task quiet_retention (retained_world [ended_at ''t1'' 0, ended_at ''t2'' 2999999999]))
           [ended_at ''t1'' 0, ended_at ''t2'' 2999999999]) = [''t2'']" by code_simp+
  ultimately show ?thesis by simp
qed

end
