(* ===== verification/Schedules.thy ===== *)
theory Schedules
  imports Task_Retention "HOL-Library.Multiset"
begin

text \<open>
  Recurring tasks (\<open>apps/api/src/services/scheduled-task-service.ts\<close>): the table of schedules, its operations, the tick of the loop and
  the loop. The library that evaluates cron expressions, the intake of a task and the default workspace are fields of \<open>schedule_env\<close>.
  \<open>swSpawned\<close> is a log of the tasks the tick created and \<open>swReopened\<close> one of those that went on after they had ended; nothing in the code
  reads them.
\<close>

section \<open>The table\<close>

record schedule_row =
  sdId :: string
  sdName :: string
  sdCron :: string
  sdPrompt :: string
  sdWorkspace :: "string option"
  sdEnabled :: bool
  sdLastRun :: "int option"
  sdLastTask :: "string option"
  sdLastError :: "string option"
  sdNext :: "int option"
  sdCreatedAt :: int
  sdUpdatedAt :: int

record schedule_world =
  swRows :: "schedule_row list"
  swStates :: "(string \<times> string) list"
  swSpawned :: "(string \<times> string) list"
  swReopened :: "string list"

record schedule_env =
  seCronError :: "string \<Rightarrow> string option"
  seCronNext :: "string \<Rightarrow> int \<Rightarrow> int option"
  seLookupFails :: "string \<Rightarrow> bool"
  seDefaultWorkspace :: string
  seSpawn :: "string \<Rightarrow> string \<Rightarrow> string \<Rightarrow> schedule_world \<Rightarrow> (string + string) \<times> schedule_world"

definition validateCronExpression :: "schedule_env \<Rightarrow> string \<Rightarrow> string option" where
  "validateCronExpression e x = seCronError e x"

definition computeNextRunAt :: "schedule_env \<Rightarrow> string \<Rightarrow> int \<Rightarrow> int option" where
  "computeNextRunAt e x n = (if seCronError e x \<noteq> None then None else seCronNext e x n)"

record schedule_input =
  siName :: string
  siCron :: string
  siPrompt :: string
  siWorkspace :: "string option"
  siEnabled :: "bool option"

record schedule_patch =
  spName :: "string option"
  spCron :: "string option"
  spPrompt :: "string option"
  spWorkspace :: "string option option"
  spEnabled :: "bool option"

definition listSchedules :: "schedule_world \<Rightarrow> schedule_row list" where
  "listSchedules w = sort_key (\<lambda>s. - sdCreatedAt s) (swRows w)"

definition getSchedule :: "string \<Rightarrow> schedule_world \<Rightarrow> schedule_row option" where
  "getSchedule i w = find (\<lambda>s. sdId s = i) (swRows w)"

definition cron_refusal :: "string \<Rightarrow> string \<Rightarrow> string" where
  "cron_refusal x err = ''Invalid cron expression '' @ [CHR 0x22] @ x @ [CHR 0x22] @ '': '' @ err"

definition createSchedule :: "schedule_env \<Rightarrow> string \<Rightarrow> int \<Rightarrow> schedule_input \<Rightarrow> schedule_world \<Rightarrow> (string + schedule_row) \<times> schedule_world" where
  "createSchedule e i n x w =
    (case validateCronExpression e (siCron x) of
       Some err \<Rightarrow> (Inl (cron_refusal (siCron x) err), w)
     | None \<Rightarrow>
         let on = (siEnabled x \<noteq> Some False);
             row = \<lparr>sdId = i, sdName = js_trim (siName x), sdCron = js_trim (siCron x), sdPrompt = siPrompt x,
               sdWorkspace = truthy_opt (map_option js_trim (siWorkspace x)), sdEnabled = on, sdLastRun = None, sdLastTask = None,
               sdLastError = None, sdNext = (if on then computeNextRunAt e (siCron x) n else None), sdCreatedAt = n, sdUpdatedAt = n\<rparr>
         in (Inr row, w\<lparr>swRows := swRows w @ [row]\<rparr>))"

definition update_schedule_row :: "string \<Rightarrow> (schedule_row \<Rightarrow> schedule_row) \<Rightarrow> schedule_world \<Rightarrow> schedule_world" where
  "update_schedule_row i f w = w\<lparr>swRows := map (\<lambda>s. if sdId s = i then f s else s) (swRows w)\<rparr>"

text \<open>The fields that the patch names; the slot is computed anew when the patch names the expression or the enablement.\<close>

definition patched :: "schedule_env \<Rightarrow> int \<Rightarrow> schedule_patch \<Rightarrow> schedule_row \<Rightarrow> schedule_row \<Rightarrow> schedule_row" where
  "patched e n p old s =
    (let cron = (case spCron p of Some x \<Rightarrow> js_trim x | None \<Rightarrow> sdCron old);
         on = (case spEnabled p of Some b \<Rightarrow> b | None \<Rightarrow> sdEnabled old)
     in s\<lparr>sdName := (case spName p of Some x \<Rightarrow> js_trim x | None \<Rightarrow> sdName s),
          sdCron := (if spCron p \<noteq> None then cron else sdCron s),
          sdPrompt := (case spPrompt p of Some x \<Rightarrow> x | None \<Rightarrow> sdPrompt s),
          sdWorkspace := (case spWorkspace p of Some x \<Rightarrow> truthy_opt (map_option js_trim x) | None \<Rightarrow> sdWorkspace s),
          sdEnabled := (case spEnabled p of Some b \<Rightarrow> b | None \<Rightarrow> sdEnabled s),
          sdNext := (if spCron p \<noteq> None \<or> spEnabled p \<noteq> None then (if on then computeNextRunAt e cron n else None) else sdNext s),
          sdUpdatedAt := n\<rparr>)"

definition patch_refusal :: "schedule_env \<Rightarrow> schedule_patch \<Rightarrow> string option" where
  "patch_refusal e p = (case spCron p of None \<Rightarrow> None | Some x \<Rightarrow> map_option (cron_refusal x) (validateCronExpression e x))"

definition updateSchedule :: "schedule_env \<Rightarrow> string \<Rightarrow> int \<Rightarrow> schedule_patch \<Rightarrow> schedule_world \<Rightarrow> (string + schedule_row option) \<times> schedule_world" where
  "updateSchedule e i n p w =
    (case getSchedule i w of
       None \<Rightarrow> (Inr None, w)
     | Some old \<Rightarrow>
         (case patch_refusal e p of
            Some err \<Rightarrow> (Inl err, w)
          | None \<Rightarrow> let w' = update_schedule_row i (patched e n p old) w in (Inr (getSchedule i w'), w')))"

definition deleteSchedule :: "string \<Rightarrow> schedule_world \<Rightarrow> bool \<times> schedule_world" where
  "deleteSchedule i w =
    (if getSchedule i w = None then (False, w) else (True, w\<lparr>swRows := filter (\<lambda>s. sdId s \<noteq> i) (swRows w)\<rparr>))"

section \<open>The tick\<close>

definition task_ended :: "string \<Rightarrow> schedule_world \<Rightarrow> bool" where
  "task_ended t w = (case map_of (swStates w) t of None \<Rightarrow> True | Some st \<Rightarrow> st \<in> set TERMINAL_TASK_STATES)"

definition isTaskStillRunning :: "schedule_env \<Rightarrow> string option \<Rightarrow> schedule_world \<Rightarrow> bool" where
  "isTaskStillRunning e t w = (truthy_str t \<and> (seLookupFails e (the t) \<or> \<not> task_ended (the t) w))"

definition resolveWorkspaceId :: "schedule_env \<Rightarrow> string option \<Rightarrow> string" where
  "resolveWorkspaceId e v = (if truthy_str v then the v else seDefaultWorkspace e)"

record schedule_result =
  stDue :: nat
  stFired :: "string list"
  stSkipped :: "string list"
  stFailed :: "string list"

definition is_due :: "int \<Rightarrow> schedule_row \<Rightarrow> bool" where
  "is_due n s = (sdEnabled s \<and> (case sdNext s of None \<Rightarrow> False | Some t \<Rightarrow> t \<le> n))"

text \<open>The slot is advanced first. What the tick knows of a schedule is the row it read at its start.\<close>

definition advance_slot :: "schedule_env \<Rightarrow> int \<Rightarrow> schedule_row \<Rightarrow> schedule_world \<Rightarrow> schedule_world" where
  "advance_slot e n s w = update_schedule_row (sdId s) (\<lambda>r. r\<lparr>sdNext := computeNextRunAt e (sdCron s) n, sdUpdatedAt := n\<rparr>) w"

definition fire_schedule :: "schedule_env \<Rightarrow> int \<Rightarrow> schedule_row \<Rightarrow> schedule_result \<times> schedule_world \<Rightarrow> schedule_result \<times> schedule_world" where
  "fire_schedule e n s x =
    (let (r, w0) = x; i = sdId s; w = advance_slot e n s w0
     in if isTaskStillRunning e (sdLastTask s) w then (r\<lparr>stSkipped := stSkipped r @ [i]\<rparr>, w)
        else (case seSpawn e (sdPrompt s) (resolveWorkspaceId e (sdWorkspace s)) (''schedule:'' @ i) w of
            (Inr t, w') \<Rightarrow>
              (r\<lparr>stFired := stFired r @ [i]\<rparr>,
               (update_schedule_row i (\<lambda>r. r\<lparr>sdLastRun := Some n, sdLastTask := Some t, sdLastError := None, sdUpdatedAt := n\<rparr>) w')
                 \<lparr>swSpawned := swSpawned w' @ [(i, t)]\<rparr>)
          | (Inl msg, w') \<Rightarrow>
              (r\<lparr>stFailed := stFailed r @ [i]\<rparr>,
               update_schedule_row i (\<lambda>r. r\<lparr>sdLastRun := Some n, sdLastError := Some (take 2000 msg), sdUpdatedAt := n\<rparr>) w')))"

definition due_schedules :: "int \<Rightarrow> schedule_world \<Rightarrow> schedule_row list" where
  "due_schedules n w = filter (is_due n) (swRows w)"

definition runSchedulerTick :: "schedule_env \<Rightarrow> int \<Rightarrow> schedule_world \<Rightarrow> schedule_result \<times> schedule_world" where
  "runSchedulerTick e n w =
    foldl (\<lambda>x s. fire_schedule e n s x) (\<lparr>stDue = length (due_schedules n w), stFired = [], stSkipped = [], stFailed = []\<rparr>, w) (due_schedules n w)"

section \<open>The loops\<close>

text \<open>The loops of the scheduler and of the retention sweep start and stop as that of the recovery does.\<close>

definition not_switched_off :: "string option \<Rightarrow> bool" where
  "not_switched_off v = (to_lower (case v of Some s \<Rightarrow> s | None \<Rightarrow> ''true'') \<noteq> ''false'')"

definition scheduler_interval :: "string option \<Rightarrow> int" where
  "scheduler_interval v = (case js_parse_int (case v of Some s \<Rightarrow> s | None \<Rightarrow> []) of
     Some n \<Rightarrow> if n > 0 then n else 60 * 1000 | None \<Rightarrow> 60 * 1000)"

definition startScheduledTaskLoop :: "string option \<Rightarrow> recovery_loop \<Rightarrow> recovery_loop" where
  "startScheduledTaskLoop v l = start_recovery (not_switched_off v) l"

definition stopScheduledTaskLoop :: "recovery_loop \<Rightarrow> recovery_loop" where
  "stopScheduledTaskLoop l = stop_recovery l"

definition startTaskRetentionLoop :: "string option \<Rightarrow> recovery_loop \<Rightarrow> recovery_loop" where
  "startTaskRetentionLoop v l = start_recovery (not_switched_off v) l"

definition stopTaskRetentionLoop :: "recovery_loop \<Rightarrow> recovery_loop" where
  "stopTaskRetentionLoop l = stop_recovery l"

section \<open>Each slot once\<close>

text \<open>What the library documents: the next run of an expression lies strictly after the given time.\<close>

definition cron_moves_on :: "schedule_env \<Rightarrow> bool" where
  "cron_moves_on e = (\<forall>x n m. seCronNext e x n = Some m \<longrightarrow> n < m)"

text \<open>The intake of a task leaves the table of schedules alone, and nobody changes it meanwhile.\<close>

definition intake_apart :: "schedule_env \<Rightarrow> bool" where
  "intake_apart e = (\<forall>p d c w. swRows (snd (seSpawn e p d c w)) = swRows w)"

lemma next_is_later: "cron_moves_on e \<Longrightarrow> computeNextRunAt e x n = Some m \<Longrightarrow> n < m"
  by (auto simp: cron_moves_on_def computeNextRunAt_def split: if_splits)

lemma advance_not_due: "cron_moves_on e \<Longrightarrow> \<not> is_due n (r\<lparr>sdNext := computeNextRunAt e x n\<rparr>)"
  by (auto simp: is_due_def split: option.splits dest!: next_is_later)

lemma is_due_update [simp]:
  "is_due n (r\<lparr>sdUpdatedAt := d\<rparr>) = is_due n r" "is_due n (r\<lparr>sdLastRun := a\<rparr>) = is_due n r"
  "is_due n (r\<lparr>sdLastTask := b\<rparr>) = is_due n r" "is_due n (r\<lparr>sdLastError := c\<rparr>) = is_due n r"
  by (simp_all add: is_due_def)

text \<open>The rows after one schedule was handled: the others are untouched, its own is not due any more.\<close>

lemma fire_rows:
  assumes "intake_apart e" and "cron_moves_on e"
  shows "\<exists>f. swRows (snd (fire_schedule e n s (r, w))) = map (\<lambda>x. if sdId x = sdId s then f x else x) (swRows w)
    \<and> (\<forall>x. \<not> is_due n (f x) \<and> sdId (f x) = sdId x)"
proof -
  let ?w = "advance_slot e n s w"
  let ?g = "\<lambda>r. r\<lparr>sdNext := computeNextRunAt e (sdCron s) n, sdUpdatedAt := n\<rparr>"
  have a: "swRows ?w = map (\<lambda>x. if sdId x = sdId s then ?g x else x) (swRows w)"
    by (simp add: advance_slot_def update_schedule_row_def)
  obtain res w' where sp: "seSpawn e (sdPrompt s) (resolveWorkspaceId e (sdWorkspace s)) (''schedule:'' @ sdId s) ?w = (res, w')"
    by (cases "seSpawn e (sdPrompt s) (resolveWorkspaceId e (sdWorkspace s)) (''schedule:'' @ sdId s) ?w")
  have rows: "swRows w' = swRows ?w" using assms(1) sp by (metis intake_apart_def snd_conv)
  note due = advance_not_due [OF assms(2)]
  show ?thesis
  proof (cases "isTaskStillRunning e (sdLastTask s) ?w")
    case True
    then show ?thesis
      using due by (intro exI [of _ ?g]) (simp add: fire_schedule_def a Let_def)
  next
    case False
    show ?thesis
    proof (cases res)
      case (Inl msg)
      then show ?thesis
        using False sp due by (intro exI [of _ "\<lambda>r. (?g r)\<lparr>sdLastRun := Some n, sdLastError := Some (take 2000 msg), sdUpdatedAt := n\<rparr>"])
          (simp add: fire_schedule_def update_schedule_row_def rows a Let_def)
    next
      case (Inr t)
      then show ?thesis
        using False sp due
        by (intro exI [of _ "\<lambda>r. (?g r)\<lparr>sdLastRun := Some n, sdLastTask := Some t, sdLastError := None, sdUpdatedAt := n\<rparr>"])
          (simp add: fire_schedule_def update_schedule_row_def rows a Let_def)
    qed
  qed
qed

definition handled :: "schedule_result \<Rightarrow> string list" where
  "handled r = stFired r @ stSkipped r @ stFailed r"

lemma fire_handled: "mset (handled (fst (fire_schedule e n s (r, w)))) = mset (handled r) + {#sdId s#}"
  by (auto simp: fire_schedule_def Let_def handled_def split: prod.split sum.split)

lemma fires_handled: "mset (handled (fst (foldl (\<lambda>x s. fire_schedule e n s x) (r, w) ss))) = mset (handled r) + mset (map sdId ss)"
proof (induction ss arbitrary: r w)
  case (Cons s ss)
  obtain r' w' where f: "fire_schedule e n s (r, w) = (r', w')" by (cases "fire_schedule e n s (r, w)")
  show ?case using Cons.IH [of r' w'] fire_handled [of e n s r w] by (simp add: f)
qed simp

lemma fires_due:
  assumes "intake_apart e" and "cron_moves_on e"
  shows "\<exists>f. swRows (snd (foldl (\<lambda>x s. fire_schedule e n s x) (r, w) ss)) = map f (swRows w)
    \<and> (\<forall>x. sdId (f x) = sdId x) \<and> (\<forall>x. if sdId x \<in> sdId ` set ss then \<not> is_due n (f x) else f x = x)"
proof (induction ss arbitrary: r w)
  case Nil
  show ?case by (intro exI [of _ id]) simp
next
  case (Cons s ss)
  obtain r' w' where f: "fire_schedule e n s (r, w) = (r', w')" by (cases "fire_schedule e n s (r, w)")
  obtain g where g: "swRows w' = map (\<lambda>x. if sdId x = sdId s then g x else x) (swRows w)" "\<And>x. \<not> is_due n (g x)" "\<And>x. sdId (g x) = sdId x"
    using fire_rows [OF assms, of n s r w] f by auto
  obtain h where h: "swRows (snd (foldl (\<lambda>x s. fire_schedule e n s x) (r', w') ss)) = map h (swRows w')"
    "\<And>x. sdId (h x) = sdId x" "\<And>x. if sdId x \<in> sdId ` set ss then \<not> is_due n (h x) else h x = x"
    using Cons.IH [of r' w'] by blast
  let ?f = "\<lambda>x. h (if sdId x = sdId s then g x else x)"
  have "if sdId x \<in> sdId ` set (s # ss) then \<not> is_due n (?f x) else ?f x = x" for x
    using h(3) [of "g x"] h(3) [of x] g(2,3) [of x] by (auto split: if_splits)
  then show ?case using g h by (intro exI [of _ ?f]) (simp add: f comp_def)
qed

text \<open>
  Each slot once. A tick handles every due schedule exactly once and leaves none due, however many slots have passed: a second tick at
  the same time has nothing to do. The cron library is only asked to look ahead.
\<close>

theorem slots_fire_once:
  assumes "cron_moves_on e" and "intake_apart e" and "runSchedulerTick e n w = (r, w')"
  shows "mset (handled r) = mset (map sdId (due_schedules n w)) \<and> due_schedules n w' = []"
proof -
  let ?r0 = "\<lparr>stDue = length (due_schedules n w), stFired = [], stSkipped = [], stFailed = []\<rparr>"
  obtain f where f: "swRows w' = map f (swRows w)" "\<And>x. sdId (f x) = sdId x"
    "\<And>x. if sdId x \<in> sdId ` set (due_schedules n w) then \<not> is_due n (f x) else f x = x"
    using fires_due [OF assms(2,1), of n ?r0 w "due_schedules n w"] assms(3) by (auto simp: runSchedulerTick_def)
  have "\<not> is_due n (f x)" if "x \<in> set (swRows w)" for x
    using f(3) [of x] that by (auto simp: due_schedules_def split: if_splits)
  then have "due_schedules n w' = []" by (auto simp: due_schedules_def f(1) filter_empty_conv)
  moreover have "mset (handled r) = mset (map sdId (due_schedules n w))"
    using fires_handled [of e n ?r0 w "due_schedules n w"] assms(3) by (simp add: runSchedulerTick_def handled_def)
  ultimately show ?thesis by simp
qed

section \<open>Schedules do not overlap with themselves\<close>

text \<open>
  The intake of a task leaves the schedules and the log alone and gives the task an id that no task of a schedule has had. Tasks go on as they
  will, also after they have ended: a follow-up message, a retry or a resumed session sets a finished task back to executing. Whoever changes
  the states of tasks notes in \<open>swReopened\<close> the tasks of schedules that had ended and have not any more, and no others.
\<close>

definition spawned_tasks :: "schedule_world \<Rightarrow> string set" where
  "spawned_tasks w = snd ` set (swSpawned w)"

definition reopenings_noted :: "schedule_world \<Rightarrow> schedule_world \<Rightarrow> bool" where
  "reopenings_noted w w' \<longleftrightarrow> set (swReopened w')
     = set (swReopened w) \<union> {t \<in> spawned_tasks w. task_ended t w \<and> \<not> task_ended t w'}"

text \<open>The task has ended, or it had and was started again.\<close>

definition ended_once :: "string \<Rightarrow> schedule_world \<Rightarrow> bool" where
  "ended_once t w \<longleftrightarrow> task_ended t w \<or> t \<in> set (swReopened w)"

lemma ended_once_stays: "reopenings_noted w w' \<Longrightarrow> t \<in> spawned_tasks w \<Longrightarrow> ended_once t w \<Longrightarrow> ended_once t w'"
  by (auto simp: reopenings_noted_def ended_once_def)

definition sober_intake :: "schedule_env \<Rightarrow> bool" where
  "sober_intake e = (\<forall>p d c w. case seSpawn e p d c w of (res, w') \<Rightarrow>
     swRows w' = swRows w \<and> swSpawned w' = swSpawned w \<and> reopenings_noted w w'
     \<and> (case res of Inl _ \<Rightarrow> True | Inr t \<Rightarrow> t \<noteq> [] \<and> t \<notin> spawned_tasks w))"

definition schedules_init :: "schedule_world \<Rightarrow> bool" where
  "schedules_init w = (swRows w = [] \<and> swSpawned w = [] \<and> swReopened w = [])"

inductive schedule_step :: "schedule_world \<Rightarrow> schedule_world \<Rightarrow> bool" where
  step_tick: "sober_intake e \<Longrightarrow> schedule_step w (snd (runSchedulerTick e n w))"
| step_create: "i \<notin> sdId ` set (swRows w) \<Longrightarrow> i \<notin> fst ` set (swSpawned w) \<Longrightarrow> schedule_step w (snd (createSchedule e i n x w))"
| step_update: "schedule_step w (snd (updateSchedule e i n p w))"
| step_delete: "schedule_step w (snd (deleteSchedule i w))"
| step_tasks: "swRows w' = swRows w \<Longrightarrow> swSpawned w' = swSpawned w \<Longrightarrow> reopenings_noted w w' \<Longrightarrow> schedule_step w w'"

inductive_cases schedule_stepE: "schedule_step w w'"

definition last_or_ended :: "schedule_world \<Rightarrow> bool" where
  "last_or_ended w = (\<forall>s\<in>set (swRows w). \<forall>(i, t)\<in>set (swSpawned w). i = sdId s \<longrightarrow> sdLastTask s = Some t \<or> ended_once t w)"

definition schedules_ok :: "schedule_world \<Rightarrow> bool" where
  "schedules_ok w = (distinct (map sdId (swRows w)) \<and> (\<forall>(i, t)\<in>set (swSpawned w). t \<noteq> []) \<and> last_or_ended w)"

definition same_last :: "schedule_row list \<Rightarrow> schedule_row list \<Rightarrow> bool" where
  "same_last ss rows = (\<forall>s\<in>set ss. \<forall>r\<in>set rows. sdId r = sdId s \<longrightarrow> sdLastTask r = sdLastTask s)"

lemma last_or_ended_mono:
  assumes "last_or_ended w" and "swSpawned w' = swSpawned w" and "reopenings_noted w w'"
    and "\<And>s'. s' \<in> set (swRows w') \<Longrightarrow> \<exists>s\<in>set (swRows w). sdId s = sdId s' \<and> sdLastTask s = sdLastTask s'"
  shows "last_or_ended w'"
  unfolding last_or_ended_def
proof (intro ballI, clarify)
  fix s' t assume s': "s' \<in> set (swRows w')" and t: "(sdId s', t) \<in> set (swSpawned w')" and l: "\<not> ended_once t w'"
  obtain s where s: "s \<in> set (swRows w)" "sdId s = sdId s'" "sdLastTask s = sdLastTask s'" using assms(4) [OF s'] by blast
  have "t \<in> spawned_tasks w" using t assms(2) by (force simp: spawned_tasks_def)
  then have "\<not> ended_once t w" using ended_once_stays [OF assms(3)] l by blast
  then show "sdLastTask s' = Some t" using assms(1,2) s t by (fastforce simp: last_or_ended_def)
qed

lemma noted_same: "swStates w' = swStates w \<Longrightarrow> swReopened w' = swReopened w \<Longrightarrow> reopenings_noted w w'"
  by (auto simp: reopenings_noted_def task_ended_def)

lemma task_ended_cong [simp]:
  "task_ended t (w\<lparr>swRows := rs\<rparr>) = task_ended t w" "task_ended t (w\<lparr>swSpawned := xs\<rparr>) = task_ended t w"
  "task_ended t (update_schedule_row i f w) = task_ended t w"
  by (simp_all add: task_ended_def update_schedule_row_def)

lemma ended_once_cong [simp]:
  "ended_once t (w\<lparr>swRows := rs\<rparr>) = ended_once t w" "ended_once t (w\<lparr>swSpawned := xs\<rparr>) = ended_once t w"
  "ended_once t (update_schedule_row i f w) = ended_once t w"
  by (simp_all add: ended_once_def) (simp add: update_schedule_row_def)

lemma update_row_fields [simp]:
  "swSpawned (update_schedule_row i f w) = swSpawned w" "swStates (update_schedule_row i f w) = swStates w"
  "swReopened (update_schedule_row i f w) = swReopened w"
  "swRows (update_schedule_row i f w) = map (\<lambda>s. if sdId s = i then f s else s) (swRows w)"
  by (simp_all add: update_schedule_row_def)

lemma same_ids: "(\<And>s. sdId (f s) = sdId s) \<Longrightarrow> map sdId (map (\<lambda>s. if sdId s = i then f s else s) rows) = map sdId rows"
  by (induction rows) auto

lemma update_row_ok:
  assumes "schedules_ok w" and "\<And>s. sdId (f s) = sdId s \<and> sdLastTask (f s) = sdLastTask s"
  shows "schedules_ok (update_schedule_row i f w) \<and> (same_last ss (swRows w) \<longrightarrow> same_last ss (swRows (update_schedule_row i f w)))"
proof -
  have m: "distinct (map sdId (swRows (update_schedule_row i f w))) = distinct (map sdId (swRows w))"
    using assms(2) by (intro arg_cong [where f = distinct]) simp
  have "last_or_ended (update_schedule_row i f w)"
    by (rule last_or_ended_mono [of w]) (use assms in \<open>auto simp: schedules_ok_def noted_same\<close>)
  then have "schedules_ok (update_schedule_row i f w)" using assms(1) m by (simp add: schedules_ok_def del: update_row_fields(4))
  moreover have "same_last ss (swRows w) \<longrightarrow> same_last ss (swRows (update_schedule_row i f w))" using assms(2) by (auto simp: same_last_def)
  ultimately show ?thesis by simp
qed

lemma sober_at:
  assumes "sober_intake e" and "seSpawn e p d c w = (res, w')"
  shows "swRows w' = swRows w" "swSpawned w' = swSpawned w" "reopenings_noted w w'" "res = Inr t \<Longrightarrow> t \<noteq> [] \<and> t \<notin> spawned_tasks w"
proof -
  have "case seSpawn e p d c w of (res, w') \<Rightarrow> swRows w' = swRows w \<and> swSpawned w' = swSpawned w \<and> reopenings_noted w w'
     \<and> (case res of Inl _ \<Rightarrow> True | Inr t \<Rightarrow> t \<noteq> [] \<and> t \<notin> spawned_tasks w)"
    by (rule assms(1) [unfolded sober_intake_def, THEN spec, THEN spec, THEN spec, THEN spec])
  then show "swRows w' = swRows w" "swSpawned w' = swSpawned w" "reopenings_noted w w'" "res = Inr t \<Longrightarrow> t \<noteq> [] \<and> t \<notin> spawned_tasks w"
    by (simp_all add: assms(2))
qed

lemma fire_ok:
  assumes "sober_intake e" and "schedules_ok w" and "same_last (s # ss) (swRows w)" and "distinct (map sdId (s # ss))"
  shows "schedules_ok (snd (fire_schedule e n s (r, w))) \<and> same_last ss (swRows (snd (fire_schedule e n s (r, w))))"
proof -
  let ?w = "advance_slot e n s w"
  have a: "schedules_ok ?w \<and> same_last (s # ss) (swRows ?w)"
    unfolding advance_slot_def using update_row_ok [OF assms(2)] assms(3) by simp
  obtain res w' where sp: "seSpawn e (sdPrompt s) (resolveWorkspaceId e (sdWorkspace s)) (''schedule:'' @ sdId s) ?w = (res, w')"
    by (cases "seSpawn e (sdPrompt s) (resolveWorkspaceId e (sdWorkspace s)) (''schedule:'' @ sdId s) ?w")
  note w' = sober_at [OF assms(1) sp]
  have ok': "schedules_ok w'"
    using a w' last_or_ended_mono [of ?w w'] by (auto simp: schedules_ok_def)
  have last': "same_last (s # ss) (swRows w')" using a w'(1) by simp
  show ?thesis
  proof (cases "isTaskStillRunning e (sdLastTask s) ?w")
    case True
    then show ?thesis using a by (simp add: fire_schedule_def Let_def same_last_def)
  next
    case False
    show ?thesis
    proof (cases res)
      case (Inl msg)
      let ?g = "\<lambda>r. r\<lparr>sdLastRun := Some n, sdLastError := Some (take 2000 msg), sdUpdatedAt := n\<rparr>"
      have res: "snd (fire_schedule e n s (r, w)) = update_schedule_row (sdId s) ?g w'" using False sp Inl by (simp add: fire_schedule_def Let_def)
      have "same_last ss (swRows w')" using last' by (simp add: same_last_def)
      then show ?thesis unfolding res using update_row_ok [OF ok', of ?g "sdId s" ss] by (simp del: update_row_fields)
    next
      case (Inr t)
      let ?f = "\<lambda>r. r\<lparr>sdLastRun := Some n, sdLastTask := Some t, sdLastError := None, sdUpdatedAt := n\<rparr>"
      let ?v = "(update_schedule_row (sdId s) ?f w')\<lparr>swSpawned := swSpawned w' @ [(sdId s, t)]\<rparr>"
      have res: "snd (fire_schedule e n s (r, w)) = ?v" using False sp Inr by (simp add: fire_schedule_def Let_def)
      have old: "ended_once u w'" if "(sdId s, u) \<in> set (swSpawned w')" "x \<in> set (swRows w')" "sdId x = sdId s" for u x
      proof (rule ccontr)
        assume l: "\<not> ended_once u w'"
        then have "sdLastTask x = Some u" using ok' that by (fastforce simp: schedules_ok_def last_or_ended_def)
        then have "sdLastTask s = Some u" using last' that by (auto simp: same_last_def)
        moreover have "u \<noteq> []" using ok' that(1) by (auto simp: schedules_ok_def)
        ultimately have "task_ended u ?w" using False by (simp add: isTaskStillRunning_def)
        then have "ended_once u ?w" by (simp add: ended_once_def)
        moreover have "u \<in> spawned_tasks ?w" using that(1) w'(2) by (force simp: spawned_tasks_def)
        ultimately show False using ended_once_stays [OF w'(3)] l by blast
      qed
      have "last_or_ended ?v"
        unfolding last_or_ended_def
      proof (intro ballI, clarify)
        fix x' u assume x': "x' \<in> set (swRows ?v)" and u: "(sdId x', u) \<in> set (swSpawned ?v)" and l: "\<not> ended_once u ?v"
        obtain x where x: "x \<in> set (swRows w')" "x' = (if sdId x = sdId s then ?f x else x)" using x' by auto
        have idx: "sdId x = sdId x'" using x(2) by (auto split: if_splits)
        show "sdLastTask x' = Some u"
        proof (cases "sdId x = sdId s")
          case True
          have "(sdId s, u) \<notin> set (swSpawned w')" using old [OF _ x(1) True] l by auto
          then have "u = t" using u True idx by auto
          then show ?thesis using x(2) True by simp
        next
          case False
          then have "(sdId x, u) \<in> set (swSpawned w')" using u idx by auto
          then show ?thesis using ok' x False l by (fastforce simp: schedules_ok_def last_or_ended_def)
        qed
      qed
      moreover have "distinct (map sdId (swRows ?v))"
      proof -
        have "map sdId (swRows ?v) = map sdId (swRows w')" using same_ids [of ?f "sdId s" "swRows w'"] by simp
        then show ?thesis using ok' by (simp only: schedules_ok_def)
      qed
      moreover have "same_last ss (swRows ?v)"
        using last' assms(4) by (auto simp: same_last_def image_iff)
      ultimately show ?thesis using res ok' w'(4) [OF Inr] by (auto simp: schedules_ok_def)
    qed
  qed
qed

lemma fires_ok:
  assumes "sober_intake e" and "schedules_ok w" and "same_last ss (swRows w)" and "distinct (map sdId ss)"
  shows "schedules_ok (snd (foldl (\<lambda>x s. fire_schedule e n s x) (r, w) ss))"
  using assms(2-)
proof (induction ss arbitrary: r w)
  case (Cons s ss)
  obtain r' w' where f: "fire_schedule e n s (r, w) = (r', w')" by (cases "fire_schedule e n s (r, w)")
  show ?case using fire_ok [OF assms(1) Cons.prems, of n r] Cons.IH Cons.prems(3) by (simp add: f)
qed simp

lemma tick_ok: "sober_intake e \<Longrightarrow> schedules_ok w \<Longrightarrow> schedules_ok (snd (runSchedulerTick e n w))"
  unfolding runSchedulerTick_def
  by (rule fires_ok) (auto simp: schedules_ok_def due_schedules_def same_last_def distinct_map_filter distinct_map inj_on_def)

interpretation schedules: invariant_system schedules_init schedule_step schedules_ok
proof
  show "schedules_init w \<Longrightarrow> schedules_ok w" for w
    by (simp add: schedules_init_def schedules_ok_def last_or_ended_def)
  show "schedules_ok w \<Longrightarrow> schedule_step w w' \<Longrightarrow> schedules_ok w'" for w w'
  proof (erule schedule_stepE)
    fix e n assume "schedules_ok w" "w' = snd (runSchedulerTick e n w)" "sober_intake e"
    then show "schedules_ok w'" by (simp add: tick_ok)
  next
    fix i e n x assume ok: "schedules_ok w" and w': "w' = snd (createSchedule e i n x w)" and i: "i \<notin> sdId ` set (swRows w)" "i \<notin> fst ` set (swSpawned w)"
    show "schedules_ok w'"
    proof (cases "validateCronExpression e (siCron x)")
      case None
      then obtain row where row: "w' = w\<lparr>swRows := swRows w @ [row]\<rparr>" "sdId row = i" using w' by (simp add: createSchedule_def Let_def)
      have "(sdId row, t) \<notin> set (swSpawned w)" for t using i(2) row(2) by (auto simp: image_iff)
      then have "last_or_ended w'" using ok row(1) by (auto simp: schedules_ok_def last_or_ended_def)
      then show ?thesis using ok i(1) row by (simp add: schedules_ok_def)
    qed (use ok w' in \<open>simp add: createSchedule_def\<close>)
  next
    fix e i n p assume ok: "schedules_ok w" and w': "w' = snd (updateSchedule e i n p w)"
    have "schedules_ok (update_schedule_row i (patched e n p old) w)" for old
      using update_row_ok [OF ok, of "patched e n p old"] by (simp add: patched_def Let_def)
    then show "schedules_ok w'" using ok w' by (simp add: updateSchedule_def Let_def split: option.split)
  next
    fix i assume "schedules_ok w" "w' = snd (deleteSchedule i w)"
    then show "schedules_ok w'" by (auto simp: deleteSchedule_def schedules_ok_def last_or_ended_def distinct_map_filter)
  next
    assume "schedules_ok w" "swRows w' = swRows w" "swSpawned w' = swSpawned w" "reopenings_noted w w'"
    then show "schedules_ok w'" using last_or_ended_mono [of w w'] by (auto simp: schedules_ok_def)
  qed
qed

text \<open>
  C39: A schedule does not overlap with itself unless one of its tasks is started again after its end. In every reachable state of the table, whatever the
  users do to the schedules and however the tasks go on, a task of a schedule that has not ended is the last one the schedule created, or had ended and was
  reopened; of those that were never reopened at most one has not ended.
\<close>

theorem schedules_do_not_overlap:
  assumes "reach schedules_init schedule_step w" and "s \<in> set (swRows w)"
  shows "(\<forall>t. (sdId s, t) \<in> set (swSpawned w) \<and> \<not> task_ended t w \<and> t \<notin> set (swReopened w) \<longrightarrow> sdLastTask s = Some t)
    \<and> card {t. (sdId s, t) \<in> set (swSpawned w) \<and> \<not> task_ended t w \<and> t \<notin> set (swReopened w)} \<le> 1"
proof -
  have "schedules_ok w" using schedules.reach_inv [OF assms(1)] .
  then have last: "sdLastTask s = Some t" if "(sdId s, t) \<in> set (swSpawned w)" "\<not> task_ended t w" "t \<notin> set (swReopened w)" for t
    using that assms(2) by (fastforce simp: schedules_ok_def last_or_ended_def ended_once_def)
  then have "{t. (sdId s, t) \<in> set (swSpawned w) \<and> \<not> task_ended t w \<and> t \<notin> set (swReopened w)} \<subseteq> {the (sdLastTask s)}"
    by fastforce
  from card_mono [OF _ this] last show ?thesis by simp
qed

section \<open>A concrete schedule\<close>

definition fresh_task :: "schedule_world \<Rightarrow> string" where
  "fresh_task w = List.concat (map snd (swSpawned w)) @ ''x''"

definition minute_env :: schedule_env where
  "minute_env = \<lparr>seCronError = (\<lambda>x. None), seCronNext = (\<lambda>x n. Some (n + 60000)), seLookupFails = (\<lambda>t. False), seDefaultWorkspace = ''main'',
     seSpawn = (\<lambda>p d c w. (Inr (fresh_task w), w\<lparr>swStates := (fresh_task w, ''EXECUTING'') # swStates w\<rparr>))\<rparr>"

definition no_schedules :: schedule_world where
  "no_schedules = \<lparr>swRows = [], swStates = [], swSpawned = [], swReopened = []\<rparr>"

definition one_schedule :: schedule_world where
  "one_schedule = snd (createSchedule minute_env ''s1'' 0
     \<lparr>siName = ''Nightly'', siCron = ''* * * * *'', siPrompt = ''Go'', siWorkspace = None, siEnabled = None\<rparr> no_schedules)"

lemma length_le_concat: "u \<in> set us \<Longrightarrow> length u \<le> length (List.concat us)"
  by (induction us) auto

lemma fresh_task_is_new: "fresh_task w \<notin> spawned_tasks w"
proof
  assume "fresh_task w \<in> spawned_tasks w"
  then have "fresh_task w \<in> set (map snd (swSpawned w))" by (simp add: spawned_tasks_def)
  then have "length (fresh_task w) \<le> length (List.concat (map snd (swSpawned w)))" by (rule length_le_concat)
  then show False by (simp add: fresh_task_def)
qed

lemma minute_env_sober: "sober_intake minute_env"
  using fresh_task_is_new by (auto simp: sober_intake_def minute_env_def reopenings_noted_def task_ended_def fresh_task_def)

theorem slots_fire_once_witness:
  "due_schedules 500000 (snd (runSchedulerTick minute_env 500000 one_schedule)) = []"
  using slots_fire_once [of minute_env 500000 one_schedule, OF _ _ prod.collapse [symmetric]]
  by (simp add: cron_moves_on_def intake_apart_def minute_env_def)

lemma one_schedule_rows: "swRows one_schedule = [\<lparr>sdId = ''s1'', sdName = ''Nightly'', sdCron = ''* * * * *'', sdPrompt = ''Go'', sdWorkspace = None,
    sdEnabled = True, sdLastRun = None, sdLastTask = None, sdLastError = None, sdNext = Some 60000, sdCreatedAt = 0, sdUpdatedAt = 0\<rparr>]"
  "swStates one_schedule = []" "swSpawned one_schedule = []" "swReopened one_schedule = []"
  by (simp_all add: one_schedule_def createSchedule_def validateCronExpression_def computeNextRunAt_def minute_env_def no_schedules_def Let_def
      js_trim_def trim_start_def trim_end_def is_ws_def truthy_opt_def)

lemma schedule_fires:
  "swSpawned (snd (runSchedulerTick minute_env 500000 one_schedule)) = [(''s1'', ''x'')]"
  "\<exists>r. swRows (snd (runSchedulerTick minute_env 500000 one_schedule)) = [r] \<and> sdId r = ''s1''"
  by (simp_all add: runSchedulerTick_def due_schedules_def one_schedule_rows is_due_def fire_schedule_def advance_slot_def update_schedule_row_def
      isTaskStillRunning_def minute_env_def fresh_task_def Let_def)

text \<open>Two ticks with the end of the first task in between, and then the first task is started again.\<close>

definition set_states :: "(string \<times> string) list \<Rightarrow> string list \<Rightarrow> schedule_world \<Rightarrow> schedule_world" where
  "set_states xs reopened w = w\<lparr>swStates := xs, swReopened := reopened @ swReopened w\<rparr>"

definition first_tick :: schedule_world where
  "first_tick = snd (runSchedulerTick minute_env 500000 one_schedule)"

definition second_tick :: schedule_world where
  "second_tick = snd (runSchedulerTick minute_env 600000 (set_states [(''x'', ''COMPLETED'')] [] first_tick))"

definition third_state :: schedule_world where
  "third_state = set_states [(''x'', ''EXECUTING''), (''xx'', ''EXECUTING'')] [''x''] second_tick"

lemma tick_worlds:
  "swStates first_tick = [(''x'', ''EXECUTING'')]" "swSpawned first_tick = [(''s1'', ''x'')]" "swReopened first_tick = []"
  "swStates second_tick = [(''xx'', ''EXECUTING''), (''x'', ''COMPLETED'')]" "swSpawned second_tick = [(''s1'', ''x''), (''s1'', ''xx'')]"
  "swReopened second_tick = []" "map (\<lambda>r. (sdId r, sdLastTask r)) (swRows second_tick) = [(''s1'', Some ''xx'')]"
  by code_simp+

lemma third_state_reached: "reach schedules_init schedule_step third_state"
proof -
  have "reach schedules_init schedule_step no_schedules" by (rule reach_init) (simp add: schedules_init_def no_schedules_def)
  then have "reach schedules_init schedule_step one_schedule"
    unfolding one_schedule_def by (rule reach_step) (rule step_create; simp add: no_schedules_def)
  then have "reach schedules_init schedule_step first_tick"
    unfolding first_tick_def by (rule reach_step) (rule step_tick [OF minute_env_sober])
  then have "reach schedules_init schedule_step (set_states [(''x'', ''COMPLETED'')] [] first_tick)"
    by (rule reach_step)
      (rule step_tasks; simp add: tick_worlds set_states_def reopenings_noted_def spawned_tasks_def task_ended_def TERMINAL_TASK_STATES_def)
  then have "reach schedules_init schedule_step second_tick"
    unfolding second_tick_def by (rule reach_step) (rule step_tick [OF minute_env_sober])
  then show ?thesis
    unfolding third_state_def
    by (rule reach_step)
      (rule step_tasks; simp add: tick_worlds set_states_def reopenings_noted_def spawned_tasks_def task_ended_def TERMINAL_TASK_STATES_def)
qed

theorem schedules_do_not_overlap_witness:
  "\<exists>r. swRows third_state = [r] \<and> \<not> task_ended ''xx'' third_state \<and> sdLastTask r = Some ''xx''
     \<and> \<not> task_ended ''x'' third_state \<and> ''x'' \<in> set (swReopened third_state)"
proof -
  obtain r where r: "swRows third_state = [r]" "sdId r = ''s1''" "swSpawned third_state = [(''s1'', ''x''), (''s1'', ''xx'')]"
    "swStates third_state = [(''x'', ''EXECUTING''), (''xx'', ''EXECUTING'')]" "swReopened third_state = [''x'']"
    using tick_worlds(4-7) by (auto simp: third_state_def set_states_def map_eq_Cons_conv)
  then have "\<not> task_ended ''xx'' third_state" "\<not> task_ended ''x'' third_state" by (simp_all add: task_ended_def TERMINAL_TASK_STATES_def)
  then show ?thesis using schedules_do_not_overlap [OF third_state_reached, of r] r by simp
qed

section \<open>Gaps\<close>

text \<open>
  The slot is recomputed when a patch names the enablement, also when it does not change it: saving an enabled schedule that is due with
  \<open>enabled: true\<close> moves its slot on, and the run that was due is lost.
\<close>

lemma saving_skips_a_due_run:
  "due_schedules 500000 one_schedule \<noteq> []"
  "due_schedules 500000 (snd (updateSchedule minute_env ''s1'' 500000
     \<lparr>spName = Some ''Nightly'', spCron = None, spPrompt = None, spWorkspace = None, spEnabled = Some True\<rparr> one_schedule)) = []"
  by (simp_all add: due_schedules_def one_schedule_rows is_due_def updateSchedule_def getSchedule_def patch_refusal_def patched_def
      update_schedule_row_def computeNextRunAt_def minute_env_def Let_def)

text \<open>
  The tick works on the rows it read at its start: a schedule that is disabled while an earlier one is being handled is fired nevertheless, and
  has a slot again, although a disabled schedule is to have none.
\<close>

lemma disabled_schedule_fires:
  assumes "swRows one_schedule = [s]"
  shows "(let w = update_schedule_row ''s1'' (\<lambda>r. r\<lparr>sdEnabled := False, sdNext := None\<rparr>) one_schedule;
              (r, w') = fire_schedule minute_env 500000 s (\<lparr>stDue = 1, stFired = [], stSkipped = [], stFailed = []\<rparr>, w)
          in stFired r = [''s1''] \<and> map (\<lambda>r. (sdEnabled r, sdNext r)) (swRows w') = [(False, Some 560000)])"
  using assms
  by (simp add: one_schedule_rows fire_schedule_def advance_slot_def update_schedule_row_def isTaskStillRunning_def minute_env_def
      computeNextRunAt_def Let_def, clarsimp)

end
