(* ===== verification/Run_Control.thy ===== *)
theory Run_Control
  imports Run_Dispatch
begin

text \<open>
  The controls of a run (\<open>apps/api/src/services/run-control-service.ts\<close>) and the choice of the session that a new run continues
  (\<open>resolveRuntimeContinuitySeedForRole\<close> in \<open>apps/api/src/services/runtime-continuity-service.ts\<close>). Files that an artifact refers to are
  an argument; the override of the workspace's strategy, which only the allocation reads, is left out, and the resumption of a leader is an
  argument of \<open>continueRun\<close>.
\<close>

section \<open>The directory of an earlier run\<close>

record metadata_row =
  arRun :: string
  arKind :: string
  arType :: string
  arAt :: int
  arRef :: string

text \<open>\<open>None\<close>: the file cannot be read, or does not parse.\<close>

type_synonym json_files = "string \<Rightarrow> json option"

definition latest_metadata :: "metadata_row list \<Rightarrow> string \<Rightarrow> metadata_row option" where
  "latest_metadata arts i = latest_by arAt (filter (\<lambda>a. arRun a = i \<and> arKind a = ''file'' \<and> arType a = ''execution_metadata'') arts)"

definition resolvePriorWorkdir :: "json_files \<Rightarrow> metadata_row list \<Rightarrow> string \<Rightarrow> string option" where
  "resolvePriorWorkdir files arts i =
    (case Option.bind (latest_metadata arts i) (\<lambda>a. files (arRef a)) of
       Some (JObj fs) \<Rightarrow> (case text_field fs ''workspaceDir'' of Some d \<Rightarrow> Some d | None \<Rightarrow> text_field fs ''runtimeWorkspaceDir'')
     | _ \<Rightarrow> None)"

section \<open>The retry of a run\<close>

datatype retry_result = RetryNotFound string | RetryActive string | RetryDone dispatch_result

definition prior_session :: "run_row \<Rightarrow> string option" where
  "prior_session r = (case rnSession r of Some s \<Rightarrow> Some s | None \<Rightarrow> rnPriorSession r)"

definition retry_adapter :: "run_row \<Rightarrow> string option" where
  "retry_adapter r = (case rnExecutor r of Some a \<Rightarrow> Some a | None \<Rightarrow> map_option routeAdapter (getDefaultRoleRoutingForRole (rnRole r)))"

definition armed :: "string option \<Rightarrow> int \<Rightarrow> run_row \<Rightarrow> run_row \<Rightarrow> run_row" where
  "armed workdir n old r = r\<lparr>rnState := ''QUEUED'', rnSession := None, rnPriorSession := prior_session old,
     rnPriorWorkdir := (case workdir of Some d \<Rightarrow> Some d | None \<Rightarrow> rnPriorWorkdir old),
     rnPolicy := resolveRuntimeContinuityPolicy (retry_adapter old) (prior_session old),
     rnResumeAt := None, rnResumeFailure := None, rnCompletedAt := None, rnUpdatedAt := n\<rparr>"

definition arm_retry :: "string option \<Rightarrow> run_row \<Rightarrow> job_row \<Rightarrow> run_world \<Rightarrow> run_world" where
  "arm_retry workdir r t w =
    (let n = rwNow w;
         w1 = update_run (rnId r) (armed workdir n r) w;
         w2 = update_job (jbId t) (\<lambda>x. x\<lparr>jbState := ''IN_PROGRESS'', jbUpdatedAt := n, jbCompletedAt := None\<rparr>) w1
     in lifecycle ''task.orchestration.transition'' t r
          [(''message'', JStr (''Manual retry requested for '' @ rnRole r)), (''transition'', JStr ''retry''), (''reason'', JStr ''manual_retry''),
           (''action'', JStr ''retry''), (''state'', JStr ''IN_PROGRESS''), (''taskState'', JStr ''IN_PROGRESS''), (''roleId'', JStr (rnRole r)),
           (''runId'', JStr (rnId r))] w2)"

definition retryRun :: "dispatch_env \<Rightarrow> json_files \<Rightarrow> metadata_row list \<Rightarrow> string \<Rightarrow> run_world \<Rightarrow> retry_result \<times> run_world" where
  "retryRun e files arts i w =
    (case run_by_id i w of
       None \<Rightarrow> (RetryNotFound (''Run not found: '' @ i), w)
     | Some r \<Rightarrow>
         if rnState r = ''RUNNING'' then (RetryActive (''Run '' @ i @ '' is already running and cannot be retried''), w)
         else case job_by_id (rnTask r) w of
                None \<Rightarrow> (RetryNotFound (''Task not found for run: '' @ i), w)
              | Some t \<Rightarrow>
                  (case dispatchRun e (rnId r) (arm_retry (resolvePriorWorkdir files arts (rnId r)) r t w) of
                     (None, w') \<Rightarrow> (RetryNotFound (''Run not found after retry enqueue: '' @ i), w')
                   | (Some res, w') \<Rightarrow> (RetryDone res, w')))"

datatype continue_result = ContinueOk string | ContinueNotFound string | ContinueActive string

definition continueRun ::
  "(string \<Rightarrow> string \<Rightarrow> string \<Rightarrow> run_world \<Rightarrow> (bool \<times> string) \<times> run_world) \<Rightarrow> string \<Rightarrow> run_world \<Rightarrow> continue_result \<times> run_world" where
  "continueRun resume i w =
    (case run_by_id i w of
       None \<Rightarrow> (ContinueNotFound (''Run not found: '' @ i), w)
     | Some r \<Rightarrow>
         if rnState r = ''RUNNING'' then (ContinueActive (''Run '' @ i @ '' is already running and cannot be continued''), w)
         else case job_by_id (rnTask r) w of
                None \<Rightarrow> (ContinueNotFound (''Task not found for run: '' @ i), w)
              | Some t \<Rightarrow> (case resume (rnTask r) i (jbWorkspace t) w of
                  ((True, reason), w') \<Rightarrow> (ContinueOk reason, w') | ((False, reason), w') \<Rightarrow> (ContinueNotFound reason, w')))"

section \<open>The session that a new run continues\<close>

record continuity_seed =
  csTask :: string
  csRun :: string
  csSession :: string
  csWorkdir :: "string option"
  csState :: string
  csUpdatedAt :: int

definition DEFAULT_LOOKBACK_TASK_LIMIT :: nat where "DEFAULT_LOOKBACK_TASK_LIMIT = 16"

definition newest_first :: "job_row list \<Rightarrow> job_row list" where
  "newest_first ts = sort_key (\<lambda>t. - jbUpdatedAt t) ts"

definition listRecentByWorkspaceId :: "string \<Rightarrow> nat \<Rightarrow> run_world \<Rightarrow> job_row list" where
  "listRecentByWorkspaceId d n w = take n (newest_first (filter (\<lambda>t. jbWorkspace t = d) (rwJobs w)))"

definition listRecentByRootChannelBindingId :: "string \<Rightarrow> nat \<Rightarrow> string option \<Rightarrow> run_world \<Rightarrow> job_row list" where
  "listRecentByRootChannelBindingId b n skip w =
    take n (newest_first (filter (\<lambda>t. jbBinding t = Some b \<and> \<not> (truthy_str skip \<and> jbId t = the skip)) (rwJobs w)))"

definition recent_tasks :: "string \<Rightarrow> string option \<Rightarrow> string option \<Rightarrow> nat \<Rightarrow> run_world \<Rightarrow> job_row list" where
  "recent_tasks d binding skip n w =
    (if truthy_str binding then listRecentByRootChannelBindingId (the binding) n skip w
     else take n (filter (\<lambda>t. Some (jbId t) \<noteq> skip) (listRecentByWorkspaceId d (n + 1) w)))"

text \<open>A current session that is blank hides the prior one: \<open>??\<close> only skips what is missing.\<close>

definition seed_session :: "run_row \<Rightarrow> string option" where
  "seed_session r = (case rnSession r of Some s \<Rightarrow> trimmed s | None \<Rightarrow> Option.bind (rnPriorSession r) trimmed)"

definition seed_candidates :: "string \<Rightarrow> string list \<Rightarrow> run_world \<Rightarrow> run_row list" where
  "seed_candidates role ids w = filter (\<lambda>r. rnRole r = role \<and> rnTask r \<in> set ids \<and> rnState r \<noteq> ''CREATED'' \<and> rnState r \<noteq> ''QUEUED''
     \<and> seed_session r \<noteq> None) (rwRuns w)"

definition resolveRuntimeContinuitySeedForRole ::
  "json_files \<Rightarrow> metadata_row list \<Rightarrow> string \<Rightarrow> string \<Rightarrow> string option \<Rightarrow> string option \<Rightarrow> nat option \<Rightarrow> run_world \<Rightarrow> continuity_seed option" where
  "resolveRuntimeContinuitySeedForRole files arts d role binding skip n w =
    (let ids = map jbId (recent_tasks d binding skip (case n of Some k \<Rightarrow> k | None \<Rightarrow> DEFAULT_LOOKBACK_TASK_LIMIT) w)
     in case latest_by rnUpdatedAt (seed_candidates role ids w) of
          None \<Rightarrow> None
        | Some r \<Rightarrow> Some \<lparr>csTask = rnTask r, csRun = rnId r, csSession = the (seed_session r),
            csWorkdir = (case resolvePriorWorkdir files arts (rnId r) of Some x \<Rightarrow> Some x | None \<Rightarrow> rnPriorWorkdir r),
            csState = rnState r, csUpdatedAt = rnUpdatedAt r\<rparr>)"

section \<open>What a retry does\<close>

lemma armed_id [simp]: "rnId (armed d n r x) = rnId x"
  by (simp add: armed_def)

lemma armed_row:
  assumes "run_by_id i w = Some r"
  shows "run_by_id i (arm_retry d r t w) = Some (armed d (rwNow w) r r)"
  using assms run_by_id_id [OF assms] by (simp add: arm_retry_def Let_def lifecycle_def run_world_simps)

lemma policy_is_policy: "resolveRuntimeContinuityPolicy a s = None \<longleftrightarrow> Option.bind s trimmed = None"
  "is_policy (resolveRuntimeContinuityPolicy a s) \<longleftrightarrow> Option.bind s trimmed \<noteq> None"
  by (auto simp: resolveRuntimeContinuityPolicy_def is_policy_def split: option.split)

text \<open>
  A retry is refused exactly for a run that is RUNNING or has lost its row or its task. Otherwise the run that is dispatched is QUEUED, so that
  no state of it blocks the dispatch; and the dispatch goes back to a session exactly when the run had one, its current one first.
\<close>

theorem retry_goes_back_to_the_session:
  assumes "run_by_id i w = Some r" and "job_by_id (rnTask r) w = Some t" and "rnState r \<noteq> ''RUNNING''"
  shows "\<exists>armed_world. retryRun e files arts i w = (case dispatchRun e i armed_world of
        (None, w') \<Rightarrow> (RetryNotFound (''Run not found after retry enqueue: '' @ i), w') | (Some res, w') \<Rightarrow> (RetryDone res, w'))
    \<and> (case run_by_id i armed_world of None \<Rightarrow> False | Some a \<Rightarrow>
         rnState a = ''QUEUED'' \<and> buildRuntimeDispatchBlock a x = None
         \<and> map_option rdSession (resolveResumeDispatchDecision a x) = Option.bind (prior_session r) trimmed)"
proof -
  have id: "rnId r = i" by (rule run_by_id_id [OF assms(1)])
  let ?d = "resolvePriorWorkdir files arts i"
  let ?a = "armed ?d (rwNow w) r r"
  have row: "run_by_id i (arm_retry ?d r t w) = Some ?a" by (rule armed_row [OF assms(1)])
  have state: "rnState ?a = ''QUEUED''" "rnPriorSession ?a = prior_session r" "rnPolicy ?a = resolveRuntimeContinuityPolicy (retry_adapter r) (prior_session r)"
    by (simp_all add: armed_def)
  have block: "buildRuntimeDispatchBlock ?a x = None" using state(1) by (simp add: buildRuntimeDispatchBlock_def)
  have resume: "map_option rdSession (resolveResumeDispatchDecision ?a x) = Option.bind (prior_session r) trimmed"
    using policy_is_policy(2) [of "retry_adapter r" "prior_session r"]
    by (auto simp: resolveResumeDispatchDecision_def state Let_def split: option.split)
  have "retryRun e files arts i w = (case dispatchRun e i (arm_retry ?d r t w) of
        (None, w') \<Rightarrow> (RetryNotFound (''Run not found after retry enqueue: '' @ i), w') | (Some res, w') \<Rightarrow> (RetryDone res, w'))"
    using assms(2,3) by (simp add: retryRun_def assms(1) id)
  then show ?thesis using row state(1) block resume by (intro exI [of _ "arm_retry ?d r t w"]) simp
qed

theorem retry_refusals:
  "(case retryRun e files arts i w of (RetryActive m, w') \<Rightarrow> w' = w \<and> map_option rnState (run_by_id i w) = Some ''RUNNING'' | _ \<Rightarrow> True)"
  by (auto simp: retryRun_def split: option.split prod.split)

text \<open>The seed belongs to the last updated run of the role, among those of the recent tasks that have a session.\<close>

theorem seed_is_the_latest:
  assumes "resolveRuntimeContinuitySeedForRole files arts d role binding skip n w = Some c"
  shows "\<exists>r\<in>set (rwRuns w). csRun c = rnId r \<and> rnRole r = role \<and> seed_session r = Some (csSession c)
    \<and> (\<forall>x\<in>set (seed_candidates role (map jbId (recent_tasks d binding skip (case n of Some k \<Rightarrow> k | None \<Rightarrow> DEFAULT_LOOKBACK_TASK_LIMIT) w)) w).
        rnUpdatedAt x \<le> csUpdatedAt c)"
proof -
  let ?cs = "seed_candidates role (map jbId (recent_tasks d binding skip (case n of Some k \<Rightarrow> k | None \<Rightarrow> DEFAULT_LOOKBACK_TASK_LIMIT) w)) w"
  obtain r where r: "latest_by rnUpdatedAt ?cs = Some r" "csRun c = rnId r" "csSession c = the (seed_session r)" "csUpdatedAt c = rnUpdatedAt r"
    using assms by (auto simp: resolveRuntimeContinuitySeedForRole_def Let_def split: option.splits)
  have "r \<in> set ?cs" by (rule latest_by_in [OF r(1)])
  then show ?thesis using r latest_by_max [OF r(1)] by (auto simp: seed_candidates_def)
qed

text \<open>A current session that is blank hides the prior one, both from the choice of a seed and from a retry.\<close>

lemma blank_session_hides_the_prior_one:
  "seed_session ((sample_run ''r1'' ''t1'' ''coder'' ''FAILED'')\<lparr>rnSession := Some '' '', rnPriorSession := Some ''s0''\<rparr>) = None
   \<and> prior_session ((sample_run ''r1'' ''t1'' ''coder'' ''FAILED'')\<lparr>rnSession := Some '' '', rnPriorSession := Some ''s0''\<rparr>) = Some '' ''"
  by (simp add: seed_session_def prior_session_def sample_run_def trimmed_def js_trim_def trim_start_def trim_end_def is_ws_def)

end
