(* ===== verification/Spec2Isabelle.thy ===== *)
theory Spec2Isabelle
  imports Goal_Loop Conversation_Gaps Channel_Claims Turn_Timing Doom_Loop Sensitive_Paths Risk_Classifier Command_Rules Circuit_Breaker Leader_Messages Session_Resume
    Plan_Recovery Plan_Bash Token_Budget Permission_Mode Static_Gate Review_Router Review_Store Review_Draft
    Apply_Lock Apply_Gate Leader_Apply Workspace_Path Tool_Executor Tool_Gate Bash_Gate
    Message_Compaction Run_Recovery_Facts Schedules Run_Control
begin

text \<open>
  A verification of the decision-making core of Magister, a server that runs coding agents and lets a leading
  agent review and apply their changes. Paths are relative to \<open>apps/api/src\<close> of the repository unless they name
  another part of it.

  \<^bold>\<open>The program.\<close> A leader runs in a loop over a transcript of messages (\<open>services/manager-automation/autonomous-loop\<close>):
  it calls tools, plans, is resumed from checkpoints and watched for repetitions. Every tool call is scored,
  and a command needs an approval unless a persistent rule or its score lets it pass. What an agent run
  changed becomes a draft, which a static gate classifies; the draft becomes a row of the table of change
  reviews, which a router gives to the user or to the leader; the decision on the row and its application to the
  workspace, under a lock and through git, follow (\<open>services/safe-apply\<close>).

  \<^bold>\<open>The theories.\<close>
  \<^item> \<open>Js_Prelude\<close>: strings, JSON values and lists as the language has them, the shared collections of
    simplification rules, and the locales \<open>invariant_system\<close> and \<open>monotone_system\<close> of state machines;
    \<open>Js_Regex\<close>: regular expressions with a backtracking matcher; \<open>Js_Number\<close>: the integer parsing and the
    rounded products of doubles the code uses.
  \<^item> \<open>Doom_Loop\<close> (\<open>doom-loop-detector.ts\<close>): the window of fingerprints as a list. It reports a loop exactly at
    the third occurrence among the last twenty.
  \<^item> \<open>Sensitive_Paths\<close>, \<open>Risk_Classifier\<close> (\<open>sensitive-internal-paths.ts\<close>, \<open>risk-classifier.ts\<close>): the tables of patterns
    and the scoring of a tool call. What a LOW score of a bash command implies, what is always critical, and
    which commands slip through.
  \<^item> \<open>Command_Rules\<close> (\<open>command-rule-matcher.ts\<close>, \<open>repositories/command-approval-rule-repository.ts\<close>): the rules as
    a list of rows, tokenising, matching and validation. A rule fires only when it may.
  \<^item> \<open>Circuit_Breaker\<close> (\<open>executor-circuit-breaker-service.ts\<close>): the store file with its events; a refinement of an
    abstract breaker per adapter, and the lost update of overlapping writers.
  \<^item> \<open>Leader_Messages\<close>, \<open>Session_Resume\<close> (\<open>autonomous-types.ts\<close>, \<open>message-pairing.ts\<close>,
    \<open>leader-session-resume-service.ts\<close>): messages as a datatype, the pruning of unanswered calls, and the
    pipeline of a resume as the three modules compose it. Both are stated over the events of a transcript
    (which calls and answers it holds, in order) and over everything said in it.
  \<^item> \<open>Plan_Mode\<close> (\<open>plan-mode-state.ts\<close>): the three states, their derivation from messages and from the event log, the answers
    of the user and the preflight of a turn. \<open>Plan_Recovery\<close> (\<open>autonomous-loop-service.ts\<close>, the plan tools of
    \<open>manager-tools-adapter.ts\<close>, \<open>process-task-intent-service.ts\<close>): the state in memory with prompts, answers of the model, the
    forced entry of a plan-first run, compaction and restarts as the steps of an interpretation of \<open>invariant_system\<close>; a
    restart waits for an approval exactly when the loop did. A call of a plan tool that its gate admits is taken to go through.
  \<^item> \<open>Plan_Bash\<close> (\<open>plan-mode-bash-classifier.ts\<close>): the read-only check of plan mode and its gaps.
  \<^item> \<open>Token_Budget\<close> (\<open>token-budget.ts\<close>): estimates, split of the window and compaction trigger.
  \<^item> \<open>Permission_Mode\<close>, \<open>Static_Gate\<close>, \<open>Review_Router\<close> (\<open>permission-mode-service.ts\<close>, \<open>static-gate-service.ts\<close>,
    \<open>review-assignment-router.ts\<close>): exact characterisations of the automatic pass and of the leader's inbox, and
    how the three fit together.
  \<^item> \<open>Review_Store\<close> (\<open>repositories/change-review-repository.ts\<close> and the row updates of the apply, review-tool and
    verdict services and of the discard route): the table as a list of rows, one definition per operation, and
    the step relation \<open>review_step\<close> of all of them. It is an interpretation of \<open>monotone_system\<close>: the invariant
    is \<open>table_ok\<close>, the preorder \<open>table_le\<close>, built on the order of decision states; the properties are what holds
    of every reachable table, what never changes again, the exclusiveness of the leader's slot, and the exact
    effect of the recovery of orphans.
  \<^item> \<open>Review_Draft\<close> (\<open>change-review-state-service.ts\<close>): from the stored draft to the row, which is a step of that
    machine, and the wait for a decision, a \<open>partial_function\<close> that is shown to return.
  \<^item> \<open>Apply_Lock\<close> (\<open>apply-lock-service.ts\<close>): the file accesses of any number of clients; an
    interpretation of \<open>invariant_system\<close> that records every lock taken from another client. With take-overs that are not
    disturbed the lock excludes, is taken only from the dead and the expired, and no release removes another client's file; without
    that condition there are two holders, though no lock was stale.
  \<^item> \<open>Apply_Gate\<close>, \<open>Leader_Apply\<close> (\<open>apply-gate-service.ts\<close>, \<open>leader-apply-service.ts\<close>): the operator's and the
    leader's apply, with the log of everything done to the workspace. What success establishes, what a failure
    leaves behind, and the races and omissions found.

  \<^item> \<open>Js_Path\<close>, \<open>Path_Sensitivity\<close>, \<open>Extra_Permissions\<close>, \<open>Execution_Sandbox\<close>, \<open>Workspace_Path\<close>
    (\<open>path-sensitivity.ts\<close>, \<open>additional-permissions.ts\<close>, \<open>execution-sandbox-service.ts\<close>, \<open>manager-tools/workspace-path.ts\<close>):
    the paths of the language's library; which paths may be granted; from the raw request to the profile; the mounts
    and the argument list of the sandbox, over which it is shown what a command sees and where it can write; and the
    containment of the tools' paths under links.
  \<^item> \<open>Tool_Executor\<close> (\<open>streaming-tool-executor.ts\<close>): every piece of code between two awaits as a step; an
    interpretation of \<open>invariant_system\<close>. Unsafe tools run alone, results come once, everything ends.
  \<^item> \<open>Execution_Policy\<close>, \<open>Tool_Gate\<close> (\<open>leader-execution-policy-service.ts\<close>, \<open>tool-execution.ts\<close>): the policy of a turn
    from the prompt with its escalations, and one tool call through all its gates.
  \<^item> \<open>Approval_Store\<close>, \<open>Approval_Trust\<close>, \<open>Bash_Gate\<close> (\<open>command-approval-service.ts\<close>, \<open>routes/approvals.ts\<close>, the bash
    tool of \<open>manager-tools-adapter.ts\<close>): the table of approvals under interleaved channels, waiters and expiry, the
    ledger of trust, and what it takes for a command to reach the shell.
  \<^item> \<open>Progress_Artifact\<close>, \<open>Message_Compaction\<close> (\<open>progress-artifacts.ts\<close>, \<open>message-compaction.ts\<close> and its pass in
    \<open>autonomous-loop-service.ts\<close>): the block that reminds the model of its session, and the compaction of the transcript.
  \<^item> \<open>Conversation_Parts\<close>, \<open>Conversation_Handlers\<close>, \<open>Conversation_Teammates\<close>, \<open>Conversation_Projector\<close>
    (\<open>apps/web/src/components/chat/conversation/projector.ts\<close>, \<open>types.ts\<close>): the reducer of the web client from events
    to the conversation, in four layers: parts and streams, the other handlers, the nested transcripts and the end of
    a turn, and whole conversations. \<open>Conversation_Stream\<close> shows what every handler keeps, \<open>Conversation_Replay\<close> that
    logs may be delivered again, \<open>Conversation_Gaps\<close> where the code departs from its contract.
  \<^item> \<open>Turn_Timing\<close> (\<open>turn-timing-service.ts\<close>): the pauses of a turn, merged; the time is split exactly by
    whether an event of the turn has asked for an approval that no later event of the turn has resolved.
  \<^item> \<open>Channel_Claims\<close> (\<open>channel-inbound-event-dedupe-repository.ts\<close>, \<open>channel-outbound-delivery-claim-repository.ts\<close> and
    their use by \<open>process-channel-event-service.ts\<close> and \<open>feishu-outbound-delivery-service.ts\<close>): the claims of chat
    messages as tables with any number of clients, interpretations of \<open>monotone_system\<close>; one handler at a time, one
    recorded outcome, and the event that is lost.
  \<^item> \<open>Task_Worker\<close> (\<open>task-worker.ts\<close>): the pool of runs, an interpretation of \<open>invariant_system\<close>; one run per task, no starvation,
    and the gap in which a cancellation finds nothing.
  \<^item> \<open>Goal_Plan\<close>, \<open>Goal_State\<close>, \<open>Goal_Prompt\<close>, \<open>Fresh_Context\<close> (\<open>services/goal-mode\<close> and the goal tools of
    \<open>manager-tools-adapter.ts\<close>): the plan file, the goal columns of a task with every operation of the services and tools, the
    prompt that continues a goal, and the trim of its checkpoint. \<open>Goal_Turn\<close>, \<open>Goal_Control\<close>
    (\<open>process-task-intent-service.ts\<close>, \<open>routes/tasks.ts\<close>, \<open>feishu-channel-command-service.ts\<close>): the end of a turn with the hook
    that continues a goal, the start of a run, and the controls of a goal and its task; \<open>goal_op\<close> is the union of all these
    operations. \<open>Goal_Lifecycle\<close> refines them to the automaton of a goal's life and interprets \<open>monotone_system\<close>;
    \<open>Goal_Loop\<close> holds the properties, the bounds of the loop among them, and the gaps.
  \<^item> \<open>Js_Record\<close>: objects used as dictionaries, and the locale \<open>normaliser\<close>, the contract between a function that reads a record out
    of an untrusted value and the one that writes it. \<open>Executor_Catalog\<close>, \<open>Executor_Config\<close>, \<open>Executor_Settings\<close>
    (\<open>executors/executor-catalog.ts\<close>, \<open>services/executor-config-service.ts\<close>, \<open>local-secret-store-service.ts\<close> and their neighbours): the
    executors, the store of secrets, the configuration file with its normalisers, each an interpretation of \<open>normaliser\<close>, readiness, and
    the operations of the settings page; the file refines the configuration, and a deletion is refused, finds nothing to do, or
    leaves no reference and everything else as it was.
  \<^item> \<open>Run_Records\<close>, \<open>Run_Dispatch\<close> (\<open>repositories\<close>, \<open>services/dispatch-run-service.ts\<close>, \<open>dispatch-run\<close>): the tables of runs and
    the dispatch of a run over its targets. An executor is called only where it may be, each one once, and an outage is a verdict.
  \<^item> \<open>Js_Date\<close>, \<open>Teammate_Mail\<close>, \<open>Run_Recovery\<close>, \<open>Run_Recovery_Facts\<close> (\<open>manager-automation/teammate-completion-service.ts\<close>,
    \<open>runtime-recovery-service.ts\<close>, \<open>crash-recovery-service.ts\<close>): the notes of finished teammates, the periodic tick that repairs runs
    and tasks with all its sweeps, its loop, and the recovery at the start of the server; which rows each sweep handles and what becomes of
    them, for a dispatcher that writes to the rows of its own run and task, and where two sweeps of one tick work against each other.
  \<^item> \<open>Task_Retention\<close>, \<open>Schedules\<close>, \<open>Run_Control\<close> (\<open>services/task-retention-service.ts\<close>, \<open>scheduled-task-service.ts\<close>,
    \<open>run-control-service.ts\<close>): the deletion of old tasks, recurring tasks, and the retry of a run. An ended task goes with all it
    owns exactly when it is too old or as many as the cap allows have ended later; a schedule fires each slot once and does not overlap with
    itself unless a task of it is started again after its end.

  \<^bold>\<open>Conventions.\<close> Objects are records, unions are datatypes, errors are the left side of a sum or an option. A
  string is a list of code units below 256; text beyond that range, and the locale-dependent parts of the language,
  are not represented. A number field is an integer; where the code multiplies by a fraction the rounding of
  doubles is written out. Clocks, random ids, hashes, git, files, other tables and the schema library are
  arguments: git in particular may answer every command with anything that depends on all that was done before.
  In \<open>Apply_Gate\<close> and \<open>Leader_Apply\<close> the other clients of the table act between any two accesses of the modelled one,
  by arbitrary functions.

  \<^bold>\<open>Bounds and fuel.\<close> The regular-expression matcher recurses on the input, with a bound of its length for the stars,
  which suffices because an iteration consumes a character. The five steps of \<open>acquire_alone\<close> are the longest path through
  an undisturbed acquisition. All other loops are structural recursions, or the partial function of the wait.

  \<^bold>\<open>Not modelled.\<close> The execution of models, tools, processes and git; HTTP, chat clients and the view of the web
  client; the events and messages that only report; memory and the optimizer of objectives.

  \<^bold>\<open>Order of the work.\<close> The guards of tool calls and the review and application of changes came first, since they
  protect the user's machine; the transcript, its resumption and the plan mode second; then the extra permissions and
  the sandbox, the streaming executor, the approvals, compaction, the conversation of the web client, the claims of chat
  messages, the pool of runs and goal mode; last the configuration of executors, the dispatch of runs and their recovery.
\<close>

end
